(* ===== verification/Ob_Prelude.thy ===== *)
theory Ob_Prelude
  imports Main "HOL-Library.Word"
begin

text \<open>
  Shared vocabulary of the development: the machine types of the storage engine
  (\<open>src/src/observer/defs.h\<close>), undefined behaviour as a missing result, and the list, word and
  option lemmas that several components use.  Non-negative \<^verbatim>\<open>int\<close> values (sizes, slots,
  offsets) are \<^typ>\<open>nat\<close> or \<^typ>\<open>int\<close>; where a subtraction can leave the 32-bit range the
  wrap-around is written out with \<open>wrap32\<close>.
\<close>

unbundle bit_operations_syntax

section \<open>Machine types\<close>

type_synonym byte = "8 word"

text \<open>Memory seen from a pointer: the byte at offset \<open>i\<close> is \<open>m i\<close>.\<close>

type_synonym mem = "nat \<Rightarrow> byte"

type_synonym PageNum = int
type_synonym SlotNum = int

text \<open>Two's complement reading of an \<^verbatim>\<open>int32_t\<close> result.\<close>

definition wrap32 :: "int \<Rightarrow> int" where
  "wrap32 x = (x + 2 ^ 31) mod 2 ^ 32 - 2 ^ 31"

lemma wrap32_id [simp]: "- (2 ^ 31) \<le> x \<Longrightarrow> x < 2 ^ 31 \<Longrightarrow> wrap32 x = x"
  by (simp add: wrap32_def)

lemma wrap32_range: "- (2 ^ 31) \<le> wrap32 x" "wrap32 x < 2 ^ 31"
proof -
  have "0 \<le> (x + 2 ^ 31) mod 2 ^ 32" "(x + 2 ^ 31) mod 2 ^ 32 < 2 ^ 32"
    by simp_all
  then show "- (2 ^ 31) \<le> wrap32 x" "wrap32 x < 2 ^ 31"
    by (simp_all add: wrap32_def)
qed

section \<open>Collections of facts\<close>

named_theorems mem_simps "reading memory after a write"
named_theorems rc_simps "return codes"

section \<open>Lists\<close>

text \<open>
  The specification of a bounded forward search: the first index in \<open>[start, limit)\<close> that
  satisfies \<open>P\<close>, or \<open>-1\<close>.
\<close>

definition first_from :: "(nat \<Rightarrow> bool) \<Rightarrow> nat \<Rightarrow> nat \<Rightarrow> int" where
  "first_from P start limit =
     (case List.find P [start..<limit] of None \<Rightarrow> - 1 | Some i \<Rightarrow> int i)"

lemma find_None_upt: "List.find P [a..<b] = None \<longleftrightarrow> (\<forall>i. a \<le> i \<and> i < b \<longrightarrow> \<not> P i)"
  by (auto simp: find_None_iff)

lemma find_Some_upt:
  "List.find P [a..<b] = Some i \<longleftrightarrow>
     a \<le> i \<and> i < b \<and> P i \<and> (\<forall>j. a \<le> j \<and> j < i \<longrightarrow> \<not> P j)"
proof
  assume "List.find P [a..<b] = Some i"
  then obtain k where k: "k < b - a" "P (a + k)" "i = a + k"
      "\<forall>j<k. \<not> P (a + j)"
    by (auto simp: find_Some_iff)
  then show "a \<le> i \<and> i < b \<and> P i \<and> (\<forall>j. a \<le> j \<and> j < i \<longrightarrow> \<not> P j)"
    by (auto simp: nat_le_iff_add)
next
  assume h: "a \<le> i \<and> i < b \<and> P i \<and> (\<forall>j. a \<le> j \<and> j < i \<longrightarrow> \<not> P j)"
  then show "List.find P [a..<b] = Some i"
    by (auto simp: find_Some_iff intro!: exI[of _ "i - a"])
qed

lemma first_from_least:
  assumes "a \<le> i" "i < b" "P i" "\<And>j. a \<le> j \<Longrightarrow> j < i \<Longrightarrow> \<not> P j"
  shows "first_from P a b = int i"
proof -
  have "List.find P [a..<b] = Some i"
    using assms by (simp add: find_Some_upt)
  then show ?thesis by (simp add: first_from_def)
qed

lemma first_from_none:
  assumes "\<And>i. a \<le> i \<Longrightarrow> i < b \<Longrightarrow> \<not> P i"
  shows "first_from P a b = - 1"
proof -
  have "List.find P [a..<b] = None"
    using assms by (simp add: find_None_upt)
  then show ?thesis by (simp add: first_from_def)
qed

lemma first_from_neg_iff:
  "first_from P a b = - 1 \<longleftrightarrow> (\<forall>i. a \<le> i \<and> i < b \<longrightarrow> \<not> P i)"
  by (auto simp: first_from_def find_None_upt find_Some_upt split: option.splits)

lemma first_from_nonneg:
  "first_from P a b \<noteq> - 1 \<Longrightarrow>
     \<exists>i. first_from P a b = int i \<and> a \<le> i \<and> i < b \<and> P i \<and> (\<forall>j. a \<le> j \<and> j < i \<longrightarrow> \<not> P j)"
  by (auto simp: first_from_def find_Some_upt split: option.splits)

lemma first_from_cong:
  "(\<And>i. a \<le> i \<Longrightarrow> i < b \<Longrightarrow> P i = Q i) \<Longrightarrow> first_from P a b = first_from Q a b"
proof -
  assume "\<And>i. a \<le> i \<Longrightarrow> i < b \<Longrightarrow> P i = Q i"
  then have "List.find P [a..<b] = List.find Q [a..<b]"
    by (intro find_cong) auto
  then show ?thesis by (simp add: first_from_def)
qed

section \<open>Bytes\<close>

text \<open>A mask \<^verbatim>\<open>1 << i\<close> selects one bit of a byte.\<close>

lemma and_exp_eq_0: "(b AND 2 ^ i = 0) = (\<not> bit b i)" if "i < 8" for b :: byte
proof
  assume z: "b AND 2 ^ i = 0"
  have "bit (b AND 2 ^ i) i = bit b i"
    using that by (simp add: bit_and_iff bit_exp_iff)
  with z show "\<not> bit b i" by simp
next
  assume n: "\<not> bit b i"
  show "b AND 2 ^ i = 0"
    by (rule bit_word_eqI) (use n in \<open>auto simp: bit_and_iff bit_exp_iff\<close>)
qed

lemma and_mask_eq_0: "(b AND push_bit i 1 = 0) = (\<not> bit b i)" if "i < 8" for b :: byte
  using and_exp_eq_0 [OF that] by simp

lemma byte_full_bit: "bit (- 1 :: byte) i = (i < 8)"
  by (simp add: bit_simps)

lemma byte_zero_or_bit: "b \<noteq> 0 \<Longrightarrow> \<exists>i<8. bit (b :: byte) i"
proof (rule ccontr)
  assume "b \<noteq> 0" and none: "\<not> (\<exists>i<8. bit b i)"
  have "b = 0"
    by (rule bit_word_eqI) (use none in simp)
  with \<open>b \<noteq> 0\<close> show False by simp
qed

end
