(* ===== verification/Ob_Rc.thy ===== *)
theory Ob_Rc
  imports Ob_Prelude
begin

text \<open>
  Return codes (\<open>src/src/observer/rc.h\<close>, \<open>rc.cpp\<close>).  A code of the enum \<^verbatim>\<open>RC\<close> is either a
  plain code or a class code combined with a sub-code, \<^verbatim>\<open>CLASS | (SUB << 8)\<close>; the datatype
  keeps that structure (one constructor per plain code, one per class that takes its
  sub-enum) and \<open>rc_code\<close> gives the numeric value of the C++ enum.  \<open>strrc\<close> is the printer.
\<close>

section \<open>The enums\<close>

datatype (plugins only: code) RCBufferPool = BP_EXIST | BP_FILEERR | BP_INVALIDNAME | BP_WINDOWS | BP_CLOSED
  | BP_OPEN | BP_NOBUF | BP_EOF | BP_INVALIDPAGENUM | BP_NOTINBUF
  | BP_PAGE_PINNED | BP_OPEN_TOO_MANY_FILES | BP_ILLEGAL_FILE_ID

datatype (plugins only: code) RCRecord = RD_CLOSED | RD_OPENNED | RD_INVALIDRECSIZE | RD_INVALIDRID | RD_NO_MORE_RECINMEM
  | RD_OPEN | RD_NO_MORE_IDXINMEM | RD_INVALID_KEY | RD_DUPLICATE_KEY | RD_NOMEM
  | RD_SCANCLOSED | RD_SCANOPENNED | RD_EOF | RD_NOT_EXIST

datatype (plugins only: code) RCSchema = DB_EXIST | DB_NOT_EXIST | DB_NOT_OPENED | TABLE_NOT_EXIST | TABLE_EXIST
  | TABLE_NAME_ILLEGAL | FIELD_NOT_EXIST | FIELD_EXIST | FIELD_NAME_ILLEGAL | FIELD_MISSING
  | FIELD_REDUNDAN | FIELD_TYPE_MISMATCH | FIELD_NOT_NULL | INDEX_NAME_REPEAT | INDEX_EXIST
  | INDEX_NOT_EXIST | INDEX_NAME_ILLEGAL

datatype (plugins only: code) RCIOError = READ | SHORT_READ | WRITE | FSYNC | DIR_FSYNC
  | TRUNCATE | FSTAT | IO_DELETE | BLOCKED | ACCESS
  | CHECKRESERVEDLOCK | CLOSE | DIR_CLOSE | SHMOPEN | SHMSIZE
  | SHMLOCK | SHMMAP | SEEK | DELETE_NOENT | MMAP
  | GETTEMPPATH | IO_CONVPATH | VNODE | BEGIN_ATOMIC | COMMIT_ATOMIC
  | ROLLBACK_ATOMIC | DATA | CORRUPTFS | OPEN_TOO_MANY_FILES

datatype (plugins only: code) RCLock = LOCK | UNLOCK | SHAREDCACHE | LVIRT | NEED_WAIT
  | RESOURCE_DELETED

datatype (plugins only: code) RCBusy = BRECOVERY | SNAPSHOT | TIMEOUT

datatype (plugins only: code) RCCantOpen = NOTEMPDIR | ISDIR | FULLPATH | CO_CONVPATH | DIRTYWAL
  | SYMLINK

datatype (plugins only: code) RCReadonly = RO_RECOVERY | CANTLOCK | RO_ROLLBACK | DBMOVED | CANTINIT
  | DIRECTORY

datatype (plugins only: code) RCAbort = AROLLBACK

datatype (plugins only: code) RCContraint = CHECK | COMMITHOOK | FOREIGNKEY | FUNCTION | NOTNULL
  | PRIMARYKEY | TRIGGER | UNIQUE | CVIRT | ROWID
  | PINNED

datatype (plugins only: code) RCNotice = RECOVER_WAL | RECOVER_ROLLBACK | AUTOINDEX

datatype (plugins only: code) RCFILE = F_EXIST | F_NOT_EXIST | F_NAME | F_BOUND | F_CREATE
  | F_OPEN | F_NOT_OPENED | F_CLOSE | F_REMOVE | F_SEEK
  | F_READ | F_WRITE

datatype (plugins only: code) RCAuth = USER

datatype (plugins only: code) RCLOGBUF = LB_FULL | LB_EMPTY

datatype (plugins only: code) RC =
    SUCCESS | GENERIC_ERROR | INVALID_ARGUMENT | UNIMPLENMENT | SQL_SYNTAX
  | BUFFERPOOL | RECORD | INTERNAL | PERM | ABORT
  | BUSY | LOCKED | NOMEM | READONLY | INTERRUPT
  | IOERR | CORRUPT | NOTFOUND | FULL | CANTOPEN
  | PROTOCOL | EMPTY | SCHEMA | TOOBIG | CONSTRAINT
  | MISMATCH | MISUSE | NOLFS | AUTH | FORMAT
  | RANGE | NOTADB | FILE_ERROR | LOGBUF | SHOULD_NOT_BE_CALLED
  | UNKNOWN_TYPE | NO_SUCH_FUNC | PARA_DISMATCH | ERROR_INPUT_TYPE | ERROR_LOGIC_PLAN
  | EXPR_PARSE_ERROR | CONST_PARSE_ERROR | ERROR_ALIAS | ALIAS_REPEAT | NOTICE
  | BufferPool_RC RCBufferPool
  | Record_RC RCRecord
  | Schema_RC RCSchema
  | IOError_RC RCIOError
  | Lock_RC RCLock
  | Busy_RC RCBusy
  | CantOpen_RC RCCantOpen
  | Readonly_RC RCReadonly
  | Abort_RC RCAbort
  | Contraint_RC RCContraint
  | Notice_RC RCNotice
  | FILE_RC RCFILE
  | Auth_RC RCAuth
  | LOGBUF_RC RCLOGBUF

text \<open>The combined codes under their C++ names.\<close>

abbreviation BUFFERPOOL_EXIST :: RC where
  "BUFFERPOOL_EXIST \<equiv> BufferPool_RC BP_EXIST"

abbreviation BUFFERPOOL_FILEERR :: RC where
  "BUFFERPOOL_FILEERR \<equiv> BufferPool_RC BP_FILEERR"

abbreviation BUFFERPOOL_INVALIDNAME :: RC where
  "BUFFERPOOL_INVALIDNAME \<equiv> BufferPool_RC BP_INVALIDNAME"

abbreviation BUFFERPOOL_WINDOWS :: RC where
  "BUFFERPOOL_WINDOWS \<equiv> BufferPool_RC BP_WINDOWS"

abbreviation BUFFERPOOL_CLOSED :: RC where
  "BUFFERPOOL_CLOSED \<equiv> BufferPool_RC BP_CLOSED"

abbreviation BUFFERPOOL_OPEN :: RC where
  "BUFFERPOOL_OPEN \<equiv> BufferPool_RC BP_OPEN"

abbreviation BUFFERPOOL_NOBUF :: RC where
  "BUFFERPOOL_NOBUF \<equiv> BufferPool_RC BP_NOBUF"

abbreviation BUFFERPOOL_EOF :: RC where
  "BUFFERPOOL_EOF \<equiv> BufferPool_RC BP_EOF"

abbreviation BUFFERPOOL_INVALID_PAGE_NUM :: RC where
  "BUFFERPOOL_INVALID_PAGE_NUM \<equiv> BufferPool_RC BP_INVALIDPAGENUM"

abbreviation BUFFERPOOL_NOTINBUF :: RC where
  "BUFFERPOOL_NOTINBUF \<equiv> BufferPool_RC BP_NOTINBUF"

abbreviation BUFFERPOOL_PAGE_PINNED :: RC where
  "BUFFERPOOL_PAGE_PINNED \<equiv> BufferPool_RC BP_PAGE_PINNED"

abbreviation BUFFERPOOL_OPEN_TOO_MANY_FILES :: RC where
  "BUFFERPOOL_OPEN_TOO_MANY_FILES \<equiv> BufferPool_RC BP_OPEN_TOO_MANY_FILES"

abbreviation BUFFERPOOL_ILLEGAL_FILE_ID :: RC where
  "BUFFERPOOL_ILLEGAL_FILE_ID \<equiv> BufferPool_RC BP_ILLEGAL_FILE_ID"

abbreviation RECORD_CLOSED :: RC where
  "RECORD_CLOSED \<equiv> Record_RC RD_CLOSED"

abbreviation RECORD_OPENNED :: RC where
  "RECORD_OPENNED \<equiv> Record_RC RD_OPENNED"

abbreviation RECORD_INVALIDRECSIZE :: RC where
  "RECORD_INVALIDRECSIZE \<equiv> Record_RC RD_INVALIDRECSIZE"

abbreviation RECORD_INVALIDRID :: RC where
  "RECORD_INVALIDRID \<equiv> Record_RC RD_INVALIDRID"

abbreviation RECORD_NOMORERECINMEM :: RC where
  "RECORD_NOMORERECINMEM \<equiv> Record_RC RD_NO_MORE_RECINMEM"

abbreviation RECORD_OPEN :: RC where
  "RECORD_OPEN \<equiv> Record_RC RD_OPEN"

abbreviation RECORD_NO_MORE_IDX_IN_MEM :: RC where
  "RECORD_NO_MORE_IDX_IN_MEM \<equiv> Record_RC RD_NO_MORE_IDXINMEM"

abbreviation RECORD_INVALID_KEY :: RC where
  "RECORD_INVALID_KEY \<equiv> Record_RC RD_INVALID_KEY"

abbreviation RECORD_DUPLICATE_KEY :: RC where
  "RECORD_DUPLICATE_KEY \<equiv> Record_RC RD_DUPLICATE_KEY"

abbreviation RECORD_NOMEM :: RC where
  "RECORD_NOMEM \<equiv> Record_RC RD_NOMEM"

abbreviation RECORD_SCANCLOSED :: RC where
  "RECORD_SCANCLOSED \<equiv> Record_RC RD_SCANCLOSED"

abbreviation RECORD_SCANOPENNED :: RC where
  "RECORD_SCANOPENNED \<equiv> Record_RC RD_SCANOPENNED"

abbreviation RECORD_EOF :: RC where
  "RECORD_EOF \<equiv> Record_RC RD_EOF"

abbreviation RECORD_RECORD_NOT_EXIST :: RC where
  "RECORD_RECORD_NOT_EXIST \<equiv> Record_RC RD_NOT_EXIST"

abbreviation SCHEMA_DB_EXIST :: RC where
  "SCHEMA_DB_EXIST \<equiv> Schema_RC DB_EXIST"

abbreviation SCHEMA_DB_NOT_EXIST :: RC where
  "SCHEMA_DB_NOT_EXIST \<equiv> Schema_RC DB_NOT_EXIST"

abbreviation SCHEMA_DB_NOT_OPENED :: RC where
  "SCHEMA_DB_NOT_OPENED \<equiv> Schema_RC DB_NOT_OPENED"

abbreviation SCHEMA_TABLE_NOT_EXIST :: RC where
  "SCHEMA_TABLE_NOT_EXIST \<equiv> Schema_RC TABLE_NOT_EXIST"

abbreviation SCHEMA_TABLE_EXIST :: RC where
  "SCHEMA_TABLE_EXIST \<equiv> Schema_RC TABLE_EXIST"

abbreviation SCHEMA_TABLE_NAME_ILLEGAL :: RC where
  "SCHEMA_TABLE_NAME_ILLEGAL \<equiv> Schema_RC TABLE_NAME_ILLEGAL"

abbreviation SCHEMA_FIELD_NOT_EXIST :: RC where
  "SCHEMA_FIELD_NOT_EXIST \<equiv> Schema_RC FIELD_NOT_EXIST"

abbreviation SCHEMA_FIELD_EXIST :: RC where
  "SCHEMA_FIELD_EXIST \<equiv> Schema_RC FIELD_EXIST"

abbreviation SCHEMA_FIELD_NAME_ILLEGAL :: RC where
  "SCHEMA_FIELD_NAME_ILLEGAL \<equiv> Schema_RC FIELD_NAME_ILLEGAL"

abbreviation SCHEMA_FIELD_MISSING :: RC where
  "SCHEMA_FIELD_MISSING \<equiv> Schema_RC FIELD_MISSING"

abbreviation SCHEMA_FIELD_REDUNDAN :: RC where
  "SCHEMA_FIELD_REDUNDAN \<equiv> Schema_RC FIELD_REDUNDAN"

abbreviation SCHEMA_FIELD_TYPE_MISMATCH :: RC where
  "SCHEMA_FIELD_TYPE_MISMATCH \<equiv> Schema_RC FIELD_TYPE_MISMATCH"

abbreviation SCHEMA_FIELD_NOT_NULL :: RC where
  "SCHEMA_FIELD_NOT_NULL \<equiv> Schema_RC FIELD_NOT_NULL"

abbreviation SCHEMA_INDEX_NAME_REPEAT :: RC where
  "SCHEMA_INDEX_NAME_REPEAT \<equiv> Schema_RC INDEX_NAME_REPEAT"

abbreviation SCHEMA_INDEX_EXIST :: RC where
  "SCHEMA_INDEX_EXIST \<equiv> Schema_RC INDEX_EXIST"

abbreviation SCHEMA_INDEX_NOT_EXIST :: RC where
  "SCHEMA_INDEX_NOT_EXIST \<equiv> Schema_RC INDEX_NOT_EXIST"

abbreviation SCHEMA_INDEX_NAME_ILLEGAL :: RC where
  "SCHEMA_INDEX_NAME_ILLEGAL \<equiv> Schema_RC INDEX_NAME_ILLEGAL"

abbreviation IOERR_READ :: RC where
  "IOERR_READ \<equiv> IOError_RC READ"

abbreviation IOERR_SHORT_READ :: RC where
  "IOERR_SHORT_READ \<equiv> IOError_RC SHORT_READ"

abbreviation IOERR_WRITE :: RC where
  "IOERR_WRITE \<equiv> IOError_RC WRITE"

abbreviation IOERR_FSYNC :: RC where
  "IOERR_FSYNC \<equiv> IOError_RC FSYNC"

abbreviation IOERR_DIR_FSYNC :: RC where
  "IOERR_DIR_FSYNC \<equiv> IOError_RC DIR_FSYNC"

abbreviation IOERR_TRUNCATE :: RC where
  "IOERR_TRUNCATE \<equiv> IOError_RC TRUNCATE"

abbreviation IOERR_FSTAT :: RC where
  "IOERR_FSTAT \<equiv> IOError_RC FSTAT"

abbreviation IOERR_DELETE :: RC where
  "IOERR_DELETE \<equiv> IOError_RC IO_DELETE"

abbreviation IOERR_BLOCKED :: RC where
  "IOERR_BLOCKED \<equiv> IOError_RC BLOCKED"

abbreviation IOERR_ACCESS :: RC where
  "IOERR_ACCESS \<equiv> IOError_RC ACCESS"

abbreviation IOERR_CHECKRESERVEDLOCK :: RC where
  "IOERR_CHECKRESERVEDLOCK \<equiv> IOError_RC CHECKRESERVEDLOCK"

abbreviation IOERR_CLOSE :: RC where
  "IOERR_CLOSE \<equiv> IOError_RC CLOSE"

abbreviation IOERR_DIR_CLOSE :: RC where
  "IOERR_DIR_CLOSE \<equiv> IOError_RC DIR_CLOSE"

abbreviation IOERR_SHMOPEN :: RC where
  "IOERR_SHMOPEN \<equiv> IOError_RC SHMOPEN"

abbreviation IOERR_SHMSIZE :: RC where
  "IOERR_SHMSIZE \<equiv> IOError_RC SHMSIZE"

abbreviation IOERR_SHMLOCK :: RC where
  "IOERR_SHMLOCK \<equiv> IOError_RC SHMLOCK"

abbreviation IOERR_SHMMAP :: RC where
  "IOERR_SHMMAP \<equiv> IOError_RC SHMMAP"

abbreviation IOERR_SEEK :: RC where
  "IOERR_SEEK \<equiv> IOError_RC SEEK"

abbreviation IOERR_DELETE_NOENT :: RC where
  "IOERR_DELETE_NOENT \<equiv> IOError_RC DELETE_NOENT"

abbreviation IOERR_MMAP :: RC where
  "IOERR_MMAP \<equiv> IOError_RC MMAP"

abbreviation IOERR_GETTEMPPATH :: RC where
  "IOERR_GETTEMPPATH \<equiv> IOError_RC GETTEMPPATH"

abbreviation IOERR_CONVPATH :: RC where
  "IOERR_CONVPATH \<equiv> IOError_RC IO_CONVPATH"

abbreviation IOERR_VNODE :: RC where
  "IOERR_VNODE \<equiv> IOError_RC VNODE"

abbreviation IOERR_BEGIN_ATOMIC :: RC where
  "IOERR_BEGIN_ATOMIC \<equiv> IOError_RC BEGIN_ATOMIC"

abbreviation IOERR_COMMIT_ATOMIC :: RC where
  "IOERR_COMMIT_ATOMIC \<equiv> IOError_RC COMMIT_ATOMIC"

abbreviation IOERR_ROLLBACK_ATOMIC :: RC where
  "IOERR_ROLLBACK_ATOMIC \<equiv> IOError_RC ROLLBACK_ATOMIC"

abbreviation IOERR_DATA :: RC where
  "IOERR_DATA \<equiv> IOError_RC DATA"

abbreviation IOERR_CORRUPTFS :: RC where
  "IOERR_CORRUPTFS \<equiv> IOError_RC CORRUPTFS"

abbreviation IOERR_OPEN_TOO_MANY_FILES :: RC where
  "IOERR_OPEN_TOO_MANY_FILES \<equiv> IOError_RC OPEN_TOO_MANY_FILES"

abbreviation LOCKED_LOCK :: RC where
  "LOCKED_LOCK \<equiv> Lock_RC LOCK"

abbreviation LOCKED_UNLOCK :: RC where
  "LOCKED_UNLOCK \<equiv> Lock_RC UNLOCK"

abbreviation LOCKED_SHAREDCACHE :: RC where
  "LOCKED_SHAREDCACHE \<equiv> Lock_RC SHAREDCACHE"

abbreviation LOCKED_VIRT :: RC where
  "LOCKED_VIRT \<equiv> Lock_RC LVIRT"

abbreviation LOCKED_NEED_WAIT :: RC where
  "LOCKED_NEED_WAIT \<equiv> Lock_RC NEED_WAIT"

abbreviation LOCKED_RESOURCE_DELETED :: RC where
  "LOCKED_RESOURCE_DELETED \<equiv> Lock_RC RESOURCE_DELETED"

abbreviation BUSY_RECOVERY :: RC where
  "BUSY_RECOVERY \<equiv> Busy_RC BRECOVERY"

abbreviation BUSY_SNAPSHOT :: RC where
  "BUSY_SNAPSHOT \<equiv> Busy_RC SNAPSHOT"

abbreviation BUSY_TIMEOUT :: RC where
  "BUSY_TIMEOUT \<equiv> Busy_RC TIMEOUT"

abbreviation CANTOPEN_NOTEMPDIR :: RC where
  "CANTOPEN_NOTEMPDIR \<equiv> CantOpen_RC NOTEMPDIR"

abbreviation CANTOPEN_ISDIR :: RC where
  "CANTOPEN_ISDIR \<equiv> CantOpen_RC ISDIR"

abbreviation CANTOPEN_FULLPATH :: RC where
  "CANTOPEN_FULLPATH \<equiv> CantOpen_RC FULLPATH"

abbreviation CANTOPEN_CONVPATH :: RC where
  "CANTOPEN_CONVPATH \<equiv> CantOpen_RC CO_CONVPATH"

abbreviation CANTOPEN_DIRTYWAL :: RC where
  "CANTOPEN_DIRTYWAL \<equiv> CantOpen_RC DIRTYWAL"

abbreviation CANTOPEN_SYMLINK :: RC where
  "CANTOPEN_SYMLINK \<equiv> CantOpen_RC SYMLINK"

abbreviation READONLY_RECOVERY :: RC where
  "READONLY_RECOVERY \<equiv> Readonly_RC RO_RECOVERY"

abbreviation READONLY_CANTLOCK :: RC where
  "READONLY_CANTLOCK \<equiv> Readonly_RC CANTLOCK"

abbreviation READONLY_ROLLBACK :: RC where
  "READONLY_ROLLBACK \<equiv> Readonly_RC RO_ROLLBACK"

abbreviation READONLY_DBMOVED :: RC where
  "READONLY_DBMOVED \<equiv> Readonly_RC DBMOVED"

abbreviation READONLY_CANTINIT :: RC where
  "READONLY_CANTINIT \<equiv> Readonly_RC CANTINIT"

abbreviation READONLY_DIRECTORY :: RC where
  "READONLY_DIRECTORY \<equiv> Readonly_RC DIRECTORY"

abbreviation ABORT_ROLLBACK :: RC where
  "ABORT_ROLLBACK \<equiv> Abort_RC AROLLBACK"

abbreviation CONSTRAINT_CHECK :: RC where
  "CONSTRAINT_CHECK \<equiv> Contraint_RC CHECK"

abbreviation CONSTRAINT_COMMITHOOK :: RC where
  "CONSTRAINT_COMMITHOOK \<equiv> Contraint_RC COMMITHOOK"

abbreviation CONSTRAINT_FOREIGNKEY :: RC where
  "CONSTRAINT_FOREIGNKEY \<equiv> Contraint_RC FOREIGNKEY"

abbreviation CONSTRAINT_FUNCTION :: RC where
  "CONSTRAINT_FUNCTION \<equiv> Contraint_RC FUNCTION"

abbreviation CONSTRAINT_NOTNULL :: RC where
  "CONSTRAINT_NOTNULL \<equiv> Contraint_RC NOTNULL"

abbreviation CONSTRAINT_PRIMARYKEY :: RC where
  "CONSTRAINT_PRIMARYKEY \<equiv> Contraint_RC PRIMARYKEY"

abbreviation CONSTRAINT_TRIGGER :: RC where
  "CONSTRAINT_TRIGGER \<equiv> Contraint_RC TRIGGER"

abbreviation CONSTRAINT_UNIQUE :: RC where
  "CONSTRAINT_UNIQUE \<equiv> Contraint_RC UNIQUE"

abbreviation CONSTRAINT_VIRT :: RC where
  "CONSTRAINT_VIRT \<equiv> Contraint_RC CVIRT"

abbreviation CONSTRAINT_ROWID :: RC where
  "CONSTRAINT_ROWID \<equiv> Contraint_RC ROWID"

abbreviation CONSTRAINT_PINNED :: RC where
  "CONSTRAINT_PINNED \<equiv> Contraint_RC PINNED"

abbreviation NOTICE_RECOVER_WAL :: RC where
  "NOTICE_RECOVER_WAL \<equiv> Notice_RC RECOVER_WAL"

abbreviation NOTICE_RECOVER_ROLLBACK :: RC where
  "NOTICE_RECOVER_ROLLBACK \<equiv> Notice_RC RECOVER_ROLLBACK"

abbreviation NOTICE_AUTOINDEX :: RC where
  "NOTICE_AUTOINDEX \<equiv> Notice_RC AUTOINDEX"

abbreviation FILE_EXIST :: RC where
  "FILE_EXIST \<equiv> FILE_RC F_EXIST"

abbreviation FILE_NOT_EXIST :: RC where
  "FILE_NOT_EXIST \<equiv> FILE_RC F_NOT_EXIST"

abbreviation FILE_NAME :: RC where
  "FILE_NAME \<equiv> FILE_RC F_NAME"

abbreviation FILE_BOUND :: RC where
  "FILE_BOUND \<equiv> FILE_RC F_BOUND"

abbreviation FILE_CREATE :: RC where
  "FILE_CREATE \<equiv> FILE_RC F_CREATE"

abbreviation FILE_OPEN :: RC where
  "FILE_OPEN \<equiv> FILE_RC F_OPEN"

abbreviation FILE_NOT_OPENED :: RC where
  "FILE_NOT_OPENED \<equiv> FILE_RC F_NOT_OPENED"

abbreviation FILE_CLOSE :: RC where
  "FILE_CLOSE \<equiv> FILE_RC F_CLOSE"

abbreviation FILE_REMOVE :: RC where
  "FILE_REMOVE \<equiv> FILE_RC F_REMOVE"

abbreviation FILE_SEEK :: RC where
  "FILE_SEEK \<equiv> FILE_RC F_SEEK"

abbreviation FILE_READ :: RC where
  "FILE_READ \<equiv> FILE_RC F_READ"

abbreviation FILE_WRITE :: RC where
  "FILE_WRITE \<equiv> FILE_RC F_WRITE"

abbreviation AUTH_USER :: RC where
  "AUTH_USER \<equiv> Auth_RC USER"

abbreviation LOGBUF_FULL :: RC where
  "LOGBUF_FULL \<equiv> LOGBUF_RC LB_FULL"

abbreviation LOGBUF_EMPTY :: RC where
  "LOGBUF_EMPTY \<equiv> LOGBUF_RC LB_EMPTY"

section \<open>Numeric values\<close>

primrec code_RCBufferPool :: "RCBufferPool \<Rightarrow> nat" where
  "code_RCBufferPool BP_EXIST = 1"
| "code_RCBufferPool BP_FILEERR = 2"
| "code_RCBufferPool BP_INVALIDNAME = 3"
| "code_RCBufferPool BP_WINDOWS = 4"
| "code_RCBufferPool BP_CLOSED = 5"
| "code_RCBufferPool BP_OPEN = 6"
| "code_RCBufferPool BP_NOBUF = 7"
| "code_RCBufferPool BP_EOF = 8"
| "code_RCBufferPool BP_INVALIDPAGENUM = 9"
| "code_RCBufferPool BP_NOTINBUF = 10"
| "code_RCBufferPool BP_PAGE_PINNED = 11"
| "code_RCBufferPool BP_OPEN_TOO_MANY_FILES = 12"
| "code_RCBufferPool BP_ILLEGAL_FILE_ID = 13"

primrec code_RCRecord :: "RCRecord \<Rightarrow> nat" where
  "code_RCRecord RD_CLOSED = 1"
| "code_RCRecord RD_OPENNED = 2"
| "code_RCRecord RD_INVALIDRECSIZE = 3"
| "code_RCRecord RD_INVALIDRID = 4"
| "code_RCRecord RD_NO_MORE_RECINMEM = 5"
| "code_RCRecord RD_OPEN = 6"
| "code_RCRecord RD_NO_MORE_IDXINMEM = 7"
| "code_RCRecord RD_INVALID_KEY = 8"
| "code_RCRecord RD_DUPLICATE_KEY = 9"
| "code_RCRecord RD_NOMEM = 10"
| "code_RCRecord RD_SCANCLOSED = 11"
| "code_RCRecord RD_SCANOPENNED = 12"
| "code_RCRecord RD_EOF = 13"
| "code_RCRecord RD_NOT_EXIST = 14"

primrec code_RCSchema :: "RCSchema \<Rightarrow> nat" where
  "code_RCSchema DB_EXIST = 1"
| "code_RCSchema DB_NOT_EXIST = 2"
| "code_RCSchema DB_NOT_OPENED = 3"
| "code_RCSchema TABLE_NOT_EXIST = 4"
| "code_RCSchema TABLE_EXIST = 5"
| "code_RCSchema TABLE_NAME_ILLEGAL = 6"
| "code_RCSchema FIELD_NOT_EXIST = 7"
| "code_RCSchema FIELD_EXIST = 8"
| "code_RCSchema FIELD_NAME_ILLEGAL = 9"
| "code_RCSchema FIELD_MISSING = 10"
| "code_RCSchema FIELD_REDUNDAN = 11"
| "code_RCSchema FIELD_TYPE_MISMATCH = 12"
| "code_RCSchema FIELD_NOT_NULL = 13"
| "code_RCSchema INDEX_NAME_REPEAT = 14"
| "code_RCSchema INDEX_EXIST = 15"
| "code_RCSchema INDEX_NOT_EXIST = 16"
| "code_RCSchema INDEX_NAME_ILLEGAL = 17"

primrec code_RCIOError :: "RCIOError \<Rightarrow> nat" where
  "code_RCIOError READ = 1"
| "code_RCIOError SHORT_READ = 2"
| "code_RCIOError WRITE = 3"
| "code_RCIOError FSYNC = 4"
| "code_RCIOError DIR_FSYNC = 5"
| "code_RCIOError TRUNCATE = 6"
| "code_RCIOError FSTAT = 7"
| "code_RCIOError IO_DELETE = 8"
| "code_RCIOError BLOCKED = 9"
| "code_RCIOError ACCESS = 10"
| "code_RCIOError CHECKRESERVEDLOCK = 11"
| "code_RCIOError CLOSE = 12"
| "code_RCIOError DIR_CLOSE = 13"
| "code_RCIOError SHMOPEN = 14"
| "code_RCIOError SHMSIZE = 15"
| "code_RCIOError SHMLOCK = 16"
| "code_RCIOError SHMMAP = 17"
| "code_RCIOError SEEK = 18"
| "code_RCIOError DELETE_NOENT = 19"
| "code_RCIOError MMAP = 20"
| "code_RCIOError GETTEMPPATH = 21"
| "code_RCIOError IO_CONVPATH = 22"
| "code_RCIOError VNODE = 23"
| "code_RCIOError BEGIN_ATOMIC = 24"
| "code_RCIOError COMMIT_ATOMIC = 25"
| "code_RCIOError ROLLBACK_ATOMIC = 26"
| "code_RCIOError DATA = 27"
| "code_RCIOError CORRUPTFS = 28"
| "code_RCIOError OPEN_TOO_MANY_FILES = 29"

primrec code_RCLock :: "RCLock \<Rightarrow> nat" where
  "code_RCLock LOCK = 1"
| "code_RCLock UNLOCK = 2"
| "code_RCLock SHAREDCACHE = 3"
| "code_RCLock LVIRT = 4"
| "code_RCLock NEED_WAIT = 5"
| "code_RCLock RESOURCE_DELETED = 6"

primrec code_RCBusy :: "RCBusy \<Rightarrow> nat" where
  "code_RCBusy BRECOVERY = 1"
| "code_RCBusy SNAPSHOT = 2"
| "code_RCBusy TIMEOUT = 3"

primrec code_RCCantOpen :: "RCCantOpen \<Rightarrow> nat" where
  "code_RCCantOpen NOTEMPDIR = 1"
| "code_RCCantOpen ISDIR = 2"
| "code_RCCantOpen FULLPATH = 3"
| "code_RCCantOpen CO_CONVPATH = 4"
| "code_RCCantOpen DIRTYWAL = 5"
| "code_RCCantOpen SYMLINK = 6"

primrec code_RCReadonly :: "RCReadonly \<Rightarrow> nat" where
  "code_RCReadonly RO_RECOVERY = 1"
| "code_RCReadonly CANTLOCK = 2"
| "code_RCReadonly RO_ROLLBACK = 3"
| "code_RCReadonly DBMOVED = 4"
| "code_RCReadonly CANTINIT = 5"
| "code_RCReadonly DIRECTORY = 6"

primrec code_RCAbort :: "RCAbort \<Rightarrow> nat" where
  "code_RCAbort AROLLBACK = 1"

primrec code_RCContraint :: "RCContraint \<Rightarrow> nat" where
  "code_RCContraint CHECK = 1"
| "code_RCContraint COMMITHOOK = 2"
| "code_RCContraint FOREIGNKEY = 3"
| "code_RCContraint FUNCTION = 4"
| "code_RCContraint NOTNULL = 5"
| "code_RCContraint PRIMARYKEY = 6"
| "code_RCContraint TRIGGER = 7"
| "code_RCContraint UNIQUE = 8"
| "code_RCContraint CVIRT = 9"
| "code_RCContraint ROWID = 10"
| "code_RCContraint PINNED = 11"

primrec code_RCNotice :: "RCNotice \<Rightarrow> nat" where
  "code_RCNotice RECOVER_WAL = 1"
| "code_RCNotice RECOVER_ROLLBACK = 2"
| "code_RCNotice AUTOINDEX = 3"

primrec code_RCFILE :: "RCFILE \<Rightarrow> nat" where
  "code_RCFILE F_EXIST = 1"
| "code_RCFILE F_NOT_EXIST = 2"
| "code_RCFILE F_NAME = 3"
| "code_RCFILE F_BOUND = 4"
| "code_RCFILE F_CREATE = 5"
| "code_RCFILE F_OPEN = 6"
| "code_RCFILE F_NOT_OPENED = 7"
| "code_RCFILE F_CLOSE = 8"
| "code_RCFILE F_REMOVE = 9"
| "code_RCFILE F_SEEK = 10"
| "code_RCFILE F_READ = 11"
| "code_RCFILE F_WRITE = 12"

primrec code_RCAuth :: "RCAuth \<Rightarrow> nat" where
  "code_RCAuth USER = 1"

primrec code_RCLOGBUF :: "RCLOGBUF \<Rightarrow> nat" where
  "code_RCLOGBUF LB_FULL = 1"
| "code_RCLOGBUF LB_EMPTY = 2"

text \<open>The class code of the low byte.\<close>

primrec rc_class :: "RC \<Rightarrow> nat" where
  "rc_class SUCCESS = 0"
| "rc_class GENERIC_ERROR = 1"
| "rc_class INVALID_ARGUMENT = 2"
| "rc_class UNIMPLENMENT = 3"
| "rc_class SQL_SYNTAX = 4"
| "rc_class BUFFERPOOL = 5"
| "rc_class RECORD = 6"
| "rc_class INTERNAL = 7"
| "rc_class PERM = 8"
| "rc_class ABORT = 9"
| "rc_class BUSY = 10"
| "rc_class LOCKED = 11"
| "rc_class NOMEM = 12"
| "rc_class READONLY = 13"
| "rc_class INTERRUPT = 14"
| "rc_class IOERR = 15"
| "rc_class CORRUPT = 16"
| "rc_class NOTFOUND = 17"
| "rc_class FULL = 18"
| "rc_class CANTOPEN = 19"
| "rc_class PROTOCOL = 20"
| "rc_class EMPTY = 21"
| "rc_class SCHEMA = 22"
| "rc_class TOOBIG = 23"
| "rc_class CONSTRAINT = 24"
| "rc_class MISMATCH = 25"
| "rc_class MISUSE = 26"
| "rc_class NOLFS = 27"
| "rc_class AUTH = 28"
| "rc_class FORMAT = 29"
| "rc_class RANGE = 30"
| "rc_class NOTADB = 31"
| "rc_class FILE_ERROR = 32"
| "rc_class LOGBUF = 33"
| "rc_class SHOULD_NOT_BE_CALLED = 34"
| "rc_class UNKNOWN_TYPE = 35"
| "rc_class NO_SUCH_FUNC = 36"
| "rc_class PARA_DISMATCH = 37"
| "rc_class ERROR_INPUT_TYPE = 38"
| "rc_class ERROR_LOGIC_PLAN = 39"
| "rc_class EXPR_PARSE_ERROR = 40"
| "rc_class CONST_PARSE_ERROR = 41"
| "rc_class ERROR_ALIAS = 42"
| "rc_class ALIAS_REPEAT = 43"
| "rc_class NOTICE = 100"
| "rc_class (BufferPool_RC s) = 5"
| "rc_class (Record_RC s) = 6"
| "rc_class (Schema_RC s) = 22"
| "rc_class (IOError_RC s) = 15"
| "rc_class (Lock_RC s) = 11"
| "rc_class (Busy_RC s) = 10"
| "rc_class (CantOpen_RC s) = 19"
| "rc_class (Readonly_RC s) = 13"
| "rc_class (Abort_RC s) = 9"
| "rc_class (Contraint_RC s) = 24"
| "rc_class (Notice_RC s) = 100"
| "rc_class (FILE_RC s) = 32"
| "rc_class (Auth_RC s) = 28"
| "rc_class (LOGBUF_RC s) = 33"

fun rc_sub :: "RC \<Rightarrow> nat" where
  "rc_sub (BufferPool_RC s) = code_RCBufferPool s"
| "rc_sub (Record_RC s) = code_RCRecord s"
| "rc_sub (Schema_RC s) = code_RCSchema s"
| "rc_sub (IOError_RC s) = code_RCIOError s"
| "rc_sub (Lock_RC s) = code_RCLock s"
| "rc_sub (Busy_RC s) = code_RCBusy s"
| "rc_sub (CantOpen_RC s) = code_RCCantOpen s"
| "rc_sub (Readonly_RC s) = code_RCReadonly s"
| "rc_sub (Abort_RC s) = code_RCAbort s"
| "rc_sub (Contraint_RC s) = code_RCContraint s"
| "rc_sub (Notice_RC s) = code_RCNotice s"
| "rc_sub (FILE_RC s) = code_RCFILE s"
| "rc_sub (Auth_RC s) = code_RCAuth s"
| "rc_sub (LOGBUF_RC s) = code_RCLOGBUF s"
| "rc_sub r = 0"

definition rc_code :: "RC \<Rightarrow> nat" where
  "rc_code r = rc_class r OR (push_bit 8 (rc_sub r))"

section \<open>Printing\<close>

text \<open>The switch of \<^verbatim>\<open>strrc\<close>, one equation per \<^verbatim>\<open>case\<close>; every other code takes the code after the switch.\<close>

primrec strrc_RCBufferPool :: "RCBufferPool \<Rightarrow> string" where
  "strrc_RCBufferPool BP_EXIST = ''BUFFERPOOL_EXIST''"
| "strrc_RCBufferPool BP_FILEERR = ''BUFFERPOOL_FILEERR''"
| "strrc_RCBufferPool BP_INVALIDNAME = ''BUFFERPOOL_INVALIDNAME''"
| "strrc_RCBufferPool BP_WINDOWS = ''BUFFERPOOL_WINDOWS''"
| "strrc_RCBufferPool BP_CLOSED = ''BUFFERPOOL_CLOSED''"
| "strrc_RCBufferPool BP_OPEN = ''BUFFERPOOL_OPEN''"
| "strrc_RCBufferPool BP_NOBUF = ''BUFFERPOOL_NOBUF''"
| "strrc_RCBufferPool BP_EOF = ''BUFFERPOOL_EOF''"
| "strrc_RCBufferPool BP_INVALIDPAGENUM = ''BUFFERPOOL_INVALID_PAGE_NUM''"
| "strrc_RCBufferPool BP_NOTINBUF = ''BUFFERPOOL_NOTINBUF''"
| "strrc_RCBufferPool BP_PAGE_PINNED = ''BUFFERPOOL_PAGE_PINNED''"
| "strrc_RCBufferPool BP_OPEN_TOO_MANY_FILES = ''BUFFERPOOL_OPEN_TOO_MANY_FILES''"
| "strrc_RCBufferPool BP_ILLEGAL_FILE_ID = ''BUFFERPOOL_ILLEGAL_FILE_ID''"

primrec strrc_RCRecord :: "RCRecord \<Rightarrow> string" where
  "strrc_RCRecord RD_CLOSED = ''RECORD_CLOSED''"
| "strrc_RCRecord RD_OPENNED = ''RECORD_OPENNED''"
| "strrc_RCRecord RD_INVALIDRECSIZE = ''RECORD_INVALIDRECSIZE''"
| "strrc_RCRecord RD_INVALIDRID = ''RECORD_INVALIDRID''"
| "strrc_RCRecord RD_NO_MORE_RECINMEM = ''RECORD_NOMORERECINMEM''"
| "strrc_RCRecord RD_OPEN = ''RECORD_OPEN''"
| "strrc_RCRecord RD_NO_MORE_IDXINMEM = ''RECORD_NO_MORE_IDX_IN_MEM''"
| "strrc_RCRecord RD_INVALID_KEY = ''RECORD_INVALID_KEY''"
| "strrc_RCRecord RD_DUPLICATE_KEY = ''RECORD_DUPLICATE_KEY''"
| "strrc_RCRecord RD_NOMEM = ''RECORD_NOMEM''"
| "strrc_RCRecord RD_SCANCLOSED = ''RECORD_SCANCLOSED''"
| "strrc_RCRecord RD_SCANOPENNED = ''RECORD_SCANOPENNED''"
| "strrc_RCRecord RD_EOF = ''RECORD_EOF''"
| "strrc_RCRecord RD_NOT_EXIST = ''RECORD_RECORD_NOT_EXIST''"

primrec strrc_RCSchema :: "RCSchema \<Rightarrow> string" where
  "strrc_RCSchema DB_EXIST = ''SCHEMA_DB_EXIST''"
| "strrc_RCSchema DB_NOT_EXIST = ''SCHEMA_DB_NOT_EXIST''"
| "strrc_RCSchema DB_NOT_OPENED = ''SCHEMA_DB_NOT_OPENED''"
| "strrc_RCSchema TABLE_NOT_EXIST = ''SCHEMA_TABLE_NOT_EXIST''"
| "strrc_RCSchema TABLE_EXIST = ''SCHEMA_TABLE_EXIST''"
| "strrc_RCSchema TABLE_NAME_ILLEGAL = ''SCHEMA_TABLE_NAME_ILLEGAL''"
| "strrc_RCSchema FIELD_NOT_EXIST = ''SCHEMA_FIELD_NOT_EXIST''"
| "strrc_RCSchema FIELD_EXIST = ''SCHEMA_FIELD_EXIST''"
| "strrc_RCSchema FIELD_NAME_ILLEGAL = ''SCHEMA_FIELD_NAME_ILLEGAL''"
| "strrc_RCSchema FIELD_MISSING = ''SCHEMA_FIELD_MISSING''"
| "strrc_RCSchema FIELD_REDUNDAN = ''SCHEMA_FIELD_REDUNDAN''"
| "strrc_RCSchema FIELD_TYPE_MISMATCH = ''SCHEMA_FIELD_TYPE_MISMATCH''"
| "strrc_RCSchema FIELD_NOT_NULL = ''UNKNOWN''"
| "strrc_RCSchema INDEX_NAME_REPEAT = ''SCHEMA_INDEX_NAME_REPEAT''"
| "strrc_RCSchema INDEX_EXIST = ''SCHEMA_INDEX_EXIST''"
| "strrc_RCSchema INDEX_NOT_EXIST = ''SCHEMA_INDEX_NOT_EXIST''"
| "strrc_RCSchema INDEX_NAME_ILLEGAL = ''SCHEMA_INDEX_NAME_ILLEGAL''"

primrec strrc_RCIOError :: "RCIOError \<Rightarrow> string" where
  "strrc_RCIOError READ = ''IOERR_READ''"
| "strrc_RCIOError SHORT_READ = ''IOERR_SHORT_READ''"
| "strrc_RCIOError WRITE = ''IOERR_WRITE''"
| "strrc_RCIOError FSYNC = ''IOERR_FSYNC''"
| "strrc_RCIOError DIR_FSYNC = ''IOERR_DIR_FSYNC''"
| "strrc_RCIOError TRUNCATE = ''IOERR_TRUNCATE''"
| "strrc_RCIOError FSTAT = ''IOERR_FSTAT''"
| "strrc_RCIOError IO_DELETE = ''IOERR_DELETE''"
| "strrc_RCIOError BLOCKED = ''IOERR_BLOCKED''"
| "strrc_RCIOError ACCESS = ''IOERR_ACCESS''"
| "strrc_RCIOError CHECKRESERVEDLOCK = ''IOERR_CHECKRESERVEDLOCK''"
| "strrc_RCIOError CLOSE = ''IOERR_CLOSE''"
| "strrc_RCIOError DIR_CLOSE = ''IOERR_DIR_CLOSE''"
| "strrc_RCIOError SHMOPEN = ''IOERR_SHMOPEN''"
| "strrc_RCIOError SHMSIZE = ''IOERR_SHMSIZE''"
| "strrc_RCIOError SHMLOCK = ''IOERR_SHMLOCK''"
| "strrc_RCIOError SHMMAP = ''IOERR_SHMMAP''"
| "strrc_RCIOError SEEK = ''IOERR_SEEK''"
| "strrc_RCIOError DELETE_NOENT = ''IOERR_DELETE_NOENT''"
| "strrc_RCIOError MMAP = ''IOERR_MMAP''"
| "strrc_RCIOError GETTEMPPATH = ''IOERR_GETTEMPPATH''"
| "strrc_RCIOError IO_CONVPATH = ''IOERR_CONVPATH''"
| "strrc_RCIOError VNODE = ''IOERR_VNODE''"
| "strrc_RCIOError BEGIN_ATOMIC = ''IOERR_BEGIN_ATOMIC''"
| "strrc_RCIOError COMMIT_ATOMIC = ''IOERR_COMMIT_ATOMIC''"
| "strrc_RCIOError ROLLBACK_ATOMIC = ''IOERR_ROLLBACK_ATOMIC''"
| "strrc_RCIOError DATA = ''IOERR_DATA''"
| "strrc_RCIOError CORRUPTFS = ''IOERR_CORRUPTFS''"
| "strrc_RCIOError OPEN_TOO_MANY_FILES = ''IOERR_OPEN_TOO_MANY_FILES''"

primrec strrc_RCLock :: "RCLock \<Rightarrow> string" where
  "strrc_RCLock LOCK = ''LOCKED_LOCK''"
| "strrc_RCLock UNLOCK = ''LOCKED_UNLOCK''"
| "strrc_RCLock SHAREDCACHE = ''LOCKED_SHAREDCACHE''"
| "strrc_RCLock LVIRT = ''LOCKED_VIRT''"
| "strrc_RCLock NEED_WAIT = ''LOCKED_NEED_WAIT''"
| "strrc_RCLock RESOURCE_DELETED = ''LOCKED_RESOURCE_DELETED''"

primrec strrc_RCBusy :: "RCBusy \<Rightarrow> string" where
  "strrc_RCBusy BRECOVERY = ''BUSY_RECOVERY''"
| "strrc_RCBusy SNAPSHOT = ''BUSY_SNAPSHOT''"
| "strrc_RCBusy TIMEOUT = ''BUSY_TIMEOUT''"

primrec strrc_RCCantOpen :: "RCCantOpen \<Rightarrow> string" where
  "strrc_RCCantOpen NOTEMPDIR = ''CANTOPEN_NOTEMPDIR''"
| "strrc_RCCantOpen ISDIR = ''CANTOPEN_ISDIR''"
| "strrc_RCCantOpen FULLPATH = ''CANTOPEN_FULLPATH''"
| "strrc_RCCantOpen CO_CONVPATH = ''CANTOPEN_CONVPATH''"
| "strrc_RCCantOpen DIRTYWAL = ''CANTOPEN_DIRTYWAL''"
| "strrc_RCCantOpen SYMLINK = ''CANTOPEN_SYMLINK''"

primrec strrc_RCReadonly :: "RCReadonly \<Rightarrow> string" where
  "strrc_RCReadonly RO_RECOVERY = ''READONLY_RECOVERY''"
| "strrc_RCReadonly CANTLOCK = ''READONLY_CANTLOCK''"
| "strrc_RCReadonly RO_ROLLBACK = ''READONLY_ROLLBACK''"
| "strrc_RCReadonly DBMOVED = ''READONLY_DBMOVED''"
| "strrc_RCReadonly CANTINIT = ''READONLY_CANTINIT''"
| "strrc_RCReadonly DIRECTORY = ''READONLY_DIRECTORY''"

primrec strrc_RCAbort :: "RCAbort \<Rightarrow> string" where
  "strrc_RCAbort AROLLBACK = ''ABORT_ROLLBACK''"

primrec strrc_RCContraint :: "RCContraint \<Rightarrow> string" where
  "strrc_RCContraint CHECK = ''CONSTRAINT_CHECK''"
| "strrc_RCContraint COMMITHOOK = ''CONSTRAINT_COMMITHOOK''"
| "strrc_RCContraint FOREIGNKEY = ''CONSTRAINT_FOREIGNKEY''"
| "strrc_RCContraint FUNCTION = ''CONSTRAINT_FUNCTION''"
| "strrc_RCContraint NOTNULL = ''CONSTRAINT_NOTNULL''"
| "strrc_RCContraint PRIMARYKEY = ''CONSTRAINT_PRIMARYKEY''"
| "strrc_RCContraint TRIGGER = ''CONSTRAINT_TRIGGER''"
| "strrc_RCContraint UNIQUE = ''CONSTRAINT_UNIQUE''"
| "strrc_RCContraint CVIRT = ''CONSTRAINT_VIRT''"
| "strrc_RCContraint ROWID = ''CONSTRAINT_ROWID''"
| "strrc_RCContraint PINNED = ''CONSTRAINT_PINNED''"

primrec strrc_RCNotice :: "RCNotice \<Rightarrow> string" where
  "strrc_RCNotice RECOVER_WAL = ''NOTICE_RECOVER_WAL''"
| "strrc_RCNotice RECOVER_ROLLBACK = ''NOTICE_RECOVER_ROLLBACK''"
| "strrc_RCNotice AUTOINDEX = ''NOTICE_AUTOINDEX''"

primrec strrc_RCFILE :: "RCFILE \<Rightarrow> string" where
  "strrc_RCFILE F_EXIST = ''FILE_EXIST''"
| "strrc_RCFILE F_NOT_EXIST = ''FILE_NOT_EXIST''"
| "strrc_RCFILE F_NAME = ''FILE_NAME''"
| "strrc_RCFILE F_BOUND = ''FILE_BOUND''"
| "strrc_RCFILE F_CREATE = ''FILE_CREATE''"
| "strrc_RCFILE F_OPEN = ''FILE_OPEN''"
| "strrc_RCFILE F_NOT_OPENED = ''FILE_NOT_OPENED''"
| "strrc_RCFILE F_CLOSE = ''FILE_CLOSE''"
| "strrc_RCFILE F_REMOVE = ''FILE_REMOVE''"
| "strrc_RCFILE F_SEEK = ''FILE_SEEK''"
| "strrc_RCFILE F_READ = ''FILE_READ''"
| "strrc_RCFILE F_WRITE = ''FILE_WRITE''"

primrec strrc_RCAuth :: "RCAuth \<Rightarrow> string" where
  "strrc_RCAuth USER = ''AUTH_USER''"

primrec strrc_RCLOGBUF :: "RCLOGBUF \<Rightarrow> string" where
  "strrc_RCLOGBUF LB_FULL = ''LOGBUF_FULL''"
| "strrc_RCLOGBUF LB_EMPTY = ''LOGBUF_EMPTY''"

primrec strrc :: "RC \<Rightarrow> string" where
  "strrc SUCCESS = ''SUCCESS''"
| "strrc GENERIC_ERROR = ''GENERIC_ERROR''"
| "strrc INVALID_ARGUMENT = ''INVALID_ARGUMENT''"
| "strrc UNIMPLENMENT = ''UNIMPLENMENT''"
| "strrc SQL_SYNTAX = ''SQL_SYNTAX''"
| "strrc BUFFERPOOL = ''BUFFERPOOL''"
| "strrc RECORD = ''RECORD''"
| "strrc INTERNAL = ''INTERNAL''"
| "strrc PERM = ''PERM''"
| "strrc ABORT = ''ABORT''"
| "strrc BUSY = ''BUSY''"
| "strrc LOCKED = ''LOCKED''"
| "strrc NOMEM = ''NOMEM''"
| "strrc READONLY = ''READONLY''"
| "strrc INTERRUPT = ''INTERRUPT''"
| "strrc IOERR = ''IOERR''"
| "strrc CORRUPT = ''CORRUPT''"
| "strrc NOTFOUND = ''NOTFOUND''"
| "strrc FULL = ''FULL''"
| "strrc CANTOPEN = ''CANTOPEN''"
| "strrc PROTOCOL = ''PROTOCOL''"
| "strrc EMPTY = ''EMPTY''"
| "strrc SCHEMA = ''SCHEMA''"
| "strrc TOOBIG = ''TOOBIG''"
| "strrc CONSTRAINT = ''CONSTRAINT''"
| "strrc MISMATCH = ''MISMATCH''"
| "strrc MISUSE = ''MISUSE''"
| "strrc NOLFS = ''NOLFS''"
| "strrc AUTH = ''AUTH''"
| "strrc FORMAT = ''FORMAT''"
| "strrc RANGE = ''RANGE''"
| "strrc NOTADB = ''NOTADB''"
| "strrc FILE_ERROR = ''UNKNOWN''"
| "strrc LOGBUF = ''LOGBUF''"
| "strrc SHOULD_NOT_BE_CALLED = ''UNKNOWN''"
| "strrc UNKNOWN_TYPE = ''UNKNOWN''"
| "strrc NO_SUCH_FUNC = ''UNKNOWN''"
| "strrc PARA_DISMATCH = ''UNKNOWN''"
| "strrc ERROR_INPUT_TYPE = ''UNKNOWN''"
| "strrc ERROR_LOGIC_PLAN = ''UNKNOWN''"
| "strrc EXPR_PARSE_ERROR = ''UNKNOWN''"
| "strrc CONST_PARSE_ERROR = ''UNKNOWN''"
| "strrc ERROR_ALIAS = ''UNKNOWN''"
| "strrc ALIAS_REPEAT = ''UNKNOWN''"
| "strrc NOTICE = ''NOTICE''"
| "strrc (BufferPool_RC s) = strrc_RCBufferPool s"
| "strrc (Record_RC s) = strrc_RCRecord s"
| "strrc (Schema_RC s) = strrc_RCSchema s"
| "strrc (IOError_RC s) = strrc_RCIOError s"
| "strrc (Lock_RC s) = strrc_RCLock s"
| "strrc (Busy_RC s) = strrc_RCBusy s"
| "strrc (CantOpen_RC s) = strrc_RCCantOpen s"
| "strrc (Readonly_RC s) = strrc_RCReadonly s"
| "strrc (Abort_RC s) = strrc_RCAbort s"
| "strrc (Contraint_RC s) = strrc_RCContraint s"
| "strrc (Notice_RC s) = strrc_RCNotice s"
| "strrc (FILE_RC s) = strrc_RCFILE s"
| "strrc (Auth_RC s) = strrc_RCAuth s"
| "strrc (LOGBUF_RC s) = strrc_RCLOGBUF s"

section \<open>Facts\<close>

text \<open>Every sub-code is a positive byte, so the two parts of a code occupy different bytes.\<close>

lemma rc_class_less: "rc_class r < 128"
  by (cases r) simp_all

lemma or_push8: "c OR push_bit 8 s = c + 256 * s" if "c < 256" for c s :: nat
proof -
  have "\<not> bit c n" if "8 \<le> n" for n
  proof -
    have "(2 :: nat) ^ 8 \<le> 2 ^ n" using that by (rule power_increasing) simp
    with \<open>c < 256\<close> show ?thesis by (simp add: bit_iff_odd)
  qed
  then have "c AND push_bit 8 s = 0"
    by (intro bit_eqI) (auto simp: bit_and_iff bit_push_bit_iff)
  then show ?thesis
    using disjunctive_add_eq_or [of c "push_bit 8 s"] by (simp add: push_bit_eq_mult mult.commute)
qed

lemma rc_code_eq: "rc_code r = rc_class r + 256 * rc_sub r"
  using rc_class_less [of r] by (simp add: rc_code_def or_push8)

lemma rc_code_parts: "rc_code r = rc_code r' \<longleftrightarrow> rc_class r = rc_class r' \<and> rc_sub r = rc_sub r'"
proof -
  have "rc_code x mod 256 = rc_class x" "rc_code x div 256 = rc_sub x" for x
    using rc_class_less [of x] by (simp_all add: rc_code_eq)
  then show ?thesis by (metis rc_code_eq)
qed

lemma code_RCBufferPool_inj [simp]: "code_RCBufferPool a = code_RCBufferPool b \<longleftrightarrow> a = b"
  by (cases a; cases b) simp_all

lemma code_RCBufferPool_pos [simp]: "0 < code_RCBufferPool a" "code_RCBufferPool a < 32"
  by (cases a; simp)+

lemma code_RCRecord_inj [simp]: "code_RCRecord a = code_RCRecord b \<longleftrightarrow> a = b"
  by (cases a; cases b) simp_all

lemma code_RCRecord_pos [simp]: "0 < code_RCRecord a" "code_RCRecord a < 32"
  by (cases a; simp)+

lemma code_RCSchema_inj [simp]: "code_RCSchema a = code_RCSchema b \<longleftrightarrow> a = b"
  by (cases a; cases b) simp_all

lemma code_RCSchema_pos [simp]: "0 < code_RCSchema a" "code_RCSchema a < 32"
  by (cases a; simp)+

lemma code_RCIOError_inj [simp]: "code_RCIOError a = code_RCIOError b \<longleftrightarrow> a = b"
  by (cases a; cases b) simp_all

lemma code_RCIOError_pos [simp]: "0 < code_RCIOError a" "code_RCIOError a < 32"
  by (cases a; simp)+

lemma code_RCLock_inj [simp]: "code_RCLock a = code_RCLock b \<longleftrightarrow> a = b"
  by (cases a; cases b) simp_all

lemma code_RCLock_pos [simp]: "0 < code_RCLock a" "code_RCLock a < 32"
  by (cases a; simp)+

lemma code_RCBusy_inj [simp]: "code_RCBusy a = code_RCBusy b \<longleftrightarrow> a = b"
  by (cases a; cases b) simp_all

lemma code_RCBusy_pos [simp]: "0 < code_RCBusy a" "code_RCBusy a < 32"
  by (cases a; simp)+

lemma code_RCCantOpen_inj [simp]: "code_RCCantOpen a = code_RCCantOpen b \<longleftrightarrow> a = b"
  by (cases a; cases b) simp_all

lemma code_RCCantOpen_pos [simp]: "0 < code_RCCantOpen a" "code_RCCantOpen a < 32"
  by (cases a; simp)+

lemma code_RCReadonly_inj [simp]: "code_RCReadonly a = code_RCReadonly b \<longleftrightarrow> a = b"
  by (cases a; cases b) simp_all

lemma code_RCReadonly_pos [simp]: "0 < code_RCReadonly a" "code_RCReadonly a < 32"
  by (cases a; simp)+

lemma code_RCAbort_inj [simp]: "code_RCAbort a = code_RCAbort b \<longleftrightarrow> a = b"
  by (cases a; cases b) simp_all

lemma code_RCAbort_pos [simp]: "0 < code_RCAbort a" "code_RCAbort a < 32"
  by (cases a; simp)+

lemma code_RCContraint_inj [simp]: "code_RCContraint a = code_RCContraint b \<longleftrightarrow> a = b"
  by (cases a; cases b) simp_all

lemma code_RCContraint_pos [simp]: "0 < code_RCContraint a" "code_RCContraint a < 32"
  by (cases a; simp)+

lemma code_RCNotice_inj [simp]: "code_RCNotice a = code_RCNotice b \<longleftrightarrow> a = b"
  by (cases a; cases b) simp_all

lemma code_RCNotice_pos [simp]: "0 < code_RCNotice a" "code_RCNotice a < 32"
  by (cases a; simp)+

lemma code_RCFILE_inj [simp]: "code_RCFILE a = code_RCFILE b \<longleftrightarrow> a = b"
  by (cases a; cases b) simp_all

lemma code_RCFILE_pos [simp]: "0 < code_RCFILE a" "code_RCFILE a < 32"
  by (cases a; simp)+

lemma code_RCAuth_inj [simp]: "code_RCAuth a = code_RCAuth b \<longleftrightarrow> a = b"
  by (cases a; cases b) simp_all

lemma code_RCAuth_pos [simp]: "0 < code_RCAuth a" "code_RCAuth a < 32"
  by (cases a; simp)+

lemma code_RCLOGBUF_inj [simp]: "code_RCLOGBUF a = code_RCLOGBUF b \<longleftrightarrow> a = b"
  by (cases a; cases b) simp_all

lemma code_RCLOGBUF_pos [simp]: "0 < code_RCLOGBUF a" "code_RCLOGBUF a < 32"
  by (cases a; simp)+

text \<open>
  No two return codes share a numeric value: the enum \<^verbatim>\<open>RC\<close> is injective into the
  integers, so comparing codes in C++ is comparing their names.
\<close>

theorem rc_code_injective: "rc_code r = rc_code r' \<longleftrightarrow> r = r'"
  unfolding rc_code_parts by (cases r; cases r'; simp)

text \<open>
  \<^verbatim>\<open>strrc\<close> prints the name of every code except twelve, which the switch does not list
  and which are printed as \<^verbatim>\<open>UNKNOWN\<close>.
\<close>

theorem strrc_unknown:
  "strrc r = ''UNKNOWN'' \<longleftrightarrow>
     r \<in> {FILE_ERROR, SHOULD_NOT_BE_CALLED, UNKNOWN_TYPE, NO_SUCH_FUNC, PARA_DISMATCH,
          ERROR_INPUT_TYPE, ERROR_LOGIC_PLAN, EXPR_PARSE_ERROR, CONST_PARSE_ERROR, ERROR_ALIAS,
          ALIAS_REPEAT, SCHEMA_FIELD_NOT_NULL}"
proof (cases r)
  case (BufferPool_RC x)
  then show ?thesis by (cases x) simp_all
next
  case (Record_RC x)
  then show ?thesis by (cases x) simp_all
next
  case (Schema_RC x)
  then show ?thesis by (cases x) simp_all
next
  case (IOError_RC x)
  then show ?thesis by (cases x) simp_all
next
  case (Lock_RC x)
  then show ?thesis by (cases x) simp_all
next
  case (Busy_RC x)
  then show ?thesis by (cases x) simp_all
next
  case (CantOpen_RC x)
  then show ?thesis by (cases x) simp_all
next
  case (Readonly_RC x)
  then show ?thesis by (cases x) simp_all
next
  case (Abort_RC x)
  then show ?thesis by (cases x) simp_all
next
  case (Contraint_RC x)
  then show ?thesis by (cases x) simp_all
next
  case (Notice_RC x)
  then show ?thesis by (cases x) simp_all
next
  case (FILE_RC x)
  then show ?thesis by (cases x) simp_all
next
  case (Auth_RC x)
  then show ?thesis by (cases x) simp_all
next
  case (LOGBUF_RC x)
  then show ?thesis by (cases x) simp_all
qed simp_all

end
