(* ===== verification/Ob_Bitmap.thy ===== *)
theory Ob_Bitmap
  imports Ob_Prelude
begin

text \<open>
  The bitmap of \<open>src/deps/common/lang/bitmap.cpp\<close>, used for page allocation in the buffer pool
  and for slot allocation in record pages.  A \<^verbatim>\<open>Bitmap\<close> is a pointer and a size in bits; the
  pointer is the memory behind it, so the loops of the two searches read past the last byte
  exactly as the code does (\<^verbatim>\<open>iter <= end\<close>).
\<close>

section \<open>Model\<close>

record Bitmap =
  bm_data :: mem
  bm_size :: nat

text \<open>The loops of the two byte searches, from bit \<open>i\<close> on.\<close>

function find_first_zero :: "byte \<Rightarrow> nat \<Rightarrow> int" where
  "find_first_zero b i =
     (if i < 8 then if b AND push_bit i 1 = 0 then int i else find_first_zero b (Suc i)
      else - 1)"
  by pat_completeness auto
termination
  by (relation "measure (\<lambda>(b, i). 8 - i)") auto

function find_first_setted :: "byte \<Rightarrow> nat \<Rightarrow> int" where
  "find_first_setted b i =
     (if i < 8 then if b AND push_bit i 1 \<noteq> 0 then int i else find_first_setted b (Suc i)
      else - 1)"
  by pat_completeness auto
termination
  by (relation "measure (\<lambda>(b, i). 8 - i)") auto

declare find_first_zero.simps [simp del] find_first_setted.simps [simp del]

definition get_bit :: "Bitmap \<Rightarrow> nat \<Rightarrow> bool" where
  "get_bit bm index = (bm_data bm (index div 8) AND push_bit (index mod 8) 1 \<noteq> 0)"

definition set_bit :: "Bitmap \<Rightarrow> nat \<Rightarrow> Bitmap" where
  "set_bit bm index =
     bm\<lparr>bm_data := (bm_data bm)(index div 8 :=
          bm_data bm (index div 8) OR push_bit (index mod 8) 1)\<rparr>"

definition clear_bit :: "Bitmap \<Rightarrow> nat \<Rightarrow> Bitmap" where
  "clear_bit bm index =
     bm\<lparr>bm_data := (bm_data bm)(index div 8 :=
          bm_data bm (index div 8) AND NOT (push_bit (index mod 8) 1))\<rparr>"

text \<open>
  The byte loop of \<^verbatim>\<open>next_unsetted_bit\<close>: \<open>iter\<close> runs up to and including \<open>fin\<close>, and
  \<open>start_in_byte\<close> is reset only behind a byte that was searched.
\<close>

function unsetted_loop :: "mem \<Rightarrow> nat \<Rightarrow> nat \<Rightarrow> nat \<Rightarrow> int" where
  "unsetted_loop m fin iter start_in_byte =
     (if iter \<le> fin then
        if m iter \<noteq> - 1 then
          let index_in_byte = find_first_zero (m iter) start_in_byte in
          if index_in_byte \<ge> 0 then int iter * 8 + index_in_byte
          else unsetted_loop m fin (Suc iter) 0
        else unsetted_loop m fin (Suc iter) start_in_byte
      else - 1)"
  by pat_completeness auto
termination
  by (relation "measure (\<lambda>(m, fin, iter, s). Suc fin - iter)") auto

function setted_loop :: "mem \<Rightarrow> nat \<Rightarrow> nat \<Rightarrow> nat \<Rightarrow> int" where
  "setted_loop m fin iter start_in_byte =
     (if iter \<le> fin then
        if m iter \<noteq> 0 then
          let index_in_byte = find_first_setted (m iter) start_in_byte in
          if index_in_byte \<ge> 0 then int iter * 8 + index_in_byte
          else setted_loop m fin (Suc iter) 0
        else setted_loop m fin (Suc iter) start_in_byte
      else - 1)"
  by pat_completeness auto
termination
  by (relation "measure (\<lambda>(m, fin, iter, s). Suc fin - iter)") auto

declare unsetted_loop.simps [simp del] setted_loop.simps [simp del]

definition bitmap_end :: "Bitmap \<Rightarrow> nat" where
  "bitmap_end bm = (if bm_size bm mod 8 = 0 then bm_size bm div 8 else bm_size bm div 8 + 1)"

definition next_unsetted_bit :: "Bitmap \<Rightarrow> nat \<Rightarrow> int" where
  "next_unsetted_bit bm start =
     (let ret = unsetted_loop (bm_data bm) (bitmap_end bm) (start div 8) (start mod 8) in
      if ret \<ge> int (bm_size bm) then - 1 else ret)"

definition next_setted_bit :: "Bitmap \<Rightarrow> nat \<Rightarrow> int" where
  "next_setted_bit bm start =
     (let ret = setted_loop (bm_data bm) (bitmap_end bm) (start div 8) (start mod 8) in
      if ret \<ge> int (bm_size bm) then - 1 else ret)"

section \<open>Single bits\<close>

lemma get_bit_iff: "get_bit bm i \<longleftrightarrow> bit (bm_data bm (i div 8)) (i mod 8)"
  by (simp add: get_bit_def and_exp_eq_0)

lemma set_bit_size [simp]: "bm_size (set_bit bm i) = bm_size bm"
  by (simp add: set_bit_def)

lemma clear_bit_size [simp]: "bm_size (clear_bit bm i) = bm_size bm"
  by (simp add: clear_bit_def)

lemma div_mod8_eq: "i = j \<longleftrightarrow> i div 8 = j div 8 \<and> i mod 8 = j mod 8" for i j :: nat
  by (metis div_mult_mod_eq)

lemma bit_or_exp: "bit (b OR 2 ^ i) j \<longleftrightarrow> bit b j \<or> j = i" if "i < 8" for b :: byte
  using that by (auto simp: bit_or_iff bit_exp_iff)

lemma bit_and_not_exp: "bit (b AND NOT (2 ^ i)) j \<longleftrightarrow> bit b j \<and> j \<noteq> i" if "j < 8" for b :: byte
  using that by (auto simp: bit_and_iff bit_not_iff bit_exp_iff)

lemma get_set_bit [simp]: "get_bit (set_bit bm i) j \<longleftrightarrow> i = j \<or> get_bit bm j"
proof (cases "i div 8 = j div 8")
  case True
  then have "get_bit (set_bit bm i) j \<longleftrightarrow> get_bit bm j \<or> j mod 8 = i mod 8"
    by (simp add: get_bit_iff set_bit_def bit_or_exp)
  with True show ?thesis by (auto simp: div_mod8_eq [of i j])
next
  case False
  then show ?thesis by (auto simp: get_bit_iff set_bit_def)
qed

lemma get_clear_bit [simp]: "get_bit (clear_bit bm i) j \<longleftrightarrow> i \<noteq> j \<and> get_bit bm j"
proof (cases "i div 8 = j div 8")
  case True
  then have "get_bit (clear_bit bm i) j \<longleftrightarrow> get_bit bm j \<and> j mod 8 \<noteq> i mod 8"
    by (simp add: get_bit_iff clear_bit_def bit_and_not_exp)
  with True show ?thesis by (auto simp: div_mod8_eq [of i j])
next
  case False
  then show ?thesis by (auto simp: get_bit_iff clear_bit_def)
qed

text \<open>The bytes a write does not name keep their value.\<close>

lemma set_bit_other_byte: "k \<noteq> i div 8 \<Longrightarrow> bm_data (set_bit bm i) k = bm_data bm k"
  by (simp add: set_bit_def)

lemma clear_bit_other_byte: "k \<noteq> i div 8 \<Longrightarrow> bm_data (clear_bit bm i) k = bm_data bm k"
  by (simp add: clear_bit_def)

section \<open>The searches\<close>

lemma find_first_zero_eq: "find_first_zero b i = first_from (\<lambda>j. \<not> bit b j) i 8"
proof (induction b i rule: find_first_zero.induct)
  case (1 b i)
  show ?case
  proof (cases "i < 8 \<and> bit b i")
    case True
    with 1 have "find_first_zero b i = first_from (\<lambda>j. \<not> bit b j) (Suc i) 8"
      by (simp add: find_first_zero.simps [of b i] and_exp_eq_0)
    with True show ?thesis by (simp add: first_from_def upt_conv_Cons)
  next
    case False
    then show ?thesis
      by (auto simp: find_first_zero.simps [of b i] and_exp_eq_0 first_from_def upt_conv_Cons)
  qed
qed

lemma find_first_setted_eq: "find_first_setted b i = first_from (bit b) i 8"
proof (induction b i rule: find_first_setted.induct)
  case (1 b i)
  show ?case
  proof (cases "i < 8 \<and> \<not> bit b i")
    case True
    with 1 have "find_first_setted b i = first_from (bit b) (Suc i) 8"
      by (simp add: find_first_setted.simps [of b i] and_exp_eq_0)
    with True show ?thesis by (simp add: first_from_def upt_conv_Cons)
  next
    case False
    then show ?thesis
      by (auto simp: find_first_setted.simps [of b i] and_exp_eq_0 first_from_def upt_conv_Cons)
  qed
qed

text \<open>
  Both byte loops have one shape: a byte equal to \<open>skip\<close> is passed over without resetting the
  start bit, any other byte is searched.  The locale carries the argument for both.
\<close>

locale byte_search =
  fixes P :: "byte \<Rightarrow> nat \<Rightarrow> bool"
    and skip :: byte
    and search :: "byte \<Rightarrow> nat \<Rightarrow> int"
    and loop :: "mem \<Rightarrow> nat \<Rightarrow> nat \<Rightarrow> nat \<Rightarrow> int"
  assumes search_eq: "search b i = first_from (P b) i 8"
    and skip_none: "i < 8 \<Longrightarrow> \<not> P skip i"
    and loop_eq: "loop m fin it s =
      (if it \<le> fin then
         if m it \<noteq> skip then
           let k = search (m it) s in
           if k \<ge> 0 then int it * 8 + k else loop m fin (Suc it) 0
         else loop m fin (Suc it) s
       else - 1)"
begin

definition hit :: "mem \<Rightarrow> nat \<Rightarrow> bool" where
  "hit m i = P (m (i div 8)) (i mod 8)"

lemma hit_byte: "k < 8 \<Longrightarrow> hit m (it * 8 + k) = P (m it) k"
  by (simp add: hit_def)

lemma no_hit_from:
  assumes "\<And>k. s \<le> k \<Longrightarrow> k < 8 \<Longrightarrow> \<not> P (m it) k"
    and "it * 8 + s \<le> i" "i < Suc it * 8"
  shows "\<not> hit m i"
proof -
  have "i = it * 8 + (i - it * 8)" "i - it * 8 < 8" "s \<le> i - it * 8"
    using assms(2,3) by auto
  then show ?thesis
    using hit_byte [of "i - it * 8" m it] assms(1) by metis
qed

lemma first_from_skip_byte:
  assumes "\<And>k. s \<le> k \<Longrightarrow> k < 8 \<Longrightarrow> \<not> P (m it) k" "s \<le> 8" "it \<le> fin"
  shows "first_from (hit m) (it * 8 + s) (8 * Suc fin) = first_from (hit m) (Suc it * 8) (8 * Suc fin)"
proof -
  have "[it * 8 + s..<8 * Suc fin] = [it * 8 + s..<Suc it * 8] @ [Suc it * 8..<8 * Suc fin]"
  proof -
    have "it * 8 + s \<le> Suc it * 8" "Suc it * 8 \<le> 8 * Suc fin"
      using assms(2,3) by auto
    then show ?thesis by (metis upt_add_eq_append le_add_diff_inverse)
  qed
  moreover have "List.find (hit m) [it * 8 + s..<Suc it * 8] = None"
    using no_hit_from [of s m it] assms(1) by (auto simp: find_None_upt)
  moreover have "List.find (hit m) (xs @ ys) = List.find (hit m) ys"
    if "List.find (hit m) xs = None" for xs ys
    using that by (induction xs) (auto split: if_splits)
  ultimately show ?thesis by (simp add: first_from_def)
qed

lemma loop_found:
  assumes "m it \<noteq> skip" "it \<le> fin" "search (m it) s \<ge> 0"
  shows "\<exists>k. search (m it) s = int k \<and> s \<le> k \<and> k < 8 \<and> P (m it) k \<and>
           (\<forall>j. s \<le> j \<and> j < k \<longrightarrow> \<not> P (m it) j)"
  using assms(3) first_from_nonneg [of "P (m it)" s 8] by (auto simp: search_eq)

text \<open>The loop returns the first hit when the first byte is searched or is searched from bit 0.\<close>

lemma loop_spec:
  assumes "s < 8" "s = 0 \<or> m it \<noteq> skip"
  shows "loop m fin it s = first_from (hit m) (it * 8 + s) (8 * Suc fin)"
  using assms
proof (induction "Suc fin - it" arbitrary: it s rule: less_induct)
  case less
  show ?case
  proof (cases "it \<le> fin")
    case False
    then have "loop m fin it s = - 1" by (subst loop_eq) simp
    with False show ?thesis by (simp add: first_from_none)
  next
    case True
    note rest = less.hyps [of "Suc it" 0]
    show ?thesis
    proof (cases "m it \<noteq> skip \<and> search (m it) s \<ge> 0")
      case hit: True
      then obtain k where k: "search (m it) s = int k" "s \<le> k" "k < 8" "P (m it) k"
          "\<forall>j. s \<le> j \<and> j < k \<longrightarrow> \<not> P (m it) j"
        using loop_found True by blast
      have "first_from (hit m) (it * 8 + s) (8 * Suc fin) = int (it * 8 + k)"
      proof (rule first_from_least)
        show "hit m (it * 8 + k)" using k by (simp add: hit_byte)
        show "\<not> hit m j" if "it * 8 + s \<le> j" "j < it * 8 + k" for j
        proof -
          define d where "d = j - it * 8"
          have "j = it * 8 + d" "s \<le> d" "d < k" using that by (auto simp: d_def)
          with k(3,5) show ?thesis by (simp add: hit_byte)
        qed
      qed (use k True in auto)
      moreover have "loop m fin it s = int (it * 8 + k)"
        using k True hit by (subst loop_eq) simp
      ultimately show ?thesis by simp
    next
      case miss: False
      have none: "\<not> P (m it) k" if "s \<le> k" "k < 8" for k
      proof (cases "m it = skip")
        case True
        then show ?thesis using that skip_none by simp
      next
        case False
        with miss have "search (m it) s = - 1"
          using first_from_nonneg [of "P (m it)" s 8] by (force simp: search_eq)
        then show ?thesis using that by (simp add: search_eq first_from_neg_iff)
      qed
      have "loop m fin it s = loop m fin (Suc it) 0"
        using miss True less.prems by (subst loop_eq) (auto simp: Let_def)
      also have "\<dots> = first_from (hit m) (Suc it * 8) (8 * Suc fin)"
        using rest True by simp
      also have "\<dots> = first_from (hit m) (it * 8 + s) (8 * Suc fin)"
        using first_from_skip_byte [of s m it fin] none True less.prems by simp
      finally show ?thesis .
    qed
  qed
qed

text \<open>From any start bit, what the loop returns is a hit at or behind the start.\<close>

lemma loop_sound:
  assumes "loop m fin it s \<noteq> - 1" "s < 8"
  shows "\<exists>i. loop m fin it s = int i \<and> it * 8 + s \<le> i \<and> hit m i"
  using assms
proof (induction "Suc fin - it" arbitrary: it s rule: less_induct)
  case less
  have le: "it \<le> fin" using less.prems(1) by (rule contrapos_np) (subst loop_eq, simp)
  show ?case
  proof (cases "m it \<noteq> skip \<and> search (m it) s \<ge> 0")
    case True
    then obtain k where k: "search (m it) s = int k" "s \<le> k" "k < 8" "P (m it) k"
      using loop_found le by blast
    moreover have "loop m fin it s = int (it * 8 + k)"
      using k True le by (subst loop_eq) simp
    ultimately show ?thesis
      by (intro exI [of _ "it * 8 + k"]) (simp add: hit_byte)
  next
    case False
    define s' where "s' = (if m it = skip then s else 0)"
    have eq: "loop m fin it s = loop m fin (Suc it) s'"
      using False le by (subst loop_eq) (auto simp: Let_def s'_def)
    moreover have "Suc fin - Suc it < Suc fin - it" using le by linarith
    moreover have "s' < 8" using less.prems(2) by (simp add: s'_def)
    ultimately obtain i where
      "loop m fin it s = int i" "Suc it * 8 + s' \<le> i" "hit m i"
      using less.prems less.hyps [of "Suc it" s'] by metis
    then show ?thesis using less.prems(2) by (intro exI [of _ i]) auto
  qed
qed

end

interpretation zero_search: byte_search "\<lambda>b i. \<not> bit b i" "- 1" find_first_zero unsetted_loop
  by unfold_locales (auto simp: find_first_zero_eq byte_full_bit unsetted_loop.simps)

interpretation one_search: byte_search bit 0 find_first_setted setted_loop
  by unfold_locales (auto simp: find_first_setted_eq setted_loop.simps)

lemma zero_hit: "zero_search.hit (bm_data bm) i \<longleftrightarrow> \<not> get_bit bm i"
  by (simp add: zero_search.hit_def get_bit_iff)

lemma one_hit: "one_search.hit (bm_data bm) i \<longleftrightarrow> get_bit bm i"
  by (simp add: one_search.hit_def get_bit_iff)

text \<open>The over-read byte cannot change a result: an index behind the size is dropped.\<close>

lemma first_from_truncate:
  assumes "b \<le> c"
  shows "(if first_from P a c \<ge> int b then - 1 else first_from P a c) = first_from P a b"
proof (cases "first_from P a c = - 1")
  case True
  with assms show ?thesis by (force simp: first_from_neg_iff first_from_none)
next
  case False
  then obtain i where i: "first_from P a c = int i" "a \<le> i" "i < c" "P i"
      "\<forall>j. a \<le> j \<and> j < i \<longrightarrow> \<not> P j"
    using first_from_nonneg [of P a c] by blast
  show ?thesis
  proof (cases "i < b")
    case True
    with i have "first_from P a b = int i" by (intro first_from_least) auto
    with i True show ?thesis by simp
  next
    case False
    with i have "first_from P a b = - 1" by (intro first_from_none) auto
    with i False show ?thesis by simp
  qed
qed

lemma bitmap_end_ge: "bm_size bm \<le> 8 * Suc (bitmap_end bm)"
proof -
  have "n \<le> 8 * Suc (n div 8)" for n :: nat by presburger
  from this [of "bm_size bm"] show ?thesis by (simp add: bitmap_end_def)
qed

section \<open>Properties\<close>

lemma next_unsetted_first:
  assumes "start mod 8 = 0 \<or> bm_data bm (start div 8) \<noteq> - 1"
  shows "next_unsetted_bit bm start = first_from (\<lambda>i. \<not> get_bit bm i) start (bm_size bm)"
proof -
  have "unsetted_loop (bm_data bm) (bitmap_end bm) (start div 8) (start mod 8) =
      first_from (zero_search.hit (bm_data bm)) start (8 * Suc (bitmap_end bm))"
    using zero_search.loop_spec [of "start mod 8" "bm_data bm" "start div 8" "bitmap_end bm"] assms
    by simp
  then show ?thesis
    using first_from_truncate [OF bitmap_end_ge]
    by (simp add: next_unsetted_bit_def Let_def zero_hit cong: first_from_cong)
qed

lemma next_setted_first:
  assumes "start mod 8 = 0 \<or> bm_data bm (start div 8) \<noteq> 0"
  shows "next_setted_bit bm start = first_from (get_bit bm) start (bm_size bm)"
proof -
  have "setted_loop (bm_data bm) (bitmap_end bm) (start div 8) (start mod 8) =
      first_from (one_search.hit (bm_data bm)) start (8 * Suc (bitmap_end bm))"
    using one_search.loop_spec [of "start mod 8" "bm_data bm" "start div 8" "bitmap_end bm"] assms
    by simp
  then show ?thesis
    using first_from_truncate [OF bitmap_end_ge]
    by (simp add: next_setted_bit_def Let_def one_hit cong: first_from_cong)
qed

text \<open>The iterators restart the search behind a bit that is set, which is such a start.\<close>

lemma next_setted_after_hit:
  assumes "get_bit bm i"
  shows "next_setted_bit bm (Suc i) = first_from (get_bit bm) (Suc i) (bm_size bm)"
proof (rule next_setted_first)
  show "Suc i mod 8 = 0 \<or> bm_data bm (Suc i div 8) \<noteq> 0"
  proof (cases "Suc i mod 8 = 0")
    case False
    then have "Suc i div 8 = i div 8" by (simp add: div_Suc)
    moreover have "bm_data bm (i div 8) \<noteq> 0" using assms by (auto simp: get_bit_iff)
    ultimately show ?thesis by simp
  qed simp
qed

text \<open>
  Both searches are sound from every start: a result other than \<open>-1\<close> is an index at or
  behind the start, inside the bitmap, whose bit has the wanted value.
\<close>

theorem next_bit_sound:
  "(next_setted_bit bm start = - 1 \<or>
     (\<exists>i. next_setted_bit bm start = int i \<and> start \<le> i \<and> i < bm_size bm \<and> get_bit bm i)) \<and>
   (next_unsetted_bit bm start = - 1 \<or>
     (\<exists>i. next_unsetted_bit bm start = int i \<and> start \<le> i \<and> i < bm_size bm \<and> \<not> get_bit bm i))"
  (is "?set \<and> ?unset")
proof
  show ?set
  proof (cases "next_setted_bit bm start = - 1")
    case False
    then show ?thesis
      using one_search.loop_sound [of "bm_data bm" "bitmap_end bm" "start div 8" "start mod 8"]
      by (fastforce simp: next_setted_bit_def Let_def one_hit split: if_splits)
  qed simp
  show ?unset
  proof (cases "next_unsetted_bit bm start = - 1")
    case False
    then show ?thesis
      using zero_search.loop_sound [of "bm_data bm" "bitmap_end bm" "start div 8" "start mod 8"]
      by (fastforce simp: next_unsetted_bit_def Let_def zero_hit split: if_splits)
  qed simp
qed

text \<open>
  \<^verbatim>\<open>next_setted_bit\<close> returns the first set bit at or behind the start, or \<open>-1\<close> when there is
  none, whenever the start is byte aligned or the byte it falls in is not zero.
\<close>

theorem next_setted_bit_correct:
  assumes "start mod 8 = 0 \<or> bm_data bm (start div 8) \<noteq> 0"
  shows "next_setted_bit bm start = first_from (get_bit bm) start (bm_size bm)"
  using assms by (rule next_setted_first)

theorem next_setted_bit_correct_witness:
  "next_setted_bit \<lparr>bm_data = (\<lambda>i. if i = 1 then 4 else 0), bm_size = 16\<rparr> 0 =
     first_from (get_bit \<lparr>bm_data = (\<lambda>i. if i = 1 then 4 else 0), bm_size = 16\<rparr>) 0 16"
  using next_setted_bit_correct [of 0 "\<lparr>bm_data = (\<lambda>i. if i = 1 then 4 else 0), bm_size = 16\<rparr>"]
  by simp

text \<open>
  \<^verbatim>\<open>next_unsetted_bit(0)\<close>, the call that finds a free record slot, returns the least free
  index, or \<open>-1\<close> exactly when every bit below the size is set.
\<close>

theorem next_unsetted_bit_zero:
  "next_unsetted_bit bm 0 = first_from (\<lambda>i. \<not> get_bit bm i) 0 (bm_size bm)"
  by (rule next_unsetted_first) simp

text \<open>
  From a start inside a byte without set bits the search can miss: the start bit is carried
  into the following bytes, and bit 8 is not found from start 1 although it is set.
\<close>

theorem next_setted_bit_misses:
  "\<exists>bm. get_bit bm 8 \<and> 8 < bm_size bm \<and> next_setted_bit bm 1 = - 1"
proof -
  let ?bm = "\<lparr>bm_data = (\<lambda>i. if i = 1 then 1 else 0), bm_size = 16\<rparr>"
  have "setted_loop (\<lambda>i. if i = 1 then 1 else 0) 2 0 1 = - 1"
    by (simp add: setted_loop.simps find_first_setted.simps numeral_eq_Suc)
  then have "next_setted_bit ?bm 1 = - 1"
    by (simp add: next_setted_bit_def bitmap_end_def)
  moreover have "get_bit ?bm 8" by (simp add: get_bit_def)
  ultimately show ?thesis by (intro exI [of _ ?bm]) simp
qed

end
