(* ===== verification/Ob_LowerBound.thy ===== *)
theory Ob_LowerBound
  imports Ob_Prelude
begin

text \<open>
  The binary search of \<open>src/deps/common/lang/lower_bound.h\<close> and the iterator it runs over.  The
  B+ tree uses it for every lookup inside a node.  The locale \<open>key_order\<close> is the contract a
  three-way comparison has to meet on the keys it is used with; the search is proved correct
  for the weaker condition that the comparison with the sought value changes sign once.
\<close>

section \<open>Model\<close>

text \<open>
  The \<^verbatim>\<open>while\<close> loop of \<^verbatim>\<open>lower_bound\<close>: \<open>first\<close> is the left end (an index instead of an
  iterator), \<open>last_count\<close> the number of elements still in question; the result is the final
  \<open>first\<close> and \<^verbatim>\<open>found\<close>.
\<close>

function lower_bound_loop ::
    "('a \<Rightarrow> 'b \<Rightarrow> int) \<Rightarrow> 'a list \<Rightarrow> 'b \<Rightarrow> nat \<Rightarrow> nat \<Rightarrow> nat \<times> bool" where
  "lower_bound_loop cmp xs val first last_count =
     (if last_count > 0 then
        let step = last_count div 2; iter = first + step; result = cmp (xs ! iter) val in
        if result = 0 then (iter, True)
        else if result < 0 then
          lower_bound_loop cmp xs val (Suc iter) (last_count - (step + 1))
        else lower_bound_loop cmp xs val first step
      else (first, False))"
  by pat_completeness auto
termination
  by (relation "measure (\<lambda>(cmp, xs, val, first, last_count). last_count)") auto

declare lower_bound_loop.simps [simp del]

definition lower_bound :: "('a \<Rightarrow> 'b \<Rightarrow> int) \<Rightarrow> 'a list \<Rightarrow> 'b \<Rightarrow> nat \<times> bool" where
  "lower_bound cmp xs val = lower_bound_loop cmp xs val 0 (length xs)"

text \<open>The default three-way comparison \<^verbatim>\<open>Comparator<T>\<close>.\<close>

definition Comparator :: "'a::linorder \<Rightarrow> 'a \<Rightarrow> int" where
  "Comparator v1 v2 = (if v1 < v2 then - 1 else if v1 > v2 then 1 else 0)"

definition lower_bound_default :: "'a::linorder list \<Rightarrow> 'a \<Rightarrow> nat \<times> bool" where
  "lower_bound_default xs val = lower_bound Comparator xs val"

text \<open>The iterator over fixed-size items: a pointer that moves by \<open>item_num\<close> bytes.\<close>

record BinaryIterator =
  item_num :: nat
  it_data :: int

definition it_advance :: "BinaryIterator \<Rightarrow> int \<Rightarrow> BinaryIterator" where
  "it_advance it n = it\<lparr>it_data := it_data it + int (item_num it) * n\<rparr>"

definition it_distance :: "BinaryIterator \<Rightarrow> BinaryIterator \<Rightarrow> int" where
  "it_distance left right = (it_data left - it_data right) div int (item_num left)"

section \<open>The search is correct\<close>

text \<open>
  \<open>cut cmp xs v\<close>: along \<open>xs\<close> the comparison with \<open>v\<close> is negative, then zero at most once, then
  positive.  This is what a list in strictly ascending order gives.
\<close>

definition cut :: "('a \<Rightarrow> 'b \<Rightarrow> int) \<Rightarrow> 'a list \<Rightarrow> 'b \<Rightarrow> bool" where
  "cut cmp xs v = sorted_wrt (\<lambda>x y. cmp y v \<le> 0 \<longrightarrow> cmp x v < 0) xs"

lemma cut_below:
  "cut cmp xs v \<Longrightarrow> i < j \<Longrightarrow> j < length xs \<Longrightarrow> cmp (xs ! j) v \<le> 0 \<Longrightarrow> cmp (xs ! i) v < 0"
  by (auto simp: cut_def sorted_wrt_iff_nth_less)

lemma cut_above:
  "cut cmp xs v \<Longrightarrow> i < j \<Longrightarrow> j < length xs \<Longrightarrow> cmp (xs ! i) v \<ge> 0 \<Longrightarrow> cmp (xs ! j) v > 0"
  using cut_below [of cmp xs v i j] by linarith

definition is_lower_bound :: "('a \<Rightarrow> 'b \<Rightarrow> int) \<Rightarrow> 'a list \<Rightarrow> 'b \<Rightarrow> nat \<times> bool \<Rightarrow> bool" where
  "is_lower_bound cmp xs v res \<longleftrightarrow>
     fst res \<le> length xs \<and>
     (\<forall>i<fst res. cmp (xs ! i) v < 0) \<and>
     (\<forall>i. fst res \<le> i \<and> i < length xs \<longrightarrow> cmp (xs ! i) v \<ge> 0) \<and>
     (snd res \<longleftrightarrow> (\<exists>x\<in>set xs. cmp x v = 0))"

lemma lower_bound_loop_correct:
  assumes "cut cmp xs v" "first + n \<le> length xs"
    and "\<And>i. i < first \<Longrightarrow> cmp (xs ! i) v < 0"
    and "\<And>i. first + n \<le> i \<Longrightarrow> i < length xs \<Longrightarrow> cmp (xs ! i) v > 0"
  shows "is_lower_bound cmp xs v (lower_bound_loop cmp xs v first n)"
  using assms
proof (induction cmp xs v first n rule: lower_bound_loop.induct)
  case (1 cmp xs v first n)
  note cut = "1.prems"(1) and bound = "1.prems"(2)
  define m where "m = first + n div 2"
  show ?case
  proof (cases "n = 0")
    case True
    have "\<not> (\<exists>x\<in>set xs. cmp x v = 0)"
      using "1.prems"(3,4) True by (metis add.right_neutral in_set_conv_nth less_irrefl not_le)
    moreover have "cmp (xs ! i) v \<ge> 0" if "first \<le> i" "i < length xs" for i
      using "1.prems"(4) [of i] True that by simp
    ultimately show ?thesis
      using bound "1.prems"(3) True
      by (subst lower_bound_loop.simps) (auto simp: is_lower_bound_def)
  next
    case False
    then have m: "m < length xs" "m < first + n" using bound by (auto simp: m_def)
    consider (eq) "cmp (xs ! m) v = 0" | (lt) "cmp (xs ! m) v < 0" | (gt) "cmp (xs ! m) v > 0"
      by linarith
    then show ?thesis
    proof cases
      case eq
      have "cmp (xs ! i) v \<ge> 0" if "m \<le> i" "i < length xs" for i
        using cut_above [OF cut, of m i] eq that by (cases "i = m") auto
      then have "is_lower_bound cmp xs v (m, True)"
        using m eq cut_below [OF cut, of _ m] by (auto simp: is_lower_bound_def intro!: bexI [of _ "xs ! m"])
      then show ?thesis
        using False eq by (subst lower_bound_loop.simps) (simp add: m_def)
    next
      case lt
      have "is_lower_bound cmp xs v (lower_bound_loop cmp xs v (Suc m) (n - (n div 2 + 1)))"
      proof (rule "1.IH"(1))
        show "cmp (xs ! i) v < 0" if "i < Suc m" for i
          using cut_below [OF cut, of i m] lt m that by (cases "i = m") auto
        show "cmp (xs ! i) v > 0" if "Suc m + (n - (n div 2 + 1)) \<le> i" "i < length xs" for i
          using "1.prems"(4) [of i] that False by (simp add: m_def)
      qed (use False lt cut bound in \<open>auto simp: m_def\<close>)
      then show ?thesis
        using False lt by (subst lower_bound_loop.simps) (simp add: m_def Let_def)
    next
      case gt
      have "is_lower_bound cmp xs v (lower_bound_loop cmp xs v first (n div 2))"
      proof (rule "1.IH"(2))
        show "cmp (xs ! i) v > 0" if "first + n div 2 \<le> i" "i < length xs" for i
          using cut_above [OF cut, of m i] gt that by (cases "i = m") (auto simp: m_def)
      qed (use False gt cut bound "1.prems"(3) in \<open>auto simp: m_def\<close>)
      then show ?thesis
        using False gt by (subst lower_bound_loop.simps) (simp add: m_def Let_def)
    qed
  qed
qed

lemma lower_bound_cut: "cut cmp xs v \<Longrightarrow> is_lower_bound cmp xs v (lower_bound cmp xs v)"
  unfolding lower_bound_def by (rule lower_bound_loop_correct) auto

lemma is_lower_bound_takeWhile:
  assumes "is_lower_bound cmp xs v res"
  shows "fst res = length (takeWhile (\<lambda>x. cmp x v < 0) xs)"
proof (cases "fst res < length xs")
  case True
  have "takeWhile (\<lambda>x. cmp x v < 0) xs = take (fst res) xs"
    by (rule takeWhile_eq_take_P_nth) (use assms in \<open>auto simp: is_lower_bound_def\<close>)
  with True show ?thesis by simp
next
  case False
  with assms have "\<forall>x\<in>set xs. cmp x v < 0" "fst res = length xs"
    by (auto simp: is_lower_bound_def in_set_conv_nth)
  then show ?thesis by (simp add: takeWhile_eq_all_conv [THEN iffD2])
qed

section \<open>Three-way comparisons that order a set of keys\<close>

locale key_order =
  fixes cmp :: "'k \<Rightarrow> 'k \<Rightarrow> int"
    and K :: "'k set"
  assumes swap: "x \<in> K \<Longrightarrow> y \<in> K \<Longrightarrow> cmp x y < 0 \<longleftrightarrow> cmp y x > 0"
    and le_trans: "x \<in> K \<Longrightarrow> y \<in> K \<Longrightarrow> z \<in> K \<Longrightarrow> cmp x y \<le> 0 \<Longrightarrow> cmp y z \<le> 0 \<Longrightarrow> cmp x z \<le> 0"
begin

lemma cmp_refl [simp]: "x \<in> K \<Longrightarrow> cmp x x = 0"
  using swap [of x x] by linarith

lemma cmp_eq_sym: "x \<in> K \<Longrightarrow> y \<in> K \<Longrightarrow> cmp x y = 0 \<longleftrightarrow> cmp y x = 0"
  using swap [of x y] swap [of y x] by linarith

lemma le_less_trans: "x \<in> K \<Longrightarrow> y \<in> K \<Longrightarrow> z \<in> K \<Longrightarrow> cmp x y \<le> 0 \<Longrightarrow> cmp y z < 0 \<Longrightarrow> cmp x z < 0"
  using le_trans [of z x y] swap [of x z] swap [of y z] swap [of z x]
  by (metis linorder_not_less order_less_irrefl verit_comp_simplify1(3) order_le_less)

lemma less_le_trans: "x \<in> K \<Longrightarrow> y \<in> K \<Longrightarrow> z \<in> K \<Longrightarrow> cmp x y < 0 \<Longrightarrow> cmp y z \<le> 0 \<Longrightarrow> cmp x z < 0"
  using le_trans [of y z x] swap [of x z] swap [of x y] swap [of z x]
  by (metis linorder_not_less order_less_irrefl order_le_less)

lemma less_trans: "x \<in> K \<Longrightarrow> y \<in> K \<Longrightarrow> z \<in> K \<Longrightarrow> cmp x y < 0 \<Longrightarrow> cmp y z < 0 \<Longrightarrow> cmp x z < 0"
  using less_le_trans [of x y z] by simp

text \<open>A strictly ascending list of keys.\<close>

definition ascending :: "'k list \<Rightarrow> bool" where
  "ascending xs \<longleftrightarrow> sorted_wrt (\<lambda>x y. cmp x y < 0) xs"

lemma ascending_cut:
  assumes "ascending xs" "set xs \<subseteq> K" "v \<in> K"
  shows "cut cmp xs v"
proof -
  have "cmp x v < 0" if "x \<in> set xs" "y \<in> set xs" "cmp x y < 0" "cmp y v \<le> 0" for x y
    using less_le_trans [of x y v] assms that by blast
  then show ?thesis
    using assms(1) unfolding cut_def ascending_def
    by (auto intro: sorted_wrt_mono_rel [of xs "\<lambda>x y. cmp x y < 0"])
qed

lemma lookup_correct:
  assumes "ascending xs" "set xs \<subseteq> K" "v \<in> K"
  shows "is_lower_bound cmp xs v (lower_bound cmp xs v)"
  using assms by (intro lower_bound_cut ascending_cut)

lemma lookup_found:
  assumes "ascending xs" "set xs \<subseteq> K" "v \<in> K" "lower_bound cmp xs v = (i, True)"
  shows "i < length xs \<and> cmp (xs ! i) v = 0"
proof -
  have lb: "is_lower_bound cmp xs v (i, True)"
    using lookup_correct [OF assms(1-3)] assms(4) by simp
  then obtain j where j: "j < length xs" "cmp (xs ! j) v = 0"
    by (auto simp: is_lower_bound_def in_set_conv_nth)
  with lb have "i \<le> j" by (auto simp: is_lower_bound_def) (metis less_irrefl not_le)
  have "\<not> i < j"
  proof
    assume "i < j"
    then have "cmp (xs ! i) v < 0"
      using cut_below [OF ascending_cut [OF assms(1-3)], of i j] j by simp
    with lb \<open>i < j\<close> j show False by (force simp: is_lower_bound_def)
  qed
  with \<open>i \<le> j\<close> j show ?thesis by simp
qed

text \<open>Inserting at the returned position keeps the order when the key is not there yet.\<close>

lemma ascending_insert:
  assumes "ascending xs" "set xs \<subseteq> K" "v \<in> K" "lower_bound cmp xs v = (i, False)"
  shows "ascending (take i xs @ v # drop i xs)"
proof -
  have lb: "is_lower_bound cmp xs v (i, False)"
    using lookup_correct [OF assms(1-3)] assms(4) by simp
  have "cmp x v < 0" if "x \<in> set (take i xs)" for x
    using that lb by (auto simp: is_lower_bound_def in_set_conv_nth)
  moreover have "cmp v x < 0" if x: "x \<in> set (drop i xs)" for x
  proof -
    obtain k where "k < length (drop i xs)" "x = drop i xs ! k"
      using x unfolding in_set_conv_nth by blast
    then have "i \<le> i + k" "i + k < length xs" "x = xs ! (i + k)" by auto
    then obtain j where j: "i \<le> j" "j < length xs" "x = xs ! j" by blast
    then have "cmp x v \<ge> 0" "cmp x v \<noteq> 0"
      using lb by (auto simp: is_lower_bound_def)
    moreover have "x \<in> K" using j assms(2) by auto
    ultimately show ?thesis using swap [of v x] assms(3) by linarith
  qed
  moreover have "sorted_wrt (\<lambda>x y. cmp x y < 0) (take i xs @ drop i xs)"
    using assms(1) by (simp add: ascending_def)
  ultimately show ?thesis
    by (auto simp: ascending_def sorted_wrt_append simp del: append_take_drop_id)
qed

lemma ascending_remove: "ascending xs \<Longrightarrow> ascending (take i xs @ drop (Suc i) xs)"
proof -
  assume "ascending xs"
  then have "sorted_wrt (\<lambda>x y. cmp x y < 0) (take i xs @ drop i xs)"
    by (simp add: ascending_def)
  moreover have "set (drop (Suc i) xs) \<subseteq> set (drop i xs)"
    by (simp add: set_drop_subset_set_drop)
  moreover have "sorted_wrt (\<lambda>x y. cmp x y < 0) (drop (Suc i) xs)"
    using \<open>ascending xs\<close> by (simp add: ascending_def sorted_wrt_drop)
  ultimately show ?thesis
    unfolding ascending_def sorted_wrt_append by blast
qed

end

text \<open>The default comparison orders every linearly ordered type.\<close>

interpretation default_order: key_order Comparator UNIV
  by unfold_locales (auto simp: Comparator_def split: if_splits)

section \<open>Properties\<close>

text \<open>
  C38. Binary search: on a list along which the comparison with the value is negative, then zero
  at most once, then positive, \<^verbatim>\<open>lower_bound\<close> returns the number of elements below the value
  and reports exactly whether the value is there.
\<close>

theorem lower_bound_correct:
  assumes "cut cmp xs v"
  shows "lower_bound cmp xs v =
    (length (takeWhile (\<lambda>x. cmp x v < 0) xs), \<exists>x\<in>set xs. cmp x v = 0)"
proof -
  have lb: "is_lower_bound cmp xs v (lower_bound cmp xs v)"
    using assms by (rule lower_bound_cut)
  then have "snd (lower_bound cmp xs v) = (\<exists>x\<in>set xs. cmp x v = 0)"
    by (simp add: is_lower_bound_def)
  with is_lower_bound_takeWhile [OF lb] show ?thesis by (simp add: prod_eq_iff)
qed

theorem lower_bound_correct_witness:
  "lower_bound (\<lambda>a b. a - b) [1, 3, 5, 7 :: int] 5 =
     (length (takeWhile (\<lambda>x. x - 5 < 0) [1, 3, 5, 7 :: int]), \<exists>x\<in>set [1, 3, 5, 7 :: int]. x - 5 = 0)"
proof -
  have "cut (\<lambda>a b. a - b) [1, 3, 5, 7 :: int] 5" by (simp add: cut_def)
  then show ?thesis by (rule lower_bound_correct)
qed

text \<open>
  Advancing an iterator by \<open>n\<close> items and taking the distance gives \<open>n\<close> back, so the index a
  node lookup computes is the number of items it skipped.
\<close>

theorem iterator_distance_advance:
  assumes "0 < item_num it"
  shows "it_distance (it_advance it n) it = n"
  using assms by (simp add: it_distance_def it_advance_def)

theorem iterator_distance_advance_witness:
  "it_distance (it_advance \<lparr>item_num = 12, it_data = 100\<rparr> 3) \<lparr>item_num = 12, it_data = 100\<rparr> = 3"
  using iterator_distance_advance [of "\<lparr>item_num = 12, it_data = 100\<rparr>" 3] by simp

end
