(* ===== verification/Ob_LruCache.thy ===== *)
theory Ob_LruCache
  imports Ob_Prelude "HOL-Library.Monad_Syntax"
begin

text \<open>
  The LRU cache of \<open>src/deps/common/lang/lru_cache.h\<close>: a hash set of list nodes (\<open>searcher\<close>) and a
  doubly linked list of the same nodes, most recently used first.  Nodes live in an explicit
  heap; following a null or dangling pointer is the result \<open>None\<close>.  The locale \<open>lru\<close> is what the
  cache promises in terms of the list of its entries, and the interpretation at the end
  discharges it for the pointer code, which includes that no operation ever follows a bad
  pointer.
\<close>

section \<open>Model\<close>

record ('k, 'v) ListNode =
  node_key :: 'k
  node_value :: 'v
  node_prev :: "nat option"
  node_next :: "nat option"

record ('k, 'v) LruCache =
  heap :: "nat \<rightharpoonup> ('k, 'v) ListNode"
  fresh :: nat
  searcher :: "nat list"
  lru_front :: "nat option"
  lru_tail :: "nat option"

definition lru_empty :: "('k, 'v) LruCache" where
  "lru_empty = \<lparr>heap = Map.empty, fresh = 0, searcher = [], lru_front = None, lru_tail = None\<rparr>"

text \<open>Writing one pointer field of a node.\<close>

definition set_next :: "nat \<Rightarrow> nat option \<Rightarrow> ('k, 'v) LruCache \<Rightarrow> ('k, 'v) LruCache option" where
  "set_next a x c =
     (case heap c a of None \<Rightarrow> None
      | Some n \<Rightarrow> Some (c\<lparr>heap := (heap c)(a \<mapsto> n\<lparr>node_next := x\<rparr>)\<rparr>))"

definition set_prev :: "nat \<Rightarrow> nat option \<Rightarrow> ('k, 'v) LruCache \<Rightarrow> ('k, 'v) LruCache option" where
  "set_prev a x c =
     (case heap c a of None \<Rightarrow> None
      | Some n \<Rightarrow> Some (c\<lparr>heap := (heap c)(a \<mapsto> n\<lparr>node_prev := x\<rparr>)\<rparr>))"

text \<open>\<^verbatim>\<open>PListNodePredicator\<close>: two nodes of the set are equal when their keys are.\<close>

definition has_key :: "('k, 'v) LruCache \<Rightarrow> 'k \<Rightarrow> nat \<Rightarrow> bool" where
  "has_key c k a = (case heap c a of None \<Rightarrow> False | Some n \<Rightarrow> node_key n = k)"

definition searcher_find :: "('k, 'v) LruCache \<Rightarrow> 'k \<Rightarrow> nat option" where
  "searcher_find c k = List.find (has_key c k) (searcher c)"

definition lru_count :: "('k, 'v) LruCache \<Rightarrow> nat" where
  "lru_count c = length (searcher c)"

text \<open>The common end of \<^verbatim>\<open>lru_touch\<close> and \<^verbatim>\<open>lru_push\<close>: make \<open>a\<close> the front node.\<close>

definition to_front :: "nat \<Rightarrow> ('k, 'v) LruCache \<Rightarrow> ('k, 'v) LruCache option" where
  "to_front a c = do {
     c \<leftarrow> set_prev a None c;
     c \<leftarrow> set_next a (lru_front c) c;
     c \<leftarrow> (case lru_front c of None \<Rightarrow> Some c | Some f \<Rightarrow> set_prev f (Some a) c);
     Some (c\<lparr>lru_front := Some a\<rparr>)
   }"

definition lru_touch :: "nat \<Rightarrow> ('k, 'v) LruCache \<Rightarrow> ('k, 'v) LruCache option" where
  "lru_touch a c = do {
     n \<leftarrow> heap c a;
     case node_prev n of
       None \<Rightarrow> Some c
     | Some p \<Rightarrow> do {
         c \<leftarrow> set_next p (node_next n) c;
         c \<leftarrow> (case node_next n of
                Some q \<Rightarrow> set_prev q (node_prev n) c
              | None \<Rightarrow> Some (c\<lparr>lru_tail := node_prev n\<rparr>));
         to_front a c
       }
   }"

definition lru_push :: "nat \<Rightarrow> ('k, 'v) LruCache \<Rightarrow> ('k, 'v) LruCache option" where
  "lru_push a c = do {
     c \<leftarrow> Some (if lru_tail c = None then c\<lparr>lru_tail := Some a\<rparr> else c);
     c \<leftarrow> to_front a c;
     n \<leftarrow> heap c a;
     Some (if searcher_find c (node_key n) = None then c\<lparr>searcher := a # searcher c\<rparr> else c)
   }"

definition lru_unlink :: "nat \<Rightarrow> ('k, 'v) LruCache \<Rightarrow> ('k, 'v) LruCache option" where
  "lru_unlink a c = do {
     n \<leftarrow> heap c a;
     c \<leftarrow> (case node_prev n of None \<Rightarrow> Some c | Some p \<Rightarrow> set_next p (node_next n) c);
     c \<leftarrow> (case node_next n of None \<Rightarrow> Some c | Some q \<Rightarrow> set_prev q (node_prev n) c);
     c \<leftarrow> Some (if lru_front c = Some a then c\<lparr>lru_front := node_next n\<rparr> else c);
     Some (if lru_tail c = Some a then c\<lparr>lru_tail := node_prev n\<rparr> else c)
   }"

text \<open>\<^verbatim>\<open>lru_remove\<close>: unlink, erase the node from the set and delete it.\<close>

definition lru_remove :: "nat \<Rightarrow> ('k, 'v) LruCache \<Rightarrow> ('k, 'v) LruCache option" where
  "lru_remove a c = do {
     c \<leftarrow> lru_unlink a c;
     n \<leftarrow> heap c a;
     Some (c\<lparr>searcher := filter (\<lambda>b. \<not> has_key c (node_key n) b) (searcher c),
            heap := (heap c)(a := None)\<rparr>)
   }"

definition lru_get :: "'k \<Rightarrow> ('k, 'v) LruCache \<Rightarrow> ('v option \<times> ('k, 'v) LruCache) option" where
  "lru_get k c =
     (case searcher_find c k of
        None \<Rightarrow> Some (None, c)
      | Some a \<Rightarrow> do {
          c \<leftarrow> lru_touch a c;
          n \<leftarrow> heap c a;
          Some (Some (node_value n), c)
        })"

definition lru_put :: "'k \<Rightarrow> 'v \<Rightarrow> ('k, 'v) LruCache \<Rightarrow> ('k, 'v) LruCache option" where
  "lru_put k v c =
     (case searcher_find c k of
        Some a \<Rightarrow> do {
          n \<leftarrow> heap c a;
          lru_touch a (c\<lparr>heap := (heap c)(a \<mapsto> n\<lparr>node_value := v\<rparr>)\<rparr>)
        }
      | None \<Rightarrow>
          lru_push (fresh c)
            (c\<lparr>heap := (heap c)(fresh c \<mapsto>
                 \<lparr>node_key = k, node_value = v, node_prev = None, node_next = None\<rparr>),
              fresh := Suc (fresh c)\<rparr>))"

definition lru_erase :: "'k \<Rightarrow> ('k, 'v) LruCache \<Rightarrow> ('k, 'v) LruCache option" where
  "lru_erase k c =
     (case searcher_find c k of None \<Rightarrow> Some c | Some a \<Rightarrow> lru_remove a c)"

definition lru_destroy :: "('k, 'v) LruCache \<Rightarrow> ('k, 'v) LruCache" where
  "lru_destroy c =
     c\<lparr>heap := fold (\<lambda>a h. h(a := None)) (searcher c) (heap c),
       searcher := [], lru_front := None, lru_tail := None\<rparr>"

text \<open>
  \<^verbatim>\<open>foreach\<close> and \<^verbatim>\<open>foreach_reverse\<close>: the callback sees a key and a value, updates what it
  captured (the state \<open>s\<close>) and says whether to go on.  The walk follows pointers, so it is a
  partial function; a cyclic list would never return.
\<close>

partial_function (option) foreach_from ::
    "('s \<Rightarrow> 'k \<Rightarrow> 'v \<Rightarrow> bool \<times> 's) \<Rightarrow> ('k, 'v) LruCache \<Rightarrow> nat option \<Rightarrow> 's \<Rightarrow> 's option" where
  "foreach_from func c node s =
     (case node of
        None \<Rightarrow> Some s
      | Some a \<Rightarrow>
          Option.bind (heap c a) (\<lambda>n.
            (case func s (node_key n) (node_value n) of
               (ret, s') \<Rightarrow> if ret then foreach_from func c (node_next n) s' else Some s')))"

partial_function (option) foreach_reverse_from ::
    "('s \<Rightarrow> 'k \<Rightarrow> 'v \<Rightarrow> bool \<times> 's) \<Rightarrow> ('k, 'v) LruCache \<Rightarrow> nat option \<Rightarrow> 's \<Rightarrow> 's option" where
  "foreach_reverse_from func c node s =
     (case node of
        None \<Rightarrow> Some s
      | Some a \<Rightarrow>
          Option.bind (heap c a) (\<lambda>n.
            (case func s (node_key n) (node_value n) of
               (ret, s') \<Rightarrow> if ret then foreach_reverse_from func c (node_prev n) s' else Some s')))"

definition lru_foreach ::
    "('s \<Rightarrow> 'k \<Rightarrow> 'v \<Rightarrow> bool \<times> 's) \<Rightarrow> ('k, 'v) LruCache \<Rightarrow> 's \<Rightarrow> 's option" where
  "lru_foreach func c s = foreach_from func c (lru_front c) s"

definition lru_foreach_reverse ::
    "('s \<Rightarrow> 'k \<Rightarrow> 'v \<Rightarrow> bool \<times> 's) \<Rightarrow> ('k, 'v) LruCache \<Rightarrow> 's \<Rightarrow> 's option" where
  "lru_foreach_reverse func c s = foreach_reverse_from func c (lru_tail c) s"

section \<open>Linked segments\<close>

definition first_of :: "nat list \<Rightarrow> nat option \<Rightarrow> nat option" where
  "first_of xs q = (case xs of [] \<Rightarrow> q | b # _ \<Rightarrow> Some b)"

definition last_of :: "nat option \<Rightarrow> nat list \<Rightarrow> nat option" where
  "last_of p xs = (if xs = [] then p else Some (last xs))"

lemma first_of_simps [simp]: "first_of [] q = q" "first_of (x # xs) q = Some x"
  by (simp_all add: first_of_def)

lemma last_of_simps [simp]: "last_of p [] = p" "last_of p (xs @ [x]) = Some x"
  "last_of p (x # xs) = last_of (Some x) xs"
  by (simp_all add: last_of_def)

lemma first_of_ne: "xs \<noteq> [] \<Longrightarrow> first_of xs q = Some (hd xs)"
  by (cases xs) simp_all

lemma last_of_ne: "xs \<noteq> [] \<Longrightarrow> last_of p xs = Some (last xs)"
  by (simp add: last_of_def)

lemma first_of_notin: "a \<notin> set xs \<Longrightarrow> xs \<noteq> [] \<Longrightarrow> first_of xs q \<noteq> Some a"
  by (cases xs) auto

lemma last_of_notin: "a \<notin> set xs \<Longrightarrow> xs \<noteq> [] \<Longrightarrow> last_of p xs \<noteq> Some a"
  using last_in_set [of xs] by (auto simp: last_of_def)

lemma first_of_append: "first_of (xs @ ys) q = first_of xs (first_of ys q)"
  by (cases xs) simp_all

lemma last_of_append: "last_of p (xs @ ys) = last_of (last_of p xs) ys"
  by (simp add: last_of_def)

text \<open>\<open>linked h p xs q\<close>: the nodes \<open>xs\<close> are chained in both directions, between \<open>p\<close> and \<open>q\<close>.\<close>

fun linked :: "(nat \<rightharpoonup> ('k, 'v) ListNode) \<Rightarrow> nat option \<Rightarrow> nat list \<Rightarrow> nat option \<Rightarrow> bool" where
  "linked h p [] q = True"
| "linked h p (a # as) q =
     (\<exists>n. h a = Some n \<and> node_prev n = p \<and> node_next n = first_of as q \<and> linked h (Some a) as q)"

lemma linked_append:
  "linked h p (xs @ ys) q \<longleftrightarrow> linked h p xs (first_of ys q) \<and> linked h (last_of p xs) ys q"
  by (induction xs arbitrary: p) (auto simp: first_of_append)

lemma linked_other [simp]: "a \<notin> set xs \<Longrightarrow> linked (h(a := x)) p xs q = linked h p xs q"
  by (induction xs arbitrary: p) auto

lemma linked_dom: "linked h p xs q \<Longrightarrow> a \<in> set xs \<Longrightarrow> \<exists>n. h a = Some n"
  by (induction xs arbitrary: p) auto

text \<open>What the operations never change: keys and values.\<close>

definition kv :: "(nat \<rightharpoonup> ('k, 'v) ListNode) \<Rightarrow> nat \<Rightarrow> ('k \<times> 'v) option" where
  "kv h a = map_option (\<lambda>n. (node_key n, node_value n)) (h a)"

lemma kv_upd_next [simp]: "h a = Some n \<Longrightarrow> kv (h(a \<mapsto> n\<lparr>node_next := x\<rparr>)) = kv h"
  by (auto simp: kv_def fun_eq_iff)

lemma kv_upd_prev [simp]: "h a = Some n \<Longrightarrow> kv (h(a \<mapsto> n\<lparr>node_prev := x\<rparr>)) = kv h"
  by (auto simp: kv_def fun_eq_iff)

lemma set_next_eq: "set_next a x c = Some c' \<longleftrightarrow>
    (\<exists>n. heap c a = Some n \<and> c' = c\<lparr>heap := (heap c)(a \<mapsto> n\<lparr>node_next := x\<rparr>)\<rparr>)"
  by (auto simp: set_next_def split: option.splits)

lemma set_prev_eq: "set_prev a x c = Some c' \<longleftrightarrow>
    (\<exists>n. heap c a = Some n \<and> c' = c\<lparr>heap := (heap c)(a \<mapsto> n\<lparr>node_prev := x\<rparr>)\<rparr>)"
  by (auto simp: set_prev_def split: option.splits)

text \<open>Redirecting the two ends of a segment.\<close>

lemma linked_set_next_end:
  assumes "linked h p (xs @ [a]) q" "a \<notin> set xs" "h a = Some n"
  shows "linked (h(a \<mapsto> n\<lparr>node_next := q'\<rparr>)) p (xs @ [a]) q'"
  using assms by (auto simp: linked_append)

lemma linked_set_prev_start:
  assumes "linked h p (a # xs) q" "a \<notin> set xs" "h a = Some n"
  shows "linked (h(a \<mapsto> n\<lparr>node_prev := p'\<rparr>)) p' (a # xs) q"
  using assms by auto

section \<open>The pointer operations on a chain\<close>

text \<open>The whole list: \<open>ns\<close> are the nodes from front to tail.\<close>

definition chain :: "('k, 'v) LruCache \<Rightarrow> nat list \<Rightarrow> bool" where
  "chain c ns \<longleftrightarrow> linked (heap c) None ns None \<and> lru_front c = first_of ns None \<and>
     lru_tail c = last_of None ns \<and> distinct ns"

text \<open>What stays the same when only pointers move.\<close>

definition same_nodes :: "('k, 'v) LruCache \<Rightarrow> ('k, 'v) LruCache \<Rightarrow> bool" where
  "same_nodes c c' \<longleftrightarrow> kv (heap c') = kv (heap c) \<and> fresh c' = fresh c \<and> searcher c' = searcher c"

lemma same_nodes_refl [simp]: "same_nodes c c"
  by (simp add: same_nodes_def)

lemma same_nodes_trans: "same_nodes a b \<Longrightarrow> same_nodes b c \<Longrightarrow> same_nodes a c"
  by (simp add: same_nodes_def)

lemma kv_Some_iff: "kv h a = Some x \<longleftrightarrow> (\<exists>n. h a = Some n \<and> x = (node_key n, node_value n))"
  by (auto simp: kv_def)

lemma has_key_kv: "has_key c k a \<longleftrightarrow> (\<exists>v. kv (heap c) a = Some (k, v))"
  by (auto simp: has_key_def kv_def split: option.splits)

lemma same_nodes_has_key: "same_nodes c c' \<Longrightarrow> has_key c' = has_key c"
  by (auto simp: fun_eq_iff has_key_kv same_nodes_def)

lemma to_front_linked:
  assumes "linked (heap c) None ns None" "lru_front c = first_of ns None"
    and "a \<notin> set ns" "distinct ns" "heap c a = Some n"
  shows "\<exists>c'. to_front a c = Some c' \<and> linked (heap c') None (a # ns) None \<and>
    lru_front c' = Some a \<and> lru_tail c' = lru_tail c \<and> same_nodes c c'"
proof (cases ns)
  case Nil
  with assms show ?thesis
    by (auto simp: to_front_def set_prev_def set_next_def same_nodes_def kv_def fun_eq_iff)
next
  case (Cons f fs)
  with assms obtain m where "heap c f = Some m" "f \<noteq> a" "f \<notin> set fs" "a \<notin> set fs"
    by auto
  with assms Cons show ?thesis
    by (auto simp: to_front_def set_prev_def set_next_def same_nodes_def kv_def fun_eq_iff)
qed

lemma lru_unlink_chain:
  assumes "chain c (xs @ a # ys)"
  shows "\<exists>c'. lru_unlink a c = Some c' \<and> chain c' (xs @ ys) \<and> same_nodes c c'"
proof -
  obtain n where n: "heap c a = Some n" "node_prev n = last_of None xs" "node_next n = first_of ys None"
    and xs: "linked (heap c) None xs (Some a)" and ys: "linked (heap c) (Some a) ys None"
    and a: "a \<notin> set xs" "a \<notin> set ys" and d: "distinct xs" "distinct ys" "set xs \<inter> set ys = {}"
    using assms by (auto simp: chain_def linked_append)
  have ends: "lru_front c = first_of xs (Some a)" "lru_tail c = last_of (Some a) ys"
    using assms by (auto simp: chain_def first_of_append last_of_append)
  show ?thesis
  proof (cases xs rule: rev_cases; cases ys)
    assume "xs = []" "ys = []"
    with n ends show ?thesis
      by (auto simp: lru_unlink_def chain_def same_nodes_def)
  next
    fix q ys' assume q: "xs = []" "ys = q # ys'"
    with ys obtain m where "heap c q = Some m" by auto
    with n ends q ys d a show ?thesis
      by (auto simp: lru_unlink_def chain_def set_prev_def same_nodes_def last_of_def)
  next
    fix xs' p assume p: "xs = xs' @ [p]" "ys = []"
    with xs obtain m where m: "heap c p = Some m" by (auto simp: linked_append)
    have "linked ((heap c)(p \<mapsto> m\<lparr>node_next := None\<rparr>)) None xs None"
      using linked_set_next_end [of "heap c" None xs' p "Some a" m None] xs p d m by simp
    moreover have "lru_front c \<noteq> Some a" "lru_front c = first_of xs None"
      using ends a p first_of_notin [of a xs] by (simp_all add: first_of_ne)
    ultimately show ?thesis
      using n ends p m d by (simp add: lru_unlink_def chain_def set_next_def same_nodes_def)
  next
    fix xs' p q ys' assume pq: "xs = xs' @ [p]" "ys = q # ys'"
    obtain m where m: "heap c p = Some m" using xs pq by (auto simp: linked_append)
    obtain l where l: "heap c q = Some l" using ys pq by auto
    have ne: "p \<noteq> q" "p \<notin> set ys'" "q \<notin> set xs'" "p \<notin> set xs'" "q \<notin> set ys'"
      using d pq by auto
    let ?h = "(heap c)(p \<mapsto> m\<lparr>node_next := Some q\<rparr>)"
    let ?h' = "?h(q \<mapsto> l\<lparr>node_prev := Some p\<rparr>)"
    have "linked ?h None (xs' @ [p]) (Some q)"
      using linked_set_next_end [of "heap c" None xs' p "Some a" m "Some q"] xs pq ne m by simp
    then have 1: "linked ?h' None (xs' @ [p]) (Some q)" using ne by simp
    have 2: "linked ?h' (Some p) ys None" using ys pq ne l by auto
    have "linked ?h' None (xs @ ys) None"
      using 1 2 pq linked_append [of ?h' None "xs' @ [p]" ys None] by simp
    moreover have "lru_front c \<noteq> Some a" "lru_front c = first_of (xs @ ys) None"
      using ends a pq first_of_notin [of a xs] by (simp_all add: first_of_ne first_of_append)
    moreover have "lru_tail c \<noteq> Some a" "lru_tail c = last_of None (xs @ ys)"
      using ends a pq last_of_notin [of a ys] by (simp_all add: last_of_ne last_of_append)
    moreover have "kv ?h' = kv (heap c)"
      using m l ne by (simp add: kv_def fun_eq_iff)
    ultimately show ?thesis
      using n pq m l ne d by (simp add: lru_unlink_def chain_def set_next_def set_prev_def same_nodes_def)
  qed
qed

lemma lru_touch_unlink:
  assumes "chain c (xs @ a # ys)" "xs \<noteq> []"
  shows "lru_touch a c = Option.bind (lru_unlink a c) (to_front a)"
proof -
  obtain xs' p where p: "xs = xs' @ [p]" using assms(2) by (cases xs rule: rev_cases) auto
  obtain n where n: "heap c a = Some n" "node_prev n = Some p" "node_next n = first_of ys None"
    using assms(1) p by (auto simp: chain_def linked_append)
  have front: "lru_front c \<noteq> Some a" "lru_tail c = Some a \<longleftrightarrow> ys = []"
    using assms p first_of_notin [of a xs "Some a"] last_of_notin [of a ys "Some a"]
    by (auto simp: chain_def first_of_append last_of_append)
  show ?thesis
  proof (cases "heap c p")
    case None
    with n show ?thesis by (simp add: lru_touch_def lru_unlink_def set_next_def)
  next
    case (Some m)
    show ?thesis
    proof (cases ys)
      case Nil
      with n front Some show ?thesis
        by (simp add: lru_touch_def lru_unlink_def set_next_def)
    next
      case (Cons q ys')
      with n front Some show ?thesis
        by (simp add: lru_touch_def lru_unlink_def set_next_def set_prev_def split: option.split)
    qed
  qed
qed

lemma lru_touch_chain:
  assumes "chain c (xs @ a # ys)"
  shows "\<exists>c'. lru_touch a c = Some c' \<and> chain c' (a # xs @ ys) \<and> same_nodes c c'"
proof (cases "xs = []")
  case True
  with assms show ?thesis by (auto simp: lru_touch_def chain_def)
next
  case False
  obtain c1 where c1: "lru_unlink a c = Some c1" "chain c1 (xs @ ys)" "same_nodes c c1"
    using lru_unlink_chain [OF assms] by blast
  have "kv (heap c1) a = kv (heap c) a" using c1(3) by (simp add: same_nodes_def)
  moreover obtain n where "heap c a = Some n" using assms by (auto simp: chain_def linked_append)
  ultimately obtain n' where n': "heap c1 a = Some n'" by (auto simp: kv_def)
  obtain c2 where c2: "to_front a c1 = Some c2" "linked (heap c2) None (a # xs @ ys) None"
      "lru_front c2 = Some a" "lru_tail c2 = lru_tail c1" "same_nodes c1 c2"
    using to_front_linked [of c1 "xs @ ys" a n'] c1(2) n' assms by (auto simp: chain_def)
  have "lru_tail c2 = last_of None (a # xs @ ys)"
    using c2(4) c1(2) False by (simp add: chain_def last_of_def)
  then have "chain c2 (a # xs @ ys)"
    using c2 assms by (auto simp: chain_def)
  then show ?thesis
    using c1 c2 lru_touch_unlink [OF assms False] same_nodes_trans by auto
qed

section \<open>The contract of the cache\<close>

text \<open>The specification: an association list, most recently used entry first.\<close>

definition drop_key :: "'k \<Rightarrow> ('k \<times> 'v) list \<Rightarrow> ('k \<times> 'v) list" where
  "drop_key k es = filter (\<lambda>e. fst e \<noteq> k) es"

definition touch_entries :: "'k \<Rightarrow> ('k \<times> 'v) list \<Rightarrow> ('k \<times> 'v) list" where
  "touch_entries k es = (case map_of es k of None \<Rightarrow> es | Some v \<Rightarrow> (k, v) # drop_key k es)"

fun walk :: "('s \<Rightarrow> 'k \<Rightarrow> 'v \<Rightarrow> bool \<times> 's) \<Rightarrow> ('k \<times> 'v) list \<Rightarrow> 's \<Rightarrow> 's" where
  "walk func [] s = s"
| "walk func ((k, v) # es) s =
     (case func s k v of (ret, s') \<Rightarrow> if ret then walk func es s' else s')"

lemma map_of_drop_key [simp]: "map_of (drop_key k es) = (map_of es)(k := None)"
  by (induction es) (auto simp: drop_key_def fun_eq_iff)

lemma map_of_touch [simp]: "map_of (touch_entries k es) = map_of es"
  by (auto simp: touch_entries_def fun_eq_iff split: option.splits)

lemma distinct_drop_key: "distinct (map fst es) \<Longrightarrow> distinct (map fst (drop_key k es))"
  by (induction es) (auto simp: drop_key_def)

lemma drop_key_id: "k \<notin> fst ` set es \<Longrightarrow> drop_key k es = es"
  by (auto simp: drop_key_def filter_id_conv)

lemma drop_key_notin [simp]: "k \<notin> fst ` set (drop_key k es)"
  by (auto simp: drop_key_def)

lemma drop_key_mid:
  "distinct (map fst (xs @ (k, v) # ys)) \<Longrightarrow> drop_key k (xs @ (k, v) # ys) = xs @ ys"
  using drop_key_id [of k xs] drop_key_id [of k ys] by (auto simp: drop_key_def)

locale lru =
  fixes rep :: "'c \<Rightarrow> ('k \<times> 'v) list \<Rightarrow> bool"
    and get :: "'k \<Rightarrow> 'c \<Rightarrow> ('v option \<times> 'c) option"
    and put :: "'k \<Rightarrow> 'v \<Rightarrow> 'c \<Rightarrow> 'c option"
    and erase :: "'k \<Rightarrow> 'c \<Rightarrow> 'c option"
    and count :: "'c \<Rightarrow> nat"
  assumes rep_distinct: "rep c es \<Longrightarrow> distinct (map fst es)"
    and rep_get: "rep c es \<Longrightarrow> \<exists>c'. get k c = Some (map_of es k, c') \<and> rep c' (touch_entries k es)"
    and rep_put: "rep c es \<Longrightarrow> \<exists>c'. put k v c = Some c' \<and> rep c' ((k, v) # drop_key k es)"
    and rep_erase: "rep c es \<Longrightarrow> \<exists>c'. erase k c = Some c' \<and> rep c' (drop_key k es)"
    and rep_count: "rep c es \<Longrightarrow> count c = length es"
begin

lemma get_miss: "rep c es \<Longrightarrow> map_of es k = None \<Longrightarrow> \<exists>c'. get k c = Some (None, c') \<and> rep c' es"
  using rep_get [of c es k] by (simp add: touch_entries_def)

lemma get_after_put:
  assumes "rep c es" "put k v c = Some c1"
  shows "\<exists>c2. get k' c1 = Some (if k' = k then Some v else map_of es k', c2)"
  using rep_put [of c es k v] rep_get [of c1 "(k, v) # drop_key k es" k'] assms by fastforce

lemma get_after_erase:
  assumes "rep c es" "erase k c = Some c1"
  shows "\<exists>c2. get k' c1 = Some (if k' = k then None else map_of es k', c2)"
  using rep_erase [of c es k] rep_get [of c1 "drop_key k es" k'] assms by fastforce

lemma count_put:
  assumes "rep c es" "put k v c = Some c1" "map_of es k = None"
  shows "count c1 = Suc (count c)"
proof -
  have "k \<notin> fst ` set es" using assms(3) by (simp add: map_of_eq_None_iff)
  then show ?thesis
    using rep_put [of c es k v] rep_count [of c es] rep_count [of c1 "(k, v) # es"] assms
    by (auto simp: drop_key_id)
qed

end

section \<open>The pointer code meets the contract\<close>

definition lru_rep :: "('k, 'v) LruCache \<Rightarrow> ('k \<times> 'v) list \<Rightarrow> bool" where
  "lru_rep c es \<longleftrightarrow>
     (\<exists>ns. chain c ns \<and> map (kv (heap c)) ns = map Some es \<and> set (searcher c) = set ns) \<and>
     distinct (map fst es) \<and> distinct (searcher c) \<and> (\<forall>a n. heap c a = Some n \<longrightarrow> a < fresh c)"

lemma lru_repI:
  "chain c ns \<Longrightarrow> map (kv (heap c)) ns = map Some es \<Longrightarrow> set (searcher c) = set ns \<Longrightarrow>
   distinct (map fst es) \<Longrightarrow> distinct (searcher c) \<Longrightarrow> (\<And>a n. heap c a = Some n \<Longrightarrow> a < fresh c) \<Longrightarrow>
   lru_rep c es"
  by (auto simp: lru_rep_def)

lemma same_nodes_fresh:
  assumes "same_nodes c c'" "\<And>a n. heap c a = Some n \<Longrightarrow> a < fresh c" "heap c' a = Some n"
  shows "a < fresh c'"
proof -
  have "kv (heap c') a = kv (heap c) a" using assms(1) by (simp add: same_nodes_def)
  with assms(3) obtain m where "heap c a = Some m" by (cases "heap c a") (auto simp: kv_def)
  with assms show ?thesis by (simp add: same_nodes_def)
qed

lemma searcher_find_None:
  assumes "set (searcher c) = set ns" "map (kv (heap c)) ns = map Some es" "k \<notin> fst ` set es"
  shows "searcher_find c k = None"
proof -
  have "\<not> has_key c k a" if "a \<in> set ns" for a
  proof -
    have "kv (heap c) a \<in> Some ` set es" using assms(2) that by (metis image_eqI list.set_map)
    with assms(3) show ?thesis by (force simp: has_key_kv)
  qed
  with assms(1) show ?thesis by (simp add: searcher_find_def find_None_iff)
qed

lemma searcher_find_Some:
  assumes "set (searcher c) = set ns" "map (kv (heap c)) ns = map Some (exs @ (k, v) # eys)"
    and "distinct (map fst (exs @ (k, v) # eys))"
  shows "\<exists>xs a ys. ns = xs @ a # ys \<and> map (kv (heap c)) xs = map Some exs \<and>
    kv (heap c) a = Some (k, v) \<and> map (kv (heap c)) ys = map Some eys \<and> searcher_find c k = Some a"
proof -
  obtain xs a ys where ns: "ns = xs @ a # ys" "map (kv (heap c)) xs = map Some exs"
      "kv (heap c) a = Some (k, v)" "map (kv (heap c)) ys = map Some eys"
    using assms(2) by (auto simp: map_eq_append_conv map_eq_Cons_conv)
  have other: "\<not> has_key c k b" if "b \<in> set xs \<union> set ys" for b
  proof -
    have "kv (heap c) b \<in> Some ` (set exs \<union> set eys)"
      using ns that by (metis (no_types, lifting) Un_iff image_Un image_eqI list.set_map)
    with assms(3) show ?thesis by (force simp: has_key_kv)
  qed
  have "has_key c k a" using ns by (auto simp: has_key_kv)
  have "searcher_find c k \<noteq> None"
    using \<open>has_key c k a\<close> assms(1) ns(1) by (auto simp: searcher_find_def find_None_iff)
  then obtain b where b: "searcher_find c k = Some b" by blast
  then have "has_key c k b" "b \<in> set (searcher c)"
    by (auto simp: searcher_find_def find_Some_iff)
  then have "b = a" using other assms(1) ns(1) by auto
  with ns b show ?thesis by blast
qed

text \<open>The state in front of an operation on key \<open>k\<close>, split at the node that holds it.\<close>

lemma lru_rep_cases:
  assumes "lru_rep c es"
  obtains (miss) "map_of es k = None" "searcher_find c k = None"
  | (hit) v exs eys xs a ys where "map_of es k = Some v" "es = exs @ (k, v) # eys"
      "chain c (xs @ a # ys)" "set (searcher c) = set (xs @ a # ys)" "searcher_find c k = Some a"
      "map (kv (heap c)) xs = map Some exs" "kv (heap c) a = Some (k, v)"
      "map (kv (heap c)) ys = map Some eys" "drop_key k es = exs @ eys"
proof -
  obtain ns where ns: "chain c ns" "map (kv (heap c)) ns = map Some es" "set (searcher c) = set ns"
    and d: "distinct (map fst es)"
    using assms by (auto simp: lru_rep_def)
  show thesis
  proof (cases "map_of es k")
    case None
    then have "k \<notin> fst ` set es" by (simp add: map_of_eq_None_iff)
    then have "searcher_find c k = None"
      using searcher_find_None [OF ns(3) ns(2)] by simp
    with None show thesis by (rule miss)
  next
    case (Some v)
    then obtain exs eys where es: "es = exs @ (k, v) # eys"
      using split_list [OF map_of_SomeD [OF Some]] by blast
    obtain xs a ys where "ns = xs @ a # ys" "map (kv (heap c)) xs = map Some exs"
        "kv (heap c) a = Some (k, v)" "map (kv (heap c)) ys = map Some eys"
        "searcher_find c k = Some a"
      using searcher_find_Some [of c ns exs k v eys] ns d es by blast
    moreover have "drop_key k es = exs @ eys" using d es by (simp add: drop_key_mid)
    ultimately show thesis using hit Some es ns by blast
  qed
qed

lemma rep_touch:
  assumes "lru_rep c es" "chain c (xs @ a # ys)" "set (searcher c) = set (xs @ a # ys)"
    and "map (kv (heap c)) xs = map Some exs" "kv (heap c) a = Some (k, v)"
    and "map (kv (heap c)) ys = map Some eys" "es = exs @ (k, v) # eys"
  shows "\<exists>c'. lru_touch a c = Some c' \<and> lru_rep c' ((k, v) # exs @ eys) \<and> kv (heap c') = kv (heap c)"
proof -
  obtain c' where c': "lru_touch a c = Some c'" "chain c' (a # xs @ ys)" "same_nodes c c'"
    using lru_touch_chain [OF assms(2)] by blast
  have "lru_rep c' ((k, v) # exs @ eys)"
  proof (rule lru_repI)
    show "chain c' (a # xs @ ys)" by fact
    show "map (kv (heap c')) (a # xs @ ys) = map Some ((k, v) # exs @ eys)"
      using assms c'(3) by (simp add: same_nodes_def)
    show "set (searcher c') = set (a # xs @ ys)"
      using assms(3) c'(3) by (auto simp: same_nodes_def)
    show "distinct (map fst ((k, v) # exs @ eys))" "distinct (searcher c')"
      using assms(1,7) c'(3) by (auto simp: lru_rep_def same_nodes_def)
    show "b < fresh c'" if "heap c' b = Some n" for b n
      using same_nodes_fresh [OF c'(3) _ that] assms(1) by (auto simp: lru_rep_def)
  qed
  with c' show ?thesis by (auto simp: same_nodes_def)
qed

lemma lru_get_rep:
  assumes "lru_rep c es"
  shows "\<exists>c'. lru_get k c = Some (map_of es k, c') \<and> lru_rep c' (touch_entries k es)"
  using assms
proof (cases rule: lru_rep_cases [where k = k])
  case miss
  with assms show ?thesis by (simp add: lru_get_def touch_entries_def)
next
  case (hit v exs eys xs a ys)
  obtain c' where c': "lru_touch a c = Some c'" "lru_rep c' ((k, v) # exs @ eys)"
      "kv (heap c') = kv (heap c)"
    using rep_touch [OF assms hit(3,4,6,7,8,2)] by blast
  have "kv (heap c') a = Some (k, v)" using c'(3) hit(7) by simp
  then obtain n where "heap c' a = Some n" "node_value n = v" by (auto simp: kv_Some_iff)
  with c' hit show ?thesis by (simp add: lru_get_def touch_entries_def)
qed

lemma lru_rep_set_value:
  assumes "lru_rep c es" "chain c (xs @ a # ys)" "heap c a = Some n"
  shows "chain (c\<lparr>heap := (heap c)(a \<mapsto> n\<lparr>node_value := v\<rparr>)\<rparr>) (xs @ a # ys)"
  using assms by (auto simp: chain_def linked_append)

lemma lru_put_miss:
  assumes "lru_rep c es" and miss: "map_of es k = None" "searcher_find c k = None"
  shows "\<exists>c'. lru_put k v c = Some c' \<and> lru_rep c' ((k, v) # drop_key k es)"
proof -
  obtain ns where ns: "chain c ns" "map (kv (heap c)) ns = map Some es" "set (searcher c) = set ns"
    and d: "distinct (map fst es)" "distinct (searcher c)"
    and fr: "\<And>a n. heap c a = Some n \<Longrightarrow> a < fresh c"
    using assms by (auto simp: lru_rep_def)
  define a where "a = fresh c"
  define n where "n = \<lparr>node_key = k, node_value = v, node_prev = None, node_next = None\<rparr>"
  define c1 where "c1 = c\<lparr>heap := (heap c)(a \<mapsto> n), fresh := Suc a\<rparr>"
  define c2 where "c2 = (if lru_tail c1 = None then c1\<lparr>lru_tail := Some a\<rparr> else c1)"
  have a: "a \<notin> set ns"
    using ns(1) fr linked_dom [of "heap c" None ns None a] by (auto simp: chain_def a_def)
  have heap2: "heap c2 = (heap c)(a \<mapsto> n)" "lru_front c2 = lru_front c" "searcher c2 = searcher c"
      "fresh c2 = Suc a"
    by (simp_all add: c2_def c1_def)
  have tail2: "lru_tail c2 = last_of None (a # ns)"
    using ns(1) by (auto simp: c2_def c1_def chain_def last_of_def)
  obtain c3 where c3: "to_front a c2 = Some c3" "linked (heap c3) None (a # ns) None"
      "lru_front c3 = Some a" "lru_tail c3 = lru_tail c2" "same_nodes c2 c3"
    using to_front_linked [of c2 ns a n] ns(1) a heap2 by (auto simp: chain_def)
  have kv3: "kv (heap c3) b = (if b = a then Some (k, v) else kv (heap c) b)" for b
    using c3(5) heap2 by (auto simp: same_nodes_def kv_def n_def)
  have "kv (heap c3) a = Some (k, v)" using kv3 [of a] by simp
  then obtain n3 where n3: "heap c3 a = Some n3" "node_key n3 = k" by (auto simp: kv_Some_iff)
  have kvns: "map (kv (heap c3)) ns = map Some es"
    using ns(2) a kv3 by (metis (no_types, lifting) map_cong)
  have knotin: "k \<notin> fst ` set es" using miss by (simp add: map_of_eq_None_iff)
  have find3: "searcher_find c3 k = None"
    using searcher_find_None [of c3 ns es k] ns(3) c3(5) heap2 kvns knotin by (simp add: same_nodes_def)
  define c4 where "c4 = c3\<lparr>searcher := a # searcher c3\<rparr>"
  have "lru_put k v c = Some c4"
    using miss(2) c3(1) n3 find3
    by (simp add: lru_put_def lru_push_def c4_def a_def [symmetric] n_def [symmetric]
        c1_def [symmetric] c2_def [symmetric])
  moreover have "lru_rep c4 ((k, v) # es)"
  proof (rule lru_repI)
    show "chain c4 (a # ns)"
      using c3 tail2 a ns(1) by (auto simp: chain_def c4_def)
    show "map (kv (heap c4)) (a # ns) = map Some ((k, v) # es)"
      using kvns kv3 by (simp add: c4_def)
    show "set (searcher c4) = set (a # ns)" "distinct (searcher c4)"
      using ns(3) c3(5) heap2 a d by (auto simp: c4_def same_nodes_def)
    show "distinct (map fst ((k, v) # es))" using d knotin by simp
    show "b < fresh c4" if "heap c4 b = Some m" for b m
    proof -
      have "kv (heap c3) b \<noteq> None" using that by (simp add: c4_def kv_def)
      then have "b = a \<or> b < fresh c"
        using kv3 [of b] fr [of b] by (cases "heap c b") (auto simp: kv_def split: if_splits)
      then show ?thesis using c3(5) heap2 by (auto simp: c4_def same_nodes_def a_def)
    qed
  qed
  ultimately show ?thesis using knotin by (simp add: drop_key_id)
qed

lemma lru_put_rep:
  assumes "lru_rep c es"
  shows "\<exists>c'. lru_put k v c = Some c' \<and> lru_rep c' ((k, v) # drop_key k es)"
  using assms
proof (cases rule: lru_rep_cases [where k = k])
  case miss
  with assms show ?thesis by (rule lru_put_miss)
next
  case (hit w exs eys xs a ys)
  obtain n where n: "heap c a = Some n" "node_key n = k" using hit(7) by (auto simp: kv_Some_iff)
  define c1 where "c1 = c\<lparr>heap := (heap c)(a \<mapsto> n\<lparr>node_value := v\<rparr>)\<rparr>"
  have kv1: "kv (heap c1) b = (if b = a then Some (k, v) else kv (heap c) b)" for b
    using n by (auto simp: c1_def kv_def)
  have chain1: "chain c1 (xs @ a # ys)" unfolding c1_def by (rule lru_rep_set_value [OF assms hit(3) n(1)])
  then have na: "a \<notin> set xs" "a \<notin> set ys" by (auto simp: chain_def)
  have kvs: "map (kv (heap c1)) xs = map Some exs" "map (kv (heap c1)) ys = map Some eys"
    using hit(6,8) na kv1 by (metis (no_types, lifting) map_cong)+
  have rep1: "lru_rep c1 (exs @ (k, v) # eys)"
  proof (rule lru_repI [OF chain1])
    show "map (kv (heap c1)) (xs @ a # ys) = map Some (exs @ (k, v) # eys)"
      using kvs kv1 by simp
    show "b < fresh c1" if "heap c1 b = Some m" for b m
      using that assms n by (auto simp: c1_def lru_rep_def split: if_splits)
  qed (use assms hit(2,4) in \<open>auto simp: c1_def lru_rep_def\<close>)
  obtain c' where "lru_touch a c1 = Some c'" "lru_rep c' ((k, v) # exs @ eys)"
    using rep_touch [OF rep1 chain1 _ kvs(1) _ kvs(2) refl] kv1 hit(4) by (auto simp: c1_def)
  with hit n show ?thesis by (simp add: lru_put_def c1_def)
qed

lemma lru_erase_rep:
  assumes "lru_rep c es"
  shows "\<exists>c'. lru_erase k c = Some c' \<and> lru_rep c' (drop_key k es)"
  using assms
proof (cases rule: lru_rep_cases [where k = k])
  case miss
  then have "k \<notin> fst ` set es" by (simp add: map_of_eq_None_iff)
  with miss assms show ?thesis by (simp add: lru_erase_def drop_key_id)
next
  case (hit v exs eys xs a ys)
  obtain c1 where c1: "lru_unlink a c = Some c1" "chain c1 (xs @ ys)" "same_nodes c c1"
    using lru_unlink_chain [OF hit(3)] by blast
  have kv1: "kv (heap c1) = kv (heap c)" using c1(3) by (simp add: same_nodes_def)
  have "kv (heap c1) a = Some (k, v)" using kv1 hit(7) by simp
  then obtain n where n: "heap c1 a = Some n" "node_key n = k" by (auto simp: kv_Some_iff)
  have na: "a \<notin> set xs" "a \<notin> set ys" using hit(3) by (auto simp: chain_def)
  define c2 where "c2 = c1\<lparr>searcher := filter (\<lambda>b. \<not> has_key c1 k b) (searcher c1),
    heap := (heap c1)(a := None)\<rparr>"
  have kv2: "kv (heap c2) b = (if b = a then None else kv (heap c) b)" for b
    using kv1 by (auto simp: c2_def kv_def fun_eq_iff)
  have keys: "has_key c1 k b \<longleftrightarrow> b = a" if "b \<in> set (xs @ a # ys)" for b
  proof -
    have "kv (heap c) b \<in> Some ` set (exs @ eys)" if "b \<noteq> a"
      using hit(6,8) \<open>b \<in> set (xs @ a # ys)\<close> that
      by (metis (no_types, lifting) Un_iff image_Un image_eqI list.set_map set_ConsD set_append)
    moreover have "k \<notin> fst ` set (exs @ eys)" using hit(9) drop_key_notin [of k es] by simp
    ultimately show ?thesis using kv1 hit(7) by (force simp: has_key_kv)
  qed
  have "lru_rep c2 (exs @ eys)"
  proof (rule lru_repI)
    show "chain c2 (xs @ ys)" using c1(2) na by (simp add: chain_def c2_def)
    have "map (kv (heap c2)) xs = map Some exs" "map (kv (heap c2)) ys = map Some eys"
      using hit(6,8) na kv2 by (metis (no_types, lifting) map_cong)+
    then show "map (kv (heap c2)) (xs @ ys) = map Some (exs @ eys)" by simp
    have sc1: "searcher c1 = searcher c" using c1(3) by (simp add: same_nodes_def)
    have "set (searcher c2) = {b \<in> set (xs @ a # ys). b \<noteq> a}"
      unfolding c2_def using keys hit(4) sc1 by auto
    then show "set (searcher c2) = set (xs @ ys)" using na by auto
    show "distinct (searcher c2)" using assms sc1 by (auto simp: c2_def lru_rep_def)
    show "distinct (map fst (exs @ eys))" using assms hit(2) by (auto simp: lru_rep_def)
    show "b < fresh c2" if "heap c2 b = Some m" for b m
      using same_nodes_fresh [OF c1(3), of b m] assms that
      by (auto simp: c2_def lru_rep_def split: if_splits)
  qed
  moreover have "lru_erase k c = Some c2"
    using hit(5) c1(1) n by (simp add: lru_erase_def lru_remove_def c2_def)
  ultimately show ?thesis using hit(9) by simp
qed

lemma lru_count_rep: "lru_rep c es \<Longrightarrow> lru_count c = length es"
proof -
  assume "lru_rep c es"
  then obtain ns where "distinct ns" "distinct (searcher c)" "set (searcher c) = set ns"
      "map (kv (heap c)) ns = map Some es"
    by (auto simp: lru_rep_def chain_def)
  then show ?thesis
    by (metis lru_count_def distinct_card length_map)
qed

lemma lru_rep_distinct: "lru_rep c es \<Longrightarrow> distinct (map fst es)"
  by (simp add: lru_rep_def)

interpretation lru_cache: lru lru_rep lru_get lru_put lru_erase lru_count
  by unfold_locales
    (fact lru_rep_distinct lru_get_rep lru_put_rep lru_erase_rep lru_count_rep)+

lemma lru_empty_rep: "lru_rep lru_empty []"
  by (simp add: lru_rep_def chain_def lru_empty_def exI [of _ "[]"])

lemma lru_destroy_count: "lru_count (lru_destroy c) = 0"
  by (simp add: lru_destroy_def lru_count_def)

section \<open>Walking the list\<close>

lemma foreach_from_linked:
  assumes "linked (heap c) p ns None" "map (kv (heap c)) ns = map Some es"
  shows "foreach_from func c (first_of ns None) s = Some (walk func es s)"
  using assms
proof (induction ns arbitrary: p es s)
  case Nil
  then show ?case by (simp add: foreach_from.simps)
next
  case (Cons a ns)
  then obtain n where n: "heap c a = Some n" "node_next n = first_of ns None"
      "linked (heap c) (Some a) ns None"
    by auto
  from Cons.prems(2) obtain e es' where es: "es = e # es'" "map (kv (heap c)) ns = map Some es'"
      "kv (heap c) a = Some e"
    by (cases es) auto
  then have "e = (node_key n, node_value n)" using n by (simp add: kv_def)
  then show ?case
    using Cons.IH [OF n(3) es(2)] n es
    by (subst foreach_from.simps) (simp split: prod.split)
qed

lemma foreach_reverse_from_linked:
  assumes "linked (heap c) None ns q" "map (kv (heap c)) ns = map Some es"
  shows "foreach_reverse_from func c (last_of None ns) s = Some (walk func (rev es) s)"
  using assms
proof (induction ns arbitrary: q es s rule: rev_induct)
  case Nil
  then show ?case by (simp add: foreach_reverse_from.simps)
next
  case (snoc a ns)
  then obtain n where n: "heap c a = Some n" "node_prev n = last_of None ns"
      "linked (heap c) None ns (Some a)"
    by (auto simp: linked_append)
  from snoc.prems(2) obtain es' e where es: "es = es' @ [e]" "map (kv (heap c)) ns = map Some es'"
      "kv (heap c) a = Some e"
    by (cases es rule: rev_cases) auto
  then have "e = (node_key n, node_value n)" using n by (simp add: kv_def)
  then show ?case
    using snoc.IH [OF n(3) es(2)] n es
    by (subst foreach_reverse_from.simps) (simp split: prod.split)
qed

lemma lru_foreach_rep: "lru_rep c es \<Longrightarrow> lru_foreach func c s = Some (walk func es s)"
  unfolding lru_rep_def chain_def lru_foreach_def
  by (metis foreach_from_linked)

lemma lru_foreach_reverse_rep:
  "lru_rep c es \<Longrightarrow> lru_foreach_reverse func c s = Some (walk func (rev es) s)"
  unfolding lru_rep_def chain_def lru_foreach_reverse_def
  by (metis foreach_reverse_from_linked)

section \<open>Properties\<close>

text \<open>A client: any sequence of calls.\<close>

datatype ('k, 'v) lru_call = Get 'k | Put 'k 'v | Erase 'k

fun lru_run :: "('k, 'v) lru_call list \<Rightarrow> ('k, 'v) LruCache \<Rightarrow>
    ('v option list \<times> ('k, 'v) LruCache) option" where
  "lru_run [] c = Some ([], c)"
| "lru_run (Get k # cs) c = do {
     (r, c) \<leftarrow> lru_get k c;
     (rs, c) \<leftarrow> lru_run cs c;
     Some (r # rs, c)
   }"
| "lru_run (Put k v # cs) c = do { c \<leftarrow> lru_put k v c; lru_run cs c }"
| "lru_run (Erase k # cs) c = do { c \<leftarrow> lru_erase k c; lru_run cs c }"

fun map_run :: "('k, 'v) lru_call list \<Rightarrow> ('k \<rightharpoonup> 'v) \<Rightarrow> 'v option list" where
  "map_run [] m = []"
| "map_run (Get k # cs) m = m k # map_run cs m"
| "map_run (Put k v # cs) m = map_run cs (m(k \<mapsto> v))"
| "map_run (Erase k # cs) m = map_run cs (m(k := None))"

lemma lru_run_map:
  "lru_rep c es \<Longrightarrow> \<exists>c' es'. lru_run cs c = Some (map_run cs (map_of es), c') \<and> lru_rep c' es'"
proof (induction cs c arbitrary: es rule: lru_run.induct)
  case (1 c)
  then show ?case by auto
next
  case (2 k cs c)
  obtain c1 where c1: "lru_get k c = Some (map_of es k, c1)" "lru_rep c1 (touch_entries k es)"
    using lru_cache.rep_get [OF "2.prems"] by blast
  with "2.IH" [OF c1(1) refl, of "touch_entries k es"] show ?case by auto
next
  case (3 k v cs c)
  obtain c1 where c1: "lru_put k v c = Some c1" "lru_rep c1 ((k, v) # drop_key k es)"
    using lru_cache.rep_put [OF "3.prems"] by blast
  have m: "map_of ((k, v) # drop_key k es) = (map_of es)(k \<mapsto> v)" by (auto simp: fun_eq_iff)
  obtain c' es' where "lru_run cs c1 = Some (map_run cs (map_of ((k, v) # drop_key k es)), c')"
      "lru_rep c' es'"
    using "3.IH" [OF c1] by blast
  then show ?case unfolding m using c1(1) by auto
next
  case (4 k cs c)
  obtain c1 where c1: "lru_erase k c = Some c1" "lru_rep c1 (drop_key k es)"
    using lru_cache.rep_erase [OF "4.prems"] by blast
  have m: "map_of (drop_key k es) = (map_of es)(k := None)" by (auto simp: fun_eq_iff)
  obtain c' es' where "lru_run cs c1 = Some (map_run cs (map_of (drop_key k es)), c')"
      "lru_rep c' es'"
    using "4.IH" [OF c1] by blast
  then show ?case unfolding m using c1(1) by auto
qed

text \<open>
  C35. Refinement: for every sequence of \<^verbatim>\<open>get\<close>, \<^verbatim>\<open>put\<close> and \<^verbatim>\<open>remove\<close> calls on a new cache, the
  pointer code follows only valid pointers and returns exactly what a finite map returns.
\<close>

theorem lru_refines_map:
  "\<exists>c. lru_run cs lru_empty = Some (map_run cs Map.empty, c)"
  using lru_run_map [OF lru_empty_rep, of cs] by auto

text \<open>
  Recency order: looking a present key up returns its value and makes it the front entry,
  all other entries keeping their order; the reverse walk used for eviction then sees the
  entries from the least recently used one on.
\<close>

theorem lru_get_recency:
  assumes "lru_rep c es" "map_of es k = Some v"
  shows "\<exists>c'. lru_get k c = Some (Some v, c') \<and>
    (\<forall>func s. lru_foreach_reverse func c' s =
       Some (walk func (rev ((k, v) # filter (\<lambda>e. fst e \<noteq> k) es)) s))"
proof -
  obtain c' where "lru_get k c = Some (Some v, c')" "lru_rep c' ((k, v) # drop_key k es)"
    using lru_cache.rep_get [OF assms(1), of k] assms(2) by (auto simp: touch_entries_def)
  then show ?thesis
    by (intro exI [of _ c'] conjI allI) (simp_all add: lru_foreach_reverse_rep drop_key_def)
qed

theorem lru_get_recency_witness:
  "\<exists>c1 c2 c'. lru_put (1::nat) (10::nat) lru_empty = Some c1 \<and> lru_put 2 20 c1 = Some c2 \<and>
     lru_get 1 c2 = Some (Some 10, c') \<and>
     lru_foreach_reverse (\<lambda>s k v. (True, s @ [k])) c' [] = Some [2, 1]"
proof -
  obtain c1 where c1: "lru_put (1::nat) (10::nat) lru_empty = Some c1" "lru_rep c1 [(1, 10)]"
    using lru_put_rep [OF lru_empty_rep, of "1::nat" "10::nat"] by (auto simp: drop_key_def)
  obtain c2 where c2: "lru_put 2 20 c1 = Some c2" "lru_rep c2 [(2, 20), (1, 10)]"
    using lru_put_rep [OF c1(2), of 2 20] by (auto simp: drop_key_def)
  obtain c' where "lru_get 1 c2 = Some (Some 10, c')"
      "\<And>(func :: nat list \<Rightarrow> _) s. lru_foreach_reverse func c' s =
         Some (walk func (rev ((1, 10) # filter (\<lambda>e. fst e \<noteq> 1) [(2, 20), (1, 10)])) s)"
    using lru_get_recency [OF c2(2), of 1 10] by auto
  then show ?thesis using c1(1) c2(1) by auto
qed

end
