(* ===== verification/Ob_MemPool.thy ===== *)
theory Ob_MemPool
  imports Ob_Prelude
begin

text \<open>
  The object pool of \<open>src/deps/common/mm/mem_pool.h\<close> (\<^verbatim>\<open>MemPoolSimple\<close>), from which the buffer
  pool takes its frames.  An address is a natural number, \<^verbatim>\<open>new T[n]\<close> returns \<open>n\<close> consecutive
  addresses that were never handed out before, and \<^verbatim>\<open>size\<close> is kept as the code keeps it.  The
  recursive mutex serialises the operations, so each of them is one atomic step.  The locale
  \<open>item_pool\<close> is what a user of the pool may rely on.
\<close>

section \<open>Model\<close>

record MemPoolSimple =
  mp_size :: int
  mp_dynamic :: bool
  mp_pools :: "nat list"
  mp_used :: "nat set"
  mp_frees :: "nat list"
  mp_item_num_per_pool :: int
  mp_brk :: nat

definition mp_new :: "nat \<Rightarrow> MemPoolSimple" where
  "mp_new brk = \<lparr>mp_size = 0, mp_dynamic = False, mp_pools = [], mp_used = {}, mp_frees = [],
     mp_item_num_per_pool = 0, mp_brk = brk\<rparr>"

definition mp_cleanup :: "MemPoolSimple \<Rightarrow> MemPoolSimple" where
  "mp_cleanup p =
     (if mp_pools p = [] then p
      else p\<lparr>mp_used := {}, mp_frees := [], mp_size := 0, mp_pools := []\<rparr>)"

definition mp_extend :: "MemPoolSimple \<Rightarrow> int \<times> MemPoolSimple" where
  "mp_extend p =
     (if \<not> mp_dynamic p then (- 1, p)
      else let n = nat (mp_item_num_per_pool p); pool = mp_brk p in
        (0, p\<lparr>mp_pools := mp_pools p @ [pool],
              mp_size := mp_size p + mp_item_num_per_pool p,
              mp_frees := mp_frees p @ [pool..<pool + n],
              mp_brk := pool + n\<rparr>))"

text \<open>The loop of \<^verbatim>\<open>init\<close>, \<open>i\<close> pools being left to add.\<close>

fun mp_init_loop :: "nat \<Rightarrow> MemPoolSimple \<Rightarrow> int \<times> MemPoolSimple" where
  "mp_init_loop 0 p = (0, p)"
| "mp_init_loop (Suc i) p =
     (case mp_extend p of (ret, p') \<Rightarrow>
        if ret < 0 then (- 1, mp_cleanup p') else mp_init_loop i p')"

definition mp_init :: "bool \<Rightarrow> int \<Rightarrow> int \<Rightarrow> MemPoolSimple \<Rightarrow> int \<times> MemPoolSimple" where
  "mp_init dynamic pool_num item_num p =
     (if mp_pools p \<noteq> [] then (0, p)
      else if pool_num \<le> 0 \<or> item_num \<le> 0 then (- 1, p)
      else case mp_init_loop (nat pool_num)
                  (p\<lparr>mp_item_num_per_pool := item_num, mp_dynamic := True\<rparr>) of
        (ret, p') \<Rightarrow> if ret < 0 then (- 1, p') else (0, p'\<lparr>mp_dynamic := dynamic\<rparr>))"

text \<open>\<^verbatim>\<open>frees.front()\<close> and \<^verbatim>\<open>pop_front()\<close>, taken when the list is not empty.\<close>

definition mp_take :: "MemPoolSimple \<Rightarrow> nat option \<times> MemPoolSimple" where
  "mp_take p = (case mp_frees p of
      [] \<Rightarrow> (None, p)
    | buffer # rest \<Rightarrow>
        (Some buffer, p\<lparr>mp_frees := rest, mp_used := insert buffer (mp_used p)\<rparr>))"

definition mp_alloc :: "MemPoolSimple \<Rightarrow> nat option \<times> MemPoolSimple" where
  "mp_alloc p =
     (if mp_frees p = [] then
        if \<not> mp_dynamic p then (None, p)
        else case mp_extend p of (ret, p') \<Rightarrow> if ret < 0 then (None, p') else mp_take p'
      else mp_take p)"

definition mp_free :: "nat \<Rightarrow> MemPoolSimple \<Rightarrow> MemPoolSimple" where
  "mp_free buf p =
     (if buf \<notin> mp_used p then p
      else p\<lparr>mp_used := mp_used p - {buf}, mp_frees := mp_frees p @ [buf]\<rparr>)"

definition mp_get_used_num :: "MemPoolSimple \<Rightarrow> nat" where
  "mp_get_used_num p = card (mp_used p)"

section \<open>Contract\<close>

text \<open>
  \<open>ok p U\<close>: the pool is consistent and exactly the items of \<open>U\<close> are handed out.  \<open>limit\<close> is the
  number of items the pool owns.
\<close>

locale item_pool =
  fixes ok :: "'p \<Rightarrow> 'a set \<Rightarrow> bool"
    and alloc :: "'p \<Rightarrow> 'a option \<times> 'p"
    and give_back :: "'a \<Rightarrow> 'p \<Rightarrow> 'p"
    and limit :: "'p \<Rightarrow> nat"
  assumes finite_used: "ok p U \<Longrightarrow> finite U"
    and used_le: "ok p U \<Longrightarrow> card U \<le> limit p"
    and alloc_Some: "ok p U \<Longrightarrow> alloc p = (Some a, p') \<Longrightarrow> a \<notin> U \<and> ok p' (insert a U)"
    and alloc_None: "ok p U \<Longrightarrow> alloc p = (None, p') \<Longrightarrow> p' = p \<and> card U = limit p"
    and give_back_ok: "ok p U \<Longrightarrow> a \<in> U \<Longrightarrow> ok (give_back a p) (U - {a}) \<and> limit (give_back a p) = limit p"
    and give_back_foreign: "ok p U \<Longrightarrow> a \<notin> U \<Longrightarrow> give_back a p = p"
begin

lemma alloc_after_give_back:
  assumes "ok p U" "a \<in> U"
  shows "\<exists>b p'. alloc (give_back a p) = (Some b, p') \<and> b \<notin> U - {a} \<and> ok p' (insert b (U - {a}))"
proof (cases "alloc (give_back a p)")
  case (Pair r p')
  have g: "ok (give_back a p) (U - {a})" "limit (give_back a p) = limit p"
    using give_back_ok [OF assms] by auto
  have "card (U - {a}) < limit p"
    using used_le [OF assms(1)] finite_used [OF assms(1)] assms(2)
    by (metis card_Diff1_less order_less_le_trans)
  then have "r \<noteq> None" using alloc_None [OF g(1), of p'] g(2) Pair by auto
  then show ?thesis using alloc_Some [OF g(1)] Pair by auto
qed

end

section \<open>The pool keeps the contract\<close>

definition mp_ok :: "MemPoolSimple \<Rightarrow> nat set \<Rightarrow> bool" where
  "mp_ok p U \<longleftrightarrow> mp_used p = U \<and> finite U \<and> distinct (mp_frees p) \<and> set (mp_frees p) \<inter> U = {} \<and>
     mp_size p = int (card U + length (mp_frees p)) \<and> (\<forall>a \<in> U. a < mp_brk p) \<and>
     (\<forall>a \<in> set (mp_frees p). a < mp_brk p) \<and>
     0 \<le> mp_item_num_per_pool p \<and> (mp_dynamic p \<longrightarrow> 0 < mp_item_num_per_pool p)"

definition mp_limit :: "MemPoolSimple \<Rightarrow> nat" where
  "mp_limit p = nat (mp_size p)"

lemma mp_new_ok: "mp_ok (mp_new brk) {}"
  by (simp add: mp_ok_def mp_new_def)

lemma mp_extend_ok:
  assumes "mp_ok p U" "mp_extend p = (ret, p')"
  shows "mp_ok p' U"
proof (cases "mp_dynamic p")
  case False
  then show ?thesis using assms by (simp add: mp_extend_def)
next
  case True
  have lt: "\<not> mp_brk p \<le> a" if "a \<in> U \<or> a \<in> set (mp_frees p)" for a
    using assms(1) that unfolding mp_ok_def not_le by blast
  have d: "set (mp_frees p) \<inter> {mp_brk p..<k} = {}" "U \<inter> {mp_brk p..<k} = {}" for k
    using lt by auto
  have p': "p' = p\<lparr>mp_pools := mp_pools p @ [mp_brk p],
      mp_size := mp_size p + mp_item_num_per_pool p,
      mp_frees := mp_frees p @ [mp_brk p..<mp_brk p + nat (mp_item_num_per_pool p)],
      mp_brk := mp_brk p + nat (mp_item_num_per_pool p)\<rparr>"
    using assms(2) True by (simp add: mp_extend_def Let_def)
  show ?thesis
    unfolding mp_ok_def p'
    using assms(1) d lt by (auto simp: mp_ok_def Int_Un_distrib2 trans_less_add1)
qed

lemma mp_extend_dynamic:
  "mp_dynamic p \<Longrightarrow> fst (mp_extend p) = 0 \<and> mp_dynamic (snd (mp_extend p)) \<and>
     mp_item_num_per_pool (snd (mp_extend p)) = mp_item_num_per_pool p \<and>
     mp_size (snd (mp_extend p)) = mp_size p + mp_item_num_per_pool p"
  by (simp add: mp_extend_def Let_def)

lemma mp_init_loop_ok:
  assumes "mp_ok p U" "mp_dynamic p"
  shows "\<exists>p'. mp_init_loop n p = (0, p') \<and> mp_ok p' U \<and> mp_dynamic p' \<and>
    mp_item_num_per_pool p' = mp_item_num_per_pool p \<and>
    mp_size p' = mp_size p + int n * mp_item_num_per_pool p"
  using assms
proof (induction n arbitrary: p)
  case 0
  then show ?case by simp
next
  case (Suc n)
  obtain ret p1 where e: "mp_extend p = (ret, p1)" by fastforce
  with Suc.prems mp_extend_dynamic [of p] mp_extend_ok [OF Suc.prems(1) e]
  have "ret = 0" "mp_ok p1 U" "mp_dynamic p1" "mp_item_num_per_pool p1 = mp_item_num_per_pool p"
      "mp_size p1 = mp_size p + mp_item_num_per_pool p"
    by auto
  with Suc.IH [of p1] e show ?case by (auto simp: algebra_simps)
qed

lemma mp_init_ok:
  assumes "0 < pool_num" "0 < item_num"
  shows "\<exists>p. mp_init dynamic pool_num item_num (mp_new brk) = (0, p) \<and> mp_ok p {} \<and>
    mp_dynamic p = dynamic \<and> mp_size p = pool_num * item_num"
proof -
  let ?p = "(mp_new brk)\<lparr>mp_item_num_per_pool := item_num, mp_dynamic := True\<rparr>"
  have "mp_ok ?p {}" "mp_dynamic ?p" using assms by (simp_all add: mp_ok_def mp_new_def)
  from mp_init_loop_ok [OF this, of "nat pool_num"] obtain p' where
    "mp_init_loop (nat pool_num) ?p = (0, p')" "mp_ok p' {}" "mp_item_num_per_pool p' = item_num"
    "mp_size p' = pool_num * item_num"
    using assms by (auto simp: mp_new_def)
  then show ?thesis
    using assms by (simp add: mp_init_def) (simp add: mp_new_def mp_ok_def)
qed

lemma mp_take_ok:
  assumes "mp_ok p U" "mp_take p = (r, p')" "mp_frees p \<noteq> []"
  shows "\<exists>a. r = Some a \<and> a \<notin> U \<and> mp_ok p' (insert a U)"
  using assms by (cases "mp_frees p") (auto simp: mp_take_def mp_ok_def)

lemma mp_alloc_cases:
  assumes "mp_ok p U" "mp_alloc p = (r, p')"
  obtains (full) "r = None" "p' = p" "mp_frees p = []"
    | (taken) a where "r = Some a" "a \<notin> U" "mp_ok p' (insert a U)"
proof (cases "mp_frees p = []")
  case True
  show thesis
  proof (cases "mp_dynamic p")
    case dyn: True
    obtain ret p1 where e: "mp_extend p = (ret, p1)" by fastforce
    have ok1: "mp_ok p1 U" by (rule mp_extend_ok [OF assms(1) e])
    have "0 < mp_item_num_per_pool p" using assms(1) dyn by (simp add: mp_ok_def)
    then have ne: "ret = 0" "mp_frees p1 \<noteq> []" using e dyn by (auto simp: mp_extend_def Let_def)
    then have "mp_take p1 = (r, p')" using assms(2) True dyn e by (simp add: mp_alloc_def)
    then show thesis using mp_take_ok [OF ok1 _ ne(2)] taken by blast
  qed (use assms True full in \<open>simp add: mp_alloc_def\<close>)
next
  case False
  then have "mp_take p = (r, p')" using assms(2) by (simp add: mp_alloc_def)
  then show thesis using mp_take_ok [OF assms(1) _ False] taken by blast
qed

lemma mp_free_ok:
  assumes "mp_ok p U" "a \<in> U"
  shows "mp_ok (mp_free a p) (U - {a}) \<and> mp_limit (mp_free a p) = mp_limit p"
proof -
  have c: "card U = Suc (card (U - {a}))"
    using assms by (intro card.remove) (simp_all add: mp_ok_def)
  have f: "mp_free a p = p\<lparr>mp_used := U - {a}, mp_frees := mp_frees p @ [a]\<rparr>"
    using assms by (simp add: mp_free_def mp_ok_def)
  show ?thesis
    using assms unfolding f by (auto simp: mp_ok_def mp_limit_def c simp del: card_Diff_insert)
qed

interpretation simple_pool: item_pool mp_ok mp_alloc mp_free mp_limit
proof
  fix p U a p'
  show "mp_ok p U \<Longrightarrow> finite U" by (simp add: mp_ok_def)
  show "mp_ok p U \<Longrightarrow> card U \<le> mp_limit p" by (simp add: mp_ok_def mp_limit_def)
  show "a \<notin> U \<and> mp_ok p' (insert a U)" if "mp_ok p U" "mp_alloc p = (Some a, p')"
    using that by (cases rule: mp_alloc_cases) auto
  show "p' = p \<and> card U = mp_limit p" if "mp_ok p U" "mp_alloc p = (None, p')"
    using that that(1) by (cases rule: mp_alloc_cases) (auto simp: mp_ok_def mp_limit_def)
  show "mp_ok (mp_free a p) (U - {a}) \<and> mp_limit (mp_free a p) = mp_limit p"
    if "mp_ok p U" "a \<in> U" using that by (rule mp_free_ok)
  show "mp_free a p = p" if "mp_ok p U" "a \<notin> U" using that by (simp add: mp_free_def mp_ok_def)
qed

lemma mp_alloc_fixed:
  assumes "mp_ok p U" "\<not> mp_dynamic p" "mp_alloc p = (r, p')"
  shows "mp_size p' = mp_size p \<and> \<not> mp_dynamic p'"
  using assms by (auto simp: mp_alloc_def mp_take_def split: if_splits list.splits)

section \<open>Properties\<close>

text \<open>Any sequence of calls; the results of the allocations are collected.\<close>

datatype pool_call = Alloc | Release nat

fun mp_run :: "pool_call list \<Rightarrow> MemPoolSimple \<Rightarrow> nat option list \<times> MemPoolSimple" where
  "mp_run [] p = ([], p)"
| "mp_run (Alloc # cs) p = (case mp_alloc p of (r, p1) \<Rightarrow>
     case mp_run cs p1 of (rs, p2) \<Rightarrow> (r # rs, p2))"
| "mp_run (Release a # cs) p = mp_run cs (mp_free a p)"

text \<open>The reference: an allocation must give an unused item unless all \<open>n\<close> are in use.\<close>

fun pool_trace_ok :: "nat \<Rightarrow> pool_call list \<Rightarrow> nat option list \<Rightarrow> nat set \<Rightarrow> bool" where
  "pool_trace_ok n [] rs U \<longleftrightarrow> rs = []"
| "pool_trace_ok n (Alloc # cs) rs U \<longleftrightarrow>
     (case rs of [] \<Rightarrow> False
      | None # rs' \<Rightarrow> card U = n \<and> pool_trace_ok n cs rs' U
      | Some a # rs' \<Rightarrow> card U < n \<and> a \<notin> U \<and> pool_trace_ok n cs rs' (insert a U))"
| "pool_trace_ok n (Release a # cs) rs U \<longleftrightarrow> pool_trace_ok n cs rs (U - {a})"

lemma mp_run_trace:
  assumes "mp_ok p U" "\<not> mp_dynamic p"
  shows "pool_trace_ok (mp_limit p) cs (fst (mp_run cs p)) U"
  using assms
proof (induction cs p arbitrary: U rule: mp_run.induct)
  case (1 p)
  then show ?case by simp
next
  case (2 cs p)
  obtain r p1 where a: "mp_alloc p = (r, p1)" by fastforce
  obtain rs p2 where r: "mp_run cs p1 = (rs, p2)" by fastforce
  have fixed: "mp_limit p1 = mp_limit p" "\<not> mp_dynamic p1"
    using mp_alloc_fixed [OF 2(2,3) a] by (simp_all add: mp_limit_def)
  show ?case
  proof (cases r)
    case None
    then have "p1 = p" "card U = mp_limit p" using simple_pool.alloc_None 2(2) a by auto
    then show ?thesis using "2.IH" [OF a [symmetric] _ fixed(2), of U] None 2(2,3) a r by simp
  next
    case (Some b)
    then have b: "b \<notin> U" "mp_ok p1 (insert b U)" using simple_pool.alloc_Some 2(2) a by auto
    then have "card U < mp_limit p"
      using simple_pool.used_le [OF b(2)] simple_pool.finite_used [OF 2(2)] fixed by simp
    then show ?thesis using "2.IH" [OF a [symmetric] b(2) fixed(2)] fixed Some a r b by simp
  qed
next
  case (3 a cs p)
  show ?case
  proof (cases "a \<in> U")
    case True
    have "\<not> mp_dynamic (mp_free a p)" using 3(3) by (simp add: mp_free_def)
    then show ?thesis
      using "3.IH" [of "U - {a}"] simple_pool.give_back_ok [OF 3(2) True] by simp
  next
    case False
    then show ?thesis using 3 simple_pool.give_back_foreign [OF 3(2) False] by simp
  qed
qed

text \<open>
  C39. The frame pool of the buffer pool (initialised with \<open>pool_num\<close> pools of \<open>item_num\<close> items,
  not dynamic) never hands out an item that is in use, for any sequence of \<^verbatim>\<open>alloc\<close> and \<^verbatim>\<open>free\<close>
  calls, frees of foreign addresses included, and refuses exactly when all
  \<open>pool_num * item_num\<close> items are in use.
\<close>

theorem mem_pool_trace_safe:
  assumes "0 < pool_num" "0 < item_num"
    and "mp_init False pool_num item_num (mp_new brk) = (ret, p)"
  shows "ret = 0 \<and> pool_trace_ok (nat (pool_num * item_num)) cs (fst (mp_run cs p)) {}"
proof -
  have "ret = 0" "mp_ok p {}" "\<not> mp_dynamic p" "mp_limit p = nat (pool_num * item_num)"
    using mp_init_ok [OF assms(1,2), of False brk] assms(3) by (auto simp: mp_limit_def)
  then show ?thesis using mp_run_trace [of p "{}" cs] by simp
qed

theorem mem_pool_trace_safe_witness:
  "fst (mp_init False 1 2 (mp_new 0)) = 0 \<and>
   pool_trace_ok 2 [Alloc, Alloc, Alloc, Release 0, Alloc]
     (fst (mp_run [Alloc, Alloc, Alloc, Release 0, Alloc] (snd (mp_init False 1 2 (mp_new 0))))) {}"
  using mem_pool_trace_safe [of 1 2 0 "fst (mp_init False 1 2 (mp_new 0))"
      "snd (mp_init False 1 2 (mp_new 0))" "[Alloc, Alloc, Alloc, Release 0, Alloc]"]
  by simp

end
