(* ===== verification/Ob_Bytes.thy ===== *)
theory Ob_Bytes
  imports Ob_Prelude
begin

text \<open>
  Reading and writing the fields of a structure that is laid over a page: 32-bit integers in the
  byte order of the machine (little endian) and runs of bytes (\<^verbatim>\<open>memcpy\<close>, \<^verbatim>\<open>memmove\<close>).
\<close>

definition load_u32 :: "mem \<Rightarrow> nat \<Rightarrow> int" where
  "load_u32 m i = uint (m i) + 256 * uint (m (i + 1)) + 65536 * uint (m (i + 2)) +
     16777216 * uint (m (i + 3))"

definition load_int :: "mem \<Rightarrow> nat \<Rightarrow> int" where
  "load_int m i = wrap32 (load_u32 m i)"

definition store_int :: "mem \<Rightarrow> nat \<Rightarrow> int \<Rightarrow> mem" where
  "store_int m i v = m(i := word_of_int v, i + 1 := word_of_int (v div 256),
     i + 2 := word_of_int (v div 65536), i + 3 := word_of_int (v div 16777216))"

text \<open>\<open>blit m off src n\<close>: \<^verbatim>\<open>memcpy(m + off, src, n)\<close>.\<close>

definition blit :: "mem \<Rightarrow> nat \<Rightarrow> mem \<Rightarrow> nat \<Rightarrow> mem" where
  "blit m off src n = (\<lambda>i. if off \<le> i \<and> i < off + n then src (i - off) else m i)"

text \<open>The memory behind \<^verbatim>\<open>m + off\<close>.\<close>

definition at_off :: "mem \<Rightarrow> nat \<Rightarrow> mem" where
  "at_off m off = (\<lambda>i. m (off + i))"

definition bytes_at :: "mem \<Rightarrow> nat \<Rightarrow> nat \<Rightarrow> byte list" where
  "bytes_at m off n = map m [off..<off + n]"

lemma uint_byte_of_int: "uint (word_of_int v :: byte) = v mod 256"
  by (simp add: uint_word_of_int)

lemma wrap32_mod: "wrap32 (x mod 2 ^ 32) = wrap32 x"
  by (simp add: wrap32_def mod_simps)

lemma bytes_of_int: "v mod 256 + 256 * (v div 256 mod 256) + 65536 * (v div 65536 mod 256) +
    16777216 * (v div 16777216 mod 256) = v mod 2 ^ 32" for v :: int
proof -
  have step: "v mod (c * 256) = v mod c + c * (v div c mod 256)" if "0 < c" for c :: int
    using zmod_zmult2_eq [of 256 v c] that by simp
  show ?thesis
    using step [of 256] step [of 65536] step [of 16777216] by simp
qed

lemma load_store_same [mem_simps]: "load_int (store_int m i v) i = wrap32 v"
proof -
  have "load_u32 (store_int m i v) i = v mod 2 ^ 32"
    unfolding load_u32_def store_int_def by (simp add: uint_byte_of_int bytes_of_int)
  then show ?thesis by (simp only: load_int_def wrap32_mod)
qed

lemma store_int_other [mem_simps]: "j < i \<or> i + 4 \<le> j \<Longrightarrow> store_int m i v j = m j"
  by (auto simp: store_int_def)

lemma load_store_other [mem_simps]: "i + 4 \<le> j \<or> j + 4 \<le> i \<Longrightarrow> load_int (store_int m i v) j = load_int m j"
  by (auto simp: load_int_def load_u32_def store_int_other)

lemma load_int_range: "- (2 ^ 31) \<le> load_int m i" "load_int m i < 2 ^ 31"
  by (simp_all only: load_int_def wrap32_range)

lemma load_int_cong: "(\<And>j. i \<le> j \<Longrightarrow> j < i + 4 \<Longrightarrow> m j = m' j) \<Longrightarrow> load_int m i = load_int m' i"
  by (simp add: load_int_def load_u32_def)

lemma load_blit_other [mem_simps]:
  "off + n \<le> i \<or> i + 4 \<le> off \<Longrightarrow> load_int (blit m off src n) i = load_int m i"
  by (rule load_int_cong) (auto simp: blit_def)

lemma blit_in [mem_simps]: "i < n \<Longrightarrow> blit m off src n (off + i) = src i"
  by (simp add: blit_def)

lemma blit_out [mem_simps]: "i < off \<or> off + n \<le> i \<Longrightarrow> blit m off src n i = m i"
  by (auto simp: blit_def)

lemma load_blit_in [mem_simps]:
  "i + 4 \<le> n \<Longrightarrow> load_int (blit m off src n) (off + i) = load_int src i"
  by (simp add: load_int_def load_u32_def blit_def add.assoc)

lemma load_at_off [mem_simps]: "load_int (at_off m off) i = load_int m (off + i)"
  by (simp add: load_int_def load_u32_def at_off_def add.assoc)

lemma bytes_at_blit_same [mem_simps]: "bytes_at (blit m off src n) off n = map src [0..<n]"
  by (auto simp: bytes_at_def blit_def intro!: nth_equalityI)

lemma bytes_at_blit_other [mem_simps]:
  "off' + n' \<le> off \<or> off + n \<le> off' \<Longrightarrow> bytes_at (blit m off src n) off' n' = bytes_at m off' n'"
  by (auto simp: bytes_at_def blit_def)

lemma bytes_at_store_other [mem_simps]:
  "off + n \<le> i \<or> i + 4 \<le> off \<Longrightarrow> bytes_at (store_int m i v) off n = bytes_at m off n"
  by (auto simp: bytes_at_def store_int_other)

end
