(* ===== verification/Ob_Io.thy ===== *)
theory Ob_Io
  imports Ob_Bytes "HOL-Library.Monad_Syntax"
begin

text \<open>
  The part of the operating system the paged files rest on, and the two I/O loops of
  \<open>src/deps/common/io/io.cpp\<close>.  All accesses of the buffer pool are whole pages at page aligned
  offsets, so a file is the list of its pages and a file position a number of pages.  Calls may
  fail: two scripts say, call by call, which \<^verbatim>\<open>lseek\<close> and which \<^verbatim>\<open>read\<close> or \<^verbatim>\<open>write\<close> fails; an
  exhausted script means that the remaining calls succeed.  A theorem about all scripts is a
  theorem about all patterns of failures.
\<close>

section \<open>Transfer loops\<close>

text \<open>What one \<^verbatim>\<open>write\<close> or \<^verbatim>\<open>read\<close> call returns: a count, or an error number.\<close>

datatype io_ret = Moved nat | Failed int

definition EINTR :: int where "EINTR = 4"
definition EAGAIN :: int where "EAGAIN = 11"

text \<open>
  \<^verbatim>\<open>writen\<close> with the results of the successive calls as a list: the value returned (\<open>None\<close> when
  the list ends first, that is, the loop is still running) and the number of bytes moved.
\<close>

fun writen :: "io_ret list \<Rightarrow> nat \<Rightarrow> nat \<Rightarrow> (int \<times> nat) option" where
  "writen rets 0 moved = Some (0, moved)"
| "writen [] (Suc n) moved = None"
| "writen (Moved k # rets) (Suc n) moved = writen rets (Suc n - k) (moved + min k (Suc n))"
| "writen (Failed err # rets) (Suc n) moved =
     (if err \<noteq> EAGAIN \<and> err \<noteq> EINTR then Some (err, moved) else writen rets (Suc n) moved)"

fun readn :: "io_ret list \<Rightarrow> nat \<Rightarrow> nat \<Rightarrow> (int \<times> nat) option" where
  "readn rets 0 moved = Some (0, moved)"
| "readn [] (Suc n) moved = None"
| "readn (Moved k # rets) (Suc n) moved =
     (if k > 0 then readn rets (Suc n - k) (moved + min k (Suc n)) else Some (- 1, moved))"
| "readn (Failed err # rets) (Suc n) moved =
     (if err \<noteq> EAGAIN \<and> err \<noteq> EINTR then Some (err, moved) else readn rets (Suc n) moved)"

lemma writen_complete: "writen rets n moved = Some (ret, k) \<Longrightarrow> ret = 0 \<Longrightarrow>
    Failed 0 \<notin> set rets \<Longrightarrow> k = moved + n"
  by (induction rets n moved rule: writen.induct) (auto split: if_splits)

lemma readn_complete: "readn rets n moved = Some (ret, k) \<Longrightarrow> ret = 0 \<Longrightarrow>
    Failed 0 \<notin> set rets \<Longrightarrow> k = moved + n"
  by (induction rets n moved rule: readn.induct) (auto split: if_splits)

text \<open>
  A script on which the transfer gets through: every call moves something or is to be repeated, and
  enough calls move something.
\<close>

definition moves :: "io_ret \<Rightarrow> bool" where
  "moves r = (case r of Moved k \<Rightarrow> k > 0 | Failed e \<Rightarrow> False)"

definition retried :: "io_ret \<Rightarrow> bool" where
  "retried r = (r = Failed EINTR \<or> r = Failed EAGAIN)"

definition gets_through :: "io_ret list \<Rightarrow> nat \<Rightarrow> bool" where
  "gets_through rets n \<longleftrightarrow> list_all (\<lambda>r. moves r \<or> retried r) rets \<and> n \<le> length (filter moves rets)"

lemma gets_through_simps:
  "gets_through [] (Suc n) \<longleftrightarrow> False"
  "gets_through (Moved k # rets) (Suc n) \<longleftrightarrow> k > 0 \<and> gets_through rets n"
  "gets_through (Failed e # rets) n \<longleftrightarrow> (e = EINTR \<or> e = EAGAIN) \<and> gets_through rets n"
  by (auto simp: gets_through_def moves_def retried_def)

lemma gets_through_diff: "gets_through rets n \<Longrightarrow> 0 < k \<Longrightarrow> gets_through rets (Suc n - k)"
  unfolding gets_through_def by linarith

lemma writen_through: "gets_through rets n \<Longrightarrow> writen rets n moved = Some (0, moved + n)"
  by (induction rets n moved rule: writen.induct)
    (auto simp: gets_through_simps min_def dest: gets_through_diff)

lemma readn_through: "gets_through rets n \<Longrightarrow> readn rets n moved = Some (0, moved + n)"
  by (induction rets n moved rule: readn.induct)
    (auto simp: gets_through_simps min_def dest: gets_through_diff)

text \<open>
  \<^verbatim>\<open>readn\<close> and \<^verbatim>\<open>writen\<close> report success only when all bytes were moved, however the system
  splits or interrupts the transfer (a failing call has a non-zero error number); and when every call
  moves something or is interrupted, both loops end with success and all bytes.
\<close>

theorem transfer_complete:
  assumes "Failed 0 \<notin> set rets"
  shows "(writen rets n 0 = Some (0, k) \<longrightarrow> k = n) \<and> (readn rets n 0 = Some (0, k) \<longrightarrow> k = n) \<and>
    (gets_through rets n \<longrightarrow> writen rets n 0 = Some (0, n) \<and> readn rets n 0 = Some (0, n))"
  using writen_complete [of rets n 0 0] readn_complete [of rets n 0 0] assms
    writen_through [of rets n 0] readn_through [of rets n 0] by auto

theorem transfer_complete_witness:
  "readn [Moved 2, Failed EINTR, Moved 3, Moved 1] 3 0 = Some (0, 3) \<and>
   writen [Moved 2, Failed EINTR, Moved 3, Moved 1] 3 0 = Some (0, 3) \<and>
   Failed 0 \<notin> set [Moved 2, Failed EINTR, Moved 3, Moved 1] \<and>
   gets_through [Moved 2, Failed EINTR, Moved 3, Moved 1] 3"
  using transfer_complete [of "[Moved 2, Failed EINTR, Moved 3, Moved 1]" 3]
  by (simp add: EINTR_def gets_through_def moves_def retried_def)

section \<open>Paged files\<close>

record Page =
  page_num :: PageNum
  data :: mem

definition BP_PAGE_SIZE :: int where "BP_PAGE_SIZE = 2 ^ 14"
definition BP_PAGE_DATA_SIZE :: int where "BP_PAGE_DATA_SIZE = BP_PAGE_SIZE - 4"

text \<open>\<^verbatim>\<open>memset(&page, 0, sizeof(Page))\<close>, also what a hole of a file reads as.\<close>

definition zero_page :: Page where
  "zero_page = \<lparr>page_num = 0, data = (\<lambda>_. 0)\<rparr>"

record Os =
  os_files :: "string \<rightharpoonup> Page list"
  os_fds :: "int \<rightharpoonup> string \<times> nat"
  os_fd_limit :: nat
  os_seek_faults :: "bool list"
  os_io_faults :: "bool list"

definition seek_fault :: "Os \<Rightarrow> bool \<times> Os" where
  "seek_fault w = (case os_seek_faults w of [] \<Rightarrow> (False, w)
     | f # fs \<Rightarrow> (f, w\<lparr>os_seek_faults := fs\<rparr>))"

definition io_fault :: "Os \<Rightarrow> bool \<times> Os" where
  "io_fault w = (case os_io_faults w of [] \<Rightarrow> (False, w)
     | f # fs \<Rightarrow> (f, w\<lparr>os_io_faults := fs\<rparr>))"

text \<open>The lowest free descriptor, \<open>-1\<close> when the table is full.\<close>

definition free_fd :: "Os \<Rightarrow> int" where
  "free_fd w = first_from (\<lambda>n. os_fds w (int n) = None) 3 (os_fd_limit w)"

definition os_open :: "string \<Rightarrow> Os \<Rightarrow> int \<times> Os" where
  "os_open name w =
     (if os_files w name = None \<or> free_fd w < 0 then (- 1, w)
      else (free_fd w, w\<lparr>os_fds := (os_fds w)(free_fd w \<mapsto> (name, 0))\<rparr>))"

definition os_create :: "string \<Rightarrow> Os \<Rightarrow> int \<times> Os" where
  "os_create name w =
     (if os_files w name \<noteq> None \<or> free_fd w < 0 then (- 1, w)
      else os_open name (w\<lparr>os_files := (os_files w)(name \<mapsto> [])\<rparr>))"

definition os_close :: "int \<Rightarrow> Os \<Rightarrow> int \<times> Os" where
  "os_close fd w =
     (if os_fds w fd = None then (- 1, w) else (0, w\<lparr>os_fds := (os_fds w)(fd := None)\<rparr>))"

text \<open>\<^verbatim>\<open>lseek(fd, p * sizeof(Page), SEEK_SET)\<close>: the new offset in bytes, or \<open>-1\<close>.\<close>

definition os_lseek :: "int \<Rightarrow> PageNum \<Rightarrow> Os \<Rightarrow> int \<times> Os" where
  "os_lseek fd p w =
     (case seek_fault w of (bad, w) \<Rightarrow>
        case os_fds w fd of
          None \<Rightarrow> (- 1, w)
        | Some (name, pos) \<Rightarrow>
            if bad \<or> p < 0 then (- 1, w)
            else (p * BP_PAGE_SIZE, w\<lparr>os_fds := (os_fds w)(fd \<mapsto> (name, nat p))\<rparr>))"

text \<open>Write one page at position \<open>i\<close>, filling a gap behind the end with zeros.\<close>

definition put_page :: "nat \<Rightarrow> Page \<Rightarrow> Page list \<Rightarrow> Page list" where
  "put_page i p ps =
     (if i < length ps then ps[i := p] else ps @ replicate (i - length ps) zero_page @ [p])"

definition os_writen :: "int \<Rightarrow> Page \<Rightarrow> Os \<Rightarrow> int \<times> Os" where
  "os_writen fd p w =
     (case io_fault w of (bad, w) \<Rightarrow>
        case os_fds w fd of
          None \<Rightarrow> (9, w)
        | Some (name, pos) \<Rightarrow>
            (case os_files w name of
               None \<Rightarrow> (9, w)
             | Some ps \<Rightarrow>
                 if bad then (5, w)
                 else (0, w\<lparr>os_files := (os_files w)(name \<mapsto> put_page pos p ps),
                            os_fds := (os_fds w)(fd \<mapsto> (name, Suc pos))\<rparr>)))"

definition os_readn :: "int \<Rightarrow> Os \<Rightarrow> int \<times> Page option \<times> Os" where
  "os_readn fd w =
     (case io_fault w of (bad, w) \<Rightarrow>
        case os_fds w fd of
          None \<Rightarrow> (9, None, w)
        | Some (name, pos) \<Rightarrow>
            (case os_files w name of
               None \<Rightarrow> (9, None, w)
             | Some ps \<Rightarrow>
                 if bad then (5, None, w)
                 else if pos < length ps
                 then (0, Some (ps ! pos), w\<lparr>os_fds := (os_fds w)(fd \<mapsto> (name, Suc pos))\<rparr>)
                 else (- 1, None, w)))"

text \<open>The stored page \<open>p\<close> of the file open as \<open>fd\<close>.\<close>

definition stored :: "Os \<Rightarrow> int \<Rightarrow> PageNum \<Rightarrow> Page option" where
  "stored w fd p =
     (case os_fds w fd of None \<Rightarrow> None
      | Some (name, _) \<Rightarrow>
          (case os_files w name of None \<Rightarrow> None
           | Some ps \<Rightarrow> if 0 \<le> p \<and> nat p < length ps then Some (ps ! nat p) else None))"

lemma put_page_length: "length (put_page i p ps) = max (length ps) (Suc i)"
  by (auto simp: put_page_def)

lemma put_page_nth: "j < length (put_page i p ps) \<Longrightarrow>
    put_page i p ps ! j = (if j = i then p else if j < length ps then ps ! j else zero_page)"
  by (auto simp: put_page_def nth_append less_Suc_eq nth_Cons' split: if_splits)

lemma seek_fault_none [simp]: "os_seek_faults w = [] \<Longrightarrow> seek_fault w = (False, w)"
  by (simp add: seek_fault_def)

lemma io_fault_none [simp]: "os_io_faults w = [] \<Longrightarrow> io_fault w = (False, w)"
  by (simp add: io_fault_def)

lemma io_fault_same:
  assumes "io_fault w = (bad, w')"
  shows "os_files w' = os_files w" "os_fds w' = os_fds w" "os_fd_limit w' = os_fd_limit w"
    "os_seek_faults w' = os_seek_faults w" "os_io_faults w = [] \<Longrightarrow> os_io_faults w' = [] \<and> \<not> bad"
  using assms by (auto simp: io_fault_def split: list.splits)

end
