(* ===== verification/Ob_FrameManager.thy ===== *)
theory Ob_FrameManager
  imports Ob_Rc Ob_LruCache Ob_MemPool Ob_Io
begin

text \<open>
  Frames and the frame manager of \<open>src/src/observer/storage/default/disk_buffer_pool.cpp\<close>: an LRU
  cache from (file descriptor, page number) to frames, over a fixed pool of frame objects.  The
  frame objects themselves are the memory \<open>frame_at\<close>.  \<open>fm_rep\<close> relates a manager to the list of
  its cached frames, most recently used first, and each operation is characterised on it.
\<close>

section \<open>Model\<close>

text \<open>\<^verbatim>\<open>acc_time_\<close> is written and never read; it is left out.\<close>

record Frame =
  dirty :: bool
  pin_count :: "32 word"
  frame_file_desc :: int
  page :: Page

definition clear_page :: "Frame \<Rightarrow> Frame" where
  "clear_page f = f\<lparr>page := zero_page\<rparr>"

definition mark_dirty :: "Frame \<Rightarrow> Frame" where
  "mark_dirty f = f\<lparr>dirty := True\<rparr>"

definition can_purge :: "Frame \<Rightarrow> bool" where
  "can_purge f \<longleftrightarrow> pin_count f \<le> 0"

text \<open>A frame as \<^verbatim>\<open>new Frame[n]\<close> leaves it.\<close>

definition new_frame :: Frame where
  "new_frame = \<lparr>dirty = False, pin_count = 0, frame_file_desc = - 1, page = zero_page\<rparr>"

record BPFrameId =
  fid_file_desc :: int
  fid_page_num :: PageNum

record BPFrameManager =
  frames :: "(BPFrameId, nat) LruCache"
  allocator :: MemPoolSimple
  frame_at :: "nat \<Rightarrow> Frame"

abbreviation frame_id :: "int \<Rightarrow> PageNum \<Rightarrow> BPFrameId" where
  "frame_id fd p \<equiv> \<lparr>fid_file_desc = fd, fid_page_num = p\<rparr>"

definition fm_new :: BPFrameManager where
  "fm_new = \<lparr>frames = lru_empty, allocator = mp_new 0, frame_at = (\<lambda>_. new_frame)\<rparr>"

definition DEFAULT_ITEM_NUM_PER_POOL :: int where "DEFAULT_ITEM_NUM_PER_POOL = 128"

definition fm_init :: "int \<Rightarrow> BPFrameManager \<Rightarrow> RC \<times> BPFrameManager" where
  "fm_init pool_num fm =
     (case mp_init False pool_num DEFAULT_ITEM_NUM_PER_POOL (allocator fm) of (ret, al) \<Rightarrow>
        (if ret = 0 then SUCCESS else GENERIC_ERROR, fm\<lparr>allocator := al\<rparr>))"

definition fm_cleanup :: "BPFrameManager \<Rightarrow> RC \<times> BPFrameManager" where
  "fm_cleanup fm =
     (if lru_count (frames fm) > 0 then (GENERIC_ERROR, fm)
      else (SUCCESS, fm\<lparr>frames := lru_destroy (frames fm)\<rparr>))"

definition begin_purge :: "BPFrameManager \<Rightarrow> nat option option" where
  "begin_purge fm =
     lru_foreach_reverse
       (\<lambda>found (frame_id :: BPFrameId) frame.
          if can_purge (frame_at fm frame) then (False, Some frame) else (True, found))
       (frames fm) None"

definition fm_get :: "int \<Rightarrow> PageNum \<Rightarrow> BPFrameManager \<Rightarrow> (nat option \<times> BPFrameManager) option" where
  "fm_get fd p fm = do {
     (frame, l) \<leftarrow> lru_get (frame_id fd p) (frames fm);
     Some (frame, fm\<lparr>frames := l\<rparr>)
   }"

definition fm_alloc :: "int \<Rightarrow> PageNum \<Rightarrow> BPFrameManager \<Rightarrow> (nat option \<times> BPFrameManager) option" where
  "fm_alloc fd p fm = do {
     (found, l) \<leftarrow> lru_get (frame_id fd p) (frames fm);
     fm \<leftarrow> Some (fm\<lparr>frames := l\<rparr>);
     if found \<noteq> None then Some (None, fm)
     else case mp_alloc (allocator fm) of
       (None, al) \<Rightarrow> Some (None, fm\<lparr>allocator := al\<rparr>)
     | (Some a, al) \<Rightarrow> do {
         l \<leftarrow> lru_put (frame_id fd p) a (frames fm);
         Some (Some a, fm\<lparr>allocator := al, frames := l\<rparr>)
       }
   }"

definition fm_free :: "int \<Rightarrow> PageNum \<Rightarrow> nat \<Rightarrow> BPFrameManager \<Rightarrow> (RC \<times> BPFrameManager) option" where
  "fm_free fd p frame fm = do {
     (found, l) \<leftarrow> lru_get (frame_id fd p) (frames fm);
     fm \<leftarrow> Some (fm\<lparr>frames := l\<rparr>);
     if found \<noteq> Some frame then Some (GENERIC_ERROR, fm)
     else do {
       l \<leftarrow> lru_erase (frame_id fd p) (frames fm);
       Some (SUCCESS, fm\<lparr>frames := l, allocator := mp_free frame (allocator fm)\<rparr>)
     }
   }"

definition find_list :: "int \<Rightarrow> BPFrameManager \<Rightarrow> nat list option" where
  "find_list fd fm =
     lru_foreach
       (\<lambda>found frame_id frame.
          (True, if fd = fid_file_desc frame_id then found @ [frame] else found))
       (frames fm) []"

section \<open>The cached frames\<close>

type_synonym entries = "(BPFrameId \<times> nat) list"

definition fm_rep :: "BPFrameManager \<Rightarrow> entries \<Rightarrow> bool" where
  "fm_rep fm es \<longleftrightarrow> lru_rep (frames fm) es \<and> mp_ok (allocator fm) (snd ` set es) \<and>
     \<not> mp_dynamic (allocator fm) \<and> distinct (map snd es)"

lemma fm_rep_distinct: "fm_rep fm es \<Longrightarrow> distinct (map fst es)"
  unfolding fm_rep_def using lru_cache.rep_distinct by blast

lemma map_of_unique: "distinct (map fst es) \<Longrightarrow> (k, v) \<in> set es \<longleftrightarrow> map_of es k = Some v"
  by (metis map_of_is_SomeI map_of_SomeD)

lemma set_drop_key: "set (drop_key k es) = {e \<in> set es. fst e \<noteq> k}"
  by (auto simp: drop_key_def)

lemma set_touch_entries [simp]:
  assumes "distinct (map fst es)"
  shows "set (touch_entries k es) = set es"
proof (cases "map_of es k")
  case (Some v)
  then have "e = (k, v)" if "e \<in> set es" "fst e = k" for e
    using that map_of_unique [OF assms, of k "snd e"] by (cases e) simp
  with Some show ?thesis
    by (auto simp: touch_entries_def set_drop_key dest: map_of_SomeD)
qed (simp add: touch_entries_def)

lemma distinct_touch_entries:
  "distinct (map fst es) \<Longrightarrow> distinct (map fst (touch_entries k es))"
  by (auto simp: touch_entries_def set_drop_key distinct_drop_key split: option.splits)

lemma distinct_snd_set:
  "distinct (map snd es) \<Longrightarrow> distinct (map fst es') \<Longrightarrow> set es' \<subseteq> set es \<Longrightarrow> distinct (map snd es')"
  by (auto simp: distinct_map inj_on_subset)

lemma length_touch_entries: "distinct (map fst es) \<Longrightarrow> length (touch_entries k es) = length es"
  using distinct_card [of "touch_entries k es"] distinct_card [of es] distinct_touch_entries [of es k]
  by (simp add: distinct_map)

lemma fm_get_rep:
  assumes "fm_rep fm es"
  shows "\<exists>l. fm_get fd p fm = Some (map_of es (frame_id fd p), fm\<lparr>frames := l\<rparr>) \<and>
    fm_rep (fm\<lparr>frames := l\<rparr>) (touch_entries (frame_id fd p) es)"
proof -
  have d: "distinct (map fst es)" by (rule fm_rep_distinct [OF assms])
  obtain l where "lru_get (frame_id fd p) (frames fm) = Some (map_of es (frame_id fd p), l)"
      "lru_rep l (touch_entries (frame_id fd p) es)"
    using lru_cache.rep_get [of "frames fm" es "frame_id fd p"] assms by (auto simp: fm_rep_def)
  moreover have "distinct (map snd (touch_entries (frame_id fd p) es))"
    using distinct_snd_set [OF _ distinct_touch_entries [OF d], of es] assms
    by (simp add: fm_rep_def set_touch_entries [OF d])
  ultimately show ?thesis
    using assms d by (intro exI [of _ l]) (simp add: fm_get_def fm_rep_def)
qed

lemma fm_alloc_rep:
  assumes "fm_rep fm es"
  obtains (cached) a l where "map_of es (frame_id fd p) = Some a"
      "fm_alloc fd p fm = Some (None, fm\<lparr>frames := l\<rparr>)"
      "fm_rep (fm\<lparr>frames := l\<rparr>) (touch_entries (frame_id fd p) es)"
    | (full) l where "map_of es (frame_id fd p) = None" "mp_limit (allocator fm) = length es"
      "fm_alloc fd p fm = Some (None, fm\<lparr>frames := l\<rparr>)" "fm_rep (fm\<lparr>frames := l\<rparr>) es"
    | (fresh) a l al where "map_of es (frame_id fd p) = None" "a \<notin> snd ` set es"
      "fm_alloc fd p fm = Some (Some a, fm\<lparr>allocator := al, frames := l\<rparr>)"
      "fm_rep (fm\<lparr>allocator := al, frames := l\<rparr>) ((frame_id fd p, a) # es)"
      "mp_limit al = mp_limit (allocator fm)"
proof -
  let ?k = "frame_id fd p"
  have d: "distinct (map fst es)" and lr: "lru_rep (frames fm) es"
    and mp: "mp_ok (allocator fm) (snd ` set es)" "\<not> mp_dynamic (allocator fm)" and ds: "distinct (map snd es)"
    using assms fm_rep_distinct [OF assms] by (simp_all add: fm_rep_def)
  obtain l where l: "lru_get ?k (frames fm) = Some (map_of es ?k, l)" "lru_rep l (touch_entries ?k es)"
    using lru_cache.rep_get [OF lr] by blast
  have rep1: "fm_rep (fm\<lparr>frames := l\<rparr>) (touch_entries ?k es)"
    using fm_get_rep [OF assms, of fd p] l(1) by (auto simp: fm_get_def)
  show thesis
  proof (cases "map_of es ?k")
    case (Some a)
    then show thesis using cached [of a l] l rep1 by (simp add: fm_alloc_def)
  next
    case None
    then have t: "touch_entries ?k es = es" by (simp add: touch_entries_def)
    obtain r al where al: "mp_alloc (allocator fm) = (r, al)" by fastforce
    show thesis
    proof (cases r)
      case rn: None
      then have "al = allocator fm" "card (snd ` set es) = mp_limit (allocator fm)"
        using simple_pool.alloc_None [OF mp(1)] al by auto
      moreover have "card (snd ` set es) = length es" using ds distinct_card by fastforce
      ultimately show thesis
        using full [of l] None l rep1 t rn al by (simp add: fm_alloc_def)
    next
      case (Some a)
      then have a: "a \<notin> snd ` set es" "mp_ok al (insert a (snd ` set es))"
        using simple_pool.alloc_Some [OF mp(1)] al by auto
      have fx: "mp_size al = mp_size (allocator fm)" "\<not> mp_dynamic al"
        using mp_alloc_fixed [OF mp al] by auto
      obtain l2 where l2: "lru_put ?k a l = Some l2" "lru_rep l2 ((?k, a) # drop_key ?k es)"
        using lru_cache.rep_put [OF l(2), of ?k a] t by auto
      have "?k \<notin> fst ` set es" using None by (simp add: map_of_eq_None_iff)
      then have "drop_key ?k es = es" by (rule drop_key_id)
      then show thesis
        using fresh [of a l2 al] None l l2 a fx al Some ds
        by (simp add: fm_alloc_def fm_rep_def mp_limit_def)
    qed
  qed
qed

lemma fm_free_rep:
  assumes "fm_rep fm es" "map_of es (frame_id fd p) = Some a"
  shows "\<exists>l. fm_free fd p a fm =
      Some (SUCCESS, fm\<lparr>frames := l, allocator := mp_free a (allocator fm)\<rparr>) \<and>
    fm_rep (fm\<lparr>frames := l, allocator := mp_free a (allocator fm)\<rparr>) (drop_key (frame_id fd p) es)"
proof -
  let ?k = "frame_id fd p"
  have d: "distinct (map fst es)" and lr: "lru_rep (frames fm) es"
    and mp: "mp_ok (allocator fm) (snd ` set es)" "\<not> mp_dynamic (allocator fm)" and ds: "distinct (map snd es)"
    using assms fm_rep_distinct [OF assms(1)] by (simp_all add: fm_rep_def)
  have ka: "(?k, a) \<in> set es" using assms(2) by (rule map_of_SomeD)
  obtain l where l: "lru_get ?k (frames fm) = Some (Some a, l)" "lru_rep l (touch_entries ?k es)"
    using lru_cache.rep_get [OF lr] assms(2) by metis
  obtain l2 where l2: "lru_erase ?k l = Some l2" "lru_rep l2 (drop_key ?k (touch_entries ?k es))"
    using lru_cache.rep_erase [OF l(2)] by blast
  have te: "drop_key ?k (touch_entries ?k es) = drop_key ?k es"
    using assms(2) by (simp add: touch_entries_def drop_key_def)
  have "snd ` set (drop_key ?k es) = snd ` set es - {a}"
  proof -
    have u: "e = (?k, a)" if "e \<in> set es" "snd e = a" for e
      using that ka ds by (auto simp: distinct_map inj_on_def)
    have v: "snd e = a" if "e \<in> set es" "fst e = ?k" for e
      using that map_of_unique [OF d, of ?k "snd e"] assms(2) by (metis option.inject prod.collapse)
    show ?thesis
    proof (intro equalityI subsetI)
      fix b assume "b \<in> snd ` set (drop_key ?k es)"
      then show "b \<in> snd ` set es - {a}" using u by (auto simp: set_drop_key)
    next
      fix b assume "b \<in> snd ` set es - {a}"
      then show "b \<in> snd ` set (drop_key ?k es)" using v by (auto simp: set_drop_key)
    qed
  qed
  moreover have "mp_ok (mp_free a (allocator fm)) (snd ` set es - {a})"
    using simple_pool.give_back_ok [OF mp(1)] ka by force
  moreover have "\<not> mp_dynamic (mp_free a (allocator fm))" using mp(2) by (simp add: mp_free_def)
  moreover have "distinct (map snd (drop_key ?k es))"
    using distinct_snd_set [OF ds distinct_drop_key [OF d]] by (auto simp: set_drop_key)
  ultimately show ?thesis
    using l l2 te by (intro exI [of _ l2]) (simp add: fm_free_def fm_rep_def)
qed

text \<open>
  \<^verbatim>\<open>begin_purge\<close> picks the least recently used frame that nobody has pinned.
\<close>

lemma walk_find:
  "walk (\<lambda>found k v. if P v then (False, Some v) else (True, found)) es None = List.find P (map snd es)"
  by (induction es rule: list.induct) (auto split: if_splits)

lemma begin_purge_rep:
  assumes "fm_rep fm es"
  shows "begin_purge fm = Some (List.find (\<lambda>a. can_purge (frame_at fm a)) (map snd (rev es)))"
proof -
  have "lru_rep (frames fm) es" using assms by (simp add: fm_rep_def)
  then show ?thesis
    unfolding begin_purge_def by (simp add: lru_foreach_reverse_rep walk_find)
qed

lemma walk_collect:
  "walk (\<lambda>found k v. (True, if P k then found @ [v] else found)) es acc =
     acc @ map snd (filter (\<lambda>e. P (fst e)) es)"
  by (induction es arbitrary: acc rule: list.induct) auto

lemma find_list_rep:
  assumes "fm_rep fm es"
  shows "find_list fd fm = Some (map snd (filter (\<lambda>e. fid_file_desc (fst e) = fd) es))"
proof -
  have "lru_rep (frames fm) es" using assms by (simp add: fm_rep_def)
  then show ?thesis
    unfolding find_list_def by (simp add: lru_foreach_rep walk_collect eq_commute [of fd])
qed

lemma fm_rep_frame_at [simp]: "fm_rep (fm\<lparr>frame_at := f\<rparr>) es = fm_rep fm es"
  by (simp add: fm_rep_def)

lemma fm_init_rep: "0 < n \<Longrightarrow> \<exists>fm. fm_init n fm_new = (SUCCESS, fm) \<and> fm_rep fm [] \<and>
    frame_at fm = (\<lambda>_. new_frame) \<and> mp_limit (allocator fm) = nat (n * 128)"
  using mp_init_ok [of n DEFAULT_ITEM_NUM_PER_POOL False 0]
  by (auto simp: fm_init_def fm_new_def DEFAULT_ITEM_NUM_PER_POOL_def fm_rep_def lru_empty_rep mp_limit_def)

end
