(* ===== verification/Ob_BufferPool.thy ===== *)
theory Ob_BufferPool
  imports Ob_FrameManager Ob_Bitmap
begin

text \<open>
  The buffer pool of \<open>src/src/observer/storage/default/disk_buffer_pool.cpp\<close>: paged files whose
  pages are cached in the frames of one shared frame manager.  The state \<open>BPSys\<close> holds the frame
  manager, the operating system, the live \<^verbatim>\<open>DiskBufferPool\<close> objects and the two tables of the
  \<^verbatim>\<open>BufferPoolManager\<close>.  The result \<open>None\<close> of an operation is undefined behaviour (a dangling
  object, an index outside the header page), a failed \<^verbatim>\<open>assert\<close>, or a loop that does not end.
\<close>

section \<open>State\<close>

record DiskBufferPool =
  bp_file_name :: string
  bp_file_desc :: int
  bp_hdr_frame :: "nat option"
  bp_disposed_pages :: "PageNum set"

record BPSys =
  frame_manager :: BPFrameManager
  os :: Os
  pools :: "nat \<rightharpoonup> DiskBufferPool"
  next_pool :: nat
  buffer_pools :: "string \<rightharpoonup> nat"
  fd_buffer_pools :: "int \<rightharpoonup> nat"

definition BP_HEADER_PAGE :: PageNum where "BP_HEADER_PAGE = 0"
definition MEM_POOL_ITEM_NUM :: int where "MEM_POOL_ITEM_NUM = 128"

abbreviation frame_of :: "BPSys \<Rightarrow> nat \<Rightarrow> Frame" where
  "frame_of s a \<equiv> frame_at (frame_manager s) a"

definition upd_frame :: "nat \<Rightarrow> (Frame \<Rightarrow> Frame) \<Rightarrow> BPSys \<Rightarrow> BPSys" where
  "upd_frame a f s = s\<lparr>frame_manager := (frame_manager s)\<lparr>frame_at :=
     (frame_at (frame_manager s))(a := f (frame_of s a))\<rparr>\<rparr>"

definition upd_data :: "nat \<Rightarrow> (mem \<Rightarrow> mem) \<Rightarrow> BPSys \<Rightarrow> BPSys" where
  "upd_data a g = upd_frame a (\<lambda>f. f\<lparr>page := (page f)\<lparr>data := g (data (page f))\<rparr>\<rparr>)"

section \<open>The file header\<close>

text \<open>\<^verbatim>\<open>BPFileHeader\<close> lies over the data of page 0: two counters and the allocation bitmap.\<close>

definition MAX_PAGE_NUM :: int where
  "MAX_PAGE_NUM = (BP_PAGE_DATA_SIZE - 4 - 4) * 8"

definition hdr_page_count :: "mem \<Rightarrow> int" where "hdr_page_count d = load_int d 0"
definition hdr_allocated_pages :: "mem \<Rightarrow> int" where "hdr_allocated_pages d = load_int d 4"
definition set_page_count :: "int \<Rightarrow> mem \<Rightarrow> mem" where "set_page_count v d = store_int d 0 v"
definition set_allocated_pages :: "int \<Rightarrow> mem \<Rightarrow> mem" where "set_allocated_pages v d = store_int d 4 v"

definition hdr_bitmap :: "mem \<Rightarrow> nat \<Rightarrow> Bitmap" where
  "hdr_bitmap d n = \<lparr>bm_data = at_off d 8, bm_size = n\<rparr>"

definition hdr_bit :: "mem \<Rightarrow> nat \<Rightarrow> bool" where
  "hdr_bit d i \<longleftrightarrow> d (8 + i div 8) AND push_bit (i mod 8) 1 \<noteq> 0"

definition hdr_set_bit :: "nat \<Rightarrow> mem \<Rightarrow> mem" where
  "hdr_set_bit i d = d(8 + i div 8 := d (8 + i div 8) OR push_bit (i mod 8) 1)"

definition hdr_clear_bit :: "nat \<Rightarrow> mem \<Rightarrow> mem" where
  "hdr_clear_bit i d = d(8 + i div 8 := d (8 + i div 8) AND NOT (push_bit (i mod 8) 1))"

text \<open>A page number whose bit lies inside the header page.\<close>

definition in_bitmap :: "PageNum \<Rightarrow> bool" where
  "in_bitmap p \<longleftrightarrow> 0 \<le> p \<and> p < MAX_PAGE_NUM"

definition header_of :: "BPSys \<Rightarrow> DiskBufferPool \<Rightarrow> mem option" where
  "header_of s bp = map_option (\<lambda>h. data (page (frame_of s h))) (bp_hdr_frame bp)"

section \<open>Flushing and loading\<close>

text \<open>
  \<^verbatim>\<open>DiskBufferPool::flush_page\<close>.  The seek is taken to have failed when it returns
  \<^verbatim>\<open>offset - 1\<close>, as the code has it.
\<close>

definition flush_page :: "nat \<Rightarrow> nat \<Rightarrow> BPSys \<Rightarrow> (RC \<times> BPSys) option" where
  "flush_page b frame s = do {
     bp \<leftarrow> pools s b;
     pg \<leftarrow> Some (page (frame_of s frame));
     (pos, w) \<leftarrow> Some (os_lseek (bp_file_desc bp) (page_num pg) (os s));
     if pos = page_num pg * BP_PAGE_SIZE - 1 then Some (IOERR_SEEK, s\<lparr>os := w\<rparr>)
     else do {
       (ret, w) \<leftarrow> Some (os_writen (bp_file_desc bp) pg w);
       if ret \<noteq> 0 then Some (IOERR_WRITE, s\<lparr>os := w\<rparr>)
       else Some (SUCCESS, upd_frame frame (\<lambda>f. f\<lparr>dirty := False\<rparr>) (s\<lparr>os := w\<rparr>))
     }
   }"

text \<open>\<^verbatim>\<open>BufferPoolManager::flush_page\<close>.\<close>

definition bpm_flush_page :: "nat \<Rightarrow> BPSys \<Rightarrow> (RC \<times> BPSys) option" where
  "bpm_flush_page frame s =
     (case fd_buffer_pools s (frame_file_desc (frame_of s frame)) of
        None \<Rightarrow> Some (INTERNAL, s)
      | Some b \<Rightarrow> flush_page b frame s)"

definition load_page :: "nat \<Rightarrow> PageNum \<Rightarrow> nat \<Rightarrow> BPSys \<Rightarrow> (RC \<times> BPSys) option" where
  "load_page b p frame s = do {
     bp \<leftarrow> pools s b;
     (pos, w) \<leftarrow> Some (os_lseek (bp_file_desc bp) p (os s));
     if pos = - 1 then Some (IOERR_SEEK, s\<lparr>os := w\<rparr>)
     else case os_readn (bp_file_desc bp) w of
       (ret, None, w) \<Rightarrow> Some (IOERR_READ, s\<lparr>os := w\<rparr>)
     | (ret, Some pg, w) \<Rightarrow>
         if ret \<noteq> 0 then Some (IOERR_READ, s\<lparr>os := w\<rparr>)
         else Some (SUCCESS, upd_frame frame (\<lambda>f. f\<lparr>page := pg\<rparr>) (s\<lparr>os := w\<rparr>))
   }"

section \<open>Frames\<close>

abbreviation with_fm :: "BPSys \<Rightarrow> BPFrameManager \<Rightarrow> BPSys" where
  "with_fm s fm \<equiv> s\<lparr>frame_manager := fm\<rparr>"

text \<open>
  \<^verbatim>\<open>allocate_frame\<close>: take a free frame, or evict the least recently used unpinned one and try
  again.
\<close>

partial_function (option) allocate_frame ::
    "nat \<Rightarrow> PageNum \<Rightarrow> BPSys \<Rightarrow> (RC \<times> nat option \<times> BPSys) option" where
  "allocate_frame b p s = do {
     bp \<leftarrow> pools s b;
     (frame, fm) \<leftarrow> fm_alloc (bp_file_desc bp) p (frame_manager s);
     let s = with_fm s fm;
     if frame \<noteq> None then Some (SUCCESS, frame, s)
     else do {
       victim \<leftarrow> begin_purge (frame_manager s);
       case victim of
         None \<Rightarrow> Some (NOMEM, None, s)
       | Some v \<Rightarrow> do {
           (rc, s) \<leftarrow> (if dirty (frame_of s v) then bpm_flush_page v s else Some (SUCCESS, s));
           if rc \<noteq> SUCCESS then Some (rc, None, s)
           else do {
             (_, fm) \<leftarrow> fm_free (frame_file_desc (frame_of s v)) (page_num (page (frame_of s v))) v
                          (frame_manager s);
             allocate_frame b p (with_fm s fm)
           }
         }
     }
   }"

definition purge_frame :: "nat \<Rightarrow> PageNum \<Rightarrow> nat \<Rightarrow> BPSys \<Rightarrow> (RC \<times> BPSys) option" where
  "purge_frame b p frame s = do {
     bp \<leftarrow> pools s b;
     if pin_count (frame_of s frame) > 0 then Some (LOCKED_UNLOCK, s)
     else do {
       (rc, s) \<leftarrow> (if dirty (frame_of s frame) then flush_page b frame s else Some (SUCCESS, s));
       if rc \<noteq> SUCCESS then Some (rc, s)
       else do {
         (_, fm) \<leftarrow> fm_free (bp_file_desc bp) p frame (frame_manager s);
         Some (SUCCESS, with_fm s fm)
       }
     }
   }"

definition purge_page :: "nat \<Rightarrow> PageNum \<Rightarrow> BPSys \<Rightarrow> (RC \<times> BPSys) option" where
  "purge_page b p s = do {
     bp \<leftarrow> pools s b;
     (used, fm) \<leftarrow> fm_get (bp_file_desc bp) p (frame_manager s);
     let s = with_fm s fm;
     (case used of None \<Rightarrow> Some (SUCCESS, s) | Some frame \<Rightarrow> purge_frame b p frame s)
   }"

text \<open>The initialisation of a frame that has just been taken, common to three functions.\<close>

definition pin_fresh :: "int \<Rightarrow> Frame \<Rightarrow> Frame" where
  "pin_fresh fd f = f\<lparr>dirty := False, frame_file_desc := fd, pin_count := 1\<rparr>"

section \<open>Pages\<close>

definition get_this_page :: "nat \<Rightarrow> PageNum \<Rightarrow> BPSys \<Rightarrow> (RC \<times> nat option \<times> BPSys) option" where
  "get_this_page b p s = do {
     bp \<leftarrow> pools s b;
     (used, fm) \<leftarrow> fm_get (bp_file_desc bp) p (frame_manager s);
     let s = with_fm s fm;
     (case used of
        Some frame \<Rightarrow>
          Some (SUCCESS, Some frame, upd_frame frame (\<lambda>f. f\<lparr>pin_count := pin_count f + 1\<rparr>) s)
      | None \<Rightarrow> do {
          (rc, alloc, s) \<leftarrow> allocate_frame b p s;
          if rc \<noteq> SUCCESS then Some (rc, None, s)
          else do {
            frame \<leftarrow> alloc;
            let s = upd_frame frame (pin_fresh (bp_file_desc bp)) s;
            (rc, s) \<leftarrow> load_page b p frame s;
            if rc \<noteq> SUCCESS then do {
              (_, s) \<leftarrow> purge_frame b p frame (upd_frame frame (\<lambda>f. f\<lparr>pin_count := 0\<rparr>) s);
              Some (rc, None, s)
            }
            else Some (SUCCESS, Some frame, s)
          }
        })
   }"

text \<open>The search of \<^verbatim>\<open>allocate_page\<close> for a free page below the page count.\<close>

definition free_page :: "mem \<Rightarrow> int" where
  "free_page d = first_from (\<lambda>i. \<not> hdr_bit d i) 0 (nat (hdr_page_count d))"

definition allocate_page :: "nat \<Rightarrow> BPSys \<Rightarrow> (RC \<times> nat option \<times> BPSys) option" where
  "allocate_page b s = do {
     bp \<leftarrow> pools s b;
     h \<leftarrow> bp_hdr_frame bp;
     let d = data (page (frame_of s h));
     if hdr_allocated_pages d < hdr_page_count d \<and> free_page d \<ge> 0 then
       let i = free_page d;
           s = upd_data h (\<lambda>d. hdr_set_bit (nat i)
                 (set_allocated_pages (hdr_allocated_pages d + 1) d)) s in
       get_this_page b i (upd_frame h mark_dirty s)
     else if hdr_page_count d \<ge> MAX_PAGE_NUM then Some (BUFFERPOOL_NOBUF, None, s)
     else do {
       let p = hdr_page_count d;
       (rc, alloc, s) \<leftarrow> allocate_frame b p s;
       if rc \<noteq> SUCCESS then Some (rc, None, s)
       else do {
         frame \<leftarrow> alloc;
         let s = upd_data h (\<lambda>d. set_allocated_pages (hdr_allocated_pages d + 1) d) s;
         let s = upd_data h (\<lambda>d. set_page_count (hdr_page_count d + 1) d) s;
         s \<leftarrow> (if 0 \<le> p then Some (upd_data h (hdr_set_bit (nat p)) s) else None);
         let s = upd_frame h mark_dirty s;
         let s = upd_frame frame (\<lambda>f. clear_page (pin_fresh (bp_file_desc bp) f)) s;
         let n = hdr_page_count (data (page (frame_of s h)));
         let s = upd_frame frame (\<lambda>f. f\<lparr>page := (page f)\<lparr>page_num := n - 1\<rparr>\<rparr>) s;
         (_, s) \<leftarrow> flush_page b frame s;
         Some (SUCCESS, Some frame, s)
       }
     }
   }"

definition dispose_page :: "nat \<Rightarrow> PageNum \<Rightarrow> BPSys \<Rightarrow> (RC \<times> BPSys) option" where
  "dispose_page b p s = do {
     (rc, s) \<leftarrow> purge_page b p s;
     bp \<leftarrow> pools s b;
     if rc \<noteq> SUCCESS then
       Some (rc, s\<lparr>pools := (pools s)(b \<mapsto> bp\<lparr>bp_disposed_pages := insert p (bp_disposed_pages bp)\<rparr>)\<rparr>)
     else do {
       h \<leftarrow> bp_hdr_frame bp;
       let s = upd_frame h mark_dirty s;
       let s = upd_data h (\<lambda>d. set_allocated_pages (hdr_allocated_pages d - 1) d) s;
       if in_bitmap p then Some (SUCCESS, upd_data h (hdr_clear_bit (nat p)) s) else None
     }
   }"

definition unpin_page :: "nat \<Rightarrow> nat \<Rightarrow> BPSys \<Rightarrow> (RC \<times> BPSys) option" where
  "unpin_page b frame s = do {
     bp \<leftarrow> pools s b;
     if \<not> pin_count (frame_of s frame) \<ge> 1 then None
     else do {
       let s = upd_frame frame (\<lambda>f. f\<lparr>pin_count := pin_count f - 1\<rparr>) s;
       let p = page_num (page (frame_of s frame));
       if pin_count (frame_of s frame) = 0 \<and> p \<in> bp_disposed_pages bp then do {
         (_, s) \<leftarrow> dispose_page b p s;
         bp \<leftarrow> pools s b;
         Some (SUCCESS, s\<lparr>pools := (pools s)(b \<mapsto>
           bp\<lparr>bp_disposed_pages := bp_disposed_pages bp - {p}\<rparr>)\<rparr>)
       }
       else Some (SUCCESS, s)
     }
   }"

definition recover_page :: "nat \<Rightarrow> PageNum \<Rightarrow> BPSys \<Rightarrow> (RC \<times> BPSys) option" where
  "recover_page b p s = do {
     bp \<leftarrow> pools s b;
     h \<leftarrow> bp_hdr_frame bp;
     if \<not> in_bitmap p then None
     else if \<not> hdr_bit (data (page (frame_of s h))) (nat p) then
       let s = upd_data h (hdr_set_bit (nat p)) s;
           s = upd_data h (\<lambda>d. set_allocated_pages (hdr_allocated_pages d + 1) d) s;
           s = upd_data h (\<lambda>d. set_page_count (hdr_page_count d + 1) d) s in
       Some (SUCCESS, upd_frame h mark_dirty s)
     else Some (SUCCESS, s)
   }"

definition check_page_num :: "nat \<Rightarrow> PageNum \<Rightarrow> BPSys \<Rightarrow> RC option" where
  "check_page_num b p s = do {
     bp \<leftarrow> pools s b;
     d \<leftarrow> header_of s bp;
     if p \<ge> hdr_page_count d then Some BUFFERPOOL_INVALID_PAGE_NUM
     else if \<not> in_bitmap p then None
     else if \<not> hdr_bit d (nat p) then Some BUFFERPOOL_INVALID_PAGE_NUM
     else Some SUCCESS
   }"

text \<open>It returns the number of allocated pages.\<close>

definition get_page_count :: "nat \<Rightarrow> BPSys \<Rightarrow> (RC \<times> int) option" where
  "get_page_count b s = do {
     bp \<leftarrow> pools s b;
     d \<leftarrow> header_of s bp;
     Some (SUCCESS, hdr_allocated_pages d)
   }"

section \<open>All pages of a file\<close>

fun purge_all_loop :: "nat \<Rightarrow> nat list \<Rightarrow> BPSys \<Rightarrow> (RC \<times> BPSys) option" where
  "purge_all_loop b [] s = Some (SUCCESS, s)"
| "purge_all_loop b (frame # used) s =
     (if pin_count (frame_of s frame) > 0 then purge_all_loop b used s
      else do {
        bp \<leftarrow> pools s b;
        (rc, s) \<leftarrow> (if dirty (frame_of s frame) then flush_page b frame s else Some (SUCCESS, s));
        if rc \<noteq> SUCCESS then Some (rc, s)
        else do {
          (_, fm) \<leftarrow> fm_free (bp_file_desc bp) (page_num (page (frame_of s frame))) frame
                       (frame_manager s);
          purge_all_loop b used (with_fm s fm)
        }
      })"

definition purge_all_pages :: "nat \<Rightarrow> BPSys \<Rightarrow> (RC \<times> BPSys) option" where
  "purge_all_pages b s = do {
     bp \<leftarrow> pools s b;
     used \<leftarrow> find_list (bp_file_desc bp) (frame_manager s);
     purge_all_loop b used s
   }"

fun flush_all_loop :: "nat \<Rightarrow> nat list \<Rightarrow> BPSys \<Rightarrow> (RC \<times> BPSys) option" where
  "flush_all_loop b [] s = Some (SUCCESS, s)"
| "flush_all_loop b (frame # used) s = do {
     (rc, s) \<leftarrow> flush_page b frame s;
     if rc \<noteq> SUCCESS then Some (rc, s) else flush_all_loop b used s
   }"

definition flush_all_pages :: "nat \<Rightarrow> BPSys \<Rightarrow> (RC \<times> BPSys) option" where
  "flush_all_pages b s = do {
     bp \<leftarrow> pools s b;
     used \<leftarrow> find_list (bp_file_desc bp) (frame_manager s);
     flush_all_loop b used s
   }"

text \<open>The pages \<^verbatim>\<open>check_all_pages_unpinned\<close> warns about; it always returns success.\<close>

definition check_all_pages_unpinned :: "nat \<Rightarrow> BPSys \<Rightarrow> (RC \<times> nat list) option" where
  "check_all_pages_unpinned b s = do {
     bp \<leftarrow> pools s b;
     used \<leftarrow> find_list (bp_file_desc bp) (frame_manager s);
     Some (SUCCESS, filter (\<lambda>a. let f = frame_of s a in
       if page_num (page f) = BP_HEADER_PAGE then pin_count f > 1 else pin_count f > 0) used)
   }"

section \<open>Opening and closing\<close>

definition open_file :: "nat \<Rightarrow> string \<Rightarrow> BPSys \<Rightarrow> (RC \<times> BPSys) option" where
  "open_file b name s = (case os_open name (os s) of (fd, w) \<Rightarrow>
     if fd < 0 then Some (IOERR_ACCESS, s\<lparr>os := w\<rparr>)
     else do {
       bp \<leftarrow> pools s b;
       let bp = bp\<lparr>bp_file_name := name, bp_file_desc := fd\<rparr>;
       let s = s\<lparr>os := w, pools := (pools s)(b \<mapsto> bp)\<rparr>;
       (rc, hdr, s) \<leftarrow> allocate_frame b BP_HEADER_PAGE s;
       if rc \<noteq> SUCCESS then
         Some (rc, s\<lparr>os := snd (os_close fd (os s)), pools := (pools s)(b \<mapsto> bp\<lparr>bp_file_desc := - 1\<rparr>)\<rparr>)
       else do {
         h \<leftarrow> hdr;
         let bp = bp\<lparr>bp_hdr_frame := Some h\<rparr>;
         let s = upd_frame h (pin_fresh fd) (s\<lparr>pools := (pools s)(b \<mapsto> bp)\<rparr>);
         (rc, s) \<leftarrow> load_page b BP_HEADER_PAGE h s;
         if rc \<noteq> SUCCESS then do {
           (_, s) \<leftarrow> purge_frame b BP_HEADER_PAGE h (upd_frame h (\<lambda>f. f\<lparr>pin_count := 0\<rparr>) s);
           Some (rc, s\<lparr>os := snd (os_close fd (os s)), pools := (pools s)(b \<mapsto> bp\<lparr>bp_file_desc := - 1\<rparr>)\<rparr>)
         }
         else Some (SUCCESS, s)
       }
     })"

fun free_all_loop :: "int \<Rightarrow> nat list \<Rightarrow> BPSys \<Rightarrow> BPSys option" where
  "free_all_loop fd [] s = Some s"
| "free_all_loop fd (frame # used) s = do {
     (_, fm) \<leftarrow> fm_free fd (page_num (page (frame_of s frame))) frame (frame_manager s);
     free_all_loop fd used (with_fm s fm)
   }"

text \<open>
  \<^verbatim>\<open>DiskBufferPool::close_file\<close> up to its last call, for an open file: all frames of the file are
  given back, dirty ones too, and the descriptor is closed.
\<close>

definition release_file :: "nat \<Rightarrow> BPSys \<Rightarrow> (RC \<times> BPSys) option" where
  "release_file b s = do {
     bp \<leftarrow> pools s b;
     h \<leftarrow> bp_hdr_frame bp;
     let s = upd_frame h (\<lambda>f. f\<lparr>pin_count := pin_count f - 1\<rparr>) s;
     used \<leftarrow> find_list (bp_file_desc bp) (frame_manager s);
     s \<leftarrow> free_all_loop (bp_file_desc bp) used s;
     let bp = bp\<lparr>bp_disposed_pages := {}\<rparr>;
     (case os_close (bp_file_desc bp) (os s) of (ret, w) \<Rightarrow>
        if ret < 0 then Some (IOERR_CLOSE, s\<lparr>os := w, pools := (pools s)(b \<mapsto> bp)\<rparr>)
        else Some (SUCCESS, s\<lparr>os := w, pools := (pools s)(b \<mapsto> bp\<lparr>bp_file_desc := - 1\<rparr>)\<rparr>))
   }"

text \<open>
  \<^verbatim>\<open>DiskBufferPool::close_file\<close> and \<^verbatim>\<open>BufferPoolManager::close_file\<close> call each other: the first
  ends with a call of the second, the second deletes the pool, whose destructor closes the file.
\<close>

datatype close_target = ClosePool nat | CloseName string

partial_function (option) close_file :: "close_target \<Rightarrow> BPSys \<Rightarrow> (RC \<times> BPSys) option" where
  "close_file t s =
     (case t of
        ClosePool b \<Rightarrow> do {
          bp \<leftarrow> pools s b;
          if bp_file_desc bp < 0 then Some (SUCCESS, s)
          else do {
            (rc, s) \<leftarrow> release_file b s;
            if rc \<noteq> SUCCESS then Some (rc, s)
            else do {
              (_, s) \<leftarrow> close_file (CloseName (bp_file_name bp)) s;
              Some (SUCCESS, s)
            }
          }
        }
      | CloseName name \<Rightarrow>
          (case buffer_pools s name of
             None \<Rightarrow> Some (INTERNAL, s)
           | Some b \<Rightarrow> do {
               bp \<leftarrow> pools s b;
               let s = s\<lparr>fd_buffer_pools := (fd_buffer_pools s)(bp_file_desc bp := None),
                         buffer_pools := (buffer_pools s)(name := None)\<rparr>;
               (_, s) \<leftarrow> close_file (ClosePool b) s;
               Some (SUCCESS, s\<lparr>pools := (pools s)(b := None)\<rparr>)
             }))"

definition bpm_new :: "Os \<Rightarrow> BPSys" where
  "bpm_new w = \<lparr>frame_manager = snd (fm_init MEM_POOL_ITEM_NUM fm_new), os = w, pools = Map.empty,
     next_pool = 0, buffer_pools = Map.empty, fd_buffer_pools = Map.empty\<rparr>"

text \<open>The first page of a new file: one page, the header itself, allocated.\<close>

definition header_page :: Page where
  "header_page = zero_page\<lparr>data :=
     (let d = set_page_count 1 (set_allocated_pages 1 (data zero_page)) in d(8 := d 8 OR 1))\<rparr>"

definition bpm_create_file :: "string \<Rightarrow> BPSys \<Rightarrow> RC \<times> BPSys" where
  "bpm_create_file name s =
     (case os_create name (os s) of (fd, w) \<Rightarrow>
        if fd < 0 then (SCHEMA_DB_EXIST, s\<lparr>os := w\<rparr>)
        else case os_open name (snd (os_close fd w)) of (fd, w) \<Rightarrow>
          if fd < 0 then (IOERR_ACCESS, s\<lparr>os := w\<rparr>)
          else case os_lseek fd 0 w of (pos, w) \<Rightarrow>
            if pos = - 1 then (IOERR_SEEK, s\<lparr>os := snd (os_close fd w)\<rparr>)
            else case os_writen fd header_page w of (ret, w) \<Rightarrow>
              if ret \<noteq> 0 then (IOERR_WRITE, s\<lparr>os := snd (os_close fd w)\<rparr>)
              else (SUCCESS, s\<lparr>os := snd (os_close fd w)\<rparr>))"

definition new_pool :: DiskBufferPool where
  "new_pool = \<lparr>bp_file_name = [], bp_file_desc = - 1, bp_hdr_frame = None, bp_disposed_pages = {}\<rparr>"

definition insert_new :: "'k \<Rightarrow> 'v \<Rightarrow> ('k \<rightharpoonup> 'v) \<Rightarrow> ('k \<rightharpoonup> 'v)" where
  "insert_new k v m = (if m k = None then m(k \<mapsto> v) else m)"

definition bpm_open_file :: "string \<Rightarrow> BPSys \<Rightarrow> (RC \<times> nat option \<times> BPSys) option" where
  "bpm_open_file name s =
     (if buffer_pools s name \<noteq> None then Some (BUFFERPOOL_OPEN, None, s)
      else do {
        let b = next_pool s;
        let s = s\<lparr>pools := (pools s)(b \<mapsto> new_pool), next_pool := Suc b\<rparr>;
        (rc, s) \<leftarrow> open_file b name s;
        if rc \<noteq> SUCCESS then do {
          (_, s) \<leftarrow> close_file (ClosePool b) s;
          Some (rc, None, s\<lparr>pools := (pools s)(b := None)\<rparr>)
        }
        else do {
          bp \<leftarrow> pools s b;
          Some (SUCCESS, Some b,
            s\<lparr>buffer_pools := insert_new name b (buffer_pools s),
              fd_buffer_pools := insert_new (bp_file_desc bp) b (fd_buffer_pools s)\<rparr>)
        }
      })"

section \<open>The page iterator\<close>

text \<open>The iterator points into the live header page; the size is read once.\<close>

record BufferPoolIterator =
  bpi_pool :: nat
  bpi_page_count :: nat
  bpi_current_page_num :: PageNum

definition bpi_init :: "nat \<Rightarrow> PageNum \<Rightarrow> BPSys \<Rightarrow> BufferPoolIterator option" where
  "bpi_init b start_page s = do {
     bp \<leftarrow> pools s b;
     d \<leftarrow> header_of s bp;
     Some \<lparr>bpi_pool = b, bpi_page_count = nat (hdr_page_count d),
           bpi_current_page_num = (if start_page \<le> 0 then 0 else start_page)\<rparr>
   }"

definition bpi_search :: "BufferPoolIterator \<Rightarrow> BPSys \<Rightarrow> int option" where
  "bpi_search it s = do {
     bp \<leftarrow> pools s (bpi_pool it);
     d \<leftarrow> header_of s bp;
     Some (next_setted_bit (hdr_bitmap d (bpi_page_count it)) (nat (bpi_current_page_num it + 1)))
   }"

definition bpi_has_next :: "BufferPoolIterator \<Rightarrow> BPSys \<Rightarrow> bool option" where
  "bpi_has_next it s = map_option (\<lambda>r. r \<noteq> - 1) (bpi_search it s)"

definition bpi_next :: "BufferPoolIterator \<Rightarrow> BPSys \<Rightarrow> (PageNum \<times> BufferPoolIterator) option" where
  "bpi_next it s = do {
     next_page \<leftarrow> bpi_search it s;
     Some (next_page, if next_page \<noteq> - 1 then it\<lparr>bpi_current_page_num := next_page\<rparr> else it)
   }"

definition bpi_reset :: "BufferPoolIterator \<Rightarrow> RC \<times> BufferPoolIterator" where
  "bpi_reset it = (SUCCESS, it\<lparr>bpi_current_page_num := 0\<rparr>)"

end
