(* ===== verification/Ob_BufferPoolProps.thy ===== *)
theory Ob_BufferPoolProps
  imports Ob_BufferPool
begin

text \<open>
  Correctness of the buffer pool.  The contents a client sees (\<open>page_view\<close>) are the cached page,
  or the stored one when the page is not cached; \<open>bp_inv\<close> is the invariant of the pool, and
  \<open>unseen\<close> the relation between two states that no client can tell apart: same contents, same
  pools, and every pinned frame where it was.  The main lemmas show that taking frames, which
  flushes and evicts other pages, is \<open>unseen\<close> and returns; the properties follow.
\<close>

section \<open>Stored pages\<close>

definition os_inv :: "Os \<Rightarrow> bool" where
  "os_inv w \<longleftrightarrow> os_seek_faults w = [] \<and>
     (\<forall>fd name pos. os_fds w fd = Some (name, pos) \<longrightarrow> os_files w name \<noteq> None) \<and>
     (\<forall>fd fd' name pos pos'. os_fds w fd = Some (name, pos) \<longrightarrow> os_fds w fd' = Some (name, pos') \<longrightarrow>
        fd = fd') \<and>
     (\<forall>fd p pg. stored w fd p = Some pg \<longrightarrow> page_num pg = p)"

definition same_fds :: "Os \<Rightarrow> Os \<Rightarrow> bool" where
  "same_fds w w' \<longleftrightarrow> (\<forall>fd. map_option fst (os_fds w' fd) = map_option fst (os_fds w fd))"

lemma same_fds_refl [simp]: "same_fds w w"
  by (simp add: same_fds_def)

lemma same_fds_trans: "same_fds w w' \<Longrightarrow> same_fds w' w'' \<Longrightarrow> same_fds w w''"
  by (simp add: same_fds_def)

lemma same_fds_open: "same_fds w w' \<Longrightarrow> os_fds w fd \<noteq> None \<Longrightarrow> os_fds w' fd \<noteq> None"
  unfolding same_fds_def by (metis map_option_is_None)

lemma stored_nonneg: "stored w fd p = Some pg \<Longrightarrow> 0 \<le> p"
  by (auto simp: stored_def split: option.splits if_splits)

lemma stored_below: "stored w fd p \<noteq> None \<Longrightarrow> 0 \<le> q \<Longrightarrow> q \<le> p \<Longrightarrow> stored w fd q \<noteq> None"
  by (auto simp: stored_def split: option.splits if_splits)

lemma stored_open: "stored w fd p \<noteq> None \<Longrightarrow> os_fds w fd \<noteq> None"
  by (auto simp: stored_def split: option.splits)

lemma os_inv_transfer:
  assumes "os_inv w" "os_files w' = os_files w" "same_fds w w'" "os_seek_faults w' = []"
  shows "os_inv w'" "stored w' = stored w"
proof -
  have fd: "os_fds w' fd = Some (name, pos) \<Longrightarrow> \<exists>pos'. os_fds w fd = Some (name, pos')" for fd name pos
    using assms(3) unfolding same_fds_def
    by (metis (no_types, lifting) fst_conv map_option_eq_Some option.simps(9) prod.collapse)
  show st: "stored w' = stored w"
  proof (intro ext)
    fix fd p
    show "stored w' fd p = stored w fd p"
    proof (cases "os_fds w' fd")
      case None
      then have "os_fds w fd = None" using assms(3) unfolding same_fds_def by (metis map_option_is_None)
      with None show ?thesis by (simp add: stored_def)
    next
      case (Some x)
      then obtain name pos where x: "os_fds w' fd = Some (name, pos)" by (cases x) auto
      with fd obtain pos' where "os_fds w fd = Some (name, pos')" by blast
      with x assms(2) show ?thesis by (simp add: stored_def)
    qed
  qed
  show "os_inv w'"
    using assms(1,2,4) fd st unfolding os_inv_def by (metis (no_types, lifting))
qed

text \<open>A seek that succeeds, followed by a read or a write of one page.\<close>

lemma os_lseek_ok:
  assumes "os_inv w" "os_fds w fd = Some (name, pos)" "0 \<le> p"
  shows "os_lseek fd p w = (p * BP_PAGE_SIZE, w\<lparr>os_fds := (os_fds w)(fd \<mapsto> (name, nat p))\<rparr>)"
  using assms by (simp add: os_lseek_def os_inv_def)

lemma os_seek_read:
  assumes "os_inv w" "os_fds w fd \<noteq> None" "0 \<le> p" "os_lseek fd p w = (pos, w1)"
    and "os_readn fd w1 = (ret, r, w2)"
  shows "pos = p * BP_PAGE_SIZE \<and> os_inv w2 \<and> stored w2 = stored w \<and> same_fds w w2 \<and>
    (ret = 0 \<longleftrightarrow> r \<noteq> None) \<and> (\<forall>pg. r = Some pg \<longrightarrow> stored w fd p = Some pg) \<and>
    (os_io_faults w = [] \<longrightarrow> os_io_faults w2 = [] \<and> r = stored w fd p)"
proof -
  obtain name pos0 ps where fd: "os_fds w fd = Some (name, pos0)" "os_files w name = Some ps"
    using assms(1,2) by (fastforce simp: os_inv_def)
  have w1: "pos = p * BP_PAGE_SIZE" "w1 = w\<lparr>os_fds := (os_fds w)(fd \<mapsto> (name, nat p))\<rparr>"
    using os_lseek_ok [OF assms(1) fd(1) assms(3)] assms(4) by auto
  obtain bad w' where flt: "io_fault w1 = (bad, w')" by fastforce
  note same = io_fault_same [OF flt]
  have *: "os_files w2 = os_files w" "same_fds w w2" "os_seek_faults w2 = []"
      "os_io_faults w2 = os_io_faults w'"
    using assms(1,5) flt same fd w1
    by (auto simp: os_readn_def os_inv_def same_fds_def split: if_splits)
  note tr = os_inv_transfer [OF assms(1) *(1-3)]
  have r: "ret = 0 \<longleftrightarrow> r \<noteq> None" "\<And>pg. r = Some pg \<Longrightarrow> stored w fd p = Some pg"
      "\<not> bad \<Longrightarrow> r = stored w fd p"
    using assms(3,5) flt same fd w1 by (auto simp: os_readn_def stored_def split: if_splits)
  have nf: "os_io_faults w2 = []" "\<not> bad" if "os_io_faults w = []"
    using same(5) that w1(2) *(4) by auto
  show ?thesis
    by (intro conjI allI impI) (use w1(1) tr r nf *(2) in blast)+
qed

lemma os_seek_write:
  assumes "os_inv w" "os_fds w fd \<noteq> None" "0 \<le> p" "page_num pg = p"
    and "p = 0 \<or> stored w fd (p - 1) \<noteq> None" "os_lseek fd p w = (pos, w1)"
    and "os_writen fd pg w1 = (ret, w2)"
  shows "pos = p * BP_PAGE_SIZE \<and> os_inv w2 \<and> same_fds w w2 \<and>
    (ret \<noteq> 0 \<longrightarrow> stored w2 = stored w) \<and>
    (ret = 0 \<longrightarrow> (\<forall>fd' q. stored w2 fd' q = (if fd' = fd \<and> q = p then Some pg else stored w fd' q))) \<and>
    (os_io_faults w = [] \<longrightarrow> os_io_faults w2 = [] \<and> ret = 0)"
proof -
  obtain name pos0 ps where fd: "os_fds w fd = Some (name, pos0)" "os_files w name = Some ps"
    using assms(1,2) by (fastforce simp: os_inv_def)
  have w1: "pos = p * BP_PAGE_SIZE" "w1 = w\<lparr>os_fds := (os_fds w)(fd \<mapsto> (name, nat p))\<rparr>"
    using os_lseek_ok [OF assms(1) fd(1) assms(3)] assms(6) by auto
  obtain bad w' where flt: "io_fault w1 = (bad, w')" by fastforce
  note same = io_fault_same [OF flt]
  have len: "nat p \<le> length ps" using assms(5) fd by (auto simp: stored_def split: if_splits)
  show ?thesis
  proof (cases bad)
    case True
    then have *: "ret \<noteq> 0" "os_files w2 = os_files w" "same_fds w w2" "os_seek_faults w2 = []"
      using assms(1,7) flt same fd w1
      by (auto simp: os_writen_def os_inv_def same_fds_def split: if_splits)
    from os_inv_transfer [OF assms(1) *(2-4)] show ?thesis
      using w1 * same(5) True by auto
  next
    case False
    have w2: "ret = 0" "os_files w2 = (os_files w)(name \<mapsto> put_page (nat p) pg ps)"
        "os_fds w2 = (os_fds w)(fd \<mapsto> (name, Suc (nat p)))" "os_seek_faults w2 = []"
        "os_io_faults w2 = os_io_faults w'"
      using assms(1,7) flt same fd w1 False by (auto simp: os_writen_def os_inv_def)
    have others: "os_fds w fd' = Some (name', q) \<Longrightarrow> fd' \<noteq> fd \<Longrightarrow> name' \<noteq> name" for fd' name' q
      using assms(1) fd(1) unfolding os_inv_def by metis
    have pl: "length (put_page (nat p) pg ps) = max (length ps) (Suc (nat p))"
        "\<And>j. j < max (length ps) (Suc (nat p)) \<Longrightarrow> put_page (nat p) pg ps ! j =
           (if j = nat p then pg else ps ! j)"
      using put_page_nth [of _ "nat p" pg ps] put_page_length [of "nat p" pg ps] len by auto
    have st: "stored w2 fd' q = (if fd' = fd \<and> q = p then Some pg else stored w fd' q)" for fd' q
    proof (cases "fd' = fd")
      case True
      then show ?thesis
        using w2 fd assms(3) pl len by (auto simp: stored_def nat_eq_iff)
    next
      case False
      then show ?thesis
        using w2 others [of fd'] by (auto simp: stored_def split: option.splits)
    qed
    have "os_inv w2"
      using assms(1,4) w2 fd st unfolding os_inv_def
      by (auto split: if_splits)
    moreover have "same_fds w w2" using w2 fd by (auto simp: same_fds_def)
    ultimately show ?thesis using w1 w2 st same(5) by auto
  qed
qed

section \<open>The contents clients see\<close>

text \<open>A lookup without the recency update.\<close>

definition cached :: "BPSys \<Rightarrow> int \<Rightarrow> PageNum \<Rightarrow> nat option" where
  "cached s fd p = (let c = frames (frame_manager s) in
     Option.bind (searcher_find c (frame_id fd p)) (\<lambda>a. map_option node_value (heap c a)))"

definition page_view :: "BPSys \<Rightarrow> int \<Rightarrow> PageNum \<Rightarrow> Page option" where
  "page_view s fd p = (case cached s fd p of
      Some a \<Rightarrow> Some (page (frame_of s a))
    | None \<Rightarrow> stored (os s) fd p)"

lemma cached_rep:
  assumes "fm_rep (frame_manager s) es"
  shows "cached s fd p = map_of es (frame_id fd p)"
proof -
  have lr: "lru_rep (frames (frame_manager s)) es" using assms by (simp add: fm_rep_def)
  show ?thesis
    using lr
  proof (cases rule: lru_rep_cases [where k = "frame_id fd p"])
    case miss
    then show ?thesis by (simp add: cached_def Let_def)
  next
    case (hit v exs eys xs a ys)
    then show ?thesis by (auto simp: cached_def Let_def kv_Some_iff)
  qed
qed

text \<open>
  The invariant, for the cached entries \<open>es\<close>: every cached frame carries its own key, belongs to an
  open, registered pool and has a stored version, which is equal to it unless the frame is dirty.
\<close>

definition owner :: "BPSys \<Rightarrow> int \<Rightarrow> bool" where
  "owner s fd \<longleftrightarrow> (\<exists>b bp. fd_buffer_pools s fd = Some b \<and> pools s b = Some bp \<and> bp_file_desc bp = fd)"

definition entry_ok :: "BPSys \<Rightarrow> BPFrameId \<Rightarrow> nat \<Rightarrow> bool" where
  "entry_ok s k a \<longleftrightarrow>
     frame_file_desc (frame_of s a) = fid_file_desc k \<and>
     page_num (page (frame_of s a)) = fid_page_num k \<and>
     owner s (fid_file_desc k) \<and>
     stored (os s) (fid_file_desc k) (fid_page_num k) \<noteq> None \<and>
     (\<not> dirty (frame_of s a) \<longrightarrow>
        stored (os s) (fid_file_desc k) (fid_page_num k) = Some (page (frame_of s a)))"

definition entries_inv :: "BPSys \<Rightarrow> entries \<Rightarrow> bool" where
  "entries_inv s es \<longleftrightarrow> fm_rep (frame_manager s) es \<and> os_inv (os s) \<and> (\<forall>(k, a) \<in> set es. entry_ok s k a)"

definition bp_inv :: "BPSys \<Rightarrow> bool" where
  "bp_inv s \<longleftrightarrow> (\<exists>es. entries_inv s es)"

text \<open>
  Two states that differ only in what is cached and what is flushed; a frame that is pinned more than once has
  its pins from before.
\<close>

definition pins_kept :: "BPSys \<Rightarrow> BPSys \<Rightarrow> bool" where
  "pins_kept s s' \<longleftrightarrow> (\<forall>fd p a. cached s' fd p = Some a \<longrightarrow> pin_count (frame_of s' a) \<le> 1 \<or>
     cached s fd p = Some a \<and> pin_count (frame_of s' a) = pin_count (frame_of s a))"

lemma pins_kept_refl [simp]: "pins_kept s s"
  by (simp add: pins_kept_def)

lemma pins_kept_trans: "pins_kept s s' \<Longrightarrow> pins_kept s' s'' \<Longrightarrow> pins_kept s s''"
  unfolding pins_kept_def by metis

definition unseen :: "BPSys \<Rightarrow> BPSys \<Rightarrow> bool" where
  "unseen s s' \<longleftrightarrow> page_view s' = page_view s \<and> pools s' = pools s \<and> next_pool s' = next_pool s \<and>
     buffer_pools s' = buffer_pools s \<and> fd_buffer_pools s' = fd_buffer_pools s \<and>
     same_fds (os s) (os s') \<and>
     (\<forall>fd q. stored (os s') fd q = None \<longleftrightarrow> stored (os s) fd q = None) \<and>
     (os_io_faults (os s) = [] \<longrightarrow> os_io_faults (os s') = []) \<and> pins_kept s s' \<and>
     (\<forall>fd p a. cached s fd p = Some a \<and> pin_count (frame_of s a) > 0 \<longrightarrow>
        cached s' fd p = Some a \<and> pin_count (frame_of s' a) = pin_count (frame_of s a))"

lemma unseen_refl: "unseen s s"
  by (simp add: unseen_def)

lemma unseen_trans:
  assumes "unseen s s'" "unseen s' s''"
  shows "unseen s s''"
proof -
  have "cached s'' fd p = Some a \<and> pin_count (frame_of s'' a) = pin_count (frame_of s a)"
    if "cached s fd p = Some a" "pin_count (frame_of s a) > 0" for fd p a
    using that assms unfolding unseen_def by metis
  moreover have "same_fds (os s) (os s'')" "pins_kept s s''"
    using assms same_fds_trans pins_kept_trans unfolding unseen_def by blast+
  ultimately show ?thesis
    using assms unfolding unseen_def by (intro conjI allI impI) (blast | simp)+
qed

lemma unseen_page:
  assumes "unseen s s'" "cached s fd p = Some a" "pin_count (frame_of s a) > 0"
  shows "cached s' fd p = Some a" "page (frame_of s' a) = page (frame_of s a)"
    "pin_count (frame_of s' a) = pin_count (frame_of s a)"
proof -
  show c: "cached s' fd p = Some a" "pin_count (frame_of s' a) = pin_count (frame_of s a)"
    using assms unfolding unseen_def by blast+
  have "page_view s' fd p = page_view s fd p" using assms(1) by (simp add: unseen_def)
  then show "page (frame_of s' a) = page (frame_of s a)"
    using c assms(2) by (simp add: page_view_def)
qed

lemma entry_inD: "entries_inv s es \<Longrightarrow> map_of es k = Some a \<Longrightarrow> entry_ok s k a"
  unfolding entries_inv_def by (auto dest!: map_of_SomeD)

lemma entry_unique:
  "fm_rep fm es \<Longrightarrow> (k, a) \<in> set es \<Longrightarrow> (k', a) \<in> set es \<Longrightarrow> k = k'"
  using inj_onD [of snd "set es" "(k, a)" "(k', a)"] by (simp add: fm_rep_def distinct_map)

lemma map_of_in: "fm_rep fm es \<Longrightarrow> (k, a) \<in> set es \<longleftrightarrow> map_of es k = Some a"
  by (rule map_of_unique [OF fm_rep_distinct])

text \<open>Touching, which reorders the entries, is invisible.\<close>

lemma entries_touch:
  assumes "entries_inv s es" "fm_rep (frame_manager s\<lparr>frames := l\<rparr>) (touch_entries k es)"
  shows "entries_inv (with_fm s (frame_manager s\<lparr>frames := l\<rparr>)) (touch_entries k es)"
    "unseen s (with_fm s (frame_manager s\<lparr>frames := l\<rparr>))"
    "cached (with_fm s (frame_manager s\<lparr>frames := l\<rparr>)) = cached s"
proof -
  let ?s = "with_fm s (frame_manager s\<lparr>frames := l\<rparr>)"
  have d: "distinct (map fst es)" using assms(1) fm_rep_distinct by (auto simp: entries_inv_def)
  have c: "cached ?s fd p = cached s fd p" for fd p
    using cached_rep [of ?s] cached_rep [of s es] assms by (simp add: entries_inv_def)
  show "entries_inv ?s (touch_entries k es)"
    using assms d by (auto simp: entries_inv_def entry_ok_def owner_def)
  show "cached ?s = cached s" using c by (intro ext)
  then show "unseen s ?s" using c by (simp add: unseen_def pins_kept_def page_view_def fun_eq_iff split: option.split)
qed

section \<open>Flushing a cached frame\<close>

lemma frame_id_eq:
  "k = k' \<longleftrightarrow> fid_file_desc k = fid_file_desc k' \<and> fid_page_num k = fid_page_num (k' :: BPFrameId)"
  by (cases k; cases k') simp

lemma frame_of_upd_frame [simp]:
  "frame_of (upd_frame a f s) a' = (if a' = a then f (frame_of s a) else frame_of s a')"
  by (simp add: upd_frame_def)

lemma upd_frame_fields [simp]:
  "os (upd_frame a f s) = os s" "pools (upd_frame a f s) = pools s"
  "next_pool (upd_frame a f s) = next_pool s" "buffer_pools (upd_frame a f s) = buffer_pools s"
  "fd_buffer_pools (upd_frame a f s) = fd_buffer_pools s"
  "frames (frame_manager (upd_frame a f s)) = frames (frame_manager s)"
  "allocator (frame_manager (upd_frame a f s)) = allocator (frame_manager s)"
  "fm_rep (frame_manager (upd_frame a f s)) es = fm_rep (frame_manager s) es"
  "cached (upd_frame a f s) = cached s"
  by (simp_all add: upd_frame_def cached_def fun_eq_iff)

lemma cached_os [simp]: "cached (s\<lparr>os := w\<rparr>) = cached s" "cached (s\<lparr>pools := q\<rparr>) = cached s"
  by (simp_all add: cached_def fun_eq_iff)

text \<open>
  A frame with a key is flushed to the file of the key; on success its page is the stored one.
\<close>

lemma flush_page_cases:
  assumes "os_inv (os s)" "pools s b = Some bp" "os_fds (os s) (bp_file_desc bp) \<noteq> None"
    and "0 \<le> page_num (page (frame_of s a))"
    and "page_num (page (frame_of s a)) = 0 \<or>
      stored (os s) (bp_file_desc bp) (page_num (page (frame_of s a)) - 1) \<noteq> None"
  obtains (ok) w where "flush_page b a s = Some (SUCCESS, upd_frame a (\<lambda>f. f\<lparr>dirty := False\<rparr>) (s\<lparr>os := w\<rparr>))"
      "os_inv w" "same_fds (os s) w"
      "\<And>fd q. stored w fd q = (if fd = bp_file_desc bp \<and> q = page_num (page (frame_of s a))
          then Some (page (frame_of s a)) else stored (os s) fd q)"
      "os_io_faults (os s) = [] \<Longrightarrow> os_io_faults w = []"
    | (failed) w where "flush_page b a s = Some (IOERR_WRITE, s\<lparr>os := w\<rparr>)" "os_inv w"
      "same_fds (os s) w" "stored w = stored (os s)" "os_io_faults (os s) \<noteq> []"
proof -
  let ?p = "page_num (page (frame_of s a))" and ?fd = "bp_file_desc bp"
  obtain pos w1 where l: "os_lseek ?fd ?p (os s) = (pos, w1)" by fastforce
  obtain ret w2 where wr: "os_writen ?fd (page (frame_of s a)) w1 = (ret, w2)" by fastforce
  note sw = os_seek_write [OF assms(1,3,4) refl assms(5) l wr]
  have "pos \<noteq> ?p * BP_PAGE_SIZE - 1" using sw by simp
  then have fl: "flush_page b a s = (if ret \<noteq> 0 then Some (IOERR_WRITE, s\<lparr>os := w2\<rparr>)
      else Some (SUCCESS, upd_frame a (\<lambda>f. f\<lparr>dirty := False\<rparr>) (s\<lparr>os := w2\<rparr>)))"
    using assms(2) l wr by (simp add: flush_page_def)
  show thesis
  proof (cases "ret = 0")
    case True
    show thesis using True fl sw by (intro ok [of w2]) auto
  next
    case False
    show thesis using False fl sw by (intro failed [of w2]) auto
  qed
qed

lemma entry_flushable:
  assumes "entry_ok s k a"
  shows "os_fds (os s) (fid_file_desc k) \<noteq> None" "0 \<le> page_num (page (frame_of s a))"
    "page_num (page (frame_of s a)) = 0 \<or>
       stored (os s) (fid_file_desc k) (page_num (page (frame_of s a)) - 1) \<noteq> None"
proof -
  show "os_fds (os s) (fid_file_desc k) \<noteq> None"
    using assms stored_open unfolding entry_ok_def by blast
  show nn: "0 \<le> page_num (page (frame_of s a))"
    using assms stored_nonneg unfolding entry_ok_def by fastforce
  show "page_num (page (frame_of s a)) = 0 \<or>
       stored (os s) (fid_file_desc k) (page_num (page (frame_of s a)) - 1) \<noteq> None"
    using assms nn stored_below [of "os s" "fid_file_desc k" "fid_page_num k" "fid_page_num k - 1"]
    unfolding entry_ok_def by force
qed

lemma flush_cached:
  assumes inv: "entries_inv s es" and k: "map_of es k = Some a"
    and b: "pools s b = Some bp" "bp_file_desc bp = fid_file_desc k"
  shows "\<exists>rc s'. flush_page b a s = Some (rc, s') \<and> entries_inv s' es \<and> unseen s s' \<and>
    frame_manager s' = (if rc = SUCCESS then frame_manager (upd_frame a (\<lambda>f. f\<lparr>dirty := False\<rparr>) s)
                        else frame_manager s) \<and>
    (rc = SUCCESS \<or> rc = IOERR_WRITE) \<and> (os_io_faults (os s) = [] \<longrightarrow> rc = SUCCESS)"
proof -
  have e: "entry_ok s k a" by (rule entry_inD [OF inv k])
  note fl = entry_flushable [OF e, folded b(2)]
  have osi: "os_inv (os s)" and rep: "fm_rep (frame_manager s) es"
    and ents: "\<And>k a. (k, a) \<in> set es \<Longrightarrow> entry_ok s k a"
    using inv by (auto simp: entries_inv_def)
  have pn: "page_num (page (frame_of s a)) = fid_page_num k" using e by (simp add: entry_ok_def)
  from osi b(1) fl show ?thesis
  proof (cases rule: flush_page_cases)
    case (ok w)
    let ?s = "upd_frame a (\<lambda>f. f\<lparr>dirty := False\<rparr>) (s\<lparr>os := w\<rparr>)"
    have st: "stored w (fid_file_desc k) (fid_page_num k) = Some (page (frame_of s a))"
      using ok(4) b(2) pn by simp
    have mono: "stored w fd q = None \<longleftrightarrow> stored (os s) fd q = None" for fd q
      using ok(4) [of fd q] e b(2) pn by (auto simp: entry_ok_def)
    have "entry_ok ?s k' a'" if ka: "(k', a') \<in> set es" for k' a'
    proof (cases "a' = a")
      case True
      then have "k' = k" using entry_unique [OF rep] ka k by (auto dest: map_of_SomeD)
      then show ?thesis using e True st mono by (simp add: entry_ok_def owner_def)
    next
      case False
      then have "k' \<noteq> k" using ka k map_of_in [OF rep] by auto
      then have "stored w (fid_file_desc k') (fid_page_num k') =
          stored (os s) (fid_file_desc k') (fid_page_num k')"
        using ok(4) b(2) pn by (auto simp: frame_id_eq)
      then show ?thesis using ents [OF ka] False mono by (simp add: entry_ok_def owner_def)
    qed
    then have inv': "entries_inv ?s es" using ok(2) rep by (auto simp: entries_inv_def)
    have ck: "cached s fd q = map_of es (frame_id fd q)" for fd q by (rule cached_rep [OF rep])
    have "page_view ?s fd q = page_view s fd q" for fd q
    proof (cases "fd = bp_file_desc bp \<and> q = page_num (page (frame_of s a))")
      case True
      then have "frame_id fd q = k" using b(2) pn by simp
      then show ?thesis using ck k by (simp add: page_view_def)
    next
      case False
      then show ?thesis using ok(4) [of fd q] by (auto simp: page_view_def split: option.split)
    qed
    then have "unseen s ?s" using ok(3,5) mono by (auto simp: unseen_def pins_kept_def fun_eq_iff)
    then show ?thesis using ok(1) inv' by (intro exI [of _ SUCCESS] exI [of _ ?s]) (simp add: upd_frame_def)
  next
    case (failed w)
    have "entries_inv (s\<lparr>os := w\<rparr>) es" using inv failed by (auto simp: entries_inv_def entry_ok_def owner_def)
    moreover have "unseen s (s\<lparr>os := w\<rparr>)"
      using failed by (auto simp: unseen_def pins_kept_def page_view_def fun_eq_iff split: option.split)
    ultimately show ?thesis using failed by (intro exI [of _ IOERR_WRITE] exI [of _ "s\<lparr>os := w\<rparr>"]) simp
  qed
qed

section \<open>Taking a frame\<close>

text \<open>Giving an unpinned, clean frame back is invisible.\<close>

lemma fm_free_unseen:
  assumes inv: "entries_inv s es" and k: "map_of es (frame_id fd p) = Some a"
    and clean: "\<not> dirty (frame_of s a)" "pin_count (frame_of s a) = 0"
  shows "\<exists>fm. fm_free fd p a (frame_manager s) = Some (SUCCESS, fm) \<and> frame_at fm = frame_at (frame_manager s) \<and>
    entries_inv (with_fm s fm) (drop_key (frame_id fd p) es) \<and> unseen s (with_fm s fm)"
proof -
  let ?k = "frame_id fd p"
  have rep: "fm_rep (frame_manager s) es" using inv by (simp add: entries_inv_def)
  obtain l where f: "fm_free fd p a (frame_manager s) =
      Some (SUCCESS, frame_manager s\<lparr>frames := l, allocator := mp_free a (allocator (frame_manager s))\<rparr>)"
    and rep': "fm_rep (frame_manager s\<lparr>frames := l, allocator := mp_free a (allocator (frame_manager s))\<rparr>)
      (drop_key ?k es)"
    using fm_free_rep [OF rep k] by blast
  define fm where "fm = frame_manager s\<lparr>frames := l, allocator := mp_free a (allocator (frame_manager s))\<rparr>"
  have fa: "frame_at fm = frame_at (frame_manager s)" by (simp add: fm_def)
  have inv': "entries_inv (with_fm s fm) (drop_key ?k es)"
    using inv rep' fa by (auto simp: entries_inv_def set_drop_key entry_ok_def owner_def fm_def)
  have c: "cached (with_fm s fm) fd' q = (if frame_id fd' q = ?k then None else cached s fd' q)" for fd' q
    using cached_rep [of "with_fm s fm" "drop_key ?k es"] cached_rep [OF rep] rep' by (simp add: fm_def)
  have "stored (os s) fd p = Some (page (frame_of s a))"
    using entry_inD [OF inv k] clean(1) by (simp add: entry_ok_def)
  moreover have "cached s fd p = Some a" using cached_rep [OF rep] k by simp
  ultimately have "page_view (with_fm s fm) fd' q = page_view s fd' q" for fd' q
    using c [of fd' q] fa by (auto simp: page_view_def split: option.split)
  then have "unseen s (with_fm s fm)"
    using c fa clean(2) \<open>cached s fd p = Some a\<close> by (auto simp: unseen_def pins_kept_def fun_eq_iff)
  then show ?thesis using f inv' fa by (auto simp: fm_def)
qed

lemma length_drop_key:
  "map_of es k = Some a \<Longrightarrow> length (drop_key k es) < length es"
  by (induction es) (auto simp: drop_key_def split: if_splits intro: le_imp_less_Suc)

text \<open>The victim of \<^verbatim>\<open>begin_purge\<close>.\<close>

lemma begin_purge_cases:
  assumes "fm_rep (frame_manager s) es"
  obtains (none) "begin_purge (frame_manager s) = Some None" "\<And>k a. (k, a) \<in> set es \<Longrightarrow> pin_count (frame_of s a) > 0"
    | (victim) k v where "begin_purge (frame_manager s) = Some (Some v)" "map_of es k = Some v"
        "pin_count (frame_of s v) = 0"
proof (cases "List.find (\<lambda>a. can_purge (frame_of s a)) (map snd (rev es))")
  case None
  then have "\<not> can_purge (frame_of s a)" if "(k, a) \<in> set es" for k a
    using that by (auto simp: find_None_iff)
  then show thesis
    using none begin_purge_rep [OF assms] None by (auto simp: can_purge_def word_neq_0_conv)
next
  case (Some v)
  then have "v \<in> snd ` set es" "can_purge (frame_of s v)"
    by (auto simp: find_Some_iff) (metis imageI length_rev nth_mem set_rev)
  then obtain k where "(k, v) \<in> set es" "pin_count (frame_of s v) = 0"
    by (auto simp: can_purge_def)
  then show thesis
    using victim [of v k] begin_purge_rep [OF assms] Some map_of_in [OF assms] by auto
qed

text \<open>
  \<^verbatim>\<open>allocate_frame\<close> always returns.  It succeeds with a frame that holds nothing, after invisible
  evictions only, or fails invisibly: because every frame is pinned, or because a dirty page
  could not be written.
\<close>

lemma allocate_frame_cases:
  assumes "entries_inv s es" "pools s b = Some bp" "map_of es (frame_id (bp_file_desc bp) p) = None"
  obtains (taken) a s1 es1 l al where "allocate_frame b p s = Some (SUCCESS, Some a,
        with_fm s1 (frame_manager s1\<lparr>allocator := al, frames := l\<rparr>))"
      "unseen s s1" "entries_inv s1 es1" "a \<notin> snd ` set es1"
      "map_of es1 (frame_id (bp_file_desc bp) p) = None"
      "fm_rep (frame_manager s1\<lparr>allocator := al, frames := l\<rparr>) ((frame_id (bp_file_desc bp) p, a) # es1)"
    | (nomem) s1 es1 where "allocate_frame b p s = Some (NOMEM, None, s1)" "unseen s s1" "entries_inv s1 es1"
      "\<And>k a. (k, a) \<in> set es1 \<Longrightarrow> pin_count (frame_of s1 a) > 0" "mp_limit (allocator (frame_manager s1)) = length es1"
    | (ioerr) s1 es1 where "allocate_frame b p s = Some (IOERR_WRITE, None, s1)" "unseen s s1"
      "entries_inv s1 es1" "os_io_faults (os s) \<noteq> []"
  using assms
proof (induction "length es" arbitrary: s es thesis rule: less_induct)
  case less
  let ?k = "frame_id (bp_file_desc bp) p"
  have rep: "fm_rep (frame_manager s) es" using less.prems(4) by (simp add: entries_inv_def)
  from rep show ?case
  proof (cases rule: fm_alloc_rep [where fd = "bp_file_desc bp" and p = p])
    case (cached a l)
    then show ?thesis using less.prems(6) by simp
  next
    case (fresh a l al)
    then have "allocate_frame b p s = Some (SUCCESS, Some a,
        with_fm s (frame_manager s\<lparr>allocator := al, frames := l\<rparr>))"
      using less.prems(5) by (subst allocate_frame.simps) simp
    then show ?thesis using less.prems(1,4) unseen_refl fresh by blast
  next
    case (full l)
    let ?s0 = "with_fm s (frame_manager s\<lparr>frames := l\<rparr>)"
    have t: "touch_entries ?k es = es" using full(1) by (simp add: touch_entries_def)
    have inv0: "entries_inv ?s0 es" "unseen s ?s0"
      using entries_touch [of s es l ?k] less.prems(4) full(4) t by auto
    have rep0: "fm_rep (frame_manager ?s0) es" using full(4) by simp
    from rep0 show ?thesis
    proof (cases rule: begin_purge_cases)
      case none
      have "allocate_frame b p s = Some (NOMEM, None, ?s0)"
        using less.prems(5) full(3) none(1) by (subst allocate_frame.simps) simp
      then show ?thesis using less.prems(2) inv0 none(2) full(2) by simp
    next
      case (victim k v)
      have e: "entry_ok ?s0 k v" by (rule entry_inD [OF inv0(1) victim(2)])
      then obtain b' bp' where o: "fd_buffer_pools ?s0 (fid_file_desc k) = Some b'" "pools ?s0 b' = Some bp'"
          "bp_file_desc bp' = fid_file_desc k" and key: "frame_file_desc (frame_of ?s0 v) = fid_file_desc k"
          "page_num (page (frame_of ?s0 v)) = fid_page_num k"
        by (auto simp: entry_ok_def owner_def)
      obtain rc s1 where f: "(if dirty (frame_of ?s0 v) then bpm_flush_page v ?s0 else Some (SUCCESS, ?s0)) =
            Some (rc, s1)"
          "entries_inv s1 es" "unseen ?s0 s1" "rc = SUCCESS \<or> rc = IOERR_WRITE"
          "rc = SUCCESS \<Longrightarrow> \<not> dirty (frame_of s1 v) \<and> pin_count (frame_of s1 v) = 0 \<and>
             frame_file_desc (frame_of s1 v) = fid_file_desc k \<and> page_num (page (frame_of s1 v)) = fid_page_num k"
          "os_io_faults (os s) = [] \<Longrightarrow> rc = SUCCESS"
      proof (cases "dirty (frame_of ?s0 v)")
        case True
        obtain rc s1 where f: "flush_page b' v ?s0 = Some (rc, s1)" "entries_inv s1 es" "unseen ?s0 s1"
            "frame_manager s1 = (if rc = SUCCESS then frame_manager (upd_frame v (\<lambda>f. f\<lparr>dirty := False\<rparr>) ?s0)
               else frame_manager ?s0)" "rc = SUCCESS \<or> rc = IOERR_WRITE" "os_io_faults (os ?s0) = [] \<longrightarrow> rc = SUCCESS"
          using flush_cached [OF inv0(1) victim(2) o(2,3)] by blast
        have "bpm_flush_page v ?s0 = Some (rc, s1)" using f(1) o key by (simp add: bpm_flush_page_def)
        then show thesis
          using that [of rc s1] f True victim(3) key by auto
      next
        case False
        then show thesis using that [of SUCCESS ?s0] inv0 victim(3) key unseen_refl by simp
      qed
      have us1: "unseen s s1" using unseen_trans [OF inv0(2) f(3)] .
      show ?thesis
      proof (cases "rc = SUCCESS")
        case False
        then have "allocate_frame b p s = Some (IOERR_WRITE, None, s1)"
          using less.prems(5) full(3) victim(1) f(1,4) by (subst allocate_frame.simps) auto
        moreover have "os_io_faults (os s) \<noteq> []" using False f(6) by blast
        ultimately show ?thesis using less.prems(3) f(2) us1 by blast
      next
        case True
        have kk: "frame_id (fid_file_desc k) (fid_page_num k) = k" by (simp add: frame_id_eq)
        obtain fm where fr: "fm_free (fid_file_desc k) (fid_page_num k) v (frame_manager s1) = Some (SUCCESS, fm)"
            "entries_inv (with_fm s1 fm) (drop_key k es)" "unseen s1 (with_fm s1 fm)"
          using fm_free_unseen [OF f(2), of "fid_file_desc k" "fid_page_num k" v] victim(2) f(5) [OF True] kk
          by auto
        have rec: "allocate_frame b p s = allocate_frame b p (with_fm s1 fm)"
          using less.prems(5) full(3) victim(1) f(1) True f(5) fr(1)
          by (subst allocate_frame.simps) simp
        have us: "unseen s (with_fm s1 fm)" using unseen_trans [OF us1 fr(3)] .
        have p': "pools (with_fm s1 fm) b = Some bp" using us less.prems(5) by (simp add: unseen_def)
        have m': "map_of (drop_key k es) ?k = None" using less.prems(6) by simp
        have io: "os_io_faults (os (with_fm s1 fm)) \<noteq> [] \<Longrightarrow> os_io_faults (os s) \<noteq> []"
          using us by (auto simp: unseen_def)
        note out = less.prems(1-3) [unfolded rec]
        show ?thesis
          by (rule less.hyps [OF length_drop_key [OF victim(2)] _ _ _ fr(2) p' m'])
            (blast intro: out unseen_trans [OF us] dest: io)+
      qed
    qed
  qed
qed

section \<open>Reading pages\<close>

text \<open>An open pool that the manager knows.\<close>

definition registered :: "BPSys \<Rightarrow> nat \<Rightarrow> DiskBufferPool \<Rightarrow> bool" where
  "registered s b bp \<longleftrightarrow> pools s b = Some bp \<and> fd_buffer_pools s (bp_file_desc bp) = Some b \<and>
     os_fds (os s) (bp_file_desc bp) \<noteq> None"

lemma registered_unseen: "unseen s s' \<Longrightarrow> registered s b bp \<Longrightarrow> registered s' b bp"
  using same_fds_open by (auto simp: registered_def unseen_def)

lemma registered_owner: "registered s b bp \<Longrightarrow> owner s (bp_file_desc bp)"
  by (auto simp: registered_def owner_def)

text \<open>Entries that do not name a frame are not touched by updates of it.\<close>

lemma entries_frame_other:
  assumes "entries_inv s es" "a \<notin> snd ` set es"
  shows "entries_inv (upd_frame a f s) es"
proof -
  have "entry_ok (upd_frame a f s) k a'" if "(k, a') \<in> set es" for k a'
  proof -
    have "a' \<noteq> a" using that assms(2) by force
    then show ?thesis using assms(1) that by (auto simp: entries_inv_def entry_ok_def owner_def)
  qed
  then show ?thesis using assms(1) by (auto simp: entries_inv_def)
qed

text \<open>Adding a frame whose page is the stored one.\<close>

lemma entries_add:
  assumes inv: "entries_inv s es" and s': "os_inv (os s')" "stored (os s') = stored (os s)"
      "same_fds (os s) (os s')" "pools s' = pools s" "fd_buffer_pools s' = fd_buffer_pools s"
      "buffer_pools s' = buffer_pools s" "next_pool s' = next_pool s"
      "os_io_faults (os s) = [] \<longrightarrow> os_io_faults (os s') = []"
    and k: "a \<notin> snd ` set es" "map_of es (frame_id fd p) = None" "owner s fd"
    and rep: "fm_rep (frame_manager s') ((frame_id fd p, a) # es)"
    and fr: "\<And>a'. a' \<noteq> a \<Longrightarrow> frame_of s' a' = frame_of s a'"
    and new: "frame_file_desc (frame_of s' a) = fd" "stored (os s) fd p = Some (page (frame_of s' a))"
      "pin_count (frame_of s' a) \<le> 1"
  shows "entries_inv s' ((frame_id fd p, a) # es)" "unseen s s'"
proof -
  have osi: "os_inv (os s)" and reps: "fm_rep (frame_manager s) es" using inv by (auto simp: entries_inv_def)
  have pn: "page_num (page (frame_of s' a)) = p" using osi new(2) by (auto simp: os_inv_def)
  have "entry_ok s' k' a'" if "(k', a') \<in> set es" for k' a'
  proof -
    have "frame_of s' a' = frame_of s a'" using that k(1) by (intro fr) force
    then show ?thesis using inv that s' by (auto simp: entries_inv_def entry_ok_def owner_def)
  qed
  moreover have "entry_ok s' (frame_id fd p) a"
    using new pn k(3) s' by (auto simp: entry_ok_def owner_def)
  ultimately show "entries_inv s' ((frame_id fd p, a) # es)" using s'(1) rep by (auto simp: entries_inv_def)
  have c: "cached s fd' q = map_of es (frame_id fd' q)"
      "cached s' fd' q = (if fd' = fd \<and> q = p then Some a else map_of es (frame_id fd' q))" for fd' q
    using cached_rep [OF reps] cached_rep [OF rep] by auto
  have na: "a' \<noteq> a" if "cached s fd' q = Some a'" for fd' q a'
    using that k(1) c(1) by (metis imageI map_of_SomeD snd_conv)
  have "page_view s' fd' q = page_view s fd' q" for fd' q
    using c [of fd' q] k(2) new(2) s'(2) na [of fd' q] fr by (auto simp: page_view_def split: option.split)
  moreover have "cached s' fd' q = Some a' \<and> pin_count (frame_of s' a') = pin_count (frame_of s a')"
    if "cached s fd' q = Some a'" for fd' q a'
    using that c [of fd' q] k(2) na [OF that] fr by auto
  moreover have "pins_kept s s'"
    unfolding pins_kept_def
  proof (intro allI impI)
    fix fd' q a'
    assume ca: "cached s' fd' q = Some a'"
    show "pin_count (frame_of s' a') \<le> 1 \<or> cached s fd' q = Some a' \<and> pin_count (frame_of s' a') = pin_count (frame_of s a')"
    proof (cases "fd' = fd \<and> q = p")
      case True
      then show ?thesis using ca c(2) [of fd' q] new(3) by simp
    next
      case False
      then have "cached s fd' q = Some a'" using ca c [of fd' q] by (auto split: if_splits)
      then show ?thesis using fr na by simp
    qed
  qed
  ultimately show "unseen s s'" using s' by (auto simp: unseen_def fun_eq_iff)
qed

text \<open>Giving back a frame that was taken and not filled.\<close>

lemma entries_cancel:
  assumes inv: "entries_inv s1 es" and s: "frame_of s = (frame_of s1)(a := f)" "pools s = pools s1"
      "fd_buffer_pools s = fd_buffer_pools s1" "buffer_pools s = buffer_pools s1" "next_pool s = next_pool s1"
      "os_inv (os s)" "stored (os s) = stored (os s1)" "same_fds (os s1) (os s)"
      "os_io_faults (os s1) = [] \<longrightarrow> os_io_faults (os s) = []"
    and rep: "fm_rep (frame_manager s) ((frame_id fd p, a) # es)"
    and a: "a \<notin> snd ` set es" "map_of es (frame_id fd p) = None"
  shows "\<exists>fm. fm_free fd p a (frame_manager s) = Some (SUCCESS, fm) \<and> entries_inv (with_fm s fm) es \<and>
    unseen s1 (with_fm s fm)"
proof -
  have "frame_id fd p \<notin> fst ` set es" using a(2) by (simp add: map_of_eq_None_iff)
  then have dk: "drop_key (frame_id fd p) ((frame_id fd p, a) # es) = es"
    using drop_key_id by (fastforce simp: drop_key_def)
  obtain l where f: "fm_free fd p a (frame_manager s) =
      Some (SUCCESS, frame_manager s\<lparr>frames := l, allocator := mp_free a (allocator (frame_manager s))\<rparr>)"
    and rep': "fm_rep (frame_manager s\<lparr>frames := l, allocator := mp_free a (allocator (frame_manager s))\<rparr>) es"
    using fm_free_rep [OF rep, of fd p a] dk by auto
  define fm where "fm = frame_manager s\<lparr>frames := l, allocator := mp_free a (allocator (frame_manager s))\<rparr>"
  have fr: "frame_of (with_fm s fm) a' = frame_of s1 a'" if "(k, a') \<in> set es" for k a'
  proof -
    have "a' \<noteq> a" using that a(1) by force
    then show ?thesis using s(1) by (simp add: fm_def)
  qed
  have inv': "entries_inv (with_fm s fm) es"
  proof -
    have "entry_ok (with_fm s fm) k a'" if "(k, a') \<in> set es" for k a'
      using fr [OF that] inv that s(2,3,7) by (auto simp: entries_inv_def entry_ok_def owner_def)
    then show ?thesis using rep' s(6) by (auto simp: entries_inv_def fm_def)
  qed
  have reps: "fm_rep (frame_manager s1) es" using inv by (simp add: entries_inv_def)
  have c: "cached (with_fm s fm) fd' q = cached s1 fd' q" for fd' q
    using cached_rep [OF reps] cached_rep [of "with_fm s fm" es] rep' by (simp add: fm_def)
  have fr': "frame_of (with_fm s fm) a' = frame_of s1 a'" if "cached s1 fd' q = Some a'" for fd' q a'
    using that cached_rep [OF reps] fr by (auto dest: map_of_SomeD)
  have "page_view (with_fm s fm) fd' q = page_view s1 fd' q" for fd' q
    using c [of fd' q] fr' [of fd' q] s(7) by (auto simp: page_view_def split: option.split)
  then have "unseen s1 (with_fm s fm)"
    using s c fr' by (auto simp: unseen_def pins_kept_def fun_eq_iff)
  then show ?thesis using f inv' by (auto simp: fm_def)
qed

lemma load_page_cases:
  assumes "os_inv (os s)" "pools s b = Some bp" "os_fds (os s) (bp_file_desc bp) \<noteq> None"
  obtains (ok) w pg where "load_page b p a s = Some (SUCCESS, upd_frame a (\<lambda>f. f\<lparr>page := pg\<rparr>) (s\<lparr>os := w\<rparr>))"
      "stored (os s) (bp_file_desc bp) p = Some pg" "os_inv w" "stored w = stored (os s)" "same_fds (os s) w"
      "os_io_faults (os s) = [] \<longrightarrow> os_io_faults w = []"
    | (failed) rc w where "load_page b p a s = Some (rc, s\<lparr>os := w\<rparr>)" "rc = IOERR_SEEK \<or> rc = IOERR_READ"
      "os_inv w" "stored w = stored (os s)" "same_fds (os s) w" "os_io_faults (os s) = [] \<longrightarrow> os_io_faults w = []"
      "os_io_faults (os s) = [] \<longrightarrow> stored (os s) (bp_file_desc bp) p = None"
proof -
  let ?fd = "bp_file_desc bp"
  obtain pos w1 where l: "os_lseek ?fd p (os s) = (pos, w1)" by fastforce
  show thesis
  proof (cases "0 \<le> p")
    case True
    obtain ret r w2 where rd: "os_readn ?fd w1 = (ret, r, w2)" by (metis prod_cases3)
    note sr = os_seek_read [OF assms(1,3) True l rd]
    have "pos \<noteq> - 1" using sr True by (simp add: BP_PAGE_SIZE_def)
    then have ld: "load_page b p a s = (case r of None \<Rightarrow> Some (IOERR_READ, s\<lparr>os := w2\<rparr>)
        | Some pg \<Rightarrow> Some (SUCCESS, upd_frame a (\<lambda>f. f\<lparr>page := pg\<rparr>) (s\<lparr>os := w2\<rparr>)))"
      using assms(2) l rd sr by (auto simp: load_page_def split: option.split)
    show thesis
    proof (cases r)
      case None
      then show thesis using ld sr by (intro failed [of IOERR_READ w2]) auto
    next
      case (Some pg)
      then show thesis using ld sr by (intro ok [of pg w2]) auto
    qed
  next
    case False
    obtain name q where "os_fds (os s) ?fd = Some (name, q)" using assms(3) by auto
    then have "pos = - 1" "w1 = os s" using l assms(1) False by (auto simp: os_lseek_def os_inv_def)
    moreover have "stored (os s) ?fd p = None" using False stored_nonneg by fastforce
    ultimately show thesis
      using l assms by (intro failed [of IOERR_SEEK "os s"]) (auto simp: load_page_def)
  qed
qed

lemma get_this_page_cases:
  assumes inv: "entries_inv s es" and reg: "registered s b bp"
  obtains (hit) a s0 es0 where "get_this_page b p s =
        Some (SUCCESS, Some a, upd_frame a (\<lambda>f. f\<lparr>pin_count := pin_count f + 1\<rparr>) s0)"
      "unseen s s0" "entries_inv s0 es0" "cached s0 = cached s" "cached s (bp_file_desc bp) p = Some a"
      "frame_of s0 = frame_of s"
    | (loaded) a s1 es1 where "get_this_page b p s = Some (SUCCESS, Some a, s1)" "unseen s s1"
      "entries_inv s1 es1" "cached s (bp_file_desc bp) p = None" "cached s1 (bp_file_desc bp) p = Some a"
      "pin_count (frame_of s1 a) = 1"
    | (failed) rc s1 es1 where "get_this_page b p s = Some (rc, None, s1)" "unseen s s1" "entries_inv s1 es1"
      "rc \<in> {NOMEM, IOERR_WRITE, IOERR_SEEK, IOERR_READ}" "cached s (bp_file_desc bp) p = None"
      "os_io_faults (os s) = [] \<Longrightarrow> stored (os s) (bp_file_desc bp) p \<noteq> None \<Longrightarrow> rc = NOMEM"
proof -
  let ?fd = "bp_file_desc bp" and ?k = "frame_id (bp_file_desc bp) p"
  have b: "pools s b = Some bp" and rep: "fm_rep (frame_manager s) es"
    using reg inv by (auto simp: registered_def entries_inv_def)
  have ck: "cached s ?fd p = map_of es ?k" by (rule cached_rep [OF rep])
  obtain l where g: "fm_get ?fd p (frame_manager s) = Some (map_of es ?k, frame_manager s\<lparr>frames := l\<rparr>)"
    and rep0: "fm_rep (frame_manager s\<lparr>frames := l\<rparr>) (touch_entries ?k es)"
    using fm_get_rep [OF rep] by blast
  define s0 where "s0 = with_fm s (frame_manager s\<lparr>frames := l\<rparr>)"
  note t = entries_touch [OF inv rep0, folded s0_def]
  show thesis
  proof (cases "map_of es ?k")
    case (Some a)
    have "get_this_page b p s = Some (SUCCESS, Some a, upd_frame a (\<lambda>f. f\<lparr>pin_count := pin_count f + 1\<rparr>) s0)"
      using b g Some by (simp add: get_this_page_def s0_def)
    then show thesis using hit t ck Some by (simp add: s0_def)
  next
    case None
    have reg0: "registered s0 b bp" using registered_unseen [OF t(2) reg] .
    then have b0: "pools s0 b = Some bp" by (simp add: registered_def)
    have m0: "map_of (touch_entries ?k es) ?k = None" using None by simp
    have gt: "get_this_page b p s = do {
          (rc, alloc, s) \<leftarrow> allocate_frame b p s0;
          if rc \<noteq> SUCCESS then Some (rc, None, s)
          else do {
            frame \<leftarrow> alloc;
            let s = upd_frame frame (pin_fresh ?fd) s;
            (rc, s) \<leftarrow> load_page b p frame s;
            if rc \<noteq> SUCCESS then do {
              (_, s) \<leftarrow> purge_frame b p frame (upd_frame frame (\<lambda>f. f\<lparr>pin_count := 0\<rparr>) s);
              Some (rc, None, s)
            }
            else Some (SUCCESS, Some frame, s)
          }
        }"
      using b g None by (simp add: get_this_page_def s0_def)
    from t(1) b0 m0 show thesis
    proof (cases rule: allocate_frame_cases)
      case (nomem s1 es1)
      then show thesis using failed [of NOMEM s1 es1] gt unseen_trans [OF t(2)] None ck by simp
    next
      case (ioerr s1 es1)
      moreover have "os_io_faults (os s) \<noteq> []" using ioerr(4) t(2) by (auto simp: unseen_def)
      ultimately show thesis using failed [of IOERR_WRITE s1 es1] gt unseen_trans [OF t(2)] None ck by simp
    next
      case (taken a s1 es1 l1 al)
      define s2 where "s2 = upd_frame a (pin_fresh ?fd) (with_fm s1 (frame_manager s1\<lparr>allocator := al, frames := l1\<rparr>))"
      have u1: "unseen s s1" using unseen_trans [OF t(2) taken(2)] .
      have reg1: "registered s1 b bp" using registered_unseen [OF u1 reg] .
      have osi: "os_inv (os s2)" "pools s2 b = Some bp" "os_fds (os s2) ?fd \<noteq> None"
        using taken(3) reg1 by (auto simp: s2_def entries_inv_def registered_def)
      have rep2: "fm_rep (frame_manager s2) ((?k, a) # es1)" using taken(6) by (simp add: s2_def)
      from osi show thesis
      proof (cases rule: load_page_cases [where p = p and a = a])
        case (ok w pg)
        let ?s3 = "upd_frame a (\<lambda>f. f\<lparr>page := pg\<rparr>) (s2\<lparr>os := w\<rparr>)"
        have "get_this_page b p s = Some (SUCCESS, Some a, ?s3)"
          using gt taken(1) ok(1) by (simp add: s2_def)
        moreover have e: "entries_inv ?s3 ((?k, a) # es1)" "unseen s1 ?s3"
          using ok taken registered_owner [OF reg1] rep2
          by (intro entries_add [OF taken(3), where a = a]; simp add: s2_def pin_fresh_def)+
        moreover have "cached ?s3 ?fd p = Some a"
          using cached_rep [of ?s3 "(?k, a) # es1"] e(1) by (simp add: entries_inv_def)
        ultimately show thesis
          using loaded [of a ?s3 "(?k, a) # es1"] unseen_trans [OF u1] None ck by (simp add: s2_def pin_fresh_def)
      next
        case lf: (failed rc w)
        define s3 where "s3 = upd_frame a (\<lambda>f. f\<lparr>pin_count := 0\<rparr>) (s2\<lparr>os := w\<rparr>)"
        have fa: "frame_of s3 = (frame_of s1)(a := (pin_fresh ?fd (frame_of s1 a))\<lparr>pin_count := 0\<rparr>)"
          by (auto simp: s3_def s2_def fun_eq_iff)
        obtain fm where fm: "fm_free ?fd p a (frame_manager s3) = Some (SUCCESS, fm)"
            "entries_inv (with_fm s3 fm) es1" "unseen s1 (with_fm s3 fm)"
          using entries_cancel [OF taken(3) fa, where p = p and fd = ?fd] lf rep2 taken(4,5)
          by (auto simp: s3_def s2_def)
        have "purge_frame b p a s3 = Some (SUCCESS, with_fm s3 fm)"
          using fm(1) osi(2) by (simp add: purge_frame_def s3_def s2_def pin_fresh_def)
        then have "get_this_page b p s = Some (rc, None, with_fm s3 fm)"
          using gt taken(1) lf(1,2) by (auto simp: s2_def s3_def)
        moreover have "rc = NOMEM" if "os_io_faults (os s) = []" "stored (os s) ?fd p \<noteq> None"
        proof -
          have "stored (os s1) ?fd p \<noteq> None" "os_io_faults (os s1) = []"
            using u1 that unfolding unseen_def by simp_all
          then show ?thesis using lf(7) by (simp add: s2_def)
        qed
        ultimately show thesis
          using failed [of rc "with_fm s3 fm" es1] fm unseen_trans [OF u1] lf(2) None ck by auto
      qed
    qed
  qed
qed

section \<open>Releasing and writing pages\<close>

text \<open>An update of a cached frame that keeps its key and marks it dirty, or changes only its pin.\<close>

lemma entries_upd:
  assumes inv: "entries_inv s es" and k: "map_of es k = Some a"
    and f: "frame_file_desc (f (frame_of s a)) = frame_file_desc (frame_of s a)"
      "page_num (page (f (frame_of s a))) = page_num (page (frame_of s a))"
      "dirty (f (frame_of s a)) \<or>
        page (f (frame_of s a)) = page (frame_of s a) \<and> dirty (f (frame_of s a)) = dirty (frame_of s a)"
  shows "entries_inv (upd_frame a f s) es"
proof -
  have rep: "fm_rep (frame_manager s) es" using inv by (simp add: entries_inv_def)
  have "entry_ok (upd_frame a f s) k' a'" if "(k', a') \<in> set es" for k' a'
  proof -
    have e: "entry_ok s k' a'" using inv that by (auto simp: entries_inv_def)
    show ?thesis
    proof (cases "a' = a")
      case True
      then show ?thesis using e f by (auto simp: entry_ok_def owner_def)
    qed (use e in \<open>simp add: entry_ok_def owner_def\<close>)
  qed
  then show ?thesis using inv by (auto simp: entries_inv_def)
qed

lemma bp_inv_cached:
  assumes "bp_inv s" "cached s fd p = Some a"
  obtains es where "entries_inv s es" "map_of es (frame_id fd p) = Some a" "fm_rep (frame_manager s) es"
  using assms cached_rep unfolding bp_inv_def entries_inv_def by metis

lemma cached_unique:
  assumes "bp_inv s" "cached s fd p = Some a" "cached s fd' p' = Some a"
  shows "fd' = fd \<and> p' = p"
proof -
  obtain es where es: "map_of es (frame_id fd p) = Some a" "fm_rep (frame_manager s) es"
    using bp_inv_cached [OF assms(1,2)] by blast
  then have "map_of es (frame_id fd' p') = Some a" using cached_rep [OF es(2)] assms(3) by simp
  from entry_unique [OF es(2) map_of_SomeD [OF es(1)] map_of_SomeD [OF this]] show ?thesis by simp
qed

lemma page_view_upd:
  assumes "bp_inv s" "cached s fd p = Some a"
  shows "page_view (upd_frame a f s) fd' q =
    (if fd' = fd \<and> q = p then Some (page (f (frame_of s a))) else page_view s fd' q)"
proof (cases "cached s fd' q = Some a")
  case True
  then show ?thesis using cached_unique [OF assms True] by (simp add: page_view_def)
next
  case False
  then show ?thesis using assms(2) by (auto simp: page_view_def split: option.split)
qed

lemma page_view_pin:
  assumes "bp_inv s" "cached s fd p = Some a" "page (f (frame_of s a)) = page (frame_of s a)"
  shows "page_view (upd_frame a f s) = page_view s"
proof (intro ext)
  fix fd' q
  have "page_view s fd p = Some (page (frame_of s a))" using assms(2) by (simp add: page_view_def)
  then show "page_view (upd_frame a f s) fd' q = page_view s fd' q"
    using page_view_upd [OF assms(1,2), of f fd' q] assms(3) by simp
qed

text \<open>The client's write through \<^verbatim>\<open>frame->data()\<close>, followed by \<^verbatim>\<open>mark_dirty\<close>.\<close>

definition write_page :: "nat \<Rightarrow> (mem \<Rightarrow> mem) \<Rightarrow> BPSys \<Rightarrow> BPSys" where
  "write_page a g s = upd_frame a mark_dirty (upd_data a g s)"

lemma write_page_frame: "write_page a g s =
    upd_frame a (\<lambda>f. f\<lparr>page := (page f)\<lparr>data := g (data (page f))\<rparr>, dirty := True\<rparr>) s"
  by (simp add: write_page_def upd_data_def mark_dirty_def upd_frame_def)

lemma write_page_inv:
  assumes "bp_inv s" "cached s fd p = Some a"
  shows "bp_inv (write_page a g s)"
    "page_view (write_page a g s) fd' q =
       (if fd' = fd \<and> q = p then Some ((page (frame_of s a))\<lparr>data := g (data (page (frame_of s a)))\<rparr>)
        else page_view s fd' q)"
proof -
  obtain es where "entries_inv s es" "map_of es (frame_id fd p) = Some a"
    using bp_inv_cached [OF assms] by blast
  then show "bp_inv (write_page a g s)"
    unfolding bp_inv_def write_page_frame by (intro exI [of _ es] entries_upd) auto
  show "page_view (write_page a g s) fd' q =
       (if fd' = fd \<and> q = p then Some ((page (frame_of s a))\<lparr>data := g (data (page (frame_of s a)))\<rparr>)
        else page_view s fd' q)"
    unfolding write_page_frame by (subst page_view_upd [OF assms]) simp
qed

lemma purge_page_cases:
  assumes inv: "entries_inv s es" and reg: "registered s b bp"
  obtains rc s' es' where "purge_page b p s = Some (rc, s')" "unseen s s'" "entries_inv s' es'"
    "rc \<in> {SUCCESS, LOCKED_UNLOCK, IOERR_WRITE}"
    "rc = SUCCESS \<Longrightarrow> cached s' (bp_file_desc bp) p = None"
    "rc = LOCKED_UNLOCK \<longleftrightarrow> (\<exists>a. cached s (bp_file_desc bp) p = Some a \<and> pin_count (frame_of s a) > 0)"
    "os_io_faults (os s) = [] \<Longrightarrow> rc \<noteq> IOERR_WRITE"
    "\<And>fd q a. cached s fd q = Some a \<Longrightarrow> (fd, q) \<noteq> (bp_file_desc bp, p) \<Longrightarrow> cached s' fd q = Some a \<and> frame_of s' a = frame_of s a"
proof -
  let ?fd = "bp_file_desc bp" and ?k = "frame_id (bp_file_desc bp) p"
  have b: "pools s b = Some bp" and rep: "fm_rep (frame_manager s) es"
    using reg inv by (auto simp: registered_def entries_inv_def)
  have ck: "cached s fd q = map_of es (frame_id fd q)" for fd q by (rule cached_rep [OF rep])
  obtain l where g: "fm_get ?fd p (frame_manager s) = Some (map_of es ?k, frame_manager s\<lparr>frames := l\<rparr>)"
    and rep0: "fm_rep (frame_manager s\<lparr>frames := l\<rparr>) (touch_entries ?k es)"
    using fm_get_rep [OF rep] by blast
  define s0 where "s0 = with_fm s (frame_manager s\<lparr>frames := l\<rparr>)"
  define es0 where "es0 = touch_entries ?k es"
  note t = entries_touch [OF inv rep0, folded s0_def es0_def]
  have f0: "frame_of s0 = frame_of s" by (simp add: s0_def)
  have b0: "pools s0 b = Some bp" using b by (simp add: s0_def)
  show thesis
  proof (cases "map_of es ?k")
    case None
    then have "purge_page b p s = Some (SUCCESS, s0)" using b g by (simp add: purge_page_def s0_def)
    then show thesis using that [of SUCCESS s0 es0] t None ck f0 by simp
  next
    case (Some a)
    then have pg: "purge_page b p s = purge_frame b p a s0" using b g by (simp add: purge_page_def s0_def)
    have m0: "map_of es0 ?k = Some a" using Some by (simp add: es0_def)
    have ne: "a' \<noteq> a" if "cached s fd q = Some a'" "(fd, q) \<noteq> (?fd, p)" for fd q a'
      using cached_unique [of s ?fd p a fd q] that inv ck Some by (auto simp: bp_inv_def)
    show thesis
    proof (cases "pin_count (frame_of s a) > 0")
      case True
      then have "purge_page b p s = Some (LOCKED_UNLOCK, s0)" using pg b0 f0 by (simp add: purge_frame_def)
      then show thesis using that [of LOCKED_UNLOCK s0 es0] t Some ck f0 True by simp
    next
      case unpinned: False
      then have pz: "pin_count (frame_of s a) = 0" by (simp add: word_neq_0_conv [symmetric])
      obtain rc s1 where fl: "(if dirty (frame_of s0 a) then flush_page b a s0 else Some (SUCCESS, s0)) = Some (rc, s1)"
          "entries_inv s1 es0" "unseen s0 s1" "rc = SUCCESS \<or> rc = IOERR_WRITE"
          "os_io_faults (os s0) = [] \<longrightarrow> rc = SUCCESS" "cached s1 = cached s0"
          "\<And>a'. a' \<noteq> a \<Longrightarrow> frame_of s1 a' = frame_of s0 a'"
          "rc = SUCCESS \<Longrightarrow> \<not> dirty (frame_of s1 a) \<and> pin_count (frame_of s1 a) = 0"
      proof (cases "dirty (frame_of s0 a)")
        case True
        obtain rc s1 where fl: "flush_page b a s0 = Some (rc, s1)" "entries_inv s1 es0" "unseen s0 s1"
            "frame_manager s1 = (if rc = SUCCESS then frame_manager (upd_frame a (\<lambda>f. f\<lparr>dirty := False\<rparr>) s0)
               else frame_manager s0)" "rc = SUCCESS \<or> rc = IOERR_WRITE" "os_io_faults (os s0) = [] \<longrightarrow> rc = SUCCESS"
          using flush_cached [OF t(1) m0 b0] by auto
        moreover have "cached s1 = cached s0"
          using cached_rep [of s1 es0] cached_rep [of s0 es0] fl(2) t(1) by (auto simp: entries_inv_def fun_eq_iff)
        ultimately show thesis using that [of rc s1] True pz f0 by auto
      next
        case False
        then show thesis using that [of SUCCESS s0] t unseen_refl pz f0 by auto
      qed
      have u1: "unseen s s1" using unseen_trans [OF t(2) fl(3)] .
      show thesis
      proof (cases "rc = SUCCESS")
        case False
        then have "purge_page b p s = Some (IOERR_WRITE, s1)"
          using pg b0 f0 unpinned fl(1,4) by (auto simp: purge_frame_def)
        moreover have "os_io_faults (os s) \<noteq> []" using False fl(5) by (auto simp: s0_def)
        moreover have "cached s1 fd q = Some a' \<and> frame_of s1 a' = frame_of s a'"
          if "cached s fd q = Some a'" "(fd, q) \<noteq> (?fd, p)" for fd q a'
          using that fl(6,7) t(3) f0 ne by auto
        ultimately show thesis
          using that [of IOERR_WRITE s1 es0] fl(2) u1 ck Some pz by auto
      next
        case True
        obtain fm where fm: "fm_free ?fd p a (frame_manager s1) = Some (SUCCESS, fm)"
            "frame_at fm = frame_at (frame_manager s1)"
            "entries_inv (with_fm s1 fm) (drop_key ?k es0)" "unseen s1 (with_fm s1 fm)"
          using fm_free_unseen [OF fl(2) m0] fl(8) [OF True] by blast
        have "purge_page b p s = Some (SUCCESS, with_fm s1 fm)"
          using pg b0 f0 unpinned fl(1) True fm(1) by (simp add: purge_frame_def)
        moreover have c: "cached (with_fm s1 fm) fd q = (if (fd, q) = (?fd, p) then None else cached s fd q)" for fd q
          using cached_rep [of "with_fm s1 fm" "drop_key ?k es0" fd q] fm(3) ck by (simp add: entries_inv_def es0_def)
        moreover have "frame_of (with_fm s1 fm) a' = frame_of s a'"
          if "cached s fd q = Some a'" "(fd, q) \<noteq> (?fd, p)" for fd q a'
          using that ne fl(7) fm(2) f0 by simp
        ultimately show thesis
          using that [of SUCCESS "with_fm s1 fm" "drop_key ?k es0"] fm unseen_trans [OF u1] unpinned ck Some by auto
      qed
    qed
  qed
qed

end
