(* ===== verification/Ob_BufferPoolCorrect.thy ===== *)
theory Ob_BufferPoolCorrect
  imports Ob_BufferPoolProps
begin

text \<open>
  The properties of the buffer pool: opening a file establishes the invariant; reading, writing,
  unpinning and purging pages behaves as reading and writing a plain table of pages, whatever is
  evicted in between; allocating and disposing pages keeps the file header consistent.
\<close>

section \<open>Opening a file\<close>

definition file_ok :: "Page list \<Rightarrow> bool" where
  "file_ok ps \<longleftrightarrow> (\<forall>i < length ps. page_num (ps ! i) = int i)"

lemma os_open_ok:
  assumes "os_inv w" "os_files w name = Some ps" "file_ok ps" "os_open name w = (fd, w')" "0 \<le> fd"
    and "\<forall>fd' n pos. os_fds w fd' = Some (n, pos) \<longrightarrow> n \<noteq> name"
  shows "os_inv w'" "os_fds w fd = None" "os_fds w' fd = Some (name, 0)" "os_io_faults w' = os_io_faults w"
    "\<And>q. stored w' fd q = (if 0 \<le> q \<and> nat q < length ps then Some (ps ! nat q) else None)"
    "\<And>fd' q. fd' \<noteq> fd \<Longrightarrow> stored w' fd' q = stored w fd' q \<and> os_fds w' fd' = os_fds w fd'"
proof -
  have fd: "fd = free_fd w" "w' = w\<lparr>os_fds := (os_fds w)(fd \<mapsto> (name, 0))\<rparr>"
    using assms(2,4,5) by (auto simp: os_open_def split: if_splits)
  show free: "os_fds w fd = None"
    using first_from_nonneg [of "\<lambda>n. os_fds w (int n) = None" 3 "os_fd_limit w"] fd(1) assms(5)
    by (auto simp: free_fd_def)
  show "os_fds w' fd = Some (name, 0)" "os_io_faults w' = os_io_faults w" using fd by simp_all
  show s1: "stored w' fd q = (if 0 \<le> q \<and> nat q < length ps then Some (ps ! nat q) else None)" for q
    using fd assms(2) by (simp add: stored_def)
  show s2: "stored w' fd' q = stored w fd' q \<and> os_fds w' fd' = os_fds w fd'" if "fd' \<noteq> fd" for fd' q
    using fd that by (simp add: stored_def split: option.split)
  have "page_num pg = q" if "stored w' fd' q = Some pg" for fd' q pg
  proof (cases "fd' = fd")
    case True
    then show ?thesis using that s1 [of q] assms(3) by (auto simp: file_ok_def split: if_splits)
  next
    case False
    then show ?thesis using that s2 [OF False, of q] assms(1) by (auto simp: os_inv_def)
  qed
  then show "os_inv w'"
    using assms(1,2,6) fd unfolding os_inv_def by (auto split: if_splits) blast+
qed

lemma allocate_frame_free:
  assumes "fm_rep (frame_manager s) es" "pools s b = Some bp"
    and "map_of es (frame_id (bp_file_desc bp) p) = None" "length es < mp_limit (allocator (frame_manager s))"
  shows "\<exists>a l al. allocate_frame b p s = Some (SUCCESS, Some a,
      with_fm s (frame_manager s\<lparr>allocator := al, frames := l\<rparr>)) \<and> a \<notin> snd ` set es \<and>
    fm_rep (frame_manager s\<lparr>allocator := al, frames := l\<rparr>) ((frame_id (bp_file_desc bp) p, a) # es)"
  using assms(1)
proof (cases rule: fm_alloc_rep [where fd = "bp_file_desc bp" and p = p])
  case (fresh a l al)
  then show ?thesis using assms(2)
    by (intro exI [of _ a] exI [of _ l] exI [of _ al]) (subst allocate_frame.simps, simp)
qed (use assms in auto)

lemma open_file_steps:
  assumes "os_open name (os s) = (fd, w)" "0 \<le> fd" "pools s b = Some bp0"
    and "bp = bp0\<lparr>bp_file_name := name, bp_file_desc := fd\<rparr>" "s1 = s\<lparr>os := w, pools := (pools s)(b \<mapsto> bp)\<rparr>"
    and "allocate_frame b 0 s1 = Some (SUCCESS, Some h, s2)"
    and "s3 = upd_frame h (pin_fresh fd) (s2\<lparr>pools := (pools s2)(b \<mapsto> bp\<lparr>bp_hdr_frame := Some h\<rparr>)\<rparr>)"
    and "load_page b 0 h s3 = Some (SUCCESS, s4)"
  shows "open_file b name s = Some (SUCCESS, s4)"
  using assms by (simp add: open_file_def BP_HEADER_PAGE_def)

text \<open>
  Opening an existing file whose descriptor is not left over in the manager's table, with a free
  frame and no failing call.
\<close>

lemma bpm_open_file_ok:
  assumes inv: "entries_inv s es" and new: "buffer_pools s name = None"
    and fl: "os_files (os s) name = Some ps" "file_ok ps" "ps \<noteq> []"
      "\<forall>fd n pos. os_fds (os s) fd = Some (n, pos) \<longrightarrow> n \<noteq> name"
    and fd: "os_open name (os s) = (fd, w)" "0 \<le> fd" "fd_buffer_pools s fd = None"
    and room: "length es < mp_limit (allocator (frame_manager s))"
    and io: "os_io_faults (os s) = []"
    and np: "\<And>b. next_pool s \<le> b \<Longrightarrow> pools s b = None"
      "\<And>fd b. fd_buffer_pools s fd = Some b \<Longrightarrow> b < next_pool s"
  shows "\<exists>s' bp h. bpm_open_file name s = Some (SUCCESS, Some (next_pool s), s') \<and>
    entries_inv s' ((frame_id fd 0, h) # es) \<and> registered s' (next_pool s) bp \<and> bp_file_desc bp = fd \<and> bp_file_name bp = name \<and>
    bp_hdr_frame bp = Some h \<and> bp_disposed_pages bp = {} \<and> cached s' fd 0 = Some h \<and> pin_count (frame_of s' h) = 1 \<and>
    page (frame_of s' h) = ps ! 0 \<and> stored (os s') fd = stored w fd \<and> os_io_faults (os s') = [] \<and>
    pools s' = (pools s)(next_pool s \<mapsto> bp) \<and> next_pool s' = Suc (next_pool s) \<and> 
    buffer_pools s' = (buffer_pools s)(name \<mapsto> next_pool s) \<and>
    fd_buffer_pools s' = (fd_buffer_pools s)(fd \<mapsto> next_pool s)"
proof -
  let ?b = "next_pool s"
  have osi: "os_inv (os s)" and rep: "fm_rep (frame_manager s) es" using inv by (auto simp: entries_inv_def)
  note op = os_open_ok [OF osi fl(1,2) fd(1,2) fl(4)]
  define bp0 where "bp0 = new_pool\<lparr>bp_file_name := name, bp_file_desc := fd\<rparr>"
  define s1 where "s1 = s\<lparr>next_pool := Suc ?b, os := w, pools := (pools s)(?b \<mapsto> bp0)\<rparr>"
  have key: "fid_file_desc k \<noteq> fd" if "(k, a) \<in> set es" for k a
    using inv that op(2) stored_open unfolding entries_inv_def entry_ok_def by blast
  have ent1: "entry_ok (s1\<lparr>fd_buffer_pools := (fd_buffer_pools s)(fd \<mapsto> ?b), pools := P\<rparr>) k a"
    if ka: "(k, a) \<in> set es" and P: "\<And>b. b \<noteq> ?b \<Longrightarrow> P b = pools s b" for k a P
  proof -
    have e: "entry_ok s k a" using inv ka by (auto simp: entries_inv_def)
    then obtain b' bp' where o: "fd_buffer_pools s (fid_file_desc k) = Some b'" "pools s b' = Some bp'"
        "bp_file_desc bp' = fid_file_desc k" by (auto simp: entry_ok_def owner_def)
    then have "b' \<noteq> ?b" using np(2) by blast
    then have "owner (s1\<lparr>fd_buffer_pools := (fd_buffer_pools s)(fd \<mapsto> ?b), pools := P\<rparr>) (fid_file_desc k)"
      using o P key [OF ka] unfolding owner_def by (intro exI [of _ b'] exI [of _ bp']) simp
    then show ?thesis using e op(6) [OF key [OF ka]] by (auto simp: entry_ok_def s1_def)
  qed
  have m: "map_of es (frame_id fd 0) = None" using key by (force simp: map_of_eq_None_iff)
  obtain h l al where al: "allocate_frame ?b 0 s1 = Some (SUCCESS, Some h,
        with_fm s1 (frame_manager s1\<lparr>allocator := al, frames := l\<rparr>))" "h \<notin> snd ` set es"
      "fm_rep (frame_manager s1\<lparr>allocator := al, frames := l\<rparr>) ((frame_id fd 0, h) # es)"
    using allocate_frame_free [of s1 es ?b bp0 0] rep m room by (auto simp: s1_def bp0_def)
  define bp where "bp = bp0\<lparr>bp_hdr_frame := Some h\<rparr>"
  define s2 where "s2 = upd_frame h (pin_fresh fd)
    (with_fm s1 (frame_manager s1\<lparr>allocator := al, frames := l\<rparr>)\<lparr>pools := (pools s1)(?b \<mapsto> bp)\<rparr>)"
  have st0: "stored w fd 0 = Some (ps ! 0)" using op(5) [of 0] fl(3) by simp
  have "os_inv (os s2)" "pools s2 ?b = Some bp" "os_fds (os s2) (bp_file_desc bp) \<noteq> None"
    using op by (auto simp: s2_def s1_def bp_def bp0_def)
  then obtain w2 where ld: "load_page ?b 0 h s2 = Some (SUCCESS, upd_frame h (\<lambda>f. f\<lparr>page := ps ! 0\<rparr>) (s2\<lparr>os := w2\<rparr>))"
      "os_inv w2" "stored w2 = stored w" "same_fds w w2" "os_io_faults w2 = []"
  proof (cases rule: load_page_cases [where p = 0 and a = h])
    case (ok w' pg)
    then show thesis using that [of w'] st0 io op(4) by (auto simp: s2_def s1_def bp_def bp0_def)
  next
    case (failed rc w')
    then show thesis using st0 io op(4) by (auto simp: s2_def s1_def bp_def bp0_def)
  qed
  define s3 where "s3 = upd_frame h (\<lambda>f. f\<lparr>page := ps ! 0\<rparr>) (s2\<lparr>os := w2\<rparr>)"
  have "open_file ?b name (s\<lparr>pools := (pools s)(?b \<mapsto> new_pool), next_pool := Suc ?b\<rparr>) = Some (SUCCESS, s3)"
  proof (rule open_file_steps [OF _ fd(2) _ refl])
    show "load_page ?b 0 h s2 = Some (SUCCESS, s3)" using ld(1) by (simp add: s3_def)
    show "allocate_frame ?b 0 s1 = Some (SUCCESS, Some h, with_fm s1 (frame_manager s1\<lparr>allocator := al, frames := l\<rparr>))"
      by (rule al(1))
  qed (use fd(1) in \<open>simp_all add: s1_def s2_def bp_def bp0_def\<close>)
  moreover have p3: "pools s3 ?b = Some bp" by (simp add: s3_def s2_def)
  ultimately have fin: "bpm_open_file name s = Some (SUCCESS, Some ?b,
      s3\<lparr>buffer_pools := (buffer_pools s)(name \<mapsto> ?b), fd_buffer_pools := (fd_buffer_pools s)(fd \<mapsto> ?b)\<rparr>)"
    using new fd(3) by (simp add: bpm_open_file_def Let_def insert_new_def s3_def s2_def s1_def bp_def bp0_def)
  define s4 where "s4 = s3\<lparr>buffer_pools := (buffer_pools s)(name \<mapsto> ?b), fd_buffer_pools := (fd_buffer_pools s)(fd \<mapsto> ?b)\<rparr>"
  have rep4: "fm_rep (frame_manager s4) ((frame_id fd 0, h) # es)" using al(3) by (simp add: s4_def s3_def s2_def s1_def)
  have fr4: "frame_of s4 a = frame_of s a" if "a \<noteq> h" for a using that by (simp add: s4_def s3_def s2_def s1_def)
  have reg: "registered s4 ?b bp" "bp_file_desc bp = fd"
    using p3 same_fds_open [OF ld(4)] op(3) by (auto simp: registered_def s4_def s3_def bp_def bp0_def)
  have "entry_ok s4 k a" if ka: "(k, a) \<in> set es" for k a
  proof -
    have "a \<noteq> h" using al(2) ka by force
    moreover have "entry_ok (s1\<lparr>fd_buffer_pools := (fd_buffer_pools s)(fd \<mapsto> ?b), pools := (pools s1)(?b \<mapsto> bp)\<rparr>) k a"
      using ent1 [OF ka, of "(pools s1)(?b \<mapsto> bp)"] by (simp add: s1_def)
    ultimately show ?thesis
      using fr4 [of a] ld(3) by (auto simp: entry_ok_def owner_def s4_def s3_def s2_def s1_def)
  qed
  moreover have "entry_ok s4 (frame_id fd 0) h"
  proof -
    have "page_num (ps ! 0) = 0" using fl(2,3) by (simp add: file_ok_def)
    then show ?thesis
      using registered_owner [OF reg(1)] reg(2) st0 ld(3)
      by (simp add: entry_ok_def s4_def s3_def s2_def pin_fresh_def owner_def)
  qed
  ultimately have inv4: "entries_inv s4 ((frame_id fd 0, h) # es)"
    using rep4 ld(2) by (auto simp: entries_inv_def s4_def s3_def)
  have c4: "cached s4 fd 0 = Some h" using cached_rep [OF rep4] by simp
  have fields: "pin_count (frame_of s4 h) = 1" "page (frame_of s4 h) = ps ! 0" "os s4 = w2"
      "pools s4 = (pools s)(?b \<mapsto> bp)" "next_pool s4 = Suc ?b" "buffer_pools s4 = (buffer_pools s)(name \<mapsto> ?b)"
      "fd_buffer_pools s4 = (fd_buffer_pools s)(fd \<mapsto> ?b)" "bp_hdr_frame bp = Some h" "bp_disposed_pages bp = {}"
      "bp_file_name bp = name"
    by (simp_all add: s4_def s3_def s2_def s1_def pin_fresh_def bp_def bp0_def new_pool_def)
  show ?thesis
    using fin [folded s4_def] inv4 reg c4 fields ld(3,5)
    by (intro exI [of _ s4] exI [of _ bp] exI [of _ h]) simp
qed

text \<open>One file with given pages, opened by a new manager.\<close>

definition demo_os :: "Page list \<Rightarrow> Os" where
  "demo_os ps = \<lparr>os_files = [''t'' \<mapsto> ps], os_fds = Map.empty, os_fd_limit = 8,
     os_seek_faults = [], os_io_faults = []\<rparr>"

lemma demo_open:
  assumes "file_ok ps" "ps \<noteq> []"
  obtains s bp h where "bpm_open_file ''t'' (bpm_new (demo_os ps)) = Some (SUCCESS, Some 0, s)" "bp_inv s"
    "registered s 0 bp" "bp_file_desc bp = 3" "bp_hdr_frame bp = Some h" "bp_disposed_pages bp = {}"
    "cached s 3 0 = Some h" "pin_count (frame_of s h) = 1" "page (frame_of s h) = ps ! 0"
    "\<And>q. stored (os s) 3 q = (if 0 \<le> q \<and> nat q < length ps then Some (ps ! nat q) else None)"
    "os_io_faults (os s) = []" "pools s = [0 \<mapsto> bp]" "fd_buffer_pools s = [3 \<mapsto> 0]"
    "buffer_pools s = [''t'' \<mapsto> 0]" "bp_file_name bp = ''t''"
    "\<And>fd q. cached s fd q = (if fd = 3 \<and> q = 0 then Some h else None)"
proof -
  let ?s = "bpm_new (demo_os ps)" and ?w = "demo_os ps\<lparr>os_fds := [3 \<mapsto> (''t'', 0)]\<rparr>"
  obtain fm where fm: "fm_init MEM_POOL_ITEM_NUM fm_new = (SUCCESS, fm)" "fm_rep fm []"
      "mp_limit (allocator fm) = nat (MEM_POOL_ITEM_NUM * 128)"
    using fm_init_rep [of MEM_POOL_ITEM_NUM] by (auto simp: MEM_POOL_ITEM_NUM_def)
  have "free_fd (demo_os ps) = int 3"
    unfolding free_fd_def by (rule first_from_least) (simp_all add: demo_os_def)
  then have op: "os_open ''t'' (os ?s) = (3, ?w)"
    by (simp add: os_open_def bpm_new_def) (simp add: demo_os_def)
  have "os_inv (demo_os ps)" by (simp add: os_inv_def demo_os_def stored_def)
  then have inv: "entries_inv ?s []" using fm by (simp add: entries_inv_def bpm_new_def)
  have st: "stored ?w 3 q = (if 0 \<le> q \<and> nat q < length ps then Some (ps ! nat q) else None)" for q
    by (auto simp: stored_def demo_os_def)
  have n: "next_pool ?s = 0" "pools ?s = Map.empty" "fd_buffer_pools ?s = Map.empty"
      "buffer_pools ?s = Map.empty" "os_files (os ?s) = [''t'' \<mapsto> ps]" "os_fds (os ?s) = Map.empty"
      "os_io_faults (os ?s) = []" "frame_manager ?s = fm"
    using fm(1) by (simp_all add: bpm_new_def demo_os_def)
  obtain s' bp h where r: "bpm_open_file ''t'' ?s = Some (SUCCESS, Some (next_pool ?s), s')"
      "entries_inv s' [(frame_id 3 0, h)]" "registered s' (next_pool ?s) bp" "bp_file_desc bp = 3" "bp_file_name bp = ''t''"
      "bp_hdr_frame bp = Some h" "bp_disposed_pages bp = {}" "cached s' 3 0 = Some h"
      "pin_count (frame_of s' h) = 1" "page (frame_of s' h) = ps ! 0" "stored (os s') 3 = stored ?w 3"
      "os_io_faults (os s') = []" "pools s' = (pools ?s)(next_pool ?s \<mapsto> bp)"
      "buffer_pools s' = (buffer_pools ?s)(''t'' \<mapsto> next_pool ?s)"
      "fd_buffer_pools s' = (fd_buffer_pools ?s)(3 \<mapsto> next_pool ?s)"
    using bpm_open_file_ok [OF inv _ _ assms _ op] n fm(3) by (auto simp: MEM_POOL_ITEM_NUM_def)
  have "fm_rep (frame_manager s') [(frame_id 3 0, h)]" using r(2) by (simp add: entries_inv_def)
  note c = cached_rep [OF this]
  show thesis
    by (rule that [of s' bp h]) (use r [unfolded n] st c in \<open>auto simp: bp_inv_def\<close>)
qed

lemma header_file_ok: "file_ok [header_page]"
  by (simp add: file_ok_def header_page_def zero_page_def)

section \<open>Reading\<close>

text \<open>
  C36. Reading a page: \<^verbatim>\<open>get_this_page\<close> always returns, keeps the invariant and changes the contents
  of no page of any file, whatever it has to flush and evict.  On success the frame holds
  exactly the current contents of the page and its pin count went up by one (from 0 when the page was
  not cached); every other pinned frame stays where it is with its pin count and
  contents.  It fails only when all frames are pinned or a read or write fails; without I/O
  failures an existing page is always delivered unless all frames are pinned.
\<close>

theorem get_this_page_correct:
  assumes "bp_inv s" "registered s b bp"
  shows "\<exists>rc r s'. get_this_page b p s = Some (rc, r, s') \<and> bp_inv s' \<and> page_view s' = page_view s \<and>
    registered s' b bp \<and>
    (rc = SUCCESS \<longrightarrow> (\<exists>a. r = Some a \<and> cached s' (bp_file_desc bp) p = Some a \<and>
       page_view s (bp_file_desc bp) p = Some (page (frame_of s' a)) \<and>
       pin_count (frame_of s' a) = (case cached s (bp_file_desc bp) p of
          None \<Rightarrow> 1 | Some a' \<Rightarrow> pin_count (frame_of s a') + 1))) \<and>
    (\<forall>fd q a. cached s fd q = Some a \<and> pin_count (frame_of s a) > 0 \<and> (fd, q) \<noteq> (bp_file_desc bp, p) \<longrightarrow>
       cached s' fd q = Some a \<and> pin_count (frame_of s' a) = pin_count (frame_of s a) \<and>
       page (frame_of s' a) = page (frame_of s a)) \<and>
    (rc \<noteq> SUCCESS \<longrightarrow> r = None \<and> rc \<in> {NOMEM, IOERR_WRITE, IOERR_SEEK, IOERR_READ} \<and>
       (os_io_faults (os s) = [] \<and> page_view s (bp_file_desc bp) p \<noteq> None \<longrightarrow> rc = NOMEM))"
proof -
  obtain es where es: "entries_inv s es" using assms(1) by (auto simp: bp_inv_def)
  from es assms(2) show ?thesis
  proof (cases rule: get_this_page_cases [where p = p])
    case (hit a s0 es0)
    let ?f = "\<lambda>f. f\<lparr>pin_count := pin_count f + 1\<rparr>"
    have inv0: "bp_inv s0" and c0: "cached s0 (bp_file_desc bp) p = Some a"
      using hit by (auto simp: bp_inv_def)
    have "entries_inv (upd_frame a ?f s0) es0"
      using hit(3) c0 cached_rep [of s0 es0]
      by (intro entries_upd [where k = "frame_id (bp_file_desc bp) p"]) (auto simp: entries_inv_def)
    moreover have "page_view (upd_frame a ?f s0) = page_view s"
      using page_view_pin [OF inv0 c0, of ?f] hit(2) by (simp add: unseen_def)
    moreover have "registered (upd_frame a ?f s0) b bp"
      using registered_unseen [OF hit(2) assms(2)] by (simp add: registered_def)
    moreover have "a' \<noteq> a" if "cached s fd q = Some a'" "(fd, q) \<noteq> (bp_file_desc bp, p)" for fd q a'
      using cached_unique [OF assms(1) hit(5), of fd q] that by auto
    moreover have "page_view s (bp_file_desc bp) p = Some (page (frame_of s a))"
      using hit(5) by (simp add: page_view_def)
    ultimately show ?thesis
      using hit by (intro exI [of _ SUCCESS] exI [of _ "Some a"] exI [of _ "upd_frame a ?f s0"])
        (auto simp: bp_inv_def)
  next
    case (loaded a s1 es1)
    have "page_view s (bp_file_desc bp) p = Some (page (frame_of s1 a))"
    proof -
      have "page_view s1 (bp_file_desc bp) p = Some (page (frame_of s1 a))" using loaded(5) by (simp add: page_view_def)
      then show ?thesis using loaded(2) by (simp add: unseen_def)
    qed
    moreover have "registered s1 b bp" using registered_unseen [OF loaded(2) assms(2)] .
    ultimately show ?thesis
      using loaded unseen_page [OF loaded(2)]
      by (intro exI [of _ SUCCESS] exI [of _ "Some a"] exI [of _ s1]) (auto simp: bp_inv_def unseen_def)
  next
    case (failed rc s1 es1)
    have "registered s1 b bp" using registered_unseen [OF failed(2) assms(2)] .
    moreover have "stored (os s) (bp_file_desc bp) p \<noteq> None" if "page_view s (bp_file_desc bp) p \<noteq> None"
      using that failed(5) by (simp add: page_view_def)
    ultimately show ?thesis
      using failed unseen_page [OF failed(2)]
      by (intro exI [of _ rc] exI [of _ None] exI [of _ s1]) (auto simp: bp_inv_def unseen_def)
  qed
qed

theorem get_this_page_correct_witness:
  "\<exists>s b r s'. bpm_open_file ''t'' (bpm_new (demo_os [header_page])) = Some (SUCCESS, Some b, s) \<and>
     get_this_page b 0 s = Some (SUCCESS, r, s') \<and> bp_inv s' \<and> page_view s' = page_view s \<and>
     (\<exists>a. r = Some a \<and> page (frame_of s' a) = header_page \<and> pin_count (frame_of s' a) = 2)"
proof -
  obtain s bp h where d: "bpm_open_file ''t'' (bpm_new (demo_os [header_page])) = Some (SUCCESS, Some 0, s)" "bp_inv s"
      "registered s 0 bp" "bp_file_desc bp = 3" "cached s 3 0 = Some h" "pin_count (frame_of s h) = 1"
      "page (frame_of s h) = header_page"
    by (rule demo_open [OF header_file_ok]) auto
  have v: "page_view s 3 0 = Some header_page" using d by (simp add: page_view_def)
  obtain rc r s' where g: "get_this_page 0 0 s = Some (rc, r, s')" "bp_inv s'" "page_view s' = page_view s"
      "rc = SUCCESS \<longrightarrow> (\<exists>a. r = Some a \<and> page_view s (bp_file_desc bp) 0 = Some (page (frame_of s' a)) \<and>
       pin_count (frame_of s' a) = (case cached s (bp_file_desc bp) 0 of
          None \<Rightarrow> 1 | Some a' \<Rightarrow> pin_count (frame_of s a') + 1))"
    using get_this_page_correct [OF d(2,3), of 0] by blast
  have "rc = SUCCESS"
  proof -
    obtain es where es: "entries_inv s es" using d(2) by (auto simp: bp_inv_def)
    then show ?thesis using d g(1)
      by (cases rule: get_this_page_cases [OF es d(3), of 0]) auto
  qed
  then show ?thesis using d g v by (intro exI [of _ s] exI [of _ "0::nat"] exI [of _ r] exI [of _ s']) auto
qed

section \<open>A client of the pool\<close>

text \<open>
  The calls of a client: fetch a page, modify a page it has pinned, unpin it, purge a page, flush
  all pages of a pool.
\<close>

datatype client_op =
    CGet nat PageNum
  | CWrite nat PageNum "mem \<Rightarrow> mem"
  | CUnpin nat PageNum
  | CPurge nat PageNum
  | CFlushAll nat

definition pool_fd :: "BPSys \<Rightarrow> nat \<Rightarrow> int" where
  "pool_fd s b = (case pools s b of None \<Rightarrow> - 1 | Some bp \<Rightarrow> bp_file_desc bp)"

definition holds :: "BPSys \<Rightarrow> nat \<Rightarrow> PageNum \<Rightarrow> nat \<Rightarrow> bool" where
  "holds s b p a \<longleftrightarrow> pools s b \<noteq> None \<and> cached s (pool_fd s b) p = Some a \<and> pin_count (frame_of s a) > 0"

inductive client_step :: "BPSys \<Rightarrow> client_op \<Rightarrow> BPSys \<Rightarrow> bool" where
  step_get: "get_this_page b p s = Some (rc, r, s') \<Longrightarrow> client_step s (CGet b p) s'"
| step_write: "holds s b p a \<Longrightarrow> client_step s (CWrite b p g) (write_page a g s)"
| step_unpin: "holds s b p a \<Longrightarrow> unpin_page b a s = Some (rc, s') \<Longrightarrow> client_step s (CUnpin b p) s'"
| step_purge: "purge_page b p s = Some (rc, s') \<Longrightarrow> client_step s (CPurge b p) s'"
| step_flush: "flush_all_pages b s = Some (rc, s') \<Longrightarrow> client_step s (CFlushAll b) s'"

inductive_cases client_stepE:
  "client_step s (CGet b p) s'" "client_step s (CWrite b p g) s'" "client_step s (CUnpin b p) s'"
  "client_step s (CPurge b p) s'" "client_step s (CFlushAll b) s'"

inductive client_run :: "BPSys \<Rightarrow> client_op list \<Rightarrow> BPSys \<Rightarrow> bool" where
  run_nil: "client_run s [] s"
| run_cons: "client_step s c s1 \<Longrightarrow> client_run s1 cs s2 \<Longrightarrow> client_run s (c # cs) s2"

text \<open>The specification: a table of pages in which only writes leave a trace.\<close>

type_synonym page_table = "int \<Rightarrow> PageNum \<Rightarrow> Page option"

fun table_step :: "(nat \<Rightarrow> int) \<Rightarrow> client_op \<Rightarrow> page_table \<Rightarrow> page_table" where
  "table_step fd (CWrite b p g) v = (\<lambda>fd' q. if fd' = fd b \<and> q = p
     then map_option (\<lambda>pg. pg\<lparr>data := g (data pg)\<rparr>) (v fd' q) else v fd' q)"
| "table_step fd _ v = v"

definition client_ok :: "BPSys \<Rightarrow> bool" where
  "client_ok s \<longleftrightarrow> bp_inv s \<and>
     (\<forall>b bp. pools s b = Some bp \<longrightarrow> registered s b bp \<and> bp_disposed_pages bp = {})"

lemma unseen_pools: "unseen s s' \<Longrightarrow> pools s' = pools s"
  by (simp add: unseen_def)

lemma client_ok_unseen: "client_ok s \<Longrightarrow> unseen s s' \<Longrightarrow> bp_inv s' \<Longrightarrow> client_ok s'"
  unfolding client_ok_def using unseen_pools [of s s'] registered_unseen [of s s'] by simp

lemma client_ok_upd: "client_ok s \<Longrightarrow> bp_inv (upd_frame a f s) \<Longrightarrow> client_ok (upd_frame a f s)"
  by (simp add: client_ok_def registered_def)

lemma flush_all_loop_ok:
  assumes "entries_inv s es" "pools s b = Some bp"
    and "\<And>a. a \<in> set used \<Longrightarrow> \<exists>k. map_of es k = Some a \<and> fid_file_desc k = bp_file_desc bp"
  shows "\<exists>rc s'. flush_all_loop b used s = Some (rc, s') \<and> entries_inv s' es \<and> unseen s s' \<and>
    (rc = SUCCESS \<or> rc = IOERR_WRITE)"
  using assms
proof (induction used arbitrary: s)
  case Nil
  then show ?case using unseen_refl by auto
next
  case (Cons a used)
  obtain k where k: "map_of es k = Some a" "fid_file_desc k = bp_file_desc bp"
    using Cons.prems(3) [of a] by auto
  obtain rc s1 where f: "flush_page b a s = Some (rc, s1)" "entries_inv s1 es" "unseen s s1"
      "rc = SUCCESS \<or> rc = IOERR_WRITE"
    using flush_cached [OF Cons.prems(1) k(1) Cons.prems(2)] k(2) by metis
  have "pools s1 b = Some bp" using f(3) Cons.prems(2) by (simp add: unseen_def)
  with Cons.IH [OF f(2)] Cons.prems(3) obtain rc' s2 where
      "flush_all_loop b used s1 = Some (rc', s2)" "entries_inv s2 es" "unseen s1 s2" "rc' = SUCCESS \<or> rc' = IOERR_WRITE"
    by (metis list.set_intros(2))
  then show ?case using f unseen_trans [OF f(3)] by (cases "rc = SUCCESS") auto
qed

lemma flush_all_pages_ok:
  assumes "bp_inv s" "pools s b = Some bp"
  shows "\<exists>rc s'. flush_all_pages b s = Some (rc, s') \<and> bp_inv s' \<and> unseen s s' \<and>
    (rc = SUCCESS \<or> rc = IOERR_WRITE)"
proof -
  obtain es where es: "entries_inv s es" using assms(1) by (auto simp: bp_inv_def)
  then have rep: "fm_rep (frame_manager s) es" by (simp add: entries_inv_def)
  let ?used = "map snd (filter (\<lambda>e. fid_file_desc (fst e) = bp_file_desc bp) es)"
  have "\<exists>k. map_of es k = Some a \<and> fid_file_desc k = bp_file_desc bp" if "a \<in> set ?used" for a
    using that map_of_in [OF rep] by force
  from flush_all_loop_ok [OF es assms(2) this] obtain rc s' where
      "flush_all_loop b ?used s = Some (rc, s')" "entries_inv s' es" "unseen s s'" "rc = SUCCESS \<or> rc = IOERR_WRITE"
    by blast
  then show ?thesis
    using find_list_rep [OF rep, of "bp_file_desc bp"] assms(2) by (auto simp: flush_all_pages_def bp_inv_def)
qed

lemma client_step_sound:
  assumes "client_step s c s'" "client_ok s"
  shows "client_ok s' \<and> page_view s' = table_step (pool_fd s) c (page_view s) \<and> pool_fd s' = pool_fd s"
  using assms
proof (cases rule: client_step.cases)
  case (step_get b p rc r)
  then obtain bp where "pools s b = Some bp" by (auto simp: get_this_page_def split: Option.bind_splits)
  then have reg: "registered s b bp" using assms(2) by (simp add: client_ok_def)
  obtain es where es: "entries_inv s es" using assms(2) by (auto simp: bp_inv_def client_ok_def)
  from es reg show ?thesis
  proof (cases rule: get_this_page_cases [where p = p])
    case (hit a s0 es0)
    let ?f = "\<lambda>f. f\<lparr>pin_count := pin_count f + 1\<rparr>"
    have s': "s' = upd_frame a ?f s0" using hit(1) step_get by simp
    have inv0: "bp_inv s0" and c0: "cached s0 (bp_file_desc bp) p = Some a" using hit by (auto simp: bp_inv_def)
    have "bp_inv s'" unfolding bp_inv_def s' using hit(3) c0 cached_rep [of s0 es0]
      by (intro exI [of _ es0] entries_upd [where k = "frame_id (bp_file_desc bp) p"]) (auto simp: entries_inv_def)
    moreover have "client_ok s0" using client_ok_unseen [OF assms(2) hit(2) inv0] .
    moreover have "page_view s' = page_view s0"
      using page_view_pin [OF inv0 c0, of ?f] unfolding s' by simp
    ultimately show ?thesis
      using client_ok_upd [of s0 a ?f] hit(2) step_get(1) unfolding s'
      by (auto simp: unseen_def pool_fd_def fun_eq_iff)
  next
    case (loaded a s1 es1)
    then show ?thesis using step_get client_ok_unseen [OF assms(2) loaded(2)]
      by (auto simp: bp_inv_def unseen_def pool_fd_def fun_eq_iff)
  next
    case (failed rc s1 es1)
    then show ?thesis using step_get client_ok_unseen [OF assms(2) failed(2)]
      by (auto simp: bp_inv_def unseen_def pool_fd_def fun_eq_iff)
  qed
next
  case (step_write b p a g)
  have c: "bp_inv s" "cached s (pool_fd s b) p = Some a"
    using step_write assms(2) by (auto simp: holds_def client_ok_def)
  note w = write_page_inv [OF c, where g = g]
  have "page_view s (pool_fd s b) p = Some (page (frame_of s a))" using c(2) by (simp add: page_view_def)
  then have "page_view s' = table_step (pool_fd s) c (page_view s)"
    using w(2) step_write by (auto simp: fun_eq_iff)
  moreover have "client_ok s'"
    using client_ok_upd [OF assms(2)] w(1) step_write by (simp add: write_page_frame)
  moreover have "pool_fd s' = pool_fd s" using step_write by (simp add: write_page_frame pool_fd_def fun_eq_iff)
  ultimately show ?thesis by simp
next
  case (step_unpin b p a rc)
  let ?f = "\<lambda>f. f\<lparr>pin_count := pin_count f - 1\<rparr>"
  obtain bp where bp: "pools s b = Some bp" "pool_fd s b = bp_file_desc bp"
    using step_unpin by (auto simp: holds_def pool_fd_def)
  have c: "bp_inv s" "cached s (pool_fd s b) p = Some a" "bp_disposed_pages bp = {}"
    using step_unpin assms(2) bp by (auto simp: holds_def client_ok_def)
  have s': "s' = upd_frame a ?f s" using step_unpin c(3) bp by (auto simp: unpin_page_def Let_def split: if_splits)
  obtain es where es: "entries_inv s es" "map_of es (frame_id (pool_fd s b) p) = Some a"
    using bp_inv_cached [OF c(1,2)] by blast
  have "bp_inv s'" unfolding bp_inv_def s' by (intro exI [of _ es] entries_upd [OF es]) auto
  moreover have "page_view s' = page_view s"
    using page_view_pin [OF c(1,2), of ?f] unfolding s' by simp
  ultimately show ?thesis
    using client_ok_upd [OF assms(2), of a ?f] step_unpin(1) unfolding s' by (simp add: pool_fd_def fun_eq_iff)
next
  case (step_purge b p rc)
  then obtain bp where "pools s b = Some bp" by (auto simp: purge_page_def split: Option.bind_splits)
  then have reg: "registered s b bp" using assms(2) by (simp add: client_ok_def)
  obtain es where es: "entries_inv s es" using assms(2) by (auto simp: bp_inv_def client_ok_def)
  obtain s1 es' where "purge_page b p s = Some (rc, s1)" "unseen s s1" "entries_inv s1 es'"
    using purge_page_cases [OF es reg, of p] step_purge by (metis option.inject prod.inject)
  then show ?thesis using step_purge client_ok_unseen [OF assms(2)]
    by (auto simp: bp_inv_def unseen_def pool_fd_def fun_eq_iff)
next
  case (step_flush b rc)
  then obtain bp where "pools s b = Some bp" by (auto simp: flush_all_pages_def split: Option.bind_splits)
  then obtain s1 where "flush_all_pages b s = Some (rc, s1)" "bp_inv s1" "unseen s s1"
    using flush_all_pages_ok [of s b bp] assms(2) step_flush by (auto simp: client_ok_def)
  then show ?thesis using step_flush client_ok_unseen [OF assms(2)]
    by (auto simp: unseen_def pool_fd_def fun_eq_iff)
qed

lemma client_run_sound:
  assumes "client_run s cs s'" "client_ok s"
  shows "client_ok s' \<and> page_view s' = fold (table_step (pool_fd s)) cs (page_view s) \<and> pool_fd s' = pool_fd s"
  using assms
proof (induction rule: client_run.induct)
  case (run_cons s c s1 cs s2)
  then show ?case using client_step_sound [OF run_cons(1,4)] by auto
qed simp

text \<open>
  C4. Refinement to a table of pages: after any sequence of fetches, writes, unpins, purges and
  flushes by clients, with any pattern of failing reads and writes, the contents of every page
  are those of a plain table in which only the writes took place.  Caching, eviction order and
  write-back are not observable, and the invariant of the pool holds again.
\<close>

theorem buffer_pool_refines_table:
  assumes "client_ok s" "client_run s cs s'"
  shows "client_ok s' \<and> page_view s' = fold (table_step (pool_fd s)) cs (page_view s)"
  using client_run_sound [OF assms(2,1)] by simp

lemma demo_client_ok:
  "\<exists>s h. bpm_open_file ''t'' (bpm_new (demo_os [header_page])) = Some (SUCCESS, Some 0, s) \<and> client_ok s \<and> holds s 0 0 h \<and>
     page_view s 3 0 = Some header_page \<and> pool_fd s 0 = 3"
proof -
  obtain s bp h where d: "bpm_open_file ''t'' (bpm_new (demo_os [header_page])) = Some (SUCCESS, Some 0, s)" "bp_inv s"
      "registered s 0 bp" "bp_file_desc bp = 3" "bp_disposed_pages bp = {}" "cached s 3 0 = Some h"
      "pin_count (frame_of s h) = 1" "page (frame_of s h) = header_page" "pools s = [0 \<mapsto> bp]"
    by (rule demo_open [OF header_file_ok]) auto
  then show ?thesis
    by (intro exI [of _ s] exI [of _ h]) (auto simp: client_ok_def holds_def pool_fd_def page_view_def)
qed

theorem buffer_pool_refines_table_witness:
  "\<exists>s s'. bpm_open_file ''t'' (bpm_new (demo_os [header_page])) = Some (SUCCESS, Some 0, s) \<and>
     client_run s [CWrite 0 0 (\<lambda>d. d(100 := 7))] s' \<and>
     map_option (\<lambda>pg. data pg 100) (page_view s' 3 0) = Some 7"
proof -
  obtain s h where d: "bpm_open_file ''t'' (bpm_new (demo_os [header_page])) = Some (SUCCESS, Some 0, s)" "client_ok s"
      "holds s 0 0 h" "page_view s 3 0 = Some header_page" "pool_fd s 0 = 3"
    using demo_client_ok by blast
  let ?g = "\<lambda>d :: mem. d(100 := 7)"
  have run: "client_run s [CWrite 0 0 ?g] (write_page h ?g s)"
    by (rule run_cons [OF step_write [OF d(3)] run_nil])
  have "page_view (write_page h ?g s) 3 0 = Some (header_page\<lparr>data := ?g (data header_page)\<rparr>)"
    using buffer_pool_refines_table [OF d(2) run] d(4,5) by simp
  then show ?thesis using d(1) run by (intro exI [of _ s] exI [of _ "write_page h ?g s"]) simp
qed

end
