(* ===== verification/Ob_BufferPoolHeader.thy ===== *)
theory Ob_BufferPoolHeader
  imports Ob_BufferPoolCorrect
begin

text \<open>
  Page allocation: the counters and the bitmap of the file header stay consistent (\<open>hdr_ok\<close>) under
  \<^verbatim>\<open>allocate_page\<close> and \<^verbatim>\<open>dispose_page\<close>, an allocated page is one that was free, and no other page
  changes.  The last section states where the code departs from its intent.
\<close>

section \<open>Header fields\<close>

lemma hdr_bit_get: "hdr_bit d i = get_bit (hdr_bitmap d n) i"
  by (simp add: hdr_bit_def get_bit_def hdr_bitmap_def at_off_def)

lemma hdr_bitmap_set: "hdr_bitmap (hdr_set_bit i d) n = set_bit (hdr_bitmap d n) i"
  by (auto simp: hdr_bitmap_def hdr_set_bit_def set_bit_def at_off_def)

lemma hdr_bitmap_clear: "hdr_bitmap (hdr_clear_bit i d) n = clear_bit (hdr_bitmap d n) i"
  by (auto simp: hdr_bitmap_def hdr_clear_bit_def clear_bit_def at_off_def)

lemma hdr_bit_set [simp]: "hdr_bit (hdr_set_bit i d) j \<longleftrightarrow> j = i \<or> hdr_bit d j"
  by (auto simp: hdr_bit_get [where n = 0] hdr_bitmap_set)

lemma hdr_bit_clear [simp]: "hdr_bit (hdr_clear_bit i d) j \<longleftrightarrow> j \<noteq> i \<and> hdr_bit d j"
  by (auto simp: hdr_bit_get [where n = 0] hdr_bitmap_clear)

lemma hdr_bit_counters [simp]:
  "hdr_bit (set_page_count v d) j = hdr_bit d j" "hdr_bit (set_allocated_pages v d) j = hdr_bit d j"
  by (simp_all add: hdr_bit_def set_page_count_def set_allocated_pages_def mem_simps)

lemma hdr_counters [simp]:
  "hdr_page_count (set_page_count v d) = wrap32 v"
  "hdr_page_count (set_allocated_pages v d) = hdr_page_count d"
  "hdr_allocated_pages (set_allocated_pages v d) = wrap32 v"
  "hdr_allocated_pages (set_page_count v d) = hdr_allocated_pages d"
  by (simp_all add: hdr_page_count_def hdr_allocated_pages_def set_page_count_def set_allocated_pages_def mem_simps)

lemma hdr_counters_bits [simp]:
  "hdr_page_count (hdr_set_bit i d) = hdr_page_count d"
  "hdr_page_count (hdr_clear_bit i d) = hdr_page_count d"
  "hdr_allocated_pages (hdr_set_bit i d) = hdr_allocated_pages d"
  "hdr_allocated_pages (hdr_clear_bit i d) = hdr_allocated_pages d"
  by (auto simp: hdr_page_count_def hdr_allocated_pages_def hdr_set_bit_def hdr_clear_bit_def
      intro!: load_int_cong)

section \<open>Consistency of the header\<close>

definition allocated_set :: "mem \<Rightarrow> nat set" where
  "allocated_set d = {i. i < nat (hdr_page_count d) \<and> hdr_bit d i}"

definition hdr_ok :: "mem \<Rightarrow> bool" where
  "hdr_ok d \<longleftrightarrow> 1 \<le> hdr_page_count d \<and> hdr_page_count d \<le> MAX_PAGE_NUM \<and> hdr_bit d 0 \<and>
     hdr_allocated_pages d = int (card (allocated_set d))"

lemma max_page_num: "MAX_PAGE_NUM = 130976"
  by (simp add: MAX_PAGE_NUM_def BP_PAGE_DATA_SIZE_def BP_PAGE_SIZE_def)

lemma finite_allocated [simp]: "finite (allocated_set d)"
  by (simp add: allocated_set_def)

lemma card_allocated: "card (allocated_set d) \<le> nat (hdr_page_count d)"
  using card_mono [of "{..<nat (hdr_page_count d)}" "allocated_set d"] by (auto simp: allocated_set_def)

lemma wrap32_small: "- 1000000 \<le> x \<Longrightarrow> x \<le> 1000000 \<Longrightarrow> wrap32 x = x"
  by (rule wrap32_id) simp_all

lemma hdr_ok_reuse:
  assumes "hdr_ok d" "i < nat (hdr_page_count d)" "\<not> hdr_bit d i"
  shows "hdr_ok (hdr_set_bit i (set_allocated_pages (hdr_allocated_pages d + 1) d))"
    "hdr_allocated_pages (hdr_set_bit i (set_allocated_pages (hdr_allocated_pages d + 1) d)) = hdr_allocated_pages d + 1"
proof -
  let ?d = "hdr_set_bit i (set_allocated_pages (hdr_allocated_pages d + 1) d)"
  have "allocated_set ?d = insert i (allocated_set d)" using assms(2) by (auto simp: allocated_set_def)
  moreover have "i \<notin> allocated_set d" using assms(3) by (simp add: allocated_set_def)
  ultimately have "card (allocated_set ?d) = Suc (card (allocated_set d))" by simp
  moreover have "wrap32 (hdr_allocated_pages d + 1) = hdr_allocated_pages d + 1"
    using assms(1) card_allocated [of d] by (intro wrap32_small) (auto simp: hdr_ok_def max_page_num)
  ultimately show "hdr_ok ?d" "hdr_allocated_pages ?d = hdr_allocated_pages d + 1"
    using assms(1) by (auto simp: hdr_ok_def)
qed

lemma hdr_ok_extend:
  assumes "hdr_ok d" "hdr_page_count d < MAX_PAGE_NUM"
  defines "d' \<equiv> hdr_set_bit (nat (hdr_page_count d)) (set_page_count (hdr_page_count d + 1)
      (set_allocated_pages (hdr_allocated_pages d + 1) d))"
  shows "hdr_ok d'" "hdr_allocated_pages d' = hdr_allocated_pages d + 1" "hdr_page_count d' = hdr_page_count d + 1"
proof -
  let ?n = "nat (hdr_page_count d)"
  have w: "wrap32 (hdr_page_count d + 1) = hdr_page_count d + 1" "wrap32 (hdr_allocated_pages d + 1) = hdr_allocated_pages d + 1"
    using assms(1,2) card_allocated [of d] by (auto intro!: wrap32_small simp: hdr_ok_def max_page_num)
  have "allocated_set d' = insert ?n (allocated_set d)"
    using w assms(1) by (auto simp: allocated_set_def d'_def hdr_ok_def less_Suc_eq nat_add_distrib)
  then have "card (allocated_set d') = Suc (card (allocated_set d))" by (simp add: allocated_set_def)
  then show "hdr_ok d'" "hdr_allocated_pages d' = hdr_allocated_pages d + 1" "hdr_page_count d' = hdr_page_count d + 1"
    using assms(1,2) w by (auto simp: hdr_ok_def d'_def)
qed

lemma hdr_ok_dispose:
  assumes "hdr_ok d" "i \<in> allocated_set d" "i \<noteq> 0"
  shows "hdr_ok (hdr_clear_bit i (set_allocated_pages (hdr_allocated_pages d - 1) d))"
    "hdr_allocated_pages (hdr_clear_bit i (set_allocated_pages (hdr_allocated_pages d - 1) d)) = hdr_allocated_pages d - 1"
proof -
  let ?d = "hdr_clear_bit i (set_allocated_pages (hdr_allocated_pages d - 1) d)"
  have "allocated_set ?d = allocated_set d - {i}" by (auto simp: allocated_set_def)
  then have "card (allocated_set d) = Suc (card (allocated_set ?d))"
    using assms(2) by (metis card.remove finite_allocated)
  moreover have "wrap32 (hdr_allocated_pages d - 1) = hdr_allocated_pages d - 1"
    using assms(1) card_allocated [of d] by (intro wrap32_small) (auto simp: hdr_ok_def max_page_num)
  ultimately show "hdr_ok ?d" "hdr_allocated_pages ?d = hdr_allocated_pages d - 1"
    using assms(1,3) by (auto simp: hdr_ok_def)
qed

lemma header_page_ok: "hdr_ok (data header_page)" "hdr_page_count (data header_page) = 1"
proof -
  have d: "data header_page = hdr_set_bit 0 (set_page_count 1 (set_allocated_pages 1 (\<lambda>_. 0)))"
    by (simp add: header_page_def hdr_set_bit_def Let_def zero_page_def)
  then show c: "hdr_page_count (data header_page) = 1" by simp
  have "allocated_set (data header_page) = {0}" using c by (auto simp: allocated_set_def) (simp add: d)
  then show "hdr_ok (data header_page)" using c by (simp add: hdr_ok_def max_page_num) (simp add: d)
qed

section \<open>An open pool with its header\<close>

abbreviation header_data :: "BPSys \<Rightarrow> nat \<Rightarrow> mem" where
  "header_data s h \<equiv> data (page (frame_of s h))"

text \<open>The header frame is pinned and consistent, and the file has exactly the counted pages.\<close>

definition pool_ok :: "BPSys \<Rightarrow> nat \<Rightarrow> DiskBufferPool \<Rightarrow> nat \<Rightarrow> bool" where
  "pool_ok s b bp h \<longleftrightarrow> registered s b bp \<and> bp_hdr_frame bp = Some h \<and>
     cached s (bp_file_desc bp) 0 = Some h \<and> pin_count (frame_of s h) > 0 \<and> hdr_ok (header_data s h) \<and>
     (\<forall>q. stored (os s) (bp_file_desc bp) q \<noteq> None \<longleftrightarrow> 0 \<le> q \<and> q < hdr_page_count (header_data s h))"

lemma pool_ok_unseen:
  assumes "unseen s s'" "pool_ok s b bp h"
  shows "pool_ok s' b bp h" "header_data s' h = header_data s h"
proof -
  have c: "cached s (bp_file_desc bp) 0 = Some h" "pin_count (frame_of s h) > 0" using assms(2) by (auto simp: pool_ok_def)
  note u = unseen_page [OF assms(1) c]
  then show "header_data s' h = header_data s h" by simp
  have "stored (os s') fd q = None \<longleftrightarrow> stored (os s) fd q = None" for fd q
    using assms(1) by (simp add: unseen_def)
  then show "pool_ok s' b bp h"
    using assms u registered_unseen [OF assms(1), of b bp] by (auto simp: pool_ok_def)
qed

lemma pool_ok_upd_other:
  assumes "pool_ok s b bp h" "a \<noteq> h"
  shows "pool_ok (upd_frame a f s) b bp h"
  using assms by (simp add: pool_ok_def registered_def)

text \<open>Changing the header through a dirty frame.\<close>

lemma header_upd:
  assumes inv: "entries_inv s es" and ok: "pool_ok s b bp h"
    and g: "hdr_ok (g (header_data s h))" "hdr_page_count (g (header_data s h)) = hdr_page_count (header_data s h)"
  shows "entries_inv (write_page h g s) es" "pool_ok (write_page h g s) b bp h"
    "header_data (write_page h g s) h = g (header_data s h)"
proof -
  have rep: "fm_rep (frame_manager s) es" using inv by (simp add: entries_inv_def)
  have "map_of es (frame_id (bp_file_desc bp) 0) = Some h" using cached_rep [OF rep] ok by (simp add: pool_ok_def)
  then show "entries_inv (write_page h g s) es" unfolding write_page_frame by (intro entries_upd [OF inv]) auto
  show "pool_ok (write_page h g s) b bp h" "header_data (write_page h g s) h = g (header_data s h)"
    using ok g by (simp_all add: write_page_frame pool_ok_def registered_def)
qed

lemma free_page_cases:
  assumes "hdr_ok d"
  obtains (free) i where "free_page d = int i" "i < nat (hdr_page_count d)" "\<not> hdr_bit d i" "i \<noteq> 0"
    | (none) "free_page d = - 1"
proof (cases "free_page d = - 1")
  case False
  then obtain i where "free_page d = int i" "i < nat (hdr_page_count d)" "\<not> hdr_bit d i"
    unfolding free_page_def using first_from_nonneg by blast
  moreover have "i \<noteq> 0" using calculation(3) assms by (auto simp: hdr_ok_def intro: gr0I)
  ultimately show thesis using free by blast
qed (use none in blast)

lemma allocate_reuse:
  assumes inv: "entries_inv s es" and ok: "pool_ok s b bp h" and io: "os_io_faults (os s) = []"
    and i: "i < nat (hdr_page_count (header_data s h))" "\<not> hdr_bit (header_data s h) i" "i \<noteq> 0"
  defines "g \<equiv> \<lambda>d. hdr_set_bit i (set_allocated_pages (hdr_allocated_pages d + 1) d)"
  shows "\<exists>rc r s'. get_this_page b (int i) (write_page h g s) = Some (rc, r, s') \<and> bp_inv s' \<and> pool_ok s' b bp h \<and>
    header_data s' h = g (header_data s h) \<and> (rc = SUCCESS \<or> rc = NOMEM) \<and>
    (rc = SUCCESS \<longrightarrow> (\<exists>a. r = Some a \<and> cached s' (bp_file_desc bp) (int i) = Some a)) \<and>
    (\<forall>fd q. (fd, q) \<noteq> (bp_file_desc bp, 0) \<longrightarrow> page_view s' fd q = page_view s fd q)"
proof -
  let ?s = "write_page h g s" and ?fd = "bp_file_desc bp"
  have hok: "hdr_ok (header_data s h)" using ok by (simp add: pool_ok_def)
  have g: "hdr_ok (g (header_data s h))" "hdr_page_count (g (header_data s h)) = hdr_page_count (header_data s h)"
    using hdr_ok_reuse [OF hok i(1,2)] by (simp_all add: g_def)
  note u = header_upd [of s es b bp h g, OF inv ok g]
  have c: "cached s ?fd 0 = Some h" using ok by (simp add: pool_ok_def)
  have inv1: "bp_inv s" "bp_inv ?s" using inv u(1) by (auto simp: bp_inv_def)
  have pv: "page_view ?s fd q = page_view s fd q" if "(fd, q) \<noteq> (?fd, 0)" for fd q
    using write_page_inv(2) [OF inv1(1) c, of g fd q] that by auto
  have st: "stored (os ?s) ?fd (int i) \<noteq> None"
    using u(2,3) g(2) i(1) unfolding pool_ok_def by (metis nat_less_iff of_nat_0_le_iff of_nat_less_iff zless_nat_eq_int_zless)
  have io': "os_io_faults (os ?s) = []" using io by (simp add: write_page_frame)
  have reg: "registered ?s b bp" using u(2) by (simp add: pool_ok_def)
  from u(1) reg show ?thesis
  proof (cases rule: get_this_page_cases [where p = "int i"])
    case (hit a s0 es0)
    let ?f = "\<lambda>f. f\<lparr>pin_count := pin_count f + 1\<rparr>"
    have inv0: "bp_inv s0" and c0: "cached s0 ?fd (int i) = Some a" using hit by (auto simp: bp_inv_def)
    have ah: "a \<noteq> h" using cached_unique [OF inv1(2) hit(5), of ?fd 0] c i(3) by (auto simp: write_page_frame)
    have "entries_inv (upd_frame a ?f s0) es0"
      using hit(3) c0 cached_rep [of s0 es0]
      by (intro entries_upd [where k = "frame_id ?fd (int i)"]) (auto simp: entries_inv_def)
    moreover have "page_view (upd_frame a ?f s0) fd q = page_view ?s fd q" for fd q
      using page_view_pin [OF inv0 c0, of ?f] hit(2) by (simp add: unseen_def)
    ultimately show ?thesis
      using hit(1) pv pool_ok_upd_other [OF pool_ok_unseen(1) [OF hit(2) u(2)] ah, of ?f] c0 ah
        pool_ok_unseen(2) [OF hit(2) u(2)] u(3)
      by (intro exI [of _ SUCCESS] exI [of _ "Some a"] exI [of _ "upd_frame a ?f s0"]) (auto simp: bp_inv_def)
  next
    case (loaded a s1 es1)
    then show ?thesis
      using pv pool_ok_unseen [OF loaded(2) u(2)] u(3)
      by (intro exI [of _ SUCCESS] exI [of _ "Some a"] exI [of _ s1]) (auto simp: bp_inv_def unseen_def)
  next
    case (failed rc s1 es1)
    have "rc = NOMEM" using failed(6) [OF io' st] .
    then show ?thesis
      using failed pv pool_ok_unseen [OF failed(2) u(2)] u(3)
      by (intro exI [of _ rc] exI [of _ None] exI [of _ s1]) (auto simp: bp_inv_def unseen_def)
  qed
qed

text \<open>The steps of \<^verbatim>\<open>allocate_page\<close> behind a successful \<^verbatim>\<open>allocate_frame\<close>.\<close>

definition extend_header :: "int \<Rightarrow> mem \<Rightarrow> mem" where
  "extend_header p d = hdr_set_bit (nat p) (set_page_count (hdr_page_count d + 1)
     (set_allocated_pages (hdr_allocated_pages d + 1) d))"

definition fresh_frame :: "int \<Rightarrow> PageNum \<Rightarrow> Frame \<Rightarrow> Frame" where
  "fresh_frame fd p f = f\<lparr>dirty := False, frame_file_desc := fd, pin_count := 1,
     page := \<lparr>page_num = p, data = (\<lambda>_. 0)\<rparr>\<rparr>"

lemma allocate_page_extend:
  assumes "pools s b = Some bp" "bp_hdr_frame bp = Some h" "hdr_ok (header_data s h)"
    and "\<not> (hdr_allocated_pages (header_data s h) < hdr_page_count (header_data s h) \<and> free_page (header_data s h) \<ge> 0)"
    and "hdr_page_count (header_data s h) < MAX_PAGE_NUM" "p = hdr_page_count (header_data s h)"
    and "allocate_frame b p s = Some (SUCCESS, Some a, s2)" "a \<noteq> h" "header_data s2 h = header_data s h"
    and "flush_page b a (upd_frame a (fresh_frame (bp_file_desc bp) p) (write_page h (extend_header p) s2)) = Some (rc, s3)"
  shows "allocate_page b s = Some (SUCCESS, Some a, s3)"
proof -
  let ?d = "header_data s h"
  have "wrap32 (hdr_page_count ?d + 1) = p + 1"
    using assms(3,5,6) by (simp add: hdr_ok_def max_page_num wrap32_small)
  then have n: "hdr_page_count (extend_header p ?d) - 1 = p" by (simp add: extend_header_def)
  have eq: "upd_frame a (\<lambda>f. f\<lparr>page := (page f)\<lparr>page_num := p\<rparr>\<rparr>)
      (upd_frame a (\<lambda>f. clear_page (pin_fresh (bp_file_desc bp) f)) (write_page h (extend_header p) s2)) =
    upd_frame a (fresh_frame (bp_file_desc bp) p) (write_page h (extend_header p) s2)"
    by (simp add: upd_frame_def fresh_frame_def clear_page_def pin_fresh_def zero_page_def)
  have wp: "upd_frame h mark_dirty (upd_data h (hdr_set_bit (nat p))
      (upd_data h (\<lambda>d. set_page_count (hdr_page_count d + 1) d)
        (upd_data h (\<lambda>d. set_allocated_pages (hdr_allocated_pages d + 1) d) s2))) = write_page h (extend_header p) s2"
    by (simp add: write_page_frame upd_data_def upd_frame_def extend_header_def mark_dirty_def)
  have hd: "header_data (upd_frame a (\<lambda>f. clear_page (pin_fresh (bp_file_desc bp) f))
      (write_page h (extend_header p) s2)) h = extend_header p ?d"
    using assms(8,9) by (simp add: write_page_frame)
  have "0 \<le> p" using assms(3,6) by (simp add: hdr_ok_def)
  then show ?thesis
    using assms(1,2,4,5,7,10) unfolding assms(6)
    by (cases "hdr_allocated_pages ?d < hdr_page_count ?d")
      (simp_all add: allocate_page_def Let_def wp [unfolded assms(6)] hd [unfolded assms(6)]
        n [unfolded assms(6)] eq [unfolded assms(6)] del: frame_of_upd_frame)
qed

lemma extend_pool:
  assumes inv: "entries_inv s es" and ok: "pool_ok s b bp h" and io: "os_io_faults (os s) = []"
    and p: "p = hdr_page_count (header_data s h)" "p < MAX_PAGE_NUM"
    and a: "a \<notin> snd ` set es" "map_of es (frame_id (bp_file_desc bp) p) = None"
    and rep: "fm_rep (frame_manager s\<lparr>allocator := al, frames := l\<rparr>) ((frame_id (bp_file_desc bp) p, a) # es)"
  defines "s2 \<equiv> with_fm s (frame_manager s\<lparr>allocator := al, frames := l\<rparr>)"
  shows "\<exists>s'. flush_page b a (upd_frame a (fresh_frame (bp_file_desc bp) p) (write_page h (extend_header p) s2)) =
      Some (SUCCESS, s') \<and> bp_inv s' \<and> pool_ok s' b bp h \<and> header_data s' h = extend_header p (header_data s h) \<and>
    cached s' (bp_file_desc bp) p = Some a \<and> pin_count (frame_of s' a) = 1 \<and>
    page_view s' (bp_file_desc bp) p = Some \<lparr>page_num = p, data = (\<lambda>_. 0)\<rparr> \<and>
    (\<forall>fd q. (fd, q) \<noteq> (bp_file_desc bp, 0) \<and> (fd, q) \<noteq> (bp_file_desc bp, p) \<longrightarrow> page_view s' fd q = page_view s fd q)"
proof -
  let ?fd = "bp_file_desc bp" and ?k = "frame_id (bp_file_desc bp) p"
  let ?pg = "\<lparr>page_num = p, data = (\<lambda>_. 0)\<rparr>"
  define s3 where "s3 = upd_frame a (fresh_frame ?fd p) (write_page h (extend_header p) s2)"
  have hok: "hdr_ok (header_data s h)" and osi: "os_inv (os s)" and reps: "fm_rep (frame_manager s) es"
    using ok inv by (auto simp: pool_ok_def entries_inv_def)
  have x: "hdr_ok (extend_header p (header_data s h))" "hdr_page_count (extend_header p (header_data s h)) = p + 1"
    using hdr_ok_extend [OF hok] p unfolding extend_header_def by simp_all
  have p0: "1 \<le> p" using hok p(1) by (simp add: hdr_ok_def)
  have ch: "map_of es (frame_id ?fd 0) = Some h" using cached_rep [OF reps] ok by (simp add: pool_ok_def)
  then have ah: "a \<noteq> h" using a(1) by (force dest: map_of_SomeD)
  have f3: "frame_of s3 a' = (if a' = a then fresh_frame ?fd p (frame_of s a) else if a' = h
      then (frame_of s h)\<lparr>page := (page (frame_of s h))\<lparr>data := extend_header p (header_data s h)\<rparr>, dirty := True\<rparr>
      else frame_of s a')" for a'
    using ah by (simp add: s3_def s2_def write_page_frame)
  have e3: "os s3 = os s" "pools s3 = pools s" "fd_buffer_pools s3 = fd_buffer_pools s"
    by (simp_all add: s3_def s2_def write_page_frame)
  have st: "stored (os s) ?fd q \<noteq> None \<longleftrightarrow> 0 \<le> q \<and> q < p" for q
    using ok p(1) by (simp add: pool_ok_def)
  have fl: "os_inv (os s3)" "pools s3 b = Some bp" "os_fds (os s3) ?fd \<noteq> None" "0 \<le> page_num (page (frame_of s3 a))"
      "page_num (page (frame_of s3 a)) = 0 \<or> stored (os s3) ?fd (page_num (page (frame_of s3 a)) - 1) \<noteq> None"
    using osi ok e3 p0 st [of "p - 1"] by (auto simp: pool_ok_def registered_def f3 fresh_frame_def)
  from fl obtain w where w: "flush_page b a s3 = Some (SUCCESS, upd_frame a (\<lambda>f. f\<lparr>dirty := False\<rparr>) (s3\<lparr>os := w\<rparr>))"
      "os_inv w" "same_fds (os s) w"
      "\<And>fd q. stored w fd q = (if fd = ?fd \<and> q = p then Some ?pg else stored (os s) fd q)"
  proof (cases rule: flush_page_cases)
    case (ok w)
    then show thesis using that [of w] e3 by (simp add: f3 fresh_frame_def)
  next
    case (failed w)
    then show thesis using io e3 by simp
  qed
  define s4 where "s4 = upd_frame a (\<lambda>f. f\<lparr>dirty := False\<rparr>) (s3\<lparr>os := w\<rparr>)"
  have f4: "frame_of s4 = frame_of s3" by (auto simp: s4_def f3 fresh_frame_def fun_eq_iff)
  have e4: "os s4 = w" "pools s4 = pools s" "fd_buffer_pools s4 = fd_buffer_pools s" using e3 by (simp_all add: s4_def)
  have rep4: "fm_rep (frame_manager s4) ((?k, a) # es)" using rep by (simp add: s4_def s3_def s2_def write_page_frame)
  have mono: "stored (os s) fd q \<noteq> None \<Longrightarrow> stored w fd q \<noteq> None" for fd q using w(4) [of fd q] by auto
  have "entry_ok s4 k' a'" if ka: "(k', a') \<in> set es" for k' a'
  proof -
    have e: "entry_ok s k' a'" using inv ka by (auto simp: entries_inv_def)
    have ne: "a' \<noteq> a" using a(1) ka by force
    have "k' \<noteq> ?k" using a(2) ka by (force simp: map_of_eq_None_iff)
    then have "stored w (fid_file_desc k') (fid_page_num k') = stored (os s) (fid_file_desc k') (fid_page_num k')"
      using w(4) by (auto simp: frame_id_eq)
    then show ?thesis using e ne e4 by (auto simp: entry_ok_def owner_def f4 f3)
  qed
  moreover have "entry_ok s4 ?k a"
    using registered_owner [of s b bp] ok w(4) e4 by (auto simp: entry_ok_def owner_def f4 f3 fresh_frame_def pool_ok_def)
  ultimately have inv4: "entries_inv s4 ((?k, a) # es)" using rep4 w(2) e4 by (auto simp: entries_inv_def)
  have c4: "cached s4 fd q = (if fd = ?fd \<and> q = p then Some a else cached s fd q)" for fd q
    using cached_rep [OF rep4] cached_rep [OF reps] by simp
  have na: "a' \<noteq> a" if "cached s fd q = Some a'" for fd q a'
    using that a(1) cached_rep [OF reps] by (metis imageI map_of_SomeD snd_conv)
  have nh: "a' \<noteq> h" if "cached s fd q = Some a'" "(fd, q) \<noteq> (?fd, 0)" for fd q a'
    using cached_unique [of s ?fd 0 h fd q] that inv ok by (auto simp: bp_inv_def pool_ok_def)
  have "page_view s4 fd q = page_view s fd q" if "(fd, q) \<noteq> (?fd, 0)" "(fd, q) \<noteq> (?fd, p)" for fd q
    using that c4 [of fd q] na [of fd q] nh [of fd q] w(4) [of fd q] e4
    by (auto simp: page_view_def f4 f3 split: option.split)
  moreover have "page_view s4 ?fd p = Some ?pg" using c4 by (simp add: page_view_def f4 f3 fresh_frame_def)
  moreover have h4: "header_data s4 h = extend_header p (header_data s h)" using ah by (simp add: f4 f3)
  moreover have "pool_ok s4 b bp h"
    unfolding pool_ok_def h4
  proof (intro conjI allI)
    show "registered s4 b bp" using ok e4 same_fds_open [OF w(3)] by (auto simp: registered_def pool_ok_def)
    show "stored (os s4) ?fd q \<noteq> None \<longleftrightarrow> 0 \<le> q \<and> q < hdr_page_count (extend_header p (header_data s h))" for q
      using w(4) [of ?fd q] st [of q] x(2) p0 e4 by auto
  qed (use ok x c4 ah p0 in \<open>auto simp: pool_ok_def f4 f3\<close>)
  moreover have "pin_count (frame_of s4 a) = 1" by (simp add: f4 f3 fresh_frame_def)
  ultimately show ?thesis
    using w(1) [folded s4_def] inv4 c4 unfolding s3_def by (intro exI [of _ s4]) (auto simp: bp_inv_def)
qed

section \<open>Allocating and disposing pages\<close>

lemma free_page_exists:
  assumes "hdr_ok d" "hdr_allocated_pages d < hdr_page_count d"
  shows "free_page d \<noteq> - 1"
proof
  assume "free_page d = - 1"
  then have "hdr_bit d i" if "i < nat (hdr_page_count d)" for i
    using that first_from_neg_iff [of "\<lambda>i. \<not> hdr_bit d i" 0 "nat (hdr_page_count d)"] by (auto simp: free_page_def)
  then have "allocated_set d = {..<nat (hdr_page_count d)}" by (auto simp: allocated_set_def)
  then show False using assms by (simp add: hdr_ok_def)
qed

lemma full_allocated:
  assumes "hdr_ok d" "\<not> hdr_allocated_pages d < hdr_page_count d"
  shows "allocated_set d = {..<nat (hdr_page_count d)}"
proof (rule card_subset_eq)
  show "allocated_set d \<subseteq> {..<nat (hdr_page_count d)}" by (auto simp: allocated_set_def)
  show "card (allocated_set d) = card {..<nat (hdr_page_count d)}"
    using assms card_allocated [of d] by (simp add: hdr_ok_def)
qed simp

lemma not_cached_extend:
  assumes "entries_inv s es" "pool_ok s b bp h"
  shows "map_of es (frame_id (bp_file_desc bp) (hdr_page_count (header_data s h))) = None"
proof (rule ccontr)
  assume "map_of es (frame_id (bp_file_desc bp) (hdr_page_count (header_data s h))) \<noteq> None"
  then obtain a where "map_of es (frame_id (bp_file_desc bp) (hdr_page_count (header_data s h))) = Some a" by blast
  from entry_inD [OF assms(1) this] show False using assms(2) by (auto simp: entry_ok_def pool_ok_def)
qed

lemma allocate_page_appends:
  assumes inv: "bp_inv s" and ok: "pool_ok s b bp h" and io: "os_io_faults (os s) = []"
    and full: "\<not> hdr_allocated_pages (header_data s h) < hdr_page_count (header_data s h)"
    and room: "hdr_page_count (header_data s h) < MAX_PAGE_NUM"
  defines "p \<equiv> hdr_page_count (header_data s h)"
  obtains (appended) a s' where "allocate_page b s = Some (SUCCESS, Some a, s')" "bp_inv s'" "pool_ok s' b bp h"
      "header_data s' h = extend_header p (header_data s h)" "cached s' (bp_file_desc bp) p = Some a"
      "\<And>fd q. (fd, q) \<noteq> (bp_file_desc bp, 0) \<Longrightarrow> (fd, q) \<noteq> (bp_file_desc bp, p) \<Longrightarrow> page_view s' fd q = page_view s fd q"
    | (nomem) s' where "allocate_page b s = Some (NOMEM, None, s')" "bp_inv s'" "pool_ok s' b bp h" "page_view s' = page_view s"
proof -
  obtain es where es: "entries_inv s es" using inv by (auto simp: bp_inv_def)
  have hok: "hdr_ok (header_data s h)" and b: "pools s b = Some bp" "bp_hdr_frame bp = Some h"
    using ok by (auto simp: pool_ok_def registered_def)
  note nc = not_cached_extend [OF es ok, folded p_def]
  from es b(1) nc show thesis
  proof (cases rule: allocate_frame_cases)
    case (nomem s1 es1)
    have "allocate_page b s = Some (NOMEM, None, s1)"
      using nomem(1) b full room by (simp add: allocate_page_def Let_def p_def)
    then show thesis using that(2) nomem pool_ok_unseen(1) [OF nomem(2) ok] by (auto simp: bp_inv_def unseen_def)
  next
    case (ioerr s1 es1)
    then show thesis using io by simp
  next
    case (taken a s1 es1 l al)
    let ?s2 = "with_fm s1 (frame_manager s1\<lparr>allocator := al, frames := l\<rparr>)"
    note ok1 = pool_ok_unseen [OF taken(2) ok]
    have io1: "os_io_faults (os s1) = []" using taken(2) io by (simp add: unseen_def)
    have "map_of es1 (frame_id (bp_file_desc bp) 0) = Some h"
      using ok1(1) cached_rep [of s1 es1] taken(3) by (simp add: pool_ok_def entries_inv_def)
    then have ah: "a \<noteq> h" using taken(4) by (force dest: map_of_SomeD)
    have p1: "p = hdr_page_count (header_data s1 h)" "p < MAX_PAGE_NUM" using ok1(2) room by (simp_all add: p_def)
    obtain s' where s': "flush_page b a (upd_frame a (fresh_frame (bp_file_desc bp) p) (write_page h (extend_header p) ?s2)) = Some (SUCCESS, s')"
        "bp_inv s'" "pool_ok s' b bp h" "header_data s' h = extend_header p (header_data s1 h)" "cached s' (bp_file_desc bp) p = Some a"
        "\<forall>fd q. (fd, q) \<noteq> (bp_file_desc bp, 0) \<and> (fd, q) \<noteq> (bp_file_desc bp, p) \<longrightarrow> page_view s' fd q = page_view s1 fd q"
      using extend_pool [OF taken(3) ok1(1) io1 p1 taken(4-6)] by auto
    have "allocate_page b s = Some (SUCCESS, Some a, s')"
      using full room ok1(2) s'(1) by (intro allocate_page_extend [OF b hok _ _ p_def [THEN meta_eq_to_obj_eq] taken(1) ah]) auto
    moreover have "page_view s1 = page_view s" using taken(2) by (simp add: unseen_def)
    ultimately show thesis using that(1) s' ok1(2) by simp
  qed
qed

text \<open>
  C16. Allocating a page, without I/O failures: \<^verbatim>\<open>allocate_page\<close> always returns with the pool's
  invariant and a consistent header.  On success the page was not allocated before, it is
  now, the frame is its frame, and no page other than it and the header changed.  It refuses with
  \<^verbatim>\<open>BUFFERPOOL_NOBUF\<close> only when every page a header can describe is allocated.
\<close>

theorem allocate_page_correct:
  assumes "bp_inv s" "pool_ok s b bp h" "os_io_faults (os s) = []"
  shows "\<exists>rc r s'. allocate_page b s = Some (rc, r, s') \<and> bp_inv s' \<and> pool_ok s' b bp h \<and>
    (rc = SUCCESS \<longrightarrow> (\<exists>a p. r = Some a \<and> cached s' (bp_file_desc bp) (int p) = Some a \<and>
       p \<notin> allocated_set (header_data s h) \<and>
       allocated_set (header_data s' h) = insert p (allocated_set (header_data s h)) \<and>
       (\<forall>fd q. (fd, q) \<noteq> (bp_file_desc bp, 0) \<and> (fd, q) \<noteq> (bp_file_desc bp, int p) \<longrightarrow>
          page_view s' fd q = page_view s fd q))) \<and>
    (rc \<noteq> SUCCESS \<longrightarrow> rc \<in> {NOMEM, BUFFERPOOL_NOBUF} \<and>
       (\<forall>fd q. (fd, q) \<noteq> (bp_file_desc bp, 0) \<longrightarrow> page_view s' fd q = page_view s fd q)) \<and>
    (rc = BUFFERPOOL_NOBUF \<longrightarrow> allocated_set (header_data s h) = {..<nat MAX_PAGE_NUM})"
proof -
  let ?d = "header_data s h" and ?fd = "bp_file_desc bp"
  obtain es where es: "entries_inv s es" using assms(1) by (auto simp: bp_inv_def)
  have hok: "hdr_ok ?d" and b: "pools s b = Some bp" "bp_hdr_frame bp = Some h"
    using assms(2) by (auto simp: pool_ok_def registered_def)
  show ?thesis
  proof (cases "hdr_allocated_pages ?d < hdr_page_count ?d")
    case True
    from hok obtain i where i: "free_page ?d = int i" "i < nat (hdr_page_count ?d)" "\<not> hdr_bit ?d i" "i \<noteq> 0"
      using free_page_exists [OF hok True] by (cases rule: free_page_cases) auto
    let ?g = "\<lambda>d. hdr_set_bit i (set_allocated_pages (hdr_allocated_pages d + 1) d)"
    have "allocate_page b s = get_this_page b (int i) (write_page h ?g s)"
      using b True i(1) by (simp add: allocate_page_def Let_def write_page_def)
    moreover obtain rc r s' where "get_this_page b (int i) (write_page h ?g s) = Some (rc, r, s')" "bp_inv s'"
        "pool_ok s' b bp h" "header_data s' h = ?g ?d" "rc = SUCCESS \<or> rc = NOMEM"
        "rc = SUCCESS \<longrightarrow> (\<exists>a. r = Some a \<and> cached s' ?fd (int i) = Some a)"
        "\<forall>fd q. (fd, q) \<noteq> (?fd, 0) \<longrightarrow> page_view s' fd q = page_view s fd q"
      using allocate_reuse [OF es assms(2,3) i(2-4)] by blast
    moreover have "allocated_set (?g ?d) = insert i (allocated_set ?d)" "i \<notin> allocated_set ?d"
      using i by (auto simp: allocated_set_def)
    ultimately show ?thesis
      by (intro exI [of _ rc] exI [of _ r] exI [of _ s']) auto
  next
    case full: False
    note all = full_allocated [OF hok full]
    show ?thesis
    proof (cases "hdr_page_count ?d < MAX_PAGE_NUM")
      case False
      then have "allocate_page b s = Some (BUFFERPOOL_NOBUF, None, s)" "hdr_page_count ?d = MAX_PAGE_NUM"
        using b full hok by (auto simp: allocate_page_def Let_def hdr_ok_def)
      then show ?thesis using assms all by (intro exI [of _ BUFFERPOOL_NOBUF] exI [of _ None] exI [of _ s]) auto
    next
      case room: True
      let ?p = "hdr_page_count ?d"
      have p: "int (nat ?p) = ?p" using hok by (simp add: hdr_ok_def)
      have set: "allocated_set (extend_header ?p ?d) = insert (nat ?p) (allocated_set ?d)" "nat ?p \<notin> allocated_set ?d"
        using hdr_ok_extend(3) [OF hok room] hok
        by (auto simp: allocated_set_def extend_header_def hdr_ok_def less_Suc_eq nat_add_distrib)
      from assms full room show ?thesis
      proof (cases rule: allocate_page_appends)
        case (appended a s')
        then show ?thesis using p set
          by (intro exI [of _ SUCCESS] exI [of _ "Some a"] exI [of _ s']) (auto intro!: exI [of _ "nat ?p"])
      next
        case (nomem s')
        then show ?thesis by (intro exI [of _ NOMEM] exI [of _ None] exI [of _ s']) auto
      qed
    qed
  qed
qed

lemma demo_pool_ok:
  assumes "file_ok ps" "ps \<noteq> []" "hdr_ok (data (ps ! 0))" "hdr_page_count (data (ps ! 0)) = int (length ps)"
  obtains s bp h where "bpm_open_file ''t'' (bpm_new (demo_os ps)) = Some (SUCCESS, Some 0, s)" "bp_inv s"
    "pool_ok s 0 bp h" "os_io_faults (os s) = []" "header_data s h = data (ps ! 0)"
proof (rule demo_open [OF assms(1,2)])
  fix s bp h
  assume d: "bpm_open_file ''t'' (bpm_new (demo_os ps)) = Some (SUCCESS, Some 0, s)" "bp_inv s"
    "registered s 0 bp" "bp_file_desc bp = 3" "bp_hdr_frame bp = Some h"
    "cached s 3 0 = Some h" "pin_count (frame_of s h) = 1" "page (frame_of s h) = ps ! 0"
    "\<And>q. stored (os s) 3 q = (if 0 \<le> q \<and> nat q < length ps then Some (ps ! nat q) else None)"
    "os_io_faults (os s) = []"
  have "pool_ok s 0 bp h" using d assms(3,4) by (auto simp: pool_ok_def)
  then show thesis using that [of s bp h] d by simp
qed

theorem allocate_page_correct_witness:
  "\<exists>s rc r s'. bpm_open_file ''t'' (bpm_new (demo_os [header_page])) = Some (SUCCESS, Some 0, s) \<and>
     allocate_page 0 s = Some (rc, r, s') \<and> bp_inv s' \<and> rc \<noteq> BUFFERPOOL_NOBUF"
proof -
  obtain s bp h where d: "bpm_open_file ''t'' (bpm_new (demo_os [header_page])) = Some (SUCCESS, Some 0, s)" "bp_inv s"
      "pool_ok s 0 bp h" "os_io_faults (os s) = []" "header_data s h = data header_page"
    by (rule demo_pool_ok [OF header_file_ok]) (use header_page_ok in auto)
  have "allocated_set (data header_page) \<noteq> {..<nat MAX_PAGE_NUM}"
  proof -
    have "allocated_set (data header_page) \<subseteq> {0}" using header_page_ok by (auto simp: allocated_set_def)
    moreover have "1 \<in> {..<nat MAX_PAGE_NUM}" by (simp add: max_page_num)
    ultimately show ?thesis by (metis insertE empty_iff subsetD zero_neq_one)
  qed
  then show ?thesis using allocate_page_correct [OF d(2-4)] d(1,5) by metis
qed

lemma frame_upd_swap: "f\<lparr>dirty := x, page := y\<rparr> = f\<lparr>page := y, dirty := x\<rparr>" for f :: Frame
  by (cases f) simp

lemma dispose_page_steps:
  assumes "purge_page b p s = Some (rc, s1)" "pools s1 b = Some bp" "bp_hdr_frame bp = Some h" "in_bitmap p"
  shows "dispose_page b p s = Some (if rc \<noteq> SUCCESS
      then (rc, s1\<lparr>pools := (pools s1)(b \<mapsto> bp\<lparr>bp_disposed_pages := insert p (bp_disposed_pages bp)\<rparr>)\<rparr>)
      else (SUCCESS, write_page h (\<lambda>d. hdr_clear_bit (nat p) (set_allocated_pages (hdr_allocated_pages d - 1) d)) s1))"
  using assms
  by (simp add: dispose_page_def Let_def write_page_frame upd_data_def upd_frame_def mark_dirty_def frame_upd_swap)

lemma dispose_page_ok:
  assumes "bp_inv s" "pool_ok s b bp h" "os_io_faults (os s) = []"
    and "p \<in> allocated_set (header_data s h)" "p \<noteq> 0"
  shows "\<exists>rc s'. dispose_page b (int p) s = Some (rc, s') \<and> bp_inv s' \<and>
    (if \<exists>a. cached s (bp_file_desc bp) (int p) = Some a \<and> pin_count (frame_of s a) > 0
     then rc = LOCKED_UNLOCK \<and> page_view s' = page_view s \<and>
       pool_ok s' b (bp\<lparr>bp_disposed_pages := insert (int p) (bp_disposed_pages bp)\<rparr>) h
     else rc = SUCCESS \<and> pool_ok s' b bp h \<and> cached s' (bp_file_desc bp) (int p) = None \<and>
       allocated_set (header_data s' h) = allocated_set (header_data s h) - {p} \<and>
       (\<forall>fd q. (fd, q) \<noteq> (bp_file_desc bp, 0) \<longrightarrow> page_view s' fd q = page_view s fd q))"
proof -
  let ?fd = "bp_file_desc bp"
  let ?g = "\<lambda>d. hdr_clear_bit p (set_allocated_pages (hdr_allocated_pages d - 1) d)"
  obtain es where es: "entries_inv s es" using assms(1) by (auto simp: bp_inv_def)
  have hok: "hdr_ok (header_data s h)" and reg: "registered s b bp" and hb: "bp_hdr_frame bp = Some h"
    using assms(2) by (auto simp: pool_ok_def)
  have ib: "in_bitmap (int p)" using assms(4) hok by (auto simp: in_bitmap_def allocated_set_def hdr_ok_def)
  obtain rc s1 es1 where pg: "purge_page b (int p) s = Some (rc, s1)" "unseen s s1" "entries_inv s1 es1"
      "rc \<in> {SUCCESS, LOCKED_UNLOCK, IOERR_WRITE}" "rc = SUCCESS \<Longrightarrow> cached s1 ?fd (int p) = None"
      "rc = LOCKED_UNLOCK \<longleftrightarrow> (\<exists>a. cached s ?fd (int p) = Some a \<and> pin_count (frame_of s a) > 0)"
      "rc \<noteq> IOERR_WRITE"
    using purge_page_cases [OF es reg, of "int p"] assms(3) by metis
  note ok1 = pool_ok_unseen [OF pg(2) assms(2)]
  have b1: "pools s1 b = Some bp" using ok1(1) by (simp add: pool_ok_def registered_def)
  note st = dispose_page_steps [OF pg(1) b1 hb ib]
  have pv: "page_view s1 = page_view s" using pg(2) by (simp add: unseen_def)
  show ?thesis
  proof (cases "rc = LOCKED_UNLOCK")
    case True
    let ?bp = "bp\<lparr>bp_disposed_pages := insert (int p) (bp_disposed_pages bp)\<rparr>"
    let ?s = "s1\<lparr>pools := (pools s1)(b \<mapsto> ?bp)\<rparr>"
    have ow: "owner ?s fd" if "owner s1 fd" for fd
      using that b1 by (auto simp: owner_def)
    have "entries_inv ?s es1"
      using pg(3) ow by (auto simp: entries_inv_def entry_ok_def)
    moreover have "pool_ok ?s b ?bp h"
      using ok1(1) by (simp add: pool_ok_def registered_def)
    moreover have "page_view ?s = page_view s1" by (simp add: page_view_def fun_eq_iff cong: option.case_cong)
    ultimately show ?thesis
      using st True pg(6) pv by (intro exI [of _ LOCKED_UNLOCK] exI [of _ ?s]) (auto simp: bp_inv_def)
  next
    case False
    then have rc: "rc = SUCCESS" using pg(4,7) by auto
    let ?s = "write_page h ?g s1"
    have g: "hdr_ok (?g (header_data s1 h))" "hdr_page_count (?g (header_data s1 h)) = hdr_page_count (header_data s1 h)"
      using hdr_ok_dispose [OF hok assms(4,5)] ok1(2) by simp_all
    note u = header_upd [of s1 es1 b bp h ?g, OF pg(3) ok1(1) g]
    have i1: "bp_inv s1" "cached s1 ?fd 0 = Some h" using pg(3) ok1(1) by (auto simp: bp_inv_def pool_ok_def)
    have "page_view ?s fd q = page_view s fd q" if "(fd, q) \<noteq> (?fd, 0)" for fd q
      using write_page_inv(2) [OF i1, of ?g fd q] that pv by auto
    moreover have "allocated_set (header_data ?s h) = allocated_set (header_data s h) - {p}"
      unfolding u(3) ok1(2) by (auto simp: allocated_set_def)
    moreover have "cached ?s ?fd (int p) = None" using pg(5) [OF rc] by (simp add: write_page_frame)
    ultimately show ?thesis
      using st rc False pg(6) u by (intro exI [of _ SUCCESS] exI [of _ ?s]) (auto simp: bp_inv_def)
  qed
qed

text \<open>
  C37. Disposing an allocated page, without I/O failures: if nobody has the page pinned it is freed
  in the header, its frame is given back and the header stays consistent; otherwise the call
  answers \<^verbatim>\<open>LOCKED_UNLOCK\<close>, remembers the page for the last unpin and changes nothing else.
\<close>

theorem dispose_page_correct:
  assumes "bp_inv s" "pool_ok s b bp h" "os_io_faults (os s) = []"
    and "p \<in> allocated_set (header_data s h)" "p \<noteq> 0"
  shows "\<exists>rc s'. dispose_page b (int p) s = Some (rc, s') \<and> bp_inv s' \<and>
    (if \<exists>a. cached s (bp_file_desc bp) (int p) = Some a \<and> pin_count (frame_of s a) > 0
     then rc = LOCKED_UNLOCK \<and> page_view s' = page_view s \<and>
       pool_ok s' b (bp\<lparr>bp_disposed_pages := insert (int p) (bp_disposed_pages bp)\<rparr>) h
     else rc = SUCCESS \<and> pool_ok s' b bp h \<and> cached s' (bp_file_desc bp) (int p) = None \<and>
       allocated_set (header_data s' h) = allocated_set (header_data s h) - {p} \<and>
       (\<forall>fd q. (fd, q) \<noteq> (bp_file_desc bp, 0) \<longrightarrow> page_view s' fd q = page_view s fd q))"
  using assms by (rule dispose_page_ok)

text \<open>A file with the header and one allocated data page.\<close>

definition two_pages :: "Page list" where
  "two_pages = [header_page\<lparr>data := extend_header 1 (data header_page)\<rparr>, \<lparr>page_num = 1, data = (\<lambda>_. 0)\<rparr>]"

lemma two_pages_ok: "file_ok two_pages" "hdr_ok (data (two_pages ! 0))" "hdr_page_count (data (two_pages ! 0)) = 2"
  "1 \<in> allocated_set (data (two_pages ! 0))"
proof -
  let ?d = "data header_page"
  have h: "hdr_ok ?d" "hdr_page_count ?d = 1" by (rule header_page_ok)+
  have x: "hdr_ok (extend_header 1 ?d)" "hdr_page_count (extend_header 1 ?d) = 2"
    using hdr_ok_extend [OF h(1)] h(2) by (simp_all add: extend_header_def max_page_num)
  show "file_ok two_pages"
    by (simp add: file_ok_def two_pages_def header_page_def zero_page_def less_Suc_eq all_conj_distrib)
  show "hdr_ok (data (two_pages ! 0))" "hdr_page_count (data (two_pages ! 0)) = 2" using x by (simp_all add: two_pages_def)
  show "1 \<in> allocated_set (data (two_pages ! 0))" using x by (simp add: two_pages_def allocated_set_def) (simp add: extend_header_def)
qed

theorem dispose_page_correct_witness:
  "\<exists>s rc s'. bpm_open_file ''t'' (bpm_new (demo_os two_pages)) = Some (SUCCESS, Some 0, s) \<and>
     dispose_page 0 (int 1) s = Some (rc, s') \<and> bp_inv s'"
proof -
  obtain s bp h where d: "bpm_open_file ''t'' (bpm_new (demo_os two_pages)) = Some (SUCCESS, Some 0, s)" "bp_inv s"
      "pool_ok s 0 bp h" "os_io_faults (os s) = []" "header_data s h = data (two_pages ! 0)"
    by (rule demo_pool_ok [of two_pages]) (use two_pages_ok in \<open>auto simp: two_pages_def\<close>)
  have "1 \<in> allocated_set (header_data s h)" using two_pages_ok(4) d(5) by simp
  from dispose_page_correct [OF d(2-4) this] d(1) show ?thesis by blast
qed

section \<open>Closing a pool\<close>

lemma free_all_loop_fields:
  "free_all_loop fd used s = Some s' \<Longrightarrow> os s' = os s \<and> pools s' = pools s \<and> next_pool s' = next_pool s \<and>
     buffer_pools s' = buffer_pools s \<and> fd_buffer_pools s' = fd_buffer_pools s"
  by (induction fd used s rule: free_all_loop.induct) (auto split: Option.bind_splits)

lemma release_file_fields:
  assumes "release_file b s = Some (SUCCESS, s')" "pools s b = Some bp"
  shows "buffer_pools s' = buffer_pools s" "fd_buffer_pools s' = fd_buffer_pools s"
    "\<exists>bp'. pools s' b = Some bp' \<and> bp_file_desc bp' = - 1 \<and> bp_file_name bp' = bp_file_name bp"
proof -
  obtain h used s1 w where r: "free_all_loop (bp_file_desc bp) used
        (upd_frame h (\<lambda>f. f\<lparr>pin_count := pin_count f - 1\<rparr>) s) = Some s1"
      "s' = s1\<lparr>os := w, pools := (pools s1)(b \<mapsto> bp\<lparr>bp_disposed_pages := {}, bp_file_desc := - 1\<rparr>)\<rparr>"
    using assms by (auto simp: release_file_def Let_def split: Option.bind_splits if_splits prod.splits)
  then show "buffer_pools s' = buffer_pools s" "fd_buffer_pools s' = fd_buffer_pools s"
    "\<exists>bp'. pools s' b = Some bp' \<and> bp_file_desc bp' = - 1 \<and> bp_file_name bp' = bp_file_name bp"
    using free_all_loop_fields [OF r(1)] by simp_all
qed

text \<open>
  Closing a pool through the pool object (\<^verbatim>\<open>DiskBufferPool::close_file\<close>, the call made by
  tables and indexes) deletes the pool but leaves its descriptor in the manager's table:
  the entry the manager uses to flush evicted frames then points to a deleted object.
\<close>

theorem close_pool_leaves_stale_fd:
  assumes "pools s b = Some bp" "0 \<le> bp_file_desc bp" "buffer_pools s (bp_file_name bp) = Some b"
    and "fd_buffer_pools s (bp_file_desc bp) = Some b" "release_file b s = Some (SUCCESS, s1)"
  shows "\<exists>s'. close_file (ClosePool b) s = Some (SUCCESS, s') \<and> pools s' b = None \<and>
    fd_buffer_pools s' (bp_file_desc bp) = Some b"
proof -
  obtain bp' where bp': "pools s1 b = Some bp'" "bp_file_desc bp' = - 1" "bp_file_name bp' = bp_file_name bp"
    using release_file_fields(3) [OF assms(5,1)] by blast
  have t: "buffer_pools s1 = buffer_pools s" "fd_buffer_pools s1 = fd_buffer_pools s"
    by (rule release_file_fields [OF assms(5,1)])+
  define s2 where "s2 = s1\<lparr>fd_buffer_pools := (fd_buffer_pools s1)(- 1 := None),
    buffer_pools := (buffer_pools s1)(bp_file_name bp := None)\<rparr>"
  have "close_file (ClosePool b) s2 = Some (SUCCESS, s2)"
    using bp' by (subst close_file.simps) (simp add: s2_def)
  then have "close_file (CloseName (bp_file_name bp)) s1 = Some (SUCCESS, s2\<lparr>pools := (pools s2)(b := None)\<rparr>)"
    using bp' assms(3) t by (subst close_file.simps) (simp add: s2_def Let_def)
  then have "close_file (ClosePool b) s = Some (SUCCESS, s2\<lparr>pools := (pools s2)(b := None)\<rparr>)"
    using assms(1,2,5) by (subst close_file.simps) simp
  then show ?thesis using assms(2,4) t by (auto simp: s2_def)
qed

lemma free_all_loop_ok:
  assumes "fm_rep (frame_manager s) es" "distinct used"
    and "\<And>a. a \<in> set used \<Longrightarrow> map_of es (frame_id fd (page_num (page (frame_of s a)))) = Some a"
  shows "\<exists>s'. free_all_loop fd used s = Some s'"
  using assms
proof (induction used arbitrary: s es)
  case (Cons a used)
  let ?k = "frame_id fd (page_num (page (frame_of s a)))"
  have ka: "map_of es ?k = Some a" by (rule Cons.prems(3)) simp
  obtain l where f: "fm_free fd (page_num (page (frame_of s a))) a (frame_manager s) =
      Some (SUCCESS, frame_manager s\<lparr>frames := l, allocator := mp_free a (allocator (frame_manager s))\<rparr>)"
      "fm_rep (frame_manager s\<lparr>frames := l, allocator := mp_free a (allocator (frame_manager s))\<rparr>) (drop_key ?k es)"
    using fm_free_rep [OF Cons.prems(1) ka] by blast
  have "map_of (drop_key ?k es) (frame_id fd (page_num (page (frame_of s a')))) = Some a'" if a': "a' \<in> set used" for a'
  proof -
    have m: "map_of es (frame_id fd (page_num (page (frame_of s a')))) = Some a'"
      by (rule Cons.prems(3)) (simp add: a')
    moreover have "a' \<noteq> a" using Cons.prems(2) a' by auto
    ultimately have "frame_id fd (page_num (page (frame_of s a'))) \<noteq> ?k" using ka by (metis option.inject)
    then show ?thesis using m by simp
  qed
  then show ?case
    using Cons.IH [of "with_fm s (frame_manager s\<lparr>frames := l, allocator := mp_free a (allocator (frame_manager s))\<rparr>)" "drop_key ?k es"]
      f Cons.prems(2) by simp
qed simp

lemma release_file_ok:
  assumes inv: "bp_inv s" and reg: "registered s b bp" and h: "bp_hdr_frame bp = Some h"
  shows "\<exists>s'. release_file b s = Some (SUCCESS, s')"
proof -
  obtain es where es: "entries_inv s es" using inv by (auto simp: bp_inv_def)
  let ?s = "upd_frame h (\<lambda>f. f\<lparr>pin_count := pin_count f - 1\<rparr>) s"
  let ?used = "map snd (filter (\<lambda>e. fid_file_desc (fst e) = bp_file_desc bp) es)"
  have rep: "fm_rep (frame_manager s) es" using es by (simp add: entries_inv_def)
  have rep': "fm_rep (frame_manager ?s) es" using rep by simp
  have "distinct ?used" using rep distinct_map_filter [of snd es] by (simp add: fm_rep_def)
  moreover have "map_of es (frame_id (bp_file_desc bp) (page_num (page (frame_of ?s a)))) = Some a"
    if a: "a \<in> set ?used" for a
  proof -
    obtain k where k: "(k, a) \<in> set es" "fid_file_desc k = bp_file_desc bp" using a by auto
    then have "entry_ok s k a" using es by (auto simp: entries_inv_def)
    then have "frame_id (bp_file_desc bp) (page_num (page (frame_of ?s a))) = k"
      using k(2) by (auto simp: entry_ok_def frame_id_eq)
    then show ?thesis using k(1) map_of_in [OF rep] by simp
  qed
  ultimately obtain s1 where s1: "free_all_loop (bp_file_desc bp) ?used ?s = Some s1"
    using free_all_loop_ok [OF rep'] by blast
  have "os_fds (os s1) (bp_file_desc bp) \<noteq> None"
    using free_all_loop_fields [OF s1] reg by (simp add: registered_def)
  then show ?thesis
    using reg h s1 find_list_rep [OF rep'] by (auto simp: release_file_def registered_def os_close_def Let_def)
qed

theorem close_pool_leaves_stale_fd_witness:
  "\<exists>s s'. bpm_open_file ''t'' (bpm_new (demo_os [header_page])) = Some (SUCCESS, Some 0, s) \<and>
     close_file (ClosePool 0) s = Some (SUCCESS, s') \<and> pools s' 0 = None \<and> fd_buffer_pools s' 3 = Some 0"
proof -
  obtain s bp h where d: "bpm_open_file ''t'' (bpm_new (demo_os [header_page])) = Some (SUCCESS, Some 0, s)" "bp_inv s"
      "registered s 0 bp" "bp_file_desc bp = 3" "bp_hdr_frame bp = Some h" "pools s = [0 \<mapsto> bp]"
      "fd_buffer_pools s = [3 \<mapsto> 0]" "buffer_pools s = [''t'' \<mapsto> 0]" "bp_file_name bp = ''t''"
    by (rule demo_open [OF header_file_ok]) auto
  obtain s1 where "release_file 0 s = Some (SUCCESS, s1)" using release_file_ok [OF d(2,3,5)] by blast
  from close_pool_leaves_stale_fd [OF _ _ _ _ this, of bp] d show ?thesis by auto
qed

section \<open>A failed seek\<close>

text \<open>
  \<^verbatim>\<open>flush_page\<close> does not notice a failed seek on any page but page 0: the page is written at the
  old file position, over another page, and success is reported.
\<close>

theorem flush_after_failed_seek:
  "\<exists>s s' pg. page_num pg = 1 \<and> page (frame_of s 0) = pg \<and> flush_page 0 0 s = Some (SUCCESS, s') \<and>
     stored (os s) 3 0 = Some header_page \<and> stored (os s') 3 0 = Some pg \<and> stored (os s') 3 1 = stored (os s) 3 1 \<and>
     \<not> dirty (frame_of s' 0)"
proof -
  let ?pg = "\<lparr>page_num = 1, data = (\<lambda>_. 5)\<rparr>"
  let ?w = "demo_os two_pages\<lparr>os_files := [''t'' \<mapsto> [header_page, two_pages ! 1]], os_fds := [3 \<mapsto> (''t'', 0)],
    os_seek_faults := [True]\<rparr>"
  let ?bp = "new_pool\<lparr>bp_file_desc := 3\<rparr>"
  let ?s = "(bpm_new ?w)\<lparr>pools := [0 \<mapsto> ?bp], frame_manager := fm_new\<lparr>frame_at :=
    (\<lambda>_. new_frame\<lparr>dirty := True, page := ?pg\<rparr>)\<rparr>\<rparr>"
  let ?s' = "upd_frame 0 (\<lambda>f. f\<lparr>dirty := False\<rparr>) (?s\<lparr>os := ?w\<lparr>os_seek_faults := [],
    os_files := [''t'' \<mapsto> [?pg, two_pages ! 1]], os_fds := [3 \<mapsto> (''t'', 1)]\<rparr>\<rparr>)"
  have "flush_page 0 0 ?s = Some (SUCCESS, ?s')"
    by (simp add: flush_page_def os_lseek_def os_writen_def seek_fault_def put_page_def bpm_new_def demo_os_def
        BP_PAGE_SIZE_def)
  then show ?thesis
    by (intro exI [of _ ?s] exI [of _ ?s'] exI [of _ ?pg]) (auto simp: bpm_new_def stored_def)
qed

end
