(* ===== verification/Ob_BitScan.thy ===== *)
theory Ob_BitScan
  imports Ob_Bitmap
begin

text \<open>
  Iterating over the set bits of a bitmap with repeated calls of \<^verbatim>\<open>next_setted_bit\<close>, as the page
  iterator and the record iterator do: the restart behind a hit is one of the starts from which
  the search is complete, so the iteration yields every set bit once, in ascending order.
\<close>

lemma next_setted_sound:
  assumes "next_setted_bit bm start \<noteq> - 1"
  shows "\<exists>i. next_setted_bit bm start = int i \<and> start \<le> i \<and> i < bm_size bm \<and> get_bit bm i"
  using one_search.loop_sound [of "bm_data bm" "bitmap_end bm" "start div 8" "start mod 8"] assms
  by (fastforce simp: next_setted_bit_def Let_def one_hit split: if_splits)

function setted_from :: "Bitmap \<Rightarrow> nat \<Rightarrow> nat list" where
  "setted_from bm start =
     (let r = next_setted_bit bm start in
      if r = - 1 then [] else nat r # setted_from bm (Suc (nat r)))"
  by pat_completeness auto
termination
proof (relation "measure (\<lambda>(bm, start). bm_size bm - start)")
  fix bm :: Bitmap and start and r
  assume "r = next_setted_bit bm start" "r \<noteq> - 1"
  then obtain i where "r = int i" "start \<le> i" "i < bm_size bm" using next_setted_sound by metis
  then show "((bm, Suc (nat r)), bm, start) \<in> measure (\<lambda>(bm, start). bm_size bm - start)" by auto
qed simp

declare setted_from.simps [simp del]

lemma filter_upt_first:
  assumes "a \<le> i" "i < b" "P i" "\<And>j. a \<le> j \<Longrightarrow> j < i \<Longrightarrow> \<not> P j"
  shows "filter P [a..<b] = i # filter P [Suc i..<b]"
proof -
  have "[a..<b] = [a..<i] @ i # [Suc i..<b]"
    using assms(1,2) upt_add_eq_append [of a i "b - i"] upt_conv_Cons [of i b] by simp
  moreover have "filter P [a..<i] = []" using assms(4) by (auto simp: filter_empty_conv)
  ultimately show ?thesis using assms(3) by simp
qed

lemma setted_from_complete:
  assumes "start mod 8 = 0 \<or> bm_data bm (start div 8) \<noteq> 0 \<or> (\<exists>i. start = Suc i \<and> get_bit bm i)"
  shows "setted_from bm start = filter (get_bit bm) [start..<bm_size bm]"
  using assms
proof (induction bm start rule: setted_from.induct)
  case (1 bm start)
  have first: "next_setted_bit bm start = first_from (get_bit bm) start (bm_size bm)"
    using "1.prems" next_setted_first [of start bm] next_setted_after_hit [of bm] by auto
  show ?case
  proof (cases "next_setted_bit bm start = - 1")
    case True
    then have "\<forall>i. start \<le> i \<and> i < bm_size bm \<longrightarrow> \<not> get_bit bm i"
      using first first_from_neg_iff by metis
    then show ?thesis using True by (subst setted_from.simps) (simp add: filter_empty_conv)
  next
    case False
    then obtain i where i: "next_setted_bit bm start = int i" "start \<le> i" "i < bm_size bm" "get_bit bm i"
        "\<forall>j. start \<le> j \<and> j < i \<longrightarrow> \<not> get_bit bm j"
      using first first_from_nonneg [of "get_bit bm" start "bm_size bm"] by metis
    have "setted_from bm (Suc i) = filter (get_bit bm) [Suc i..<bm_size bm]"
      using "1.IH" [OF refl False] i(1,4) by auto
    then show ?thesis
      using filter_upt_first [of start i "bm_size bm" "get_bit bm"] i by (subst setted_from.simps) simp
  qed
qed

end
