(* ===== verification/Ob_RecordPage.thy ===== *)
theory Ob_RecordPage
  imports Ob_Rc Ob_Io Ob_BitScan
begin

text \<open>
  Record pages (\<open>src/src/observer/storage/record/record_manager.cpp\<close>): the layout computations and the
  operations of \<^verbatim>\<open>RecordPageHandler\<close> on the bytes of a page.  A page is the header of five 32-bit
  fields, the slot bitmap, and the record slots.  \<open>rp_view\<close> is the abstract page, a finite map from
  slots to records; the operations are shown to implement the map operations on it.  An index or
  pointer before the page is the result \<open>None\<close>.
\<close>

section \<open>Layout\<close>

definition align8 :: "int \<Rightarrow> int" where
  "align8 n = n div 8 * 8 + (if n mod 8 = 0 then 0 else 8)"

definition page_fix_size :: int where "page_fix_size = 20"

text \<open>
  The code divides as \<^verbatim>\<open>double\<close> by \<^verbatim>\<open>record_size + 0.125\<close> and truncates.  Both operands are exact, and
  for pages and records below \<open>2^20\<close> bytes the quotient is either an integer or further from the
  next one than the rounding error, so the result is the exact floor.
\<close>

definition page_record_capacity :: "int \<Rightarrow> int \<Rightarrow> int" where
  "page_record_capacity page_size record_size =
     (8 * (page_size - page_fix_size - 1)) div (8 * record_size + 1)"

definition page_bitmap_size :: "int \<Rightarrow> int" where
  "page_bitmap_size record_capacity =
     record_capacity div 8 + (if record_capacity mod 8 = 0 then 0 else 1)"

definition page_header_size :: "int \<Rightarrow> int" where
  "page_header_size record_capacity = align8 (page_fix_size + page_bitmap_size record_capacity)"

section \<open>Fields and slots\<close>

definition record_num :: "mem \<Rightarrow> int" where "record_num d = load_int d 0"
definition record_capacity :: "mem \<Rightarrow> int" where "record_capacity d = load_int d 4"
definition record_real_size :: "mem \<Rightarrow> int" where "record_real_size d = load_int d 8"
definition record_size :: "mem \<Rightarrow> int" where "record_size d = load_int d 12"
definition first_record_offset :: "mem \<Rightarrow> int" where "first_record_offset d = load_int d 16"

definition set_record_num :: "int \<Rightarrow> mem \<Rightarrow> mem" where "set_record_num v d = store_int d 0 v"

text \<open>\<^verbatim>\<open>bitmap_\<close> points behind the header, into the page.\<close>

definition rp_bitmap :: "mem \<Rightarrow> Bitmap" where
  "rp_bitmap d = \<lparr>bm_data = at_off d 20, bm_size = nat (record_capacity d)\<rparr>"

definition put_bitmap :: "Bitmap \<Rightarrow> mem \<Rightarrow> mem" where
  "put_bitmap bm d = (\<lambda>i. if i < 20 then d i else bm_data bm (i - 20))"

definition get_record_data :: "mem \<Rightarrow> int \<Rightarrow> nat" where
  "get_record_data d slot = nat (first_record_offset d + record_size d * slot)"

section \<open>Operations\<close>

definition init_empty :: "int \<Rightarrow> int \<Rightarrow> mem \<Rightarrow> mem" where
  "init_empty page_size rec_size d =
     (let phy = align8 rec_size;
          cap = page_record_capacity page_size phy;
          d = store_int d 0 0;
          d = store_int d 4 cap;
          d = store_int d 8 rec_size;
          d = store_int d 12 phy;
          d = store_int d 16 (page_header_size cap) in
      blit d 20 (\<lambda>_. 0) (nat (page_bitmap_size cap)))"

definition rp_insert_record :: "mem \<Rightarrow> mem \<Rightarrow> (RC \<times> int \<times> mem) option" where
  "rp_insert_record rec d =
     (if record_num d = record_capacity d then Some (RECORD_NOMEM, - 1, d)
      else let index = next_unsetted_bit (rp_bitmap d) 0 in
        if index < 0 then None
        else let d = put_bitmap (set_bit (rp_bitmap d) (nat index)) d;
                 d = set_record_num (record_num d + 1) d;
                 d = blit d (get_record_data d index) rec (nat (record_real_size d)) in
          Some (SUCCESS, index, d))"

definition rp_recover_insert_record :: "mem \<Rightarrow> int \<Rightarrow> mem \<Rightarrow> (RC \<times> mem) option" where
  "rp_recover_insert_record rec slot d =
     (if record_num d = record_capacity d then Some (RECORD_NOMEM, d)
      else if slot \<ge> record_capacity d then Some (RECORD_NOMEM, d)
      else if slot < 0 then None
      else let d = put_bitmap (set_bit (rp_bitmap d) (nat slot)) d;
               d = set_record_num (record_num d + 1) d;
               d = blit d (get_record_data d slot) rec (nat (record_real_size d)) in
        Some (SUCCESS, d))"

definition rp_update_record :: "mem \<Rightarrow> int \<Rightarrow> mem \<Rightarrow> (RC \<times> mem) option" where
  "rp_update_record rec slot d =
     (if slot \<ge> record_capacity d then Some (INVALID_ARGUMENT, d)
      else if slot < 0 then None
      else if \<not> get_bit (rp_bitmap d) (nat slot) then Some (RECORD_RECORD_NOT_EXIST, d)
      else let d = blit d (get_record_data d slot) rec (nat (record_real_size d)) in
        Some (SUCCESS, put_bitmap (set_bit (rp_bitmap d) (nat slot)) d))"

text \<open>\<^verbatim>\<open>recover_update_record\<close> has the same body.\<close>

definition rp_recover_update_record :: "mem \<Rightarrow> int \<Rightarrow> mem \<Rightarrow> (RC \<times> mem) option" where
  "rp_recover_update_record rec slot d =
     (if slot \<ge> record_capacity d then Some (INVALID_ARGUMENT, d)
      else if slot < 0 then None
      else if \<not> get_bit (rp_bitmap d) (nat slot) then Some (RECORD_RECORD_NOT_EXIST, d)
      else let d = blit d (get_record_data d slot) rec (nat (record_real_size d)) in
        Some (SUCCESS, put_bitmap (set_bit (rp_bitmap d) (nat slot)) d))"

text \<open>The part of \<^verbatim>\<open>delete_record\<close> on the page; the caller disposes the page when it is empty.\<close>

definition rp_delete_record :: "int \<Rightarrow> mem \<Rightarrow> (RC \<times> mem) option" where
  "rp_delete_record slot d =
     (if slot \<ge> record_capacity d then Some (INVALID_ARGUMENT, d)
      else if slot < 0 then None
      else if get_bit (rp_bitmap d) (nat slot)
      then let d = put_bitmap (clear_bit (rp_bitmap d) (nat slot)) d in
        Some (SUCCESS, set_record_num (record_num d - 1) d)
      else Some (RECORD_RECORD_NOT_EXIST, d))"

definition rp_get_record :: "int \<Rightarrow> mem \<Rightarrow> (RC \<times> nat) option" where
  "rp_get_record slot d =
     (if slot \<ge> record_capacity d then Some (RECORD_INVALIDRID, 0)
      else if slot < 0 then None
      else if \<not> get_bit (rp_bitmap d) (nat slot) then Some (RECORD_RECORD_NOT_EXIST, 0)
      else Some (SUCCESS, get_record_data d slot))"

definition is_full :: "mem \<Rightarrow> bool" where
  "is_full d \<longleftrightarrow> record_num d \<ge> record_capacity d"

text \<open>\<^verbatim>\<open>RecordPageIterator\<close>: the next slot, \<open>-1\<close> at the end.\<close>

record RecordPageIterator =
  rpi_page_num :: PageNum
  rpi_next_slot_num :: int

definition rpi_init :: "PageNum \<Rightarrow> mem \<Rightarrow> RecordPageIterator" where
  "rpi_init p d = \<lparr>rpi_page_num = p, rpi_next_slot_num = next_setted_bit (rp_bitmap d) 0\<rparr>"

definition rpi_has_next :: "RecordPageIterator \<Rightarrow> bool" where
  "rpi_has_next it \<longleftrightarrow> - 1 \<noteq> rpi_next_slot_num it"

definition rpi_next :: "mem \<Rightarrow> RecordPageIterator \<Rightarrow> RC \<times> (PageNum \<times> int \<times> nat) \<times> RecordPageIterator" where
  "rpi_next d it =
     (let slot = rpi_next_slot_num it;
          rec = (rpi_page_num it, slot, get_record_data d slot) in
      (if slot \<noteq> - 1 then SUCCESS else RECORD_EOF, rec,
       if slot \<ge> 0 then it\<lparr>rpi_next_slot_num := next_setted_bit (rp_bitmap d) (nat (slot + 1))\<rparr> else it))"

section \<open>Well-formed pages\<close>

definition rp_slots :: "mem \<Rightarrow> nat set" where
  "rp_slots d = {i. i < nat (record_capacity d) \<and> get_bit (rp_bitmap d) i}"

definition page_ok :: "mem \<Rightarrow> bool" where
  "page_ok d \<longleftrightarrow> 0 \<le> record_capacity d \<and> 0 \<le> record_real_size d \<and> record_real_size d \<le> record_size d \<and>
     page_fix_size + page_bitmap_size (record_capacity d) \<le> first_record_offset d \<and>
     record_num d = int (card (rp_slots d))"

text \<open>The abstract page: the record in each used slot.\<close>

definition rp_view :: "mem \<Rightarrow> nat \<Rightarrow> byte list option" where
  "rp_view d i =
     (if i \<in> rp_slots d then Some (bytes_at d (get_record_data d (int i)) (nat (record_real_size d))) else None)"

lemma finite_slots [simp]: "finite (rp_slots d)"
  by (simp add: rp_slots_def)

lemma card_slots_le: "card (rp_slots d) \<le> nat (record_capacity d)"
  using card_mono [of "{..<nat (record_capacity d)}" "rp_slots d"] by (auto simp: rp_slots_def)

lemma dom_rp_view: "dom (rp_view d) = rp_slots d"
  by (auto simp: rp_view_def dom_def)

text \<open>Which operation changes which part of the page.\<close>

lemma put_bitmap_fields [simp]:
  "record_num (put_bitmap bm d) = record_num d" "record_capacity (put_bitmap bm d) = record_capacity d"
  "record_real_size (put_bitmap bm d) = record_real_size d" "record_size (put_bitmap bm d) = record_size d"
  "first_record_offset (put_bitmap bm d) = first_record_offset d"
  by (auto simp: record_num_def record_capacity_def record_real_size_def record_size_def first_record_offset_def
      put_bitmap_def intro!: load_int_cong)

lemma set_record_num_fields [simp]:
  "record_num (set_record_num v d) = wrap32 v" "record_capacity (set_record_num v d) = record_capacity d"
  "record_real_size (set_record_num v d) = record_real_size d" "record_size (set_record_num v d) = record_size d"
  "first_record_offset (set_record_num v d) = first_record_offset d"
  "rp_bitmap (set_record_num v d) = rp_bitmap d"
  by (simp_all add: record_num_def record_capacity_def record_real_size_def record_size_def
      first_record_offset_def set_record_num_def rp_bitmap_def at_off_def mem_simps)

lemma rp_bitmap_put [simp]: "bm_size bm = nat (record_capacity d) \<Longrightarrow> rp_bitmap (put_bitmap bm d) = bm"
  by (simp add: rp_bitmap_def at_off_def) (simp add: put_bitmap_def)

lemma get_record_data_cong [simp]:
  "get_record_data (put_bitmap bm d) = get_record_data d" "get_record_data (set_record_num v d) = get_record_data d"
  by (simp_all add: get_record_data_def fun_eq_iff)

lemma blit_fields:
  assumes "20 \<le> off"
  shows "record_num (blit d off src n) = record_num d" "record_capacity (blit d off src n) = record_capacity d"
    "record_real_size (blit d off src n) = record_real_size d" "record_size (blit d off src n) = record_size d"
    "first_record_offset (blit d off src n) = first_record_offset d"
    "get_record_data (blit d off src n) = get_record_data d"
  using assms by (simp_all add: record_num_def record_capacity_def record_real_size_def record_size_def
      first_record_offset_def get_record_data_def mem_simps fun_eq_iff)

text \<open>The slots lie behind the bitmap and do not overlap.\<close>

lemma slot_behind_bitmap:
  assumes "page_ok d" "0 \<le> slot"
  shows "20 + nat (page_bitmap_size (record_capacity d)) \<le> get_record_data d slot"
proof -
  have "0 \<le> record_size d * slot" using assms by (simp add: page_ok_def)
  moreover have "0 \<le> page_bitmap_size (record_capacity d)"
    using assms(1) pos_imp_zdiv_nonneg_iff [of 8 "record_capacity d"] by (simp add: page_ok_def page_bitmap_size_def)
  ultimately show ?thesis using assms(1) by (simp add: page_ok_def get_record_data_def page_fix_size_def le_nat_iff)
qed

lemma bit_byte_in_bitmap:
  assumes "i < nat cap" "0 \<le> cap"
  shows "i div 8 < nat (page_bitmap_size cap)"
proof -
  have "int i div 8 < page_bitmap_size cap" using assms unfolding page_bitmap_size_def by (auto; presburger)
  then show ?thesis by (simp add: zless_nat_eq_int_zless zdiv_int)
qed

lemma slots_disjoint:
  assumes "page_ok d" "i \<noteq> j"
  shows "get_record_data d (int i) + nat (record_real_size d) \<le> get_record_data d (int j) \<or>
    get_record_data d (int j) + nat (record_real_size d) \<le> get_record_data d (int i)"
proof -
  have o: "0 \<le> first_record_offset d" "0 \<le> record_real_size d" "record_real_size d \<le> record_size d"
    using assms(1) by (auto simp: page_ok_def page_fix_size_def page_bitmap_size_def split: if_splits)
  have le: "get_record_data d (int i) + nat (record_real_size d) \<le> get_record_data d (int j)" if "i < j" for i j
  proof -
    have "record_size d * int i + record_size d \<le> record_size d * int j"
      using that o mult_left_mono [of "int i + 1" "int j" "record_size d"] by (simp add: algebra_simps)
    moreover have "0 \<le> record_size d * int i" using o by simp
    ultimately have "nat (first_record_offset d + record_size d * int i + record_real_size d) \<le>
        nat (first_record_offset d + record_size d * int j)" using o by (intro nat_mono) linarith
    then show ?thesis using o \<open>0 \<le> record_size d * int i\<close> by (simp add: get_record_data_def nat_add_distrib)
  qed
  then show ?thesis using assms(2) by (cases "i < j") auto
qed

section \<open>The operations on the abstract page\<close>

lemma rp_bitmap_size [simp]: "bm_size (rp_bitmap d) = nat (record_capacity d)"
  by (simp add: rp_bitmap_def)

lemma set_bit_id:
  assumes "get_bit bm i"
  shows "set_bit bm i = bm"
proof -
  have "bm_data bm (i div 8) OR push_bit (i mod 8) 1 = bm_data bm (i div 8)"
    by (rule bit_word_eqI) (use assms in \<open>auto simp: get_bit_iff bit_or_iff bit_exp_iff\<close>)
  then show ?thesis by (simp add: set_bit_def)
qed

lemma bit_write_other:
  assumes "page_ok d" "i < nat (record_capacity d)" "20 + nat (page_bitmap_size (record_capacity d)) \<le> j"
  shows "put_bitmap (set_bit (rp_bitmap d) i) d j = d j" "put_bitmap (clear_bit (rp_bitmap d) i) d j = d j"
proof -
  have "i div 8 < nat (page_bitmap_size (record_capacity d))"
    using bit_byte_in_bitmap assms(1,2) by (simp add: page_ok_def)
  then have "j - 20 \<noteq> i div 8" "20 \<le> j" using assms(3) by auto
  then show "put_bitmap (set_bit (rp_bitmap d) i) d j = d j" "put_bitmap (clear_bit (rp_bitmap d) i) d j = d j"
    by (simp_all add: put_bitmap_def set_bit_def clear_bit_def rp_bitmap_def at_off_def)
qed

lemma rp_bitmap_blit:
  assumes "page_ok d" "0 \<le> slot" "i < nat (record_capacity d)"
  shows "get_bit (rp_bitmap (blit d (get_record_data d slot) src n)) i = get_bit (rp_bitmap d) i"
proof -
  have "20 + i div 8 < get_record_data d slot"
    using slot_behind_bitmap [OF assms(1,2)] bit_byte_in_bitmap [OF assms(3)] assms(1) by (simp add: page_ok_def)
  then show ?thesis by (simp add: get_bit_def rp_bitmap_def at_off_def blit_def)
qed

text \<open>Two pages with the same layout, compared through their bits and record bytes.\<close>

lemma rp_view_upd:
  assumes "page_ok d" and lay: "record_capacity d' = record_capacity d" "record_real_size d' = record_real_size d"
      "get_record_data d' = get_record_data d"
    and bits: "\<And>j. j < nat (record_capacity d) \<Longrightarrow> get_bit (rp_bitmap d') j \<longleftrightarrow> j = i \<or> get_bit (rp_bitmap d) j"
    and bytes: "\<And>j. j \<noteq> i \<Longrightarrow> bytes_at d' (get_record_data d (int j)) (nat (record_real_size d)) =
        bytes_at d (get_record_data d (int j)) (nat (record_real_size d))"
      "bytes_at d' (get_record_data d (int i)) (nat (record_real_size d)) = r"
    and i: "i < nat (record_capacity d)"
  shows "rp_view d' = (rp_view d)(i \<mapsto> r)" "rp_slots d' = insert i (rp_slots d)"
proof -
  show sl: "rp_slots d' = insert i (rp_slots d)" using lay(1) bits i by (auto simp: rp_slots_def)
  show "rp_view d' = (rp_view d)(i \<mapsto> r)"
    using sl lay bytes by (auto simp: rp_view_def fun_eq_iff)
qed

lemma bytes_at_cong: "(\<And>j. off \<le> j \<Longrightarrow> j < off + n \<Longrightarrow> d j = d' j) \<Longrightarrow> bytes_at d off n = bytes_at d' off n"
  by (simp add: bytes_at_def)

text \<open>The common end of the two inserts: set the bit of slot \<open>i\<close> and copy the record there.\<close>

definition fill_slot :: "mem \<Rightarrow> nat \<Rightarrow> mem \<Rightarrow> mem" where
  "fill_slot rec i d =
     (let d1 = set_record_num (record_num d + 1) (put_bitmap (set_bit (rp_bitmap d) i) d) in
      blit d1 (get_record_data d (int i)) rec (nat (record_real_size d)))"

lemma fill_slot_view:
  assumes ok: "page_ok d" and i: "i < nat (record_capacity d)" "i \<notin> rp_slots d"
  shows "page_ok (fill_slot rec i d)"
    "rp_view (fill_slot rec i d) = (rp_view d)(i \<mapsto> map rec [0..<nat (record_real_size d)])"
    "record_capacity (fill_slot rec i d) = record_capacity d" "record_num (fill_slot rec i d) = record_num d + 1"
    "record_real_size (fill_slot rec i d) = record_real_size d"
proof -
  let ?d0 = "put_bitmap (set_bit (rp_bitmap d) i) d"
  let ?d1 = "set_record_num (record_num d + 1) ?d0"
  let ?off = "get_record_data d (int i)" and ?n = "nat (record_real_size d)"
  let ?d2 = "blit ?d1 ?off rec ?n"
  have d2: "fill_slot rec i d = ?d2" by (simp add: fill_slot_def)
  have off: "20 + nat (page_bitmap_size (record_capacity d)) \<le> get_record_data d (int j)" for j
    by (rule slot_behind_bitmap [OF ok]) simp
  have off20: "20 \<le> get_record_data d (int j)" for j using off [of j] by linarith
  note f = blit_fields [OF off20, of ?d1 i rec ?n]
  have card: "card (rp_slots d) < nat (record_capacity d)"
  proof -
    have "insert i (rp_slots d) \<subseteq> {..<nat (record_capacity d)}" using i(1) by (auto simp: rp_slots_def)
    from card_mono [OF _ this] i(2) show ?thesis by simp
  qed
  have cap: "record_capacity d < 2 ^ 31" unfolding record_capacity_def by (rule load_int_range)
  have w: "wrap32 (record_num d + 1) = record_num d + 1"
    by (rule wrap32_id) (use card cap ok in \<open>auto simp: page_ok_def\<close>)
  have bm1: "rp_bitmap ?d1 = set_bit (rp_bitmap d) i" by simp
  have bits: "get_bit (rp_bitmap ?d2) j \<longleftrightarrow> j = i \<or> get_bit (rp_bitmap d) j" if "j < nat (record_capacity d)" for j
  proof -
    have "20 + j div 8 < ?off" using off [of i] bit_byte_in_bitmap [OF that] ok by (simp add: page_ok_def)
    then have "get_bit (rp_bitmap ?d2) j = get_bit (rp_bitmap ?d1) j"
      by (simp add: get_bit_def rp_bitmap_def at_off_def blit_def)
    then show ?thesis using bm1 by auto
  qed
  have same: "?d1 j = d j" if "20 + nat (page_bitmap_size (record_capacity d)) \<le> j" for j
    using bit_write_other(1) [OF ok i(1) that] that by (simp add: set_record_num_def mem_simps)
  have bytes: "bytes_at ?d2 (get_record_data d (int j)) ?n = bytes_at d (get_record_data d (int j)) ?n" if "j \<noteq> i" for j
  proof -
    have "bytes_at ?d2 (get_record_data d (int j)) ?n = bytes_at ?d1 (get_record_data d (int j)) ?n"
      using slots_disjoint [OF ok that] by (simp add: mem_simps)
    also have "\<dots> = bytes_at d (get_record_data d (int j)) ?n"
      by (rule bytes_at_cong) (use off [of j] same in auto)
    finally show ?thesis .
  qed
  have view: "rp_view ?d2 = (rp_view d)(i \<mapsto> map rec [0..<?n])" "rp_slots ?d2 = insert i (rp_slots d)"
    by (rule rp_view_upd [OF ok _ _ _ bits bytes _ i(1)]; simp add: f mem_simps)+
  then show "rp_view (fill_slot rec i d) = (rp_view d)(i \<mapsto> map rec [0..<?n])" unfolding d2 by simp
  show "record_capacity (fill_slot rec i d) = record_capacity d" "record_num (fill_slot rec i d) = record_num d + 1"
      "record_real_size (fill_slot rec i d) = record_real_size d"
    unfolding d2 by (simp_all add: f w)
  show "page_ok (fill_slot rec i d)"
  proof -
    have "record_num ?d2 = int (card (rp_slots ?d2))"
      unfolding f(1) view(2) using ok w i(2) by (simp add: page_ok_def)
    then show ?thesis unfolding d2 page_ok_def f(2-5) using ok by (simp add: page_ok_def)
  qed
qed

lemma first_free_slot:
  assumes "page_ok d" "record_num d \<noteq> record_capacity d"
  obtains i where "next_unsetted_bit (rp_bitmap d) 0 = int i" "i < nat (record_capacity d)" "i \<notin> rp_slots d"
    "\<forall>j<i. j \<in> rp_slots d"
proof -
  have eq: "next_unsetted_bit (rp_bitmap d) 0 = first_from (\<lambda>i. \<not> get_bit (rp_bitmap d) i) 0 (nat (record_capacity d))"
    using next_unsetted_first [of 0 "rp_bitmap d"] by (simp add: rp_bitmap_def)
  have "next_unsetted_bit (rp_bitmap d) 0 \<noteq> - 1"
  proof
    assume "next_unsetted_bit (rp_bitmap d) 0 = - 1"
    then have "\<forall>i < nat (record_capacity d). get_bit (rp_bitmap d) i" using eq first_from_neg_iff by fastforce
    then have "rp_slots d = {..<nat (record_capacity d)}" by (auto simp: rp_slots_def)
    then show False using assms by (simp add: page_ok_def)
  qed
  then obtain i where "next_unsetted_bit (rp_bitmap d) 0 = int i" "i < nat (record_capacity d)"
      "\<not> get_bit (rp_bitmap d) i" "\<forall>j. 0 \<le> j \<and> j < i \<longrightarrow> get_bit (rp_bitmap d) j"
    using eq first_from_nonneg [of "\<lambda>i. \<not> get_bit (rp_bitmap d) i" 0 "nat (record_capacity d)"] by auto
  then show thesis using that [of i] by (auto simp: rp_slots_def)
qed

lemma rp_insert_ok:
  assumes "page_ok d" "record_num d \<noteq> record_capacity d"
  obtains i d' where "rp_insert_record rec d = Some (SUCCESS, int i, d')" "i < nat (record_capacity d)"
    "i \<notin> rp_slots d" "\<forall>j<i. j \<in> rp_slots d" "page_ok d'"
    "rp_view d' = (rp_view d)(i \<mapsto> map rec [0..<nat (record_real_size d)])"
    "record_num d' = record_num d + 1" "record_capacity d' = record_capacity d"
    "record_real_size d' = record_real_size d"
proof -
  obtain i where i: "next_unsetted_bit (rp_bitmap d) 0 = int i" "i < nat (record_capacity d)" "i \<notin> rp_slots d"
      "\<forall>j<i. j \<in> rp_slots d"
    using first_free_slot [OF assms] by blast
  have "rp_insert_record rec d = Some (SUCCESS, int i, fill_slot rec i d)"
    using assms(2) i(1) by (simp add: rp_insert_record_def Let_def fill_slot_def)
  then show thesis using that [of i "fill_slot rec i d"] i fill_slot_view [OF assms(1) i(2,3)] by blast
qed

lemma rp_update_ok:
  assumes ok: "page_ok d" and i: "i \<in> rp_slots d"
  shows "\<exists>d'. rp_update_record rec (int i) d = Some (SUCCESS, d') \<and> page_ok d' \<and>
    rp_view d' = (rp_view d)(i \<mapsto> map rec [0..<nat (record_real_size d)])"
proof -
  let ?off = "get_record_data d (int i)" and ?n = "nat (record_real_size d)"
  let ?d1 = "blit d ?off rec ?n"
  let ?d2 = "put_bitmap (set_bit (rp_bitmap ?d1) i) ?d1"
  have ib: "i < nat (record_capacity d)" "get_bit (rp_bitmap d) i" using i by (auto simp: rp_slots_def)
  have off: "20 + nat (page_bitmap_size (record_capacity d)) \<le> ?off" by (rule slot_behind_bitmap [OF ok]) simp
  then have off20: "20 \<le> ?off" by linarith
  note f = blit_fields [OF off20, of d rec ?n]
  have "?d2 = ?d1"
  proof
    fix j
    have "get_bit (rp_bitmap ?d1) i" using rp_bitmap_blit [OF ok _ ib(1), of "int i" rec ?n] ib(2) by simp
    then have "set_bit (rp_bitmap ?d1) i = rp_bitmap ?d1" by (rule set_bit_id)
    then show "?d2 j = ?d1 j" by (simp add: put_bitmap_def rp_bitmap_def at_off_def)
  qed
  moreover have view: "rp_view ?d1 = (rp_view d)(i \<mapsto> map rec [0..<?n])" "rp_slots ?d1 = insert i (rp_slots d)"
    by (rule rp_view_upd [OF ok, where r = "map rec [0..<?n]"];
        use f ib rp_bitmap_blit [OF ok, of "int i"] slots_disjoint [OF ok] in \<open>auto simp: mem_simps\<close>)+
  moreover have "page_ok ?d1" using ok view(2) i by (simp add: page_ok_def f insert_absorb)
  ultimately show ?thesis using ib by (simp add: rp_update_record_def Let_def)
qed

lemma rp_delete_ok:
  assumes ok: "page_ok d" and i: "i \<in> rp_slots d"
  shows "\<exists>d'. rp_delete_record (int i) d = Some (SUCCESS, d') \<and> page_ok d' \<and> rp_view d' = (rp_view d)(i := None) \<and>
    record_num d' = record_num d - 1"
proof -
  let ?d0 = "put_bitmap (clear_bit (rp_bitmap d) i) d"
  let ?d1 = "set_record_num (record_num d - 1) ?d0"
  have ib: "i < nat (record_capacity d)" "get_bit (rp_bitmap d) i" using i by (auto simp: rp_slots_def)
  have bm1: "rp_bitmap ?d1 = clear_bit (rp_bitmap d) i" by simp
  have sl: "rp_slots ?d1 = rp_slots d - {i}" using bm1 by (auto simp: rp_slots_def)
  then have card: "card (rp_slots d) = Suc (card (rp_slots ?d1))" using i by (metis card.remove finite_slots)
  have cap: "record_capacity d < 2 ^ 31" unfolding record_capacity_def by (rule load_int_range)
  have w: "wrap32 (record_num d - 1) = record_num d - 1"
    by (rule wrap32_id) (use card card_slots_le [of d] cap ok in \<open>auto simp: page_ok_def\<close>)
  have same: "?d1 j = d j" if "20 + nat (page_bitmap_size (record_capacity d)) \<le> j" for j
    using bit_write_other(2) [OF ok ib(1) that] that by (simp add: set_record_num_def mem_simps)
  have "bytes_at ?d1 (get_record_data d (int j)) n = bytes_at d (get_record_data d (int j)) n" for j n
    by (rule bytes_at_cong) (use slot_behind_bitmap [OF ok, of "int j"] same in auto)
  then have "rp_view ?d1 = (rp_view d)(i := None)" using sl by (auto simp: rp_view_def fun_eq_iff)
  moreover have "page_ok ?d1" using ok card w by (simp add: page_ok_def)
  ultimately show ?thesis using ib w by (simp add: rp_delete_record_def Let_def)
qed

section \<open>The contract of a slotted page\<close>

locale slotted_page =
  fixes ok :: "'p \<Rightarrow> bool"
    and capacity :: "'p \<Rightarrow> nat"
    and view :: "'p \<Rightarrow> nat \<Rightarrow> 'r option"
    and insert_rec :: "'d \<Rightarrow> 'p \<Rightarrow> (RC \<times> int \<times> 'p) option"
    and update_rec :: "'d \<Rightarrow> int \<Rightarrow> 'p \<Rightarrow> (RC \<times> 'p) option"
    and delete_rec :: "int \<Rightarrow> 'p \<Rightarrow> (RC \<times> 'p) option"
    and repr :: "'p \<Rightarrow> 'd \<Rightarrow> 'r"
  assumes view_bound: "ok p \<Longrightarrow> view p i \<noteq> None \<Longrightarrow> i < capacity p"
    and insert_full: "ok p \<Longrightarrow> card (dom (view p)) = capacity p \<Longrightarrow> insert_rec d p = Some (RECORD_NOMEM, - 1, p)"
    and insert_free: "ok p \<Longrightarrow> card (dom (view p)) \<noteq> capacity p \<Longrightarrow>
      \<exists>i p'. insert_rec d p = Some (SUCCESS, int i, p') \<and> i < capacity p \<and> view p i = None \<and>
        (\<forall>j<i. view p j \<noteq> None) \<and> ok p' \<and> view p' = (view p)(i \<mapsto> repr p d) \<and>
        capacity p' = capacity p \<and> repr p' = repr p"
    and update_used: "ok p \<Longrightarrow> view p i \<noteq> None \<Longrightarrow>
      \<exists>p'. update_rec d (int i) p = Some (SUCCESS, p') \<and> ok p' \<and> view p' = (view p)(i \<mapsto> repr p d) \<and>
        capacity p' = capacity p \<and> repr p' = repr p"
    and update_unused: "ok p \<Longrightarrow> view p i = None \<Longrightarrow>
      update_rec d (int i) p = Some (if i < capacity p then RECORD_RECORD_NOT_EXIST else INVALID_ARGUMENT, p)"
    and delete_used: "ok p \<Longrightarrow> view p i \<noteq> None \<Longrightarrow>
      \<exists>p'. delete_rec (int i) p = Some (SUCCESS, p') \<and> ok p' \<and> view p' = (view p)(i := None) \<and>
        capacity p' = capacity p \<and> repr p' = repr p"
    and delete_unused: "ok p \<Longrightarrow> view p i = None \<Longrightarrow>
      delete_rec (int i) p = Some (if i < capacity p then RECORD_RECORD_NOT_EXIST else INVALID_ARGUMENT, p)"
begin

lemma insert_view:
  assumes "ok p" "insert_rec d p = Some (SUCCESS, s, p')"
  shows "\<exists>i. s = int i \<and> view p i = None \<and> view p' = (view p)(i \<mapsto> repr p d) \<and> ok p'"
  using insert_full [OF assms(1), of d] insert_free [OF assms(1), of d] assms(2)
  by (cases "card (dom (view p)) = capacity p") auto

end

lemma card_dom_view: "page_ok d \<Longrightarrow> (card (dom (rp_view d)) = nat (record_capacity d)) = (record_num d = record_capacity d)"
  by (auto simp: page_ok_def dom_rp_view)

lemma rp_update_layout:
  "rp_update_record rec slot d = Some (rc, d') \<Longrightarrow> page_ok d \<Longrightarrow> 0 \<le> slot \<Longrightarrow>
     record_capacity d' = record_capacity d \<and> record_real_size d' = record_real_size d"
  using slot_behind_bitmap [of d slot] blit_fields [of "get_record_data d slot"]
  by (auto simp: rp_update_record_def Let_def split: if_splits)

lemma rp_delete_layout:
  "rp_delete_record slot d = Some (rc, d') \<Longrightarrow>
     record_capacity d' = record_capacity d \<and> record_real_size d' = record_real_size d"
  by (auto simp: rp_delete_record_def Let_def split: if_splits)

lemma not_slot: "page_ok d \<Longrightarrow> rp_view d i = None \<longleftrightarrow> i \<notin> rp_slots d"
  by (simp add: rp_view_def)

interpretation record_page: slotted_page page_ok "\<lambda>d. nat (record_capacity d)" rp_view rp_insert_record
  rp_update_record rp_delete_record "\<lambda>d rec. map rec [0..<nat (record_real_size d)]"
proof
  fix d :: mem and rec :: mem and i :: nat
  assume ok: "page_ok d"
  show "i < nat (record_capacity d)" if "rp_view d i \<noteq> None"
    using that by (simp add: rp_view_def rp_slots_def split: if_splits)
  show "rp_insert_record rec d = Some (RECORD_NOMEM, - 1, d)" if "card (dom (rp_view d)) = nat (record_capacity d)"
    using that card_dom_view [OF ok] by (simp add: rp_insert_record_def)
  show "\<exists>i p'. rp_insert_record rec d = Some (SUCCESS, int i, p') \<and> i < nat (record_capacity d) \<and> rp_view d i = None \<and>
      (\<forall>j<i. rp_view d j \<noteq> None) \<and> page_ok p' \<and> rp_view p' = (rp_view d)(i \<mapsto> map rec [0..<nat (record_real_size d)]) \<and>
      nat (record_capacity p') = nat (record_capacity d) \<and>
      (\<lambda>rec. map rec [0..<nat (record_real_size p')]) = (\<lambda>rec. map rec [0..<nat (record_real_size d)])"
    if "card (dom (rp_view d)) \<noteq> nat (record_capacity d)"
  proof -
    have "record_num d \<noteq> record_capacity d" using that card_dom_view [OF ok] by simp
    then obtain i d' where "rp_insert_record rec d = Some (SUCCESS, int i, d')" "i < nat (record_capacity d)"
        "i \<notin> rp_slots d" "\<forall>j<i. j \<in> rp_slots d" "page_ok d'"
        "rp_view d' = (rp_view d)(i \<mapsto> map rec [0..<nat (record_real_size d)])"
        "record_capacity d' = record_capacity d" "record_real_size d' = record_real_size d"
      using rp_insert_ok [OF ok] by blast
    then show ?thesis by (intro exI [of _ i] exI [of _ d']) (simp add: rp_view_def)
  qed
  show "\<exists>p'. rp_update_record rec (int i) d = Some (SUCCESS, p') \<and> page_ok p' \<and>
      rp_view p' = (rp_view d)(i \<mapsto> map rec [0..<nat (record_real_size d)]) \<and>
      nat (record_capacity p') = nat (record_capacity d) \<and>
      (\<lambda>rec. map rec [0..<nat (record_real_size p')]) = (\<lambda>rec. map rec [0..<nat (record_real_size d)])"
    if used: "rp_view d i \<noteq> None"
  proof -
    obtain d' where "rp_update_record rec (int i) d = Some (SUCCESS, d')" "page_ok d'"
        "rp_view d' = (rp_view d)(i \<mapsto> map rec [0..<nat (record_real_size d)])"
      using rp_update_ok [OF ok, of i rec] used not_slot [OF ok] by auto
    then show ?thesis using rp_update_layout [OF _ ok, of rec "int i"] by (intro exI [of _ d']) simp
  qed
  show "rp_update_record rec (int i) d =
      Some (if i < nat (record_capacity d) then RECORD_RECORD_NOT_EXIST else INVALID_ARGUMENT, d)" if "rp_view d i = None"
    using that ok by (auto simp: rp_view_def rp_update_record_def rp_slots_def nat_le_iff page_ok_def split: if_splits)
  show "\<exists>p'. rp_delete_record (int i) d = Some (SUCCESS, p') \<and> page_ok p' \<and> rp_view p' = (rp_view d)(i := None) \<and>
      nat (record_capacity p') = nat (record_capacity d) \<and>
      (\<lambda>rec. map rec [0..<nat (record_real_size p')]) = (\<lambda>rec. map rec [0..<nat (record_real_size d)])"
    if used: "rp_view d i \<noteq> None"
  proof -
    obtain d' where "rp_delete_record (int i) d = Some (SUCCESS, d')" "page_ok d'" "rp_view d' = (rp_view d)(i := None)"
      using rp_delete_ok [OF ok, of i] used not_slot [OF ok] by auto
    then show ?thesis using rp_delete_layout [of "int i" d] by (intro exI [of _ d']) simp
  qed
  show "rp_delete_record (int i) d =
      Some (if i < nat (record_capacity d) then RECORD_RECORD_NOT_EXIST else INVALID_ARGUMENT, d)" if "rp_view d i = None"
    using that ok by (auto simp: rp_view_def rp_delete_record_def rp_slots_def nat_le_iff page_ok_def split: if_splits)
qed

section \<open>Properties\<close>

lemma align8_bounds: "n \<le> align8 n" "align8 n \<le> n + 7" "align8 n mod 8 = 0"
  unfolding align8_def by (auto; presburger)+

lemma div_times_less_eq_dividend_int: "0 < b \<Longrightarrow> a div b * b \<le> a" for a b :: int
  using div_mult_mod_eq [of a b] pos_mod_sign [of b a] by linarith

lemma layout_bound:
  assumes "0 \<le> rs" "21 \<le> ps" "c = page_record_capacity ps rs"
  shows "0 \<le> c" "page_fix_size + page_bitmap_size c + c * rs \<le> ps - 1"
proof -
  have c: "c = (8 * (ps - 21)) div (8 * rs + 1)" using assms(3) by (simp add: page_record_capacity_def page_fix_size_def)
  then show "0 \<le> c" using assms(1,2) by (simp add: pos_imp_zdiv_nonneg_iff)
  have "c * (8 * rs + 1) \<le> 8 * (ps - 21)"
    unfolding c using assms(1) by (intro div_times_less_eq_dividend_int) simp
  then have "8 * (c * rs) + c \<le> 8 * (ps - 21)" by (simp add: algebra_simps)
  then show "page_fix_size + page_bitmap_size c + c * rs \<le> ps - 1"
    unfolding page_bitmap_size_def page_fix_size_def by (cases "c mod 8 = 0") (simp; presburger)+
qed

text \<open>An empty formatted page.\<close>

lemma init_empty_ok:
  assumes "0 \<le> rec_size" "rec_size \<le> 2 ^ 20" "21 \<le> ps" "ps \<le> 2 ^ 20"
  shows "page_ok (init_empty ps rec_size d)" "rp_view (init_empty ps rec_size d) = Map.empty"
    "record_capacity (init_empty ps rec_size d) = page_record_capacity ps (align8 rec_size)"
    "record_real_size (init_empty ps rec_size d) = rec_size" "record_num (init_empty ps rec_size d) = 0"
    "record_size (init_empty ps rec_size d) = align8 rec_size"
    "first_record_offset (init_empty ps rec_size d) = page_header_size (page_record_capacity ps (align8 rec_size))"
proof -
  let ?phy = "align8 rec_size"
  let ?cap = "page_record_capacity ps (align8 rec_size)"
  let ?i = "init_empty ps rec_size d"
  have phy: "0 \<le> ?phy" "rec_size \<le> ?phy" "?phy \<le> 2 ^ 20 + 7" using align8_bounds [of rec_size] assms by linarith+
  have cap: "0 \<le> ?cap" "page_fix_size + page_bitmap_size ?cap + ?cap * ?phy \<le> ps - 1"
    using layout_bound [OF phy(1) assms(3) refl] by auto
  have bs: "0 \<le> page_bitmap_size ?cap" using cap(1) by (simp add: page_bitmap_size_def pos_imp_zdiv_nonneg_iff)
  have cs: "0 \<le> ?cap * ?phy" using cap(1) phy(1) by simp
  have hs: "page_fix_size + page_bitmap_size ?cap \<le> page_header_size ?cap" "page_header_size ?cap \<le> ps + 6"
    using align8_bounds [of "page_fix_size + page_bitmap_size ?cap"] cap(2) cs unfolding page_header_size_def by linarith+
  have capb: "?cap \<le> 8 * page_bitmap_size ?cap" unfolding page_bitmap_size_def by (cases "?cap mod 8 = 0") (simp; presburger)+
  have w: "wrap32 ?cap = ?cap" "wrap32 rec_size = rec_size" "wrap32 ?phy = ?phy" "wrap32 (page_header_size ?cap) = page_header_size ?cap"
      "wrap32 0 = 0"
    using assms phy cap hs bs cs capb by (auto intro!: wrap32_id simp: page_fix_size_def)
  show f: "record_capacity ?i = ?cap" "record_real_size ?i = rec_size" "record_num ?i = 0" "record_size ?i = ?phy"
      "first_record_offset ?i = page_header_size ?cap"
    by (simp_all add: init_empty_def Let_def record_capacity_def record_real_size_def record_num_def record_size_def
        first_record_offset_def mem_simps w)
  have "\<not> get_bit (rp_bitmap ?i) j" if "j < nat ?cap" for j
  proof -
    have "j div 8 < nat (page_bitmap_size ?cap)" by (rule bit_byte_in_bitmap [OF that cap(1)])
    then have "at_off ?i 20 (j div 8) = 0" by (simp add: init_empty_def Let_def at_off_def blit_def)
    then show ?thesis by (simp add: get_bit_def rp_bitmap_def)
  qed
  then have sl: "rp_slots ?i = {}" using f(1) by (auto simp: rp_slots_def)
  show "rp_view ?i = Map.empty" using sl by (auto simp: rp_view_def)
  show "page_ok ?i" using sl f phy cap hs assms(1) by (simp add: page_ok_def)
qed

text \<open>The calls on one page, and the reference: a map with a fixed number of slots.\<close>

datatype page_call = PInsert mem | PUpdate nat mem | PDelete nat

fun page_run :: "page_call list \<Rightarrow> mem \<Rightarrow> ((RC \<times> int) list \<times> mem) option" where
  "page_run [] d = Some ([], d)"
| "page_run (PInsert rec # cs) d = do {
     (rc, slot, d) \<leftarrow> rp_insert_record rec d;
     (rs, d) \<leftarrow> page_run cs d;
     Some ((rc, slot) # rs, d)
   }"
| "page_run (PUpdate i rec # cs) d = do {
     (rc, d) \<leftarrow> rp_update_record rec (int i) d;
     (rs, d) \<leftarrow> page_run cs d;
     Some ((rc, int i) # rs, d)
   }"
| "page_run (PDelete i # cs) d = do {
     (rc, d) \<leftarrow> rp_delete_record (int i) d;
     (rs, d) \<leftarrow> page_run cs d;
     Some ((rc, int i) # rs, d)
   }"

definition least_free :: "nat \<Rightarrow> (nat \<rightharpoonup> 'r) \<Rightarrow> int" where
  "least_free cap m = first_from (\<lambda>i. m i = None) 0 cap"

fun slot_run :: "nat \<Rightarrow> nat \<Rightarrow> page_call list \<Rightarrow> (nat \<rightharpoonup> byte list) \<Rightarrow> (RC \<times> int) list \<times> (nat \<rightharpoonup> byte list)" where
  "slot_run cap len [] m = ([], m)"
| "slot_run cap len (PInsert rec # cs) m =
     (let i = least_free cap m;
          r = (if i = - 1 then RECORD_NOMEM else SUCCESS, i);
          m' = (if i = - 1 then m else m(nat i \<mapsto> map rec [0..<len])) in
      apfst (Cons r) (slot_run cap len cs m'))"
| "slot_run cap len (PUpdate i rec # cs) m =
     (let rc = (if m i \<noteq> None then SUCCESS else if i < cap then RECORD_RECORD_NOT_EXIST else INVALID_ARGUMENT);
          m' = (if m i \<noteq> None then m(i \<mapsto> map rec [0..<len]) else m) in
      apfst (Cons (rc, int i)) (slot_run cap len cs m'))"
| "slot_run cap len (PDelete i # cs) m =
     (let rc = (if m i \<noteq> None then SUCCESS else if i < cap then RECORD_RECORD_NOT_EXIST else INVALID_ARGUMENT) in
      apfst (Cons (rc, int i)) (slot_run cap len cs (m(i := None))))"

lemma least_free_full:
  assumes "\<And>i. m i \<noteq> None \<Longrightarrow> i < cap"
  shows "least_free cap m = - 1 \<longleftrightarrow> card (dom m) = cap"
proof -
  have "dom m \<subseteq> {..<cap}" using assms by auto
  then have "card (dom m) = cap \<longleftrightarrow> dom m = {..<cap}"
    by (metis card_lessThan card_subset_eq finite_lessThan)
  also have "\<dots> \<longleftrightarrow> (\<forall>i<cap. m i \<noteq> None)" using \<open>dom m \<subseteq> {..<cap}\<close> by auto
  finally show ?thesis by (simp add: least_free_def first_from_neg_iff)
qed

lemma page_run_sound:
  assumes "page_ok d" "cap = nat (record_capacity d)" "len = nat (record_real_size d)"
  shows "\<exists>d'. page_run cs d = Some (fst (slot_run cap len cs (rp_view d)), d') \<and> page_ok d' \<and>
    rp_view d' = snd (slot_run cap len cs (rp_view d))"
  using assms
proof (induction cs d rule: page_run.induct)
  case (1 d)
  then show ?case by simp
next
  case (2 rec cs d)
  have bnd: "\<And>i. rp_view d i \<noteq> None \<Longrightarrow> i < cap" using record_page.view_bound "2.prems" by blast
  show ?case
  proof (cases "card (dom (rp_view d)) = cap")
    case True
    then have nm: "rp_insert_record rec d = Some (RECORD_NOMEM, - 1, d)" using record_page.insert_full "2.prems" by blast
    have "least_free cap (rp_view d) = - 1" using least_free_full [of "rp_view d" cap, OF bnd] True by simp
    moreover have "\<exists>d'. page_run cs d = Some (fst (slot_run cap len cs (rp_view d)), d') \<and> page_ok d' \<and>
        rp_view d' = snd (slot_run cap len cs (rp_view d))"
      using "2.IH" [OF nm refl refl] "2.prems" by simp
    ultimately show ?thesis using nm by auto
  next
    case False
    then obtain i d' where i: "rp_insert_record rec d = Some (SUCCESS, int i, d')" "i < cap" "rp_view d i = None"
        "\<forall>j<i. rp_view d j \<noteq> None" "page_ok d'" "rp_view d' = (rp_view d)(i \<mapsto> map rec [0..<len])"
        "nat (record_capacity d') = cap" "(\<lambda>rec. map rec [0..<nat (record_real_size d')]) = (\<lambda>rec :: mem. map rec [0..<len])"
      using record_page.insert_free [of d rec] "2.prems" by auto
    have "length (map (\<lambda>_. 0 :: byte) [0..<nat (record_real_size d')]) = length (map (\<lambda>_. 0 :: byte) [0..<len])"
      using i(8) by metis
    then have len: "nat (record_real_size d') = len" by simp
    have lf: "least_free cap (rp_view d) = int i"
      unfolding least_free_def by (rule first_from_least) (use i in auto)
    obtain d2 where "page_run cs d' = Some (fst (slot_run cap len cs (rp_view d')), d2)" "page_ok d2"
        "rp_view d2 = snd (slot_run cap len cs (rp_view d'))"
      using "2.IH" [OF i(1) refl refl i(5)] i(7) len by auto
    then show ?thesis using i(1) lf unfolding i(6) by simp
  qed
next
  case (3 i rec cs d)
  show ?case
  proof (cases "rp_view d i")
    case None
    then have u: "rp_update_record rec (int i) d = Some (if i < cap then RECORD_RECORD_NOT_EXIST else INVALID_ARGUMENT, d)"
      using record_page.update_unused "3.prems" by blast
    obtain d2 where "page_run cs d = Some (fst (slot_run cap len cs (rp_view d)), d2)" "page_ok d2"
        "rp_view d2 = snd (slot_run cap len cs (rp_view d))"
      using "3.IH" [OF u refl "3.prems"] by blast
    then show ?thesis using u None by simp
  next
    case (Some r)
    then obtain d' where i: "rp_update_record rec (int i) d = Some (SUCCESS, d')" "page_ok d'"
        "rp_view d' = (rp_view d)(i \<mapsto> map rec [0..<len])" "nat (record_capacity d') = cap"
      using record_page.update_used [of d i rec] "3.prems" by auto
    have "nat (record_real_size d') = len" using rp_update_layout [OF i(1)] "3.prems" by simp
    then obtain d2 where "page_run cs d' = Some (fst (slot_run cap len cs (rp_view d')), d2)" "page_ok d2"
        "rp_view d2 = snd (slot_run cap len cs (rp_view d'))"
      using "3.IH" [OF i(1) refl i(2)] i(4) by auto
    then show ?thesis using i(1) Some unfolding i(3) by simp
  qed
next
  case (4 i cs d)
  show ?case
  proof (cases "rp_view d i")
    case None
    then have u: "rp_delete_record (int i) d = Some (if i < cap then RECORD_RECORD_NOT_EXIST else INVALID_ARGUMENT, d)"
      using record_page.delete_unused "4.prems" by blast
    have n: "(rp_view d)(i := None) = rp_view d" using None by auto
    obtain d2 where "page_run cs d = Some (fst (slot_run cap len cs (rp_view d)), d2)" "page_ok d2"
        "rp_view d2 = snd (slot_run cap len cs (rp_view d))"
      using "4.IH" [OF u refl "4.prems"] by blast
    then show ?thesis using u None n by simp
  next
    case (Some r)
    then obtain d' where i: "rp_delete_record (int i) d = Some (SUCCESS, d')" "page_ok d'"
        "rp_view d' = (rp_view d)(i := None)" "nat (record_capacity d') = cap"
      using record_page.delete_used [of d i] "4.prems" by auto
    have "nat (record_real_size d') = len" using rp_delete_layout [OF i(1)] "4.prems" by simp
    then obtain d2 where "page_run cs d' = Some (fst (slot_run cap len cs (rp_view d')), d2)" "page_ok d2"
        "rp_view d2 = snd (slot_run cap len cs (rp_view d'))"
      using "4.IH" [OF i(1) refl i(2)] i(4) by auto
    then show ?thesis using i(1) Some unfolding i(3) by simp
  qed
qed



text \<open>The loop over a page: \<open>n\<close> calls of \<^verbatim>\<open>next\<close> at most, the records visited.\<close>

fun rpi_run :: "nat \<Rightarrow> mem \<Rightarrow> RecordPageIterator \<Rightarrow> (PageNum \<times> int \<times> nat) list \<times> RecordPageIterator" where
  "rpi_run 0 d it = ([], it)"
| "rpi_run (Suc n) d it =
     (if rpi_has_next it then
        case rpi_next d it of (_, rec, it) \<Rightarrow> apfst (Cons rec) (rpi_run n d it)
      else ([], it))"

lemma rpi_run_from:
  assumes "start = 0 \<or> (\<exists>i. start = Suc i \<and> get_bit (rp_bitmap d) i)"
    and "nat (record_capacity d) < n + start"
  shows "\<exists>it. rpi_run n d \<lparr>rpi_page_num = p, rpi_next_slot_num = next_setted_bit (rp_bitmap d) start\<rparr> =
      (map (\<lambda>i. (p, int i, get_record_data d (int i))) (filter (get_bit (rp_bitmap d)) [start..<nat (record_capacity d)]), it) \<and>
    \<not> rpi_has_next it"
  using assms
proof (induction n arbitrary: start)
  case 0
  then have "next_setted_bit (rp_bitmap d) start = - 1"
    using next_setted_sound [of "rp_bitmap d" start] by fastforce
  then show ?case using 0 by (simp add: rpi_has_next_def)
next
  case (Suc n)
  let ?bm = "rp_bitmap d"
  have c: "start mod 8 = 0 \<or> bm_data ?bm (start div 8) \<noteq> 0 \<or> (\<exists>i. start = Suc i \<and> get_bit ?bm i)"
    using Suc.prems(1) by auto
  have sf: "setted_from ?bm start = filter (get_bit ?bm) [start..<nat (record_capacity d)]"
    using setted_from_complete [OF c] by simp
  show ?case
  proof (cases "next_setted_bit ?bm start = - 1")
    case True
    then have "filter (get_bit ?bm) [start..<nat (record_capacity d)] = []"
      using sf by (subst (asm) setted_from.simps) simp
    then show ?thesis using True by (simp add: rpi_has_next_def)
  next
    case False
    then obtain i where i: "next_setted_bit ?bm start = int i" "start \<le> i" "i < nat (record_capacity d)" "get_bit ?bm i"
      using next_setted_sound [of ?bm start] by auto
    have "setted_from ?bm (Suc i) = filter (get_bit ?bm) [Suc i..<nat (record_capacity d)]"
      using setted_from_complete [of "Suc i" ?bm] i(4) by simp
    then have hd: "filter (get_bit ?bm) [start..<nat (record_capacity d)] =
        i # filter (get_bit ?bm) [Suc i..<nat (record_capacity d)]"
      using sf i(1) by (subst (asm) setted_from.simps) simp
    obtain it where it: "rpi_run n d \<lparr>rpi_page_num = p, rpi_next_slot_num = next_setted_bit ?bm (Suc i)\<rparr> =
          (map (\<lambda>i. (p, int i, get_record_data d (int i))) (filter (get_bit ?bm) [Suc i..<nat (record_capacity d)]), it)"
        "\<not> rpi_has_next it"
      using Suc.IH [of "Suc i"] Suc.prems(2) i by auto
    have "nat (int i + 1) = Suc i" by simp
    then have "rpi_next d \<lparr>rpi_page_num = p, rpi_next_slot_num = int i\<rparr> =
        (SUCCESS, (p, int i, get_record_data d (int i)), \<lparr>rpi_page_num = p, rpi_next_slot_num = next_setted_bit ?bm (Suc i)\<rparr>)"
      by (simp add: rpi_next_def Let_def)
    then show ?thesis using it i(1) hd by (simp add: rpi_has_next_def)
  qed
qed

text \<open>
  Scanning a page: the loop \<^verbatim>\<open>while (has_next()) next()\<close> ends after at most \<open>capacity + 1\<close> rounds and
  visits exactly the used slots, each once and in ascending order, with the page number
  and the address of the record.
\<close>

theorem record_iterator_complete:
  "\<exists>it. rpi_run (Suc (nat (record_capacity d))) d (rpi_init p d) =
      (map (\<lambda>i. (p, int i, get_record_data d (int i))) (sorted_list_of_set (rp_slots d)), it) \<and>
    \<not> rpi_has_next it"
proof -
  have "sorted_list_of_set (rp_slots d) = filter (get_bit (rp_bitmap d)) [0..<nat (record_capacity d)]"
    by (rule sorted_distinct_set_unique) (auto simp: rp_slots_def sorted_wrt_filter)
  then show ?thesis using rpi_run_from [of 0 d "Suc (nat (record_capacity d))" p] by (simp add: rpi_init_def)
qed

section \<open>Does the layout fit?\<close>

definition layout_end :: "int \<Rightarrow> int \<Rightarrow> int" where
  "layout_end page_size rs =
     (let c = page_record_capacity page_size rs in page_header_size c + c * rs)"

fun all_layouts_fit :: "int \<Rightarrow> nat \<Rightarrow> int \<Rightarrow> bool" where
  "all_layouts_fit page_size 0 rs = True"
| "all_layouts_fit page_size (Suc n) rs =
     ((rs = 24 \<or> layout_end page_size rs \<le> page_size) \<and> all_layouts_fit page_size n (rs + 8))"

lemma all_layouts_fitD:
  "all_layouts_fit ps n rs \<Longrightarrow> k < n \<Longrightarrow> rs + 8 * int k \<noteq> 24 \<Longrightarrow> layout_end ps (rs + 8 * int k) \<le> ps"
proof (induction n arbitrary: rs k)
  case (Suc n)
  then show ?case using Suc.IH [of "rs + 8" "k - 1"] by (cases k) (auto simp: algebra_simps)
qed simp

lemma layouts_of_page: "all_layouts_fit 16380 2045 8"
  by code_simp

text \<open>
  Layout of a page of the buffer pool: for every record size whose aligned size is not 24, header,
  bitmap and all record slots lie inside the page.
\<close>

theorem page_layout_fits:
  assumes "0 < rec_size" "align8 rec_size \<noteq> 24"
  shows "page_header_size (page_record_capacity BP_PAGE_DATA_SIZE (align8 rec_size)) +
    page_record_capacity BP_PAGE_DATA_SIZE (align8 rec_size) * align8 rec_size \<le> BP_PAGE_DATA_SIZE"
proof -
  let ?rs = "align8 rec_size"
  have ps: "BP_PAGE_DATA_SIZE = 16380" by (simp add: BP_PAGE_DATA_SIZE_def BP_PAGE_SIZE_def)
  have "?rs mod 8 = 0" "0 < ?rs" using align8_bounds [of rec_size] assms(1) by linarith+
  then obtain k where k: "?rs = 8 + 8 * int k"
  proof -
    have "?rs = 8 + 8 * int (nat (?rs div 8 - 1))"
      using \<open>?rs mod 8 = 0\<close> \<open>0 < ?rs\<close> by (auto simp: nat_0_le elim!: dvdE)
    then show thesis by (rule that)
  qed
  show ?thesis
  proof (cases "k < 2045")
    case True
    then show ?thesis
      using all_layouts_fitD [OF layouts_of_page True] assms(2) unfolding k ps by (simp add: layout_end_def Let_def)
  next
    case False
    then have "page_record_capacity BP_PAGE_DATA_SIZE ?rs = 0"
      unfolding k ps page_record_capacity_def page_fix_size_def by (intro div_pos_pos_trivial) auto
    then show ?thesis by (simp add: ps page_header_size_def align8_def page_bitmap_size_def page_fix_size_def)
  qed
qed

theorem page_layout_fits_witness:
  "page_header_size (page_record_capacity BP_PAGE_DATA_SIZE (align8 100)) +
     page_record_capacity BP_PAGE_DATA_SIZE (align8 100) * align8 100 \<le> BP_PAGE_DATA_SIZE"
  by (rule page_layout_fits) (simp_all add: align8_def)

text \<open>
  For records of 21 to 24 bytes the computed capacity is 678 and the last of the 678 slots starts at
  byte 16360 of a page with 16380 data bytes: the last record is written past the end of the
  frame.
\<close>

theorem page_layout_overflow:
  "(\<forall>n. 17 \<le> n \<and> n \<le> 24 \<longrightarrow> align8 n = 24) \<and> page_record_capacity BP_PAGE_DATA_SIZE 24 = 678 \<and>
   int (get_record_data (init_empty BP_PAGE_DATA_SIZE 21 d) 677) + 21 = BP_PAGE_DATA_SIZE + 1"
proof -
  have "(0 :: int) \<le> 21" "(21 :: int) \<le> 2 ^ 20" "21 \<le> BP_PAGE_DATA_SIZE" "BP_PAGE_DATA_SIZE \<le> 2 ^ 20"
    by (simp_all add: BP_PAGE_DATA_SIZE_def BP_PAGE_SIZE_def)
  note i = init_empty_ok [OF this, of d]
  have "align8 n = 24" if "17 \<le> n" "n \<le> 24" for n using that unfolding align8_def by presburger
  moreover have "align8 21 = 24" by (simp add: align8_def)
  ultimately show ?thesis
    unfolding get_record_data_def i(6,7)
    by (simp add: page_record_capacity_def page_header_size_def page_bitmap_size_def page_fix_size_def
        BP_PAGE_DATA_SIZE_def BP_PAGE_SIZE_def) (simp add: align8_def)
qed

theorem page_layout_overflow_witness:
  "align8 24 = 24 \<and> page_record_capacity BP_PAGE_DATA_SIZE 24 = 678"
  using page_layout_overflow by simp

end
