(* ===== verification/Ob_RecordFile.thy ===== *)
theory Ob_RecordFile
  imports Ob_BufferPoolHeader Ob_RecordPage
begin

text \<open>
  Record files (\<open>src/src/observer/storage/record/record_manager.cpp\<close>): the page handler that pins a page of the
  buffer pool, the file handler with its set of pages that have room, and the scanner over all
  records of a file.  A local page handler is cleaned up by its destructor, so the functions below end with
  \<open>rph_cleanup\<close> where the source has a closing brace.  The \<^verbatim>\<open>unordered_set\<close> of free pages is a list
  without duplicates in an unspecified order; its head is \<^verbatim>\<open>*begin()\<close>.
\<close>

section \<open>Record identifiers\<close>

record RID =
  rid_page_num :: PageNum
  rid_slot_num :: SlotNum

abbreviation mk_rid :: "PageNum \<Rightarrow> SlotNum \<Rightarrow> RID" where
  "mk_rid p i \<equiv> \<lparr>rid_page_num = p, rid_slot_num = i\<rparr>"

section \<open>The page handler\<close>

record RecordPageHandler =
  rph_pool :: "nat option"
  rph_frame :: nat

definition rph_new :: RecordPageHandler where
  "rph_new = \<lparr>rph_pool = None, rph_frame = 0\<rparr>"

abbreviation rph_data :: "BPSys \<Rightarrow> RecordPageHandler \<Rightarrow> mem" where
  "rph_data s h \<equiv> data (page (frame_of s (rph_frame h)))"

definition rph_get_page_num :: "BPSys \<Rightarrow> RecordPageHandler \<Rightarrow> PageNum" where
  "rph_get_page_num s h = page_num (page (frame_of s (rph_frame h)))"

definition rph_init :: "nat \<Rightarrow> PageNum \<Rightarrow> RecordPageHandler \<Rightarrow> BPSys \<Rightarrow> (RC \<times> RecordPageHandler \<times> BPSys) option" where
  "rph_init b p h s =
     (if rph_pool h \<noteq> None then Some (RECORD_OPENNED, h, s)
      else do {
        (ret, frame, s) \<leftarrow> get_this_page b p s;
        if ret \<noteq> SUCCESS then Some (ret, h, s)
        else do {
          a \<leftarrow> frame;
          Some (SUCCESS, \<lparr>rph_pool = Some b, rph_frame = a\<rparr>, s)
        }
      })"

definition rph_recover_init ::
    "nat \<Rightarrow> PageNum \<Rightarrow> RecordPageHandler \<Rightarrow> BPSys \<Rightarrow> (RC \<times> RecordPageHandler \<times> BPSys) option" where
  "rph_recover_init b p h s =
     (if rph_pool h \<noteq> None then Some (RECORD_OPENNED, h, s)
      else do {
        (ret, frame, s) \<leftarrow> get_this_page b p s;
        if ret \<noteq> SUCCESS then Some (ret, h, s)
        else do {
          a \<leftarrow> frame;
          (_, s) \<leftarrow> recover_page b p s;
          Some (SUCCESS, \<lparr>rph_pool = Some b, rph_frame = a\<rparr>, s)
        }
      })"

definition rph_cleanup :: "RecordPageHandler \<Rightarrow> BPSys \<Rightarrow> (RecordPageHandler \<times> BPSys) option" where
  "rph_cleanup h s = (case rph_pool h of
      None \<Rightarrow> Some (h, s)
    | Some b \<Rightarrow> do {
        (_, s) \<leftarrow> unpin_page b (rph_frame h) s;
        Some (h\<lparr>rph_pool := None\<rparr>, s)
      })"

definition rph_init_empty_page ::
    "nat \<Rightarrow> PageNum \<Rightarrow> int \<Rightarrow> RecordPageHandler \<Rightarrow> BPSys \<Rightarrow> (RC \<times> RecordPageHandler \<times> BPSys) option" where
  "rph_init_empty_page b p rec_size h s = do {
     (ret, h, s) \<leftarrow> rph_init b p h s;
     if ret \<noteq> SUCCESS then Some (ret, h, s)
     else do {
       let s = upd_data (rph_frame h) (init_empty BP_PAGE_DATA_SIZE rec_size) s;
       (ret, s) \<leftarrow> flush_page b (rph_frame h) s;
       if ret \<noteq> SUCCESS then Some (ret, h, s) else Some (SUCCESS, h, s)
     }
   }"

text \<open>The operations change the page and mark the frame dirty on success only.\<close>

definition rph_put :: "RecordPageHandler \<Rightarrow> RC \<Rightarrow> mem \<Rightarrow> BPSys \<Rightarrow> BPSys" where
  "rph_put h rc d s = (if rc = SUCCESS then write_page (rph_frame h) (\<lambda>_. d) s else s)"

definition rph_insert_record :: "RecordPageHandler \<Rightarrow> mem \<Rightarrow> BPSys \<Rightarrow> (RC \<times> RID \<times> BPSys) option" where
  "rph_insert_record h rec s = do {
     (rc, slot, d) \<leftarrow> rp_insert_record rec (rph_data s h);
     Some (rc, mk_rid (rph_get_page_num s h) slot, rph_put h rc d s)
   }"

definition rph_recover_insert_record :: "RecordPageHandler \<Rightarrow> mem \<Rightarrow> RID \<Rightarrow> BPSys \<Rightarrow> (RC \<times> BPSys) option" where
  "rph_recover_insert_record h rec rid s = do {
     (rc, d) \<leftarrow> rp_recover_insert_record rec (rid_slot_num rid) (rph_data s h);
     Some (rc, rph_put h rc d s)
   }"

definition rph_update_record :: "RecordPageHandler \<Rightarrow> mem \<Rightarrow> RID \<Rightarrow> BPSys \<Rightarrow> (RC \<times> BPSys) option" where
  "rph_update_record h rec rid s = do {
     (rc, d) \<leftarrow> rp_update_record rec (rid_slot_num rid) (rph_data s h);
     Some (rc, rph_put h rc d s)
   }"

definition rph_recover_update_record :: "RecordPageHandler \<Rightarrow> mem \<Rightarrow> RID \<Rightarrow> BPSys \<Rightarrow> (RC \<times> BPSys) option" where
  "rph_recover_update_record h rec rid s = do {
     (rc, d) \<leftarrow> rp_recover_update_record rec (rid_slot_num rid) (rph_data s h);
     Some (rc, rph_put h rc d s)
   }"

definition rph_delete_record ::
    "RecordPageHandler \<Rightarrow> RID \<Rightarrow> BPSys \<Rightarrow> (RC \<times> RecordPageHandler \<times> BPSys) option" where
  "rph_delete_record h rid s = do {
     (rc, d) \<leftarrow> rp_delete_record (rid_slot_num rid) (rph_data s h);
     let s = rph_put h rc d s;
     if rc = SUCCESS \<and> record_num d = 0 then do {
       b \<leftarrow> rph_pool h;
       let p = rph_get_page_num s h;
       (h, s) \<leftarrow> rph_cleanup h s;
       (_, s) \<leftarrow> dispose_page b p s;
       Some (SUCCESS, h, s)
     }
     else Some (rc, h, s)
   }"

text \<open>The record found: the frame and the offset of its data.\<close>

definition rph_get_record :: "RecordPageHandler \<Rightarrow> RID \<Rightarrow> BPSys \<Rightarrow> (RC \<times> nat \<times> nat) option" where
  "rph_get_record h rid s = do {
     (rc, off) \<leftarrow> rp_get_record (rid_slot_num rid) (rph_data s h);
     Some (rc, rph_frame h, off)
   }"

section \<open>The file handler\<close>

record RecordFileHandler =
  rfh_pool :: "nat option"
  rfh_free_pages :: "PageNum list"

definition add_free :: "PageNum \<Rightarrow> PageNum list \<Rightarrow> PageNum list" where
  "add_free p ps = (if p \<in> set ps then ps else p # ps)"

partial_function (option) init_free_pages_loop ::
    "nat \<Rightarrow> BufferPoolIterator \<Rightarrow> RC \<Rightarrow> PageNum list \<Rightarrow> BPSys \<Rightarrow> (RC \<times> PageNum list \<times> BPSys) option" where
  "init_free_pages_loop b it rc ps s = do {
     more \<leftarrow> bpi_has_next it s;
     if \<not> more then Some (rc, ps, s)
     else do {
       (p, it) \<leftarrow> bpi_next it s;
       (rc, h, s) \<leftarrow> rph_init b p rph_new s;
       if rc \<noteq> SUCCESS then Some (rc, ps, s)
       else do {
         let ps = (if \<not> is_full (rph_data s h) then add_free p ps else ps);
         (_, s) \<leftarrow> rph_cleanup h s;
         init_free_pages_loop b it rc ps s
       }
     }
   }"

definition init_free_pages :: "nat \<Rightarrow> PageNum list \<Rightarrow> BPSys \<Rightarrow> (RC \<times> PageNum list \<times> BPSys) option" where
  "init_free_pages b ps s = do {
     it \<leftarrow> bpi_init b 0 s;
     init_free_pages_loop b it SUCCESS ps s
   }"

definition rfh_init :: "nat \<Rightarrow> RecordFileHandler \<Rightarrow> BPSys \<Rightarrow> (RC \<times> RecordFileHandler \<times> BPSys) option" where
  "rfh_init b f s =
     (if rfh_pool f \<noteq> None then Some (RECORD_OPENNED, f, s)
      else do {
        (_, ps, s) \<leftarrow> init_free_pages b (rfh_free_pages f) s;
        Some (SUCCESS, f\<lparr>rfh_pool := Some b, rfh_free_pages := ps\<rparr>, s)
      })"

definition rfh_close :: "RecordFileHandler \<Rightarrow> RecordFileHandler" where
  "rfh_close f = f\<lparr>rfh_pool := None\<rparr>"

text \<open>The search of \<^verbatim>\<open>insert_record\<close> for a page with room; full pages leave the set.\<close>

fun find_free_page :: "nat \<Rightarrow> PageNum list \<Rightarrow> BPSys \<Rightarrow>
    (RC \<times> RecordPageHandler option \<times> PageNum list \<times> BPSys) option" where
  "find_free_page b [] s = Some (SUCCESS, None, [], s)"
| "find_free_page b (p # ps) s = do {
     (ret, h, s) \<leftarrow> rph_init b p rph_new s;
     if ret \<noteq> SUCCESS then Some (ret, None, p # ps, s)
     else if \<not> is_full (rph_data s h) then Some (SUCCESS, Some h, p # ps, s)
     else do {
       (_, s) \<leftarrow> rph_cleanup h s;
       find_free_page b ps s
     }
   }"

text \<open>The last step: insert through the open handler, which is then destroyed.\<close>

definition finish_insert :: "RecordPageHandler \<Rightarrow> mem \<Rightarrow> PageNum list \<Rightarrow> RecordFileHandler \<Rightarrow> BPSys \<Rightarrow>
    (RC \<times> RID \<times> RecordFileHandler \<times> BPSys) option" where
  "finish_insert h rec ps f s = do {
     (rc, rid, s) \<leftarrow> rph_insert_record h rec s;
     (_, s) \<leftarrow> rph_cleanup h s;
     Some (rc, rid, f\<lparr>rfh_free_pages := ps\<rparr>, s)
   }"

definition no_rid :: RID where "no_rid = mk_rid (- 1) (- 1)"

definition rfh_insert_record :: "mem \<Rightarrow> int \<Rightarrow> RecordFileHandler \<Rightarrow> BPSys \<Rightarrow>
    (RC \<times> RID \<times> RecordFileHandler \<times> BPSys) option" where
  "rfh_insert_record rec rec_size f s = do {
     b \<leftarrow> rfh_pool f;
     (ret, found, ps, s) \<leftarrow> find_free_page b (rfh_free_pages f) s;
     if ret \<noteq> SUCCESS then Some (ret, no_rid, f\<lparr>rfh_free_pages := ps\<rparr>, s)
     else case found of
       Some h \<Rightarrow> finish_insert h rec ps f s
     | None \<Rightarrow> do {
         (ret, frame, s) \<leftarrow> allocate_page b s;
         if ret \<noteq> SUCCESS then Some (ret, no_rid, f\<lparr>rfh_free_pages := ps\<rparr>, s)
         else do {
           a \<leftarrow> frame;
           let p = page_num (page (frame_of s a));
           (ret, h, s) \<leftarrow> rph_init_empty_page b p rec_size rph_new s;
           if ret \<noteq> SUCCESS then do {
             (_, s) \<leftarrow> unpin_page b a s;
             (_, s) \<leftarrow> rph_cleanup h s;
             Some (ret, no_rid, f\<lparr>rfh_free_pages := ps\<rparr>, s)
           }
           else do {
             (_, s) \<leftarrow> unpin_page b a s;
             finish_insert h rec (add_free p ps) f s
           }
         }
       }
   }"

definition rfh_recover_insert_record :: "mem \<Rightarrow> RID \<Rightarrow> RecordFileHandler \<Rightarrow> BPSys \<Rightarrow> (RC \<times> BPSys) option" where
  "rfh_recover_insert_record rec rid f s = do {
     b \<leftarrow> rfh_pool f;
     (ret, h, s) \<leftarrow> rph_recover_init b (rid_page_num rid) rph_new s;
     if ret \<noteq> SUCCESS then Some (ret, s)
     else do {
       (rc, s) \<leftarrow> rph_recover_insert_record h rec rid s;
       (_, s) \<leftarrow> rph_cleanup h s;
       Some (rc, s)
     }
   }"

definition rfh_update_record :: "mem \<Rightarrow> RID \<Rightarrow> RecordFileHandler \<Rightarrow> BPSys \<Rightarrow> (RC \<times> BPSys) option" where
  "rfh_update_record rec rid f s = do {
     b \<leftarrow> rfh_pool f;
     (ret, h, s) \<leftarrow> rph_init b (rid_page_num rid) rph_new s;
     if ret \<noteq> SUCCESS then Some (ret, s)
     else do {
       (rc, s) \<leftarrow> rph_update_record h rec rid s;
       (_, s) \<leftarrow> rph_cleanup h s;
       Some (rc, s)
     }
   }"

definition rfh_recover_update_record :: "mem \<Rightarrow> RID \<Rightarrow> RecordFileHandler \<Rightarrow> BPSys \<Rightarrow> (RC \<times> BPSys) option" where
  "rfh_recover_update_record rec rid f s = do {
     b \<leftarrow> rfh_pool f;
     (ret, h, s) \<leftarrow> rph_recover_init b (rid_page_num rid) rph_new s;
     if ret \<noteq> SUCCESS then Some (ret, s)
     else do {
       (rc, s) \<leftarrow> rph_recover_update_record h rec rid s;
       (_, s) \<leftarrow> rph_cleanup h s;
       Some (rc, s)
     }
   }"

text \<open>
  \<^verbatim>\<open>delete_record\<close> and \<^verbatim>\<open>get_record\<close> test \<^verbatim>\<open>(rc != init(...)) != SUCCESS\<close>, which does not assign \<^verbatim>\<open>rc\<close>: when the
  page cannot be opened they return the initial value of \<^verbatim>\<open>rc\<close>.
\<close>

definition rfh_delete_record :: "RID \<Rightarrow> RecordFileHandler \<Rightarrow> BPSys \<Rightarrow> (RC \<times> RecordFileHandler \<times> BPSys) option" where
  "rfh_delete_record rid f s = do {
     b \<leftarrow> rfh_pool f;
     let rc = SUCCESS;
     (ret, h, s) \<leftarrow> rph_init b (rid_page_num rid) rph_new s;
     if rc \<noteq> ret then Some (rc, f, s)
     else do {
       (rc, h, s) \<leftarrow> rph_delete_record h rid s;
       let f = (if rc = SUCCESS then f\<lparr>rfh_free_pages := add_free (rid_page_num rid) (rfh_free_pages f)\<rparr> else f);
       (_, s) \<leftarrow> rph_cleanup h s;
       Some (rc, f, s)
     }
   }"

definition rfh_get_record :: "RID \<Rightarrow> RecordFileHandler \<Rightarrow> BPSys \<Rightarrow> (RC \<times> (nat \<times> nat) option \<times> BPSys) option" where
  "rfh_get_record rid f s = do {
     b \<leftarrow> rfh_pool f;
     let ret = SUCCESS;
     (rc, h, s) \<leftarrow> rph_init b (rid_page_num rid) rph_new s;
     if ret \<noteq> rc then Some (ret, None, s)
     else do {
       (rc, rec) \<leftarrow> rph_get_record h rid s;
       (_, s) \<leftarrow> rph_cleanup h s;
       Some (rc, if rc = SUCCESS then Some rec else None, s)
     }
   }"

section \<open>The scanner\<close>

text \<open>
  The condition filter is a predicate on the memory at the record; \<open>rfs_iter\<close> is \<open>None\<close> while the record
  iterator is not valid.
\<close>

record RecordFileScanner =
  rfs_pool :: "nat option"
  rfs_bp_iterator :: BufferPoolIterator
  rfs_filter :: "(mem \<Rightarrow> bool) option"
  rfs_handler :: RecordPageHandler
  rfs_iter :: "RecordPageIterator option"
  rfs_next :: "RID \<times> nat \<times> nat"

definition rfs_has_next :: "RecordFileScanner \<Rightarrow> bool" where
  "rfs_has_next c \<longleftrightarrow> rid_slot_num (fst (rfs_next c)) \<noteq> - 1"

definition set_eof :: "RecordFileScanner \<Rightarrow> RecordFileScanner" where
  "set_eof c = c\<lparr>rfs_next := apfst (\<lambda>r. r\<lparr>rid_slot_num := - 1\<rparr>) (rfs_next c)\<rparr>"

text \<open>Does the record at offset \<open>off\<close> of the current page pass the filter?\<close>

definition rfs_accepts :: "RecordFileScanner \<Rightarrow> BPSys \<Rightarrow> nat \<Rightarrow> bool" where
  "rfs_accepts c s off = (case rfs_filter c of None \<Rightarrow> True
     | Some cond \<Rightarrow> cond (at_off (rph_data s (rfs_handler c)) off))"

partial_function (option) fetch_next_record_in_page ::
    "RecordFileScanner \<Rightarrow> BPSys \<Rightarrow> (RC \<times> RecordFileScanner) option" where
  "fetch_next_record_in_page c s = do {
     it \<leftarrow> rfs_iter c;
     if \<not> rpi_has_next it then Some (RECORD_EOF, set_eof c)
     else case rpi_next (rph_data s (rfs_handler c)) it of
       (rc, (p, slot, off), it) \<Rightarrow> do {
         let c = c\<lparr>rfs_next := (mk_rid p slot, rph_frame (rfs_handler c), off), rfs_iter := Some it\<rparr>;
         if rc \<noteq> SUCCESS then Some (rc, c)
         else if rfs_accepts c s off then Some (rc, c)
         else fetch_next_record_in_page c s
       }
   }"

partial_function (option) fetch_pages :: "RecordFileScanner \<Rightarrow> BPSys \<Rightarrow> (RC \<times> RecordFileScanner \<times> BPSys) option" where
  "fetch_pages c s = do {
     b \<leftarrow> rfs_pool c;
     more \<leftarrow> bpi_has_next (rfs_bp_iterator c) s;
     if \<not> more then Some (RECORD_EOF, set_eof c, s)
     else do {
       (p, it) \<leftarrow> bpi_next (rfs_bp_iterator c) s;
       (h, s) \<leftarrow> rph_cleanup (rfs_handler c) s;
       (rc, h, s) \<leftarrow> rph_init b p h s;
       let c = c\<lparr>rfs_bp_iterator := it, rfs_handler := h\<rparr>;
       if rc \<noteq> SUCCESS then Some (rc, c, s)
       else do {
         (rc, c) \<leftarrow> fetch_next_record_in_page
            (c\<lparr>rfs_iter := Some (rpi_init (rph_get_page_num s h) (rph_data s h))\<rparr>) s;
         if rc = SUCCESS \<or> rc \<noteq> RECORD_EOF then Some (rc, c, s) else fetch_pages c s
       }
     }
   }"

definition fetch_next_record :: "RecordFileScanner \<Rightarrow> BPSys \<Rightarrow> (RC \<times> RecordFileScanner \<times> BPSys) option" where
  "fetch_next_record c s =
     (if rfs_iter c = None then fetch_pages c s
      else do {
        (rc, c) \<leftarrow> fetch_next_record_in_page c s;
        if rc = SUCCESS \<or> rc \<noteq> RECORD_EOF then Some (rc, c, s) else fetch_pages c s
      })"

definition close_scan :: "RecordFileScanner \<Rightarrow> RC \<times> RecordFileScanner" where
  "close_scan c = (SUCCESS, c\<lparr>rfs_pool := None, rfs_filter := None\<rparr>)"

definition open_scan :: "nat \<Rightarrow> (mem \<Rightarrow> bool) option \<Rightarrow> RecordFileScanner \<Rightarrow> BPSys \<Rightarrow>
    (RC \<times> RecordFileScanner \<times> BPSys) option" where
  "open_scan b cond c s = do {
     let c = (snd (close_scan c))\<lparr>rfs_pool := Some b\<rparr>;
     it \<leftarrow> bpi_init b 0 s;
     (rc, c, s) \<leftarrow> fetch_next_record (c\<lparr>rfs_bp_iterator := it, rfs_filter := cond\<rparr>) s;
     Some (if rc = RECORD_EOF then SUCCESS else rc, c, s)
   }"

definition rfs_next_record :: "RecordFileScanner \<Rightarrow> BPSys \<Rightarrow>
    (RC \<times> (RID \<times> nat \<times> nat) \<times> RecordFileScanner \<times> BPSys) option" where
  "rfs_next_record c s = do {
     let rec = rfs_next c;
     (rc, c, s) \<leftarrow> fetch_next_record c s;
     Some (if rc = RECORD_EOF then SUCCESS else rc, rec, c, s)
   }"

end
