(* ===== verification/Ob_RecordFileProps.thy ===== *)
theory Ob_RecordFileProps
  imports Ob_RecordFile
begin

text \<open>
  Properties of record files over the buffer pool: what an insert, an update and a read of a record do
  to the contents of the file, and the places where the file handler departs from its intent.
\<close>

section \<open>Opening and closing a page\<close>

text \<open>An open pool without pages that wait for their last unpin.\<close>

definition ready :: "BPSys \<Rightarrow> nat \<Rightarrow> DiskBufferPool \<Rightarrow> bool" where
  "ready s b bp \<longleftrightarrow> bp_inv s \<and> registered s b bp \<and> bp_disposed_pages bp = {}"

text \<open>No pin count is about to overflow.\<close>

definition pins_ok :: "BPSys \<Rightarrow> bool" where
  "pins_ok s \<longleftrightarrow> (\<forall>fd q a. cached s fd q = Some a \<longrightarrow> pin_count (frame_of s a) + 1 > 0)"

lemma rph_init_cases:
  assumes "ready s b bp" "pins_ok s"
  obtains (opened) a s1 where "rph_init b p rph_new s = Some (SUCCESS, \<lparr>rph_pool = Some b, rph_frame = a\<rparr>, s1)"
      "ready s1 b bp" "page_view s1 = page_view s" "cached s1 (bp_file_desc bp) p = Some a"
      "pin_count (frame_of s1 a) > 0" "page_view s (bp_file_desc bp) p = Some (page (frame_of s1 a))"
      "pin_count (frame_of s1 a) = (case cached s (bp_file_desc bp) p of None \<Rightarrow> 1 | Some a' \<Rightarrow> pin_count (frame_of s a') + 1)"
      "\<And>h. pool_ok s b bp h \<Longrightarrow> p \<noteq> 0 \<Longrightarrow> pool_ok s1 b bp h \<and> header_data s1 h = header_data s h"
      "os_io_faults (os s) = [] \<Longrightarrow> os_io_faults (os s1) = []"
    | (refused) rc s1 where "rph_init b p rph_new s = Some (rc, rph_new, s1)" "rc \<noteq> SUCCESS" "ready s1 b bp"
      "page_view s1 = page_view s"
proof -
  obtain es where es: "entries_inv s es" and reg: "registered s b bp" and disp: "bp_disposed_pages bp = {}"
    using assms(1) by (auto simp: ready_def bp_inv_def)
  from es reg show thesis
  proof (cases rule: get_this_page_cases [where p = p])
    case (hit a s0 es0)
    let ?f = "\<lambda>f. f\<lparr>pin_count := pin_count f + 1\<rparr>"
    let ?s = "upd_frame a ?f s0"
    have inv0: "bp_inv s0" and c0: "cached s0 (bp_file_desc bp) p = Some a" using hit by (auto simp: bp_inv_def)
    have "bp_inv ?s" unfolding bp_inv_def using hit(3) c0 cached_rep [of s0 es0]
      by (intro exI [of _ es0] entries_upd [where k = "frame_id (bp_file_desc bp) p"]) (auto simp: entries_inv_def)
    moreover have "page_view ?s = page_view s"
      using page_view_pin [OF inv0 c0, of ?f] hit(2) by (simp add: unseen_def)
    moreover have "registered ?s b bp" using registered_unseen [OF hit(2) reg] by (simp add: registered_def)
    moreover have "page_view s (bp_file_desc bp) p = Some (page (frame_of s a))" using hit(5) by (simp add: page_view_def)
    moreover have "pool_ok ?s b bp h \<and> header_data ?s h = header_data s h" if ok: "pool_ok s b bp h" "p \<noteq> 0" for h
    proof -
      note u = pool_ok_unseen [OF hit(2) ok(1)]
      have "a \<noteq> h" using cached_unique [OF inv0 c0, of "bp_file_desc bp" 0] u(1) ok(2) by (auto simp: pool_ok_def)
      then show ?thesis using pool_ok_upd_other [OF u(1), of a ?f] u(2) by simp
    qed
    moreover have "os_io_faults (os s) = [] \<Longrightarrow> os_io_faults (os s0) = []" using hit(2) by (simp add: unseen_def)
    ultimately show thesis
      using opened [of a ?s] hit disp assms(2) c0 by (simp add: rph_init_def rph_new_def ready_def pins_ok_def)
  next
    case (loaded a s1 es1)
    have "page_view s1 = page_view s" using loaded(2) by (simp add: unseen_def)
    moreover have "page_view s1 (bp_file_desc bp) p = Some (page (frame_of s1 a))" using loaded(5) by (simp add: page_view_def)
    moreover have "os_io_faults (os s) = [] \<Longrightarrow> os_io_faults (os s1) = []" using loaded(2) by (simp add: unseen_def)
    moreover have "bp_inv s1" using loaded(3) by (auto simp: bp_inv_def)
    ultimately show thesis
      using opened [of a s1] loaded(1,4-6) disp registered_unseen [OF loaded(2) reg] pool_ok_unseen [OF loaded(2)]
      by (simp add: rph_init_def rph_new_def ready_def)
  next
    case (failed rc s1 es1)
    then show thesis
      using refused [of rc s1] disp registered_unseen [OF failed(2) reg]
      by (auto simp: rph_init_def rph_new_def ready_def bp_inv_def unseen_def)
  qed
qed

abbreviation unpinned :: "nat \<Rightarrow> BPSys \<Rightarrow> BPSys" where
  "unpinned a \<equiv> upd_frame a (\<lambda>f. f\<lparr>pin_count := pin_count f - 1\<rparr>)"

lemma rph_cleanup_eq:
  assumes "ready s b bp" "cached s (bp_file_desc bp) p = Some a" "pin_count (frame_of s a) > 0"
  shows "rph_cleanup \<lparr>rph_pool = Some b, rph_frame = a\<rparr> s = Some (\<lparr>rph_pool = None, rph_frame = a\<rparr>, unpinned a s)"
    "ready (unpinned a s) b bp" "page_view (unpinned a s) = page_view s"
proof -
  let ?f = "\<lambda>f. f\<lparr>pin_count := pin_count f - 1\<rparr>"
  have inv: "bp_inv s" and b: "pools s b = Some bp" "bp_disposed_pages bp = {}"
    using assms(1) by (auto simp: ready_def registered_def)
  have "pin_count (frame_of s a) \<ge> 1" using assms(3) by (simp add: word_le_nat_alt word_less_nat_alt)
  then have "unpin_page b a s = Some (SUCCESS, unpinned a s)" using b by (simp add: unpin_page_def Let_def)
  then show "rph_cleanup \<lparr>rph_pool = Some b, rph_frame = a\<rparr> s = Some (\<lparr>rph_pool = None, rph_frame = a\<rparr>, unpinned a s)"
    by (simp add: rph_cleanup_def)
  obtain es where es: "entries_inv s es" "map_of es (frame_id (bp_file_desc bp) p) = Some a"
    using bp_inv_cached [OF inv assms(2)] by blast
  have "bp_inv (unpinned a s)" unfolding bp_inv_def by (intro exI [of _ es] entries_upd [OF es]) auto
  then show "ready (unpinned a s) b bp" using assms(1) by (simp add: ready_def registered_def)
  show "page_view (unpinned a s) = page_view s" using page_view_pin [OF inv assms(2), of ?f] by simp
qed

lemma rph_cleanup_ok:
  assumes "ready s b bp" "cached s (bp_file_desc bp) p = Some a" "pin_count (frame_of s a) > 0"
  shows "\<exists>h' s'. rph_cleanup \<lparr>rph_pool = Some b, rph_frame = a\<rparr> s = Some (h', s') \<and> rph_pool h' = None \<and>
    ready s' b bp \<and> page_view s' = page_view s"
  using rph_cleanup_eq [OF assms] by simp

lemma ready_write:
  assumes "ready s b bp" "cached s (bp_file_desc bp) p = Some a"
  shows "ready (write_page a g s) b bp" "cached (write_page a g s) = cached s"
    "pin_count (frame_of (write_page a g s) a) = pin_count (frame_of s a)"
  using write_page_inv(1) [of s "bp_file_desc bp" p a g] assms
  by (simp_all add: ready_def registered_def write_page_frame)

section \<open>Records of a file\<close>

text \<open>The record in a slot of a page, as a client that reads the page sees it.\<close>

definition record_at :: "BPSys \<Rightarrow> int \<Rightarrow> PageNum \<Rightarrow> nat \<Rightarrow> byte list option" where
  "record_at s fd p i = Option.bind (page_view s fd p) (\<lambda>pg. rp_view (data pg) i)"

lemma record_at_write:
  assumes "bp_inv s" "cached s fd p = Some a"
  shows "record_at (write_page a (\<lambda>_. d) s) fd' q i =
    (if fd' = fd \<and> q = p then rp_view d i else record_at s fd' q i)"
  using write_page_inv(2) [OF assms, of "\<lambda>_. d" fd' q] by (simp add: record_at_def)

lemma record_at_cong: "page_view s' = page_view s \<Longrightarrow> record_at s' = record_at s"
  by (simp add: record_at_def fun_eq_iff)

lemma cached_page_num:
  assumes "bp_inv s" "cached s fd p = Some a"
  shows "page_num (page (frame_of s a)) = p"
proof -
  obtain es where "entries_inv s es" "map_of es (frame_id fd p) = Some a" using bp_inv_cached [OF assms] by blast
  from entry_inD [OF this] show ?thesis by (simp add: entry_ok_def)
qed

text \<open>One change of an open page, followed by the destructor of the handler.\<close>

lemma change_and_close:
  assumes "ready s b bp" "cached s (bp_file_desc bp) p = Some a" "pin_count (frame_of s a) > 0"
  shows "\<exists>h' s'. rph_cleanup \<lparr>rph_pool = Some b, rph_frame = a\<rparr>
      (rph_put \<lparr>rph_pool = Some b, rph_frame = a\<rparr> rc d s) = Some (h', s') \<and> ready s' b bp \<and>
    (\<forall>fd q i. record_at s' fd q i =
       (if rc = SUCCESS \<and> fd = bp_file_desc bp \<and> q = p then rp_view d i else record_at s fd q i))"
proof (cases "rc = SUCCESS")
  case True
  have inv: "bp_inv s" using assms(1) by (simp add: ready_def)
  note w = ready_write [OF assms(1,2), of "\<lambda>_. d"]
  obtain h' s' where "rph_cleanup \<lparr>rph_pool = Some b, rph_frame = a\<rparr> (write_page a (\<lambda>_. d) s) = Some (h', s')"
      "ready s' b bp" "page_view s' = page_view (write_page a (\<lambda>_. d) s)"
    using rph_cleanup_ok [OF w(1), of p a] assms(2,3) w(2,3) by auto
  then show ?thesis
    using record_at_cong [of s' "write_page a (\<lambda>_. d) s"] record_at_write [OF inv assms(2), of d] True
    by (intro exI [of _ h'] exI [of _ s']) (simp add: rph_put_def)
next
  case False
  obtain h' s' where "rph_cleanup \<lparr>rph_pool = Some b, rph_frame = a\<rparr> s = Some (h', s')"
      "ready s' b bp" "page_view s' = page_view s"
    using rph_cleanup_ok [OF assms] by blast
  then show ?thesis
    using record_at_cong [of s' s] False by (intro exI [of _ h'] exI [of _ s']) (simp add: rph_put_def)
qed

section \<open>A record file\<close>

text \<open>A file with the header and one page, and the empty page for records of eight bytes.\<close>

definition record_file :: "mem \<Rightarrow> Page list" where
  "record_file d = [two_pages ! 0, \<lparr>page_num = 1, data = d\<rparr>]"

definition empty_page :: mem where
  "empty_page = init_empty BP_PAGE_DATA_SIZE 8 (\<lambda>_. 0)"

lemma record_file_ok:
  "file_ok (record_file d)" "hdr_ok (data (record_file d ! 0))"
  "hdr_page_count (data (record_file d ! 0)) = int (length (record_file d))"
  using two_pages_ok by (auto simp: record_file_def file_ok_def two_pages_def nth_Cons split: nat.splits)

lemma empty_page_ok:
  "page_ok empty_page" "\<not> is_full empty_page" "record_real_size empty_page = 8" "rp_view empty_page = Map.empty"
  "record_num empty_page = 0"
proof -
  have "(8::int) \<le> 2 ^ 20" "21 \<le> BP_PAGE_DATA_SIZE" "BP_PAGE_DATA_SIZE \<le> 2 ^ 20"
    by (simp_all add: BP_PAGE_DATA_SIZE_def BP_PAGE_SIZE_def)
  note i = init_empty_ok [of 8 BP_PAGE_DATA_SIZE "\<lambda>_. 0", OF _ this, folded empty_page_def]
  show "page_ok empty_page" "record_real_size empty_page = 8" "rp_view empty_page = Map.empty" "record_num empty_page = 0"
    using i(1,2,4,5) by simp_all
  have "page_record_capacity BP_PAGE_DATA_SIZE (align8 8) > 0"
    by (simp add: page_record_capacity_def BP_PAGE_DATA_SIZE_def BP_PAGE_SIZE_def page_fix_size_def align8_def)
  then show "\<not> is_full empty_page" using i(3,5) by (simp add: is_full_def)
qed

text \<open>The empty page after one insert.\<close>

lemma one_record:
  obtains d i where "page_ok d" "i \<in> rp_slots d" "record_num d = 1"
proof -
  have "record_num empty_page \<noteq> record_capacity empty_page" using empty_page_ok(2) by (auto simp: is_full_def)
  then obtain i d where "page_ok d" "rp_view d = (rp_view empty_page)(i \<mapsto> map (\<lambda>_. 7) [0..<nat (record_real_size empty_page)])"
      "record_num d = record_num empty_page + 1"
    by (rule rp_insert_ok [OF empty_page_ok(1)]) auto
  moreover from this(2) have "i \<in> rp_slots d" by (metis fun_upd_same option.distinct(1) rp_view_def)
  ultimately show thesis using that empty_page_ok(5) by simp
qed

lemma demo_record_file:
  obtains s bp h where "bpm_open_file ''t'' (bpm_new (demo_os (record_file d))) = Some (SUCCESS, Some 0, s)"
    "ready s 0 bp" "pins_ok s" "bp_file_desc bp = 3" "page_view s 3 1 = Some \<lparr>page_num = 1, data = d\<rparr>"
    "page_view s 3 2 = None" "os_io_faults (os s) = []" "pool_ok s 0 bp h" "cached s 3 1 = None"
    "1 \<in> allocated_set (header_data s h)"
proof (rule demo_open [OF record_file_ok(1)])
  show "record_file d \<noteq> []" by (simp add: record_file_def)
next
  fix s bp h
  assume d: "bpm_open_file ''t'' (bpm_new (demo_os (record_file d))) = Some (SUCCESS, Some 0, s)" "bp_inv s"
    "registered s 0 bp" "bp_file_desc bp = 3" "bp_disposed_pages bp = {}" "pin_count (frame_of s h) = 1"
    "\<And>q. stored (os s) 3 q = (if 0 \<le> q \<and> nat q < length (record_file d) then Some (record_file d ! nat q) else None)"
    "os_io_faults (os s) = []" "\<And>fd q. cached s fd q = (if fd = 3 \<and> q = 0 then Some h else None)"
    "bp_hdr_frame bp = Some h" "page (frame_of s h) = record_file d ! 0"
  have "pins_ok s" using d(6,9) by (auto simp: pins_ok_def)
  moreover have "page_view s 3 1 = Some \<lparr>page_num = 1, data = d\<rparr>" "page_view s 3 2 = None" "cached s 3 1 = None"
    using d(7,9) by (simp_all add: page_view_def record_file_def)
  moreover have "pool_ok s 0 bp h" using d record_file_ok(2,3) [of d] by (auto simp: pool_ok_def)
  moreover have "1 \<in> allocated_set (header_data s h)" using d(11) two_pages_ok(4) by (simp add: record_file_def)
  ultimately show thesis using that [of s bp h] d by (simp add: ready_def)
qed

section \<open>Properties\<close>

lemma rfh_insert_stores:
  assumes "ready s b bp" "pins_ok s" "rfh_pool f = Some b" "rfh_free_pages f = p # ps"
    and "page_view s (bp_file_desc bp) p = Some pg" "page_ok (data pg)" "\<not> is_full (data pg)"
  shows "\<exists>rc rid f' s'. rfh_insert_record rec n f s = Some (rc, rid, f', s') \<and> ready s' b bp \<and>
    (if rc = SUCCESS then \<exists>i. rid = mk_rid p (int i) \<and> record_at s (bp_file_desc bp) p i = None \<and>
       (\<forall>fd q j. record_at s' fd q j =
          (if fd = bp_file_desc bp \<and> q = p \<and> j = i then Some (map rec [0..<nat (record_real_size (data pg))])
           else record_at s fd q j))
     else record_at s' = record_at s)"
  using assms(1,2)
proof (cases rule: rph_init_cases [where p = p])
  case (refused rc s1)
  then show ?thesis
    using assms(3,4) record_at_cong [OF refused(4)] by (simp add: rfh_insert_record_def)
next
  case (opened a s1)
  let ?h = "\<lparr>rph_pool = Some b, rph_frame = a\<rparr>"
  have pg: "page (frame_of s1 a) = pg" using opened(6) assms(5) by simp
  have nf: "record_num (data pg) \<noteq> record_capacity (data pg)" using assms(7) by (auto simp: is_full_def)
  obtain i d' where i: "rp_insert_record rec (data pg) = Some (SUCCESS, int i, d')" "i \<notin> rp_slots (data pg)"
      "rp_view d' = (rp_view (data pg))(i \<mapsto> map rec [0..<nat (record_real_size (data pg))])"
    using rp_insert_ok [OF assms(6) nf] by blast
  have pn: "page_num pg = p" using cached_page_num [OF _ opened(4)] opened(2) pg by (simp add: ready_def)
  obtain h' s' where c: "rph_cleanup ?h (rph_put ?h SUCCESS d' s1) = Some (h', s')" "ready s' b bp"
      "\<forall>fd q i. record_at s' fd q i = (if fd = bp_file_desc bp \<and> q = p then rp_view d' i else record_at s1 fd q i)"
    using change_and_close [OF opened(2,4,5), of SUCCESS d'] by auto
  have "rfh_insert_record rec n f s = Some (SUCCESS, mk_rid p (int i), f\<lparr>rfh_free_pages := p # ps\<rparr>, s')"
    using assms(3,4,7) opened(1) i(1) c(1) pg pn
    by (simp add: rfh_insert_record_def finish_insert_def rph_insert_record_def rph_get_page_num_def)
  moreover have "record_at s1 = record_at s" by (rule record_at_cong [OF opened(3)])
  moreover have "record_at s (bp_file_desc bp) p j = rp_view (data pg) j" for j
    using assms(5) by (simp add: record_at_def)
  ultimately show ?thesis using c(2,3) i(2,3) by (auto simp: rp_view_def)
qed



lemma rfh_get_reads:
  assumes "ready s b bp" "pins_ok s" "rfh_pool f = Some b"
    and "page_view s (bp_file_desc bp) p = Some pg" "page_ok (data pg)"
  shows "\<exists>rc r s'. rfh_get_record (mk_rid p (int i)) f s = Some (rc, r, s') \<and> ready s' b bp \<and>
    record_at s' = record_at s \<and>
    (case r of
       Some (a, off) \<Rightarrow> rc = SUCCESS \<and> record_at s (bp_file_desc bp) p i =
         Some (bytes_at (data (page (frame_of s' a))) off (nat (record_real_size (data pg))))
     | None \<Rightarrow> rc = SUCCESS \<or> record_at s (bp_file_desc bp) p i = None \<and>
         rc = (if i < nat (record_capacity (data pg)) then RECORD_RECORD_NOT_EXIST else RECORD_INVALIDRID))"
  using assms(1,2)
proof (cases rule: rph_init_cases [where p = p])
  case (refused rc s1)
  then show ?thesis
    using assms(3) record_at_cong [OF refused(4)] by (auto simp: rfh_get_record_def)
next
  case (opened a s1)
  let ?h = "\<lparr>rph_pool = Some b, rph_frame = a\<rparr>"
  have pg: "page (frame_of s1 a) = pg" using opened(6) assms(4) by simp
  obtain h' s' where c: "rph_cleanup ?h s1 = Some (h', s')" "ready s' b bp" "page_view s' = page_view s1"
    using rph_cleanup_ok [OF opened(2,4,5)] by blast
  have fs: "page (frame_of s' a) = pg"
    using c(1) pg opened(2) by (auto simp: rph_cleanup_def unpin_page_def ready_def registered_def Let_def
        split: if_splits Option.bind_splits)
  have ra: "record_at s' = record_at s" using record_at_cong [OF c(3)] record_at_cong [OF opened(3)] by simp
  have rv: "record_at s (bp_file_desc bp) p i = rp_view (data pg) i" using assms(4) by (simp add: record_at_def)
  show ?thesis
  proof (cases "i \<in> rp_slots (data pg)")
    case True
    then have "rfh_get_record (mk_rid p (int i)) f s = Some (SUCCESS, Some (a, get_record_data (data pg) (int i)), s')"
      using assms(3) opened(1) c(1) pg by (auto simp: rfh_get_record_def rph_get_record_def rp_get_record_def rp_slots_def zless_nat_eq_int_zless)
    then show ?thesis using True ra rv c(2) fs by (simp add: rp_view_def)
  next
    case False
    then have "rfh_get_record (mk_rid p (int i)) f s =
        Some (if i < nat (record_capacity (data pg)) then RECORD_RECORD_NOT_EXIST else RECORD_INVALIDRID, None, s')"
      using assms(3,5) opened(1) c(1) pg
      by (auto simp: rfh_get_record_def rph_get_record_def rp_get_record_def rp_slots_def page_ok_def nat_le_iff
          split: if_splits)
    then show ?thesis using False ra rv c(2) by (simp add: rp_view_def)
  qed
qed



text \<open>The last record of a page: the page is closed and given back to the pool.\<close>

lemma delete_last_record:
  assumes ready: "ready s b bp" and ok: "pool_ok s b bp h" and io: "os_io_faults (os s) = []"
    and p: "p \<in> allocated_set (header_data s h)" "p \<noteq> 0"
    and a: "cached s (bp_file_desc bp) (int p) = Some a" "pin_count (frame_of s a) = 1"
    and d: "rp_delete_record i (data (page (frame_of s a))) = Some (SUCCESS, d')" "record_num d' = 0"
  shows "\<exists>s'. rph_delete_record \<lparr>rph_pool = Some b, rph_frame = a\<rparr> (mk_rid (int p) i) s =
      Some (SUCCESS, \<lparr>rph_pool = None, rph_frame = a\<rparr>, s') \<and> pool_ok s' b bp h \<and>
    allocated_set (header_data s' h) = allocated_set (header_data s h) - {p} \<and>
    (\<forall>fd q j. (fd, q) \<noteq> (bp_file_desc bp, 0) \<longrightarrow>
       record_at s' fd q j = (if fd = bp_file_desc bp \<and> q = int p then rp_view d' j else record_at s fd q j))"
proof -
  let ?h = "\<lparr>rph_pool = Some b, rph_frame = a\<rparr>" and ?w = "write_page a (\<lambda>_. d') s" and ?fd = "bp_file_desc bp"
  have inv: "bp_inv s" using ready by (simp add: ready_def)
  note w = ready_write [OF ready a(1), of "\<lambda>_. d'"]
  have c: "cached ?w ?fd (int p) = Some a" "pin_count (frame_of ?w a) > 0" using w(2,3) a by simp_all
  note u = rph_cleanup_eq [OF w(1) c]
  have ah: "a \<noteq> h" using cached_unique [OF inv a(1), of ?fd 0] ok p(2) by (auto simp: pool_ok_def)
  let ?u = "unpinned a ?w"
  have oku: "pool_ok ?u b bp h" "header_data ?u h = header_data s h" "os_io_faults (os ?u) = []"
    using pool_ok_upd_other [OF pool_ok_upd_other [OF ok ah] ah] ah io unfolding write_page_frame by simp_all
  have "bp_inv ?u" using u(2) by (simp add: ready_def)
  moreover have "pin_count (frame_of ?u a) = 0" using a(2) w(3) by simp
  moreover have "cached ?u ?fd (int p) = Some a" using c by simp
  ultimately obtain s' where s': "dispose_page b (int p) ?u = Some (SUCCESS, s')" "pool_ok s' b bp h"
      "allocated_set (header_data s' h) = allocated_set (header_data s h) - {p}"
      "\<forall>fd q. (fd, q) \<noteq> (?fd, 0) \<longrightarrow> page_view s' fd q = page_view ?u fd q"
    using dispose_page_ok [of ?u b bp h p] oku p by auto
  have "page_num (page (frame_of ?w a)) = int p" using cached_page_num [OF inv a(1)] by (simp add: write_page_frame)
  then have "rph_delete_record ?h (mk_rid (int p) i) s = Some (SUCCESS, \<lparr>rph_pool = None, rph_frame = a\<rparr>, s')"
    using d u(1) s'(1) by (simp add: rph_delete_record_def rph_put_def rph_get_page_num_def)
  moreover have "record_at s' fd q j = record_at ?w fd q j" if "(fd, q) \<noteq> (?fd, 0)" for fd q j
    using s'(4) that u(3) by (simp add: record_at_def)
  ultimately show ?thesis using s'(2,3) record_at_write [OF inv a(1), of d'] by auto
qed



text \<open>
  C40. A page that cannot be opened is not reported: when the buffer pool cannot deliver the page of a record,
  \<^verbatim>\<open>delete_record\<close> and \<^verbatim>\<open>get_record\<close> answer \<^verbatim>\<open>SUCCESS\<close> all the same; nothing is deleted and no record
  is returned.
\<close>

theorem record_calls_mask_failure:
  assumes "rfh_pool f = Some b" "get_this_page b (rid_page_num rid) s = Some (rc, r, s')" "rc \<noteq> SUCCESS"
  shows "rfh_delete_record rid f s = Some (SUCCESS, f, s') \<and> rfh_get_record rid f s = Some (SUCCESS, None, s')"
  using assms by (simp add: rfh_delete_record_def rfh_get_record_def rph_init_def rph_new_def)

theorem record_calls_mask_failure_witness:
  "\<exists>s s'. bpm_open_file ''t'' (bpm_new (demo_os (record_file empty_page))) = Some (SUCCESS, Some 0, s) \<and>
     record_at s 3 2 = Map.empty \<and>
     rfh_delete_record (mk_rid 2 0) \<lparr>rfh_pool = Some 0, rfh_free_pages = [1]\<rparr> s =
       Some (SUCCESS, \<lparr>rfh_pool = Some 0, rfh_free_pages = [1]\<rparr>, s')"
proof -
  obtain s bp where d: "bpm_open_file ''t'' (bpm_new (demo_os (record_file empty_page))) = Some (SUCCESS, Some 0, s)"
      "ready s 0 bp" "pins_ok s" "bp_file_desc bp = 3" "page_view s 3 2 = None"
    by (rule demo_record_file)
  obtain es where es: "entries_inv s es" "registered s 0 bp" using d(2) by (auto simp: ready_def bp_inv_def)
  obtain rc s1 where g: "get_this_page 0 2 s = Some (rc, None, s1)" "rc \<noteq> SUCCESS"
    using es
  proof (cases rule: get_this_page_cases [where p = 2])
    case (hit a s0 es0)
    then show ?thesis using d(4,5) by (simp add: page_view_def)
  next
    case (loaded a s1 es1)
    have "page_view s1 3 2 \<noteq> None" using loaded(5) d(4) by (simp add: page_view_def)
    then show ?thesis using loaded(2) d(5) by (simp add: unseen_def)
  next
    case (failed rc s1 es1)
    then show ?thesis using that [of rc s1] by auto
  qed
  have "record_at s 3 2 = Map.empty" using d(5) by (simp add: record_at_def fun_eq_iff)
  then show ?thesis
    using record_calls_mask_failure [of "\<lparr>rfh_pool = Some 0, rfh_free_pages = [1]\<rparr>" 0 "mk_rid 2 0" s rc None s1] g d(1) by auto
qed

end
