(* ===== verification/Ob_Comparator.thy ===== *)
theory Ob_Comparator
  imports Ob_Rc Ob_Bytes "HOL-Library.Monad_Syntax"
begin

text \<open>
  The comparisons of attribute values (\<open>src/src/observer/util/comparator.cpp\<close>) and the conversion of strings to
  numbers they use (\<open>char2double\<close> of \<open>util.cpp\<close>).  A value is the memory behind a pointer.  An \<^verbatim>\<open>int\<close>
  difference that overflows wraps around.  A \<^verbatim>\<open>float\<close> is decoded to an integral multiple of the least positive
  single precision number.  A string whose terminator is missing is the result \<open>None\<close>.
\<close>

section \<open>Types of attributes and operators\<close>

datatype AttrType = UNDEFINED | CHARS | INTS | FLOATS | DATES | RELATIONS | NULLS

datatype CompOp = EQUAL_TO | LESS_EQUAL | NOT_EQUAL | LESS_THAN | GREAT_EQUAL | GREAT_THAN | LIKE | NOT_LIKE
  | IS | IS_NOT | IN | NOT_IN | EXISTS | NOT_EXISTS | AND_OP | OR_OP | NO_OP

section \<open>Integers\<close>

definition compare_int :: "mem \<Rightarrow> mem \<Rightarrow> int" where
  "compare_int arg1 arg2 = wrap32 (load_int arg1 0 - load_int arg2 0)"

section \<open>Single precision numbers\<close>

text \<open>A finite number is the integer \<open>n\<close> for the value \<open>n * 2^-149\<close>.\<close>

datatype f32 = Fin int | Inf bool | NaN

definition f32_of_bits :: "int \<Rightarrow> f32" where
  "f32_of_bits u =
     (let neg = u div 2 ^ 31 mod 2 = 1; e = u div 2 ^ 23 mod 256; m = u mod 2 ^ 23 in
      if e = 255 then if m = 0 then Inf neg else NaN
      else let v = (if e = 0 then m else (2 ^ 23 + m) * 2 ^ nat (e - 1)) in Fin (if neg then - v else v))"

definition load_f32 :: "mem \<Rightarrow> f32" where
  "load_f32 m = f32_of_bits (load_u32 m 0)"

text \<open>
  The comparison of \<^verbatim>\<open>float cmp = v1 - v2\<close> with \<^verbatim>\<open>epsilon\<close>, the double next to \<open>10^-6\<close>: it lies between the
  neighbouring single precision numbers \<open>8796093 * 2^-43\<close> and \<open>8796094 * 2^-43\<close>, and the rounded
  difference exceeds it when the exact difference is at least their midpoint (the tie goes to the even upper
  one), which is \<open>17592187 * 2^105\<close> units.
\<close>

definition f32_eps :: int where "f32_eps = 17592187 * 2 ^ 105"

definition f32_minus_gt_eps :: "f32 \<Rightarrow> f32 \<Rightarrow> bool" where
  "f32_minus_gt_eps a b = (case (a, b) of
      (Fin x, Fin y) \<Rightarrow> x - y \<ge> f32_eps
    | (Inf n, Fin _) \<Rightarrow> \<not> n
    | (Fin _, Inf n) \<Rightarrow> n
    | (Inf n, Inf k) \<Rightarrow> \<not> n \<and> k
    | _ \<Rightarrow> False)"

definition f32_compare :: "f32 \<Rightarrow> f32 \<Rightarrow> int" where
  "f32_compare v1 v2 = (if f32_minus_gt_eps v1 v2 then 1 else if f32_minus_gt_eps v2 v1 then - 1 else 0)"

definition compare_float :: "mem \<Rightarrow> mem \<Rightarrow> int" where
  "compare_float arg1 arg2 = f32_compare (load_f32 arg1) (load_f32 arg2)"

text \<open>Conversion of an \<^verbatim>\<open>int\<close> to \<^verbatim>\<open>float\<close>: round to 24 significant bits, ties to even.\<close>

definition round_shift :: "nat \<Rightarrow> int \<Rightarrow> int" where
  "round_shift k n =
     (let q = n div 2 ^ k; r = n mod 2 ^ k in
      (if 2 * r > 2 ^ k \<or> 2 * r = 2 ^ k \<and> odd q then q + 1 else q) * 2 ^ k)"

definition float_shift :: "int \<Rightarrow> nat" where
  "float_shift n = (case List.find (\<lambda>k. n < 2 ^ (24 + k)) [0..<9] of Some k \<Rightarrow> k | None \<Rightarrow> 9)"

definition f32_of_int :: "int \<Rightarrow> f32" where
  "f32_of_int n = Fin ((if n < 0 then - round_shift (float_shift (- n)) (- n) else round_shift (float_shift n) n) * 2 ^ 149)"

section \<open>Strings\<close>

text \<open>
  \<^verbatim>\<open>strncmp\<close> compares unsigned characters up to the first terminator; only the sign of its result is fixed by the
  standard, which here is the difference of the characters.
\<close>

fun strncmp_from :: "mem \<Rightarrow> mem \<Rightarrow> nat \<Rightarrow> nat \<Rightarrow> int" where
  "strncmp_from s1 s2 i 0 = 0"
| "strncmp_from s1 s2 i (Suc n) =
     (if s1 i \<noteq> s2 i then uint (s1 i) - uint (s2 i)
      else if s1 i = 0 then 0 else strncmp_from s1 s2 (Suc i) n)"

definition strncmp :: "mem \<Rightarrow> mem \<Rightarrow> nat \<Rightarrow> int" where
  "strncmp s1 s2 n = strncmp_from s1 s2 0 n"

text \<open>\<^verbatim>\<open>char\<close> is signed.\<close>

definition compare_string :: "mem \<Rightarrow> int \<Rightarrow> mem \<Rightarrow> int \<Rightarrow> int" where
  "compare_string s1 arg1_max_length s2 arg2_max_length =
     (let maxlen = min arg1_max_length arg2_max_length; result = strncmp s1 s2 (nat maxlen) in
      if result \<noteq> 0 then result
      else if arg1_max_length > maxlen then sint (s1 (nat maxlen)) - 0
      else if arg2_max_length > maxlen then 0 - sint (s2 (nat maxlen))
      else 0)"

partial_function (option) c_string_from :: "mem \<Rightarrow> nat \<Rightarrow> byte list option" where
  "c_string_from m i = (if m i = 0 then Some [] else do { cs \<leftarrow> c_string_from m (Suc i); Some (m i # cs) })"

definition c_string :: "mem \<Rightarrow> byte list option" where
  "c_string m = c_string_from m 0"

subsection \<open>Pattern matching\<close>

abbreviation percent :: byte where "percent \<equiv> 37"
abbreviation underscore :: byte where "underscore \<equiv> 95"

text \<open>The character at an index of a string, the terminator behind its end.\<close>

definition char_at :: "byte list \<Rightarrow> nat \<Rightarrow> byte" where
  "char_at p j = (if j < length p then p ! j else 0)"

text \<open>The first inner loop: skip \<^verbatim>\<open>%\<close> from \<open>j\<close> on.\<close>

function skip_percent :: "byte list \<Rightarrow> nat \<Rightarrow> nat" where
  "skip_percent p j = (if j < length p \<and> char_at p j = percent then skip_percent p (Suc j) else j)"
  by pat_completeness auto
termination by (relation "measure (\<lambda>(p, j). length p - j)") auto

declare skip_percent.simps [simp del]

text \<open>The second: back to the position behind the last \<^verbatim>\<open>%\<close> before \<open>j\<close>, or to 0.\<close>

fun back_behind :: "byte list \<Rightarrow> nat \<Rightarrow> nat" where
  "back_behind p 0 = 0"
| "back_behind p (Suc j) = (if char_at p j \<noteq> percent then back_behind p j else Suc j)"

text \<open>The third: back to the last \<^verbatim>\<open>%\<close> at or before \<open>j\<close>; \<open>None\<close> is an index below 0.\<close>

fun back_to :: "byte list \<Rightarrow> nat \<Rightarrow> nat option" where
  "back_to p 0 = (if char_at p 0 \<noteq> percent then None else Some 0)"
| "back_to p (Suc j) = (if char_at p (Suc j) \<noteq> percent then back_to p j else Some (Suc j))"

text \<open>One character against the pattern at \<open>j\<close>: the next pattern index, or \<open>None\<close> for \<^verbatim>\<open>return false\<close>.\<close>

definition like_char :: "byte \<Rightarrow> byte list \<Rightarrow> nat \<Rightarrow> nat option" where
  "like_char c p j = (if c = char_at p j \<or> char_at p j = underscore then Some (Suc j) else back_to p j)"

text \<open>
  The loop over the string: \<open>Inl\<close> is a \<^verbatim>\<open>return\<close> inside the loop, \<open>Inr\<close> the pattern index behind it.
\<close>

fun like_loop :: "byte list \<Rightarrow> byte list \<Rightarrow> nat \<Rightarrow> bool + nat" where
  "like_loop [] p j = Inr j"
| "like_loop (c # s) p j =
     (let j = skip_percent p j in
      if j = length p \<and> char_at p (j - 1) = percent then Inl True
      else if j = length p \<and> back_behind p j = 0 then Inl False
      else case like_char c p (if j = length p then back_behind p j else j) of
        None \<Rightarrow> Inl False
      | Some j \<Rightarrow> like_loop s p j)"

definition compare_like :: "byte list \<Rightarrow> byte list \<Rightarrow> bool" where
  "compare_like s p =
     (if length s > 0 \<and> length p = 0 then False
      else case like_loop s p 0 of Inl b \<Rightarrow> b | Inr j \<Rightarrow> skip_percent p j = length p)"

section \<open>Values of different types\<close>

text \<open>The digits, point and digits at the start of a string that \<^verbatim>\<open>char2double\<close> hands to \<^verbatim>\<open>atof\<close>.\<close>

definition is_digit :: "byte \<Rightarrow> bool" where
  "is_digit c \<longleftrightarrow> 48 \<le> c \<and> c \<le> 57"

definition number_prefix :: "byte list \<Rightarrow> byte list" where
  "number_prefix str =
     (let str = take 255 str; ds = takeWhile is_digit str; rest = dropWhile is_digit str in
      case rest of [] \<Rightarrow> ds | c # cs \<Rightarrow> if c = 46 then ds @ c # takeWhile is_digit cs else ds)"

text \<open>
  \<open>atof\<close> stands for the library function of that name followed by the conversion to \<^verbatim>\<open>float\<close>.
\<close>

definition char2float :: "(byte list \<Rightarrow> f32) \<Rightarrow> mem \<Rightarrow> f32 option" where
  "char2float atof m = do { s \<leftarrow> c_string m; Some (atof (number_prefix s)) }"

definition compare_all :: "(byte list \<Rightarrow> f32) \<Rightarrow> AttrType \<Rightarrow> AttrType \<Rightarrow> mem \<Rightarrow> mem \<Rightarrow> int \<Rightarrow> int \<Rightarrow> CompOp \<Rightarrow>
    (RC \<times> int) option" where
  "compare_all atof t1 t2 data1 data2 len1 len2 op =
     (if op = IS \<or> op = IS_NOT \<or> t1 = NULLS \<or> t2 = NULLS then
        Some (SUCCESS,
          if t1 = NULLS \<and> t2 = NULLS then if op = IS then 0 else 1
          else if t1 = NULLS \<or> t2 = NULLS then if op = IS_NOT then 0 else 1
          else 1)
      else if op = LIKE \<or> op = NOT_LIKE then do {
        s \<leftarrow> c_string data1;
        p \<leftarrow> c_string data2;
        Some (SUCCESS, if \<not> compare_like s p then 1 else 0)
      }
      else if t1 = t2 then
        (case t1 of
           INTS \<Rightarrow> Some (SUCCESS, compare_int data1 data2)
         | DATES \<Rightarrow> Some (SUCCESS, compare_int data1 data2)
         | FLOATS \<Rightarrow> Some (SUCCESS, compare_float data1 data2)
         | CHARS \<Rightarrow> Some (SUCCESS, compare_string data1 len1 data2 len2)
         | _ \<Rightarrow> Some (RECORD_RECORD_NOT_EXIST, 0))
      else if t1 = CHARS \<and> t2 = INTS then do {
        f \<leftarrow> char2float atof data1;
        Some (SUCCESS, f32_compare f (f32_of_int (load_int data2 0)))
      }
      else if t1 = CHARS \<and> t2 = FLOATS then do {
        f \<leftarrow> char2float atof data1;
        Some (SUCCESS, f32_compare f (load_f32 data2))
      }
      else if t1 = INTS \<and> t2 = CHARS then do {
        f \<leftarrow> char2float atof data2;
        Some (SUCCESS, f32_compare (f32_of_int (load_int data1 0)) f)
      }
      else if t1 = FLOATS \<and> t2 = CHARS then do {
        f \<leftarrow> char2float atof data2;
        Some (SUCCESS, f32_compare (load_f32 data1) f)
      }
      else if t1 = INTS \<and> t2 = FLOATS then
        Some (SUCCESS, f32_compare (f32_of_int (load_int data1 0)) (load_f32 data2))
      else if t1 = FLOATS \<and> t2 = INTS then
        Some (SUCCESS, f32_compare (load_f32 data1) (f32_of_int (load_int data2 0)))
      else Some (RECORD_RECORD_NOT_EXIST, 0))"

section \<open>The order of strings\<close>

lemma strncmp_swap: "strncmp_from a b i n < 0 \<longleftrightarrow> strncmp_from b a i n > 0"
  by (induction a b i n rule: strncmp_from.induct) (auto simp: word_less_def)

lemma strncmp_trans:
  "strncmp_from a b i n \<le> 0 \<Longrightarrow> strncmp_from b c i n \<le> 0 \<Longrightarrow> strncmp_from a c i n \<le> 0"
proof (induction n arbitrary: i)
  case (Suc n)
  have zero: "uint x \<ge> 0" "x \<noteq> 0 \<Longrightarrow> uint x > 0" for x :: byte
    using unsigned_eq_0_iff [of x] by (simp_all add: order_less_le)
  show ?case
    using Suc word_uint_eq_iff [of "b i" "c i"] zero [of "a i"] zero [of "b i"] zero [of "c i"] by (auto split: if_splits simp del: uint_ge_0)
qed simp

lemma compare_string_same_length: "compare_string a n b n = strncmp_from a b 0 (nat n)"
  by (simp add: compare_string_def strncmp_def Let_def)

section \<open>The meaning of patterns\<close>

text \<open>The pattern language of SQL: \<^verbatim>\<open>%\<close> stands for any string, \<^verbatim>\<open>_\<close> for any character.\<close>

fun sql_like :: "byte list \<Rightarrow> byte list \<Rightarrow> bool" where
  "sql_like s [] = (s = [])"
| "sql_like [] (c # p) = (c = percent \<and> sql_like [] p)"
| "sql_like (a # s) (c # p) =
     (if c = percent then sql_like (a # s) p \<or> sql_like s (c # p)
      else (c = underscore \<or> a = c) \<and> sql_like s p)"

lemma sql_like_Nil: "sql_like [] p \<longleftrightarrow> set p \<subseteq> {percent}"
  by (induction p) auto

lemma sql_like_percent: "sql_like s (percent # p) \<longleftrightarrow> (\<exists>s1 s2. s = s1 @ s2 \<and> sql_like s2 p)"
proof (induction s)
  case (Cons a s)
  show ?case
  proof
    assume "sql_like (a # s) (percent # p)"
    then have "sql_like (a # s) p \<or> (\<exists>s1 s2. s = s1 @ s2 \<and> sql_like s2 p)" using Cons by simp
    then show "\<exists>s1 s2. a # s = s1 @ s2 \<and> sql_like s2 p" by (metis append_Cons append_Nil)
  next
    assume "\<exists>s1 s2. a # s = s1 @ s2 \<and> sql_like s2 p"
    then show "sql_like (a # s) (percent # p)" using Cons by (auto simp: Cons_eq_append_conv)
  qed
qed simp

lemma sql_like_append:
  "sql_like s (p @ q) \<longleftrightarrow> (\<exists>s1 s2. s = s1 @ s2 \<and> sql_like s1 p \<and> sql_like s2 q)"
proof (induction p arbitrary: s)
  case (Cons c p)
  show ?case
  proof (cases "c = percent")
    case True
    show ?thesis unfolding True append_Cons sql_like_percent Cons.IH by (metis append.assoc)
  next
    case False
    then have step: "sql_like s (c # q') \<longleftrightarrow> (\<exists>a t. s = a # t \<and> (c = underscore \<or> a = c) \<and> sql_like t q')" for s q'
      by (cases s) auto
    show ?thesis unfolding append_Cons step Cons.IH by (metis append_Cons)
  qed
qed auto

lemma sql_like_absorb: "sql_like s (p @ [percent]) \<Longrightarrow> sql_like (s @ t) (p @ [percent])"
  unfolding sql_like_append [of _ p "[percent]"] sql_like_percent by (metis append.assoc append_Nil2 sql_like.simps(1))

lemma sql_like_prefix_absorb:
  assumes "sql_like t (p @ [percent] @ q)"
  shows "sql_like (t @ u) (p @ [percent])"
proof -
  obtain t1 t2 where "t = t1 @ t2" "sql_like t1 (p @ [percent])"
    using assms sql_like_append [of t "p @ [percent]" q] by auto
  then show ?thesis using sql_like_absorb [of t1 p "t2 @ u"] by simp
qed

section \<open>The matcher is sound\<close>

lemma take_Suc_at: "j < length p \<Longrightarrow> take (Suc j) p = take j p @ [char_at p j]"
  by (simp add: char_at_def take_Suc_conv_app_nth)

lemma take_ge_split: "i \<le> j \<Longrightarrow> take j p = take i p @ drop i (take j p)"
  by (metis append_take_drop_id min.absorb1 take_take)

lemma skip_percent_like:
  "sql_like t (take j p) \<Longrightarrow> j \<le> length p \<Longrightarrow> sql_like t (take (skip_percent p j) p) \<and> skip_percent p j \<le> length p"
proof (induction p j rule: skip_percent.induct)
  case (1 p j)
  show ?case
  proof (cases "j < length p \<and> char_at p j = percent")
    case True
    have "sql_like (t @ []) (take j p @ [percent])"
      unfolding sql_like_append using "1.prems"(1) by (intro exI [of _ t] exI [of _ "[]"]) simp
    then show ?thesis using True "1.IH" take_Suc_at [of j p] by (subst (1 2) skip_percent.simps) simp
  next
    case False
    then show ?thesis using "1.prems" by (subst (1 2) skip_percent.simps) auto
  qed
qed

lemma back_behind_ends: "back_behind p j = k \<Longrightarrow> k \<noteq> 0 \<Longrightarrow> k \<le> j \<and> char_at p (k - 1) = percent"
  by (induction p j rule: back_behind.induct) (auto split: if_splits)

lemma back_to_percent: "back_to p j = Some k \<Longrightarrow> k \<le> j \<and> char_at p k = percent"
  by (induction p j rule: back_to.induct) (auto split: if_splits)

lemma char_at_percent: "char_at p j = percent \<Longrightarrow> j < length p"
  by (auto simp: char_at_def split: if_splits)

text \<open>Going back to a \<^verbatim>\<open>%\<close> that ends at \<open>k\<close>: it may have matched everything since.\<close>

lemma like_back:
  assumes "sql_like t (take j p)" "k \<le> j" "char_at p k = percent"
  shows "sql_like (t @ u) (take (Suc k) p)"
proof (cases "k = j")
  case True
  have "sql_like (t @ []) (take j p @ [percent])"
    unfolding sql_like_append using assms(1) by (intro exI [of _ t] exI [of _ "[]"]) simp
  then show ?thesis
    using True assms(3) take_Suc_at [of k p] char_at_percent [OF assms(3)] sql_like_absorb [of t "take j p" u] by simp
next
  case False
  then have "take j p = take k p @ [percent] @ drop (Suc k) (take j p)"
    using take_ge_split [of "Suc k" j p] take_Suc_at [of k p] char_at_percent [OF assms(3)] assms(2,3) by simp
  then have "sql_like t (take k p @ [percent] @ drop (Suc k) (take j p))" using assms(1) by simp
  from sql_like_prefix_absorb [OF this, of u] show ?thesis
    using take_Suc_at [of k p] char_at_percent [OF assms(3)] assms(3) by simp
qed

lemma like_loop_sound:
  assumes "sql_like t (take (skip_percent p j) p)" "skip_percent p j \<le> length p"
  shows "(like_loop s p j = Inl True \<longrightarrow> sql_like (t @ s) p) \<and>
    (\<forall>k. like_loop s p j = Inr k \<longrightarrow> sql_like (t @ s) (take (skip_percent p k) p) \<and> skip_percent p k \<le> length p)"
  using assms
proof (induction s arbitrary: t j)
  case (Cons c s)
  define i where "i = skip_percent p j"
  note pre = Cons.prems [folded i_def]
  show ?case
  proof (cases "i = length p \<and> char_at p (i - 1) = percent")
    case True
    then have "i \<noteq> 0" by (auto simp: char_at_def)
    then have "sql_like (t @ c # s) p" using like_back [OF pre(1), of "i - 1" "c # s"] True by (metis One_nat_def Suc_pred diff_le_self less_Suc_eq_0_disj not_gr_zero order_refl take_all_iff)
    moreover have "like_loop (c # s) p j = Inl True" using True unfolding like_loop.simps i_def [symmetric] Let_def by auto
    ultimately show ?thesis by simp
  next
    case no: False
    show ?thesis
    proof (cases "i = length p \<and> back_behind p i = 0")
      case True
      then have "like_loop (c # s) p j = Inl False"
        using no unfolding like_loop.simps i_def [symmetric] Let_def by auto
      then show ?thesis by simp
    next
      case False
      define m where "m = (if i = length p then back_behind p i else i)"
      have m: "sql_like t (take m p)" "m < length p"
      proof -
        have "sql_like t (take m p) \<and> m < length p" if "i = length p"
        proof -
          have k: "m \<noteq> 0" "m \<le> i" "char_at p (m - 1) = percent"
            using back_behind_ends [of p i m] that False by (auto simp: m_def)
          moreover have "m \<noteq> i" using k no that by auto
          ultimately show ?thesis using like_back [OF pre(1), of "m - 1" "[]"] that by simp
        qed
        then show "sql_like t (take m p)" "m < length p" using pre by (auto simp: m_def)
      qed
      have eq: "like_loop (c # s) p j = (case like_char c p m of None \<Rightarrow> Inl False | Some j \<Rightarrow> like_loop s p j)"
        using no False unfolding like_loop.simps m_def i_def [symmetric] Let_def by auto
      show ?thesis
      proof (cases "like_char c p m")
        case None
        then show ?thesis using eq by simp
      next
        case (Some n)
        have "sql_like (t @ [c]) (take (skip_percent p n) p) \<and> skip_percent p n \<le> length p"
        proof (cases "c = char_at p m \<or> char_at p m = underscore")
          case True
          then have n: "n = Suc m" using Some by (simp add: like_char_def)
          have "sql_like (t @ [c]) (take m p @ [char_at p m])"
            unfolding sql_like_append using m(1) True by (intro exI [of _ t] exI [of _ "[c]"]) auto
          then show ?thesis using skip_percent_like [of "t @ [c]" "Suc m" p] m(2) n take_Suc_at [OF m(2)] by simp
        next
          case False
          then have n: "n \<le> m" "char_at p n = percent" using Some back_to_percent [of p m n] by (auto simp: like_char_def)
          then have "sql_like (t @ [c]) (take (Suc n) p)" using like_back [OF m(1)] by simp
          moreover have "skip_percent p n = skip_percent p (Suc n)"
            using n(2) char_at_percent [OF n(2)] by (subst skip_percent.simps) simp
          ultimately show ?thesis using skip_percent_like [of "t @ [c]" "Suc n" p] char_at_percent [OF n(2)] by simp
        qed
        then show ?thesis using Cons.IH [of "t @ [c]" n] eq Some by simp
      qed
    qed
  qed
qed simp

section \<open>Patterns without \<^verbatim>\<open>%\<close>\<close>

lemma no_percent_at: "percent \<notin> set p \<Longrightarrow> char_at p j \<noteq> percent"
  by (metis char_at_def char_at_percent nth_mem)

lemma no_percent:
  assumes "percent \<notin> set p"
  shows "skip_percent p j = j" "back_behind p j = 0" "back_to p j = None"
proof -
  show "skip_percent p j = j" by (subst skip_percent.simps) (simp add: no_percent_at [OF assms])
  show "back_behind p j = 0" by (induction j) (simp_all add: no_percent_at [OF assms])
  show "back_to p j = None" by (induction j) (simp_all add: no_percent_at [OF assms])
qed

lemma sql_like_no_percent: "percent \<notin> set p \<Longrightarrow> sql_like s p \<longleftrightarrow> list_all2 (\<lambda>a c. c = underscore \<or> a = c) s p"
  by (induction s p rule: sql_like.induct) auto

lemma like_loop_no_percent:
  assumes "percent \<notin> set p" "j \<le> length p"
  shows "(case like_loop s p j of Inl b \<Rightarrow> b | Inr k \<Rightarrow> k = length p) \<longleftrightarrow>
    list_all2 (\<lambda>a c. c = underscore \<or> a = c) s (drop j p)"
  using assms(2)
proof (induction s arbitrary: j)
  case (Cons c s)
  show ?case
  proof (cases "j = length p")
    case True
    then show ?thesis using no_percent [OF assms(1)] no_percent_at [OF assms(1)] by simp
  next
    case False
    then have "drop j p = char_at p j # drop (Suc j) p"
      using Cons.prems by (simp add: char_at_def Cons_nth_drop_Suc)
    then show ?thesis
      using Cons.IH [of "Suc j"] Cons.prems False no_percent [OF assms(1)] by (auto simp: like_char_def)
  qed
qed auto

section \<open>Properties\<close>

text \<open>
  \<^verbatim>\<open>LIKE\<close> never accepts a string that the pattern does not describe, and for patterns without \<^verbatim>\<open>%\<close> it accepts
  exactly the strings the pattern describes.
\<close>

theorem compare_like_sound:
  "(compare_like s p \<longrightarrow> sql_like s p) \<and> (percent \<notin> set p \<longrightarrow> compare_like s p = sql_like s p)"
proof
  have "skip_percent p 0 \<le> length p" "sql_like [] (take (skip_percent p 0) p)"
    using skip_percent_like [of "[]" 0 p] by simp_all
  from like_loop_sound [OF this(2,1), of s] show "compare_like s p \<longrightarrow> sql_like s p"
    by (auto simp: compare_like_def split: sum.splits)
  show "percent \<notin> set p \<longrightarrow> compare_like s p = sql_like s p"
    using like_loop_no_percent [of p 0 s] no_percent [of p] sql_like_no_percent [of p s]
    by (auto simp: compare_like_def split: sum.splits)
qed

theorem compare_like_sound_witness:
  "compare_like [97, 98, 99] [97, percent] \<and> sql_like [97, 98, 99] [97, percent] \<and>
   percent \<notin> set [97, underscore] \<and> compare_like [97, 98] [97, underscore] = sql_like [97, 98] [97, underscore]"
proof -
  have a: "compare_like [97, 98, 99] [97, percent]"
    by (simp add: compare_like_def like_char_def char_at_def skip_percent.simps)
  have b: "percent \<notin> set [97, underscore]" by simp
  show ?thesis
    using a b compare_like_sound [of "[97, 98, 99]" "[97, percent]"] compare_like_sound [of "[97, 98]" "[97, underscore]"] by blast
qed

text \<open>
  \<^verbatim>\<open>LIKE\<close> misses matches: after a failed attempt behind a \<^verbatim>\<open>%\<close> the search goes on behind the character that
  failed, so \<open>'aab'\<close> is not found to end in \<open>'ab'\<close>.
\<close>

theorem compare_like_misses:
  "sql_like [97, 97, 98] [percent, 97, 98] \<and> \<not> compare_like [97, 97, 98] [percent, 97, 98]"
  by (simp add: compare_like_def like_char_def char_at_def skip_percent.simps)

end
