(* ===== verification/Ob_IndexNode.thy ===== *)
theory Ob_IndexNode
  imports Ob_Comparator Ob_LowerBound Ob_Io
begin

text \<open>
  The nodes of the B+ tree (\<open>src/src/observer/storage/index/bplus_tree.h\<close> and \<open>bplus_tree.cpp\<close>): the comparison of
  keys, the layout of leaf and internal pages, and the operations of \<^verbatim>\<open>LeafIndexNodeHandler\<close> and
  \<^verbatim>\<open>InternalIndexNodeHandler\<close> on the bytes of their pages.  A key is the attribute value followed by the record
  identifier.  The parts of the operations that visit other pages belong to the tree.  A failed \<^verbatim>\<open>assert\<close> and the
  \<^verbatim>\<open>abort\<close> of the comparison on an unsupported type are the result \<open>None\<close>.
\<close>

section \<open>Comparing keys\<close>

record IndexFileHeader =
  root_page :: PageNum
  internal_max_size :: int
  leaf_max_size :: int
  attr_length :: int
  key_length :: int
  attr_type :: AttrType

text \<open>The switch of \<^verbatim>\<open>AttrComparator\<close>; the other types abort.\<close>

definition supported :: "AttrType \<Rightarrow> bool" where
  "supported t \<longleftrightarrow> t \<in> {INTS, DATES, FLOATS, CHARS}"

definition AttrComparator :: "IndexFileHeader \<Rightarrow> mem \<Rightarrow> mem \<Rightarrow> int" where
  "AttrComparator hdr v1 v2 = (case attr_type hdr of
      INTS \<Rightarrow> compare_int v1 v2
    | DATES \<Rightarrow> compare_int v1 v2
    | FLOATS \<Rightarrow> compare_float v1 v2
    | CHARS \<Rightarrow> compare_string v1 (attr_length hdr) v2 (attr_length hdr)
    | _ \<Rightarrow> 0)"

text \<open>\<^verbatim>\<open>RID::compare\<close> on two identifiers in memory.\<close>

definition rid_compare :: "mem \<Rightarrow> mem \<Rightarrow> int" where
  "rid_compare rid1 rid2 =
     (let page_diff = wrap32 (load_int rid1 0 - load_int rid2 0) in
      if page_diff \<noteq> 0 then page_diff else wrap32 (load_int rid1 4 - load_int rid2 4))"

definition KeyComparator :: "IndexFileHeader \<Rightarrow> mem \<Rightarrow> mem \<Rightarrow> int" where
  "KeyComparator hdr v1 v2 =
     (let result = AttrComparator hdr v1 v2 in
      if result \<noteq> 0 then result
      else rid_compare (at_off v1 (nat (attr_length hdr))) (at_off v2 (nat (attr_length hdr))))"

section \<open>Capacity of a page\<close>

definition calc_internal_page_capacity :: "int \<Rightarrow> int" where
  "calc_internal_page_capacity len =
     (let item_size = len + 8 + 4 in (BP_PAGE_DATA_SIZE - 12) div item_size)"

definition calc_leaf_page_capacity :: "int \<Rightarrow> int" where
  "calc_leaf_page_capacity len =
     (let item_size = len + 8 + 8 in (BP_PAGE_DATA_SIZE - 20) div item_size)"

section \<open>The common part of a node\<close>

definition is_leaf :: "mem \<Rightarrow> bool" where "is_leaf d \<longleftrightarrow> d 0 \<noteq> 0"
definition node_size :: "mem \<Rightarrow> int" where "node_size d = load_int d 4"
definition parent_page_num :: "mem \<Rightarrow> PageNum" where "parent_page_num d = load_int d 8"

definition increase_size :: "int \<Rightarrow> mem \<Rightarrow> mem" where
  "increase_size n d = store_int d 4 (node_size d + n)"

definition set_parent_page_num :: "PageNum \<Rightarrow> mem \<Rightarrow> mem" where
  "set_parent_page_num p d = store_int d 8 p"

definition node_init_empty :: "bool \<Rightarrow> mem \<Rightarrow> mem" where
  "node_init_empty leaf d = store_int (store_int (d(0 := if leaf then 1 else 0)) 4 0) 8 (- 1)"

definition node_validate :: "mem \<Rightarrow> bool" where
  "node_validate d =
     (if parent_page_num d = - 1 then
        if node_size d < 1 then False
        else if \<not> is_leaf d \<and> node_size d < 2 then False
        else True
      else True)"

section \<open>Leaf nodes\<close>

definition prev_page :: "mem \<Rightarrow> PageNum" where "prev_page d = load_int d 12"
definition next_page :: "mem \<Rightarrow> PageNum" where "next_page d = load_int d 16"
definition set_prev_page :: "PageNum \<Rightarrow> mem \<Rightarrow> mem" where "set_prev_page p d = store_int d 12 p"
definition set_next_page :: "PageNum \<Rightarrow> mem \<Rightarrow> mem" where "set_next_page p d = store_int d 16 p"

definition leaf_init_empty :: "mem \<Rightarrow> mem" where
  "leaf_init_empty d = set_next_page (- 1) (set_prev_page (- 1) (node_init_empty True d))"

definition key_size :: "IndexFileHeader \<Rightarrow> nat" where "key_size hdr = nat (key_length hdr)"
definition leaf_value_size :: nat where "leaf_value_size = 8"
definition leaf_item_size :: "IndexFileHeader \<Rightarrow> nat" where "leaf_item_size hdr = key_size hdr + leaf_value_size"

definition leaf_item_at :: "IndexFileHeader \<Rightarrow> nat \<Rightarrow> nat" where
  "leaf_item_at hdr i = 20 + i * leaf_item_size hdr"

definition leaf_key_at :: "IndexFileHeader \<Rightarrow> mem \<Rightarrow> nat \<Rightarrow> mem" where
  "leaf_key_at hdr d i = at_off d (leaf_item_at hdr i)"

definition leaf_value_at :: "IndexFileHeader \<Rightarrow> mem \<Rightarrow> nat \<Rightarrow> mem" where
  "leaf_value_at hdr d i = at_off d (leaf_item_at hdr i + key_size hdr)"

definition leaf_max :: "IndexFileHeader \<Rightarrow> int" where "leaf_max hdr = leaf_max_size hdr"
definition leaf_min :: "IndexFileHeader \<Rightarrow> int" where "leaf_min hdr = leaf_max_size hdr - leaf_max_size hdr div 2"

abbreviation num :: "mem \<Rightarrow> nat" where "num d \<equiv> nat (node_size d)"

definition leaf_lookup :: "IndexFileHeader \<Rightarrow> mem \<Rightarrow> mem \<Rightarrow> (nat \<times> bool) option" where
  "leaf_lookup hdr d key =
     (if node_size d \<le> 0 \<or> supported (attr_type hdr)
      then Some (lower_bound (KeyComparator hdr) (map (leaf_key_at hdr d) [0..<num d]) key) else None)"

definition leaf_insert :: "IndexFileHeader \<Rightarrow> nat \<Rightarrow> mem \<Rightarrow> mem \<Rightarrow> mem \<Rightarrow> mem" where
  "leaf_insert hdr index key val d =
     (let d = (if index < num d
               then blit d (leaf_item_at hdr (index + 1)) (at_off d (leaf_item_at hdr index)) ((num d - index) * leaf_item_size hdr)
               else d);
          d = blit d (leaf_item_at hdr index) key (key_size hdr);
          d = blit d (leaf_item_at hdr index + key_size hdr) val leaf_value_size in
      increase_size 1 d)"

definition leaf_remove_at :: "IndexFileHeader \<Rightarrow> nat \<Rightarrow> mem \<Rightarrow> mem option" where
  "leaf_remove_at hdr index d =
     (if \<not> int index < node_size d then None
      else let d = (if int index < node_size d - 1
                    then blit d (leaf_item_at hdr index) (at_off d (leaf_item_at hdr (index + 1))) ((num d - index - 1) * leaf_item_size hdr)
                    else d) in
        Some (increase_size (- 1) d))"

definition leaf_remove :: "IndexFileHeader \<Rightarrow> mem \<Rightarrow> mem \<Rightarrow> (nat \<times> mem) option" where
  "leaf_remove hdr key d = do {
     (index, found) \<leftarrow> leaf_lookup hdr d key;
     if found then do { d \<leftarrow> leaf_remove_at hdr index d; Some (1, d) } else Some (0, d)
   }"

text \<open>The moves between two leaves return this node and the other one.\<close>

definition leaf_append :: "IndexFileHeader \<Rightarrow> mem \<Rightarrow> mem \<Rightarrow> mem" where
  "leaf_append hdr item d = increase_size 1 (blit d (leaf_item_at hdr (num d)) item (leaf_item_size hdr))"

definition leaf_preappend :: "IndexFileHeader \<Rightarrow> mem \<Rightarrow> mem \<Rightarrow> mem" where
  "leaf_preappend hdr item d =
     (let d = (if node_size d > 0 then blit d (leaf_item_at hdr 1) (at_off d (leaf_item_at hdr 0)) (num d * leaf_item_size hdr) else d) in
      increase_size 1 (blit d (leaf_item_at hdr 0) item (leaf_item_size hdr)))"

definition leaf_move_half_to :: "IndexFileHeader \<Rightarrow> mem \<Rightarrow> mem \<Rightarrow> mem \<times> mem" where
  "leaf_move_half_to hdr this other =
     (let size = num this; move_index = size div 2;
          other = blit other (leaf_item_at hdr 0) (at_off this (leaf_item_at hdr move_index)) (leaf_item_size hdr * (size - move_index)) in
      (increase_size (- (int size - int move_index)) this, increase_size (int size - int move_index) other))"

definition leaf_move_first_to_end :: "IndexFileHeader \<Rightarrow> mem \<Rightarrow> mem \<Rightarrow> mem \<times> mem" where
  "leaf_move_first_to_end hdr this other =
     (let other = leaf_append hdr (at_off this (leaf_item_at hdr 0)) other;
          this = (if node_size this \<ge> 1
                  then blit this (leaf_item_at hdr 0) (at_off this (leaf_item_at hdr 1)) ((num this - 1) * leaf_item_size hdr) else this) in
      (increase_size (- 1) this, other))"

definition leaf_move_last_to_front :: "IndexFileHeader \<Rightarrow> mem \<Rightarrow> mem \<Rightarrow> mem \<times> mem" where
  "leaf_move_last_to_front hdr this other =
     (increase_size (- 1) this, leaf_preappend hdr (at_off this (leaf_item_at hdr (num this - 1))) other)"

text \<open>The part of \<^verbatim>\<open>move_to\<close> on the two pages.\<close>

definition leaf_move_items :: "IndexFileHeader \<Rightarrow> mem \<Rightarrow> mem \<Rightarrow> mem \<times> mem" where
  "leaf_move_items hdr this other =
     (let other = blit other (leaf_item_at hdr (num other)) (at_off this (leaf_item_at hdr 0)) (num this * leaf_item_size hdr);
          other = increase_size (node_size this) other;
          this = increase_size (- node_size this) this in
      (this, set_next_page (next_page this) other))"

section \<open>Internal nodes\<close>

definition internal_value_size :: nat where "internal_value_size = 4"
definition internal_item_size :: "IndexFileHeader \<Rightarrow> nat" where "internal_item_size hdr = key_size hdr + internal_value_size"

definition internal_item_at :: "IndexFileHeader \<Rightarrow> nat \<Rightarrow> nat" where
  "internal_item_at hdr i = 12 + i * internal_item_size hdr"

definition internal_key_at :: "IndexFileHeader \<Rightarrow> mem \<Rightarrow> nat \<Rightarrow> mem" where
  "internal_key_at hdr d i = at_off d (internal_item_at hdr i)"

text \<open>The child page of an item, without the check of the index.\<close>

definition internal_child :: "IndexFileHeader \<Rightarrow> mem \<Rightarrow> nat \<Rightarrow> PageNum" where
  "internal_child hdr d i = load_int d (internal_item_at hdr i + key_size hdr)"

definition internal_value_at :: "IndexFileHeader \<Rightarrow> mem \<Rightarrow> nat \<Rightarrow> PageNum option" where
  "internal_value_at hdr d i = (if int i < node_size d then Some (internal_child hdr d i) else None)"

definition internal_max :: "IndexFileHeader \<Rightarrow> int" where "internal_max hdr = internal_max_size hdr"
definition internal_min :: "IndexFileHeader \<Rightarrow> int" where
  "internal_min hdr = internal_max_size hdr - internal_max_size hdr div 2"

definition internal_init_empty :: "mem \<Rightarrow> mem" where
  "internal_init_empty d = node_init_empty False d"

definition put_child :: "IndexFileHeader \<Rightarrow> nat \<Rightarrow> PageNum \<Rightarrow> mem \<Rightarrow> mem" where
  "put_child hdr i p d = store_int d (internal_item_at hdr i + key_size hdr) p"

definition create_new_root :: "IndexFileHeader \<Rightarrow> PageNum \<Rightarrow> mem \<Rightarrow> PageNum \<Rightarrow> mem \<Rightarrow> mem" where
  "create_new_root hdr first_page_num key second_page_num d =
     (let d = blit d (internal_item_at hdr 0) (\<lambda>_. 0) (key_size hdr);
          d = put_child hdr 0 first_page_num d;
          d = blit d (internal_item_at hdr 1) key (key_size hdr);
          d = put_child hdr 1 second_page_num d in
      increase_size 2 d)"

text \<open>The child to descend to, whether the key is a separator, and the insert position.\<close>

definition internal_lookup :: "IndexFileHeader \<Rightarrow> mem \<Rightarrow> mem \<Rightarrow> (nat \<times> bool \<times> nat) option" where
  "internal_lookup hdr d key =
     (if node_size d = 0 then Some (0, False, 1)
      else if node_size d > 1 \<and> \<not> supported (attr_type hdr) then None
      else case lower_bound (KeyComparator hdr) (map (internal_key_at hdr d) [1..<num d]) key of
        (i, found) \<Rightarrow>
          let ret = i + 1 in
          if int ret \<ge> node_size d \<or> KeyComparator hdr key (internal_key_at hdr d ret) < 0
          then Some (ret - 1, found, ret) else Some (ret, found, ret))"

definition internal_insert :: "IndexFileHeader \<Rightarrow> mem \<Rightarrow> PageNum \<Rightarrow> mem \<Rightarrow> mem option" where
  "internal_insert hdr key child d = do {
     (_, _, pos) \<leftarrow> internal_lookup hdr d key;
     let d = (if pos < num d
              then blit d (internal_item_at hdr (pos + 1)) (at_off d (internal_item_at hdr pos)) ((num d - pos) * internal_item_size hdr)
              else d);
     let d = blit d (internal_item_at hdr pos) key (key_size hdr);
     Some (increase_size 1 (put_child hdr pos child d))
   }"

definition internal_set_key_at :: "IndexFileHeader \<Rightarrow> nat \<Rightarrow> mem \<Rightarrow> mem \<Rightarrow> mem option" where
  "internal_set_key_at hdr index key d =
     (if int index < node_size d then Some (blit d (internal_item_at hdr index) key (key_size hdr)) else None)"

definition internal_value_index :: "IndexFileHeader \<Rightarrow> mem \<Rightarrow> PageNum \<Rightarrow> int" where
  "internal_value_index hdr d p = first_from (\<lambda>i. p = internal_child hdr d i) 0 (num d)"

definition internal_remove :: "IndexFileHeader \<Rightarrow> nat \<Rightarrow> mem \<Rightarrow> mem option" where
  "internal_remove hdr index d =
     (if \<not> int index < node_size d then None
      else let d = (if int index < node_size d - 1
                    then blit d (internal_item_at hdr index) (at_off d (internal_item_at hdr (index + 1))) ((num d - index - 1) * internal_item_size hdr)
                    else d) in
        Some (increase_size (- 1) d))"

end
