(* ===== verification/Ob_BplusTree.thy ===== *)
theory Ob_BplusTree
  imports Ob_IndexNode Ob_RecordFile
begin

text \<open>
  The B+ tree (\<^verbatim>\<open>BplusTreeHandler\<close> of \<open>src/src/observer/storage/index/bplus_tree.cpp\<close>) over the buffer pool: every
  visit of a page pins a frame and every change is a change of the bytes of a pinned frame, marked dirty
  where the source does so.  A handler function takes the handler \<open>t\<close> and the state \<open>s\<close> of the buffer
  pools and returns them with its return code.  Memory for keys is always available.  Where the source recurses or
  loops along page numbers read from disk the model is a partial function, so a cycle of pages is the result
  \<open>None\<close>, like a failed assertion.  The two template instances of \<^verbatim>\<open>split\<close>,
  \<^verbatim>\<open>coalesce_or_redistribute\<close>, \<^verbatim>\<open>coalesce\<close> and \<^verbatim>\<open>redistribute\<close> are told apart by an argument.
\<close>

section \<open>The handler\<close>

record BplusTreeHandler =
  bt_pool :: "nat option"
  bt_header :: IndexFileHeader

definition bt_new :: BplusTreeHandler where
  "bt_new = \<lparr>bt_pool = None, bt_header = \<lparr>root_page = - 1, internal_max_size = 0, leaf_max_size = 0, attr_length = 0,
     key_length = 0, attr_type = UNDEFINED\<rparr>\<rparr>"

definition FIRST_INDEX_PAGE :: PageNum where "FIRST_INDEX_PAGE = 1"

text \<open>The header in its page; an attribute type that is no enumerator is as good as \<^verbatim>\<open>UNDEFINED\<close>.\<close>

primrec code_AttrType :: "AttrType \<Rightarrow> int" where
  "code_AttrType UNDEFINED = 0"
| "code_AttrType CHARS = 1"
| "code_AttrType INTS = 2"
| "code_AttrType FLOATS = 3"
| "code_AttrType DATES = 4"
| "code_AttrType RELATIONS = 5"
| "code_AttrType NULLS = 6"

definition attr_type_of :: "int \<Rightarrow> AttrType" where
  "attr_type_of n = (case List.find (\<lambda>t. code_AttrType t = n) [CHARS, INTS, FLOATS, DATES, RELATIONS, NULLS] of
     Some t \<Rightarrow> t | None \<Rightarrow> UNDEFINED)"

definition load_header :: "mem \<Rightarrow> IndexFileHeader" where
  "load_header d = \<lparr>root_page = load_int d 0, internal_max_size = load_int d 4, leaf_max_size = load_int d 8,
     attr_length = load_int d 12, key_length = load_int d 16, attr_type = attr_type_of (load_int d 20)\<rparr>"

definition store_header :: "IndexFileHeader \<Rightarrow> mem \<Rightarrow> mem" where
  "store_header h d =
     (let d = store_int d 12 (attr_length h);
          d = store_int d 16 (key_length h);
          d = store_int d 20 (code_AttrType (attr_type h));
          d = store_int d 4 (internal_max_size h);
          d = store_int d 8 (leaf_max_size h) in
      store_int d 0 (root_page h))"

abbreviation frame_data :: "BPSys \<Rightarrow> nat \<Rightarrow> mem" where
  "frame_data s a \<equiv> data (page (frame_of s a))"

abbreviation frame_page :: "BPSys \<Rightarrow> nat \<Rightarrow> PageNum" where
  "frame_page s a \<equiv> page_num (page (frame_of s a))"

abbreviation dirty_frame :: "nat \<Rightarrow> BPSys \<Rightarrow> BPSys" where
  "dirty_frame a \<equiv> upd_frame a mark_dirty"

definition bt_sync :: "BplusTreeHandler \<Rightarrow> BPSys \<Rightarrow> (RC \<times> BPSys) option" where
  "bt_sync t s = do { b \<leftarrow> bt_pool t; flush_all_pages b s }"

definition bt_close :: "BplusTreeHandler \<Rightarrow> BPSys \<Rightarrow> (RC \<times> BplusTreeHandler \<times> BPSys) option" where
  "bt_close t s = (case bt_pool t of
      None \<Rightarrow> Some (SUCCESS, t, s)
    | Some b \<Rightarrow> do {
        (_, s) \<leftarrow> close_file (ClosePool b) s;
        Some (SUCCESS, t\<lparr>bt_pool := None\<rparr>, s)
      })"

definition bt_create :: "string \<Rightarrow> AttrType \<Rightarrow> int \<Rightarrow> int \<Rightarrow> int \<Rightarrow> BplusTreeHandler \<Rightarrow> BPSys \<Rightarrow>
    (RC \<times> BplusTreeHandler \<times> BPSys) option" where
  "bt_create name type len imax lmax t s =
     (case bpm_create_file name s of (rc, s) \<Rightarrow>
        if rc \<noteq> SUCCESS then Some (rc, t, s)
        else do {
          (rc, pool, s) \<leftarrow> bpm_open_file name s;
          if rc \<noteq> SUCCESS then Some (rc, t, s)
          else do {
            b \<leftarrow> pool;
            (rc, frame, s) \<leftarrow> allocate_page b s;
            if rc \<noteq> SUCCESS then do {
              (_, s) \<leftarrow> close_file (CloseName name) s;
              Some (rc, t, s)
            }
            else do {
              a \<leftarrow> frame;
              if frame_page s a \<noteq> FIRST_INDEX_PAGE then do {
                (_, s) \<leftarrow> close_file (CloseName name) s;
                Some (INTERNAL, t, s)
              }
              else do {
                let imax = (if imax < 0 then calc_internal_page_capacity len else imax);
                let lmax = (if lmax < 0 then calc_leaf_page_capacity len else lmax);
                let s = upd_data a (store_header \<lparr>root_page = - 1, internal_max_size = imax, leaf_max_size = lmax,
                  attr_length = len, key_length = len + 8, attr_type = type\<rparr>) s;
                let s = dirty_frame a s;
                let t = t\<lparr>bt_pool := Some b, bt_header := load_header (frame_data s a)\<rparr>;
                (_, s) \<leftarrow> unpin_page b a s;
                Some (SUCCESS, t, s)
              }
            }
          }
        })"

definition bt_open :: "string \<Rightarrow> BplusTreeHandler \<Rightarrow> BPSys \<Rightarrow> (RC \<times> BplusTreeHandler \<times> BPSys) option" where
  "bt_open name t s =
     (if bt_pool t \<noteq> None then Some (RECORD_OPENNED, t, s)
      else do {
        (rc, pool, s) \<leftarrow> bpm_open_file name s;
        if rc \<noteq> SUCCESS then Some (rc, t, s)
        else do {
          b \<leftarrow> pool;
          (rc, frame, s) \<leftarrow> get_this_page b FIRST_INDEX_PAGE s;
          if rc \<noteq> SUCCESS then do {
            (_, s) \<leftarrow> close_file (CloseName name) s;
            Some (rc, t, s)
          }
          else do {
            a \<leftarrow> frame;
            let t = t\<lparr>bt_pool := Some b, bt_header := load_header (frame_data s a)\<rparr>;
            (_, s) \<leftarrow> unpin_page b a s;
            Some (SUCCESS, t, s)
          }
        }
      })"

definition bt_is_empty :: "BplusTreeHandler \<Rightarrow> bool" where
  "bt_is_empty t \<longleftrightarrow> root_page (bt_header t) = - 1"

definition update_root_page_num :: "BplusTreeHandler \<Rightarrow> BPSys \<Rightarrow> (RC \<times> BPSys) option" where
  "update_root_page_num t s = do {
     b \<leftarrow> bt_pool t;
     (rc, frame, s) \<leftarrow> get_this_page b FIRST_INDEX_PAGE s;
     if rc \<noteq> SUCCESS then Some (rc, s)
     else do {
       a \<leftarrow> frame;
       let s = dirty_frame a (upd_data a (\<lambda>d. store_int d 0 (root_page (bt_header t))) s);
       (_, s) \<leftarrow> unpin_page b a s;
       Some (rc, s)
     }
   }"

section \<open>Finding a leaf\<close>

text \<open>The children the three searches descend to.\<close>

definition key_child :: "IndexFileHeader \<Rightarrow> mem \<Rightarrow> mem \<Rightarrow> PageNum option" where
  "key_child hdr key d = do { (c, _) \<leftarrow> internal_lookup hdr d key; internal_value_at hdr d c }"

definition first_child :: "IndexFileHeader \<Rightarrow> mem \<Rightarrow> PageNum option" where
  "first_child hdr d = internal_value_at hdr d 0"

definition last_child :: "IndexFileHeader \<Rightarrow> mem \<Rightarrow> PageNum option" where
  "last_child hdr d = (if node_size d - 1 < 0 then None else internal_value_at hdr d (nat (node_size d - 1)))"

text \<open>The loop: the frame of the leaf is left pinned.\<close>

partial_function (option) descend :: "(mem \<Rightarrow> PageNum option) \<Rightarrow> nat \<Rightarrow> nat \<Rightarrow> BPSys \<Rightarrow> (RC \<times> nat option \<times> BPSys) option" where
  "descend getter b a s =
     (if is_leaf (frame_data s a) then Some (SUCCESS, Some a, s)
      else do {
        p \<leftarrow> getter (frame_data s a);
        (_, s) \<leftarrow> unpin_page b a s;
        (rc, frame, s) \<leftarrow> get_this_page b p s;
        if rc \<noteq> SUCCESS then Some (rc, None, s)
        else do { a \<leftarrow> frame; descend getter b a s }
      })"

definition find_leaf_internal :: "(mem \<Rightarrow> PageNum option) \<Rightarrow> BplusTreeHandler \<Rightarrow> BPSys \<Rightarrow> (RC \<times> nat option \<times> BPSys) option" where
  "find_leaf_internal getter t s =
     (if bt_is_empty t then Some (EMPTY, None, s)
      else do {
        b \<leftarrow> bt_pool t;
        (rc, frame, s) \<leftarrow> get_this_page b (root_page (bt_header t)) s;
        if rc \<noteq> SUCCESS then Some (rc, None, s)
        else do { a \<leftarrow> frame; descend getter b a s }
      })"

definition find_leaf :: "mem \<Rightarrow> BplusTreeHandler \<Rightarrow> BPSys \<Rightarrow> (RC \<times> nat option \<times> BPSys) option" where
  "find_leaf key t s = find_leaf_internal (key_child (bt_header t) key) t s"

definition left_most_page :: "BplusTreeHandler \<Rightarrow> BPSys \<Rightarrow> (RC \<times> nat option \<times> BPSys) option" where
  "left_most_page t s = find_leaf_internal (first_child (bt_header t)) t s"

definition right_most_page :: "BplusTreeHandler \<Rightarrow> BPSys \<Rightarrow> (RC \<times> nat option \<times> BPSys) option" where
  "right_most_page t s = find_leaf_internal (last_child (bt_header t)) t s"

section \<open>Moving items between pages\<close>

text \<open>One round of the loop of \<^verbatim>\<open>copy_from\<close>: a child learns its new parent.\<close>

definition adopt_child :: "nat \<Rightarrow> PageNum \<Rightarrow> PageNum \<Rightarrow> BPSys \<Rightarrow> (RC \<times> BPSys) option" where
  "adopt_child b parent p s = do {
     (rc, frame, s) \<leftarrow> get_this_page b p s;
     if rc \<noteq> SUCCESS then Some (rc, s)
     else do {
       a \<leftarrow> frame;
       let s = dirty_frame a (upd_data a (set_parent_page_num parent) s);
       (_, s) \<leftarrow> unpin_page b a s;
       Some (SUCCESS, s)
     }
   }"

fun adopt_children :: "nat \<Rightarrow> PageNum \<Rightarrow> PageNum list \<Rightarrow> BPSys \<Rightarrow> (RC \<times> BPSys) option" where
  "adopt_children b parent [] s = Some (SUCCESS, s)"
| "adopt_children b parent (p # ps) s = do {
     (rc, s) \<leftarrow> adopt_child b parent p s;
     if rc \<noteq> SUCCESS then Some (rc, s) else adopt_children b parent ps s
   }"

text \<open>\<^verbatim>\<open>copy_from\<close>: \<open>n\<close> items at \<open>src\<close> are appended to the node in frame \<open>a\<close>.\<close>

definition internal_copy_from :: "IndexFileHeader \<Rightarrow> nat \<Rightarrow> nat \<Rightarrow> mem \<Rightarrow> nat \<Rightarrow> BPSys \<Rightarrow> (RC \<times> BPSys) option" where
  "internal_copy_from hdr b a src n s = do {
     let s = upd_data a (\<lambda>d. blit d (internal_item_at hdr (num d)) src (n * internal_item_size hdr)) s;
     (rc, s) \<leftarrow> adopt_children b (frame_page s a)
        (map (\<lambda>i. load_int src (i * internal_item_size hdr + key_size hdr)) [0..<n]) s;
     if rc \<noteq> SUCCESS then Some (rc, s)
     else Some (SUCCESS, upd_data a (increase_size (int n)) s)
   }"

definition internal_preappend :: "IndexFileHeader \<Rightarrow> nat \<Rightarrow> nat \<Rightarrow> mem \<Rightarrow> BPSys \<Rightarrow> (RC \<times> BPSys) option" where
  "internal_preappend hdr b a item s = do {
     (rc, s) \<leftarrow> adopt_child b (frame_page s a) (load_int item (key_size hdr)) s;
     if rc \<noteq> SUCCESS then Some (rc, s)
     else Some (SUCCESS, upd_data a (\<lambda>d.
       let d = (if node_size d > 0
                then blit d (internal_item_at hdr 1) (at_off d (internal_item_at hdr 0)) (num d * internal_item_size hdr) else d) in
       increase_size 1 (blit d (internal_item_at hdr 0) item (internal_item_size hdr))) s)
   }"

text \<open>The moves: from frame \<open>a\<close> to frame \<open>o\<close>.\<close>

definition internal_move_half_to :: "IndexFileHeader \<Rightarrow> nat \<Rightarrow> nat \<Rightarrow> nat \<Rightarrow> BPSys \<Rightarrow> (RC \<times> BPSys) option" where
  "internal_move_half_to hdr b a other s = do {
     let size = num (frame_data s a);
     let move_index = size div 2;
     (rc, s) \<leftarrow> internal_copy_from hdr b other (at_off (frame_data s a) (internal_item_at hdr move_index)) (size - move_index) s;
     if rc \<noteq> SUCCESS then Some (rc, s)
     else Some (rc, upd_data a (increase_size (- (int size - int move_index))) s)
   }"

definition internal_move_to :: "IndexFileHeader \<Rightarrow> nat \<Rightarrow> nat \<Rightarrow> nat \<Rightarrow> BPSys \<Rightarrow> (RC \<times> BPSys) option" where
  "internal_move_to hdr b a other s = do {
     (rc, s) \<leftarrow> internal_copy_from hdr b other (at_off (frame_data s a) (internal_item_at hdr 0)) (num (frame_data s a)) s;
     if rc \<noteq> SUCCESS then Some (rc, s)
     else Some (SUCCESS, upd_data a (\<lambda>d. increase_size (- node_size d) d) s)
   }"

definition internal_move_first_to_end :: "IndexFileHeader \<Rightarrow> nat \<Rightarrow> nat \<Rightarrow> nat \<Rightarrow> BPSys \<Rightarrow> (RC \<times> BPSys) option" where
  "internal_move_first_to_end hdr b a other s = do {
     (rc, s) \<leftarrow> internal_copy_from hdr b other (at_off (frame_data s a) (internal_item_at hdr 0)) 1 s;
     if rc \<noteq> SUCCESS then Some (rc, s)
     else Some (rc, upd_data a (\<lambda>d.
       let d = (if node_size d \<ge> 1
                then blit d (internal_item_at hdr 0) (at_off d (internal_item_at hdr 1)) ((num d - 1) * internal_item_size hdr) else d) in
       increase_size (- 1) d) s)
   }"

definition internal_move_last_to_front :: "IndexFileHeader \<Rightarrow> nat \<Rightarrow> nat \<Rightarrow> nat \<Rightarrow> BPSys \<Rightarrow> (RC \<times> BPSys) option" where
  "internal_move_last_to_front hdr b a other s = do {
     (rc, s) \<leftarrow> internal_preappend hdr b other (at_off (frame_data s a) (internal_item_at hdr (num (frame_data s a) - 1))) s;
     if rc \<noteq> SUCCESS then Some (rc, s)
     else Some (rc, upd_data a (increase_size (- 1)) s)
   }"

text \<open>The prev link of the leaf \<open>p\<close>, when there is one; \<open>mark\<close> says whether the source marks the frame dirty.\<close>

definition relink_prev :: "bool \<Rightarrow> nat \<Rightarrow> PageNum \<Rightarrow> PageNum \<Rightarrow> BPSys \<Rightarrow> (RC \<times> BPSys) option" where
  "relink_prev mark b p prev s =
     (if p = - 1 then Some (SUCCESS, s)
      else do {
        (rc, frame, s) \<leftarrow> get_this_page b p s;
        if rc \<noteq> SUCCESS then Some (rc, s)
        else do {
          a \<leftarrow> frame;
          let s = upd_data a (set_prev_page prev) s;
          let s = (if mark then dirty_frame a s else s);
          (_, s) \<leftarrow> unpin_page b a s;
          Some (SUCCESS, s)
        }
      })"

definition leaf_move_to :: "IndexFileHeader \<Rightarrow> nat \<Rightarrow> nat \<Rightarrow> nat \<Rightarrow> BPSys \<Rightarrow> (RC \<times> BPSys) option" where
  "leaf_move_to hdr b a other s =
     (case leaf_move_items hdr (frame_data s a) (frame_data s other) of
        (this, other_data) \<Rightarrow>
          let s = upd_data a (\<lambda>_. this) (upd_data other (\<lambda>_. other_data) s) in
          relink_prev True b (next_page this) (frame_page s other) s)"

section \<open>Insertion\<close>

text \<open>The result of \<^verbatim>\<open>move_half_to\<close> is not looked at.\<close>

definition split_node :: "bool \<Rightarrow> BplusTreeHandler \<Rightarrow> nat \<Rightarrow> BPSys \<Rightarrow> (RC \<times> nat option \<times> BPSys) option" where
  "split_node leaf t a s = do {
     b \<leftarrow> bt_pool t;
     (rc, frame, s) \<leftarrow> allocate_page b s;
     if rc \<noteq> SUCCESS then Some (rc, None, s)
     else do {
       n \<leftarrow> frame;
       let s = upd_data n (if leaf then leaf_init_empty else internal_init_empty) s;
       let s = upd_data n (set_parent_page_num (parent_page_num (frame_data s a))) s;
       s \<leftarrow> (if leaf then
               case leaf_move_half_to (bt_header t) (frame_data s a) (frame_data s n) of
                 (this, new) \<Rightarrow> Some (upd_data a (\<lambda>_. this) (upd_data n (\<lambda>_. new) s))
             else do { (_, s) \<leftarrow> internal_move_half_to (bt_header t) b a n s; Some s });
       Some (SUCCESS, Some n, dirty_frame n (dirty_frame a s))
     }
   }"

text \<open>The branch of \<^verbatim>\<open>insert_entry_into_parent\<close> that makes a new root.\<close>

definition insert_into_new_root :: "BplusTreeHandler \<Rightarrow> nat \<Rightarrow> nat \<Rightarrow> mem \<Rightarrow> BPSys \<Rightarrow> (RC \<times> BplusTreeHandler \<times> BPSys) option" where
  "insert_into_new_root t a n key s = do {
     b \<leftarrow> bt_pool t;
     (rc, frame, s) \<leftarrow> allocate_page b s;
     if rc \<noteq> SUCCESS then Some (rc, t, s)
     else do {
       r \<leftarrow> frame;
       let s = upd_data r internal_init_empty s;
       let s = upd_data r (create_new_root (bt_header t) (frame_page s a) key (frame_page s n)) s;
       let s = upd_data a (set_parent_page_num (frame_page s r)) s;
       let s = upd_data n (set_parent_page_num (frame_page s r)) s;
       let s = dirty_frame n (dirty_frame a s);
       (_, s) \<leftarrow> unpin_page b a s;
       (_, s) \<leftarrow> unpin_page b n s;
       let t = t\<lparr>bt_header := (bt_header t)\<lparr>root_page := frame_page s r\<rparr>\<rparr>;
       (_, s) \<leftarrow> update_root_page_num t s;
       let s = dirty_frame r s;
       (_, s) \<leftarrow> unpin_page b r s;
       Some (SUCCESS, t, s)
     }
   }"

text \<open>A split parent: the half that takes the new child, and the parent recorded in the child.\<close>

definition insert_into_half :: "BplusTreeHandler \<Rightarrow> nat \<Rightarrow> nat \<Rightarrow> nat \<Rightarrow> mem \<Rightarrow> BPSys \<Rightarrow> BPSys option" where
  "insert_into_half t p q n key s = do {
     let hdr = bt_header t;
     if \<not> 0 < node_size (frame_data s q) \<or> \<not> supported (attr_type hdr) then None
     else do {
       let h = (if KeyComparator hdr key (internal_key_at hdr (frame_data s q) 0) > 0 then q else p);
       d \<leftarrow> internal_insert hdr key (frame_page s n) (frame_data s h);
       let s = upd_data h (\<lambda>_. d) s;
       Some (upd_data n (set_parent_page_num (frame_page s h)) s)
     }
   }"

partial_function (option) insert_entry_into_parent ::
    "BplusTreeHandler \<Rightarrow> nat \<Rightarrow> nat \<Rightarrow> mem \<Rightarrow> BPSys \<Rightarrow> (RC \<times> BplusTreeHandler \<times> BPSys) option" where
  "insert_entry_into_parent t a n key s =
     (let parent = parent_page_num (frame_data s a) in
      if parent = - 1 then insert_into_new_root t a n key s
      else do {
        b \<leftarrow> bt_pool t;
        (rc, frame, s) \<leftarrow> get_this_page b parent s;
        if rc \<noteq> SUCCESS then Some (rc, t, s)
        else do {
          p \<leftarrow> frame;
          if node_size (frame_data s p) < internal_max (bt_header t) then do {
            d \<leftarrow> internal_insert (bt_header t) key (frame_page s n) (frame_data s p);
            let s = upd_data p (\<lambda>_. d) s;
            let s = upd_data n (set_parent_page_num parent) s;
            let s = dirty_frame p (dirty_frame n (dirty_frame a s));
            (_, s) \<leftarrow> unpin_page b a s;
            (_, s) \<leftarrow> unpin_page b n s;
            (_, s) \<leftarrow> unpin_page b p s;
            Some (SUCCESS, t, s)
          }
          else do {
            (rc, new, s) \<leftarrow> split_node False t p s;
            if rc \<noteq> SUCCESS then do {
              (_, s) \<leftarrow> unpin_page b a s;
              (_, s) \<leftarrow> unpin_page b n s;
              (_, s) \<leftarrow> unpin_page b p s;
              Some (rc, t, s)
            }
            else do {
              q \<leftarrow> new;
              s \<leftarrow> insert_into_half t p q n key s;
              (_, s) \<leftarrow> unpin_page b a s;
              (_, s) \<leftarrow> unpin_page b n s;
              if 0 < node_size (frame_data s q)
              then insert_entry_into_parent t p q (internal_key_at (bt_header t) (frame_data s q) 0) s else None
            }
          }
        }
      })"

definition insert_entry_into_leaf_node ::
    "BplusTreeHandler \<Rightarrow> nat \<Rightarrow> mem \<Rightarrow> mem \<Rightarrow> BPSys \<Rightarrow> (RC \<times> BplusTreeHandler \<times> BPSys) option" where
  "insert_entry_into_leaf_node t a key rid s = do {
     let hdr = bt_header t;
     b \<leftarrow> bt_pool t;
     (pos, exists) \<leftarrow> leaf_lookup hdr (frame_data s a) key;
     if exists then Some (RECORD_DUPLICATE_KEY, t, s)
     else if node_size (frame_data s a) < leaf_max hdr then do {
       let s = dirty_frame a (upd_data a (leaf_insert hdr pos key rid) s);
       (_, s) \<leftarrow> unpin_page b a s;
       Some (SUCCESS, t, s)
     }
     else do {
       (rc, new, s) \<leftarrow> split_node True t a s;
       if rc \<noteq> SUCCESS then Some (rc, t, s)
       else do {
         n \<leftarrow> new;
         let s = upd_data n (set_prev_page (frame_page s a)) s;
         let s = upd_data n (set_next_page (next_page (frame_data s a))) s;
         let s = upd_data n (set_parent_page_num (parent_page_num (frame_data s a))) s;
         let s = upd_data a (set_next_page (frame_page s n)) s;
         (rc, s) \<leftarrow> relink_prev False b (next_page (frame_data s n)) (frame_page s n) s;
         if rc \<noteq> SUCCESS then Some (rc, t, s)
         else do {
           let left = num (frame_data s a);
           let s = (if pos < left then upd_data a (leaf_insert hdr pos key rid) s
                    else upd_data n (leaf_insert hdr (pos - left) key rid) s);
           if 0 < node_size (frame_data s n)
           then insert_entry_into_parent t a n (leaf_key_at hdr (frame_data s n) 0) s else None
         }
       }
     }
   }"

definition create_new_tree :: "BplusTreeHandler \<Rightarrow> mem \<Rightarrow> mem \<Rightarrow> BPSys \<Rightarrow> (RC \<times> BplusTreeHandler \<times> BPSys) option" where
  "create_new_tree t key rid s =
     (if root_page (bt_header t) \<noteq> - 1 then Some (INTERNAL, t, s)
      else do {
        b \<leftarrow> bt_pool t;
        (rc, frame, s) \<leftarrow> allocate_page b s;
        if rc \<noteq> SUCCESS then Some (rc, t, s)
        else do {
          a \<leftarrow> frame;
          let s = upd_data a leaf_init_empty s;
          let s = upd_data a (leaf_insert (bt_header t) 0 key rid) s;
          let t = t\<lparr>bt_header := (bt_header t)\<lparr>root_page := frame_page s a\<rparr>\<rparr>;
          let s = dirty_frame a s;
          (_, s) \<leftarrow> unpin_page b a s;
          (rc, s) \<leftarrow> update_root_page_num t s;
          Some (rc, t, s)
        }
      })"

definition make_key :: "BplusTreeHandler \<Rightarrow> mem \<Rightarrow> mem \<Rightarrow> mem" where
  "make_key t user_key rid =
     (let n = nat (attr_length (bt_header t)) in blit (blit (\<lambda>_. 0) 0 user_key n) n rid 8)"

definition insert_entry :: "BplusTreeHandler \<Rightarrow> mem option \<Rightarrow> mem option \<Rightarrow> BPSys \<Rightarrow> (RC \<times> BplusTreeHandler \<times> BPSys) option" where
  "insert_entry t user_key rid s = (case (user_key, rid) of
      (Some user_key, Some rid) \<Rightarrow>
        let key = make_key t user_key rid in
        if bt_is_empty t then create_new_tree t key rid s
        else do {
          b \<leftarrow> bt_pool t;
          (rc, frame, s) \<leftarrow> find_leaf key t s;
          if rc \<noteq> SUCCESS then Some (rc, t, s)
          else do {
            a \<leftarrow> frame;
            (rc, t, s) \<leftarrow> insert_entry_into_leaf_node t a key rid s;
            if rc \<noteq> SUCCESS then do {
              (_, s) \<leftarrow> unpin_page b a s;
              Some (rc, t, s)
            }
            else Some (SUCCESS, t, s)
          }
        }
    | _ \<Rightarrow> Some (INVALID_ARGUMENT, t, s))"

section \<open>Deletion\<close>

definition adjust_root :: "BplusTreeHandler \<Rightarrow> nat \<Rightarrow> BPSys \<Rightarrow> (RC \<times> BplusTreeHandler \<times> BPSys) option" where
  "adjust_root t a s = do {
     b \<leftarrow> bt_pool t;
     let d = frame_data s a;
     if is_leaf d \<and> node_size d > 0 then do {
       (_, s) \<leftarrow> unpin_page b a (dirty_frame a s);
       Some (SUCCESS, t, s)
     }
     else do {
       (rc, root, s) \<leftarrow> (if is_leaf d then Some (SUCCESS, - 1, s)
         else do {
           child \<leftarrow> internal_value_at (bt_header t) d 0;
           (rc, frame, s) \<leftarrow> get_this_page b child s;
           if rc \<noteq> SUCCESS then Some (rc, child, s)
           else do {
             c \<leftarrow> frame;
             let s = upd_data c (set_parent_page_num (- 1)) s;
             (_, s) \<leftarrow> unpin_page b c s;
             Some (SUCCESS, child, s)
           }
         });
       if rc \<noteq> SUCCESS then Some (rc, t, s)
       else do {
         let t = t\<lparr>bt_header := (bt_header t)\<lparr>root_page := root\<rparr>\<rparr>;
         (_, s) \<leftarrow> update_root_page_num t s;
         let old = frame_page s a;
         (_, s) \<leftarrow> unpin_page b a s;
         (_, s) \<leftarrow> dispose_page b old s;
         Some (SUCCESS, t, s)
       }
     }
   }"

definition node_max :: "bool \<Rightarrow> IndexFileHeader \<Rightarrow> int" where
  "node_max leaf hdr = (if leaf then leaf_max hdr else internal_max hdr)"

definition node_min :: "bool \<Rightarrow> IndexFileHeader \<Rightarrow> int" where
  "node_min leaf hdr = (if leaf then leaf_min hdr else internal_min hdr)"

text \<open>\<^verbatim>\<open>key_at\<close> with its check of the index.\<close>

definition node_key_at :: "bool \<Rightarrow> IndexFileHeader \<Rightarrow> mem \<Rightarrow> int \<Rightarrow> mem option" where
  "node_key_at leaf hdr d i =
     (if 0 \<le> i \<and> i < node_size d then Some (if leaf then leaf_key_at hdr d (nat i) else internal_key_at hdr d (nat i)) else None)"

text \<open>The results of the moves are not looked at.\<close>

definition redistribute :: "bool \<Rightarrow> BplusTreeHandler \<Rightarrow> nat \<Rightarrow> nat \<Rightarrow> nat \<Rightarrow> nat \<Rightarrow> BPSys \<Rightarrow> (RC \<times> BPSys) option" where
  "redistribute leaf t neighbor a parent index s = do {
     let hdr = bt_header t;
     b \<leftarrow> bt_pool t;
     s \<leftarrow> (if index = 0 then do {
             s \<leftarrow> (if leaf then case leaf_move_first_to_end hdr (frame_data s neighbor) (frame_data s a) of
                     (x, y) \<Rightarrow> Some (upd_data neighbor (\<lambda>_. x) (upd_data a (\<lambda>_. y) s))
                   else do { (_, s) \<leftarrow> internal_move_first_to_end hdr b neighbor a s; Some s });
             key \<leftarrow> node_key_at leaf hdr (frame_data s neighbor) 0;
             d \<leftarrow> internal_set_key_at hdr (index + 1) key (frame_data s parent);
             Some (upd_data parent (\<lambda>_. d) s)
           }
           else do {
             s \<leftarrow> (if leaf then case leaf_move_last_to_front hdr (frame_data s neighbor) (frame_data s a) of
                     (x, y) \<Rightarrow> Some (upd_data neighbor (\<lambda>_. x) (upd_data a (\<lambda>_. y) s))
                   else do { (_, s) \<leftarrow> internal_move_last_to_front hdr b neighbor a s; Some s });
             key \<leftarrow> node_key_at leaf hdr (frame_data s a) 0;
             d \<leftarrow> internal_set_key_at hdr index key (frame_data s parent);
             Some (upd_data parent (\<lambda>_. d) s)
           });
     let s = dirty_frame parent (dirty_frame a (dirty_frame neighbor s));
     (_, s) \<leftarrow> unpin_page b parent s;
     (_, s) \<leftarrow> unpin_page b neighbor s;
     (_, s) \<leftarrow> unpin_page b a s;
     Some (SUCCESS, s)
   }"

text \<open>
  \<^verbatim>\<open>coalesce\<close> up to its last call, which goes on with the parent: the return code is \<^verbatim>\<open>SUCCESS\<close> when that call is made.
\<close>

definition coalesce :: "bool \<Rightarrow> BplusTreeHandler \<Rightarrow> nat \<Rightarrow> nat \<Rightarrow> nat \<Rightarrow> nat \<Rightarrow> BPSys \<Rightarrow> (RC \<times> BPSys) option" where
  "coalesce leaf t neighbor a parent index s = do {
     let hdr = bt_header t;
     b \<leftarrow> bt_pool t;
     let left = (if index = 0 then a else neighbor);
     let right = (if index = 0 then neighbor else a);
     let index = (if index = 0 then index + 1 else index);
     d \<leftarrow> internal_remove hdr index (frame_data s parent);
     let s = upd_data parent (\<lambda>_. d) s;
     (rc, s) \<leftarrow> (if leaf then leaf_move_to hdr b right left s else internal_move_to hdr b right left s);
     if rc \<noteq> SUCCESS then Some (rc, s)
     else do {
       (rc, s) \<leftarrow> (if is_leaf (frame_data s left) then
             let s = upd_data left (set_next_page (next_page (frame_data s right))) s in
             relink_prev False b (next_page (frame_data s right)) (frame_page s left) s
           else Some (SUCCESS, s));
       if rc \<noteq> SUCCESS then do {
         (_, s) \<leftarrow> unpin_page b a s;
         (_, s) \<leftarrow> unpin_page b neighbor s;
         (_, s) \<leftarrow> unpin_page b parent s;
         Some (rc, s)
       }
       else do {
         let right_page = frame_page s right;
         (_, s) \<leftarrow> unpin_page b left s;
         (_, s) \<leftarrow> unpin_page b right s;
         (_, s) \<leftarrow> dispose_page b right_page s;
         Some (SUCCESS, s)
       }
     }
   }"

partial_function (option) coalesce_or_redistribute ::
    "bool \<Rightarrow> BplusTreeHandler \<Rightarrow> nat \<Rightarrow> BPSys \<Rightarrow> (RC \<times> BplusTreeHandler \<times> BPSys) option" where
  "coalesce_or_redistribute leaf t a s = do {
     let hdr = bt_header t;
     b \<leftarrow> bt_pool t;
     if node_size (frame_data s a) \<ge> node_min leaf hdr then do {
       (_, s) \<leftarrow> unpin_page b a s;
       Some (SUCCESS, t, s)
     }
     else if parent_page_num (frame_data s a) = - 1 then
       (if node_size (frame_data s a) > 1 then do {
          (_, s) \<leftarrow> unpin_page b a s;
          Some (SUCCESS, t, s)
        }
        else do {
          (_, t, s) \<leftarrow> adjust_root t a s;
          Some (SUCCESS, t, s)
        })
     else do {
       (rc, frame, s) \<leftarrow> get_this_page b (parent_page_num (frame_data s a)) s;
       if rc \<noteq> SUCCESS then do {
         (_, s) \<leftarrow> unpin_page b a s;
         Some (rc, t, s)
       }
       else do {
         parent \<leftarrow> frame;
         key \<leftarrow> node_key_at leaf hdr (frame_data s a) (node_size (frame_data s a) - 1);
         (index, _) \<leftarrow> internal_lookup hdr (frame_data s parent) key;
         _ \<leftarrow> internal_value_at hdr (frame_data s parent) index;
         np \<leftarrow> internal_value_at hdr (frame_data s parent) (if index = 0 then 1 else index - 1);
         (rc, frame, s) \<leftarrow> get_this_page b np s;
         if rc \<noteq> SUCCESS then do {
           (_, s) \<leftarrow> unpin_page b a s;
           (_, s) \<leftarrow> unpin_page b parent s;
           Some (rc, t, s)
         }
         else do {
           neighbor \<leftarrow> frame;
           if node_size (frame_data s a) + node_size (frame_data s neighbor) > node_max leaf hdr then do {
             (rc, s) \<leftarrow> redistribute leaf t neighbor a parent index s;
             Some (rc, t, s)
           }
           else do {
             (rc, s) \<leftarrow> coalesce leaf t neighbor a parent index s;
             if rc \<noteq> SUCCESS then Some (rc, t, s)
             else coalesce_or_redistribute False t parent s
           }
         }
       }
     }
   }"

definition delete_entry_internal :: "BplusTreeHandler \<Rightarrow> nat \<Rightarrow> mem \<Rightarrow> BPSys \<Rightarrow> (RC \<times> BplusTreeHandler \<times> BPSys) option" where
  "delete_entry_internal t a key s = do {
     let hdr = bt_header t;
     b \<leftarrow> bt_pool t;
     (n, d) \<leftarrow> leaf_remove hdr key (frame_data s a);
     let s = upd_data a (\<lambda>_. d) s;
     if n = 0 then do {
       (_, s) \<leftarrow> unpin_page b a s;
       Some (RECORD_RECORD_NOT_EXIST, t, s)
     }
     else do {
       let s = dirty_frame a s;
       if node_size (frame_data s a) \<ge> leaf_min hdr then do {
         (_, s) \<leftarrow> unpin_page b a s;
         Some (SUCCESS, t, s)
       }
       else coalesce_or_redistribute True t a s
     }
   }"

definition delete_entry :: "BplusTreeHandler \<Rightarrow> mem \<Rightarrow> mem \<Rightarrow> BPSys \<Rightarrow> (RC \<times> BplusTreeHandler \<times> BPSys) option" where
  "delete_entry t user_key rid s = do {
     let key = make_key t user_key rid;
     (rc, frame, s) \<leftarrow> find_leaf key t s;
     if rc \<noteq> SUCCESS then Some (rc, t, s)
     else do {
       a \<leftarrow> frame;
       delete_entry_internal t a key s
     }
   }"

end
