(* ===== verification/Ob_BplusScanner.thy ===== *)
theory Ob_BplusScanner
  imports Ob_BplusTree
begin

text \<open>
  Reading a B+ tree: the range scanner \<^verbatim>\<open>BplusTreeScanner\<close>, \<^verbatim>\<open>get_entry\<close>, and the traversals that print and validate a
  tree (\<open>src/src/observer/storage/index/bplus_tree.cpp\<close>).  What is printed is not modelled, only the pages
  visited and the aborts.  A user key is the memory behind a pointer, \<open>None\<close> the null pointer.
\<close>

section \<open>Scanner\<close>

record BplusTreeScanner =
  sc_inited :: bool
  sc_left :: "nat option"
  sc_right :: "nat option"
  sc_iter :: int
  sc_end :: int

definition sc_new :: BplusTreeScanner where
  "sc_new = \<lparr>sc_inited = False, sc_left = None, sc_right = None, sc_iter = - 1, sc_end = - 1\<rparr>"

definition rid_min :: mem where "rid_min = store_int (store_int (\<lambda>_. 0) 0 0) 4 0"
definition rid_max :: mem where "rid_max = store_int (store_int (\<lambda>_. 0) 0 (2 ^ 31 - 1)) 4 (2 ^ 31 - 1)"

text \<open>The key cut or padded to the length of the attribute, and whether the bound has become inclusive.\<close>

definition fix_user_key :: "BplusTreeHandler \<Rightarrow> mem \<Rightarrow> int \<Rightarrow> bool \<Rightarrow> (mem \<times> bool) option" where
  "fix_user_key t user_key key_len want_greater =
     (let len = attr_length (bt_header t) in
      if attr_type (bt_header t) \<noteq> CHARS \<or> (\<exists>i\<in>set [0..<nat key_len]. user_key i = 0) then None
      else if key_len \<le> len then
        Some (blit (blit (\<lambda>_. 0) 0 user_key (nat key_len)) (nat key_len) (\<lambda>_. 0) (nat (len - key_len)), False)
      else
        let key_buf = blit (\<lambda>_. 0) 0 user_key (nat len) in
        if user_key (nat len) = 0 then Some (key_buf, False)
        else Some (if want_greater then key_buf(nat (len - 1) := key_buf (nat (len - 1)) + 1) else key_buf, True))"

text \<open>The key of one bound: the smallest or the largest record identifier completes the attribute.\<close>

definition bound_key :: "BplusTreeHandler \<Rightarrow> mem \<Rightarrow> int \<Rightarrow> bool \<Rightarrow> bool \<Rightarrow> mem option" where
  "bound_key t user_key key_len inclusive left = do {
     (fixed, inclusive) \<leftarrow> (if attr_type (bt_header t) = CHARS then do {
         (fixed, should) \<leftarrow> fix_user_key t user_key key_len left;
         Some (fixed, inclusive \<or> should)
       } else Some (user_key, inclusive));
     Some (make_key t fixed (if inclusive = left then rid_min else rid_max))
   }"

text \<open>
  The two halves of \<^verbatim>\<open>open\<close>.  The flag says that the source goes on; otherwise it returns the code.
\<close>

definition open_left :: "BplusTreeHandler \<Rightarrow> mem option \<Rightarrow> int \<Rightarrow> bool \<Rightarrow> BplusTreeScanner \<Rightarrow> BPSys \<Rightarrow>
    (RC \<times> bool \<times> BplusTreeScanner \<times> BPSys) option" where
  "open_left t user_key len inclusive c s = (case user_key of
      None \<Rightarrow> do {
        (rc, frame, s) \<leftarrow> left_most_page t s;
        if rc \<noteq> SUCCESS then Some (rc, False, c, s)
        else Some (SUCCESS, True, c\<lparr>sc_left := frame, sc_iter := 0\<rparr>, s)
      }
    | Some user_key \<Rightarrow> do {
        key \<leftarrow> bound_key t user_key len inclusive True;
        (rc, frame, s) \<leftarrow> find_leaf key t s;
        if rc \<noteq> SUCCESS then Some (rc, False, c, s)
        else do {
          b \<leftarrow> bt_pool t;
          a \<leftarrow> frame;
          let c = c\<lparr>sc_left := Some a\<rparr>;
          (left_index, _) \<leftarrow> leaf_lookup (bt_header t) (frame_data s a) key;
          if int left_index \<ge> node_size (frame_data s a) then
            let next = next_page (frame_data s a) in
            if next = - 1 then Some (SUCCESS, False, c, s)
            else do {
              (_, s) \<leftarrow> unpin_page b a s;
              (rc, frame, s) \<leftarrow> get_this_page b next s;
              if rc \<noteq> SUCCESS then Some (rc, False, c, s)
              else Some (SUCCESS, True, c\<lparr>sc_left := frame, sc_iter := 0\<rparr>, s)
            }
          else Some (SUCCESS, True, c\<lparr>sc_iter := int left_index\<rparr>, s)
        }
      })"

definition open_right :: "BplusTreeHandler \<Rightarrow> mem option \<Rightarrow> int \<Rightarrow> bool \<Rightarrow> BplusTreeScanner \<Rightarrow> BPSys \<Rightarrow>
    (RC \<times> bool \<times> BplusTreeScanner \<times> BPSys) option" where
  "open_right t user_key len inclusive c s = (case user_key of
      None \<Rightarrow> do {
        (rc, frame, s) \<leftarrow> right_most_page t s;
        if rc \<noteq> SUCCESS then Some (rc, False, c, s)
        else do {
          a \<leftarrow> frame;
          Some (SUCCESS, True, c\<lparr>sc_right := Some a, sc_end := node_size (frame_data s a) - 1\<rparr>, s)
        }
      }
    | Some user_key \<Rightarrow> do {
        key \<leftarrow> bound_key t user_key len inclusive False;
        (rc, frame, s) \<leftarrow> find_leaf key t s;
        if rc \<noteq> SUCCESS then Some (rc, False, c, s)
        else do {
          b \<leftarrow> bt_pool t;
          a \<leftarrow> frame;
          let c = c\<lparr>sc_right := Some a\<rparr>;
          (right_index, _) \<leftarrow> leaf_lookup (bt_header t) (frame_data s a) key;
          if right_index > 0 then Some (SUCCESS, True, c\<lparr>sc_end := int right_index - 1\<rparr>, s)
          else
            let prev = prev_page (frame_data s a) in
            if prev = - 1 then Some (SUCCESS, False, c\<lparr>sc_end := - 1\<rparr>, s)
            else do {
              (_, s) \<leftarrow> unpin_page b a s;
              (rc, frame, s) \<leftarrow> get_this_page b prev s;
              if rc \<noteq> SUCCESS then Some (rc, False, c, s)
              else do {
                a \<leftarrow> frame;
                Some (SUCCESS, True, c\<lparr>sc_right := Some a, sc_end := node_size (frame_data s a) - 1\<rparr>, s)
              }
            }
        }
      })"

text \<open>The test for a left end behind the right end.\<close>

definition check_ends :: "BplusTreeScanner \<Rightarrow> BPSys \<Rightarrow> BplusTreeScanner option" where
  "check_ends c s = do {
     l \<leftarrow> sc_left c;
     r \<leftarrow> sc_right c;
     Some (if frame_page s l = frame_page s r \<and> sc_iter c > sc_end c then c\<lparr>sc_end := - 1\<rparr>
           else if prev_page (frame_data s l) = frame_page s r then c\<lparr>sc_end := - 1\<rparr> else c)
   }"

definition bad_range :: "BplusTreeHandler \<Rightarrow> mem \<Rightarrow> bool \<Rightarrow> mem \<Rightarrow> bool \<Rightarrow> bool" where
  "bad_range t left left_inclusive right right_inclusive =
     (let result = AttrComparator (bt_header t) left right in
      result > 0 \<or> result = 0 \<and> (\<not> left_inclusive \<or> \<not> right_inclusive))"

definition sc_open :: "BplusTreeHandler \<Rightarrow> mem option \<Rightarrow> int \<Rightarrow> bool \<Rightarrow> mem option \<Rightarrow> int \<Rightarrow> bool \<Rightarrow>
    BplusTreeScanner \<Rightarrow> BPSys \<Rightarrow> (RC \<times> BplusTreeScanner \<times> BPSys) option" where
  "sc_open t left left_len left_inclusive right right_len right_inclusive c s =
     (if sc_inited c then Some (INTERNAL, c, s)
      else do {
        let c = c\<lparr>sc_inited := True\<rparr>;
        invalid \<leftarrow> (case (left, right) of
            (Some l, Some r) \<Rightarrow> if supported (attr_type (bt_header t)) then Some (bad_range t l left_inclusive r right_inclusive) else None
          | _ \<Rightarrow> Some False);
        if invalid then Some (INVALID_ARGUMENT, c, s)
        else do {
          (rc, go_on, c, s) \<leftarrow> open_left t left left_len left_inclusive c s;
          if \<not> go_on then Some (rc, c, s)
          else do {
            (rc, go_on, c, s) \<leftarrow> open_right t right right_len right_inclusive c s;
            if \<not> go_on then Some (rc, c, s)
            else do { c \<leftarrow> check_ends c s; Some (SUCCESS, c, s) }
          }
        }
      })"

text \<open>The record identifier is the eight bytes of the value of the item.\<close>

definition next_entry :: "BplusTreeHandler \<Rightarrow> BplusTreeScanner \<Rightarrow> BPSys \<Rightarrow> (RC \<times> byte list option \<times> BplusTreeScanner \<times> BPSys) option" where
  "next_entry t c s =
     (if sc_end c = - 1 then Some (RECORD_EOF, None, c, s)
      else do {
        b \<leftarrow> bt_pool t;
        l \<leftarrow> sc_left c;
        r \<leftarrow> sc_right c;
        let d = frame_data s l;
        if \<not> (0 \<le> sc_iter c \<and> sc_iter c < node_size d) then None
        else
          let rid = bytes_at (leaf_value_at (bt_header t) d (nat (sc_iter c))) 0 8 in
          if frame_page s l = frame_page s r \<and> sc_iter c = sc_end c then Some (SUCCESS, Some rid, c\<lparr>sc_end := - 1\<rparr>, s)
          else if sc_iter c < node_size d - 1 then Some (SUCCESS, Some rid, c\<lparr>sc_iter := sc_iter c + 1\<rparr>, s)
          else if frame_page s l \<noteq> frame_page s r then do {
            let p = next_page d;
            (_, s) \<leftarrow> unpin_page b l s;
            if p = - 1 then Some (INTERNAL, Some rid, c\<lparr>sc_left := None\<rparr>, s)
            else do {
              (rc, frame, s) \<leftarrow> get_this_page b p s;
              if rc \<noteq> SUCCESS then Some (rc, Some rid, c\<lparr>sc_left := None\<rparr>, s)
              else Some (SUCCESS, Some rid, c\<lparr>sc_left := frame, sc_iter := 0\<rparr>, s)
            }
          }
          else Some (INTERNAL, Some rid, c, s)
      })"

definition sc_close :: "BplusTreeHandler \<Rightarrow> BplusTreeScanner \<Rightarrow> BPSys \<Rightarrow> (RC \<times> BplusTreeScanner \<times> BPSys) option" where
  "sc_close t c s = do {
     s \<leftarrow> (case sc_left c of None \<Rightarrow> Some s | Some a \<Rightarrow> do { b \<leftarrow> bt_pool t; (_, s) \<leftarrow> unpin_page b a s; Some s });
     s \<leftarrow> (case sc_right c of None \<Rightarrow> Some s | Some a \<Rightarrow> do { b \<leftarrow> bt_pool t; (_, s) \<leftarrow> unpin_page b a s; Some s });
     Some (SUCCESS, c\<lparr>sc_left := None, sc_right := None, sc_end := - 1, sc_inited := False\<rparr>, s)
   }"

partial_function (option) get_entry_loop ::
    "BplusTreeHandler \<Rightarrow> byte list list \<Rightarrow> BplusTreeScanner \<Rightarrow> BPSys \<Rightarrow> (RC \<times> byte list list \<times> BplusTreeScanner \<times> BPSys) option" where
  "get_entry_loop t rids c s = do {
     (rc, rid, c, s) \<leftarrow> next_entry t c s;
     if rc = SUCCESS then do { r \<leftarrow> rid; get_entry_loop t (rids @ [r]) c s }
     else Some (rc, rids, c, s)
   }"

text \<open>The destructor of the local scanner closes it on every path.\<close>

definition get_entry :: "BplusTreeHandler \<Rightarrow> mem \<Rightarrow> int \<Rightarrow> BPSys \<Rightarrow> (RC \<times> byte list list \<times> BPSys) option" where
  "get_entry t user_key key_len s = do {
     (rc, c, s) \<leftarrow> sc_open t (Some user_key) key_len True (Some user_key) key_len True sc_new s;
     if rc \<noteq> SUCCESS then do {
       (_, _, s) \<leftarrow> sc_close t c s;
       Some (rc, [], s)
     }
     else do {
       (rc, rids, c, s) \<leftarrow> get_entry_loop t [] c s;
       (_, _, s) \<leftarrow> sc_close t c s;
       Some (if rc \<noteq> RECORD_EOF then rc else SUCCESS, rids, s)
     }
   }"

section \<open>Printing\<close>

text \<open>\<^verbatim>\<open>AttrPrinter\<close> aborts on the types it does not print.\<close>

definition printable :: "AttrType \<Rightarrow> bool" where
  "printable ty \<longleftrightarrow> ty \<in> {INTS, FLOATS, CHARS}"

definition print_leaf :: "BplusTreeHandler \<Rightarrow> nat \<Rightarrow> BPSys \<Rightarrow> (RC \<times> BPSys) option" where
  "print_leaf t a s =
     (if \<not> printable (attr_type (bt_header t)) then None
      else do { b \<leftarrow> bt_pool t; (_, s) \<leftarrow> unpin_page b a s; Some (SUCCESS, s) })"

text \<open>The traversal: the frames still to be visited are the children from index \<open>i\<close> on.\<close>

partial_function (option) print_internal_node_from :: "BplusTreeHandler \<Rightarrow> nat \<Rightarrow> nat \<Rightarrow> BPSys \<Rightarrow> (RC \<times> BPSys) option" where
  "print_internal_node_from t a i s =
     (if \<not> printable (attr_type (bt_header t)) then None
      else do {
        b \<leftarrow> bt_pool t;
        if \<not> int i < node_size (frame_data s a) then do { (_, s) \<leftarrow> unpin_page b a s; Some (SUCCESS, s) }
        else do {
          p \<leftarrow> internal_value_at (bt_header t) (frame_data s a) i;
          (rc, frame, s) \<leftarrow> get_this_page b p s;
          if rc \<noteq> SUCCESS then do { (_, s) \<leftarrow> unpin_page b a s; Some (rc, s) }
          else do {
            c \<leftarrow> frame;
            (rc, s) \<leftarrow> (if is_leaf (frame_data s c) then print_leaf t c s else print_internal_node_from t c 0 s);
            if rc \<noteq> SUCCESS then do { (_, s) \<leftarrow> unpin_page b a s; Some (rc, s) }
            else print_internal_node_from t a (Suc i) s
          }
        }
      })"

definition print_tree :: "BplusTreeHandler \<Rightarrow> BPSys \<Rightarrow> (RC \<times> BPSys) option" where
  "print_tree t s = (case bt_pool t of
      None \<Rightarrow> Some (SUCCESS, s)
    | Some b \<Rightarrow>
        if bt_is_empty t then Some (SUCCESS, s)
        else do {
          (rc, frame, s) \<leftarrow> get_this_page b (root_page (bt_header t)) s;
          if rc \<noteq> SUCCESS then Some (rc, s)
          else do {
            a \<leftarrow> frame;
            if is_leaf (frame_data s a) then print_leaf t a s else print_internal_node_from t a 0 s
          }
        })"

partial_function (option) print_leafs_from :: "BplusTreeHandler \<Rightarrow> nat \<Rightarrow> nat \<Rightarrow> BPSys \<Rightarrow> (RC \<times> BPSys) option" where
  "print_leafs_from t b a s =
     (if frame_page s a = - 1 then Some (SUCCESS, s)
      else if \<not> printable (attr_type (bt_header t)) then None
      else do {
        let p = next_page (frame_data s a);
        (_, s) \<leftarrow> unpin_page b a s;
        if p = - 1 then Some (SUCCESS, s)
        else do {
          (rc, frame, s) \<leftarrow> get_this_page b p s;
          if rc \<noteq> SUCCESS then Some (rc, s) else do { a \<leftarrow> frame; print_leafs_from t b a s }
        }
      })"

definition print_leafs :: "BplusTreeHandler \<Rightarrow> BPSys \<Rightarrow> (RC \<times> BPSys) option" where
  "print_leafs t s =
     (if bt_is_empty t then Some (SUCCESS, s)
      else do {
        b \<leftarrow> bt_pool t;
        (rc, frame, s) \<leftarrow> left_most_page t s;
        if rc \<noteq> SUCCESS then Some (rc, s) else do { a \<leftarrow> frame; print_leafs_from t b a s }
      })"

section \<open>Validation\<close>

text \<open>The keys from index \<open>i\<close> on ascend; the comparison is only made when there are two of them.\<close>

definition keys_ascend :: "IndexFileHeader \<Rightarrow> (nat \<Rightarrow> mem) \<Rightarrow> nat \<Rightarrow> nat \<Rightarrow> bool option" where
  "keys_ascend hdr key i n =
     (if n \<le> i then Some True
      else if \<not> supported (attr_type hdr) then None
      else Some (list_all (\<lambda>j. KeyComparator hdr (key (j - 1)) (key j) < 0) [i..<n]))"

text \<open>The end of both \<^verbatim>\<open>validate\<close> functions: the node against its parent; \<open>lo\<close> and \<open>hi\<close> are the keys compared.\<close>

definition validate_in_parent :: "BplusTreeHandler \<Rightarrow> nat \<Rightarrow> mem \<Rightarrow> mem \<Rightarrow> BPSys \<Rightarrow> (bool \<times> BPSys) option" where
  "validate_in_parent t a lo hi s = do {
     let hdr = bt_header t;
     b \<leftarrow> bt_pool t;
     (rc, frame, s) \<leftarrow> get_this_page b (parent_page_num (frame_data s a)) s;
     if rc \<noteq> SUCCESS then Some (False, s)
     else do {
       p \<leftarrow> frame;
       let d = frame_data s p;
       let index = internal_value_index hdr d (frame_page s a);
       result \<leftarrow> (if index < 0 then Some False
         else if \<not> supported (attr_type hdr) \<and> (index \<noteq> 0 \<or> index < node_size d - 1) then None
         else if index \<noteq> 0 \<and> KeyComparator hdr lo (internal_key_at hdr d (nat index)) < 0 then Some False
         else if index < node_size d - 1 \<and> KeyComparator hdr hi (internal_key_at hdr d (nat index + 1)) \<ge> 0 then Some False
         else Some True);
       (_, s) \<leftarrow> unpin_page b p s;
       Some (result, s)
     }
   }"

definition leaf_validate :: "BplusTreeHandler \<Rightarrow> nat \<Rightarrow> BPSys \<Rightarrow> (bool \<times> BPSys) option" where
  "leaf_validate t a s = do {
     let hdr = bt_header t;
     let d = frame_data s a;
     if \<not> node_validate d then Some (False, s)
     else do {
       ok \<leftarrow> keys_ascend hdr (leaf_key_at hdr d) 1 (num d);
       if \<not> ok then Some (False, s)
       else if parent_page_num d = - 1 then Some (True, s)
       else validate_in_parent t a (leaf_key_at hdr d 0) (leaf_key_at hdr d (num d - 1)) s
     }
   }"

text \<open>A child that cannot be fetched is only logged.\<close>

fun validate_children :: "nat \<Rightarrow> PageNum \<Rightarrow> PageNum list \<Rightarrow> BPSys \<Rightarrow> (bool \<times> BPSys) option" where
  "validate_children b this [] s = Some (True, s)"
| "validate_children b this (p # ps) s =
     (if p < 0 then validate_children b this ps s
      else do {
        (rc, frame, s) \<leftarrow> get_this_page b p s;
        if rc \<noteq> SUCCESS then validate_children b this ps s
        else do {
          c \<leftarrow> frame;
          let ok = (parent_page_num (frame_data s c) = this);
          (_, s) \<leftarrow> unpin_page b c s;
          if \<not> ok then Some (False, s) else validate_children b this ps s
        }
      })"

definition internal_validate :: "BplusTreeHandler \<Rightarrow> nat \<Rightarrow> BPSys \<Rightarrow> (bool \<times> BPSys) option" where
  "internal_validate t a s = do {
     let hdr = bt_header t;
     let d = frame_data s a;
     b \<leftarrow> bt_pool t;
     if \<not> node_validate d then Some (False, s)
     else do {
       ok \<leftarrow> keys_ascend hdr (internal_key_at hdr d) 2 (num d);
       if \<not> ok then Some (False, s)
       else do {
         (ok, s) \<leftarrow> validate_children b (frame_page s a) (map (internal_child hdr d) [0..<num d]) s;
         if \<not> ok then Some (False, s)
         else if parent_page_num (frame_data s a) = - 1 then Some (True, s)
         else validate_in_parent t a (internal_key_at hdr (frame_data s a) 1)
                (internal_key_at hdr (frame_data s a) (num (frame_data s a) - 1)) s
       }
     }
   }"

text \<open>
  \<^verbatim>\<open>validate_node_recursive\<close>: with \<open>i = None\<close> the node itself is checked first, with \<open>Some i\<close> its children from
  index \<open>i\<close> on are next.
\<close>

partial_function (option) validate_node_from :: "BplusTreeHandler \<Rightarrow> nat \<Rightarrow> nat option \<Rightarrow> BPSys \<Rightarrow> (bool \<times> BPSys) option" where
  "validate_node_from t a i s = do {
     b \<leftarrow> bt_pool t;
     (case i of
        None \<Rightarrow> do {
          (ok, s) \<leftarrow> (if is_leaf (frame_data s a) then leaf_validate t a s else internal_validate t a s);
          if is_leaf (frame_data s a) \<or> \<not> ok then do { (_, s) \<leftarrow> unpin_page b a s; Some (ok, s) }
          else validate_node_from t a (Some 0) s
        }
      | Some i \<Rightarrow>
          if \<not> int i < node_size (frame_data s a) then do { (_, s) \<leftarrow> unpin_page b a s; Some (True, s) }
          else do {
            p \<leftarrow> internal_value_at (bt_header t) (frame_data s a) i;
            (rc, frame, s) \<leftarrow> get_this_page b p s;
            if rc \<noteq> SUCCESS then do { (_, s) \<leftarrow> unpin_page b a s; Some (False, s) }
            else do {
              c \<leftarrow> frame;
              (ok, s) \<leftarrow> validate_node_from t c None s;
              if \<not> ok then do { (_, s) \<leftarrow> unpin_page b a s; Some (False, s) }
              else validate_node_from t a (Some (Suc i)) s
            }
          })
   }"

partial_function (option) validate_link_from :: "BplusTreeHandler \<Rightarrow> nat \<Rightarrow> PageNum \<Rightarrow> mem \<Rightarrow> PageNum \<Rightarrow> BPSys \<Rightarrow> (bool \<times> BPSys) option" where
  "validate_link_from t b prev prev_key next s =
     (if next = - 1 then Some (True, s)
      else do {
        (rc, frame, s) \<leftarrow> get_this_page b next s;
        if rc \<noteq> SUCCESS then Some (False, s)
        else do {
          a \<leftarrow> frame;
          let hdr = bt_header t;
          let d = frame_data s a;
          if \<not> 0 < node_size d \<or> \<not> supported (attr_type hdr) then None
          else do {
            let ok = (prev_page d = prev \<and> KeyComparator hdr prev_key (leaf_key_at hdr d 0) < 0);
            let this = frame_page s a;
            (_, s) \<leftarrow> unpin_page b a s;
            if \<not> ok then Some (False, s)
            else validate_link_from t b this (leaf_key_at hdr d (num d - 1)) (next_page d) s
          }
        }
      })"

text \<open>The frame of the first leaf stays pinned when its prev link is wrong.\<close>

definition validate_leaf_link :: "BplusTreeHandler \<Rightarrow> BPSys \<Rightarrow> (bool \<times> BPSys) option" where
  "validate_leaf_link t s =
     (if bt_is_empty t then Some (True, s)
      else do {
        b \<leftarrow> bt_pool t;
        (rc, frame, s) \<leftarrow> left_most_page t s;
        if rc \<noteq> SUCCESS then Some (False, s)
        else do {
          a \<leftarrow> frame;
          let d = frame_data s a;
          if prev_page d \<noteq> - 1 then Some (False, s)
          else if \<not> 0 < node_size d then None
          else do {
            let this = frame_page s a;
            (_, s) \<leftarrow> unpin_page b a s;
            validate_link_from t b this (leaf_key_at (bt_header t) d (num d - 1)) (next_page d) s
          }
        }
      })"

text \<open>
  When the root page cannot be fetched the return code is returned as the truth value.
\<close>

definition validate_tree :: "BplusTreeHandler \<Rightarrow> BPSys \<Rightarrow> (bool \<times> BPSys) option" where
  "validate_tree t s =
     (if bt_is_empty t then Some (True, s)
      else do {
        b \<leftarrow> bt_pool t;
        (rc, frame, s) \<leftarrow> get_this_page b (root_page (bt_header t)) s;
        if rc \<noteq> SUCCESS then Some (rc_code rc \<noteq> 0, s)
        else do {
          a \<leftarrow> frame;
          (ok, s) \<leftarrow> validate_node_from t a None s;
          (ok, s) \<leftarrow> (if ok then validate_leaf_link t s else Some (False, s));
          if \<not> ok then do { (_, s) \<leftarrow> print_tree t s; Some (False, s) }
          else Some (True, s)
        }
      })"

end
