(* ===== verification/Ob_ItemArray.thy ===== *)
theory Ob_ItemArray
  imports Ob_Bytes
begin

text \<open>
  Arrays of items of one size inside a page, as the B+ tree nodes keep them: the list of items in memory, and what
  the \<^verbatim>\<open>memmove\<close> and \<^verbatim>\<open>memcpy\<close> calls that insert, remove, append and copy items do to that list.
\<close>

definition items :: "nat \<Rightarrow> nat \<Rightarrow> nat \<Rightarrow> mem \<Rightarrow> byte list list" where
  "items b z n d = map (\<lambda>i. bytes_at d (b + i * z) z) [0..<n]"

lemma length_items [simp]: "length (items b z n d) = n"
  by (simp add: items_def)

lemma nth_items: "i < n \<Longrightarrow> items b z n d ! i = bytes_at d (b + i * z) z"
  by (simp add: items_def)

lemma length_bytes_at [simp]: "length (bytes_at d off n) = n"
  by (simp add: bytes_at_def)

lemma nth_bytes_at: "i < n \<Longrightarrow> bytes_at d off n ! i = d (off + i)"
  by (simp add: bytes_at_def)

lemma bytes_at_eqI: "(\<And>i. i < n \<Longrightarrow> d (off + i) = d' (off' + i)) \<Longrightarrow> bytes_at d off n = bytes_at d' off' n"
  by (rule nth_equalityI) (simp_all add: nth_bytes_at)

lemma bytes_at_at_off: "bytes_at (at_off d off) o' n = bytes_at d (off + o') n"
  by (rule bytes_at_eqI) (simp add: at_off_def add.assoc)

lemma bytes_at_split: "bytes_at d off (n + m) = bytes_at d off n @ bytes_at d (off + n) m"
  by (rule nth_equalityI) (auto simp: nth_bytes_at nth_append)

lemma item_end: "i < n \<Longrightarrow> j < z \<Longrightarrow> b + i * z + j < b + n * z" for z :: nat
proof -
  assume "i < n" "j < z"
  then have "i * z + j < Suc i * z" by simp
  moreover have "Suc i * z \<le> n * z" using \<open>i < n\<close> by (intro mult_le_mono1) simp
  ultimately show ?thesis by linarith
qed

text \<open>Changes outside the array, and at the single bytes in front of it, do not matter.\<close>

lemma items_cong: "(\<And>i. b \<le> i \<Longrightarrow> i < b + n * z \<Longrightarrow> d i = d' i) \<Longrightarrow> items b z n d = items b z n d'"
  unfolding items_def by (rule map_cong) (auto intro!: bytes_at_eqI simp: item_end)

lemma items_store_front [simp]: "off + 4 \<le> b \<Longrightarrow> items b z n (store_int d off v) = items b z n d"
  by (rule items_cong) (simp add: store_int_other)

lemma items_upd_front [simp]: "off < b \<Longrightarrow> items b z n (d(off := v)) = items b z n d"
  by (rule items_cong) simp

text \<open>A copy of \<open>k\<close> whole items from another array.\<close>

lemma items_blit:
  assumes "m + k \<le> n"
  shows "items b z n (blit d (b + m * z) (at_off d' (b' + i * z)) (k * z)) =
    take m (items b z n d) @ drop i (items b' z (i + k) d') @ drop (m + k) (items b z n d)" (is "?l = ?r")
proof (rule nth_equalityI)
  show "length ?l = length ?r" using assms by simp
next
  fix j assume "j < length ?l"
  then have j: "j < n" by simp
  consider "j < m" | "m \<le> j" "j < m + k" | "m + k \<le> j" by linarith
  then show "?l ! j = ?r ! j"
  proof cases
    case 1
    then have "bytes_at (blit d (b + m * z) (at_off d' (b' + i * z)) (k * z)) (b + j * z) z = bytes_at d (b + j * z) z"
      by (intro bytes_at_eqI blit_out disjI1 item_end)
    then show ?thesis using 1 j assms by (simp add: nth_items nth_append)
  next
    case 2
    then obtain x where x: "j = m + x" "x < k" by (metis add.commute less_diff_conv2 le_add_diff_inverse)
    have "bytes_at (blit d (b + m * z) (at_off d' (b' + i * z)) (k * z)) (b + j * z) z = bytes_at d' (b' + (i + x) * z) z"
    proof (rule bytes_at_eqI)
      fix y assume "y < z"
      then have "x * z + y < k * z" using item_end [OF x(2), of y z 0] by simp
      then show "blit d (b + m * z) (at_off d' (b' + i * z)) (k * z) (b + j * z + y) = d' (b' + (i + x) * z + y)"
        by (simp add: blit_def at_off_def x(1) algebra_simps)
    qed
    then show ?thesis using 2 j x assms by (simp add: nth_items nth_append)
  next
    case 3
    have "(m + k) * z \<le> j * z" using 3 by (rule mult_le_mono1)
    then have "bytes_at (blit d (b + m * z) (at_off d' (b' + i * z)) (k * z)) (b + j * z) z = bytes_at d (b + j * z) z"
      by (intro bytes_at_eqI) (simp add: blit_def algebra_simps)
    moreover have "\<not> j - m < k" using 3 by linarith
    ultimately show ?thesis using 3 j assms by (simp add: nth_items nth_append)
  qed
qed

lemma take_items: "m \<le> n \<Longrightarrow> take m (items b z n d) = items b z m d"
  by (simp add: items_def take_map)

lemma items_Suc: "items b z (Suc n) d = items b z n d @ [bytes_at d (b + n * z) z]"
  by (simp add: items_def)

text \<open>One item written at position \<open>i\<close>.\<close>

lemma items_put:
  assumes "i < n"
  shows "items b z n (blit d (b + i * z) it z) = (items b z n d)[i := map it [0..<z]]"
proof -
  have "items b z n (blit d (b + i * z) (at_off it (0 + 0 * z)) (1 * z)) =
      take i (items b z n d) @ drop 0 (items 0 z (0 + 1) it) @ drop (i + 1) (items b z n d)"
    using assms by (intro items_blit) simp
  moreover have "at_off it 0 = it" by (simp add: at_off_def)
  moreover have "items 0 z 1 it = [map it [0..<z]]" by (simp add: items_def bytes_at_def)
  ultimately show ?thesis using assms by (simp add: upd_conv_take_nth_drop)
qed

lemma items_insert:
  assumes "i \<le> n"
  shows "items b z (Suc n) (blit (if i < n then blit d (b + (i + 1) * z) (at_off d (b + i * z)) ((n - i) * z) else d) (b + i * z) it z) =
    take i (items b z n d) @ map it [0..<z] # drop i (items b z n d)"
proof -
  let ?d = "if i < n then blit d (b + (i + 1) * z) (at_off d (b + i * z)) ((n - i) * z) else d"
  let ?s = "take i (items b z n d)"
  have "\<exists>x. items b z (Suc n) ?d = ?s @ x # drop i (items b z n d)"
  proof (cases "i < n")
    case True
    have "items b z (Suc n) ?d = take (i + 1) (items b z (Suc n) d) @ drop i (items b z (i + (n - i)) d) @
        drop (i + 1 + (n - i)) (items b z (Suc n) d)"
      using items_blit [of "i + 1" "n - i" "Suc n" b z d d b i] True by simp
    moreover have "take (i + 1) (items b z (Suc n) d) = ?s @ [bytes_at d (b + i * z) z]"
      using take_items [of "i + 1" "Suc n"] take_items [of i n] True items_Suc [of b z i d] by simp
    ultimately show ?thesis using True by simp
  next
    case False
    then show ?thesis using assms by (simp add: items_Suc)
  qed
  then obtain x where "items b z (Suc n) ?d = ?s @ x # drop i (items b z n d)" by blast
  then show ?thesis using items_put [of i "Suc n" b z ?d it] assms by (simp add: list_update_append)
qed

lemma items_remove:
  assumes "i < n"
  shows "items b z (n - 1) (if i < n - 1 then blit d (b + i * z) (at_off d (b + (i + 1) * z)) ((n - i - 1) * z) else d) =
    take i (items b z n d) @ drop (Suc i) (items b z n d)"
proof (cases "i < n - 1")
  case True
  then show ?thesis
    using items_blit [of i "n - i - 1" "n - 1" b z d d b "i + 1"] take_items [of i "n - 1" b z d] take_items [of i n b z d] by simp
next
  case False
  then have "i = n - 1" "0 < n" using assms by simp_all
  then show ?thesis using take_items [of "n - 1" n b z d] by simp
qed

text \<open>The two copies of a key and its value make one item.\<close>

lemma blit_blit: "blit (blit d off k n) (off + n) v m = blit d off (\<lambda>i. if i < n then k i else v (i - n)) (n + m)"
  by (auto simp: blit_def fun_eq_iff)

lemma map_two_parts: "map (\<lambda>i. if i < n then k i else v (i - n)) [0..<n + m] = map k [0..<n] @ map v [0..<m]"
  by (rule nth_equalityI) (auto simp: nth_append)

end
