(* ===== verification/Ob_IndexNodeProps.thy ===== *)
theory Ob_IndexNodeProps
  imports Ob_IndexNode Ob_ItemArray
begin

text \<open>
  Correctness of the node operations of the B+ tree.  A node is seen as the list of its items; a key as the list of
  its bytes.  The searches are correct whenever the comparison of keys orders the keys at hand, which is then
  established for integer and string attributes.
\<close>

section \<open>Keys as lists of bytes\<close>

definition bmem :: "byte list \<Rightarrow> mem" where
  "bmem k = (\<lambda>i. if i < length k then k ! i else 0)"

definition kcmp :: "IndexFileHeader \<Rightarrow> byte list \<Rightarrow> byte list \<Rightarrow> int" where
  "kcmp hdr k1 k2 = KeyComparator hdr (bmem k1) (bmem k2)"

definition hdr_good :: "IndexFileHeader \<Rightarrow> bool" where
  "hdr_good hdr \<longleftrightarrow> supported (attr_type hdr) \<and> 0 \<le> attr_length hdr \<and> key_length hdr = attr_length hdr + 8 \<and>
     (attr_type hdr = CHARS \<or> 4 \<le> attr_length hdr)"

lemma bytes_at_bmem: "length k = n \<Longrightarrow> bytes_at (bmem k) 0 n = k"
  by (rule nth_equalityI) (simp_all add: nth_bytes_at bmem_def)

lemma bmem_bytes_at: "i < n \<Longrightarrow> bmem (bytes_at d off n) i = d (off + i)"
  by (simp add: bmem_def nth_bytes_at)

lemma strncmp_cong:
  "(\<And>j. i \<le> j \<Longrightarrow> j < i + n \<Longrightarrow> a j = a' j \<and> b j = b' j) \<Longrightarrow> strncmp_from a b i n = strncmp_from a' b' i n"
proof (induction n arbitrary: i)
  case (Suc n)
  have "strncmp_from a b (Suc i) n = strncmp_from a' b' (Suc i) n" using Suc by simp
  then show ?case using Suc.prems [of i] by simp
qed simp

lemma compare_int_cong: "(\<And>i. i < 4 \<Longrightarrow> a i = a' i \<and> b i = b' i) \<Longrightarrow> compare_int a b = compare_int a' b'"
  using load_int_cong [of 0 a a'] load_int_cong [of 0 b b'] by (simp add: compare_int_def)

lemma compare_float_cong: "(\<And>i. i < 4 \<Longrightarrow> a i = a' i \<and> b i = b' i) \<Longrightarrow> compare_float a b = compare_float a' b'"
  by (simp add: compare_float_def load_f32_def load_u32_def)

lemma AttrComparator_cong:
  assumes "hdr_good hdr" "\<And>i. i < nat (attr_length hdr) \<Longrightarrow> a i = a' i \<and> b i = b' i"
  shows "AttrComparator hdr a b = AttrComparator hdr a' b'"
proof (cases "attr_type hdr = CHARS")
  case True
  then show ?thesis
    using strncmp_cong [of 0 "nat (attr_length hdr)" a a' b b'] assms(2)
    by (simp add: AttrComparator_def compare_string_same_length)
next
  case False
  then have "4 \<le> attr_length hdr" "attr_type hdr \<in> {INTS, DATES, FLOATS}"
    using assms(1) by (auto simp: hdr_good_def supported_def)
  then have "i < 4 \<Longrightarrow> a i = a' i \<and> b i = b' i" for i using assms(2) [of i] by linarith
  then show ?thesis
    using compare_int_cong [of a a' b b'] compare_float_cong [of a a' b b'] \<open>attr_type hdr \<in> _\<close>
    by (auto simp: AttrComparator_def)
qed

lemma key_size_split: "hdr_good hdr \<Longrightarrow> key_size hdr = nat (attr_length hdr) + 8"
  by (simp add: hdr_good_def key_size_def nat_add_distrib)

lemma KeyComparator_cong:
  assumes "hdr_good hdr" "\<And>i. i < key_size hdr \<Longrightarrow> a i = a' i \<and> b i = b' i"
  shows "KeyComparator hdr a b = KeyComparator hdr a' b'"
proof -
  let ?n = "nat (attr_length hdr)"
  have eq: "i < ?n + 8 \<Longrightarrow> a i = a' i \<and> b i = b' i" for i using assms key_size_split by simp
  have "AttrComparator hdr a b = AttrComparator hdr a' b'" using eq by (intro AttrComparator_cong [OF assms(1)]) simp
  moreover have "rid_compare (at_off a ?n) (at_off b ?n) = rid_compare (at_off a' ?n) (at_off b' ?n)"
    using load_int_cong [of ?n a a'] load_int_cong [of "?n + 4" a a'] load_int_cong [of ?n b b'] load_int_cong [of "?n + 4" b b'] eq
    by (simp add: rid_compare_def load_at_off Let_def)
  ultimately show ?thesis by (simp add: KeyComparator_def Let_def)
qed

lemma KeyComparator_kcmp:
  assumes "hdr_good hdr"
  shows "KeyComparator hdr a b = kcmp hdr (bytes_at a 0 (key_size hdr)) (bytes_at b 0 (key_size hdr))"
  unfolding kcmp_def by (rule KeyComparator_cong [OF assms]) (simp add: bmem_bytes_at)

lemma lower_bound_loop_cong:
  assumes "length xs = length ys" "\<And>i. i < length xs \<Longrightarrow> cmp (xs ! i) v = cmp' (ys ! i) v'" "i + n \<le> length xs"
  shows "lower_bound_loop cmp xs v i n = lower_bound_loop cmp' ys v' i n"
  using assms(3)
proof (induction n arbitrary: i rule: less_induct)
  case (less n)
  show ?case
  proof (cases "n = 0")
    case True
    then show ?thesis by (simp add: lower_bound_loop.simps)
  next
    case False
    let ?m = "i + n div 2"
    have m: "?m < length xs" using False less.prems by linarith
    have "lower_bound_loop cmp xs v (Suc ?m) (n - (n div 2 + 1)) = lower_bound_loop cmp' ys v' (Suc ?m) (n - (n div 2 + 1))"
      by (rule less.IH) (use False less.prems in auto)
    moreover have "lower_bound_loop cmp xs v i (n div 2) = lower_bound_loop cmp' ys v' i (n div 2)"
      by (rule less.IH) (use False less.prems in auto)
    ultimately show ?thesis
      using False assms(2) [OF m] by (subst (1 2) lower_bound_loop.simps) (simp add: Let_def)
  qed
qed

lemma lower_bound_cong:
  "length xs = length ys \<Longrightarrow> (\<And>i. i < length xs \<Longrightarrow> cmp (xs ! i) v = cmp' (ys ! i) v') \<Longrightarrow>
     lower_bound cmp xs v = lower_bound cmp' ys v'"
  unfolding lower_bound_def using lower_bound_loop_cong [of xs ys cmp v cmp' v' 0 "length xs"] by simp

section \<open>Nodes as lists of items\<close>

definition leaf_items :: "IndexFileHeader \<Rightarrow> mem \<Rightarrow> byte list list" where
  "leaf_items hdr d = items 20 (leaf_item_size hdr) (num d) d"

definition internal_items :: "IndexFileHeader \<Rightarrow> mem \<Rightarrow> byte list list" where
  "internal_items hdr d = items 12 (internal_item_size hdr) (num d) d"

abbreviation key_of :: "IndexFileHeader \<Rightarrow> byte list \<Rightarrow> byte list" where
  "key_of hdr it \<equiv> take (key_size hdr) it"

definition leaf_keys :: "IndexFileHeader \<Rightarrow> mem \<Rightarrow> byte list list" where
  "leaf_keys hdr d = map (key_of hdr) (leaf_items hdr d)"

text \<open>The separators of an internal node: the keys of its items but the first.\<close>

definition separators :: "IndexFileHeader \<Rightarrow> mem \<Rightarrow> byte list list" where
  "separators hdr d = map (key_of hdr) (tl (internal_items hdr d))"

definition children :: "IndexFileHeader \<Rightarrow> mem \<Rightarrow> PageNum list" where
  "children hdr d = map (internal_child hdr d) [0..<num d]"

abbreviation insert_at :: "nat \<Rightarrow> 'a \<Rightarrow> 'a list \<Rightarrow> 'a list" where
  "insert_at i x xs \<equiv> take i xs @ x # drop i xs"

abbreviation remove_at :: "nat \<Rightarrow> 'a list \<Rightarrow> 'a list" where
  "remove_at i xs \<equiv> take i xs @ drop (Suc i) xs"

lemma take_bytes_at: "n \<le> m \<Longrightarrow> take n (bytes_at d off m) = bytes_at d off n"
  by (simp add: bytes_at_def take_map)

lemma leaf_item_le: "key_size hdr \<le> leaf_item_size hdr" "key_size hdr \<le> internal_item_size hdr"
  by (simp_all add: leaf_item_size_def internal_item_size_def)

lemma nth_leaf_keys: "i < num d \<Longrightarrow> leaf_keys hdr d ! i = bytes_at (leaf_key_at hdr d i) 0 (key_size hdr)"
  by (simp add: leaf_keys_def leaf_items_def nth_items leaf_key_at_def leaf_item_at_def bytes_at_at_off take_bytes_at leaf_item_le)

lemma length_leaf [simp]: "length (leaf_items hdr d) = num d" "length (leaf_keys hdr d) = num d"
  by (simp_all add: leaf_keys_def leaf_items_def)

lemma length_internal [simp]: "length (internal_items hdr d) = num d" "length (separators hdr d) = num d - 1"
    "length (children hdr d) = num d"
  by (simp_all add: separators_def internal_items_def children_def)

lemma nth_separators: "i < num d - 1 \<Longrightarrow> separators hdr d ! i = bytes_at (internal_key_at hdr d (Suc i)) 0 (key_size hdr)"
  by (simp add: separators_def internal_items_def nth_tl nth_items internal_key_at_def internal_item_at_def bytes_at_at_off
      take_bytes_at leaf_item_le)

text \<open>Fields in front of the items.\<close>

lemma increase_size_simps [simp]:
  "items b z n (increase_size k d) = items b z n d" if "8 \<le> b"
  using that by (simp add: increase_size_def)

lemma increase_size_fields [simp]:
  "is_leaf (increase_size k d) = is_leaf d" "parent_page_num (increase_size k d) = parent_page_num d"
  "prev_page (increase_size k d) = prev_page d" "next_page (increase_size k d) = next_page d"
  by (simp_all add: increase_size_def is_leaf_def parent_page_num_def prev_page_def next_page_def mem_simps)

lemma node_size_increase: "node_size (increase_size k d) = wrap32 (node_size d + k)"
  by (simp add: increase_size_def node_size_def mem_simps)

lemma node_blit_fields [simp]:
  assumes "12 \<le> off"
  shows "node_size (blit d off s n) = node_size d" "is_leaf (blit d off s n) = is_leaf d"
    "parent_page_num (blit d off s n) = parent_page_num d"
  using assms by (simp_all add: node_size_def is_leaf_def parent_page_num_def mem_simps)

lemma blit_links [simp]:
  "20 \<le> off \<Longrightarrow> prev_page (blit d off s n) = prev_page d" "20 \<le> off \<Longrightarrow> next_page (blit d off s n) = next_page d"
  by (simp_all add: prev_page_def next_page_def mem_simps)

lemma item_at_ge [simp]: "20 \<le> leaf_item_at hdr i" "12 \<le> leaf_item_at hdr i" "20 \<le> leaf_item_at hdr i + k" "12 \<le> leaf_item_at hdr i + k"
    "12 \<le> internal_item_at hdr i" "12 \<le> internal_item_at hdr i + k"
  by (simp_all add: leaf_item_at_def internal_item_at_def)

section \<open>Leaf operations\<close>

lemma leaf_lookup_eq:
  assumes "hdr_good hdr"
  shows "leaf_lookup hdr d key = Some (lower_bound (kcmp hdr) (leaf_keys hdr d) (bytes_at key 0 (key_size hdr)))"
proof -
  have "lower_bound (KeyComparator hdr) (map (leaf_key_at hdr d) [0..<num d]) key =
      lower_bound (kcmp hdr) (leaf_keys hdr d) (bytes_at key 0 (key_size hdr))"
    by (rule lower_bound_cong) (simp_all add: nth_leaf_keys KeyComparator_kcmp [OF assms])
  then show ?thesis using assms by (simp add: leaf_lookup_def hdr_good_def)
qed

text \<open>The fields of a leaf that an operation on its items keeps.\<close>

definition same_links :: "mem \<Rightarrow> mem \<Rightarrow> bool" where
  "same_links d d' \<longleftrightarrow> is_leaf d' = is_leaf d \<and> parent_page_num d' = parent_page_num d \<and>
     prev_page d' = prev_page d \<and> next_page d' = next_page d"

lemma leaf_insert_items:
  assumes "i \<le> num d" "node_size d \<ge> 0" "node_size d + 1 < 2 ^ 31"
  shows "leaf_items hdr (leaf_insert hdr i key val d) =
      insert_at i (bytes_at key 0 (key_size hdr) @ bytes_at val 0 8) (leaf_items hdr d)"
    "node_size (leaf_insert hdr i key val d) = node_size d + 1" "same_links d (leaf_insert hdr i key val d)"
proof -
  let ?z = "leaf_item_size hdr" and ?k = "key_size hdr"
  let ?it = "\<lambda>j. if j < ?k then key j else val (j - ?k)"
  let ?d = "if i < num d then blit d (leaf_item_at hdr (i + 1)) (at_off d (leaf_item_at hdr i)) ((num d - i) * ?z) else d"
  have eq: "leaf_insert hdr i key val d = increase_size 1 (blit ?d (leaf_item_at hdr i) ?it ?z)"
    by (simp add: leaf_insert_def Let_def blit_blit leaf_item_size_def leaf_value_size_def)
  have "items 20 ?z (Suc (num d)) (blit ?d (leaf_item_at hdr i) ?it ?z) =
      insert_at i (map ?it [0..<?z]) (items 20 ?z (num d) d)"
    unfolding leaf_item_at_def by (rule items_insert [OF assms(1)])
  moreover have "map ?it [0..<?z] = bytes_at key 0 ?k @ bytes_at val 0 8"
    by (simp add: leaf_item_size_def leaf_value_size_def map_two_parts bytes_at_def)
  moreover have "node_size (blit ?d (leaf_item_at hdr i) ?it ?z) = node_size d" by simp
  moreover have "nat (node_size d + 1) = Suc (num d)" using assms(2) by linarith
  ultimately show "leaf_items hdr (leaf_insert hdr i key val d) =
      insert_at i (bytes_at key 0 (key_size hdr) @ bytes_at val 0 8) (leaf_items hdr d)"
    "node_size (leaf_insert hdr i key val d) = node_size d + 1" "same_links d (leaf_insert hdr i key val d)"
    unfolding eq leaf_items_def using assms(2,3) by (simp_all add: node_size_increase same_links_def)
qed

lemma leaf_remove_at_items:
  assumes "i < num d" "node_size d \<ge> 0"
  obtains d' where "leaf_remove_at hdr i d = Some d'" "leaf_items hdr d' = remove_at i (leaf_items hdr d)"
    "node_size d' = node_size d - 1" "same_links d d'"
proof -
  let ?z = "leaf_item_size hdr"
  let ?d = "if i < num d - 1 then blit d (leaf_item_at hdr i) (at_off d (leaf_item_at hdr (i + 1))) ((num d - i - 1) * ?z) else d"
  have "int i < node_size d - 1 \<longleftrightarrow> i < num d - 1" "int i < node_size d" using assms by linarith+
  then have eq: "leaf_remove_at hdr i d = Some (increase_size (- 1) ?d)"
    by (simp add: leaf_remove_at_def Let_def)
  have it: "items 20 ?z (num d - 1) ?d = remove_at i (items 20 ?z (num d) d)"
    unfolding leaf_item_at_def by (rule items_remove [OF assms(1)])
  have sz: "node_size (increase_size (- 1) ?d) = node_size d - 1" "nat (node_size d - 1) = num d - 1"
    using assms load_int_range [of d 4] by (simp_all add: node_size_increase) (simp_all add: node_size_def)
  show thesis
  proof (rule that [OF eq])
    show "leaf_items hdr (increase_size (- 1) ?d) = remove_at i (leaf_items hdr d)"
      unfolding leaf_items_def sz using it by simp
  qed (use sz in \<open>simp_all add: same_links_def\<close>)
qed

lemma leaf_remove_eq:
  assumes "hdr_good hdr" "node_size d \<ge> 0"
    and lb: "lower_bound (kcmp hdr) (leaf_keys hdr d) (bytes_at key 0 (key_size hdr)) = (i, found)" "found \<Longrightarrow> i < num d"
  obtains d' where "leaf_remove hdr key d = Some (if found then 1 else 0, d')"
    "leaf_items hdr d' = (if found then remove_at i (leaf_items hdr d) else leaf_items hdr d)"
    "node_size d' = node_size d - (if found then 1 else 0)" "same_links d d'"
proof (cases found)
  case True
  obtain d' where "leaf_remove_at hdr i d = Some d'" "leaf_items hdr d' = remove_at i (leaf_items hdr d)"
      "node_size d' = node_size d - 1" "same_links d d'"
    using leaf_remove_at_items [OF lb(2) [OF True] assms(2)] .
  then show thesis
    using that [of d'] True lb(1) leaf_lookup_eq [OF assms(1), of d key] by (simp add: leaf_remove_def)
next
  case False
  then show thesis
    using that [of d] lb(1) leaf_lookup_eq [OF assms(1), of d key] by (simp add: leaf_remove_def same_links_def)
qed

text \<open>Moving items between two leaves.\<close>

lemma leaf_append_items:
  assumes "node_size d \<ge> 0" "node_size d + 1 < 2 ^ 31"
  shows "leaf_items hdr (leaf_append hdr it d) = leaf_items hdr d @ [bytes_at it 0 (leaf_item_size hdr)]"
    "node_size (leaf_append hdr it d) = node_size d + 1"
proof -
  let ?z = "leaf_item_size hdr"
  have "items 20 ?z (Suc (num d)) (blit d (leaf_item_at hdr (num d)) it ?z) = items 20 ?z (num d) d @ [map it [0..<?z]]"
    using items_insert [of "num d" "num d" 20 ?z d it] by (simp add: leaf_item_at_def)
  moreover have "nat (node_size d + 1) = Suc (num d)" using assms(1) by linarith
  ultimately show "leaf_items hdr (leaf_append hdr it d) = leaf_items hdr d @ [bytes_at it 0 (leaf_item_size hdr)]"
      "node_size (leaf_append hdr it d) = node_size d + 1"
    using assms by (simp_all add: leaf_append_def leaf_items_def node_size_increase bytes_at_def)
qed

lemma leaf_preappend_items:
  assumes "node_size d \<ge> 0" "node_size d + 1 < 2 ^ 31"
  shows "leaf_items hdr (leaf_preappend hdr it d) = bytes_at it 0 (leaf_item_size hdr) # leaf_items hdr d"
    "node_size (leaf_preappend hdr it d) = node_size d + 1"
proof -
  let ?z = "leaf_item_size hdr"
  define e where "e = (if 0 < num d then blit d (leaf_item_at hdr (0 + 1)) (at_off d (leaf_item_at hdr 0)) ((num d - 0) * ?z) else d)"
  have eq: "leaf_preappend hdr it d = increase_size 1 (blit e (leaf_item_at hdr 0) it ?z)"
    by (simp add: leaf_preappend_def Let_def e_def)
  have "items 20 ?z (Suc (num d)) (blit e (leaf_item_at hdr 0) it ?z) =
      insert_at 0 (map it [0..<?z]) (items 20 ?z (num d) d)"
    unfolding leaf_item_at_def e_def by (rule items_insert) simp
  moreover have "nat (node_size d + 1) = Suc (num d)" using assms(1) by linarith
  moreover have "node_size e = node_size d" by (simp add: e_def)
  ultimately show "leaf_items hdr (leaf_preappend hdr it d) = bytes_at it 0 (leaf_item_size hdr) # leaf_items hdr d"
      "node_size (leaf_preappend hdr it d) = node_size d + 1"
    unfolding eq using assms by (simp_all add: leaf_items_def node_size_increase bytes_at_def)
qed

lemma leaf_item_bytes:
  "i < num d \<Longrightarrow> bytes_at (at_off d (leaf_item_at hdr i)) 0 (leaf_item_size hdr) = leaf_items hdr d ! i"
  by (simp add: leaf_items_def nth_items leaf_item_at_def bytes_at_at_off)

lemma leaf_items_shrink:
  assumes "0 \<le> m" "m \<le> node_size d"
  shows "leaf_items hdr (increase_size (m - node_size d) d) = take (nat m) (leaf_items hdr d)"
    "node_size (increase_size (m - node_size d) d) = m"
proof -
  show sz: "node_size (increase_size (m - node_size d) d) = m"
    using assms load_int_range [of d 4] by (simp add: node_size_increase) (simp add: node_size_def)
  show "leaf_items hdr (increase_size (m - node_size d) d) = take (nat m) (leaf_items hdr d)"
    unfolding leaf_items_def sz using assms by (simp add: take_items nat_mono)
qed

lemma leaf_move_half_items:
  assumes "node_size this \<ge> 0" "node_size other = 0"
  shows "leaf_items hdr (fst (leaf_move_half_to hdr this other)) = take (num this div 2) (leaf_items hdr this)"
    "leaf_items hdr (snd (leaf_move_half_to hdr this other)) = drop (num this div 2) (leaf_items hdr this)"
proof -
  let ?n = "num this" and ?z = "leaf_item_size hdr"
  let ?o = "blit other (leaf_item_at hdr 0) (at_off this (leaf_item_at hdr (?n div 2))) (?z * (?n - ?n div 2))"
  have n: "int ?n = node_size this" "int (?n div 2) = node_size this div 2" using assms(1) by simp_all
  have "- (int ?n - int (?n div 2)) = node_size this div 2 - node_size this" using n by simp
  then show "leaf_items hdr (fst (leaf_move_half_to hdr this other)) = take (?n div 2) (leaf_items hdr this)"
    using leaf_items_shrink(1) [of "node_size this div 2" this hdr] assms(1) n
    by (simp add: leaf_move_half_to_def Let_def nat_div_distrib)
  have r: "node_size this < 2 ^ 31" using load_int_range [of this 4] by (simp add: node_size_def)
  have k: "nat (int ?n - int (?n div 2)) = ?n - ?n div 2" by linarith
  have "0 \<le> node_size this - node_size this div 2" "node_size this - node_size this div 2 < 2 ^ 31" using assms(1) r by linarith+
  then have w: "wrap32 (node_size this - node_size this div 2) = node_size this - node_size this div 2" by (intro wrap32_id) simp_all
  have "items 20 ?z (?n - ?n div 2) ?o = drop (?n div 2) (items 20 ?z ?n this)"
    using items_blit [of 0 "?n - ?n div 2" "?n - ?n div 2" 20 ?z other this 20 "?n div 2"]
    by (simp add: leaf_item_at_def mult.commute)
  moreover have "node_size ?o = 0" using assms(2) by simp
  ultimately show "leaf_items hdr (snd (leaf_move_half_to hdr this other)) = drop (?n div 2) (leaf_items hdr this)"
    using n k w by (simp add: leaf_move_half_to_def Let_def leaf_items_def node_size_increase)
qed

lemma leaf_move_first_items:
  assumes "node_size this > 0" "node_size other \<ge> 0" "node_size other + 1 < 2 ^ 31"
  shows "leaf_items hdr (fst (leaf_move_first_to_end hdr this other)) = tl (leaf_items hdr this)"
    "leaf_items hdr (snd (leaf_move_first_to_end hdr this other)) = leaf_items hdr other @ [hd (leaf_items hdr this)]"
proof -
  let ?z = "leaf_item_size hdr"
  have n: "0 < num this" using assms(1) by simp
  then have ne: "leaf_items hdr this \<noteq> []" by (metis length_leaf(1) list.size(3) less_irrefl)
  let ?t = "blit this (leaf_item_at hdr 0) (at_off this (leaf_item_at hdr 1)) ((num this - 1) * ?z)"
  have "items 20 ?z (num this - 1) ?t = drop 1 (items 20 ?z (num this) this)"
    using items_blit [of 0 "num this - 1" "num this - 1" 20 ?z this this 20 1] n by (simp add: leaf_item_at_def)
  moreover have "node_size (increase_size (- 1) ?t) = node_size this - 1"
    using assms(1) load_int_range [of this 4] by (simp add: node_size_increase) (simp add: node_size_def)
  moreover have "nat (node_size this - 1) = num this - 1" by simp
  ultimately show "leaf_items hdr (fst (leaf_move_first_to_end hdr this other)) = tl (leaf_items hdr this)"
    using assms(1) by (simp add: leaf_move_first_to_end_def Let_def leaf_items_def drop_Suc)
  show "leaf_items hdr (snd (leaf_move_first_to_end hdr this other)) = leaf_items hdr other @ [hd (leaf_items hdr this)]"
    using leaf_append_items(1) [OF assms(2,3)] leaf_item_bytes [OF n, of hdr] ne
    by (simp add: leaf_move_first_to_end_def Let_def hd_conv_nth)
qed

lemma leaf_move_last_items:
  assumes "node_size this > 0" "node_size other \<ge> 0" "node_size other + 1 < 2 ^ 31"
  shows "leaf_items hdr (fst (leaf_move_last_to_front hdr this other)) = butlast (leaf_items hdr this)"
    "leaf_items hdr (snd (leaf_move_last_to_front hdr this other)) = last (leaf_items hdr this) # leaf_items hdr other"
proof -
  have n: "num this - 1 < num this" using assms(1) by simp
  then have ne: "leaf_items hdr this \<noteq> []" by (metis length_leaf(1) list.size(3) not_less0)
  show "leaf_items hdr (fst (leaf_move_last_to_front hdr this other)) = butlast (leaf_items hdr this)"
    using leaf_items_shrink(1) [of "node_size this - 1" this hdr] assms(1)
    by (simp add: leaf_move_last_to_front_def butlast_conv_take nat_diff_distrib)
  show "leaf_items hdr (snd (leaf_move_last_to_front hdr this other)) = last (leaf_items hdr this) # leaf_items hdr other"
    using leaf_preappend_items(1) [OF assms(2,3)] leaf_item_bytes [OF n, of hdr] ne
    by (simp add: leaf_move_last_to_front_def last_conv_nth)
qed

lemma leaf_move_all_items:
  assumes "node_size this \<ge> 0" "node_size other \<ge> 0" "node_size other + node_size this < 2 ^ 31"
  shows "leaf_items hdr (fst (leaf_move_items hdr this other)) = []"
    "leaf_items hdr (snd (leaf_move_items hdr this other)) = leaf_items hdr other @ leaf_items hdr this"
    "next_page (snd (leaf_move_items hdr this other)) = next_page this"
proof -
  let ?z = "leaf_item_size hdr"
  let ?o = "blit other (leaf_item_at hdr (num other)) (at_off this (leaf_item_at hdr 0)) (num this * ?z)"
  show "leaf_items hdr (fst (leaf_move_items hdr this other)) = []"
    using leaf_items_shrink(1) [of 0 this hdr] assms(1) by (simp add: leaf_move_items_def Let_def)
  have "items 20 ?z (num other + num this) ?o = items 20 ?z (num other) other @ items 20 ?z (num this) this"
    using items_blit [of "num other" "num this" "num other + num this" 20 ?z other this 20 0] take_items [of "num other" "num other + num this" 20 ?z other]
    by (simp add: leaf_item_at_def)
  moreover have "nat (node_size other + node_size this) = num other + num this" using assms by linarith
  ultimately show "leaf_items hdr (snd (leaf_move_items hdr this other)) = leaf_items hdr other @ leaf_items hdr this"
    using assms by (simp add: leaf_move_items_def Let_def leaf_items_def node_size_increase set_next_page_def node_size_def mem_simps)
       (simp add: node_size_def [symmetric] node_size_increase)
  show "next_page (snd (leaf_move_items hdr this other)) = next_page this"
    using load_int_range [of this 16] by (simp add: leaf_move_items_def Let_def set_next_page_def next_page_def mem_simps increase_size_def)
qed

section \<open>Internal nodes\<close>

text \<open>The four bytes of a page number.\<close>

definition page_bytes :: "PageNum \<Rightarrow> byte list" where
  "page_bytes p = bytes_at (store_int (\<lambda>_. 0) 0 p) 0 4"

lemma store_int_blit: "store_int d off p = blit d off (store_int (\<lambda>_. 0) 0 p) 4"
proof
  fix i
  consider "i < off" | "i = off" | "i = off + 1" | "i = off + 2" | "i = off + 3" | "off + 4 \<le> i" by linarith
  then show "store_int d off p i = blit d off (store_int (\<lambda>_. 0) 0 p) 4 i"
    by cases (simp_all add: store_int_def blit_def)
qed

lemma put_child_blit: "put_child hdr i p d = blit d (internal_item_at hdr i + key_size hdr) (store_int (\<lambda>_. 0) 0 p) 4"
  unfolding put_child_def by (rule store_int_blit)

lemma internal_child_item:
  assumes "i < num d"
  shows "internal_child hdr d i = load_int (bmem (drop (key_size hdr) (internal_items hdr d ! i))) 0"
proof -
  have "internal_items hdr d ! i = bytes_at d (internal_item_at hdr i) (key_size hdr + 4)"
    using assms by (simp add: internal_items_def nth_items internal_item_at_def internal_item_size_def internal_value_size_def)
  then have "drop (key_size hdr) (internal_items hdr d ! i) = bytes_at d (internal_item_at hdr i + key_size hdr) 4"
    by (simp add: bytes_at_split)
  then have "bmem (drop (key_size hdr) (internal_items hdr d ! i)) j = d (internal_item_at hdr i + key_size hdr + j)" if "j < 4" for j
    using that by (simp add: bmem_bytes_at)
  then show ?thesis by (simp add: internal_child_def load_int_def load_u32_def)
qed

lemma load_page_bytes: "load_int (bmem (page_bytes p)) 0 = wrap32 p"
proof -
  have "load_int (bmem (page_bytes p)) 0 = load_int (store_int (\<lambda>_. 0) 0 p) 0"
    by (rule load_int_cong) (simp add: page_bytes_def bmem_bytes_at)
  then show ?thesis by (simp add: mem_simps)
qed

lemma children_items: "children hdr d = map (\<lambda>it. load_int (bmem (drop (key_size hdr) it)) 0) (internal_items hdr d)"
  by (rule nth_equalityI) (simp_all add: children_def internal_child_item)

lemma length_items_elem: "it \<in> set (items b z n d) \<Longrightarrow> length it = z"
  by (auto simp: items_def)

lemma internal_lookup_eq:
  assumes "hdr_good hdr" "node_size d > 0"
    and "lower_bound (kcmp hdr) (separators hdr d) (bytes_at key 0 (key_size hdr)) = (i, found)"
  shows "internal_lookup hdr d key =
    Some (if i \<ge> num d - 1 \<or> kcmp hdr (bytes_at key 0 (key_size hdr)) (separators hdr d ! i) < 0 then i else Suc i, found, Suc i)"
proof -
  have lb: "lower_bound (KeyComparator hdr) (map (internal_key_at hdr d) [1..<num d]) key = (i, found)"
    unfolding assms(3) [symmetric]
    by (rule lower_bound_cong) (simp_all add: nth_separators KeyComparator_kcmp [OF assms(1)])
  have "KeyComparator hdr key (internal_key_at hdr d (Suc i)) = kcmp hdr (bytes_at key 0 (key_size hdr)) (separators hdr d ! i)"
    if "i < num d - 1"
    using nth_separators [OF that] KeyComparator_kcmp [OF assms(1)] by simp
  moreover have "int (Suc i) \<ge> node_size d \<longleftrightarrow> i \<ge> num d - 1" using assms(2) by linarith
  ultimately show ?thesis
    using lb assms(1,2) unfolding internal_lookup_def by (auto simp: hdr_good_def Let_def not_le)
qed

lemma internal_insert_items:
  assumes "hdr_good hdr" "node_size d > 0" "node_size d + 1 < 2 ^ 31"
    and "lower_bound (kcmp hdr) (separators hdr d) (bytes_at key 0 (key_size hdr)) = (i, found)" "i < num d"
  obtains d' where "internal_insert hdr key child d = Some d'"
    "internal_items hdr d' = insert_at (Suc i) (bytes_at key 0 (key_size hdr) @ page_bytes child) (internal_items hdr d)"
    "node_size d' = node_size d + 1" "is_leaf d' = is_leaf d" "parent_page_num d' = parent_page_num d"
proof -
  let ?z = "internal_item_size hdr" and ?k = "key_size hdr" and ?j = "Suc i"
  let ?val = "store_int (\<lambda>_. 0) 0 child"
  let ?it = "\<lambda>j. if j < ?k then key j else ?val (j - ?k)"
  define e where "e = (if ?j < num d then blit d (internal_item_at hdr (?j + 1)) (at_off d (internal_item_at hdr ?j)) ((num d - ?j) * ?z) else d)"
  let ?d = "increase_size 1 (blit e (internal_item_at hdr ?j) ?it ?z)"
  have eq: "internal_insert hdr key child d = Some ?d"
    using internal_lookup_eq [OF assms(1,2,4)]
    by (simp add: internal_insert_def e_def put_child_blit blit_blit internal_item_size_def internal_value_size_def)
  have "items 12 ?z (Suc (num d)) (blit e (internal_item_at hdr ?j) ?it ?z) = insert_at ?j (map ?it [0..<?z]) (items 12 ?z (num d) d)"
    unfolding internal_item_at_def e_def by (rule items_insert) (use assms(5) in simp)
  moreover have "map ?it [0..<?z] = bytes_at key 0 ?k @ page_bytes child"
    by (simp add: internal_item_size_def internal_value_size_def map_two_parts bytes_at_def page_bytes_def)
  moreover have sz: "node_size e = node_size d" "is_leaf e = is_leaf d" "parent_page_num e = parent_page_num d" by (simp_all add: e_def)
  moreover have "nat (node_size d + 1) = Suc (num d)" using assms(2) by linarith
  ultimately show thesis
    using that [OF eq] assms(2,3) by (simp add: internal_items_def node_size_increase)
qed

lemma internal_remove_items:
  assumes "i < num d" "node_size d \<ge> 0"
  obtains d' where "internal_remove hdr i d = Some d'" "internal_items hdr d' = remove_at i (internal_items hdr d)"
    "node_size d' = node_size d - 1" "is_leaf d' = is_leaf d" "parent_page_num d' = parent_page_num d"
proof -
  let ?z = "internal_item_size hdr"
  define e where "e = (if i < num d - 1 then blit d (internal_item_at hdr i) (at_off d (internal_item_at hdr (i + 1))) ((num d - i - 1) * ?z) else d)"
  have "int i < node_size d - 1 \<longleftrightarrow> i < num d - 1" "int i < node_size d" using assms by linarith+
  then have eq: "internal_remove hdr i d = Some (increase_size (- 1) e)"
    by (simp add: internal_remove_def Let_def e_def)
  have it: "items 12 ?z (num d - 1) e = remove_at i (items 12 ?z (num d) d)"
    unfolding internal_item_at_def e_def by (rule items_remove [OF assms(1)])
  have e: "node_size e = node_size d" "is_leaf e = is_leaf d" "parent_page_num e = parent_page_num d" by (simp_all add: e_def)
  have sz: "node_size (increase_size (- 1) e) = node_size d - 1" "nat (node_size d - 1) = num d - 1"
    using assms e load_int_range [of d 4] by (simp_all add: node_size_increase) (simp_all add: node_size_def)
  show thesis
  proof (rule that [OF eq])
    show "internal_items hdr (increase_size (- 1) e) = remove_at i (internal_items hdr d)"
      unfolding internal_items_def sz using it by simp
  qed (use sz e in simp_all)
qed

section \<open>Orders on keys\<close>

text \<open>The parts of a key: the integer attribute and the two numbers of the record identifier.\<close>

definition key_rid :: "IndexFileHeader \<Rightarrow> byte list \<Rightarrow> int \<times> int" where
  "key_rid hdr k = (load_int (bmem k) (nat (attr_length hdr)), load_int (bmem k) (nat (attr_length hdr) + 4))"

definition valid_rid :: "int \<times> int \<Rightarrow> bool" where
  "valid_rid r \<longleftrightarrow> 0 \<le> fst r \<and> 0 \<le> snd r"

lemma sub_wrap: "0 \<le> x \<Longrightarrow> 0 \<le> y \<Longrightarrow> wrap32 (load_int a i - load_int b j) = load_int a i - load_int b j"
  if "x = load_int a i" "y = load_int b j"
  using that load_int_range [of a i] load_int_range [of b j] by (intro wrap32_id) linarith+

lemma kcmp_parts:
  assumes "valid_rid (key_rid hdr a)" "valid_rid (key_rid hdr b)"
  shows "kcmp hdr a b =
    (let c = AttrComparator hdr (bmem a) (bmem b); p = fst (key_rid hdr a) - fst (key_rid hdr b) in
     if c \<noteq> 0 then c else if p \<noteq> 0 then p else snd (key_rid hdr a) - snd (key_rid hdr b))"
  using assms sub_wrap [OF refl refl, of "bmem a" "nat (attr_length hdr)" "bmem b" "nat (attr_length hdr)"]
    sub_wrap [OF refl refl, of "bmem a" "nat (attr_length hdr) + 4" "bmem b" "nat (attr_length hdr) + 4"]
  by (simp add: kcmp_def KeyComparator_def rid_compare_def load_at_off key_rid_def valid_rid_def Let_def)

text \<open>
  An order on attributes gives an order on keys: the record identifier decides between equal attributes.
\<close>

lemma key_order_lift:
  assumes "key_order (\<lambda>a b. AttrComparator hdr (bmem a) (bmem b)) K" "\<And>k. k \<in> K \<Longrightarrow> valid_rid (key_rid hdr k)"
  shows "key_order (kcmp hdr) K"
proof -
  let ?c = "\<lambda>a b. AttrComparator hdr (bmem a) (bmem b)"
  note a = key_order.swap [OF assms(1)] key_order.le_trans [OF assms(1)] key_order.cmp_eq_sym [OF assms(1)]
    key_order.less_le_trans [OF assms(1)] key_order.le_less_trans [OF assms(1)]
  have kc: "kcmp hdr x y = (let p = fst (key_rid hdr x) - fst (key_rid hdr y) in
      if ?c x y \<noteq> 0 then ?c x y else if p \<noteq> 0 then p else snd (key_rid hdr x) - snd (key_rid hdr y))"
    if "x \<in> K" "y \<in> K" for x y
    using kcmp_parts [of hdr x y] assms(2) that by (simp add: Let_def)
  show ?thesis
  proof
    fix x y assume xy: "x \<in> K" "y \<in> K"
    show "kcmp hdr x y < 0 \<longleftrightarrow> kcmp hdr y x > 0"
      using kc [OF xy] kc [OF xy(2,1)] a(1) [OF xy] a(1) [OF xy(2,1)] a(3) [OF xy] by (auto simp: Let_def)
  next
    fix x y z assume x: "x \<in> K" and y: "y \<in> K" and z: "z \<in> K" and le: "kcmp hdr x y \<le> 0" "kcmp hdr y z \<le> 0"
    have "?c x y \<le> 0" "?c y z \<le> 0" using le kc [OF x y] kc [OF y z] by (auto simp: Let_def split: if_splits)
    then have "?c x z \<le> 0" "?c x y < 0 \<Longrightarrow> ?c x z < 0" "?c y z < 0 \<Longrightarrow> ?c x z < 0"
      using a(2) [OF x y z] a(4) [OF x y z] a(5) [OF x y z] by auto
    then show "kcmp hdr x z \<le> 0"
      using le \<open>?c x y \<le> 0\<close> \<open>?c y z \<le> 0\<close> unfolding kc [OF x y] kc [OF y z] kc [OF x z]
      by (auto simp: Let_def split: if_splits)
  qed
qed

lemma key_order_chars: "attr_type hdr = CHARS \<Longrightarrow> key_order (\<lambda>a b. AttrComparator hdr (bmem a) (bmem b)) UNIV"
  by unfold_locales
    (auto simp: AttrComparator_def compare_string_same_length strncmp_swap intro: strncmp_trans)

lemma key_order_ints:
  assumes "attr_type hdr = INTS \<or> attr_type hdr = DATES" "hi - lo < 2 ^ 31"
  shows "key_order (\<lambda>a b. AttrComparator hdr (bmem a) (bmem b)) {k. lo \<le> load_int (bmem k) 0 \<and> load_int (bmem k) 0 \<le> hi}"
proof -
  have "AttrComparator hdr (bmem a) (bmem b) = load_int (bmem a) 0 - load_int (bmem b) 0"
    if "lo \<le> load_int (bmem a) 0" "load_int (bmem a) 0 \<le> hi" "lo \<le> load_int (bmem b) 0" "load_int (bmem b) 0 \<le> hi" for a b
  proof -
    have "wrap32 (load_int (bmem a) 0 - load_int (bmem b) 0) = load_int (bmem a) 0 - load_int (bmem b) 0"
      using that assms(2) by (intro wrap32_id) linarith+
    then show ?thesis using assms(1) by (auto simp: AttrComparator_def compare_int_def)
  qed
  then show ?thesis by unfold_locales auto
qed

section \<open>Properties\<close>

text \<open>The keys of a node are in ascending order and among the keys that the comparison orders.\<close>

definition ordered :: "IndexFileHeader \<Rightarrow> byte list set \<Rightarrow> byte list list \<Rightarrow> bool" where
  "ordered hdr K ks \<longleftrightarrow> key_order (kcmp hdr) K \<and> set ks \<subseteq> K \<and> sorted_wrt (\<lambda>x y. kcmp hdr x y < 0) ks"

lemma ordered_lower_bound:
  assumes "ordered hdr K ks" "k \<in> K" "lower_bound (kcmp hdr) ks k = (i, found)"
  shows "i \<le> length ks" "\<And>j. j < i \<Longrightarrow> kcmp hdr (ks ! j) k < 0" "\<And>j. i \<le> j \<Longrightarrow> j < length ks \<Longrightarrow> kcmp hdr (ks ! j) k \<ge> 0"
    "\<And>j. i < j \<Longrightarrow> j < length ks \<Longrightarrow> kcmp hdr (ks ! j) k > 0"
    "found \<longleftrightarrow> (\<exists>x\<in>set ks. kcmp hdr x k = 0)" "found \<Longrightarrow> i < length ks \<and> kcmp hdr (ks ! i) k = 0"
    "\<not> found \<Longrightarrow> ordered hdr (insert k K) (insert_at i k ks)"
proof -
  have o: "key_order (kcmp hdr) K" "key_order.ascending (kcmp hdr) ks" "set ks \<subseteq> K"
    using assms(1) by (auto simp: ordered_def key_order.ascending_def)
  have lb: "is_lower_bound (kcmp hdr) ks k (i, found)"
    using key_order.lookup_correct [OF o assms(2)] assms(3) by simp
  then show "i \<le> length ks" "\<And>j. j < i \<Longrightarrow> kcmp hdr (ks ! j) k < 0" "found \<longleftrightarrow> (\<exists>x\<in>set ks. kcmp hdr x k = 0)"
    by (auto simp: is_lower_bound_def)
  show ge: "kcmp hdr (ks ! j) k \<ge> 0" if "i \<le> j" "j < length ks" for j using lb that by (auto simp: is_lower_bound_def)
  show "kcmp hdr (ks ! j) k > 0" if "i < j" "j < length ks" for j
    using cut_above [OF key_order.ascending_cut [OF o assms(2)] that] ge [of i] that by simp
  show "i < length ks \<and> kcmp hdr (ks ! i) k = 0" if found
    using key_order.lookup_found [OF o assms(2)] assms(3) that by simp
  show "ordered hdr (insert k K) (insert_at i k ks)" if "\<not> found"
    using key_order.ascending_insert [OF o assms(2)] assms(2,3) o that
    by (auto simp: ordered_def key_order.ascending_def insert_absorb dest: in_set_takeD in_set_dropD)
qed

lemma ordered_remove_at: "ordered hdr K ks \<Longrightarrow> ordered hdr K (remove_at i ks)"
  using key_order.ascending_remove [of "kcmp hdr" K ks i]
  by (auto simp: ordered_def key_order.ascending_def dest: in_set_takeD in_set_dropD)

lemma keys_order:
  assumes "\<And>k. k \<in> K \<Longrightarrow> valid_rid (key_rid hdr k)"
    and "attr_type hdr = CHARS \<or> (attr_type hdr = INTS \<or> attr_type hdr = DATES) \<and> hi - lo < 2 ^ 31 \<and>
      K \<subseteq> {k. lo \<le> load_int (bmem k) 0 \<and> load_int (bmem k) 0 \<le> hi}"
  shows "key_order (kcmp hdr) K"
proof -
  have mono: "key_order c K" if "key_order c L" "K \<subseteq> L" for c :: "byte list \<Rightarrow> byte list \<Rightarrow> int" and L
    using that unfolding key_order_def by blast
  show ?thesis
    using assms(2) mono [OF key_order_chars] mono [OF key_order_ints] by (intro key_order_lift) (auto intro: assms(1))
qed

text \<open>An index on an integer attribute, a key and a leaf with one entry.\<close>

definition demo_hdr :: IndexFileHeader where
  "demo_hdr = \<lparr>root_page = 2, internal_max_size = 4, leaf_max_size = 4, attr_length = 4, key_length = 12, attr_type = INTS\<rparr>"

definition demo_key :: "byte list" where
  "demo_key = bytes_at (store_int (\<lambda>_. 0) 0 5) 0 12"

definition demo_item :: "byte list" where
  "demo_item = demo_key @ bytes_at (\<lambda>_. 0) 0 8"

definition demo_leaf :: mem where
  "demo_leaf = leaf_insert demo_hdr 0 (bmem demo_key) (\<lambda>_. 0) (leaf_init_empty (\<lambda>_. 0))"

lemma demo_hdr_good: "hdr_good demo_hdr" "key_size demo_hdr = 12"
  by (simp_all add: hdr_good_def demo_hdr_def supported_def key_size_def)

lemma length_demo_key: "length demo_key = 12" by (simp add: demo_key_def)

lemma demo_key_bytes: "bytes_at (bmem demo_key) 0 12 = demo_key"
  by (rule bytes_at_bmem [OF length_demo_key])

lemma demo_key_facts: "load_int (bmem demo_key) 0 = 5" "valid_rid (key_rid demo_hdr demo_key)"
proof -
  have l: "load_int (bmem demo_key) i = load_int (store_int (\<lambda>_. 0) 0 5) i" if "i \<le> 8" for i
    using that unfolding demo_key_def by (intro load_int_cong) (simp add: bmem_bytes_at)
  show "load_int (bmem demo_key) 0 = 5" using l [of 0] by (simp add: mem_simps)
  have "load_int (\<lambda>_. 0) i = 0" for i by (simp add: load_int_def load_u32_def)
  then show "valid_rid (key_rid demo_hdr demo_key)"
    using l [of 4] l [of 8] by (simp add: key_rid_def valid_rid_def demo_hdr_def mem_simps)
qed

lemma leaf_init_empty_facts: "node_size (leaf_init_empty d) = 0" "is_leaf (leaf_init_empty d)"
    "parent_page_num (leaf_init_empty d) = - 1" "prev_page (leaf_init_empty d) = - 1" "next_page (leaf_init_empty d) = - 1"
  by (simp_all add: leaf_init_empty_def node_init_empty_def set_next_page_def set_prev_page_def node_size_def is_leaf_def
      parent_page_num_def prev_page_def next_page_def mem_simps)

lemma demo_leaf_facts:
  "node_size demo_leaf = 1" "leaf_items demo_hdr demo_leaf = [demo_item]" "leaf_keys demo_hdr demo_leaf = [demo_key]"
proof -
  have e: "leaf_items demo_hdr (leaf_init_empty (\<lambda>_. 0)) = []" by (simp add: leaf_items_def leaf_init_empty_facts items_def)
  show i: "leaf_items demo_hdr demo_leaf = [demo_item]"
    using leaf_insert_items(1) [of 0 "leaf_init_empty (\<lambda>_. 0)" demo_hdr "bmem demo_key" "\<lambda>_. 0"] e
    by (simp add: demo_leaf_def leaf_init_empty_facts demo_hdr_good demo_key_bytes demo_item_def)
  show "node_size demo_leaf = 1"
    using leaf_insert_items(2) [of 0 "leaf_init_empty (\<lambda>_. 0)" demo_hdr "bmem demo_key" "\<lambda>_. 0"]
    by (simp add: demo_leaf_def leaf_init_empty_facts)
  show "leaf_keys demo_hdr demo_leaf = [demo_key]"
    using i by (simp add: leaf_keys_def demo_item_def demo_hdr_good length_demo_key)
qed

lemma demo_type: "attr_type demo_hdr = INTS" by (simp add: demo_hdr_def)

lemma demo_order: "key_order (kcmp demo_hdr) {demo_key}"
  by (rule keys_order [of "{demo_key}" demo_hdr 5 5]) (simp_all add: demo_key_facts demo_type)

lemma demo_leaf_ordered: "ordered demo_hdr {demo_key} (leaf_keys demo_hdr demo_leaf)"
  by (simp add: ordered_def demo_order demo_leaf_facts)

text \<open>A new root with two children.\<close>

lemma create_new_root_items:
  assumes "node_size d = 0"
  shows "internal_items hdr (create_new_root hdr p1 key p2 d) =
      [replicate (key_size hdr) 0 @ page_bytes p1, bytes_at key 0 (key_size hdr) @ page_bytes p2]"
    "node_size (create_new_root hdr p1 key p2 d) = 2"
    "is_leaf (create_new_root hdr p1 key p2 d) = is_leaf d"
    "parent_page_num (create_new_root hdr p1 key p2 d) = parent_page_num d"
proof -
  let ?z = "internal_item_size hdr" and ?k = "key_size hdr"
  let ?it = "\<lambda>key p j. if j < ?k then key j else store_int (\<lambda>_. 0) 0 p (j - ?k)"
  let ?d = "blit (blit d (12 + 0 * ?z) (?it (\<lambda>_. 0) p1) ?z) (12 + 1 * ?z) (?it key p2) ?z"
  have eq: "create_new_root hdr p1 key p2 d = increase_size 2 ?d"
    unfolding create_new_root_def Let_def put_child_blit blit_blit
    by (simp add: internal_item_at_def internal_item_size_def internal_value_size_def)
  have m: "map (?it key p) [0..<?z] = bytes_at key 0 ?k @ page_bytes p" for key p
    by (simp add: internal_item_size_def internal_value_size_def map_two_parts bytes_at_def page_bytes_def)
  have "items 12 ?z 2 ?d = [bytes_at (\<lambda>_. 0) 0 ?k @ page_bytes p1, bytes_at key 0 ?k @ page_bytes p2]"
    using items_put [of 1 2 12 ?z "blit d (12 + 0 * ?z) (?it (\<lambda>_. 0) p1) ?z" "?it key p2"]
      items_put [of 0 2 12 ?z d "?it (\<lambda>_. 0) p1"] m [of key p2] m [of "\<lambda>_. 0" p1]
    by (simp add: items_def numeral_2_eq_2)
  moreover have "bytes_at (\<lambda>_. 0) 0 n = replicate n (0::byte)" for n by (simp add: bytes_at_def map_replicate_const)
  ultimately show "internal_items hdr (create_new_root hdr p1 key p2 d) =
      [replicate (key_size hdr) 0 @ page_bytes p1, bytes_at key 0 (key_size hdr) @ page_bytes p2]"
    "node_size (create_new_root hdr p1 key p2 d) = 2"
    "is_leaf (create_new_root hdr p1 key p2 d) = is_leaf d"
    "parent_page_num (create_new_root hdr p1 key p2 d) = parent_page_num d"
    unfolding eq using assms by (simp_all add: internal_items_def node_size_increase)
qed

definition demo_root :: mem where
  "demo_root = create_new_root demo_hdr 2 (bmem demo_key) 3 (internal_init_empty (\<lambda>_. 0))"

lemma internal_init_empty_facts: "node_size (internal_init_empty d) = 0" "\<not> is_leaf (internal_init_empty d)"
    "parent_page_num (internal_init_empty d) = - 1"
  by (simp_all add: internal_init_empty_def node_init_empty_def node_size_def is_leaf_def parent_page_num_def mem_simps)

lemma demo_root_facts: "node_size demo_root = 2" "separators demo_hdr demo_root = [demo_key]"
proof -
  note c = create_new_root_items [of "internal_init_empty (\<lambda>_. 0)" demo_hdr 2 "bmem demo_key" 3, OF internal_init_empty_facts(1), folded demo_root_def]
  show "node_size demo_root = 2" by (rule c(2))
  show "separators demo_hdr demo_root = [demo_key]"
    by (simp add: separators_def c(1) demo_hdr_good demo_key_bytes length_demo_key)
qed

text \<open>
  C31. Leaf insertion: \<^verbatim>\<open>lookup\<close> reports exactly whether the key is in the leaf, and otherwise \<^verbatim>\<open>insert\<close> at the position it
  returns adds the item, keeps all others, keeps the keys in ascending order and the links of the leaf.
\<close>

theorem leaf_insert_correct:
  assumes "hdr_good hdr" "ordered hdr K (leaf_keys hdr d)" "bytes_at key 0 (key_size hdr) \<in> K"
    and "0 \<le> node_size d" "node_size d + 1 < 2 ^ 31"
  shows "\<exists>i found. leaf_lookup hdr d key = Some (i, found) \<and>
    (found \<longleftrightarrow> (\<exists>x\<in>set (leaf_keys hdr d). kcmp hdr x (bytes_at key 0 (key_size hdr)) = 0)) \<and>
    (\<not> found \<longrightarrow> ordered hdr K (leaf_keys hdr (leaf_insert hdr i key val d)) \<and>
       leaf_items hdr (leaf_insert hdr i key val d) =
         insert_at i (bytes_at key 0 (key_size hdr) @ bytes_at val 0 8) (leaf_items hdr d) \<and>
       node_size (leaf_insert hdr i key val d) = node_size d + 1 \<and> same_links d (leaf_insert hdr i key val d))"
proof -
  let ?k = "bytes_at key 0 (key_size hdr)"
  obtain i found where lb: "lower_bound (kcmp hdr) (leaf_keys hdr d) ?k = (i, found)" by fastforce
  note l = ordered_lower_bound [OF assms(2,3) lb]
  have i: "i \<le> num d" using l(1) by simp
  note ins = leaf_insert_items [OF i assms(4,5), of hdr key val]
  have "leaf_keys hdr (leaf_insert hdr i key val d) = insert_at i ?k (leaf_keys hdr d)"
    unfolding leaf_keys_def ins(1) by (simp add: take_map drop_map)
  then show ?thesis
    using l(5,7) lb leaf_lookup_eq [OF assms(1)] ins assms(3)
    by (intro exI [of _ i] exI [of _ found]) (simp add: insert_absorb)
qed

theorem leaf_insert_correct_witness:
  "\<exists>i found. leaf_lookup demo_hdr demo_leaf (bmem demo_key) = Some (i, found) \<and> found \<and>
     ordered demo_hdr {demo_key} (leaf_keys demo_hdr (leaf_insert demo_hdr 0 (bmem demo_key) (\<lambda>_. 0) (leaf_init_empty (\<lambda>_. 0))))"
proof -
  have k: "bytes_at (bmem demo_key) 0 (key_size demo_hdr) = demo_key" by (simp add: demo_hdr_good demo_key_bytes)
  have refl0: "kcmp demo_hdr demo_key demo_key = 0" using key_order.cmp_refl [OF demo_order] by simp
  obtain i found where "leaf_lookup demo_hdr demo_leaf (bmem demo_key) = Some (i, found)"
      "found \<longleftrightarrow> (\<exists>x\<in>set (leaf_keys demo_hdr demo_leaf). kcmp demo_hdr x demo_key = 0)"
    using leaf_insert_correct [of demo_hdr "{demo_key}" demo_leaf "bmem demo_key" "\<lambda>_. 0"] demo_hdr_good(1) demo_leaf_ordered k
    by (auto simp: demo_leaf_facts)
  then show ?thesis
    using demo_leaf_ordered refl0 by (intro exI [of _ i] exI [of _ True]) (auto simp: demo_leaf_facts demo_leaf_def [symmetric])
qed

lemma leaf_remove_filter:
  assumes "hdr_good hdr" "ordered hdr K (leaf_keys hdr d)" "bytes_at key 0 (key_size hdr) \<in> K" "0 \<le> node_size d"
  shows "\<exists>n d'. leaf_remove hdr key d = Some (n, d') \<and> ordered hdr K (leaf_keys hdr d') \<and>
    leaf_items hdr d' = filter (\<lambda>it. kcmp hdr (key_of hdr it) (bytes_at key 0 (key_size hdr)) \<noteq> 0) (leaf_items hdr d) \<and>
    node_size d' = node_size d - int n \<and> same_links d d' \<and>
    n = (if \<exists>x\<in>set (leaf_keys hdr d). kcmp hdr x (bytes_at key 0 (key_size hdr)) = 0 then 1 else 0)"
proof -
  let ?k = "bytes_at key 0 (key_size hdr)" and ?xs = "leaf_items hdr d"
  let ?P = "\<lambda>it. kcmp hdr (key_of hdr it) ?k \<noteq> 0"
  obtain i found where lb: "lower_bound (kcmp hdr) (leaf_keys hdr d) ?k = (i, found)" by fastforce
  note l = ordered_lower_bound [OF assms(2,3) lb]
  have "found \<Longrightarrow> i < num d" using l(6) by simp
  from leaf_remove_eq [OF assms(1,4) lb this] obtain d' where d':
      "leaf_remove hdr key d = Some (if found then 1 else 0, d')"
      "leaf_items hdr d' = (if found then remove_at i ?xs else ?xs)"
      "node_size d' = node_size d - (if found then 1 else 0)" "same_links d d'" .
  have key: "kcmp hdr (key_of hdr (?xs ! j)) ?k = kcmp hdr (leaf_keys hdr d ! j) ?k" if "j < num d" for j
    using that by (simp add: leaf_keys_def)
  have "filter ?P ?xs = (if found then remove_at i ?xs else ?xs)"
  proof (cases found)
    case True
    then have i: "i < num d" "kcmp hdr (leaf_keys hdr d ! i) ?k = 0" using l(6) by simp_all
    have "?P it" if "it \<in> set (take i ?xs)" for it
      using that l(2) i(1) by (force simp: in_set_conv_nth key)
    moreover have "?P it" if it: "it \<in> set (drop (Suc i) ?xs)" for it
    proof -
      obtain m where "m < num d - Suc i" "it = ?xs ! (Suc i + m)" using it by (auto simp: in_set_conv_nth)
      moreover from this(1) have "Suc i + m < num d" by linarith
      ultimately show ?thesis using l(4) [of "Suc i + m"] key [of "Suc i + m"] by simp
    qed
    ultimately have "filter ?P (take i ?xs) = take i ?xs" "filter ?P (drop (Suc i) ?xs) = drop (Suc i) ?xs"
      by (simp_all add: filter_id_conv)
    moreover have "?xs = take i ?xs @ ?xs ! i # drop (Suc i) ?xs" using i(1) by (simp add: id_take_nth_drop)
    then have "filter ?P ?xs = filter ?P (take i ?xs @ ?xs ! i # drop (Suc i) ?xs)" by (rule arg_cong)
    ultimately have "filter ?P ?xs = remove_at i ?xs" using i(2) key [OF i(1)] by simp
    then show ?thesis using True by simp
  next
    case False
    have "?P it" if "it \<in> set ?xs" for it using that l(5) False by (auto simp: leaf_keys_def)
    then show ?thesis using False by simp
  qed
  moreover have "leaf_keys hdr d' = (if found then remove_at i (leaf_keys hdr d) else leaf_keys hdr d)"
    using d'(2) by (simp add: leaf_keys_def take_map drop_map)
  ultimately show ?thesis
    using d' l(5) ordered_remove_at [OF assms(2), of i] assms(2)
    by (intro exI [of _ "if found then 1 else 0"] exI [of _ d']) auto
qed

text \<open>
  C32. Leaf removal: \<^verbatim>\<open>remove(key)\<close> always returns, removes exactly the item with the key, if there is one, and says
  so by its result; the other items keep their order and the leaf its links.
\<close>

theorem leaf_remove_correct:
  assumes "hdr_good hdr" "ordered hdr K (leaf_keys hdr d)" "bytes_at key 0 (key_size hdr) \<in> K" "0 \<le> node_size d"
  shows "\<exists>n d'. leaf_remove hdr key d = Some (n, d') \<and> ordered hdr K (leaf_keys hdr d') \<and>
    leaf_items hdr d' = filter (\<lambda>it. kcmp hdr (key_of hdr it) (bytes_at key 0 (key_size hdr)) \<noteq> 0) (leaf_items hdr d) \<and>
    node_size d' = node_size d - int n \<and> same_links d d' \<and>
    n = (if \<exists>x\<in>set (leaf_keys hdr d). kcmp hdr x (bytes_at key 0 (key_size hdr)) = 0 then 1 else 0)"
  using assms by (rule leaf_remove_filter)

theorem leaf_remove_correct_witness:
  "\<exists>d'. leaf_remove demo_hdr (bmem demo_key) demo_leaf = Some (1, d') \<and> leaf_items demo_hdr d' = []"
proof -
  have k: "bytes_at (bmem demo_key) 0 (key_size demo_hdr) = demo_key" by (simp add: demo_hdr_good demo_key_bytes)
  have refl0: "kcmp demo_hdr demo_key demo_key = 0" using key_order.cmp_refl [OF demo_order] by simp
  show ?thesis
    using leaf_remove_correct [of demo_hdr "{demo_key}" demo_leaf "bmem demo_key"] demo_hdr_good(1) demo_leaf_ordered k refl0
    by (auto simp: demo_leaf_facts demo_item_def demo_hdr_good length_demo_key)
qed

lemma internal_lookup_child:
  assumes "hdr_good hdr" "ordered hdr K (separators hdr d)" "bytes_at key 0 (key_size hdr) \<in> K" "0 < node_size d"
  shows "\<exists>c found pos. internal_lookup hdr d key = Some (c, found, pos) \<and> c < num d \<and>
    (\<forall>j<c. kcmp hdr (separators hdr d ! j) (bytes_at key 0 (key_size hdr)) \<le> 0) \<and>
    (\<forall>j. c \<le> j \<and> j < num d - 1 \<longrightarrow> kcmp hdr (separators hdr d ! j) (bytes_at key 0 (key_size hdr)) > 0)"
proof -
  let ?k = "bytes_at key 0 (key_size hdr)" and ?s = "separators hdr d"
  obtain i found where lb: "lower_bound (kcmp hdr) ?s ?k = (i, found)" by fastforce
  note l = ordered_lower_bound [OF assms(2,3) lb]
  note eq = internal_lookup_eq [OF assms(1,4) lb]
  have i: "i \<le> num d - 1" using l(1) by simp
  have sw: "kcmp hdr ?k (?s ! i) < 0 \<longleftrightarrow> kcmp hdr (?s ! i) ?k > 0" if "i < num d - 1"
    using assms(2,3) that nth_mem [of i ?s] by (auto simp: ordered_def key_order.swap subset_iff)
  show ?thesis
  proof (cases "i \<ge> num d - 1 \<or> kcmp hdr ?k (?s ! i) < 0")
    case True
    have "kcmp hdr (?s ! j) ?k > 0" if "i \<le> j" "j < num d - 1" for j
      using True l(4) [of j] sw that by (cases "i = j") auto
    moreover have "kcmp hdr (?s ! j) ?k \<le> 0" if "j < i" for j using l(2) that by (simp add: less_imp_le)
    ultimately show ?thesis using eq True i assms(4) by (intro exI [of _ i] exI [of _ found] exI [of _ "Suc i"]) auto
  next
    case False
    then have "kcmp hdr (?s ! i) ?k = 0" "i < num d - 1" using l(3) [of i] sw by auto
    then have "kcmp hdr (?s ! j) ?k \<le> 0" if "j < Suc i" for j using l(2) that by (cases "j = i") (auto simp: less_imp_le)
    then show ?thesis
      using eq False l(4) by (intro exI [of _ "Suc i"] exI [of _ found] exI [of _ "Suc i"]) auto
  qed
qed



text \<open>
  C33. Moving items between leaves loses and reorders nothing: splitting, borrowing from either side and merging keep the
  sequence of all items of the two leaves.
\<close>

theorem leaf_moves_keep_items:
  assumes "0 < node_size this" "0 \<le> node_size other" "node_size other + node_size this < 2 ^ 31"
  shows "(leaf_items hdr other = [] \<longrightarrow>
      leaf_items hdr (fst (leaf_move_half_to hdr this other)) @ leaf_items hdr (snd (leaf_move_half_to hdr this other)) =
      leaf_items hdr this) \<and>
    leaf_items hdr (snd (leaf_move_first_to_end hdr this other)) @ leaf_items hdr (fst (leaf_move_first_to_end hdr this other)) =
      leaf_items hdr other @ leaf_items hdr this \<and>
    leaf_items hdr (fst (leaf_move_last_to_front hdr this other)) @ leaf_items hdr (snd (leaf_move_last_to_front hdr this other)) =
      leaf_items hdr this @ leaf_items hdr other \<and>
    leaf_items hdr (snd (leaf_move_items hdr this other)) @ leaf_items hdr (fst (leaf_move_items hdr this other)) =
      leaf_items hdr other @ leaf_items hdr this"
proof (intro conjI impI)
  have n: "leaf_items hdr this \<noteq> []" using assms(1) length_leaf(1) [of hdr this] by (metis list.size(3) zero_less_nat_eq less_irrefl)
  have o: "node_size other + 1 < 2 ^ 31" using assms by linarith
  show "leaf_items hdr (snd (leaf_move_first_to_end hdr this other)) @ leaf_items hdr (fst (leaf_move_first_to_end hdr this other)) =
      leaf_items hdr other @ leaf_items hdr this"
    using leaf_move_first_items [OF assms(1,2) o, of hdr] n by simp
  show "leaf_items hdr (fst (leaf_move_last_to_front hdr this other)) @ leaf_items hdr (snd (leaf_move_last_to_front hdr this other)) =
      leaf_items hdr this @ leaf_items hdr other"
    using leaf_move_last_items [OF assms(1,2) o, of hdr] n by simp
  show "leaf_items hdr (snd (leaf_move_items hdr this other)) @ leaf_items hdr (fst (leaf_move_items hdr this other)) =
      leaf_items hdr other @ leaf_items hdr this"
    using leaf_move_all_items [of this other hdr] assms by simp
next
  assume "leaf_items hdr other = []"
  then have "node_size other = 0" using length_leaf(1) [of hdr other] assms(2) by simp
  then show "leaf_items hdr (fst (leaf_move_half_to hdr this other)) @
      leaf_items hdr (snd (leaf_move_half_to hdr this other)) = leaf_items hdr this"
    using leaf_move_half_items [of this other hdr] assms(1) by simp
qed

theorem leaf_moves_keep_items_witness:
  "leaf_items demo_hdr (snd (leaf_move_items demo_hdr demo_leaf demo_leaf)) = [demo_item, demo_item]"
  using leaf_moves_keep_items [of demo_leaf demo_leaf demo_hdr] leaf_move_all_items(1) [of demo_leaf demo_leaf demo_hdr]
  by (simp add: demo_leaf_facts)

text \<open>
  C34. The comparison of keys is a linear preorder on the keys of an index on a string attribute, and on a date or integer
  attribute whose values span less than \<open>2^31\<close>.
\<close>

theorem keys_ordered:
  assumes "\<And>k. k \<in> K \<Longrightarrow> valid_rid (key_rid hdr k)"
    and "attr_type hdr = CHARS \<or> (attr_type hdr = INTS \<or> attr_type hdr = DATES) \<and> hi - lo < 2 ^ 31 \<and>
      K \<subseteq> {k. lo \<le> load_int (bmem k) 0 \<and> load_int (bmem k) 0 \<le> hi}"
  shows "key_order (kcmp hdr) K"
  using assms by (rule keys_order)

theorem keys_ordered_witness: "key_order (kcmp demo_hdr) {demo_key}"
  by (rule keys_ordered [of "{demo_key}" demo_hdr 5 5]) (simp_all add: demo_key_facts demo_type)

text \<open>
  Beyond that range the comparison is no order: \<open>-2^31\<close> compares above \<open>1\<close>, because the difference
  wraps around.
\<close>

theorem compare_int_overflow:
  "compare_int (store_int (\<lambda>_. 0) 0 (- (2 ^ 31))) (store_int (\<lambda>_. 0) 0 1) > 0"
  by (simp add: compare_int_def mem_simps) (simp add: wrap32_def)

text \<open>
  Nodes fit in their pages: with the capacities the code computes, the last byte of the last item of a full node
  lies inside the page, for leaves and for internal nodes, and a page holds at least two items of attributes up to 8000 bytes.
\<close>

theorem index_capacity_fits:
  assumes "0 \<le> len"
  shows "20 + calc_leaf_page_capacity len * (len + 16) \<le> BP_PAGE_DATA_SIZE \<and>
    12 + calc_internal_page_capacity len * (len + 12) \<le> BP_PAGE_DATA_SIZE \<and>
    (len \<le> 8000 \<longrightarrow> 2 \<le> calc_leaf_page_capacity len \<and> 2 \<le> calc_internal_page_capacity len)"
proof -
  have d: "x div y * y \<le> x" if "0 < y" for x y :: int using that by (metis div_mult_mod_eq le_add_same_cancel1 pos_mod_sign)
  have "2 * y \<le> x \<Longrightarrow> 2 \<le> x div y" if "0 < y" for x y :: int using that by (simp add: zdiv_mono1 [of "2 * y" x y, simplified])
  then show ?thesis
    using d [of "len + 16" "BP_PAGE_DATA_SIZE - 20"] d [of "len + 12" "BP_PAGE_DATA_SIZE - 12"] assms
    by (auto simp: calc_leaf_page_capacity_def calc_internal_page_capacity_def BP_PAGE_DATA_SIZE_def BP_PAGE_SIZE_def Let_def add.commute)
qed

theorem index_capacity_fits_witness:
  "20 + calc_leaf_page_capacity 4 * 20 \<le> BP_PAGE_DATA_SIZE \<and> 2 \<le> calc_internal_page_capacity 4"
  using index_capacity_fits [of 4] by simp

end
