(* ===== verification/Ob_BplusFind.thy ===== *)
theory Ob_BplusFind
  imports Ob_IndexNodeProps Ob_BplusTree Ob_RecordFileProps
begin

text \<open>
  The search of the B+ tree over the buffer pool.  A tree of pages is described by the datatype \<open>btree\<close>;
  \<open>tree_rep\<close> says that the pages of a file hold such a tree and \<open>search_tree\<close> that its keys are where the
  separators say.  The descent of \<^verbatim>\<open>find_leaf_internal\<close> is shown to end, to leave every page as it was and to pin
  the leaf that the reference descent \<open>leaf_for\<close> finds.
\<close>

section \<open>Holding a page\<close>

text \<open>Frame \<open>a\<close> of page \<open>p\<close> is pinned, and giving it back leaves no pin count at its limit.\<close>

definition held :: "BPSys \<Rightarrow> nat \<Rightarrow> DiskBufferPool \<Rightarrow> PageNum \<Rightarrow> nat \<Rightarrow> bool" where
  "held s b bp p a \<longleftrightarrow> ready s b bp \<and> cached s (bp_file_desc bp) p = Some a \<and> pin_count (frame_of s a) > 0 \<and>
     pins_ok (unpinned a s)"

lemma pins_ok_unseen:
  assumes "unseen s s'" "pins_ok s"
  shows "pins_ok s'"
proof -
  have small: "w + 1 > 0" if "w \<le> 1" for w :: "32 word"
  proof -
    have "unat w = 0 \<or> unat w = 1" using that by (auto simp: word_le_nat_alt)
    then have "w = 0 \<or> w = 1" by (auto simp: word_unat_eq_iff)
    then show ?thesis by auto
  qed
  have "pins_kept s s'" using assms(1) by (simp add: unseen_def)
  then show ?thesis using assms(2) small unfolding pins_kept_def pins_ok_def by metis
qed

lemma pins_ok_unpinned:
  assumes "pins_ok s" "pin_count (frame_of s a) > 0"
  shows "pins_ok (unpinned a s)"
  using assms by (auto simp: pins_ok_def)

lemma pins_ok_cong:
  "cached s' = cached s \<Longrightarrow> (\<And>a. pin_count (frame_of s' a) = pin_count (frame_of s a)) \<Longrightarrow> pins_ok s' = pins_ok s"
  by (simp add: pins_ok_def)

lemma held_page: "held s b bp p a \<Longrightarrow> page_view s (bp_file_desc bp) p = Some (page (frame_of s a))"
  by (simp add: held_def page_view_def)

abbreviation fetch_errors :: "RC set" where
  "fetch_errors \<equiv> {NOMEM, IOERR_WRITE, IOERR_SEEK, IOERR_READ}"

lemma fetch_cases:
  assumes "ready s b bp" "pins_ok s"
  obtains (fetched) a s1 where "get_this_page b p s = Some (SUCCESS, Some a, s1)" "held s1 b bp p a" "page_view s1 = page_view s"
      "os_io_faults (os s) = [] \<Longrightarrow> os_io_faults (os s1) = []"
    | (refused) rc s1 where "get_this_page b p s = Some (rc, None, s1)" "rc \<noteq> SUCCESS" "ready s1 b bp" "pins_ok s1"
      "page_view s1 = page_view s" "rc \<in> fetch_errors"
      "os_io_faults (os s) = [] \<Longrightarrow> page_view s (bp_file_desc bp) p \<noteq> None \<Longrightarrow> rc = NOMEM"
proof -
  obtain es where es: "entries_inv s es" and reg: "registered s b bp" and disp: "bp_disposed_pages bp = {}"
    using assms(1) by (auto simp: ready_def bp_inv_def)
  from es reg show thesis
  proof (cases rule: get_this_page_cases [where p = p])
    case (hit a s0 es0)
    let ?f = "\<lambda>f. f\<lparr>pin_count := pin_count f + 1\<rparr>"
    let ?s = "upd_frame a ?f s0"
    have inv0: "bp_inv s0" and c0: "cached s0 (bp_file_desc bp) p = Some a" using hit by (auto simp: bp_inv_def)
    have "bp_inv ?s" unfolding bp_inv_def using hit(3) c0 cached_rep [of s0 es0]
      by (intro exI [of _ es0] entries_upd [where k = "frame_id (bp_file_desc bp) p"]) (auto simp: entries_inv_def)
    moreover have "page_view ?s = page_view s"
      using page_view_pin [OF inv0 c0, of ?f] hit(2) by (simp add: unseen_def)
    moreover have "registered ?s b bp" using registered_unseen [OF hit(2) reg] by (simp add: registered_def)
    moreover have "pins_ok (unpinned a ?s)" using pins_ok_unseen [OF hit(2) assms(2)] by (auto simp: pins_ok_def)
    moreover have "pin_count (frame_of ?s a) > 0" using hit(4-6) assms(2) by (auto simp: pins_ok_def)
    moreover have "os_io_faults (os s) = [] \<Longrightarrow> os_io_faults (os ?s) = []" using hit(2) by (simp add: unseen_def)
    ultimately show thesis
      using fetched [of a ?s] hit(1) disp c0 by (simp add: held_def ready_def)
  next
    case (loaded a s1 es1)
    have "pins_ok (unpinned a s1)"
      using pins_ok_unseen [OF loaded(2) assms(2)] loaded(6) by (intro pins_ok_unpinned) simp_all
    then show thesis
      using fetched [of a s1] loaded disp registered_unseen [OF loaded(2) reg] by (auto simp: held_def ready_def bp_inv_def unseen_def)
  next
    case (failed rc s1 es1)
    have "rc = NOMEM" if "os_io_faults (os s) = []" "page_view s (bp_file_desc bp) p \<noteq> None"
      using failed(5,6) that by (simp add: page_view_def)
    then show thesis
      using refused [of rc s1] failed(1-4) disp registered_unseen [OF failed(2) reg] pins_ok_unseen [OF failed(2) assms(2)]
      by (auto simp: ready_def bp_inv_def unseen_def)
  qed
qed

lemma unpin_held:
  assumes "held s b bp p a"
  shows "unpin_page b a s = Some (SUCCESS, unpinned a s)" "ready (unpinned a s) b bp" "pins_ok (unpinned a s)"
    "page_view (unpinned a s) = page_view s"
proof -
  have h: "ready s b bp" "cached s (bp_file_desc bp) p = Some a" "pin_count (frame_of s a) > 0" "pins_ok (unpinned a s)"
    using assms by (auto simp: held_def)
  have "pin_count (frame_of s a) \<ge> 1" using h(3) by (simp add: word_le_nat_alt word_less_nat_alt)
  then show "unpin_page b a s = Some (SUCCESS, unpinned a s)"
    using h(1) by (simp add: unpin_page_def Let_def ready_def registered_def)
  show "ready (unpinned a s) b bp" "page_view (unpinned a s) = page_view s" using rph_cleanup_eq(2,3) [OF h(1-3)] .
  show "pins_ok (unpinned a s)" by (rule h(4))
qed

lemma write_held:
  assumes "held s b bp p a"
  shows "held (write_page a g s) b bp p a"
    "page_view (write_page a g s) fd q =
       (if fd = bp_file_desc bp \<and> q = p then Some ((page (frame_of s a))\<lparr>data := g (frame_data s a)\<rparr>) else page_view s fd q)"
proof -
  have h: "ready s b bp" "cached s (bp_file_desc bp) p = Some a" "bp_inv s" using assms by (auto simp: held_def ready_def)
  show "held (write_page a g s) b bp p a"
    using assms ready_write [OF h(1,2), of g] pins_ok_cong [of "unpinned a (write_page a g s)" "unpinned a s"]
    by (simp add: held_def) (simp add: write_page_frame)
  show "page_view (write_page a g s) fd q =
       (if fd = bp_file_desc bp \<and> q = p then Some ((page (frame_of s a))\<lparr>data := g (frame_data s a)\<rparr>) else page_view s fd q)"
    by (rule write_page_inv(2) [OF h(3,2)])
qed

section \<open>Trees of pages\<close>

text \<open>A leaf has its items, an internal node its separators and its children.\<close>

datatype btree = BLeaf PageNum "byte list list" | BNode PageNum "byte list list" "btree list"

primrec page_of :: "btree \<Rightarrow> PageNum" where
  "page_of (BLeaf p its) = p"
| "page_of (BNode p ss ts) = p"

primrec tree_items :: "btree \<Rightarrow> byte list list" where
  "tree_items (BLeaf p its) = its"
| "tree_items (BNode p ss ts) = concat (map tree_items ts)"

primrec tree_pages :: "btree \<Rightarrow> PageNum list" where
  "tree_pages (BLeaf p its) = [p]"
| "tree_pages (BNode p ss ts) = p # concat (map tree_pages ts)"

text \<open>The pages \<open>v\<close> hold the tree.\<close>

primrec tree_rep :: "IndexFileHeader \<Rightarrow> (PageNum \<Rightarrow> mem option) \<Rightarrow> btree \<Rightarrow> bool" where
  "tree_rep hdr v (BLeaf p its) \<longleftrightarrow> (\<exists>d. v p = Some d \<and> is_leaf d \<and> 0 \<le> node_size d \<and> leaf_items hdr d = its)"
| "tree_rep hdr v (BNode p ss ts) \<longleftrightarrow> (\<exists>d. v p = Some d \<and> \<not> is_leaf d \<and> 0 < node_size d \<and> separators hdr d = ss \<and>
     children hdr d = map page_of ts) \<and> list_all (tree_rep hdr v) ts"

text \<open>The keys of child \<open>i\<close> are below the separators from \<open>i\<close> on and not below those in front of it.\<close>

definition between :: "IndexFileHeader \<Rightarrow> byte list list \<Rightarrow> nat \<Rightarrow> byte list \<Rightarrow> bool" where
  "between hdr ss i k \<longleftrightarrow> (\<forall>j<i. j < length ss \<longrightarrow> kcmp hdr (ss ! j) k \<le> 0) \<and> (\<forall>j<length ss. i \<le> j \<longrightarrow> kcmp hdr (ss ! j) k > 0)"

primrec search_tree :: "IndexFileHeader \<Rightarrow> byte list set \<Rightarrow> btree \<Rightarrow> bool" where
  "search_tree hdr K (BLeaf p its) \<longleftrightarrow> ordered hdr K (map (key_of hdr) its)"
| "search_tree hdr K (BNode p ss ts) \<longleftrightarrow> ordered hdr K ss \<and> length ts = Suc (length ss) \<and> list_all (search_tree hdr K) ts \<and>
     (\<forall>i<length ts. \<forall>it\<in>set (tree_items (ts ! i)). between hdr ss i (key_of hdr it))"

text \<open>
  The reference descent: \<open>g\<close> chooses the child by the separators.  For a key it is the child behind the last
  separator that is not above the key.
\<close>

definition child_index :: "IndexFileHeader \<Rightarrow> byte list \<Rightarrow> byte list list \<Rightarrow> nat" where
  "child_index hdr k ss = length (takeWhile (\<lambda>x. kcmp hdr x k \<le> 0) ss)"

primrec leaf_at :: "(byte list list \<Rightarrow> nat) \<Rightarrow> btree \<Rightarrow> PageNum \<times> byte list list" where
  "leaf_at g (BLeaf p its) = (p, its)"
| "leaf_at g (BNode p ss ts) = map (leaf_at g) ts ! g ss"

abbreviation leaf_for :: "IndexFileHeader \<Rightarrow> byte list \<Rightarrow> btree \<Rightarrow> PageNum \<times> byte list list" where
  "leaf_for hdr k \<equiv> leaf_at (child_index hdr k)"

text \<open>The tree with the items of the leaf for \<open>k\<close> changed by \<open>f\<close>.\<close>

primrec tree_change :: "IndexFileHeader \<Rightarrow> byte list \<Rightarrow> (byte list list \<Rightarrow> byte list list) \<Rightarrow> btree \<Rightarrow> btree" where
  "tree_change hdr k f (BLeaf p its) = BLeaf p (f its)"
| "tree_change hdr k f (BNode p ss ts) =
     BNode p ss (ts[child_index hdr k ss := map (tree_change hdr k f) ts ! child_index hdr k ss])"

lemma child_index_le: "child_index hdr k ss \<le> length ss"
  by (simp add: child_index_def length_takeWhile_le)

lemma between_index:
  assumes "between hdr ss i k" "i \<le> length ss"
  shows "i = child_index hdr k ss"
proof -
  have "takeWhile (\<lambda>x. kcmp hdr x k \<le> 0) ss = take i ss"
    using assms by (intro takeWhile_eq_take_P_nth) (auto simp: between_def)
  then show ?thesis using assms(2) by (simp add: child_index_def)
qed

lemma search_tree_keys: "search_tree hdr K t \<Longrightarrow> it \<in> set (tree_items t) \<Longrightarrow> key_of hdr it \<in> K"
  by (induction t) (auto simp: ordered_def list_all_iff)

lemma key_child_eq:
  assumes "hdr_good hdr" "ordered hdr K (separators hdr d)" "bytes_at key 0 (key_size hdr) \<in> K" "0 < node_size d"
  defines "i \<equiv> child_index hdr (bytes_at key 0 (key_size hdr)) (separators hdr d)"
  shows "key_child hdr key d = Some (children hdr d ! i)" "between hdr (separators hdr d) i (bytes_at key 0 (key_size hdr))"
proof -
  obtain c found pos where c: "internal_lookup hdr d key = Some (c, found, pos)" "c < num d"
      "\<forall>j<c. kcmp hdr (separators hdr d ! j) (bytes_at key 0 (key_size hdr)) \<le> 0"
      "\<forall>j. c \<le> j \<and> j < num d - 1 \<longrightarrow> kcmp hdr (separators hdr d ! j) (bytes_at key 0 (key_size hdr)) > 0"
    using internal_lookup_child [OF assms(1-4)] by blast
  then have bt: "between hdr (separators hdr d) c (bytes_at key 0 (key_size hdr))" by (auto simp: between_def)
  then have i: "i = c" using between_index [OF bt] c(2) by (simp add: i_def)
  then show "between hdr (separators hdr d) i (bytes_at key 0 (key_size hdr))" using bt by simp
  show "key_child hdr key d = Some (children hdr d ! i)"
    using c(1,2) i by (simp add: key_child_def internal_value_at_def children_def zless_nat_eq_int_zless)
qed

text \<open>All items in front of the leaf have smaller keys, all items behind it larger ones.\<close>

lemma split_concat: "i < length xs \<Longrightarrow> concat xs = concat (take i xs) @ xs ! i @ concat (drop (Suc i) xs)"
  by (metis concat.simps(2) concat_append id_take_nth_drop)

lemma in_concat_take: "x \<in> set (concat (take n xs)) \<Longrightarrow> \<exists>j<length xs. x \<in> set (xs ! j) \<and> j < n"
  unfolding set_concat by (fastforce simp: in_set_conv_nth [of _ "take n xs"])

lemma in_concat_drop:
  assumes "x \<in> set (concat (drop n xs))"
  shows "\<exists>j<length xs. x \<in> set (xs ! j) \<and> n \<le> j"
proof -
  obtain j where "j < length (drop n xs)" "x \<in> set (drop n xs ! j)"
    using assms unfolding set_concat by (auto simp: in_set_conv_nth [of _ "drop n xs"])
  then show ?thesis by (intro exI [of _ "n + j"]) simp
qed

lemma left_of_key:
  assumes "ordered hdr K ss" "k \<in> K" "x \<in> K" "between hdr ss i k" "between hdr ss j x" "j < i" "i \<le> length ss"
  shows "kcmp hdr x k < 0"
proof -
  have o: "key_order (kcmp hdr) K" "ss ! j \<in> K" using assms(1,6,7) by (auto simp: ordered_def)
  have "kcmp hdr x (ss ! j) < 0" "kcmp hdr (ss ! j) k \<le> 0"
    using assms key_order.swap [OF o(1) assms(3) o(2)] by (auto simp: between_def)
  then show ?thesis using key_order.less_le_trans [OF o(1) assms(3) o(2) assms(2)] by blast
qed

lemma child_index_between:
  assumes "ordered hdr K ss" "k \<in> K"
  shows "between hdr ss (child_index hdr k ss) k"
  unfolding between_def child_index_def
proof (intro conjI allI impI)
  have ko: "key_order (kcmp hdr) K" using assms(1) by (simp add: ordered_def)
  let ?P = "\<lambda>x. kcmp hdr x k \<le> 0"
  show "kcmp hdr (ss ! j) k \<le> 0" if "j < length (takeWhile ?P ss)" for j
    using nth_mem [OF that] takeWhile_nth [OF that] by (metis set_takeWhileD)
  show "kcmp hdr (ss ! j) k > 0" if j: "j < length ss" "length (takeWhile ?P ss) \<le> j" for j
  proof -
    let ?n = "length (takeWhile ?P ss)"
    have nl: "?n < length ss" using j by linarith
    then have n0: "kcmp hdr (ss ! ?n) k > 0" using nth_length_takeWhile [OF nl] by simp
    show ?thesis
    proof (cases "j = ?n")
      case False
      then have "kcmp hdr (ss ! ?n) (ss ! j) < 0" using assms(1) j sorted_wrt_nth_less by (fastforce simp: ordered_def)
      moreover have "ss ! ?n \<in> K" "ss ! j \<in> K" using assms(1) nl j by (auto simp: ordered_def)
      ultimately show ?thesis
        using n0 key_order.less_trans [OF ko assms(2), of "ss ! ?n" "ss ! j"] key_order.swap [OF ko assms(2)] by auto
    qed (use n0 in simp)
  qed
qed

lemma leaf_for_split:
  assumes "search_tree hdr K t" "k \<in> K"
  shows "\<exists>xs ys. tree_items t = xs @ snd (leaf_for hdr k t) @ ys \<and> fst (leaf_for hdr k t) \<in> set (tree_pages t) \<and>
    (\<forall>f. tree_items (tree_change hdr k f t) = xs @ f (snd (leaf_for hdr k t)) @ ys) \<and>
    (\<forall>it\<in>set xs. kcmp hdr (key_of hdr it) k < 0) \<and> (\<forall>it\<in>set ys. kcmp hdr k (key_of hdr it) < 0)"
  using assms(1)
proof (induction t)
  case (BNode p ss ts)
  let ?i = "child_index hdr k ss"
  have o: "ordered hdr K ss" "key_order (kcmp hdr) K" and n: "length ts = Suc (length ss)" using BNode.prems by (auto simp: ordered_def)
  have i: "?i < length ts" "?i \<le> length ss" using child_index_le n by (auto simp: le_imp_less_Suc)
  have bt: "between hdr ss ?i k" by (rule child_index_between [OF o(1) assms(2)])
  have st: "search_tree hdr K (ts ! j)" if "j < length ts" for j using BNode.prems that by (simp add: list_all_length)
  obtain xs ys where IH: "tree_items (ts ! ?i) = xs @ snd (leaf_for hdr k (ts ! ?i)) @ ys"
      "\<forall>f. tree_items (tree_change hdr k f (ts ! ?i)) = xs @ f (snd (leaf_for hdr k (ts ! ?i))) @ ys"
      "fst (leaf_for hdr k (ts ! ?i)) \<in> set (tree_pages (ts ! ?i))"
      "\<forall>it\<in>set xs. kcmp hdr (key_of hdr it) k < 0" "\<forall>it\<in>set ys. kcmp hdr k (key_of hdr it) < 0"
    using BNode.IH [OF nth_mem [OF i(1)] st [OF i(1)]] by blast
  have in_child: "\<exists>j. j < length ts \<and> it \<in> set (tree_items (ts ! j)) \<and> between hdr ss j (key_of hdr it) \<and> key_of hdr it \<in> K \<and> Q j"
    if "\<exists>j<length ts. it \<in> set (tree_items (ts ! j)) \<and> Q j" for it Q
    using that BNode.prems search_tree_keys [OF st] by auto
  have "kcmp hdr (key_of hdr it) k < 0" if it: "it \<in> set (concat (take ?i (map tree_items ts)))" for it
  proof -
    have "\<exists>j<length ts. it \<in> set (tree_items (ts ! j)) \<and> j < ?i" using in_concat_take [OF it] by auto
    from in_child [OF this] show ?thesis using left_of_key [OF o(1) assms(2) _ bt _ _ i(2)] by blast
  qed
  moreover have "kcmp hdr k (key_of hdr it) < 0" if it: "it \<in> set (concat (drop (Suc ?i) (map tree_items ts)))" for it
  proof -
    have "\<exists>j<length ts. it \<in> set (tree_items (ts ! j)) \<and> ?i < j" using in_concat_drop [OF it] by (auto simp: Suc_le_eq)
    from in_child [OF this] obtain j where "?i < j" "j < length ts" "between hdr ss j (key_of hdr it)" "key_of hdr it \<in> K" by blast
    then show ?thesis using left_of_key [OF o(1) _ assms(2) _ bt, of "key_of hdr it" j] n by simp
  qed
  moreover have changed: "tree_items (tree_change hdr k f (BNode p ss ts)) = concat (take ?i (map tree_items ts)) @
      tree_items (tree_change hdr k f (ts ! ?i)) @ concat (drop (Suc ?i) (map tree_items ts))" for f
    using i(1) split_concat [of ?i "map tree_items (ts[?i := tree_change hdr k f (ts ! ?i)])"] by (simp add: map_update)
  ultimately have "tree_items (BNode p ss ts) = (concat (take ?i (map tree_items ts)) @ xs) @ snd (leaf_for hdr k (BNode p ss ts)) @
        (ys @ concat (drop (Suc ?i) (map tree_items ts))) \<and>
      (\<forall>f. tree_items (tree_change hdr k f (BNode p ss ts)) = (concat (take ?i (map tree_items ts)) @ xs) @
        f (snd (leaf_for hdr k (BNode p ss ts))) @ (ys @ concat (drop (Suc ?i) (map tree_items ts)))) \<and>
      (\<forall>it\<in>set (concat (take ?i (map tree_items ts)) @ xs). kcmp hdr (key_of hdr it) k < 0) \<and>
      (\<forall>it\<in>set (ys @ concat (drop (Suc ?i) (map tree_items ts))). kcmp hdr k (key_of hdr it) < 0)"
    using IH(1,2,4,5) split_concat [of ?i "map tree_items ts"] changed i(1) by auto
  moreover have "fst (leaf_for hdr k (BNode p ss ts)) \<in> set (tree_pages (BNode p ss ts))"
    using IH(3) i(1) nth_mem [OF i(1)] by auto
  ultimately show ?case by blast
qed (intro exI [of _ "[]"], simp)

section \<open>The descent over the buffer pool\<close>

definition data_view :: "BPSys \<Rightarrow> int \<Rightarrow> PageNum \<Rightarrow> mem option" where
  "data_view s fd p = map_option data (page_view s fd p)"

lemma data_view_held: "held s b bp p a \<Longrightarrow> data_view s (bp_file_desc bp) p = Some (frame_data s a)"
  by (simp add: data_view_def held_page)

lemma tree_rep_page: "tree_rep hdr v t \<Longrightarrow> v (page_of t) \<noteq> None"
  by (cases t) auto

text \<open>What a search returns: the frame of the leaf, or an error that is a lack of frames when the disk works.\<close>

definition found_leaf :: "IndexFileHeader \<Rightarrow> nat \<Rightarrow> DiskBufferPool \<Rightarrow> PageNum \<times> byte list list \<Rightarrow> BPSys \<Rightarrow> RC \<Rightarrow> nat option \<Rightarrow> BPSys \<Rightarrow> bool" where
  "found_leaf hdr b bp L s rc r s' \<longleftrightarrow> page_view s' = page_view s \<and>
     (case r of
        Some a \<Rightarrow> rc = SUCCESS \<and> held s' b bp (fst L) a \<and> is_leaf (frame_data s' a) \<and> 0 \<le> node_size (frame_data s' a) \<and>
          leaf_items hdr (frame_data s' a) = snd L
      | None \<Rightarrow> rc \<in> fetch_errors \<and> ready s' b bp \<and> pins_ok s' \<and> (os_io_faults (os s) = [] \<longrightarrow> rc = NOMEM))"

lemma found_leafD:
  assumes "found_leaf hdr b bp L s rc r s'"
  shows "page_view s' = page_view s"
    "rc = SUCCESS \<longrightarrow> (\<exists>a. r = Some a \<and> held s' b bp (fst L) a \<and> is_leaf (frame_data s' a) \<and> leaf_items hdr (frame_data s' a) = snd L)"
    "rc \<noteq> SUCCESS \<longrightarrow> r = None \<and> (os_io_faults (os s) = [] \<longrightarrow> rc = NOMEM)"
  using assms by (auto simp: found_leaf_def split: option.splits)

lemma descend_leaf: "is_leaf (frame_data s a) \<Longrightarrow> descend getter b a s = Some (SUCCESS, Some a, s)"
  by (simp add: descend.simps)

lemma descend_tree:
  assumes getter: "\<And>d. ordered hdr K (separators hdr d) \<Longrightarrow> 0 < node_size d \<Longrightarrow>
      getter d = Some (children hdr d ! g (separators hdr d)) \<and> g (separators hdr d) \<le> length (separators hdr d)"
    and "search_tree hdr K t" "tree_rep hdr (data_view s (bp_file_desc bp)) t" "held s b bp (page_of t) a"
  shows "\<exists>rc r s'. descend getter b a s = Some (rc, r, s') \<and> found_leaf hdr b bp (leaf_at g t) s rc r s'"
  using assms(2-)
proof (induction t arbitrary: s a)
  case (BLeaf p its)
  then have "is_leaf (frame_data s a) \<and> 0 \<le> node_size (frame_data s a) \<and> leaf_items hdr (frame_data s a) = its"
    using data_view_held [OF BLeaf.prems(3)] by auto
  then show ?case using BLeaf.prems(3) by (simp add: descend_leaf found_leaf_def)
next
  case (BNode p ss ts)
  let ?d = "frame_data s a" and ?s = "unpinned a s"
  have d: "\<not> is_leaf ?d" "0 < node_size ?d" "separators hdr ?d = ss" "children hdr ?d = map page_of ts"
    using data_view_held [OF BNode.prems(3)] BNode.prems(2) by auto
  have o: "ordered hdr K ss" "length ts = Suc (length ss)" using BNode.prems(1) by auto
  have i: "g ss < length ts" "getter ?d = Some (page_of (ts ! g ss))" using getter [of ?d] d o by auto
  note u = unpin_held [OF BNode.prems(3)]
  have st: "search_tree hdr K (ts ! g ss)" "tree_rep hdr (data_view s (bp_file_desc bp)) (ts ! g ss)"
    using BNode.prems(1,2) i(1) by (auto simp: list_all_length)
  have step: "descend getter b a s = do {
      (rc, frame, s) \<leftarrow> get_this_page b (page_of (ts ! g ss)) ?s;
      if rc \<noteq> SUCCESS then Some (rc, None, s) else do { a \<leftarrow> frame; descend getter b a s } }"
    using d(1) i(2) u(1) by (subst descend.simps) simp
  from u(2,3) show ?case
  proof (cases rule: fetch_cases [where p = "page_of (ts ! g ss)"])
    case (fetched a1 s1)
    have pv: "page_view s1 = page_view s" using fetched(3) u(4) by simp
    then have "tree_rep hdr (data_view s1 (bp_file_desc bp)) (ts ! g ss)" using st(2) by (simp add: data_view_def [abs_def])
    from BNode.IH [OF nth_mem [OF i(1)] st(1) this fetched(2)] obtain rc r s' where
      "descend getter b a1 s1 = Some (rc, r, s')" "found_leaf hdr b bp (leaf_at g (ts ! g ss)) s1 rc r s'" by blast
    then show ?thesis using step fetched(1,4) pv i(1) by (auto simp: found_leaf_def split: option.splits)
  next
    case (refused rc s1)
    have "page_view s (bp_file_desc bp) (page_of (ts ! g ss)) \<noteq> None" using tree_rep_page [OF st(2)] by (simp add: data_view_def)
    then show ?thesis using step refused u(4) by (auto simp: found_leaf_def)
  qed
qed

lemma find_leaf_internal_tree:
  assumes getter: "\<And>d. ordered hdr K (separators hdr d) \<Longrightarrow> 0 < node_size d \<Longrightarrow>
      getter d = Some (children hdr d ! g (separators hdr d)) \<and> g (separators hdr d) \<le> length (separators hdr d)"
    and "search_tree hdr K T" "tree_rep hdr (data_view s (bp_file_desc bp)) T" "ready s b bp" "pins_ok s"
    and "bt_pool t = Some b" "root_page (bt_header t) = page_of T" "page_of T \<noteq> - 1"
  shows "\<exists>rc r s'. find_leaf_internal getter t s = Some (rc, r, s') \<and> found_leaf hdr b bp (leaf_at g T) s rc r s'"
  using assms(4,5)
proof (cases rule: fetch_cases [where p = "page_of T"])
  case (fetched a s1)
  have "tree_rep hdr (data_view s1 (bp_file_desc bp)) T" using assms(3) fetched(3) by (simp add: data_view_def [abs_def])
  from descend_tree [OF getter assms(2) this fetched(2)] obtain rc r s' where
    "descend getter b a s1 = Some (rc, r, s')" "found_leaf hdr b bp (leaf_at g T) s1 rc r s'" by blast
  then show ?thesis using fetched(1,3,4) assms(6-8)
    by (auto simp: find_leaf_internal_def bt_is_empty_def found_leaf_def split: option.splits)
next
  case (refused rc s1)
  have "page_view s (bp_file_desc bp) (page_of T) \<noteq> None" using tree_rep_page [OF assms(3)] by (simp add: data_view_def)
  then show ?thesis using refused assms(6-8) by (auto simp: find_leaf_internal_def bt_is_empty_def found_leaf_def)
qed

section \<open>Indexes\<close>

text \<open>The pages of pool \<open>b\<close> hold the tree \<open>T\<close> of the handler \<open>t\<close>.\<close>

definition index_tree :: "BplusTreeHandler \<Rightarrow> nat \<Rightarrow> int \<Rightarrow> byte list set \<Rightarrow> btree \<Rightarrow> BPSys \<Rightarrow> bool" where
  "index_tree t b fd K T s \<longleftrightarrow> bt_pool t = Some b \<and> hdr_good (bt_header t) \<and> root_page (bt_header t) = page_of T \<and>
     page_of T \<noteq> - 1 \<and> search_tree (bt_header t) K T \<and> tree_rep (bt_header t) (data_view s fd) T \<and> distinct (tree_pages T)"

lemma find_leaf_tree:
  assumes "index_tree t b (bp_file_desc bp) K T s" "ready s b bp" "pins_ok s" "bytes_at key 0 (key_size (bt_header t)) \<in> K"
  shows "\<exists>rc r s'. find_leaf key t s = Some (rc, r, s') \<and>
    found_leaf (bt_header t) b bp (leaf_for (bt_header t) (bytes_at key 0 (key_size (bt_header t))) T) s rc r s'"
  unfolding find_leaf_def
proof (rule find_leaf_internal_tree)
  fix d
  assume "ordered (bt_header t) K (separators (bt_header t) d)" "0 < node_size d"
  then show "key_child (bt_header t) key d = Some (children (bt_header t) d !
        child_index (bt_header t) (bytes_at key 0 (key_size (bt_header t))) (separators (bt_header t) d)) \<and>
      child_index (bt_header t) (bytes_at key 0 (key_size (bt_header t))) (separators (bt_header t) d) \<le> length (separators (bt_header t) d)"
    using assms key_child_eq(1) child_index_le by (auto simp: index_tree_def simp del: length_internal)
qed (use assms in \<open>auto simp: index_tree_def\<close>)

text \<open>An index with a root over an empty leaf and a leaf with three entries, on keys with small integers.\<close>

definition demo_keys :: "byte list set" where
  "demo_keys = {k. valid_rid (key_rid demo_hdr k) \<and> 0 \<le> load_int (bmem k) 0 \<and> load_int (bmem k) 0 \<le> 100}"

definition int_key :: "int \<Rightarrow> byte list" where
  "int_key n = bytes_at (store_int (\<lambda>_. 0) 0 n) 0 12"

definition int_entry :: "int \<Rightarrow> byte list" where
  "int_entry n = int_key n @ bytes_at (\<lambda>_. 0) 0 8"

definition put_int :: "nat \<Rightarrow> int \<Rightarrow> mem \<Rightarrow> mem" where
  "put_int i n = leaf_insert demo_hdr i (bmem (int_key n)) (\<lambda>_. 0)"

definition demo_index_root :: mem where
  "demo_index_root = create_new_root demo_hdr 3 (bmem demo_key) 4 (internal_init_empty (\<lambda>_. 0))"

definition three_leaf :: mem where
  "three_leaf = put_int 2 7 (put_int 1 6 (put_int 0 5 (leaf_init_empty (\<lambda>_. 0))))"

definition index_file :: "Page list" where
  "index_file = [two_pages ! 0, \<lparr>page_num = 1, data = \<lambda>_. 0\<rparr>, \<lparr>page_num = 2, data = demo_index_root\<rparr>,
     \<lparr>page_num = 3, data = leaf_init_empty (\<lambda>_. 0)\<rparr>, \<lparr>page_num = 4, data = three_leaf\<rparr>]"

definition demo_tree :: btree where
  "demo_tree = BNode 2 [demo_key] [BLeaf 3 [], BLeaf 4 [int_entry 5, int_entry 6, int_entry 7]]"

definition demo_index :: BplusTreeHandler where
  "demo_index = \<lparr>bt_pool = Some 0, bt_header = demo_hdr\<rparr>"

lemma demo_keys_order: "key_order (kcmp demo_hdr) demo_keys"
  by (rule keys_order [of demo_keys demo_hdr 100 0]) (auto simp: demo_keys_def demo_type)

lemma int_key_length [simp]: "length (int_key n) = 12" by (simp add: int_key_def)

lemma int_key_loads:
  assumes "0 \<le> n" "n \<le> 100"
  shows "load_int (bmem (int_key n)) 0 = n" "load_int (bmem (int_key n)) 4 = 0" "load_int (bmem (int_key n)) 8 = 0"
proof -
  have l: "load_int (bmem (int_key n)) i = load_int (store_int (\<lambda>_. 0) 0 n) i" if "i \<le> 8" for i
    using that unfolding int_key_def by (intro load_int_cong) (simp add: bmem_bytes_at)
  have "load_int (\<lambda>_. 0) i = 0" for i by (simp add: load_int_def load_u32_def)
  then show "load_int (bmem (int_key n)) 0 = n" "load_int (bmem (int_key n)) 4 = 0" "load_int (bmem (int_key n)) 8 = 0"
    using l [of 0] l [of 4] l [of 8] assms by (simp_all add: mem_simps wrap32_def)
qed

lemma int_key_in: "0 \<le> n \<Longrightarrow> n \<le> 100 \<Longrightarrow> int_key n \<in> demo_keys"
  by (simp add: demo_keys_def key_rid_def valid_rid_def int_key_loads demo_hdr_def)

lemma kcmp_int_key: "0 \<le> m \<Longrightarrow> m \<le> 100 \<Longrightarrow> 0 \<le> n \<Longrightarrow> n \<le> 100 \<Longrightarrow> kcmp demo_hdr (int_key m) (int_key n) = m - n"
  by (simp add: kcmp_def KeyComparator_def AttrComparator_def compare_int_def rid_compare_def demo_hdr_def int_key_loads load_at_off wrap32_id)

lemma demo_int_key: "demo_key = int_key 5" by (simp add: demo_key_def int_key_def)

lemma int_entry_key [simp]: "key_of demo_hdr (int_entry n) = int_key n"
  by (simp add: int_entry_def demo_hdr_good)

lemma put_int_facts:
  assumes "is_leaf d" "node_size d = int (length its)" "leaf_items demo_hdr d = its" "i \<le> length its" "length its < 100"
  shows "is_leaf (put_int i n d)" "node_size (put_int i n d) = int (length (insert_at i (int_entry n) its))"
    "leaf_items demo_hdr (put_int i n d) = insert_at i (int_entry n) its"
  using leaf_insert_items [of i d demo_hdr "bmem (int_key n)" "\<lambda>_. 0"] assms bytes_at_bmem [of "int_key n" 12]
  by (simp_all add: put_int_def same_links_def int_entry_def demo_hdr_good)

lemma three_leaf_facts: "is_leaf three_leaf" "node_size three_leaf = 3" "leaf_items demo_hdr three_leaf = [int_entry 5, int_entry 6, int_entry 7]"
proof -
  have "leaf_items demo_hdr (leaf_init_empty (\<lambda>_. 0)) = []" by (simp add: leaf_items_def leaf_init_empty_facts items_def)
  note p1 = put_int_facts [of "leaf_init_empty (\<lambda>_. 0)" "[]" 0 5, OF leaf_init_empty_facts(2) _ this]
  note p2 = put_int_facts [OF p1, of 1 6]
  note p3 = put_int_facts [OF p2, of 2 7]
  show "is_leaf three_leaf" "node_size three_leaf = 3" "leaf_items demo_hdr three_leaf = [int_entry 5, int_entry 6, int_entry 7]"
    using p3 by (simp_all add: three_leaf_def leaf_init_empty_facts)
qed

lemma demo_search_tree: "search_tree demo_hdr demo_keys demo_tree"
  using demo_keys_order
  by (auto simp: demo_tree_def ordered_def between_def less_Suc_eq demo_int_key int_key_in kcmp_int_key)

lemma demo_index_file:
  obtains s bp where "bpm_open_file ''t'' (bpm_new (demo_os index_file)) = Some (SUCCESS, Some 0, s)"
    "ready s 0 bp" "pins_ok s" "index_tree demo_index 0 (bp_file_desc bp) demo_keys demo_tree s" "os_io_faults (os s) = []"
proof (rule demo_open [of index_file])
  show "file_ok index_file"
    using two_pages_ok by (auto simp: index_file_def file_ok_def two_pages_def nth_Cons split: nat.splits)
  show "index_file \<noteq> []" by (simp add: index_file_def)
next
  fix s bp h
  assume d: "bpm_open_file ''t'' (bpm_new (demo_os index_file)) = Some (SUCCESS, Some 0, s)" "bp_inv s"
    "registered s 0 bp" "bp_file_desc bp = 3" "bp_disposed_pages bp = {}" "pin_count (frame_of s h) = 1"
    "\<And>q. stored (os s) 3 q = (if 0 \<le> q \<and> nat q < length index_file then Some (index_file ! nat q) else None)"
    "os_io_faults (os s) = []" "\<And>fd q. cached s fd q = (if fd = 3 \<and> q = 0 then Some h else None)"
  have v: "data_view s 3 2 = Some demo_index_root" "data_view s 3 3 = Some (leaf_init_empty (\<lambda>_. 0))" "data_view s 3 4 = Some three_leaf"
    using d(7,9) by (simp_all add: data_view_def page_view_def index_file_def)
  note r = create_new_root_items [of "internal_init_empty (\<lambda>_. 0)" demo_hdr 3 "bmem demo_key" 4, OF internal_init_empty_facts(1), folded demo_index_root_def]
  have "separators demo_hdr demo_index_root = [demo_key]"
    by (simp add: separators_def r(1) demo_hdr_good demo_key_bytes length_demo_key)
  moreover have "children demo_hdr demo_index_root = [3, 4]"
    by (simp add: children_items r(1) demo_hdr_good demo_key_bytes length_demo_key load_page_bytes wrap32_def)
  moreover have "leaf_items demo_hdr (leaf_init_empty (\<lambda>_. 0)) = []" by (simp add: leaf_items_def leaf_init_empty_facts items_def)
  ultimately have "tree_rep demo_hdr (data_view s 3) demo_tree"
    using v r by (simp add: demo_tree_def internal_init_empty_facts leaf_init_empty_facts three_leaf_facts)
  then have "index_tree demo_index 0 (bp_file_desc bp) demo_keys demo_tree s"
    using demo_search_tree d(4) demo_hdr_good(1) by (simp add: index_tree_def demo_index_def demo_tree_def) (simp add: demo_hdr_def)
  then show thesis using that d by (auto simp: ready_def pins_ok_def)
qed

section \<open>The first and the last leaf\<close>

lemma leaf_at_first: "search_tree hdr K T \<Longrightarrow> \<exists>ys. tree_items T = snd (leaf_at (\<lambda>_. 0) T) @ ys"
proof (induction T)
  case (BNode p ss ts)
  then obtain t ts' where ts: "ts = t # ts'" by (cases ts) auto
  then obtain ys where "tree_items t = snd (leaf_at (\<lambda>_. 0) t) @ ys" using BNode by fastforce
  then show ?case using ts by simp
qed simp

lemma leaf_at_last: "search_tree hdr K T \<Longrightarrow> \<exists>xs. tree_items T = xs @ snd (leaf_at length T)"
proof (induction T)
  case (BNode p ss ts)
  then obtain ts' t where ts: "ts = ts' @ [t]" by (cases ts rule: rev_cases) auto
  then obtain xs where "tree_items t = xs @ snd (leaf_at length t)" using BNode by fastforce
  moreover have "length ss = length ts'" using BNode.prems ts by simp
  ultimately show ?case using ts by (auto simp: nth_append)
qed simp

lemma first_child_eq: "0 < node_size d \<Longrightarrow> first_child hdr d = Some (children hdr d ! 0)"
  by (simp add: first_child_def internal_value_at_def children_def)

lemma last_child_eq: "0 < node_size d \<Longrightarrow> last_child hdr d = Some (children hdr d ! length (separators hdr d))"
proof -
  assume n: "0 < node_size d"
  have "nat (node_size d - 1) = num d - 1" "int (num d - 1) < node_size d" "num d - 1 < num d" using n by linarith+
  then show ?thesis using n by (simp add: last_child_def internal_value_at_def children_def)
qed

section \<open>Properties\<close>

text \<open>
  C27. Finding a leaf: on pages that hold a search tree \<^verbatim>\<open>find_leaf\<close> returns, no page changes, and on success the
  returned frame is pinned and holds the leaf that splits the tree's entries at the key: all entries of leaves in front of it have
  smaller keys, all entries of leaves behind it larger ones.  Without I/O failures only a lack of frames
  makes it fail.
\<close>

theorem find_leaf_correct:
  assumes "index_tree t b (bp_file_desc bp) K T s" "ready s b bp" "pins_ok s" "bytes_at key 0 (key_size (bt_header t)) \<in> K"
  shows "\<exists>rc r s'. find_leaf key t s = Some (rc, r, s') \<and> page_view s' = page_view s \<and>
    (rc = SUCCESS \<longrightarrow> (\<exists>a p xs ys. r = Some a \<and> held s' b bp p a \<and> p \<in> set (tree_pages T) \<and> is_leaf (frame_data s' a) \<and>
       tree_items T = xs @ leaf_items (bt_header t) (frame_data s' a) @ ys \<and>
       (\<forall>it\<in>set xs. kcmp (bt_header t) (key_of (bt_header t) it) (bytes_at key 0 (key_size (bt_header t))) < 0) \<and>
       (\<forall>it\<in>set ys. kcmp (bt_header t) (bytes_at key 0 (key_size (bt_header t))) (key_of (bt_header t) it) < 0))) \<and>
    (rc \<noteq> SUCCESS \<longrightarrow> r = None \<and> (os_io_faults (os s) = [] \<longrightarrow> rc = NOMEM))"
proof -
  let ?h = "bt_header t" and ?k = "bytes_at key 0 (key_size (bt_header t))"
  obtain rc r s' where f: "find_leaf key t s = Some (rc, r, s')" "found_leaf ?h b bp (leaf_for ?h ?k T) s rc r s'"
    using find_leaf_tree [OF assms] by blast
  have st: "search_tree ?h K T" using assms(1) by (simp add: index_tree_def)
  obtain xs ys where sp: "tree_items T = xs @ snd (leaf_for ?h ?k T) @ ys" "fst (leaf_for ?h ?k T) \<in> set (tree_pages T)"
      "\<forall>it\<in>set xs. kcmp ?h (key_of ?h it) ?k < 0" "\<forall>it\<in>set ys. kcmp ?h ?k (key_of ?h it) < 0"
    using leaf_for_split [OF st assms(4)] by blast
  show ?thesis
  proof (cases r)
    case None
    then show ?thesis using f by (auto simp: found_leaf_def)
  next
    case (Some a)
    then have "held s' b bp (fst (leaf_for ?h ?k T)) a" "tree_items T = xs @ leaf_items ?h (frame_data s' a) @ ys"
      "is_leaf (frame_data s' a)" "rc = SUCCESS" "page_view s' = page_view s"
      using f(2) sp(1) by (auto simp: found_leaf_def)
    then show ?thesis using f(1) Some sp(2-4) by blast
  qed
qed

theorem find_leaf_correct_witness:
  "\<exists>s0 rc r s'. bpm_open_file ''t'' (bpm_new (demo_os index_file)) = Some (SUCCESS, Some 0, s0) \<and>
     find_leaf (bmem demo_key) demo_index s0 = Some (rc, r, s') \<and> rc \<in> {SUCCESS, NOMEM} \<and> page_view s' = page_view s0"
proof -
  obtain s bp where d: "bpm_open_file ''t'' (bpm_new (demo_os index_file)) = Some (SUCCESS, Some 0, s)"
    "ready s 0 bp" "pins_ok s" "index_tree demo_index 0 (bp_file_desc bp) demo_keys demo_tree s" "os_io_faults (os s) = []"
    by (rule demo_index_file)
  have "bytes_at (bmem demo_key) 0 (key_size (bt_header demo_index)) \<in> demo_keys"
    using demo_key_facts by (simp add: demo_index_def demo_hdr_good demo_key_bytes demo_keys_def)
  from find_leaf_correct [OF d(4,2,3) this] show ?thesis using d(1,5) by blast
qed

text \<open>
  The two ends: \<^verbatim>\<open>left_most_page\<close> and \<^verbatim>\<open>right_most_page\<close> return, change no page, and on success pin the leaf with
  the first and with the last entries of the tree.
\<close>

theorem end_leaves_correct:
  assumes "index_tree t b (bp_file_desc bp) K T s" "ready s b bp" "pins_ok s"
  shows "(\<exists>rc r s'. left_most_page t s = Some (rc, r, s') \<and> page_view s' = page_view s \<and>
      (rc = SUCCESS \<longrightarrow> (\<exists>a p ys. r = Some a \<and> held s' b bp p a \<and> is_leaf (frame_data s' a) \<and>
         tree_items T = leaf_items (bt_header t) (frame_data s' a) @ ys)) \<and>
      (rc \<noteq> SUCCESS \<longrightarrow> r = None \<and> (os_io_faults (os s) = [] \<longrightarrow> rc = NOMEM))) \<and>
    (\<exists>rc r s'. right_most_page t s = Some (rc, r, s') \<and> page_view s' = page_view s \<and>
      (rc = SUCCESS \<longrightarrow> (\<exists>a p xs. r = Some a \<and> held s' b bp p a \<and> is_leaf (frame_data s' a) \<and>
         tree_items T = xs @ leaf_items (bt_header t) (frame_data s' a))) \<and>
      (rc \<noteq> SUCCESS \<longrightarrow> r = None \<and> (os_io_faults (os s) = [] \<longrightarrow> rc = NOMEM)))"
proof -
  let ?h = "bt_header t"
  have ix: "search_tree ?h K T" "tree_rep ?h (data_view s (bp_file_desc bp)) T" "bt_pool t = Some b"
      "root_page ?h = page_of T" "page_of T \<noteq> - 1"
    using assms(1) by (auto simp: index_tree_def)
  obtain rc r s' where l: "left_most_page t s = Some (rc, r, s')" "found_leaf ?h b bp (leaf_at (\<lambda>_. 0) T) s rc r s'"
    unfolding left_most_page_def
    using find_leaf_internal_tree [of ?h K "first_child ?h" "\<lambda>_. 0", OF _ ix(1,2) assms(2,3) ix(3-5)] by (auto simp: first_child_eq)
  obtain rc' r' s'' where r: "right_most_page t s = Some (rc', r', s'')" "found_leaf ?h b bp (leaf_at length T) s rc' r' s''"
    unfolding right_most_page_def
    using find_leaf_internal_tree [of ?h K "last_child ?h" length, OF _ ix(1,2) assms(2,3) ix(3-5)] by (auto simp: last_child_eq)
  obtain xs ys where sp: "tree_items T = snd (leaf_at (\<lambda>_. 0) T) @ ys" "tree_items T = xs @ snd (leaf_at length T)"
    using leaf_at_first [OF ix(1)] leaf_at_last [OF ix(1)] by blast
  show ?thesis
  proof (rule conjI; intro exI conjI)
    show "left_most_page t s = Some (rc, r, s')" "right_most_page t s = Some (rc', r', s'')" by (fact l r)+
    show "page_view s' = page_view s" "page_view s'' = page_view s" by (fact found_leafD(1) [OF l(2)] found_leafD(1) [OF r(2)])+
    show "rc \<noteq> SUCCESS \<longrightarrow> r = None \<and> (os_io_faults (os s) = [] \<longrightarrow> rc = NOMEM)"
      "rc' \<noteq> SUCCESS \<longrightarrow> r' = None \<and> (os_io_faults (os s) = [] \<longrightarrow> rc' = NOMEM)"
      by (fact found_leafD(3) [OF l(2)] found_leafD(3) [OF r(2)])+
    show "rc = SUCCESS \<longrightarrow> (\<exists>a p ys. r = Some a \<and> held s' b bp p a \<and> is_leaf (frame_data s' a) \<and>
         tree_items T = leaf_items (bt_header t) (frame_data s' a) @ ys)"
      using found_leafD(2) [OF l(2)] sp(1) by auto
    show "rc' = SUCCESS \<longrightarrow> (\<exists>a p xs. r' = Some a \<and> held s'' b bp p a \<and> is_leaf (frame_data s'' a) \<and>
         tree_items T = xs @ leaf_items (bt_header t) (frame_data s'' a))"
      using found_leafD(2) [OF r(2)] sp(2) by auto
  qed
qed

theorem end_leaves_correct_witness:
  "\<exists>s0 rc r s'. bpm_open_file ''t'' (bpm_new (demo_os index_file)) = Some (SUCCESS, Some 0, s0) \<and>
     right_most_page demo_index s0 = Some (rc, r, s') \<and> rc \<in> {SUCCESS, NOMEM} \<and> page_view s' = page_view s0"
proof -
  obtain s bp where d: "bpm_open_file ''t'' (bpm_new (demo_os index_file)) = Some (SUCCESS, Some 0, s)"
    "ready s 0 bp" "pins_ok s" "index_tree demo_index 0 (bp_file_desc bp) demo_keys demo_tree s" "os_io_faults (os s) = []"
    by (rule demo_index_file)
  from end_leaves_correct [OF d(4,2,3)] show ?thesis using d(1,5) by blast
qed

end
