(* ===== verification/Ob_BplusUpdate.thy ===== *)
theory Ob_BplusUpdate
  imports Ob_BplusFind
begin

text \<open>
  Insertion and deletion in a leaf of the B+ tree that neither overflows nor underflows: the pages of the file afterwards hold
  the tree of a reference operation (\<open>tree_put\<close>, \<open>tree_remove\<close>), whose list of entries is the ordered
  insertion of the entry and the list without it.
\<close>

section \<open>Changing one leaf of a tree\<close>

definition list_put :: "IndexFileHeader \<Rightarrow> byte list \<Rightarrow> byte list list \<Rightarrow> byte list list" where
  "list_put hdr it its = (let P = (\<lambda>x. kcmp hdr (key_of hdr x) (key_of hdr it) < 0) in takeWhile P its @ it # dropWhile P its)"

definition list_remove :: "IndexFileHeader \<Rightarrow> byte list \<Rightarrow> byte list list \<Rightarrow> byte list list" where
  "list_remove hdr k its = filter (\<lambda>x. kcmp hdr (key_of hdr x) k \<noteq> 0) its"

definition tree_put :: "IndexFileHeader \<Rightarrow> byte list \<Rightarrow> btree \<Rightarrow> btree" where
  "tree_put hdr it = tree_change hdr (key_of hdr it) (list_put hdr it)"

definition tree_remove :: "IndexFileHeader \<Rightarrow> byte list \<Rightarrow> btree \<Rightarrow> btree" where
  "tree_remove hdr k = tree_change hdr k (list_remove hdr k)"

lemma tree_change_page [simp]: "page_of (tree_change hdr k f T) = page_of T"
  by (cases T) simp_all

lemma map_update_same: "map g (xs[i := y]) = map g xs" if "i < length xs" "g y = g (xs ! i)"
  using that by (simp add: map_update list_update_same_conv)

lemma tree_change_pages: "search_tree hdr K T \<Longrightarrow> tree_pages (tree_change hdr k f T) = tree_pages T"
proof (induction T)
  case (BNode p ss ts)
  let ?i = "child_index hdr k ss"
  have i: "?i < length ts" using BNode.prems child_index_le [of hdr k ss] by simp
  then have "tree_pages (tree_change hdr k f (ts ! ?i)) = tree_pages (ts ! ?i)"
    using BNode by (simp add: list_all_length)
  then show ?case using i map_update_same [of ?i ts tree_pages "tree_change hdr k f (ts ! ?i)"] by simp
qed simp

text \<open>Other pages do not matter.\<close>

lemma tree_rep_other: "p \<notin> set (tree_pages T) \<Longrightarrow> tree_rep hdr (v(p := d)) T = tree_rep hdr v T"
  by (induction T) (auto simp: list_all_iff)

lemma leaf_page_in: "search_tree hdr K T \<Longrightarrow> fst (leaf_for hdr k T) \<in> set (tree_pages T)"
proof (induction T)
  case (BNode p ss ts)
  have i: "child_index hdr k ss < length ts" using BNode.prems child_index_le [of hdr k ss] by simp
  then have "fst (leaf_for hdr k (ts ! child_index hdr k ss)) \<in> set (tree_pages (ts ! child_index hdr k ss))"
    using BNode by (simp add: list_all_length)
  then show ?case using i nth_mem [OF i] by auto
qed simp

lemma disjoint_parts:
  assumes "distinct (concat (map f ts))" "i < length ts" "j < length ts" "i \<noteq> j" "x \<in> set (f (ts ! i))"
  shows "x \<notin> set (f (ts ! j))"
proof
  assume "x \<in> set (f (ts ! j))"
  define m n where "m = min i j" and "n = max i j"
  have mn: "m < n" "n < length ts" "x \<in> set (f (ts ! m))" "x \<in> set (f (ts ! n))"
    using assms \<open>x \<in> set (f (ts ! j))\<close> by (auto simp: m_def n_def min_def max_def)
  have "concat (map f ts) = concat (map f (take n ts)) @ concat (map f (drop n ts))"
    by (metis append_take_drop_id concat_append map_append)
  moreover have "x \<in> set (concat (map f (take n ts)))"
    using mn(3) nth_mem [of m "take n ts"] mn(1,2) by auto
  moreover have "x \<in> set (concat (map f (drop n ts)))"
    using mn Cons_nth_drop_Suc [OF mn(2)] by (metis UnCI concat.simps(2) list.simps(9) set_append)
  ultimately show False using assms(1) by auto
qed

lemma distinct_part: "distinct (concat (map f ts)) \<Longrightarrow> i < length ts \<Longrightarrow> distinct (f (ts ! i))"
  by (auto simp: split_concat [of i "map f ts"])

lemma tree_rep_change:
  assumes "search_tree hdr K T" "tree_rep hdr v T" "distinct (tree_pages T)"
    and "is_leaf d" "0 \<le> node_size d" "leaf_items hdr d = f (snd (leaf_for hdr k T))"
  shows "tree_rep hdr (v(fst (leaf_for hdr k T) \<mapsto> d)) (tree_change hdr k f T)"
  using assms
proof (induction T)
  case (BNode p ss ts)
  let ?i = "child_index hdr k ss"
  let ?q = "fst (leaf_for hdr k (ts ! ?i))"
  have i: "?i < length ts" using BNode.prems(1) child_index_le [of hdr k ss] by simp
  have st: "search_tree hdr K (ts ! ?i)" "tree_rep hdr v (ts ! ?i)"
    using BNode.prems(1,2) i by (auto simp: list_all_length)
  have dist: "distinct (concat (map tree_pages ts))" "p \<notin> set (concat (map tree_pages ts))" using BNode.prems(3) by auto
  then have "distinct (tree_pages (ts ! ?i))" using i distinct_part by blast
  define w where "w = v(?q \<mapsto> d)"
  from BNode.IH [OF nth_mem [OF i] st \<open>distinct (tree_pages (ts ! ?i))\<close> BNode.prems(4,5)]
  have ch: "tree_rep hdr w (tree_change hdr k f (ts ! ?i))"
    unfolding w_def using BNode.prems(6) i by (simp add: fun_upd_def)
  have q: "?q \<in> set (tree_pages (ts ! ?i))" by (rule leaf_page_in [OF st(1)])
  have "w p = v p" using q dist(2) i nth_mem [OF i] by (auto simp: w_def)
  moreover have "tree_rep hdr w (ts ! j)" if "j < length ts" "j \<noteq> ?i" for j
  proof -
    have "?q \<notin> set (tree_pages (ts ! j))" using disjoint_parts [OF dist(1) i that(1) that(2) [symmetric] q] .
    from tree_rep_other [OF this] show ?thesis using BNode.prems(2) that(1) unfolding w_def by (simp add: list_all_length)
  qed
  ultimately have "tree_rep hdr w (tree_change hdr k f (BNode p ss ts))"
    using BNode.prems(2) ch i map_update_same [of ?i ts page_of "tree_change hdr k f (ts ! ?i)"]
    by (auto simp: list_all_length nth_list_update)
  moreover have "fst (leaf_for hdr k (BNode p ss ts)) = ?q" using i by simp
  ultimately show ?case unfolding w_def by metis
qed simp

text \<open>A change that only adds entries with the key of the descent keeps the search tree.\<close>

lemma search_tree_change:
  assumes "search_tree hdr K T" "k \<in> K" "ordered hdr K (map (key_of hdr) (f (snd (leaf_for hdr k T))))"
    and "\<And>it. it \<in> set (f (snd (leaf_for hdr k T))) \<Longrightarrow> it \<in> set (snd (leaf_for hdr k T)) \<or> key_of hdr it = k"
  shows "search_tree hdr K (tree_change hdr k f T)"
  using assms(1,3,4)
proof (induction T)
  case (BNode p ss ts)
  let ?i = "child_index hdr k ss"
  let ?c = "tree_change hdr k f (ts ! ?i)"
  have o: "ordered hdr K ss" and i: "?i < length ts" using BNode.prems(1) child_index_le [of hdr k ss] by auto
  have st: "search_tree hdr K (ts ! ?i)" using BNode.prems(1) i by (simp add: list_all_length)
  have ch: "search_tree hdr K ?c"
    using BNode.IH [OF nth_mem [OF i] st] BNode.prems(2,3) i by simp
  have new: "between hdr ss ?i (key_of hdr it)" if it: "it \<in> set (tree_items ?c)" for it
  proof -
    obtain xs ys where "tree_items (ts ! ?i) = xs @ snd (leaf_for hdr k (ts ! ?i)) @ ys"
        "tree_items ?c = xs @ f (snd (leaf_for hdr k (ts ! ?i))) @ ys"
      using leaf_for_split [OF st assms(2)] by blast
    then have "it \<in> set (tree_items (ts ! ?i)) \<or> key_of hdr it = k" using it BNode.prems(3) [of it] i by auto
    then show ?thesis using child_index_between [OF o assms(2)] BNode.prems(1) i by auto
  qed
  show ?case
    using BNode.prems(1) ch new i by (auto simp: list_all_length nth_list_update)
qed simp

lemma list_put_between:
  assumes "\<And>x. x \<in> set xs \<Longrightarrow> kcmp hdr (key_of hdr x) (key_of hdr it) < 0"
    and "\<And>y. y \<in> set ys \<Longrightarrow> \<not> kcmp hdr (key_of hdr y) (key_of hdr it) < 0"
  shows "list_put hdr it (xs @ zs @ ys) = xs @ list_put hdr it zs @ ys"
proof -
  let ?P = "\<lambda>x. kcmp hdr (key_of hdr x) (key_of hdr it) < 0"
  have "takeWhile ?P ys = []" "dropWhile ?P ys = ys" using assms(2) by (cases ys; auto)+
  then have "takeWhile ?P (zs @ ys) = takeWhile ?P zs" "dropWhile ?P (zs @ ys) = dropWhile ?P zs @ ys"
    by (induction zs) auto
  then show ?thesis using assms(1) by (simp add: list_put_def Let_def takeWhile_append2 dropWhile_append2)
qed

lemma list_remove_between:
  assumes "\<And>x. x \<in> set (xs @ ys) \<Longrightarrow> kcmp hdr (key_of hdr x) k \<noteq> 0"
  shows "list_remove hdr k (xs @ zs @ ys) = xs @ list_remove hdr k zs @ ys"
proof -
  have "filter (\<lambda>x. kcmp hdr (key_of hdr x) k \<noteq> 0) xs = xs" "filter (\<lambda>x. kcmp hdr (key_of hdr x) k \<noteq> 0) ys = ys"
    using assms by (simp_all add: filter_id_conv)
  then show ?thesis by (simp add: list_remove_def)
qed

lemma search_tree_order: "search_tree hdr K T \<Longrightarrow> key_order (kcmp hdr) K"
  by (cases T) (auto simp: ordered_def)

lemma tree_put_items:
  assumes "search_tree hdr K T" "key_of hdr it \<in> K"
  shows "tree_items (tree_put hdr it T) = list_put hdr it (tree_items T)"
proof -
  let ?k = "key_of hdr it" and ?L = "snd (leaf_for hdr (key_of hdr it) T)"
  obtain xs ys where c: "tree_items T = xs @ ?L @ ys" "tree_items (tree_put hdr it T) = xs @ list_put hdr it ?L @ ys"
      "\<forall>x\<in>set xs. kcmp hdr (key_of hdr x) ?k < 0" "\<forall>y\<in>set ys. kcmp hdr ?k (key_of hdr y) < 0"
    using leaf_for_split [OF assms] unfolding tree_put_def by blast
  have "\<not> kcmp hdr (key_of hdr y) ?k < 0" if "y \<in> set ys" for y
    using c(1,4) that key_order.swap [OF search_tree_order [OF assms(1)] assms(2) search_tree_keys [OF assms(1)], of y] by auto
  then show ?thesis using c list_put_between [of xs hdr it ys ?L] by auto
qed

lemma tree_remove_items:
  assumes "search_tree hdr K T" "k \<in> K"
  shows "tree_items (tree_remove hdr k T) = list_remove hdr k (tree_items T)"
proof -
  let ?L = "snd (leaf_for hdr k T)"
  obtain xs ys where c: "tree_items T = xs @ ?L @ ys" "tree_items (tree_remove hdr k T) = xs @ list_remove hdr k ?L @ ys"
      "\<forall>x\<in>set xs. kcmp hdr (key_of hdr x) k < 0" "\<forall>y\<in>set ys. kcmp hdr k (key_of hdr y) < 0"
    using leaf_for_split [OF assms] unfolding tree_remove_def by blast
  have "kcmp hdr (key_of hdr y) k \<noteq> 0" if "y \<in> set (xs @ ys)" for y
    using c(1,3,4) that key_order.swap [OF search_tree_order [OF assms(1)] assms(2) search_tree_keys [OF assms(1)], of y] by auto
  then show ?thesis using c list_remove_between [of xs ys hdr k ?L] by auto
qed

section \<open>Inserting into the leaf\<close>

lemma key_of_entry [simp]: "key_of hdr (bytes_at key 0 (key_size hdr) @ val) = bytes_at key 0 (key_size hdr)"
  by simp

text \<open>Looking a key up in a leaf and inserting it there.\<close>

lemma leaf_put:
  assumes "hdr_good hdr" "ordered hdr K (leaf_keys hdr d)" "bytes_at key 0 (key_size hdr) \<in> K"
    and "0 \<le> node_size d" "node_size d + 1 < 2 ^ 31" "leaf_lookup hdr d key = Some (i, found)"
  defines "k \<equiv> bytes_at key 0 (key_size hdr)"
  shows "found \<longleftrightarrow> (\<exists>it\<in>set (leaf_items hdr d). kcmp hdr (key_of hdr it) k = 0)"
    "\<not> found \<Longrightarrow> leaf_items hdr (leaf_insert hdr i key val d) = list_put hdr (k @ bytes_at val 0 8) (leaf_items hdr d)"
    "\<not> found \<Longrightarrow> ordered hdr K (map (key_of hdr) (list_put hdr (k @ bytes_at val 0 8) (leaf_items hdr d)))"
proof -
  have lb: "lower_bound (kcmp hdr) (leaf_keys hdr d) k = (i, found)" using assms(6) leaf_lookup_eq [OF assms(1)] by (simp add: k_def)
  note l = ordered_lower_bound [OF assms(2) assms(3) [folded k_def] lb]
  show "found \<longleftrightarrow> (\<exists>it\<in>set (leaf_items hdr d). kcmp hdr (key_of hdr it) k = 0)" using l(5) by (simp add: leaf_keys_def)
  have i: "i = length (takeWhile (\<lambda>it. kcmp hdr (key_of hdr it) k < 0) (leaf_items hdr d))"
  proof -
    have "length (takeWhile (\<lambda>x. kcmp hdr x k < 0) (leaf_keys hdr d)) = i"
      using l(1-3) by (subst takeWhile_eq_take_P_nth [of i]) (auto simp: not_less)
    then show ?thesis by (simp add: leaf_keys_def takeWhile_map comp_def)
  qed
  let ?P = "\<lambda>it. kcmp hdr (key_of hdr it) k < 0"
  have ko: "key_of hdr (k @ bytes_at val 0 8) = k" by (simp add: k_def)
  have "takeWhile ?P (leaf_items hdr d) = take i (leaf_items hdr d)" "dropWhile ?P (leaf_items hdr d) = drop i (leaf_items hdr d)"
    unfolding i by (rule takeWhile_eq_take dropWhile_eq_drop)+
  then have lp: "list_put hdr (k @ bytes_at val 0 8) (leaf_items hdr d) = insert_at i (k @ bytes_at val 0 8) (leaf_items hdr d)"
    unfolding list_put_def Let_def ko by simp
  show new: "leaf_items hdr (leaf_insert hdr i key val d) = list_put hdr (k @ bytes_at val 0 8) (leaf_items hdr d)"
    using leaf_insert_items(1) [of i d hdr key val] l(1) assms(4,5) unfolding lp by (simp add: k_def)
  assume "\<not> found"
  from l(7) [OF this] have "ordered hdr K (insert_at i k (leaf_keys hdr d))" using assms(3) by (simp add: k_def insert_absorb)
  moreover have "map (key_of hdr) (list_put hdr (k @ bytes_at val 0 8) (leaf_items hdr d)) = insert_at i k (leaf_keys hdr d)"
    unfolding lp by (simp add: k_def leaf_keys_def take_map drop_map)
  ultimately show "ordered hdr K (map (key_of hdr) (list_put hdr (k @ bytes_at val 0 8) (leaf_items hdr d)))" by simp
qed

lemma leaf_ordered:
  assumes "search_tree hdr K T"
  shows "ordered hdr K (map (key_of hdr) (snd (leaf_for hdr k T)))"
  using assms
proof (induction T)
  case (BNode p ss ts)
  have i: "child_index hdr k ss < length ts" using BNode.prems child_index_le [of hdr k ss] by simp
  then show ?case using BNode.IH [OF nth_mem [OF i]] BNode.prems by (simp add: list_all_length)
qed simp

text \<open>A key that is in the tree is in its leaf.\<close>

lemma in_leaf_iff:
  assumes "search_tree hdr K T" "k \<in> K"
  shows "(\<exists>it\<in>set (tree_items T). kcmp hdr (key_of hdr it) k = 0) \<longleftrightarrow>
    (\<exists>it\<in>set (snd (leaf_for hdr k T)). kcmp hdr (key_of hdr it) k = 0)"
proof -
  obtain xs ys where c: "tree_items T = xs @ snd (leaf_for hdr k T) @ ys"
      "\<forall>x\<in>set xs. kcmp hdr (key_of hdr x) k < 0" "\<forall>y\<in>set ys. kcmp hdr k (key_of hdr y) < 0"
    using leaf_for_split [OF assms] by blast
  have "kcmp hdr (key_of hdr y) k \<noteq> 0" if "y \<in> set (xs @ ys)" for y
    using c that key_order.swap [OF search_tree_order [OF assms(1)] assms(2) search_tree_keys [OF assms(1)], of y] by auto
  then show ?thesis using c(1) by auto
qed

text \<open>The index after its leaf has been written.\<close>

lemma index_tree_write:
  assumes "index_tree t b (bp_file_desc bp) K T s" "k \<in> K" "held s b bp (fst (leaf_for (bt_header t) k T)) a"
    and "is_leaf (g (frame_data s a))" "0 \<le> node_size (g (frame_data s a))"
    and "leaf_items (bt_header t) (g (frame_data s a)) = f (snd (leaf_for (bt_header t) k T))"
    and "search_tree (bt_header t) K (tree_change (bt_header t) k f T)"
  shows "index_tree t b (bp_file_desc bp) K (tree_change (bt_header t) k f T) (write_page a g s)"
proof -
  let ?h = "bt_header t" and ?fd = "bp_file_desc bp"
  have ix: "search_tree ?h K T" "tree_rep ?h (data_view s ?fd) T" "distinct (tree_pages T)" using assms(1) by (auto simp: index_tree_def)
  have "data_view (write_page a g s) ?fd = (data_view s ?fd)(fst (leaf_for ?h k T) \<mapsto> g (frame_data s a))"
    using write_held(2) [OF assms(3), of g ?fd] by (auto simp: data_view_def)
  then show ?thesis
    using assms(1,7) tree_rep_change [OF ix assms(4,5), of f k] assms(6) tree_change_pages [OF ix(1), of k f]
    by (simp add: index_tree_def)
qed

text \<open>The entry a call of \<^verbatim>\<open>insert_entry\<close> stands for: the key is the attribute followed by the record id.\<close>

definition index_key :: "IndexFileHeader \<Rightarrow> mem \<Rightarrow> mem \<Rightarrow> byte list" where
  "index_key hdr user_key rid = bytes_at user_key 0 (nat (attr_length hdr)) @ bytes_at rid 0 8"

lemma make_key_bytes:
  assumes "hdr_good (bt_header t)"
  shows "bytes_at (make_key t user_key rid) 0 (key_size (bt_header t)) = index_key (bt_header t) user_key rid"
proof -
  let ?n = "nat (attr_length (bt_header t))"
  have "key_size (bt_header t) = ?n + 8" using assms by (simp add: hdr_good_def key_size_def nat_add_distrib)
  then show ?thesis
    by (intro nth_equalityI) (auto simp: index_key_def make_key_def Let_def nth_append nth_bytes_at blit_def)
qed

lemma insert_leaf_steps:
  assumes "held s b bp p a" "bt_pool t = Some b" "leaf_lookup (bt_header t) (frame_data s a) key = Some (i, found)"
  shows "found \<Longrightarrow> insert_entry_into_leaf_node t a key rid s = Some (RECORD_DUPLICATE_KEY, t, s)"
    "\<not> found \<Longrightarrow> node_size (frame_data s a) < leaf_max_size (bt_header t) \<Longrightarrow>
      insert_entry_into_leaf_node t a key rid s =
        Some (SUCCESS, t, unpinned a (write_page a (leaf_insert (bt_header t) i key rid) s))"
  using assms unpin_held(1) [OF write_held(1) [OF assms(1), of "leaf_insert (bt_header t) i key rid"]]
  by (simp_all add: insert_entry_into_leaf_node_def leaf_max_def write_page_def)

lemma index_tree_cong: "page_view s' = page_view s \<Longrightarrow> index_tree t b fd K T s' = index_tree t b fd K T s"
  by (simp add: index_tree_def data_view_def [abs_def])

text \<open>The leaf of the key is pinned and has room.\<close>

lemma insert_into_leaf:
  fixes rid :: mem
  assumes ix: "index_tree t b (bp_file_desc bp) K T s"
    and key: "bytes_at key 0 (key_size (bt_header t)) = k" "k \<in> K"
    and leaf: "held s b bp (fst (leaf_for (bt_header t) k T)) a" "is_leaf (frame_data s a)" "0 \<le> node_size (frame_data s a)"
      "leaf_items (bt_header t) (frame_data s a) = snd (leaf_for (bt_header t) k T)"
    and room: "int (length (snd (leaf_for (bt_header t) k T))) < leaf_max_size (bt_header t)" "leaf_max_size (bt_header t) < 2 ^ 31"
  defines "dup \<equiv> \<exists>x\<in>set (tree_items T). kcmp (bt_header t) (key_of (bt_header t) x) k = 0"
    and "it \<equiv> k @ bytes_at rid 0 8"
  obtains (duplicate) "dup" "insert_entry_into_leaf_node t a key rid s = Some (RECORD_DUPLICATE_KEY, t, s)"
    | (inserted) s' where "\<not> dup" "insert_entry_into_leaf_node t a key rid s = Some (SUCCESS, t, s')" "ready s' b bp" "pins_ok s'"
      "index_tree t b (bp_file_desc bp) K (tree_put (bt_header t) it T) s'"
proof -
  let ?h = "bt_header t" and ?d = "frame_data s a"
  have h: "hdr_good ?h" "bt_pool t = Some b" "search_tree ?h K T" using ix by (auto simp: index_tree_def)
  have ki: "key_of ?h it = k" using key(1) by (metis it_def key_of_entry)
  have sz: "node_size ?d = int (length (snd (leaf_for ?h k T)))" using leaf(3) by (simp flip: leaf(4))
  have small: "node_size ?d < leaf_max_size ?h" "node_size ?d + 1 < 2 ^ 31" using room sz by simp_all
  have o: "ordered ?h K (leaf_keys ?h ?d)" using leaf_ordered [OF h(3)] by (simp add: leaf_keys_def leaf(4))
  obtain i found where lk: "leaf_lookup ?h ?d key = Some (i, found)" using leaf_lookup_eq [OF h(1)] by (metis prod.collapse)
  note put = leaf_put [OF h(1) o key(2) [folded key(1)] leaf(3) small(2) lk, unfolded key(1) leaf(4)]
  have dup: "found \<longleftrightarrow> dup" using put(1) in_leaf_iff [OF h(3) key(2)] by (simp add: dup_def)
  note steps = insert_leaf_steps [OF leaf(1) h(2) lk, of rid]
  show thesis
  proof (cases found)
    case True
    then show thesis using duplicate dup steps(1) by simp
  next
    case False
    let ?g = "leaf_insert ?h i key rid"
    have "i \<le> num ?d"
      using ordered_lower_bound(1) [OF o key(2)] lk leaf_lookup_eq [OF h(1), of ?d key] key(1) by (metis length_leaf(2) option.inject)
    note ins = leaf_insert_items(2,3) [OF this leaf(3) small(2), of ?h key rid]
    have lf: "is_leaf (?g ?d)" "0 \<le> node_size (?g ?d)" using ins leaf(2,3) by (simp_all add: same_links_def)
    have st: "search_tree ?h K (tree_change ?h k (list_put ?h it) T)"
      using put(3) [OF False, of rid] ki
      by (intro search_tree_change [OF h(3) key(2)]) (auto simp: it_def list_put_def Let_def dest: set_takeWhileD set_dropWhileD)
    have "index_tree t b (bp_file_desc bp) K (tree_put ?h it T) (write_page a ?g s)"
      unfolding tree_put_def ki
      by (rule index_tree_write [where g = ?g, OF ix key(2) leaf(1) lf _ st]) (use put(2) [OF False, of rid] in \<open>simp add: it_def\<close>)
    moreover note wh = unpin_held(2-4) [OF write_held(1) [OF leaf(1), of ?g]]
    ultimately show thesis using inserted steps(2) [OF False small(1)] index_tree_cong [OF wh(3)] dup False by simp
  qed
qed

section \<open>Deleting from the leaf\<close>

lemma upd_data_id: "upd_data a (\<lambda>_. frame_data s a) s = s"
  by (simp add: upd_data_def upd_frame_def)

lemma delete_from_leaf:
  assumes ix: "index_tree t b (bp_file_desc bp) K T s"
    and key: "bytes_at key 0 (key_size (bt_header t)) = k" "k \<in> K"
    and leaf: "held s b bp (fst (leaf_for (bt_header t) k T)) a" "is_leaf (frame_data s a)" "0 \<le> node_size (frame_data s a)"
      "leaf_items (bt_header t) (frame_data s a) = snd (leaf_for (bt_header t) k T)"
    and large: "leaf_min (bt_header t) < int (length (snd (leaf_for (bt_header t) k T)))"
  defines "there \<equiv> \<exists>x\<in>set (tree_items T). kcmp (bt_header t) (key_of (bt_header t) x) k = 0"
  obtains (absent) s' where "\<not> there" "delete_entry_internal t a key s = Some (RECORD_RECORD_NOT_EXIST, t, s')"
      "ready s' b bp" "pins_ok s'" "page_view s' = page_view s"
    | (removed) s' where "there" "delete_entry_internal t a key s = Some (SUCCESS, t, s')" "ready s' b bp" "pins_ok s'"
      "index_tree t b (bp_file_desc bp) K (tree_remove (bt_header t) k T) s'"
proof -
  let ?h = "bt_header t" and ?d = "frame_data s a" and ?L = "snd (leaf_for (bt_header t) k T)"
  have h: "hdr_good ?h" "bt_pool t = Some b" "search_tree ?h K T" using ix by (auto simp: index_tree_def)
  have sz: "node_size ?d = int (length ?L)" using leaf(3) by (simp flip: leaf(4))
  have o: "ordered ?h K (leaf_keys ?h ?d)" using leaf_ordered [OF h(3)] by (simp add: leaf_keys_def leaf(4))
  obtain n d' where r: "leaf_remove ?h key ?d = Some (n, d')" "ordered ?h K (leaf_keys ?h d')"
      "leaf_items ?h d' = list_remove ?h k ?L" "node_size d' = node_size ?d - int n" "same_links ?d d'"
      "n = (if \<exists>x\<in>set (leaf_keys ?h ?d). kcmp ?h x k = 0 then 1 else 0)"
    using leaf_remove_filter [OF h(1) o key(2) [folded key(1)] leaf(3)] unfolding key(1) leaf(4) list_remove_def by blast
  have there: "n = (if there then 1 else 0)"
    using r(6) in_leaf_iff [OF h(3) key(2)] by (simp add: there_def leaf_keys_def leaf(4))
  show thesis
  proof (cases there)
    case False
    then have "d' = ?d" using there r(1) by (auto simp: leaf_remove_def split: option.splits if_splits bind_splits)
    then have "delete_entry_internal t a key s = Some (RECORD_RECORD_NOT_EXIST, t, unpinned a s)"
      using r(1) there False h(2) unpin_held(1) [OF leaf(1)] by (simp add: delete_entry_internal_def upd_data_id)
    then show thesis using absent False unpin_held(2-4) [OF leaf(1)] by blast
  next
    case True
    let ?s = "write_page a (\<lambda>_. d') s"
    have ne: "?L \<noteq> []" using True in_leaf_iff [OF h(3) key(2)] by (auto simp: there_def)
    note wh = write_held(1) [OF leaf(1), of "\<lambda>_. d'"]
    have "frame_data ?s a = d'" by (simp add: write_page_frame)
    moreover have "node_size d' \<ge> leaf_min ?h" using r(4) there True sz large by simp
    ultimately have "delete_entry_internal t a key s = Some (SUCCESS, t, unpinned a ?s)"
      using r(1) there True h(2) unpin_held(1) [OF wh] by (simp add: delete_entry_internal_def write_page_def)
    moreover have "index_tree t b (bp_file_desc bp) K (tree_remove ?h k T) ?s"
      unfolding tree_remove_def
    proof (rule index_tree_write [where g = "\<lambda>_. d'", OF ix key(2) leaf(1)])
      show "is_leaf d'" "0 \<le> node_size d'" "leaf_items ?h d' = list_remove ?h k ?L"
        using r(3-5) there sz leaf(2) True ne by (auto simp: same_links_def Suc_le_eq)
      show "search_tree ?h K (tree_change ?h k (list_remove ?h k) T)"
        using r(2,3) by (intro search_tree_change [OF h(3) key(2)]) (auto simp: leaf_keys_def list_remove_def)
    qed
    ultimately show thesis using removed True unpin_held(2-4) [OF wh] index_tree_cong [OF unpin_held(4) [OF wh]] by simp
  qed
qed

lemma demo_index_key: "index_key demo_hdr (store_int (\<lambda>_. 0) 0 n) (\<lambda>_. 0) = int_key n"
  by (rule nth_equalityI) (auto simp: index_key_def int_key_def demo_hdr_def nth_append nth_bytes_at mem_simps)

lemma demo_leaf_room: "int (length (snd (leaf_for demo_hdr k demo_tree))) < leaf_max_size demo_hdr" "leaf_max_size demo_hdr < 2 ^ 31"
proof -
  have "child_index demo_hdr k [demo_key] \<in> {0, 1}" using child_index_le [of demo_hdr k "[demo_key]"] by (auto simp: le_Suc_eq)
  then have "length (snd (leaf_for demo_hdr k demo_tree)) \<le> 3" by (auto simp: demo_tree_def)
  then show "int (length (snd (leaf_for demo_hdr k demo_tree))) < leaf_max_size demo_hdr" by (simp add: demo_hdr_def)
qed (simp add: demo_hdr_def)

section \<open>Properties\<close>

text \<open>
  C25. Inserting an entry whose leaf has room: \<^verbatim>\<open>insert_entry\<close> returns.  It succeeds only when no entry has the key, and then the
  pages hold the tree with the entry at its place in the order; otherwise no page changes.  The code for
  duplicate keys is returned only when the key is there, and without I/O failures the only other
  refusal is a lack of frames.
\<close>

theorem insert_entry_correct:
  assumes "index_tree t b (bp_file_desc bp) K T s" "ready s b bp" "pins_ok s" "index_key (bt_header t) user_key rid \<in> K"
    and "int (length (snd (leaf_for (bt_header t) (index_key (bt_header t) user_key rid) T))) < leaf_max_size (bt_header t)"
    and "leaf_max_size (bt_header t) < 2 ^ 31"
  defines "k \<equiv> index_key (bt_header t) user_key rid"
  defines "it \<equiv> k @ bytes_at rid 0 8"
  shows "\<exists>rc s'. insert_entry t (Some user_key) (Some rid) s = Some (rc, t, s') \<and> ready s' b bp \<and> pins_ok s' \<and>
    (if rc = SUCCESS
     then (\<forall>x\<in>set (tree_items T). kcmp (bt_header t) (key_of (bt_header t) x) k \<noteq> 0) \<and>
       index_tree t b (bp_file_desc bp) K (tree_put (bt_header t) it T) s' \<and>
       tree_items (tree_put (bt_header t) it T) = list_put (bt_header t) it (tree_items T)
     else page_view s' = page_view s) \<and>
    (rc = RECORD_DUPLICATE_KEY \<longrightarrow> (\<exists>x\<in>set (tree_items T). kcmp (bt_header t) (key_of (bt_header t) x) k = 0)) \<and>
    (os_io_faults (os s) = [] \<longrightarrow> rc \<in> {SUCCESS, RECORD_DUPLICATE_KEY, NOMEM})"
proof -
  let ?h = "bt_header t" and ?key = "make_key t user_key rid"
  have ix: "hdr_good ?h" "bt_pool t = Some b" "\<not> bt_is_empty t" "search_tree ?h K T"
    using assms(1) by (auto simp: index_tree_def bt_is_empty_def)
  have kb: "bytes_at ?key 0 (key_size ?h) = k" "k \<in> K" using make_key_bytes [OF ix(1)] assms(4) by (simp_all add: k_def)
  have ki: "key_of ?h it = k" using kb(1) by (metis it_def key_of_entry)
  let ?L = "leaf_for ?h k T"
  obtain rc r s1 where f: "find_leaf ?key t s = Some (rc, r, s1)" "found_leaf ?h b bp ?L s rc r s1"
    using find_leaf_tree [OF assms(1-3), of ?key] kb by auto
  show ?thesis
  proof (cases r)
    case None
    then have "insert_entry t (Some user_key) (Some rid) s = Some (rc, t, s1)" "rc \<in> fetch_errors" "ready s1 b bp" "pins_ok s1"
        "page_view s1 = page_view s" "os_io_faults (os s) = [] \<longrightarrow> rc = NOMEM"
      using f ix by (auto simp: insert_entry_def Let_def found_leaf_def)
    then show ?thesis by auto
  next
    case (Some a)
    then have fr: "rc = SUCCESS" "held s1 b bp (fst ?L) a" "is_leaf (frame_data s1 a)" "0 \<le> node_size (frame_data s1 a)"
        "leaf_items ?h (frame_data s1 a) = snd ?L" "page_view s1 = page_view s"
      using f(2) by (auto simp: found_leaf_def)
    have ix1: "index_tree t b (bp_file_desc bp) K T s1" using assms(1) index_tree_cong [OF fr(6)] by simp
    from ix1 kb fr(2-5) assms(5,6) [folded k_def] show ?thesis
    proof (cases rule: insert_into_leaf [where rid = rid])
      case duplicate
      have "insert_entry t (Some user_key) (Some rid) s = Some (RECORD_DUPLICATE_KEY, t, unpinned a s1)"
        using f(1) Some fr(1) ix duplicate(2) unpin_held(1) [OF fr(2)] by (simp add: insert_entry_def Let_def)
      then show ?thesis using unpin_held(2-4) [OF fr(2)] fr(6) duplicate(1) by auto
    next
      case (inserted s')
      have "insert_entry t (Some user_key) (Some rid) s = Some (SUCCESS, t, s')"
        using f(1) Some fr(1) ix inserted(2) by (simp add: insert_entry_def Let_def)
      moreover have "tree_items (tree_put ?h it T) = list_put ?h it (tree_items T)" using tree_put_items [OF ix(4)] ki kb(2) by simp
      ultimately show ?thesis using inserted it_def by auto
    qed
  qed
qed

theorem insert_entry_correct_witness:
  "\<exists>s0 rc s'. bpm_open_file ''t'' (bpm_new (demo_os index_file)) = Some (SUCCESS, Some 0, s0) \<and>
     insert_entry demo_index (Some (store_int (\<lambda>_. 0) 0 9)) (Some (\<lambda>_. 0)) s0 = Some (rc, demo_index, s') \<and>
     (if rc = SUCCESS then tree_items (tree_put demo_hdr (int_entry 9) demo_tree) = map int_entry [5, 6, 7, 9] else rc = NOMEM)"
proof -
  obtain s bp where d: "bpm_open_file ''t'' (bpm_new (demo_os index_file)) = Some (SUCCESS, Some 0, s)"
    "ready s 0 bp" "pins_ok s" "index_tree demo_index 0 (bp_file_desc bp) demo_keys demo_tree s" "os_io_faults (os s) = []"
    by (rule demo_index_file)
  have h: "bt_header demo_index = demo_hdr" by (simp add: demo_index_def)
  note room = demo_leaf_room(1) [of "int_key 9"] demo_leaf_room(2)
  have put: "list_put demo_hdr (int_entry 9) (tree_items demo_tree) = map int_entry [5, 6, 7, 9]"
    by (simp add: demo_tree_def list_put_def kcmp_int_key)
  have nodup: "\<not> (\<exists>x\<in>set (tree_items demo_tree). kcmp demo_hdr (key_of demo_hdr x) (int_key 9) = 0)"
    by (simp add: demo_tree_def kcmp_int_key)
  show ?thesis
    using insert_entry_correct [OF d(4,2,3), of "store_int (\<lambda>_. 0) 0 9" "\<lambda>_. 0"] d(1,5) room put nodup int_key_in [of 9]
    unfolding h demo_index_key int_entry_def [symmetric] by (fastforce split: if_splits)
qed

text \<open>
  C26. Deleting an entry from a leaf that keeps the minimal size: \<^verbatim>\<open>delete_entry\<close> returns.  It succeeds only when an entry has the
  key, and then the pages hold the tree without it and with all other entries; otherwise no page
  changes.  \<^verbatim>\<open>RECORD_NOT_EXIST\<close> is returned only when the key is not there, and without I/O failures the only other
  refusal is a lack of frames.
\<close>

theorem delete_entry_correct:
  assumes "index_tree t b (bp_file_desc bp) K T s" "ready s b bp" "pins_ok s" "index_key (bt_header t) user_key rid \<in> K"
    and "leaf_min (bt_header t) < int (length (snd (leaf_for (bt_header t) (index_key (bt_header t) user_key rid) T)))"
  defines "k \<equiv> index_key (bt_header t) user_key rid"
  shows "\<exists>rc s'. delete_entry t user_key rid s = Some (rc, t, s') \<and> ready s' b bp \<and> pins_ok s' \<and>
    (if rc = SUCCESS
     then (\<exists>x\<in>set (tree_items T). kcmp (bt_header t) (key_of (bt_header t) x) k = 0) \<and>
       index_tree t b (bp_file_desc bp) K (tree_remove (bt_header t) k T) s' \<and>
       tree_items (tree_remove (bt_header t) k T) = list_remove (bt_header t) k (tree_items T)
     else page_view s' = page_view s) \<and>
    (rc = RECORD_RECORD_NOT_EXIST \<longrightarrow> (\<forall>x\<in>set (tree_items T). kcmp (bt_header t) (key_of (bt_header t) x) k \<noteq> 0)) \<and>
    (os_io_faults (os s) = [] \<longrightarrow> rc \<in> {SUCCESS, RECORD_RECORD_NOT_EXIST, NOMEM})"
proof -
  let ?h = "bt_header t" and ?key = "make_key t user_key rid"
  have ix: "hdr_good ?h" "bt_pool t = Some b" "search_tree ?h K T" using assms(1) by (auto simp: index_tree_def)
  have kb: "bytes_at ?key 0 (key_size ?h) = k" "k \<in> K" using make_key_bytes [OF ix(1)] assms(4) by (simp_all add: k_def)
  let ?L = "leaf_for ?h k T"
  obtain rc r s1 where f: "find_leaf ?key t s = Some (rc, r, s1)" "found_leaf ?h b bp ?L s rc r s1"
    using find_leaf_tree [OF assms(1-3), of ?key] kb by auto
  show ?thesis
  proof (cases r)
    case None
    then have "delete_entry t user_key rid s = Some (rc, t, s1)" "rc \<in> fetch_errors" "ready s1 b bp" "pins_ok s1"
        "page_view s1 = page_view s" "os_io_faults (os s) = [] \<longrightarrow> rc = NOMEM"
      using f ix by (auto simp: delete_entry_def Let_def found_leaf_def)
    then show ?thesis by auto
  next
    case (Some a)
    then have fr: "rc = SUCCESS" "held s1 b bp (fst ?L) a" "is_leaf (frame_data s1 a)" "0 \<le> node_size (frame_data s1 a)"
        "leaf_items ?h (frame_data s1 a) = snd ?L" "page_view s1 = page_view s"
      using f(2) by (auto simp: found_leaf_def)
    have ix1: "index_tree t b (bp_file_desc bp) K T s1" using assms(1) index_tree_cong [OF fr(6)] by simp
    have eq: "delete_entry t user_key rid s = delete_entry_internal t a ?key s1"
      using f(1) Some fr(1) by (simp add: delete_entry_def Let_def)
    from ix1 kb fr(2-5) assms(5) [folded k_def] show ?thesis
    proof (cases rule: delete_from_leaf)
      case (absent s')
      then show ?thesis using eq fr(6) by auto
    next
      case (removed s')
      then show ?thesis using eq tree_remove_items [OF ix(3) kb(2)] by auto
    qed
  qed
qed

theorem delete_entry_correct_witness:
  "\<exists>s0 rc s'. bpm_open_file ''t'' (bpm_new (demo_os index_file)) = Some (SUCCESS, Some 0, s0) \<and>
     delete_entry demo_index (store_int (\<lambda>_. 0) 0 6) (\<lambda>_. 0) s0 = Some (rc, demo_index, s') \<and>
     (if rc = SUCCESS then tree_items (tree_remove demo_hdr (int_key 6) demo_tree) = map int_entry [5, 7] else rc = NOMEM)"
proof -
  obtain s bp where d: "bpm_open_file ''t'' (bpm_new (demo_os index_file)) = Some (SUCCESS, Some 0, s)"
    "ready s 0 bp" "pins_ok s" "index_tree demo_index 0 (bp_file_desc bp) demo_keys demo_tree s" "os_io_faults (os s) = []"
    by (rule demo_index_file)
  have h: "bt_header demo_index = demo_hdr" by (simp add: demo_index_def)
  have rem: "list_remove demo_hdr (int_key 6) (tree_items demo_tree) = map int_entry [5, 7]"
    by (simp add: demo_tree_def list_remove_def kcmp_int_key)
  have there: "\<exists>x\<in>set (tree_items demo_tree). kcmp demo_hdr (key_of demo_hdr x) (int_key 6) = 0"
    by (simp add: demo_tree_def kcmp_int_key)
  have large: "leaf_min demo_hdr < int (length (snd (leaf_for demo_hdr (int_key 6) demo_tree)))"
    by (simp add: demo_tree_def child_index_def demo_int_key kcmp_int_key leaf_min_def) (simp add: demo_hdr_def)
  show ?thesis
    using delete_entry_correct [OF d(4,2,3), of "store_int (\<lambda>_. 0) 0 6" "\<lambda>_. 0"] d(1,5) large rem there int_key_in [of 6]
    unfolding h demo_index_key by (fastforce split: if_splits)
qed

end
