(* ===== verification/Ob_Persist.thy ===== *)
theory Ob_Persist
  imports Ob_Rc "HOL-Library.Monad_Syntax"
begin

text \<open>
  Files of bytes and the persistence handler (\<open>src/src/observer/storage/persist/persist.cpp\<close>), which binds one
  file and reads and writes it at offsets.  The operating system is a map from names to bytes with open
  descriptors and their positions; two scripts say which calls fail and how many bytes a transfer moves, and an
  empty script stands for a system without failures.
\<close>

section \<open>The file system\<close>

datatype transfer = Full | Short nat | Fail

record FileSys =
  fs_files :: "string \<rightharpoonup> byte list"
  fs_fds :: "int \<rightharpoonup> string \<times> nat"
  fs_calls :: "bool list"
  fs_transfers :: "transfer list"

text \<open>Whether the next call of \<^verbatim>\<open>open\<close>, \<^verbatim>\<open>close\<close>, \<^verbatim>\<open>lseek\<close> or \<^verbatim>\<open>remove\<close> works.\<close>

definition next_call :: "FileSys \<Rightarrow> bool \<times> FileSys" where
  "next_call w = (case fs_calls w of [] \<Rightarrow> (True, w) | c # cs \<Rightarrow> (c, w\<lparr>fs_calls := cs\<rparr>))"

text \<open>How much of \<open>n\<close> bytes the next transfer moves; \<open>None\<close> is the result \<open>-1\<close>.\<close>

definition next_transfer :: "nat \<Rightarrow> FileSys \<Rightarrow> nat option \<times> FileSys" where
  "next_transfer n w = (case fs_transfers w of
      [] \<Rightarrow> (Some n, w)
    | t # ts \<Rightarrow> ((case t of Full \<Rightarrow> Some n | Short k \<Rightarrow> Some (min k n) | Fail \<Rightarrow> None), w\<lparr>fs_transfers := ts\<rparr>))"

definition fs_free_fd :: "FileSys \<Rightarrow> int" where
  "fs_free_fd w = first_from (\<lambda>i. fs_fds w (int i) = None) 3 (4 + card (dom (fs_fds w)))"

definition fs_open :: "string \<Rightarrow> FileSys \<Rightarrow> int \<times> FileSys" where
  "fs_open name w = (case next_call w of (ok, w) \<Rightarrow>
     if ok \<and> fs_files w name \<noteq> None then let fd = fs_free_fd w in (fd, w\<lparr>fs_fds := (fs_fds w)(fd \<mapsto> (name, 0))\<rparr>)
     else (- 1, w))"

text \<open>With \<^verbatim>\<open>O_CREAT | O_EXCL\<close>.\<close>

definition fs_create :: "string \<Rightarrow> FileSys \<Rightarrow> int \<times> FileSys" where
  "fs_create name w = (case next_call w of (ok, w) \<Rightarrow>
     if ok \<and> fs_files w name = None
     then let fd = fs_free_fd w in (fd, w\<lparr>fs_files := (fs_files w)(name \<mapsto> []), fs_fds := (fs_fds w)(fd \<mapsto> (name, 0))\<rparr>)
     else (- 1, w))"

definition fs_close :: "int \<Rightarrow> FileSys \<Rightarrow> bool \<times> FileSys" where
  "fs_close fd w = (case next_call w of (ok, w) \<Rightarrow>
     if ok \<and> fs_fds w fd \<noteq> None then (True, w\<lparr>fs_fds := (fs_fds w)(fd := None)\<rparr>) else (False, w))"

definition fs_remove :: "string \<Rightarrow> FileSys \<Rightarrow> bool \<times> FileSys" where
  "fs_remove name w = (case next_call w of (ok, w) \<Rightarrow>
     if ok \<and> fs_files w name \<noteq> None then (True, w\<lparr>fs_files := (fs_files w)(name := None)\<rparr>) else (False, w))"

definition fs_seek :: "int \<Rightarrow> (byte list \<Rightarrow> nat) \<Rightarrow> FileSys \<Rightarrow> bool \<times> FileSys" where
  "fs_seek fd target w = (case next_call w of (ok, w) \<Rightarrow>
     case fs_fds w fd of
       Some (name, _) \<Rightarrow>
         if ok then (True, w\<lparr>fs_fds := (fs_fds w)(fd \<mapsto> (name, target (case fs_files w name of Some bs \<Rightarrow> bs | None \<Rightarrow> [])))\<rparr>)
         else (False, w)
     | None \<Rightarrow> (False, w))"

text \<open>Bytes written at a position; a gap behind the end reads as zeros.\<close>

definition write_bytes :: "nat \<Rightarrow> byte list \<Rightarrow> byte list \<Rightarrow> byte list" where
  "write_bytes pos new bs =
     take pos (bs @ replicate (pos - length bs) 0) @ new @ drop (pos + length new) bs"

definition fs_write :: "int \<Rightarrow> byte list \<Rightarrow> FileSys \<Rightarrow> int \<times> FileSys" where
  "fs_write fd new w = (case next_transfer (length new) w of (n, w) \<Rightarrow>
     case (n, fs_fds w fd) of
       (Some n, Some (name, pos)) \<Rightarrow>
         (case fs_files w name of
            Some bs \<Rightarrow> (int n, w\<lparr>fs_files := (fs_files w)(name \<mapsto> write_bytes pos (take n new) bs),
                               fs_fds := (fs_fds w)(fd \<mapsto> (name, pos + n))\<rparr>)
          | None \<Rightarrow> (- 1, w))
     | _ \<Rightarrow> (- 1, w))"

text \<open>The bytes that were read, or \<open>None\<close> for the result \<open>-1\<close>.\<close>

definition fs_read :: "int \<Rightarrow> nat \<Rightarrow> FileSys \<Rightarrow> byte list option \<times> FileSys" where
  "fs_read fd sz w =
     (case fs_fds w fd of
        Some (name, pos) \<Rightarrow>
          (case fs_files w name of
             Some bs \<Rightarrow>
               (case next_transfer (length (take sz (drop pos bs))) w of
                  (Some n, w) \<Rightarrow> (Some (take n (drop pos bs)), w\<lparr>fs_fds := (fs_fds w)(fd \<mapsto> (name, pos + n))\<rparr>)
                | (None, w) \<Rightarrow> (None, w))
           | None \<Rightarrow> (None, w))
      | None \<Rightarrow> (None, w))"

section \<open>The handler\<close>

record PersistHandler =
  ph_file_name :: string
  ph_file_desc :: int

definition ph_new :: PersistHandler where
  "ph_new = \<lparr>ph_file_name = [], ph_file_desc = - 1\<rparr>"

definition ph_create_file :: "string option \<Rightarrow> PersistHandler \<Rightarrow> FileSys \<Rightarrow> RC \<times> PersistHandler \<times> FileSys" where
  "ph_create_file file_name ph w = (case file_name of
      None \<Rightarrow> (FILE_NAME, ph, w)
    | Some name \<Rightarrow>
        if ph_file_name ph \<noteq> [] then (FILE_BOUND, ph, w)
        else if fs_files w name \<noteq> None then (FILE_EXIST, ph, w)
        else case fs_create name w of (fd, w) \<Rightarrow>
          if fd < 0 then (FILE_CREATE, ph, w)
          else (SUCCESS, ph\<lparr>ph_file_name := name\<rparr>, snd (fs_close fd w)))"

definition ph_open_file :: "string option \<Rightarrow> PersistHandler \<Rightarrow> FileSys \<Rightarrow> RC \<times> PersistHandler \<times> FileSys" where
  "ph_open_file file_name ph w = (case file_name of
      None \<Rightarrow>
        if ph_file_name ph = [] then (FILE_NAME, ph, w)
        else (case fs_open (ph_file_name ph) w of (fd, w) \<Rightarrow>
          if fd < 0 then (FILE_OPEN, ph, w) else (SUCCESS, ph\<lparr>ph_file_desc := fd\<rparr>, w))
    | Some name \<Rightarrow>
        if ph_file_name ph \<noteq> [] then (FILE_BOUND, ph, w)
        else (case fs_open name w of (fd, w) \<Rightarrow>
          if fd < 0 then (FILE_OPEN, ph, w)
          else (SUCCESS, ph\<lparr>ph_file_name := name, ph_file_desc := fd\<rparr>, w)))"

definition ph_close_file :: "PersistHandler \<Rightarrow> FileSys \<Rightarrow> RC \<times> PersistHandler \<times> FileSys" where
  "ph_close_file ph w =
     (if ph_file_desc ph \<ge> 0 then
        case fs_close (ph_file_desc ph) w of (ok, w) \<Rightarrow>
          if \<not> ok then (FILE_CLOSE, ph, w) else (SUCCESS, ph\<lparr>ph_file_desc := - 1\<rparr>, w)
      else (SUCCESS, ph, w))"

definition ph_remove_file :: "string option \<Rightarrow> PersistHandler \<Rightarrow> FileSys \<Rightarrow> RC \<times> PersistHandler \<times> FileSys" where
  "ph_remove_file file_name ph w = (case file_name of
      Some name \<Rightarrow> (case fs_remove name w of (ok, w) \<Rightarrow> (if ok then SUCCESS else FILE_REMOVE, ph, w))
    | None \<Rightarrow>
        if ph_file_name ph \<noteq> [] then
          (case (if ph_file_desc ph < 0 then (SUCCESS, ph, w) else ph_close_file ph w) of (rc, ph, w) \<Rightarrow>
             if rc = SUCCESS then
               case fs_remove (ph_file_name ph) w of (ok, w) \<Rightarrow> (if ok then SUCCESS else FILE_REMOVE, ph, w)
             else (rc, ph, w))
        else (SUCCESS, ph, w))"

text \<open>
  The checks in front of every access; \<open>k\<close> is the access itself.  The result carries the number of bytes
  that the caller's \<^verbatim>\<open>out_size\<close> receives, \<open>None\<close> when it is not written.
\<close>

definition ph_bound :: "PersistHandler \<Rightarrow> (FileSys \<Rightarrow> RC \<times> 'a option \<times> FileSys) \<Rightarrow> FileSys \<Rightarrow> RC \<times> 'a option \<times> FileSys" where
  "ph_bound ph k w =
     (if ph_file_name ph = [] then (FILE_NOT_EXIST, None, w)
      else if ph_file_desc ph < 0 then (FILE_NOT_OPENED, None, w)
      else k w)"

definition put_bytes :: "PersistHandler \<Rightarrow> byte list \<Rightarrow> FileSys \<Rightarrow> RC \<times> int option \<times> FileSys" where
  "put_bytes ph new w = (case fs_write (ph_file_desc ph) new w of (n, w) \<Rightarrow>
     (if n \<noteq> int (length new) then FILE_WRITE else SUCCESS, Some n, w))"

definition get_bytes :: "PersistHandler \<Rightarrow> nat \<Rightarrow> FileSys \<Rightarrow> RC \<times> byte list option option \<times> FileSys" where
  "get_bytes ph sz w = (case fs_read (ph_file_desc ph) sz w of (r, w) \<Rightarrow>
     (if map_option length r \<noteq> Some sz then FILE_READ else SUCCESS, Some r, w))"

definition ph_write_file :: "byte list \<Rightarrow> PersistHandler \<Rightarrow> FileSys \<Rightarrow> RC \<times> int option \<times> FileSys" where
  "ph_write_file new ph = ph_bound ph (put_bytes ph new)"

definition ph_write_at :: "nat \<Rightarrow> byte list \<Rightarrow> PersistHandler \<Rightarrow> FileSys \<Rightarrow> RC \<times> int option \<times> FileSys" where
  "ph_write_at offset new ph = ph_bound ph (\<lambda>w.
     case fs_seek (ph_file_desc ph) (\<lambda>_. offset) w of (ok, w) \<Rightarrow>
       if \<not> ok then (FILE_SEEK, None, w) else put_bytes ph new w)"

definition ph_append :: "byte list \<Rightarrow> PersistHandler \<Rightarrow> FileSys \<Rightarrow> RC \<times> int option \<times> FileSys" where
  "ph_append new ph = ph_bound ph (\<lambda>w.
     case fs_seek (ph_file_desc ph) length w of (ok, w) \<Rightarrow>
       if \<not> ok then (FILE_SEEK, None, w) else put_bytes ph new w)"

text \<open>For the reads the second component holds the bytes instead of their number; \<open>Some None\<close> stands for \<open>-1\<close>.\<close>

definition ph_read_file :: "nat \<Rightarrow> PersistHandler \<Rightarrow> FileSys \<Rightarrow> RC \<times> byte list option option \<times> FileSys" where
  "ph_read_file sz ph = ph_bound ph (get_bytes ph sz)"

definition ph_read_at :: "nat \<Rightarrow> nat \<Rightarrow> PersistHandler \<Rightarrow> FileSys \<Rightarrow> RC \<times> byte list option option \<times> FileSys" where
  "ph_read_at offset sz ph = ph_bound ph (\<lambda>w.
     case fs_seek (ph_file_desc ph) (\<lambda>_. offset) w of (ok, w) \<Rightarrow>
       if \<not> ok then (FILE_SEEK, None, w) else get_bytes ph sz w)"

definition ph_seek :: "nat \<Rightarrow> PersistHandler \<Rightarrow> FileSys \<Rightarrow> RC \<times> FileSys" where
  "ph_seek offset ph w =
     (if ph_file_name ph = [] then (FILE_NOT_EXIST, w)
      else if ph_file_desc ph < 0 then (FILE_NOT_OPENED, w)
      else case fs_seek (ph_file_desc ph) (\<lambda>_. offset) w of (ok, w) \<Rightarrow> (if \<not> ok then FILE_SEEK else SUCCESS, w))"

end
