(* ===== verification/Ob_Clog.thy ===== *)
theory Ob_Clog
  imports Ob_Persist Ob_Comparator Ob_RecordFile
begin

text \<open>
  The redo log (\<open>src/src/observer/storage/clog/clog.h\<close> and \<open>clog.cpp\<close>): log records as the bytes of their
  structures, the buffer of blocks they are appended to, the log file, and the recovery that reads the blocks back.
  Memory that the code leaves uninitialised is the parameter \<open>u\<close> (the bytes of a new structure and of a new array).
  A copy beyond a buffer and a loop that does not end are the result \<open>None\<close>.  Comparisons that the
  language performs in \<^verbatim>\<open>size_t\<close> go through \<open>ulong\<close>.
\<close>

section \<open>Machine integers\<close>

definition wrap16 :: "int \<Rightarrow> int" where
  "wrap16 x = (x + 2 ^ 15) mod 2 ^ 16 - 2 ^ 15"

definition load_i16 :: "mem \<Rightarrow> nat \<Rightarrow> int" where
  "load_i16 m i = wrap16 (uint (m i) + 256 * uint (m (i + 1)))"

definition store_i16 :: "mem \<Rightarrow> nat \<Rightarrow> int \<Rightarrow> mem" where
  "store_i16 m i v = m(i := word_of_int v, i + 1 := word_of_int (v div 256))"

definition ulong :: "int \<Rightarrow> int" where "ulong x = x mod 2 ^ 64"

definition zero_mem :: "mem \<Rightarrow> nat \<Rightarrow> nat \<Rightarrow> mem" where
  "zero_mem m off n = blit m off (\<lambda>_. 0) n"

definition list_mem :: "byte list \<Rightarrow> mem" where
  "list_mem bs = (\<lambda>i. if i < length bs then bs ! i else 0)"

section \<open>Constants\<close>

definition CLOG_BUFFER_SIZE :: nat where "CLOG_BUFFER_SIZE = 4 * 1024 * 1024"
definition TABLE_NAME_MAX_LEN :: nat where "TABLE_NAME_MAX_LEN = 20"
definition CLOG_BLOCK_SIZE :: nat where "CLOG_BLOCK_SIZE = 512"
definition CLOG_BLOCK_HDR_SIZE :: nat where "CLOG_BLOCK_HDR_SIZE = 8"
definition CLOG_BLOCK_DATA_SIZE :: nat where "CLOG_BLOCK_DATA_SIZE = 504"
definition CLOG_REDO_BUFFER_SIZE :: nat where "CLOG_REDO_BUFFER_SIZE = 4096"
definition CLOG_INS_REC_NODATA_SIZE :: nat where "CLOG_INS_REC_NODATA_SIZE = 48"

section \<open>Log records\<close>

datatype CLogType = REDO_ERROR | REDO_MTR_BEGIN | REDO_MTR_COMMIT | REDO_INSERT | REDO_UPDATE | REDO_DELETE

primrec code_CLogType :: "CLogType \<Rightarrow> int" where
  "code_CLogType REDO_ERROR = 0"
| "code_CLogType REDO_MTR_BEGIN = 1"
| "code_CLogType REDO_MTR_COMMIT = 2"
| "code_CLogType REDO_INSERT = 3"
| "code_CLogType REDO_UPDATE = 4"
| "code_CLogType REDO_DELETE = 5"

text \<open>
  The bytes of the union \<^verbatim>\<open>log_record_\<close> and the array behind its pointer \<^verbatim>\<open>data_\<close>.  The structures for inserts and updates
  have the same layout: lsn, transaction, type and length, the table name, the record id and the data
  length; the one for deletes ends with the record id.
\<close>

record CLogRecord =
  rec_flag :: int
  log_rec :: mem
  rec_data :: mem

definition lr_lsn :: "CLogRecord \<Rightarrow> int" where "lr_lsn r = load_int (log_rec r) 0"
definition get_trx_id :: "CLogRecord \<Rightarrow> int" where "get_trx_id r = load_int (log_rec r) 4"
definition get_logrec_len :: "CLogRecord \<Rightarrow> int" where "get_logrec_len r = load_int (log_rec r) 12"
definition lr_rid :: "CLogRecord \<Rightarrow> int \<times> int" where
  "lr_rid r = (load_int (log_rec r) 36, load_int (log_rec r) 40)"
definition lr_data_len :: "CLogRecord \<Rightarrow> int" where "lr_data_len r = load_int (log_rec r) 44"
definition lr_table_name :: "CLogRecord \<Rightarrow> byte list option" where
  "lr_table_name r = c_string (at_off (log_rec r) 16)"

definition clog_align8 :: "int \<Rightarrow> int" where
  "clog_align8 sz = sz div 8 * 8 + (if sz mod 8 = 0 then 0 else 8)"

definition put_header :: "int \<Rightarrow> int \<Rightarrow> int \<Rightarrow> int \<Rightarrow> mem \<Rightarrow> mem" where
  "put_header lsn trx type len m = store_int (store_int (store_int (store_int m 4 trx) 8 type) 12 len) 0 lsn"

text \<open>\<^verbatim>\<open>strcpy\<close> into \<^verbatim>\<open>table_name_\<close>.\<close>

definition put_name :: "byte list \<Rightarrow> mem \<Rightarrow> mem option" where
  "put_name name m = (if length name < TABLE_NAME_MAX_LEN then Some (blit m 16 (list_mem name) (length name + 1)) else None)"

definition put_rid :: "RID \<Rightarrow> mem \<Rightarrow> mem" where
  "put_rid rid m = store_int (store_int m 36 (rid_page_num rid)) 40 (rid_slot_num rid)"

text \<open>\<^verbatim>\<open>get_next_lsn\<close> returns the counter and adds the length.\<close>

definition get_next_lsn :: "int \<Rightarrow> int \<Rightarrow> int \<times> int" where
  "get_next_lsn rec_len lsn = (lsn, wrap32 (lsn + rec_len))"

text \<open>A record is given by its id and its data; the result has the new lsn counter.\<close>

definition CLogRecord_new ::
    "mem \<times> mem \<Rightarrow> CLogType \<Rightarrow> int \<Rightarrow> byte list option \<Rightarrow> int \<Rightarrow> (RID \<times> mem option) option \<Rightarrow> int \<Rightarrow> (CLogRecord \<times> int) option" where
  "CLogRecord_new u flag trx_id table_name data_len rec lsn =
     (let null = Some (\<lparr>rec_flag = code_CLogType flag, log_rec = fst u, rec_data = snd u\<rparr>, lsn) in
      if flag = REDO_MTR_BEGIN \<or> flag = REDO_MTR_COMMIT then
        let (this, lsn) = get_next_lsn 16 lsn in
        Some (\<lparr>rec_flag = code_CLogType flag, log_rec = put_header this trx_id (code_CLogType flag) 16 (fst u), rec_data = snd u\<rparr>, lsn)
      else if flag = REDO_INSERT \<or> flag = REDO_UPDATE then
        (case rec of
           Some (rid, Some bytes) \<Rightarrow> do {
             name \<leftarrow> table_name;
             m \<leftarrow> put_name name (fst u);
             let len = clog_align8 (48 + data_len);
             let (this, lsn) = get_next_lsn len lsn;
             if data_len < 0 then None
             else Some (\<lparr>rec_flag = code_CLogType flag,
                         log_rec = put_header this trx_id (code_CLogType flag) len (store_int (put_rid rid m) 44 data_len),
                         rec_data = blit (snd u) 0 bytes (nat data_len)\<rparr>, lsn)
           }
         | _ \<Rightarrow> null)
      else if flag = REDO_DELETE then
        (case rec of
           Some (rid, _) \<Rightarrow> do {
             name \<leftarrow> table_name;
             m \<leftarrow> put_name name (fst u);
             let (this, lsn) = get_next_lsn 44 lsn;
             Some (\<lparr>rec_flag = code_CLogType flag, log_rec = put_header this trx_id (code_CLogType flag) 44 (put_rid rid m),
                    rec_data = snd u\<rparr>, lsn)
           }
         | None \<Rightarrow> null)
      else null)"

text \<open>The record that is read back from memory.\<close>

definition CLogRecord_of :: "mem \<times> mem \<Rightarrow> mem \<Rightarrow> CLogRecord option" where
  "CLogRecord_of u src =
     (let type = load_int src 8; hdr = blit (fst u) 0 src 16 in
      if type = code_CLogType REDO_MTR_BEGIN \<or> type = code_CLogType REDO_MTR_COMMIT
      then Some \<lparr>rec_flag = type, log_rec = hdr, rec_data = snd u\<rparr>
      else if type = code_CLogType REDO_INSERT \<or> type = code_CLogType REDO_UPDATE then do {
        name \<leftarrow> c_string (at_off src 16);
        m \<leftarrow> put_name name hdr;
        let len = load_int src 12; let data_len = load_int src 44;
        if len < 48 \<or> data_len < 0 \<or> data_len > len - 48 then None
        else Some \<lparr>rec_flag = type, log_rec = blit m 36 (at_off src 36) 12, rec_data = blit (snd u) 0 (at_off src 48) (nat data_len)\<rparr>
      }
      else if type = code_CLogType REDO_DELETE then do {
        name \<leftarrow> c_string (at_off src 16);
        m \<leftarrow> put_name name hdr;
        Some \<lparr>rec_flag = type, log_rec = blit m 36 (at_off src 36) 8, rec_data = snd u\<rparr>
      }
      else Some \<lparr>rec_flag = type, log_rec = fst u, rec_data = snd u\<rparr>)"

text \<open>Part of the bytes of a record, copied to \<open>dest + off\<close>; the branches for inserts and updates are the same.\<close>

definition copy_record :: "CLogRecord \<Rightarrow> mem \<Rightarrow> nat \<Rightarrow> nat \<Rightarrow> nat \<Rightarrow> RC \<times> mem" where
  "copy_record r dest off start_off copy_len =
     (if int (start_off + copy_len) > get_logrec_len r then (GENERIC_ERROR, dest)
      else (SUCCESS,
        if rec_flag r = code_CLogType REDO_UPDATE \<or> rec_flag r = code_CLogType REDO_INSERT then
          if start_off > 48 then blit dest off (at_off (rec_data r) (start_off - 48)) copy_len
          else if start_off + copy_len \<le> 48 then blit dest off (at_off (log_rec r) start_off) copy_len
          else blit (blit dest off (at_off (log_rec r) start_off) (48 - start_off))
                 (off + 48 - start_off) (rec_data r) (copy_len - (48 - start_off))
        else blit dest off (at_off (log_rec r) start_off) copy_len))"

definition same_header :: "CLogRecord \<Rightarrow> CLogRecord \<Rightarrow> bool" where
  "same_header a b \<longleftrightarrow> lr_lsn a = lr_lsn b \<and> get_trx_id a = get_trx_id b \<and>
     load_int (log_rec a) 8 = load_int (log_rec b) 8 \<and> get_logrec_len a = get_logrec_len b"

definition cmp_eq :: "CLogRecord \<Rightarrow> CLogRecord \<Rightarrow> bool option" where
  "cmp_eq a b =
     (if rec_flag a \<noteq> rec_flag b then Some False
      else if rec_flag a = code_CLogType REDO_MTR_BEGIN \<or> rec_flag a = code_CLogType REDO_MTR_COMMIT then Some (same_header a b)
      else if \<not> same_header a b \<and> rec_flag a \<in> code_CLogType ` {REDO_INSERT, REDO_UPDATE, REDO_DELETE} then Some False
      else if rec_flag a = code_CLogType REDO_INSERT \<or> rec_flag a = code_CLogType REDO_UPDATE then do {
        n1 \<leftarrow> lr_table_name a;
        n2 \<leftarrow> lr_table_name b;
        Some (n1 = n2 \<and> lr_rid a = lr_rid b \<and> lr_data_len a = lr_data_len b \<and>
          bytes_at (rec_data a) 0 (nat (lr_data_len a)) = bytes_at (rec_data b) 0 (nat (lr_data_len a)))
      }
      else if rec_flag a = code_CLogType REDO_DELETE then do {
        n1 \<leftarrow> lr_table_name a;
        n2 \<leftarrow> lr_table_name b;
        Some (n1 = n2 \<and> lr_rid a = lr_rid b)
      }
      else Some False)"

section \<open>Blocks\<close>

text \<open>The header of the block at \<open>o\<close>.\<close>

definition log_block_no :: "mem \<Rightarrow> nat \<Rightarrow> int" where "log_block_no m off = load_int m off"
definition log_data_len :: "mem \<Rightarrow> nat \<Rightarrow> int" where "log_data_len m off = load_i16 m (off + 4)"
definition first_rec_offset :: "mem \<Rightarrow> nat \<Rightarrow> int" where "first_rec_offset m off = load_i16 m (off + 6)"

definition set_log_data_len :: "nat \<Rightarrow> int \<Rightarrow> mem \<Rightarrow> mem" where "set_log_data_len off n m = store_i16 m (off + 4) n"
definition set_first_rec_offset :: "nat \<Rightarrow> int \<Rightarrow> mem \<Rightarrow> mem" where "set_first_rec_offset off n m = store_i16 m (off + 6) n"

section \<open>The log buffer\<close>

record CLogBuffer =
  current_block_no :: int
  write_block_offset :: nat
  write_offset :: nat
  log_buffer :: mem

definition CLogBuffer_new :: CLogBuffer where
  "CLogBuffer_new = \<lparr>current_block_no = 0, write_block_offset = 0, write_offset = 0, log_buffer = (\<lambda>_. 0)\<rparr>"

text \<open>A cleared block with the next number at the write block offset.\<close>

definition start_block :: "CLogBuffer \<Rightarrow> CLogBuffer" where
  "start_block c =
     (let no = wrap32 (current_block_no c + int CLOG_BLOCK_SIZE); b = write_block_offset c in
      c\<lparr>log_buffer := store_int (zero_mem (log_buffer c) b CLOG_BLOCK_SIZE) b no, current_block_no := no,
        write_offset := write_offset c + CLOG_BLOCK_HDR_SIZE\<rparr>)"

text \<open>\<open>n\<close> bytes of the record from \<open>start\<close> on are written to the current block.\<close>

definition fill_block :: "CLogRecord \<Rightarrow> nat \<Rightarrow> nat \<Rightarrow> int \<Rightarrow> CLogBuffer \<Rightarrow> CLogBuffer" where
  "fill_block r start n first c =
     (let b = write_block_offset c;
          len = log_data_len (log_buffer c) b;
          m = (if len = 0 then set_first_rec_offset b first (log_buffer c) else log_buffer c);
          m = snd (copy_record r m (write_offset c) start n) in
      c\<lparr>log_buffer := set_log_data_len b (len + int n) m, write_offset := write_offset c + n\<rparr>)"

partial_function (option) append_from :: "CLogRecord \<Rightarrow> nat \<Rightarrow> CLogBuffer \<Rightarrow> (RC \<times> nat \<times> CLogBuffer) option" where
  "append_from r start c =
     (if write_offset c = CLOG_BUFFER_SIZE then Some (LOGBUF_FULL, start, c)
      else let c = (if write_offset c = 0 \<and> write_block_offset c = 0 then start_block c else c);
               left = get_logrec_len r - int start;
               len = log_data_len (log_buffer c) (write_block_offset c) in
        if len = int CLOG_BLOCK_DATA_SIZE
        then append_from r start (start_block (c\<lparr>write_block_offset := write_block_offset c + CLOG_BLOCK_SIZE\<rparr>))
        else if ulong left \<le> ulong (int CLOG_BLOCK_DATA_SIZE - len)
        then Some (SUCCESS, start + nat left,
               fill_block r start (nat left) (if start = 0 then int CLOG_BLOCK_HDR_SIZE else int CLOG_BLOCK_HDR_SIZE + left) c)
        else if len < 0 \<or> len > int CLOG_BLOCK_DATA_SIZE then None
        else let n = nat (int CLOG_BLOCK_DATA_SIZE - len) in
          append_from r (start + n) (fill_block r start n (int CLOG_BLOCK_SIZE) c))"

definition append_log_record :: "CLogRecord option \<Rightarrow> nat \<Rightarrow> CLogBuffer \<Rightarrow> (RC \<times> nat \<times> CLogBuffer) option" where
  "append_log_record r start c = (case r of None \<Rightarrow> Some (GENERIC_ERROR, start, c) | Some r \<Rightarrow> append_from r start c)"

section \<open>The log file\<close>

record CLogFile =
  clf_fhd :: mem
  clf_file :: PersistHandler

definition update_log_fhd :: "int \<Rightarrow> CLogFile \<Rightarrow> FileSys \<Rightarrow> RC \<times> CLogFile \<times> FileSys" where
  "update_log_fhd lsn f w =
     (let fhd = store_int (store_int (clf_fhd f) 4 lsn) 0 8 in
      case ph_write_at 0 (bytes_at fhd 0 CLOG_BLOCK_SIZE) (clf_file f) w of (rc, _, w) \<Rightarrow> (rc, f\<lparr>clf_fhd := fhd\<rparr>, w))"

definition CLogFile_new :: "mem \<Rightarrow> string \<Rightarrow> FileSys \<Rightarrow> CLogFile \<times> FileSys" where
  "CLogFile_new raw path w =
     (let name = path @ ''/clog''; f = \<lparr>clf_fhd = raw, clf_file = ph_new\<rparr> in
      case ph_create_file (Some name) ph_new w of (rc, ph, w) \<Rightarrow>
        if rc = SUCCESS then
          case ph_open_file None ph w of (_, ph, w) \<Rightarrow>
          case update_log_fhd 0 (f\<lparr>clf_file := ph\<rparr>) w of (_, f, w) \<Rightarrow> (f, w)
        else if rc = FILE_EXIST then
          case ph_open_file (Some name) ph w of (_, ph, w) \<Rightarrow>
          case ph_read_at 0 CLOG_BLOCK_SIZE ph w of (_, out, w) \<Rightarrow>
            (f\<lparr>clf_file := ph, clf_fhd := (case out of Some (Some bs) \<Rightarrow> blit raw 0 (list_mem bs) (length bs) | _ \<Rightarrow> raw)\<rparr>, w)
        else (f\<lparr>clf_file := ph\<rparr>, w))"

definition clf_close :: "CLogFile \<Rightarrow> FileSys \<Rightarrow> FileSys" where
  "clf_close f w = (case ph_close_file (clf_file f) w of (_, _, w) \<Rightarrow> w)"

definition clf_append :: "byte list \<Rightarrow> CLogFile \<Rightarrow> FileSys \<Rightarrow> RC \<times> FileSys" where
  "clf_append bs f w = (case ph_append bs (clf_file f) w of (rc, _, w) \<Rightarrow> (rc, w))"

definition clf_write :: "nat \<Rightarrow> byte list \<Rightarrow> CLogFile \<Rightarrow> FileSys \<Rightarrow> RC \<times> FileSys" where
  "clf_write offset bs f w = (case ph_write_at offset bs (clf_file f) w of (rc, _, w) \<Rightarrow> (rc, w))"

text \<open>The results of the writes are not used.\<close>

definition flush_buffer :: "CLogFile \<Rightarrow> CLogBuffer \<Rightarrow> FileSys \<Rightarrow> RC \<times> CLogBuffer \<times> FileSys" where
  "flush_buffer f c w =
     (let no = nat (ulong (log_block_no (log_buffer c) 0)); m = log_buffer c; b = write_block_offset c in
      if write_offset c = CLOG_BUFFER_SIZE then
        (SUCCESS, c\<lparr>write_block_offset := 0, write_offset := 0, log_buffer := (\<lambda>_. 0)\<rparr>,
         snd (clf_write no (bytes_at m 0 CLOG_BUFFER_SIZE) f w))
      else
        let w = snd (clf_write no (bytes_at m 0 (b + CLOG_BLOCK_SIZE)) f w) in
        if log_data_len m b = int CLOG_BLOCK_DATA_SIZE then
          (SUCCESS, c\<lparr>write_block_offset := 0, write_offset := 0, log_buffer := (\<lambda>_. 0)\<rparr>, w)
        else if b \<noteq> 0 then
          (SUCCESS, c\<lparr>write_offset := nat (log_data_len m b + int CLOG_BLOCK_HDR_SIZE), write_block_offset := 0,
             log_buffer := zero_mem (blit m 0 (at_off m b) CLOG_BLOCK_SIZE) CLOG_BLOCK_SIZE (CLOG_BUFFER_SIZE - CLOG_BLOCK_SIZE)\<rparr>, w)
        else (SUCCESS, c, w))"

definition block_copy :: "nat \<Rightarrow> mem \<Rightarrow> CLogBuffer \<Rightarrow> RC \<times> CLogBuffer" where
  "block_copy offset block c = (SUCCESS, c\<lparr>log_buffer := blit (log_buffer c) offset block CLOG_BLOCK_SIZE\<rparr>)"

section \<open>Transactions seen by the recovery\<close>

record CLogMTRManager =
  log_redo_list :: "CLogRecord list"
  trx_commited :: "int \<rightharpoonup> bool"

definition mtr_new :: CLogMTRManager where
  "mtr_new = \<lparr>log_redo_list = [], trx_commited = Map.empty\<rparr>"

definition log_record_manage :: "CLogRecord \<Rightarrow> CLogMTRManager \<Rightarrow> CLogMTRManager" where
  "log_record_manage r g =
     (if rec_flag r = code_CLogType REDO_MTR_COMMIT then g\<lparr>trx_commited := (trx_commited g)(get_trx_id r \<mapsto> True)\<rparr>
      else if rec_flag r = code_CLogType REDO_MTR_BEGIN
      then (if trx_commited g (get_trx_id r) = None then g\<lparr>trx_commited := (trx_commited g)(get_trx_id r \<mapsto> False)\<rparr> else g)
      else g\<lparr>log_redo_list := log_redo_list g @ [r]\<rparr>)"

section \<open>Recovery\<close>

text \<open>The part of a record that spans blocks.\<close>

record CLogRecordBuf =
  lb_write_offset :: nat
  lb_buffer :: mem

definition lb_new :: CLogRecordBuf where
  "lb_new = \<lparr>lb_write_offset = 0, lb_buffer = (\<lambda>_. 0)\<rparr>"

definition lb_append :: "mem \<Rightarrow> nat \<Rightarrow> CLogRecordBuf \<Rightarrow> CLogRecordBuf option" where
  "lb_append src n lb =
     (if lb_write_offset lb + n > CLOG_REDO_BUFFER_SIZE then None
      else Some \<lparr>lb_write_offset = lb_write_offset lb + n, lb_buffer = blit (lb_buffer lb) (lb_write_offset lb) src n\<rparr>)"

text \<open>One step in the block at \<open>o\<close> of the memory \<open>m\<close>: the new offset, the buffer and a record, when one is complete.\<close>

definition block_recover ::
    "mem \<times> mem \<Rightarrow> mem \<Rightarrow> nat \<Rightarrow> int \<Rightarrow> CLogRecordBuf \<Rightarrow> (int \<times> CLogRecordBuf \<times> CLogRecord option) option" where
  "block_recover u m off offset lb =
     (if offset = int CLOG_BLOCK_HDR_SIZE \<and> first_rec_offset m off \<noteq> int CLOG_BLOCK_HDR_SIZE then do {
        let n = first_rec_offset m off - int CLOG_BLOCK_HDR_SIZE;
        if n < 0 \<or> int off + offset + n > int CLOG_REDO_BUFFER_SIZE then None
        else do {
          lb \<leftarrow> lb_append (at_off m (off + nat offset)) (nat n) lb;
          Some (wrap16 (offset + n), lb, None)
        }
      }
      else if ulong (int CLOG_BLOCK_SIZE - offset) < 16 then do {
        lb \<leftarrow> lb_append (at_off m (off + nat offset)) (nat (int CLOG_BLOCK_SIZE - offset)) lb;
        Some (int CLOG_BLOCK_SIZE, lb, None)
      }
      else if lb_write_offset lb \<noteq> 0 then do {
        r \<leftarrow> CLogRecord_of u (lb_buffer lb);
        Some (offset, lb_new, Some r)
      }
      else if offset < 0 then None
      else do {
        let len = load_int m (off + nat offset + 12);
        if len \<le> int CLOG_BLOCK_SIZE - offset then do {
          r \<leftarrow> CLogRecord_of u (at_off m (off + nat offset));
          Some (wrap16 (offset + len), lb, Some r)
        }
        else if offset > int CLOG_BLOCK_SIZE then None
        else do {
          lb \<leftarrow> lb_append (at_off m (off + nat offset)) (nat (int CLOG_BLOCK_SIZE - offset)) lb;
          Some (int CLOG_BLOCK_SIZE, lb, None)
        }
      })"

text \<open>The records of one block, with the manager and the lsn counter.\<close>

partial_function (option) recover_records ::
    "mem \<times> mem \<Rightarrow> mem \<Rightarrow> nat \<Rightarrow> int \<Rightarrow> CLogRecordBuf \<Rightarrow> CLogMTRManager \<Rightarrow> int \<Rightarrow> (CLogRecordBuf \<times> CLogMTRManager \<times> int) option" where
  "recover_records u m off offset lb g lsn =
     (if \<not> ulong offset < ulong (int CLOG_BLOCK_HDR_SIZE + log_data_len m off) then Some (lb, g, lsn)
      else do {
        (offset, lb, rec) \<leftarrow> block_recover u m off offset lb;
        (case rec of
           None \<Rightarrow> recover_records u m off offset lb g lsn
         | Some r \<Rightarrow> recover_records u m off offset lb (log_record_manage r g) (wrap32 (lr_lsn r + get_logrec_len r)))
      })"

text \<open>The blocks of the redo buffer; the result says whether the last block has been seen.\<close>

partial_function (option) recover_blocks ::
    "mem \<times> mem \<Rightarrow> mem \<Rightarrow> nat \<Rightarrow> CLogBuffer \<Rightarrow> CLogRecordBuf \<Rightarrow> CLogMTRManager \<Rightarrow> int \<Rightarrow>
     (bool \<times> CLogBuffer \<times> CLogRecordBuf \<times> CLogMTRManager \<times> int) option" where
  "recover_blocks u m off c lb g lsn =
     (if \<not> off < CLOG_REDO_BUFFER_SIZE then Some (False, c, lb, g, lsn)
      else do {
        let c = c\<lparr>current_block_no := log_block_no m off\<rparr>;
        (lb, g, lsn) \<leftarrow> recover_records u m off (int CLOG_BLOCK_HDR_SIZE) lb g lsn;
        if ulong (log_data_len m off) < int CLOG_BLOCK_DATA_SIZE then
          let c = snd (block_copy 0 (at_off m off) c) in
          Some (True, c\<lparr>write_block_offset := 0, write_offset := nat (log_data_len m off + int CLOG_BLOCK_HDR_SIZE)\<rparr>, lb, g, lsn)
        else recover_blocks u m (off + CLOG_BLOCK_SIZE) c lb g lsn
      })"

text \<open>
  The reads of the file into the redo buffer \<open>m\<close>, which keeps its old contents behind the bytes that were read;
  \<open>read_size\<close> keeps its value when a seek fails.
\<close>

definition read_redo :: "nat \<Rightarrow> CLogFile \<Rightarrow> mem \<Rightarrow> int \<Rightarrow> FileSys \<Rightarrow> mem \<times> int \<times> FileSys" where
  "read_redo offset f m read_size w = (case ph_read_at offset CLOG_REDO_BUFFER_SIZE (clf_file f) w of (_, out, w) \<Rightarrow>
     case out of
       None \<Rightarrow> (m, read_size, w)
     | Some None \<Rightarrow> (m, - 1, w)
     | Some (Some bs) \<Rightarrow> (blit m 0 (list_mem bs) (length bs), int (length bs), w))"

partial_function (option) recover_reads ::
    "mem \<times> mem \<Rightarrow> CLogFile \<Rightarrow> nat \<Rightarrow> mem \<Rightarrow> int \<Rightarrow> CLogBuffer \<Rightarrow> CLogRecordBuf \<Rightarrow> CLogMTRManager \<Rightarrow> int \<Rightarrow> FileSys \<Rightarrow>
     (CLogBuffer \<times> CLogRecordBuf \<times> CLogMTRManager \<times> int \<times> FileSys) option" where
  "recover_reads u f offset m read_size c lb g lsn w =
     (if read_size = 0 then Some (c, lb, g, lsn, w)
      else do {
        (fin, c, lb, g, lsn) \<leftarrow> recover_blocks u m 0 c lb g lsn;
        if fin then Some (c, lb, g, lsn, w)
        else do {
          let offset = nat (ulong (int offset + read_size));
          let (m, read_size, w) = read_redo offset f m read_size w;
          recover_reads u f offset m read_size c lb g lsn w
        }
      })"

definition clf_recover ::
    "mem \<times> mem \<Rightarrow> mem \<Rightarrow> CLogFile \<Rightarrow> CLogMTRManager \<Rightarrow> CLogBuffer \<Rightarrow> int \<Rightarrow> FileSys \<Rightarrow>
     (RC \<times> CLogMTRManager \<times> CLogBuffer \<times> int \<times> FileSys) option" where
  "clf_recover u raw f g c lsn w = do {
     let (m, read_size, w) = read_redo CLOG_BLOCK_SIZE f raw 0 w;
     (c, lb, g, lsn, w) \<leftarrow> recover_reads u f CLOG_BLOCK_SIZE m read_size c lb_new g lsn w;
     if lb_write_offset lb \<noteq> 0 then do {
       r \<leftarrow> CLogRecord_of u (lb_buffer lb);
       Some (SUCCESS, log_record_manage r g, c, lsn, w)
     }
     else Some (SUCCESS, g, c, lsn, w)
   }"

section \<open>The log manager\<close>

text \<open>The lsn counter is static in the code.\<close>

record CLogManager =
  cm_buffer :: CLogBuffer
  cm_file :: CLogFile
  cm_mtr :: CLogMTRManager
  cm_lsn :: int

definition CLogManager_new :: "mem \<Rightarrow> string \<Rightarrow> int \<Rightarrow> FileSys \<Rightarrow> CLogManager \<times> FileSys" where
  "CLogManager_new raw path lsn w = (case CLogFile_new raw path w of (f, w) \<Rightarrow>
     (\<lparr>cm_buffer = CLogBuffer_new, cm_file = f, cm_mtr = mtr_new, cm_lsn = lsn\<rparr>, w))"

definition clog_gen_record ::
    "mem \<times> mem \<Rightarrow> CLogType \<Rightarrow> int \<Rightarrow> byte list option \<Rightarrow> int \<Rightarrow> (RID \<times> mem option) option \<Rightarrow> CLogManager \<Rightarrow>
     (RC \<times> CLogRecord \<times> CLogManager) option" where
  "clog_gen_record u flag trx_id table_name data_len rec cm = do {
     (r, lsn) \<leftarrow> CLogRecord_new u flag trx_id table_name data_len rec (cm_lsn cm);
     Some (SUCCESS, r, cm\<lparr>cm_lsn := lsn\<rparr>)
   }"

definition clog_sync :: "CLogManager \<Rightarrow> FileSys \<Rightarrow> RC \<times> CLogManager \<times> FileSys" where
  "clog_sync cm w = (case flush_buffer (cm_file cm) (cm_buffer cm) w of (rc, c, w) \<Rightarrow> (rc, cm\<lparr>cm_buffer := c\<rparr>, w))"

text \<open>The second append's result is not used, and the code of the first one is returned.\<close>

definition clog_append_record :: "CLogRecord option \<Rightarrow> CLogManager \<Rightarrow> FileSys \<Rightarrow> (RC \<times> CLogManager \<times> FileSys) option" where
  "clog_append_record r cm w = do {
     (rc, start, c) \<leftarrow> append_log_record r 0 (cm_buffer cm);
     let cm = cm\<lparr>cm_buffer := c\<rparr>;
     r \<leftarrow> r;
     if rc = LOGBUF_FULL \<or> rec_flag r = code_CLogType REDO_MTR_COMMIT then do {
       let (_, cm, w) = clog_sync cm w;
       if int start \<noteq> get_logrec_len r then do {
         (_, _, c) \<leftarrow> append_log_record (Some r) start (cm_buffer cm);
         Some (rc, cm\<lparr>cm_buffer := c\<rparr>, w)
       }
       else Some (rc, cm, w)
     }
     else Some (rc, cm, w)
   }"

definition clog_recover :: "mem \<times> mem \<Rightarrow> mem \<Rightarrow> CLogManager \<Rightarrow> FileSys \<Rightarrow> (RC \<times> CLogManager \<times> FileSys) option" where
  "clog_recover u raw cm w = do {
     (_, g, c, lsn, w) \<leftarrow> clf_recover u raw (cm_file cm) (cm_mtr cm) (cm_buffer cm) (cm_lsn cm) w;
     Some (SUCCESS, cm\<lparr>cm_mtr := g, cm_buffer := c, cm_lsn := lsn\<rparr>, w)
   }"

end
