(* ===== verification/Ob_ClogProps.thy ===== *)
theory Ob_ClogProps
  imports Ob_Clog
begin

text \<open>
  Correctness of the redo log: what the bytes of a record are, how appending lays them out in blocks, and that
  the recovery reads the records back.
\<close>

section \<open>The bytes of a record\<close>

definition has_data :: "CLogRecord \<Rightarrow> bool" where
  "has_data r \<longleftrightarrow> rec_flag r = code_CLogType REDO_UPDATE \<or> rec_flag r = code_CLogType REDO_INSERT"

definition rec_byte :: "CLogRecord \<Rightarrow> nat \<Rightarrow> byte" where
  "rec_byte r i = (if has_data r \<and> 48 \<le> i then rec_data r (i - 48) else log_rec r i)"

definition rec_bytes :: "CLogRecord \<Rightarrow> byte list" where
  "rec_bytes r = map (rec_byte r) [0..<nat (get_logrec_len r)]"

lemma length_rec_bytes [simp]: "length (rec_bytes r) = nat (get_logrec_len r)"
  by (simp add: rec_bytes_def)

lemma copy_record_bytes:
  assumes "int (start + n) \<le> get_logrec_len r"
  shows "copy_record r dest off start n = (SUCCESS, blit dest off (\<lambda>i. rec_byte r (start + i)) n)"
  using assms by (auto simp: copy_record_def rec_byte_def has_data_def blit_def at_off_def fun_eq_iff add.commute)

section \<open>Reading fields of a record back\<close>

lemma c_string_list:
  assumes "0 \<notin> set name" "\<And>i. i < length name \<Longrightarrow> m i = name ! i" "m (length name) = 0"
  shows "c_string m = Some name"
proof -
  have "c_string_from m (length name - n) = Some (drop (length name - n) name)" if "n \<le> length name" for n
    using that
  proof (induction n)
    case 0
    then show ?case using assms(3) by (simp add: c_string_from.simps)
  next
    case (Suc n)
    let ?i = "length name - Suc n"
    have i: "?i < length name" "Suc ?i = length name - n" using Suc.prems by simp_all
    have "m ?i \<noteq> 0" using assms(1,2) i(1) by (metis nth_mem)
    moreover have "drop ?i name = name ! ?i # drop (length name - n) name" using Cons_nth_drop_Suc [OF i(1)] i(2) by simp
    ultimately show ?case using Suc i assms(2) [OF i(1)] by (subst c_string_from.simps) simp
  qed
  from this [of "length name"] show ?thesis by (simp add: c_string_def)
qed

text \<open>A record as the constructors build it, with the name of its table.\<close>

definition named :: "byte list \<Rightarrow> mem \<Rightarrow> bool" where
  "named name m \<longleftrightarrow> 0 \<notin> set name \<and> length name < TABLE_NAME_MAX_LEN \<and>
     (\<forall>i<length name. m (16 + i) = name ! i) \<and> m (16 + length name) = 0"

definition rec_ok :: "CLogRecord \<Rightarrow> bool" where
  "rec_ok r \<longleftrightarrow> load_int (log_rec r) 8 = rec_flag r \<and>
     (rec_flag r \<in> {code_CLogType REDO_MTR_BEGIN, code_CLogType REDO_MTR_COMMIT} \<and> get_logrec_len r = 16 \<or>
      has_data r \<and> 48 + lr_data_len r \<le> get_logrec_len r \<and> 0 \<le> lr_data_len r \<and> (\<exists>name. named name (log_rec r)) \<or>
      rec_flag r = code_CLogType REDO_DELETE \<and> get_logrec_len r = 44 \<and> (\<exists>name. named name (log_rec r)))"

lemma named_c_string: "named name m \<Longrightarrow> c_string (at_off m 16) = Some name"
  by (rule c_string_list) (auto simp: named_def at_off_def)

lemma named_cong:
  assumes "named name m" "\<And>i. i < 36 \<Longrightarrow> 16 \<le> i \<Longrightarrow> m' i = m i"
  shows "named name m'"
  using assms unfolding named_def TABLE_NAME_MAX_LEN_def by auto

lemma put_name_named:
  assumes "0 \<notin> set name" "length name < 20"
  shows "\<exists>m'. put_name name m = Some m' \<and> named name m' \<and> (\<forall>i. i < 16 \<or> 36 \<le> i \<longrightarrow> m' i = m i)"
  using assms by (auto simp: put_name_def named_def TABLE_NAME_MAX_LEN_def blit_def list_mem_def)

lemma rec_len_cases: "rec_ok r \<Longrightarrow> 16 \<le> get_logrec_len r"
  by (auto simp: rec_ok_def)

text \<open>The fields of a record with a table name that are read back from its bytes.\<close>

lemma read_named:
  assumes "named name m0" "\<And>i. i < n \<Longrightarrow> src i = m0 i" "36 \<le> n"
  obtains m where "c_string (at_off src 16) = Some name" "put_name name (blit (fst u) 0 src 16) = Some m"
    "named name (blit m 36 (at_off src 36) (n - 36))"
    "\<And>i. i + 4 \<le> 16 \<or> 36 \<le> i \<and> i + 4 \<le> n \<Longrightarrow> load_int (blit m 36 (at_off src 36) (n - 36)) i = load_int m0 i"
proof -
  have ns: "named name src" by (rule named_cong [OF assms(1)]) (use assms in auto)
  define h where "h = blit (fst u) 0 src 16"
  obtain m where m: "put_name name h = Some m" "named name m" "\<And>i. i < 16 \<or> 36 \<le> i \<Longrightarrow> m i = h i"
    using put_name_named [of name h] ns by (auto simp: named_def TABLE_NAME_MAX_LEN_def)
  let ?m = "blit m 36 (at_off src 36) (n - 36)"
  have "named name ?m" by (rule named_cong [OF m(2)]) (auto simp: blit_def)
  moreover have eq: "?m j = m0 j" if "j < 16 \<or> 36 \<le> j \<and> j < n" for j
    using that m(3) assms(2,3) by (auto simp: blit_def at_off_def h_def)
  have "load_int ?m i = load_int m0 i" if "i + 4 \<le> 16 \<or> 36 \<le> i \<and> i + 4 \<le> n" for i
    by (rule load_int_cong, rule eq) (use that in linarith)
  ultimately show thesis using that named_c_string [OF ns] m(1) by (simp add: h_def)
qed

text \<open>A record whose bytes are in memory is read back equal.\<close>

definition same_record :: "CLogRecord \<Rightarrow> CLogRecord \<Rightarrow> bool" where
  "same_record r r' \<longleftrightarrow> cmp_eq r r' = Some True \<and> rec_flag r' = rec_flag r \<and> get_trx_id r' = get_trx_id r \<and>
     lr_lsn r' = lr_lsn r \<and> get_logrec_len r' = get_logrec_len r"

lemma CLogRecord_of_bytes:
  assumes "rec_ok r" "\<And>i. i < nat (get_logrec_len r) \<Longrightarrow> src i = rec_byte r i"
  shows "\<exists>r'. CLogRecord_of u src = Some r' \<and> same_record r r'"
proof -
  have len: "16 \<le> get_logrec_len r" by (rule rec_len_cases [OF assms(1)])
  have lo: "src i = log_rec r i" if "i < 48" "i < nat (get_logrec_len r)" for i using assms(2) [OF that(2)] that(1) by (simp add: rec_byte_def)
  have ld: "load_int src i = load_int (log_rec r) i" if "i + 4 \<le> 48" "i + 4 \<le> nat (get_logrec_len r)" for i
    by (rule load_int_cong) (use lo that in auto)
  have ty: "load_int src 8 = rec_flag r" "load_int src 12 = get_logrec_len r" and ty': "load_int (log_rec r) 8 = rec_flag r"
    using ld [of 8] ld [of 12] len assms(1) by (simp_all add: rec_ok_def get_logrec_len_def)
  consider (mtr) "rec_flag r \<in> {1, 2}" "get_logrec_len r = 16" | (data) name where "rec_flag r \<in> {3, 4}"
      "48 + lr_data_len r \<le> get_logrec_len r" "0 \<le> lr_data_len r" "named name (log_rec r)"
    | (del) name where "rec_flag r = 5" "get_logrec_len r = 44" "named name (log_rec r)"
    using assms(1) by (auto simp: rec_ok_def has_data_def)
  then show ?thesis
  proof cases
    case mtr
    let ?h = "blit (fst u) 0 src 16"
    have "load_int ?h i = load_int (log_rec r) i" if "i + 4 \<le> 16" for i
      using ld [of i] that mtr load_int_cong [of i ?h src] by (auto simp: blit_def)
    then show ?thesis
      using mtr ty ty' by (auto simp: CLogRecord_of_def same_record_def cmp_eq_def same_header_def lr_lsn_def get_trx_id_def get_logrec_len_def)
  next
    case (data name)
    have "\<And>i. i < 48 \<Longrightarrow> src i = log_rec r i" using lo data by simp
    from read_named [where n = 48 and u = u, OF data(4) this] obtain m where m: "c_string (at_off src 16) = Some name" "put_name name (blit (fst u) 0 src 16) = Some m"
        "named name (blit m 36 (at_off src 36) 12)"
        "\<And>i. i + 4 \<le> 16 \<or> 36 \<le> i \<and> i + 4 \<le> 48 \<Longrightarrow> load_int (blit m 36 (at_off src 36) 12) i = load_int (log_rec r) i"
      by auto
    let ?d = "blit (snd u) 0 (at_off src 48) (nat (lr_data_len r))"
    have dl: "load_int src 44 = lr_data_len r" using ld [of 44] data by (simp add: lr_data_len_def)
    have "CLogRecord_of u src = Some \<lparr>rec_flag = rec_flag r, log_rec = blit m 36 (at_off src 36) 12, rec_data = ?d\<rparr>"
      using data ty m(1,2) dl by (auto simp: CLogRecord_of_def Let_def)
    moreover have "bytes_at (rec_data r) 0 (nat (lr_data_len r)) = bytes_at ?d 0 (nat (lr_data_len r))"
      using assms(2) data by (auto simp: bytes_at_def blit_def at_off_def rec_byte_def has_data_def)
    ultimately show ?thesis
      using data(1) m(4) named_c_string [OF m(3)] named_c_string [OF data(4)] ty'
      by (auto simp: same_record_def cmp_eq_def same_header_def lr_lsn_def get_trx_id_def get_logrec_len_def lr_rid_def lr_data_len_def lr_table_name_def)
  next
    case (del name)
    have "\<And>i. i < 44 \<Longrightarrow> src i = log_rec r i" using lo del by simp
    from read_named [where n = 44 and u = u, OF del(3) this] obtain m where m: "c_string (at_off src 16) = Some name" "put_name name (blit (fst u) 0 src 16) = Some m"
        "named name (blit m 36 (at_off src 36) 8)"
        "\<And>i. i + 4 \<le> 16 \<or> 36 \<le> i \<and> i + 4 \<le> 44 \<Longrightarrow> load_int (blit m 36 (at_off src 36) 8) i = load_int (log_rec r) i"
      by auto
    have "CLogRecord_of u src = Some \<lparr>rec_flag = rec_flag r, log_rec = blit m 36 (at_off src 36) 8, rec_data = snd u\<rparr>"
      using del ty m(1,2) by (auto simp: CLogRecord_of_def Let_def)
    then show ?thesis
      using del(1) m(4) named_c_string [OF m(3)] named_c_string [OF del(3)] ty'
      by (auto simp: same_record_def cmp_eq_def same_header_def lr_lsn_def get_trx_id_def get_logrec_len_def lr_rid_def lr_table_name_def)
  qed
qed

lemma put_header_loads:
  "load_int (put_header lsn trx type len m) 0 = wrap32 lsn" "load_int (put_header lsn trx type len m) 4 = wrap32 trx"
  "load_int (put_header lsn trx type len m) 8 = wrap32 type" "load_int (put_header lsn trx type len m) 12 = wrap32 len"
  "16 \<le> i \<Longrightarrow> load_int (put_header lsn trx type len m) i = load_int m i"
  "16 \<le> j \<Longrightarrow> put_header lsn trx type len m j = m j"
  by (simp_all add: put_header_def mem_simps)

text \<open>The constructor builds records of this kind and advances the lsn counter by their length.\<close>

lemma CLogRecord_new_ok:
  assumes "CLogRecord_new u flag trx name data_len rec lsn = Some (r, lsn')" "flag \<noteq> REDO_ERROR"
    and "flag \<in> {REDO_INSERT, REDO_UPDATE} \<Longrightarrow> \<exists>rid d. rec = Some (rid, Some d)" "flag = REDO_DELETE \<Longrightarrow> rec \<noteq> None"
    and "\<And>n. name = Some n \<Longrightarrow> 0 \<notin> set n" "data_len < 2 ^ 30"
  shows "rec_ok r" "rec_flag r = code_CLogType flag" "lr_lsn r = wrap32 lsn" "get_trx_id r = wrap32 trx"
    "lsn' = wrap32 (lsn + get_logrec_len r)"
proof -
  have pn: "named n m'" if "name = Some n" "put_name n m = Some m'" for n m m'
  proof -
    have l: "length n < 20" using that(2) by (auto simp: put_name_def TABLE_NAME_MAX_LEN_def split: if_splits)
    show ?thesis using put_name_named [OF assms(5) [OF that(1)] l, of m] that(2) by auto
  qed
  have keep: "named n (put_header a b c d (store_int (put_rid rid m) 44 e))" "named n (put_header a b c d (put_rid rid m))"
    if "named n m" for n a b c d rid m e
    using that by (auto intro!: named_cong [OF that] simp: put_header_loads put_rid_def mem_simps)
  have code: "wrap32 (code_CLogType flag) = code_CLogType flag" by (cases flag) simp_all
  consider (mtr) "flag \<in> {REDO_MTR_BEGIN, REDO_MTR_COMMIT}"
      "r = \<lparr>rec_flag = code_CLogType flag, log_rec = put_header lsn trx (code_CLogType flag) 16 (fst u), rec_data = snd u\<rparr>"
      "lsn' = wrap32 (lsn + 16)"
    | (data) rid d n m where "flag \<in> {REDO_INSERT, REDO_UPDATE}" "name = Some n" "put_name n (fst u) = Some m" "0 \<le> data_len"
      "r = \<lparr>rec_flag = code_CLogType flag, log_rec = put_header lsn trx (code_CLogType flag) (clog_align8 (48 + data_len))
              (store_int (put_rid rid m) 44 data_len), rec_data = d\<rparr>" "lsn' = wrap32 (lsn + clog_align8 (48 + data_len))"
    | (del) rid n m where "flag = REDO_DELETE" "name = Some n" "put_name n (fst u) = Some m"
      "r = \<lparr>rec_flag = code_CLogType flag, log_rec = put_header lsn trx (code_CLogType flag) 44 (put_rid rid m), rec_data = snd u\<rparr>"
      "lsn' = wrap32 (lsn + 44)"
    using assms(1-4)
    by (cases flag) (fastforce simp: CLogRecord_new_def Let_def get_next_lsn_def split: option.splits bind_splits if_splits)+
  then have "rec_ok r \<and> rec_flag r = code_CLogType flag \<and> lr_lsn r = wrap32 lsn \<and> get_trx_id r = wrap32 trx \<and>
    lsn' = wrap32 (lsn + get_logrec_len r)"
  proof cases
    case mtr
    then show ?thesis using code by (auto simp: rec_ok_def lr_lsn_def get_trx_id_def get_logrec_len_def put_header_loads)
  next
    case (data rid d n m)
    have al: "48 + data_len \<le> clog_align8 (48 + data_len)" "clog_align8 (48 + data_len) < 2 ^ 31"
      using data(4) assms(6) by (auto simp: clog_align8_def)
    have "wrap32 (clog_align8 (48 + data_len)) = clog_align8 (48 + data_len)" "wrap32 data_len = data_len"
      using al data(4) assms(6) by (auto intro!: wrap32_id)
    then show ?thesis using data(1,5,6) code al(1) data(4) keep(1) [OF pn [OF data(2,3)]]
      by (auto intro!: exI [of _ n] simp: rec_ok_def has_data_def lr_lsn_def get_trx_id_def get_logrec_len_def lr_data_len_def put_header_loads mem_simps)
  next
    case (del rid n m)
    then show ?thesis using code keep(2) [OF pn [OF del(2,3)]]
      by (auto intro!: exI [of _ n] simp: rec_ok_def lr_lsn_def get_trx_id_def get_logrec_len_def put_header_loads)
  qed
  then show "rec_ok r" "rec_flag r = code_CLogType flag" "lr_lsn r = wrap32 lsn" "get_trx_id r = wrap32 trx"
    "lsn' = wrap32 (lsn + get_logrec_len r)" by blast+
qed

end
