(* ===== verification/Ob_ClogLayout.thy ===== *)
theory Ob_ClogLayout
  imports Ob_ClogProps
begin

text \<open>
  The layout of the redo log: the bytes of all records form one stream, which is cut into blocks of 504
  bytes; the header of a block has its number, the number of bytes it holds and the offset of the first record that starts in
  it.  Appending a record to the buffer keeps this layout (\<open>buf_inv\<close>), and so does a flush.
\<close>

section \<open>Fields of 16 bits\<close>

lemma wrap16_id: "- (2 ^ 15) \<le> x \<Longrightarrow> x < 2 ^ 15 \<Longrightarrow> wrap16 x = x"
  by (simp add: wrap16_def)

lemma load_i16_cong: "m i = m' j \<Longrightarrow> m (i + 1) = m' (j + 1) \<Longrightarrow> load_i16 m i = load_i16 m' j"
  by (simp add: load_i16_def)

lemma load_store_i16 [mem_simps]: "load_i16 (store_i16 m i v) i = wrap16 v"
proof -
  have "v mod 256 + 256 * (v div 256 mod 256) = v mod 2 ^ 16" using zmod_zmult2_eq [of 256 v 256] by simp
  then have "uint (store_i16 m i v i) + 256 * uint (store_i16 m i v (i + 1)) = v mod 2 ^ 16"
    by (simp add: store_i16_def uint_byte_of_int)
  then show ?thesis by (simp only: load_i16_def) (simp add: wrap16_def mod_simps)
qed

lemma store_i16_other [mem_simps]: "j < i \<or> i + 2 \<le> j \<Longrightarrow> store_i16 m i v j = m j"
  by (auto simp: store_i16_def)

lemma load_store_i16_other [mem_simps]: "i + 2 \<le> j \<or> j + 2 \<le> i \<Longrightarrow> load_i16 (store_i16 m i v) j = load_i16 m j"
  by (auto simp: load_i16_def store_i16_def)

section \<open>Streams and blocks\<close>

definition stream :: "CLogRecord list \<Rightarrow> byte list" where
  "stream rs = concat (map rec_bytes rs)"

text \<open>
  Where the first record of a block that starts at position \<open>x\<close> of the stream begins, counted from \<open>x\<close> and as the code
  computes it: behind the rest of the record that covers \<open>x\<close>, at most at the end of the block.  A record
  that starts at \<open>x\<close> and is longer than the block does not count.
\<close>

fun first_at :: "nat list \<Rightarrow> nat \<Rightarrow> nat" where
  "first_at [] x = 0"
| "first_at (l # ls) x =
     (if x = 0 then (if l \<le> 504 then 0 else 504) else if x < l then min 504 (l - x) else first_at ls (x - l))"

text \<open>
  Memory \<open>m\<close> has at \<open>o\<close> block \<open>j\<close> of a log whose first \<open>n\<close> bytes of the stream \<open>S\<close> are
  written; \<open>ls\<close> are the lengths of the records.
\<close>

definition block_at :: "nat list \<Rightarrow> byte list \<Rightarrow> nat \<Rightarrow> nat \<Rightarrow> mem \<Rightarrow> nat \<Rightarrow> bool" where
  "block_at ls S n j m off \<longleftrightarrow> log_block_no m off = int (512 * Suc j) \<and> log_data_len m off = int (min 504 (n - 504 * j)) \<and>
     (504 * j < n \<longrightarrow> first_rec_offset m off = int (8 + first_at ls (504 * j))) \<and>
     (\<forall>i<504. 504 * j + i < n \<longrightarrow> m (off + 8 + i) = S ! (504 * j + i))"

lemma first_at_le: "first_at ls x \<le> 504"
  by (induction ls x rule: first_at.induct) auto

lemma block_at_cong:
  assumes "block_at ls S n j m off" "\<And>i. i < 512 \<Longrightarrow> m' (off' + i) = m (off + i)"
  shows "block_at ls S n j m' off'"
proof -
  have "log_block_no m' off' = log_block_no m off"
    using assms(2) [of 0] assms(2) [of 1] assms(2) [of 2] assms(2) [of 3]
    by (simp add: log_block_no_def load_int_def load_u32_def)
  moreover have "log_data_len m' off' = log_data_len m off" "first_rec_offset m' off' = first_rec_offset m off"
    using assms(2) [of 4] assms(2) [of 5] assms(2) [of 6] assms(2) [of 7]
    by (simp_all add: log_data_len_def first_rec_offset_def load_i16_def ac_simps)
  moreover have "m' (off' + 8 + i) = m (off + 8 + i)" if "i < 504" for i
    using assms(2) [of "8 + i"] that by (simp add: add.assoc)
  ultimately show ?thesis using assms(1) by (simp add: block_at_def)
qed

lemma block_at_full: "504 * Suc j \<le> n \<Longrightarrow> n \<le> n' \<Longrightarrow> block_at ls S n j m off \<Longrightarrow> block_at ls S n' j m off"
  by (auto simp: block_at_def min_def)

section \<open>The buffer\<close>

text \<open>
  The buffer has \<open>nb\<close> blocks, the first of them is block \<open>base\<close> of the log, and \<open>n\<close> bytes of the stream are
  written altogether.
\<close>

definition buf_inv :: "nat list \<Rightarrow> byte list \<Rightarrow> nat \<Rightarrow> nat \<Rightarrow> nat \<Rightarrow> CLogBuffer \<Rightarrow> bool" where
  "buf_inv ls S n base nb c \<longleftrightarrow> nb \<le> 8192 \<and> 512 * (base + nb) < 2 ^ 31 \<and> current_block_no c = int (512 * (base + nb)) \<and>
     n \<le> 504 * (base + nb) \<and> 504 * base \<le> n \<and>
     (case nb of
        0 \<Rightarrow> write_block_offset c = 0 \<and> write_offset c = 0
      | Suc k \<Rightarrow> write_block_offset c = 512 * k \<and> 504 * (base + k) \<le> n \<and> write_offset c = 512 * k + 8 + (n - 504 * (base + k))) \<and>
     (\<forall>i<nb. block_at ls S n (base + i) (log_buffer c) (512 * i))"

lemma buf_inv_full:
  assumes "buf_inv ls S n base nb c"
  shows "write_offset c = CLOG_BUFFER_SIZE \<longleftrightarrow> nb = 8192 \<and> n = 504 * (base + nb)"
  using assms by (auto simp: buf_inv_def CLOG_BUFFER_SIZE_def split: nat.splits)

lemma buf_inv_last:
  assumes "buf_inv ls S n base (Suc k) c"
  shows "block_at ls S n (base + k) (log_buffer c) (512 * k)" "write_block_offset c = 512 * k" "504 * (base + k) \<le> n"
    "n \<le> 504 * (base + k) + 504" "write_offset c = 512 * k + 8 + (n - 504 * (base + k))"
    "log_data_len (log_buffer c) (512 * k) = int (n - 504 * (base + k))"
proof -
  show b: "block_at ls S n (base + k) (log_buffer c) (512 * k)" and w: "write_block_offset c = 512 * k" "504 * (base + k) \<le> n"
    and le: "n \<le> 504 * (base + k) + 504" and "write_offset c = 512 * k + 8 + (n - 504 * (base + k))"
    using assms by (auto simp: buf_inv_def)
  show "log_data_len (log_buffer c) (512 * k) = int (n - 504 * (base + k))"
    using b w(2) le by (simp add: block_at_def)
qed

lemma start_block_inv:
  assumes "buf_inv ls S n base nb c" "n = 504 * (base + nb)" "nb < 8192" "512 * Suc (base + nb) < 2 ^ 31"
  shows "buf_inv ls S n base (Suc nb) (start_block (c\<lparr>write_block_offset := 512 * nb\<rparr>))"
proof -
  let ?c = "start_block (c\<lparr>write_block_offset := 512 * nb\<rparr>)" and ?no = "int (512 * Suc (base + nb))"
  have no: "wrap32 (current_block_no c + 512) = ?no" using assms by (subst wrap32_id) (auto simp: buf_inv_def)
  have m: "log_buffer ?c = store_int (blit (log_buffer c) (512 * nb) (\<lambda>_. 0) 512) (512 * nb) ?no"
    using no by (simp add: start_block_def Let_def zero_mem_def CLOG_BLOCK_SIZE_def)
  have wo: "write_offset c = 512 * nb" using assms(1,2) by (auto simp: buf_inv_def split: nat.splits)
  have "block_at ls S n (base + i) (log_buffer ?c) (512 * i)" if "i < nb" for i
  proof (rule block_at_cong)
    show "block_at ls S n (base + i) (log_buffer c) (512 * i)" using assms(1) that by (simp add: buf_inv_def)
    show "log_buffer ?c (512 * i + k) = log_buffer c (512 * i + k)" if k: "k < 512" for k
    proof -
      have "512 * i + k < 512 * nb" using \<open>i < nb\<close> k by linarith
      then show ?thesis unfolding m by (simp add: mem_simps blit_def)
    qed
  qed
  moreover have "block_at ls S n (base + nb) (log_buffer ?c) (512 * nb)"
    using assms(2,4) unfolding m by (auto simp: block_at_def log_block_no_def log_data_len_def mem_simps load_i16_def blit_def wrap16_def)
  ultimately have bl: "\<forall>i<Suc nb. block_at ls S n (base + i) (log_buffer ?c) (512 * i)" by (auto simp: less_Suc_eq)
  have "current_block_no ?c = ?no" "write_block_offset ?c = 512 * nb" "write_offset ?c = 512 * nb + 8"
    using no wo by (simp_all add: start_block_def Let_def CLOG_BLOCK_SIZE_def CLOG_BLOCK_HDR_SIZE_def)
  then show ?thesis unfolding buf_inv_def using assms(2-4) bl by simp
qed

lemma fill_block_inv:
  assumes inv: "buf_inv ls S n base (Suc k) c" and q: "0 < q" "n - 504 * (base + k) + q \<le> 504" "int (start + q) \<le> get_logrec_len r"
    and bytes: "\<And>i. i < q \<Longrightarrow> S ! (n + i) = rec_byte r (start + i)"
    and first: "n = 504 * (base + k) \<Longrightarrow> first = int (8 + first_at ls n)"
  shows "buf_inv ls S (n + q) base (Suc k) (fill_block r start q first c)"
proof -
  note last = buf_inv_last [OF inv]
  define len where "len = n - 504 * (base + k)"
  define m1 where "m1 = (if len = 0 then set_first_rec_offset (512 * k) first (log_buffer c) else log_buffer c)"
  define m2 where "m2 = blit m1 (512 * k + 8 + len) (\<lambda>i. rec_byte r (start + i)) q"
  define m3 where "m3 = set_log_data_len (512 * k) (int (len + q)) m2"
  have c': "fill_block r start q first c = c\<lparr>log_buffer := m3, write_offset := 512 * k + 8 + (len + q)\<rparr>"
  proof -
    have "write_offset c = 512 * k + 8 + len" "log_data_len (log_buffer c) (512 * k) = int len" using last(5,6) by (simp_all only: len_def)
    then show ?thesis by (simp add: fill_block_def Let_def m3_def m2_def m1_def last(2) copy_record_bytes [OF q(3)])
  qed
  have m3: "m3 j = (if j = 512 * k + 4 \<or> j = 512 * k + 5 \<or> len = 0 \<and> (j = 512 * k + 6 \<or> j = 512 * k + 7) then m3 j
      else if 512 * k + 8 + len \<le> j \<and> j < 512 * k + 8 + len + q then rec_byte r (start + (j - (512 * k + 8 + len)))
      else log_buffer c j)" for j
    by (auto simp: m3_def m2_def m1_def set_log_data_len_def set_first_rec_offset_def store_i16_def blit_def)
  have "block_at ls S (n + q) (base + i) m3 (512 * i)" if i: "i < k" for i
  proof (rule block_at_full)
    show "504 * Suc (base + i) \<le> n" using i last(3) mult_le_mono2 [of "Suc (base + i)" "base + k" 504] by simp
    show "block_at ls S n (base + i) m3 (512 * i)"
    proof (rule block_at_cong)
      show "block_at ls S n (base + i) (log_buffer c) (512 * i)" using inv i by (simp add: buf_inv_def)
      show "m3 (512 * i + j) = log_buffer c (512 * i + j)" if "j < 512" for j
        using i that by (subst m3) auto
    qed
  qed simp
  moreover have "block_at ls S (n + q) (base + k) m3 (512 * k)"
    unfolding block_at_def
  proof (intro conjI allI impI)
    have ng: "n = 504 * (base + k) + len" using last(3) by (simp add: len_def)
    have "m3 (512 * k + j) = log_buffer c (512 * k + j)" if "j < 4" for j using that by (subst m3) auto
    then have "log_block_no m3 (512 * k) = log_block_no (log_buffer c) (512 * k)"
      unfolding log_block_no_def by (intro load_int_cong) (metis add_diff_inverse_nat less_diff_conv2 not_less nat_add_left_cancel_less)
    then show "log_block_no m3 (512 * k) = int (512 * Suc (base + k))" using last(1) by (simp add: block_at_def)
    show "log_data_len m3 (512 * k) = int (min 504 (n + q - 504 * (base + k)))"
      using q(2) ng by (simp add: log_data_len_def m3_def set_log_data_len_def mem_simps wrap16_id flip: len_def)
    show "first_rec_offset m3 (512 * k) = int (8 + first_at ls (504 * (base + k)))"
    proof (cases "len = 0")
      case True
      have "first_rec_offset m3 (512 * k) = first_rec_offset m1 (512 * k)"
        unfolding first_rec_offset_def by (intro load_i16_cong) (simp_all add: m3_def m2_def set_log_data_len_def store_i16_def blit_def)
      also have "\<dots> = wrap16 first" using True by (simp add: m1_def first_rec_offset_def set_first_rec_offset_def mem_simps)
      finally show ?thesis using first True ng first_at_le [of ls n] by (simp add: wrap16_id)
    next
      case False
      then have "first_rec_offset m3 (512 * k) = first_rec_offset (log_buffer c) (512 * k)"
        unfolding first_rec_offset_def by (intro load_i16_cong) (subst m3, simp)+
      then show ?thesis using last(1) False ng by (simp add: block_at_def)
    qed
    show "m3 (512 * k + 8 + i) = S ! (504 * (base + k) + i)" if i: "i < 504" "504 * (base + k) + i < n + q" for i
    proof (cases "i < len")
      case True
      then have "m3 (512 * k + 8 + i) = log_buffer c (512 * k + 8 + i)" by (subst m3) auto
      then show ?thesis using last(1) True ng i by (simp add: block_at_def)
    next
      case False
      then have "m3 (512 * k + 8 + i) = rec_byte r (start + (i - len))" using i ng by (subst m3) auto
      moreover have "i - len < q" "n + (i - len) = 504 * (base + k) + i" using False i ng by simp_all
      ultimately show ?thesis using bytes [of "i - len"] by simp
    qed
  qed
  ultimately have "\<forall>i<Suc k. block_at ls S (n + q) (base + i) m3 (512 * i)" by (auto simp: less_Suc_eq)
  then show ?thesis unfolding c' using inv q last by (simp add: buf_inv_def len_def)
qed

text \<open>The record \<open>r\<close> is at position \<open>p\<close> of the stream.\<close>

definition rec_in :: "nat list \<Rightarrow> byte list \<Rightarrow> nat \<Rightarrow> CLogRecord \<Rightarrow> bool" where
  "rec_in ls S p r \<longleftrightarrow> (let l = nat (get_logrec_len r) in
     (\<forall>i<l. S ! (p + i) = rec_byte r i) \<and> first_at ls p = (if l \<le> 504 then 0 else 504) \<and>
     (\<forall>i. 0 < i \<and> i < l \<longrightarrow> first_at ls (p + i) = min 504 (l - i)))"

lemma ulong_id: "0 \<le> x \<Longrightarrow> x < 2 ^ 64 \<Longrightarrow> ulong x = x"
  by (simp add: ulong_def)

lemma start_block_offset [simp]: "write_offset (start_block c) = write_offset c + 8"
  by (simp add: start_block_def Let_def CLOG_BLOCK_HDR_SIZE_def)

text \<open>When the last block is full the code goes on with a new one.\<close>

lemma append_advance:
  assumes inv: "buf_inv ls S n base nb c" and full: "n = 504 * (base + nb)" "nb < 8192"
  shows "append_from r start c = append_from r start (start_block (c\<lparr>write_block_offset := 512 * nb\<rparr>))"
proof (cases nb)
  case 0
  then have w: "write_offset c = 0" "write_block_offset c = 0" using inv by (simp_all add: buf_inv_def)
  then have eq: "c\<lparr>write_block_offset := 512 * nb\<rparr> = c" using 0 by (cases c) simp
  show ?thesis
    unfolding eq using w append_from.simps [of r start c] append_from.simps [of r start "start_block c"] by (simp add: CLOG_BUFFER_SIZE_def)
next
  case (Suc k)
  note last = buf_inv_last [OF inv [unfolded Suc]]
  have "write_offset c \<noteq> CLOG_BUFFER_SIZE" "write_offset c \<noteq> 0" using last(5) full Suc by (simp_all add: CLOG_BUFFER_SIZE_def)
  moreover have "log_data_len (log_buffer c) (512 * k) = int CLOG_BLOCK_DATA_SIZE" using last(6) full Suc by (simp add: CLOG_BLOCK_DATA_SIZE_def)
  ultimately show ?thesis using last(2) Suc by (subst append_from.simps) (simp add: CLOG_BLOCK_SIZE_def add.commute)
qed

text \<open>When the last block has room the record is written there, as far as it fits.\<close>

lemma append_fill:
  assumes inv: "buf_inv ls S (p + start) base (Suc k) c" and room: "p + start < 504 * (base + Suc k)"
    and r: "rec_in ls S p r" "start < nat (get_logrec_len r)" "get_logrec_len r < 2 ^ 31"
  defines "q \<equiv> 504 * (base + Suc k) - (p + start)" and "l \<equiv> nat (get_logrec_len r)"
  shows "l - start \<le> q \<Longrightarrow> \<exists>c'. append_from r start c = Some (SUCCESS, l, c') \<and> buf_inv ls S (p + l) base (Suc k) c'"
    "\<not> l - start \<le> q \<Longrightarrow> \<exists>c'. append_from r start c = append_from r (start + q) c' \<and> buf_inv ls S (p + (start + q)) base (Suc k) c'"
proof -
  note last = buf_inv_last [OF inv]
  let ?len = "p + start - 504 * (base + k)"
  have q: "0 < q" "?len + q = 504" "?len < 504" using room last(3) by (simp_all add: q_def)
  have w: "write_offset c \<noteq> CLOG_BUFFER_SIZE" "write_offset c \<noteq> 0" using buf_inv_full [OF inv] room last(5) by simp_all
  have len: "log_data_len (log_buffer c) (write_block_offset c) = int ?len" using last(2,6) by simp
  have u: "ulong (get_logrec_len r - int start) = int (l - start)" "ulong (504 - int ?len) = int q"
    using r(2,3) q by (subst ulong_id; simp add: l_def)+
  have ints: "nat (get_logrec_len r - int start) = l - start" "get_logrec_len r - int start = int (l - start)" "nat (504 - int ?len) = q"
    "start + (l - start) = l"
    using r(2) q by (simp_all add: l_def)
  have bytes: "S ! (p + start + i) = rec_byte r (start + i)" if "start + i < l" for i
    using r(1) that by (simp add: rec_in_def Let_def l_def add.assoc)
  have fst_at: "first_at ls (p + start) = (if start = 0 then if l \<le> 504 then 0 else 504 else min 504 (l - start))"
    using r(1,2) by (simp add: rec_in_def Let_def l_def)
  have step: "append_from r start c =
      (if l - start \<le> q then Some (SUCCESS, l, fill_block r start (l - start) (if start = 0 then 8 else 8 + int (l - start)) c)
       else append_from r (start + q) (fill_block r start q 512 c))"
    using w len u q(3) ints
    by (subst append_from.simps) (simp add: Let_def CLOG_BLOCK_DATA_SIZE_def CLOG_BLOCK_HDR_SIZE_def CLOG_BLOCK_SIZE_def)
  {
    assume fits: "l - start \<le> q"
    have "(if start = 0 then 8 else 8 + int (l - start)) = int (8 + first_at ls (p + start))" if "p + start = 504 * (base + k)"
      using that fits q(2) unfolding fst_at by auto
    then have "buf_inv ls S (p + start + (l - start)) base (Suc k) (fill_block r start (l - start) (if start = 0 then 8 else 8 + int (l - start)) c)"
      using r(2) q fits bytes by (intro fill_block_inv [OF inv]) (simp_all add: l_def)
    then show "\<exists>c'. append_from r start c = Some (SUCCESS, l, c') \<and> buf_inv ls S (p + l) base (Suc k) c'"
      using step fits ints(4) by (simp add: add.assoc)
  next
    assume spans: "\<not> l - start \<le> q"
    have "512 = int (8 + first_at ls (p + start))" if "p + start = 504 * (base + k)"
      using that spans q(2) unfolding fst_at by auto
    then have "buf_inv ls S (p + start + q) base (Suc k) (fill_block r start q 512 c)"
      using r(2) q spans bytes by (intro fill_block_inv [OF inv]) (simp_all add: l_def)
    then show "\<exists>c'. append_from r start c = append_from r (start + q) c' \<and> buf_inv ls S (p + (start + q)) base (Suc k) c'"
      using step spans by (auto simp: add.assoc)
  }
qed

text \<open>
  Appending writes the rest of the record, or as much of it as the buffer has room for.
\<close>

lemma append_from_inv:
  assumes "buf_inv ls S (p + start) base nb c" "rec_in ls S p r" "start < nat (get_logrec_len r)" "get_logrec_len r < 2 ^ 31"
    and "512 * (base + 8192) < 2 ^ 31"
  shows "\<exists>rc start' nb' c'. append_from r start c = Some (rc, start', c') \<and> start' \<le> nat (get_logrec_len r) \<and>
    buf_inv ls S (p + start') base nb' c' \<and>
    (if start' = nat (get_logrec_len r) then rc = SUCCESS else rc = LOGBUF_FULL \<and> write_offset c' = CLOG_BUFFER_SIZE)"
  using assms(1,3)
proof (induction "2 * (nat (get_logrec_len r) - start) + (if p + start = 504 * (base + nb) then 1 else 0)" arbitrary: start nb c rule: less_induct)
  case less
  have nb: "nb \<le> 8192" "p + start \<le> 504 * (base + nb)" using less.prems(1) by (simp_all add: buf_inv_def)
  show ?case
  proof (cases "p + start = 504 * (base + nb)")
    case full: True
    show ?thesis
    proof (cases "nb < 8192")
      case True
      let ?c = "start_block (c\<lparr>write_block_offset := 512 * nb\<rparr>)"
      have "buf_inv ls S (p + start) base (Suc nb) ?c"
        using True assms(5) by (intro start_block_inv [OF less.prems(1) full]) simp_all
      then show ?thesis
        unfolding append_advance [OF less.prems(1) full True, of r start] using less.prems(2) full by (intro less.hyps) simp_all
    next
      case False
      then have "write_offset c = CLOG_BUFFER_SIZE" using buf_inv_full [OF less.prems(1)] full nb by simp
      then have "append_from r start c = Some (LOGBUF_FULL, start, c)" by (subst append_from.simps) simp
      then show ?thesis using less.prems \<open>write_offset c = _\<close> by auto
    qed
  next
    case False
    then have room: "p + start < 504 * (base + nb)" using nb by simp
    have "nb \<noteq> 0" using less.prems(1) room by (auto simp: buf_inv_def)
    then obtain k where k: "nb = Suc k" using not0_implies_Suc by blast
    let ?q = "504 * (base + Suc k) - (p + start)" and ?l = "nat (get_logrec_len r)"
    note fill = append_fill [OF less.prems(1) [unfolded k] room [unfolded k] assms(2) less.prems(2) assms(4)]
    show ?thesis
    proof (cases "?l - start \<le> ?q")
      case True
      then show ?thesis using fill(1) by auto
    next
      case False
      from fill(2) [OF this] obtain c' where c': "append_from r start c = append_from r (start + ?q) c'"
        "buf_inv ls S (p + (start + ?q)) base (Suc k) c'" by blast
      show ?thesis unfolding c'(1) using False room k by (intro less.hyps [OF _ c'(2)]) auto
    qed
  qed
qed

end
