(* ===== verification/Ob_ClogRecover.thy ===== *)
theory Ob_ClogRecover
  imports Ob_ClogLayout
begin

text \<open>
  Recovery of the redo log: the blocks of a log are read in order, and the records that were laid out in
  them are handed to the transaction manager in the order in which they were appended.
\<close>

section \<open>Streams of records\<close>

definition rec_len :: "CLogRecord \<Rightarrow> nat" where
  "rec_len r = nat (get_logrec_len r)"

declare length_rec_bytes [simp del]

lemma stream_simps [simp]: "stream [] = []" "stream (r # rs) = rec_bytes r @ stream rs" "stream (rs @ rs') = stream rs @ stream rs'"
  by (simp_all add: stream_def)

lemma length_rec [simp]: "length (rec_bytes r) = rec_len r"
  by (simp add: rec_len_def length_rec_bytes)

lemma first_at_append:
  assumes "0 \<notin> set ks"
  shows "first_at (ks @ ls) (sum_list ks + x) = first_at ls x"
  using assms by (induction ks) auto

lemma length_stream: "length (stream rs) = sum_list (map rec_len rs)"
  by (induction rs) simp_all

lemma rec_in_stream:
  assumes "rs = ds @ r # es" "\<And>q. q \<in> set rs \<Longrightarrow> 0 < rec_len q"
  shows "rec_in (map rec_len rs) (stream rs) (length (stream ds)) r"
proof -
  have ls: "first_at (map rec_len rs) (length (stream ds) + x) = first_at (rec_len r # map rec_len es) x" for x
    using first_at_append [of "map rec_len ds" "rec_len r # map rec_len es" x] assms by (force simp: length_stream)
  have "stream rs ! (length (stream ds) + i) = rec_byte r i" if "i < rec_len r" for i
    using that assms(1) by (simp add: nth_append) (simp add: rec_bytes_def rec_len_def)
  then show ?thesis using ls [of 0] ls by (auto simp: rec_in_def Let_def rec_len_def)
qed

text \<open>
  The recovery keeps a record that spans blocks until the next step in a block with room for the header
  of a record.  It mixes two records up when the record behind it leaves less than 16 bytes of the block, or fills more
  than the next block; \<open>recoverable\<close> excludes this.
\<close>

fun recoverable :: "nat \<Rightarrow> bool \<Rightarrow> nat list \<Rightarrow> bool" where
  "recoverable x spans [] \<longleftrightarrow> True"
| "recoverable x spans (l # ls) \<longleftrightarrow>
     (spans \<longrightarrow> (if x mod 504 = 0 then l \<le> 504 else x mod 504 + 16 \<le> 504)) \<and>
     recoverable (x + l) (x div 504 < (x + l - 1) div 504) ls"

lemma recoverable_append:
  "recoverable x spans (ks @ ls) \<longleftrightarrow> recoverable x spans ks \<and>
     recoverable (x + sum_list ks) (if ks = [] then spans
       else (x + sum_list (butlast ks)) div 504 < (x + sum_list ks - 1) div 504) ls"
  by (induction x spans ks rule: recoverable.induct) (auto simp: add.assoc)

section \<open>One block\<close>

text \<open>
  The state of the recovery at position \<open>x\<close> of the stream: the records \<open>ds\<close> are recovered, and the buffer has the bytes behind
  them up to \<open>x\<close>, which belong to one record.
\<close>

definition rec_state :: "CLogRecord list \<Rightarrow> CLogRecord list \<Rightarrow> nat \<Rightarrow> CLogRecordBuf \<Rightarrow> bool" where
  "rec_state ds es x lb \<longleftrightarrow> x = length (stream ds) + lb_write_offset lb \<and>
     (\<forall>i<lb_write_offset lb. lb_buffer lb i = stream (ds @ es) ! (length (stream ds) + i)) \<and>
     (lb_write_offset lb = 0 \<or>
      (case es of [] \<Rightarrow> False | r # _ \<Rightarrow> lb_write_offset lb < rec_len r \<or>
         lb_write_offset lb = rec_len r \<and> length (stream ds) div 504 < (x - 1) div 504))"

definition log_ok :: "CLogRecord list \<Rightarrow> bool" where
  "log_ok rs \<longleftrightarrow> (\<forall>r\<in>set rs. rec_ok r \<and> get_logrec_len r \<le> 4096) \<and> recoverable 0 False (map rec_len rs)"

lemma log_ok_rec:
  assumes "log_ok rs" "r \<in> set rs"
  shows "rec_ok r" "16 \<le> rec_len r" "rec_len r \<le> 4096" "get_logrec_len r = int (rec_len r)"
proof -
  show ok: "rec_ok r" using assms by (simp add: log_ok_def)
  show "16 \<le> rec_len r" "rec_len r \<le> 4096" "get_logrec_len r = int (rec_len r)"
    using rec_len_cases [OF ok] assms by (auto simp: rec_len_def log_ok_def)
qed

text \<open>The record behind a complete record in the buffer leaves the buffer alone.\<close>

lemma log_ok_next:
  assumes "log_ok (ds @ r # q # es)" "length (stream ds) div 504 < (length (stream ds) + rec_len r - 1) div 504"
  defines "e \<equiv> length (stream ds) + rec_len r"
  shows "e mod 504 = 0 \<Longrightarrow> rec_len q \<le> 504" "e mod 504 \<noteq> 0 \<Longrightarrow> e mod 504 + 16 \<le> 504"
  using assms by (auto simp: log_ok_def recoverable_append length_stream e_def split: if_splits)

text \<open>Block \<open>j\<close> of the log of the records \<open>rs\<close> is in memory.\<close>

definition in_block :: "CLogRecord list \<Rightarrow> nat \<Rightarrow> mem \<Rightarrow> nat \<Rightarrow> bool" where
  "in_block rs j m off \<longleftrightarrow> log_ok rs \<and> block_at (map rec_len rs) (stream rs) (length (stream rs)) j m off \<and>
     504 * j < length (stream rs) \<and> off + 512 \<le> CLOG_REDO_BUFFER_SIZE"

definition block_len :: "CLogRecord list \<Rightarrow> nat \<Rightarrow> nat" where
  "block_len rs j = min 504 (length (stream rs) - 504 * j)"

lemma in_block_facts:
  assumes "in_block rs j m off"
  shows "log_data_len m off = int (block_len rs j)" "log_block_no m off = int (512 * Suc j)"
    "first_rec_offset m off = int (8 + first_at (map rec_len rs) (504 * j))"
    "i < block_len rs j \<Longrightarrow> m (off + 8 + i) = stream rs ! (504 * j + i)"
  using assms by (auto simp: in_block_def block_at_def block_len_def)

lemma rec_state_append:
  assumes "log_ok (ds @ r # es)" "rec_state ds (r # es) x lb" "lb_write_offset lb + k \<le> rec_len r" "0 < k"
    and "lb_write_offset lb + k = rec_len r \<Longrightarrow> length (stream ds) div 504 < (x + k - 1) div 504"
    and "\<And>i. i < k \<Longrightarrow> src i = stream (ds @ r # es) ! (x + i)"
  obtains lb' where "lb_append src k lb = Some lb'" "rec_state ds (r # es) (x + k) lb'" "lb_write_offset lb' = lb_write_offset lb + k"
proof -
  have l: "lb_write_offset lb + k \<le> 4096" using assms(3) log_ok_rec(3) [OF assms(1), of r] by simp
  let ?lb = "\<lparr>lb_write_offset = lb_write_offset lb + k, lb_buffer = blit (lb_buffer lb) (lb_write_offset lb) src k\<rparr>"
  have bytes: "lb_buffer ?lb i = stream (ds @ r # es) ! (length (stream ds) + i)" if "i < lb_write_offset lb + k" for i
  proof (cases "i < lb_write_offset lb")
    case True
    then show ?thesis using assms(2) by (simp add: rec_state_def blit_def)
  next
    case False
    then have "x + (i - lb_write_offset lb) = length (stream ds) + i" using assms(2) by (simp add: rec_state_def)
    then show ?thesis using False that assms(6) [of "i - lb_write_offset lb"] by (simp add: blit_def)
  qed
  have "rec_state ds (r # es) (x + k) ?lb"
    using assms(2-5) bytes unfolding rec_state_def by auto
  then show thesis using l that [of ?lb] by (simp add: lb_append_def CLOG_REDO_BUFFER_SIZE_def)
qed

text \<open>The record at the position of the recovery, when nothing is buffered.\<close>

lemma rec_state_idle:
  assumes "rec_state ds es x lb" "lb_write_offset lb = 0" "x < length (stream (ds @ es))"
  obtains r es' where "es = r # es'" "x = length (stream ds)"
  using assms by (cases es) (auto simp: rec_state_def)

lemma rec_state_busy:
  assumes "rec_state ds es x lb" "lb_write_offset lb \<noteq> 0"
  obtains r es' where "es = r # es'" "x = length (stream ds) + lb_write_offset lb" "0 < lb_write_offset lb" "lb_write_offset lb \<le> rec_len r"
    "lb_write_offset lb = rec_len r \<longrightarrow> length (stream ds) div 504 < (x - 1) div 504"
  using assms by (cases es) (auto simp: rec_state_def)

lemma rec_state_new: "rec_state ds es (length (stream ds)) lb_new"
  by (simp add: rec_state_def lb_new_def)

text \<open>A complete record in memory.\<close>

lemma stream_record:
  assumes "log_ok (ds @ r # es)" "\<And>i. i < rec_len r \<Longrightarrow> src i = stream (ds @ r # es) ! (length (stream ds) + i)"
  shows "\<exists>r'. CLogRecord_of u src = Some r' \<and> same_record r r'"
proof (rule CLogRecord_of_bytes)
  show "rec_ok r" by (rule log_ok_rec [OF assms(1)]) simp
  have pos: "0 < rec_len q" if "q \<in> set (ds @ r # es)" for q using log_ok_rec(2) [OF assms(1) that] by simp
  show "src i = rec_byte r i" if "i < nat (get_logrec_len r)" for i
    using rec_in_stream [OF refl pos, of ds r es] assms(2) [of i] that by (simp add: rec_in_def Let_def rec_len_def)
qed

text \<open>Where the code believes the first record of a block begins, while the recovery is at its start.\<close>

lemma first_at_state:
  assumes ok: "log_ok (ds @ es)" and st: "rec_state ds es x lb" and x: "x < length (stream (ds @ es))" "x mod 504 = 0"
  obtains (start) "first_at (map rec_len (ds @ es)) x = 0" "lb_write_offset lb = 0 \<or> lb_write_offset lb = rec_len (hd es)"
  | (rest) r es' where "es = r # es'" "first_at (map rec_len (ds @ es)) x = min 504 (rec_len r - lb_write_offset lb)"
      "lb_write_offset lb < rec_len r" "lb_write_offset lb = 0 \<longrightarrow> 504 < rec_len r"
proof -
  have pos: "0 < rec_len q" if "q \<in> set (ds @ es)" for q using log_ok_rec(2) [OF ok that] by simp
  show thesis
  proof (cases "lb_write_offset lb = 0")
    case True
    with st x obtain r es' where es: "es = r # es'" "x = length (stream ds)" by (blast elim: rec_state_idle)
    have "first_at (map rec_len (ds @ es)) x = (if rec_len r \<le> 504 then 0 else 504)"
      using rec_in_stream [of "ds @ es" ds r es', OF _ pos] es by (simp add: rec_in_def Let_def rec_len_def)
    then show thesis using True start rest [OF es(1)] by (cases "rec_len r \<le> 504") auto
  next
    case False
    obtain r es' where es: "es = r # es'" "x = length (stream ds) + lb_write_offset lb" "0 < lb_write_offset lb" "lb_write_offset lb \<le> rec_len r"
      and full: "lb_write_offset lb = rec_len r \<longrightarrow> length (stream ds) div 504 < (x - 1) div 504"
      by (rule rec_state_busy [OF st False])
    show thesis
    proof (cases "lb_write_offset lb = rec_len r")
      case True
      then obtain q es'' where q: "es' = q # es''" using x(1) es by (cases es') auto
      have "rec_len q \<le> 504" using log_ok_next(1) [of ds r q es''] ok full True x(2) es q by simp
      moreover have "first_at (map rec_len (ds @ es)) x = (if rec_len q \<le> 504 then 0 else 504)"
        using rec_in_stream [of "ds @ es" "ds @ [r]" q es'', OF _ pos] es q True by (simp add: rec_in_def Let_def rec_len_def)
      ultimately show thesis using start True es by simp
    next
      case False
      then have "first_at (map rec_len (ds @ es)) x = min 504 (rec_len r - lb_write_offset lb)"
        using rec_in_stream [of "ds @ es" ds r es', OF _ pos] es by (simp add: rec_in_def Let_def rec_len_def)
      then show thesis using False es rest [OF es(1)] by simp
    qed
  qed
qed

lemma block_recover_rest:
  assumes blk: "in_block (ds @ es) j m off" and st: "rec_state ds es (504 * j) lb" and ne: "first_at (map rec_len (ds @ es)) (504 * j) \<noteq> 0"
  obtains k lb' where "block_recover u m off 8 lb = Some (int (8 + k), lb', None)" "0 < k" "k \<le> block_len (ds @ es) j"
    "rec_state ds es (504 * j + k) lb'" "k = block_len (ds @ es) j \<or> lb_write_offset lb' = rec_len (hd es)"
proof -
  let ?k = "first_at (map rec_len (ds @ es)) (504 * j)"
  note facts = in_block_facts [OF blk]
  have ok: "log_ok (ds @ es)" and x: "504 * j < length (stream (ds @ es))" "(504 * j) mod 504 = 0" and off: "off + 512 \<le> 4096"
    using blk by (simp_all add: in_block_def CLOG_REDO_BUFFER_SIZE_def)
  have "\<exists>r es'. es = r # es' \<and> ?k = min 504 (rec_len r - lb_write_offset lb) \<and>
      lb_write_offset lb < rec_len r \<and> (lb_write_offset lb = 0 \<longrightarrow> 504 < rec_len r)"
  proof (cases rule: first_at_state [OF ok st x])
    case 1
    then show ?thesis using ne by simp
  next
    case (2 r es')
    then show ?thesis by (intro exI [of _ r] exI [of _ es'] conjI) simp_all
  qed
  then obtain r es' where r: "es = r # es'" "?k = min 504 (rec_len r - lb_write_offset lb)"
      "lb_write_offset lb < rec_len r" "lb_write_offset lb = 0 \<longrightarrow> 504 < rec_len r" by (elim exE conjE) (rule that)
  have p: "504 * j = length (stream ds) + lb_write_offset lb" using st by (simp add: rec_state_def)
  have n: "length (stream (ds @ es)) = length (stream ds) + rec_len r + length (stream es')" using r by simp
  have k: "0 < ?k" "?k \<le> 504" "lb_write_offset lb + ?k \<le> rec_len r" using r by auto
  then have kl: "?k \<le> block_len (ds @ es) j" using n p by (auto simp: block_len_def)
  have dn: "length (stream ds) div 504 < (504 * j + ?k - 1) div 504" if "lb_write_offset lb + ?k = rec_len r"
  proof -
    have "length (stream ds) < 504 * j" using that r p by auto
    then have "length (stream ds) div 504 < j" by (simp add: div_less_iff_less_mult)
    moreover have "504 * j div 504 \<le> (504 * j + ?k - 1) div 504" using k(1) by (intro div_le_mono) simp
    ultimately show ?thesis by simp
  qed
  have src: "at_off m (off + nat 8) i = stream (ds @ r # es') ! (504 * j + i)" if "i < ?k" for i
    using facts(4) [of i] that kl r(1) by (simp add: at_off_def)
  obtain lb' where lb': "lb_append (at_off m (off + nat 8)) ?k lb = Some lb'" "rec_state ds (r # es') (504 * j + ?k) lb'"
      "lb_write_offset lb' = lb_write_offset lb + ?k"
    by (rule rec_state_append [OF ok [unfolded r(1)] st [unfolded r(1)] k(3) k(1) dn src])
  have "block_recover u m off 8 lb = Some (int (8 + ?k), lb', None)"
    using lb'(1) facts(3) off k ne
    by (simp add: block_recover_def CLOG_BLOCK_HDR_SIZE_def CLOG_REDO_BUFFER_SIZE_def wrap16_id)
  moreover have "?k = block_len (ds @ es) j \<or> lb_write_offset lb' = rec_len (hd es)"
    using lb'(3) r p n k kl by (auto simp: block_len_def)
  ultimately show thesis using that k(1) kl lb'(2) r(1) by blast
qed

lemma load_int_at_off: "load_int (at_off m a) i = load_int m (a + i)"
  by (simp add: load_int_def load_u32_def at_off_def ac_simps)

lemma stream_header:
  assumes "log_ok (ds @ r # es)" "\<And>i. i < 16 \<Longrightarrow> src i = stream (ds @ r # es) ! (length (stream ds) + i)"
  shows "load_int src 12 = int (rec_len r)"
proof -
  note len = log_ok_rec [OF assms(1), of r, simplified]
  have pos: "0 < rec_len q" if "q \<in> set (ds @ r # es)" for q using log_ok_rec(2) [OF assms(1) that] by simp
  have "src i = log_rec r i" if "i < 16" for i
    using rec_in_stream [OF refl pos, of ds r es] assms(2) [OF that] that len(2) by (simp add: rec_in_def Let_def rec_len_def rec_byte_def)
  then have "load_int src 12 = load_int (log_rec r) 12" by (intro load_int_cong) simp
  then show ?thesis using len(4) by (simp add: get_logrec_len_def)
qed

lemma ulong_diff: "i \<le> 504 \<Longrightarrow> ulong (512 - int (8 + i)) = int (504 - i)"
  by (subst ulong_id) auto

lemma block_recover_buffered:
  assumes blk: "in_block (ds @ es) j m off" and st: "rec_state ds es (504 * j + i) lb" and i: "i < block_len (ds @ es) j"
    and lb: "lb_write_offset lb \<noteq> 0" "i = 0 \<longrightarrow> first_at (map rec_len (ds @ es)) (504 * j) = 0" "lb_write_offset lb = rec_len (hd es)"
  obtains r es' r' where "es = r # es'" "block_recover u m off (int (8 + i)) lb = Some (int (8 + i), lb_new, Some r')" "same_record r r'"
    "rec_state (ds @ [r]) es' (504 * j + i) lb_new"
proof -
  obtain r es' where es: "es = r # es'" "504 * j + i = length (stream ds) + lb_write_offset lb"
      and full: "lb_write_offset lb = rec_len r \<longrightarrow> length (stream ds) div 504 < (504 * j + i - 1) div 504"
    by (rule rec_state_busy [OF st lb(1)])
  have r: "lb_write_offset lb = rec_len r" using lb(3) es by simp
  have ok: "log_ok (ds @ r # es')" using blk es by (simp add: in_block_def)
  have i': "i < 504" "504 * j + i < length (stream (ds @ es))" using i by (auto simp: block_len_def)
  then obtain q es'' where q: "es' = q # es''" using es r by (cases es') auto
  have room: "i + 16 \<le> 504" if "i \<noteq> 0"
    using log_ok_next(2) [of ds r q es''] ok full r es q that i' by (metis less_numeral_extra(3) mod_less mod_mult_self2 mult.commute add.commute)
  obtain r' where r': "CLogRecord_of u (lb_buffer lb) = Some r'" "same_record r r'"
    using stream_record [OF ok, of "lb_buffer lb" u] st r es by (auto simp: rec_state_def)
  have "block_recover u m off (int (8 + i)) lb = Some (int (8 + i), lb_new, Some r')"
    using in_block_facts(3) [OF blk] lb(1,2) r'(1) room ulong_diff [of i] i'(1)
    by (cases "i = 0") (simp_all add: block_recover_def CLOG_BLOCK_HDR_SIZE_def CLOG_BLOCK_SIZE_def)
  moreover have "rec_state (ds @ [r]) es' (504 * j + i) lb_new" using es r rec_state_new [of "ds @ [r]" es'] by simp
  ultimately show thesis using that es r' by blast
qed

lemma block_recover_next:
  assumes blk: "in_block (ds @ es) j m off" and st: "rec_state ds es (504 * j + i) lb" and i: "i < block_len (ds @ es) j"
    and lb: "lb_write_offset lb = 0" "i = 0 \<longrightarrow> first_at (map rec_len (ds @ es)) (504 * j) = 0"
  obtains (one) r es' r' where "es = r # es'" "block_recover u m off (int (8 + i)) lb = Some (int (8 + (i + rec_len r)), lb, Some r')"
      "same_record r r'" "rec_state (ds @ [r]) es' (504 * j + (i + rec_len r)) lb" "0 < rec_len r" "i + rec_len r \<le> block_len (ds @ es) j"
  | (part) lb' where "block_recover u m off (int (8 + i)) lb = Some (int (8 + block_len (ds @ es) j), lb', None)"
      "rec_state ds es (504 * j + block_len (ds @ es) j) lb'"
proof -
  note facts = in_block_facts [OF blk]
  have i': "i < 504" "504 * j + i < length (stream (ds @ es))" using i by (auto simp: block_len_def)
  obtain r es' where es: "es = r # es'" "504 * j + i = length (stream ds)" by (rule rec_state_idle [OF st lb(1) i'(2)])
  have ok: "log_ok (ds @ r # es')" using blk es by (simp add: in_block_def)
  note len = log_ok_rec [OF ok, of r, simplified]
  have n: "length (stream (ds @ es)) = 504 * j + i + rec_len r + length (stream es')" using es by simp
  have src: "at_off m (off + nat (int (8 + i))) k = stream (ds @ r # es') ! (504 * j + i + k)" if "i + k < block_len (ds @ es) j" for k
    using facts(4) [of "i + k"] that es(1) by (simp add: at_off_def add.assoc nat_add_distrib)
  have noA: "\<not> (int (8 + i) = int CLOG_BLOCK_HDR_SIZE \<and> first_rec_offset m off \<noteq> int CLOG_BLOCK_HDR_SIZE)"
    using facts(3) lb(2) by (auto simp: CLOG_BLOCK_HDR_SIZE_def)
  let ?src = "at_off m (off + nat (int (8 + i)))"
  have hdr: "load_int m (off + nat (int (8 + i)) + 12) = int (rec_len r)" if "i + 16 \<le> 504"
  proof -
    have "i + 16 \<le> block_len (ds @ es) j" using that n len(2) by (simp add: block_len_def)
    then show ?thesis using stream_header [OF ok, of ?src] src es(2) by (simp add: load_int_at_off)
  qed
  show thesis
  proof (cases "i + rec_len r \<le> 504")
    case True
    then have fits: "i + rec_len r \<le> block_len (ds @ es) j" using n by (simp add: block_len_def)
    have "\<exists>r'. CLogRecord_of u ?src = Some r' \<and> same_record r r'"
      using src fits es(2) by (intro stream_record [OF ok]) auto
    then obtain r' where r': "CLogRecord_of u ?src = Some r'" "same_record r r'" by blast
    have "block_recover u m off (int (8 + i)) lb = Some (int (8 + (i + rec_len r)), lb, Some r')"
      unfolding block_recover_def if_not_P [OF noA] using hdr lb(1) r'(1) True len(2) ulong_diff [of i] i'(1)
      by (simp add: CLOG_BLOCK_SIZE_def wrap16_id Let_def)
    moreover have "rec_state (ds @ [r]) es' (504 * j + (i + rec_len r)) lb" using es(2) lb(1) by (simp add: rec_state_def)
    ultimately show thesis using one [OF es(1) _ r'(2)] len(2) fits by simp
  next
    case False
    then have full: "block_len (ds @ es) j = 504" using n by (simp add: block_len_def)
    obtain lb' where lb': "lb_append ?src (504 - i) lb = Some lb'" "rec_state ds (r # es') (504 * j + i + (504 - i)) lb'"
      by (rule rec_state_append [OF ok st [unfolded es(1)], of "504 - i" ?src]) (use False i' lb(1) src full in auto)
    have "block_recover u m off (int (8 + i)) lb = Some (int 512, lb', None)"
      unfolding block_recover_def if_not_P [OF noA] using hdr lb(1) lb'(1) False len(2) ulong_diff [of i] i'(1)
      by (auto simp: CLOG_BLOCK_SIZE_def Let_def nat_diff_distrib)
    then show thesis using part [of lb'] lb'(2) es(1) full i'(1) by simp
  qed
qed

text \<open>All records of a block: those that end in it are recovered, and the rest of the block is buffered.\<close>

definition recovers :: "CLogRecord list \<Rightarrow> CLogRecord list \<Rightarrow> nat \<Rightarrow> CLogMTRManager \<Rightarrow> CLogRecordBuf \<times> CLogMTRManager \<Rightarrow> bool" where
  "recovers ds es x g out \<longleftrightarrow> (\<exists>ds' es' rs'. es = ds' @ es' \<and> list_all2 same_record ds' rs' \<and>
     rec_state (ds @ ds') es' x (fst out) \<and> snd out = fold log_record_manage rs' g)"

lemma recovers_refl: "rec_state ds es x lb \<Longrightarrow> recovers ds es x g (lb, g)"
  unfolding recovers_def by (rule exI [of _ "[]"], rule exI [of _ es], rule exI [of _ "[]"]) simp

lemma recovers_trans:
  assumes "list_all2 same_record ds' rs'" "recovers (ds @ ds') es' x (fold log_record_manage rs' g) out"
  shows "recovers ds (ds' @ es') x g out"
proof -
  from assms(2) obtain ds2 es2 rs2 where a: "es' = ds2 @ es2" "list_all2 same_record ds2 rs2" "rec_state ((ds @ ds') @ ds2) es2 x (fst out)"
      "snd out = fold log_record_manage rs2 (fold log_record_manage rs' g)" unfolding recovers_def by blast
  show ?thesis unfolding recovers_def
    by (rule exI [of _ "ds' @ ds2"], rule exI [of _ es2], rule exI [of _ "rs' @ rs2"]) (use a assms(1) in \<open>simp add: list_all2_appendI\<close>)
qed

lemma recover_records_end:
  assumes "in_block rs j m off" "i = block_len rs j"
  shows "recover_records u m off (int (8 + i)) lb g lsn = Some (lb, g, lsn)"
  using in_block_facts(1) [OF assms(1)] assms(2) by (subst recover_records.simps) (simp add: CLOG_BLOCK_HDR_SIZE_def)

lemma recover_records_step:
  assumes "in_block rs j m off" "i < block_len rs j" "block_recover u m off (int (8 + i)) lb = Some (offset, lb', rec)"
  shows "recover_records u m off (int (8 + i)) lb g lsn = (case rec of
      None \<Rightarrow> recover_records u m off offset lb' g lsn
    | Some r \<Rightarrow> recover_records u m off offset lb' (log_record_manage r g) (wrap32 (lr_lsn r + get_logrec_len r)))"
proof -
  have "ulong (int (8 + i)) < ulong (int CLOG_BLOCK_HDR_SIZE + log_data_len m off)"
    using in_block_facts(1) [OF assms(1)] assms(2) by (simp add: CLOG_BLOCK_HDR_SIZE_def ulong_id block_len_def)
  then show ?thesis using assms(3) by (subst recover_records.simps) simp
qed

text \<open>Every step comes nearer to the end of the block.\<close>

definition settled :: "CLogRecord list \<Rightarrow> CLogRecord list \<Rightarrow> nat \<Rightarrow> nat \<Rightarrow> CLogRecordBuf \<Rightarrow> bool" where
  "settled ds es j i lb \<longleftrightarrow> rec_state ds es (504 * j + i) lb \<and> i \<le> block_len (ds @ es) j \<and>
     (i = 0 \<or> i = block_len (ds @ es) j \<or> lb_write_offset lb = 0 \<or> lb_write_offset lb = rec_len (hd es))"

definition todo :: "CLogRecord list \<Rightarrow> nat \<Rightarrow> nat \<Rightarrow> CLogRecordBuf \<Rightarrow> nat" where
  "todo rs j i lb = 2 * (block_len rs j - i) + (if lb_write_offset lb \<noteq> 0 then 1 else 0)"

lemma block_recover_progress:
  assumes blk: "in_block (ds @ es) j m off" and st: "settled ds es j i lb" and i: "i < block_len (ds @ es) j"
  obtains (more) i' lb' where "block_recover u m off (int (8 + i)) lb = Some (int (8 + i'), lb', None)" "settled ds es j i' lb'"
      "todo (ds @ es) j i' lb' < todo (ds @ es) j i lb"
  | (one) i' lb' r es' r' where "block_recover u m off (int (8 + i)) lb = Some (int (8 + i'), lb', Some r')" "es = r # es'"
      "same_record r r'" "settled (ds @ [r]) es' j i' lb'" "todo (ds @ es) j i' lb' < todo (ds @ es) j i lb"
proof -
  have rs: "rec_state ds es (504 * j + i) lb" using st by (simp add: settled_def)
  show thesis
  proof (cases "i = 0 \<and> first_at (map rec_len (ds @ es)) (504 * j) \<noteq> 0")
    case True
    obtain k lb' where "block_recover u m off 8 lb = Some (int (8 + k), lb', None)" "0 < k" "k \<le> block_len (ds @ es) j"
        "rec_state ds es (504 * j + k) lb'" "k = block_len (ds @ es) j \<or> lb_write_offset lb' = rec_len (hd es)"
      by (rule block_recover_rest [OF blk _ conjunct2 [OF True], of lb u]) (use rs True in auto)
    then show thesis using True by (intro more [of k lb']) (auto simp: settled_def todo_def)
  next
    case False
    then have at0: "i = 0 \<longrightarrow> first_at (map rec_len (ds @ es)) (504 * j) = 0" by blast
    show thesis
    proof (cases "lb_write_offset lb = 0")
      case lb0: True
      show thesis
      proof (cases rule: block_recover_next [OF blk rs i lb0 at0, of u])
        case (1 r es' r')
        then show thesis using lb0 by (intro one [OF 1(2,1,3)]) (auto simp: settled_def todo_def)
      next
        case (2 lb')
        then show thesis using i lb0 by (intro more [OF 2(1)]) (auto simp: settled_def todo_def)
      qed
    next
      case lb1: False
      have "lb_write_offset lb = rec_len (hd es)"
      proof (cases "i = 0")
        case True
        have x: "504 * j < length (stream (ds @ es))" "(504 * j) mod 504 = 0" and ok: "log_ok (ds @ es)" using blk by (simp_all add: in_block_def)
        have "rec_state ds es (504 * j) lb" using rs True by simp
        then show ?thesis using lb1 at0 True by (cases rule: first_at_state [OF ok _ x]) auto
      next
        case False
        then show ?thesis using st i lb1 by (auto simp: settled_def)
      qed
      from block_recover_buffered [OF blk rs i lb1 at0 this, of u] obtain r es' r' where "es = r # es'"
          "block_recover u m off (int (8 + i)) lb = Some (int (8 + i), lb_new, Some r')" "same_record r r'" "rec_state (ds @ [r]) es' (504 * j + i) lb_new" .
      then show thesis using lb1 i by (intro one [of i lb_new r' r es']) (auto simp: settled_def todo_def lb_new_def)
    qed
  qed
qed

lemma recover_records_block:
  assumes "in_block (ds @ es) j m off" "settled ds es j i lb"
  shows "\<exists>lb' g' lsn'. recover_records u m off (int (8 + i)) lb g lsn = Some (lb', g', lsn') \<and>
    recovers ds es (504 * j + block_len (ds @ es) j) g (lb', g')"
  using assms
proof (induction "todo (ds @ es) j i lb" arbitrary: i ds es lb g lsn rule: less_induct)
  case less
  note blk = less.prems(1) and st = less.prems(2)
  show ?case
  proof (cases "i = block_len (ds @ es) j")
    case True
    then show ?thesis using recover_records_end [OF blk True, of u lb g lsn] recovers_refl st by (auto simp: settled_def)
  next
    case False
    then have i: "i < block_len (ds @ es) j" using st by (simp add: settled_def)
    show ?thesis
    proof (cases rule: block_recover_progress [OF blk st i, of u])
      case (1 i' lb')
      then show ?thesis unfolding recover_records_step [OF blk i 1(1)] option.case by (intro less.hyps blk)
    next
      case (2 i' lb' r es' r')
      have "\<exists>lb2 g2 lsn2. recover_records u m off (int (8 + i')) lb' (log_record_manage r' g) (wrap32 (lr_lsn r' + get_logrec_len r')) = Some (lb2, g2, lsn2) \<and>
          recovers (ds @ [r]) es' (504 * j + block_len ((ds @ [r]) @ es') j) (log_record_manage r' g) (lb2, g2)"
        using 2 blk by (intro less.hyps) auto
      then show ?thesis
        unfolding recover_records_step [OF blk i 2(1)] option.case using recovers_trans [of "[r]" "[r']" ds es' _ g] 2(2,3) by auto
    qed
  qed
qed

section \<open>The redo buffer\<close>

lemma recovers_cases:
  assumes "recovers ds es x g (lb, g')"
  obtains ds' es' rs' where "es = ds' @ es'" "list_all2 same_record ds' rs'" "rec_state (ds @ ds') es' x lb" "g' = fold log_record_manage rs' g"
  using assms by (auto simp: recovers_def)

text \<open>The last block becomes the first one of the log buffer, so that appending goes on behind it.\<close>

lemma recovered_buffer:
  assumes blk: "in_block rs j m off" and n: "length (stream rs) < 504 * Suc j" "length (stream rs) < 2 ^ 30"
  shows "buf_inv (map rec_len rs) (stream rs) (length (stream rs)) j 1
    (snd (block_copy 0 (at_off m off) (c\<lparr>current_block_no := log_block_no m off\<rparr>))
      \<lparr>write_block_offset := 0, write_offset := nat (log_data_len m off + int CLOG_BLOCK_HDR_SIZE)\<rparr>)"
proof -
  note facts = in_block_facts [OF blk]
  have b: "block_at (map rec_len rs) (stream rs) (length (stream rs)) j m off" "504 * j < length (stream rs)"
    using blk by (simp_all add: in_block_def)
  have "block_at (map rec_len rs) (stream rs) (length (stream rs)) j (blit (log_buffer c) 0 (at_off m off) 512) 0"
    by (rule block_at_cong [OF b(1)]) (simp add: blit_def at_off_def)
  moreover have "block_len rs j = length (stream rs) - 504 * j" using n by (simp add: block_len_def)
  ultimately show ?thesis
    using n b(2) facts(1,2)
    by (simp add: buf_inv_def block_copy_def CLOG_BLOCK_SIZE_def CLOG_BLOCK_HDR_SIZE_def nat_add_distrib)
qed

lemma recover_blocks_chunk:
  assumes blks: "\<And>i. i < 8 \<Longrightarrow> 504 * (j + i) < n \<Longrightarrow> in_block rs (j + i) m (512 * i)"
    and n: "n = length (stream rs)" "n mod 504 \<noteq> 0" "n < 2 ^ 30"
    and st: "rs = ds @ es" "k \<le> 8" "504 * (j + k) < n" "rec_state ds es (504 * (j + k)) lb"
  shows "\<exists>c' lb' g' lsn'. recover_blocks u m (512 * k) c lb g lsn = Some (n < 504 * (j + 8), c', lb', g', lsn') \<and>
    recovers ds es (min n (504 * (j + 8))) g (lb', g') \<and>
    (n < 504 * (j + 8) \<longrightarrow> buf_inv (map rec_len rs) (stream rs) n (n div 504) 1 c')"
  using st
proof (induction "8 - k" arbitrary: k ds es c lb g lsn)
  case 0
  then have k: "k = 8" by simp
  then have "recover_blocks u m (512 * k) c lb g lsn = Some (False, c, lb, g, lsn)"
    by (subst recover_blocks.simps) (simp add: CLOG_REDO_BUFFER_SIZE_def)
  then show ?case using 0 k recovers_refl [of ds es "504 * (j + 8)" lb g] by simp
next
  case (Suc d)
  have k: "k < 8" "d = 8 - Suc k" using Suc.hyps(2) by simp_all
  have blk: "in_block (ds @ es) (j + k) m (512 * k)" using blks [OF k(1) Suc.prems(3)] Suc.prems(1) by simp
  note facts = in_block_facts [OF blk]
  have "settled ds es (j + k) 0 lb" using Suc.prems(4) by (simp add: settled_def)
  from recover_records_block [OF blk this, of u g lsn] obtain lb1 g1 lsn1 where
    r1: "recover_records u m (512 * k) 8 lb g lsn = Some (lb1, g1, lsn1)" "recovers ds es (504 * (j + k) + block_len rs (j + k)) g (lb1, g1)"
    using Suc.prems(1) by auto
  let ?c = "c\<lparr>current_block_no := log_block_no m (512 * k)\<rparr>"
  have step: "recover_blocks u m (512 * k) c lb g lsn = (if block_len rs (j + k) < 504
     then Some (True, snd (block_copy 0 (at_off m (512 * k)) ?c)\<lparr>write_block_offset := 0,
            write_offset := nat (log_data_len m (512 * k) + int CLOG_BLOCK_HDR_SIZE)\<rparr>, lb1, g1, lsn1)
     else recover_blocks u m (512 * Suc k) ?c lb1 g1 lsn1)"
    using k(1) r1(1) facts(1) Suc.prems(1) by (subst recover_blocks.simps)
      (simp add: CLOG_REDO_BUFFER_SIZE_def CLOG_BLOCK_HDR_SIZE_def CLOG_BLOCK_DATA_SIZE_def CLOG_BLOCK_SIZE_def Let_def ulong_id block_len_def add.commute)
  show ?case
  proof (cases "n < 504 * (j + Suc k)")
    case True
    then have "block_len rs (j + k) < 504" "504 * (j + k) + block_len rs (j + k) = n" using Suc.prems(3) n(1) by (auto simp: block_len_def)
    moreover have "n < 504 * (j + 8)" "n div 504 = j + k" using True k(1) Suc.prems(3) by auto
    moreover have "buf_inv (map rec_len rs) (stream rs) n (j + k) 1 (snd (block_copy 0 (at_off m (512 * k)) ?c)
        \<lparr>write_block_offset := 0, write_offset := nat (log_data_len m (512 * k) + int CLOG_BLOCK_HDR_SIZE)\<rparr>)"
      using recovered_buffer [OF blk, of c] True n Suc.prems(1) by simp
    ultimately show ?thesis using step r1(2) by simp
  next
    case False
    then have ge: "504 * (j + Suc k) < n" using n(2) by (metis linorder_neqE_nat mod_mult_self1_is_0)
    then have "block_len rs (j + k) = 504" using n(1) by (simp add: block_len_def)
    moreover obtain ds' es' rs' where s: "es = ds' @ es'" "list_all2 same_record ds' rs'" "rec_state (ds @ ds') es' (504 * (j + Suc k)) lb1"
        "g1 = fold log_record_manage rs' g"
      using r1(2) calculation by (elim recovers_cases) (simp add: add.commute)
    moreover have "\<exists>c' lb' g' lsn'. recover_blocks u m (512 * Suc k) ?c lb1 g1 lsn1 = Some (n < 504 * (j + 8), c', lb', g', lsn') \<and>
        recovers (ds @ ds') es' (min n (504 * (j + 8))) g1 (lb', g') \<and>
        (n < 504 * (j + 8) \<longrightarrow> buf_inv (map rec_len rs) (stream rs) n (n div 504) 1 c')"
      using s(1,3) ge k Suc.prems(1) by (intro Suc.hyps(1)) simp_all
    ultimately show ?thesis using step recovers_trans [OF s(2), of ds es' _ g] by auto
  qed
qed

section \<open>The file\<close>

text \<open>The file of a log: a block for the header of the file and the blocks of the log, the last of which has room left.\<close>

definition log_file :: "CLogRecord list \<Rightarrow> byte list \<Rightarrow> bool" where
  "log_file rs bs \<longleftrightarrow> (let n = length (stream rs) in log_ok rs \<and> n mod 504 \<noteq> 0 \<and> n < 2 ^ 30 \<and> length bs = 512 * (n div 504 + 2) \<and>
     (\<forall>j\<le>n div 504. block_at (map rec_len rs) (stream rs) n j (list_mem bs) (512 * Suc j)))"

text \<open>The handler has the file open, and no call fails.\<close>

definition log_open :: "CLogFile \<Rightarrow> FileSys \<Rightarrow> byte list \<Rightarrow> bool" where
  "log_open f w bs \<longleftrightarrow> fs_calls w = [] \<and> fs_transfers w = [] \<and> ph_file_name (clf_file f) \<noteq> [] \<and> 0 \<le> ph_file_desc (clf_file f) \<and>
     (\<exists>pos. fs_fds w (ph_file_desc (clf_file f)) = Some (ph_file_name (clf_file f), pos)) \<and> fs_files w (ph_file_name (clf_file f)) = Some bs"

definition redo_mem :: "byte list \<Rightarrow> nat \<Rightarrow> mem \<Rightarrow> mem" where
  "redo_mem bs offset m = (let new = take 4096 (drop offset bs) in blit m 0 (list_mem new) (length new))"

lemma read_redo_open:
  assumes "log_open f w bs"
  obtains w' where "read_redo offset f m sz w = (redo_mem bs offset m, int (min 4096 (length bs - offset)), w')" "log_open f w' bs"
    "fs_files w' = fs_files w"
proof -
  from assms obtain name pos where o: "fs_calls w = []" "fs_transfers w = []" "ph_file_name (clf_file f) \<noteq> []" "0 \<le> ph_file_desc (clf_file f)"
    "fs_fds w (ph_file_desc (clf_file f)) = Some (name, pos)" "fs_files w name = Some bs" "name = ph_file_name (clf_file f)" by (auto simp: log_open_def)
  let ?fd = "ph_file_desc (clf_file f)" and ?new = "take 4096 (drop offset bs)"
  let ?w = "w\<lparr>fs_fds := (fs_fds w)(?fd \<mapsto> (name, offset + length ?new))\<rparr>"
  have tk: "take (length ?new) (drop offset bs) = ?new" by (simp add: min_def)
  have "read_redo offset f m sz w = (redo_mem bs offset m, int (min 4096 (length bs - offset)), ?w)"
    using o by (simp add: read_redo_def ph_read_at_def ph_bound_def fs_seek_def next_call_def get_bytes_def fs_read_def next_transfer_def
      redo_mem_def CLOG_REDO_BUFFER_SIZE_def Let_def tk [simplified] min.commute)
  moreover have "log_open f ?w bs" using o by (simp add: log_open_def)
  ultimately show thesis using that by simp
qed

lemma redo_mem_block:
  assumes "log_file rs bs" "i < 8" "504 * (j + i) < length (stream rs)"
  shows "in_block rs (j + i) (redo_mem bs (512 * Suc j) m) (512 * i)"
proof -
  define n where "n = length (stream rs)"
  have f: "log_ok rs" "length bs = 512 * (n div 504 + 2)" "\<forall>j\<le>n div 504. block_at (map rec_len rs) (stream rs) n j (list_mem bs) (512 * Suc j)"
    using assms(1) by (simp_all add: log_file_def Let_def n_def)
  have j: "j + i \<le> n div 504" using assms(3) by (simp add: n_def less_eq_div_iff_mult_less_eq mult.commute)
  have eq: "redo_mem bs (512 * Suc j) m (512 * i + q) = list_mem bs (512 * Suc (j + i) + q)" if q: "q < 512" for q
  proof -
    have "512 * Suc (j + i) + q < length bs" using q j f(2) by simp
    moreover have "512 * i + q < 4096" using q assms(2) by simp
    ultimately show ?thesis by (simp add: redo_mem_def Let_def blit_def list_mem_def less_diff_conv algebra_simps)
  qed
  have "block_at (map rec_len rs) (stream rs) n (j + i) (list_mem bs) (512 * Suc (j + i))" using f(3) j by blast
  then have "block_at (map rec_len rs) (stream rs) n (j + i) (redo_mem bs (512 * Suc j) m) (512 * i)"
    by (rule block_at_cong) (rule eq)
  then show ?thesis using assms f(1) by (simp add: in_block_def n_def CLOG_REDO_BUFFER_SIZE_def)
qed

lemma recover_reads_file:
  assumes fl: "log_file rs bs" and rs: "rs = ds @ es" "504 * j < length (stream rs)" "rec_state ds es (504 * j) lb" and op: "log_open f w bs"
  defines "n \<equiv> length (stream rs)"
  shows "\<exists>c' lb' g' lsn' w'. recover_reads u f (512 * Suc j) (redo_mem bs (512 * Suc j) m) (int (min 4096 (length bs - 512 * Suc j))) c lb g lsn w =
      Some (c', lb', g', lsn', w') \<and> recovers ds es n g (lb', g') \<and> buf_inv (map rec_len rs) (stream rs) n (n div 504) 1 c' \<and>
      log_open f w' bs \<and> fs_files w' = fs_files w"
  using rs op
proof (induction "n - 504 * j" arbitrary: j m c ds es lb g lsn w rule: less_induct)
  case less
  have n: "n = length (stream rs)" "n mod 504 \<noteq> 0" "n < 2 ^ 30" and len: "length bs = 512 * (n div 504 + 2)"
    using fl by (simp_all add: log_file_def Let_def n_def)
  have jl: "j \<le> n div 504" using less.prems(2) n(1) by (simp add: less_eq_div_iff_mult_less_eq mult.commute)
  have "\<exists>c' lb' g' lsn'. recover_blocks u (redo_mem bs (512 * Suc j) m) (512 * 0) c lb g lsn = Some (n < 504 * (j + 8), c', lb', g', lsn') \<and>
      recovers ds es (min n (504 * (j + 8))) g (lb', g') \<and> (n < 504 * (j + 8) \<longrightarrow> buf_inv (map rec_len rs) (stream rs) n (n div 504) 1 c')"
    using redo_mem_block [OF fl] less.prems(2,3) n(1) by (intro recover_blocks_chunk [OF _ n less.prems(1)]) simp_all
  then obtain c1 lb1 g1 lsn1 where b: "recover_blocks u (redo_mem bs (512 * Suc j) m) 0 c lb g lsn = Some (n < 504 * (j + 8), c1, lb1, g1, lsn1)"
    "recovers ds es (min n (504 * (j + 8))) g (lb1, g1)" "n < 504 * (j + 8) \<longrightarrow> buf_inv (map rec_len rs) (stream rs) n (n div 504) 1 c1" by auto
  have sz: "int (min 4096 (length bs - 512 * Suc j)) \<noteq> 0" using jl len by simp
  show ?case
  proof (cases "n < 504 * (j + 8)")
    case True
    then show ?thesis using b sz less.prems(4) by (subst recover_reads.simps) (simp add: min_def)
  next
    case False
    then have ge: "504 * (j + 8) < n" using n(2) by (metis linorder_neqE_nat mod_mult_self1_is_0)
    then have "j + 8 \<le> n div 504" by (simp add: less_eq_div_iff_mult_less_eq mult.commute)
    then have sz8: "min 4096 (length bs - 512 * Suc j) = 4096" using len by simp
    have n30: "512 * Suc j + 4096 < 2 ^ 64" using ge n(3) by simp
    have off: "nat (ulong (int (512 * Suc j) + 4096)) = 512 * Suc (j + 8)" using n30 by (subst ulong_id) auto
    obtain w1 where w1: "read_redo (512 * Suc (j + 8)) f (redo_mem bs (512 * Suc j) m) 4096 w =
        (redo_mem bs (512 * Suc (j + 8)) (redo_mem bs (512 * Suc j) m), int (min 4096 (length bs - 512 * Suc (j + 8))), w1)"
        "log_open f w1 bs" "fs_files w1 = fs_files w" by (rule read_redo_open [OF less.prems(4)])
    obtain ds' es' rs' where s: "es = ds' @ es'" "list_all2 same_record ds' rs'" "rec_state (ds @ ds') es' (504 * (j + 8)) lb1" "g1 = fold log_record_manage rs' g"
      using b(2) ge by (auto elim!: recovers_cases)
    have "\<exists>c' lb' g' lsn' w'. recover_reads u f (512 * Suc (j + 8)) (redo_mem bs (512 * Suc (j + 8)) (redo_mem bs (512 * Suc j) m))
          (int (min 4096 (length bs - 512 * Suc (j + 8)))) c1 lb1 g1 lsn1 w1 = Some (c', lb', g', lsn', w') \<and> recovers (ds @ ds') es' n g1 (lb', g') \<and>
        buf_inv (map rec_len rs) (stream rs) n (n div 504) 1 c' \<and> log_open f w' bs \<and> fs_files w' = fs_files w1"
      using s(1,3) less.prems(1) ge n(1) w1(2) by (intro less.hyps) simp_all
    moreover have "recover_reads u f (512 * Suc j) (redo_mem bs (512 * Suc j) m) (int (min 4096 (length bs - 512 * Suc j))) c lb g lsn w =
        recover_reads u f (512 * Suc (j + 8)) (redo_mem bs (512 * Suc (j + 8)) (redo_mem bs (512 * Suc j) m))
          (int (min 4096 (length bs - 512 * Suc (j + 8)))) c1 lb1 g1 lsn1 w1"
      using b(1) False w1(1) off unfolding sz8 by (subst recover_reads.simps) (simp add: Let_def)
    ultimately show ?thesis using recovers_trans [OF s(2), of ds es' n g] s(1,4) w1(3) by auto
  qed
qed

lemma stream_empty:
  assumes "log_ok rs" "set es \<subseteq> set rs" "length (stream es) = 0"
  shows "es = []"
  using assms log_ok_rec(2) [OF assms(1), of "hd es"] by (cases es) auto

text \<open>What is buffered at the end of the log is the last record.\<close>

lemma recovers_end:
  assumes "log_ok rs" "recovers [] rs (length (stream rs)) g (lb, g')"
  shows "\<exists>rs'. list_all2 same_record rs rs' \<and>
    (if lb_write_offset lb = 0 then g' = fold log_record_manage rs' g
     else \<exists>r. CLogRecord_of u (lb_buffer lb) = Some r \<and> log_record_manage r g' = fold log_record_manage rs' g)"
proof -
  obtain ds es rs' where s: "rs = ds @ es" "list_all2 same_record ds rs'" "rec_state ds es (length (stream rs)) lb" "g' = fold log_record_manage rs' g"
    using assms(2) by (auto elim: recovers_cases)
  have ok: "log_ok (ds @ es)" using assms(1) s(1) by simp
  show ?thesis
  proof (cases "lb_write_offset lb = 0")
    case True
    then have "length (stream es) = 0" using s(1,3) by (simp add: rec_state_def)
    then have "es = []" using stream_empty [OF ok] by simp
    then show ?thesis using s True by auto
  next
    case False
    obtain r es' where r: "es = r # es'" "length (stream rs) = length (stream ds) + lb_write_offset lb" "lb_write_offset lb \<le> rec_len r"
      by (rule rec_state_busy [OF s(3) False])
    then have "lb_write_offset lb = rec_len r + length (stream es')" using s(1) by simp
    then have full: "lb_write_offset lb = rec_len r" "length (stream es') = 0" using r(3) by linarith+
    then have "es' = []" using stream_empty [OF ok, of es'] r(1) by auto
    moreover have "\<exists>r'. CLogRecord_of u (lb_buffer lb) = Some r' \<and> same_record r r'"
      using s(3) full(1) r(1) by (intro stream_record [OF ok [unfolded r(1)]]) (simp add: rec_state_def)
    then obtain r' where "CLogRecord_of u (lb_buffer lb) = Some r'" "same_record r r'" by blast
    ultimately show ?thesis using s(1,2,4) r(1) False by (intro exI [of _ "rs' @ [r']"]) (simp add: list_all2_appendI)
  qed
qed

lemma clf_recover_log:
  assumes "log_file rs bs" "log_open f w bs"
  shows "\<exists>rs' c' lsn' w'. clf_recover u raw f g c lsn w = Some (SUCCESS, fold log_record_manage rs' g, c', lsn', w') \<and>
    list_all2 same_record rs rs' \<and> buf_inv (map rec_len rs) (stream rs) (length (stream rs)) (length (stream rs) div 504) 1 c' \<and>
    log_open f w' bs \<and> fs_files w' = fs_files w"
proof -
  have ok: "log_ok rs" and n: "0 < length (stream rs)" using assms(1) by (auto simp: log_file_def Let_def intro: gr0I)
  obtain w1 where w1: "read_redo 512 f raw 0 w = (redo_mem bs 512 raw, int (min 4096 (length bs - 512)), w1)" "log_open f w1 bs" "fs_files w1 = fs_files w"
    by (rule read_redo_open [OF assms(2)])
  obtain c' lb g' lsn' w' where r: "recover_reads u f 512 (redo_mem bs 512 raw) (int (min 4096 (length bs - 512))) c lb_new g lsn w1 = Some (c', lb, g', lsn', w')"
      "recovers [] rs (length (stream rs)) g (lb, g')" "buf_inv (map rec_len rs) (stream rs) (length (stream rs)) (length (stream rs) div 504) 1 c'"
      "log_open f w' bs" "fs_files w' = fs_files w1"
    using recover_reads_file [where j = 0 and ds = "[]" and es = rs, OF assms(1) _ _ _ w1(2), of lb_new u raw c g lsn] n rec_state_new [of "[]" rs] by auto
  obtain rs' where rs': "list_all2 same_record rs rs'"
      "if lb_write_offset lb = 0 then g' = fold log_record_manage rs' g
       else \<exists>r. CLogRecord_of u (lb_buffer lb) = Some r \<and> log_record_manage r g' = fold log_record_manage rs' g"
    using recovers_end [OF ok r(2), of u] by blast
  have "clf_recover u raw f g c lsn w = Some (SUCCESS, fold log_record_manage rs' g, c', lsn', w')"
    using w1(1) r(1) rs'(2) by (auto simp: clf_recover_def CLOG_BLOCK_SIZE_def split: if_splits)
  then show ?thesis using rs'(1) r(3-5) w1(3) by auto
qed

end
