(* ===== verification/Ob_ClogCrash.thy ===== *)
theory Ob_ClogCrash
  imports Ob_ClogRecover
begin

text \<open>
  Appending, flushing and reading back: every append keeps the layout of the log in the buffer and in the
  file, so that after a crash the file yields all records that were appended before the last flush.
\<close>

section \<open>Flushing\<close>

text \<open>
  The blocks before the buffer are in the file; behind them the file may have an older version of the first block
  of the buffer.
\<close>

definition file_inv :: "nat list \<Rightarrow> byte list \<Rightarrow> nat \<Rightarrow> nat \<Rightarrow> byte list \<Rightarrow> bool" where
  "file_inv ls S n base bs \<longleftrightarrow> length bs \<in> {512 * (base + 1), 512 * (base + 2)} \<and> 504 * base \<le> n \<and>
     (\<forall>j<base. block_at ls S n j (list_mem bs) (512 * Suc j))"

lemma file_inv_mono: "file_inv ls S n base bs \<Longrightarrow> n \<le> n' \<Longrightarrow> file_inv ls S n' base bs"
proof -
  assume a: "file_inv ls S n base bs" "n \<le> n'"
  have "block_at ls S n' j (list_mem bs) (512 * Suc j)" if "j < base" for j
    using a that by (intro block_at_full [of j n n']) (auto simp: file_inv_def)
  then show ?thesis using a by (simp add: file_inv_def)
qed

lemma clf_write_open:
  assumes "log_open f w bs" "off \<le> length bs"
  obtains w' where "snd (clf_write off new f w) = w'" "log_open f w' (take off bs @ new @ drop (off + length new) bs)"
proof -
  from assms obtain name pos where o: "fs_calls w = []" "fs_transfers w = []" "ph_file_name (clf_file f) \<noteq> []" "0 \<le> ph_file_desc (clf_file f)"
    "fs_fds w (ph_file_desc (clf_file f)) = Some (name, pos)" "fs_files w name = Some bs" "name = ph_file_name (clf_file f)" by (auto simp: log_open_def)
  have "log_open f (snd (clf_write off new f w)) (write_bytes off new bs)"
    using o by (simp add: clf_write_def ph_write_at_def ph_bound_def fs_seek_def next_call_def put_bytes_def fs_write_def next_transfer_def log_open_def)
  then show thesis using that assms(2) by (simp add: write_bytes_def)
qed

text \<open>The file after the blocks of the buffer have been written.\<close>

lemma flushed_file:
  assumes inv: "buf_inv ls S n base nb c" "0 < nb" and fi: "file_inv ls S n base bs"
  defines "bs' \<equiv> take (512 * Suc base) bs @ bytes_at (log_buffer c) 0 (512 * nb) @ drop (512 * Suc base + 512 * nb) bs"
  shows "length bs' = 512 * (base + nb + 1)" "j < base + nb \<Longrightarrow> block_at ls S n j (list_mem bs') (512 * Suc j)"
proof -
  have len: "512 * Suc base \<le> length bs" "length bs \<le> 512 * Suc base + 512 * nb" using fi inv(2) by (auto simp: file_inv_def)
  show l': "length bs' = 512 * (base + nb + 1)" using len by (simp add: bs'_def bytes_at_def)
  have at: "list_mem bs' x = (if x < 512 * Suc base then list_mem bs x else log_buffer c (x - 512 * Suc base))"
    if "x < 512 * Suc base + 512 * nb" for x
    using len that by (simp add: bs'_def list_mem_def nth_append bytes_at_def)
  assume j: "j < base + nb"
  show "block_at ls S n j (list_mem bs') (512 * Suc j)"
  proof (cases "j < base")
    case True
    then have "block_at ls S n j (list_mem bs) (512 * Suc j)" using fi by (simp add: file_inv_def)
    then show ?thesis by (rule block_at_cong) (use True in \<open>subst at; simp\<close>)
  next
    case False
    then obtain i where i: "j = base + i" "i < nb" using j by (metis le_Suc_ex nat_add_left_cancel_less not_less)
    then have "block_at ls S n j (log_buffer c) (512 * i)" using inv(1) by (simp add: buf_inv_def)
    then show ?thesis
    proof (rule block_at_cong)
      fix q :: nat
      assume "q < 512"
      then have "512 * Suc j + q < 512 * Suc base + 512 * nb" using i by simp
      then show "list_mem bs' (512 * Suc j + q) = log_buffer c (512 * i + q)" using i(1) by (subst at) simp_all
    qed
  qed
qed

lemma flush_buffer_inv:
  assumes inv: "buf_inv ls S n base nb c" "0 < nb" and fi: "file_inv ls S n base bs" and op: "log_open f w bs"
  obtains c' w' bs' base' nb' where "flush_buffer f c w = (SUCCESS, c', w')" "log_open f w' bs'" "length bs' = 512 * (base + nb + 1)"
    "\<forall>j<base + nb. block_at ls S n j (list_mem bs') (512 * Suc j)" "buf_inv ls S n base' nb' c'" "file_inv ls S n base' bs'"
    "base + nb \<le> Suc base'"
proof -
  obtain k where nb: "nb = Suc k" using inv(2) gr0_conv_Suc by blast
  note last = buf_inv_last [OF inv(1) [unfolded nb]]
  let ?m = "log_buffer c" and ?bs = "take (512 * Suc base) bs @ bytes_at (log_buffer c) 0 (512 * nb) @ drop (512 * Suc base + 512 * nb) bs"
  note fd = flushed_file [OF inv fi]
  have no: "nat (ulong (log_block_no ?m 0)) = 512 * Suc base"
  proof -
    have "\<forall>i<nb. block_at ls S n (base + i) ?m (512 * i)" "512 * (base + nb) < 2 ^ 31" using inv(1) by (simp_all add: buf_inv_def)
    then have "block_at ls S n base ?m 0" "512 * (base + nb) < 2 ^ 31" using inv(2) by auto
    then show ?thesis using inv(2) by (simp add: block_at_def ulong_id)
  qed
  obtain w' where w': "snd (clf_write (512 * Suc base) (bytes_at ?m 0 (512 * nb)) f w) = w'" "log_open f w' ?bs"
    using fi by (rule_tac clf_write_open [OF op, of "512 * Suc base" "bytes_at ?m 0 (512 * nb)"]) (auto simp: file_inv_def bytes_at_def)
  have fl: "file_inv ls S n base' ?bs" if "base' = base + nb \<or> base' + 1 = base + nb" "504 * base' \<le> n" for base'
    using that fd by (auto simp: file_inv_def)
  have sz: "write_offset c = CLOG_BUFFER_SIZE \<Longrightarrow> CLOG_BUFFER_SIZE = 512 * nb"
    using buf_inv_full [OF inv(1)] by (simp add: CLOG_BUFFER_SIZE_def)
  show thesis
  proof (cases "n = 504 * (base + nb)")
    case full: True
    let ?c = "c\<lparr>write_block_offset := 0, write_offset := 0, log_buffer := (\<lambda>_. 0)\<rparr>"
    have "flush_buffer f c w = (SUCCESS, ?c, w')"
      using no w'(1) last sz full nb
      by (auto simp: flush_buffer_def Let_def CLOG_BLOCK_SIZE_def CLOG_BLOCK_DATA_SIZE_def add.commute)
    moreover have "buf_inv ls S n (base + nb) 0 ?c" using inv(1) full by (simp add: buf_inv_def)
    ultimately show thesis using that w'(2) fd fl [of "base + nb"] full by simp
  next
    case part: False
    let ?c = "if k = 0 then c else c\<lparr>write_offset := nat (log_data_len ?m (512 * k) + 8), write_block_offset := 0,
             log_buffer := zero_mem (blit ?m 0 (at_off ?m (512 * k)) 512) 512 (CLOG_BUFFER_SIZE - 512)\<rparr>"
    have len: "n - 504 * (base + k) < 504" using part last(3,4) nb by auto
    have "write_offset c \<noteq> CLOG_BUFFER_SIZE" using buf_inv_full [OF inv(1)] part by simp
    then have "flush_buffer f c w = (SUCCESS, ?c, w')"
      using no w'(1) last(2,6) len nb
      by (auto simp: flush_buffer_def Let_def CLOG_BLOCK_SIZE_def CLOG_BLOCK_DATA_SIZE_def CLOG_BLOCK_HDR_SIZE_def add.commute)
    moreover have "buf_inv ls S n (base + k) 1 ?c"
    proof (cases "k = 0")
      case True
      then show ?thesis using inv(1) nb by simp
    next
      case False
      have "block_at ls S n (base + k) (log_buffer ?c) 0"
        by (rule block_at_cong [OF last(1)]) (use False in \<open>simp add: zero_mem_def blit_def at_off_def\<close>)
      moreover have "nat (log_data_len ?m (512 * k) + 8) = 8 + (n - 504 * (base + k))" using last(6) by simp
      ultimately show ?thesis using inv(1) nb False last(3,4) by (simp add: buf_inv_def)
    qed
    ultimately show thesis using that w'(2) fd fl [of "base + k"] last(3) nb by simp
  qed
qed

section \<open>Appending\<close>

text \<open>\<open>n\<close> bytes of the stream are in the file and the buffer of the manager.\<close>

definition log_inv :: "nat list \<Rightarrow> byte list \<Rightarrow> nat \<Rightarrow> CLogManager \<Rightarrow> FileSys \<Rightarrow> bool" where
  "log_inv ls S n cm w \<longleftrightarrow> (\<exists>base nb bs. buf_inv ls S n base nb (cm_buffer cm) \<and> file_inv ls S n base bs \<and> log_open (cm_file cm) w bs)"

lemma clog_sync_inv:
  assumes "buf_inv ls S n base nb (cm_buffer cm)" "file_inv ls S n base bs" "log_open (cm_file cm) w bs" "504 * base < n"
  obtains c' w' bs' base' nb' where "clog_sync cm w = (SUCCESS, cm\<lparr>cm_buffer := c'\<rparr>, w')" "log_open (cm_file cm) w' bs'"
    "length bs' = 512 * (base + nb + 1)" "\<forall>j<base + nb. block_at ls S n j (list_mem bs') (512 * Suc j)"
    "buf_inv ls S n base' nb' c'" "file_inv ls S n base' bs'" "base + nb \<le> Suc base'"
proof -
  have "0 < nb" using assms(1,4) by (auto simp: buf_inv_def intro: gr0I)
  from flush_buffer_inv [OF assms(1) this assms(2,3)] obtain c' w' bs' base' nb' where f: "flush_buffer (cm_file cm) (cm_buffer cm) w = (SUCCESS, c', w')"
    "log_open (cm_file cm) w' bs'" "length bs' = 512 * (base + nb + 1)"
    "\<forall>j<base + nb. block_at ls S n j (list_mem bs') (512 * Suc j)" "buf_inv ls S n base' nb' c'" "file_inv ls S n base' bs'" "base + nb \<le> Suc base'" .
  have "clog_sync cm w = (SUCCESS, cm\<lparr>cm_buffer := c'\<rparr>, w')" using f(1) by (simp add: clog_sync_def)
  then show thesis using that f(2-) by simp
qed

text \<open>The rest of a record that did not fit into the buffer fits after the flush.\<close>

lemma append_rest:
  assumes inv: "buf_inv ls S (p + start) base' nb' c" "504 * base' \<le> p + start" and r: "rec_in ls S p r" "get_logrec_len r \<le> 4096"
    and st: "start < nat (get_logrec_len r)" "p + start = 504 * (base + 8192)" "base + 8192 \<le> Suc base'" and small: "p + start < 2 ^ 30"
  shows "\<exists>rc nb c'. append_from r start c = Some (rc, nat (get_logrec_len r), c') \<and> buf_inv ls S (p + nat (get_logrec_len r)) base' nb c'"
proof -
  have "512 * (base' + 8192) < 2 ^ 31" "get_logrec_len r < 2 ^ 31" using inv(2) small r(2) by simp_all
  from append_from_inv [OF inv(1) r(1) st(1) this(2,1)] obtain rc s2 nb c' where a: "append_from r start c = Some (rc, s2, c')"
      "s2 \<le> nat (get_logrec_len r)" "buf_inv ls S (p + s2) base' nb c'" "if s2 = nat (get_logrec_len r) then rc = SUCCESS else rc = LOGBUF_FULL \<and> write_offset c' = CLOG_BUFFER_SIZE"
    by blast
  have "s2 = nat (get_logrec_len r)"
  proof (rule ccontr)
    assume "s2 \<noteq> nat (get_logrec_len r)"
    then have "p + s2 = 504 * (base' + 8192)" using a(4) buf_inv_full [OF a(3)] by auto
    then show False using st(2,3) a(2) r(2) by simp
  qed
  then show ?thesis using a(1,3) by blast
qed

lemma clog_append_inv:
  assumes inv: "log_inv ls S p cm w" and r: "rec_in ls S p r" "0 < get_logrec_len r" "get_logrec_len r \<le> 4096"
    and small: "p + nat (get_logrec_len r) < 2 ^ 30"
  shows "\<exists>rc c' w'. clog_append_record (Some r) cm w = Some (rc, cm\<lparr>cm_buffer := c'\<rparr>, w') \<and>
    log_inv ls S (p + nat (get_logrec_len r)) (cm\<lparr>cm_buffer := c'\<rparr>) w'"
proof -
  let ?l = "nat (get_logrec_len r)"
  from inv obtain base nb bs where b: "buf_inv ls S p base nb (cm_buffer cm)" "file_inv ls S p base bs" "log_open (cm_file cm) w bs"
    by (auto simp: log_inv_def)
  have base: "504 * base \<le> p" "512 * (base + 8192) < 2 ^ 31" using b(2) small by (simp_all add: file_inv_def)
  obtain rc start nb1 c1 where a: "append_from r 0 (cm_buffer cm) = Some (rc, start, c1)" "start \<le> ?l" "buf_inv ls S (p + start) base nb1 c1"
      "if start = ?l then rc = SUCCESS else rc = LOGBUF_FULL \<and> write_offset c1 = CLOG_BUFFER_SIZE"
    using append_from_inv [where start = 0 and p = p, OF _ r(1), of base nb "cm_buffer cm"] b(1) r(2,3) base(2) by auto
  let ?cm = "cm\<lparr>cm_buffer := c1\<rparr>"
  have fi: "file_inv ls S (p + start) base bs" by (rule file_inv_mono [OF b(2)]) simp
  note run = clog_append_record_def append_log_record_def
  show ?thesis
  proof (cases "rc = LOGBUF_FULL \<or> rec_flag r = code_CLogType REDO_MTR_COMMIT")
    case False
    then have "clog_append_record (Some r) cm w = Some (rc, ?cm, w)" "start = ?l" using a(1,4) by (auto simp: run split: if_splits)
    then show ?thesis using a(3) fi b(3) by (fastforce simp: log_inv_def)
  next
    case sync: True
    have grow: "504 * base < p + start"
      using a(4) base(1) r(2) buf_inv_full [OF a(3)] by (auto split: if_splits)
    obtain c2 w2 bs2 base2 nb2 where s: "clog_sync ?cm w = (SUCCESS, ?cm\<lparr>cm_buffer := c2\<rparr>, w2)" "log_open (cm_file cm) w2 bs2"
        "buf_inv ls S (p + start) base2 nb2 c2" "file_inv ls S (p + start) base2 bs2" "base + nb1 \<le> Suc base2"
      by (rule clog_sync_inv [of ls S "p + start" base nb1 ?cm bs w]) (use a(3) fi b(3) grow in auto)
    show ?thesis
    proof (cases "start = ?l")
      case True
      then have "clog_append_record (Some r) cm w = Some (rc, cm\<lparr>cm_buffer := c2\<rparr>, w2)" using a(1) sync s(1) r(2) by (simp add: run)
      then show ?thesis using s(2-4) True by (fastforce simp: log_inv_def)
    next
      case False
      then have full: "nb1 = 8192" "p + start = 504 * (base + 8192)" "start < ?l" using a(2,4) buf_inv_full [OF a(3)] by auto
      obtain rc3 nb3 c3 where c3: "append_from r start c2 = Some (rc3, ?l, c3)" "buf_inv ls S (p + ?l) base2 nb3 c3"
        using append_rest [OF s(3) _ r(1,3) full(3,2)] s(4,5) full small by (auto simp: file_inv_def)
      have "file_inv ls S (p + ?l) base2 bs2" by (rule file_inv_mono [OF s(4)]) (use full in simp)
      moreover have "clog_append_record (Some r) cm w = Some (rc, cm\<lparr>cm_buffer := c3\<rparr>, w2)"
        using a(1) sync s(1) c3(1) full(3) by (simp add: run)
      ultimately show ?thesis using s(2) c3(2) by (fastforce simp: log_inv_def)
    qed
  qed
qed

text \<open>All records of a log, one after the other.\<close>

primrec append_all :: "CLogRecord list \<Rightarrow> CLogManager \<Rightarrow> FileSys \<Rightarrow> (CLogManager \<times> FileSys) option" where
  "append_all [] cm w = Some (cm, w)"
| "append_all (r # rs) cm w = do {
     (rc, cm, w) \<leftarrow> clog_append_record (Some r) cm w;
     append_all rs cm w
   }"

lemma append_all_inv:
  assumes "log_ok rs" "length (stream rs) < 2 ^ 30" "rs = ds @ es" "log_inv (map rec_len rs) (stream rs) (length (stream ds)) cm w"
  shows "\<exists>c' w'. append_all es cm w = Some (cm\<lparr>cm_buffer := c'\<rparr>, w') \<and>
    log_inv (map rec_len rs) (stream rs) (length (stream rs)) (cm\<lparr>cm_buffer := c'\<rparr>) w'"
  using assms(3,4)
proof (induction es arbitrary: ds cm w)
  case Nil
  then show ?case by (intro exI [of _ "cm_buffer cm"] exI [of _ w]) simp
next
  case (Cons r es)
  have "r \<in> set rs" using Cons.prems(1) by simp
  note len = log_ok_rec [OF assms(1) this]
  have pos: "0 < rec_len q" if "q \<in> set rs" for q using log_ok_rec(2) [OF assms(1) that] by simp
  have rl: "nat (get_logrec_len r) = rec_len r" by (simp add: rec_len_def)
  have "\<exists>rc c' w'. clog_append_record (Some r) cm w = Some (rc, cm\<lparr>cm_buffer := c'\<rparr>, w') \<and>
      log_inv (map rec_len rs) (stream rs) (length (stream ds) + nat (get_logrec_len r)) (cm\<lparr>cm_buffer := c'\<rparr>) w'"
    using len assms(2) Cons.prems(1) rl
    by (intro clog_append_inv [OF Cons.prems(2) rec_in_stream [OF Cons.prems(1) pos]]) simp_all
  then obtain rc c1 w1 where a: "clog_append_record (Some r) cm w = Some (rc, cm\<lparr>cm_buffer := c1\<rparr>, w1)"
      "log_inv (map rec_len rs) (stream rs) (length (stream (ds @ [r]))) (cm\<lparr>cm_buffer := c1\<rparr>) w1" using rl by auto
  show ?case using Cons.IH [OF _ a(2)] Cons.prems(1) a(1) by auto
qed

text \<open>After a flush the file has the whole log.\<close>

lemma clog_sync_file:
  assumes inv: "log_inv (map rec_len rs) (stream rs) (length (stream rs)) cm w" and ok: "log_ok rs"
    and n: "length (stream rs) mod 504 \<noteq> 0" "length (stream rs) < 2 ^ 30"
  shows "\<exists>c' w' bs. clog_sync cm w = (SUCCESS, cm\<lparr>cm_buffer := c'\<rparr>, w') \<and> log_open (cm_file cm) w' bs \<and> log_file rs bs"
proof -
  define m where "m = length (stream rs)"
  from inv obtain base nb bs where b: "buf_inv (map rec_len rs) (stream rs) m base nb (cm_buffer cm)" "file_inv (map rec_len rs) (stream rs) m base bs"
      "log_open (cm_file cm) w bs" by (auto simp: log_inv_def m_def)
  have "504 * base \<noteq> m" using n(1) by (metis m_def mod_mult_self1_is_0)
  then have lt: "504 * base < m" using b(2) by (simp add: file_inv_def)
  obtain c' w' bs' base' nb' where s: "clog_sync cm w = (SUCCESS, cm\<lparr>cm_buffer := c'\<rparr>, w')" "log_open (cm_file cm) w' bs'" "length bs' = 512 * (base + nb + 1)"
      "\<forall>j<base + nb. block_at (map rec_len rs) (stream rs) m j (list_mem bs') (512 * Suc j)"
    by (rule clog_sync_inv [OF b lt])
  have "base + nb = m div 504 + 1"
  proof -
    obtain k where k: "nb = Suc k" using b(1) lt by (cases nb) (auto simp: buf_inv_def)
    have "504 * (base + nb) \<noteq> m" using n(1) by (metis m_def mod_mult_self1_is_0)
    then have "504 * (base + k) \<le> m" "m < 504 * (base + k) + 504" using buf_inv_last(3,4) [OF b(1) [unfolded k]] k by auto
    then have "m div 504 = base + k" by auto
    then show ?thesis using k by simp
  qed
  then have "log_file rs bs'" using s(3,4) ok n by (simp add: log_file_def Let_def m_def less_Suc_eq_le)
  then show ?thesis using s(1,2) by blast
qed

section \<open>Opening the log\<close>

lemma fs_free_fd_nonneg:
  assumes "finite (dom (fs_fds w))"
  shows "0 \<le> fs_free_fd w"
proof -
  have "\<not> int ` {3..<4 + card (dom (fs_fds w))} \<subseteq> dom (fs_fds w)"
    using card_mono [OF assms, of "int ` {3..<4 + card (dom (fs_fds w))}"] by (auto simp: card_image)
  then obtain i where "i \<in> {3..<4 + card (dom (fs_fds w))}" "int i \<notin> dom (fs_fds w)" by blast
  then have "3 \<le> i" "i < 4 + card (dom (fs_fds w))" "fs_fds w (int i) = None" by (simp_all only: atLeastLessThan_iff domIff not_not)
  then have "fs_free_fd w \<noteq> - 1" unfolding fs_free_fd_def by (auto simp: first_from_neg_iff)
  then show ?thesis unfolding fs_free_fd_def using first_from_nonneg by fastforce
qed

definition quiet :: "FileSys \<Rightarrow> bool" where
  "quiet w \<longleftrightarrow> fs_calls w = [] \<and> fs_transfers w = [] \<and> finite (dom (fs_fds w))"

lemmas fs_run_defs = ph_create_file_def ph_open_file_def fs_create_def fs_open_def fs_close_def next_call_def next_transfer_def
  ph_write_at_def ph_read_at_def ph_bound_def fs_seek_def put_bytes_def get_bytes_def fs_write_def fs_read_def write_bytes_def ph_new_def

lemma CLogManager_new_create:
  assumes "quiet w" "fs_files w (path @ ''/clog'') = None"
  obtains f w' bs where "CLogManager_new raw path lsn w = (\<lparr>cm_buffer = CLogBuffer_new, cm_file = f, cm_mtr = mtr_new, cm_lsn = lsn\<rparr>, w')"
    "log_open f w' bs" "length bs = 512" "ph_file_name (clf_file f) = path @ ''/clog''"
proof -
  let ?name = "path @ ''/clog''" and ?fd = "fs_free_fd w"
  let ?w1 = "w\<lparr>fs_files := (fs_files w)(?name \<mapsto> []), fs_fds := (fs_fds w)(?fd := None)\<rparr>"
  have q: "fs_calls w = []" "fs_transfers w = []" "0 \<le> ?fd" "0 \<le> fs_free_fd ?w1"
    using assms(1) fs_free_fd_nonneg [of w] fs_free_fd_nonneg [of ?w1] by (simp_all add: quiet_def)
  obtain f w' where "CLogFile_new raw path w = (f, w')" by (cases "CLogFile_new raw path w")
  moreover from this have "log_open f w' (bytes_at (clf_fhd f) 0 512)" "ph_file_name (clf_file f) = ?name"
    using q assms(2) by (auto simp: CLogFile_new_def Let_def fs_run_defs update_log_fhd_def log_open_def CLOG_BLOCK_SIZE_def bytes_at_def)
  ultimately show thesis using that by (simp add: CLogManager_new_def bytes_at_def)
qed

lemma CLogManager_new_open:
  assumes "quiet w" "fs_files w (path @ ''/clog'') = Some bs"
  obtains f w' where "CLogManager_new raw path lsn w = (\<lparr>cm_buffer = CLogBuffer_new, cm_file = f, cm_mtr = mtr_new, cm_lsn = lsn\<rparr>, w')"
    "log_open f w' bs"
proof -
  have q: "fs_calls w = []" "fs_transfers w = []" "0 \<le> fs_free_fd w" using assms(1) fs_free_fd_nonneg [of w] by (simp_all add: quiet_def)
  obtain f w' where "CLogFile_new raw path w = (f, w')" by (cases "CLogFile_new raw path w")
  moreover from this have "log_open f w' bs"
    using q assms(2) by (auto simp: CLogFile_new_def Let_def fs_run_defs log_open_def)
  ultimately show thesis using that by (simp add: CLogManager_new_def)
qed

section \<open>Crash and recovery\<close>

definition is_redo :: "CLogRecord \<Rightarrow> bool" where
  "is_redo r \<longleftrightarrow> rec_flag r \<noteq> code_CLogType REDO_MTR_BEGIN \<and> rec_flag r \<noteq> code_CLogType REDO_MTR_COMMIT"

definition commits :: "int \<Rightarrow> CLogRecord list \<Rightarrow> bool" where
  "commits t rs \<longleftrightarrow> (\<exists>r\<in>set rs. rec_flag r = code_CLogType REDO_MTR_COMMIT \<and> get_trx_id r = t)"

lemma log_record_manage_fold:
  "log_redo_list (fold log_record_manage rs g) = log_redo_list g @ filter is_redo rs"
  "trx_commited (fold log_record_manage rs g) t = Some True \<longleftrightarrow> trx_commited g t = Some True \<or> commits t rs"
  by (induction rs arbitrary: g) (auto simp: log_record_manage_def is_redo_def commits_def)

lemma same_records:
  assumes "list_all2 same_record rs rs'"
  shows "list_all2 same_record (filter is_redo rs) (filter is_redo rs')" "commits t rs \<longleftrightarrow> commits t rs'"
  using assms by (induction rule: list_all2_induct) (auto simp: same_record_def is_redo_def commits_def)

text \<open>The system after a crash: the files are kept, no file is open.\<close>

definition rebooted :: "FileSys \<Rightarrow> FileSys \<Rightarrow> bool" where
  "rebooted w w' \<longleftrightarrow> fs_files w' = fs_files w \<and> fs_fds w' = Map.empty \<and> fs_calls w' = [] \<and> fs_transfers w' = []"

text \<open>
  C1. A crash loses nothing that was flushed.  Let the records of a well-formed log be appended to a new log
  and the buffer be flushed, where no system call fails, the last block of the log has room left and the log is shorter than a gigabyte.
  Then every append and the flush work, and when the system is started again, opening the log and recovering it
  succeeds: the manager has exactly the inserts, updates and deletes of the log, in order and with their contents, and
  exactly the transactions with a commit record are marked as committed.
\<close>

theorem redo_log_recovers:
  assumes "log_ok rs" "length (stream rs) mod 504 \<noteq> 0" "length (stream rs) < 2 ^ 30"
    and "quiet w" "fs_files w (path @ ''/clog'') = None" "CLogManager_new raw path lsn w = (cm, w0)"
  shows "\<exists>cm1 w1 cm2 w2. append_all rs cm w0 = Some (cm1, w1) \<and> clog_sync cm1 w1 = (SUCCESS, cm2, w2) \<and>
    (\<forall>w3 raw' lsn' cm3 w4. rebooted w2 w3 \<and> CLogManager_new raw' path lsn' w3 = (cm3, w4) \<longrightarrow>
       (\<exists>cm5 w5. clog_recover u redo cm3 w4 = Some (SUCCESS, cm5, w5) \<and>
          list_all2 same_record (filter is_redo rs) (log_redo_list (cm_mtr cm5)) \<and>
          (\<forall>t. trx_commited (cm_mtr cm5) t = Some True \<longleftrightarrow> commits t rs)))"
proof -
  obtain f bs where new: "cm = \<lparr>cm_buffer = CLogBuffer_new, cm_file = f, cm_mtr = mtr_new, cm_lsn = lsn\<rparr>" "log_open f w0 bs" "length bs = 512"
      "ph_file_name (clf_file f) = path @ ''/clog''"
    using assms(6) by (rule_tac CLogManager_new_create [OF assms(4,5), of raw lsn]) auto
  have "log_inv (map rec_len rs) (stream rs) (length (stream [])) cm w0"
    using new(2,3) unfolding log_inv_def new(1)
    by (intro exI [of _ 0] exI [of _ bs]) (simp add: buf_inv_def file_inv_def CLogBuffer_new_def)
  from append_all_inv [OF assms(1,3) _ this, of rs] obtain c1 w1 where a: "append_all rs cm w0 = Some (cm\<lparr>cm_buffer := c1\<rparr>, w1)"
      "log_inv (map rec_len rs) (stream rs) (length (stream rs)) (cm\<lparr>cm_buffer := c1\<rparr>) w1" by auto
  from clog_sync_file [OF a(2) assms(1-3)] obtain c2 w2 bs2 where s: "clog_sync (cm\<lparr>cm_buffer := c1\<rparr>) w1 = (SUCCESS, cm\<lparr>cm_buffer := c2\<rparr>, w2)"
      "log_open f w2 bs2" "log_file rs bs2" using new(1) by auto
  have "\<exists>cm5 w5. clog_recover u redo cm3 w4 = Some (SUCCESS, cm5, w5) \<and> list_all2 same_record (filter is_redo rs) (log_redo_list (cm_mtr cm5)) \<and>
      (\<forall>t. trx_commited (cm_mtr cm5) t = Some True \<longleftrightarrow> commits t rs)"
    if re: "rebooted w2 w3" "CLogManager_new raw' path lsn' w3 = (cm3, w4)" for w3 raw' lsn' cm3 w4
  proof -
    have "quiet w3" "fs_files w3 (path @ ''/clog'') = Some bs2" using re(1) s(2) new(4) by (simp_all add: rebooted_def quiet_def log_open_def)
    then obtain f3 where f3: "cm3 = \<lparr>cm_buffer = CLogBuffer_new, cm_file = f3, cm_mtr = mtr_new, cm_lsn = lsn'\<rparr>" "log_open f3 w4 bs2"
      using re(2) by (rule_tac CLogManager_new_open [of w3 path bs2 raw' lsn']) auto
    from clf_recover_log [OF s(3) f3(2), of u redo mtr_new CLogBuffer_new lsn'] obtain rs' c' lsn2 w5 where
      "clf_recover u redo f3 mtr_new CLogBuffer_new lsn' w4 = Some (SUCCESS, fold log_record_manage rs' mtr_new, c', lsn2, w5)" "list_all2 same_record rs rs'" by blast
    then show ?thesis using f3(1) same_records log_record_manage_fold [of rs' mtr_new] by (auto simp: clog_recover_def mtr_new_def)
  qed
  then show ?thesis using a(1) s(1) by (intro exI [of _ "cm\<lparr>cm_buffer := c1\<rparr>"] exI [of _ w1] exI [of _ "cm\<lparr>cm_buffer := c2\<rparr>"] exI [of _ w2]) blast
qed

text \<open>A transaction that deletes one record of a table.\<close>

definition demo_log :: "CLogRecord list" where
  "demo_log =
     [\<lparr>rec_flag = 1, log_rec = put_header 0 7 1 16 (\<lambda>_. 0), rec_data = (\<lambda>_. 0)\<rparr>,
      \<lparr>rec_flag = 5, log_rec = put_header 16 7 5 44 (\<lambda>i. if i = 16 then 116 else 0), rec_data = (\<lambda>_. 0)\<rparr>,
      \<lparr>rec_flag = 2, log_rec = put_header 60 7 2 16 (\<lambda>_. 0), rec_data = (\<lambda>_. 0)\<rparr>]"

definition demo_fs :: FileSys where
  "demo_fs = \<lparr>fs_files = Map.empty, fs_fds = Map.empty, fs_calls = [], fs_transfers = []\<rparr>"

lemma demo_log_lens: "map get_logrec_len demo_log = [16, 44, 16]" "map rec_len demo_log = [16, 44, 16]" "length (stream demo_log) = 76"
  by (simp_all add: demo_log_def rec_len_def get_logrec_len_def put_header_loads)

lemma demo_log_ok: "log_ok demo_log"
proof -
  have "named [116] (put_header 16 7 5 44 (\<lambda>i. if i = 16 then 116 else 0))"
    by (simp add: named_def TABLE_NAME_MAX_LEN_def put_header_loads)
  then have "\<forall>r\<in>set demo_log. rec_ok r \<and> get_logrec_len r \<le> 4096"
    by (auto simp: demo_log_def rec_ok_def get_logrec_len_def put_header_loads has_data_def)
  then show ?thesis by (simp add: log_ok_def demo_log_lens)
qed

theorem redo_log_recovers_witness:
  "\<exists>cm w0 cm1 w1 cm2 w2 cm3 w4 cm5 w5 r. CLogManager_new (\<lambda>_. 0) ''db'' 0 demo_fs = (cm, w0) \<and> append_all demo_log cm w0 = Some (cm1, w1) \<and>
     clog_sync cm1 w1 = (SUCCESS, cm2, w2) \<and> CLogManager_new (\<lambda>_. 0) ''db'' 0 (demo_fs\<lparr>fs_files := fs_files w2\<rparr>) = (cm3, w4) \<and>
     clog_recover (\<lambda>_. 0, \<lambda>_. 0) (\<lambda>_. 0) cm3 w4 = Some (SUCCESS, cm5, w5) \<and> log_redo_list (cm_mtr cm5) = [r] \<and> same_record (demo_log ! 1) r \<and>
     trx_commited (cm_mtr cm5) 7 = Some True \<and> trx_commited (cm_mtr cm5) 8 \<noteq> Some True"
proof -
  obtain cm w0 where cm: "CLogManager_new (\<lambda>_. 0) ''db'' 0 demo_fs = (cm, w0)" by (cases "CLogManager_new (\<lambda>_. 0) ''db'' 0 demo_fs")
  have "quiet demo_fs" "fs_files demo_fs (''db'' @ ''/clog'') = None" by (simp_all add: quiet_def demo_fs_def)
  from redo_log_recovers [OF demo_log_ok _ _ this cm, of "(\<lambda>_. 0, \<lambda>_. 0)" "\<lambda>_. 0"] obtain cm1 w1 cm2 w2 where
    r: "append_all demo_log cm w0 = Some (cm1, w1)" "clog_sync cm1 w1 = (SUCCESS, cm2, w2)"
    "\<And>w3 raw' lsn' cm3 w4. rebooted w2 w3 \<Longrightarrow> CLogManager_new raw' ''db'' lsn' w3 = (cm3, w4) \<Longrightarrow>
       \<exists>cm5 w5. clog_recover (\<lambda>_. 0, \<lambda>_. 0) (\<lambda>_. 0) cm3 w4 = Some (SUCCESS, cm5, w5) \<and>
          list_all2 same_record (filter is_redo demo_log) (log_redo_list (cm_mtr cm5)) \<and>
          (\<forall>t. trx_commited (cm_mtr cm5) t = Some True \<longleftrightarrow> commits t demo_log)"
    unfolding demo_log_lens(3) by auto
  obtain cm3 w4 where new: "CLogManager_new (\<lambda>_. 0) ''db'' 0 (demo_fs\<lparr>fs_files := fs_files w2\<rparr>) = (cm3, w4)"
    by (cases "CLogManager_new (\<lambda>_. 0) ''db'' 0 (demo_fs\<lparr>fs_files := fs_files w2\<rparr>)")
  have "rebooted w2 (demo_fs\<lparr>fs_files := fs_files w2\<rparr>)" by (simp add: rebooted_def demo_fs_def)
  from r(3) [OF this new] obtain cm5 w5 where rec: "clog_recover (\<lambda>_. 0, \<lambda>_. 0) (\<lambda>_. 0) cm3 w4 = Some (SUCCESS, cm5, w5)"
    "list_all2 same_record (filter is_redo demo_log) (log_redo_list (cm_mtr cm5))" "\<forall>t. trx_commited (cm_mtr cm5) t = Some True \<longleftrightarrow> commits t demo_log" by blast
  have "filter is_redo demo_log = [demo_log ! 1]" "commits 7 demo_log" "\<not> commits 8 demo_log"
    by (simp_all add: demo_log_def is_redo_def commits_def get_trx_id_def put_header_loads)
  then show ?thesis using cm r(1,2) new rec by (auto simp: list_all2_Cons1)
qed

end
