(* ===== verification/Ob_Parse.thy ===== *)
theory Ob_Parse
  imports Ob_Comparator "HOL-Library.Signed_Division"
begin

text \<open>
  The parse tree (\<open>src/src/observer/sql/parser/parse_defs.h\<close> and \<open>parse.cpp\<close>): its structures, the functions with which the
  generated parser builds them, and the copies.  A pointer to a structure is the structure itself, a null
  pointer \<open>None\<close>; an array with its counter is the list of its used elements, and writing behind the
  end of an array is the result \<open>None\<close>.  The functions that only free memory are left out.
\<close>

definition MAX_NUM :: nat where "MAX_NUM = 20"

section \<open>Numbers and dates as text\<close>

definition digit_char :: "nat \<Rightarrow> char" where
  "digit_char d = char_of (48 + d)"

fun dec :: "nat \<Rightarrow> string" where
  "dec n = (if n < 10 then [digit_char n] else dec (n div 10) @ [digit_char (n mod 10)])"

declare dec.simps [simp del]

text \<open>\<^verbatim>\<open>std::to_string\<close> and the format \<^verbatim>\<open>%d\<close>.\<close>

definition dec_int :: "int \<Rightarrow> string" where
  "dec_int v = (if v < 0 then CHR ''-'' # dec (nat (- v)) else dec (nat v))"

definition pad2 :: "string \<Rightarrow> string" where
  "pad2 s = (if length s = 1 then CHR ''0'' # s else s)"

text \<open>\<^verbatim>\<open>date2string\<close> of \<open>util.cpp\<close>: the text of a date.\<close>

definition date_text :: "int \<Rightarrow> string" where
  "date_text v = dec_int (v sdiv 10000) @ ''-'' @ pad2 (dec_int ((v smod 10000) sdiv 100)) @ ''-'' @ pad2 (dec_int (v smod 100))"

text \<open>The parts that \<^verbatim>\<open>strtok\<close> yields for the delimiters minus and quote.\<close>

definition date_delim :: "char \<Rightarrow> bool" where
  "date_delim c \<longleftrightarrow> c = CHR ''-'' \<or> c = CHR 0x27"

fun tokens_from :: "string \<Rightarrow> string \<Rightarrow> string list" where
  "tokens_from acc [] = (if acc = [] then [] else [rev acc])"
| "tokens_from acc (c # cs) =
     (if date_delim c then (if acc = [] then tokens_from [] cs else rev acc # tokens_from [] cs) else tokens_from (c # acc) cs)"

text \<open>\<^verbatim>\<open>date2string\<close> of \<open>parse.cpp\<close>: the digits of a date, in a buffer of nine bytes.\<close>

definition date_digits :: "string \<Rightarrow> string option" where
  "date_digits v = (case tokens_from [] v of
      y # m # d # _ \<Rightarrow>
        let pad = (\<lambda>s. if length s < 2 then CHR ''0'' # s else s); s = y @ pad m @ pad d in
        if length s < 9 then Some s else None
    | _ \<Rightarrow> None)"

definition is_digit_char :: "char \<Rightarrow> bool" where
  "is_digit_char c \<longleftrightarrow> 48 \<le> (of_char c :: nat) \<and> (of_char c :: nat) \<le> 57"

definition dec_value :: "string \<Rightarrow> int" where
  "dec_value s = foldl (\<lambda>v c. 10 * v + (int (of_char c) - 48)) 0 s"

text \<open>\<^verbatim>\<open>atoi\<close>; a value beyond the range of \<^verbatim>\<open>int\<close> is undefined.\<close>

definition atoi :: "string \<Rightarrow> int option" where
  "atoi s =
     (let s = dropWhile (\<lambda>c. of_char c \<in> {9 :: nat, 10, 11, 12, 13, 32}) s;
          (neg, s) = (case s of c # cs \<Rightarrow> if c = CHR ''-'' then (True, cs) else if c = CHR ''+'' then (False, cs) else (False, s) | [] \<Rightarrow> (False, []));
          v = dec_value (takeWhile is_digit_char s);
          v = (if neg then - v else v) in
      if - (2 ^ 31) \<le> v \<and> v < 2 ^ 31 then Some v else None)"

section \<open>Values\<close>

record Value =
  val_type :: AttrType
  val_data :: "mem option"

definition int_mem :: "int \<Rightarrow> mem" where
  "int_mem v = store_int (\<lambda>_. 0) 0 v"

definition string_mem :: "string \<Rightarrow> mem" where
  "string_mem s = (\<lambda>i. if i < length s then of_char (s ! i) else 0)"

definition value_init_integer :: "int \<Rightarrow> Value" where
  "value_init_integer v = \<lparr>val_type = INTS, val_data = Some (int_mem v)\<rparr>"

text \<open>A \<^verbatim>\<open>float\<close> is given by its bits.\<close>

definition value_init_float :: "int \<Rightarrow> Value" where
  "value_init_float bits = \<lparr>val_type = FLOATS, val_data = Some (int_mem bits)\<rparr>"

definition value_init_string :: "string \<Rightarrow> Value" where
  "value_init_string v = \<lparr>val_type = CHARS, val_data = Some (string_mem v)\<rparr>"

definition value_init_null :: Value where
  "value_init_null = \<lparr>val_type = NULLS, val_data = None\<rparr>"

definition value_init_date :: "string \<Rightarrow> Value option" where
  "value_init_date v = do {
     s \<leftarrow> date_digits v;
     date \<leftarrow> atoi s;
     Some \<lparr>val_type = DATES, val_data = Some (int_mem date)\<rparr>
   }"

definition value_destroy :: "Value \<Rightarrow> Value" where
  "value_destroy v = \<lparr>val_type = UNDEFINED, val_data = None\<rparr>"

section \<open>Expressions\<close>

datatype ExprOp = OP_ADD | OP_SUB | OP_MUL | OP_DIV | OP_MOD

text \<open>An expression has an alias and the flag for brackets beside its node.\<close>

datatype Expr = Expr (expr_alias: "string option") (isBracketed: bool) (expr_node: ExprNode)
and ExprNode =
    BinaryExpr Expr Expr ExprOp
  | UnaryExpr ExprOp Expr
  | ConstExpr AttrType string
  | FuncExpr string "Expr list"
  | FieldExpression "string option" string
  | ListExpr "Value list"
  | SelectExpr Selects
and Condition = Condition (cond_left: "Expr option") (cond_comp: CompOp) (cond_right: "Expr option") (leftChild: int) (rightChild: int)
and OrderExpression = OrderExpression (is_asc: bool) (order_id: "Expr option")
and InnerJoinNode = InnerJoinNode (join_left: "InnerJoinNode option") (join_alias: "string option") (join_table: string) (join_conditions: "Condition list")
and Selects = Selects (sel_expressions: "Expr list") (sel_joins: "InnerJoinNode list") (sel_conditions: "Condition list")
    (sel_group_by: "Expr list") (sel_having: "Condition list") (sel_order: "OrderExpression list")

definition generate_binary_expr_ptr :: "Expr \<Rightarrow> Expr \<Rightarrow> ExprOp \<Rightarrow> Expr" where
  "generate_binary_expr_ptr left right op = Expr None False (BinaryExpr left right op)"

definition generate_unary_expr_ptr :: "Expr \<Rightarrow> ExprOp \<Rightarrow> Expr" where
  "generate_unary_expr_ptr subExpr op = Expr None False (UnaryExpr op subExpr)"

definition generate_const_expr_ptr :: "string \<Rightarrow> AttrType \<Rightarrow> Expr" where
  "generate_const_expr_ptr dat attrType = Expr None False (ConstExpr attrType dat)"

definition generate_id_expr_ptr :: "string option \<Rightarrow> string \<Rightarrow> Expr" where
  "generate_id_expr_ptr table_name attr_name = Expr None False (FieldExpression table_name attr_name)"

text \<open>The parameters arrive in the reverse order and are turned round.\<close>

definition generate_func_expr_ptr :: "string \<Rightarrow> Expr list \<Rightarrow> Expr" where
  "generate_func_expr_ptr funcName para_list = Expr None False (FuncExpr funcName (rev para_list))"

definition generate_list_expr_ptr :: "Value list \<Rightarrow> Expr option" where
  "generate_list_expr_ptr vals = (if length vals \<le> MAX_NUM then Some (Expr None True (ListExpr vals)) else None)"

definition setBracketed :: "bool \<Rightarrow> Expr \<Rightarrow> Expr" where
  "setBracketed flag e = Expr (expr_alias e) flag (expr_node e)"

definition set_alias :: "string \<Rightarrow> Expr \<Rightarrow> Expr" where
  "set_alias alias e = Expr (Some alias) (isBracketed e) (expr_node e)"

section \<open>Copies\<close>

fun joinnode_copy :: "InnerJoinNode \<Rightarrow> InnerJoinNode" where
  "joinnode_copy (InnerJoinNode l a t cs) = InnerJoinNode (map_option joinnode_copy l) a t cs"

text \<open>The operands of a copied operator are shared, the parameters of a copied function are turned round again.\<close>

fun expr_copy :: "Expr \<Rightarrow> Expr"
and selects_copy :: "Selects \<Rightarrow> Selects"
and condition_copy :: "Condition \<Rightarrow> Condition"
and order_copy :: "OrderExpression \<Rightarrow> OrderExpression" where
  "expr_copy (Expr alias b n) = Expr alias b (case n of
      FuncExpr f es \<Rightarrow> FuncExpr f (rev es)
    | SelectExpr s \<Rightarrow> SelectExpr (selects_copy s)
    | _ \<Rightarrow> n)"
| "selects_copy (Selects es js cs gs hs os) =
     Selects (map expr_copy es) (map joinnode_copy js) (map condition_copy cs) (map expr_copy gs) (map condition_copy hs) (map order_copy os)"
| "condition_copy (Condition l c r lc rc) = Condition (map_option expr_copy l) c (map_option expr_copy r) lc rc"
| "order_copy (OrderExpression a e) = OrderExpression a (map_option expr_copy e)"

definition generate_subquery_expr_ptr :: "Selects \<Rightarrow> Expr" where
  "generate_subquery_expr_ptr s = Expr None True (SelectExpr (selects_copy s))"

section \<open>Building statements\<close>

text \<open>The counters are those of the parser; the arrays of the statement are not checked for their size where the code has no check.\<close>

definition push :: "'a \<Rightarrow> 'a list \<Rightarrow> 'a list option" where
  "push x xs = (if length xs < MAX_NUM then Some (xs @ [x]) else None)"

definition fits :: "'a list \<Rightarrow> 'a list option" where
  "fits xs = (if length xs \<le> MAX_NUM then Some xs else None)"

fun selects_append_expression :: "Expr \<Rightarrow> Selects \<Rightarrow> Selects option" where
  "selects_append_expression e (Selects es js cs gs hs os) = do { es \<leftarrow> push e es; Some (Selects es js cs gs hs os) }"

fun selects_append_join_node :: "InnerJoinNode \<Rightarrow> Selects \<Rightarrow> Selects option" where
  "selects_append_join_node j (Selects es js cs gs hs os) = do { js \<leftarrow> push j js; Some (Selects es js cs gs hs os) }"

fun select_append_group_by_element :: "Expr \<Rightarrow> Selects \<Rightarrow> Selects option" where
  "select_append_group_by_element e (Selects es js cs gs hs os) = do { gs \<leftarrow> push e gs; Some (Selects es js cs gs hs os) }"

fun selects_append_conditions :: "Condition list \<Rightarrow> Selects \<Rightarrow> Selects option" where
  "selects_append_conditions cs' (Selects es js cs gs hs os) = do { cs \<leftarrow> fits cs'; Some (Selects es js cs gs hs os) }"

fun selects_append_having :: "Condition list \<Rightarrow> Selects \<Rightarrow> Selects option" where
  "selects_append_having hs' (Selects es js cs gs hs os) = do { hs \<leftarrow> fits hs'; Some (Selects es js cs gs hs os) }"

fun selects_append_order :: "OrderExpression list \<Rightarrow> Selects \<Rightarrow> Selects option" where
  "selects_append_order os' (Selects es js cs gs hs os) = do { os \<leftarrow> fits os'; Some (Selects es js cs gs hs os) }"

definition selects_destroy :: "Selects \<Rightarrow> Selects" where
  "selects_destroy s = Selects [] [] [] [] [] []"

definition condition_init :: "CompOp \<Rightarrow> Expr option \<Rightarrow> Expr option \<Rightarrow> int \<Rightarrow> int \<Rightarrow> Condition" where
  "condition_init op left right lc rc = Condition left op right lc rc"

definition order_init :: "Expr option \<Rightarrow> bool \<Rightarrow> OrderExpression" where
  "order_init id' asc = OrderExpression asc id'"

definition make_join_node :: "string \<Rightarrow> Condition list \<Rightarrow> InnerJoinNode option" where
  "make_join_node rightTable cs = do { cs \<leftarrow> fits cs; Some (InnerJoinNode None None rightTable cs) }"

fun set_join_node_left :: "InnerJoinNode option \<Rightarrow> InnerJoinNode \<Rightarrow> InnerJoinNode" where
  "set_join_node_left left (InnerJoinNode l a t cs) = InnerJoinNode (case l of None \<Rightarrow> left | Some n \<Rightarrow> Some (set_join_node_left left n)) a t cs"

definition JoinNodeSetAlias :: "string \<Rightarrow> InnerJoinNode \<Rightarrow> InnerJoinNode" where
  "JoinNodeSetAlias alias n = InnerJoinNode (join_left n) (Some alias) (join_table n) (join_conditions n)"

text \<open>The rows of an insert lie in one array; \<open>ins_offset\<close> has the end of each row.\<close>

record Inserts =
  ins_relation :: string
  ins_offset :: "nat list"
  ins_values :: "Value list"

definition inserts_init :: "string \<Rightarrow> Inserts" where
  "inserts_init relation_name = \<lparr>ins_relation = relation_name, ins_offset = [], ins_values = []\<rparr>"

definition inserts_add :: "Value list \<Rightarrow> Inserts \<Rightarrow> Inserts option" where
  "inserts_add vs ins =
     (let offset = (if ins_offset ins = [] then 0 else last (ins_offset ins)) in
      if offset + length vs > MAX_NUM * MAX_NUM then None
      else do {
        offs \<leftarrow> push (offset + length vs) (ins_offset ins);
        Some (ins\<lparr>ins_offset := offs, ins_values := take offset (ins_values ins) @ vs @ drop (offset + length vs) (ins_values ins)\<rparr>)
      })"

record Deletes =
  del_relation :: string
  del_conditions :: "Condition list"

definition deletes_init_relation :: "string \<Rightarrow> Deletes" where
  "deletes_init_relation relation_name = \<lparr>del_relation = relation_name, del_conditions = []\<rparr>"

definition deletes_set_conditions :: "Condition list \<Rightarrow> Deletes \<Rightarrow> Deletes option" where
  "deletes_set_conditions cs d = do { cs \<leftarrow> fits cs; Some (d\<lparr>del_conditions := cs\<rparr>) }"

record Updates =
  upd_relation :: string
  upd_conditions :: "Condition list"
  upd_values :: "(string \<times> (Value + Selects)) list"

definition updates_init :: "string \<Rightarrow> Condition list \<Rightarrow> Updates \<Rightarrow> Updates option" where
  "updates_init relation_name cs u = do { cs \<leftarrow> fits cs; Some (u\<lparr>upd_relation := relation_name, upd_conditions := cs\<rparr>) }"

definition updates_append_value_pair :: "string \<Rightarrow> Value \<Rightarrow> Updates \<Rightarrow> Updates option" where
  "updates_append_value_pair attribute_name v u = do { vs \<leftarrow> push (attribute_name, Inl v) (upd_values u); Some (u\<lparr>upd_values := vs\<rparr>) }"

definition updates_append_select_pair :: "string \<Rightarrow> Selects \<Rightarrow> Updates \<Rightarrow> Updates option" where
  "updates_append_select_pair attribute_name s u = do { vs \<leftarrow> push (attribute_name, Inr (selects_copy s)) (upd_values u); Some (u\<lparr>upd_values := vs\<rparr>) }"

record AttrInfo =
  ai_name :: "string option"
  ai_type :: AttrType
  ai_length :: int
  ai_nullable :: bool

definition attr_info_init :: "string \<Rightarrow> AttrType \<Rightarrow> int \<Rightarrow> bool \<Rightarrow> AttrInfo" where
  "attr_info_init name type len nullable = \<lparr>ai_name = Some name, ai_type = type, ai_length = len, ai_nullable = nullable\<rparr>"

definition create_table_append_attribute :: "AttrInfo \<Rightarrow> string \<times> AttrInfo list \<Rightarrow> (string \<times> AttrInfo list) option" where
  "create_table_append_attribute a t = do { as \<leftarrow> push a (snd t); Some (fst t, as) }"

record CreateIndex =
  ci_index :: string
  ci_relation :: string
  ci_attributes :: "string list"
  ci_unique :: int

definition create_index_init :: "string \<Rightarrow> string \<Rightarrow> int \<Rightarrow> CreateIndex \<Rightarrow> CreateIndex" where
  "create_index_init index_name relation_name unique c = c\<lparr>ci_index := index_name, ci_relation := relation_name, ci_unique := unique\<rparr>"

definition create_index_append_attribute :: "string \<Rightarrow> CreateIndex \<Rightarrow> CreateIndex option" where
  "create_index_append_attribute attr_name c = do { as \<leftarrow> push attr_name (ci_attributes c); Some (c\<lparr>ci_attributes := as\<rparr>) }"

text \<open>Quotes round the file name are removed; an empty name is read before its start.\<close>

definition is_quote :: "char \<Rightarrow> bool" where
  "is_quote c \<longleftrightarrow> c = CHR 0x27 \<or> c = CHR 0x22"

definition load_data_file :: "string \<Rightarrow> string option" where
  "load_data_file name =
     (let name = (case name of c # cs \<Rightarrow> if is_quote c then cs else name | [] \<Rightarrow> []) in
      if name = [] then None else Some (if is_quote (last name) then butlast name else name))"

end
