(* ===== verification/Ob_ParseProps.thy ===== *)
theory Ob_ParseProps
  imports Ob_Parse
begin

text \<open>
  Correctness of the parse tree: dates survive printing and parsing, the rows of an insert statement can be told
  apart, and what a copy of a statement changes.
\<close>

section \<open>Decimal numbers\<close>

lemma digit_char_code: "d < 10 \<Longrightarrow> of_char (digit_char d) = (48 + d :: nat)"
  by (simp add: digit_char_def of_char_of take_bit_eq_mod)

lemma is_digit_digit_char: "d < 10 \<Longrightarrow> is_digit_char (digit_char d)"
  by (simp add: is_digit_char_def digit_char_code)

lemma dec_digits: "list_all is_digit_char (dec n)"
  by (induction n rule: dec.induct) (subst dec.simps, simp add: is_digit_digit_char)

lemma dec_ne: "dec n \<noteq> []"
  by (subst dec.simps) simp

lemma dec_value_snoc: "dec_value (s @ [c]) = 10 * dec_value s + (int (of_char c) - 48)"
  by (simp add: dec_value_def)

lemma dec_value_dec: "dec_value (dec n) = int n"
proof (induction n rule: dec.induct)
  case (1 n)
  show ?case
  proof (cases "n < 10")
    case True
    then show ?thesis by (subst dec.simps) (simp add: dec_value_def digit_char_code)
  next
    case False
    then have "dec_value (dec n) = 10 * int (n div 10) + int (n mod 10)"
      using 1 by (subst dec.simps) (simp add: dec_value_snoc digit_char_code)
    then show ?thesis by (simp add: zdiv_int zmod_int)
  qed
qed

lemma dec_value_append: "dec_value (s @ t) = dec_value s * 10 ^ length t + dec_value t"
  by (induction t rule: rev_induct) (simp_all add: dec_value_snoc flip: append_assoc, simp_all add: dec_value_def algebra_simps)

lemma length_dec: "n < 10 ^ Suc k \<Longrightarrow> length (dec n) \<le> Suc k"
proof (induction k arbitrary: n)
  case 0
  then show ?case by (subst dec.simps) simp
next
  case (Suc k)
  have "n div 10 < 10 ^ Suc k" using Suc.prems by (simp add: div_less_iff_less_mult)
  then show ?case using Suc.IH [of "n div 10"] by (subst dec.simps) simp
qed

lemma pad2_dec:
  assumes "n < 100"
  shows "length (pad2 (dec n)) = 2" "dec_value (pad2 (dec n)) = int n" "list_all is_digit_char (pad2 (dec n))"
proof -
  have l: "length (dec n) \<le> 2" "length (dec n) \<noteq> 0" using length_dec [of n 1] assms dec_ne by simp_all
  then have "length (dec n) = 1 \<or> length (dec n) = 2" by linarith
  then show "length (pad2 (dec n)) = 2" by (auto simp: pad2_def)
  have z: "dec_value (CHR ''0'' # s) = dec_value s" for s
  proof -
    have "dec_value ''0'' = 0" by (simp add: dec_value_def)
    then show ?thesis using dec_value_append [of "''0''" s] by simp
  qed
  show "dec_value (pad2 (dec n)) = int n" by (simp add: pad2_def z dec_value_dec)
  show "list_all is_digit_char (pad2 (dec n))" using dec_digits by (simp add: pad2_def is_digit_char_def)
qed

section \<open>Dates\<close>

lemma digit_no_delim: "is_digit_char c \<Longrightarrow> \<not> date_delim c"
  by (auto simp: is_digit_char_def date_delim_def)

lemma tokens_word:
  "list_all is_digit_char w \<Longrightarrow> tokens_from acc (w @ s) = tokens_from (rev w @ acc) s"
  by (induction w arbitrary: acc) (auto simp: digit_no_delim)

lemma tokens_date:
  assumes "list_all is_digit_char y" "list_all is_digit_char m" "list_all is_digit_char d" "y \<noteq> []" "m \<noteq> []" "d \<noteq> []"
  shows "tokens_from [] (y @ ''-'' @ m @ ''-'' @ d) = [y, m, d]"
  using assms tokens_word [of d "[]" "[]"] by (simp add: tokens_word date_delim_def)

lemma digit_simps: "is_digit_char c \<Longrightarrow> c \<noteq> CHR ''-''" "is_digit_char c \<Longrightarrow> c \<noteq> CHR ''+''" "is_digit_char c \<Longrightarrow> (of_char c :: nat) \<notin> {9, 10, 11, 12, 13, 32}"
  by (auto simp: is_digit_char_def)

lemma atoi_digits:
  assumes "list_all is_digit_char s" "dec_value s < 2 ^ 31" "0 \<le> dec_value s"
  shows "atoi s = Some (dec_value s)"
proof -
  have tw: "takeWhile is_digit_char s = s" using assms(1) by (simp add: takeWhile_eq_all_conv list_all_iff)
  show ?thesis
  proof (cases s)
    case (Cons c cs)
    then have c: "is_digit_char c" using assms(1) by simp
    show ?thesis using digit_simps [OF c] assms(2,3) tw unfolding Cons by (simp add: atoi_def)
  qed (simp add: atoi_def dec_value_def)
qed

text \<open>
  C28. A date of at most eight digits survives being printed and parsed again: the text that the server prints for the number of
  a date is read back as the same value.
\<close>

theorem date_round_trip:
  assumes "0 \<le> v" "v < 10 ^ 8"
  shows "value_init_date (date_text v) = Some \<lparr>val_type = DATES, val_data = Some (int_mem v)\<rparr>"
proof -
  define n where "n = nat v"
  have v: "v = int n" "n < 10 ^ 8" using assms by (simp_all add: n_def)
  let ?y = "dec (n div 10000)" and ?m = "pad2 (dec (n mod 10000 div 100))" and ?d = "pad2 (dec (n mod 100))"
  have sd: "int a sdiv int b = int (a div b)" "int a smod int b = int (a mod b)" if "b \<noteq> 0" for a b
    using that by (simp_all add: signed_divide_int_def signed_modulo_int_def sgn_if zdiv_int zmod_int minus_mult_div_eq_mod flip: of_nat_mult) 
  have tx: "date_text v = ?y @ ''-'' @ ?m @ ''-'' @ ?d"
    using sd [of 10000 n] sd [of 100 "n mod 10000"] sd [of 100 n] by (simp add: date_text_def v dec_int_def)
  have lt: "n mod 10000 div 100 < 100" "n mod 100 < 100" "n div 10000 < 10 ^ Suc 3" using v(2) by (auto simp: div_less_iff_less_mult)
  note m = pad2_dec [OF lt(1)] and d = pad2_dec [OF lt(2)]
  have tok: "tokens_from [] (date_text v) = [?y, ?m, ?d]"
    unfolding tx using m d by (intro tokens_date dec_digits dec_ne) auto
  have dg: "date_digits (date_text v) = Some (?y @ ?m @ ?d)"
    unfolding date_digits_def tok using m(1) d(1) length_dec [OF lt(3)] by (simp add: Let_def)
  have "n = n div 10000 * 10000 + n mod 10000 div 100 * 100 + n mod 100"
  proof -
    have "n mod 10000 mod 100 = n mod 100" by (simp add: mod_mod_cancel)
    then show ?thesis using div_mult_mod_eq [of n 10000] div_mult_mod_eq [of "n mod 10000" 100] by linarith
  qed
  then have "dec_value (?y @ ?m @ ?d) = int n" using m(1,2) d(1,2) by (simp add: dec_value_append dec_value_dec)
  moreover have "list_all is_digit_char (?y @ ?m @ ?d)" using m(3) d(3) dec_digits by simp
  ultimately have "atoi (?y @ ?m @ ?d) = Some (int n)" using atoi_digits [of "?y @ ?m @ ?d"] v(2) by simp
  then show ?thesis using dg by (simp add: value_init_date_def v)
qed

theorem date_round_trip_witness: "value_init_date (date_text 20221001) = Some \<lparr>val_type = DATES, val_data = Some (int_mem 20221001)\<rparr>"
  by (rule date_round_trip) simp_all

section \<open>Rows\<close>

text \<open>The rows as \<^verbatim>\<open>Table::insert_record\<close> cuts them out of the array.\<close>

definition insert_row :: "Inserts \<Rightarrow> nat \<Rightarrow> Value list" where
  "insert_row ins k =
     (let left = (if k > 0 then ins_offset ins ! (k - 1) else 0) in take (ins_offset ins ! k - left) (drop left (ins_values ins)))"

fun add_rows :: "Value list list \<Rightarrow> Inserts \<Rightarrow> Inserts option" where
  "add_rows [] ins = Some ins"
| "add_rows (r # rs) ins = do { ins \<leftarrow> inserts_add r ins; add_rows rs ins }"

definition row_ends :: "Value list list \<Rightarrow> nat list" where
  "row_ends rs = map (\<lambda>k. length (concat (take (Suc k) rs))) [0..<length rs]"

lemma row_ends_snoc: "row_ends (rs @ [r]) = row_ends rs @ [length (concat rs) + length r]"
  by (simp add: row_ends_def)

lemma last_row_end: "rs \<noteq> [] \<Longrightarrow> last (row_ends rs) = length (concat rs)"
  by (induction rs rule: rev_induct) (simp_all add: row_ends_snoc)

lemma row_ends_nil [simp]: "row_ends [] = []" "row_ends rs = [] \<longleftrightarrow> rs = []" "length (row_ends rs) = length rs"
  by (simp_all add: row_ends_def)

lemma add_rows_from:
  assumes "length (ps @ rs) \<le> MAX_NUM" "length (concat (ps @ rs)) \<le> MAX_NUM * MAX_NUM" "ins_offset ins = row_ends ps" "ins_values ins = concat ps"
  shows "add_rows rs ins = Some (ins\<lparr>ins_offset := row_ends (ps @ rs), ins_values := concat (ps @ rs)\<rparr>)"
  using assms
proof (induction rs arbitrary: ps ins)
  case (Cons r rs)
  have off: "(if ins_offset ins = [] then 0 else last (ins_offset ins)) = length (concat ps)"
    using Cons.prems(3) last_row_end [of ps] by simp
  have "inserts_add r ins = Some (ins\<lparr>ins_offset := row_ends (ps @ [r]), ins_values := concat (ps @ [r])\<rparr>)"
    unfolding inserts_add_def off Let_def using Cons.prems by (simp add: push_def row_ends_snoc)
  then show ?case using Cons.IH [of "ps @ [r]" "ins\<lparr>ins_offset := row_ends (ps @ [r]), ins_values := concat (ps @ [r])\<rparr>"] Cons.prems by simp
qed simp

text \<open>
  An insert statement keeps its rows: at most 20 rows with at most 400 values altogether are accepted, and
  cutting the array of values at the recorded offsets gives the rows back, in order.
\<close>

theorem insert_rows_kept:
  assumes "length rows \<le> MAX_NUM" "length (concat rows) \<le> MAX_NUM * MAX_NUM"
  shows "\<exists>ins. add_rows rows (inserts_init name) = Some ins \<and> ins_relation ins = name \<and> length (ins_offset ins) = length rows \<and>
    (\<forall>k<length rows. insert_row ins k = rows ! k)"
proof -
  let ?ins = "\<lparr>ins_relation = name, ins_offset = row_ends rows, ins_values = concat rows\<rparr>"
  have "add_rows rows (inserts_init name) = Some ?ins"
    using add_rows_from [of "[]" rows "inserts_init name"] assms by (simp add: inserts_init_def)
  moreover have "insert_row ?ins k = rows ! k" if k: "k < length rows" for k
  proof -
    have left: "(if k > 0 then row_ends rows ! (k - 1) else 0) = length (concat (take k rows))" using k by (cases k) (simp_all add: row_ends_def)
    have "concat rows = concat (take k rows) @ rows ! k @ concat (drop (Suc k) rows)"
      using id_take_nth_drop [OF k] by (metis concat.simps(2) concat_append)
    then show ?thesis
      using k left by (simp add: insert_row_def Let_def row_ends_def take_Suc_conv_app_nth)
  qed
  ultimately show ?thesis by simp
qed

theorem insert_rows_kept_witness:
  "\<exists>ins. add_rows [[value_init_null, value_init_integer 1], [value_init_null]] (inserts_init ''t'') = Some ins \<and> insert_row ins 1 = [value_init_null]"
proof -
  have "\<exists>ins. add_rows [[value_init_null, value_init_integer 1], [value_init_null]] (inserts_init ''t'') = Some ins \<and> ins_relation ins = ''t'' \<and>
      length (ins_offset ins) = length [[value_init_null, value_init_integer 1], [value_init_null]] \<and>
      (\<forall>k<length [[value_init_null, value_init_integer 1], [value_init_null]]. insert_row ins k = [[value_init_null, value_init_integer 1], [value_init_null]] ! k)"
    by (rule insert_rows_kept) (simp_all add: MAX_NUM_def)
  then show ?thesis by (auto simp: less_Suc_eq numeral_2_eq_2)
qed

section \<open>Copies\<close>

lemma joinnode_copy_id: "joinnode_copy n = n"
  by (induction n rule: joinnode_copy.induct) (auto simp: option.map_id0 intro: option.map_ident_strong)

lemma map_joinnode_copy [simp]: "map joinnode_copy js = js"
  by (simp add: joinnode_copy_id map_idI)

lemma copy_twice:
  "expr_copy (expr_copy e) = e" "selects_copy (selects_copy s) = s" "condition_copy (condition_copy c) = c" "order_copy (order_copy q) = q"
proof (induction e and s and c and q rule: expr_copy_selects_copy_condition_copy_order_copy.induct)
  case (1 a b n)
  then show ?case by (cases n) simp_all
qed (auto simp: joinnode_copy_id option.map_comp comp_def intro!: map_idI option.map_ident_strong)

text \<open>
  Copying a select statement is not the identity: the parameters of a function that is selected come out in the reverse
  order, so a copy of a subquery calls it with exchanged parameters; copying the copy again restores the statement.
\<close>

theorem selects_copy_reverses:
  "selects_copy (selects_copy s) = s \<and>
   selects_copy (Selects [Expr a b (FuncExpr f es)] js [] [] [] []) = Selects [Expr a b (FuncExpr f (rev es))] js [] [] [] [] \<and>
   selects_copy (Selects [Expr None False (FuncExpr ''ROUND'' [Expr None False (FieldExpression None ''x''), Expr None False (ConstExpr INTS ''2'')])] [] [] [] [] []) \<noteq>
     Selects [Expr None False (FuncExpr ''ROUND'' [Expr None False (FieldExpression None ''x''), Expr None False (ConstExpr INTS ''2'')])] [] [] [] [] []"
  by (simp add: copy_twice joinnode_copy_id)

end
