(* ===== verification/Ob_Meta.thy ===== *)
theory Ob_Meta
  imports Ob_Parse
begin

text \<open>
  The metadata of tables (\<open>src/src/observer/storage/common/field_meta.cpp\<close>, \<open>index_meta.cpp\<close>, \<open>table_meta.cpp\<close> and
  \<open>meta_util.cpp\<close>): fields, indexes and their JSON form.  Printing and parsing JSON text is the work of a library and a
  parameter; JSON values are a datatype, objects with their members as an association list, with the accessors that the code uses, where the failure of a library
  assertion is \<open>None\<close>; numbers with a fraction do not occur.  Names are strings without the terminating zero.
\<close>

section \<open>Strings and names\<close>

definition isspace :: "char \<Rightarrow> bool" where
  "isspace c \<longleftrightarrow> of_char c \<in> {9 :: nat, 10, 11, 12, 13, 32}"

definition is_blank :: "string option \<Rightarrow> bool" where
  "is_blank s = (case s of None \<Rightarrow> True | Some cs \<Rightarrow> list_all isspace cs)"

definition table_meta_file :: "string \<Rightarrow> string \<Rightarrow> string" where
  "table_meta_file base_dir table_name = base_dir @ ''/'' @ table_name @ ''.table''"

definition table_data_file :: "string \<Rightarrow> string \<Rightarrow> string" where
  "table_data_file base_dir table_name = base_dir @ ''/'' @ table_name @ ''.data''"

definition table_index_file :: "string \<Rightarrow> string \<Rightarrow> string \<Rightarrow> string" where
  "table_index_file base_dir table_name index_name = base_dir @ ''/'' @ table_name @ ''-'' @ index_name @ ''.index''"

section \<open>JSON values\<close>

datatype Json = JNull | JBool bool | JInt int | JString string | JArray "Json list" | JObject "(string \<times> Json) list"

text \<open>Reading a member: a missing one is null, and only an object or null has members.\<close>

definition json_member :: "Json \<Rightarrow> string \<Rightarrow> Json option" where
  "json_member j k = (case j of JNull \<Rightarrow> Some JNull | JObject m \<Rightarrow> Some (case map_of m k of None \<Rightarrow> JNull | Some v \<Rightarrow> v) | _ \<Rightarrow> None)"

definition json_size :: "Json \<Rightarrow> nat" where
  "json_size j = (case j of JArray vs \<Rightarrow> length vs | JObject m \<Rightarrow> length m | _ \<Rightarrow> 0)"

text \<open>Reading an element of an array.\<close>

definition json_at :: "Json \<Rightarrow> nat \<Rightarrow> Json option" where
  "json_at j i = (case j of JNull \<Rightarrow> Some JNull | JArray vs \<Rightarrow> Some (if i < length vs then vs ! i else JNull) | _ \<Rightarrow> None)"

text \<open>Appending makes an array of null.\<close>

definition json_append :: "Json \<Rightarrow> Json \<Rightarrow> Json" where
  "json_append j v = (case j of JArray vs \<Rightarrow> JArray (vs @ [v]) | _ \<Rightarrow> JArray [v])"

definition json_uint :: "Json \<Rightarrow> int option" where
  "json_uint j = (case j of JNull \<Rightarrow> Some 0 | JBool b \<Rightarrow> Some (if b then 1 else 0) | JInt i \<Rightarrow> (if 0 \<le> i then Some i else None) | _ \<Rightarrow> None)"

section \<open>Fields\<close>

record FieldMeta =
  fm_name :: string
  fm_type :: AttrType
  fm_offset :: int
  fm_len :: int
  fm_nullable :: bool
  fm_visible :: bool

text \<open>The constructor leaves \<^verbatim>\<open>nullable_\<close> uninitialised; \<open>u\<close> is its value.\<close>

definition FieldMeta_new :: "bool \<Rightarrow> FieldMeta" where
  "FieldMeta_new u = \<lparr>fm_name = [], fm_type = UNDEFINED, fm_offset = - 1, fm_len = 0, fm_nullable = u, fm_visible = False\<rparr>"

text \<open>The name of type \<^verbatim>\<open>RELATIONS\<close> is read behind the end of the table.\<close>

definition attr_type_to_string :: "AttrType \<Rightarrow> string option" where
  "attr_type_to_string t = (case t of UNDEFINED \<Rightarrow> Some ''undefined'' | CHARS \<Rightarrow> Some ''chars'' | INTS \<Rightarrow> Some ''ints'' | FLOATS \<Rightarrow> Some ''floats''
     | DATES \<Rightarrow> Some ''dates'' | RELATIONS \<Rightarrow> None | NULLS \<Rightarrow> Some ''unknown'')"

definition attr_type_from_string :: "string \<Rightarrow> AttrType" where
  "attr_type_from_string s =
     (if s = ''undefined'' then UNDEFINED else if s = ''chars'' then CHARS else if s = ''ints'' then INTS
      else if s = ''floats'' then FLOATS else if s = ''dates'' then DATES else UNDEFINED)"

definition FieldMeta_init :: "string option \<Rightarrow> AttrType \<Rightarrow> int \<Rightarrow> int \<Rightarrow> bool \<Rightarrow> bool \<Rightarrow> FieldMeta \<Rightarrow> RC \<times> FieldMeta" where
  "FieldMeta_init name type offset len nullable visible f =
     (if is_blank name then (INVALID_ARGUMENT, f)
      else if type = UNDEFINED \<or> offset < 0 \<or> len \<le> 0 then (INVALID_ARGUMENT, f)
      else (SUCCESS, \<lparr>fm_name = the name, fm_type = type, fm_offset = offset, fm_len = len, fm_nullable = nullable, fm_visible = visible\<rparr>))"

definition field_to_json :: "FieldMeta \<Rightarrow> Json option" where
  "field_to_json f = do {
     t \<leftarrow> attr_type_to_string (fm_type f);
     Some (JObject [(''name'', JString (fm_name f)), (''type'', JString t), (''offset'', JInt (fm_offset f)),
       (''len'', JInt (fm_len f)), (''nullable'', JBool (fm_nullable f)), (''visible'', JBool (fm_visible f))])
   }"

text \<open>\<^verbatim>\<open>isInt\<close> accepts integers of 32 bits.\<close>

definition field_from_json :: "Json \<Rightarrow> FieldMeta \<Rightarrow> RC \<times> FieldMeta" where
  "field_from_json j f =
     (case j of
        JObject m \<Rightarrow>
          (case (map_of m ''name'', map_of m ''type'', map_of m ''offset'', map_of m ''len'', map_of m ''nullable'', map_of m ''visible'') of
             (Some (JString name), Some (JString type), Some (JInt offset), Some (JInt len), Some (JBool nullable), Some (JBool visible)) \<Rightarrow>
               if wrap32 offset \<noteq> offset \<or> wrap32 len \<noteq> len then (GENERIC_ERROR, f)
               else if attr_type_from_string type = UNDEFINED then (GENERIC_ERROR, f)
               else FieldMeta_init (Some name) (attr_type_from_string type) offset len nullable visible f
           | _ \<Rightarrow> (GENERIC_ERROR, f))
      | _ \<Rightarrow> (GENERIC_ERROR, f))"

section \<open>Indexes\<close>

record IndexMeta =
  im_name :: string
  im_fields :: "string list"
  im_unique :: int

definition IndexMeta_new :: "int \<Rightarrow> IndexMeta" where
  "IndexMeta_new u = \<lparr>im_name = [], im_fields = [], im_unique = u\<rparr>"

definition IndexMeta_init :: "string option \<Rightarrow> FieldMeta list \<Rightarrow> int \<Rightarrow> IndexMeta \<Rightarrow> RC \<times> IndexMeta" where
  "IndexMeta_init name fs unique ix =
     (if is_blank name then (INVALID_ARGUMENT, ix)
      else (SUCCESS, \<lparr>im_name = the name, im_fields = im_fields ix @ map fm_name fs, im_unique = unique\<rparr>))"

definition is_multi :: "IndexMeta \<Rightarrow> bool" where "is_multi ix \<longleftrightarrow> length (im_fields ix) > 1"
definition is_unique :: "IndexMeta \<Rightarrow> bool" where "is_unique ix \<longleftrightarrow> im_unique ix = 1"

definition index_to_json :: "IndexMeta \<Rightarrow> Json" where
  "index_to_json ix = JObject ([(''name'', JString (im_name ix)), (''unique'', JInt (wrap32 (im_unique ix)))] @
     (if im_fields ix = [] then [] else [(''field_name'', fold (\<lambda>f j. json_append j (JString f)) (im_fields ix) JNull)]))"

section \<open>Tables\<close>

record TableMeta =
  tm_name :: string
  tm_fields :: "FieldMeta list"
  tm_indexes :: "IndexMeta list"
  tm_record_size :: int

definition TableMeta_new :: TableMeta where
  "TableMeta_new = \<lparr>tm_name = [], tm_fields = [], tm_indexes = [], tm_record_size = 0\<rparr>"

text \<open>\<^verbatim>\<open>std::find_if\<close> by name.\<close>

definition field_by_name :: "string option \<Rightarrow> TableMeta \<Rightarrow> FieldMeta option" where
  "field_by_name name m = (case name of None \<Rightarrow> None | Some n \<Rightarrow> List.find (\<lambda>f. fm_name f = n) (tm_fields m))"

fun field_index_from :: "string \<Rightarrow> FieldMeta list \<Rightarrow> int \<Rightarrow> (FieldMeta \<times> int) option" where
  "field_index_from n [] i = None"
| "field_index_from n (f # fs) i = (if fm_name f = n then Some (f, i) else field_index_from n fs (i + 1))"

text \<open>The index is counted from the first field that is no system field; it is \<open>-1\<close> when there is no such field.\<close>

definition field_and_index :: "FieldMeta list \<Rightarrow> string option \<Rightarrow> TableMeta \<Rightarrow> FieldMeta option \<times> int" where
  "field_and_index sys name m = (case name of None \<Rightarrow> (None, - 1) | Some n \<Rightarrow>
     case field_index_from n (tm_fields m) (- int (length sys)) of None \<Rightarrow> (None, - 1) | Some (f, i) \<Rightarrow> (Some f, i))"

definition find_field_by_offset :: "int \<Rightarrow> TableMeta \<Rightarrow> FieldMeta option" where
  "find_field_by_offset offset m = List.find (\<lambda>f. fm_offset f = offset) (tm_fields m)"

definition trx_field :: "TableMeta \<Rightarrow> FieldMeta option" where
  "trx_field m = (if 0 < length (tm_fields m) then Some (tm_fields m ! 0) else None)"
definition null_field :: "TableMeta \<Rightarrow> FieldMeta option" where
  "null_field m = (if 1 < length (tm_fields m) then Some (tm_fields m ! 1) else None)"

definition index_by_name :: "string \<Rightarrow> TableMeta \<Rightarrow> IndexMeta option" where
  "index_by_name name m = List.find (\<lambda>ix. im_name ix = name) (tm_indexes m)"

definition find_index_by_field :: "string \<Rightarrow> TableMeta \<Rightarrow> IndexMeta option" where
  "find_index_by_field name m = List.find (\<lambda>ix. length (im_fields ix) = 1 \<and> name \<in> set (im_fields ix)) (tm_indexes m)"

definition find_index_by_fields :: "string list \<Rightarrow> TableMeta \<Rightarrow> IndexMeta option" where
  "find_index_by_fields names m =
     List.find (\<lambda>ix. length (im_fields ix) = length names \<and> list_all (\<lambda>n. n \<in> set (im_fields ix)) names) (tm_indexes m)"

definition add_index :: "IndexMeta \<Rightarrow> TableMeta \<Rightarrow> RC \<times> TableMeta" where
  "add_index ix m = (SUCCESS, m\<lparr>tm_indexes := tm_indexes m @ [ix]\<rparr>)"

definition tm_swap :: "TableMeta \<Rightarrow> TableMeta \<Rightarrow> TableMeta \<times> TableMeta" where
  "tm_swap a b = (b, a)"

text \<open>The system fields: the transaction number and the bitmap of null values.\<close>

definition init_sys_fields :: "bool \<Rightarrow> FieldMeta list \<Rightarrow> RC \<times> FieldMeta list" where
  "init_sys_fields u sys =
     (case FieldMeta_init (Some ''__trx'') INTS 0 4 False False (FieldMeta_new u) of (rc, trx) \<Rightarrow>
      if rc \<noteq> SUCCESS then (rc, sys)
      else case FieldMeta_init (Some ''null_bitmap'') INTS (fm_len trx) 4 False False (FieldMeta_new u) of (rc, nul) \<Rightarrow>
        if rc \<noteq> SUCCESS then (rc, sys) else (rc, sys @ [trx, nul]))"

text \<open>The fields are initialised in place, behind the system fields; a failure leaves those before it.\<close>

fun init_fields :: "AttrInfo list \<Rightarrow> nat \<Rightarrow> int \<Rightarrow> FieldMeta list \<Rightarrow> RC \<times> int \<times> FieldMeta list" where
  "init_fields [] i offset fs = (SUCCESS, offset, fs)"
| "init_fields (a # as) i offset fs =
     (case FieldMeta_init (ai_name a) (ai_type a) offset (wrap32 (ai_length a)) (ai_nullable a) True (fs ! i) of (rc, f) \<Rightarrow>
      if rc \<noteq> SUCCESS then (rc, offset, fs[i := f])
      else init_fields as (Suc i) (wrap32 (offset + ai_length a)) (fs[i := f]))"

definition resize :: "nat \<Rightarrow> 'a \<Rightarrow> 'a list \<Rightarrow> 'a list" where
  "resize n x xs = take n xs @ replicate (n - length xs) x"

definition TableMeta_init ::
    "bool \<Rightarrow> string option \<Rightarrow> AttrInfo list option \<Rightarrow> FieldMeta list \<Rightarrow> TableMeta \<Rightarrow> RC \<times> FieldMeta list \<times> TableMeta" where
  "TableMeta_init u name attributes sys m =
     (if is_blank name then (INVALID_ARGUMENT, sys, m)
      else case attributes of None \<Rightarrow> (INVALID_ARGUMENT, sys, m) | Some as \<Rightarrow>
        if as = [] then (INVALID_ARGUMENT, sys, m)
        else case (if sys = [] then init_sys_fields u sys else (SUCCESS, sys)) of (rc, sys) \<Rightarrow>
          if rc \<noteq> SUCCESS then (rc, sys, m)
          else
            let fs = resize (length as + length sys) (FieldMeta_new u) (tm_fields m);
                fs = sys @ drop (length sys) fs;
                offset = fm_offset (last sys) + fm_len (last sys) in
            case init_fields as (length sys) offset fs of (rc, offset, fs) \<Rightarrow>
              if rc \<noteq> SUCCESS then (rc, sys, m\<lparr>tm_fields := fs\<rparr>)
              else (SUCCESS, sys, m\<lparr>tm_fields := fs, tm_record_size := offset, tm_name := the name\<rparr>))"

definition table_to_json :: "TableMeta \<Rightarrow> Json option" where
  "table_to_json m = do {
     fs \<leftarrow> those (map field_to_json (tm_fields m));
     Some (JObject [(''table_name'', JString (tm_name m)),
       (''fields'', fold (\<lambda>v j. json_append j v) fs JNull),
       (''indexes'', fold (\<lambda>v j. json_append j v) (map index_to_json (tm_indexes m)) JNull)])
   }"

text \<open>The text and its length; \<open>write\<close> is the writer of the JSON library.\<close>

definition tm_serialize :: "(Json \<Rightarrow> string) \<Rightarrow> TableMeta \<Rightarrow> (int \<times> string) option" where
  "tm_serialize write m = do { j \<leftarrow> table_to_json m; Some (int (length (write j)), write j) }"

fun index_fields_from_json :: "TableMeta \<Rightarrow> Json \<Rightarrow> nat \<Rightarrow> nat \<Rightarrow> (RC \<times> FieldMeta list) option" where
  "index_fields_from_json m j i 0 = Some (SUCCESS, [])"
| "index_fields_from_json m j i (Suc n) = do {
     v \<leftarrow> json_at j i;
     (case v of
        JString s \<Rightarrow>
          (case field_by_name (Some s) m of
             None \<Rightarrow> Some (SCHEMA_FIELD_MISSING, [])
           | Some f \<Rightarrow> do { (rc, fs) \<leftarrow> index_fields_from_json m j (Suc i) n; Some (rc, f # fs) })
      | _ \<Rightarrow> Some (GENERIC_ERROR, []))
   }"

definition index_from_json :: "TableMeta \<Rightarrow> Json \<Rightarrow> IndexMeta \<Rightarrow> (RC \<times> IndexMeta) option" where
  "index_from_json m j ix = do {
     name \<leftarrow> json_member j ''name'';
     unique \<leftarrow> json_member j ''unique'';
     fields \<leftarrow> json_member j ''field_name'';
     (case name of
        JString n \<Rightarrow> do {
          (rc, fs) \<leftarrow> index_fields_from_json m fields 0 (json_size fields);
          if rc \<noteq> SUCCESS then Some (rc, ix)
          else do { q \<leftarrow> json_uint unique; Some (IndexMeta_init (Some n) fs q ix) }
        }
      | _ \<Rightarrow> Some (GENERIC_ERROR, ix))
   }"

fun fields_from_json :: "bool \<Rightarrow> Json list \<Rightarrow> FieldMeta list option" where
  "fields_from_json u [] = Some []"
| "fields_from_json u (j # js) =
     (case field_from_json j (FieldMeta_new u) of (rc, f) \<Rightarrow>
        if rc \<noteq> SUCCESS then None else do { fs \<leftarrow> fields_from_json u js; Some (f # fs) })"

fun indexes_from_json :: "int \<Rightarrow> TableMeta \<Rightarrow> Json list \<Rightarrow> IndexMeta list option option" where
  "indexes_from_json u m [] = Some (Some [])"
| "indexes_from_json u m (j # js) = do {
     (rc, ix) \<leftarrow> index_from_json m j (IndexMeta_new u);
     if rc \<noteq> SUCCESS then Some None
     else do { ixs \<leftarrow> indexes_from_json u m js; Some (map_option (Cons ix) ixs) }
   }"

text \<open>
  The parser is the parameter \<open>parse\<close>.  The fields are sorted by their offsets; for equal offsets the order is not
  specified by the language, and the model keeps the order of the text.  A failure in the indexes leaves the new name and fields behind.
\<close>

definition tm_deserialize ::
    "(string \<Rightarrow> Json option) \<Rightarrow> bool \<times> int \<Rightarrow> string \<Rightarrow> FieldMeta list \<Rightarrow> TableMeta \<Rightarrow> (int \<times> FieldMeta list \<times> TableMeta) option" where
  "tm_deserialize parse u text sys m =
     (let sys = (if sys = [] then snd (init_sys_fields (fst u) sys) else sys) in
      case parse text of
        None \<Rightarrow> Some (- 1, sys, m)
      | Some j \<Rightarrow> do {
          name \<leftarrow> json_member j ''table_name'';
          (case name of
             JString n \<Rightarrow> do {
               fields \<leftarrow> json_member j ''fields'';
               (case fields of
                  JArray (v # vs) \<Rightarrow>
                    (case fields_from_json (fst u) (v # vs) of
                       None \<Rightarrow> Some (- 1, sys, m)
                     | Some fs \<Rightarrow> do {
                         let fs = sort_key fm_offset fs;
                         let m = m\<lparr>tm_name := n, tm_fields := fs,
                           tm_record_size := wrap32 (fm_offset (last fs) + fm_len (last fs) - fm_offset (hd fs))\<rparr>;
                         indexes \<leftarrow> json_member j ''indexes'';
                         (case indexes of
                            JNull \<Rightarrow> Some (int (length text), sys, m)
                          | JArray [] \<Rightarrow> Some (int (length text), sys, m)
                          | JArray ixs \<Rightarrow> do {
                              r \<leftarrow> indexes_from_json (snd u) m ixs;
                              (case r of None \<Rightarrow> Some (- 1, sys, m) | Some ixs \<Rightarrow> Some (int (length text), sys, m\<lparr>tm_indexes := ixs\<rparr>))
                            }
                          | JObject [] \<Rightarrow> Some (int (length text), sys, m)
                          | _ \<Rightarrow> Some (- 1, sys, m))
                       })
                | _ \<Rightarrow> Some (- 1, sys, m))
             }
           | _ \<Rightarrow> Some (- 1, sys, m))
        })"

end
