(* ===== verification/Ob_MetaProps.thy ===== *)
theory Ob_MetaProps
  imports Ob_Meta
begin

text \<open>
  Correctness of the table metadata: the layout that a new table gets, and that writing and reading the metadata
  gives the same table.
\<close>

section \<open>Layout\<close>

definition valid_attr :: "AttrInfo \<Rightarrow> bool" where
  "valid_attr a \<longleftrightarrow> \<not> is_blank (ai_name a) \<and> ai_type a \<noteq> UNDEFINED \<and> 0 < ai_length a"

definition attr_sum :: "AttrInfo list \<Rightarrow> int" where
  "attr_sum as = sum_list (map ai_length as)"

fun layout :: "int \<Rightarrow> AttrInfo list \<Rightarrow> FieldMeta list" where
  "layout offset [] = []"
| "layout offset (a # as) =
     \<lparr>fm_name = the (ai_name a), fm_type = ai_type a, fm_offset = offset, fm_len = ai_length a, fm_nullable = ai_nullable a, fm_visible = True\<rparr>
     # layout (offset + ai_length a) as"

definition sys_fields :: "FieldMeta list" where
  "sys_fields =
     [\<lparr>fm_name = ''__trx'', fm_type = INTS, fm_offset = 0, fm_len = 4, fm_nullable = False, fm_visible = False\<rparr>,
      \<lparr>fm_name = ''null_bitmap'', fm_type = INTS, fm_offset = 4, fm_len = 4, fm_nullable = False, fm_visible = False\<rparr>]"

lemma attr_sum_simps [simp]: "attr_sum [] = 0" "attr_sum (a # as) = ai_length a + attr_sum as"
  by (simp_all add: attr_sum_def)

lemma attr_sum_nonneg: "list_all valid_attr as \<Longrightarrow> 0 \<le> attr_sum as"
  by (induction as) (auto simp: valid_attr_def)

lemma length_layout [simp]: "length (layout offset as) = length as"
  by (induction as arbitrary: offset) simp_all

lemma init_sys_fields_eq: "init_sys_fields u [] = (SUCCESS, sys_fields)"
  by (simp add: init_sys_fields_def FieldMeta_init_def is_blank_def isspace_def sys_fields_def)

lemma init_fields_layout:
  assumes "list_all valid_attr as" "0 \<le> offset" "offset + attr_sum as < 2 ^ 31" "length fs = i + length as"
  shows "init_fields as i offset fs = (SUCCESS, offset + attr_sum as, take i fs @ layout offset as)"
  using assms
proof (induction as arbitrary: i offset fs)
  case Nil
  then show ?case by simp
next
  case (Cons a as)
  have a: "valid_attr a" "list_all valid_attr as" "0 \<le> attr_sum as" using Cons.prems(1) attr_sum_nonneg by simp_all
  then have "wrap32 (ai_length a) = ai_length a" "wrap32 (offset + ai_length a) = offset + ai_length a"
    using Cons.prems(2,3) by (auto intro!: wrap32_id simp: valid_attr_def)
  then show ?case
    using a Cons.prems Cons.IH [of "offset + ai_length a" "fs[i := hd (layout offset (a # as))]" "Suc i"]
    by (simp add: FieldMeta_init_def valid_attr_def take_Suc_conv_app_nth add.assoc)
qed

text \<open>The fields in the order of their offsets, without gaps and overlaps.\<close>

fun packed :: "int \<Rightarrow> FieldMeta list \<Rightarrow> int \<Rightarrow> bool" where
  "packed offset [] e \<longleftrightarrow> offset = e"
| "packed offset (f # fs) e \<longleftrightarrow> fm_offset f = offset \<and> 0 < fm_len f \<and> packed (offset + fm_len f) fs e"

lemma packed_layout: "list_all valid_attr as \<Longrightarrow> packed offset (layout offset as) (offset + attr_sum as)"
  by (induction as arbitrary: offset) (auto simp: valid_attr_def add.assoc [symmetric])

lemma packed_le: "packed offset fs e \<Longrightarrow> offset \<le> e"
  by (induction fs arbitrary: offset) force+

lemma packed_bounds:
  assumes "packed offset fs e" "i < length fs"
  shows "offset \<le> fm_offset (fs ! i) \<and> fm_offset (fs ! i) + fm_len (fs ! i) \<le> e \<and> 0 < fm_len (fs ! i)"
  using assms
proof (induction fs arbitrary: offset i)
  case (Cons f fs)
  then have "0 < fm_len f" "packed (offset + fm_len f) fs e" by simp_all
  then show ?case using Cons.prems Cons.IH [of "offset + fm_len f" "i - 1"] packed_le [of "offset + fm_len f" fs e] by (cases i) auto
qed simp

lemma packed_apart:
  assumes "packed offset fs e" "i < j" "j < length fs"
  shows "fm_offset (fs ! i) + fm_len (fs ! i) \<le> fm_offset (fs ! j)"
  using assms
proof (induction fs arbitrary: offset i j)
  case (Cons f fs)
  then show ?case using packed_bounds [of "offset + fm_len f" fs e "j - 1"] Cons.IH [of "offset + fm_len f" "i - 1" "j - 1"] by (cases i) auto
qed simp

lemma packed_sorted:
  assumes "packed offset fs e"
  shows "sort_key fm_offset fs = fs"
proof -
  have "sorted (map fm_offset fs)"
    unfolding sorted_iff_nth_mono_less
  proof (intro allI impI)
    fix i j
    assume "i < j" "j < length (map fm_offset fs)"
    then show "map fm_offset fs ! i \<le> map fm_offset fs ! j"
      using packed_apart [OF assms, of i j] packed_bounds [OF assms, of i] by simp
  qed
  then show ?thesis by (simp add: sort_key_id_if_sorted)
qed

lemma packed_last:
  assumes "packed offset fs e" "fs \<noteq> []"
  shows "fm_offset (last fs) + fm_len (last fs) = e" "fm_offset (hd fs) = offset"
proof -
  show "fm_offset (hd fs) = offset" using assms by (cases fs) simp_all
  show "fm_offset (last fs) + fm_len (last fs) = e" using assms by (induction fs arbitrary: offset) (auto split: if_splits)
qed

lemma TableMeta_init_layout:
  assumes "\<not> is_blank (Some name)" "as \<noteq> []" "list_all valid_attr as" "8 + attr_sum as < 2 ^ 31" "sys \<in> {[], sys_fields}"
  shows "TableMeta_init u (Some name) (Some as) sys m =
    (SUCCESS, sys_fields, m\<lparr>tm_fields := sys_fields @ layout 8 as, tm_record_size := 8 + attr_sum as, tm_name := name\<rparr>)"
proof -
  have "sys_fields \<noteq> []" "fm_offset (last sys_fields) + fm_len (last sys_fields) = 8" by (simp_all add: sys_fields_def)
  then show ?thesis
    using assms by (auto simp: TableMeta_init_def init_sys_fields_eq init_fields_layout Let_def resize_def)
qed

section \<open>Writing and reading\<close>

definition field_ok :: "FieldMeta \<Rightarrow> bool" where
  "field_ok f \<longleftrightarrow> \<not> is_blank (Some (fm_name f)) \<and> fm_type f \<in> {CHARS, INTS, FLOATS, DATES} \<and>
     0 \<le> fm_offset f \<and> fm_offset f < 2 ^ 31 \<and> 0 < fm_len f \<and> fm_len f < 2 ^ 31"

definition index_ok :: "TableMeta \<Rightarrow> IndexMeta \<Rightarrow> bool" where
  "index_ok m ix \<longleftrightarrow> \<not> is_blank (Some (im_name ix)) \<and> set (im_fields ix) \<subseteq> fm_name ` set (tm_fields m) \<and> 0 \<le> im_unique ix \<and> im_unique ix < 2 ^ 31"

definition meta_ok :: "TableMeta \<Rightarrow> bool" where
  "meta_ok m \<longleftrightarrow> tm_fields m \<noteq> [] \<and> packed 0 (tm_fields m) (tm_record_size m) \<and> tm_record_size m < 2 ^ 31 \<and>
     list_all field_ok (tm_fields m) \<and> list_all (index_ok m) (tm_indexes m)"

lemma field_round:
  assumes "field_ok f"
  shows "\<exists>j. field_to_json f = Some j \<and> field_from_json j g = (SUCCESS, f)"
  using assms by (auto simp: field_ok_def field_to_json_def field_from_json_def attr_type_to_string_def attr_type_from_string_def FieldMeta_init_def wrap32_id)

lemma fields_round:
  assumes "list_all field_ok fs"
  shows "\<exists>js. those (map field_to_json fs) = Some js \<and> fields_from_json u js = Some fs \<and> length js = length fs"
  using assms
proof (induction fs)
  case (Cons f fs)
  then obtain js where "those (map field_to_json fs) = Some js" "fields_from_json u js = Some fs" "length js = length fs" by auto
  moreover obtain j where "field_to_json f = Some j" "field_from_json j (FieldMeta_new u) = (SUCCESS, f)" using field_round Cons.prems by fastforce
  ultimately show ?case by simp
qed simp

lemma json_append_simps [simp]: "json_append JNull v = JArray [v]" "json_append (JArray us) v = JArray (us @ [v])"
  by (simp_all add: json_append_def)

lemma fold_append: "fold (\<lambda>v j. json_append j v) vs (JArray us) = JArray (us @ vs)"
  by (induction vs arbitrary: us) simp_all

lemma fold_append_null: "fold (\<lambda>v j. json_append j v) vs JNull = (if vs = [] then JNull else JArray vs)"
  by (cases vs) (simp_all add: fold_append)

lemma fold_append_names: "fold (\<lambda>f j. json_append j (JString f)) ns JNull = (if ns = [] then JNull else JArray (map JString ns))"
  using fold_append_null [of "map JString ns"] by (simp add: fold_map comp_def)

lemma field_by_name_in:
  assumes "n \<in> fm_name ` set (tm_fields m)"
  shows "\<exists>f. field_by_name (Some n) m = Some f \<and> fm_name f = n"
proof -
  obtain f where "f \<in> set (tm_fields m)" "fm_name f = n" using assms by auto
  then have "List.find (\<lambda>f. fm_name f = n) (tm_fields m) \<noteq> None" by (auto simp: find_None_iff)
  then show ?thesis by (auto simp: field_by_name_def find_Some_iff)
qed

lemma index_fields_round:
  assumes "set ns \<subseteq> fm_name ` set (tm_fields m)"
  shows "\<exists>fs. index_fields_from_json m (JArray (us @ map JString ns)) (length us) (length ns) = Some (SUCCESS, fs) \<and> map fm_name fs = ns"
  using assms
proof (induction ns arbitrary: us)
  case (Cons n ns)
  obtain f where f: "field_by_name (Some n) m = Some f" "fm_name f = n" using field_by_name_in [of n m] Cons.prems by auto
  obtain fs where "index_fields_from_json m (JArray ((us @ [JString n]) @ map JString ns)) (length (us @ [JString n])) (length ns) = Some (SUCCESS, fs)" "map fm_name fs = ns"
    using Cons.IH [of "us @ [JString n]"] Cons.prems by auto
  then show ?case using f by (simp add: json_at_def nth_append)
qed simp

lemma index_round:
  assumes "index_ok m ix"
  shows "index_from_json m (index_to_json ix) (IndexMeta_new u) = Some (SUCCESS, ix)"
proof -
  have q: "wrap32 (im_unique ix) = im_unique ix" using assms by (auto intro: wrap32_id simp: index_ok_def)
  show ?thesis
  proof (cases "im_fields ix = []")
    case True
    then show ?thesis using assms q
      by (simp add: index_from_json_def index_to_json_def json_member_def json_size_def json_uint_def IndexMeta_init_def IndexMeta_new_def index_ok_def)
  next
    case False
    obtain fs where "index_fields_from_json m (JArray (map JString (im_fields ix))) 0 (length (im_fields ix)) = Some (SUCCESS, fs)" "map fm_name fs = im_fields ix"
      using index_fields_round [of "im_fields ix" m "[]"] assms by (auto simp: index_ok_def)
    then show ?thesis using assms q False
      by (simp add: index_from_json_def index_to_json_def fold_append_names json_member_def json_size_def json_uint_def IndexMeta_init_def IndexMeta_new_def index_ok_def)
  qed
qed

lemma indexes_round: "list_all (index_ok m) ixs \<Longrightarrow> indexes_from_json u m (map index_to_json ixs) = Some (Some ixs)"
  by (induction ixs) (simp_all add: index_round)

lemma serialize_round:
  assumes "meta_ok m" "\<And>j. table_to_json m = Some j \<Longrightarrow> parse (write j) = Some j"
  shows "\<exists>text sys'. tm_serialize write m = Some (int (length text), text) \<and>
    tm_deserialize parse u text sys TableMeta_new = Some (int (length text), sys', m)"
proof -
  obtain js where js: "those (map field_to_json (tm_fields m)) = Some js" "fields_from_json (fst u) js = Some (tm_fields m)" "length js = length (tm_fields m)"
    using fields_round assms(1) by (auto simp: meta_ok_def)
  define j where "j = JObject [(''table_name'', JString (tm_name m)), (''fields'', JArray js),
     (''indexes'', if tm_indexes m = [] then JNull else JArray (map index_to_json (tm_indexes m)))]"
  have ne: "js \<noteq> []" "tm_fields m \<noteq> []" using js(3) assms(1) by (auto simp: meta_ok_def)
  have tj: "table_to_json m = Some j" using js(1) ne(1) by (simp add: table_to_json_def fold_append_null j_def)
  note pk = packed_sorted [of 0 "tm_fields m" "tm_record_size m"] packed_last [of 0 "tm_fields m" "tm_record_size m"]
    packed_le [of 0 "tm_fields m" "tm_record_size m"]
  let ?m = "TableMeta_new\<lparr>tm_name := tm_name m, tm_fields := tm_fields m, tm_record_size := tm_record_size m\<rparr>"
  have sz: "wrap32 (fm_offset (last (tm_fields m)) + fm_len (last (tm_fields m)) - fm_offset (hd (tm_fields m))) = tm_record_size m"
    using pk ne(2) assms(1) by (simp add: meta_ok_def wrap32_id)
  have "list_all (index_ok ?m) (tm_indexes m)" using assms(1) by (simp add: meta_ok_def index_ok_def list_all_iff)
  from indexes_round [OF this, of "snd u"] have ix: "indexes_from_json (snd u) ?m (map index_to_json (tm_indexes m)) = Some (Some (tm_indexes m))" .
  have "sort_key fm_offset (tm_fields m) = tm_fields m" using pk(1) assms(1) by (simp add: meta_ok_def)
  then have "tm_deserialize parse u (write j) sys TableMeta_new = Some (int (length (write j)), if sys = [] then snd (init_sys_fields (fst u) sys) else sys, m)"
    using assms(2) [OF tj] js(2) ne sz ix
    by (cases js; cases "tm_indexes m")
      (auto simp: tm_deserialize_def Let_def j_def json_member_def TableMeta_new_def simp del: indexes_from_json.simps fields_from_json.simps)
  then show ?thesis using tj by (auto simp: tm_serialize_def)
qed

section \<open>New tables\<close>

definition storable :: "AttrInfo \<Rightarrow> bool" where
  "storable a \<longleftrightarrow> valid_attr a \<and> ai_type a \<in> {CHARS, INTS, FLOATS, DATES}"

lemma packed_sys: "packed 8 fs e \<Longrightarrow> packed 0 (sys_fields @ fs) e"
  by (simp add: sys_fields_def)

lemma valid_storable: "list_all storable as \<Longrightarrow> list_all valid_attr as"
  by (simp add: storable_def list_all_iff)

lemma layout_fields_ok:
  "list_all storable as \<Longrightarrow> 0 \<le> offset \<Longrightarrow> offset + attr_sum as < 2 ^ 31 \<Longrightarrow> list_all field_ok (layout offset as)"
proof (induction as arbitrary: offset)
  case (Cons a as)
  have "0 \<le> attr_sum as" using Cons.prems(1) attr_sum_nonneg [OF valid_storable] by simp
  then show ?case using Cons.prems Cons.IH [of "offset + ai_length a"] by (cases "ai_name a") (auto simp: storable_def valid_attr_def field_ok_def is_blank_def)
qed simp

lemma new_table_ok:
  assumes "list_all storable as" "8 + attr_sum as < 2 ^ 31" "tm_fields m = sys_fields @ layout 8 as" "tm_record_size m = 8 + attr_sum as"
    and "list_all (index_ok m) (tm_indexes m)"
  shows "meta_ok m"
proof -
  have "list_all field_ok sys_fields" by (simp add: sys_fields_def field_ok_def is_blank_def isspace_def)
  then show ?thesis
    using assms packed_sys [OF packed_layout [OF valid_storable [OF assms(1)], of 8]] layout_fields_ok [of as 8]
    by (simp add: meta_ok_def sys_fields_def)
qed

lemma layout_nth:
  assumes "i < length as"
  shows "layout offset as ! i = \<lparr>fm_name = the (ai_name (as ! i)), fm_type = ai_type (as ! i), fm_offset = offset + attr_sum (take i as),
    fm_len = ai_length (as ! i), fm_nullable = ai_nullable (as ! i), fm_visible = True\<rparr>"
  using assms
proof (induction as arbitrary: offset i)
  case (Cons a as)
  then show ?case by (cases i) simp_all
qed simp

text \<open>
  C21. Initialising the metadata of a table with valid attributes succeeds whenever the record fits into an
  \<^verbatim>\<open>int\<close>: the two system fields come first, the attributes follow in order with their names, types and lengths, no
  two fields overlap, no field reaches beyond the record, and the record has no gaps.
\<close>

theorem table_layout_correct:
  assumes "\<not> is_blank (Some name)" "as \<noteq> []" "list_all valid_attr as" "8 + attr_sum as < 2 ^ 31" "sys \<in> {[], sys_fields}"
  shows "\<exists>m. TableMeta_init u (Some name) (Some as) sys TableMeta_new = (SUCCESS, sys_fields, m) \<and> tm_name m = name \<and>
    length (tm_fields m) = 2 + length as \<and> trx_field m = Some (sys_fields ! 0) \<and> null_field m = Some (sys_fields ! 1) \<and>
    (\<forall>i<length as. fm_name (tm_fields m ! (2 + i)) = the (ai_name (as ! i)) \<and> fm_type (tm_fields m ! (2 + i)) = ai_type (as ! i) \<and>
       fm_len (tm_fields m ! (2 + i)) = ai_length (as ! i) \<and> fm_nullable (tm_fields m ! (2 + i)) = ai_nullable (as ! i)) \<and>
    (\<forall>j<length (tm_fields m). fm_offset (tm_fields m ! j) + fm_len (tm_fields m ! j) \<le> tm_record_size m \<and>
       (\<forall>i<j. fm_offset (tm_fields m ! i) + fm_len (tm_fields m ! i) \<le> fm_offset (tm_fields m ! j))) \<and>
    sum_list (map fm_len (tm_fields m)) = tm_record_size m"
proof -
  let ?m = "TableMeta_new\<lparr>tm_fields := sys_fields @ layout 8 as, tm_record_size := 8 + attr_sum as, tm_name := name\<rparr>"
  have pk: "packed 0 (sys_fields @ layout 8 as) (8 + attr_sum as)" by (rule packed_sys [OF packed_layout [OF assms(3)]])
  have two: "length sys_fields = 2" by (simp add: sys_fields_def)
  have "sum_list (map fm_len (layout offset as)) = attr_sum as" for offset by (induction as arbitrary: offset) simp_all
  then have "sum_list (map fm_len (tm_fields ?m)) = tm_record_size ?m" by (simp add: sys_fields_def)
  then show ?thesis
    using TableMeta_init_layout [OF assms, of u TableMeta_new] packed_bounds [OF pk] packed_apart [OF pk] two
    by (intro exI [of _ ?m]) (simp add: trx_field_def null_field_def nth_append layout_nth)
qed

definition demo_attrs :: "AttrInfo list" where
  "demo_attrs = [\<lparr>ai_name = Some ''id'', ai_type = INTS, ai_length = 4, ai_nullable = False\<rparr>,
     \<lparr>ai_name = Some ''name'', ai_type = CHARS, ai_length = 12, ai_nullable = True\<rparr>]"

lemma demo_attrs_ok: "list_all storable demo_attrs" "attr_sum demo_attrs = 16" "demo_attrs \<noteq> []" "\<not> is_blank (Some ''t'')"
  by (simp_all add: demo_attrs_def storable_def valid_attr_def is_blank_def isspace_def)

theorem table_layout_correct_witness:
  "\<exists>m. TableMeta_init False (Some ''t'') (Some demo_attrs) [] TableMeta_new = (SUCCESS, sys_fields, m) \<and> fm_len (tm_fields m ! 3) = 12 \<and>
     sum_list (map fm_len (tm_fields m)) = tm_record_size m"
proof -
  obtain m where m: "TableMeta_init False (Some ''t'') (Some demo_attrs) [] TableMeta_new = (SUCCESS, sys_fields, m)"
      "\<forall>i<length demo_attrs. fm_len (tm_fields m ! (2 + i)) = ai_length (demo_attrs ! i)" "sum_list (map fm_len (tm_fields m)) = tm_record_size m"
    using table_layout_correct [of "''t''" demo_attrs "[]" False] demo_attrs_ok valid_storable [of demo_attrs] by auto
  then show ?thesis using spec [OF m(2), of 1] by (auto simp: demo_attrs_def)
qed

text \<open>
  C20. The metadata of a table survives a restart: for a table that was initialised with attributes of the storable types
  and has any indexes on its own fields, reading the text that was written gives the same metadata.  The
  JSON library is assumed to parse the text it has written for this table.
\<close>

theorem table_meta_round_trip:
  assumes "\<not> is_blank (Some name)" "as \<noteq> []" "list_all storable as" "8 + attr_sum as < 2 ^ 31"
    and "TableMeta_init u (Some name) (Some as) [] TableMeta_new = (SUCCESS, sys, m)"
    and "list_all (index_ok m) ixs"
    and "\<And>j. table_to_json (m\<lparr>tm_indexes := ixs\<rparr>) = Some j \<Longrightarrow> parser (writer j) = Some j"
  shows "\<exists>text. tm_serialize writer (m\<lparr>tm_indexes := ixs\<rparr>) = Some (int (length text), text) \<and>
    (\<exists>sys'. tm_deserialize parser u' text sys TableMeta_new = Some (int (length text), sys', m\<lparr>tm_indexes := ixs\<rparr>))"
proof -
  have "tm_fields m = sys_fields @ layout 8 as" "tm_record_size m = 8 + attr_sum as"
    using TableMeta_init_layout [of name as "[]" u TableMeta_new] assms(1-5) valid_storable by auto
  then have "meta_ok (m\<lparr>tm_indexes := ixs\<rparr>)"
    using assms(3,4,6) by (intro new_table_ok [of as]) (auto simp: index_ok_def list_all_iff)
  from serialize_round [OF this assms(7)] show ?thesis by blast
qed

definition demo_table :: TableMeta where
  "demo_table = snd (snd (TableMeta_init False (Some ''t'') (Some demo_attrs) [] TableMeta_new))\<lparr>tm_indexes := [\<lparr>im_name = ''ix'', im_fields = [''id''], im_unique = 1\<rparr>]\<rparr>"

theorem table_meta_round_trip_witness:
  "\<exists>text sys'. tm_serialize (\<lambda>_. ''meta'') demo_table = Some (4, text) \<and>
     tm_deserialize (\<lambda>_. table_to_json demo_table) (True, 0) text sys_fields TableMeta_new = Some (4, sys', demo_table)"
proof -
  define m where "m = snd (snd (TableMeta_init False (Some ''t'') (Some demo_attrs) [] TableMeta_new))"
  have m: "TableMeta_init False (Some ''t'') (Some demo_attrs) [] TableMeta_new = (SUCCESS, sys_fields, m)"
    using TableMeta_init_layout [of "''t''" demo_attrs "[]" False TableMeta_new] demo_attrs_ok valid_storable [of demo_attrs] by (simp add: m_def)
  have "tm_fields m = sys_fields @ layout 8 demo_attrs"
    using TableMeta_init_layout [of "''t''" demo_attrs "[]" False TableMeta_new] demo_attrs_ok valid_storable [of demo_attrs] by (simp add: m_def)
  then have ix: "list_all (index_ok m) [\<lparr>im_name = ''ix'', im_fields = [''id''], im_unique = 1\<rparr>]"
    by (simp add: index_ok_def is_blank_def isspace_def demo_attrs_def)
  have d: "m\<lparr>tm_indexes := [\<lparr>im_name = ''ix'', im_fields = [''id''], im_unique = 1\<rparr>]\<rparr> = demo_table" by (simp add: demo_table_def m_def)
  show ?thesis
    using table_meta_round_trip [where writer = "\<lambda>_. ''meta''" and parser = "\<lambda>_. table_to_json demo_table", OF demo_attrs_ok(4,3,1) _ m ix, of "(True, 0)"] demo_attrs_ok(2)
    unfolding d by (cases "table_to_json demo_table") (auto simp: tm_serialize_def)
qed

end
