(* ===== verification/Ob_Filter.thy ===== *)
theory Ob_Filter
  imports Ob_Meta
begin

text \<open>
  The condition filters of table scans (\<open>src/src/observer/storage/common/condition_filter.cpp\<close>).  A record is the memory behind
  its data pointer; a read through a null pointer, a shift by a negative or too large number and an index beyond the
  table of compatible types are the result \<open>None\<close>.
\<close>

record ConDesc =
  cd_is_attr :: bool
  cd_length :: int
  cd_offset :: int
  cd_i :: int
  cd_sysnull :: int
  cd_value :: "mem option"

definition ConDesc_new :: ConDesc where
  "ConDesc_new = \<lparr>cd_is_attr = False, cd_length = 0, cd_offset = 0, cd_i = 0, cd_sysnull = 0, cd_value = None\<rparr>"

record DefaultConditionFilter =
  dcf_left :: ConDesc
  dcf_right :: ConDesc
  dcf_type_left :: AttrType
  dcf_type_right :: AttrType
  dcf_comp_op :: CompOp

definition DefaultConditionFilter_new :: DefaultConditionFilter where
  "DefaultConditionFilter_new = \<lparr>dcf_left = ConDesc_new, dcf_right = ConDesc_new, dcf_type_left = UNDEFINED, dcf_type_right = UNDEFINED,
     dcf_comp_op = NO_OP\<rparr>"

definition dcf_init_desc :: "ConDesc \<Rightarrow> ConDesc \<Rightarrow> AttrType \<Rightarrow> AttrType \<Rightarrow> CompOp \<Rightarrow> DefaultConditionFilter \<Rightarrow> RC \<times> DefaultConditionFilter" where
  "dcf_init_desc left right type_left type_right op f =
     (if type_left = UNDEFINED \<or> type_right = UNDEFINED then (INVALID_ARGUMENT, f)
      else if op = NO_OP then (INVALID_ARGUMENT, f)
      else (SUCCESS, \<lparr>dcf_left = left, dcf_right = right, dcf_type_left = type_left, dcf_type_right = type_right, dcf_comp_op = op\<rparr>))"

text \<open>The value of a literal; \<open>atof_bits\<close> is the library's conversion to a \<^verbatim>\<open>float\<close>, given as its bits.\<close>

definition literal_value :: "(string \<Rightarrow> int) \<Rightarrow> AttrType \<Rightarrow> string \<Rightarrow> (RC \<times> mem option) option" where
  "literal_value atof_bits type literal = (case type of
      INTS \<Rightarrow> do { v \<leftarrow> atoi literal; Some (SUCCESS, Some (int_mem v)) }
    | DATES \<Rightarrow> do { v \<leftarrow> atoi literal; Some (SUCCESS, Some (int_mem v)) }
    | FLOATS \<Rightarrow> Some (SUCCESS, Some (int_mem (atof_bits literal)))
    | CHARS \<Rightarrow> Some (SUCCESS, Some (string_mem literal))
    | NULLS \<Rightarrow> Some (SUCCESS, None)
    | _ \<Rightarrow> Some (GENERIC_ERROR, None))"

text \<open>One side of a condition: a field of the table or a literal.\<close>

definition con_desc :: "(string \<Rightarrow> int) \<Rightarrow> FieldMeta list \<Rightarrow> TableMeta \<Rightarrow> Expr \<Rightarrow> (RC \<times> ConDesc \<times> AttrType) option" where
  "con_desc atof_bits sys m e = (case expr_node e of
      FieldExpression _ attr_name \<Rightarrow>
        (case field_and_index sys (Some attr_name) m of
           (None, i) \<Rightarrow> Some (SCHEMA_FIELD_MISSING, ConDesc_new\<lparr>cd_is_attr := True, cd_i := i\<rparr>, UNDEFINED)
         | (Some f, i) \<Rightarrow> do {
             nul \<leftarrow> null_field m;
             Some (SUCCESS, \<lparr>cd_is_attr = True, cd_length = fm_len f, cd_offset = fm_offset f, cd_i = i, cd_sysnull = fm_offset nul, cd_value = None\<rparr>, fm_type f)
           })
    | ConstExpr type literal \<Rightarrow> do {
        (rc, v) \<leftarrow> literal_value atof_bits type literal;
        Some (rc, ConDesc_new\<lparr>cd_value := v\<rparr>, type)
      }
    | _ \<Rightarrow> Some (GENERIC_ERROR, ConDesc_new, UNDEFINED))"

text \<open>
  The table has six rows and columns although \<^verbatim>\<open>NULLS\<close> is the seventh type; its last row and column are those of
  \<^verbatim>\<open>RELATIONS\<close>.
\<close>

definition field_type_compare_compatible :: "AttrType \<Rightarrow> AttrType \<Rightarrow> bool option" where
  "field_type_compare_compatible a b =
     (let nums = [CHARS, INTS, FLOATS] in
      if a = NULLS \<or> b = NULLS then None
      else Some (a \<in> set nums \<and> b \<in> set nums \<or> a = DATES \<and> b = DATES \<or>
        a = RELATIONS \<and> b \<noteq> UNDEFINED \<or> b = RELATIONS \<and> a \<noteq> UNDEFINED))"

text \<open>With a literal on the right the function returns before the filter is set.\<close>

definition dcf_init :: "(string \<Rightarrow> int) \<Rightarrow> FieldMeta list \<Rightarrow> TableMeta \<Rightarrow> Condition \<Rightarrow> DefaultConditionFilter \<Rightarrow>
    (RC \<times> DefaultConditionFilter) option" where
  "dcf_init atof_bits sys m cond f = do {
     le \<leftarrow> cond_left cond;
     (rc, left, type_left) \<leftarrow> con_desc atof_bits sys m le;
     if rc \<noteq> SUCCESS then Some (rc, f)
     else do {
       re \<leftarrow> cond_right cond;
       (rc, right, type_right) \<leftarrow> con_desc atof_bits sys m re;
       if rc \<noteq> SUCCESS then Some (rc, f)
       else if \<not> cd_is_attr right then Some (SUCCESS, f)
       else do {
         ok \<leftarrow> field_type_compare_compatible type_left type_right;
         if \<not> ok then Some (SCHEMA_FIELD_TYPE_MISMATCH, f)
         else Some (dcf_init_desc left right type_left type_right (cond_comp cond) f)
       }
     }
   }"

section \<open>Filtering\<close>

text \<open>The bit of field \<open>i\<close> in the bitmap of null values.\<close>

definition null_bit :: "mem \<Rightarrow> int \<Rightarrow> int \<Rightarrow> bool option" where
  "null_bit rec off i = (if 0 \<le> i \<and> i \<le> 31 \<and> 0 \<le> off then Some (load_u32 rec (nat off) div 2 ^ nat (31 - i) mod 2 = 1) else None)"

text \<open>The value and the type of one side; an attribute that is null has type \<^verbatim>\<open>NULLS\<close>.\<close>

definition side_value :: "mem \<Rightarrow> ConDesc \<Rightarrow> AttrType \<Rightarrow> (mem option \<times> AttrType) option" where
  "side_value rec d type =
     (if cd_is_attr d then do {
        nul \<leftarrow> null_bit rec (cd_sysnull d) (cd_i d);
        if cd_offset d < 0 then None
        else Some (Some (at_off rec (nat (cd_offset d))), if nul then NULLS else type)
      }
      else Some (cd_value d, type))"

definition value_size :: "mem option \<Rightarrow> AttrType \<Rightarrow> int option" where
  "value_size v type = (if type = CHARS then do { m \<leftarrow> v; s \<leftarrow> c_string m; Some (int (length s)) } else Some 4)"

text \<open>The comparison of values that are not null pointers; a null value has no data.\<close>

definition compare_values :: "(byte list \<Rightarrow> f32) \<Rightarrow> AttrType \<Rightarrow> AttrType \<Rightarrow> mem option \<Rightarrow> mem option \<Rightarrow> int \<Rightarrow> int \<Rightarrow> CompOp \<Rightarrow> int option" where
  "compare_values atof t1 t2 v1 v2 n1 n2 op =
     (if op = IS \<or> op = IS_NOT \<or> t1 = NULLS \<or> t2 = NULLS then map_option snd (compare_all atof t1 t2 (\<lambda>_. 0) (\<lambda>_. 0) n1 n2 op)
      else do { m1 \<leftarrow> v1; m2 \<leftarrow> v2; (_, r) \<leftarrow> compare_all atof t1 t2 m1 m2 n1 n2 op; Some r })"

definition accepts :: "CompOp \<Rightarrow> int \<Rightarrow> bool" where
  "accepts op r = (case op of
      EQUAL_TO \<Rightarrow> r = 0 | LIKE \<Rightarrow> r = 0 | IS \<Rightarrow> r = 0 | IS_NOT \<Rightarrow> r = 0
    | LESS_EQUAL \<Rightarrow> r \<le> 0
    | NOT_EQUAL \<Rightarrow> r \<noteq> 0 | NOT_LIKE \<Rightarrow> r \<noteq> 0
    | LESS_THAN \<Rightarrow> r < 0
    | GREAT_EQUAL \<Rightarrow> r \<ge> 0
    | GREAT_THAN \<Rightarrow> r > 0
    | _ \<Rightarrow> r \<noteq> 0)"

definition dcf_filter :: "(byte list \<Rightarrow> f32) \<Rightarrow> DefaultConditionFilter \<Rightarrow> mem \<Rightarrow> bool option" where
  "dcf_filter atof f rec = do {
     (v1, t1) \<leftarrow> side_value rec (dcf_left f) (dcf_type_left f);
     (v2, t2) \<leftarrow> side_value rec (dcf_right f) (dcf_type_right f);
     n1 \<leftarrow> value_size v1 t1;
     n2 \<leftarrow> value_size v2 t2;
     r \<leftarrow> compare_values atof t1 t2 v1 v2 n1 n2 (dcf_comp_op f);
     Some (accepts (dcf_comp_op f) r)
   }"

datatype ConditionFilter = DefaultFilter DefaultConditionFilter | CompositeFilter "ConditionFilter list"

fun cf_filter :: "(byte list \<Rightarrow> f32) \<Rightarrow> ConditionFilter \<Rightarrow> mem \<Rightarrow> bool option"
and cf_filters :: "(byte list \<Rightarrow> f32) \<Rightarrow> ConditionFilter list \<Rightarrow> mem \<Rightarrow> bool option" where
  "cf_filter atof (DefaultFilter f) rec = dcf_filter atof f rec"
| "cf_filter atof (CompositeFilter fs) rec = cf_filters atof fs rec"
| "cf_filters atof [] rec = Some True"
| "cf_filters atof (f # fs) rec = do { ok \<leftarrow> cf_filter atof f rec; if \<not> ok then Some False else cf_filters atof fs rec }"

fun dcf_init_all :: "(string \<Rightarrow> int) \<Rightarrow> FieldMeta list \<Rightarrow> TableMeta \<Rightarrow> Condition list \<Rightarrow> (RC \<times> ConditionFilter list) option" where
  "dcf_init_all atof_bits sys m [] = Some (SUCCESS, [])"
| "dcf_init_all atof_bits sys m (c # cs) = do {
     (rc, f) \<leftarrow> dcf_init atof_bits sys m c DefaultConditionFilter_new;
     if rc \<noteq> SUCCESS then Some (rc, [])
     else do { (rc, fs) \<leftarrow> dcf_init_all atof_bits sys m cs; Some (rc, DefaultFilter f # fs) }
   }"

text \<open>No conditions leave the filter as it is; a failure frees the filters that were made.\<close>

definition ccf_init :: "(string \<Rightarrow> int) \<Rightarrow> FieldMeta list \<Rightarrow> TableMeta \<Rightarrow> Condition list option \<Rightarrow> nat \<Rightarrow> ConditionFilter list \<Rightarrow>
    (RC \<times> ConditionFilter list) option" where
  "ccf_init atof_bits sys m conds n fs =
     (if n = 0 then Some (SUCCESS, fs)
      else case conds of
        None \<Rightarrow> Some (INVALID_ARGUMENT, fs)
      | Some cs \<Rightarrow> do {
          (rc, gs) \<leftarrow> dcf_init_all atof_bits sys m (take n cs);
          Some (if rc \<noteq> SUCCESS then (rc, fs) else (SUCCESS, gs))
        })"

end
