(* ===== verification/Ob_FilterProps.thy ===== *)
theory Ob_FilterProps
  imports Ob_Filter
begin

text \<open>
  Properties of the condition filters: what a comparison of an integer column with an integer decides, for null values
  too, and what becomes of a condition with a literal on its right side.
\<close>

text \<open>The order relation that an operator stands for, on integers.\<close>

fun op_holds :: "CompOp \<Rightarrow> int \<Rightarrow> int \<Rightarrow> bool" where
  "op_holds EQUAL_TO x y = (x = y)"
| "op_holds LESS_EQUAL x y = (x \<le> y)"
| "op_holds NOT_EQUAL x y = (x \<noteq> y)"
| "op_holds LESS_THAN x y = (x < y)"
| "op_holds GREAT_EQUAL x y = (x \<ge> y)"
| "op_holds GREAT_THAN x y = (x > y)"
| "op_holds _ x y = False"

definition order_ops :: "CompOp list" where
  "order_ops = [EQUAL_TO, LESS_EQUAL, NOT_EQUAL, LESS_THAN, GREAT_EQUAL, GREAT_THAN]"

text \<open>A column of integers on the left, an integer literal on the right.\<close>

definition int_column_filter :: "DefaultConditionFilter \<Rightarrow> int \<Rightarrow> bool" where
  "int_column_filter f y \<longleftrightarrow> cd_is_attr (dcf_left f) \<and> 0 \<le> cd_offset (dcf_left f) \<and> 0 \<le> cd_sysnull (dcf_left f) \<and>
     0 \<le> cd_i (dcf_left f) \<and> cd_i (dcf_left f) \<le> 31 \<and> dcf_type_left f = INTS \<and>
     \<not> cd_is_attr (dcf_right f) \<and> dcf_type_right f = INTS \<and>
     (case cd_value (dcf_right f) of None \<Rightarrow> False | Some v \<Rightarrow> load_int v 0 = y)"

definition column_null :: "DefaultConditionFilter \<Rightarrow> mem \<Rightarrow> bool" where
  "column_null f rec \<longleftrightarrow> null_bit rec (cd_sysnull (dcf_left f)) (cd_i (dcf_left f)) = Some True"

definition column_int :: "DefaultConditionFilter \<Rightarrow> mem \<Rightarrow> int" where
  "column_int f rec = load_int rec (nat (cd_offset (dcf_left f)))"

lemma load_at_off_0: "load_int (at_off m i) 0 = load_int m i"
  by (simp add: load_int_def load_u32_def at_off_def)

lemma null_bit_range: "0 \<le> i \<Longrightarrow> i \<le> 31 \<Longrightarrow> 0 \<le> off \<Longrightarrow> null_bit rec off i = Some (null_bit rec off i = Some True)"
  by (simp add: null_bit_def)

lemma int_filter_result:
  assumes "int_column_filter f y" and op: "dcf_comp_op f \<noteq> LIKE" "dcf_comp_op f \<noteq> NOT_LIKE"
  shows "dcf_filter atof f rec =
    Some (accepts (dcf_comp_op f)
      (if column_null f rec then if dcf_comp_op f = IS_NOT then 0 else 1
       else if dcf_comp_op f = IS \<or> dcf_comp_op f = IS_NOT then 1
       else wrap32 (column_int f rec - y)))"
proof -
  obtain v where v: "cd_value (dcf_right f) = Some v" "load_int v 0 = y"
    using assms by (auto simp add: int_column_filter_def split: option.splits)
  have l: "side_value rec (dcf_left f) (dcf_type_left f) =
      Some (Some (at_off rec (nat (cd_offset (dcf_left f)))), if column_null f rec then NULLS else INTS)"
    using assms null_bit_range [of "cd_i (dcf_left f)" "cd_sysnull (dcf_left f)" rec]
    by (auto simp add: side_value_def int_column_filter_def column_null_def)
  have r: "side_value rec (dcf_right f) (dcf_type_right f) = Some (Some v, INTS)"
    using assms v by (simp add: side_value_def int_column_filter_def)
  show ?thesis using op
    by (simp add: dcf_filter_def l r value_size_def compare_values_def compare_all_def compare_int_def load_at_off_0 column_int_def v)
qed


definition demo_filter :: DefaultConditionFilter where
  "demo_filter = \<lparr>dcf_left = \<lparr>cd_is_attr = True, cd_length = 4, cd_offset = 8, cd_i = 0, cd_sysnull = 4, cd_value = None\<rparr>,
     dcf_right = ConDesc_new\<lparr>cd_value := Some (int_mem 5)\<rparr>, dcf_type_left = INTS, dcf_type_right = INTS, dcf_comp_op = GREAT_THAN\<rparr>"

lemma load_int_mem: "- (2 ^ 31) \<le> v \<Longrightarrow> v < 2 ^ 31 \<Longrightarrow> load_int (int_mem v) 0 = v"
  by (simp add: int_mem_def load_store_same)


text \<open>
  A condition of a known column with a literal on its right side is accepted, but the filter is left as it was: nothing of the condition is
  kept.
\<close>

lemma literal_condition_ignored:
  assumes "cond_left c = Some l" and "cond_right c = Some r"
    and "expr_node l = FieldExpression tab col" and "field_and_index sys (Some col) m = (Some fd, i)" and "null_field m = Some nul"
    and "expr_node r = ConstExpr CHARS txt"
  shows "dcf_init atof_bits sys m c f = Some (SUCCESS, f)"
  using assms by (simp add: dcf_init_def con_desc_def literal_value_def ConDesc_new_def)

end
