(* ===== verification/Ob_Trx.thy ===== *)
theory Ob_Trx
  imports Ob_Filter Ob_RecordFile Ob_Clog "HOL-Library.AList"
begin

text \<open>
  Transactions (\<open>src/src/observer/storage/trx/trx.cpp\<close>): the transaction number in the records, and the operations that a
  transaction has to commit or roll back.  Tables are identified by numbers.  The hash containers are
  lists with one entry per key; where the code walks through them, the order is a parameter.
\<close>

section \<open>The transaction number of a record\<close>

definition DELETED_FLAG_BIT_MASK :: int where "DELETED_FLAG_BIT_MASK = 0x80000000"
definition TRX_ID_BIT_MASK :: int where "TRX_ID_BIT_MASK = 0x7FFFFFFF"

unbundle bit_operations_syntax

definition set_record_trx_id :: "TableMeta \<Rightarrow> int \<Rightarrow> bool \<Rightarrow> mem \<Rightarrow> mem option" where
  "set_record_trx_id m trx_id deleted rec = do {
     f \<leftarrow> trx_field m;
     if fm_offset f < 0 then None
     else Some (store_int rec (nat (fm_offset f)) (if deleted then wrap32 (trx_id OR DELETED_FLAG_BIT_MASK) else trx_id))
   }"

definition get_record_trx_id :: "TableMeta \<Rightarrow> mem \<Rightarrow> (int \<times> bool) option" where
  "get_record_trx_id m rec = do {
     f \<leftarrow> trx_field m;
     if fm_offset f < 0 then None
     else let trx = load_int rec (nat (fm_offset f)) in
       Some (trx AND TRX_ID_BIT_MASK, trx AND DELETED_FLAG_BIT_MASK \<noteq> 0)
   }"

section \<open>Operations\<close>

datatype OperationType = INSERT | UPDATE | DELETE | UNDEFINED_OP

type_synonym OperationSet = "((int \<times> int) \<times> OperationType) list"

record Trx =
  trx_current_id :: int
  trx_operations :: "(nat \<times> OperationSet) list"

definition rid_key :: "RID \<Rightarrow> int \<times> int" where
  "rid_key rid = (rid_page_num rid, rid_slot_num rid)"

definition find_operation :: "nat \<Rightarrow> RID \<Rightarrow> Trx \<Rightarrow> OperationType option" where
  "find_operation tab rid t = (case map_of (trx_operations t) tab of None \<Rightarrow> None | Some ops \<Rightarrow> map_of ops (rid_key rid))"

text \<open>\<^verbatim>\<open>operations_[table]\<close> creates the set, and \<^verbatim>\<open>emplace\<close> keeps an entry that is there.\<close>

definition insert_operation :: "nat \<Rightarrow> OperationType \<Rightarrow> RID \<Rightarrow> Trx \<Rightarrow> Trx" where
  "insert_operation tab type rid t =
     (let ops = (case map_of (trx_operations t) tab of None \<Rightarrow> [] | Some ops \<Rightarrow> ops);
          ops = (if map_of ops (rid_key rid) = None then ops @ [(rid_key rid, type)] else ops) in
      t\<lparr>trx_operations := AList.update tab ops (trx_operations t)\<rparr>)"

definition update_operation :: "nat \<Rightarrow> OperationType \<Rightarrow> RID \<Rightarrow> Trx \<Rightarrow> Trx" where
  "update_operation tab type rid t = insert_operation tab type rid t"

definition delete_operation :: "nat \<Rightarrow> RID \<Rightarrow> Trx \<Rightarrow> Trx" where
  "delete_operation tab rid t = (case map_of (trx_operations t) tab of
      None \<Rightarrow> t
    | Some ops \<Rightarrow> t\<lparr>trx_operations := AList.update tab (filter (\<lambda>(k, _). k \<noteq> rid_key rid) ops) (trx_operations t)\<rparr>)"

section \<open>Numbers\<close>

text \<open>The counter \<^verbatim>\<open>Trx::trx_id\<close> is global.\<close>

definition default_trx_id :: int where "default_trx_id = 0"

definition next_trx_id :: "int \<Rightarrow> int \<times> int" where
  "next_trx_id counter = (wrap32 (counter + 1), wrap32 (counter + 1))"

definition next_current_id :: "Trx \<Rightarrow> int \<Rightarrow> Trx \<times> int" where
  "next_current_id t counter = (case next_trx_id counter of (_, counter) \<Rightarrow> (t\<lparr>trx_current_id := counter\<rparr>, counter))"

definition start_if_not_started :: "Trx \<Rightarrow> int \<Rightarrow> Trx \<times> int" where
  "start_if_not_started t counter =
     (if trx_current_id t = 0 then case next_trx_id counter of (n, counter) \<Rightarrow> (t\<lparr>trx_current_id := n\<rparr>, counter) else (t, counter))"

definition Trx_new :: "int \<Rightarrow> Trx \<times> int" where
  "Trx_new counter = start_if_not_started \<lparr>trx_current_id = 0, trx_operations = []\<rparr> counter"

section \<open>Records in a transaction\<close>

definition trx_insert_record :: "nat \<Rightarrow> RID \<Rightarrow> Trx \<Rightarrow> RC \<times> Trx" where
  "trx_insert_record tab rid t =
     (case find_operation tab rid t of
        None \<Rightarrow> (SUCCESS, insert_operation tab INSERT rid t)
      | Some DELETE \<Rightarrow> (SUCCESS, insert_operation tab INSERT rid (delete_operation tab rid t))
      | Some _ \<Rightarrow> (GENERIC_ERROR, t))"

text \<open>The record gets the number of the transaction.\<close>

definition trx_update_record :: "nat \<Rightarrow> TableMeta \<Rightarrow> RID \<Rightarrow> mem \<Rightarrow> Trx \<Rightarrow> (RC \<times> mem \<times> Trx) option" where
  "trx_update_record tab m rid rec t =
     (let go = (\<lambda>t. do { rec \<leftarrow> set_record_trx_id m (trx_current_id t) False rec; Some (SUCCESS, rec, insert_operation tab UPDATE rid t) }) in
      case find_operation tab rid t of
        None \<Rightarrow> go t
      | Some UPDATE \<Rightarrow> go (delete_operation tab rid t)
      | Some INSERT \<Rightarrow> go t
      | Some _ \<Rightarrow> Some (GENERIC_ERROR, rec, t))"

definition trx_delete_record :: "nat \<Rightarrow> TableMeta \<Rightarrow> RID \<Rightarrow> mem \<Rightarrow> Trx \<Rightarrow> int \<Rightarrow> (RC \<times> mem \<times> Trx \<times> int) option" where
  "trx_delete_record tab m rid rec t counter =
     (case start_if_not_started t counter of (t, counter) \<Rightarrow>
      case find_operation tab rid t of
        Some INSERT \<Rightarrow> Some (SUCCESS, rec, delete_operation tab rid t, counter)
      | Some _ \<Rightarrow> Some (GENERIC_ERROR, rec, t, counter)
      | None \<Rightarrow> do {
          rec \<leftarrow> set_record_trx_id m (trx_current_id t) True rec;
          Some (SUCCESS, rec, insert_operation tab DELETE rid t, counter)
        })"

definition trx_commit_insert :: "TableMeta \<Rightarrow> mem \<Rightarrow> (RC \<times> mem) option" where
  "trx_commit_insert m rec = do { rec \<leftarrow> set_record_trx_id m 0 False rec; Some (SUCCESS, rec) }"

definition trx_commit_update :: "TableMeta \<Rightarrow> mem \<Rightarrow> (RC \<times> mem) option" where
  "trx_commit_update m rec = do { rec \<leftarrow> set_record_trx_id m 0 False rec; Some (SUCCESS, rec) }"

definition trx_rollback_delete :: "TableMeta \<Rightarrow> mem \<Rightarrow> (RC \<times> mem) option" where
  "trx_rollback_delete m rec = do { rec \<leftarrow> set_record_trx_id m 0 False rec; Some (SUCCESS, rec) }"

definition init_trx_info :: "TableMeta \<Rightarrow> Trx \<Rightarrow> mem \<Rightarrow> mem option" where
  "init_trx_info m t rec = set_record_trx_id m (trx_current_id t) False rec"

definition is_visible :: "TableMeta \<Rightarrow> mem \<Rightarrow> Trx \<Rightarrow> bool option" where
  "is_visible m rec t = do {
     (n, deleted) \<leftarrow> get_record_trx_id m rec;
     Some (if n = 0 \<or> n = trx_current_id t then \<not> deleted else deleted)
   }"

end
