(* ===== verification/Ob_TrxProps.thy ===== *)
theory Ob_TrxProps
  imports Ob_Trx Ob_MetaProps
begin

text \<open>
  Properties of transactions: the number and the deletion mark of a record can be read back, a record that
  is not committed is seen by its own transaction only, and the operation set is a map with one operation
  per table and record.
\<close>

unbundle bit_operations_syntax

section \<open>The number of a record\<close>

lemma and_mask_mod: "(x::int) AND (2 ^ k - 1) = x mod 2 ^ k"
  by (simp add: take_bit_eq_mod [symmetric] take_bit_eq_mask mask_eq_exp_minus_1)

lemma bit_exp_int: "bit ((2::int) ^ k) n \<longleftrightarrow> n = k"
  by (auto simp add: bit_exp_iff)

lemma and_exp_bit: "(x::int) AND 2 ^ k \<noteq> 0 \<longleftrightarrow> bit x k"
proof
  assume "x AND 2 ^ k \<noteq> 0"
  then obtain n where "bit (x AND 2 ^ k) n" by (metis bit_eqI bit_0_eq bot_apply bot_bool_def)
  thus "bit x k" by (auto simp add: bit_and_iff bit_exp_int)
next
  assume "bit x k"
  hence "bit (x AND 2 ^ k) k" by (simp add: bit_and_iff bit_exp_int)
  thus "x AND 2 ^ k \<noteq> 0" by auto
qed

lemma or_exp_add: "0 \<le> (x::int) \<Longrightarrow> x < 2 ^ k \<Longrightarrow> x OR 2 ^ k = x + 2 ^ k"
proof -
  assume x: "0 \<le> x" "x < 2 ^ k"
  hence "take_bit k x = x" by (simp add: take_bit_eq_mod)
  hence "\<And>n. bit x n \<Longrightarrow> n < k" by (metis bit_take_bit_iff)
  hence "\<not> bit x k" by blast
  hence "x AND 2 ^ k = 0" using and_exp_bit by blast
  thus ?thesis by (simp add: disjunctive_add_eq_or)
qed

lemma trx_mask: "x AND TRX_ID_BIT_MASK = x mod 2 ^ 31"
  using and_mask_mod [of x 31] by (simp add: TRX_ID_BIT_MASK_def)

lemma deleted_mask: "x AND DELETED_FLAG_BIT_MASK \<noteq> 0 \<longleftrightarrow> bit x 31"
  using and_exp_bit [of x 31] by (simp add: DELETED_FLAG_BIT_MASK_def)

lemma deleted_or: "0 \<le> x \<Longrightarrow> x < 2 ^ 31 \<Longrightarrow> x OR DELETED_FLAG_BIT_MASK = x + 2 ^ 31"
  using or_exp_add [of x 31] by (simp add: DELETED_FLAG_BIT_MASK_def)

lemma bit31_neg: "- (2 ^ 31) \<le> x \<Longrightarrow> x < 2 ^ 31 \<Longrightarrow> bit (x::int) 31 \<longleftrightarrow> x < 0"
proof -
  assume x: "- (2 ^ 31) \<le> x" "x < 2 ^ 31"
  show ?thesis
  proof (cases "x < 0")
    case True
    have "x div 2 ^ 31 = - 1" using x True by (intro int_div_pos_eq [of _ _ _ "x + 2 ^ 31"]) simp_all
    thus ?thesis using True by (simp add: bit_iff_odd)
  next
    case False
    hence "x div 2 ^ 31 = 0" using x by simp
    thus ?thesis using False by (simp add: bit_iff_odd)
  qed
qed

lemma deleted_wrap: "0 \<le> x \<Longrightarrow> x < 2 ^ 31 \<Longrightarrow> wrap32 (x OR DELETED_FLAG_BIT_MASK) = x - 2 ^ 31"
  by (simp add: deleted_or wrap32_def)

text \<open>A table has the transaction field in its first column.\<close>

definition has_trx :: "TableMeta \<Rightarrow> bool" where
  "has_trx m \<longleftrightarrow> (case trx_field m of None \<Rightarrow> False | Some f \<Rightarrow> 0 \<le> fm_offset f)"

lemma has_trxE:
  assumes "has_trx m"
  obtains f where "trx_field m = Some f" "0 \<le> fm_offset f"
  using assms by (auto simp add: has_trx_def split: option.splits)

lemma set_get_trx:
  assumes "has_trx m" and "0 \<le> n" and "n < 2 ^ 31"
  obtains r where "set_record_trx_id m n deleted rec = Some r" and "get_record_trx_id m r = Some (n, deleted)"
proof -
  obtain f where f: "trx_field m = Some f" "0 \<le> fm_offset f" using assms(1) by (rule has_trxE)
  define v where "v = (if deleted then wrap32 (n OR DELETED_FLAG_BIT_MASK) else n)"
  define r where "r = store_int rec (nat (fm_offset f)) v"
  have "wrap32 v = v" and "v mod 2 ^ 31 = n" and "bit v 31 \<longleftrightarrow> deleted"
    using assms(2,3) by (simp_all add: v_def deleted_wrap bit31_neg)
  moreover have "load_int r (nat (fm_offset f)) = wrap32 v" unfolding r_def by (rule load_store_same)
  ultimately have "get_record_trx_id m r = Some (n, deleted)"
    using f by (simp add: get_record_trx_id_def trx_mask deleted_mask)
  moreover have "set_record_trx_id m n deleted rec = Some r"
    using f by (simp add: set_record_trx_id_def r_def v_def)
  ultimately show thesis by (rule that [rotated])
qed

section \<open>Visibility\<close>

lemma is_visible_set:
  assumes "has_trx m" and "0 \<le> n" and "n < 2 ^ 31" and "set_record_trx_id m n deleted rec = Some r"
  shows "is_visible m r t = Some (if n = 0 \<or> n = trx_current_id t then \<not> deleted else deleted)"
proof -
  obtain r' where "set_record_trx_id m n deleted rec = Some r'" and "get_record_trx_id m r' = Some (n, deleted)"
    using assms(1-3) by (rule set_get_trx)
  thus ?thesis using assms(4) by (simp add: is_visible_def)
qed

lemma visible_after_set:
  assumes "has_trx m" and "0 \<le> k" and "k < 2 ^ 31"
  shows "\<exists>r. set_record_trx_id m k del rec = Some r \<and>
    (\<forall>u. is_visible m r u = Some (if k = 0 \<or> k = trx_current_id u then \<not> del else del))"
proof -
  obtain r where r: "set_record_trx_id m k del rec = Some r" using set_get_trx [OF assms, of del rec] by metis
  from r is_visible_set [OF assms r] show ?thesis by blast
qed

text \<open>
  C19. A record that transaction \<open>t\<close> writes (\<^verbatim>\<open>init_trx_info\<close>) and has not committed is visible in \<open>t\<close> and in no other
  transaction, and one that it deletes (\<^verbatim>\<open>delete_record\<close>) is visible in every other transaction and not in \<open>t\<close>;
  after \<^verbatim>\<open>commit_insert\<close>, \<^verbatim>\<open>commit_update\<close> or \<^verbatim>\<open>rollback_delete\<close> every transaction sees the record.
\<close>

theorem uncommitted_visibility:
  assumes m: "has_trx m" and n: "0 < trx_current_id t" "trx_current_id t < 2 ^ 31"
    and new: "find_operation tab rid t = None"
  shows "(\<exists>r. init_trx_info m t rec = Some r \<and> (\<forall>u. is_visible m r u = Some (trx_current_id u = trx_current_id t))) \<and>
    (\<exists>r t'. trx_delete_record tab m rid rec t c = Some (SUCCESS, r, t', c) \<and>
       (\<forall>u. is_visible m r u = Some (trx_current_id u \<noteq> trx_current_id t))) \<and>
    (\<exists>r. trx_commit_insert m rec = Some (SUCCESS, r) \<and> trx_commit_update m rec = Some (SUCCESS, r) \<and>
       trx_rollback_delete m rec = Some (SUCCESS, r) \<and> (\<forall>u. is_visible m r u = Some True))"
proof (intro conjI)
  have 0: "0 \<le> trx_current_id t" using n by simp
  show "\<exists>r. init_trx_info m t rec = Some r \<and> (\<forall>u. is_visible m r u = Some (trx_current_id u = trx_current_id t))"
    using visible_after_set [OF m 0 n(2), of False rec] n(1) by (fastforce simp add: init_trx_info_def)
  obtain r where "set_record_trx_id m (trx_current_id t) True rec = Some r"
    and "\<And>u. is_visible m r u = Some (if trx_current_id t = 0 \<or> trx_current_id t = trx_current_id u then \<not> True else True)"
    using visible_after_set [OF m 0 n(2), of True rec] by blast
  thus "\<exists>r t'. trx_delete_record tab m rid rec t c = Some (SUCCESS, r, t', c) \<and>
       (\<forall>u. is_visible m r u = Some (trx_current_id u \<noteq> trx_current_id t))"
    using n(1) new by (fastforce simp add: trx_delete_record_def start_if_not_started_def)
  show "\<exists>r. trx_commit_insert m rec = Some (SUCCESS, r) \<and> trx_commit_update m rec = Some (SUCCESS, r) \<and>
       trx_rollback_delete m rec = Some (SUCCESS, r) \<and> (\<forall>u. is_visible m r u = Some True)"
    using visible_after_set [OF m, of 0 False rec]
    by (auto simp add: trx_commit_insert_def trx_commit_update_def trx_rollback_delete_def)
qed

definition demo_trx :: Trx where
  "demo_trx = \<lparr>trx_current_id = 7, trx_operations = []\<rparr>"

lemma has_trx_sys: "tm_fields m = sys_fields @ fs \<Longrightarrow> has_trx m"
  by (simp add: has_trx_def trx_field_def sys_fields_def nth_append)

lemma demo_table_has_trx: "has_trx demo_table"
  by (rule has_trx_sys [of _ "layout 8 demo_attrs"])
    (use TableMeta_init_layout [of "''t''" demo_attrs "[]" False TableMeta_new] demo_attrs_ok valid_storable [of demo_attrs]
     in \<open>simp add: demo_table_def\<close>)

theorem uncommitted_visibility_witness:
  "\<exists>r. init_trx_info demo_table demo_trx (\<lambda>_. 0) = Some r \<and> is_visible demo_table r demo_trx = Some True \<and>
     is_visible demo_table r (demo_trx\<lparr>trx_current_id := 8\<rparr>) = Some False"
proof -
  have "find_operation 0 (mk_rid 1 2) demo_trx = None" by (simp add: find_operation_def demo_trx_def)
  from uncommitted_visibility [OF demo_table_has_trx _ _ this, of "\<lambda>_. 0" 0]
  obtain r where "init_trx_info demo_table demo_trx (\<lambda>_. 0) = Some r"
    and "\<And>u. is_visible demo_table r u = Some (trx_current_id u = trx_current_id demo_trx)"
    by (auto simp add: demo_trx_def)
  thus ?thesis by (simp add: demo_trx_def)
qed

section \<open>The operations of a transaction\<close>

text \<open>
  What the record operations need from the operation set: a map from tables and records, where inserting
  keeps an entry that is there.
\<close>

locale operation_log =
  fixes find :: "nat \<Rightarrow> RID \<Rightarrow> 't \<Rightarrow> OperationType option"
    and ins :: "nat \<Rightarrow> OperationType \<Rightarrow> RID \<Rightarrow> 't \<Rightarrow> 't"
    and del :: "nat \<Rightarrow> RID \<Rightarrow> 't \<Rightarrow> 't"
  assumes find_ins: "find tab rid (ins tab' type rid' t) =
      (if tab = tab' \<and> rid = rid' \<and> find tab rid t = None then Some type else find tab rid t)"
    and find_del: "find tab rid (del tab' rid' t) = (if tab = tab' \<and> rid = rid' then None else find tab rid t)"
begin

lemma replace: "find tab rid (ins tab' type rid' (del tab' rid' t)) = (if tab = tab' \<and> rid = rid' then Some type else find tab rid t)"
  by (simp add: find_ins find_del)

lemma ins_keeps: "find tab rid t = Some ty \<Longrightarrow> find tab rid (ins tab' type rid' t) = Some ty"
  by (simp add: find_ins)

end

lemma rid_key_inject [simp]: "rid_key r = rid_key r' \<longleftrightarrow> r = r'"
  by (cases r; cases r') (auto simp add: rid_key_def)

lemma map_of_filter_key: "map_of (filter (\<lambda>(k, _). k \<noteq> a) xs) b = (if b = a then None else map_of xs b)"
  by (induction xs) auto

lemma find_insert_operation:
  "find_operation tab rid (insert_operation tab' type rid' t) =
    (if tab = tab' \<and> rid = rid' \<and> find_operation tab rid t = None then Some type else find_operation tab rid t)"
  by (auto simp add: find_operation_def insert_operation_def Let_def update_conv map_add_def split: option.splits)

lemma find_delete_operation:
  "find_operation tab rid (delete_operation tab' rid' t) = (if tab = tab' \<and> rid = rid' then None else find_operation tab rid t)"
  by (auto simp add: find_operation_def delete_operation_def update_conv map_of_filter_key split: option.splits)

interpretation trx_log: operation_log find_operation insert_operation delete_operation
  by unfold_locales (rule find_insert_operation, rule find_delete_operation)

lemma trx_id_operations [simp]:
  "trx_current_id (insert_operation tab type rid t) = trx_current_id t"
  "trx_current_id (delete_operation tab rid t) = trx_current_id t"
  by (simp_all add: insert_operation_def delete_operation_def Let_def split: option.splits)

text \<open>The calls for one record, and the operation that the transaction has to do for it.\<close>

datatype rec_call = CallInsert | CallUpdate | CallDelete

fun rec_step :: "rec_call \<Rightarrow> OperationType option \<Rightarrow> (RC \<times> OperationType option)" where
  "rec_step CallInsert None = (SUCCESS, Some INSERT)"
| "rec_step CallInsert (Some DELETE) = (SUCCESS, Some INSERT)"
| "rec_step CallUpdate None = (SUCCESS, Some UPDATE)"
| "rec_step CallUpdate (Some UPDATE) = (SUCCESS, Some UPDATE)"
| "rec_step CallUpdate (Some INSERT) = (SUCCESS, Some INSERT)"
| "rec_step CallDelete None = (SUCCESS, Some DELETE)"
| "rec_step CallDelete (Some INSERT) = (SUCCESS, None)"
| "rec_step _ q = (GENERIC_ERROR, q)"

definition trx_call :: "(nat \<Rightarrow> TableMeta) \<Rightarrow> nat \<times> RID \<times> rec_call \<times> mem \<Rightarrow> Trx \<times> int \<Rightarrow> (RC \<times> Trx \<times> int) option" where
  "trx_call ms call st = (case (call, st) of ((tab, rid, k, rec), (t, c)) \<Rightarrow>
     (case k of
        CallInsert \<Rightarrow> (case trx_insert_record tab rid t of (rc, t) \<Rightarrow> Some (rc, t, c))
      | CallUpdate \<Rightarrow> do { (rc, _, t) \<leftarrow> trx_update_record tab (ms tab) rid rec t; Some (rc, t, c) }
      | CallDelete \<Rightarrow> do { (rc, _, t, c) \<leftarrow> trx_delete_record tab (ms tab) rid rec t c; Some (rc, t, c) }))"

fun trx_run :: "(nat \<Rightarrow> TableMeta) \<Rightarrow> (nat \<times> RID \<times> rec_call \<times> mem) list \<Rightarrow> Trx \<times> int \<Rightarrow> (RC list \<times> Trx \<times> int) option" where
  "trx_run ms [] st = Some ([], st)"
| "trx_run ms (k # ks) st = do {
     (rc, st) \<leftarrow> trx_call ms k st;
     (rcs, st) \<leftarrow> trx_run ms ks st;
     Some (rc # rcs, st)
   }"

text \<open>The specification: a map from tables and records to the pending operation.\<close>

fun log_run :: "(nat \<times> RID \<times> rec_call \<times> mem) list \<Rightarrow> (nat \<times> RID \<Rightarrow> OperationType option) \<Rightarrow>
    RC list \<times> (nat \<times> RID \<Rightarrow> OperationType option)" where
  "log_run [] g = ([], g)"
| "log_run ((tab, rid, k, _) # ks) g =
     (case rec_step k (g (tab, rid)) of (rc, q) \<Rightarrow> case log_run ks (g((tab, rid) := q)) of (rcs, g) \<Rightarrow> (rc # rcs, g))"

definition pending :: "Trx \<Rightarrow> nat \<times> RID \<Rightarrow> OperationType option" where
  "pending t = (\<lambda>(tab, rid). find_operation tab rid t)"

lemma pending_insert: "find_operation tab rid t = None \<Longrightarrow> pending (insert_operation tab ty rid t) = (pending t)((tab, rid) := Some ty)"
  by (auto simp add: pending_def trx_log.find_ins)

lemma pending_insert_again: "find_operation tab rid t = Some q \<Longrightarrow> pending (insert_operation tab ty rid t) = pending t"
  by (auto simp add: pending_def trx_log.find_ins intro!: ext)

lemma pending_delete: "pending (delete_operation tab rid t) = (pending t)((tab, rid) := None)"
  by (auto simp add: pending_def trx_log.find_del)

lemma pending_replace: "pending (insert_operation tab ty rid (delete_operation tab rid t)) = (pending t)((tab, rid) := Some ty)"
  by (auto simp add: pending_def trx_log.replace)

lemma pending_same: "find_operation tab rid t = q \<Longrightarrow> (pending t)((tab, rid) := q) = pending t"
  by (auto simp add: pending_def)

lemmas pending_simps = pending_insert pending_insert_again pending_delete pending_replace pending_same

lemma pending_start [simp]:
  "pending (t\<lparr>trx_current_id := n\<rparr>) = pending t" "find_operation tab rid (t\<lparr>trx_current_id := n\<rparr>) = find_operation tab rid t"
  by (auto simp add: pending_def find_operation_def)

lemma set_trx_defined: "has_trx m \<Longrightarrow> \<exists>r. set_record_trx_id m n d rec = Some r"
  by (erule has_trxE) (simp add: set_record_trx_id_def)

lemma call_refines:
  assumes m: "has_trx (ms tab)"
  shows "\<exists>t' c'. trx_call ms (tab, rid, k, rec) (t, c) = Some (fst (rec_step k (find_operation tab rid t)), t', c') \<and>
    pending t' = (pending t)((tab, rid) := snd (rec_step k (find_operation tab rid t)))"
proof (cases k)
  case CallInsert
  thus ?thesis
    by (cases "find_operation tab rid t" rule: option.exhaust; cases "the (find_operation tab rid t)")
      (simp_all add: trx_call_def trx_insert_record_def pending_simps)
next
  case CallUpdate
  obtain r where r: "set_record_trx_id (ms tab) (trx_current_id t) False rec = Some r" using set_trx_defined [OF m] by blast
  show ?thesis using CallUpdate
    by (cases "find_operation tab rid t" rule: option.exhaust; cases "the (find_operation tab rid t)")
      (simp_all add: trx_call_def trx_update_record_def Let_def pending_simps r)
next
  case CallDelete
  obtain t1 c1 where s: "start_if_not_started t c = (t1, c1)" "pending t1 = pending t"
      "find_operation tab rid t1 = find_operation tab rid t"
    by (cases "trx_current_id t = 0") (auto simp add: start_if_not_started_def next_trx_id_def intro: that)
  obtain r where r: "set_record_trx_id (ms tab) (trx_current_id t1) True rec = Some r" using set_trx_defined [OF m] by blast
  show ?thesis unfolding s(2,3) [symmetric] using CallDelete
    by (cases "find_operation tab rid t1" rule: option.exhaust; cases "the (find_operation tab rid t1)")
      (simp_all add: trx_call_def trx_delete_record_def s(1) pending_simps r)
qed

text \<open>
  C18. Any sequence of \<^verbatim>\<open>insert_record\<close>, \<^verbatim>\<open>update_record\<close> and \<^verbatim>\<open>delete_record\<close> calls of a transaction, on any tables and records,
  keeps exactly the pending operation that \<open>rec_step\<close> gives for each record, and returns its codes: an insert that is
  updated stays an insert, an insert that is deleted leaves nothing to commit, a second insert of a record, an
  update of a deleted record and a deletion of an updated record are refused with \<^verbatim>\<open>GENERIC_ERROR\<close>.
\<close>

theorem trx_operations_refine:
  assumes "\<And>tab. has_trx (ms tab)"
  shows "\<exists>t' c'. trx_run ms ks (t, c) = Some (fst (log_run ks (pending t)), t', c') \<and> pending t' = snd (log_run ks (pending t))"
proof (induction ks arbitrary: t c)
  case Nil
  show ?case by simp
next
  case (Cons k ks)
  obtain tab rid h rec where k: "k = (tab, rid, h, rec)" by (cases k)
  obtain rc q where q: "rec_step h (pending t (tab, rid)) = (rc, q)" by fastforce
  then obtain t1 c1 where t1: "trx_call ms k (t, c) = Some (rc, t1, c1)" "pending t1 = (pending t)((tab, rid) := q)"
    using call_refines [of ms tab, OF assms, of rid h rec t c] by (auto simp add: k pending_def)
  obtain rcs g where "log_run ks (pending t1) = (rcs, g)" by fastforce
  with Cons.IH [of t1 c1] t1(1) q show ?case unfolding t1(2) by (auto simp add: k simp del: fun_upd_apply)
qed

theorem trx_operations_refine_witness:
  "\<exists>t' c'. trx_run (\<lambda>_. demo_table)
     [(0, mk_rid 1 2, CallInsert, \<lambda>_. 0), (0, mk_rid 1 2, CallUpdate, \<lambda>_. 0), (0, mk_rid 1 3, CallUpdate, \<lambda>_. 0),
      (0, mk_rid 1 3, CallDelete, \<lambda>_. 0), (0, mk_rid 1 2, CallDelete, \<lambda>_. 0)] (demo_trx, 7) =
     Some ([SUCCESS, SUCCESS, SUCCESS, GENERIC_ERROR, SUCCESS], t', c') \<and> find_operation 0 (mk_rid 1 2) t' = None"
proof -
  let ?ks = "[(0, mk_rid 1 2, CallInsert, \<lambda>_. 0), (0, mk_rid 1 2, CallUpdate, \<lambda>_. 0), (0, mk_rid 1 3, CallUpdate, \<lambda>_. 0),
      (0, mk_rid 1 3, CallDelete, \<lambda>_. 0), (0, mk_rid 1 2, CallDelete, \<lambda>_. 0)] :: (nat \<times> RID \<times> rec_call \<times> mem) list"
  have d: "mk_rid 1 3 \<noteq> mk_rid 1 2" "mk_rid 1 2 \<noteq> mk_rid 1 3" by simp_all
  have p: "pending demo_trx = (\<lambda>_. None)" by (auto simp add: pending_def find_operation_def demo_trx_def)
  have l: "fst (log_run ?ks (pending demo_trx)) = [SUCCESS, SUCCESS, SUCCESS, GENERIC_ERROR, SUCCESS]"
      "snd (log_run ?ks (pending demo_trx)) (0, mk_rid 1 2) = None"
    by (simp_all add: p d)
  obtain t' c' where "trx_run (\<lambda>_. demo_table) ?ks (demo_trx, 7) = Some (fst (log_run ?ks (pending demo_trx)), t', c')"
      "pending t' = snd (log_run ?ks (pending demo_trx))"
    using trx_operations_refine [of "\<lambda>_. demo_table" ?ks demo_trx 7] demo_table_has_trx by auto
  then show ?thesis using l by (metis (no_types, lifting) case_prod_conv pending_def)
qed

end
