(* ===== verification/Ob_Table.thy ===== *)
theory Ob_Table
  imports Ob_Trx Ob_BplusScanner
begin

text \<open>
  Tables (\<open>src/src/observer/storage/common/table.cpp\<close>) and their indexes (\<open>src/src/observer/storage/index/bplus_tree_index.cpp\<close>).  Tables and transactions are
  objects in stores, a pointer to one is its number.  The data of a record is a buffer of the caller or lies in a
  frame of the buffer pool, where writing to it changes the page; an operation on records reads the bytes
  when it starts.  Memory that the code does not initialise comes from the stream \<open>ts_junk\<close>.
\<close>

section \<open>Indexes\<close>

record BplusTreeIndex =
  ix_meta :: IndexMeta
  ix_field :: FieldMeta
  ix_inited :: bool
  ix_handler :: BplusTreeHandler

definition rid_mem :: "RID \<Rightarrow> mem" where
  "rid_mem rid = store_int (store_int (\<lambda>_. 0) 0 (rid_page_num rid)) 4 (rid_slot_num rid)"

definition rid_of_bytes :: "byte list \<Rightarrow> RID" where
  "rid_of_bytes bs = mk_rid (load_int (list_mem bs) 0) (load_int (list_mem bs) 4)"

definition index_create :: "string \<Rightarrow> IndexMeta \<Rightarrow> FieldMeta \<Rightarrow> BplusTreeIndex \<Rightarrow> BPSys \<Rightarrow> (RC \<times> BplusTreeIndex \<times> BPSys) option" where
  "index_create name im f ix s =
     (if ix_inited ix then Some (RECORD_OPENNED, ix, s)
      else do {
        let ix = ix\<lparr>ix_meta := im, ix_field := f\<rparr>;
        (rc, h, s) \<leftarrow> bt_create name (fm_type f) (fm_len f) (- 1) (- 1) (ix_handler ix) s;
        if rc \<noteq> SUCCESS then Some (rc, ix\<lparr>ix_handler := h\<rparr>, s)
        else Some (SUCCESS, ix\<lparr>ix_handler := h, ix_inited := True\<rparr>, s)
      })"

definition index_open :: "string \<Rightarrow> IndexMeta \<Rightarrow> FieldMeta \<Rightarrow> BplusTreeIndex \<Rightarrow> BPSys \<Rightarrow> (RC \<times> BplusTreeIndex \<times> BPSys) option" where
  "index_open name im f ix s =
     (if ix_inited ix then Some (RECORD_OPENNED, ix, s)
      else do {
        let ix = ix\<lparr>ix_meta := im, ix_field := f\<rparr>;
        (rc, h, s) \<leftarrow> bt_open name (ix_handler ix) s;
        if rc \<noteq> SUCCESS then Some (rc, ix\<lparr>ix_handler := h\<rparr>, s)
        else Some (SUCCESS, ix\<lparr>ix_handler := h, ix_inited := True\<rparr>, s)
      })"

definition index_close :: "BplusTreeIndex \<Rightarrow> BPSys \<Rightarrow> (RC \<times> BplusTreeIndex \<times> BPSys) option" where
  "index_close ix s =
     (if ix_inited ix then do {
        (_, h, s) \<leftarrow> bt_close (ix_handler ix) s;
        Some (SUCCESS, ix\<lparr>ix_handler := h, ix_inited := False\<rparr>, s)
      }
      else Some (SUCCESS, ix, s))"

definition index_insert_entry :: "mem \<Rightarrow> RID \<Rightarrow> BplusTreeIndex \<Rightarrow> BPSys \<Rightarrow> (RC \<times> BplusTreeIndex \<times> BPSys) option" where
  "index_insert_entry rec rid ix s =
     (if fm_offset (ix_field ix) < 0 then None
      else do {
        (rc, h, s) \<leftarrow> insert_entry (ix_handler ix) (Some (at_off rec (nat (fm_offset (ix_field ix))))) (Some (rid_mem rid)) s;
        Some (rc, ix\<lparr>ix_handler := h\<rparr>, s)
      })"

definition index_delete_entry :: "mem \<Rightarrow> RID \<Rightarrow> BplusTreeIndex \<Rightarrow> BPSys \<Rightarrow> (RC \<times> BplusTreeIndex \<times> BPSys) option" where
  "index_delete_entry rec rid ix s =
     (if fm_offset (ix_field ix) < 0 then None
      else do {
        (rc, h, s) \<leftarrow> delete_entry (ix_handler ix) (at_off rec (nat (fm_offset (ix_field ix)))) (rid_mem rid) s;
        Some (rc, ix\<lparr>ix_handler := h\<rparr>, s)
      })"

text \<open>A scanner that cannot be opened is closed again by its destructor.\<close>

definition create_scanner :: "mem option \<Rightarrow> int \<Rightarrow> bool \<Rightarrow> mem option \<Rightarrow> int \<Rightarrow> bool \<Rightarrow> BplusTreeIndex \<Rightarrow> BPSys \<Rightarrow>
    (BplusTreeScanner option \<times> BPSys) option" where
  "create_scanner left left_len left_inclusive right right_len right_inclusive ix s = do {
     (rc, c, s) \<leftarrow> sc_open (ix_handler ix) left left_len left_inclusive right right_len right_inclusive sc_new s;
     if rc \<noteq> SUCCESS then do { (_, _, s) \<leftarrow> sc_close (ix_handler ix) c s; Some (None, s) }
     else Some (Some c, s)
   }"

definition index_sync :: "BplusTreeIndex \<Rightarrow> BPSys \<Rightarrow> (RC \<times> BPSys) option" where
  "index_sync ix s = bt_sync (ix_handler ix) s"

section \<open>State\<close>

datatype RecordData = Buffer mem | InPage nat nat

record Record =
  rec_rid :: RID
  rec_ref :: RecordData

record Table =
  tab_base_dir :: string
  tab_meta :: TableMeta
  tab_pool :: "nat option"
  tab_handler :: "RecordFileHandler option"
  tab_indexes :: "BplusTreeIndex list"

record TableSys =
  ts_bp :: BPSys
  ts_tables :: "nat \<Rightarrow> Table"
  ts_trxs :: "nat \<Rightarrow> Trx"
  ts_trx_counter :: int
  ts_sys_fields :: "FieldMeta list"
  ts_clog :: CLogManager
  ts_fs :: FileSys
  ts_meta_files :: "string \<rightharpoonup> string"
  ts_meta_faults :: "bool list"
  ts_junk :: "nat \<Rightarrow> mem"

definition new_mem :: "TableSys \<Rightarrow> mem \<times> TableSys" where
  "new_mem s = (ts_junk s 0, s\<lparr>ts_junk := (\<lambda>i. ts_junk s (Suc i))\<rparr>)"

definition upd_table :: "nat \<Rightarrow> (Table \<Rightarrow> Table) \<Rightarrow> TableSys \<Rightarrow> TableSys" where
  "upd_table tab f s = s\<lparr>ts_tables := (ts_tables s)(tab := f (ts_tables s tab))\<rparr>"

definition upd_trx :: "nat \<Rightarrow> Trx \<Rightarrow> TableSys \<Rightarrow> TableSys" where
  "upd_trx t x s = s\<lparr>ts_trxs := (ts_trxs s)(t := x)\<rparr>"

definition read_data :: "RecordData \<Rightarrow> BPSys \<Rightarrow> mem" where
  "read_data d s = (case d of Buffer m \<Rightarrow> m | InPage a off \<Rightarrow> at_off (frame_data s a) off)"

definition put_at :: "mem \<Rightarrow> nat \<Rightarrow> mem \<Rightarrow> mem" where
  "put_at p off m = (\<lambda>i. if i < off then p i else m (i - off))"

definition write_data :: "mem \<Rightarrow> Record \<Rightarrow> TableSys \<Rightarrow> Record \<times> TableSys" where
  "write_data m r s = (case rec_ref r of
      Buffer _ \<Rightarrow> (r\<lparr>rec_ref := Buffer m\<rparr>, s)
    | InPage a off \<Rightarrow> (r, s\<lparr>ts_bp := upd_data a (\<lambda>p. put_at p off m) (ts_bp s)\<rparr>))"

definition record_data :: "Record \<Rightarrow> TableSys \<Rightarrow> mem" where
  "record_data r s = read_data (rec_ref r) (ts_bp s)"

abbreviation meta_of :: "nat \<Rightarrow> TableSys \<Rightarrow> TableMeta" where
  "meta_of tab s \<equiv> tab_meta (ts_tables s tab)"

section \<open>Making a record\<close>

text \<open>The types of the values and the bitmap of null values; \<^verbatim>\<open>null_map\<close> is a 32-bit number.\<close>

fun check_values :: "FieldMeta list \<Rightarrow> Value list \<Rightarrow> int \<Rightarrow> RC \<times> int" where
  "check_values (f # fs) (v # vs) null_map =
     (let null_map = wrap32 (null_map * 2) in
      if val_type v = NULLS then
        if fm_nullable f then check_values fs vs (wrap32 (null_map + 1)) else (SCHEMA_FIELD_NOT_NULL, null_map)
      else if fm_type f \<noteq> val_type v then (SCHEMA_FIELD_TYPE_MISMATCH, null_map)
      else check_values fs vs null_map)"
| "check_values _ _ null_map = (SUCCESS, null_map)"

text \<open>A string is copied with its terminator when it is shorter than the field.\<close>

definition copy_len :: "FieldMeta \<Rightarrow> mem \<Rightarrow> nat option" where
  "copy_len f d =
     (if fm_type f = CHARS then do {
        str \<leftarrow> c_string d;
        Some (if nat (fm_len f) > length str then length str + 1 else nat (fm_len f))
      }
      else Some (nat (fm_len f)))"

fun copy_values :: "FieldMeta list \<Rightarrow> Value list \<Rightarrow> mem \<Rightarrow> mem option" where
  "copy_values (f # fs) (v # vs) rec =
     (if val_type v = NULLS then copy_values fs vs rec
      else do {
        d \<leftarrow> val_data v;
        n \<leftarrow> copy_len f d;
        if fm_offset f < 0 \<or> fm_len f < 0 then None
        else copy_values fs vs (blit rec (nat (fm_offset f)) d n)
      })"
| "copy_values _ _ rec = Some rec"

text \<open>The bitmap is shifted to the upper end of the word: \<^verbatim>\<open>32 - value_num\<close> has to be a legal shift.\<close>

definition make_record :: "FieldMeta list \<Rightarrow> TableMeta \<Rightarrow> mem \<Rightarrow> Value list \<Rightarrow> (RC \<times> mem) option" where
  "make_record sys m raw values =
     (if length values + length sys \<noteq> length (tm_fields m) then Some (SCHEMA_FIELD_MISSING, raw)
      else
        let fs = drop (length sys) (tm_fields m) in
        case check_values fs values 0 of (rc, null_map) \<Rightarrow>
          if rc \<noteq> SUCCESS then Some (rc, raw)
          else if values = [] \<or> length values > 32 then None
          else do {
            nul \<leftarrow> null_field m;
            let null_map = wrap32 (null_map * 2 ^ (32 - length values));
            if fm_offset nul < 0 \<or> fm_len nul < 0 \<or> fm_len nul > 4 then None
            else do {
              rec \<leftarrow> copy_values fs values (blit raw (nat (fm_offset nul)) (store_int (\<lambda>_. 0) 0 null_map) (nat (fm_len nul)));
              Some (SUCCESS, rec)
            }
          })"

end
