(* ===== verification/Ob_TableOps.thy ===== *)
theory Ob_TableOps
  imports Ob_Table
begin

text \<open>
  The operations of \<^verbatim>\<open>Table\<close> on records (\<open>src/src/observer/storage/common/table.cpp\<close>): inserting, updating and deleting with the indexes, the
  transaction and the redo log, and the scans.  \<open>atof\<close> is the number conversion that comparisons of strings use.
\<close>

section \<open>Indexes of a record\<close>

definition with_indexes :: "nat \<Rightarrow> (BplusTreeIndex list \<Rightarrow> BPSys \<Rightarrow> (RC \<times> BplusTreeIndex list \<times> BPSys) option) \<Rightarrow> TableSys \<Rightarrow> (RC \<times> TableSys) option" where
  "with_indexes tab f s = do {
     (rc, ixs, b) \<leftarrow> f (tab_indexes (ts_tables s tab)) (ts_bp s);
     Some (rc, upd_table tab (tab_indexes_update (\<lambda>_. ixs)) (s\<lparr>ts_bp := b\<rparr>))
   }"

text \<open>The data is read for each index: a record in a page can change while pages are loaded.\<close>

fun insert_entries :: "RecordData \<Rightarrow> RID \<Rightarrow> BplusTreeIndex list \<Rightarrow> BPSys \<Rightarrow> (RC \<times> BplusTreeIndex list \<times> BPSys) option" where
  "insert_entries d rid [] s = Some (SUCCESS, [], s)"
| "insert_entries d rid (ix # ixs) s = do {
     (rc, ix, s) \<leftarrow> index_insert_entry (read_data d s) rid ix s;
     if rc \<noteq> SUCCESS then Some (rc, ix # ixs, s)
     else do { (rc, ixs, s) \<leftarrow> insert_entries d rid ixs s; Some (rc, ix # ixs, s) }
   }"

fun delete_entries :: "RecordData \<Rightarrow> RID \<Rightarrow> bool \<Rightarrow> RC \<Rightarrow> BplusTreeIndex list \<Rightarrow> BPSys \<Rightarrow> (RC \<times> BplusTreeIndex list \<times> BPSys) option" where
  "delete_entries d rid error_on_not_exists rc [] s = Some (rc, [], s)"
| "delete_entries d rid error_on_not_exists rc (ix # ixs) s = do {
     (rc, ix, s) \<leftarrow> index_delete_entry (read_data d s) rid ix s;
     if rc \<noteq> SUCCESS \<and> (rc \<noteq> RECORD_INVALID_KEY \<or> \<not> error_on_not_exists) then Some (rc, ix # ixs, s)
     else do { (rc, ixs, s) \<leftarrow> delete_entries d rid error_on_not_exists rc ixs s; Some (rc, ix # ixs, s) }
   }"

definition insert_entry_of_indexes :: "nat \<Rightarrow> RecordData \<Rightarrow> RID \<Rightarrow> TableSys \<Rightarrow> (RC \<times> TableSys) option" where
  "insert_entry_of_indexes tab d rid s = with_indexes tab (insert_entries d rid) s"

definition delete_entry_of_indexes :: "nat \<Rightarrow> RecordData \<Rightarrow> RID \<Rightarrow> bool \<Rightarrow> TableSys \<Rightarrow> (RC \<times> TableSys) option" where
  "delete_entry_of_indexes tab d rid error_on_not_exists s = with_indexes tab (delete_entries d rid error_on_not_exists SUCCESS) s"

section \<open>The record file of a table\<close>

definition put_handler :: "nat \<Rightarrow> RecordFileHandler \<Rightarrow> BPSys \<Rightarrow> TableSys \<Rightarrow> TableSys" where
  "put_handler tab h b s = upd_table tab (tab_handler_update (\<lambda>_. Some h)) (s\<lparr>ts_bp := b\<rparr>)"

definition file_insert :: "nat \<Rightarrow> mem \<Rightarrow> TableSys \<Rightarrow> (RC \<times> RID \<times> TableSys) option" where
  "file_insert tab rec s = do {
     h \<leftarrow> tab_handler (ts_tables s tab);
     (rc, rid, h, b) \<leftarrow> rfh_insert_record rec (tm_record_size (meta_of tab s)) h (ts_bp s);
     Some (rc, rid, put_handler tab h b s)
   }"

definition file_delete :: "nat \<Rightarrow> RID \<Rightarrow> TableSys \<Rightarrow> (RC \<times> TableSys) option" where
  "file_delete tab rid s = do {
     h \<leftarrow> tab_handler (ts_tables s tab);
     (rc, h, b) \<leftarrow> rfh_delete_record rid h (ts_bp s);
     Some (rc, put_handler tab h b s)
   }"

definition file_update :: "nat \<Rightarrow> mem \<Rightarrow> RID \<Rightarrow> TableSys \<Rightarrow> (RC \<times> TableSys) option" where
  "file_update tab rec rid s = do {
     h \<leftarrow> tab_handler (ts_tables s tab);
     (rc, b) \<leftarrow> rfh_update_record rec rid h (ts_bp s);
     Some (rc, s\<lparr>ts_bp := b\<rparr>)
   }"

text \<open>The record that \<^verbatim>\<open>get_record\<close> fills in lies in its page; without one its data pointer is null.\<close>

definition file_get :: "nat \<Rightarrow> RID \<Rightarrow> TableSys \<Rightarrow> (RC \<times> Record option \<times> TableSys) option" where
  "file_get tab rid s = do {
     h \<leftarrow> tab_handler (ts_tables s tab);
     (rc, loc, b) \<leftarrow> rfh_get_record rid h (ts_bp s);
     Some (rc, map_option (\<lambda>(a, off). \<lparr>rec_rid = rid, rec_ref = InPage a off\<rparr>) loc, s\<lparr>ts_bp := b\<rparr>)
   }"

section \<open>Unique keys\<close>

definition rfs_new :: "mem \<Rightarrow> RecordFileScanner" where
  "rfs_new raw = \<lparr>rfs_pool = None, rfs_bp_iterator = \<lparr>bpi_pool = 0, bpi_page_count = 0, bpi_current_page_num = - 1\<rparr>, rfs_filter = None,
     rfs_handler = rph_new, rfs_iter = None, rfs_next = (mk_rid (load_int raw 0) (load_int raw 4), 0, 0)\<rparr>"

text \<open>The scanner's page handler is cleaned up by its destructor.\<close>

definition drop_scanner :: "RecordFileScanner \<Rightarrow> TableSys \<Rightarrow> TableSys option" where
  "drop_scanner c s = do { (_, b) \<leftarrow> rph_cleanup (rfs_handler c) (ts_bp s); Some (s\<lparr>ts_bp := b\<rparr>) }"

definition unique_filter :: "FieldMeta list \<Rightarrow> TableMeta \<Rightarrow> mem \<Rightarrow> string \<Rightarrow> ConditionFilter option" where
  "unique_filter sys m rec name = (case field_and_index sys (Some name) m of (field, i) \<Rightarrow> do {
     f \<leftarrow> field;
     nul \<leftarrow> null_field m;
     is_null \<leftarrow> null_bit rec (fm_offset nul) i;
     let left = \<lparr>cd_is_attr = True, cd_length = fm_len f, cd_offset = fm_offset f, cd_i = i, cd_sysnull = fm_offset nul, cd_value = None\<rparr>;
     let right = ConDesc_new\<lparr>cd_value := Some (at_off rec (nat (fm_offset f)))\<rparr>;
     Some (DefaultFilter (snd (dcf_init_desc left right (fm_type f) (if is_null then NULLS else fm_type f) EQUAL_TO DefaultConditionFilter_new)))
   })"

text \<open>A filter whose evaluation is not defined is taken not to accept the record.\<close>

definition filter_pred :: "(byte list \<Rightarrow> f32) \<Rightarrow> ConditionFilter \<Rightarrow> mem \<Rightarrow> bool" where
  "filter_pred atof f m \<longleftrightarrow> cf_filter atof f m = Some True"

fun unique_from :: "(byte list \<Rightarrow> f32) \<Rightarrow> nat \<Rightarrow> mem \<Rightarrow> BplusTreeIndex list \<Rightarrow> TableSys \<Rightarrow> (bool \<times> TableSys) option" where
  "unique_from atof tab rec [] s = Some (True, s)"
| "unique_from atof tab rec (ix # ixs) s =
     (if \<not> is_unique (ix_meta ix) then unique_from atof tab rec ixs s
      else do {
        fs \<leftarrow> those (map (unique_filter (ts_sys_fields s) (meta_of tab s) rec) (im_fields (ix_meta ix)));
        b \<leftarrow> tab_pool (ts_tables s tab);
        let (raw, s) = new_mem s;
        (_, c, bp) \<leftarrow> open_scan b (Some (filter_pred atof (CompositeFilter fs))) (rfs_new raw) (ts_bp s);
        if rfs_has_next c then do {
          (rc, _, c, bp) \<leftarrow> rfs_next_record c bp;
          s \<leftarrow> drop_scanner c (s\<lparr>ts_bp := bp\<rparr>);
          if rc = SUCCESS then Some (False, s) else unique_from atof tab rec ixs s
        }
        else do { s \<leftarrow> drop_scanner c (s\<lparr>ts_bp := bp\<rparr>); unique_from atof tab rec ixs s }
      })"

definition is_unique_key :: "(byte list \<Rightarrow> f32) \<Rightarrow> nat \<Rightarrow> Record \<Rightarrow> TableSys \<Rightarrow> (bool \<times> TableSys) option" where
  "is_unique_key atof tab r s = unique_from atof tab (record_data r s) (tab_indexes (ts_tables s tab)) s"

section \<open>The transaction and the redo log\<close>

text \<open>\<^verbatim>\<open>init_trx_info\<close>, when there is a transaction.\<close>

definition stamp_record :: "nat \<Rightarrow> nat option \<Rightarrow> Record \<Rightarrow> TableSys \<Rightarrow> (Record \<times> TableSys) option" where
  "stamp_record tab trx r s = (case trx of
      None \<Rightarrow> Some (r, s)
    | Some t \<Rightarrow> do {
        rec \<leftarrow> init_trx_info (meta_of tab s) (ts_trxs s t) (record_data r s);
        Some (write_data rec r s)
      })"

definition name_bytes :: "string \<Rightarrow> byte list" where
  "name_bytes = map of_char"

definition log_operation :: "CLogType \<Rightarrow> nat \<Rightarrow> nat \<Rightarrow> int \<Rightarrow> Record \<Rightarrow> TableSys \<Rightarrow> (RC \<times> TableSys) option" where
  "log_operation type tab t len r s = do {
     let (u1, s) = new_mem s;
     let (u2, s) = new_mem s;
     (rc, lr, cm) \<leftarrow> clog_gen_record (u1, u2) type (trx_current_id (ts_trxs s t)) (Some (name_bytes (tm_name (meta_of tab s)))) len
        (Some (rec_rid r, Some (record_data r s))) (ts_clog s);
     if rc \<noteq> SUCCESS then Some (rc, s\<lparr>ts_clog := cm\<rparr>)
     else do {
       (rc, cm, w) \<leftarrow> clog_append_record (Some lr) cm (ts_fs s);
       Some (rc, s\<lparr>ts_clog := cm, ts_fs := w\<rparr>)
     }
   }"

section \<open>Changing records\<close>

definition insert_record :: "(byte list \<Rightarrow> f32) \<Rightarrow> nat \<Rightarrow> nat option \<Rightarrow> Record \<Rightarrow> TableSys \<Rightarrow> (RC \<times> Record \<times> TableSys) option" where
  "insert_record atof tab trx r s = do {
     (r, s) \<leftarrow> stamp_record tab trx r s;
     (unique, s) \<leftarrow> is_unique_key atof tab r s;
     if \<not> unique then Some (RECORD_DUPLICATE_KEY, r, s)
     else do {
       (rc, rid, s) \<leftarrow> file_insert tab (record_data r s) s;
       if rc \<noteq> SUCCESS then Some (rc, r, s)
       else do {
         let r = r\<lparr>rec_rid := rid\<rparr>;
         (rc, s) \<leftarrow> (case trx of
             None \<Rightarrow> Some (SUCCESS, s)
           | Some t \<Rightarrow> (case trx_insert_record tab rid (ts_trxs s t) of (rc, x) \<Rightarrow> Some (rc, upd_trx t x s)));
         if rc \<noteq> SUCCESS then do { (_, s) \<leftarrow> file_delete tab rid s; Some (rc, r, s) }
         else do {
           (rc, s) \<leftarrow> insert_entry_of_indexes tab (rec_ref r) rid s;
           if rc \<noteq> SUCCESS then do {
             (_, s) \<leftarrow> delete_entry_of_indexes tab (rec_ref r) rid True s;
             (_, s) \<leftarrow> file_delete tab rid s;
             Some (rc, r, s)
           }
           else (case trx of
               None \<Rightarrow> Some (SUCCESS, r, s)
             | Some t \<Rightarrow> do {
                 (rc, s) \<leftarrow> log_operation REDO_INSERT tab t (tm_record_size (meta_of tab s)) r s;
                 Some (rc, r, s)
               })
         }
       }
     }
   }"

definition insert_values :: "(byte list \<Rightarrow> f32) \<Rightarrow> nat \<Rightarrow> nat option \<Rightarrow> Value list \<Rightarrow> TableSys \<Rightarrow> (RC \<times> TableSys) option" where
  "insert_values atof tab trx values s =
     (if values = [] then Some (INVALID_ARGUMENT, s)
      else do {
        let (raw, s) = new_mem s;
        (rc, rec) \<leftarrow> make_record (ts_sys_fields s) (meta_of tab s) raw values;
        if rc \<noteq> SUCCESS then Some (rc, s)
        else do {
          let (u, s) = new_mem s;
          (rc, _, s) \<leftarrow> insert_record atof tab trx \<lparr>rec_rid = mk_rid (load_int u 0) (load_int u 4), rec_ref = Buffer rec\<rparr> s;
          Some (rc, s)
        }
      })"

text \<open>The rows of an \<^verbatim>\<open>INSERT\<close>: row \<open>k\<close> ends at \<^verbatim>\<open>offset[k]\<close>.\<close>

fun insert_rows :: "(byte list \<Rightarrow> f32) \<Rightarrow> nat \<Rightarrow> nat option \<Rightarrow> nat \<Rightarrow> nat list \<Rightarrow> Value list \<Rightarrow> TableSys \<Rightarrow> (RC \<times> TableSys) option" where
  "insert_rows atof tab trx left [] values s = Some (SUCCESS, s)"
| "insert_rows atof tab trx left (off # offs) values s = do {
     (rc, s) \<leftarrow> insert_values atof tab trx (take (off - left) (drop left values)) s;
     if rc \<noteq> SUCCESS then Some (rc, s) else insert_rows atof tab trx off offs values s
   }"

definition update_record :: "nat \<Rightarrow> nat option \<Rightarrow> Record \<Rightarrow> TableSys \<Rightarrow> (RC \<times> Record \<times> TableSys) option" where
  "update_record tab trx r s = do {
     (r, s) \<leftarrow> stamp_record tab trx r s;
     (_, s) \<leftarrow> delete_entry_of_indexes tab (rec_ref r) (rec_rid r) False s;
     (rc, s) \<leftarrow> file_update tab (record_data r s) (rec_rid r) s;
     if rc \<noteq> SUCCESS then Some (rc, r, s)
     else do {
       (rc, r, s) \<leftarrow> (case trx of
           None \<Rightarrow> Some (SUCCESS, r, s)
         | Some t \<Rightarrow> do {
             (rc, rec, x) \<leftarrow> trx_update_record tab (meta_of tab s) (rec_rid r) (record_data r s) (ts_trxs s t);
             let (r, s) = write_data rec r s;
             Some (rc, r, upd_trx t x s)
           });
       if rc \<noteq> SUCCESS then Some (rc, r, s)
       else do {
         (rc, s) \<leftarrow> insert_entry_of_indexes tab (rec_ref r) (rec_rid r) s;
         (case trx of
            None \<Rightarrow> Some (rc, r, s)
          | Some t \<Rightarrow> do {
              (rc, s) \<leftarrow> log_operation REDO_UPDATE tab t (tm_record_size (meta_of tab s)) r s;
              Some (rc, r, s)
            })
       }
     }
   }"

text \<open>The result of \<^verbatim>\<open>Trx::delete_record\<close> is overwritten.\<close>

definition delete_record :: "nat \<Rightarrow> nat option \<Rightarrow> Record \<Rightarrow> TableSys \<Rightarrow> (RC \<times> Record \<times> TableSys) option" where
  "delete_record tab trx r s = do {
     (rc, s) \<leftarrow> delete_entry_of_indexes tab (rec_ref r) (rec_rid r) False s;
     if rc \<noteq> SUCCESS then Some (rc, r, s)
     else do {
       (rc, s) \<leftarrow> file_delete tab (rec_rid r) s;
       if rc \<noteq> SUCCESS then Some (rc, r, s)
       else (case trx of
           None \<Rightarrow> Some (rc, r, s)
         | Some t \<Rightarrow> do {
             (_, rec, x, c) \<leftarrow> trx_delete_record tab (meta_of tab s) (rec_rid r) (record_data r s) (ts_trxs s t) (ts_trx_counter s);
             let (r, s) = write_data rec r s;
             let s = (upd_trx t x s)\<lparr>ts_trx_counter := c\<rparr>;
             (rc, s) \<leftarrow> log_operation REDO_DELETE tab t 0 r s;
             Some (rc, r, s)
           })
     }
   }"

definition recover_insert_record :: "nat \<Rightarrow> Record \<Rightarrow> TableSys \<Rightarrow> (RC \<times> TableSys) option" where
  "recover_insert_record tab r s = do {
     h \<leftarrow> tab_handler (ts_tables s tab);
     (rc, b) \<leftarrow> rfh_recover_insert_record (record_data r s) (rec_rid r) h (ts_bp s);
     Some (rc, s\<lparr>ts_bp := b\<rparr>)
   }"

definition recover_update_record :: "nat \<Rightarrow> Record \<Rightarrow> TableSys \<Rightarrow> (RC \<times> TableSys) option" where
  "recover_update_record tab r s = do {
     h \<leftarrow> tab_handler (ts_tables s tab);
     (rc, b) \<leftarrow> rfh_recover_update_record (record_data r s) (rec_rid r) h (ts_bp s);
     Some (rc, s\<lparr>ts_bp := b\<rparr>)
   }"

definition recover_delete_record :: "nat \<Rightarrow> Record \<Rightarrow> TableSys \<Rightarrow> (RC \<times> TableSys) option" where
  "recover_delete_record tab r s = file_delete tab (rec_rid r) s"

end
