(* ===== verification/Ob_TableScan.thy ===== *)
theory Ob_TableScan
  imports Ob_TableOps
begin

text \<open>
  Scans of a table, by its record file or by an index, the deletions and index builds that run over them, and the
  commit and rollback of transactions (\<open>src/src/observer/storage/common/table.cpp\<close>, \<open>src/src/observer/storage/trx/trx.cpp\<close>).  The callback of a scan is a function that gets
  the record and the caller's context.
\<close>

section \<open>Choosing an index\<close>

definition find_index :: "string \<Rightarrow> BplusTreeIndex list \<Rightarrow> nat option" where
  "find_index name ixs = List.find (\<lambda>i. im_name (ix_meta (ixs ! i)) = name) [0..<length ixs]"

definition tab_find_index_by_field :: "string \<Rightarrow> Table \<Rightarrow> nat option" where
  "tab_find_index_by_field name t = do {
     im \<leftarrow> find_index_by_field name (tab_meta t);
     find_index (im_name im) (tab_indexes t)
   }"

definition tab_find_index_by_fields :: "string list \<Rightarrow> Table \<Rightarrow> nat option" where
  "tab_find_index_by_fields names t = do {
     im \<leftarrow> find_index_by_fields names (tab_meta t);
     find_index (im_name im) (tab_indexes t)
   }"

text \<open>The bounds of the range: keys and whether they belong to it.\<close>

definition scan_range :: "CompOp \<Rightarrow> mem option \<Rightarrow> (mem option \<times> bool \<times> mem option \<times> bool) option" where
  "scan_range op v = (case op of
      EQUAL_TO \<Rightarrow> Some (v, True, v, True)
    | LESS_EQUAL \<Rightarrow> Some (None, False, v, True)
    | GREAT_EQUAL \<Rightarrow> Some (v, True, None, False)
    | LESS_THAN \<Rightarrow> Some (None, False, v, False)
    | GREAT_THAN \<Rightarrow> Some (v, False, None, False)
    | _ \<Rightarrow> None)"

definition key_len :: "bool \<Rightarrow> mem option \<Rightarrow> int option" where
  "key_len chars key = (if \<not> chars then Some 4 else case key of None \<Rightarrow> Some 0 | Some m \<Rightarrow> map_option (\<lambda>str. int (length str)) (c_string m))"

definition index_scan_default :: "nat \<Rightarrow> DefaultConditionFilter \<Rightarrow> TableSys \<Rightarrow> ((nat \<times> BplusTreeScanner) option \<times> TableSys) option" where
  "index_scan_default tab f s =
     (let t = ts_tables s tab;
          sides = (if cd_is_attr (dcf_left f) \<and> \<not> cd_is_attr (dcf_right f) then Some (dcf_left f, dcf_right f)
                   else if cd_is_attr (dcf_right f) \<and> \<not> cd_is_attr (dcf_left f) then Some (dcf_right f, dcf_left f) else None) in
      case sides of None \<Rightarrow> Some (None, s) | Some (field, const) \<Rightarrow>
      (case find_field_by_offset (cd_offset field) (tab_meta t) of None \<Rightarrow> Some (None, s) | Some fd \<Rightarrow>
      (case find_index_by_field (fm_name fd) (tab_meta t) of None \<Rightarrow> Some (None, s) | Some im \<Rightarrow>
      (case find_index (im_name im) (tab_indexes t) of None \<Rightarrow> Some (None, s) | Some i \<Rightarrow>
      (case scan_range (dcf_comp_op f) (cd_value const) of None \<Rightarrow> Some (None, s) | Some (left, left_inclusive, right, right_inclusive) \<Rightarrow> do {
         let chars = (dcf_type_left f = CHARS \<and> dcf_type_right f = CHARS);
         left_len \<leftarrow> key_len chars left;
         right_len \<leftarrow> key_len chars right;
         (c, b) \<leftarrow> create_scanner left left_len left_inclusive right right_len right_inclusive (tab_indexes t ! i) (ts_bp s);
         Some (map_option (Pair i) c, s\<lparr>ts_bp := b\<rparr>)
       })))))"

fun find_index_for_scan :: "nat \<Rightarrow> ConditionFilter \<Rightarrow> TableSys \<Rightarrow> ((nat \<times> BplusTreeScanner) option \<times> TableSys) option"
and find_index_in :: "nat \<Rightarrow> ConditionFilter list \<Rightarrow> TableSys \<Rightarrow> ((nat \<times> BplusTreeScanner) option \<times> TableSys) option" where
  "find_index_for_scan tab (DefaultFilter f) s = index_scan_default tab f s"
| "find_index_for_scan tab (CompositeFilter fs) s = find_index_in tab fs s"
| "find_index_in tab [] s = Some (None, s)"
| "find_index_in tab (f # fs) s = do {
     (c, s) \<leftarrow> find_index_for_scan tab f s;
     (case c of Some c \<Rightarrow> Some (Some c, s) | None \<Rightarrow> find_index_in tab fs s)
   }"

section \<open>Scanning\<close>

type_synonym 'c reader = "Record \<Rightarrow> 'c \<Rightarrow> TableSys \<Rightarrow> (RC \<times> 'c \<times> TableSys) option"

definition visible_to :: "nat \<Rightarrow> nat option \<Rightarrow> Record \<Rightarrow> TableSys \<Rightarrow> bool option" where
  "visible_to tab trx r s = (case trx of None \<Rightarrow> Some True | Some t \<Rightarrow> is_visible (meta_of tab s) (record_data r s) (ts_trxs s t))"

partial_function (option) scan_records ::
    "nat \<Rightarrow> nat option \<Rightarrow> 'c reader \<Rightarrow> RecordFileScanner \<Rightarrow> RC \<Rightarrow> 'c \<Rightarrow> TableSys \<Rightarrow> (RC \<times> 'c \<times> TableSys) option" where
  "scan_records tab trx reader c rc x s =
     (if \<not> rfs_has_next c then do { s \<leftarrow> drop_scanner c s; Some (rc, x, s) }
      else do {
        (rc, (rid, a, off), c, b) \<leftarrow> rfs_next_record c (ts_bp s);
        let s = s\<lparr>ts_bp := b\<rparr>;
        if rc \<noteq> SUCCESS then do { s \<leftarrow> drop_scanner c s; Some (rc, x, s) }
        else do {
          let r = \<lparr>rec_rid = rid, rec_ref = InPage a off\<rparr>;
          visible \<leftarrow> visible_to tab trx r s;
          if visible then do {
            (rc, x, s) \<leftarrow> reader r x s;
            if rc \<noteq> SUCCESS then do { s \<leftarrow> drop_scanner c s; Some (rc, x, s) }
            else scan_records tab trx reader c rc x s
          }
          else scan_records tab trx reader c rc x s
        }
      })"

definition index_at :: "nat \<Rightarrow> nat \<Rightarrow> TableSys \<Rightarrow> BplusTreeIndex option" where
  "index_at tab i s = (if i < length (tab_indexes (ts_tables s tab)) then Some (tab_indexes (ts_tables s tab) ! i) else None)"

text \<open>\<^verbatim>\<open>destroy\<close> deletes the scanner, whose destructor closes it.\<close>

definition destroy_scanner :: "nat \<Rightarrow> nat \<Rightarrow> BplusTreeScanner \<Rightarrow> TableSys \<Rightarrow> TableSys option" where
  "destroy_scanner tab i c s = do {
     ix \<leftarrow> index_at tab i s;
     (_, _, b) \<leftarrow> sc_close (ix_handler ix) c (ts_bp s);
     Some (s\<lparr>ts_bp := b\<rparr>)
   }"

text \<open>The count is of the entries, also of those that are not visible or do not pass the flt.\<close>

partial_function (option) scan_by_index ::
    "(byte list \<Rightarrow> f32) \<Rightarrow> nat \<Rightarrow> nat option \<Rightarrow> nat \<Rightarrow> BplusTreeScanner \<Rightarrow> ConditionFilter option \<Rightarrow> 'c reader \<Rightarrow> int \<Rightarrow> int \<Rightarrow> RC \<Rightarrow> 'c \<Rightarrow> TableSys \<Rightarrow>
     (RC \<times> 'c \<times> TableSys) option" where
  "scan_by_index atof tab trx i c flt reader limit count rc x s =
     (if \<not> count < limit then do { s \<leftarrow> destroy_scanner tab i c s; Some (rc, x, s) }
      else do {
        ix \<leftarrow> index_at tab i s;
        (rc, bytes, c, b) \<leftarrow> next_entry (ix_handler ix) c (ts_bp s);
        let s = s\<lparr>ts_bp := b\<rparr>;
        if rc \<noteq> SUCCESS then do {
          s \<leftarrow> destroy_scanner tab i c s;
          Some (if rc = RECORD_EOF then SUCCESS else rc, x, s)
        }
        else do {
          bs \<leftarrow> bytes;
          (rc, found, s) \<leftarrow> file_get tab (rid_of_bytes bs) s;
          if rc \<noteq> SUCCESS then do { s \<leftarrow> destroy_scanner tab i c s; Some (rc, x, s) }
          else do {
            r \<leftarrow> found;
            visible \<leftarrow> visible_to tab trx r s;
            passes \<leftarrow> (if \<not> visible then Some False else case flt of None \<Rightarrow> Some True | Some f \<Rightarrow> cf_filter atof f (record_data r s));
            if passes then do {
              (rc, x, s) \<leftarrow> reader r x s;
              if rc \<noteq> SUCCESS then do { s \<leftarrow> destroy_scanner tab i c s; Some (rc, x, s) }
              else scan_by_index atof tab trx i c flt reader limit (count + 1) rc x s
            }
            else scan_by_index atof tab trx i c flt reader limit (count + 1) rc x s
          }
        }
      })"

text \<open>The limit is only used when there is an index.\<close>

definition scan_record ::
    "(byte list \<Rightarrow> f32) \<Rightarrow> nat \<Rightarrow> nat option \<Rightarrow> ConditionFilter option \<Rightarrow> int \<Rightarrow> 'c reader option \<Rightarrow> 'c \<Rightarrow> TableSys \<Rightarrow> (RC \<times> 'c \<times> TableSys) option" where
  "scan_record atof tab trx flt limit reader x s =
     (case reader of None \<Rightarrow> Some (INVALID_ARGUMENT, x, s) | Some reader \<Rightarrow>
      if limit = 0 then Some (SUCCESS, x, s)
      else do {
        let limit = (if limit < 0 then 2 ^ 31 - 1 else limit);
        (scanner, s) \<leftarrow> (case flt of None \<Rightarrow> Some (None, s) | Some f \<Rightarrow> find_index_for_scan tab f s);
        (case scanner of
           Some (i, c) \<Rightarrow> scan_by_index atof tab trx i c flt reader limit 0 SUCCESS x s
         | None \<Rightarrow> do {
             b \<leftarrow> tab_pool (ts_tables s tab);
             let (raw, s) = new_mem s;
             (rc, c, bp) \<leftarrow> open_scan b (map_option (filter_pred atof) flt) (rfs_new raw) (ts_bp s);
             let s = s\<lparr>ts_bp := bp\<rparr>;
             if rc \<noteq> SUCCESS then do { s \<leftarrow> drop_scanner c s; Some (rc, x, s) }
             else scan_records tab trx reader c rc x s
           })
      })"

text \<open>\<^verbatim>\<open>RecordReaderScanAdapter\<close>: a reader that only gets the data and cannot fail.\<close>

definition data_reader :: "(mem \<Rightarrow> 'c \<Rightarrow> 'c) \<Rightarrow> 'c reader" where
  "data_reader f r x s = Some (SUCCESS, f (record_data r s) x, s)"

text \<open>\<^verbatim>\<open>RecordDeleter\<close> counts the records that were deleted.\<close>

definition record_reader_delete :: "nat \<Rightarrow> nat option \<Rightarrow> int reader" where
  "record_reader_delete tab trx r n s = do {
     (rc, _, s) \<leftarrow> delete_record tab trx r s;
     Some (rc, if rc = SUCCESS then n + 1 else n, s)
   }"

definition delete_records :: "(byte list \<Rightarrow> f32) \<Rightarrow> nat \<Rightarrow> nat option \<Rightarrow> ConditionFilter option \<Rightarrow> TableSys \<Rightarrow> (RC \<times> int \<times> TableSys) option" where
  "delete_records atof tab trx flt s = scan_record atof tab trx flt (- 1) (Some (record_reader_delete tab trx)) 0 s"

section \<open>Commit and rollback\<close>

text \<open>\<^verbatim>\<open>set_record_trx_id\<close> through a record that lies in its page; the frame is not marked dirty.\<close>

definition settle_record :: "(TableMeta \<Rightarrow> mem \<Rightarrow> (RC \<times> mem) option) \<Rightarrow> nat \<Rightarrow> RID \<Rightarrow> TableSys \<Rightarrow> (RC \<times> TableSys) option" where
  "settle_record f tab rid s = do {
     (rc, found, s) \<leftarrow> file_get tab rid s;
     if rc \<noteq> SUCCESS then Some (rc, s)
     else do {
       r \<leftarrow> found;
       (rc, rec) \<leftarrow> f (meta_of tab s) (record_data r s);
       Some (rc, snd (write_data rec r s))
     }
   }"

definition tab_commit_insert :: "nat \<Rightarrow> RID \<Rightarrow> TableSys \<Rightarrow> (RC \<times> TableSys) option" where
  "tab_commit_insert tab rid s = settle_record trx_commit_insert tab rid s"

definition tab_commit_update :: "nat \<Rightarrow> RID \<Rightarrow> TableSys \<Rightarrow> (RC \<times> TableSys) option" where
  "tab_commit_update tab rid s = settle_record trx_commit_update tab rid s"

definition tab_rollback_delete :: "nat \<Rightarrow> RID \<Rightarrow> TableSys \<Rightarrow> (RC \<times> TableSys) option" where
  "tab_rollback_delete tab rid s = settle_record trx_rollback_delete tab rid s"

definition tab_rollback_update :: "nat \<Rightarrow> RID \<Rightarrow> TableSys \<Rightarrow> (RC \<times> TableSys) option" where
  "tab_rollback_update tab rid s = do { (rc, _, s) \<leftarrow> file_get tab rid s; Some (rc, s) }"

definition tab_rollback_insert :: "nat \<Rightarrow> RID \<Rightarrow> TableSys \<Rightarrow> (RC \<times> TableSys) option" where
  "tab_rollback_insert tab rid s = do {
     (rc, found, s) \<leftarrow> file_get tab rid s;
     if rc \<noteq> SUCCESS then Some (rc, s)
     else do {
       r \<leftarrow> found;
       (rc, s) \<leftarrow> delete_entry_of_indexes tab (rec_ref r) rid False s;
       if rc \<noteq> SUCCESS then Some (rc, s) else file_delete tab rid s
     }
   }"

definition tab_commit_delete :: "nat \<Rightarrow> RID \<Rightarrow> TableSys \<Rightarrow> (RC \<times> TableSys) option" where
  "tab_commit_delete tab rid s = do {
     (rc, found, s) \<leftarrow> file_get tab rid s;
     if rc \<noteq> SUCCESS then Some (rc, s)
     else do {
       r \<leftarrow> found;
       (_, s) \<leftarrow> delete_entry_of_indexes tab (rec_ref r) (rec_rid r) False s;
       file_delete tab rid s
     }
   }"

text \<open>The loops of \<^verbatim>\<open>Trx::commit\<close> and \<^verbatim>\<open>Trx::rollback\<close> go on after a failure and return the code of the last operation.\<close>

definition commit_operation :: "nat \<Rightarrow> OperationType \<Rightarrow> RID \<Rightarrow> RC \<Rightarrow> TableSys \<Rightarrow> (RC \<times> TableSys) option" where
  "commit_operation tab type rid rc s = (case type of
      INSERT \<Rightarrow> tab_commit_insert tab rid s
    | UPDATE \<Rightarrow> tab_commit_update tab rid s
    | DELETE \<Rightarrow> tab_commit_delete tab rid s
    | UNDEFINED_OP \<Rightarrow> Some (rc, s))"

definition rollback_operation :: "nat \<Rightarrow> OperationType \<Rightarrow> RID \<Rightarrow> RC \<Rightarrow> TableSys \<Rightarrow> (RC \<times> TableSys) option" where
  "rollback_operation tab type rid rc s = (case type of
      INSERT \<Rightarrow> tab_rollback_insert tab rid s
    | UPDATE \<Rightarrow> tab_rollback_update tab rid s
    | DELETE \<Rightarrow> tab_rollback_delete tab rid s
    | UNDEFINED_OP \<Rightarrow> Some (rc, s))"

fun run_set :: "(nat \<Rightarrow> OperationType \<Rightarrow> RID \<Rightarrow> RC \<Rightarrow> TableSys \<Rightarrow> (RC \<times> TableSys) option) \<Rightarrow> nat \<Rightarrow> OperationSet \<Rightarrow> RC \<Rightarrow> TableSys \<Rightarrow> (RC \<times> TableSys) option" where
  "run_set f tab [] rc s = Some (rc, s)"
| "run_set f tab (((p, slot), type) # ops) rc s = do {
     (rc, s) \<leftarrow> f tab type (mk_rid p slot) rc s;
     run_set f tab ops rc s
   }"

fun run_sets :: "(nat \<Rightarrow> OperationType \<Rightarrow> RID \<Rightarrow> RC \<Rightarrow> TableSys \<Rightarrow> (RC \<times> TableSys) option) \<Rightarrow> (nat \<times> OperationSet) list \<Rightarrow> RC \<Rightarrow> TableSys \<Rightarrow> (RC \<times> TableSys) option" where
  "run_sets f [] rc s = Some (rc, s)"
| "run_sets f ((tab, ops) # rest) rc s = do {
     (rc, s) \<leftarrow> run_set f tab ops rc s;
     run_sets f rest rc s
   }"

definition finish_trx :: "nat \<Rightarrow> TableSys \<Rightarrow> TableSys" where
  "finish_trx t s = upd_trx t ((ts_trxs s t)\<lparr>trx_operations := [], trx_current_id := 0\<rparr>) s"

definition trx_commit :: "nat \<Rightarrow> TableSys \<Rightarrow> (RC \<times> TableSys) option" where
  "trx_commit t s = do {
     (rc, s) \<leftarrow> run_sets commit_operation (trx_operations (ts_trxs s t)) SUCCESS s;
     Some (rc, finish_trx t s)
   }"

definition trx_rollback :: "nat \<Rightarrow> TableSys \<Rightarrow> (RC \<times> TableSys) option" where
  "trx_rollback t s = do {
     (rc, s) \<leftarrow> run_sets rollback_operation (trx_operations (ts_trxs s t)) SUCCESS s;
     Some (rc, finish_trx t s)
   }"

end
