(* ===== verification/Ob_TableProps.thy ===== *)
theory Ob_TableProps
  imports Ob_TableScan Ob_TrxProps Ob_RecordFileProps Ob_ClogCrash
begin

text \<open>
  Properties of tables: the record that \<^verbatim>\<open>make_record\<close> builds holds the values and marks the null ones, and an
  insert stores exactly that record.
\<close>

section \<open>The bitmap of null values\<close>

lemma wrap32_eq: "wrap32 x = wrap32 y \<longleftrightarrow> x mod 2 ^ 32 = y mod 2 ^ 32"
proof
  assume "wrap32 x = wrap32 y"
  hence "(x + 2 ^ 31) mod 2 ^ 32 = (y + 2 ^ 31) mod 2 ^ 32" by (simp add: wrap32_def)
  hence "(x + 2 ^ 31 - 2 ^ 31) mod 2 ^ 32 = (y + 2 ^ 31 - 2 ^ 31) mod 2 ^ 32" by (rule mod_diff_cong) simp
  thus "x mod 2 ^ 32 = y mod 2 ^ 32" by simp
next
  assume "x mod 2 ^ 32 = y mod 2 ^ 32"
  hence "(x + 2 ^ 31) mod 2 ^ 32 = (y + 2 ^ 31) mod 2 ^ 32" by (rule mod_add_cong) simp
  thus "wrap32 x = wrap32 y" by (simp add: wrap32_def)
qed

lemma mod_wrap32: "wrap32 x mod 2 ^ 32 = x mod 2 ^ 32"
proof -
  have "((x + 2 ^ 31) mod 2 ^ 32 - 2 ^ 31) mod 2 ^ 32 = (x + 2 ^ 31 - 2 ^ 31) mod 2 ^ 32" by (rule mod_diff_left_eq)
  thus ?thesis by (simp add: wrap32_def)
qed

lemma wrap32_times: "wrap32 (wrap32 x * k) = wrap32 (x * k)"
  unfolding wrap32_eq by (metis mod_mult_left_eq mod_wrap32)

lemma wrap32_plus: "wrap32 (wrap32 x + k) = wrap32 (x + k)"
  unfolding wrap32_eq by (metis mod_add_left_eq mod_wrap32)

definition value_fits :: "FieldMeta \<Rightarrow> Value \<Rightarrow> bool" where
  "value_fits f v \<longleftrightarrow> (if val_type v = NULLS then fm_nullable f
     else fm_type f = val_type v \<and> (case val_data v of None \<Rightarrow> False | Some d \<Rightarrow> fm_type f = CHARS \<longrightarrow> c_string d \<noteq> None))"

definition nulls_of :: "Value list \<Rightarrow> bool list" where
  "nulls_of vs = map (\<lambda>v. val_type v = NULLS) vs"

text \<open>The bits of a list, the first one highest.\<close>

fun bits_acc :: "int \<Rightarrow> bool list \<Rightarrow> int" where
  "bits_acc a [] = a"
| "bits_acc a (b # bs) = bits_acc (a * 2 + of_bool b) bs"

lemma bits_acc_foldl: "bits_acc a bs = foldl (\<lambda>a b. of_bool b + 2 * a) a bs"
  by (induction bs arbitrary: a) (simp_all add: ac_simps)

lemma bits_acc_horner: "bits_acc 0 bs = horner_sum of_bool 2 (rev bs)"
  by (simp add: bits_acc_foldl horner_sum_foldr foldr_conv_foldl)

lemma check_values_ok:
  assumes "list_all2 value_fits fs vs"
  shows "check_values fs vs (wrap32 a) = (SUCCESS, wrap32 (bits_acc a (nulls_of vs)))"
  using assms
proof (induction arbitrary: a)
  case Nil
  show ?case by (simp add: nulls_of_def)
next
  case (Cons f fs v vs)
  have "wrap32 (wrap32 (wrap32 a * 2) + 1) = wrap32 (a * 2 + 1)" "wrap32 (wrap32 a * 2) = wrap32 (a * 2)"
    by (simp_all only: wrap32_times wrap32_plus)
  thus ?case using Cons.hyps Cons.IH [of "a * 2 + 1"] Cons.IH [of "a * 2"]
    by (auto simp add: value_fits_def nulls_of_def Let_def split: if_splits)
qed

lemma load_u32_store: "load_u32 (store_int m i v) i = v mod 2 ^ 32"
  unfolding load_u32_def store_int_def by (simp add: uint_byte_of_int bytes_of_int)

lemma shifted_bit:
  assumes "i < length bs" and "length bs \<le> 32"
  shows "(bits_acc 0 bs * 2 ^ (32 - length bs)) mod 2 ^ 32 div 2 ^ (31 - i) mod 2 = 1 \<longleftrightarrow> bs ! i"
proof -
  let ?h = "horner_sum of_bool (2::int) (rev bs)" and ?n = "length bs"
  have "(x::int) mod 2 ^ 32 div 2 ^ k mod 2 = 1 \<longleftrightarrow> bit (take_bit 32 x) k" for x k
    by (simp add: bit_iff_odd take_bit_eq_mod odd_iff_mod_2_eq_one)
  hence "(bits_acc 0 bs * 2 ^ (32 - ?n)) mod 2 ^ 32 div 2 ^ (31 - i) mod 2 = 1 \<longleftrightarrow> bit (take_bit 32 (push_bit (32 - ?n) ?h)) (31 - i)"
    by (simp add: bits_acc_horner push_bit_eq_mult)
  also have "\<dots> \<longleftrightarrow> bit ?h (?n - 1 - i)"
  proof -
    have "31 - i - (32 - ?n) = ?n - 1 - i" "32 - ?n \<le> 31 - i" "31 - i < 32" using assms by simp_all
    thus ?thesis by (simp add: bit_take_bit_iff bit_push_bit_iff)
  qed
  also have "\<dots> \<longleftrightarrow> bs ! i" using assms by (auto simp add: bit_horner_sum_bit_iff rev_nth)
  finally show ?thesis .
qed

section \<open>Copying the values\<close>

lemma copy_len_fits:
  assumes "value_fits f v" and "val_type v \<noteq> NULLS"
  obtains d n where "val_data v = Some d" "copy_len f d = Some n" "n \<le> nat (fm_len f)"
proof -
  obtain d where d: "val_data v = Some d" "fm_type f = CHARS \<longrightarrow> c_string d \<noteq> None"
    using assms by (auto simp add: value_fits_def split: option.splits if_splits)
  thus thesis using that [OF d(1)] by (cases "fm_type f = CHARS") (auto simp add: copy_len_def)
qed

lemma copy_values_ok:
  assumes "list_all2 value_fits fs vs" and "packed offset fs e" and "0 \<le> offset"
  shows "\<exists>r. copy_values fs vs rec = Some r \<and> (\<forall>j < nat offset. r j = rec j) \<and>
    (\<forall>i < length fs. val_type (vs ! i) \<noteq> NULLS \<longrightarrow>
       (\<exists>d n. val_data (vs ! i) = Some d \<and> copy_len (fs ! i) d = Some n \<and> bytes_at r (nat (fm_offset (fs ! i))) n = bytes_at d 0 n))"
  using assms
proof (induction arbitrary: offset rec)
  case Nil
  show ?case by simp
next
  case (Cons f fs v vs)
  have f: "fm_offset f = offset" "0 < fm_len f" "packed (offset + fm_len f) fs e" using Cons.prems by simp_all
  show ?case
  proof (cases "val_type v = NULLS")
    case True
    obtain r where r: "copy_values fs vs rec = Some r" "\<forall>j < nat (offset + fm_len f). r j = rec j"
      "\<forall>i < length fs. val_type (vs ! i) \<noteq> NULLS \<longrightarrow>
       (\<exists>d n. val_data (vs ! i) = Some d \<and> copy_len (fs ! i) d = Some n \<and> bytes_at r (nat (fm_offset (fs ! i))) n = bytes_at d 0 n)"
      using Cons.IH [OF f(3), of rec] Cons.prems f(2) by auto
    thus ?thesis using True f(2) Cons.prems(2) by (auto simp add: nth_Cons split: nat.splits)
  next
    case False
    obtain d n where d: "val_data v = Some d" "copy_len f d = Some n" "n \<le> nat (fm_len f)"
      using Cons.hyps(1) False by (rule copy_len_fits)
    let ?rec = "blit rec (nat offset) d n"
    obtain r where r: "copy_values fs vs ?rec = Some r" "\<forall>j < nat (offset + fm_len f). r j = ?rec j"
      "\<forall>i < length fs. val_type (vs ! i) \<noteq> NULLS \<longrightarrow>
       (\<exists>d n. val_data (vs ! i) = Some d \<and> copy_len (fs ! i) d = Some n \<and> bytes_at r (nat (fm_offset (fs ! i))) n = bytes_at d 0 n)"
      using Cons.IH [OF f(3), of ?rec] Cons.prems f(2) by auto
    have "bytes_at r (nat offset) n = bytes_at d 0 n"
      using r(2) d(3) Cons.prems(2) by (intro nth_equalityI) (auto simp add: bytes_at_def blit_def)
    moreover have "\<forall>j < nat offset. r j = rec j" using r(2) f(2) Cons.prems(2) by (simp add: blit_def)
    ultimately show ?thesis using r(1,3) d(1,2) f(1,2) False Cons.prems(2) by (auto simp add: nth_Cons split: nat.splits)
  qed
qed

section \<open>The record\<close>

text \<open>The record holds the values: the bitmap has a bit for each null value, and the other fields have the bytes of their values.\<close>

definition holds_values :: "FieldMeta list \<Rightarrow> Value list \<Rightarrow> mem \<Rightarrow> bool" where
  "holds_values fs vs rec \<longleftrightarrow>
     (\<forall>i < length vs. null_bit rec 4 (int i) = Some (val_type (vs ! i) = NULLS)) \<and>
     (\<forall>i < length fs. val_type (vs ! i) \<noteq> NULLS \<longrightarrow>
        (\<exists>d n. val_data (vs ! i) = Some d \<and> copy_len (fs ! i) d = Some n \<and> bytes_at rec (nat (fm_offset (fs ! i))) n = bytes_at d 0 n))"

text \<open>A table as \<^verbatim>\<open>TableMeta::init\<close> makes it, with the columns \<open>fs\<close>.\<close>

definition has_columns :: "TableMeta \<Rightarrow> FieldMeta list \<Rightarrow> bool" where
  "has_columns m fs \<longleftrightarrow> tm_fields m = sys_fields @ fs \<and> packed 8 fs (tm_record_size m)"

lemma has_columns_init:
  assumes "\<not> is_blank (Some name)" "as \<noteq> []" "list_all valid_attr as" "8 + attr_sum as < 2 ^ 31"
  shows "has_columns (snd (snd (TableMeta_init u (Some name) (Some as) [] TableMeta_new))) (layout 8 as)"
  using TableMeta_init_layout [OF assms, of "[]" u TableMeta_new] packed_layout [OF assms(3), of 8]
  by (simp add: has_columns_def)

lemma sys_fields_simps: "length sys_fields = 2" "fm_offset (sys_fields ! 0) = 0" "fm_offset (sys_fields ! Suc 0) = 4" "fm_len (sys_fields ! Suc 0) = 4"
  by (simp_all add: sys_fields_def)

lemma columns_simps:
  assumes "has_columns m fs"
  shows "drop (length sys_fields) (tm_fields m) = fs" "null_field m = Some (sys_fields ! Suc 0)" "trx_field m = Some (sys_fields ! 0)" "has_trx m"
    "length (tm_fields m) = length fs + length sys_fields"
  using assms has_trx_sys [of m fs] by (auto simp add: has_columns_def null_field_def trx_field_def nth_append sys_fields_simps)

lemma null_bit_cong: "(\<And>j. j < 4 \<Longrightarrow> r (nat off + j) = r' (nat off + j)) \<Longrightarrow> null_bit r off i = null_bit r' off i"
proof -
  assume a: "\<And>j. j < 4 \<Longrightarrow> r (nat off + j) = r' (nat off + j)"
  have "load_u32 r (nat off) = load_u32 r' (nat off)" unfolding load_u32_def using a [of 0] a [of 1] a [of 2] a [of 3] by simp
  thus ?thesis by (simp add: null_bit_def)
qed

lemma holds_values_cong:
  assumes "has_columns m fs" and "\<And>j. 4 \<le> j \<Longrightarrow> r j = r' j" and "holds_values fs vs r"
  shows "holds_values fs vs r'"
proof -
  have "null_bit r 4 i = null_bit r' 4 i" for i by (rule null_bit_cong) (simp add: assms(2))
  moreover have "bytes_at r (nat (fm_offset (fs ! i))) n = bytes_at r' (nat (fm_offset (fs ! i))) n" if "i < length fs" for i n
    using packed_bounds [of 8 fs "tm_record_size m" i] assms(1) that by (intro bytes_at_cong assms(2)) (auto simp add: has_columns_def)
  ultimately show ?thesis using assms(3) by (simp add: holds_values_def)
qed

lemma make_record_ok:
  assumes m: "has_columns m fs" and v: "list_all2 value_fits fs vs" and n: "vs \<noteq> []" "length vs \<le> 32"
  shows "\<exists>r. make_record sys_fields m raw vs = Some (SUCCESS, r) \<and> holds_values fs vs r \<and> (\<forall>j<4. r j = raw j)"
proof -
  define w where "w = wrap32 (wrap32 (bits_acc 0 (nulls_of vs)) * 2 ^ (32 - length vs))"
  let ?base = "blit raw 4 (store_int (\<lambda>_. 0) 0 w) 4"
  have len: "length vs = length fs" using v by (simp add: list_all2_lengthD)
  have chk: "check_values fs vs 0 = (SUCCESS, wrap32 (bits_acc 0 (nulls_of vs)))"
    using check_values_ok [OF v, of 0] by (simp add: wrap32_def)
  obtain r where r: "copy_values fs vs ?base = Some r" "\<forall>j<8. r j = ?base j"
      "\<forall>i < length fs. val_type (vs ! i) \<noteq> NULLS \<longrightarrow>
       (\<exists>d n. val_data (vs ! i) = Some d \<and> copy_len (fs ! i) d = Some n \<and> bytes_at r (nat (fm_offset (fs ! i))) n = bytes_at d 0 n)"
    using copy_values_ok [OF v, of 8 "tm_record_size m" ?base] m by (auto simp add: has_columns_def)
  have "null_bit r 4 (int i) = Some (val_type (vs ! i) = NULLS)" if i: "i < length vs" for i
  proof -
    have "r 4 = ?base 4" "r 5 = ?base 5" "r 6 = ?base 6" "r 7 = ?base 7" using r(2) by simp_all
    hence "load_u32 r 4 = load_u32 (store_int (\<lambda>_. 0) 0 w) 0" by (simp add: load_u32_def blit_def eval_nat_numeral)
    also have "\<dots> = (bits_acc 0 (nulls_of vs) * 2 ^ (32 - length vs)) mod 2 ^ 32"
      unfolding load_u32_store w_def by (simp only: mod_wrap32) (metis mod_mult_left_eq mod_wrap32)
    finally have "load_u32 r 4 div 2 ^ (31 - i) mod 2 = 1 \<longleftrightarrow> nulls_of vs ! i"
      using shifted_bit [of i "nulls_of vs"] i n(2) by (simp add: nulls_of_def)
    moreover have "nat (31 - int i) = 31 - i" by simp
    ultimately show ?thesis using i n(2) by (simp add: null_bit_def nulls_of_def del: diff_nat_numeral nat_diff_distrib')
  qed
  hence "holds_values fs vs r" using r(3) by (simp add: holds_values_def)
  moreover have "\<forall>j<4. r j = raw j" using r(2) by (simp add: blit_def)
  moreover have "make_record sys_fields m raw vs = Some (SUCCESS, r)"
    using r(1) chk n len columns_simps [OF m] by (simp add: make_record_def sys_fields_simps w_def)
  ultimately show ?thesis by blast
qed

text \<open>
  C12. \<^verbatim>\<open>make_record\<close> accepts values that fit the columns of a table with at most 32 of them, and the record it builds
  has exactly the bits of the null values in its bitmap and the bytes of every other value in its field; the transaction
  number is left as it was.  With more columns the shift by \<^verbatim>\<open>32 - value_num\<close> is undefined.
\<close>

theorem make_record_correct:
  assumes "has_columns m fs" and "list_all2 value_fits fs vs" and "vs \<noteq> []"
  shows "if length vs \<le> 32 then \<exists>r. make_record sys_fields m raw vs = Some (SUCCESS, r) \<and> holds_values fs vs r \<and> (\<forall>j<4. r j = raw j)
    else make_record sys_fields m raw vs = None"
proof (cases "length vs \<le> 32")
  case True
  thus ?thesis using make_record_ok [OF assms] by simp
next
  case False
  have "check_values fs vs 0 = (SUCCESS, wrap32 (bits_acc 0 (nulls_of vs)))" using check_values_ok [OF assms(2), of 0] by (simp add: wrap32_def)
  thus ?thesis using False assms columns_simps [OF assms(1)]
    by (simp add: make_record_def list_all2_lengthD split: prod.splits)
qed

definition demo_values :: "Value list" where
  "demo_values = [value_init_integer 7, value_init_null]"

lemma demo_columns: "has_columns demo_table (layout 8 demo_attrs)"
  using has_columns_init [of "''t''" demo_attrs False] demo_attrs_ok valid_storable [of demo_attrs]
  by (simp add: demo_table_def has_columns_def)

theorem make_record_correct_witness:
  "\<exists>r. make_record sys_fields demo_table (\<lambda>_. 9) demo_values = Some (SUCCESS, r) \<and> null_bit r 4 0 = Some False \<and> null_bit r 4 1 = Some True"
proof -
  have f: "list_all2 value_fits (layout 8 demo_attrs) demo_values"
    by (simp add: demo_attrs_def demo_values_def value_fits_def value_init_integer_def value_init_null_def)
  have n: "length demo_values = 2" "demo_values \<noteq> []" by (simp_all add: demo_values_def)
  obtain r where r: "make_record sys_fields demo_table (\<lambda>_. 9) demo_values = Some (SUCCESS, r)" "holds_values (layout 8 demo_attrs) demo_values r"
    using make_record_correct [OF demo_columns f n(2), of "\<lambda>_. 9"] n(1) by auto
  have "null_bit r 4 (int i) = Some (val_type (demo_values ! i) = NULLS)" if "i < 2" for i
    using r(2) n(1) that by (simp add: holds_values_def)
  from this [of 0] this [of 1] show ?thesis using r(1) by (simp add: demo_values_def value_init_integer_def value_init_null_def)
qed

section \<open>Inserting\<close>

text \<open>A table without indexes whose first page with room is \<open>p\<close>.\<close>

definition table_ready :: "nat \<Rightarrow> TableSys \<Rightarrow> FieldMeta list \<Rightarrow> DiskBufferPool \<Rightarrow> PageNum \<Rightarrow> bool" where
  "table_ready tab s fs bp p \<longleftrightarrow> ts_sys_fields s = sys_fields \<and> tab_indexes (ts_tables s tab) = [] \<and> has_columns (meta_of tab s) fs \<and>
     (\<exists>f b ps pg. tab_handler (ts_tables s tab) = Some f \<and> rfh_pool f = Some b \<and> rfh_free_pages f = p # ps \<and>
        ready (ts_bp s) b bp \<and> pins_ok (ts_bp s) \<and> page_view (ts_bp s) (bp_file_desc bp) p = Some pg \<and> page_ok (data pg) \<and>
        \<not> is_full (data pg) \<and> record_real_size (data pg) = tm_record_size (meta_of tab s))"

lemma new_mem_simps [simp]:
  "ts_bp (snd (new_mem s)) = ts_bp s" "ts_tables (snd (new_mem s)) = ts_tables s" "ts_trxs (snd (new_mem s)) = ts_trxs s"
  "ts_sys_fields (snd (new_mem s)) = ts_sys_fields s"
  by (simp_all add: new_mem_def)

lemma table_ready_new_mem [simp]: "table_ready tab (snd (new_mem s)) fs bp p = table_ready tab s fs bp p"
  by (simp add: table_ready_def)

lemma file_insert_stores:
  assumes "table_ready tab s fs bp p"
  shows "\<exists>rc rid s'. file_insert tab rec s = Some (rc, rid, s') \<and> tab_indexes (ts_tables s' tab) = [] \<and> meta_of tab s' = meta_of tab s \<and> ts_trxs s' = ts_trxs s \<and>
    (if rc = SUCCESS then \<exists>i. rid = mk_rid p (int i) \<and> record_at (ts_bp s) (bp_file_desc bp) p i = None \<and>
       (\<forall>fd q j. record_at (ts_bp s') fd q j =
          (if fd = bp_file_desc bp \<and> q = p \<and> j = i then Some (bytes_at rec 0 (nat (tm_record_size (meta_of tab s)))) else record_at (ts_bp s) fd q j))
     else record_at (ts_bp s') = record_at (ts_bp s))"
proof -
  obtain f b ps pg where f: "tab_handler (ts_tables s tab) = Some f" "rfh_pool f = Some b" "rfh_free_pages f = p # ps"
      "ready (ts_bp s) b bp" "pins_ok (ts_bp s)" "page_view (ts_bp s) (bp_file_desc bp) p = Some pg" "page_ok (data pg)"
      "\<not> is_full (data pg)" "record_real_size (data pg) = tm_record_size (meta_of tab s)"
    using assms by (auto simp add: table_ready_def)
  obtain rc rid f' b' where ins: "rfh_insert_record rec (tm_record_size (meta_of tab s)) f (ts_bp s) = Some (rc, rid, f', b')"
      "if rc = SUCCESS then \<exists>i. rid = mk_rid p (int i) \<and> record_at (ts_bp s) (bp_file_desc bp) p i = None \<and>
       (\<forall>fd q j. record_at b' fd q j =
          (if fd = bp_file_desc bp \<and> q = p \<and> j = i then Some (map rec [0..<nat (record_real_size (data pg))]) else record_at (ts_bp s) fd q j))
     else record_at b' = record_at (ts_bp s)"
    using rfh_insert_stores [OF f(4,5,2,3,6,7,8), of rec "tm_record_size (meta_of tab s)"] by blast
  have "file_insert tab rec s = Some (rc, rid, put_handler tab f' b' s)" using f(1) ins(1) by (simp add: file_insert_def)
  moreover have "tab_indexes (ts_tables (put_handler tab f' b' s) tab) = []" "meta_of tab (put_handler tab f' b' s) = meta_of tab s"
      "ts_trxs (put_handler tab f' b' s) = ts_trxs s" "ts_bp (put_handler tab f' b' s) = b'"
    using assms by (simp_all add: put_handler_def upd_table_def table_ready_def)
  ultimately show ?thesis using ins(2) f(9) by (auto simp add: bytes_at_def)
qed

text \<open>The transaction number of the record is that of the transaction, when there is one.\<close>

definition stamped :: "nat option \<Rightarrow> TableMeta \<Rightarrow> TableSys \<Rightarrow> mem \<Rightarrow> bool" where
  "stamped trx m s rec \<longleftrightarrow> (case trx of None \<Rightarrow> True | Some t \<Rightarrow> get_record_trx_id m rec = Some (trx_current_id (ts_trxs s t), False))"

definition trx_fresh :: "nat option \<Rightarrow> nat \<Rightarrow> TableSys \<Rightarrow> bool" where
  "trx_fresh trx tab s \<longleftrightarrow> (case trx of None \<Rightarrow> True | Some t \<Rightarrow> 0 < trx_current_id (ts_trxs s t) \<and> trx_current_id (ts_trxs s t) < 2 ^ 31 \<and>
     (\<forall>rid. find_operation tab rid (ts_trxs s t) = None))"

lemma stamp_ok:
  assumes "table_ready tab s fs bp p" and "trx_fresh trx tab s" and "holds_values fs vs rec"
  obtains rec' where "stamp_record tab trx \<lparr>rec_rid = rid, rec_ref = Buffer rec\<rparr> s = Some (\<lparr>rec_rid = rid, rec_ref = Buffer rec'\<rparr>, s)"
    and "holds_values fs vs rec'" and "stamped trx (meta_of tab s) s rec'"
proof (cases trx)
  case None
  thus thesis using that [of rec] assms(3) by (simp add: stamp_record_def stamped_def)
next
  case (Some t)
  let ?m = "meta_of tab s" and ?n = "trx_current_id (ts_trxs s t)"
  have m: "has_columns ?m fs" using assms(1) by (simp add: table_ready_def)
  have n: "0 \<le> ?n" "?n < 2 ^ 31" using assms(2) Some by (simp_all add: trx_fresh_def)
  obtain rec' where r: "set_record_trx_id ?m ?n False rec = Some rec'" "get_record_trx_id ?m rec' = Some (?n, False)"
    using set_get_trx [OF columns_simps(4) [OF m] n] by blast
  have "rec j = rec' j" if "4 \<le> j" for j
    using r(1) columns_simps(3) [OF m] that by (auto simp add: set_record_trx_id_def sys_fields_simps store_int_other)
  hence "holds_values fs vs rec'" using holds_values_cong [OF m _ assms(3)] by blast
  thus thesis using that [of rec'] r Some by (simp add: stamp_record_def init_trx_info_def record_data_def read_data_def write_data_def stamped_def)
qed

text \<open>What is left of an insert when the record and the operation are stored: the append to the log.\<close>

definition insert_rest :: "nat \<Rightarrow> nat option \<Rightarrow> TableMeta \<Rightarrow> Record \<Rightarrow> TableSys \<Rightarrow> (RC \<times> TableSys) option" where
  "insert_rest tab trx m r s = (case trx of None \<Rightarrow> Some (SUCCESS, s) | Some t \<Rightarrow> log_operation REDO_INSERT tab t (tm_record_size m) r s)"

text \<open>The effect of an insert on the records of all files and on the transaction.\<close>

definition stored_row :: "nat \<Rightarrow> nat option \<Rightarrow> FieldMeta list \<Rightarrow> Value list \<Rightarrow> DiskBufferPool \<Rightarrow> PageNum \<Rightarrow> TableSys \<Rightarrow> Record \<Rightarrow> TableSys \<Rightarrow> bool" where
  "stored_row tab trx fs vs bp p s r s' \<longleftrightarrow>
     (\<exists>i rec. rec_rid r = mk_rid p (int i) \<and> rec_ref r = Buffer rec \<and> holds_values fs vs rec \<and> stamped trx (meta_of tab s) s rec \<and>
        record_at (ts_bp s) (bp_file_desc bp) p i = None \<and>
        (\<forall>fd q j. record_at (ts_bp s') fd q j =
           (if fd = bp_file_desc bp \<and> q = p \<and> j = i then Some (bytes_at rec 0 (nat (tm_record_size (meta_of tab s)))) else record_at (ts_bp s) fd q j)) \<and>
        (\<forall>t. trx = Some t \<longrightarrow> find_operation tab (rec_rid r) (ts_trxs s' t) = Some INSERT))"

lemma upd_table_id: "f (ts_tables s tab) = ts_tables s tab \<Longrightarrow> upd_table tab f s = s"
  by (simp add: upd_table_def)

lemma no_indexes_insert:
  assumes "tab_indexes (ts_tables s tab) = []"
  shows "insert_entry_of_indexes tab d rid s = Some (SUCCESS, s)"
proof -
  have "upd_table tab (tab_indexes_update (\<lambda>_. [])) s = s"
    by (rule upd_table_id) (use assms in \<open>cases "ts_tables s tab", simp\<close>)
  thus ?thesis using assms by (simp add: insert_entry_of_indexes_def with_indexes_def)
qed

lemma insert_record_stores:
  assumes s: "table_ready tab s fs bp p" and t: "trx_fresh trx tab s" and h: "holds_values fs vs rec"
  shows "\<exists>rc r s'. map_option (\<lambda>(rc, _, s). (rc, s)) (insert_record atof tab trx \<lparr>rec_rid = rid, rec_ref = Buffer rec\<rparr> s) =
      (if rc \<noteq> SUCCESS then Some (rc, s') else insert_rest tab trx (meta_of tab s) r s') \<and>
    (if rc = SUCCESS then stored_row tab trx fs vs bp p s r s' else record_at (ts_bp s') = record_at (ts_bp s))"
proof -
  obtain rec' where r: "stamp_record tab trx \<lparr>rec_rid = rid, rec_ref = Buffer rec\<rparr> s = Some (\<lparr>rec_rid = rid, rec_ref = Buffer rec'\<rparr>, s)"
      "holds_values fs vs rec'" "stamped trx (meta_of tab s) s rec'"
    using s t h by (rule stamp_ok)
  have uniq: "is_unique_key atof tab \<lparr>rec_rid = rid, rec_ref = Buffer rec'\<rparr> s = Some (True, s)"
    using s by (simp add: is_unique_key_def table_ready_def)
  obtain rc new s2 where f: "file_insert tab rec' s = Some (rc, new, s2)" "tab_indexes (ts_tables s2 tab) = []" "meta_of tab s2 = meta_of tab s"
      "ts_trxs s2 = ts_trxs s" "if rc = SUCCESS then \<exists>i. new = mk_rid p (int i) \<and> record_at (ts_bp s) (bp_file_desc bp) p i = None \<and>
       (\<forall>fd q j. record_at (ts_bp s2) fd q j =
          (if fd = bp_file_desc bp \<and> q = p \<and> j = i then Some (bytes_at rec' 0 (nat (tm_record_size (meta_of tab s)))) else record_at (ts_bp s) fd q j))
     else record_at (ts_bp s2) = record_at (ts_bp s)"
    using file_insert_stores [OF s, of rec'] by blast
  note run = insert_record_def r(1) uniq record_data_def read_data_def f(1)
  let ?r = "\<lparr>rec_rid = new, rec_ref = Buffer rec'\<rparr>" and ?f = "map_option (\<lambda>(rc, _, s). (rc, s))"
  consider "rc \<noteq> SUCCESS" | "rc = SUCCESS" "trx = None" | t where "rc = SUCCESS" "trx = Some t" by (cases trx) auto
  thus ?thesis
  proof cases
    case 1
    thus ?thesis using f(5) by (intro exI [of _ rc] exI [of _ ?r] exI [of _ s2]) (simp add: run)
  next
    case 2
    hence "insert_record atof tab trx \<lparr>rec_rid = rid, rec_ref = Buffer rec\<rparr> s = Some (SUCCESS, ?r, s2)"
      unfolding insert_record_def r(1) by (simp add: run no_indexes_insert f(2))
    moreover have "stored_row tab trx fs vs bp p s ?r s2" using 2 f(5) r(2,3) by (auto simp add: stored_row_def)
    ultimately show ?thesis using 2 by (intro exI [of _ SUCCESS] exI [of _ ?r] exI [of _ s2]) (simp add: insert_rest_def)
  next
    case 3
    let ?s = "upd_trx t (insert_operation tab INSERT new (ts_trxs s t)) s2"
    have no: "find_operation tab new (ts_trxs s t) = None" using t 3 by (simp add: trx_fresh_def)
    have k: "tab_indexes (ts_tables ?s tab) = []" "meta_of tab ?s = meta_of tab s" "ts_bp ?s = ts_bp s2"
        "find_operation tab new (ts_trxs ?s t) = Some INSERT"
      using f(2,3) no by (simp_all add: upd_trx_def trx_log.find_ins)
    have "?f (insert_record atof tab trx \<lparr>rec_rid = rid, rec_ref = Buffer rec\<rparr> s) = insert_rest tab trx (meta_of tab s) ?r ?s"
      unfolding insert_record_def r(1) using 3 no k(1,2) f(4) no_indexes_insert [OF k(1)]
      by (cases "log_operation REDO_INSERT tab t (tm_record_size (meta_of tab s)) ?r ?s") (auto simp add: run trx_insert_record_def insert_rest_def)
    moreover have "stored_row tab trx fs vs bp p s ?r ?s" using 3 f(5) r(2,3) k(3,4) by (auto simp add: stored_row_def)
    ultimately show ?thesis by (intro exI [of _ SUCCESS] exI [of _ ?r] exI [of _ ?s]) simp
  qed
qed


definition row_page :: mem where
  "row_page = init_empty BP_PAGE_DATA_SIZE 24 (\<lambda>_. 0)"

lemma row_page_ok: "page_ok row_page" "\<not> is_full row_page" "record_real_size row_page = 24"
proof -
  have "(24::int) \<le> 2 ^ 20" "21 \<le> BP_PAGE_DATA_SIZE" "BP_PAGE_DATA_SIZE \<le> 2 ^ 20"
    by (simp_all add: BP_PAGE_DATA_SIZE_def BP_PAGE_SIZE_def)
  note i = init_empty_ok [of 24 BP_PAGE_DATA_SIZE "\<lambda>_. 0", OF _ this, folded row_page_def]
  show "page_ok row_page" "record_real_size row_page = 24" using i(1,4) by simp_all
  have "page_record_capacity BP_PAGE_DATA_SIZE (align8 24) > 0"
    by (simp add: page_record_capacity_def BP_PAGE_DATA_SIZE_def BP_PAGE_SIZE_def page_fix_size_def align8_def)
  thus "\<not> is_full row_page" using i(3,5) by (simp add: is_full_def)
qed

definition demo_sys :: "BPSys \<Rightarrow> TableSys" where
  "demo_sys b = \<lparr>ts_bp = b,
     ts_tables = (\<lambda>_. \<lparr>tab_base_dir = ''.'', tab_meta = demo_table, tab_pool = Some 0,
        tab_handler = Some \<lparr>rfh_pool = Some 0, rfh_free_pages = [1]\<rparr>, tab_indexes = []\<rparr>),
     ts_trxs = (\<lambda>_. demo_trx), ts_trx_counter = 7, ts_sys_fields = sys_fields, ts_clog = fst (CLogManager_new (\<lambda>_. 0) ''.'' 0 demo_fs),
     ts_fs = demo_fs, ts_meta_files = Map.empty, ts_meta_faults = [], ts_junk = (\<lambda>_ _. 0)\<rparr>"

lemma demo_record_size: "tm_record_size demo_table = 24"
  using TableMeta_init_layout [of "''t''" demo_attrs "[]" False TableMeta_new] demo_attrs_ok valid_storable [of demo_attrs]
  by (simp add: demo_table_def)

lemma demo_values_fit: "list_all2 value_fits (layout 8 demo_attrs) demo_values" "demo_values \<noteq> []" "length demo_values = 2"
  by (simp_all add: demo_attrs_def demo_values_def value_fits_def value_init_integer_def value_init_null_def)

lemma demo_sys_ready:
  obtains b bp where "bpm_open_file ''t'' (bpm_new (demo_os (record_file row_page))) = Some (SUCCESS, Some 0, b)"
    and "table_ready tab (demo_sys b) (layout 8 demo_attrs) bp 1" and "trx_fresh trx tab (demo_sys b)" and "bp_file_desc bp = 3"
proof -
  obtain b bp h where d: "bpm_open_file ''t'' (bpm_new (demo_os (record_file row_page))) = Some (SUCCESS, Some 0, b)"
      "ready b 0 bp" "pins_ok b" "bp_file_desc bp = 3" "page_view b 3 1 = Some \<lparr>page_num = 1, data = row_page\<rparr>"
    by (rule demo_record_file)
  hence "table_ready tab (demo_sys b) (layout 8 demo_attrs) bp 1"
    using row_page_ok demo_columns by (simp add: table_ready_def demo_sys_def demo_record_size)
  moreover have "trx_fresh trx tab (demo_sys b)" by (simp add: trx_fresh_def demo_sys_def demo_trx_def find_operation_def split: option.splits)
  ultimately show thesis using that d(1,4) by blast
qed


section \<open>Committing and rolling back\<close>

text \<open>A record in slot \<open>i\<close> of page \<open>p\<close> of the table.\<close>

definition holds_record :: "nat \<Rightarrow> TableSys \<Rightarrow> DiskBufferPool \<Rightarrow> PageNum \<Rightarrow> nat \<Rightarrow> mem \<Rightarrow> bool" where
  "holds_record tab s bp p i d \<longleftrightarrow> has_trx (meta_of tab s) \<and> trx_field (meta_of tab s) = Some (sys_fields ! 0) \<and> page_ok d \<and> i \<in> rp_slots d \<and>
     (\<exists>f b n. tab_handler (ts_tables s tab) = Some f \<and> rfh_pool f = Some b \<and> ready (ts_bp s) b bp \<and> pins_ok (ts_bp s) \<and>
        page_view (ts_bp s) (bp_file_desc bp) p = Some \<lparr>page_num = n, data = d\<rparr>)"

lemma rfh_get_cases:
  assumes "ready s b bp" "pins_ok s" "rfh_pool f = Some b" "page_view s (bp_file_desc bp) p = Some \<lparr>page_num = n, data = d\<rparr>" "i \<in> rp_slots d"
  obtains (found) a s' where "rfh_get_record (mk_rid p (int i)) f s = Some (SUCCESS, Some (a, get_record_data d (int i)), s')"
      "page (frame_of s' a) = \<lparr>page_num = n, data = d\<rparr>"
    | (missing) s' where "rfh_get_record (mk_rid p (int i)) f s = Some (SUCCESS, None, s')"
  using assms(1,2)
proof (cases rule: rph_init_cases [where p = p])
  case (opened a s1)
  let ?h = "\<lparr>rph_pool = Some b, rph_frame = a\<rparr>" and ?u = "unpinned a s1"
  have pg: "page (frame_of s1 a) = \<lparr>page_num = n, data = d\<rparr>" using opened(6) assms(4) by simp
  have "rph_cleanup ?h s1 = Some (\<lparr>rph_pool = None, rph_frame = a\<rparr>, ?u)" by (rule rph_cleanup_eq(1) [OF opened(2,4,5)])
  hence "rfh_get_record (mk_rid p (int i)) f s = Some (SUCCESS, Some (a, get_record_data d (int i)), ?u)"
    using assms(3,5) opened(1) pg by (auto simp: rfh_get_record_def rph_get_record_def rp_get_record_def rp_slots_def zless_nat_eq_int_zless)
  thus thesis using found [of a ?u] pg by (simp add: upd_frame_def)
next
  case (refused rc s1)
  thus thesis using missing [of s1] assms(3) by (auto simp: rfh_get_record_def)
qed

text \<open>The record with a cleared transaction number in its place.\<close>

definition settled :: "nat \<Rightarrow> mem \<Rightarrow> nat \<Rightarrow> TableSys \<Rightarrow> bool" where
  "settled tab d off s' \<longleftrightarrow> (\<exists>a. (\<forall>u. is_visible (meta_of tab s') (at_off (frame_data (ts_bp s') a) off) u = Some True) \<and>
     (\<forall>k. \<not> (off \<le> k \<and> k < off + 4) \<longrightarrow> frame_data (ts_bp s') a k = d k))"

lemma settle_record_ok:
  assumes h: "holds_record tab s bp p i d" and f: "\<And>m rec. f m rec = do { rec \<leftarrow> set_record_trx_id m 0 False rec; Some (SUCCESS, rec) }"
  shows "settle_record f tab (mk_rid p (int i)) s = None \<or>
    (\<exists>s'. settle_record f tab (mk_rid p (int i)) s = Some (SUCCESS, s') \<and> settled tab d (get_record_data d (int i)) s')"
proof -
  obtain g b n where g: "tab_handler (ts_tables s tab) = Some g" "rfh_pool g = Some b" "ready (ts_bp s) b bp" "pins_ok (ts_bp s)"
      "page_view (ts_bp s) (bp_file_desc bp) p = Some \<lparr>page_num = n, data = d\<rparr>" and i: "i \<in> rp_slots d"
      and m: "has_trx (meta_of tab s)" "trx_field (meta_of tab s) = Some (sys_fields ! 0)"
    using h by (auto simp add: holds_record_def)
  let ?rid = "mk_rid p (int i)" and ?m = "meta_of tab s" and ?off = "get_record_data d (int i)"
  from g(3,4,2,5) i show ?thesis
  proof (cases rule: rfh_get_cases)
    case (missing b')
    thus ?thesis using g(1) by (simp add: settle_record_def file_get_def)
  next
    case (found a b')
    let ?rec = "store_int (at_off d ?off) 0 0"
    let ?b = "upd_data a (\<lambda>pg. put_at pg ?off ?rec) b'"
    have set: "set_record_trx_id ?m 0 False (at_off d ?off) = Some ?rec" using m(2) by (simp add: set_record_trx_id_def sys_fields_simps)
    have fd: "frame_data b' a = d" using found(2) by simp
    have "settle_record f tab ?rid s = Some (SUCCESS, s\<lparr>ts_bp := ?b\<rparr>)"
      using g(1) found(1) set by (simp add: settle_record_def file_get_def record_data_def read_data_def fd f write_data_def)
    moreover have new: "frame_data ?b a = put_at d ?off ?rec" by (simp add: upd_data_def upd_frame_def fd)
    moreover have "at_off (put_at d ?off ?rec) ?off = ?rec" by (simp add: at_off_def put_at_def)
    moreover have "is_visible ?m ?rec u = Some True" for u using is_visible_set [OF m(1) _ _ set, of u] by simp
    moreover have "put_at d ?off ?rec k = d k" if "\<not> (?off \<le> k \<and> k < ?off + 4)" for k
      using that by (auto simp add: put_at_def store_int_other at_off_def)
    ultimately show ?thesis by (auto simp add: settled_def intro!: exI [of _ a])
  qed
qed


lemma one_row:
  obtains d i where "page_ok d" "i \<in> rp_slots d"
  using one_record by metis


end
