(* ===== verification/Ob_TableFile.thy ===== *)
theory Ob_TableFile
  imports Ob_TableScan
begin

text \<open>
  Creating, opening and dropping tables and creating indexes (\<open>src/src/observer/storage/common/table.cpp\<close>).  The metadata files hold texts; \<open>write\<close> and
  \<open>parser\<close> are the writer and the parser of the JSON library.  A call on these files fails when the next flag of
  \<open>ts_meta_faults\<close> says so.
\<close>

section \<open>Files\<close>

definition meta_fault :: "TableSys \<Rightarrow> bool \<times> TableSys" where
  "meta_fault s = (case ts_meta_faults s of [] \<Rightarrow> (False, s) | f # fs \<Rightarrow> (f, s\<lparr>ts_meta_faults := fs\<rparr>))"

text \<open>\<^verbatim>\<open>open\<close> with \<^verbatim>\<open>O_CREAT | O_EXCL\<close>; the code tells an existing file from other failures.\<close>

definition meta_create :: "string \<Rightarrow> TableSys \<Rightarrow> RC \<times> TableSys" where
  "meta_create path s = (case meta_fault s of (bad, s) \<Rightarrow>
     if bad then (IOERR, s)
     else if ts_meta_files s path \<noteq> None then (SCHEMA_TABLE_EXIST, s)
     else (SUCCESS, s\<lparr>ts_meta_files := (ts_meta_files s)(path \<mapsto> [])\<rparr>))"

text \<open>Opening for writing truncates the file.  A failed write is taken to leave the file empty.\<close>

definition meta_truncate :: "string \<Rightarrow> TableSys \<Rightarrow> bool \<times> TableSys" where
  "meta_truncate path s = (case meta_fault s of (bad, s) \<Rightarrow>
     if bad then (False, s) else (True, s\<lparr>ts_meta_files := (ts_meta_files s)(path \<mapsto> [])\<rparr>))"

definition meta_write :: "string \<Rightarrow> string \<Rightarrow> TableSys \<Rightarrow> bool \<times> TableSys" where
  "meta_write path txt s = (case meta_fault s of (bad, s) \<Rightarrow>
     if bad then (False, s) else (True, s\<lparr>ts_meta_files := (ts_meta_files s)(path \<mapsto> txt)\<rparr>))"

definition meta_rename :: "string \<Rightarrow> string \<Rightarrow> TableSys \<Rightarrow> bool \<times> TableSys" where
  "meta_rename old new s = (case meta_fault s of (bad, s) \<Rightarrow>
     case ts_meta_files s old of
       None \<Rightarrow> (False, s)
     | Some txt \<Rightarrow> if bad then (False, s) else (True, s\<lparr>ts_meta_files := (ts_meta_files s)(old := None, new \<mapsto> txt)\<rparr>))"

definition meta_remove :: "string \<Rightarrow> TableSys \<Rightarrow> bool \<times> TableSys" where
  "meta_remove path s = (case meta_fault s of (bad, s) \<Rightarrow>
     if bad \<or> ts_meta_files s path = None then (False, s) else (True, s\<lparr>ts_meta_files := (ts_meta_files s)(path := None)\<rparr>))"

text \<open>
  Removing a file of pages: its name goes, but descriptors that are open on it keep the content, under a name
  that no path can have.
\<close>

definition unlinked :: "string \<Rightarrow> string" where
  "unlinked name = CHR 0x00 # name"

definition os_remove :: "string \<Rightarrow> Os \<Rightarrow> bool \<times> Os" where
  "os_remove name w = (case os_files w name of
      None \<Rightarrow> (False, w)
    | Some ps \<Rightarrow> (True, w\<lparr>os_files := (os_files w)(name := None, unlinked name \<mapsto> ps),
        os_fds := (\<lambda>fd. map_option (\<lambda>(n, pos). (if n = name then unlinked name else n, pos)) (os_fds w fd))\<rparr>))"

definition page_file_remove :: "string \<Rightarrow> TableSys \<Rightarrow> bool \<times> TableSys" where
  "page_file_remove name s = (case meta_fault s of (bad, s) \<Rightarrow>
     if bad then (False, s)
     else case os_remove name (os (ts_bp s)) of (ok, w) \<Rightarrow> (ok, s\<lparr>ts_bp := (ts_bp s)\<lparr>os := w\<rparr>\<rparr>))"

section \<open>Creating and opening\<close>

definition new_table :: Table where
  "new_table = \<lparr>tab_base_dir = [], tab_meta = TableMeta_new, tab_pool = None, tab_handler = None, tab_indexes = []\<rparr>"

definition new_index :: BplusTreeIndex where
  "new_index = \<lparr>ix_meta = IndexMeta_new 0, ix_field = FieldMeta_new False, ix_inited = False, ix_handler = bt_new\<rparr>"

definition new_record_handler :: RecordFileHandler where
  "new_record_handler = \<lparr>rfh_pool = None, rfh_free_pages = []\<rparr>"

definition init_record_handler :: "string \<Rightarrow> nat \<Rightarrow> TableSys \<Rightarrow> (RC \<times> TableSys) option" where
  "init_record_handler base_dir tab s = do {
     (rc, pool, b) \<leftarrow> bpm_open_file (table_data_file base_dir (tm_name (meta_of tab s))) (ts_bp s);
     let s = s\<lparr>ts_bp := b\<rparr>;
     if rc \<noteq> SUCCESS then Some (rc, s)
     else do {
       p \<leftarrow> pool;
       (rc, h, b) \<leftarrow> rfh_init p new_record_handler (ts_bp s);
       if rc \<noteq> SUCCESS then do {
         (_, b) \<leftarrow> close_file (ClosePool p) b;
         Some (rc, upd_table tab (\<lambda>t. t\<lparr>tab_pool := None, tab_handler := None\<rparr>) (s\<lparr>ts_bp := b\<rparr>))
       }
       else Some (rc, upd_table tab (\<lambda>t. t\<lparr>tab_pool := Some p, tab_handler := Some h\<rparr>) (s\<lparr>ts_bp := b\<rparr>))
     }
   }"

definition tab_create :: "(Json \<Rightarrow> string) \<Rightarrow> string \<Rightarrow> string \<Rightarrow> string \<Rightarrow> AttrInfo list option \<Rightarrow> nat \<Rightarrow> TableSys \<Rightarrow> (RC \<times> TableSys) option" where
  "tab_create writer path name base_dir attributes tab s =
     (if is_blank (Some name) then Some (INVALID_ARGUMENT, s)
      else if attributes = None \<or> attributes = Some [] then Some (INVALID_ARGUMENT, s)
      else case meta_create path s of (rc, s) \<Rightarrow>
        if rc \<noteq> SUCCESS then Some (rc, s)
        else
          let (raw, s) = new_mem s in
          case TableMeta_init (raw 0 \<noteq> 0) (Some name) attributes (ts_sys_fields s) (meta_of tab s) of (rc, sys, m) \<Rightarrow>
            let s = upd_table tab (tab_meta_update (\<lambda>_. m)) (s\<lparr>ts_sys_fields := sys\<rparr>) in
            if rc \<noteq> SUCCESS then Some (rc, s)
            else case meta_truncate path s of (ok, s) \<Rightarrow>
              if \<not> ok then Some (IOERR, s)
              else do {
                (_, txt) \<leftarrow> tm_serialize writer m;
                let (_, s) = meta_write path txt s;
                let (rc, b) = bpm_create_file (table_data_file base_dir name) (ts_bp s);
                let s = s\<lparr>ts_bp := b\<rparr>;
                if rc \<noteq> SUCCESS then Some (rc, s)
                else do {
                  (rc, s) \<leftarrow> init_record_handler base_dir tab s;
                  if rc \<noteq> SUCCESS then Some (rc, s)
                  else Some (rc, upd_table tab (tab_base_dir_update (\<lambda>_. base_dir)) s)
                }
              })"

text \<open>The indexes are opened on the first of their fields.\<close>

fun open_indexes :: "string \<Rightarrow> nat \<Rightarrow> IndexMeta list \<Rightarrow> TableSys \<Rightarrow> (RC \<times> TableSys) option" where
  "open_indexes base_dir tab [] s = Some (SUCCESS, s)"
| "open_indexes base_dir tab (im # ims) s = (case im_fields im of
      [] \<Rightarrow> None
    | fname # _ \<Rightarrow>
       (case field_by_name (Some fname) (meta_of tab s) of
          None \<Rightarrow> Some (GENERIC_ERROR, s)
        | Some f \<Rightarrow> do {
            (rc, ix, b) \<leftarrow> index_open (table_index_file base_dir (tm_name (meta_of tab s)) (im_name im)) im f new_index (ts_bp s);
            if rc \<noteq> SUCCESS then do { (_, _, b) \<leftarrow> index_close ix b; Some (rc, s\<lparr>ts_bp := b\<rparr>) }
            else open_indexes base_dir tab ims (upd_table tab (tab_indexes_update (\<lambda>ixs. ixs @ [ix])) (s\<lparr>ts_bp := b\<rparr>))
          }))"

definition tab_open :: "(string \<Rightarrow> Json option) \<Rightarrow> string \<Rightarrow> string \<Rightarrow> nat \<Rightarrow> TableSys \<Rightarrow> (RC \<times> TableSys) option" where
  "tab_open parser meta_file base_dir tab s =
     (case meta_fault s of (bad, s) \<Rightarrow>
      case ts_meta_files s (base_dir @ ''/'' @ meta_file) of
        None \<Rightarrow> Some (IOERR, s)
      | Some txt \<Rightarrow>
          if bad then Some (IOERR, s)
          else do {
            let (raw, s) = new_mem s;
            (n, sys, m) \<leftarrow> tm_deserialize parser (raw 0 \<noteq> 0, load_int raw 0) txt (ts_sys_fields s) (meta_of tab s);
            let s = upd_table tab (tab_meta_update (\<lambda>_. m)) (s\<lparr>ts_sys_fields := sys\<rparr>);
            if n < 0 then Some (GENERIC_ERROR, s)
            else do {
              (rc, s) \<leftarrow> init_record_handler base_dir tab s;
              if rc \<noteq> SUCCESS then Some (rc, s)
              else open_indexes base_dir tab (tm_indexes m) (upd_table tab (tab_base_dir_update (\<lambda>_. base_dir)) s)
            }
          })"

section \<open>Dropping, closing and flushing\<close>

fun drop_index_files :: "string \<Rightarrow> string \<Rightarrow> BplusTreeIndex list \<Rightarrow> TableSys \<Rightarrow> RC \<times> TableSys" where
  "drop_index_files base_dir name [] s = (SUCCESS, s)"
| "drop_index_files base_dir name (ix # ixs) s =
     (case page_file_remove (table_index_file base_dir name (im_name (ix_meta ix))) s of (ok, s) \<Rightarrow>
      if \<not> ok then (IOERR, s) else drop_index_files base_dir name ixs s)"

definition tab_drop :: "nat \<Rightarrow> TableSys \<Rightarrow> RC \<times> TableSys" where
  "tab_drop tab s =
     (let base_dir = tab_base_dir (ts_tables s tab); name = tm_name (meta_of tab s) in
      case drop_index_files base_dir name (tab_indexes (ts_tables s tab)) s of (rc, s) \<Rightarrow>
      if rc \<noteq> SUCCESS then (rc, s)
      else case page_file_remove (table_data_file base_dir name) s of (ok, s) \<Rightarrow>
      if \<not> ok then (IOERR, s)
      else case meta_remove (table_meta_file base_dir name) s of (ok, s) \<Rightarrow>
      if \<not> ok then (IOERR, s) else (SUCCESS, s))"

fun close_indexes :: "BplusTreeIndex list \<Rightarrow> BPSys \<Rightarrow> BPSys option" where
  "close_indexes [] s = Some s"
| "close_indexes (ix # ixs) s = do { (_, _, s) \<leftarrow> index_close ix s; close_indexes ixs s }"

text \<open>The destructor.\<close>

definition tab_destroy :: "nat \<Rightarrow> TableSys \<Rightarrow> TableSys option" where
  "tab_destroy tab s = do {
     b \<leftarrow> (case tab_pool (ts_tables s tab) of None \<Rightarrow> Some (ts_bp s) | Some p \<Rightarrow> map_option snd (close_file (ClosePool p) (ts_bp s)));
     b \<leftarrow> close_indexes (tab_indexes (ts_tables s tab)) b;
     Some (upd_table tab (\<lambda>t. t\<lparr>tab_pool := None, tab_handler := None, tab_indexes := []\<rparr>) (s\<lparr>ts_bp := b\<rparr>))
   }"

fun sync_indexes :: "BplusTreeIndex list \<Rightarrow> BPSys \<Rightarrow> (RC \<times> BPSys) option" where
  "sync_indexes [] s = Some (SUCCESS, s)"
| "sync_indexes (ix # ixs) s = do {
     (rc, s) \<leftarrow> index_sync ix s;
     if rc \<noteq> SUCCESS then Some (rc, s) else sync_indexes ixs s
   }"

definition tab_sync :: "nat \<Rightarrow> TableSys \<Rightarrow> (RC \<times> TableSys) option" where
  "tab_sync tab s = do {
     (rc, b) \<leftarrow> sync_indexes (tab_indexes (ts_tables s tab)) (ts_bp s);
     Some (rc, s\<lparr>ts_bp := b\<rparr>)
   }"

section \<open>Creating an index\<close>

definition index_reader :: "BplusTreeIndex reader" where
  "index_reader r ix s = do {
     (rc, ix, b) \<leftarrow> index_insert_entry (record_data r s) (rec_rid r) ix (ts_bp s);
     Some (rc, ix, s\<lparr>ts_bp := b\<rparr>)
   }"

text \<open>The fields are looked up from the last to the first.\<close>

definition index_field_metas :: "string list \<Rightarrow> TableMeta \<Rightarrow> FieldMeta list option" where
  "index_field_metas attributes m = those (map (\<lambda>a. field_by_name (Some a) m) (rev attributes))"

text \<open>The new metadata is written to a temporary file that then replaces the old one.\<close>

definition store_meta :: "(Json \<Rightarrow> string) \<Rightarrow> nat \<Rightarrow> TableMeta \<Rightarrow> TableSys \<Rightarrow> (RC \<times> TableSys) option" where
  "store_meta writer tab m s =
     (let meta_file = table_meta_file (tab_base_dir (ts_tables s tab)) (tm_name (meta_of tab s)); tmp_file = meta_file @ ''.tmp'' in
      case meta_truncate tmp_file s of (ok, s) \<Rightarrow>
      if \<not> ok then Some (IOERR, s)
      else do {
        (_, txt) \<leftarrow> tm_serialize writer m;
        let (ok, s) = meta_write tmp_file txt s;
        if \<not> ok then Some (IOERR, s)
        else let (ok, s) = meta_rename tmp_file meta_file s in
          if \<not> ok then Some (IOERR, s)
          else Some (SUCCESS, upd_table tab (tab_meta_update (\<lambda>old. fst (tm_swap old m))) s)
      })"

definition tab_create_index ::
    "(byte list \<Rightarrow> f32) \<Rightarrow> (Json \<Rightarrow> string) \<Rightarrow> nat \<Rightarrow> nat option \<Rightarrow> string option \<Rightarrow> string list \<Rightarrow> int \<Rightarrow> TableSys \<Rightarrow> (RC \<times> TableSys) option" where
  "tab_create_index atof writer tab trx index_name attributes unique s =
     (let m = meta_of tab s in
      case index_name of None \<Rightarrow> Some (INVALID_ARGUMENT, s) | Some iname \<Rightarrow>
      if is_blank index_name \<or> list_ex (\<lambda>a. is_blank (Some a)) attributes then Some (INVALID_ARGUMENT, s)
      else if index_by_name iname m \<noteq> None \<or> find_index_by_fields attributes m \<noteq> None then Some (SCHEMA_INDEX_EXIST, s)
      else case index_field_metas attributes m of None \<Rightarrow> Some (SCHEMA_FIELD_MISSING, s) | Some fs \<Rightarrow>
        let (raw, s) = new_mem s in
        case IndexMeta_init index_name fs unique (IndexMeta_new (load_int raw 0)) of (rc, im) \<Rightarrow>
        if rc \<noteq> SUCCESS then Some (rc, s)
        else (case fs of [] \<Rightarrow> None | f # _ \<Rightarrow> do {
          (rc, ix, b) \<leftarrow> index_create (table_index_file (tab_base_dir (ts_tables s tab)) (tm_name m) iname) im f new_index (ts_bp s);
          let s = s\<lparr>ts_bp := b\<rparr>;
          if rc \<noteq> SUCCESS then do { (_, _, b) \<leftarrow> index_close ix (ts_bp s); Some (rc, s\<lparr>ts_bp := b\<rparr>) }
          else do {
            (rc, ix, s) \<leftarrow> scan_record atof tab trx None (- 1) (Some index_reader) ix s;
            if rc \<noteq> SUCCESS then do { (_, _, b) \<leftarrow> index_close ix (ts_bp s); Some (rc, s\<lparr>ts_bp := b\<rparr>) }
            else do {
              let s = upd_table tab (tab_indexes_update (\<lambda>ixs. ixs @ [ix])) s;
              (rc, b) \<leftarrow> index_sync ix (ts_bp s);
              let s = s\<lparr>ts_bp := b\<rparr>;
              if rc \<noteq> SUCCESS then Some (rc, s)
              else let (rc, new_meta) = add_index im m in
                if rc \<noteq> SUCCESS then Some (rc, s) else store_meta writer tab new_meta s
            }
          }
        }))"

text \<open>The lines that \<^verbatim>\<open>show_index\<close> prints, as fields.\<close>

definition show_index_rows :: "TableMeta \<Rightarrow> (string \<times> bool \<times> string \<times> nat \<times> string) list" where
  "show_index_rows m = concat (map (\<lambda>im. map (\<lambda>j. (tm_name m, \<not> is_unique im, im_name im, Suc j, im_fields im ! j)) [0..<length (im_fields im)])
     (tm_indexes m))"

end
