(* ===== verification/Ob_Db.thy ===== *)
theory Ob_Db
  imports Ob_TableFile
begin

text \<open>
  The database object (\<open>src/src/observer/storage/common/db.cpp\<close>): its tables by name, and the redo of the log.  The hash table of the open tables is a
  list of names and table numbers; where the code walks through it, the order of the list is the order of the walk.
\<close>

record Db =
  db_name :: string
  db_path :: string
  opened_tables :: "(string \<times> nat) list"
  db_next :: nat

definition find_table :: "string \<Rightarrow> Db \<Rightarrow> nat option" where
  "find_table name d = map_of (opened_tables d) name"

text \<open>A new table object gets a number of its own.\<close>

definition alloc_table :: "Db \<Rightarrow> TableSys \<Rightarrow> nat \<times> Db \<times> TableSys" where
  "alloc_table d s = (db_next d, d\<lparr>db_next := Suc (db_next d)\<rparr>, upd_table (db_next d) (\<lambda>_. new_table) s)"

definition create_table :: "(Json \<Rightarrow> string) \<Rightarrow> string \<Rightarrow> AttrInfo list option \<Rightarrow> Db \<Rightarrow> TableSys \<Rightarrow> (RC \<times> Db \<times> TableSys) option" where
  "create_table writer name attributes d s =
     (if find_table name d \<noteq> None then Some (SCHEMA_TABLE_EXIST, d, s)
      else case alloc_table d s of (tab, d, s) \<Rightarrow> do {
        (rc, s) \<leftarrow> tab_create writer (table_meta_file (db_path d) name) name (db_path d) attributes tab s;
        if rc \<noteq> SUCCESS then do { s \<leftarrow> tab_destroy tab s; Some (rc, d, s) }
        else Some (SUCCESS, d\<lparr>opened_tables := opened_tables d @ [(name, tab)]\<rparr>, s)
      })"

definition drop_table :: "string \<Rightarrow> Db \<Rightarrow> TableSys \<Rightarrow> (RC \<times> Db \<times> TableSys) option" where
  "drop_table name d s = (case find_table name d of
      None \<Rightarrow> Some (SCHEMA_TABLE_NOT_EXIST, d, s)
    | Some tab \<Rightarrow>
        (case tab_drop tab s of (rc, s) \<Rightarrow>
         if rc \<noteq> SUCCESS then Some (rc, d, s)
         else do {
           s \<leftarrow> tab_destroy tab s;
           Some (SUCCESS, d\<lparr>opened_tables := filter (\<lambda>(n, _). n \<noteq> name) (opened_tables d)\<rparr>, s)
         }))"

text \<open>
  The files of the database directory that end in \<^verbatim>\<open>.table\<close>; the entries of the directory are given with a flag for
  subdirectories, or there are none when it cannot be read.
\<close>

definition is_table_file :: "string \<times> bool \<Rightarrow> bool" where
  "is_table_file e = (case e of (name, directory) \<Rightarrow> name \<noteq> [] \<and> hd name \<noteq> CHR ''.'' \<and> \<not> directory \<and>
     6 \<le> length name \<and> drop (length name - 6) name = ''.table'')"

definition list_table_files :: "(string \<times> bool) list option \<Rightarrow> string list option" where
  "list_table_files entries = map_option (\<lambda>es. map fst (filter is_table_file es)) entries"

fun open_tables :: "(string \<Rightarrow> Json option) \<Rightarrow> string list \<Rightarrow> RC \<Rightarrow> Db \<Rightarrow> TableSys \<Rightarrow> (RC \<times> Db \<times> TableSys) option" where
  "open_tables parser [] rc d s = Some (rc, d, s)"
| "open_tables parser (f # fs) rc d s = (case alloc_table d s of (tab, d, s) \<Rightarrow> do {
     (rc, s) \<leftarrow> tab_open parser f (db_path d) tab s;
     if rc \<noteq> SUCCESS then do { s \<leftarrow> tab_destroy tab s; Some (rc, d, s) }
     else let name = tm_name (meta_of tab s) in
       if find_table name d \<noteq> None then do { s \<leftarrow> tab_destroy tab s; Some (GENERIC_ERROR, d, s) }
       else open_tables parser fs rc (d\<lparr>opened_tables := opened_tables d @ [(name, tab)]\<rparr>) s
   })"

definition open_all_tables :: "(string \<Rightarrow> Json option) \<Rightarrow> (string \<times> bool) list option \<Rightarrow> Db \<Rightarrow> TableSys \<Rightarrow> (RC \<times> Db \<times> TableSys) option" where
  "open_all_tables parser entries d s = (case list_table_files entries of
      None \<Rightarrow> Some (IOERR, d, s)
    | Some fs \<Rightarrow> open_tables parser fs SUCCESS d s)"

text \<open>\<open>entries\<close> is \<open>None\<close> when the path is no directory that can be read; \<open>is_dir\<close> tells whether it is one.\<close>

definition db_init ::
    "(string \<Rightarrow> Json option) \<Rightarrow> bool \<Rightarrow> (string \<times> bool) list option \<Rightarrow> string \<Rightarrow> string \<Rightarrow> Db \<Rightarrow> TableSys \<Rightarrow> (RC \<times> Db \<times> TableSys) option" where
  "db_init parser is_dir entries name path d s =
     (if is_blank (Some name) then Some (INVALID_ARGUMENT, d, s)
      else if \<not> is_dir then Some (GENERIC_ERROR, d, s)
      else
        let (raw, s) = new_mem s in
        case CLogManager_new raw path (cm_lsn (ts_clog s)) (ts_fs s) of (cm, w) \<Rightarrow>
        open_all_tables parser entries (d\<lparr>db_name := name, db_path := path\<rparr>) (s\<lparr>ts_clog := cm, ts_fs := w\<rparr>))"

fun sync_tables :: "(string \<times> nat) list \<Rightarrow> TableSys \<Rightarrow> (RC \<times> TableSys) option" where
  "sync_tables [] s = Some (SUCCESS, s)"
| "sync_tables ((_, tab) # ts) s = do {
     (rc, s) \<leftarrow> tab_sync tab s;
     if rc \<noteq> SUCCESS then Some (rc, s) else sync_tables ts s
   }"

definition db_sync :: "Db \<Rightarrow> TableSys \<Rightarrow> (RC \<times> TableSys) option" where
  "db_sync d s = sync_tables (opened_tables d) s"

definition all_tables :: "Db \<Rightarrow> string list" where
  "all_tables d = map fst (opened_tables d)"

fun destroy_tables :: "(string \<times> nat) list \<Rightarrow> TableSys \<Rightarrow> TableSys option" where
  "destroy_tables [] s = Some s"
| "destroy_tables ((_, tab) # ts) s = do { s \<leftarrow> tab_destroy tab s; destroy_tables ts s }"

section \<open>Redo\<close>

definition redo_type :: "CLogRecord \<Rightarrow> bool" where
  "redo_type r \<longleftrightarrow> rec_flag r \<in> {code_CLogType REDO_INSERT, code_CLogType REDO_UPDATE, code_CLogType REDO_DELETE}"

definition find_logged_table :: "CLogRecord \<Rightarrow> Db \<Rightarrow> nat option option" where
  "find_logged_table r d = do {
     bytes \<leftarrow> lr_table_name r;
     Some (map_option snd (List.find (\<lambda>(n, _). name_bytes n = bytes) (opened_tables d)))
   }"

text \<open>The data is copied into a buffer of \<^verbatim>\<open>data_len_\<close> bytes.\<close>

definition logged_record :: "CLogRecord \<Rightarrow> TableSys \<Rightarrow> (Record \<times> TableSys) option" where
  "logged_record r s =
     (if lr_data_len r < 0 then None
      else let (raw, s) = new_mem s in
        Some (\<lparr>rec_rid = (case lr_rid r of (p, i) \<Rightarrow> mk_rid p i), rec_ref = Buffer (blit raw 0 (rec_data r) (nat (lr_data_len r)))\<rparr>, s))"

definition redo_record :: "nat \<Rightarrow> CLogRecord \<Rightarrow> TableSys \<Rightarrow> (RC \<times> TableSys) option" where
  "redo_record tab r s =
     (if rec_flag r = code_CLogType REDO_INSERT then do { (x, s) \<leftarrow> logged_record r s; recover_insert_record tab x s }
      else if rec_flag r = code_CLogType REDO_UPDATE then do { (x, s) \<leftarrow> logged_record r s; recover_update_record tab x s }
      else recover_delete_record tab \<lparr>rec_rid = (case lr_rid r of (p, i) \<Rightarrow> mk_rid p i), rec_ref = Buffer (\<lambda>_. 0)\<rparr> s)"

text \<open>\<^verbatim>\<open>max_trx_id\<close> is unsigned, and so is the comparison.\<close>

fun redo_records :: "Db \<Rightarrow> (int \<rightharpoonup> bool) \<Rightarrow> CLogRecord list \<Rightarrow> RC \<Rightarrow> int \<Rightarrow> TableSys \<Rightarrow> (RC \<times> int \<times> TableSys) option" where
  "redo_records d commited [] rc max_id s = Some (rc, max_id, s)"
| "redo_records d commited (r # rs) rc max_id s =
     (if \<not> redo_type r then redo_records d commited rs rc max_id s
      else case commited (get_trx_id r) of
        None \<Rightarrow> Some (GENERIC_ERROR, max_id, s)
      | Some False \<Rightarrow> redo_records d commited rs rc max_id s
      | Some True \<Rightarrow> do {
          table \<leftarrow> find_logged_table r d;
          (case table of
             None \<Rightarrow> redo_records d commited rs rc max_id s
           | Some tab \<Rightarrow> do {
               (rc, s) \<leftarrow> redo_record tab r s;
               if rc \<noteq> SUCCESS then Some (rc, max_id, s)
               else redo_records d commited rs rc (max max_id (get_trx_id r mod 2 ^ 32)) s
             })
        })"

definition db_recover :: "Db \<Rightarrow> TableSys \<Rightarrow> (RC \<times> TableSys) option" where
  "db_recover d s = do {
     let (u1, s) = new_mem s;
     let (u2, s) = new_mem s;
     let (raw, s) = new_mem s;
     (rc, cm, w) \<leftarrow> clog_recover (u1, u2) raw (ts_clog s) (ts_fs s);
     let s = s\<lparr>ts_clog := cm, ts_fs := w\<rparr>;
     if rc \<noteq> SUCCESS then Some (rc, s)
     else do {
       (rc, max_id, s) \<leftarrow> redo_records d (trx_commited (cm_mtr cm)) (log_redo_list (cm_mtr cm)) rc 0 s;
       Some (rc, if rc = SUCCESS \<and> max_id > 0 then s\<lparr>ts_trx_counter := wrap32 max_id\<rparr> else s)
     }
   }"

end
