(* ===== verification/Ob_DbProps.thy ===== *)
theory Ob_DbProps
  imports Ob_Db Ob_ClogCrash Ob_TableProps
begin

text \<open>
  Properties of the database object: the catalog of open tables stays a map with one object per name, and the redo of the log
  applies exactly the records of committed transactions.
\<close>

section \<open>The catalog\<close>

definition catalog_ok :: "Db \<Rightarrow> bool" where
  "catalog_ok d \<longleftrightarrow> distinct (map fst (opened_tables d)) \<and> distinct (map snd (opened_tables d)) \<and> (\<forall>(n, tab) \<in> set (opened_tables d). tab < db_next d)"

lemma find_table_None: "find_table name d = None \<longleftrightarrow> name \<notin> fst ` set (opened_tables d)"
  by (simp add: find_table_def map_of_eq_None_iff)

lemma find_table_append: "find_table name d = None \<Longrightarrow>
    find_table n (d\<lparr>opened_tables := opened_tables d @ [(name, tab)]\<rparr>) = (if n = name then Some tab else find_table n d)"
  by (auto simp add: find_table_def map_add_def split: option.splits)

lemma find_table_filter: "find_table n (d\<lparr>opened_tables := filter (\<lambda>(n, _). n \<noteq> name) (opened_tables d)\<rparr>) = (if n = name then None else find_table n d)"
  by (simp add: find_table_def map_of_filter_key)

lemma find_table_next [simp]: "find_table n (d\<lparr>db_next := k\<rparr>) = find_table n d"
  by (simp add: find_table_def)

lemma catalog_add:
  assumes "catalog_ok d" and "find_table name d = None"
  shows "catalog_ok (d\<lparr>db_next := Suc (db_next d), opened_tables := opened_tables d @ [(name, db_next d)]\<rparr>)"
  using assms by (auto simp add: catalog_ok_def find_table_None)

lemma catalog_next: "catalog_ok d \<Longrightarrow> catalog_ok (d\<lparr>db_next := Suc (db_next d)\<rparr>)"
  by (auto simp add: catalog_ok_def)

lemma catalog_filter: "catalog_ok d \<Longrightarrow> catalog_ok (d\<lparr>opened_tables := filter P (opened_tables d)\<rparr>)"
  by (auto simp add: catalog_ok_def distinct_map_filter)

lemma create_table_catalog:
  assumes "catalog_ok d" and "create_table writer name attributes d s = Some (rc, d', s')"
  shows "catalog_ok d' \<and> (\<forall>n. find_table n d' = (if rc = SUCCESS \<and> n = name then Some (db_next d) else find_table n d)) \<and>
    (find_table name d \<noteq> None \<longrightarrow> rc = SCHEMA_TABLE_EXIST \<and> d' = d \<and> s' = s)"
proof (cases "find_table name d = None")
  case False
  thus ?thesis using assms by (auto simp add: create_table_def)
next
  case True
  let ?s = "upd_table (db_next d) (\<lambda>_. new_table) s" and ?d = "d\<lparr>db_next := Suc (db_next d)\<rparr>"
  obtain rc1 s1 where c: "tab_create writer (table_meta_file (db_path d) name) name (db_path d) attributes (db_next d) ?s = Some (rc1, s1)"
    using assms(2) True by (auto simp add: create_table_def alloc_table_def split: Option.bind_splits)
  show ?thesis
  proof (cases "rc1 = SUCCESS")
    case ok: True
    hence "rc = SUCCESS" "d' = ?d\<lparr>opened_tables := opened_tables d @ [(name, db_next d)]\<rparr>"
      using assms(2) True c by (auto simp add: create_table_def alloc_table_def)
    thus ?thesis using catalog_add [OF assms(1) True] find_table_append [of name ?d _ "db_next d"] True by simp
  next
    case False
    hence "rc = rc1" "d' = ?d" using assms(2) True c by (auto simp add: create_table_def alloc_table_def split: Option.bind_splits)
    thus ?thesis using False True catalog_next [OF assms(1)] by simp
  qed
qed

lemma drop_table_catalog:
  assumes "catalog_ok d" and "drop_table name d s = Some (rc, d', s')"
  shows "catalog_ok d' \<and> (\<forall>n. find_table n d' = (if rc = SUCCESS \<and> n = name then None else find_table n d)) \<and>
    (find_table name d = None \<longrightarrow> rc = SCHEMA_TABLE_NOT_EXIST \<and> d' = d \<and> s' = s)"
proof (cases "find_table name d")
  case None
  thus ?thesis using assms by (auto simp add: drop_table_def)
next
  case (Some tab)
  obtain rc1 s1 where c: "tab_drop tab s = (rc1, s1)" by fastforce
  show ?thesis
  proof (cases "rc1 = SUCCESS")
    case True
    hence "rc = SUCCESS" "d' = d\<lparr>opened_tables := filter (\<lambda>(n, _). n \<noteq> name) (opened_tables d)\<rparr>"
      using assms(2) Some c by (auto simp add: drop_table_def split: Option.bind_splits)
    thus ?thesis using catalog_filter [OF assms(1)] find_table_filter [of _ name d] Some by simp
  next
    case False
    thus ?thesis using assms Some c by (simp add: drop_table_def)
  qed
qed

lemma open_tables_catalog:
  "catalog_ok d \<Longrightarrow> open_tables parser fs rc0 d s = Some (rc, d', s') \<Longrightarrow>
     catalog_ok d' \<and> (\<forall>n tab. find_table n d = Some tab \<longrightarrow> find_table n d' = Some tab)"
proof (induction fs arbitrary: rc0 d s)
  case Nil
  thus ?case by simp
next
  case (Cons f fs)
  let ?s = "upd_table (db_next d) (\<lambda>_. new_table) s" and ?d = "d\<lparr>db_next := Suc (db_next d)\<rparr>"
  obtain rc1 s1 where c: "tab_open parser f (db_path d) (db_next d) ?s = Some (rc1, s1)"
    using Cons.prems(2) by (auto simp add: alloc_table_def split: Option.bind_splits)
  let ?name = "tm_name (meta_of (db_next d) s1)"
  show ?case
  proof (cases "rc1 = SUCCESS \<and> find_table ?name d = None")
    case True
    let ?e = "?d\<lparr>opened_tables := opened_tables d @ [(?name, db_next d)]\<rparr>"
    have "open_tables parser fs rc1 ?e s1 = Some (rc, d', s')"
      using Cons.prems(2) c True by (simp add: alloc_table_def Let_def)
    hence ih: "catalog_ok d'" "\<And>n tab. find_table n ?e = Some tab \<Longrightarrow> find_table n d' = Some tab"
      using Cons.IH [of ?e rc1 s1] catalog_add [OF Cons.prems(1), of ?name] True by auto
    have "find_table n ?e = Some tab" if "find_table n d = Some tab" for n tab
      using find_table_append [of ?name ?d n "db_next d"] True that by auto
    thus ?thesis using ih by blast
  next
    case False
    hence "d' = ?d" using Cons.prems(2) c by (auto simp add: alloc_table_def Let_def split: Option.bind_splits if_splits)
    thus ?thesis using catalog_next [OF Cons.prems(1)] by simp
  qed
qed

text \<open>The calls that change the catalog.\<close>

datatype catalog_call = CreateTable string "AttrInfo list option" | DropTable string

fun catalog_run :: "(Json \<Rightarrow> string) \<Rightarrow> catalog_call list \<Rightarrow> Db \<times> TableSys \<Rightarrow> (RC list \<times> Db \<times> TableSys) option" where
  "catalog_run writer [] st = Some ([], st)"
| "catalog_run writer (CreateTable name as # ks) (d, s) = do {
     (rc, st) \<leftarrow> create_table writer name as d s;
     (rcs, st) \<leftarrow> catalog_run writer ks st;
     Some (rc # rcs, st)
   }"
| "catalog_run writer (DropTable name # ks) (d, s) = do {
     (rc, st) \<leftarrow> drop_table name d s;
     (rcs, st) \<leftarrow> catalog_run writer ks st;
     Some (rc # rcs, st)
   }"

text \<open>The names of the tables after calls with the given results.\<close>

fun names_after :: "catalog_call list \<Rightarrow> RC list \<Rightarrow> string set \<Rightarrow> string set" where
  "names_after (CreateTable name _ # ks) (rc # rcs) N = names_after ks rcs (if rc = SUCCESS then insert name N else N)"
| "names_after (DropTable name # ks) (rc # rcs) N = names_after ks rcs (if rc = SUCCESS then N - {name} else N)"
| "names_after _ _ N = N"

definition table_names :: "Db \<Rightarrow> string set" where
  "table_names d = {n. find_table n d \<noteq> None}"

text \<open>
  C15. However tables are created and dropped, with whatever failures, the catalog keeps one object per name, no
  object under two names, and exactly the tables whose creation succeeded and that were not dropped since.
\<close>

theorem catalog_correct:
  assumes "catalog_ok d" and "catalog_run writer ks (d, s) = Some (rcs, d', s')"
  shows "catalog_ok d' \<and> table_names d' = names_after ks rcs (table_names d) \<and> set (all_tables d') = table_names d'"
proof -
  have names: "set (all_tables e) = table_names e" for e by (auto simp add: all_tables_def table_names_def find_table_None)
  have "catalog_ok d' \<and> table_names d' = names_after ks rcs (table_names d)"
    using assms
  proof (induction ks arbitrary: d s rcs)
    case Nil
    thus ?case by simp
  next
    case (Cons k ks)
    show ?case
    proof (cases k)
      case (CreateTable name as)
      then obtain rc d1 s1 rcs1 where c: "create_table writer name as d s = Some (rc, d1, s1)" "catalog_run writer ks (d1, s1) = Some (rcs1, d', s')" "rcs = rc # rcs1"
        using Cons.prems(2) by (auto split: Option.bind_splits)
      note t = create_table_catalog [OF Cons.prems(1) c(1)]
      have "table_names d1 = (if rc = SUCCESS then insert name (table_names d) else table_names d)" using t by (auto simp add: table_names_def)
      thus ?thesis using Cons.IH [OF _ c(2)] t c(3) CreateTable by simp
    next
      case (DropTable name)
      then obtain rc d1 s1 rcs1 where c: "drop_table name d s = Some (rc, d1, s1)" "catalog_run writer ks (d1, s1) = Some (rcs1, d', s')" "rcs = rc # rcs1"
        using Cons.prems(2) by (auto split: Option.bind_splits)
      note t = drop_table_catalog [OF Cons.prems(1) c(1)]
      have "table_names d1 = (if rc = SUCCESS then table_names d - {name} else table_names d)" using t by (auto simp add: table_names_def)
      thus ?thesis using Cons.IH [OF _ c(2)] t c(3) DropTable by simp
    qed
  qed
  thus ?thesis by (simp add: names)
qed

section \<open>Redo\<close>

definition winner :: "(int \<rightharpoonup> bool) \<Rightarrow> CLogRecord \<Rightarrow> bool" where
  "winner commited r \<longleftrightarrow> redo_type r \<and> commited (get_trx_id r) = Some True"

text \<open>The specification: redo the records one after the other until one fails.\<close>

fun redo_all :: "Db \<Rightarrow> CLogRecord list \<Rightarrow> RC \<Rightarrow> int \<Rightarrow> TableSys \<Rightarrow> (RC \<times> int \<times> TableSys) option" where
  "redo_all d [] rc max_id s = Some (rc, max_id, s)"
| "redo_all d (r # rs) rc max_id s = do {
     table \<leftarrow> find_logged_table r d;
     (case table of
        None \<Rightarrow> redo_all d rs rc max_id s
      | Some tab \<Rightarrow> do {
          (rc, s) \<leftarrow> redo_record tab r s;
          if rc \<noteq> SUCCESS then Some (rc, max_id, s) else redo_all d rs rc (max max_id (get_trx_id r mod 2 ^ 32)) s
        })
   }"

text \<open>
  C10. The redo of a log in which every redo record belongs to a transaction that began redoes exactly the records of
  the committed transactions, in the order of the log; the records of the others have no effect.
\<close>

theorem redo_only_committed:
  assumes "\<forall>r \<in> set rs. redo_type r \<longrightarrow> commited (get_trx_id r) \<noteq> None"
  shows "redo_records d commited rs rc max_id s = redo_all d (filter (winner commited) rs) rc max_id s"
  using assms
proof (induction rs arbitrary: rc max_id s)
  case Nil
  show ?case by simp
next
  case (Cons r rs)
  have ih: "redo_records d commited rs rc max_id s = redo_all d (filter (winner commited) rs) rc max_id s" for rc max_id s
    using Cons by simp
  show ?case
  proof (cases "winner commited r")
    case True
    hence "redo_type r" "commited (get_trx_id r) = Some True" by (simp_all add: winner_def)
    thus ?thesis using True by (cases "find_logged_table r d") (auto simp add: ih split: option.splits Option.bind_splits)
  next
    case False
    hence "redo_type r \<Longrightarrow> commited (get_trx_id r) = Some False"
      using Cons.prems by (cases "commited (get_trx_id r)") (auto simp add: winner_def)
    thus ?thesis using False by (cases "redo_type r") (simp_all add: ih)
  qed
qed

definition demo_redo :: "int \<Rightarrow> CLogRecord" where
  "demo_redo n = \<lparr>rec_flag = code_CLogType REDO_DELETE, log_rec = put_header 0 n 5 44 (\<lambda>_. 0), rec_data = \<lambda>_. 0\<rparr>"

definition demo_db :: Db where
  "demo_db = \<lparr>db_name = ''sys'', db_path = ''.'', opened_tables = [(''u'', 0)], db_next = 1\<rparr>"

lemma demo_redo_ok: "redo_type (demo_redo n)" "get_trx_id (demo_redo n) = wrap32 n"
  by (simp_all add: demo_redo_def redo_type_def get_trx_id_def put_header_loads)

theorem redo_only_committed_witness:
  "redo_records demo_db [1 \<mapsto> False, 2 \<mapsto> True] [demo_redo 1, demo_redo 2] SUCCESS 0 (demo_sys (bpm_new (demo_os []))) =
   redo_all demo_db [demo_redo 2] SUCCESS 0 (demo_sys (bpm_new (demo_os [])))"
proof -
  have w: "wrap32 1 = 1" "wrap32 2 = 2" by (simp_all add: wrap32_def)
  have f: "filter (winner [1 \<mapsto> False, 2 \<mapsto> True]) [demo_redo 1, demo_redo 2] = [demo_redo 2]" by (simp add: winner_def demo_redo_ok w)
  have k: "\<forall>x \<in> set [demo_redo 1, demo_redo 2]. redo_type x \<longrightarrow> [1 \<mapsto> False, 2 \<mapsto> True] (get_trx_id x) \<noteq> None"
    by (simp add: demo_redo_ok w) blast
  show ?thesis by (rule redo_only_committed [OF k, unfolded f])
qed

theorem catalog_correct_witness:
  "\<exists>d' s'. catalog_run (\<lambda>_. []) [DropTable ''t'', CreateTable '' '' None] (demo_db, demo_sys (bpm_new (demo_os []))) =
     Some ([SCHEMA_TABLE_NOT_EXIST, INVALID_ARGUMENT], d', s') \<and> catalog_ok d' \<and> table_names d' = {''u''}"
proof -
  have b: "is_blank (Some '' '')" by (simp add: is_blank_def isspace_def)
  obtain d' s' where r: "catalog_run (\<lambda>_. []) [DropTable ''t'', CreateTable '' '' None] (demo_db, demo_sys (bpm_new (demo_os []))) =
     Some ([SCHEMA_TABLE_NOT_EXIST, INVALID_ARGUMENT], d', s')"
    by (simp add: drop_table_def create_table_def find_table_def demo_db_def alloc_table_def tab_create_def b tab_destroy_def upd_table_def new_table_def)
  have "catalog_ok demo_db" "table_names demo_db = {''u''}"
    by (auto simp add: catalog_ok_def demo_db_def table_names_def find_table_def split: if_splits)
  thus ?thesis using catalog_correct [OF _ r] r by auto
qed

end
