(* ===== verification/Ob_Item.thy ===== *)
theory Ob_Item
  imports Ob_Parse
begin

text \<open>
  The values of query results (\<open>src/src/observer/sql/expr/relation/Item.h\<close>, \<open>Row.h\<close>, \<open>Row.cpp\<close>) and the single precision
  arithmetic of the expressions.  An item is a value: the code copies items and never changes one after it is
  built.  A call that throws \<^verbatim>\<open>not_support\<close>, an index outside of a vector and a write behind a buffer are the result
  \<open>None\<close>.  Zero has no sign here, so that a negative zero prints like zero; the text of a number that is not
  one is \<open>None\<close>.
\<close>

section \<open>Single precision arithmetic\<close>

text \<open>The number \<open>n / d\<close> of units, rounded to the nearest single precision number, ties to even.\<close>

fun bit_len :: "nat \<Rightarrow> nat" where
  "bit_len n = (if n = 0 then 0 else Suc (bit_len (n div 2)))"

declare bit_len.simps [simp del]

definition f32_round :: "int \<Rightarrow> int \<Rightarrow> f32" where
  "f32_round n d =
     (let a = \<bar>n\<bar>; k = bit_len (nat (a div d)) - 24; D = d * 2 ^ k; q = a div D; r = a mod D;
          v = (if 2 * r > D \<or> 2 * r = D \<and> odd q then q + 1 else q) * 2 ^ k in
      if v \<ge> 2 ^ 277 then Inf (n < 0) else Fin (if n < 0 then - v else v))"

definition f32_add :: "f32 \<Rightarrow> f32 \<Rightarrow> f32" where
  "f32_add a b = (case (a, b) of
      (Fin x, Fin y) \<Rightarrow> f32_round (x + y) 1
    | (Inf n, Fin _) \<Rightarrow> Inf n
    | (Fin _, Inf n) \<Rightarrow> Inf n
    | (Inf n, Inf k) \<Rightarrow> if n = k then Inf n else NaN
    | _ \<Rightarrow> NaN)"

definition f32_neg :: "f32 \<Rightarrow> f32" where
  "f32_neg a = (case a of Fin x \<Rightarrow> Fin (- x) | Inf n \<Rightarrow> Inf (\<not> n) | NaN \<Rightarrow> NaN)"

definition f32_sub :: "f32 \<Rightarrow> f32 \<Rightarrow> f32" where
  "f32_sub a b = f32_add a (f32_neg b)"

definition f32_mul :: "f32 \<Rightarrow> f32 \<Rightarrow> f32" where
  "f32_mul a b = (case (a, b) of
      (Fin x, Fin y) \<Rightarrow> f32_round (x * y) (2 ^ 149)
    | (Inf n, Fin y) \<Rightarrow> if y = 0 then NaN else Inf (n \<noteq> (y < 0))
    | (Fin x, Inf n) \<Rightarrow> if x = 0 then NaN else Inf (n \<noteq> (x < 0))
    | (Inf n, Inf k) \<Rightarrow> Inf (n \<noteq> k)
    | _ \<Rightarrow> NaN)"

definition f32_div :: "f32 \<Rightarrow> f32 \<Rightarrow> f32" where
  "f32_div a b = (case (a, b) of
      (Fin x, Fin y) \<Rightarrow> if y = 0 then if x = 0 then NaN else Inf (x < 0) else f32_round (x * 2 ^ 149 * sgn y) \<bar>y\<bar>
    | (Inf n, Fin y) \<Rightarrow> Inf (n \<noteq> (y < 0))
    | (Fin _, Inf _) \<Rightarrow> Fin 0
    | _ \<Rightarrow> NaN)"

definition f32_lt :: "f32 \<Rightarrow> f32 \<Rightarrow> bool" where
  "f32_lt a b = (case (a, b) of
      (Fin x, Fin y) \<Rightarrow> x < y
    | (Inf n, Fin _) \<Rightarrow> n
    | (Fin _, Inf n) \<Rightarrow> \<not> n
    | (Inf n, Inf k) \<Rightarrow> n \<and> \<not> k
    | _ \<Rightarrow> False)"

text \<open>The test \<^verbatim>\<open>abs(v) < 1e-6\<close> in double precision.\<close>

definition f32_tiny :: "f32 \<Rightarrow> bool" where
  "f32_tiny a = (case a of Fin x \<Rightarrow> \<bar>x\<bar> \<le> 8796093 * 2 ^ 106 | _ \<Rightarrow> False)"

text \<open>The difference of two numbers is no number.\<close>

definition f32_diff_nan :: "f32 \<Rightarrow> f32 \<Rightarrow> bool" where
  "f32_diff_nan a b \<longleftrightarrow> f32_sub a b = NaN"

section \<open>Strings\<close>

text \<open>\<^verbatim>\<open>strcmp\<close> compares unsigned characters; a string here has no terminator in it.\<close>

fun strcmp :: "string \<Rightarrow> string \<Rightarrow> int" where
  "strcmp [] [] = 0"
| "strcmp [] (d # ds) = - int (of_char d)"
| "strcmp (c # cs) [] = int (of_char c)"
| "strcmp (c # cs) (d # ds) = (if c = d then strcmp cs ds else int (of_char c) - int (of_char d))"

definition to_bytes :: "string \<Rightarrow> byte list" where
  "to_bytes = map of_char"

definition of_bytes :: "byte list \<Rightarrow> string" where
  "of_bytes = map (\<lambda>b. char_of (unat b))"

text \<open>\<^verbatim>\<open>char2double\<close> followed by the conversion to \<^verbatim>\<open>float\<close>.\<close>

definition text2float :: "(byte list \<Rightarrow> f32) \<Rightarrow> string \<Rightarrow> f32" where
  "text2float atof s = atof (number_prefix (to_bytes s))"

section \<open>Items\<close>

text \<open>The second argument of a constructor is the flag \<^verbatim>\<open>isNull_\<close>.\<close>

datatype Item = NullItem | IntItem int bool | DateItem int bool | FloatItem f32 bool | BoolItem bool bool
  | CharItem byte bool | TextItem string bool

fun item_isNull :: "Item \<Rightarrow> bool" where
  "item_isNull NullItem = True"
| "item_isNull (IntItem _ n) = n"
| "item_isNull (DateItem _ n) = n"
| "item_isNull (FloatItem _ n) = n"
| "item_isNull (BoolItem _ n) = n"
| "item_isNull (CharItem _ n) = n"
| "item_isNull (TextItem _ n) = n"

fun getInt :: "Item \<Rightarrow> int option" where
  "getInt (IntItem v _) = Some v"
| "getInt (DateItem v _) = Some v"
| "getInt _ = None"

fun getFloat :: "Item \<Rightarrow> f32 option" where
  "getFloat (FloatItem v _) = Some v"
| "getFloat _ = None"

fun getBool :: "Item \<Rightarrow> bool option" where
  "getBool (BoolItem v _) = Some v"
| "getBool _ = None"

fun getText :: "Item \<Rightarrow> string option" where
  "getText (TextItem v _) = Some v"
| "getText _ = None"

fun getChar :: "Item \<Rightarrow> byte option" where
  "getChar (CharItem v _) = Some v"
| "getChar _ = None"

subsection \<open>Their text\<close>

text \<open>\<^verbatim>\<open>FloatItem::round\<close>: \<^verbatim>\<open>std::round(v*100) / 100\<close>, halves away from zero.\<close>

definition f32_std_round :: "f32 \<Rightarrow> f32" where
  "f32_std_round a = (case a of Fin x \<Rightarrow> Fin (sgn x * ((2 * \<bar>x\<bar> + 2 ^ 149) div 2 ^ 150) * 2 ^ 149) | _ \<Rightarrow> a)"

definition FloatItem_round :: "f32 \<Rightarrow> f32" where
  "FloatItem_round v = f32_div (f32_std_round (f32_mul v (f32_of_int 100))) (f32_of_int 100)"

text \<open>The format \<^verbatim>\<open>%.2f\<close> of a finite number: its hundredths rounded to even, two digits behind the point.\<close>

definition hundredths :: "int \<Rightarrow> nat" where
  "hundredths x = nat (let n = \<bar>x\<bar> * 100; q = n div 2 ^ 149; r = n mod 2 ^ 149 in
     if 2 * r > 2 ^ 149 \<or> 2 * r = 2 ^ 149 \<and> odd q then q + 1 else q)"

definition fixed2 :: "nat \<Rightarrow> string" where
  "fixed2 h = dec (h div 100) @ CHR ''.'' # [digit_char (h div 10 mod 10), digit_char (h mod 10)]"

text \<open>The loop that cuts at most three zeros and points off the end of the text; the argument is the reversed text.\<close>

fun trim_zeros :: "nat \<Rightarrow> string \<Rightarrow> string" where
  "trim_zeros (Suc n) (c # cs) = (if c = CHR ''0'' \<or> c = CHR ''.'' then trim_zeros n cs else c # cs)"
| "trim_zeros _ cs = cs"

definition float_text :: "f32 \<Rightarrow> string option" where
  "float_text v =
     (let neg = (case v of Fin x \<Rightarrow> x < 0 | Inf n \<Rightarrow> n | NaN \<Rightarrow> False);
          sign = (if neg then ''-'' else []) in
      case FloatItem_round v of
        Fin z \<Rightarrow> let s = sign @ fixed2 (hundredths z) in
          if length s < 30 then Some (rev (trim_zeros 3 (rev s))) else None
      | Inf _ \<Rightarrow> Some (sign @ ''inf'')
      | NaN \<Rightarrow> None)"

fun item_toString :: "Item \<Rightarrow> string option" where
  "item_toString NullItem = Some ''NULL''"
| "item_toString (IntItem v n) = Some (if n then ''NULL'' else dec_int v)"
| "item_toString (DateItem v n) = Some (if n then ''NULL'' else date_text v)"
| "item_toString (FloatItem v n) = (if n then Some ''NULL'' else float_text v)"
| "item_toString (BoolItem v n) = Some (if n then ''NULL'' else if v then ''true'' else ''false'')"
| "item_toString (CharItem v n) = Some (if n then ''NULL'' else dec_int (sint v))"
| "item_toString (TextItem v n) = Some (if n then ''NULL'' else v)"

section \<open>Rows\<close>

type_synonym Row = "Item list"

definition row_at :: "Row \<Rightarrow> int \<Rightarrow> Item option" where
  "row_at row i = (if 0 \<le> i \<and> i < int (length row) then Some (row ! nat i) else None)"

definition row_add :: "Item \<Rightarrow> Row \<Rightarrow> Row" where
  "row_add v row = row @ [v]"

definition row_add_at :: "int \<Rightarrow> Item \<Rightarrow> Row \<Rightarrow> Row option" where
  "row_add_at i v row = (if 0 \<le> i \<and> i < int (length row) then Some (row[nat i := v]) else None)"

definition row_rewrite :: "int \<Rightarrow> Item \<Rightarrow> Row \<Rightarrow> (RC \<times> Row) option" where
  "row_rewrite i item row =
     (if i \<ge> int (length row) then Some (GENERIC_ERROR, row)
      else if i < 0 then None
      else Some (SUCCESS, row[nat i := item]))"

definition row_insertRow :: "Row \<Rightarrow> Row \<Rightarrow> Row" where
  "row_insertRow other row = row @ other"

text \<open>\<^verbatim>\<open>row_to_string\<close> of \<open>Relation.cpp\<close>: the fields, separated by bars.\<close>

fun row_fields :: "bool \<Rightarrow> Row \<Rightarrow> string option" where
  "row_fields first [] = Some []"
| "row_fields first (i # is) = do {
     s \<leftarrow> item_toString i;
     r \<leftarrow> row_fields False is;
     Some ((if first then [] else '' | '') @ s @ r)
   }"

definition row_to_string :: "Row \<Rightarrow> string option" where
  "row_to_string row = do { s \<leftarrow> row_fields True row; Some (s @ [CHR 0x0A]) }"

end
