(* ===== verification/Ob_Expr.thy ===== *)
theory Ob_Expr
  imports Ob_Item
begin

text \<open>
  The expressions of queries (\<open>src/src/observer/sql/expr/expresions/\<close>).  The trees of expressions, filters and operators are
  values; each object in them carries its address, and a store holds the members that change while a query runs:
  the current value of an expression, the column it was found in, the groups of an aggregate, the relation of a
  subquery.  An expression that two trees share has one address.  The list of \<^verbatim>\<open>GROUP BY\<close> expressions is mapped to
  a relation by \<^verbatim>\<open>Aggregate::evaluate\<close>, which the mapping of an aggregate does not repeat here.
\<close>

section \<open>Trees\<close>

datatype AggKind = AggIdentity | AggMax | AggMin | AggAvg | AggSum | AggCount | AggCountStar

datatype BaseExpression =
    ConstExpression nat string AttrType
  | IdentifierExpression nat string string AttrType
  | NegativeExpression nat BaseExpression AttrType
  | BinaryExpression nat BaseExpression BaseExpression ExprOp AttrType
  | AggregateFunction nat AggKind BaseExpression
  | LengthFunction nat BaseExpression
  | RoundFunction nat BaseExpression "BaseExpression option"
  | DateFormat nat BaseExpression BaseExpression
  | RelationExpression nat "QueryOperator option"
and Schema = Schema (sc_expr: "BaseExpression option") (sc_type: AttrType) (sc_alias: "string option")
and FilterUnit = FilterUnit (fu_comp: CompOp) (fu_left: "BaseExpression option") (fu_right: "BaseExpression option")
    (fu_leftChild: int) (fu_rightChild: int)
and FilterStmt = FilterStmt (filter_units: "FilterUnit list") (or_mode: bool)
and QueryOperator =
    ScanOperator nat nat "Schema list"
  | PredicateOperator1 nat QueryOperator FilterStmt
  | JoinOperator nat "QueryOperator list" FilterStmt
  | OrderOperator nat QueryOperator "(BaseExpression \<times> bool) list"
  | AggregateOperator nat QueryOperator "BaseExpression list" "BaseExpression list"
  | TransformerAndProjectOperator nat QueryOperator "BaseExpression list"
  | SimpleSelect nat "BaseExpression list"

fun expr_id :: "BaseExpression \<Rightarrow> nat" where
  "expr_id (ConstExpression n _ _) = n"
| "expr_id (IdentifierExpression n _ _ _) = n"
| "expr_id (NegativeExpression n _ _) = n"
| "expr_id (BinaryExpression n _ _ _ _) = n"
| "expr_id (AggregateFunction n _ _) = n"
| "expr_id (LengthFunction n _) = n"
| "expr_id (RoundFunction n _ _) = n"
| "expr_id (DateFormat n _ _) = n"
| "expr_id (RelationExpression n _) = n"

text \<open>A relation; its width is the number of schemas it was built with.\<close>

record Relation =
  rel_rows :: "Row list"
  rel_schemas :: "Schema list"
  rel_multiTable :: bool

definition new_relation :: "Schema list \<Rightarrow> Relation" where
  "new_relation schemas = \<lparr>rel_rows = [], rel_schemas = schemas, rel_multiTable = False\<rparr>"

definition rel_insertRow :: "Row \<Rightarrow> Relation \<Rightarrow> RC \<times> Relation" where
  "rel_insertRow row r =
     (if length row \<noteq> length (rel_schemas r) then (GENERIC_ERROR, r)
      else (SUCCESS, r\<lparr>rel_rows := rel_rows r @ [row]\<rparr>))"

section \<open>The store\<close>

record EObj =
  eo_isNull :: bool
  intValue :: int
  floatValue :: f32
  textValue :: string
  column :: int
  isInput :: bool
  eo_type :: AttrType
  eo_alias :: "string option"
  bracketed :: bool
  context_map :: "string \<rightharpoonup> Item"
  order_keys :: "string list"
  sum_float :: "string \<rightharpoonup> f32"
  sum_int :: "string \<rightharpoonup> int"
  count_map :: "string \<rightharpoonup> int"
  eo_relation :: "Relation option"
  eo_rowFromFather :: Row
  schemasSet :: bool

record OpObj =
  op_rowFromFather :: Row
  op_schemaOfFather :: "Schema list"
  op_multiTable :: bool
  scan_relation :: "Relation option"
  join_indexes :: "nat list"

text \<open>The world is the state of the tables behind the scans.\<close>

record 'w QState =
  exprs :: "nat \<Rightarrow> EObj"
  opers :: "nat \<Rightarrow> OpObj"
  world :: 'w

abbreviation obj_of :: "'w QState \<Rightarrow> BaseExpression \<Rightarrow> EObj" where
  "obj_of s e \<equiv> exprs s (expr_id e)"

definition upd_expr :: "nat \<Rightarrow> (EObj \<Rightarrow> EObj) \<Rightarrow> 'w QState \<Rightarrow> 'w QState" where
  "upd_expr n f s = s\<lparr>exprs := (exprs s)(n := f (exprs s n))\<rparr>"

definition upd_oper :: "nat \<Rightarrow> (OpObj \<Rightarrow> OpObj) \<Rightarrow> 'w QState \<Rightarrow> 'w QState" where
  "upd_oper n f s = s\<lparr>opers := (opers s)(n := f (opers s n))\<rparr>"

text \<open>
  What the code calls outside of the query: \<^verbatim>\<open>atof\<close>, the double precision formula of \<^verbatim>\<open>ROUND\<close>, and the scans of the
  tables with their rows and their closing.
\<close>

record 'w Env =
  env_atof :: "byte list \<Rightarrow> f32"
  env_round :: "f32 \<Rightarrow> int \<Rightarrow> f32"
  env_scan :: "nat \<Rightarrow> 'w \<Rightarrow> ((RC \<times> Row list) \<times> 'w) option"
  env_close :: "nat \<Rightarrow> 'w \<Rightarrow> (RC \<times> 'w) option"

section \<open>Static members\<close>

fun isId :: "BaseExpression \<Rightarrow> bool" where
  "isId (IdentifierExpression _ _ _ _) = True"
| "isId _ = False"

fun isConst :: "BaseExpression \<Rightarrow> bool" where
  "isConst (ConstExpression _ _ _) = True"
| "isConst (IdentifierExpression _ _ _ _) = False"
| "isConst (NegativeExpression _ e _) = isConst e"
| "isConst (BinaryExpression _ l r _ _) = (isConst l \<and> isConst r)"
| "isConst (AggregateFunction _ k e) = (k \<notin> {AggAvg, AggCount, AggCountStar} \<and> isConst e)"
| "isConst (LengthFunction _ e) = isConst e"
| "isConst (RoundFunction _ f i) = (isConst f \<and> (case i of Some e \<Rightarrow> isConst e | None \<Rightarrow> True))"
| "isConst (DateFormat _ d f) = (isConst d \<and> isConst f)"
| "isConst (RelationExpression _ _) = True"

definition isRelation :: "BaseExpression \<Rightarrow> bool" where
  "isRelation e = (case e of RelationExpression _ _ \<Rightarrow> True | _ \<Rightarrow> False)"

definition isAggregateFunc :: "BaseExpression \<Rightarrow> bool" where
  "isAggregateFunc e = (case e of AggregateFunction _ _ _ \<Rightarrow> True | _ \<Rightarrow> False)"

fun containAggregate :: "BaseExpression \<Rightarrow> bool" where
  "containAggregate (BinaryExpression _ l r _ _) = (containAggregate l \<or> containAggregate r)"
| "containAggregate (AggregateFunction _ _ _) = True"
| "containAggregate _ = False"

text \<open>The type of an aggregate changes when it starts; the types of the operators are fixed when they are built.\<close>

fun expr_type :: "'w QState \<Rightarrow> BaseExpression \<Rightarrow> AttrType" where
  "expr_type s (ConstExpression _ _ t) = t"
| "expr_type s (IdentifierExpression _ _ _ t) = t"
| "expr_type s (NegativeExpression _ _ t) = t"
| "expr_type s (BinaryExpression _ _ _ _ t) = t"
| "expr_type s (AggregateFunction n k _) = (if k = AggAvg then FLOATS else eo_type (exprs s n))"
| "expr_type s (LengthFunction _ _) = INTS"
| "expr_type s (RoundFunction _ _ _) = FLOATS"
| "expr_type s (DateFormat _ _ _) = CHARS"
| "expr_type s (RelationExpression _ _) = RELATIONS"

definition opToString :: "ExprOp \<Rightarrow> string" where
  "opToString op = (case op of OP_ADD \<Rightarrow> ''+'' | OP_SUB \<Rightarrow> ''-'' | OP_MUL \<Rightarrow> ''*'' | OP_DIV \<Rightarrow> ''/'' | OP_MOD \<Rightarrow> ''%'')"

definition paren :: "string \<Rightarrow> string" where
  "paren s = ''('' @ s @ '')''"

definition agg_name :: "AggKind \<Rightarrow> string" where
  "agg_name k = (case k of AggMax \<Rightarrow> ''MAX'' | AggMin \<Rightarrow> ''MIN'' | AggAvg \<Rightarrow> ''AVG'' | AggSum \<Rightarrow> ''SUM'' | _ \<Rightarrow> ''COUNT'')"

definition agg_text :: "AggKind \<Rightarrow> string \<Rightarrow> string" where
  "agg_text k sub = (case k of AggIdentity \<Rightarrow> sub | AggCountStar \<Rightarrow> ''COUNT(*)'' | _ \<Rightarrow> agg_name k @ paren sub)"

fun expr_toString :: "BaseExpression \<Rightarrow> string" where
  "expr_toString (ConstExpression _ lit _) = lit"
| "expr_toString (IdentifierExpression _ t f _) = t @ ''.'' @ f"
| "expr_toString (NegativeExpression _ e _) =
     (if isConst e \<or> isId e then ''-'' @ paren (expr_toString e) else ''-'' @ expr_toString e)"
| "expr_toString (BinaryExpression _ l r op _) =
     (if isId l \<or> isConst l then expr_toString l else paren (expr_toString l)) @ opToString op @
     (if isId r \<or> isConst r then expr_toString r else paren (expr_toString r))"
| "expr_toString (AggregateFunction _ k e) = agg_text k (expr_toString e)"
| "expr_toString (LengthFunction _ e) = ''LENGTH'' @ paren (expr_toString e)"
| "expr_toString (RoundFunction _ f i) =
     ''ROUND'' @ paren (expr_toString f @ (case i of Some e \<Rightarrow> '','' @ expr_toString e | None \<Rightarrow> []))"
| "expr_toString (DateFormat _ d f) = ''DATE_FORMAT('' @ expr_toString d @ '','' @ CHR 0x27 # expr_toString f @ CHR 0x27 # '')''"
| "expr_toString (RelationExpression _ _) = []"

text \<open>The name of a column for the client; without a map of aliases the map is empty.\<close>

fun displayName :: "'w QState \<Rightarrow> bool \<Rightarrow> (string \<rightharpoonup> string) \<Rightarrow> BaseExpression \<Rightarrow> string" where
  "displayName s flag m (ConstExpression _ lit _) = lit"
| "displayName s flag m (IdentifierExpression _ t f _) =
     (if flag then (case m t of Some a \<Rightarrow> if a \<noteq> [] then a else t | None \<Rightarrow> t) @ ''.'' else []) @ f"
| "displayName s flag m (NegativeExpression _ e _) =
     ''-'' @ (if bracketed (obj_of s e) then paren (displayName s flag m e) else displayName s flag m e)"
| "displayName s flag m (BinaryExpression _ l r op _) =
     (if bracketed (obj_of s l) then paren (displayName s flag m l) else displayName s flag m l) @ opToString op @
     (if bracketed (obj_of s r) then paren (displayName s flag m r) else displayName s flag m r)"
| "displayName s flag m (AggregateFunction _ k e) = agg_text k (displayName s flag m e)"
| "displayName s flag m (LengthFunction _ e) = ''LENGTH'' @ paren (displayName s flag m e)"
| "displayName s flag m (RoundFunction _ f i) =
     ''ROUND'' @ paren (displayName s flag m f @ (case i of Some e \<Rightarrow> '','' @ displayName s flag m e | None \<Rightarrow> []))"
| "displayName s flag m (DateFormat _ d f) = ''DATE_FORMAT('' @ displayName s flag m d @ '','' @ CHR 0x27 # expr_toString f @ CHR 0x27 # '')''"
| "displayName s flag m (RelationExpression _ _) = []"

text \<open>The single table an expression reads: \<open>*\<close> for a constant, \<open>None\<close> for several.\<close>

definition join_tables :: "string option \<Rightarrow> string option \<Rightarrow> string option" where
  "join_tables l r = (case (l, r) of
      (Some a, Some b) \<Rightarrow> if a = b then Some a else if a = ''*'' then Some b else if b = ''*'' then Some a else None
    | _ \<Rightarrow> None)"

fun fromSingleTable :: "BaseExpression \<Rightarrow> string option" where
  "fromSingleTable (ConstExpression _ _ _) = Some ''*''"
| "fromSingleTable (IdentifierExpression _ t _ _) = Some t"
| "fromSingleTable (NegativeExpression _ e _) = fromSingleTable e"
| "fromSingleTable (BinaryExpression _ l r _ _) = join_tables (fromSingleTable l) (fromSingleTable r)"
| "fromSingleTable (AggregateFunction _ _ e) = fromSingleTable e"
| "fromSingleTable (LengthFunction _ e) = fromSingleTable e"
| "fromSingleTable (RoundFunction _ f i) =
     (case i of None \<Rightarrow> fromSingleTable f | Some e \<Rightarrow> join_tables (fromSingleTable f) (fromSingleTable e))"
| "fromSingleTable (DateFormat _ d _) = fromSingleTable d"
| "fromSingleTable (RelationExpression _ _) = Some ''*''"

section \<open>The schema of an expression and the column of a relation\<close>

definition schema_of :: "'w QState \<Rightarrow> BaseExpression \<Rightarrow> Schema" where
  "schema_of s e = Schema (Some e) (expr_type s e) (eo_alias (obj_of s e))"

definition schema_display :: "'w QState \<Rightarrow> bool \<Rightarrow> (string \<rightharpoonup> string) \<Rightarrow> Schema \<Rightarrow> string option" where
  "schema_display s flag m sc = (case sc_alias sc of
      Some a \<Rightarrow> Some a
    | None \<Rightarrow> map_option (displayName s flag m) (sc_expr sc))"

text \<open>\<^verbatim>\<open>Relation::findExpressionColumn\<close>; a schema without an expression cannot be asked.\<close>

fun find_column :: "string \<Rightarrow> Schema list \<Rightarrow> int \<Rightarrow> int option" where
  "find_column t [] i = Some (- 1)"
| "find_column t (sc # scs) i =
     (case sc_expr sc of None \<Rightarrow> None | Some e \<Rightarrow> if t = expr_toString e then Some i else find_column t scs (i + 1))"

definition findExpressionColumn :: "BaseExpression \<Rightarrow> Relation \<Rightarrow> int option" where
  "findExpressionColumn e r = find_column (expr_toString e) (rel_schemas r) 0"

fun header_fields :: "'w QState \<Rightarrow> bool \<Rightarrow> (string \<rightharpoonup> string) \<Rightarrow> bool \<Rightarrow> Schema list \<Rightarrow> string option" where
  "header_fields s flag m first [] = Some []"
| "header_fields s flag m first (sc # scs) = do {
     d \<leftarrow> schema_display s flag m sc;
     r \<leftarrow> header_fields s flag m False scs;
     Some ((if first then [] else '' | '') @ d @ r)
   }"

fun print_rows :: "Row list \<Rightarrow> string option" where
  "print_rows [] = Some []"
| "print_rows (row # rows) = do { a \<leftarrow> row_to_string row; b \<leftarrow> print_rows rows; Some (a @ b) }"

definition printToStream :: "'w QState \<Rightarrow> (string \<rightharpoonup> string) \<Rightarrow> Relation \<Rightarrow> string option" where
  "printToStream s m r = do {
     h \<leftarrow> header_fields s (rel_multiTable r) m True (rel_schemas r);
     b \<leftarrow> print_rows (rel_rows r);
     Some (h @ (if rel_schemas r \<noteq> [] then [CHR 0x0A] else []) @ b)
   }"

end
