(* ===== verification/Ob_Calc.thy ===== *)
theory Ob_Calc
  imports Ob_Expr
begin

text \<open>
  How an expression is mapped to the columns of a relation and calculated on a row
  (\<open>ConstExpression.cpp\<close>, \<open>IdentifierExpression.cpp\<close>, \<open>NegativeExpression.cpp\<close>, \<open>BinaryExpression.cpp\<close>, \<open>AggregateFunction.h\<close>,
  \<open>SimpleFunction.cpp\<close>).  The sum, difference and product of integers wrap around; a division of integers that
  traps is \<open>None\<close>.
\<close>

section \<open>Mapping to a relation\<close>

definition tryToFindColumn :: "BaseExpression \<Rightarrow> Relation \<Rightarrow> 'w QState \<Rightarrow> (bool \<times> 'w QState) option" where
  "tryToFindColumn e r s = do {
     c \<leftarrow> findExpressionColumn e r;
     Some (c \<noteq> - 1, upd_expr (expr_id e) (\<lambda>x. x\<lparr>column := c\<rparr>) s)
   }"

definition set_input :: "nat \<Rightarrow> bool \<Rightarrow> 'w QState \<Rightarrow> 'w QState" where
  "set_input n b s = upd_expr n (\<lambda>x. x\<lparr>isInput := b\<rparr>) s"

text \<open>Each class maps the expressions below it through a virtual method, which its definition gets as an argument.\<close>

type_synonym 's calc = "'s \<Rightarrow> (RC \<times> 's) option"

definition identifier_map :: "BaseExpression \<Rightarrow> Relation \<Rightarrow> 'w QState calc" where
  "identifier_map e r s = do {
     (found, s) \<leftarrow> tryToFindColumn e r s;
     Some (if found then SUCCESS else GENERIC_ERROR, s)
   }"

definition negative_map :: "BaseExpression \<Rightarrow> Relation \<Rightarrow> 'w QState calc \<Rightarrow> 'w QState calc" where
  "negative_map e r sub s = do {
     (found, s) \<leftarrow> tryToFindColumn e r s;
     if found then Some (SUCCESS, set_input (expr_id e) True s) else sub (set_input (expr_id e) False s)
   }"

definition binary_map :: "BaseExpression \<Rightarrow> Relation \<Rightarrow> 'w QState calc \<Rightarrow> 'w QState calc \<Rightarrow> 'w QState calc" where
  "binary_map e r left right s = do {
     (found, s) \<leftarrow> tryToFindColumn e r s;
     if found then Some (SUCCESS, set_input (expr_id e) True s)
     else do {
       (rc, s) \<leftarrow> left (set_input (expr_id e) False s);
       if rc \<noteq> SUCCESS then Some (rc, s) else right s
     }
   }"

definition aggregate_map :: "BaseExpression \<Rightarrow> Relation \<Rightarrow> 'w QState calc \<Rightarrow> 'w QState calc" where
  "aggregate_map e r sub s = do {
     (found, s) \<leftarrow> tryToFindColumn e r s;
     if found then Some (SUCCESS, s) else sub s
   }"

definition length_map :: "BaseExpression \<Rightarrow> Relation \<Rightarrow> 'w QState calc \<Rightarrow> 'w QState calc" where
  "length_map e r sub s = do {
     (found, s) \<leftarrow> tryToFindColumn e r s;
     if found then Some (SUCCESS, s) else sub s
   }"

definition round_map :: "BaseExpression \<Rightarrow> Relation \<Rightarrow> 'w QState calc \<Rightarrow> 'w QState calc option \<Rightarrow> 'w QState calc" where
  "round_map e r f i s = do {
     (found, s) \<leftarrow> tryToFindColumn e r s;
     if found then Some (SUCCESS, s)
     else do {
       (rc, s) \<leftarrow> f s;
       if rc \<noteq> SUCCESS then Some (rc, s)
       else case i of None \<Rightarrow> Some (rc, s) | Some g \<Rightarrow> g s
     }
   }"

definition date_map :: "BaseExpression \<Rightarrow> Relation \<Rightarrow> 'w QState calc \<Rightarrow> 'w QState calc \<Rightarrow> 'w QState calc" where
  "date_map e r date format s = do {
     (found, s) \<leftarrow> tryToFindColumn e r s;
     if found then Some (SUCCESS, s)
     else do {
       (rc, s) \<leftarrow> date s;
       if rc \<noteq> SUCCESS then Some (rc, s) else format s
     }
   }"

definition no_map :: "'s calc" where
  "no_map s = Some (SUCCESS, s)"

fun mapToRelation :: "Relation \<Rightarrow> BaseExpression \<Rightarrow> 'w QState calc" where
  "mapToRelation r (ConstExpression n lit t) = no_map"
| "mapToRelation r (IdentifierExpression n tab fld t) = identifier_map (IdentifierExpression n tab fld t) r"
| "mapToRelation r (NegativeExpression n e t) = negative_map (NegativeExpression n e t) r (mapToRelation r e)"
| "mapToRelation r (BinaryExpression n a b op t) = binary_map (BinaryExpression n a b op t) r (mapToRelation r a) (mapToRelation r b)"
| "mapToRelation r (AggregateFunction n k e) = aggregate_map (AggregateFunction n k e) r (mapToRelation r e)"
| "mapToRelation r (LengthFunction n e) = length_map (LengthFunction n e) r (mapToRelation r e)"
| "mapToRelation r (RoundFunction n f i) = round_map (RoundFunction n f i) r (mapToRelation r f) (map_option (mapToRelation r) i)"
| "mapToRelation r (DateFormat n d f) = date_map (DateFormat n d f) r (mapToRelation r d) (mapToRelation r f)"
| "mapToRelation r (RelationExpression n q) = no_map"

section \<open>Current values\<close>

definition set_null :: "nat \<Rightarrow> bool \<Rightarrow> 'w QState \<Rightarrow> 'w QState" where
  "set_null n b s = upd_expr n (\<lambda>x. x\<lparr>eo_isNull := b\<rparr>) s"

definition set_int :: "nat \<Rightarrow> int \<Rightarrow> 'w QState \<Rightarrow> 'w QState" where
  "set_int n v s = upd_expr n (\<lambda>x. x\<lparr>intValue := v\<rparr>) s"

definition set_float :: "nat \<Rightarrow> f32 \<Rightarrow> 'w QState \<Rightarrow> 'w QState" where
  "set_float n v s = upd_expr n (\<lambda>x. x\<lparr>floatValue := v\<rparr>) s"

definition set_text :: "nat \<Rightarrow> string \<Rightarrow> 'w QState \<Rightarrow> 'w QState" where
  "set_text n v s = upd_expr n (\<lambda>x. x\<lparr>textValue := v\<rparr>) s"

definition isCurrentNull :: "'w QState \<Rightarrow> BaseExpression \<Rightarrow> bool" where
  "isCurrentNull s e = eo_isNull (obj_of s e)"

definition currentInt :: "'w QState \<Rightarrow> BaseExpression \<Rightarrow> int" where
  "currentInt s e = intValue (obj_of s e)"

definition currentFloat :: "'w QState \<Rightarrow> BaseExpression \<Rightarrow> f32" where
  "currentFloat s e = floatValue (obj_of s e)"

definition currentText :: "'w QState \<Rightarrow> BaseExpression \<Rightarrow> string" where
  "currentText s e = (case e of ConstExpression _ lit _ \<Rightarrow> lit | _ \<Rightarrow> textValue (obj_of s e))"

text \<open>A null pointer is the result \<open>None\<close>.\<close>

definition toItem :: "'w QState \<Rightarrow> BaseExpression \<Rightarrow> Item option" where
  "toItem s e =
     (if isCurrentNull s e then Some NullItem
      else case expr_type s e of
        INTS \<Rightarrow> Some (IntItem (currentInt s e) False)
      | DATES \<Rightarrow> Some (DateItem (currentInt s e) False)
      | FLOATS \<Rightarrow> Some (FloatItem (currentFloat s e) False)
      | CHARS \<Rightarrow> Some (TextItem (currentText s e) False)
      | _ \<Rightarrow> None)"

section \<open>Arithmetic\<close>

definition evaluate_int :: "int \<Rightarrow> int \<Rightarrow> ExprOp \<Rightarrow> int option" where
  "evaluate_int l r op = (case op of
      OP_ADD \<Rightarrow> Some (wrap32 (l + r))
    | OP_SUB \<Rightarrow> Some (wrap32 (l - r))
    | OP_MUL \<Rightarrow> Some (wrap32 (l * r))
    | OP_MOD \<Rightarrow> if r = 0 \<or> (l = - (2 ^ 31) \<and> r = - 1) then None else Some (l smod r)
    | OP_DIV \<Rightarrow> Some (- 1))"

text \<open>The three functions with a \<^verbatim>\<open>float\<close> among their operands convert the other one first.\<close>

definition evaluate_float :: "f32 \<Rightarrow> f32 \<Rightarrow> ExprOp \<Rightarrow> f32" where
  "evaluate_float l r op = (case op of
      OP_ADD \<Rightarrow> f32_add l r
    | OP_SUB \<Rightarrow> f32_sub l r
    | OP_MUL \<Rightarrow> f32_mul l r
    | OP_DIV \<Rightarrow> f32_div l r
    | OP_MOD \<Rightarrow> f32_of_int (- 1))"

definition isDigital :: "AttrType \<Rightarrow> bool" where
  "isDigital t \<longleftrightarrow> t = INTS \<or> t = FLOATS"

definition binary_inferType :: "AttrType \<Rightarrow> AttrType \<Rightarrow> ExprOp \<Rightarrow> AttrType" where
  "binary_inferType l r op =
     (if l = INTS \<and> r = INTS then if op = OP_DIV then FLOATS else INTS
      else if isDigital l \<and> isDigital r then FLOATS else UNDEFINED)"

definition negative_inferType :: "AttrType \<Rightarrow> AttrType" where
  "negative_inferType t = (if isDigital t then t else UNDEFINED)"

text \<open>The operation on the current values of both operands.\<close>

definition binary_apply :: "nat \<Rightarrow> BaseExpression \<Rightarrow> BaseExpression \<Rightarrow> ExprOp \<Rightarrow> 'w QState \<Rightarrow> 'w QState option" where
  "binary_apply n a b op s =
     (let li = currentInt s a; ri = currentInt s b; lf = currentFloat s a; rf = currentFloat s b in
      case (expr_type s a, expr_type s b) of
        (INTS, INTS) \<Rightarrow>
          if op = OP_DIV then
            Some (if ri = 0 then set_null n True s else set_float n (evaluate_float (f32_of_int li) (f32_of_int ri) op) s)
          else do { v \<leftarrow> evaluate_int li ri op; Some (set_int n v s) }
      | (INTS, FLOATS) \<Rightarrow>
          Some (if op = OP_DIV \<and> f32_tiny rf then set_null n True s else set_float n (evaluate_float (f32_of_int li) rf op) s)
      | (FLOATS, FLOATS) \<Rightarrow>
          Some (if op = OP_DIV \<and> f32_tiny rf then set_null n True s else set_float n (evaluate_float lf rf op) s)
      | (FLOATS, INTS) \<Rightarrow>
          Some (if op = OP_DIV \<and> ri = 0 then set_null n True s else set_float n (evaluate_float lf (f32_of_int ri) op) s)
      | _ \<Rightarrow> Some s)"

section \<open>Functions\<close>

definition monthMap :: "string list" where
  "monthMap = [''January'', ''February'', ''March'', ''April'', ''May'', ''June'', ''July'', ''August'', ''September'',
     ''October'', ''November'', ''December'']"

definition dayMap :: "string list" where
  "dayMap = [''1st'', ''2nd'', ''3rd'', ''4th'', ''5th'', ''6th'', ''7th'', ''8th'', ''9th'', ''10th'',
     ''11st'', ''12nd'', ''13rd'', ''14th'', ''15th'', ''16th'', ''17th'', ''18th'', ''19th'', ''20th'',
     ''21st'', ''22nd'', ''23rd'', ''24th'', ''25th'', ''26th'', ''27th'', ''28th'', ''29th'', ''30th'', ''31st'']"

definition digit_count :: "int \<Rightarrow> nat" where
  "digit_count i = (if i = 0 then 0 else length (dec (nat \<bar>i\<bar>)))"

definition intToString :: "int \<Rightarrow> nat \<Rightarrow> string" where
  "intToString i len =
     (let l = digit_count i; i = (if l > len then i smod 10 ^ (l - len) else i) in
      replicate (len - l) (CHR ''0'') @ dec_int i)"

text \<open>
  The loop over the format: \<open>Some None\<close> is the null result for a month or day out of range.  A percent sign at the end makes the loop
  step over the terminator.
\<close>

fun format_date :: "int \<Rightarrow> int \<Rightarrow> int \<Rightarrow> string \<Rightarrow> string option option" where
  "format_date year month day [] = Some (Some [])"
| "format_date year month day (c # cs) =
     (if c \<noteq> CHR ''%'' then map_option (map_option (\<lambda>t. c # t)) (format_date year month day cs)
      else case cs of
        [] \<Rightarrow> None
      | d # ds \<Rightarrow>
          if d = CHR ''M'' \<and> (month > 12 \<or> month < 1) \<or> d = CHR ''D'' \<and> (day > 31 \<or> day < 1) then Some None
          else
            let t = (if d = CHR ''Y'' then intToString year 4
                     else if d = CHR ''y'' then intToString year 2
                     else if d = CHR ''M'' then monthMap ! nat (month - 1)
                     else if d = CHR ''m'' then intToString month 2
                     else if d = CHR ''D'' then dayMap ! nat (day - 1)
                     else if d = CHR ''d'' then intToString day 2
                     else [d]) in
            map_option (map_option (\<lambda>u. t @ u)) (format_date year month day ds))"

section \<open>Calculation on a row\<close>

text \<open>The value of a column, stored in the member that its type selects.\<close>

definition store_item :: "nat \<Rightarrow> AttrType \<Rightarrow> Item \<Rightarrow> 'w QState \<Rightarrow> 'w QState option" where
  "store_item n t item s =
     (if t = INTS \<or> t = DATES then map_option (\<lambda>v. set_int n v s) (getInt item)
      else if t = FLOATS then map_option (\<lambda>v. set_float n v s) (getFloat item)
      else if t = CHARS then map_option (\<lambda>v. set_text n v s) (getText item)
      else Some s)"

definition const_calculate :: "AttrType \<Rightarrow> 's calc" where
  "const_calculate t s = Some (if t \<in> {INTS, DATES, FLOATS, CHARS, NULLS} then SUCCESS else CONST_PARSE_ERROR, s)"

definition identifier_calculate :: "nat \<Rightarrow> AttrType \<Rightarrow> Row \<Rightarrow> 'w QState calc" where
  "identifier_calculate n t row s = do {
     item \<leftarrow> row_at row (column (exprs s n));
     if item_isNull item then Some (SUCCESS, set_null n True s)
     else if t \<in> {INTS, DATES, FLOATS, CHARS} then do { s \<leftarrow> store_item n t item (set_null n False s); Some (SUCCESS, s) }
     else if t = NULLS then Some (SUCCESS, set_null n True s)
     else Some (GENERIC_ERROR, set_null n False s)
   }"

definition negative_calculate :: "nat \<Rightarrow> BaseExpression \<Rightarrow> AttrType \<Rightarrow> Row \<Rightarrow> 'w QState calc \<Rightarrow> 'w QState calc" where
  "negative_calculate n e t row sub s =
     (let s = set_null n False s in
      if isInput (exprs s n) then do {
        item \<leftarrow> row_at row (column (exprs s n));
        if item_isNull item then Some (SUCCESS, set_null n True s)
        else if isDigital t then do { s \<leftarrow> store_item n t item s; Some (SUCCESS, s) }
        else Some (GENERIC_ERROR, s)
      }
      else do {
        (rc, s) \<leftarrow> sub s;
        if rc \<noteq> SUCCESS then Some (rc, s)
        else if isCurrentNull s e then Some (SUCCESS, set_null n True s)
        else if t = INTS then Some (SUCCESS, set_int n (wrap32 (- currentInt s e)) s)
        else if t = FLOATS then Some (SUCCESS, set_float n (f32_neg (currentFloat s e)) s)
        else Some (GENERIC_ERROR, s)
      })"

text \<open>A value of type \<^verbatim>\<open>float\<close> that is read from a column falls through to the error.\<close>

definition binary_calculate :: "nat \<Rightarrow> BaseExpression \<Rightarrow> BaseExpression \<Rightarrow> ExprOp \<Rightarrow> AttrType \<Rightarrow> Row \<Rightarrow> 'w QState calc \<Rightarrow> 'w QState calc \<Rightarrow>
    'w QState calc" where
  "binary_calculate n a b op t row left right s =
     (let s = set_null n False s in
      if isInput (exprs s n) then do {
        item \<leftarrow> row_at row (column (exprs s n));
        if item_isNull item then Some (SUCCESS, set_null n True s)
        else if t = INTS then do { s \<leftarrow> store_item n t item s; Some (SUCCESS, s) }
        else if t = FLOATS then do { s \<leftarrow> store_item n t item s; Some (GENERIC_ERROR, s) }
        else Some (GENERIC_ERROR, s)
      }
      else do {
        (rc, s) \<leftarrow> left s;
        if rc \<noteq> SUCCESS then Some (GENERIC_ERROR, s)
        else do {
          (rc, s) \<leftarrow> right s;
          if rc \<noteq> SUCCESS then Some (GENERIC_ERROR, s)
          else if isCurrentNull s a \<or> isCurrentNull s b then Some (SUCCESS, set_null n True s)
          else do { s \<leftarrow> binary_apply n a b op s; Some (SUCCESS, s) }
        }
      })"

text \<open>The flag for null is never taken back.\<close>

definition aggregate_calculate :: "nat \<Rightarrow> Row \<Rightarrow> 'w QState calc" where
  "aggregate_calculate n row s =
     (if column (exprs s n) \<noteq> - 1 then do {
        item \<leftarrow> row_at row (column (exprs s n));
        if item_isNull item then Some (SUCCESS, set_null n True s)
        else if eo_type (exprs s n) \<in> {INTS, DATES, FLOATS, CHARS}
        then do { s \<leftarrow> store_item n (eo_type (exprs s n)) item s; Some (SUCCESS, s) }
        else Some (UNKNOWN_TYPE, s)
      }
      else Some (SHOULD_NOT_BE_CALLED, s))"

definition length_calculate :: "nat \<Rightarrow> BaseExpression \<Rightarrow> Row \<Rightarrow> 'w QState calc \<Rightarrow> 'w QState calc" where
  "length_calculate n e row sub s =
     (let s = set_null n False s in
      if column (exprs s n) \<noteq> - 1 then do {
        item \<leftarrow> row_at row (column (exprs s n));
        if item_isNull item then Some (SUCCESS, set_null n True s)
        else do { s \<leftarrow> store_item n INTS item s; Some (SUCCESS, s) }
      }
      else do {
        (rc, s) \<leftarrow> sub s;
        if rc \<noteq> SUCCESS then Some (rc, s)
        else if isCurrentNull s e then Some (SUCCESS, set_null n True s)
        else Some (SUCCESS, set_int n (int (length (currentText s e))) s)
      })"

definition round_calculate :: "'w Env \<Rightarrow> nat \<Rightarrow> BaseExpression \<Rightarrow> Row \<Rightarrow> 'w QState calc \<Rightarrow> (BaseExpression \<times> 'w QState calc) option \<Rightarrow>
    'w QState calc" where
  "round_calculate env n f row sub i s =
     (let s = set_null n False s in
      if column (exprs s n) \<noteq> - 1 then do {
        item \<leftarrow> row_at row (column (exprs s n));
        if item_isNull item then Some (SUCCESS, set_null n True s)
        else do { s \<leftarrow> store_item n FLOATS item s; Some (SUCCESS, s) }
      }
      else do {
        (rc, s) \<leftarrow> sub s;
        if rc \<noteq> SUCCESS then Some (rc, s)
        else if isCurrentNull s f then Some (SUCCESS, set_null n True s)
        else if \<not> isDigital (expr_type s f) then Some (ERROR_INPUT_TYPE, s)
        else
          let v = (if expr_type s f = FLOATS then currentFloat s f else f32_of_int (currentInt s f)) in
          case i of
            None \<Rightarrow> Some (SUCCESS, set_float n (env_round env v 0) s)
          | Some (e, g) \<Rightarrow> do {
              (rc, s) \<leftarrow> g s;
              if rc \<noteq> SUCCESS then Some (rc, s)
              else if isCurrentNull s e \<or> currentInt s e < 0 then Some (SUCCESS, set_null n True s)
              else Some (SUCCESS, set_float n (env_round env v (currentInt s e)) s)
            }
      })"

definition date_calculate :: "nat \<Rightarrow> BaseExpression \<Rightarrow> BaseExpression \<Rightarrow> Row \<Rightarrow> 'w QState calc \<Rightarrow> 'w QState calc \<Rightarrow> 'w QState calc" where
  "date_calculate n d f row date format s =
     (let s = set_null n False s in
      if column (exprs s n) \<noteq> - 1 then do {
        item \<leftarrow> row_at row (column (exprs s n));
        if item_isNull item then Some (SUCCESS, set_null n True s)
        else do { s \<leftarrow> store_item n CHARS item s; Some (SUCCESS, s) }
      }
      else do {
        (rc, s) \<leftarrow> date s;
        if rc \<noteq> SUCCESS then Some (rc, s)
        else do {
          (rc, s) \<leftarrow> format s;
          if rc \<noteq> SUCCESS then Some (rc, s)
          else if isCurrentNull s d \<or> isCurrentNull s f then Some (SUCCESS, set_null n True s)
          else do {
            let v = currentInt s d;
            t \<leftarrow> format_date (v sdiv 100 sdiv 100) (v sdiv 100 smod 100) (v smod 100) (currentText s f);
            Some (SUCCESS, case t of None \<Rightarrow> set_null n True s | Some u \<Rightarrow> set_text n u s)
          }
        }
      })"

fun calculate :: "'w Env \<Rightarrow> Row \<Rightarrow> BaseExpression \<Rightarrow> 'w QState calc" where
  "calculate env row (ConstExpression n lit t) = const_calculate t"
| "calculate env row (IdentifierExpression n tab fld t) = identifier_calculate n t row"
| "calculate env row (NegativeExpression n e t) = negative_calculate n e t row (calculate env row e)"
| "calculate env row (BinaryExpression n a b op t) = binary_calculate n a b op t row (calculate env row a) (calculate env row b)"
| "calculate env row (AggregateFunction n k e) = aggregate_calculate n row"
| "calculate env row (LengthFunction n e) = length_calculate n e row (calculate env row e)"
| "calculate env row (RoundFunction n f i) =
     round_calculate env n f row (calculate env row f) (map_option (\<lambda>e. (e, calculate env row e)) i)"
| "calculate env row (DateFormat n d f) = date_calculate n d f row (calculate env row d) (calculate env row f)"
| "calculate env row (RelationExpression n q) = no_map"

end
