(* ===== verification/Ob_Compare.thy ===== *)
theory Ob_Compare
  imports Ob_Calc
begin

text \<open>
  Comparison of expressions (\<open>src/src/observer/sql/expr/expresions/BaseExpression.cpp\<close>, \<^verbatim>\<open>relation2item\<close> of \<open>util.cpp\<close>) and the filters
  built from it (\<open>src/src/observer/sql/stmt/filter_stmt.cpp\<close>).  A subquery is brought up to date by a call that the
  comparison gets as an argument, since evaluating it needs the operators.
\<close>

section \<open>Comparing values\<close>

definition checkTypeMatch :: "AttrType \<Rightarrow> AttrType \<Rightarrow> bool" where
  "checkTypeMatch l r =
     (if l = UNDEFINED \<or> r = UNDEFINED then False
      else if l = NULLS \<or> r = NULLS then True
      else if l = DATES \<and> r \<noteq> DATES then False
      else if l \<noteq> DATES \<and> r = DATES then False
      else True)"

definition textComp :: "string \<Rightarrow> string \<Rightarrow> CompOp \<Rightarrow> bool" where
  "textComp a b op = (case op of
      EQUAL_TO \<Rightarrow> strcmp a b = 0
    | LESS_EQUAL \<Rightarrow> strcmp a b \<le> 0
    | NOT_EQUAL \<Rightarrow> strcmp a b \<noteq> 0
    | LESS_THAN \<Rightarrow> strcmp a b < 0
    | GREAT_EQUAL \<Rightarrow> strcmp a b \<ge> 0
    | GREAT_THAN \<Rightarrow> strcmp a b > 0
    | LIKE \<Rightarrow> compare_like (to_bytes a) (to_bytes b)
    | NOT_LIKE \<Rightarrow> \<not> compare_like (to_bytes a) (to_bytes b)
    | _ \<Rightarrow> False)"

definition numberComp :: "int \<Rightarrow> int \<Rightarrow> CompOp \<Rightarrow> bool" where
  "numberComp a b op = (case op of
      EQUAL_TO \<Rightarrow> a = b
    | LESS_EQUAL \<Rightarrow> a \<le> b
    | NOT_EQUAL \<Rightarrow> a \<noteq> b
    | LESS_THAN \<Rightarrow> a < b
    | GREAT_EQUAL \<Rightarrow> a \<ge> b
    | GREAT_THAN \<Rightarrow> a > b
    | _ \<Rightarrow> False)"

text \<open>
  The difference is compared with an epsilon that is no single precision number, so \<^verbatim>\<open><\<close> and \<^verbatim>\<open><=\<close> agree with it;
  every comparison with a difference that is no number is false.
\<close>

definition floatComp :: "f32 \<Rightarrow> f32 \<Rightarrow> CompOp \<Rightarrow> bool" where
  "floatComp a b op =
     (let gt = f32_minus_gt_eps a b; lt = f32_minus_gt_eps b a; num = (\<not> f32_diff_nan a b) in
      case op of
        EQUAL_TO \<Rightarrow> num \<and> \<not> lt \<and> \<not> gt
      | LESS_EQUAL \<Rightarrow> num \<and> \<not> gt
      | NOT_EQUAL \<Rightarrow> lt \<or> gt
      | LESS_THAN \<Rightarrow> lt
      | GREAT_EQUAL \<Rightarrow> num \<and> \<not> lt
      | GREAT_THAN \<Rightarrow> gt
      | _ \<Rightarrow> False)"

text \<open>Both operands of a comparison that are not null, read with the given functions.\<close>

definition typed_comp ::
  "(byte list \<Rightarrow> f32) \<Rightarrow> AttrType \<Rightarrow> AttrType \<Rightarrow> int option \<Rightarrow> f32 option \<Rightarrow> string option \<Rightarrow> int option \<Rightarrow> f32 option \<Rightarrow> string option \<Rightarrow>
   CompOp \<Rightarrow> bool option option" where
  "typed_comp atof t1 t2 i1 f1 x1 i2 f2 x2 op = (case (t1, t2) of
      (CHARS, CHARS) \<Rightarrow> Some (do { a \<leftarrow> x1; b \<leftarrow> x2; Some (textComp a b op) })
    | (CHARS, INTS) \<Rightarrow> Some (do { a \<leftarrow> x1; b \<leftarrow> i2; Some (floatComp (text2float atof a) (f32_of_int b) op) })
    | (CHARS, FLOATS) \<Rightarrow> Some (do { a \<leftarrow> x1; b \<leftarrow> f2; Some (floatComp (text2float atof a) b op) })
    | (INTS, CHARS) \<Rightarrow> Some (do { a \<leftarrow> i1; b \<leftarrow> x2; Some (floatComp (f32_of_int a) (text2float atof b) op) })
    | (FLOATS, CHARS) \<Rightarrow> Some (do { a \<leftarrow> f1; b \<leftarrow> x2; Some (floatComp a (text2float atof b) op) })
    | (INTS, INTS) \<Rightarrow> Some (do { a \<leftarrow> i1; b \<leftarrow> i2; Some (numberComp a b op) })
    | (DATES, DATES) \<Rightarrow> Some (do { a \<leftarrow> i1; b \<leftarrow> i2; Some (numberComp a b op) })
    | (INTS, FLOATS) \<Rightarrow> Some (do { a \<leftarrow> i1; b \<leftarrow> f2; Some (floatComp (f32_of_int a) b op) })
    | (FLOATS, INTS) \<Rightarrow> Some (do { a \<leftarrow> f1; b \<leftarrow> i2; Some (floatComp a (f32_of_int b) op) })
    | (FLOATS, FLOATS) \<Rightarrow> Some (do { a \<leftarrow> f1; b \<leftarrow> f2; Some (floatComp a b op) })
    | _ \<Rightarrow> None)"

text \<open>The comparison when one side is null.\<close>

definition null_comp :: "AttrType \<Rightarrow> AttrType \<Rightarrow> CompOp \<Rightarrow> bool" where
  "null_comp t1 t2 op = (if t1 = NULLS \<and> t2 = NULLS then op = IS else op = IS_NOT)"

text \<open>An item is a pointer that may be null.\<close>

definition itemComp :: "(byte list \<Rightarrow> f32) \<Rightarrow> AttrType \<Rightarrow> AttrType \<Rightarrow> Item option \<Rightarrow> Item option \<Rightarrow> CompOp \<Rightarrow> bool option" where
  "itemComp atof t1 t2 i1 i2 op =
     (if op = IS \<or> op = IS_NOT \<or> t1 = NULLS \<or> t2 = NULLS then Some (null_comp t1 t2 op)
      else case typed_comp atof t1 t2 (Option.bind i1 getInt) (Option.bind i1 getFloat) (Option.bind i1 getText)
          (Option.bind i2 getInt) (Option.bind i2 getFloat) (Option.bind i2 getText) op of
        None \<Rightarrow> Some False
      | Some b \<Rightarrow> b)"

section \<open>Membership\<close>

text \<open>The loop over the rows of a subquery: once a null was seen, the type of all later items is that of null.\<close>

fun in_rows :: "(byte list \<Rightarrow> f32) \<Rightarrow> Item option \<Rightarrow> AttrType \<Rightarrow> AttrType \<Rightarrow> CompOp \<Rightarrow> Row list \<Rightarrow> bool option" where
  "in_rows atof left typeL typeR op [] = Some (op \<noteq> IN)"
| "in_rows atof left typeL typeR op (row # rows) = do {
     right \<leftarrow> row_at row 0;
     let typeR = (if item_isNull right then NULLS else typeR);
     result \<leftarrow> itemComp atof typeL typeR left (Some right) (if op = IN then EQUAL_TO else NOT_EQUAL);
     if op = IN \<and> result then Some True
     else if op \<noteq> IN \<and> \<not> result then Some False
     else in_rows atof left typeL typeR op rows
   }"

text \<open>The loop over the values of a list.\<close>

fun in_values :: "(byte list \<Rightarrow> f32) \<Rightarrow> Item option \<Rightarrow> AttrType \<Rightarrow> CompOp \<Rightarrow> (AttrType \<times> Item) list \<Rightarrow> bool option" where
  "in_values atof left typeL op [] = Some (op \<noteq> IN)"
| "in_values atof left typeL op ((t, right) # vs) = do {
     let typeR = (if item_isNull right then NULLS else t);
     result \<leftarrow> itemComp atof typeL typeR left (Some right) (if op = IN then EQUAL_TO else NOT_EQUAL);
     if op = IN \<and> result then Some True
     else if op \<noteq> IN \<and> \<not> result then Some False
     else in_values atof left typeL op vs
   }"

definition inComp :: "(byte list \<Rightarrow> f32) \<Rightarrow> Item option \<Rightarrow> AttrType \<Rightarrow> Relation \<Rightarrow> CompOp \<Rightarrow> bool \<Rightarrow> (RC \<times> bool) option" where
  "inComp atof left typeL r op isColumn =
     (if isColumn then
        if length (rel_schemas r) > 1 then Some (MISMATCH, False)
        else if rel_schemas r = [] then Some (SUCCESS, op \<noteq> IN)
        else map_option (Pair SUCCESS) (in_rows atof left typeL (sc_type (hd (rel_schemas r))) op (rel_rows r))
      else
        if length (rel_rows r) > 1 then Some (MISMATCH, False)
        else case rel_rows r of
          [] \<Rightarrow> Some (SUCCESS, op \<noteq> IN)
        | row # _ \<Rightarrow> map_option (Pair SUCCESS) (in_values atof left typeL op (zip (map sc_type (rel_schemas r)) row)))"

text \<open>\<^verbatim>\<open>relation2item\<close>: the value of a relation of at most one value, with its type.\<close>

definition relation2item :: "Relation \<Rightarrow> (RC \<times> Item option \<times> AttrType) option" where
  "relation2item r =
     (case rel_rows r of
        [] \<Rightarrow> Some (SUCCESS, None, NULLS)
      | [row] \<Rightarrow>
          if length (rel_schemas r) > 1 then Some (ERROR_INPUT_TYPE, None, UNDEFINED)
          else (case (row, rel_schemas r) of
            (item # _, sc # _) \<Rightarrow> Some (SUCCESS, Some item, if item_isNull item then NULLS else sc_type sc)
          | _ \<Rightarrow> None)
      | _ \<Rightarrow> Some (ERROR_INPUT_TYPE, None, UNDEFINED))"

section \<open>Comparing expressions\<close>

type_synonym 's updater = "'s \<Rightarrow> (RC \<times> 's) option"
type_synonym 's tester = "Row \<Rightarrow> 's \<Rightarrow> ((RC \<times> bool) \<times> 's) option"

text \<open>\<^verbatim>\<open>needRecalculate_\<close>: the relation is that of a subquery.\<close>

definition needRecalculate :: "BaseExpression \<Rightarrow> bool" where
  "needRecalculate e = (case e of RelationExpression _ (Some _) \<Rightarrow> True | _ \<Rightarrow> False)"

definition relation_of :: "'w QState \<Rightarrow> BaseExpression \<Rightarrow> Relation option" where
  "relation_of s e = eo_relation (obj_of s e)"

text \<open>One side of a comparison as a single value: that of the relation, or the current one.\<close>

definition single_value :: "AttrType \<Rightarrow> BaseExpression \<Rightarrow> 'w QState updater \<Rightarrow> 'w QState \<Rightarrow> ((RC \<times> Item option \<times> AttrType) \<times> 'w QState) option" where
  "single_value t e upd s =
     (if t = RELATIONS then do {
        (rc, s) \<leftarrow> upd s;
        if rc \<noteq> SUCCESS then Some ((rc, None, UNDEFINED), s)
        else do {
          r \<leftarrow> relation_of s e;
          (rc, item, t) \<leftarrow> relation2item r;
          Some ((if rc \<noteq> SUCCESS then ERROR_INPUT_TYPE else SUCCESS, item, t), s)
        }
      }
      else Some ((SUCCESS, toItem s e, t), s))"

text \<open>The branch for relations; a missing left side is a null pointer.\<close>

definition relation_compare ::
  "'w Env \<Rightarrow> BaseExpression option \<Rightarrow> BaseExpression \<Rightarrow> AttrType \<Rightarrow> AttrType \<Rightarrow> CompOp \<Rightarrow> 'w QState updater \<Rightarrow> 'w QState updater \<Rightarrow> 'w QState \<Rightarrow>
   ((RC \<times> bool) \<times> 'w QState) option" where
  "relation_compare env left right typeL typeR op updL updR s =
     (if op = EXISTS \<or> op = NOT_EXISTS then
        if typeR \<noteq> RELATIONS then Some ((ERROR_INPUT_TYPE, False), s)
        else do {
          (rc, s) \<leftarrow> updR s;
          if rc \<noteq> SUCCESS then Some ((rc, False), s)
          else do {
            r \<leftarrow> relation_of s right;
            Some ((SUCCESS, if rel_rows r = [] \<or> rel_schemas r = [] then op \<noteq> EXISTS else op = EXISTS), s)
          }
        }
      else if op = IN \<or> op = NOT_IN then
        if typeR \<noteq> RELATIONS then Some ((ERROR_INPUT_TYPE, False), s)
        else do {
          l \<leftarrow> left;
          (rc, s) \<leftarrow> (if typeL = RELATIONS then updL s else Some (SUCCESS, s));
          if rc \<noteq> SUCCESS then Some ((rc, False), s)
          else do {
            (rc, s) \<leftarrow> updR s;
            if rc \<noteq> SUCCESS then Some ((rc, False), s)
            else do {
              (rc, item, t) \<leftarrow> (if typeL = RELATIONS then do { rl \<leftarrow> relation_of s l; relation2item rl }
                                else Some (SUCCESS, toItem s l, typeL));
              if rc \<noteq> SUCCESS then Some ((ERROR_INPUT_TYPE, False), s)
              else do {
                r \<leftarrow> relation_of s right;
                res \<leftarrow> inComp (env_atof env) item t r op (needRecalculate right);
                Some (res, s)
              }
            }
          }
        }
      else do {
        l \<leftarrow> left;
        ((rc, il, tl), s) \<leftarrow> single_value typeL l updL s;
        if rc \<noteq> SUCCESS then Some ((rc, False), s)
        else do {
          ((rc, ir, tr), s) \<leftarrow> single_value typeR right updR s;
          if rc \<noteq> SUCCESS then Some ((rc, False), s)
          else do {
            b \<leftarrow> itemComp (env_atof env) tl tr il ir op;
            Some ((SUCCESS, b), s)
          }
        }
      })"

definition current_type :: "'w QState \<Rightarrow> BaseExpression \<Rightarrow> AttrType" where
  "current_type s e = (if isCurrentNull s e then NULLS else expr_type s e)"

definition calculate_left :: "'w Env \<Rightarrow> Row \<Rightarrow> BaseExpression option \<Rightarrow> 'w QState \<Rightarrow> (RC \<times> 'w QState) option" where
  "calculate_left env row left s = (case left of None \<Rightarrow> Some (SUCCESS, s) | Some e \<Rightarrow> calculate env row e s)"

text \<open>\<^verbatim>\<open>BaseExpression::compare\<close>.\<close>

definition expr_compare ::
  "'w Env \<Rightarrow> BaseExpression option \<Rightarrow> BaseExpression \<Rightarrow> CompOp \<Rightarrow> 'w QState updater \<Rightarrow> 'w QState updater \<Rightarrow> 'w QState tester" where
  "expr_compare env left right op updL updR row s = do {
     (rc, s) \<leftarrow> calculate_left env row left s;
     if rc \<noteq> SUCCESS then Some ((rc, False), s)
     else do {
       (rc, s) \<leftarrow> calculate env row right s;
       if rc \<noteq> SUCCESS then Some ((rc, False), s)
       else
         let typeL = (case left of None \<Rightarrow> RELATIONS | Some e \<Rightarrow> current_type s e); typeR = current_type s right in
         if \<not> checkTypeMatch typeL typeR then Some ((MISMATCH, False), s)
         else if typeL = NULLS \<or> typeR = NULLS then Some ((SUCCESS, null_comp typeL typeR op), s)
         else case typed_comp (env_atof env) typeL typeR
             (map_option (currentInt s) left) (map_option (currentFloat s) left) (map_option (currentText s) left)
             (Some (currentInt s right)) (Some (currentFloat s right)) (Some (currentText s right)) op of
           Some res \<Rightarrow> do { b \<leftarrow> res; Some ((SUCCESS, b), s) }
         | None \<Rightarrow>
             if typeL = RELATIONS \<or> typeR = RELATIONS then relation_compare env left right typeL typeR op updL updR s
             else Some ((UNKNOWN_TYPE, False), s)
     }
   }"

section \<open>Filters\<close>

definition unit_mapToRelation :: "Relation \<Rightarrow> FilterUnit \<Rightarrow> 'w QState \<Rightarrow> (RC \<times> 'w QState) option" where
  "unit_mapToRelation r u s = do {
     (rc, s) \<leftarrow> (case fu_left u of None \<Rightarrow> Some (SUCCESS, s) | Some e \<Rightarrow> mapToRelation r e s);
     if rc \<noteq> SUCCESS then Some (rc, s)
     else case fu_right u of None \<Rightarrow> Some (SUCCESS, s) | Some e \<Rightarrow> mapToRelation r e s
   }"

fun units_mapToRelation :: "Relation \<Rightarrow> FilterUnit list \<Rightarrow> 'w QState \<Rightarrow> (RC \<times> 'w QState) option" where
  "units_mapToRelation r [] s = Some (SUCCESS, s)"
| "units_mapToRelation r (u # us) s = do {
     (rc, s) \<leftarrow> unit_mapToRelation r u s;
     if rc \<noteq> SUCCESS then Some (rc, s) else units_mapToRelation r us s
   }"

definition isScanFilter :: "FilterUnit \<Rightarrow> string option" where
  "isScanFilter u = do {
     l \<leftarrow> fu_left u;
     r \<leftarrow> fu_right u;
     a \<leftarrow> fromSingleTable l;
     b \<leftarrow> fromSingleTable r;
     if a = ''*'' then Some b else if b = ''*'' then Some a else if a = b then Some b else None
   }"

definition getScanFilterStmtByTableName :: "string \<Rightarrow> FilterStmt \<Rightarrow> FilterStmt" where
  "getScanFilterStmtByTableName table f =
     FilterStmt (filter (\<lambda>u. isScanFilter u = Some table \<or> isScanFilter u = Some ''*'') (filter_units f)) False"

definition getJoinFilterStmt :: "FilterStmt \<Rightarrow> FilterStmt" where
  "getJoinFilterStmt f = FilterStmt [] False"

text \<open>A conjunction of units: the first that fails or is false ends it.\<close>

fun all_units :: "'s tester list \<Rightarrow> Row \<Rightarrow> bool \<Rightarrow> 's \<Rightarrow> ((RC \<times> bool) \<times> 's) option" where
  "all_units [] row flag s = Some ((SUCCESS, flag), s)"
| "all_units (t # ts) row flag s = do {
     ((rc, b), s) \<leftarrow> t row s;
     if rc \<noteq> SUCCESS \<or> \<not> b then Some ((rc, b), s) else all_units ts row b s
   }"

text \<open>The tree of units, from the unit with the given index.\<close>

partial_function (option) filter_row_tree :: "FilterUnit list \<Rightarrow> 's tester list \<Rightarrow> int \<Rightarrow> Row \<Rightarrow> 's \<Rightarrow> ((RC \<times> bool) \<times> 's) option" where
  "filter_row_tree us ts cur row s =
     (if cur < 0 \<or> cur \<ge> int (length us) \<or> cur \<ge> int (length ts) then None
      else let comp = fu_comp (us ! nat cur) in
        if comp = AND_OP \<or> comp = OR_OP then do {
          ((rc, b), s) \<leftarrow> filter_row_tree us ts (fu_leftChild (us ! nat cur)) row s;
          if rc \<noteq> SUCCESS \<or> comp = AND_OP \<and> \<not> b \<or> comp = OR_OP \<and> b then Some ((rc, b), s)
          else filter_row_tree us ts (fu_rightChild (us ! nat cur)) row s
        }
        else (ts ! nat cur) row s)"

end
