(* ===== verification/Ob_Aggregate.thy ===== *)
theory Ob_Aggregate
  imports Ob_Calc
begin

text \<open>
  The aggregate functions (\<open>src/src/observer/sql/expr/expresions/Aggregate.cpp\<close>, \<open>AggregateFunction.h\<close>, \<open>AggregateFunction.cpp\<close>): the rows of a relation are treated one
  after the other, each under the key of its group, and the groups come out in the order of their first rows.  A
  null pointer that the code would follow, and \<^verbatim>\<open>getInt\<close> on a null item, are \<open>None\<close>.
\<close>

section \<open>Keys of groups\<close>

text \<open>\<open>(SUCCESS, None)\<close> is a row that is skipped because an expression of its key is null.\<close>

fun group_key_from :: "'w Env \<Rightarrow> Row \<Rightarrow> BaseExpression list \<Rightarrow> string \<Rightarrow> 'w QState \<Rightarrow> ((RC \<times> string option) \<times> 'w QState) option" where
  "group_key_from env row [] key s = Some ((SUCCESS, Some key), s)"
| "group_key_from env row (e # es) key s = do {
     (rc, s) \<leftarrow> calculate env row e s;
     if rc \<noteq> SUCCESS then Some ((rc, None), s)
     else if isCurrentNull s e then Some ((SUCCESS, None), s)
     else do {
       item \<leftarrow> toItem s e;
       t \<leftarrow> item_toString item;
       group_key_from env row es (key @ t @ ''#'') s
     }
   }"

definition group_key :: "'w Env \<Rightarrow> Row \<Rightarrow> BaseExpression list \<Rightarrow> 'w QState \<Rightarrow> ((RC \<times> string option) \<times> 'w QState) option" where
  "group_key env row groupBy s = group_key_from env row groupBy (if groupBy = [] then ''non#key#set#'' else []) s"

section \<open>One row\<close>

definition put_context :: "nat \<Rightarrow> string \<Rightarrow> Item \<Rightarrow> 'w QState \<Rightarrow> 'w QState" where
  "put_context n key item s = upd_expr n (\<lambda>x. x\<lparr>context_map := (context_map x)(key \<mapsto> item)\<rparr>) s"

definition push_order :: "nat \<Rightarrow> string \<Rightarrow> 'w QState \<Rightarrow> 'w QState" where
  "push_order n key s = upd_expr n (\<lambda>x. x\<lparr>order_keys := order_keys x @ [key]\<rparr>) s"

text \<open>Whether the new item replaces the old one as the maximum or minimum of the type.\<close>

definition better :: "AggKind \<Rightarrow> AttrType \<Rightarrow> Item \<Rightarrow> Item \<Rightarrow> bool option" where
  "better k t old new =
     (if t = INTS \<or> t = DATES then do { a \<leftarrow> getInt old; b \<leftarrow> getInt new; Some (if k = AggMax then a < b else a > b) }
      else if t = FLOATS then do { a \<leftarrow> getFloat old; b \<leftarrow> getFloat new; Some (if k = AggMax then f32_lt a b else f32_lt b a) }
      else do { a \<leftarrow> getText old; b \<leftarrow> getText new; Some (if k = AggMax then strcmp a b < 0 else strcmp a b > 0) })"

definition treat_extremum :: "nat \<Rightarrow> AggKind \<Rightarrow> BaseExpression \<Rightarrow> string \<Rightarrow> 'w QState \<Rightarrow> (RC \<times> 'w QState) option" where
  "treat_extremum n k e key s =
     (let t = eo_type (exprs s n) in
      if t \<in> {INTS, DATES, FLOATS, CHARS} then
        (case context_map (exprs s n) key of
           None \<Rightarrow> do { item \<leftarrow> toItem s e; Some (SUCCESS, put_context n key item (push_order n key s)) }
         | Some old \<Rightarrow> do {
             item \<leftarrow> toItem s e;
             if item_isNull old then Some (SUCCESS, put_context n key item s)
             else do {
               b \<leftarrow> better k t old item;
               Some (SUCCESS, if b then put_context n key item s else s)
             }
           })
      else Some (ERROR_INPUT_TYPE, s))"

definition treat_identity :: "nat \<Rightarrow> BaseExpression \<Rightarrow> string \<Rightarrow> 'w QState \<Rightarrow> (RC \<times> 'w QState) option" where
  "treat_identity n e key s =
     (if eo_type (exprs s n) \<in> {INTS, DATES, FLOATS, CHARS} then
        (case context_map (exprs s n) key of
           None \<Rightarrow> do { item \<leftarrow> toItem s e; Some (SUCCESS, push_order n key (put_context n key item s)) }
         | Some _ \<Rightarrow> Some (SUCCESS, s))
      else Some (UNKNOWN_TYPE, s))"

definition put_count :: "nat \<Rightarrow> string \<Rightarrow> int \<Rightarrow> 'w QState \<Rightarrow> 'w QState" where
  "put_count n key c s = upd_expr n (\<lambda>x. x\<lparr>count_map := (count_map x)(key \<mapsto> c)\<rparr>) s"

definition count_of :: "nat \<Rightarrow> string \<Rightarrow> 'w QState \<Rightarrow> int" where
  "count_of n key s = (case count_map (exprs s n) key of Some c \<Rightarrow> c | None \<Rightarrow> 0)"

text \<open>Adding a value to the \<^verbatim>\<open>float\<close> or \<^verbatim>\<open>int\<close> sum of a group; a null value only opens the group.\<close>

definition add_float :: "nat \<Rightarrow> string \<Rightarrow> bool \<Rightarrow> f32 \<Rightarrow> 'w QState \<Rightarrow> 'w QState" where
  "add_float n key isnull v s =
     (case sum_float (exprs s n) key of
        None \<Rightarrow>
          put_count n key (if isnull then 0 else 1)
            (upd_expr n (\<lambda>x. x\<lparr>sum_float := (sum_float x)(key \<mapsto> if isnull then Fin 0 else v)\<rparr>) (push_order n key s))
      | Some a \<Rightarrow>
          if isnull then s
          else put_count n key (wrap32 (count_of n key s + 1))
            (upd_expr n (\<lambda>x. x\<lparr>sum_float := (sum_float x)(key \<mapsto> f32_add a v)\<rparr>) s))"

definition add_int :: "nat \<Rightarrow> string \<Rightarrow> bool \<Rightarrow> int \<Rightarrow> 'w QState \<Rightarrow> 'w QState" where
  "add_int n key isnull v s =
     (case sum_int (exprs s n) key of
        None \<Rightarrow>
          put_count n key (if isnull then 0 else 1)
            (upd_expr n (\<lambda>x. x\<lparr>sum_int := (sum_int x)(key \<mapsto> if isnull then 0 else v)\<rparr>) (push_order n key s))
      | Some a \<Rightarrow>
          if isnull then s
          else put_count n key (wrap32 (count_of n key s + 1))
            (upd_expr n (\<lambda>x. x\<lparr>sum_int := (sum_int x)(key \<mapsto> wrap32 (a + v))\<rparr>) s))"

definition treat_avg :: "'w Env \<Rightarrow> nat \<Rightarrow> BaseExpression \<Rightarrow> string \<Rightarrow> 'w QState \<Rightarrow> RC \<times> 'w QState" where
  "treat_avg env n e key s = (case expr_type s e of
      INTS \<Rightarrow> (SUCCESS, add_float n key (isCurrentNull s e) (f32_of_int (currentInt s e)) s)
    | FLOATS \<Rightarrow> (SUCCESS, add_float n key (isCurrentNull s e) (currentFloat s e) s)
    | CHARS \<Rightarrow> (SUCCESS, add_float n key (isCurrentNull s e) (text2float (env_atof env) (currentText s e)) s)
    | _ \<Rightarrow> (ERROR_INPUT_TYPE, s))"

definition treat_sum :: "'w Env \<Rightarrow> nat \<Rightarrow> BaseExpression \<Rightarrow> string \<Rightarrow> 'w QState \<Rightarrow> RC \<times> 'w QState" where
  "treat_sum env n e key s = (case expr_type s e of
      INTS \<Rightarrow> (SUCCESS, add_int n key (isCurrentNull s e) (currentInt s e) s)
    | FLOATS \<Rightarrow> (SUCCESS, add_float n key (isCurrentNull s e) (currentFloat s e) s)
    | CHARS \<Rightarrow> (SUCCESS, add_float n key (isCurrentNull s e) (text2float (env_atof env) (currentText s e)) s)
    | _ \<Rightarrow> (ERROR_INPUT_TYPE, s))"

definition treat_count :: "nat \<Rightarrow> BaseExpression \<Rightarrow> string \<Rightarrow> 'w QState \<Rightarrow> RC \<times> 'w QState" where
  "treat_count n e key s =
     (SUCCESS,
      case count_map (exprs s n) key of
        None \<Rightarrow> put_count n key (if isCurrentNull s e then 0 else 1) (push_order n key s)
      | Some c \<Rightarrow> if isCurrentNull s e then s else put_count n key (wrap32 (c + 1)) s)"

text \<open>The common start of \<^verbatim>\<open>treatRow\<close>: the key of the row and the value of the expression.\<close>

definition keyed :: "'w Env \<Rightarrow> BaseExpression \<Rightarrow> BaseExpression list \<Rightarrow> Row \<Rightarrow> (string \<Rightarrow> 'w QState calc) \<Rightarrow> 'w QState calc" where
  "keyed env e groupBy row body s = do {
     ((rc, key), s) \<leftarrow> group_key env row groupBy s;
     case key of
       None \<Rightarrow> Some (rc, s)
     | Some key \<Rightarrow> do {
         (rc, s) \<leftarrow> calculate env row e s;
         if rc \<noteq> SUCCESS then Some (rc, s) else body key s
       }
   }"

definition identity_treatRow :: "'w Env \<Rightarrow> Relation \<Rightarrow> nat \<Rightarrow> BaseExpression \<Rightarrow> BaseExpression list \<Rightarrow> Row \<Rightarrow> 'w QState calc" where
  "identity_treatRow env r n e groupBy row s = do {
     (rc, s) \<leftarrow> mapToRelation r e s;
     keyed env e groupBy row (treat_identity n e) s
   }"

definition max_treatRow :: "'w Env \<Rightarrow> nat \<Rightarrow> BaseExpression \<Rightarrow> BaseExpression list \<Rightarrow> Row \<Rightarrow> 'w QState calc" where
  "max_treatRow env n e groupBy row = keyed env e groupBy row (treat_extremum n AggMax e)"

definition min_treatRow :: "'w Env \<Rightarrow> nat \<Rightarrow> BaseExpression \<Rightarrow> BaseExpression list \<Rightarrow> Row \<Rightarrow> 'w QState calc" where
  "min_treatRow env n e groupBy row = keyed env e groupBy row (treat_extremum n AggMin e)"

definition avg_treatRow :: "'w Env \<Rightarrow> nat \<Rightarrow> BaseExpression \<Rightarrow> BaseExpression list \<Rightarrow> Row \<Rightarrow> 'w QState calc" where
  "avg_treatRow env n e groupBy row = keyed env e groupBy row (\<lambda>key s. Some (treat_avg env n e key s))"

definition sum_treatRow :: "'w Env \<Rightarrow> nat \<Rightarrow> BaseExpression \<Rightarrow> BaseExpression list \<Rightarrow> Row \<Rightarrow> 'w QState calc" where
  "sum_treatRow env n e groupBy row = keyed env e groupBy row (\<lambda>key s. Some (treat_sum env n e key s))"

definition count_treatRow :: "'w Env \<Rightarrow> nat \<Rightarrow> BaseExpression \<Rightarrow> BaseExpression list \<Rightarrow> Row \<Rightarrow> 'w QState calc" where
  "count_treatRow env n e groupBy row = keyed env e groupBy row (\<lambda>key s. Some (treat_count n e key s))"

definition treatRow :: "'w Env \<Rightarrow> Relation \<Rightarrow> nat \<Rightarrow> AggKind \<Rightarrow> BaseExpression \<Rightarrow> BaseExpression list \<Rightarrow> Row \<Rightarrow> 'w QState calc" where
  "treatRow env r n k e groupBy row = (case k of
      AggIdentity \<Rightarrow> identity_treatRow env r n e groupBy row
    | AggMax \<Rightarrow> max_treatRow env n e groupBy row
    | AggMin \<Rightarrow> min_treatRow env n e groupBy row
    | AggAvg \<Rightarrow> avg_treatRow env n e groupBy row
    | AggSum \<Rightarrow> sum_treatRow env n e groupBy row
    | AggCount \<Rightarrow> count_treatRow env n e groupBy row
    | AggCountStar \<Rightarrow> count_treatRow env n e groupBy row)"

section \<open>All rows\<close>

definition beforeStart :: "nat \<Rightarrow> AggKind \<Rightarrow> BaseExpression \<Rightarrow> 'w QState \<Rightarrow> 'w QState" where
  "beforeStart n k e s = upd_expr n (\<lambda>x. x\<lparr>eo_type := (case k of
      AggIdentity \<Rightarrow> expr_type s e
    | AggMax \<Rightarrow> eo_type x
    | AggMin \<Rightarrow> eo_type x
    | AggAvg \<Rightarrow> FLOATS
    | AggSum \<Rightarrow> if expr_type s e = CHARS then FLOATS else expr_type s e
    | AggCount \<Rightarrow> INTS
    | AggCountStar \<Rightarrow> INTS)\<rparr>) s"

definition dealWithEmptyRelation :: "nat \<Rightarrow> AggKind \<Rightarrow> 'w QState \<Rightarrow> 'w QState" where
  "dealWithEmptyRelation n k s =
     (let s = push_order n ''emptyTable'' s in
      if k = AggCount \<or> k = AggCountStar then put_context n ''emptyTable'' (IntItem 0 False) s
      else if context_map (exprs s n) ''emptyTable'' = None then put_context n ''emptyTable'' NullItem s
      else s)"

fun treat_rows :: "('w QState \<Rightarrow> Row \<Rightarrow> (RC \<times> 'w QState) option) \<Rightarrow> Row list \<Rightarrow> 'w QState \<Rightarrow> (RC \<times> 'w QState) option" where
  "treat_rows f [] s = Some (SUCCESS, s)"
| "treat_rows f (row # rows) s = do {
     (rc, s) \<leftarrow> f s row;
     if rc \<noteq> SUCCESS then Some (rc, s) else treat_rows f rows s
   }"

text \<open>The items of the groups, from the sums and counts.\<close>

definition put_all :: "nat \<Rightarrow> (string \<Rightarrow> Item) \<Rightarrow> 'w QState \<Rightarrow> 'w QState" where
  "put_all n f s = fold (\<lambda>key. put_context n key (f key)) (order_keys (exprs s n)) s"

definition sum_item :: "nat \<Rightarrow> 'w QState \<Rightarrow> (string \<Rightarrow> Item) \<Rightarrow> string \<Rightarrow> Item" where
  "sum_item n s f key = (if count_of n key s = 0 then NullItem else f key)"

definition float_sum :: "nat \<Rightarrow> 'w QState \<Rightarrow> string \<Rightarrow> f32" where
  "float_sum n s key = (case sum_float (exprs s n) key of Some v \<Rightarrow> v | None \<Rightarrow> Fin 0)"

definition int_sum :: "nat \<Rightarrow> 'w QState \<Rightarrow> string \<Rightarrow> int" where
  "int_sum n s key = (case sum_int (exprs s n) key of Some v \<Rightarrow> v | None \<Rightarrow> 0)"

definition avg_after :: "nat \<Rightarrow> 'w QState \<Rightarrow> RC \<times> 'w QState" where
  "avg_after n s =
     (SUCCESS, put_all n (sum_item n s (\<lambda>key. FloatItem (f32_div (float_sum n s key) (f32_of_int (count_of n key s))) False)) s)"

definition sum_after :: "nat \<Rightarrow> 'w QState \<Rightarrow> RC \<times> 'w QState" where
  "sum_after n s = (case eo_type (exprs s n) of
      INTS \<Rightarrow> (SUCCESS, put_all n (sum_item n s (\<lambda>key. IntItem (int_sum n s key) False)) s)
    | FLOATS \<Rightarrow> (SUCCESS, put_all n (sum_item n s (\<lambda>key. FloatItem (float_sum n s key) False)) s)
    | _ \<Rightarrow> (ERROR_INPUT_TYPE, s))"

definition count_after :: "nat \<Rightarrow> 'w QState \<Rightarrow> RC \<times> 'w QState" where
  "count_after n s = (SUCCESS, put_all n (\<lambda>key. IntItem (count_of n key s) False) s)"

definition afterDealAllRow :: "nat \<Rightarrow> AggKind \<Rightarrow> 'w QState \<Rightarrow> RC \<times> 'w QState" where
  "afterDealAllRow n k s = (case k of
      AggAvg \<Rightarrow> avg_after n s
    | AggSum \<Rightarrow> sum_after n s
    | AggCount \<Rightarrow> count_after n s
    | AggCountStar \<Rightarrow> count_after n s
    | _ \<Rightarrow> (SUCCESS, s))"

fun exprs_mapToRelation :: "Relation \<Rightarrow> BaseExpression list \<Rightarrow> 'w QState \<Rightarrow> (RC \<times> 'w QState) option" where
  "exprs_mapToRelation r [] s = Some (SUCCESS, s)"
| "exprs_mapToRelation r (e # es) s = do {
     (rc, s) \<leftarrow> mapToRelation r e s;
     if rc \<noteq> SUCCESS then Some (rc, s) else exprs_mapToRelation r es s
   }"

text \<open>\<^verbatim>\<open>Aggregate::evaluate\<close>.\<close>

definition aggregate_evaluate :: "'w Env \<Rightarrow> Relation \<Rightarrow> nat \<Rightarrow> AggKind \<Rightarrow> BaseExpression \<Rightarrow> BaseExpression list \<Rightarrow> 'w QState \<Rightarrow>
    (RC \<times> 'w QState) option" where
  "aggregate_evaluate env r n k e groupBy s = do {
     (rc, s) \<leftarrow> exprs_mapToRelation r groupBy s;
     if rc \<noteq> SUCCESS then Some (rc, s)
     else do {
       let s = beforeStart n k e s;
       (rc, s) \<leftarrow> (if rel_rows r = [] then Some (SUCCESS, dealWithEmptyRelation n k s)
                   else treat_rows (\<lambda>s row. treatRow env r n k e groupBy row s) (rel_rows r) s);
       if rc \<noteq> SUCCESS then Some (rc, s) else Some (afterDealAllRow n k s)
     }
   }"

definition getColumn :: "nat \<Rightarrow> 'w QState \<Rightarrow> Item option list \<times> 'w QState" where
  "getColumn n s =
     (map (context_map (exprs s n)) (order_keys (exprs s n)),
      upd_expr n (\<lambda>x. x\<lparr>context_map := Map.empty, order_keys := [], sum_float := Map.empty, sum_int := Map.empty, count_map := Map.empty\<rparr>) s)"

end
