(* ===== verification/Ob_Operator.thy ===== *)
theory Ob_Operator
  imports Ob_Compare Ob_Aggregate
begin

text \<open>
  The operators of a query (\<open>src/src/observer/sql/operator/select/\<close>).  Each operator gets the evaluation of the operators below it and
  of its filter units as functions, as the code calls them through virtual methods; \<open>evaluate\<close> ties them
  together.  A successful evaluation has a relation.
\<close>

type_synonym 's evaluator = "'s \<Rightarrow> ((RC \<times> Relation option) \<times> 's) option"

section \<open>Rows and schemas of an outer query\<close>

fun op_setSchemaOfFather :: "Schema list \<Rightarrow> QueryOperator \<Rightarrow> 'w QState \<Rightarrow> 'w QState"
and ops_setSchemaOfFather :: "Schema list \<Rightarrow> QueryOperator list \<Rightarrow> 'w QState \<Rightarrow> 'w QState" where
  "op_setSchemaOfFather f (ScanOperator _ _ _) s = s"
| "op_setSchemaOfFather f (PredicateOperator1 n q _) s = upd_oper n (\<lambda>x. x\<lparr>op_schemaOfFather := f\<rparr>) (op_setSchemaOfFather f q s)"
| "op_setSchemaOfFather f (JoinOperator n qs _) s = upd_oper n (\<lambda>x. x\<lparr>op_schemaOfFather := f\<rparr>) (ops_setSchemaOfFather f qs s)"
| "op_setSchemaOfFather f (OrderOperator n q _) s = upd_oper n (\<lambda>x. x\<lparr>op_schemaOfFather := f\<rparr>) (op_setSchemaOfFather f q s)"
| "op_setSchemaOfFather f (AggregateOperator n q _ _) s = upd_oper n (\<lambda>x. x\<lparr>op_schemaOfFather := f\<rparr>) (op_setSchemaOfFather f q s)"
| "op_setSchemaOfFather f (TransformerAndProjectOperator n q _) s =
     upd_oper n (\<lambda>x. x\<lparr>op_schemaOfFather := f\<rparr>) (op_setSchemaOfFather f q s)"
| "op_setSchemaOfFather f (SimpleSelect _ _) s = s"
| "ops_setSchemaOfFather f [] s = s"
| "ops_setSchemaOfFather f (q # qs) s = ops_setSchemaOfFather f qs (op_setSchemaOfFather f q s)"

fun op_setRowFromFather :: "Row \<Rightarrow> QueryOperator \<Rightarrow> 'w QState \<Rightarrow> 'w QState"
and ops_setRowFromFather :: "Row \<Rightarrow> QueryOperator list \<Rightarrow> 'w QState \<Rightarrow> 'w QState" where
  "op_setRowFromFather f (ScanOperator _ _ _) s = s"
| "op_setRowFromFather f (PredicateOperator1 n q _) s = upd_oper n (\<lambda>x. x\<lparr>op_rowFromFather := f\<rparr>) (op_setRowFromFather f q s)"
| "op_setRowFromFather f (JoinOperator n qs _) s = upd_oper n (\<lambda>x. x\<lparr>op_rowFromFather := f\<rparr>) (ops_setRowFromFather f qs s)"
| "op_setRowFromFather f (OrderOperator n q _) s = upd_oper n (\<lambda>x. x\<lparr>op_rowFromFather := f\<rparr>) (op_setRowFromFather f q s)"
| "op_setRowFromFather f (AggregateOperator n q _ _) s = upd_oper n (\<lambda>x. x\<lparr>op_rowFromFather := f\<rparr>) (op_setRowFromFather f q s)"
| "op_setRowFromFather f (TransformerAndProjectOperator n q _) s =
     upd_oper n (\<lambda>x. x\<lparr>op_rowFromFather := f\<rparr>) (op_setRowFromFather f q s)"
| "op_setRowFromFather f (SimpleSelect _ _) s = s"
| "ops_setRowFromFather f [] s = s"
| "ops_setRowFromFather f (q # qs) s = ops_setRowFromFather f qs (op_setRowFromFather f q s)"

section \<open>Closing\<close>

definition scan_close :: "'w Env \<Rightarrow> nat \<Rightarrow> 'w QState \<Rightarrow> (RC \<times> 'w QState) option" where
  "scan_close env k s = do { (rc, w) \<leftarrow> env_close env k (world s); Some (rc, s\<lparr>world := w\<rparr>) }"

fun op_close :: "'w Env \<Rightarrow> QueryOperator \<Rightarrow> 'w QState \<Rightarrow> (RC \<times> 'w QState) option"
and ops_close :: "'w Env \<Rightarrow> QueryOperator list \<Rightarrow> 'w QState \<Rightarrow> (RC \<times> 'w QState) option" where
  "op_close env (ScanOperator _ k _) s = scan_close env k s"
| "op_close env (PredicateOperator1 _ q _) s = op_close env q s"
| "op_close env (JoinOperator _ qs _) s = ops_close env qs s"
| "op_close env (OrderOperator _ q _) s = op_close env q s"
| "op_close env (AggregateOperator _ q _ _) s = op_close env q s"
| "op_close env (TransformerAndProjectOperator _ q _) s = op_close env q s"
| "op_close env (SimpleSelect _ _) s = Some (SUCCESS, s)"
| "ops_close env [] s = Some (SUCCESS, s)"
| "ops_close env (q # qs) s = do {
     (rc, s) \<leftarrow> op_close env q s;
     if rc \<noteq> SUCCESS then Some (rc, s) else ops_close env qs s
   }"

section \<open>Scan\<close>

definition scan_rows :: "Schema list \<Rightarrow> Row list \<Rightarrow> Relation" where
  "scan_rows schemas rows = fold (\<lambda>row r. snd (rel_insertRow row r)) rows (new_relation schemas)"

text \<open>The relation is kept for later evaluations.\<close>

definition scan_evaluate :: "'w Env \<Rightarrow> nat \<Rightarrow> nat \<Rightarrow> Schema list \<Rightarrow> 'w QState evaluator" where
  "scan_evaluate env n k schemas s = (case scan_relation (opers s n) of
      Some r \<Rightarrow> Some ((SUCCESS, Some r), s)
    | None \<Rightarrow> do {
        ((rc, rows), w) \<leftarrow> env_scan env k (world s);
        let s = s\<lparr>world := w\<rparr>;
        if rc \<noteq> SUCCESS then Some ((rc, None), s)
        else
          let r = (scan_rows schemas rows)\<lparr>rel_multiTable := op_multiTable (opers s n)\<rparr> in
          Some ((SUCCESS, Some r), upd_oper n (\<lambda>x. x\<lparr>scan_relation := Some r\<rparr>) s)
      })"

section \<open>Predicate\<close>

definition set_father :: "Schema list \<Rightarrow> Row \<Rightarrow> BaseExpression option \<Rightarrow> 'w QState \<Rightarrow> 'w QState" where
  "set_father schemas row eo s = (case eo of
      Some (RelationExpression n (Some q)) \<Rightarrow>
        let s = (if schemasSet (exprs s n) then s
                 else upd_expr n (\<lambda>x. x\<lparr>schemasSet := True\<rparr>) (op_setSchemaOfFather schemas q s)) in
        upd_expr n (\<lambda>x. x\<lparr>eo_rowFromFather := row\<rparr>) s
    | _ \<Rightarrow> s)"

definition filter_row :: "Schema list \<Rightarrow> FilterUnit \<Rightarrow> 'w QState tester \<Rightarrow> 'w QState tester" where
  "filter_row schemas u cmp row s = cmp row (set_father schemas row (fu_right u) (set_father schemas row (fu_left u) s))"

definition test_row :: "FilterUnit list \<Rightarrow> bool \<Rightarrow> 's tester list \<Rightarrow> 's tester" where
  "test_row us om ts row s =
     (if us = [] then Some ((SUCCESS, True), s)
      else if \<not> om then all_units ts row True s
      else filter_row_tree us ts (int (length us) - 1) row s)"

fun predicate_rows :: "'s tester \<Rightarrow> ('s \<Rightarrow> Row) \<Rightarrow> Row list \<Rightarrow> Relation \<Rightarrow> 's \<Rightarrow> ((RC \<times> Relation option) \<times> 's) option" where
  "predicate_rows test father [] ret s = Some ((SUCCESS, Some ret), s)"
| "predicate_rows test father (row # rows) ret s = do {
     ((rc, flag), s) \<leftarrow> test (row_insertRow (father s) row) s;
     if rc \<noteq> SUCCESS then Some ((rc, None), s)
     else predicate_rows test father rows (if flag then snd (rel_insertRow row ret) else ret) s
   }"

definition set_multi :: "bool \<Rightarrow> Relation option \<Rightarrow> Relation option" where
  "set_multi b r = map_option (\<lambda>r. r\<lparr>rel_multiTable := b\<rparr>) r"

definition predicate_evaluate :: "nat \<Rightarrow> FilterUnit list \<Rightarrow> bool \<Rightarrow> 'w QState evaluator \<Rightarrow> 'w QState tester list \<Rightarrow> 'w QState evaluator" where
  "predicate_evaluate n us om sub cmps s = do {
     ((rc, r), s) \<leftarrow> sub s;
     if rc \<noteq> SUCCESS then Some ((rc, None), s)
     else do {
       r \<leftarrow> r;
       let schemas = rel_schemas r @ op_schemaOfFather (opers s n);
       (rc, s) \<leftarrow> units_mapToRelation (new_relation schemas) us s;
       if rc \<noteq> SUCCESS then Some ((rc, None), s)
       else do {
         ((rc, ret), s) \<leftarrow> predicate_rows (test_row us om (map2 (filter_row schemas) us cmps)) (\<lambda>s. op_rowFromFather (opers s n))
             (rel_rows r) (new_relation (rel_schemas r)) s;
         Some ((rc, set_multi (op_multiTable (opers s n)) ret), s)
       }
     }
   }"

section \<open>Join\<close>

text \<open>The counters, from the last one on: the carry out of them and their new values.\<close>

fun odometer :: "nat list \<Rightarrow> nat list \<Rightarrow> nat \<times> nat list" where
  "odometer (i # is) (l # ls) = (let (push, is') = odometer is ls; v = i + push in (v div l, v mod l # is'))"
| "odometer _ _ = (1, [])"

fun join_row :: "Row list list \<Rightarrow> nat list \<Rightarrow> Row option" where
  "join_row (rows # rs) (i # is) = do { rest \<leftarrow> join_row rs is; if i < length rows then Some (rows ! i @ rest) else None }"
| "join_row _ _ = Some []"

text \<open>\<^verbatim>\<open>nextRow\<close>; without relations, and with an empty one, it fails.\<close>

definition nextRow :: "Row list list \<Rightarrow> nat list \<Rightarrow> (Row \<times> nat list) option" where
  "nextRow rels idx = do {
     row \<leftarrow> join_row rels idx;
     if rels = [] \<or> [] \<in> set rels then None else Some (row, snd (odometer idx (map length rels)))
   }"

definition hasNext :: "nat list \<Rightarrow> bool \<Rightarrow> bool \<times> bool" where
  "hasNext idx flag = (if \<exists>i\<in>set idx. i \<noteq> 0 then (True, flag) else (flag, False))"

text \<open>The loop; its body says whether it returns.\<close>

type_synonym 's join_body = "Row \<Rightarrow> Relation \<Rightarrow> 's \<Rightarrow> ((bool \<times> RC \<times> Relation) \<times> 's) option"

partial_function (option) join_loop ::
  "'s join_body \<Rightarrow> Row list list \<Rightarrow> nat list \<Rightarrow> bool \<Rightarrow> RC \<Rightarrow> Relation \<Rightarrow> 's \<Rightarrow> ((bool \<times> RC \<times> Relation \<times> nat list) \<times> 's) option" where
  "join_loop body rels idx flag rc ret s =
     (case hasNext idx flag of (go, flag) \<Rightarrow>
        if \<not> go then Some ((False, rc, ret, idx), s)
        else do {
          (row, idx) \<leftarrow> nextRow rels idx;
          ((stop, rc, ret), s) \<leftarrow> body row ret s;
          if stop then Some ((True, rc, ret, idx), s) else join_loop body rels idx flag rc ret s
        })"

text \<open>The body: without units every row is kept; the result of a tree of units is not checked.\<close>

definition join_body :: "FilterUnit list \<Rightarrow> bool \<Rightarrow> 's tester list \<Rightarrow> 's join_body" where
  "join_body us om cmps row ret s =
     (if us = [] then (case rel_insertRow row ret of (rc, ret) \<Rightarrow> Some ((rc \<noteq> SUCCESS, rc, ret), s))
      else do {
        ((rc, satisfy), s) \<leftarrow> (if \<not> om then all_units cmps row True s
                              else filter_row_tree us cmps (int (length us) - 1) row s);
        if \<not> om \<and> rc \<noteq> SUCCESS then Some ((True, rc, ret), s)
        else if satisfy then (case rel_insertRow row ret of (rc, ret) \<Rightarrow> Some ((rc \<noteq> SUCCESS, rc, ret), s))
        else Some ((False, rc, ret), s)
      })"

fun join_sources :: "'s evaluator list \<Rightarrow> 's \<Rightarrow> ((RC \<times> Relation list) \<times> 's) option" where
  "join_sources [] s = Some ((SUCCESS, []), s)"
| "join_sources (sub # subs) s = do {
     ((rc, r), s) \<leftarrow> sub s;
     if rc \<noteq> SUCCESS then Some ((rc, []), s)
     else do {
       r \<leftarrow> r;
       ((rc, rs), s) \<leftarrow> join_sources subs s;
       Some ((rc, r # rs), s)
     }
   }"

text \<open>
  The vectors of the operator get new entries on each evaluation, of which only the first ones are used; at the end the loop
  over all relations meets the null pointers of an earlier evaluation.
\<close>

definition join_evaluate :: "nat \<Rightarrow> FilterUnit list \<Rightarrow> bool \<Rightarrow> 'w QState evaluator list \<Rightarrow> 'w QState tester list \<Rightarrow> 'w QState evaluator" where
  "join_evaluate n us om subs cmps s = do {
     let s = upd_oper n (\<lambda>x. x\<lparr>join_indexes := join_indexes x @ replicate (length subs) 0\<rparr>) s;
     ((rc, rs), s) \<leftarrow> join_sources subs s;
     if rc \<noteq> SUCCESS then Some ((rc, None), s)
     else do {
       let relation = new_relation (concat (map rel_schemas rs));
       (rc, s) \<leftarrow> units_mapToRelation relation us s;
       if rc \<noteq> SUCCESS then Some ((rc, Some relation), s)
       else do {
         let idx = join_indexes (opers s n);
         ((stop, rc, ret, idx'), s) \<leftarrow> join_loop (join_body us om cmps) (map rel_rows rs) (take (length subs) idx)
             (\<forall>r\<in>set rs. rel_rows r \<noteq> []) SUCCESS relation s;
         let s = upd_oper n (\<lambda>x. x\<lparr>join_indexes := idx' @ drop (length subs) idx\<rparr>) s;
         if \<not> stop \<and> length idx > length subs then None else Some ((rc, Some ret), s)
       }
     }
   }"

section \<open>Order\<close>

record OrderMeta =
  om_idx :: nat
  om_type :: AttrType
  om_asc :: bool

fun sortRow :: "OrderMeta list \<Rightarrow> Row \<Rightarrow> Row \<Rightarrow> bool option" where
  "sortRow [] r1 r2 = Some True"
| "sortRow (m # ms) r1 r2 = do {
     a \<leftarrow> row_at r1 (int (om_idx m));
     b \<leftarrow> row_at r2 (int (om_idx m));
     if item_isNull a \<or> item_isNull b then
       if \<not> item_isNull a then Some (\<not> om_asc m)
       else if \<not> item_isNull b then Some (om_asc m)
       else sortRow ms r1 r2
     else if om_type m = INTS \<or> om_type m = DATES then do {
       x \<leftarrow> getInt a;
       y \<leftarrow> getInt b;
       if x = y then sortRow ms r1 r2 else Some (if om_asc m then x < y else x > y)
     }
     else if om_type m = FLOATS then do {
       x \<leftarrow> getFloat a;
       y \<leftarrow> getFloat b;
       if floatComp x y EQUAL_TO then sortRow ms r1 r2
       else Some (if om_asc m then f32_minus_gt_eps y x else f32_minus_gt_eps x y)
     }
     else do {
       x \<leftarrow> getText a;
       y \<leftarrow> getText b;
       let c = strcmp x y;
       if c = 0 then sortRow ms r1 r2 else Some (if om_asc m then c < 0 else c > 0)
     }
   }"

fun order_metas :: "Schema list \<Rightarrow> (BaseExpression \<times> bool) list \<Rightarrow> OrderMeta list option" where
  "order_metas schemas [] = Some []"
| "order_metas schemas ((e, asc) # orderBy) = do {
     i \<leftarrow> find_column (expr_toString e) schemas 0;
     ms \<leftarrow> order_metas schemas orderBy;
     Some (if i < 0 then ms else \<lparr>om_idx = nat i, om_type = sc_type (schemas ! nat i), om_asc = asc\<rparr> # ms)
   }"

text \<open>
  \<^verbatim>\<open>std::sort\<close> demands that the comparison orders the elements strictly; when it does not, and when it
  throws, the result is \<open>None\<close>.  The comparison of an element with itself is not asked for.
\<close>

definition strict_on :: "('a \<Rightarrow> 'a \<Rightarrow> bool option) \<Rightarrow> 'a list \<Rightarrow> bool" where
  "strict_on cmp xs =
     ((\<forall>i<length xs. \<forall>j<length xs. i \<noteq> j \<longrightarrow>
         (cmp (xs ! i) (xs ! j), cmp (xs ! j) (xs ! i)) \<in> {(Some True, Some False), (Some False, Some True)}) \<and>
      (\<forall>i<length xs. \<forall>j<length xs. \<forall>k<length xs. i \<noteq> j \<longrightarrow> j \<noteq> k \<longrightarrow> i \<noteq> k \<longrightarrow>
         cmp (xs ! i) (xs ! j) = Some True \<longrightarrow> cmp (xs ! j) (xs ! k) = Some True \<longrightarrow> cmp (xs ! i) (xs ! k) = Some True))"

fun insert_by :: "('a \<Rightarrow> 'a \<Rightarrow> bool option) \<Rightarrow> 'a \<Rightarrow> 'a list \<Rightarrow> 'a list" where
  "insert_by cmp x [] = [x]"
| "insert_by cmp x (y # ys) = (if cmp x y = Some True then x # y # ys else y # insert_by cmp x ys)"

definition std_sort :: "('a \<Rightarrow> 'a \<Rightarrow> bool option) \<Rightarrow> 'a list \<Rightarrow> 'a list option" where
  "std_sort cmp xs = (if strict_on cmp xs then Some (foldr (insert_by cmp) xs []) else None)"

text \<open>
  The rows are sorted in place.  Every operator but the scan and the order itself builds a new relation; when the
  relation is the one a scan keeps for later evaluations, these see the sorted rows.
\<close>

fun kept_by :: "QueryOperator \<Rightarrow> nat option" where
  "kept_by (ScanOperator n _ _) = Some n"
| "kept_by (OrderOperator _ q _) = kept_by q"
| "kept_by _ = None"

definition keep_relation :: "nat option \<Rightarrow> Relation \<Rightarrow> 'w QState \<Rightarrow> 'w QState" where
  "keep_relation k r s = (case k of Some n \<Rightarrow> upd_oper n (\<lambda>x. x\<lparr>scan_relation := Some r\<rparr>) s | None \<Rightarrow> s)"

definition order_evaluate :: "nat \<Rightarrow> nat option \<Rightarrow> (BaseExpression \<times> bool) list \<Rightarrow> 'w QState evaluator \<Rightarrow> 'w QState evaluator" where
  "order_evaluate n k orderBy sub s = do {
     ((rc, r), s) \<leftarrow> sub s;
     if rc \<noteq> SUCCESS then Some ((rc, None), s)
     else do {
       r \<leftarrow> r;
       metas \<leftarrow> order_metas (rel_schemas r) orderBy;
       rows \<leftarrow> std_sort (sortRow metas) (rel_rows r);
       let r = r\<lparr>rel_rows := rows, rel_multiTable := op_multiTable (opers s n)\<rparr>;
       Some ((SUCCESS, Some r), keep_relation k r s)
     }
   }"

section \<open>Aggregation\<close>

text \<open>An aggregate other than those built by the statement is a cast of another object.\<close>

fun aggregate_columns :: "'w Env \<Rightarrow> Relation \<Rightarrow> BaseExpression list \<Rightarrow> BaseExpression list \<Rightarrow> 'w QState \<Rightarrow>
    ((RC \<times> Schema list \<times> Item option list list) \<times> 'w QState) option" where
  "aggregate_columns env r groupBy [] s = Some ((SUCCESS, [], []), s)"
| "aggregate_columns env r groupBy (a # as) s = (case a of
     AggregateFunction n k e \<Rightarrow> do {
       let schema = schema_of s a;
       (rc, s) \<leftarrow> mapToRelation r a s;
       if rc \<noteq> SUCCESS then Some ((rc, [], []), s)
       else do {
         (rc, s) \<leftarrow> aggregate_evaluate env r n k e groupBy s;
         if rc \<noteq> SUCCESS then Some ((rc, [], []), s)
         else do {
           let (col, s) = getColumn n s;
           ((rc, schemas, cols), s) \<leftarrow> aggregate_columns env r groupBy as s;
           Some ((rc, schema # schemas, col # cols), s)
         }
       }
     }
   | _ \<Rightarrow> None)"

fun column_row :: "nat \<Rightarrow> Item option list list \<Rightarrow> Row option" where
  "column_row i [] = Some []"
| "column_row i (c # cs) = do {
     item \<leftarrow> (if i < length c then c ! i else None);
     row \<leftarrow> column_row i cs;
     Some (item # row)
   }"

fun aggregate_rows :: "Item option list list \<Rightarrow> nat list \<Rightarrow> Relation \<Rightarrow> (RC \<times> Relation) option" where
  "aggregate_rows cols [] ret = Some (SUCCESS, ret)"
| "aggregate_rows cols (i # is) ret = do {
     row \<leftarrow> column_row i cols;
     let (rc, ret) = rel_insertRow row ret;
     if rc \<noteq> SUCCESS then Some (rc, ret) else aggregate_rows cols is ret
   }"

definition agg_op_evaluate :: "'w Env \<Rightarrow> nat \<Rightarrow> BaseExpression list \<Rightarrow> BaseExpression list \<Rightarrow> 'w QState evaluator \<Rightarrow> 'w QState evaluator" where
  "agg_op_evaluate env n aggregates groupBy sub s = do {
     ((rc, r), s) \<leftarrow> sub s;
     if rc \<noteq> SUCCESS then Some ((rc, None), s)
     else do {
       r \<leftarrow> r;
       ((rc, schemas, cols), s) \<leftarrow> aggregate_columns env r groupBy aggregates s;
       if rc \<noteq> SUCCESS then Some ((rc, None), s)
       else case cols of
         [] \<Rightarrow> None
       | c # _ \<Rightarrow> do {
           (rc, ret) \<leftarrow> aggregate_rows cols [0..<length c] (new_relation schemas);
           Some ((rc, set_multi (op_multiTable (opers s n)) (Some ret)), s)
         }
     }
   }"

section \<open>Projection\<close>

fun map_expressions :: "Relation \<Rightarrow> BaseExpression list \<Rightarrow> 'w QState \<Rightarrow> ((RC \<times> Schema list) \<times> 'w QState) option" where
  "map_expressions r [] s = Some ((SUCCESS, []), s)"
| "map_expressions r (e # es) s = do {
     (rc, s) \<leftarrow> mapToRelation r e s;
     if rc \<noteq> SUCCESS then Some ((rc, []), s)
     else do {
       let schema = schema_of s e;
       ((rc, schemas), s) \<leftarrow> map_expressions r es s;
       Some ((rc, schema # schemas), s)
     }
   }"

fun constructRow :: "'w Env \<Rightarrow> BaseExpression list \<Rightarrow> Row \<Rightarrow> 'w QState \<Rightarrow> ((RC \<times> Row) \<times> 'w QState) option" where
  "constructRow env [] calRow s = Some ((SUCCESS, []), s)"
| "constructRow env (e # es) calRow s = do {
     (rc, s) \<leftarrow> calculate env calRow e s;
     if rc \<noteq> SUCCESS then Some ((rc, []), s)
     else case toItem s e of
       None \<Rightarrow> Some ((GENERIC_ERROR, []), s)
     | Some item \<Rightarrow> do {
         ((rc, row), s) \<leftarrow> constructRow env es calRow s;
         Some ((rc, item # row), s)
       }
   }"

fun project_rows :: "'w Env \<Rightarrow> BaseExpression list \<Rightarrow> Row \<Rightarrow> Row list \<Rightarrow> Relation \<Rightarrow> 'w QState \<Rightarrow> ((RC \<times> Relation option) \<times> 'w QState) option" where
  "project_rows env es father [] ret s = Some ((SUCCESS, Some ret), s)"
| "project_rows env es father (row # rows) ret s = do {
     ((rc, new), s) \<leftarrow> constructRow env es (row_insertRow father row) s;
     if rc \<noteq> SUCCESS then Some ((rc, None), s)
     else project_rows env es father rows (snd (rel_insertRow new ret)) s
   }"

definition project_evaluate :: "'w Env \<Rightarrow> nat \<Rightarrow> BaseExpression list \<Rightarrow> 'w QState evaluator \<Rightarrow> 'w QState evaluator" where
  "project_evaluate env n es sub s = do {
     ((rc, r), s) \<leftarrow> sub s;
     if rc \<noteq> SUCCESS then Some ((rc, None), s)
     else do {
       r \<leftarrow> r;
       ((rc, schemas), s) \<leftarrow> map_expressions (new_relation (rel_schemas r @ op_schemaOfFather (opers s n))) es s;
       if rc \<noteq> SUCCESS then Some ((rc, None), s)
       else do {
         ((rc, ret), s) \<leftarrow> project_rows env es (op_rowFromFather (opers s n)) (rel_rows r) (new_relation schemas) s;
         Some ((rc, set_multi (op_multiTable (opers s n)) ret), s)
       }
     }
   }"

text \<open>A query without tables: each expression is calculated on the row of those before it.\<close>

fun simple_row :: "'w Env \<Rightarrow> BaseExpression list \<Rightarrow> Row \<Rightarrow> Schema list \<Rightarrow> 'w QState \<Rightarrow> ((RC \<times> Row \<times> Schema list) \<times> 'w QState) option" where
  "simple_row env [] row schemas s = Some ((SUCCESS, row, schemas), s)"
| "simple_row env (e # es) row schemas s = do {
     let schemas = schemas @ [schema_of s e];
     (rc, s) \<leftarrow> calculate env row e s;
     if rc \<noteq> SUCCESS then Some ((rc, row, schemas), s)
     else do {
       item \<leftarrow> toItem s e;
       simple_row env es (row_add item row) schemas s
     }
   }"

definition simple_evaluate :: "'w Env \<Rightarrow> BaseExpression list \<Rightarrow> 'w QState evaluator" where
  "simple_evaluate env es s =
     (if es = [] then None
      else do {
        ((rc, row, schemas), s) \<leftarrow> simple_row env es [] [] s;
        if rc \<noteq> SUCCESS then Some ((rc, None), s)
        else Some ((rc, Some (snd (rel_insertRow row (new_relation schemas)))), s)
      })"

section \<open>The whole query\<close>

text \<open>\<^verbatim>\<open>RelationExpression::update\<close>: a subquery gets the row of the outer query and is evaluated and closed.\<close>

definition relation_update :: "'w Env \<Rightarrow> nat \<Rightarrow> QueryOperator \<Rightarrow> 'w QState evaluator \<Rightarrow> 'w QState updater" where
  "relation_update env n q eval s = do {
     ((rc, r), s) \<leftarrow> eval (op_setRowFromFather (eo_rowFromFather (exprs s n)) q s);
     let s = (case r of Some r \<Rightarrow> upd_expr n (\<lambda>x. x\<lparr>eo_relation := Some r\<rparr>) s | None \<Rightarrow> s);
     if rc \<noteq> SUCCESS then Some (rc, s) else op_close env q s
   }"

definition unit_compare :: "'w Env \<Rightarrow> FilterUnit \<Rightarrow> 'w QState updater \<Rightarrow> 'w QState updater \<Rightarrow> 'w QState tester" where
  "unit_compare env u updL updR row s = do {
     right \<leftarrow> fu_right u;
     expr_compare env (fu_left u) right (fu_comp u) updL updR row s
   }"

definition no_update :: "'s updater" where
  "no_update s = Some (SUCCESS, s)"

fun evaluate :: "'w Env \<Rightarrow> QueryOperator \<Rightarrow> 'w QState evaluator"
and update :: "'w Env \<Rightarrow> BaseExpression \<Rightarrow> 'w QState updater"
and tester_of :: "'w Env \<Rightarrow> FilterUnit \<Rightarrow> 'w QState tester" where
  "evaluate env (ScanOperator n k schemas) = scan_evaluate env n k schemas"
| "evaluate env (PredicateOperator1 n q (FilterStmt us om)) =
     predicate_evaluate n us om (evaluate env q) (map (tester_of env) us)"
| "evaluate env (JoinOperator n qs (FilterStmt us om)) =
     join_evaluate n us om (map (evaluate env) qs) (map (tester_of env) us)"
| "evaluate env (OrderOperator n q orderBy) = order_evaluate n (kept_by q) orderBy (evaluate env q)"
| "evaluate env (AggregateOperator n q aggregates groupBy) = agg_op_evaluate env n aggregates groupBy (evaluate env q)"
| "evaluate env (TransformerAndProjectOperator n q es) = project_evaluate env n es (evaluate env q)"
| "evaluate env (SimpleSelect n es) = simple_evaluate env es"
| "update env (RelationExpression n (Some q)) = relation_update env n q (evaluate env q)"
| "update env (ConstExpression _ _ _) = no_update"
| "update env (IdentifierExpression _ _ _ _) = no_update"
| "update env (NegativeExpression _ _ _) = no_update"
| "update env (BinaryExpression _ _ _ _ _) = no_update"
| "update env (AggregateFunction _ _ _) = no_update"
| "update env (LengthFunction _ _) = no_update"
| "update env (RoundFunction _ _ _) = no_update"
| "update env (DateFormat _ _ _) = no_update"
| "update env (RelationExpression _ None) = no_update"
| "tester_of env (FilterUnit c l r lc rc) =
     unit_compare env (FilterUnit c l r lc rc)
       (case l of Some e \<Rightarrow> update env e | None \<Rightarrow> no_update) (case r of Some e \<Rightarrow> update env e | None \<Rightarrow> no_update)"

end
