(* ===== verification/Ob_RowTest.thy ===== *)
theory Ob_RowTest
  imports Ob_Operator
begin

text \<open>
  The contract between filters and operators: a test of rows decides a predicate on the rows that fit it, whatever
  the store holds as long as it satisfies an invariant, which the test keeps.  The operators only use this
  contract.  Conjunctions and trees of tests satisfy it when their units do.
\<close>

section \<open>Tests that decide a predicate\<close>

locale row_test =
  fixes test :: "'s tester"
    and holds :: "Row \<Rightarrow> bool"
    and fit :: "Row \<Rightarrow> bool"
    and good :: "'s \<Rightarrow> bool"
  assumes decides: "good s \<Longrightarrow> fit row \<Longrightarrow> \<exists>s'. test row s = Some ((SUCCESS, holds row), s') \<and> good s'"
begin

lemma predicate_rows_filter:
  assumes "good s" "\<forall>row\<in>set rows. fit (row @ father) \<and> length row = length (rel_schemas ret)"
    and "\<And>s. good s \<Longrightarrow> f s = father"
  shows "\<exists>s'. predicate_rows test f rows ret s =
      Some ((SUCCESS, Some (ret\<lparr>rel_rows := rel_rows ret @ filter (\<lambda>row. holds (row @ father)) rows\<rparr>)), s') \<and> good s'"
  using assms(1,2)
proof (induction rows arbitrary: ret s)
  case (Cons row rows)
  obtain s1 where s1: "test (row @ father) s = Some ((SUCCESS, holds (row @ father)), s1)" "good s1"
    using decides Cons.prems by fastforce
  let ?ret = "if holds (row @ father) then snd (rel_insertRow row ret) else ret"
  have w: "rel_schemas ?ret = rel_schemas ret"
    by (simp add: rel_insertRow_def)
  have "\<exists>s'. predicate_rows test f rows ?ret s1 =
      Some ((SUCCESS, Some (?ret\<lparr>rel_rows := rel_rows ?ret @ filter (\<lambda>row. holds (row @ father)) rows\<rparr>)), s') \<and> good s'"
    using Cons.prems(2) w by (intro Cons.IH s1(2)) simp
  then show ?case
    using s1 assms(3)[OF Cons.prems(1)] Cons.prems(2) by (auto simp: row_insertRow_def rel_insertRow_def)
qed simp

end

section \<open>Conjunctions\<close>

lemma all_units_decides:
  assumes "\<And>t P s row. (t, P) \<in> set ts \<Longrightarrow> good s \<Longrightarrow> fit row \<Longrightarrow> \<exists>s'. t row s = Some ((SUCCESS, P row), s') \<and> good s'"
    and "good s" "fit row"
  shows "\<exists>s'. all_units (map fst ts) row True s = Some ((SUCCESS, \<forall>(t, P)\<in>set ts. P row), s') \<and> good s'"
  using assms
proof (induction ts arbitrary: s)
  case (Cons a ts)
  obtain t P where a: "a = (t, P)" by fastforce
  obtain s1 where s1: "t row s = Some ((SUCCESS, P row), s1)" "good s1"
    using Cons.prems a by (metis list.set_intros(1))
  show ?case
  proof (cases "P row")
    case True
    have "\<exists>s'. all_units (map fst ts) row True s1 = Some ((SUCCESS, \<forall>(t, P)\<in>set ts. P row), s') \<and> good s'"
      using Cons.prems s1 by (intro Cons.IH) auto
    then show ?thesis using s1 a True by auto
  next
    case False
    then show ?thesis using s1 a by auto
  qed
qed simp

section \<open>Trees\<close>

datatype cond_tree = Leaf nat | And cond_tree cond_tree | Or cond_tree cond_tree

text \<open>The units from an index on form a tree; the indexes of the children may be any.\<close>

fun encodes :: "FilterUnit list \<Rightarrow> int \<Rightarrow> cond_tree \<Rightarrow> bool" where
  "encodes us i (Leaf j) = (i = int j \<and> j < length us \<and> fu_comp (us ! j) \<notin> {AND_OP, OR_OP})"
| "encodes us i (And a b) = (0 \<le> i \<and> i < int (length us) \<and> fu_comp (us ! nat i) = AND_OP \<and>
     encodes us (fu_leftChild (us ! nat i)) a \<and> encodes us (fu_rightChild (us ! nat i)) b)"
| "encodes us i (Or a b) = (0 \<le> i \<and> i < int (length us) \<and> fu_comp (us ! nat i) = OR_OP \<and>
     encodes us (fu_leftChild (us ! nat i)) a \<and> encodes us (fu_rightChild (us ! nat i)) b)"

primrec tree_holds :: "(nat \<Rightarrow> bool) \<Rightarrow> cond_tree \<Rightarrow> bool" where
  "tree_holds P (Leaf j) = P j"
| "tree_holds P (And a b) = (tree_holds P a \<and> tree_holds P b)"
| "tree_holds P (Or a b) = (tree_holds P a \<or> tree_holds P b)"

primrec leaves :: "cond_tree \<Rightarrow> nat set" where
  "leaves (Leaf j) = {j}"
| "leaves (And a b) = leaves a \<union> leaves b"
| "leaves (Or a b) = leaves a \<union> leaves b"

lemma filter_row_tree_decides:
  assumes "encodes us i t" "length ts = length us" "good s"
    and "\<And>j s. j \<in> leaves t \<Longrightarrow> good s \<Longrightarrow> \<exists>s'. (ts ! j) row s = Some ((SUCCESS, P j), s') \<and> good s'"
  shows "\<exists>s'. filter_row_tree us ts i row s = Some ((SUCCESS, tree_holds P t), s') \<and> good s'"
  using assms
proof (induction t arbitrary: i s)
  case (Leaf j)
  then show ?case by (auto simp: filter_row_tree.simps[of us ts "int j"])
next
  case (And a b)
  let ?u = "us ! nat i"
  obtain s1 where s1: "filter_row_tree us ts (fu_leftChild ?u) row s = Some ((SUCCESS, tree_holds P a), s1)" "good s1"
    using And.IH(1)[of "fu_leftChild ?u" s] And.prems by fastforce
  obtain s2 where "filter_row_tree us ts (fu_rightChild ?u) row s1 = Some ((SUCCESS, tree_holds P b), s2)" "good s2"
    using And.IH(2)[of "fu_rightChild ?u" s1] And.prems s1 by fastforce
  then show ?case
    using s1 And.prems by (auto simp: filter_row_tree.simps[of us ts i])
next
  case (Or a b)
  let ?u = "us ! nat i"
  obtain s1 where s1: "filter_row_tree us ts (fu_leftChild ?u) row s = Some ((SUCCESS, tree_holds P a), s1)" "good s1"
    using Or.IH(1)[of "fu_leftChild ?u" s] Or.prems by fastforce
  obtain s2 where "filter_row_tree us ts (fu_rightChild ?u) row s1 = Some ((SUCCESS, tree_holds P b), s2)" "good s2"
    using Or.IH(2)[of "fu_rightChild ?u" s1] Or.prems s1 by fastforce
  then show ?case
    using s1 Or.prems by (auto simp: filter_row_tree.simps[of us ts i])
qed

end
