(* ===== verification/Ob_QueryDemo.thy ===== *)
theory Ob_QueryDemo
  imports Ob_Operator
begin

text \<open>A small query to evaluate: objects as their constructors leave them, an empty environment, columns of a table.\<close>

definition demo_obj :: EObj where
  "demo_obj = \<lparr>eo_isNull = False, intValue = 0, floatValue = Fin 0, textValue = [], column = - 1, isInput = False, eo_type = INTS,
     eo_alias = None, bracketed = False, context_map = Map.empty, order_keys = [], sum_float = Map.empty, sum_int = Map.empty,
     count_map = Map.empty, eo_relation = None, eo_rowFromFather = [], schemasSet = False\<rparr>"

definition demo_oper :: OpObj where
  "demo_oper = \<lparr>op_rowFromFather = [], op_schemaOfFather = [], op_multiTable = False, scan_relation = None, join_indexes = []\<rparr>"

definition demo_env :: "unit Env" where
  "demo_env = \<lparr>env_atof = \<lambda>_. Fin 0, env_round = \<lambda>f _. f, env_scan = \<lambda>_ w. Some ((SUCCESS, []), w), env_close = \<lambda>_ w. Some (SUCCESS, w)\<rparr>"

definition demo_column :: "string \<Rightarrow> AttrType \<Rightarrow> Schema" where
  "demo_column f t = Schema (Some (IdentifierExpression 100 ''t'' f t)) t None"

text \<open>A state in which the given scans hold their relations already.\<close>

definition demo_state :: "(nat \<Rightarrow> EObj) \<Rightarrow> (nat \<rightharpoonup> Relation) \<Rightarrow> unit QState" where
  "demo_state objs rels = \<lparr>exprs = objs, opers = (\<lambda>n. demo_oper\<lparr>scan_relation := rels n\<rparr>), world = ()\<rparr>"

definition int_relation :: "string \<Rightarrow> (int \<times> bool) list \<Rightarrow> Relation" where
  "int_relation f vs = \<lparr>rel_rows = map (\<lambda>(v, n). [IntItem v n]) vs, rel_schemas = [demo_column f INTS], rel_multiTable = False\<rparr>"

end
