(* ===== verification/Ob_JoinProps.thy ===== *)
theory Ob_JoinProps
  imports Ob_RowTest Ob_QueryDemo
begin

text \<open>
  The join visits every combination of rows of its sources once, in lexicographic order: its counters are the
  digits of a number in a mixed radix.
\<close>

section \<open>Combinations\<close>

fun rank :: "nat list \<Rightarrow> nat list \<Rightarrow> nat" where
  "rank (i # js) (l # ls) = i * prod_list ls + rank js ls"
| "rank _ _ = 0"

abbreviation counters :: "nat list \<Rightarrow> nat list \<Rightarrow> bool" where
  "counters \<equiv> list_all2 (<)"

lemma counters_pos: "counters idx ls \<Longrightarrow> 0 < prod_list ls"
  by (induction rule: list_all2_induct) auto

lemma rank_bound: "counters idx ls \<Longrightarrow> rank idx ls < prod_list ls"
proof (induction rule: list_all2_induct)
  case (Cons i js l ls)
  then have "i * prod_list ls + rank js ls < (i + 1) * prod_list ls"
    by simp
  also have "\<dots> \<le> l * prod_list ls"
    using Cons.hyps by (intro mult_right_mono) auto
  finally show ?case by simp
qed simp

lemma rank_zero: "counters idx ls \<Longrightarrow> rank idx ls = 0 \<longleftrightarrow> (\<forall>i\<in>set idx. i = 0)"
proof (induction rule: list_all2_induct)
  case (Cons i js l ls)
  then show ?case
    using counters_pos[OF Cons.hyps(2)] by auto
qed simp

lemma rank_replicate [simp]: "rank (replicate n 0) ls = 0"
  by (induction n arbitrary: ls) (simp_all, case_tac ls, simp_all)

lemma counters_replicate: "(\<forall>l\<in>set ls. 0 < l) \<Longrightarrow> counters (replicate (length ls) 0) ls"
  by (induction ls) auto

text \<open>One step of the counters adds one to their rank, up to the carry.\<close>

lemma odometer_step:
  "counters idx ls \<Longrightarrow>
     counters (snd (odometer idx ls)) ls \<and>
     rank (snd (odometer idx ls)) ls + fst (odometer idx ls) * prod_list ls = rank idx ls + 1"
proof (induction rule: list_all2_induct)
  case (Cons i js l ls)
  obtain push js' where o: "odometer js ls = (push, js')" by fastforce
  have l: "0 < l" using Cons.hyps by auto
  have e: "odometer (i # js) (l # ls) = ((i + push) div l, (i + push) mod l # js')"
    by (simp add: o Let_def)
  have "(i + push) mod l * prod_list ls + (i + push) div l * (l * prod_list ls) = (i + push) * prod_list ls"
    by (metis add.commute add_mult_distrib div_mult_mod_eq mult.assoc)
  then have "rank (snd (odometer (i # js) (l # ls))) (l # ls) + fst (odometer (i # js) (l # ls)) * prod_list (l # ls)
      = i * prod_list ls + (rank js' ls + push * prod_list ls)"
    unfolding e by (simp add: add_mult_distrib)
  also have "\<dots> = rank (i # js) (l # ls) + 1"
    using Cons.IH o by simp
  finally show ?case
    using Cons.IH o l unfolding e by simp
qed simp

lemma nth_concat_equal:
  "(\<forall>ys\<in>set yss. length ys = m) \<Longrightarrow> i < length yss \<Longrightarrow> j < m \<Longrightarrow> concat yss ! (i * m + j) = yss ! i ! j"
proof (induction yss arbitrary: i)
  case (Cons ys yss)
  then show ?case
    by (cases i) (auto simp: nth_append algebra_simps)
qed simp

lemma length_product_lists_prod: "length (product_lists xss) = prod_list (map length xss)"
  by (induction xss) (auto simp: length_concat o_def sum_list_triv)

lemma product_lists_nth:
  "counters idx (map length xss) \<Longrightarrow> product_lists xss ! rank idx (map length xss) = map2 (!) xss idx"
proof (induction xss arbitrary: idx)
  case (Cons xs xss)
  then obtain i js where i: "idx = i # js" "i < length xs" "counters js (map length xss)"
    by (auto simp: list_all2_Cons2)
  let ?m = "prod_list (map length xss)"
  let ?yss = "map (\<lambda>x. map ((#) x) (product_lists xss)) xs"
  have "concat ?yss ! (i * ?m + rank js (map length xss)) = ?yss ! i ! rank js (map length xss)"
    using i rank_bound by (intro nth_concat_equal) (auto simp: length_product_lists_prod)
  then show ?case
    using i rank_bound[OF i(3)] Cons.IH[OF i(3)] by (simp add: length_product_lists_prod)
qed simp

lemma join_row_product:
  "counters idx (map length rels) \<Longrightarrow> join_row rels idx = Some (concat (product_lists rels ! rank idx (map length rels)))"
proof -
  assume c: "counters idx (map length rels)"
  have "join_row rels idx = Some (concat (map2 (!) rels idx))"
    using c
  proof (induction rels arbitrary: idx)
    case (Cons rows rels)
    then show ?case by (auto simp: list_all2_Cons2)
  qed simp
  then show ?thesis by (simp add: product_lists_nth[OF c])
qed

section \<open>The loop\<close>

text \<open>The reference: the body on one row after the other, until it returns.\<close>

fun run_rows :: "'s join_body \<Rightarrow> Row list \<Rightarrow> RC \<Rightarrow> Relation \<Rightarrow> 's \<Rightarrow> ((bool \<times> RC \<times> Relation) \<times> 's) option" where
  "run_rows body [] rc ret s = Some ((False, rc, ret), s)"
| "run_rows body (row # rows) rc ret s = do {
     ((stop, rc, ret), s) \<leftarrow> body row ret s;
     if stop then Some ((True, rc, ret), s) else run_rows body rows rc ret s
   }"

definition without_index :: "((bool \<times> RC \<times> Relation \<times> nat list) \<times> 's) option \<Rightarrow> ((bool \<times> RC \<times> Relation) \<times> 's) option" where
  "without_index = map_option (\<lambda>((stop, rc, ret, idx), s). ((stop, rc, ret), s))"

definition combinations :: "Row list list \<Rightarrow> Row list" where
  "combinations rels = map concat (product_lists rels)"

lemma length_combinations: "length (combinations rels) = prod_list (map length rels)"
  by (simp add: combinations_def length_product_lists_prod)

lemma nextRow_combination:
  assumes "counters idx (map length rels)" "rels \<noteq> []"
  shows "nextRow rels idx = Some (combinations rels ! rank idx (map length rels), snd (odometer idx (map length rels)))"
proof -
  have "[] \<notin> set rels"
    using assms(1) by (induction rels arbitrary: idx) (auto simp: list_all2_Cons2)
  then show ?thesis
    using assms rank_bound[OF assms(1)]
    by (simp add: nextRow_def join_row_product combinations_def length_product_lists_prod)
qed

lemma hasNext_rank:
  "counters idx ls \<Longrightarrow> hasNext idx flag = (if 0 < rank idx ls then (True, flag) else (flag, False))"
  using rank_zero[of idx ls] by (auto simp: hasNext_def)

lemma join_loop_from:
  assumes "counters idx (map length rels)" "rels \<noteq> []" "0 < rank idx (map length rels)"
  shows "without_index (join_loop body rels idx False rc ret s) =
    run_rows body (drop (rank idx (map length rels)) (combinations rels)) rc ret s"
  using assms(1,3)
proof (induction "prod_list (map length rels) - rank idx (map length rels)" arbitrary: idx rc ret s rule: less_induct)
  case less
  let ?ls = "map length rels" let ?k = "rank idx ?ls"
  let ?idx = "snd (odometer idx ?ls)"
  have k: "?k < prod_list ?ls" using rank_bound less.prems by blast
  have step: "counters ?idx ?ls" "rank ?idx ?ls + fst (odometer idx ?ls) * prod_list ?ls = ?k + 1"
    using odometer_step[OF less.prems(1)] by auto
  have rest: "without_index (join_loop body rels ?idx False rc ret s) = run_rows body (drop (?k + 1) (combinations rels)) rc ret s" for rc ret s
  proof (cases "?k + 1 = prod_list ?ls")
    case True
    then have "fst (odometer idx ?ls) \<noteq> 0" using step rank_bound[OF step(1)] by (intro notI) simp
    then have "rank ?idx ?ls = 0" using step True by (cases "fst (odometer idx ?ls)") auto
    then show ?thesis
      using True by (simp add: join_loop.simps[of _ _ ?idx] hasNext_rank[OF step(1)] without_index_def length_combinations)
  next
    case False
    then have "fst (odometer idx ?ls) = 0" using step k by (cases "fst (odometer idx ?ls)") auto
    then have "rank ?idx ?ls = ?k + 1" using step by simp
    then show ?thesis using less.hyps[of ?idx] step(1) False k by simp
  qed
  have "drop ?k (combinations rels) = combinations rels ! ?k # drop (?k + 1) (combinations rels)"
    using k by (simp add: Cons_nth_drop_Suc length_combinations)
  then show ?case
    using less.prems assms(2) rest
    by (simp add: join_loop.simps[of _ _ idx] hasNext_rank[OF less.prems(1)] nextRow_combination without_index_def
        map_option_case split: bind_splits prod.splits if_splits)
qed

lemma join_loop_product:
  assumes "rels \<noteq> []"
  shows "without_index (join_loop body rels (replicate (length rels) 0) (\<forall>rows\<in>set rels. rows \<noteq> []) rc ret s) =
    run_rows body (combinations rels) rc ret s"
proof (cases "\<forall>rows\<in>set rels. rows \<noteq> []")
  case False
  then have "prod_list (map length rels) = 0"
    by (auto simp: prod_list_zero_iff)
  then have "combinations rels = []"
    using length_combinations[of rels] by simp
  moreover have "join_loop body rels (replicate (length rels) 0) False rc ret s = Some ((False, rc, ret, replicate (length rels) 0), s)"
    by (subst join_loop.simps) (simp add: hasNext_def)
  moreover have "(\<forall>rows\<in>set rels. rows \<noteq> []) = False"
    using False by blast
  ultimately show ?thesis
    unfolding without_index_def by (simp only: option.map prod.case run_rows.simps)
next
  case True
  let ?z = "replicate (length rels) (0::nat)" let ?ls = "map length rels"
  have c: "counters ?z ?ls"
    using counters_replicate[of ?ls] True by simp
  have step: "counters (snd (odometer ?z ?ls)) ?ls" "rank (snd (odometer ?z ?ls)) ?ls + fst (odometer ?z ?ls) * prod_list ?ls = 1"
    using odometer_step[OF c] by auto
  have p: "0 < prod_list ?ls" using counters_pos[OF c] .
  have rest: "without_index (join_loop body rels (snd (odometer ?z ?ls)) False rc ret s) = run_rows body (drop 1 (combinations rels)) rc ret s" for rc ret s
  proof (cases "rank (snd (odometer ?z ?ls)) ?ls = 0")
    case True
    then have "prod_list ?ls = 1" using step p by simp
    then show ?thesis
      using True by (simp add: join_loop.simps[of _ _ "snd (odometer ?z ?ls)"] hasNext_rank[OF step(1)] without_index_def length_combinations)
  next
    case False
    then have "rank (snd (odometer ?z ?ls)) ?ls = 1" using step by simp
    then show ?thesis using join_loop_from[OF step(1) assms] by simp
  qed
  have "combinations rels = combinations rels ! 0 # drop 1 (combinations rels)"
    using p by (metis Cons_nth_drop_Suc One_nat_def drop0 length_combinations)
  then have "run_rows body (combinations rels) rc ret s = run_rows body (combinations rels ! 0 # drop 1 (combinations rels)) rc ret s"
    by simp
  then show ?thesis
    using assms rest True c
    by (simp add: join_loop.simps[of _ _ ?z] hasNext_rank[OF c] nextRow_combination[OF c] without_index_def
        map_option_case split: bind_splits prod.splits if_splits)
qed

section \<open>The operator\<close>

lemma join_sources_length: "join_sources subs s = Some ((SUCCESS, rs), s') \<Longrightarrow> length rs = length subs"
  by (induction subs arbitrary: s rs) (auto split: bind_splits if_splits prod.splits)

lemma run_rows_keep_all:
  "\<forall>row\<in>set rows. length row = length (rel_schemas ret) \<Longrightarrow>
     run_rows (join_body [] om cmps) rows SUCCESS ret s = Some ((False, SUCCESS, ret\<lparr>rel_rows := rel_rows ret @ rows\<rparr>), s)"
  by (induction rows arbitrary: ret) (simp_all add: join_body_def rel_insertRow_def)

lemma combination_width:
  assumes "\<forall>r\<in>set rs. \<forall>row\<in>set (rel_rows r). length row = length (rel_schemas r)"
  shows "\<forall>row\<in>set (combinations (map rel_rows rs)). length row = length (concat (map rel_schemas rs))"
  using assms by (induction rs) (auto simp: combinations_def)


text \<open>Two rows joined with two rows, and the same operator once more.\<close>

definition demo_join :: QueryOperator where
  "demo_join = JoinOperator 0 [ScanOperator 1 1 [demo_column ''a'' INTS], ScanOperator 2 2 [demo_column ''b'' INTS]] (FilterStmt [] False)"

definition demo_join_state :: "nat list \<Rightarrow> unit QState" where
  "demo_join_state idx = upd_oper 0 (\<lambda>x. x\<lparr>join_indexes := idx\<rparr>)
     (demo_state (\<lambda>_. demo_obj) [1 \<mapsto> int_relation ''a'' [(1, False), (2, False)], 2 \<mapsto> int_relation ''b'' [(3, False), (4, True)]])"


end
