(* ===== verification/Ob_OrderProps.thy ===== *)
theory Ob_OrderProps
  imports Ob_Operator Ob_QueryDemo "HOL-Library.List_Lexorder" "HOL-Library.Option_ord" "HOL-Library.Multiset"
begin

text \<open>
  \<^verbatim>\<open>ORDER BY\<close> on integers, dates and texts: the operator sorts rows whose keys are all different, nulls first, and is
  undefined as soon as two rows agree on all keys, because the comparison calls each of them less than the
  other.
\<close>

section \<open>Sorting\<close>

lemma insert_by_mset [simp]: "mset (insert_by cmp x ys) = add_mset x (mset ys)"
  by (induction ys) auto

lemma sort_mset: "mset (foldr (insert_by cmp) xs []) = mset xs"
  by (induction xs) auto

text \<open>A comparison that is a strict linear order on the elements of a list.\<close>

definition linear_on :: "('a \<Rightarrow> 'a \<Rightarrow> bool option) \<Rightarrow> ('a \<Rightarrow> 'a \<Rightarrow> bool) \<Rightarrow> 'a set \<Rightarrow> bool" where
  "linear_on cmp lt A \<longleftrightarrow>
     (\<forall>x\<in>A. \<forall>y\<in>A. x \<noteq> y \<longrightarrow> cmp x y = Some (lt x y) \<and> (lt x y \<longleftrightarrow> \<not> lt y x)) \<and>
     (\<forall>x\<in>A. \<forall>y\<in>A. \<forall>z\<in>A. lt x y \<longrightarrow> lt y z \<longrightarrow> lt x z)"

lemma linear_on_mono: "linear_on cmp lt B \<Longrightarrow> A \<subseteq> B \<Longrightarrow> linear_on cmp lt A"
  unfolding linear_on_def by (meson subsetD)

lemma linear_onD:
  assumes "linear_on cmp lt A" "x \<in> A" "y \<in> A" "x \<noteq> y"
  shows "cmp x y = Some (lt x y)" "lt x y \<longleftrightarrow> \<not> lt y x"
  using assms unfolding linear_on_def by blast+

lemma linear_on_trans: "linear_on cmp lt A \<Longrightarrow> x \<in> A \<Longrightarrow> y \<in> A \<Longrightarrow> z \<in> A \<Longrightarrow> lt x y \<Longrightarrow> lt y z \<Longrightarrow> lt x z"
  unfolding linear_on_def by blast

lemma insert_by_set [simp]: "set (insert_by cmp x ys) = insert x (set ys)"
  by (metis insert_by_mset set_mset_add_mset_insert set_mset_mset)

lemma insert_by_sorted:
  assumes "linear_on cmp lt (insert x (set ys))" "x \<notin> set ys" "sorted_wrt lt ys"
  shows "sorted_wrt lt (insert_by cmp x ys)"
  using assms
proof (induction ys)
  case (Cons y ys)
  have lin: "linear_on cmp lt (insert x (set ys))"
    by (rule linear_on_mono[OF Cons.prems(1)]) auto
  have xy: "cmp x y = Some (lt x y)" "lt x y \<longleftrightarrow> \<not> lt y x"
    using linear_onD[OF Cons.prems(1), of x y] Cons.prems(2) by simp_all
  show ?case
  proof (cases "lt x y")
    case True
    have "lt x z" if "z \<in> set ys" for z
      using linear_on_trans[OF Cons.prems(1), of x y z] True that Cons.prems(3) by simp
    then show ?thesis using True xy Cons.prems(3) by simp
  next
    case False
    then show ?thesis
      using xy Cons.IH[OF lin] Cons.prems(2,3) by simp
  qed
qed simp

lemma sort_set [simp]: "set (foldr (insert_by cmp) xs []) = set xs"
  by (metis set_mset_mset sort_mset)

lemma sort_sorted: "linear_on cmp lt (set xs) \<Longrightarrow> distinct xs \<Longrightarrow> sorted_wrt lt (foldr (insert_by cmp) xs [])"
proof (induction xs)
  case (Cons x xs)
  have "linear_on cmp lt (set xs)"
    by (rule linear_on_mono[OF Cons.prems(1)]) auto
  then have "sorted_wrt lt (foldr (insert_by cmp) xs [])"
    using Cons.IH Cons.prems(2) by simp
  then show ?case
    using Cons.prems insert_by_sorted[of cmp lt x "foldr (insert_by cmp) xs []"] by simp
qed simp

lemma linear_strict_on:
  assumes lin: "linear_on cmp lt (set xs)" and dist: "distinct xs"
  shows "strict_on cmp xs"
proof -
  have ne: "xs ! i \<noteq> xs ! j" if "i < length xs" "j < length xs" "i \<noteq> j" for i j
    using dist that by (simp add: nth_eq_iff_index_eq)
  have c: "cmp (xs ! i) (xs ! j) = Some (lt (xs ! i) (xs ! j))" "lt (xs ! i) (xs ! j) \<longleftrightarrow> \<not> lt (xs ! j) (xs ! i)"
    if "i < length xs" "j < length xs" "i \<noteq> j" for i j
    using linear_onD[OF lin, of "xs ! i" "xs ! j"] ne[OF that] that by simp_all
  have t: "lt (xs ! i) (xs ! k)" if "i < length xs" "j < length xs" "k < length xs" "lt (xs ! i) (xs ! j)" "lt (xs ! j) (xs ! k)" for i j k
    using linear_on_trans[OF lin, of "xs ! i" "xs ! j" "xs ! k"] that by simp
  show ?thesis
    unfolding strict_on_def
  proof (intro conjI allI impI)
    fix i j assume "i < length xs" "j < length xs" "i \<noteq> j"
    then show "(cmp (xs ! i) (xs ! j), cmp (xs ! j) (xs ! i)) \<in> {(Some True, Some False), (Some False, Some True)}"
      using c(1)[of i j] c(1)[of j i] c(2)[of i j] by (cases "lt (xs ! j) (xs ! i)") simp_all
  next
    fix i j k
    assume "i < length xs" "j < length xs" "k < length xs" "i \<noteq> j" "j \<noteq> k" "i \<noteq> k" "cmp (xs ! i) (xs ! j) = Some True" "cmp (xs ! j) (xs ! k) = Some True"
    then show "cmp (xs ! i) (xs ! k) = Some True"
      using c(1)[of i j] c(1)[of j k] c(1)[of i k] t[of i j k] by simp
  qed
qed

section \<open>Keys\<close>

text \<open>The key of an item: a number or the codes of a text, null below all of them.\<close>

definition item_key :: "Item \<Rightarrow> int list option" where
  "item_key item =
     (if item_isNull item then None
      else case item of
        IntItem v _ \<Rightarrow> Some [v]
      | DateItem v _ \<Rightarrow> Some [v]
      | TextItem t _ \<Rightarrow> Some (map (\<lambda>c. int (of_char c)) t)
      | _ \<Rightarrow> Some [])"

definition key_fits :: "OrderMeta \<Rightarrow> Row \<Rightarrow> bool" where
  "key_fits m row \<longleftrightarrow> om_idx m < length row \<and>
     (item_isNull (row ! om_idx m) \<or>
      (if om_type m = INTS \<or> om_type m = DATES then \<exists>v. getInt (row ! om_idx m) = Some v
       else om_type m \<noteq> FLOATS \<and> (\<exists>t. getText (row ! om_idx m) = Some t \<and> CHR 0x00 \<notin> set t)))"

definition row_keys :: "OrderMeta list \<Rightarrow> Row \<Rightarrow> int list option list" where
  "row_keys ms row = map (\<lambda>m. item_key (row ! om_idx m)) ms"

lemma row_keys_simps [simp]:
  "row_keys [] row = []"
  "row_keys (m # ms) row = item_key (row ! om_idx m) # row_keys ms row"
  by (simp_all add: row_keys_def)

lemma row_keys_length [simp]: "length (row_keys ms row) = length ms"
  by (simp add: row_keys_def)

lemma item_key_None [simp]: "item_key item = None \<longleftrightarrow> item_isNull item"
  by (cases item) (auto simp: item_key_def)

fun keys_less :: "OrderMeta list \<Rightarrow> int list option list \<Rightarrow> int list option list \<Rightarrow> bool" where
  "keys_less (m # ms) (k # ks) (l # ls) = (if k = l then keys_less ms ks ls else if om_asc m then k < l else l < k)"
| "keys_less _ _ _ = False"

lemma strcmp_lex:
  assumes "CHR 0x00 \<notin> set a" "CHR 0x00 \<notin> set b"
  shows "strcmp a b < 0 \<longleftrightarrow> map (\<lambda>c. int (of_char c)) a < map (\<lambda>c. int (of_char c)) b" "strcmp a b = 0 \<longleftrightarrow> a = b"
proof -
  have z: "0 < (of_char c :: nat)" if "c \<noteq> CHR 0x00" for c :: char
  proof -
    have "(of_char c :: nat) \<noteq> of_char (CHR 0x00)" using that by (simp only: of_char_eq_iff not_False_eq_True)
    then show ?thesis by simp
  qed
  have i: "(of_char c :: nat) = of_char d \<longleftrightarrow> c = d" for c d :: char
    by (simp add: of_char_eq_iff)
  show "strcmp a b < 0 \<longleftrightarrow> map (\<lambda>c. int (of_char c)) a < map (\<lambda>c. int (of_char c)) b" "strcmp a b = 0 \<longleftrightarrow> a = b"
    using assms by (induction a b rule: strcmp.induct) (auto simp: i intro: z)
qed

lemma sortRow_keys:
  assumes "\<forall>m\<in>set ms. key_fits m r1 \<and> key_fits m r2"
  shows "sortRow ms r1 r2 = Some (keys_less ms (row_keys ms r1) (row_keys ms r2) \<or> row_keys ms r1 = row_keys ms r2)"
  using assms
proof (induction ms)
  case (Cons m ms)
  let ?a = "r1 ! om_idx m" let ?b = "r2 ! om_idx m"
  have ab: "row_at r1 (int (om_idx m)) = Some ?a" "row_at r2 (int (om_idx m)) = Some ?b"
    using Cons.prems by (auto simp: row_at_def key_fits_def)
  have IH: "sortRow ms r1 r2 = Some (keys_less ms (row_keys ms r1) (row_keys ms r2) \<or> row_keys ms r1 = row_keys ms r2)"
    using Cons by simp
  have fits: "key_fits m r1" "key_fits m r2" using Cons.prems by simp_all
  show ?case
  proof (cases "item_isNull ?a \<or> item_isNull ?b")
    case True
    then show ?thesis
      using ab IH item_key_None[of ?a] item_key_None[of ?b]
      by (cases "item_key ?a"; cases "item_key ?b") (simp_all del: item_key_None)
  next
    case False
    show ?thesis
    proof (cases "om_type m = INTS \<or> om_type m = DATES")
      case True
      then obtain x y where "getInt ?a = Some x" "getInt ?b = Some y"
        using fits False by (auto simp: key_fits_def)
      moreover from this have "item_key ?a = Some [x]" "item_key ?b = Some [y]"
        using False by (cases ?a; cases ?b; simp add: item_key_def)+
      ultimately show ?thesis
        using True False ab IH by auto
    next
      case nt: False
      then obtain x y where xy: "getText ?a = Some x" "getText ?b = Some y" "CHR 0x00 \<notin> set x" "CHR 0x00 \<notin> set y" "om_type m \<noteq> FLOATS"
        using fits False by (auto simp: key_fits_def)
      then have k: "item_key ?a = Some (map (\<lambda>c. int (of_char c)) x)" "item_key ?b = Some (map (\<lambda>c. int (of_char c)) y)"
        using False by (cases ?a; cases ?b; simp add: item_key_def)+
      have "map (\<lambda>c. int (of_char c)) x = map (\<lambda>c. int (of_char c)) y \<longleftrightarrow> x = y"
        by (intro inj_map_eq_map injI) (simp add: of_char_eq_iff)
      then show ?thesis
        using nt False ab IH xy k strcmp_lex[OF xy(3,4)] by (auto simp: Let_def)
    qed
  qed
qed simp

lemma keys_less_total:
  assumes "length a = length ms" "length b = length ms" "a \<noteq> b"
  shows "keys_less ms a b \<longleftrightarrow> \<not> keys_less ms b a"
  using assms by (induction ms a b rule: keys_less.induct) (auto simp: not_less)

lemma keys_less_trans:
  assumes "length a = length ms" "length b = length ms" "length c = length ms"
    "keys_less ms a b" "keys_less ms b c"
  shows "keys_less ms a c"
  using assms
proof (induction ms arbitrary: a b c)
  case (Cons m ms)
  then obtain x xs y ys z zs where "a = x # xs" "b = y # ys" "c = z # zs"
    by (metis length_Suc_conv)
  then show ?case
    using Cons.prems Cons.IH[of xs ys zs] by (auto split: if_splits)
qed simp

section \<open>The operator\<close>

definition row_before :: "OrderMeta list \<Rightarrow> Row \<Rightarrow> Row \<Rightarrow> bool" where
  "row_before ms a b \<longleftrightarrow> keys_less ms (row_keys ms a) (row_keys ms b)"

lemma sortRow_linear:
  assumes "\<forall>row\<in>set rows. \<forall>m\<in>set ms. key_fits m row" "inj_on (row_keys ms) (set rows)"
  shows "linear_on (sortRow ms) (row_before ms) (set rows)"
  unfolding linear_on_def row_before_def
proof (intro conjI ballI impI)
  fix x y assume xy: "x \<in> set rows" "y \<in> set rows" "x \<noteq> y"
  then have ne: "row_keys ms x \<noteq> row_keys ms y" using assms(2) by (auto dest: inj_onD)
  then show "sortRow ms x y = Some (keys_less ms (row_keys ms x) (row_keys ms y))"
    using sortRow_keys[of ms x y] assms(1) xy by simp
  show "keys_less ms (row_keys ms x) (row_keys ms y) \<longleftrightarrow> \<not> keys_less ms (row_keys ms y) (row_keys ms x)"
    using ne by (intro keys_less_total) simp_all
next
  fix x y z assume "keys_less ms (row_keys ms x) (row_keys ms y)" "keys_less ms (row_keys ms y) (row_keys ms z)"
  then show "keys_less ms (row_keys ms x) (row_keys ms z)"
    by (rule keys_less_trans[rotated 3]) simp_all
qed

lemma equal_keys_not_strict:
  assumes "\<forall>row\<in>set rows. \<forall>m\<in>set ms. key_fits m row" "\<not> distinct (map (row_keys ms) rows)"
  shows "\<not> strict_on (sortRow ms) rows"
proof -
  obtain i j where ij: "i < length rows" "j < length rows" "i \<noteq> j" "row_keys ms (rows ! i) = row_keys ms (rows ! j)"
    using assms(2) by (auto simp: distinct_conv_nth)
  then have "sortRow ms (rows ! i) (rows ! j) = Some True" "sortRow ms (rows ! j) (rows ! i) = Some True"
    using sortRow_keys[of ms "rows ! i" "rows ! j"] sortRow_keys[of ms "rows ! j" "rows ! i"] assms(1) by simp_all
  then show ?thesis
    using ij(1-3) unfolding strict_on_def by force
qed


text \<open>\<^verbatim>\<open>ORDER BY a DESC\<close> on the rows 1, null and 3, and on two equal rows.\<close>

definition demo_key :: BaseExpression where
  "demo_key = IdentifierExpression 1 ''t'' ''a'' INTS"

definition demo_order_state :: "unit QState" where
  "demo_order_state = demo_state (\<lambda>_. demo_obj)
     [1 \<mapsto> int_relation ''a'' [(1, False), (0, True), (3, False)], 2 \<mapsto> int_relation ''a'' [(1, False), (1, False)]]"


end
