(* ===== verification/Ob_CalcProps.thy ===== *)
theory Ob_CalcProps
  imports Ob_RowTest Ob_QueryDemo
begin

text \<open>
  Integer expressions: mapping them to a relation and calculating them on its rows yields the value that a pure
  evaluator gives, whatever the store held before, and changes no object outside of the expression.
\<close>

section \<open>The reference\<close>

fun expr_ids :: "BaseExpression \<Rightarrow> nat list" where
  "expr_ids (NegativeExpression n e _) = n # expr_ids e"
| "expr_ids (BinaryExpression n a b _ _) = n # expr_ids a @ expr_ids b"
| "expr_ids e = [expr_id e]"

text \<open>Integer constants, columns, minus signs, sums, differences and products; each object occurs once.\<close>

fun int_tree :: "BaseExpression \<Rightarrow> bool" where
  "int_tree (ConstExpression _ lit t) = (t = INTS \<and> atoi lit \<noteq> None)"
| "int_tree (IdentifierExpression _ _ _ t) = (t = INTS)"
| "int_tree (NegativeExpression _ e t) = (t = INTS \<and> int_tree e)"
| "int_tree (BinaryExpression _ a b op t) = (t = INTS \<and> op \<in> {OP_ADD, OP_SUB, OP_MUL} \<and> int_tree a \<and> int_tree b)"
| "int_tree _ = False"

definition int_expr :: "BaseExpression \<Rightarrow> bool" where
  "int_expr e \<longleftrightarrow> int_tree e \<and> distinct (expr_ids e)"

definition column_value :: "Schema list \<Rightarrow> Row \<Rightarrow> string \<Rightarrow> int option" where
  "column_value schemas row name = (case find_column name schemas 0 of
      Some c \<Rightarrow> (case row_at row c of Some (IntItem v isnull) \<Rightarrow> if isnull then None else Some v | _ \<Rightarrow> None)
    | None \<Rightarrow> None)"

definition int_op :: "ExprOp \<Rightarrow> int \<Rightarrow> int \<Rightarrow> int" where
  "int_op op a b = wrap32 (case op of OP_ADD \<Rightarrow> a + b | OP_SUB \<Rightarrow> a - b | _ \<Rightarrow> a * b)"

text \<open>The value of an expression on a row; null is \<open>None\<close>.\<close>

fun int_value :: "Schema list \<Rightarrow> Row \<Rightarrow> BaseExpression \<Rightarrow> int option" where
  "int_value schemas row (ConstExpression _ lit _) = atoi lit"
| "int_value schemas row (IdentifierExpression _ t f _) = column_value schemas row (t @ ''.'' @ f)"
| "int_value schemas row (NegativeExpression _ e _) = map_option (\<lambda>v. wrap32 (- v)) (int_value schemas row e)"
| "int_value schemas row (BinaryExpression _ a b op _) =
     do { x \<leftarrow> int_value schemas row a; y \<leftarrow> int_value schemas row b; Some (int_op op x y) }"
| "int_value schemas row _ = None"

text \<open>Constants hold the value that \<^verbatim>\<open>ConstExpression::parse\<close> gave them.\<close>

fun parsed :: "'w QState \<Rightarrow> BaseExpression \<Rightarrow> bool" where
  "parsed s (ConstExpression n lit _) = (\<not> eo_isNull (exprs s n) \<and> atoi lit = Some (intValue (exprs s n)))"
| "parsed s (NegativeExpression _ e _) = parsed s e"
| "parsed s (BinaryExpression _ a b _ _) = (parsed s a \<and> parsed s b)"
| "parsed s _ = True"

text \<open>The schemas have the columns of an expression, and none of its operators is a column itself.\<close>

fun resolvable :: "Schema list \<Rightarrow> BaseExpression \<Rightarrow> bool" where
  "resolvable schemas (IdentifierExpression _ t f _) = (\<exists>c\<ge>0. find_column (t @ ''.'' @ f) schemas 0 = Some c)"
| "resolvable schemas (NegativeExpression n e t) =
     (find_column (expr_toString (NegativeExpression n e t)) schemas 0 = Some (- 1) \<and> resolvable schemas e)"
| "resolvable schemas (BinaryExpression n a b op t) =
     (find_column (expr_toString (BinaryExpression n a b op t)) schemas 0 = Some (- 1) \<and> resolvable schemas a \<and> resolvable schemas b)"
| "resolvable schemas _ = True"

text \<open>The columns an expression reads hold integers.\<close>

fun int_row :: "Schema list \<Rightarrow> Row \<Rightarrow> BaseExpression \<Rightarrow> bool" where
  "int_row schemas row (IdentifierExpression _ t f _) =
     (\<exists>c v isnull. find_column (t @ ''.'' @ f) schemas 0 = Some c \<and> row_at row c = Some (IntItem v isnull))"
| "int_row schemas row (NegativeExpression _ e _) = int_row schemas row e"
| "int_row schemas row (BinaryExpression _ a b _ _) = (int_row schemas row a \<and> int_row schemas row b)"
| "int_row schemas row _ = True"

section \<open>Mapping\<close>

text \<open>What mapping an expression to a relation leaves in its objects.\<close>

fun mapped :: "Schema list \<Rightarrow> 'w QState \<Rightarrow> BaseExpression \<Rightarrow> bool" where
  "mapped schemas s (ConstExpression n lit t) = parsed s (ConstExpression n lit t)"
| "mapped schemas s (IdentifierExpression n t f _) = (find_column (t @ ''.'' @ f) schemas 0 = Some (column (exprs s n)))"
| "mapped schemas s (NegativeExpression n e _) = (\<not> isInput (exprs s n) \<and> mapped schemas s e)"
| "mapped schemas s (BinaryExpression n a b _ _) = (\<not> isInput (exprs s n) \<and> mapped schemas s a \<and> mapped schemas s b)"
| "mapped schemas s _ = False"

lemma expr_id_in_ids [simp]: "expr_id e \<in> set (expr_ids e)"
  by (cases e) auto

text \<open>The objects a call leaves alone.\<close>

definition frame :: "nat list \<Rightarrow> 'w QState \<Rightarrow> 'w QState \<Rightarrow> bool" where
  "frame ns s s' \<longleftrightarrow> (\<forall>n. n \<notin> set ns \<longrightarrow> exprs s' n = exprs s n) \<and> opers s' = opers s \<and> world s' = world s"

lemma frame_trans: "frame ns s s1 \<Longrightarrow> frame ms s1 s2 \<Longrightarrow> set ns \<union> set ms \<subseteq> set ks \<Longrightarrow> frame ks s s2"
  unfolding frame_def by (metis Un_iff subsetD)

lemma frame_refl [simp]: "frame ns s s"
  by (simp add: frame_def)

lemma frame_upd [simp]: "n \<in> set ns \<Longrightarrow> frame ns s (upd_expr n f s)"
  by (auto simp: frame_def upd_expr_def)

lemmas setter_defs = set_input_def set_null_def set_int_def set_float_def set_text_def

lemma exprs_upd [simp]: "exprs (upd_expr n f s) m = (if m = n then f (exprs s n) else exprs s m)"
  by (simp add: upd_expr_def)

lemma rest_upd [simp]: "opers (upd_expr n f s) = opers s" "world (upd_expr n f s) = world s"
  by (simp_all add: upd_expr_def)

lemma parsed_frame: "frame ns s s' \<Longrightarrow> set (expr_ids e) \<inter> set ns = {} \<Longrightarrow> parsed s' e = parsed s e"
  by (induction e rule: expr_ids.induct) (auto simp: frame_def)

lemma mapped_frame: "frame ns s s' \<Longrightarrow> set (expr_ids e) \<inter> set ns = {} \<Longrightarrow> mapped sc s' e = mapped sc s e"
  by (induction e rule: expr_ids.induct) (auto simp: frame_def)

lemma map_int_expr:
  assumes "int_tree e" "distinct (expr_ids e)" "parsed s e" "resolvable (rel_schemas r) e"
  shows "\<exists>s'. mapToRelation r e s = Some (SUCCESS, s') \<and> mapped (rel_schemas r) s' e \<and> frame (expr_ids e) s s'"
  using assms
proof (induction e arbitrary: s)
  case (IdentifierExpression n tab fld t)
  then show ?case
    by (auto simp: identifier_map_def tryToFindColumn_def findExpressionColumn_def)
next
  case (NegativeExpression n e t)
  let ?s = "set_input n False (upd_expr n (\<lambda>x. x\<lparr>column := - 1\<rparr>) s)"
  have f: "frame [n] s ?s" by (auto simp: setter_defs frame_def)
  then obtain s1 where s1: "mapToRelation r e ?s = Some (SUCCESS, s1)" "mapped (rel_schemas r) s1 e" "frame (expr_ids e) ?s s1"
    using NegativeExpression.IH(1)[of ?s] NegativeExpression.prems parsed_frame[OF f, of e] by auto
  then show ?case
    using NegativeExpression.prems frame_trans[OF f s1(3), of "n # expr_ids e"]
    by (auto simp: negative_map_def tryToFindColumn_def findExpressionColumn_def frame_def setter_defs)
next
  case (BinaryExpression n a b op t)
  let ?s = "set_input n False (upd_expr n (\<lambda>x. x\<lparr>column := - 1\<rparr>) s)"
  have f: "frame [n] s ?s" by (auto simp: setter_defs frame_def)
  then obtain s1 where s1: "mapToRelation r a ?s = Some (SUCCESS, s1)" "mapped (rel_schemas r) s1 a" "frame (expr_ids a) ?s s1"
    using BinaryExpression.IH(1)[of ?s] BinaryExpression.prems parsed_frame[OF f, of a] by auto
  have f1: "frame (n # expr_ids a) s s1" using frame_trans[OF f s1(3), of "n # expr_ids a"] by auto
  then have "parsed s1 b"
    using BinaryExpression.prems parsed_frame[OF f1, of b] by auto
  then obtain s2 where s2: "mapToRelation r b s1 = Some (SUCCESS, s2)" "mapped (rel_schemas r) s2 b" "frame (expr_ids b) s1 s2"
    using BinaryExpression.IH(2)[of s1] BinaryExpression.prems by auto
  have "mapped (rel_schemas r) s2 a"
    using s1(2) mapped_frame[OF s2(3), of a] BinaryExpression.prems by auto
  then show ?case
    using s1 s2 BinaryExpression.prems frame_trans[OF f1 s2(3), of "n # expr_ids a @ expr_ids b"]
    by (auto simp: binary_map_def tryToFindColumn_def findExpressionColumn_def frame_def setter_defs)
qed (auto simp: no_map_def)

section \<open>Calculation\<close>

definition current :: "'w QState \<Rightarrow> BaseExpression \<Rightarrow> int option" where
  "current s e = (if isCurrentNull s e then None else Some (currentInt s e))"

lemma current_frame: "frame ns s s' \<Longrightarrow> expr_id e \<notin> set ns \<Longrightarrow> current s' e = current s e"
  by (simp add: current_def isCurrentNull_def currentInt_def frame_def)

lemma int_tree_type: "int_tree e \<Longrightarrow> expr_type s e = INTS"
  by (cases e) auto

lemma binary_apply_int:
  assumes "int_tree a" "int_tree b" "op \<in> {OP_ADD, OP_SUB, OP_MUL}"
  shows "binary_apply n a b op s = Some (set_int n (int_op op (currentInt s a) (currentInt s b)) s)"
  using assms by (auto simp: binary_apply_def int_tree_type evaluate_int_def int_op_def)

lemma calc_int_expr:
  assumes "int_tree e" "distinct (expr_ids e)" "mapped sc s e" "int_row sc row e"
  shows "\<exists>s'. calculate env row e s = Some (SUCCESS, s') \<and> mapped sc s' e \<and> current s' e = int_value sc row e \<and> frame (expr_ids e) s s'"
  using assms
proof (induction e arbitrary: s)
  case (ConstExpression n lit t)
  then show ?case
    by (auto simp: const_calculate_def current_def isCurrentNull_def currentInt_def)
next
  case (IdentifierExpression n tab fld t)
  then obtain v isnull where v: "row_at row (column (exprs s n)) = Some (IntItem v isnull)"
    by auto
  let ?s = "if isnull then set_null n True s else set_int n v (set_null n False s)"
  have "calculate env row (IdentifierExpression n tab fld t) s = Some (SUCCESS, ?s)"
    using IdentifierExpression.prems v by (simp add: identifier_calculate_def store_item_def)
  moreover have "mapped sc ?s (IdentifierExpression n tab fld t)"
    using IdentifierExpression.prems by (simp add: setter_defs)
  moreover have "current ?s (IdentifierExpression n tab fld t) = int_value sc row (IdentifierExpression n tab fld t)"
    using IdentifierExpression.prems v by (simp add: column_value_def current_def isCurrentNull_def currentInt_def setter_defs)
  moreover have "frame [n] s ?s"
    by (simp add: setter_defs frame_def)
  ultimately show ?case by auto
next
  case (NegativeExpression n e t)
  let ?s = "set_null n False s"
  have f: "frame [n] s ?s" by (auto simp: setter_defs)
  obtain s1 where s1: "calculate env row e ?s = Some (SUCCESS, s1)" "mapped sc s1 e" "current s1 e = int_value sc row e" "frame (expr_ids e) ?s s1"
    using NegativeExpression.IH(1)[of ?s] NegativeExpression.prems mapped_frame[OF f, of e] by auto
  have same: "exprs s1 n = exprs ?s n"
    using s1(4) NegativeExpression.prems(2) by (simp add: frame_def)
  let ?s2 = "if isCurrentNull s1 e then set_null n True s1 else set_int n (wrap32 (- currentInt s1 e)) s1"
  have f2: "frame [n] s1 ?s2" by (auto simp: setter_defs)
  have "calculate env row (NegativeExpression n e t) s = Some (SUCCESS, ?s2)"
    using NegativeExpression.prems s1 by (simp add: negative_calculate_def setter_defs)
  moreover have "mapped sc ?s2 (NegativeExpression n e t)"
    using NegativeExpression.prems s1(2) same mapped_frame[OF f2, of e] by (auto simp: setter_defs)
  moreover have "current ?s2 (NegativeExpression n e t) = int_value sc row (NegativeExpression n e t)"
    using s1(3)[symmetric] same by (auto simp: current_def isCurrentNull_def currentInt_def setter_defs)
  moreover have "frame (n # expr_ids e) s ?s2"
    using frame_trans[OF f frame_trans[OF s1(4) f2, of "n # expr_ids e"], of "n # expr_ids e"] by auto
  ultimately show ?case by auto
next
  case (BinaryExpression n a b op t)
  let ?s = "set_null n False s"
  have f: "frame [n] s ?s" by (auto simp: setter_defs)
  obtain s1 where s1: "calculate env row a ?s = Some (SUCCESS, s1)" "mapped sc s1 a" "current s1 a = int_value sc row a" "frame (expr_ids a) ?s s1"
    using BinaryExpression.IH(1)[of ?s] BinaryExpression.prems mapped_frame[OF f, of a] by auto
  have f1: "frame (n # expr_ids a) s s1" using frame_trans[OF f s1(4), of "n # expr_ids a"] by auto
  obtain s2 where s2: "calculate env row b s1 = Some (SUCCESS, s2)" "mapped sc s2 b" "current s2 b = int_value sc row b" "frame (expr_ids b) s1 s2"
    using BinaryExpression.IH(2)[of s1] BinaryExpression.prems mapped_frame[OF f1, of b] by auto
  have d: "set (expr_ids a) \<inter> set (expr_ids b) = {}"
    using BinaryExpression.prems(2) by auto
  then have "expr_id a \<notin> set (expr_ids b)"
    by (meson disjoint_iff expr_id_in_ids)
  then have a2: "current s2 a = int_value sc row a" "mapped sc s2 a"
    using s1(2,3) current_frame[OF s2(4), of a] mapped_frame[OF s2(4), of a] d by auto
  have same: "exprs s2 n = exprs ?s n"
    using s1(4) s2(4) BinaryExpression.prems(2) by (simp add: frame_def)
  let ?s3 = "if isCurrentNull s2 a \<or> isCurrentNull s2 b then set_null n True s2 else set_int n (int_op op (currentInt s2 a) (currentInt s2 b)) s2"
  have f3: "frame [n] s2 ?s3" by (auto simp: setter_defs)
  have "calculate env row (BinaryExpression n a b op t) s = Some (SUCCESS, ?s3)"
    using BinaryExpression.prems s1(1) s2(1) by (simp add: binary_calculate_def setter_defs binary_apply_int)
  moreover have "mapped sc ?s3 (BinaryExpression n a b op t)"
    using BinaryExpression.prems s2(2) a2(2) same mapped_frame[OF f3, of a] mapped_frame[OF f3, of b] by (auto simp: setter_defs)
  moreover have "current ?s3 (BinaryExpression n a b op t) = int_value sc row (BinaryExpression n a b op t)"
    using a2(1)[symmetric] s2(3)[symmetric] same by (auto simp: current_def isCurrentNull_def currentInt_def setter_defs)
  moreover have "frame (n # expr_ids a @ expr_ids b) s ?s3"
    using frame_trans[OF f1 frame_trans[OF s2(4) f3, of "n # expr_ids b"], of "n # expr_ids a @ expr_ids b"] by auto
  ultimately show ?case by auto
qed auto

end
