(* ===== verification/Ob_WhereProps.thy ===== *)
theory Ob_WhereProps
  imports Ob_CalcProps
begin

text \<open>
  Conditions on integer expressions: the predicate operator keeps exactly the rows that satisfy them, and the
  projection behind it yields the values of its expressions on these rows.
\<close>

section \<open>Conditions\<close>

definition int_unit :: "FilterUnit \<Rightarrow> bool" where
  "int_unit u = (case (fu_left u, fu_right u) of (Some l, Some r) \<Rightarrow> int_tree l \<and> int_tree r \<and> fu_comp u \<notin> {AND_OP, OR_OP} | _ \<Rightarrow> False)"

definition unit_exprs :: "FilterUnit \<Rightarrow> BaseExpression list" where
  "unit_exprs u = (case (fu_left u, fu_right u) of (Some l, Some r) \<Rightarrow> [l, r] | _ \<Rightarrow> [])"

definition tree_ids :: "BaseExpression list \<Rightarrow> nat list" where
  "tree_ids es = concat (map expr_ids es)"

text \<open>The meaning of a comparison, nulls included.\<close>

definition compare_values :: "int option \<Rightarrow> int option \<Rightarrow> CompOp \<Rightarrow> bool" where
  "compare_values x y op = (case (x, y) of
      (Some a, Some b) \<Rightarrow> numberComp a b op
    | (None, None) \<Rightarrow> op = IS
    | _ \<Rightarrow> op = IS_NOT)"

definition unit_holds :: "Schema list \<Rightarrow> Row \<Rightarrow> FilterUnit \<Rightarrow> bool" where
  "unit_holds sc row u = (case (fu_left u, fu_right u) of
      (Some l, Some r) \<Rightarrow> compare_values (int_value sc row l) (int_value sc row r) (fu_comp u)
    | _ \<Rightarrow> False)"

lemma int_unitE:
  assumes "int_unit u"
  obtains c l r lc rc where "u = FilterUnit c (Some l) (Some r) lc rc" "int_tree l" "int_tree r" "c \<notin> {AND_OP, OR_OP}"
  using assms by (cases u) (auto simp: int_unit_def split: option.splits)

lemma compare_int_exprs:
  assumes "int_tree l" "int_tree r" "set (expr_ids l) \<inter> set (expr_ids r) = {}"
    and "distinct (expr_ids l)" "distinct (expr_ids r)"
    and "mapped sc s l" "mapped sc s r" "int_row sc row l" "int_row sc row r"
  shows "\<exists>s'. expr_compare env (Some l) r op updL updR row s =
      Some ((SUCCESS, compare_values (int_value sc row l) (int_value sc row r) op), s') \<and>
    frame (expr_ids l @ expr_ids r) s s' \<and> mapped sc s' l \<and> mapped sc s' r"
proof -
  obtain s1 where s1: "calculate env row l s = Some (SUCCESS, s1)" "mapped sc s1 l" "current s1 l = int_value sc row l" "frame (expr_ids l) s s1"
    using calc_int_expr[OF assms(1,4,6,8)] by blast
  have "mapped sc s1 r"
    using mapped_frame[OF s1(4), of r] assms by auto
  then obtain s2 where s2: "calculate env row r s1 = Some (SUCCESS, s2)" "mapped sc s2 r" "current s2 r = int_value sc row r" "frame (expr_ids r) s1 s2"
    using calc_int_expr[OF assms(2,5) _ assms(9)] by blast
  have "expr_id l \<notin> set (expr_ids r)"
    using assms(3) by (meson disjoint_iff expr_id_in_ids)
  then have l2: "current s2 l = int_value sc row l" "mapped sc s2 l"
    using s1 current_frame[OF s2(4), of l] mapped_frame[OF s2(4), of l] assms(3) by auto
  have f: "frame (expr_ids l @ expr_ids r) s s2"
    using frame_trans[OF s1(4) s2(4), of "expr_ids l @ expr_ids r"] by auto
  have "expr_compare env (Some l) r op updL updR row s =
      Some ((SUCCESS, compare_values (current s2 l) (current s2 r) op), s2)"
    using s1(1) s2(1) assms(1,2)
    by (auto simp: expr_compare_def calculate_left_def current_type_def int_tree_type checkTypeMatch_def null_comp_def
        typed_comp_def compare_values_def current_def)
  then show ?thesis
    using l2 s2 f by auto
qed

section \<open>The conjunction as a test of rows\<close>

text \<open>A node of a tree has no expressions.\<close>

definition inner_unit :: "FilterUnit \<Rightarrow> bool" where
  "inner_unit u \<longleftrightarrow> fu_comp u \<in> {AND_OP, OR_OP} \<and> fu_left u = None \<and> fu_right u = None"

definition int_units :: "FilterUnit list \<Rightarrow> bool" where
  "int_units us \<longleftrightarrow> (\<forall>u\<in>set us. int_unit u \<or> inner_unit u) \<and> distinct (tree_ids (concat (map unit_exprs us)))"

definition units_mapped :: "Schema list \<Rightarrow> FilterUnit list \<Rightarrow> 'w QState \<Rightarrow> bool" where
  "units_mapped sc us s \<longleftrightarrow> (\<forall>e\<in>set (concat (map unit_exprs us)). mapped sc s e)"

definition units_fit :: "Schema list \<Rightarrow> FilterUnit list \<Rightarrow> Row \<Rightarrow> bool" where
  "units_fit sc us row \<longleftrightarrow> (\<forall>e\<in>set (concat (map unit_exprs us)). int_row sc row e)"

lemma unit_tester_decides:
  assumes "int_units us" "u \<in> set us" "units_mapped sc us s" "units_fit sc us row" "int_unit u"
  shows "\<exists>s'. tester_of env u row s = Some ((SUCCESS, unit_holds sc row u), s') \<and> units_mapped sc us s' \<and>
    frame (tree_ids (concat (map unit_exprs us))) s s'"
proof -
  obtain c l r lc rc where u: "u = FilterUnit c (Some l) (Some r) lc rc" "int_tree l" "int_tree r"
    using assms(5) by (rule int_unitE)
  let ?es = "concat (map unit_exprs us)"
  have lr: "unit_exprs u = [l, r]" by (simp add: u unit_exprs_def)
  obtain us1 us2 where us: "us = us1 @ u # us2" using assms(2) by (meson split_list)
  let ?A = "tree_ids (concat (map unit_exprs us1))" let ?B = "tree_ids (concat (map unit_exprs us2))"
  have ids: "tree_ids ?es = ?A @ expr_ids l @ expr_ids r @ ?B"
    by (simp add: us lr tree_ids_def)
  then have d: "distinct (expr_ids l)" "distinct (expr_ids r)" "set (expr_ids l) \<inter> set (expr_ids r) = {}"
      "set ?A \<inter> set (expr_ids l @ expr_ids r) = {}" "set ?B \<inter> set (expr_ids l @ expr_ids r) = {}"
    using assms(1) by (auto simp: int_units_def)
  obtain s' where s': "expr_compare env (Some l) r c (update env l) (update env r) row s =
      Some ((SUCCESS, compare_values (int_value sc row l) (int_value sc row r) c), s')"
      "frame (expr_ids l @ expr_ids r) s s'" "mapped sc s' l" "mapped sc s' r"
    using compare_int_exprs[OF u(2,3) d(3,1,2), of sc s row env c "update env l" "update env r"] assms(3,4) lr us
    by (auto simp: units_mapped_def units_fit_def)
  have "mapped sc s' e" if "e \<in> set ?es" for e
  proof (cases "e = l \<or> e = r")
    case False
    then have "set (expr_ids e) \<subseteq> set ?A \<union> set ?B"
      using that by (auto simp: us lr tree_ids_def)
    then have "set (expr_ids e) \<inter> set (expr_ids l @ expr_ids r) = {}"
      using d(4,5) by blast
    then show ?thesis
      using mapped_frame[OF s'(2), of e] assms(3) that by (auto simp: units_mapped_def)
  qed (use s' in auto)
  then have "units_mapped sc us s'" by (simp add: units_mapped_def)
  moreover have "frame (tree_ids ?es) s s'"
    using frame_trans[OF s'(2) frame_refl[of "[]"], of "tree_ids ?es"] ids by auto
  ultimately show ?thesis
    using s'(1) by (simp add: u unit_compare_def unit_holds_def)
qed

definition where_shape :: "FilterUnit list \<Rightarrow> bool \<Rightarrow> cond_tree \<Rightarrow> bool" where
  "where_shape us om t \<longleftrightarrow> int_units us \<and> (us = [] \<or> (if om then encodes us (int (length us) - 1) t else (\<forall>u\<in>set us. int_unit u)))"

text \<open>The meaning of a filter: its tree of conditions, or the conjunction of them.\<close>

definition where_holds :: "Schema list \<Rightarrow> FilterUnit list \<Rightarrow> bool \<Rightarrow> cond_tree \<Rightarrow> Row \<Rightarrow> bool" where
  "where_holds sc us om t row \<longleftrightarrow>
     us = [] \<or> (if om then tree_holds (\<lambda>j. unit_holds sc row (us ! j)) t else (\<forall>u\<in>set us. unit_holds sc row u))"

definition where_good :: "Schema list \<Rightarrow> FilterUnit list \<Rightarrow> bool \<Rightarrow> cond_tree \<Rightarrow> 'w QState \<Rightarrow> 'w QState \<Rightarrow> bool" where
  "where_good sc us om t s0 s \<longleftrightarrow> where_shape us om t \<and> units_mapped sc us s \<and> frame (tree_ids (concat (map unit_exprs us))) s0 s"

lemma encodes_leaves: "encodes us i t \<Longrightarrow> j \<in> leaves t \<Longrightarrow> j < length us \<and> fu_comp (us ! j) \<notin> {AND_OP, OR_OP}"
  by (induction t arbitrary: i) auto

lemma where_tester_good:
  assumes "where_good sc us om t s0 s" "u \<in> set us" "int_unit u" "units_fit sc us row"
  shows "\<exists>s'. tester_of env u row s = Some ((SUCCESS, unit_holds sc row u), s') \<and> where_good sc us om t s0 s'"
proof -
  let ?ids = "tree_ids (concat (map unit_exprs us))"
  obtain s' where s': "tester_of env u row s = Some ((SUCCESS, unit_holds sc row u), s')" "units_mapped sc us s'" "frame ?ids s s'"
    using unit_tester_decides[of us u sc s row env] assms by (auto simp: where_good_def where_shape_def)
  then show ?thesis
    using assms(1) frame_trans[of ?ids s0 s ?ids s' ?ids] by (auto simp: where_good_def)
qed

lemma where_decides:
  assumes "where_good sc us om t s0 s" "units_fit sc us row"
  shows "\<exists>s'. test_row us om (map (tester_of env) us) row s = Some ((SUCCESS, where_holds sc us om t row), s') \<and>
    where_good sc us om t s0 s'"
proof (cases "us = []")
  case False
  show ?thesis
  proof (cases om)
    case True
    then have e: "encodes us (int (length us) - 1) t" and i: "int_units us"
      using assms(1) False by (auto simp: where_good_def where_shape_def)
    have "\<exists>s'. (map (tester_of env) us ! j) row s = Some ((SUCCESS, unit_holds sc row (us ! j)), s') \<and> where_good sc us om t s0 s'"
      if "j \<in> leaves t" "where_good sc us om t s0 s" for j s
    proof -
      have "j < length us" "int_unit (us ! j)"
        using encodes_leaves[OF e that(1)] i nth_mem[of j us] by (auto simp: int_units_def inner_unit_def)
      then show ?thesis using where_tester_good[OF that(2) _ _ assms(2)] by simp
    qed
    then show ?thesis
      using filter_row_tree_decides[where good = "where_good sc us om t s0", OF e _ assms(1),
          of "map (tester_of env) us" row "\<lambda>j. unit_holds sc row (us ! j)"] False True
      by (simp add: test_row_def where_holds_def)
  next
    case False
    let ?ts = "map (\<lambda>u. (tester_of env u, \<lambda>row. unit_holds sc row u)) us"
    have "\<forall>u\<in>set us. int_unit u"
      using assms(1) False \<open>us \<noteq> []\<close> by (simp add: where_good_def where_shape_def)
    then have "\<exists>s'. all_units (map fst ?ts) row True s = Some ((SUCCESS, \<forall>(t, P)\<in>set ?ts. P row), s') \<and> where_good sc us om t s0 s'"
      using assms where_tester_good by (intro all_units_decides[where fit = "units_fit sc us"]) (auto, blast)
    then show ?thesis
      using False \<open>us \<noteq> []\<close> by (simp add: test_row_def where_holds_def comp_def)
  qed
qed (use assms in \<open>simp add: test_row_def where_holds_def\<close>)

interpretation int_where: row_test "test_row us om (map (tester_of env) us)" "where_holds sc us om t" "units_fit sc us"
  "where_good sc us om t s0" for us om env sc t s0
  by unfold_locales (rule where_decides)

lemma set_father_int: "eo = None \<or> (\<exists>e. eo = Some e \<and> int_tree e) \<Longrightarrow> set_father sc row eo s = s"
  by (auto simp: set_father_def split: BaseExpression.splits)

lemma filter_row_int: "int_unit u \<or> inner_unit u \<Longrightarrow> filter_row sc u cmp = cmp"
  by (intro ext, unfold filter_row_def) (auto simp: set_father_int inner_unit_def elim!: int_unitE)

lemma int_testers: "int_units us \<Longrightarrow> map2 (filter_row sc) us (map f us) = map f us"
  by (intro nth_equalityI) (auto simp: int_units_def filter_row_int)

section \<open>Mapping several expressions\<close>

definition ready :: "Schema list \<Rightarrow> BaseExpression list \<Rightarrow> 'w QState \<Rightarrow> bool" where
  "ready sc es s \<longleftrightarrow> (\<forall>e\<in>set es. int_tree e \<and> parsed s e \<and> resolvable sc e)"

lemma tree_ids_Cons [simp]: "tree_ids (e # es) = expr_ids e @ tree_ids es"
  by (simp add: tree_ids_def)

lemma ready_frame:
  assumes "frame ns s s'" "set ns \<inter> set (tree_ids es) = {}" "ready sc es s"
  shows "ready sc es s'"
proof -
  have "parsed s' e = parsed s e" if "e \<in> set es" for e
  proof -
    have "set (expr_ids e) \<subseteq> set (tree_ids es)"
      using that by (auto simp: tree_ids_def)
    then show ?thesis
      using assms(2) by (intro parsed_frame[OF assms(1)]) blast
  qed
  then show ?thesis using assms(3) by (simp add: ready_def)
qed

lemma exprs_map:
  assumes "distinct (tree_ids es)" "ready (rel_schemas r) es s"
  shows "\<exists>s'. exprs_mapToRelation r es s = Some (SUCCESS, s') \<and> (\<forall>e\<in>set es. mapped (rel_schemas r) s' e) \<and> frame (tree_ids es) s s'"
  using assms
proof (induction es arbitrary: s)
  case (Cons e es)
  obtain s1 where s1: "mapToRelation r e s = Some (SUCCESS, s1)" "mapped (rel_schemas r) s1 e" "frame (expr_ids e) s s1"
    using map_int_expr[of e s r] Cons.prems by (auto simp: ready_def)
  have "ready (rel_schemas r) es s1"
    using ready_frame[OF s1(3), of es "rel_schemas r"] Cons.prems by (simp add: ready_def)
  then obtain s2 where s2: "exprs_mapToRelation r es s1 = Some (SUCCESS, s2)" "\<forall>e\<in>set es. mapped (rel_schemas r) s2 e" "frame (tree_ids es) s1 s2"
    using Cons.IH[of s1] Cons.prems by auto
  have "mapped (rel_schemas r) s2 e"
    using mapped_frame[OF s2(3), of e] s1(2) Cons.prems by auto
  then show ?case
    using s1 s2 frame_trans[OF s1(3) s2(3), of "tree_ids (e # es)"] by auto
qed simp

lemma exprs_map_append:
  "exprs_mapToRelation r (a @ b) s =
     Option.bind (exprs_mapToRelation r a s) (\<lambda>(rc, s). if rc \<noteq> SUCCESS then Some (rc, s) else exprs_mapToRelation r b s)"
  by (induction a arbitrary: s) (auto split: bind_splits)

lemma unit_map_exprs: "int_unit u \<or> inner_unit u \<Longrightarrow> unit_mapToRelation r u s = exprs_mapToRelation r (unit_exprs u) s"
  by (auto simp: unit_mapToRelation_def unit_exprs_def inner_unit_def elim!: int_unitE split: bind_splits)

lemma units_map_exprs:
  "\<forall>u\<in>set us. int_unit u \<or> inner_unit u \<Longrightarrow> units_mapToRelation r us s = exprs_mapToRelation r (concat (map unit_exprs us)) s"
proof (induction us arbitrary: s)
  case (Cons u us)
  then show ?case
    by (simp add: exprs_map_append unit_map_exprs cong: if_cong)
qed simp

section \<open>The predicate operator\<close>

lemma predicate_int:
  assumes "evaluate env q s = Some ((SUCCESS, Some r), s1)" "where_shape us om t"
    and "sc = rel_schemas r @ op_schemaOfFather (opers s1 n)" "father = op_rowFromFather (opers s1 n)"
    and "ready sc (concat (map unit_exprs us)) s1"
    and "\<forall>row\<in>set (rel_rows r). length row = length (rel_schemas r) \<and> units_fit sc us (row @ father)"
  shows "\<exists>s2. evaluate env (PredicateOperator1 n q (FilterStmt us om)) s =
      Some ((SUCCESS, Some \<lparr>rel_rows = filter (\<lambda>row. where_holds sc us om t (row @ father)) (rel_rows r),
          rel_schemas = rel_schemas r, rel_multiTable = op_multiTable (opers s1 n)\<rparr>), s2) \<and>
    frame (tree_ids (concat (map unit_exprs us))) s1 s2"
proof -
  let ?es = "concat (map unit_exprs us)"
  have iu: "int_units us" using assms(2) by (simp add: where_shape_def)
  obtain s2 where s2: "units_mapToRelation (new_relation sc) us s1 = Some (SUCCESS, s2)" "\<forall>e\<in>set ?es. mapped sc s2 e" "frame (tree_ids ?es) s1 s2"
    using exprs_map[of ?es "new_relation sc" s1] iu assms(5) units_map_exprs[of us "new_relation sc" s1]
    by (auto simp: int_units_def new_relation_def)
  have g: "where_good sc us om t s1 s2"
    using assms(2) s2 by (simp add: where_good_def units_mapped_def)
  have "\<exists>s3. predicate_rows (test_row us om (map (tester_of env) us)) (\<lambda>s. op_rowFromFather (opers s n)) (rel_rows r)
      (new_relation (rel_schemas r)) s2 =
      Some ((SUCCESS, Some ((new_relation (rel_schemas r))\<lparr>rel_rows := rel_rows (new_relation (rel_schemas r)) @
          filter (\<lambda>row. where_holds sc us om t (row @ father)) (rel_rows r)\<rparr>)), s3) \<and> where_good sc us om t s1 s3"
    using assms(4,6) by (intro int_where.predicate_rows_filter g) (auto simp: where_good_def frame_def new_relation_def)
  then obtain s3 where s3: "predicate_rows (test_row us om (map (tester_of env) us)) (\<lambda>s. op_rowFromFather (opers s n)) (rel_rows r)
      (new_relation (rel_schemas r)) s2 =
      Some ((SUCCESS, Some \<lparr>rel_rows = filter (\<lambda>row. where_holds sc us om t (row @ father)) (rel_rows r),
          rel_schemas = rel_schemas r, rel_multiTable = False\<rparr>), s3)" "where_good sc us om t s1 s3"
    by (auto simp: new_relation_def)
  have "op_multiTable (opers s3 n) = op_multiTable (opers s1 n)"
    using s3(2) by (simp add: where_good_def frame_def)
  then show ?thesis
    using assms(1,3) s2(1) s3 by (auto simp: predicate_evaluate_def Let_def int_testers[OF iu] set_multi_def where_good_def)
qed

section \<open>The projection\<close>

definition int_item :: "int option \<Rightarrow> Item" where
  "int_item v = (case v of None \<Rightarrow> NullItem | Some i \<Rightarrow> IntItem i False)"

definition value_row :: "Schema list \<Rightarrow> BaseExpression list \<Rightarrow> Row \<Rightarrow> Row" where
  "value_row sc es row = map (\<lambda>e. int_item (int_value sc row e)) es"

lemma toItem_current: "int_tree e \<Longrightarrow> toItem s e = Some (int_item (current s e))"
  by (auto simp: toItem_def int_tree_type int_item_def current_def)

lemma constructRow_int:
  assumes "distinct (tree_ids es)" "\<forall>e\<in>set es. int_tree e \<and> mapped sc s e \<and> int_row sc row e"
  shows "\<exists>s'. constructRow env es row s = Some ((SUCCESS, value_row sc es row), s') \<and> (\<forall>e\<in>set es. mapped sc s' e) \<and> frame (tree_ids es) s s'"
  using assms
proof (induction es arbitrary: s)
  case (Cons e es)
  obtain s1 where s1: "calculate env row e s = Some (SUCCESS, s1)" "mapped sc s1 e" "current s1 e = int_value sc row e" "frame (expr_ids e) s s1"
    using calc_int_expr[of e sc s row env] Cons.prems by auto
  have "mapped sc s1 e'" if "e' \<in> set es" for e'
  proof -
    have "set (expr_ids e') \<subseteq> set (tree_ids es)" using that by (auto simp: tree_ids_def)
    then show ?thesis
      using mapped_frame[OF s1(4), of e' sc] Cons.prems that by auto
  qed
  then obtain s2 where s2: "constructRow env es row s1 = Some ((SUCCESS, value_row sc es row), s2)" "\<forall>e\<in>set es. mapped sc s2 e" "frame (tree_ids es) s1 s2"
    using Cons.IH[of s1] Cons.prems by auto
  have "mapped sc s2 e"
    using mapped_frame[OF s2(3), of e] s1(2) Cons.prems by auto
  then show ?case
    using s1 s2 Cons.prems frame_trans[OF s1(4) s2(3), of "tree_ids (e # es)"] by (auto simp: toItem_current value_row_def)
qed (simp add: value_row_def)

lemma project_rows_int:
  assumes "distinct (tree_ids es)" "\<forall>e\<in>set es. int_tree e \<and> mapped sc s e" "length (rel_schemas ret) = length es"
    and "\<forall>row\<in>set rows. \<forall>e\<in>set es. int_row sc (row @ father) e"
  shows "\<exists>s'. project_rows env es father rows ret s =
      Some ((SUCCESS, Some (ret\<lparr>rel_rows := rel_rows ret @ map (\<lambda>row. value_row sc es (row @ father)) rows\<rparr>)), s') \<and> frame (tree_ids es) s s'"
  using assms
proof (induction rows arbitrary: s ret)
  case (Cons row rows)
  let ?row = "value_row sc es (row @ father)" let ?ret = "ret\<lparr>rel_rows := rel_rows ret @ [?row]\<rparr>"
  obtain s1 where s1: "constructRow env es (row @ father) s = Some ((SUCCESS, ?row), s1)" "\<forall>e\<in>set es. mapped sc s1 e" "frame (tree_ids es) s s1"
    using constructRow_int[of es sc s "row @ father" env] Cons.prems by auto
  obtain s2 where s2: "project_rows env es father rows ?ret s1 =
      Some ((SUCCESS, Some (?ret\<lparr>rel_rows := rel_rows ?ret @ map (\<lambda>row. value_row sc es (row @ father)) rows\<rparr>)), s2)" "frame (tree_ids es) s1 s2"
    using Cons.IH[of s1 ?ret] Cons.prems s1(2) by auto
  have "rel_insertRow ?row ret = (SUCCESS, ?ret)"
    using Cons.prems(3) by (simp add: rel_insertRow_def value_row_def)
  then show ?case
    using s1 s2 frame_trans[OF s1(3) s2(2), of "tree_ids es"] by (auto simp: row_insertRow_def)
qed simp

lemma map_expressions_exprs:
  "exprs_mapToRelation r es s = Some (SUCCESS, s') \<Longrightarrow>
     \<exists>schemas. map_expressions r es s = Some ((SUCCESS, schemas), s') \<and> map sc_expr schemas = map Some es"
  by (induction es arbitrary: s) (fastforce simp: schema_of_def split: bind_splits if_splits)+

lemma project_int:
  assumes "evaluate env q s = Some ((SUCCESS, Some r), s1)" "distinct (tree_ids es)"
    and "sc = rel_schemas r @ op_schemaOfFather (opers s1 n)" "father = op_rowFromFather (opers s1 n)"
    and "ready sc es s1" "\<forall>row\<in>set (rel_rows r). \<forall>e\<in>set es. int_row sc (row @ father) e"
  shows "\<exists>schemas s2. evaluate env (TransformerAndProjectOperator n q es) s =
      Some ((SUCCESS, Some \<lparr>rel_rows = map (\<lambda>row. value_row sc es (row @ father)) (rel_rows r), rel_schemas = schemas,
          rel_multiTable = op_multiTable (opers s1 n)\<rparr>), s2) \<and>
    map sc_expr schemas = map Some es \<and> frame (tree_ids es) s1 s2"
proof -
  obtain s2 where s2: "exprs_mapToRelation (new_relation sc) es s1 = Some (SUCCESS, s2)" "\<forall>e\<in>set es. mapped sc s2 e" "frame (tree_ids es) s1 s2"
    using exprs_map[of es "new_relation sc" s1] assms(2,5) by (auto simp: new_relation_def)
  obtain schemas where m: "map_expressions (new_relation sc) es s1 = Some ((SUCCESS, schemas), s2)" "map sc_expr schemas = map Some es"
    using map_expressions_exprs[OF s2(1)] by blast
  have len: "length (rel_schemas (new_relation schemas)) = length es"
    using arg_cong[OF m(2), of length] by (simp add: new_relation_def)
  have "op_rowFromFather (opers s2 n) = father" "op_multiTable (opers s2 n) = op_multiTable (opers s1 n)"
    using s2(3) assms(4) by (simp_all add: frame_def)
  moreover obtain s3 where s3: "project_rows env es father (rel_rows r) (new_relation schemas) s2 =
      Some ((SUCCESS, Some ((new_relation schemas)\<lparr>rel_rows := rel_rows (new_relation schemas) @ map (\<lambda>row. value_row sc es (row @ father)) (rel_rows r)\<rparr>)), s3)"
      "frame (tree_ids es) s2 s3"
    using project_rows_int[OF assms(2) _ len assms(6), of s2 env] s2(2) assms(5) by (auto simp: ready_def)
  moreover have "op_multiTable (opers s3 n) = op_multiTable (opers s2 n)"
    using s3(2) by (simp add: frame_def)
  ultimately show ?thesis
    using assms(1,3) m frame_trans[OF s2(3) s3(2), of "tree_ids es"]
    by (simp add: project_evaluate_def Let_def set_multi_def new_relation_def)
qed

section \<open>Both together\<close>

lemma select_int_rows:
  assumes "evaluate env q s = Some ((SUCCESS, Some r), s1)"
    and "where_shape us om t" "distinct (tree_ids (es @ concat (map unit_exprs us)))"
    and "op_schemaOfFather (opers s1 n) = []" "op_rowFromFather (opers s1 n) = []"
    and "op_schemaOfFather (opers s1 m) = []" "op_rowFromFather (opers s1 m) = []"
    and "ready (rel_schemas r) (es @ concat (map unit_exprs us)) s1"
    and "\<forall>row\<in>set (rel_rows r). length row = length (rel_schemas r) \<and>
      (\<forall>e\<in>set (es @ concat (map unit_exprs us)). int_row (rel_schemas r) row e)"
  shows "\<exists>schemas s2. evaluate env (TransformerAndProjectOperator m (PredicateOperator1 n q (FilterStmt us om)) es) s =
      Some ((SUCCESS, Some \<lparr>rel_rows = map (value_row (rel_schemas r) es) (filter (where_holds (rel_schemas r) us om t) (rel_rows r)),
          rel_schemas = schemas, rel_multiTable = op_multiTable (opers s1 m)\<rparr>), s2) \<and>
    map sc_expr schemas = map Some es"
proof -
  let ?us = "concat (map unit_exprs us)" let ?sc = "rel_schemas r"
  have p: "\<exists>s2. evaluate env (PredicateOperator1 n q (FilterStmt us om)) s =
      Some ((SUCCESS, Some \<lparr>rel_rows = filter (\<lambda>row. where_holds ?sc us om t (row @ [])) (rel_rows r),
          rel_schemas = ?sc, rel_multiTable = op_multiTable (opers s1 n)\<rparr>), s2) \<and> frame (tree_ids ?us) s1 s2"
    using assms by (intro predicate_int) (auto simp: ready_def units_fit_def)
  then obtain s2 where s2: "evaluate env (PredicateOperator1 n q (FilterStmt us om)) s =
      Some ((SUCCESS, Some \<lparr>rel_rows = filter (where_holds ?sc us om t) (rel_rows r),
          rel_schemas = ?sc, rel_multiTable = op_multiTable (opers s1 n)\<rparr>), s2)" "frame (tree_ids ?us) s1 s2"
    by auto
  have d: "distinct (tree_ids es)" "set (tree_ids ?us) \<inter> set (tree_ids es) = {}"
    using assms(3) by (auto simp: tree_ids_def)
  have o: "opers s2 = opers s1" using s2(2) by (simp add: frame_def)
  have "ready ?sc es s2"
    using assms(8) by (intro ready_frame[OF s2(2) d(2)]) (simp add: ready_def)
  then show ?thesis
    using project_int[OF s2(1) d(1), of ?sc m "[]"] assms(6,7,9) o by auto
qed

text \<open>
  C3.  A query that selects integer expressions under a condition built from comparisons of integer expressions
  with \<^verbatim>\<open>AND\<close> and \<^verbatim>\<open>OR\<close> returns: for each row of its source that satisfies the condition, in their order, the
  values of its expressions, where arithmetic wraps around, an operation with a null operand is null and a
  comparison with null is only true for \<^verbatim>\<open>IS\<close> and \<^verbatim>\<open>IS NOT\<close>.  The result does not depend on the values the
  objects of the query held before.
\<close>

theorem select_correct:
  assumes "evaluate env q s = Some ((SUCCESS, Some r), s1)"
    and "where_shape us om t" "distinct (tree_ids (es @ concat (map unit_exprs us)))"
    and "op_schemaOfFather (opers s1 n) = []" "op_rowFromFather (opers s1 n) = []"
    and "op_schemaOfFather (opers s1 m) = []" "op_rowFromFather (opers s1 m) = []"
    and "ready (rel_schemas r) (es @ concat (map unit_exprs us)) s1"
    and "\<forall>row\<in>set (rel_rows r). length row = length (rel_schemas r) \<and>
      (\<forall>e\<in>set (es @ concat (map unit_exprs us)). int_row (rel_schemas r) row e)"
  shows "\<exists>schemas s2. evaluate env (TransformerAndProjectOperator m (PredicateOperator1 n q (FilterStmt us om)) es) s =
      Some ((SUCCESS, Some \<lparr>rel_rows = map (value_row (rel_schemas r) es) (filter (where_holds (rel_schemas r) us om t) (rel_rows r)),
          rel_schemas = schemas, rel_multiTable = op_multiTable (opers s1 m)\<rparr>), s2) \<and>
    map sc_expr schemas = map Some es"
  by (rule select_int_rows[OF assms])

text \<open>\<^verbatim>\<open>SELECT a + 1 ... WHERE a > 2 OR a = 1\<close> on the rows 1, 2, null and 3.\<close>

definition demo_a :: "nat \<Rightarrow> BaseExpression" where
  "demo_a n = IdentifierExpression n ''t'' ''a'' INTS"

definition demo_units :: "FilterUnit list" where
  "demo_units = [FilterUnit GREAT_THAN (Some (demo_a 1)) (Some (ConstExpression 2 ''2'' INTS)) (- 1) (- 1),
     FilterUnit EQUAL_TO (Some (demo_a 3)) (Some (ConstExpression 4 ''1'' INTS)) (- 1) (- 1),
     FilterUnit OR_OP None None 0 1]"

definition demo_sum :: BaseExpression where
  "demo_sum = BinaryExpression 5 (demo_a 6) (ConstExpression 7 ''1'' INTS) OP_ADD INTS"

definition demo_rows :: Relation where
  "demo_rows = int_relation ''a'' [(1, False), (2, False), (0, True), (3, False)]"

definition demo_select_state :: "unit QState" where
  "demo_select_state = demo_state (\<lambda>n. demo_obj\<lparr>intValue := if n = 2 then 2 else 1\<rparr>) [1 \<mapsto> demo_rows]"

lemma literal_digits: "atoi ''1'' = Some 1" "atoi ''2'' = Some 2"
  by (simp_all add: atoi_def dec_value_def is_digit_char_def)

lemma select_correct_witness:
  "\<exists>schemas s. evaluate demo_env (TransformerAndProjectOperator 3 (PredicateOperator1 2 (ScanOperator 1 1 []) (FilterStmt demo_units True)) [demo_sum])
      demo_select_state =
    Some ((SUCCESS, Some \<lparr>rel_rows = [[IntItem 2 False], [IntItem 4 False]], rel_schemas = schemas, rel_multiTable = False\<rparr>), s) \<and>
    map sc_expr schemas = [Some demo_sum]"
proof -
  let ?es = "[demo_sum] @ concat (map unit_exprs demo_units)"
  have c: "find_column ''t.a'' (rel_schemas demo_rows) 0 = Some 0" "find_column ''t.a+1'' (rel_schemas demo_rows) 0 = Some (- 1)"
    by (simp_all add: demo_rows_def int_relation_def demo_column_def)
  have q: "evaluate demo_env (ScanOperator 1 1 []) demo_select_state = Some ((SUCCESS, Some demo_rows), demo_select_state)"
    by (simp add: scan_evaluate_def demo_select_state_def demo_state_def)
  have es: "?es = [demo_sum, demo_a 1, ConstExpression 2 ''2'' INTS, demo_a 3, ConstExpression 4 ''1'' INTS]"
    by (simp add: demo_units_def unit_exprs_def)
  have w: "where_shape demo_units True (Or (Leaf 0) (Leaf 1))"
    by (simp add: where_shape_def int_units_def demo_units_def int_unit_def inner_unit_def unit_exprs_def tree_ids_def demo_a_def literal_digits)
  have d: "distinct (tree_ids ?es)"
    unfolding es by (simp add: tree_ids_def demo_a_def demo_sum_def)
  have r: "ready (rel_schemas demo_rows) ?es demo_select_state"
    unfolding es by (simp add: ready_def demo_a_def demo_sum_def literal_digits demo_select_state_def demo_state_def demo_obj_def c opToString_def)
  have i: "\<forall>row\<in>set (rel_rows demo_rows). length row = length (rel_schemas demo_rows) \<and> (\<forall>e\<in>set ?es. int_row (rel_schemas demo_rows) row e)"
    unfolding es using c by (auto simp: demo_rows_def int_relation_def demo_a_def demo_sum_def row_at_def)
  have v: "map (value_row (rel_schemas demo_rows) [demo_sum]) (filter (where_holds (rel_schemas demo_rows) demo_units True (Or (Leaf 0) (Leaf 1))) (rel_rows demo_rows)) =
      [[IntItem 2 False], [IntItem 4 False]]"
    using c by (simp add: where_holds_def unit_holds_def demo_units_def compare_values_def numberComp_def value_row_def int_item_def demo_a_def demo_sum_def
        column_value_def demo_rows_def int_relation_def row_at_def literal_digits int_op_def)
  show ?thesis
    using select_correct[OF q w d, of 2 3] r i v by (simp add: demo_select_state_def demo_state_def demo_oper_def)
qed

end
