(* ===== verification/Ob_AggProps.thy ===== *)
theory Ob_AggProps
  imports Ob_WhereProps
begin

text \<open>
  Aggregates over integer expressions without groups: the one row that the operator returns holds the count, the
  sum and the extrema of the values; a null behind a value makes \<^verbatim>\<open>MAX\<close> and \<^verbatim>\<open>MIN\<close> throw.
\<close>

section \<open>The reference\<close>

abbreviation no_key :: string where
  "no_key \<equiv> ''non#key#set#''"

definition int_aggs :: "AggKind set" where
  "int_aggs = {AggMax, AggMin, AggSum, AggCount, AggCountStar}"

definition pick :: "AggKind \<Rightarrow> int \<Rightarrow> int \<Rightarrow> int" where
  "pick k = (if k = AggMax then max else min)"

definition present :: "int option list \<Rightarrow> int list" where
  "present vs = map the (filter (\<lambda>v. v \<noteq> None) vs)"

text \<open>The value of an aggregate for the values of its expression; \<open>None\<close> is an exception.\<close>

definition agg_result :: "AggKind \<Rightarrow> int option list \<Rightarrow> Item option" where
  "agg_result k vs =
     (if k = AggCount \<or> k = AggCountStar then Some (IntItem (int (length (present vs))) False)
      else if k = AggSum then Some (if present vs = [] then NullItem else IntItem (wrap32 (sum_list (present vs))) False)
      else case dropWhile (\<lambda>v. v = None) vs of
        [] \<Rightarrow> Some NullItem
      | w # ws \<Rightarrow> if None \<in> set ws then None else Some (IntItem (fold (pick k) (map the ws) (the w)) False))"

section \<open>One row\<close>

text \<open>The change of the object of the aggregate by one value.\<close>

definition put_item :: "Item \<Rightarrow> EObj \<Rightarrow> EObj" where
  "put_item item x = x\<lparr>context_map := (context_map x)(no_key \<mapsto> item)\<rparr>"

definition add_key :: "EObj \<Rightarrow> EObj" where
  "add_key x = x\<lparr>order_keys := order_keys x @ [no_key]\<rparr>"

definition tick :: "EObj \<Rightarrow> EObj" where
  "tick x = x\<lparr>count_map := (count_map x)(no_key \<mapsto> wrap32 ((case count_map x no_key of Some c \<Rightarrow> c | None \<Rightarrow> 0) + 1))\<rparr>"

definition extremum_step :: "AggKind \<Rightarrow> int option \<Rightarrow> EObj \<Rightarrow> EObj option" where
  "extremum_step k v x = (case context_map x no_key of
      None \<Rightarrow> Some (put_item (int_item v) (add_key x))
    | Some old \<Rightarrow>
        if item_isNull old then Some (put_item (int_item v) x)
        else map_option (\<lambda>b. if b then put_item (int_item v) x else x) (better k INTS old (int_item v)))"

definition sum_step :: "int option \<Rightarrow> EObj \<Rightarrow> EObj" where
  "sum_step v x = (case sum_int x no_key of
      None \<Rightarrow> (add_key x)\<lparr>sum_int := (sum_int x)(no_key \<mapsto> case v of Some v \<Rightarrow> v | None \<Rightarrow> 0),
          count_map := (count_map x)(no_key \<mapsto> case v of Some _ \<Rightarrow> 1 | None \<Rightarrow> 0)\<rparr>
    | Some a \<Rightarrow> (case v of None \<Rightarrow> x | Some v \<Rightarrow> tick (x\<lparr>sum_int := (sum_int x)(no_key \<mapsto> wrap32 (a + v))\<rparr>)))"

definition count_step :: "int option \<Rightarrow> EObj \<Rightarrow> EObj" where
  "count_step v x = (case count_map x no_key of
      None \<Rightarrow> (add_key x)\<lparr>count_map := (count_map x)(no_key \<mapsto> case v of Some _ \<Rightarrow> 1 | None \<Rightarrow> 0)\<rparr>
    | Some _ \<Rightarrow> (case v of None \<Rightarrow> x | Some _ \<Rightarrow> tick x))"

definition agg_step :: "AggKind \<Rightarrow> int option \<Rightarrow> EObj \<Rightarrow> EObj option" where
  "agg_step k v x =
     (if k = AggCount \<or> k = AggCountStar then Some (count_step v x)
      else if k = AggSum then Some (sum_step v x)
      else extremum_step k v x)"

lemma upd_expr_cong: "f (exprs s n) = g (exprs s n) \<Longrightarrow> upd_expr n f s = upd_expr n g s"
  by (simp add: upd_expr_def)

lemma upd_expr_same [simp]: "upd_expr n (\<lambda>x. exprs s n) s = s"
  by (simp add: upd_expr_def)

lemma upd_expr_twice [simp]: "upd_expr n f (upd_expr n g s) = upd_expr n (\<lambda>x. f (g x)) s"
  by (simp add: upd_expr_def)

lemma treat_extremum_step:
  assumes "int_tree e" "eo_type (exprs s n) = INTS"
  shows "treat_extremum n k e no_key s = map_option (\<lambda>x. (SUCCESS, upd_expr n (\<lambda>_. x) s)) (extremum_step k (current s e) (exprs s n))"
proof (cases "context_map (exprs s n) no_key")
  case None
  have "put_context n no_key item (push_order n no_key s) = upd_expr n (\<lambda>_. put_item item (add_key (exprs s n))) s" for item
    by (simp add: put_context_def push_order_def put_item_def add_key_def upd_expr_def)
  then show ?thesis
    using assms None by (simp add: treat_extremum_def extremum_step_def toItem_current)
next
  case (Some old)
  have p: "put_context n no_key item s = upd_expr n (\<lambda>_. put_item item (exprs s n)) s" for item
    by (simp add: put_context_def put_item_def upd_expr_def)
  show ?thesis
    using assms Some by (cases "better k INTS old (int_item (current s e))")
      (simp_all add: treat_extremum_def extremum_step_def toItem_current p)
qed

lemma treat_sum_step:
  assumes "int_tree e"
  shows "treat_sum env n e no_key s = (SUCCESS, upd_expr n (\<lambda>_. sum_step (current s e) (exprs s n)) s)"
proof -
  have "add_int n no_key (isCurrentNull s e) (currentInt s e) s = upd_expr n (\<lambda>_. sum_step (current s e) (exprs s n)) s"
    by (cases "sum_int (exprs s n) no_key"; cases "isCurrentNull s e")
      (simp_all add: add_int_def sum_step_def current_def put_count_def push_order_def add_key_def tick_def count_of_def upd_expr_def)
  then show ?thesis
    using assms by (simp add: treat_sum_def int_tree_type)
qed

lemma treat_count_step: "treat_count n e no_key s = (SUCCESS, upd_expr n (\<lambda>_. count_step (current s e) (exprs s n)) s)"
  by (cases "count_map (exprs s n) no_key"; cases "isCurrentNull s e")
    (simp_all add: treat_count_def count_step_def current_def put_count_def push_order_def add_key_def tick_def upd_expr_def)

text \<open>What the treatment of rows needs of the aggregate and of the store.\<close>

definition agg_fits :: "Schema list \<Rightarrow> nat \<Rightarrow> AggKind \<Rightarrow> BaseExpression \<Rightarrow> 'w QState \<Rightarrow> bool" where
  "agg_fits sc n k e s \<longleftrightarrow> k \<in> int_aggs \<and> int_tree e \<and> distinct (n # expr_ids e) \<and> mapped sc s e \<and> eo_type (exprs s n) = INTS"

lemma treatRow_step:
  assumes "agg_fits sc n k e s" "int_row sc row e"
  shows "\<exists>s'. frame (expr_ids e) s s' \<and> mapped sc s' e \<and> exprs s' n = exprs s n \<and>
    treatRow env r n k e [] row s =
      map_option (\<lambda>x. (SUCCESS, upd_expr n (\<lambda>_. x) s')) (agg_step k (int_value sc row e) (exprs s n))"
proof -
  obtain s1 where s1: "calculate env row e s = Some (SUCCESS, s1)" "mapped sc s1 e" "current s1 e = int_value sc row e" "frame (expr_ids e) s s1"
    using calc_int_expr[of e sc s row env] assms by (auto simp: agg_fits_def)
  have n: "exprs s1 n = exprs s n"
    using s1(4) assms(1) by (simp add: frame_def agg_fits_def)
  have k: "keyed env e [] row body s = body no_key s1" for body
    using s1(1) by (simp add: keyed_def group_key_def)
  have "treatRow env r n k e [] row s = map_option (\<lambda>x. (SUCCESS, upd_expr n (\<lambda>_. x) s1)) (agg_step k (int_value sc row e) (exprs s n))"
    using assms(1) n s1(3) treat_extremum_step[of e s1 n k] treat_sum_step[of e env n s1] treat_count_step[of n e s1]
    by (auto simp: agg_fits_def int_aggs_def treatRow_def agg_step_def max_treatRow_def min_treatRow_def sum_treatRow_def count_treatRow_def k)
  then show ?thesis using s1 n by blast
qed


section \<open>All rows\<close>

fun agg_steps :: "AggKind \<Rightarrow> int option list \<Rightarrow> EObj \<Rightarrow> EObj option" where
  "agg_steps k [] x = Some x"
| "agg_steps k (v # vs) x = Option.bind (agg_step k v x) (agg_steps k vs)"

lemma agg_step_type: "agg_step k v x = Some y \<Longrightarrow> eo_type y = eo_type x"
  by (auto simp: agg_step_def extremum_step_def sum_step_def count_step_def put_item_def add_key_def tick_def split: option.splits if_splits)

lemma treat_rows_steps:
  assumes "agg_fits sc n k e s" "\<forall>row\<in>set rows. int_row sc row e"
  shows "case agg_steps k (map (\<lambda>row. int_value sc row e) rows) (exprs s n) of
      None \<Rightarrow> treat_rows (\<lambda>s row. treatRow env r n k e [] row s) rows s = None
    | Some x \<Rightarrow> \<exists>s'. treat_rows (\<lambda>s row. treatRow env r n k e [] row s) rows s = Some (SUCCESS, s') \<and>
        exprs s' n = x \<and> frame (n # expr_ids e) s s'"
  using assms
proof (induction rows arbitrary: s)
  case (Cons row rows)
  obtain s1 where s1: "frame (expr_ids e) s s1" "mapped sc s1 e" "exprs s1 n = exprs s n"
      "treatRow env r n k e [] row s = map_option (\<lambda>x. (SUCCESS, upd_expr n (\<lambda>_. x) s1)) (agg_step k (int_value sc row e) (exprs s n))"
    using treatRow_step[of sc n k e s row env r] Cons.prems by auto
  show ?case
  proof (cases "agg_step k (int_value sc row e) (exprs s n)")
    case None
    then show ?thesis using s1(4) by simp
  next
    case (Some x)
    let ?s = "upd_expr n (\<lambda>_. x) s1"
    have f: "frame [n] s1 ?s" by simp
    have fits: "agg_fits sc n k e ?s"
      using Cons.prems(1) s1(2) mapped_frame[OF f, of e sc] agg_step_type[OF Some] by (auto simp: agg_fits_def)
    have "frame (n # expr_ids e) s ?s" by (rule frame_trans[OF s1(1) f]) auto
    then have "frame (n # expr_ids e) s s'" if "frame (n # expr_ids e) ?s s'" for s'
      using that frame_trans[of "n # expr_ids e" s ?s "n # expr_ids e" s' "n # expr_ids e"] by simp
    then show ?thesis
      using Cons.IH[OF fits] Cons.prems(2) Some s1(4) by (auto split: option.splits)
  qed
qed simp

text \<open>The steps from an object without groups, and from one with a group.\<close>

definition no_groups :: "EObj \<Rightarrow> bool" where
  "no_groups x \<longleftrightarrow> order_keys x = [] \<and> context_map x = Map.empty \<and> sum_int x = Map.empty \<and> count_map x = Map.empty"

lemma present_simps [simp]: "present [] = []" "present (None # vs) = present vs" "present (Some v # vs) = v # present vs"
  by (simp_all add: present_def)

lemma count_steps:
  assumes "k = AggCount \<or> k = AggCountStar" "count_map x no_key = Some (int c)" "int (c + length vs) < 2 ^ 31"
  shows "\<exists>y. agg_steps k vs x = Some y \<and> order_keys y = order_keys x \<and> count_map y no_key = Some (int (c + length (present vs))) \<and> eo_type y = eo_type x"
  using assms
proof (induction vs arbitrary: x c)
  case (Cons v vs)
  show ?case
  proof (cases v)
    case None
    then show ?thesis using Cons.IH[of x c] Cons.prems by (simp add: agg_step_def count_step_def)
  next
    case (Some a)
    then show ?thesis using Cons.IH[of "tick x" "Suc c"] Cons.prems by (simp add: agg_step_def count_step_def tick_def)
  qed
qed simp

lemma wrap32_add: "wrap32 (wrap32 a + b) = wrap32 (a + b)"
  by (simp add: wrap32_def mod_simps algebra_simps)

lemma sum_steps:
  assumes "count_map x no_key = Some (int c)" "int (c + length vs) < 2 ^ 31" "sum_int x no_key = Some (wrap32 a)"
  shows "\<exists>y. agg_steps AggSum vs x = Some y \<and> order_keys y = order_keys x \<and> count_map y no_key = Some (int (c + length (present vs))) \<and>
    sum_int y no_key = Some (wrap32 (a + sum_list (present vs))) \<and> eo_type y = eo_type x"
  using assms
proof (induction vs arbitrary: x c a)
  case (Cons v vs)
  show ?case
  proof (cases v)
    case None
    then show ?thesis using Cons.IH[of x c a] Cons.prems by (simp add: agg_step_def sum_step_def)
  next
    case (Some b)
    let ?x = "tick (x\<lparr>sum_int := (sum_int x)(no_key \<mapsto> wrap32 (wrap32 a + b))\<rparr>)"
    show ?thesis using Some Cons.IH[of ?x "Suc c" "a + b"] Cons.prems
      by (simp add: agg_step_def sum_step_def tick_def wrap32_add add.assoc)
  qed
qed simp

lemma extremum_steps:
  assumes "k = AggMax \<or> k = AggMin" "context_map x no_key = Some (IntItem a False)"
  shows "agg_steps k vs x = (if None \<in> set vs then None else Some (put_item (IntItem (fold (pick k) (map the vs) a) False) x))"
  using assms
proof (induction vs arbitrary: x a)
  case Nil
  then show ?case by (simp add: put_item_def fun_upd_idem)
next
  case (Cons v vs)
  show ?case
  proof (cases v)
    case None
    then show ?thesis using Cons.prems by (auto simp: agg_step_def extremum_step_def better_def int_item_def)
  next
    case (Some b)
    have "agg_step k v x = Some (put_item (IntItem (pick k b a) False) x)"
      using Cons.prems Some by (auto simp: agg_step_def extremum_step_def better_def int_item_def pick_def put_item_def fun_upd_idem)
    then show ?thesis
      using Some Cons.prems Cons.IH[of "put_item (IntItem (pick k b a) False) x" "pick k b a"] by (simp add: put_item_def)
  qed
qed

lemma null_steps:
  assumes "k = AggMax \<or> k = AggMin" "context_map x no_key = Some NullItem"
  shows "agg_steps k vs x = (case dropWhile (\<lambda>v. v = None) vs of
      [] \<Rightarrow> Some x
    | w # ws \<Rightarrow> if None \<in> set ws then None else Some (put_item (IntItem (fold (pick k) (map the ws) (the w)) False) x))"
proof (induction vs)
  case (Cons v vs)
  show ?case
  proof (cases v)
    case None
    have "put_item NullItem x = x" using assms(2) by (simp add: put_item_def fun_upd_idem)
    then show ?thesis
      using None Cons assms by (auto simp: agg_step_def extremum_step_def int_item_def)
  next
    case (Some b)
    then show ?thesis
      using assms extremum_steps[OF assms(1), of "put_item (IntItem b False) x" b vs]
      by (auto simp: agg_step_def extremum_step_def int_item_def put_item_def)
  qed
qed simp


text \<open>The item that the end of the evaluation takes from an object with one group.\<close>

definition agg_item :: "AggKind \<Rightarrow> EObj \<Rightarrow> Item option" where
  "agg_item k x =
     (if k = AggCount \<or> k = AggCountStar then map_option (\<lambda>c. IntItem c False) (count_map x no_key)
      else if k = AggSum then do {
        c \<leftarrow> count_map x no_key;
        a \<leftarrow> sum_int x no_key;
        Some (if c = 0 then NullItem else IntItem a False)
      }
      else context_map x no_key)"

lemma agg_steps_result:
  assumes "k \<in> int_aggs" "no_groups x" "vs \<noteq> []" "int (length vs) < 2 ^ 31" "\<forall>v. Some v \<in> set vs \<longrightarrow> wrap32 v = v"
  shows "case agg_result k vs of
      None \<Rightarrow> agg_steps k vs x = None
    | Some item \<Rightarrow> \<exists>y. agg_steps k vs x = Some y \<and> order_keys y = [no_key] \<and> agg_item k y = Some item \<and> eo_type y = eo_type x"
proof -
  obtain v ws where vs: "vs = v # ws" using assms(3) by (cases vs) auto
  let ?c = "case v of Some _ \<Rightarrow> 1 | None \<Rightarrow> (0 :: nat)" let ?a = "case v of Some v \<Rightarrow> v | None \<Rightarrow> 0"
  have a: "?a = wrap32 ?a" using assms(5) vs by (cases v) auto
  consider "k = AggCount \<or> k = AggCountStar" | "k = AggSum" | "k = AggMax \<or> k = AggMin"
    using assms(1) by (auto simp: int_aggs_def)
  then show ?thesis
  proof cases
    case 1
    then show ?thesis
      using vs assms(2,4) count_steps[OF 1, of "count_step v x" ?c ws]
      by (cases v) (auto simp: agg_step_def count_step_def no_groups_def add_key_def agg_result_def agg_item_def)
  next
    case 2
    then show ?thesis
      using vs a assms(2,4) sum_steps[of "sum_step v x" ?c ws ?a]
      by (cases v) (auto simp: agg_step_def sum_step_def no_groups_def add_key_def agg_result_def agg_item_def)
  next
    case 3
    let ?x = "put_item (int_item v) (add_key x)"
    have st: "agg_steps k vs x = agg_steps k ws ?x"
      using 3 vs assms(2) by (auto simp: agg_step_def extremum_step_def no_groups_def)
    show ?thesis
    proof (cases v)
      case None
      have x: "context_map ?x no_key = Some NullItem" "order_keys ?x = [no_key]"
        using None assms(2) by (simp_all add: put_item_def int_item_def add_key_def no_groups_def)
      have r: "agg_result k vs = (case dropWhile (\<lambda>v. v = None) ws of
          [] \<Rightarrow> Some NullItem
        | w # ws \<Rightarrow> if None \<in> set ws then None else Some (IntItem (fold (pick k) (map the ws) (the w)) False))"
        using 3 vs None by (auto simp: agg_result_def)
      have i: "agg_item k y = context_map y no_key" for y
        using 3 by (auto simp: agg_item_def)
      have t: "eo_type (put_item item ?x) = eo_type x" "eo_type ?x = eo_type x" "order_keys (put_item item ?x) = [no_key]"
          "context_map (put_item item ?x) no_key = Some item" for item
        using x(2) by (simp_all add: put_item_def add_key_def)
      show ?thesis
        using st null_steps[OF 3 x(1), of ws] x r i t by (cases "dropWhile (\<lambda>v. v = None) ws") simp_all
    next
      case (Some b)
      then show ?thesis
        using 3 vs st assms(2) extremum_steps[OF 3, of ?x b ws]
        by (auto simp: agg_result_def agg_item_def int_item_def put_item_def add_key_def no_groups_def)
    qed
  qed
qed

lemma put_all_single:
  assumes "order_keys (exprs s n) = [key]"
  shows "put_all n f s = put_context n key (f key) s"
  using assms by (simp add: put_all_def)

lemma after_result:
  assumes "k \<in> int_aggs" "eo_type (exprs s n) = INTS" "order_keys (exprs s n) = [no_key]" "agg_item k (exprs s n) = Some item"
  shows "\<exists>s'. afterDealAllRow n k s = (SUCCESS, s') \<and> fst (getColumn n s') = [Some item] \<and> frame [n] s s'"
  using assms
  by (auto simp: int_aggs_def afterDealAllRow_def sum_after_def count_after_def put_all_single put_context_def agg_item_def getColumn_def
      sum_item_def int_sum_def count_of_def split: bind_splits if_splits)

lemma after_empty:
  assumes "k \<in> int_aggs" "eo_type (exprs s n) = INTS" "no_groups (exprs s n)"
  shows "\<exists>s' item. afterDealAllRow n k (dealWithEmptyRelation n k s) = (SUCCESS, s') \<and> agg_result k [] = Some item \<and>
    fst (getColumn n s') = [Some item] \<and> frame [n] s s'"
  using assms
  by (auto simp: int_aggs_def afterDealAllRow_def sum_after_def count_after_def put_all_single put_context_def push_order_def dealWithEmptyRelation_def
      getColumn_def sum_item_def count_of_def no_groups_def agg_result_def)

lemma aggregate_evaluate_result:
  fixes r :: Relation and e :: BaseExpression
  defines "vals \<equiv> map (\<lambda>row. int_value (rel_schemas r) row e) (rel_rows r)"
  assumes "k \<in> int_aggs" "int_tree e" "distinct (n # expr_ids e)" "mapped (rel_schemas r) s e" "no_groups (exprs s n)"
    and "k \<in> {AggMax, AggMin} \<longrightarrow> eo_type (exprs s n) = INTS"
    and "\<forall>row\<in>set (rel_rows r). int_row (rel_schemas r) row e"
    and "int (length (rel_rows r)) < 2 ^ 31" "\<forall>v. Some v \<in> set vals \<longrightarrow> wrap32 v = v"
  shows "case agg_result k vals of
      None \<Rightarrow> aggregate_evaluate env r n k e [] s = None
    | Some item \<Rightarrow> \<exists>s'. aggregate_evaluate env r n k e [] s = Some (SUCCESS, s') \<and> fst (getColumn n s') = [Some item] \<and> frame (n # expr_ids e) s s'"
proof -
  let ?s = "beforeStart n k e s"
  have f: "frame [n] s ?s" by (simp add: beforeStart_def)
  have t: "eo_type (exprs ?s n) = INTS" and g: "no_groups (exprs ?s n)"
    using assms(2,3,6,7) by (auto simp: beforeStart_def int_aggs_def int_tree_type no_groups_def)
  have m: "mapped (rel_schemas r) ?s e"
    using assms(4,5) mapped_frame[OF f, of e "rel_schemas r"] by auto
  have sub: "frame (n # expr_ids e) s s'" if "frame (n # expr_ids e) ?s s'" for s'
    using frame_trans[OF f that, of "n # expr_ids e"] by simp
  show ?thesis
  proof (cases "rel_rows r = []")
    case True
    then show ?thesis
      using after_empty[OF assms(2) t g] frame_trans[OF f, of "[n]" _ "n # expr_ids e"] by (auto simp: aggregate_evaluate_def vals_def)
  next
    case False
    have fits: "agg_fits (rel_schemas r) n k e ?s"
      using assms(2-4) m t by (simp add: agg_fits_def)
    note rows = treat_rows_steps[OF fits assms(8), folded vals_def, of env r]
    note steps = agg_steps_result[OF assms(2) g, of vals]
    show ?thesis
    proof (cases "agg_result k vals")
      case None
      then show ?thesis
        using False steps assms(9,10) rows by (simp add: vals_def aggregate_evaluate_def)
    next
      case (Some item)
      then obtain y where y: "agg_steps k vals (exprs ?s n) = Some y" "order_keys y = [no_key]" "agg_item k y = Some item" "eo_type y = INTS"
        using False steps assms(9,10) t by (auto simp: vals_def)
      then obtain s1 where s1: "treat_rows (\<lambda>s row. treatRow env r n k e [] row s) (rel_rows r) ?s = Some (SUCCESS, s1)" "exprs s1 n = y" "frame (n # expr_ids e) ?s s1"
        using rows by auto
      obtain s2 where s2: "afterDealAllRow n k s1 = (SUCCESS, s2)" "fst (getColumn n s2) = [Some item]" "frame [n] s1 s2"
        using after_result[of k s1 n item] assms(2) y s1(2) by auto
      have "frame (n # expr_ids e) ?s s2" by (rule frame_trans[OF s1(3) s2(3)]) simp
      then show ?thesis
        using Some False s1(1) s2(1,2) sub by (simp add: aggregate_evaluate_def)
    qed
  qed
qed


section \<open>The operator\<close>

type_synonym agg = "nat \<times> AggKind \<times> BaseExpression"

definition agg_expr :: "agg \<Rightarrow> BaseExpression" where
  "agg_expr a = (case a of (n, k, e) \<Rightarrow> AggregateFunction n k e)"

definition agg_ids :: "agg list \<Rightarrow> nat list" where
  "agg_ids as = concat (map (\<lambda>(n, k, e). n # expr_ids e) as)"

text \<open>
  An aggregate as its constructor leaves it, with an integer expression that the relation resolves; it is no
  column of the relation itself and has no groups yet.
\<close>

definition agg_ready :: "Schema list \<Rightarrow> agg \<Rightarrow> 'w QState \<Rightarrow> bool" where
  "agg_ready sc a s \<longleftrightarrow> (case a of (n, k, e) \<Rightarrow> k \<in> int_aggs \<and> int_tree e \<and> parsed s e \<and> resolvable sc e \<and>
     find_column (expr_toString (AggregateFunction n k e)) sc 0 = Some (- 1) \<and> no_groups (exprs s n) \<and>
     (k \<in> {AggMax, AggMin} \<longrightarrow> eo_type (exprs s n) = INTS))"

definition agg_values :: "Relation \<Rightarrow> BaseExpression \<Rightarrow> int option list" where
  "agg_values r e = map (\<lambda>row. int_value (rel_schemas r) row e) (rel_rows r)"

text \<open>The expression of an aggregate reads integers of 32 bits.\<close>

definition agg_input :: "Relation \<Rightarrow> agg \<Rightarrow> bool" where
  "agg_input r a \<longleftrightarrow> (case a of (n, k, e) \<Rightarrow>
     (\<forall>row\<in>set (rel_rows r). int_row (rel_schemas r) row e) \<and> (\<forall>v. Some v \<in> set (agg_values r e) \<longrightarrow> wrap32 v = v))"

definition agg_out :: "Relation \<Rightarrow> agg \<Rightarrow> Item option" where
  "agg_out r a = (case a of (n, k, e) \<Rightarrow> agg_result k (agg_values r e))"

lemma agg_ready_frame:
  assumes "frame ns s s'" "set ns \<inter> set (agg_ids as) = {}" "a \<in> set as" "agg_ready sc a s"
  shows "agg_ready sc a s'"
proof -
  obtain n k e where a: "a = (n, k, e)" by (cases a) auto
  then have d: "n \<notin> set ns" "set (expr_ids e) \<inter> set ns = {}"
    using assms(2,3) by (force simp: agg_ids_def)+
  have "exprs s' n = exprs s n" using assms(1) d(1) by (simp add: frame_def)
  then show ?thesis
    using assms(4) a parsed_frame[OF assms(1) d(2)] by (simp add: agg_ready_def)
qed

lemma one_column:
  assumes "agg_ready (rel_schemas r) (n, k, e) s" "agg_input r (n, k, e)" "distinct (n # expr_ids e)" "int (length (rel_rows r)) < 2 ^ 31"
  shows "\<exists>s1. mapToRelation r (AggregateFunction n k e) s = Some (SUCCESS, s1) \<and> frame (n # expr_ids e) s s1 \<and>
    (case agg_out r (n, k, e) of
      None \<Rightarrow> aggregate_evaluate env r n k e [] s1 = None
    | Some item \<Rightarrow> \<exists>s2. aggregate_evaluate env r n k e [] s1 = Some (SUCCESS, s2) \<and> fst (getColumn n s2) = [Some item] \<and> frame (n # expr_ids e) s1 s2)"
proof -
  let ?s = "upd_expr n (\<lambda>x. x\<lparr>column := - 1\<rparr>) s"
  have f: "frame [n] s ?s" by simp
  have rd: "k \<in> int_aggs" "int_tree e" "parsed s e" "resolvable (rel_schemas r) e" "no_groups (exprs s n)" "k \<in> {AggMax, AggMin} \<longrightarrow> eo_type (exprs s n) = INTS"
    using assms(1) by (auto simp: agg_ready_def)
  then obtain s1 where s1: "mapToRelation r e ?s = Some (SUCCESS, s1)" "mapped (rel_schemas r) s1 e" "frame (expr_ids e) ?s s1"
    using map_int_expr[of e ?s r] parsed_frame[OF f, of e] assms(3) by auto
  have x: "exprs s1 n = (exprs s n)\<lparr>column := - 1\<rparr>"
    using s1(3) assms(3) by (simp add: frame_def)
  have "mapToRelation r (AggregateFunction n k e) s = Some (SUCCESS, s1)"
    using assms(1) s1(1) by (simp add: agg_ready_def aggregate_map_def tryToFindColumn_def findExpressionColumn_def)
  moreover have "frame (n # expr_ids e) s s1" by (rule frame_trans[OF f s1(3)]) simp
  moreover have "no_groups (exprs s1 n)" "k \<in> {AggMax, AggMin} \<longrightarrow> eo_type (exprs s1 n) = INTS"
    using rd(5,6) x by (simp_all add: no_groups_def)
  ultimately show ?thesis
    using aggregate_evaluate_result[of k e n r s1 env] rd(1,2) s1(2) assms(2-4)
    by (simp add: agg_input_def agg_out_def agg_values_def)
qed

lemma aggregate_columns_result:
  assumes "\<forall>a\<in>set as. agg_ready (rel_schemas r) a s \<and> agg_input r a" "distinct (agg_ids as)" "int (length (rel_rows r)) < 2 ^ 31"
  shows "case those (map (agg_out r) as) of
      None \<Rightarrow> aggregate_columns env r [] (map agg_expr as) s = None
    | Some items \<Rightarrow> \<exists>schemas s'. aggregate_columns env r [] (map agg_expr as) s = Some ((SUCCESS, schemas, map (\<lambda>i. [Some i]) items), s') \<and>
        map sc_expr schemas = map (\<lambda>a. Some (agg_expr a)) as \<and> length items = length as \<and> frame (agg_ids as) s s'"
  using assms
proof (induction as arbitrary: s)
  case Nil
  then show ?case by simp
next
  case (Cons a as)
  obtain n k e where a: "a = (n, k, e)" by (cases a) auto
  have ids: "agg_ids (a # as) = (n # expr_ids e) @ agg_ids as" by (simp add: agg_ids_def a)
  obtain s1 where s1: "mapToRelation r (AggregateFunction n k e) s = Some (SUCCESS, s1)" "frame (n # expr_ids e) s s1"
      "case agg_out r (n, k, e) of
        None \<Rightarrow> aggregate_evaluate env r n k e [] s1 = None
      | Some item \<Rightarrow> \<exists>s2. aggregate_evaluate env r n k e [] s1 = Some (SUCCESS, s2) \<and> fst (getColumn n s2) = [Some item] \<and> frame (n # expr_ids e) s1 s2"
    using one_column[of r n k e s env] Cons.prems a ids by auto
  show ?case
  proof (cases "agg_out r a")
    case None
    then show ?thesis using s1 a by (simp add: agg_expr_def)
  next
    case (Some item)
    then obtain s2 where s2: "aggregate_evaluate env r n k e [] s1 = Some (SUCCESS, s2)" "fst (getColumn n s2) = [Some item]" "frame (n # expr_ids e) s1 s2"
      using s1(3) a by auto
    obtain s3 where s3: "getColumn n s2 = ([Some item], s3)" "frame [n] s2 s3"
      using s2(2) by (auto simp: getColumn_def)
    have "frame (n # expr_ids e) s s2" by (rule frame_trans[OF s1(2) s2(3)]) simp
    then have f: "frame (n # expr_ids e) s s3" by (rule frame_trans[OF _ s3(2)]) simp
    have "\<forall>a\<in>set as. agg_ready (rel_schemas r) a s3 \<and> agg_input r a"
      using Cons.prems(1,2) agg_ready_frame[OF f, of as] ids by auto
    note IH = Cons.IH[OF this _ Cons.prems(3)]
    have col: "aggregate_columns env r [] (map agg_expr (a # as)) s =
        (case aggregate_columns env r [] (map agg_expr as) s3 of None \<Rightarrow> None
         | Some ((rc, schemas, cols), s') \<Rightarrow> Some ((rc, schema_of s (agg_expr a) # schemas, [Some item] # cols), s'))"
      using s1(1) s2(1) s3(1) a by (simp add: agg_expr_def Let_def split: option.splits)
    have "frame (agg_ids (a # as)) s s'" if "frame (agg_ids as) s3 s'" for s'
      by (rule frame_trans[OF f that]) (simp add: ids)
    then show ?thesis
      using IH Some col Cons.prems(2) ids by (auto simp: schema_of_def split: option.splits)
  qed
qed

lemma column_row_single: "column_row 0 (map (\<lambda>i. [Some i]) items) = Some items"
  by (induction items) simp_all

text \<open>
  C11. Aggregates without \<^verbatim>\<open>GROUP BY\<close> over integer expressions, when the query below succeeds with fewer than \<open>2 ^ 31\<close> rows:
  the result is one row, for an empty source too.  \<^verbatim>\<open>COUNT\<close> is the number of values that are not null (for \<^verbatim>\<open>COUNT(*)\<close>, the
  values of a constant), \<^verbatim>\<open>SUM\<close> their sum with wrap-around and null when there is none; \<^verbatim>\<open>MAX\<close> and \<^verbatim>\<open>MIN\<close> are the extrema, null when there is no value, and
  throw an exception when a null follows a value.
\<close>

theorem aggregate_correct:
  assumes "evaluate env q s = Some ((SUCCESS, Some r), s1)"
    and "as \<noteq> []" "distinct (agg_ids as)"
    and "\<forall>a\<in>set as. agg_ready (rel_schemas r) a s1 \<and> agg_input r a"
    and "int (length (rel_rows r)) < 2 ^ 31"
  shows "case those (map (agg_out r) as) of
      None \<Rightarrow> evaluate env (AggregateOperator n q (map agg_expr as) []) s = None
    | Some items \<Rightarrow> \<exists>schemas s2. evaluate env (AggregateOperator n q (map agg_expr as) []) s =
          Some ((SUCCESS, Some \<lparr>rel_rows = [items], rel_schemas = schemas, rel_multiTable = op_multiTable (opers s1 n)\<rparr>), s2) \<and>
        map sc_expr schemas = map (\<lambda>a. Some (agg_expr a)) as"
proof -
  note cols = aggregate_columns_result[OF assms(4,3,5), of env]
  show ?thesis
  proof (cases "those (map (agg_out r) as)")
    case None
    then show ?thesis using cols assms(1) by (simp add: agg_op_evaluate_def)
  next
    case (Some items)
    then obtain schemas s2 where c: "aggregate_columns env r [] (map agg_expr as) s1 = Some ((SUCCESS, schemas, map (\<lambda>i. [Some i]) items), s2)"
        "map sc_expr schemas = map (\<lambda>a. Some (agg_expr a)) as" "length items = length as" "frame (agg_ids as) s1 s2"
      using cols by auto
    have len: "length items = length schemas"
      using c(3) arg_cong[OF c(2), of length] by simp
    obtain i js where i: "items = i # js" using c(3) assms(2) by (cases items) auto
    have "aggregate_rows (map (\<lambda>i. [Some i]) items) [0] (new_relation schemas) = Some (SUCCESS, (new_relation schemas)\<lparr>rel_rows := [items]\<rparr>)"
      using column_row_single[of items] len by (simp add: rel_insertRow_def new_relation_def)
    moreover have "opers s2 = opers s1" using c(4) by (simp add: frame_def)
    ultimately show ?thesis
      using Some assms(1) c i by (auto simp: agg_op_evaluate_def set_multi_def new_relation_def)
  qed
qed


text \<open>\<^verbatim>\<open>COUNT(a), SUM(a), MAX(a)\<close> on the rows null, 1 and 3, and \<^verbatim>\<open>MIN(a)\<close> on the rows 1 and null.\<close>

definition demo_aggs :: "agg list" where
  "demo_aggs = [(11, AggCount, demo_a 1), (12, AggSum, demo_a 2), (13, AggMax, demo_a 3)]"

definition demo_agg_state :: "unit QState" where
  "demo_agg_state = demo_state (\<lambda>_. demo_obj)
     [1 \<mapsto> int_relation ''a'' [(0, True), (1, False), (3, False)], 2 \<mapsto> int_relation ''a'' [(1, False), (0, True)]]"

lemma aggregate_correct_witness:
  "(\<exists>schemas s. evaluate demo_env (AggregateOperator 3 (ScanOperator 1 1 []) (map agg_expr demo_aggs) []) demo_agg_state =
      Some ((SUCCESS, Some \<lparr>rel_rows = [[IntItem 2 False, IntItem 4 False, IntItem 3 False]], rel_schemas = schemas, rel_multiTable = False\<rparr>), s) \<and>
      map sc_expr schemas = map (\<lambda>a. Some (agg_expr a)) demo_aggs) \<and>
   evaluate demo_env (AggregateOperator 3 (ScanOperator 2 1 []) (map agg_expr [(11, AggMin, demo_a 1)]) []) demo_agg_state = None"
proof -
  let ?r1 = "int_relation ''a'' [(0, True), (1, False), (3, False)]" let ?r2 = "int_relation ''a'' [(1, False), (0, True)]"
  let ?min = "[(11, AggMin, demo_a 1)]"
  have q: "evaluate demo_env (ScanOperator 1 1 []) demo_agg_state = Some ((SUCCESS, Some ?r1), demo_agg_state)"
    "evaluate demo_env (ScanOperator 2 1 []) demo_agg_state = Some ((SUCCESS, Some ?r2), demo_agg_state)"
    by (simp_all add: scan_evaluate_def demo_agg_state_def demo_state_def)
  have sc: "rel_schemas ?r1 = [demo_column ''a'' INTS]" "rel_schemas ?r2 = [demo_column ''a'' INTS]"
    by (simp_all add: int_relation_def)
  have c: "find_column ''t.a'' [demo_column ''a'' INTS] 0 = Some 0"
    by (simp add: demo_column_def)
  have vals: "agg_values ?r1 (demo_a i) = [None, Some 1, Some 3]" "agg_values ?r2 (demo_a i) = [Some 1, None]" for i
    by (simp_all add: agg_values_def int_relation_def demo_a_def column_value_def demo_column_def row_at_def)
  have rows: "int_row [demo_column ''a'' INTS] [IntItem v b] (demo_a i)" for v b i
    using c by (auto simp: demo_a_def row_at_def demo_column_def)
  have inp: "agg_input ?r1 (n, k, demo_a i)" "agg_input ?r2 (n, k, demo_a i)" for n k i
    unfolding agg_input_def prod.case vals sc using rows by (auto simp: int_relation_def)
  have rdy: "agg_ready [demo_column ''a'' INTS] (n, k, demo_a i) demo_agg_state" if "k \<in> int_aggs" for n k i
    using that c by (auto simp: agg_ready_def int_aggs_def demo_a_def demo_agg_state_def demo_state_def demo_obj_def no_groups_def demo_column_def agg_text_def agg_name_def paren_def)
  have "those (map (agg_out ?r1) demo_aggs) = Some [IntItem 2 False, IntItem 4 False, IntItem 3 False]" "those (map (agg_out ?r2) ?min) = None"
    by (simp_all add: demo_aggs_def agg_out_def vals agg_result_def pick_def)
  moreover have "distinct (agg_ids demo_aggs)" "distinct (agg_ids ?min)"
    by (simp_all add: agg_ids_def demo_aggs_def demo_a_def)
  moreover have "\<forall>a\<in>set demo_aggs. agg_ready (rel_schemas ?r1) a demo_agg_state \<and> agg_input ?r1 a"
    "\<forall>a\<in>set ?min. agg_ready (rel_schemas ?r2) a demo_agg_state \<and> agg_input ?r2 a"
    using inp rdy unfolding sc by (auto simp: demo_aggs_def int_aggs_def)
  ultimately show ?thesis
    using aggregate_correct[OF q(1), of demo_aggs 3] aggregate_correct[OF q(2), of ?min 3]
    by (simp add: demo_aggs_def int_relation_def demo_agg_state_def demo_state_def demo_oper_def)
qed

end
