(* ===== verification/Ob_Tuple.thy ===== *)
theory Ob_Tuple
  imports Ob_TableScan Ob_Operator
begin

text \<open>
  From the records of a table to the rows of a query: cells (\<open>src/src/observer/sql/expr/tuple_cell.cpp\<close>), tuples of records
  (\<open>src/src/observer/sql/expr/tuple.h\<close>), \<^verbatim>\<open>Row::tupleToRow\<close>, and the scans of a table and of an index
  (\<open>table_scan_operator.cpp\<close>, \<open>index_scan_operator.cpp\<close>).  They give the parameter of the query operators its value.
\<close>

section \<open>Cells\<close>

record TupleCell =
  cell_type :: AttrType
  cell_length :: int
  cell_data :: "mem option"
  cell_null :: bool

definition cell_new :: TupleCell where
  "cell_new = \<lparr>cell_type = UNDEFINED, cell_length = - 1, cell_data = None, cell_null = False\<rparr>"

definition TupleCell_init :: "AttrType \<Rightarrow> mem \<Rightarrow> bool \<Rightarrow> TupleCell option" where
  "TupleCell_init t d isnull = do {
     len \<leftarrow> (case t of
         INTS \<Rightarrow> Some 4
       | DATES \<Rightarrow> Some 4
       | FLOATS \<Rightarrow> Some 4
       | CHARS \<Rightarrow> map_option (\<lambda>cs. int (length cs)) (c_string d)
       | _ \<Rightarrow> Some (- 1));
     Some \<lparr>cell_type = t, cell_length = len, cell_data = Some d, cell_null = (if t = NULLS then True else isnull)\<rparr>
   }"

definition getDataAsInt :: "TupleCell \<Rightarrow> int option" where
  "getDataAsInt c = map_option (\<lambda>d. load_int d 0) (cell_data c)"

definition getDataAsFloat :: "TupleCell \<Rightarrow> f32 option" where
  "getDataAsFloat c = map_option load_f32 (cell_data c)"

definition getDataAsChar :: "TupleCell \<Rightarrow> byte option" where
  "getDataAsChar c = map_option (\<lambda>d. d 0) (cell_data c)"

text \<open>A pointer to the data; a reader of it runs up to the terminator.\<close>

definition getDataAsText :: "TupleCell \<Rightarrow> mem option" where
  "getDataAsText c = cell_data c"

definition cell_set_int :: "int \<Rightarrow> TupleCell \<Rightarrow> TupleCell" where
  "cell_set_int v c = c\<lparr>cell_type := INTS, cell_length := 4, cell_data := Some (store_int (\<lambda>_. 0) 0 v)\<rparr>"

text \<open>The bits of a single precision number.\<close>

definition f32_bits :: "f32 \<Rightarrow> int" where
  "f32_bits v = (case v of
      Fin x \<Rightarrow>
        (let a = \<bar>x\<bar>; l = bit_len (nat a);
             u = (if a < 2 ^ 23 then a else (int l - 23) * 2 ^ 23 + (a div 2 ^ (l - 24) - 2 ^ 23)) in
         if x < 0 then 2 ^ 31 + u else u)
    | Inf n \<Rightarrow> (if n then 2 ^ 31 else 0) + 255 * 2 ^ 23
    | NaN \<Rightarrow> 255 * 2 ^ 23 + 2 ^ 22)"

definition cell_set_float :: "f32 \<Rightarrow> TupleCell \<Rightarrow> TupleCell" where
  "cell_set_float v c = c\<lparr>cell_type := FLOATS, cell_length := 4, cell_data := Some (store_int (\<lambda>_. 0) 0 (f32_bits v))\<rparr>"

text \<open>Whether \<^verbatim>\<open>compare_all\<close> follows the pointers to the data.\<close>

definition reads_data :: "AttrType \<Rightarrow> AttrType \<Rightarrow> CompOp \<Rightarrow> bool" where
  "reads_data t1 t2 op \<longleftrightarrow> op \<noteq> IS \<and> op \<noteq> IS_NOT \<and> t1 \<noteq> NULLS \<and> t2 \<noteq> NULLS \<and>
     (op = LIKE \<or> op = NOT_LIKE \<or> t1 = t2 \<and> t1 \<in> {INTS, DATES, FLOATS, CHARS} \<or>
      t1 \<noteq> t2 \<and> t1 \<in> {INTS, FLOATS, CHARS} \<and> t2 \<in> {INTS, FLOATS, CHARS})"

definition cell_compare :: "(byte list \<Rightarrow> f32) \<Rightarrow> TupleCell \<Rightarrow> TupleCell \<Rightarrow> CompOp \<Rightarrow> (RC \<times> int) option" where
  "cell_compare atof c other op =
     (let t1 = (if cell_null c then NULLS else cell_type c); t2 = (if cell_null other then NULLS else cell_type other);
          ptr = (\<lambda>d. case d of Some m \<Rightarrow> m | None \<Rightarrow> (\<lambda>_. 0)) in
      if reads_data t1 t2 op \<and> (cell_data c = None \<or> cell_data other = None) then None
      else compare_all atof t1 t2 (ptr (cell_data c)) (ptr (cell_data other)) (cell_length c) (cell_length other) op)"

section \<open>Tuples\<close>

text \<open>
  A tuple is the list of its fields, the meta data of its table and the data of its record.  The bit of a cell is
  that of its column behind the two system fields, for which the shift is not defined.
\<close>

definition cell_at :: "TableMeta \<Rightarrow> FieldMeta list \<Rightarrow> mem \<Rightarrow> int \<Rightarrow> TupleCell \<Rightarrow> (RC \<times> TupleCell) option" where
  "cell_at m specs rec index cell =
     (if index < 0 \<or> index \<ge> int (length specs) then Some (INVALID_ARGUMENT, cell)
      else do {
        let f = specs ! nat index;
        nul \<leftarrow> null_field m;
        isnull \<leftarrow> null_bit rec (fm_offset nul) (index - 2);
        if fm_offset f < 0 then None
        else Some (SUCCESS, \<lparr>cell_type = fm_type f, cell_length = fm_len f, cell_data = Some (at_off rec (nat (fm_offset f))), cell_null = isnull\<rparr>)
      })"

text \<open>The index of the first field with the name.\<close>

fun find_field :: "string \<Rightarrow> FieldMeta list \<Rightarrow> int \<Rightarrow> int option" where
  "find_field name [] i = None"
| "find_field name (f # fs) i = (if name = fm_name f then Some i else find_field name fs (i + 1))"

definition find_cell :: "TableMeta \<Rightarrow> FieldMeta list \<Rightarrow> mem \<Rightarrow> string \<Rightarrow> string \<Rightarrow> TupleCell \<Rightarrow> (RC \<times> TupleCell) option" where
  "find_cell m specs rec table_name field_name cell =
     (if table_name \<noteq> tm_name m then Some (NOTFOUND, cell)
      else case find_field field_name specs 0 of
        None \<Rightarrow> Some (NOTFOUND, cell)
      | Some i \<Rightarrow> cell_at m specs rec i cell)"

text \<open>The item of a cell; a cell of another type adds none.  The constructor of a text item copies the string.\<close>

definition cell_items :: "TupleCell \<Rightarrow> Item list option" where
  "cell_items c = (case cell_type c of
      INTS \<Rightarrow> do { v \<leftarrow> getDataAsInt c; Some [IntItem v (cell_null c)] }
    | DATES \<Rightarrow> do { v \<leftarrow> getDataAsInt c; Some [DateItem v (cell_null c)] }
    | FLOATS \<Rightarrow> do { v \<leftarrow> getDataAsFloat c; Some [FloatItem v (cell_null c)] }
    | CHARS \<Rightarrow> do { d \<leftarrow> getDataAsText c; cs \<leftarrow> c_string d; Some [TextItem (of_bytes cs) (cell_null c)] }
    | _ \<Rightarrow> Some [])"

fun row_cells :: "TableMeta \<Rightarrow> FieldMeta list \<Rightarrow> mem \<Rightarrow> nat list \<Rightarrow> TupleCell \<Rightarrow> Row \<Rightarrow> Row option" where
  "row_cells m specs rec [] cell row = Some row"
| "row_cells m specs rec (i # is) cell row = do {
     (_, cell) \<leftarrow> cell_at m specs rec (int i) cell;
     items \<leftarrow> cell_items cell;
     row_cells m specs rec is cell (row @ items)
   }"

definition tupleToRow :: "TableMeta \<Rightarrow> FieldMeta list \<Rightarrow> mem \<Rightarrow> Row option" where
  "tupleToRow m specs rec = row_cells m specs rec [2..<length specs] cell_new []"

section \<open>Scans\<close>

text \<open>
  The two scans of a table.  Opening one adds the fields of the table to its tuple, each time it is opened.
\<close>

record TableScanOperator =
  to_table :: nat
  to_scanner :: RecordFileScanner
  to_record :: "Record option"
  to_specs :: "FieldMeta list"

definition table_scan_open :: "TableScanOperator \<Rightarrow> TableSys \<Rightarrow> (RC \<times> TableScanOperator \<times> TableSys) option" where
  "table_scan_open x s = do {
     b \<leftarrow> tab_pool (ts_tables s (to_table x));
     (rc, c, bp) \<leftarrow> open_scan b None (to_scanner x) (ts_bp s);
     let x = x\<lparr>to_scanner := c\<rparr>;
     let s = s\<lparr>ts_bp := bp\<rparr>;
     Some (rc, if rc = SUCCESS then x\<lparr>to_specs := to_specs x @ tm_fields (meta_of (to_table x) s)\<rparr> else x, s)
   }"

definition table_scan_next :: "TableScanOperator \<Rightarrow> TableSys \<Rightarrow> (RC \<times> TableScanOperator \<times> TableSys) option" where
  "table_scan_next x s =
     (if \<not> rfs_has_next (to_scanner x) then Some (RECORD_EOF, x, s)
      else do {
        (rc, (rid, a, off), c, bp) \<leftarrow> rfs_next_record (to_scanner x) (ts_bp s);
        Some (rc, x\<lparr>to_scanner := c, to_record := Some \<lparr>rec_rid = rid, rec_ref = InPage a off\<rparr>\<rparr>, s\<lparr>ts_bp := bp\<rparr>)
      })"

definition table_scan_close :: "TableScanOperator \<Rightarrow> RC \<times> TableScanOperator" where
  "table_scan_close x = (case close_scan (to_scanner x) of (rc, c) \<Rightarrow> (rc, x\<lparr>to_scanner := c\<rparr>))"

record IndexScanOperator =
  io_table :: nat
  io_index :: "nat option"
  io_scanner :: "BplusTreeScanner option"
  io_record :: "Record option"
  io_specs :: "FieldMeta list"
  io_left :: TupleCell
  io_right :: TupleCell
  io_left_inclusive :: bool
  io_right_inclusive :: bool

definition index_scan_open :: "IndexScanOperator \<Rightarrow> TableSys \<Rightarrow> (RC \<times> IndexScanOperator \<times> TableSys) option" where
  "index_scan_open x s = (case io_index x of
      None \<Rightarrow> Some (INTERNAL, x, s)
    | Some i \<Rightarrow> do {
        ix \<leftarrow> index_at (io_table x) i s;
        (c, bp) \<leftarrow> create_scanner (cell_data (io_left x)) (cell_length (io_left x)) (io_left_inclusive x)
            (cell_data (io_right x)) (cell_length (io_right x)) (io_right_inclusive x) ix (ts_bp s);
        let s = s\<lparr>ts_bp := bp\<rparr>;
        case c of
          None \<Rightarrow> Some (INTERNAL, x, s)
        | Some c \<Rightarrow>
            if tab_handler (ts_tables s (io_table x)) = None then do { s \<leftarrow> destroy_scanner (io_table x) i c s; Some (INTERNAL, x, s) }
            else Some (SUCCESS, x\<lparr>io_scanner := Some c, io_specs := io_specs x @ tm_fields (meta_of (io_table x) s)\<rparr>, s)
      })"

definition index_scan_next :: "IndexScanOperator \<Rightarrow> TableSys \<Rightarrow> (RC \<times> IndexScanOperator \<times> TableSys) option" where
  "index_scan_next x s = do {
     i \<leftarrow> io_index x;
     c \<leftarrow> io_scanner x;
     ix \<leftarrow> index_at (io_table x) i s;
     (rc, bytes, c, bp) \<leftarrow> next_entry (ix_handler ix) c (ts_bp s);
     let x = x\<lparr>io_scanner := Some c\<rparr>;
     let s = s\<lparr>ts_bp := bp\<rparr>;
     if rc \<noteq> SUCCESS then Some (rc, x, s)
     else do {
       bs \<leftarrow> bytes;
       (rc, found, s) \<leftarrow> file_get (io_table x) (rid_of_bytes bs) s;
       Some (rc, case found of Some r \<Rightarrow> x\<lparr>io_record := Some r\<rparr> | None \<Rightarrow> x, s)
     }
   }"

definition index_scan_close :: "IndexScanOperator \<Rightarrow> TableSys \<Rightarrow> (RC \<times> IndexScanOperator \<times> TableSys) option" where
  "index_scan_close x s = do {
     i \<leftarrow> io_index x;
     c \<leftarrow> io_scanner x;
     s \<leftarrow> destroy_scanner (io_table x) i c s;
     Some (SUCCESS, x\<lparr>io_scanner := None\<rparr>, s)
   }"

text \<open>A scan of either kind, as the operator above it calls it.\<close>

datatype ScanOperatorI = TableScan TableScanOperator | IndexScan IndexScanOperator

definition phys_open :: "ScanOperatorI \<Rightarrow> TableSys \<Rightarrow> (RC \<times> ScanOperatorI \<times> TableSys) option" where
  "phys_open x s = (case x of
      TableScan t \<Rightarrow> map_option (\<lambda>(rc, t, s). (rc, TableScan t, s)) (table_scan_open t s)
    | IndexScan i \<Rightarrow> map_option (\<lambda>(rc, i, s). (rc, IndexScan i, s)) (index_scan_open i s))"

definition phys_next :: "ScanOperatorI \<Rightarrow> TableSys \<Rightarrow> (RC \<times> ScanOperatorI \<times> TableSys) option" where
  "phys_next x s = (case x of
      TableScan t \<Rightarrow> map_option (\<lambda>(rc, t, s). (rc, TableScan t, s)) (table_scan_next t s)
    | IndexScan i \<Rightarrow> map_option (\<lambda>(rc, i, s). (rc, IndexScan i, s)) (index_scan_next i s))"

definition phys_close :: "ScanOperatorI \<Rightarrow> TableSys \<Rightarrow> (RC \<times> ScanOperatorI \<times> TableSys) option" where
  "phys_close x s = (case x of
      TableScan t \<Rightarrow> (case table_scan_close t of (rc, t) \<Rightarrow> Some (rc, TableScan t, s))
    | IndexScan i \<Rightarrow> map_option (\<lambda>(rc, i, s). (rc, IndexScan i, s)) (index_scan_close i s))"

text \<open>The row of the current tuple: its table, its fields and the record in the frame.\<close>

definition current_tuple :: "ScanOperatorI \<Rightarrow> nat \<times> FieldMeta list \<times> Record option" where
  "current_tuple x = (case x of
      TableScan t \<Rightarrow> (to_table t, to_specs t, to_record t)
    | IndexScan i \<Rightarrow> (io_table i, io_specs i, io_record i))"

definition current_row :: "ScanOperatorI \<Rightarrow> TableSys \<Rightarrow> Row option" where
  "current_row x s = (case current_tuple x of (tab, specs, rec) \<Rightarrow> do {
     r \<leftarrow> rec;
     tupleToRow (meta_of tab s) specs (record_data r s)
   })"

partial_function (option) fetch_rows :: "ScanOperatorI \<Rightarrow> TableSys \<Rightarrow> (Row list \<times> ScanOperatorI \<times> TableSys) option" where
  "fetch_rows x s = do {
     (rc, x, s) \<leftarrow> phys_next x s;
     if rc \<noteq> SUCCESS then Some ([], x, s)
     else do {
       row \<leftarrow> current_row x s;
       (rows, x, s) \<leftarrow> fetch_rows x s;
       Some (row # rows, x, s)
     }
   }"

definition scan_all :: "ScanOperatorI \<Rightarrow> TableSys \<Rightarrow> ((RC \<times> Row list) \<times> ScanOperatorI \<times> TableSys) option" where
  "scan_all x s = do {
     (rc, x, s) \<leftarrow> phys_open x s;
     if rc \<noteq> SUCCESS then Some ((rc, []), x, s)
     else do {
       (rows, x, s) \<leftarrow> fetch_rows x s;
       Some ((SUCCESS, rows), x, s)
     }
   }"

section \<open>The environment of a query\<close>

text \<open>The world of a query: the tables and the scans by number.\<close>

type_synonym table_world = "TableSys \<times> (nat \<Rightarrow> ScanOperatorI)"

definition table_env :: "(byte list \<Rightarrow> f32) \<Rightarrow> (f32 \<Rightarrow> int \<Rightarrow> f32) \<Rightarrow> table_world Env" where
  "table_env atof rnd = \<lparr>env_atof = atof, env_round = rnd,
     env_scan = (\<lambda>k (s, ops). do { (res, x, s) \<leftarrow> scan_all (ops k) s; Some (res, s, ops(k := x)) }),
     env_close = (\<lambda>k (s, ops). do { (rc, x, s) \<leftarrow> phys_close (ops k) s; Some (rc, s, ops(k := x)) })\<rparr>"

end
