(* ===== verification/Ob_Execute.thy ===== *)
theory Ob_Execute
  imports Ob_Tuple Ob_Db
begin

text \<open>
  The statements that change data (\<open>src/src/observer/sql/stmt/insert_stmt.cpp\<close>, \<open>util.cpp\<close>, \<open>sql/operator/predicate_operator.cpp\<close>,
  \<open>delete_operator.cpp\<close>, \<open>update_operator.cpp\<close>) and the handlers of the execution stage (\<open>sql/executor/execute_stage.cpp\<close>).  \<open>to_int\<close> is
  the conversion of the number in front of a text to \<^verbatim>\<open>int\<close> by way of \<^verbatim>\<open>double\<close>, \<open>None\<close> when it is out of range.
\<close>

section \<open>Conversion of values\<close>

text \<open>The bytes that were allocated for a value: four for a number, a copy of the string for a text.\<close>

definition value_room :: "Value \<Rightarrow> nat option" where
  "value_room v = do {
     d \<leftarrow> val_data v;
     if val_type v = CHARS then map_option (\<lambda>cs. length cs + 1) (c_string d) else Some 4
   }"

definition put_value :: "AttrType \<Rightarrow> mem \<Rightarrow> nat \<Rightarrow> Value \<Rightarrow> Value option" where
  "put_value t src n v = do {
     d \<leftarrow> val_data v;
     room \<leftarrow> value_room v;
     if n > room then None else Some (v\<lparr>val_type := t, val_data := Some (blit d 0 src n)\<rparr>)
   }"

text \<open>\<^verbatim>\<open>int(f + 0.5)\<close>, calculated in double precision.\<close>

definition f32_to_int :: "f32 \<Rightarrow> int option" where
  "f32_to_int v = (case v of
      Fin x \<Rightarrow>
        (let y = x + 2 ^ 148; i = sgn y * (\<bar>y\<bar> div 2 ^ 149) in
         if - (2 ^ 31) \<le> i \<and> i < 2 ^ 31 then Some i else None)
    | _ \<Rightarrow> None)"

text \<open>The format \<^verbatim>\<open>%f\<close>: six digits behind the point.\<close>

definition fixed6 :: "int \<Rightarrow> string" where
  "fixed6 x =
     (let n = \<bar>x\<bar> * 10 ^ 6; q = n div 2 ^ 149; r = n mod 2 ^ 149;
          u = nat (if 2 * r > 2 ^ 149 \<or> 2 * r = 2 ^ 149 \<and> odd q then q + 1 else q);
          frac = dec (u mod 10 ^ 6) in
      (if x < 0 then ''-'' else []) @ dec (u div 10 ^ 6) @ ''.'' @ replicate (6 - length frac) (CHR ''0'') @ frac)"

definition float_format :: "f32 \<Rightarrow> string option" where
  "float_format v = (case v of Fin x \<Rightarrow> Some (fixed6 x) | Inf n \<Rightarrow> Some (if n then ''-inf'' else ''inf'') | NaN \<Rightarrow> None)"

text \<open>\<^verbatim>\<open>snprintf\<close> into the data of the value, at most as many bytes as the field has.\<close>

definition print_value :: "FieldMeta \<Rightarrow> string \<Rightarrow> Value \<Rightarrow> Value option" where
  "print_value f t v =
     (if fm_len f \<le> 0 then None
      else let t = take (nat (fm_len f) - 1) t in put_value CHARS (string_mem t) (length t + 1) v)"

definition type_cast :: "(byte list \<Rightarrow> f32) \<Rightarrow> (byte list \<Rightarrow> int option) \<Rightarrow> Value \<Rightarrow> FieldMeta \<Rightarrow> (RC \<times> Value) option" where
  "type_cast atof to_int v f = (case (fm_type f, val_type v) of
      (CHARS, INTS) \<Rightarrow> do { d \<leftarrow> val_data v; v \<leftarrow> print_value f (dec_int (load_int d 0)) v; Some (SUCCESS, v) }
    | (CHARS, FLOATS) \<Rightarrow> do { d \<leftarrow> val_data v; t \<leftarrow> float_format (load_f32 d); v \<leftarrow> print_value f t v; Some (SUCCESS, v) }
    | (INTS, FLOATS) \<Rightarrow> do { d \<leftarrow> val_data v; i \<leftarrow> f32_to_int (load_f32 d); v \<leftarrow> put_value INTS (int_mem i) 4 v; Some (SUCCESS, v) }
    | (INTS, CHARS) \<Rightarrow> do { d \<leftarrow> val_data v; cs \<leftarrow> c_string d; i \<leftarrow> to_int (number_prefix cs); v \<leftarrow> put_value INTS (int_mem i) 4 v; Some (SUCCESS, v) }
    | (FLOATS, INTS) \<Rightarrow> do { d \<leftarrow> val_data v; v \<leftarrow> put_value FLOATS (int_mem (f32_bits (f32_of_int (load_int d 0)))) 4 v; Some (SUCCESS, v) }
    | (FLOATS, CHARS) \<Rightarrow> do { d \<leftarrow> val_data v; x \<leftarrow> char2float atof d; v \<leftarrow> put_value FLOATS (int_mem (f32_bits x)) 4 v; Some (SUCCESS, v) }
    | _ \<Rightarrow> Some (SCHEMA_FIELD_TYPE_MISMATCH, v))"

section \<open>The insert statement\<close>

text \<open>The same conversions; what cannot be converted is left to \<^verbatim>\<open>make_record\<close>, except a null for a field that has none.\<close>

definition insert_cast :: "(byte list \<Rightarrow> f32) \<Rightarrow> (byte list \<Rightarrow> int option) \<Rightarrow> FieldMeta \<Rightarrow> Value \<Rightarrow> (RC \<times> Value) option" where
  "insert_cast atof to_int f v =
     (if fm_type f = val_type v then Some (SUCCESS, v)
      else if (fm_type f, val_type v) \<in> {(CHARS, INTS), (CHARS, FLOATS), (INTS, FLOATS), (INTS, CHARS), (FLOATS, INTS), (FLOATS, CHARS)}
      then type_cast atof to_int v f
      else Some (if val_type v = NULLS \<and> \<not> fm_nullable f then SCHEMA_FIELD_TYPE_MISMATCH else SUCCESS, v))"

fun row_widths_ok :: "nat \<Rightarrow> nat \<Rightarrow> nat list \<Rightarrow> bool" where
  "row_widths_ok n prev [] = True"
| "row_widths_ok n prev (off # offs) = (int n = int off - int prev \<and> row_widths_ok n off offs)"

fun cast_row :: "(byte list \<Rightarrow> f32) \<Rightarrow> (byte list \<Rightarrow> int option) \<Rightarrow> FieldMeta list \<Rightarrow> Value list \<Rightarrow> (RC \<times> Value list) option" where
  "cast_row atof to_int (f # fs) (v # vs) = do {
     (rc, v) \<leftarrow> insert_cast atof to_int f v;
     if rc \<noteq> SUCCESS then Some (rc, v # vs)
     else do { (rc, vs) \<leftarrow> cast_row atof to_int fs vs; Some (rc, v # vs) }
   }"
| "cast_row atof to_int [] (v # vs) = None"
| "cast_row atof to_int fs [] = Some (SUCCESS, [])"

fun cast_rows :: "(byte list \<Rightarrow> f32) \<Rightarrow> (byte list \<Rightarrow> int option) \<Rightarrow> FieldMeta list \<Rightarrow> nat \<Rightarrow> nat list \<Rightarrow> Value list \<Rightarrow> (RC \<times> Value list) option" where
  "cast_rows atof to_int fs left [] vs = Some (SUCCESS, vs)"
| "cast_rows atof to_int fs left (off # offs) vs = do {
     (rc, row) \<leftarrow> cast_row atof to_int fs (take (off - left) vs);
     if rc \<noteq> SUCCESS then Some (rc, row @ drop (off - left) vs)
     else do {
       (rc, rest) \<leftarrow> cast_rows atof to_int fs off offs (drop (off - left) vs);
       Some (rc, row @ rest)
     }
   }"

definition InsertStmt_create ::
    "(byte list \<Rightarrow> f32) \<Rightarrow> (byte list \<Rightarrow> int option) \<Rightarrow> string option \<Rightarrow> nat list \<Rightarrow> Value list \<Rightarrow> Db \<Rightarrow> TableSys \<Rightarrow> (RC \<times> (nat \<times> nat list \<times> Value list) option) option" where
  "InsertStmt_create atof to_int table_name offsets values db s = (case table_name of
      None \<Rightarrow> Some (INVALID_ARGUMENT, None)
    | Some name \<Rightarrow>
        if offsets = [] then Some (INVALID_ARGUMENT, None)
        else case find_table name db of
          None \<Rightarrow> Some (SCHEMA_TABLE_NOT_EXIST, None)
        | Some tab \<Rightarrow>
            let fs = drop (length (ts_sys_fields s)) (tm_fields (meta_of tab s)) in
            if \<not> row_widths_ok (length fs) 0 offsets then Some (SCHEMA_FIELD_MISSING, None)
            else do {
              (rc, vs) \<leftarrow> cast_rows atof to_int fs 0 offsets values;
              Some (rc, if rc = SUCCESS then Some (tab, offsets, vs) else None)
            })"

section \<open>Values of expressions on a tuple\<close>

type_synonym tuple = "TableMeta \<times> FieldMeta list \<times> mem"

definition const_get_value :: "'w QState \<Rightarrow> nat \<Rightarrow> string \<Rightarrow> AttrType \<Rightarrow> TupleCell \<Rightarrow> RC \<times> TupleCell" where
  "const_get_value q n lit t cell = (case t of
      INTS \<Rightarrow> (SUCCESS, cell_set_int (intValue (exprs q n)) cell)
    | DATES \<Rightarrow> (SUCCESS, (cell_set_int (intValue (exprs q n)) cell)\<lparr>cell_type := DATES\<rparr>)
    | FLOATS \<Rightarrow> (SUCCESS, cell_set_float (floatValue (exprs q n)) cell)
    | CHARS \<Rightarrow> (SUCCESS, cell\<lparr>cell_data := Some (string_mem lit), cell_type := CHARS, cell_length := int (length lit)\<rparr>)
    | NULLS \<Rightarrow> (SUCCESS, cell\<lparr>cell_type := NULLS, cell_null := True\<rparr>)
    | _ \<Rightarrow> (GENERIC_ERROR, cell))"

definition identifier_get_value :: "tuple \<Rightarrow> string \<Rightarrow> string \<Rightarrow> TupleCell \<Rightarrow> (RC \<times> TupleCell) option" where
  "identifier_get_value t tab fld cell = (case t of (m, specs, rec) \<Rightarrow>
     if tm_name m \<noteq> tab then Some (GENERIC_ERROR, cell)
     else case find_field fld specs 0 of
       None \<Rightarrow> Some (GENERIC_ERROR, cell)
     | Some i \<Rightarrow> cell_at m specs rec i cell)"

text \<open>The value is stored back as it is.\<close>

definition negative_get_value :: "AttrType \<Rightarrow> (TupleCell \<Rightarrow> (RC \<times> TupleCell) option) \<Rightarrow> TupleCell \<Rightarrow> (RC \<times> TupleCell) option" where
  "negative_get_value t sub cell =
     (if t = INTS then do {
        (rc, cell) \<leftarrow> sub cell;
        if rc \<noteq> SUCCESS then Some (GENERIC_ERROR, cell)
        else do { v \<leftarrow> getDataAsInt cell; Some (SUCCESS, cell_set_int v cell) }
      }
      else if t = FLOATS then do {
        (rc, cell) \<leftarrow> sub cell;
        if rc \<noteq> SUCCESS then Some (GENERIC_ERROR, cell)
        else do { v \<leftarrow> getDataAsFloat cell; Some (SUCCESS, cell_set_float v cell) }
      }
      else Some (GENERIC_ERROR, cell))"

text \<open>Nulls among the operands are not looked at.\<close>

definition binary_get_value ::
    "AttrType \<Rightarrow> AttrType \<Rightarrow> ExprOp \<Rightarrow> (TupleCell \<Rightarrow> (RC \<times> TupleCell) option) \<Rightarrow> (TupleCell \<Rightarrow> (RC \<times> TupleCell) option) \<Rightarrow> TupleCell \<Rightarrow> (RC \<times> TupleCell) option" where
  "binary_get_value lt rt op left right cell = do {
     (rc, l) \<leftarrow> left cell_new;
     if rc \<noteq> SUCCESS then Some (rc, cell)
     else do {
       (rc, r) \<leftarrow> right cell_new;
       if rc \<noteq> SUCCESS then Some (rc, cell)
       else if lt \<noteq> INTS \<and> lt \<noteq> FLOATS \<or> rt \<noteq> INTS \<and> rt \<noteq> FLOATS then Some (GENERIC_ERROR, cell)
       else if lt = INTS \<and> rt = INTS then do {
         a \<leftarrow> getDataAsInt l;
         b \<leftarrow> getDataAsInt r;
         if op = OP_DIV then Some (SUCCESS, cell_set_float (evaluate_float (f32_of_int a) (f32_of_int b) op) cell)
         else do { v \<leftarrow> evaluate_int a b op; Some (SUCCESS, cell_set_int v cell) }
       }
       else do {
         a \<leftarrow> (if lt = INTS then map_option f32_of_int (getDataAsInt l) else getDataAsFloat l);
         b \<leftarrow> (if rt = INTS then map_option f32_of_int (getDataAsInt r) else getDataAsFloat r);
         Some (SUCCESS, cell_set_float (evaluate_float a b op) cell)
       }
     }
   }"

fun get_value :: "'w QState \<Rightarrow> tuple \<Rightarrow> BaseExpression \<Rightarrow> TupleCell \<Rightarrow> (RC \<times> TupleCell) option" where
  "get_value q t (ConstExpression n lit ty) = (\<lambda>cell. Some (const_get_value q n lit ty cell))"
| "get_value q t (IdentifierExpression n tab fld ty) = identifier_get_value t tab fld"
| "get_value q t (NegativeExpression n e ty) = negative_get_value ty (get_value q t e)"
| "get_value q t (BinaryExpression n a b op ty) = binary_get_value (expr_type q a) (expr_type q b) op (get_value q t a) (get_value q t b)"
| "get_value q t (AggregateFunction n k e) = (\<lambda>cell. Some (SHOULD_NOT_BE_CALLED, cell))"
| "get_value q t (LengthFunction n e) = (\<lambda>cell. Some (UNIMPLENMENT, cell))"
| "get_value q t (RoundFunction n f i) = (\<lambda>cell. Some (UNIMPLENMENT, cell))"
| "get_value q t (DateFormat n d f) = (\<lambda>cell. Some (UNIMPLENMENT, cell))"
| "get_value q t (RelationExpression n x) = (\<lambda>cell. Some (SHOULD_NOT_BE_CALLED, cell))"

section \<open>The predicate operator\<close>

definition pred_result :: "CompOp \<Rightarrow> int \<Rightarrow> bool" where
  "pred_result op c = (case op of
      EQUAL_TO \<Rightarrow> c = 0
    | LIKE \<Rightarrow> c = 0
    | IS \<Rightarrow> c = 0
    | IS_NOT \<Rightarrow> c = 0
    | IN \<Rightarrow> c = 0
    | NOT_IN \<Rightarrow> c = 0
    | LESS_EQUAL \<Rightarrow> c \<le> 0
    | NOT_EQUAL \<Rightarrow> c \<noteq> 0
    | NOT_LIKE \<Rightarrow> c \<noteq> 0
    | LESS_THAN \<Rightarrow> c < 0
    | GREAT_EQUAL \<Rightarrow> c \<ge> 0
    | GREAT_THAN \<Rightarrow> c > 0
    | _ \<Rightarrow> False)"

text \<open>The return codes of \<^verbatim>\<open>get_value\<close> are not looked at, and the units are all taken as a conjunction.\<close>

fun do_predicate :: "(byte list \<Rightarrow> f32) \<Rightarrow> 'w QState \<Rightarrow> tuple \<Rightarrow> FilterUnit list \<Rightarrow> (RC \<times> bool) option" where
  "do_predicate atof q t [] = Some (SUCCESS, True)"
| "do_predicate atof q t (u # us) = do {
     l \<leftarrow> fu_left u;
     r \<leftarrow> fu_right u;
     (_, left) \<leftarrow> get_value q t l cell_new;
     (_, right) \<leftarrow> get_value q t r cell_new;
     (rc, c) \<leftarrow> cell_compare atof left right (fu_comp u);
     if rc \<noteq> SUCCESS then Some (rc, False)
     else if \<not> pred_result (fu_comp u) c then Some (rc, False)
     else do_predicate atof q t us
   }"

definition tuple_of :: "ScanOperatorI \<Rightarrow> TableSys \<Rightarrow> (Record \<times> tuple) option" where
  "tuple_of x s = (case current_tuple x of (tab, specs, rec) \<Rightarrow> do {
     r \<leftarrow> rec;
     Some (r, meta_of tab s, specs, record_data r s)
   })"

partial_function (option) predicate_next ::
    "(byte list \<Rightarrow> f32) \<Rightarrow> 'w QState \<Rightarrow> FilterUnit list \<Rightarrow> ScanOperatorI \<Rightarrow> TableSys \<Rightarrow> (RC \<times> ScanOperatorI \<times> TableSys) option" where
  "predicate_next atof q us x s = do {
     (rc, x, s) \<leftarrow> phys_next x s;
     if rc \<noteq> SUCCESS then Some (rc, x, s)
     else do {
       (_, t) \<leftarrow> tuple_of x s;
       (rc, result) \<leftarrow> do_predicate atof q t us;
       if rc \<noteq> SUCCESS \<or> result then Some (rc, x, s) else predicate_next atof q us x s
     }
   }"


section \<open>The delete operator\<close>

text \<open>Any code that ends the rows of the child counts as their end.\<close>

partial_function (option) delete_rows ::
    "(byte list \<Rightarrow> f32) \<Rightarrow> 'w QState \<Rightarrow> FilterUnit list \<Rightarrow> nat \<Rightarrow> nat option \<Rightarrow> ScanOperatorI \<Rightarrow> TableSys \<Rightarrow> (RC \<times> ScanOperatorI \<times> TableSys) option" where
  "delete_rows atof q us tab trx x s = do {
     (rc, x, s) \<leftarrow> predicate_next atof q us x s;
     if rc \<noteq> SUCCESS then Some (SUCCESS, x, s)
     else do {
       (r, _) \<leftarrow> tuple_of x s;
       (rc, _, s) \<leftarrow> delete_record tab trx r s;
       if rc \<noteq> SUCCESS then Some (rc, x, s) else delete_rows atof q us tab trx x s
     }
   }"

definition delete_open ::
    "(byte list \<Rightarrow> f32) \<Rightarrow> 'w QState \<Rightarrow> FilterUnit list \<Rightarrow> nat \<Rightarrow> nat option \<Rightarrow> ScanOperatorI \<Rightarrow> TableSys \<Rightarrow> (RC \<times> ScanOperatorI \<times> TableSys) option" where
  "delete_open atof q us tab trx x s = do {
     (rc, x, s) \<leftarrow> phys_open x s;
     if rc \<noteq> SUCCESS then Some (rc, x, s) else delete_rows atof q us tab trx x s
   }"

section \<open>The update operator\<close>

type_synonym assignments = "(string option \<times> Value) list"

text \<open>A text is copied with its terminator, whatever the length of the field.\<close>

definition assign_value :: "FieldMeta \<Rightarrow> Value \<Rightarrow> mem \<Rightarrow> mem option" where
  "assign_value f v rec = do {
     d \<leftarrow> val_data v;
     n \<leftarrow> (if val_type v = CHARS then map_option (\<lambda>cs. length cs + 1) (c_string d) else if fm_len f < 0 then None else Some (nat (fm_len f)));
     if fm_offset f < 0 then None else Some (blit rec (nat (fm_offset f)) d n)
   }"

text \<open>
  The first loop: the new values in a copy of the record and their bits in the bitmap of null values.  Values
  of another type are converted in place, for this row and all later ones.
\<close>

fun set_values ::
    "(byte list \<Rightarrow> f32) \<Rightarrow> (byte list \<Rightarrow> int option) \<Rightarrow> FieldMeta list \<Rightarrow> TableMeta \<Rightarrow> assignments \<Rightarrow> mem \<Rightarrow> 32 word \<Rightarrow>
     (RC \<times> assignments \<times> mem \<times> 32 word) option" where
  "set_values atof to_int sys m [] rec w = Some (SUCCESS, [], rec, w)"
| "set_values atof to_int sys m ((name, v) # us) rec w = (case field_and_index sys name m of
     (None, _) \<Rightarrow> Some (SCHEMA_FIELD_NOT_EXIST, (name, v) # us, rec, w)
   | (Some f, i) \<Rightarrow>
       if val_type v = NULLS then
         if fm_nullable f then
           if i < 0 \<or> i > 31 then None
           else do {
             (rc, us, rec, w) \<leftarrow> set_values atof to_int sys m us rec (semiring_bit_operations_class.set_bit (nat (31 - i)) w);
             Some (rc, (name, v) # us, rec, w)
           }
         else Some (SCHEMA_FIELD_NOT_NULL, (name, v) # us, rec, w)
       else do {
         (rc, v) \<leftarrow> (if fm_type f \<noteq> val_type v then type_cast atof to_int v f else Some (SUCCESS, v));
         if rc \<noteq> SUCCESS then Some (rc, (name, v) # us, rec, w)
         else if i < 0 \<or> i > 31 then None
         else do {
           rec \<leftarrow> assign_value f v rec;
           (rc, us, rec, w) \<leftarrow> set_values atof to_int sys m us rec (unset_bit (nat (31 - i)) w);
           Some (rc, (name, v) # us, rec, w)
         }
       })"

text \<open>The second loop: the values in the record itself.\<close>

fun write_values :: "TableMeta \<Rightarrow> assignments \<Rightarrow> mem \<Rightarrow> mem option" where
  "write_values m [] rec = Some rec"
| "write_values m ((name, v) # us) rec =
     (if val_type v = NULLS then write_values m us rec
      else do {
        f \<leftarrow> field_by_name name m;
        rec \<leftarrow> assign_value f v rec;
        write_values m us rec
      })"

definition put_null_map :: "FieldMeta \<Rightarrow> 32 word \<Rightarrow> mem \<Rightarrow> mem option" where
  "put_null_map nul w rec =
     (if fm_offset nul < 0 \<or> fm_len nul < 0 \<or> fm_len nul > 4 then None
      else Some (blit rec (nat (fm_offset nul)) (store_int (\<lambda>_. 0) 0 (uint w)) (nat (fm_len nul))))"

definition update_row ::
    "(byte list \<Rightarrow> f32) \<Rightarrow> (byte list \<Rightarrow> int option) \<Rightarrow> nat \<Rightarrow> nat option \<Rightarrow> assignments \<Rightarrow> mem \<Rightarrow> Record \<Rightarrow> TableSys \<Rightarrow>
     (RC \<times> assignments \<times> mem \<times> TableSys) option" where
  "update_row atof to_int tab trx us buf r s = do {
     let m = meta_of tab s;
     let rec = record_data r s;
     nul \<leftarrow> null_field m;
     if fm_offset nul < 0 then None
     else do {
       (rc, us, new, w) \<leftarrow> set_values atof to_int (ts_sys_fields s) m us (blit buf 0 rec (nat (tm_record_size m)))
           (word_of_int (load_u32 rec (nat (fm_offset nul))));
       if rc \<noteq> SUCCESS then Some (rc, us, new, s)
       else do {
         new \<leftarrow> put_null_map nul w new;
         (unique, s) \<leftarrow> is_unique_key atof tab \<lparr>rec_rid = rec_rid r, rec_ref = Buffer new\<rparr> s;
         if \<not> unique then Some (RECORD_DUPLICATE_KEY, us, new, s)
         else do {
           rec \<leftarrow> put_null_map nul w (record_data r s);
           rec \<leftarrow> write_values m us rec;
           let (r, s) = write_data rec r s;
           (rc, _, s) \<leftarrow> update_record tab trx r s;
           Some (rc, us, new, s)
         }
       }
     }
   }"

partial_function (option) update_rows ::
    "(byte list \<Rightarrow> f32) \<Rightarrow> (byte list \<Rightarrow> int option) \<Rightarrow> 'w QState \<Rightarrow> FilterUnit list \<Rightarrow> nat \<Rightarrow> nat option \<Rightarrow> assignments \<Rightarrow> mem \<Rightarrow>
     ScanOperatorI \<Rightarrow> TableSys \<Rightarrow> (RC \<times> ScanOperatorI \<times> TableSys) option" where
  "update_rows atof to_int q fs tab trx us buf x s = do {
     (rc, x, s) \<leftarrow> predicate_next atof q fs x s;
     if rc \<noteq> SUCCESS then Some (SUCCESS, x, s)
     else do {
       (r, _) \<leftarrow> tuple_of x s;
       (rc, us, buf, s) \<leftarrow> update_row atof to_int tab trx us buf r s;
       if rc \<noteq> SUCCESS then Some (rc, x, s) else update_rows atof to_int q fs tab trx us buf x s
     }
   }"

definition update_open ::
    "(byte list \<Rightarrow> f32) \<Rightarrow> (byte list \<Rightarrow> int option) \<Rightarrow> 'w QState \<Rightarrow> FilterUnit list \<Rightarrow> nat \<Rightarrow> nat option \<Rightarrow> assignments \<Rightarrow>
     ScanOperatorI \<Rightarrow> TableSys \<Rightarrow> (RC \<times> ScanOperatorI \<times> TableSys) option" where
  "update_open atof to_int q fs tab trx us x s = do {
     (rc, x, s) \<leftarrow> phys_open x s;
     if rc \<noteq> SUCCESS then Some (rc, x, s)
     else let (buf, s) = new_mem s in update_rows atof to_int q fs tab trx us buf x s
   }"

section \<open>The range of an index scan\<close>

text \<open>
  The end of \<^verbatim>\<open>try_to_create_index_scan_operator\<close>: the comparison for a constant on the left, the bounds of the scan, and the
  constructor of the operator.
\<close>

definition swap_comp :: "CompOp \<Rightarrow> CompOp" where
  "swap_comp op = (case op of
      LESS_EQUAL \<Rightarrow> GREAT_THAN
    | LESS_THAN \<Rightarrow> GREAT_EQUAL
    | GREAT_EQUAL \<Rightarrow> LESS_THAN
    | GREAT_THAN \<Rightarrow> LESS_EQUAL
    | _ \<Rightarrow> op)"

definition scan_bounds :: "CompOp \<Rightarrow> TupleCell \<Rightarrow> (TupleCell option \<times> bool) \<times> TupleCell option \<times> bool" where
  "scan_bounds op value = (case op of
      EQUAL_TO \<Rightarrow> ((Some value, True), Some value, True)
    | LESS_EQUAL \<Rightarrow> ((None, False), Some value, True)
    | LESS_THAN \<Rightarrow> ((None, False), Some value, False)
    | GREAT_EQUAL \<Rightarrow> ((Some value, True), None, False)
    | GREAT_THAN \<Rightarrow> ((Some value, False), None, False)
    | _ \<Rightarrow> ((None, False), None, False))"

definition index_scan_new :: "nat \<Rightarrow> nat option \<Rightarrow> (TupleCell option \<times> bool) \<times> TupleCell option \<times> bool \<Rightarrow> IndexScanOperator" where
  "index_scan_new tab ix bounds = (case bounds of ((l, li), r, ri) \<Rightarrow>
     \<lparr>io_table = tab, io_index = ix, io_scanner = None, io_record = None, io_specs = [],
      io_left = (case l of None \<Rightarrow> cell_new | Some c \<Rightarrow> c), io_right = (case r of None \<Rightarrow> cell_new | Some c \<Rightarrow> c),
      io_left_inclusive = li, io_right_inclusive = ri\<rparr>)"

section \<open>The execution stage\<close>

text \<open>The database, its tables, the transaction of the session and the answer to the client.\<close>

record ExecState =
  xs_db :: Db
  xs_sys :: TableSys
  xs_trx :: nat
  xs_multi :: bool
  xs_response :: string

definition respond :: "string \<Rightarrow> ExecState \<Rightarrow> ExecState" where
  "respond t x = x\<lparr>xs_response := t @ [CHR 0x0A]\<rparr>"

definition marker_record :: "CLogType \<Rightarrow> ExecState \<Rightarrow> (RC \<times> CLogRecord \<times> ExecState) option" where
  "marker_record type x = do {
     let (u1, s) = new_mem (xs_sys x);
     let (u2, s) = new_mem s;
     (rc, lr, cm) \<leftarrow> clog_gen_record (u1, u2) type (trx_current_id (ts_trxs s (xs_trx x))) None 0 None (ts_clog s);
     Some (rc, lr, x\<lparr>xs_sys := s\<lparr>ts_clog := cm\<rparr>\<rparr>)
   }"

definition append_marker :: "CLogRecord \<Rightarrow> ExecState \<Rightarrow> (RC \<times> ExecState) option" where
  "append_marker lr x = do {
     (rc, cm, w) \<leftarrow> clog_append_record (Some lr) (ts_clog (xs_sys x)) (ts_fs (xs_sys x));
     Some (rc, x\<lparr>xs_sys := (xs_sys x)\<lparr>ts_clog := cm, ts_fs := w\<rparr>\<rparr>)
   }"

definition log_marker :: "CLogType \<Rightarrow> ExecState \<Rightarrow> (RC \<times> ExecState) option" where
  "log_marker type x = do {
     (rc, lr, x) \<leftarrow> marker_record type x;
     if rc \<noteq> SUCCESS then Some (rc, x) else append_marker lr x
   }"

definition advance_trx :: "ExecState \<Rightarrow> ExecState" where
  "advance_trx x =
     (let s = xs_sys x; (t, c) = next_current_id (ts_trxs s (xs_trx x)) (ts_trx_counter s) in
      x\<lparr>xs_sys := (upd_trx (xs_trx x) t s)\<lparr>ts_trx_counter := c\<rparr>\<rparr>)"

text \<open>The end of a statement that changed data: outside of a transaction its commit is logged.\<close>

definition finish_change :: "RC \<Rightarrow> ExecState \<Rightarrow> (RC \<times> ExecState) option" where
  "finish_change rc x =
     (if rc \<noteq> SUCCESS then Some (rc, respond ''FAILURE'' x)
      else if xs_multi x then Some (rc, respond ''SUCCESS'' x)
      else do {
        (rc, x) \<leftarrow> log_marker REDO_MTR_COMMIT x;
        Some (rc, if rc \<noteq> SUCCESS then respond ''FAILURE'' x else respond ''SUCCESS'' (advance_trx x))
      })"

definition do_insert :: "(byte list \<Rightarrow> f32) \<Rightarrow> nat \<times> nat list \<times> Value list \<Rightarrow> ExecState \<Rightarrow> (RC \<times> ExecState) option" where
  "do_insert atof stmt x = (case stmt of (tab, offsets, values) \<Rightarrow> do {
     (rc, s) \<leftarrow> insert_rows atof tab (Some (xs_trx x)) 0 offsets values (xs_sys x);
     finish_change rc (x\<lparr>xs_sys := s\<rparr>)
   })"

definition table_scan_new :: "nat \<Rightarrow> mem \<Rightarrow> ScanOperatorI" where
  "table_scan_new tab raw = TableScan \<lparr>to_table = tab, to_scanner = rfs_new raw, to_record = None, to_specs = []\<rparr>"

text \<open>The destructor of the scan releases its page.\<close>

definition scan_destroy :: "ScanOperatorI \<Rightarrow> TableSys \<Rightarrow> TableSys option" where
  "scan_destroy x s = (case x of TableScan t \<Rightarrow> drop_scanner (to_scanner t) s | IndexScan _ \<Rightarrow> Some s)"

definition do_delete :: "(byte list \<Rightarrow> f32) \<Rightarrow> 'w QState \<Rightarrow> nat \<Rightarrow> FilterUnit list \<Rightarrow> ExecState \<Rightarrow> (RC \<times> ExecState) option" where
  "do_delete atof q tab us x = do {
     let (raw, s) = new_mem (xs_sys x);
     (rc, y, s) \<leftarrow> delete_open atof q us tab (Some (xs_trx x)) (table_scan_new tab raw) s;
     (rc, x) \<leftarrow> finish_change rc (x\<lparr>xs_sys := s\<rparr>);
     s \<leftarrow> scan_destroy y (xs_sys x);
     Some (rc, x\<lparr>xs_sys := s\<rparr>)
   }"

definition do_update ::
    "(byte list \<Rightarrow> f32) \<Rightarrow> (byte list \<Rightarrow> int option) \<Rightarrow> 'w QState \<Rightarrow> nat \<Rightarrow> FilterUnit list \<Rightarrow> assignments \<Rightarrow> ExecState \<Rightarrow> (RC \<times> ExecState) option" where
  "do_update atof to_int q tab fs us x = do {
     let (raw, s) = new_mem (xs_sys x);
     (rc, y, s) \<leftarrow> update_open atof to_int q fs tab (Some (xs_trx x)) us (table_scan_new tab raw) s;
     (rc, x) \<leftarrow> finish_change rc (x\<lparr>xs_sys := s\<rparr>);
     s \<leftarrow> scan_destroy y (xs_sys x);
     Some (rc, x\<lparr>xs_sys := s\<rparr>)
   }"

definition do_begin :: "ExecState \<Rightarrow> (RC \<times> ExecState) option" where
  "do_begin x = do {
     (rc, x) \<leftarrow> log_marker REDO_MTR_BEGIN (x\<lparr>xs_multi := True\<rparr>);
     Some (rc, respond (if rc \<noteq> SUCCESS then ''FAILURE'' else ''SUCCESS'') x)
   }"

text \<open>The commit is logged; the operations of the transaction are not committed.\<close>

definition do_commit :: "ExecState \<Rightarrow> (RC \<times> ExecState) option" where
  "do_commit x = do {
     (rc, lr, x) \<leftarrow> marker_record REDO_MTR_COMMIT (x\<lparr>xs_multi := False\<rparr>);
     if rc \<noteq> SUCCESS then Some (rc, respond ''FAILURE'' x)
     else do {
       (rc, x) \<leftarrow> append_marker lr x;
       Some (rc, advance_trx (respond (if rc \<noteq> SUCCESS then ''FAILURE'' else ''SUCCESS'') x))
     }
   }"

definition do_clog_sync :: "ExecState \<Rightarrow> RC \<times> ExecState" where
  "do_clog_sync x = (case clog_sync (ts_clog (xs_sys x)) (ts_fs (xs_sys x)) of (rc, cm, w) \<Rightarrow>
     (rc, respond (if rc \<noteq> SUCCESS then ''FAILURE'' else ''SUCCESS'') (x\<lparr>xs_sys := (xs_sys x)\<lparr>ts_clog := cm, ts_fs := w\<rparr>\<rparr>)))"

definition do_rollback :: "ExecState \<Rightarrow> ExecState option" where
  "do_rollback x = do {
     (rc, s) \<leftarrow> trx_rollback (xs_trx x) (xs_sys x);
     Some (x\<lparr>xs_sys := s, xs_multi := False, xs_response := strrc rc\<rparr>)
   }"

definition do_create_table :: "(Json \<Rightarrow> string) \<Rightarrow> string \<Rightarrow> AttrInfo list option \<Rightarrow> ExecState \<Rightarrow> (RC \<times> ExecState) option" where
  "do_create_table writer name attributes x = do {
     (rc, db, s) \<leftarrow> create_table writer name attributes (xs_db x) (xs_sys x);
     Some (rc, respond (if rc = SUCCESS then ''SUCCESS'' else ''FAILURE'') (x\<lparr>xs_db := db, xs_sys := s\<rparr>))
   }"

definition do_drop_table :: "string \<Rightarrow> ExecState \<Rightarrow> (RC \<times> ExecState) option" where
  "do_drop_table name x = do {
     (rc, db, s) \<leftarrow> drop_table name (xs_db x) (xs_sys x);
     Some (rc, respond (if rc = SUCCESS then ''SUCCESS'' else ''FAILURE'') (x\<lparr>xs_db := db, xs_sys := s\<rparr>))
   }"

definition do_create_index ::
    "(byte list \<Rightarrow> f32) \<Rightarrow> (Json \<Rightarrow> string) \<Rightarrow> string \<Rightarrow> string option \<Rightarrow> string list \<Rightarrow> int \<Rightarrow> ExecState \<Rightarrow> (RC \<times> ExecState) option" where
  "do_create_index atof writer table_name index_name attributes unique x = (case find_table table_name (xs_db x) of
      None \<Rightarrow> Some (SCHEMA_TABLE_NOT_EXIST, respond ''FAILURE'' x)
    | Some tab \<Rightarrow> do {
        (rc, s) \<leftarrow> tab_create_index atof writer tab None index_name attributes unique (xs_sys x);
        Some (rc, respond (if rc = SUCCESS then ''SUCCESS'' else ''FAILURE'') (x\<lparr>xs_sys := s\<rparr>))
      })"

definition do_show_tables :: "ExecState \<Rightarrow> RC \<times> ExecState" where
  "do_show_tables x =
     (SUCCESS,
      case all_tables (xs_db x) of
        [] \<Rightarrow> respond ''No table'' x
      | ts \<Rightarrow> x\<lparr>xs_response := concat (map (\<lambda>t. t @ [CHR 0x0A]) ts)\<rparr>)"

text \<open>The commands of a transaction; \<^verbatim>\<open>SCF_CLOG_SYNC\<close> has no \<^verbatim>\<open>break\<close>.\<close>

datatype TrxCommand = SCF_BEGIN | SCF_COMMIT | SCF_CLOG_SYNC | SCF_ROLLBACK

definition handle_trx_command :: "TrxCommand \<Rightarrow> ExecState \<Rightarrow> ExecState option" where
  "handle_trx_command c x = (case c of
      SCF_BEGIN \<Rightarrow> map_option snd (do_begin x)
    | SCF_COMMIT \<Rightarrow> map_option snd (do_commit x)
    | SCF_CLOG_SYNC \<Rightarrow> do_rollback (snd (do_clog_sync x))
    | SCF_ROLLBACK \<Rightarrow> do_rollback x)"

text \<open>Running the operators of a query and printing its result.\<close>

definition run_select :: "'w Env \<Rightarrow> (string \<rightharpoonup> string) \<Rightarrow> QueryOperator \<Rightarrow> 'w QState \<Rightarrow> ((RC \<times> string option) \<times> 'w QState) option" where
  "run_select env alias q s = do {
     ((rc, r), s) \<leftarrow> evaluate env q s;
     if rc \<noteq> SUCCESS then Some ((rc, None), s)
     else do {
       r \<leftarrow> r;
       t \<leftarrow> printToStream s alias r;
       (rc, s) \<leftarrow> op_close env q s;
       Some ((rc, if rc \<noteq> SUCCESS then None else Some t), s)
     }
   }"

end
