(* ===== verification/Ob_TupleProps.thy ===== *)
theory Ob_TupleProps
  imports Ob_Tuple Ob_TableProps Ob_ItemArray
begin

text \<open>
  The row that a scan makes of a record shows the values the record was made of.
\<close>

section \<open>Strings in memory\<close>

lemma c_string_from_ends: "m (i + k) = 0 \<Longrightarrow> \<exists>cs. c_string_from m i = Some cs"
proof (induction k arbitrary: i)
  case 0
  then show ?case by (subst c_string_from.simps) simp
next
  case (Suc k)
  then obtain cs where "c_string_from m (Suc i) = Some cs" by fastforce
  then show ?case by (subst c_string_from.simps) simp
qed

lemma c_string_from_prefix:
  assumes "c_string_from m i = Some cs" "\<And>j. j \<le> length cs \<Longrightarrow> m' (i' + j) = m (i + j)"
  shows "c_string_from m' i' = Some cs"
  using assms
proof (induction cs arbitrary: i i')
  case Nil
  have "m i = 0"
    using Nil.prems(1) by (subst (asm) c_string_from.simps) (auto split: if_splits bind_splits)
  then show ?case using Nil.prems(2)[of 0] by (subst c_string_from.simps) simp
next
  case (Cons c cs)
  have c: "m i \<noteq> 0" "m i = c" "c_string_from m (Suc i) = Some cs"
    using Cons.prems(1) by (subst (asm) c_string_from.simps; auto split: if_splits bind_splits)+
  have "m' (Suc i' + j) = m (Suc i + j)" if "j \<le> length cs" for j
    using Cons.prems(2)[of "Suc j"] that by simp
  then have "c_string_from m' (Suc i') = Some cs" using Cons.IH[OF c(3)] by blast
  then show ?case using Cons.prems(2)[of 0] c by (subst c_string_from.simps) simp
qed

section \<open>Values and items\<close>

definition column_ok :: "FieldMeta \<Rightarrow> bool" where
  "column_ok f \<longleftrightarrow> fm_type f \<in> {INTS, DATES, FLOATS, CHARS} \<and> (fm_type f \<noteq> CHARS \<longrightarrow> fm_len f = 4)"

text \<open>A text leaves room for its terminator.\<close>

definition text_fits :: "FieldMeta \<Rightarrow> Value \<Rightarrow> bool" where
  "text_fits f v \<longleftrightarrow> (fm_type f = CHARS \<longrightarrow> (\<forall>d cs. val_data v = Some d \<longrightarrow> c_string d = Some cs \<longrightarrow> int (length cs) < fm_len f))"

definition value_item :: "Value \<Rightarrow> Item option" where
  "value_item v = do {
     d \<leftarrow> val_data v;
     case val_type v of
       INTS \<Rightarrow> Some (IntItem (load_int d 0) False)
     | DATES \<Rightarrow> Some (DateItem (load_int d 0) False)
     | FLOATS \<Rightarrow> Some (FloatItem (load_f32 d) False)
     | CHARS \<Rightarrow> do { cs \<leftarrow> c_string d; Some (TextItem (of_bytes cs) False) }
     | _ \<Rightarrow> None
   }"

definition shows_value :: "Value \<Rightarrow> Item \<Rightarrow> bool" where
  "shows_value v item \<longleftrightarrow> (if val_type v = NULLS then item_isNull item else value_item v = Some item)"

lemma load_u32_at_off:
  assumes "bytes_at r off n = bytes_at d 0 n" "n = 4"
  shows "load_u32 (at_off r off) 0 = load_u32 d 0"
proof -
  have "r (off + j) = d j" if "j < 4" for j
    using arg_cong[OF assms(1), of "\<lambda>bs. bs ! j"] assms(2) that by (simp add: nth_bytes_at)
  from this[of 0] this[of 1] this[of 2] this[of 3] show ?thesis
    by (simp add: load_u32_def at_off_def eval_nat_numeral)
qed

lemma text_at_off:
  assumes "bytes_at r off (length cs + 1) = bytes_at d 0 (length cs + 1)" "c_string d = Some cs"
  shows "c_string (at_off r off) = Some cs"
proof -
  have "at_off r off (0 + j) = d (0 + j)" if "j \<le> length cs" for j
    using arg_cong[OF assms(1), of "\<lambda>bs. bs ! j"] that by (simp add: nth_bytes_at at_off_def)
  then show ?thesis
    using assms(2) unfolding c_string_def by (rule c_string_from_prefix[rotated])
qed

lemma c_string_ends:
  assumes "r k = 0" "off \<le> k"
  shows "\<exists>cs. c_string (at_off r off) = Some cs"
  using c_string_from_ends[of "at_off r off" 0 "k - off"] assms by (simp add: c_string_def at_off_def)

text \<open>The cell of a field that holds a value, or of a null field.\<close>

lemma cell_shows_value:
  assumes "column_ok f" "value_fits f v" "text_fits f v" "r k = 0" "off \<le> k"
    and "val_type v \<noteq> NULLS \<longrightarrow> (\<exists>d n. val_data v = Some d \<and> copy_len f d = Some n \<and> bytes_at r off n = bytes_at d 0 n)"
  shows "\<exists>item. cell_items \<lparr>cell_type = fm_type f, cell_length = fm_len f, cell_data = Some (at_off r off), cell_null = (val_type v = NULLS)\<rparr> = Some [item] \<and>
    shows_value v item"
proof -
  obtain cs where cs: "c_string (at_off r off) = Some cs" using c_string_ends[of r k off] assms(4,5) by blast
  show ?thesis
  proof (cases "val_type v = NULLS")
    case True
    then show ?thesis
      using assms(1) cs by (auto simp: column_ok_def cell_items_def getDataAsInt_def getDataAsFloat_def getDataAsText_def shows_value_def)
  next
    case False
    then obtain d n where d: "val_data v = Some d" "copy_len f d = Some n" "bytes_at r off n = bytes_at d 0 n"
      using assms(6) by auto
    have t: "fm_type f = val_type v" using False assms(2) by (simp add: value_fits_def)
    show ?thesis
    proof (cases "fm_type f = CHARS")
      case True
      then obtain ds where ds: "c_string d = Some ds" using d(1,2) by (auto simp: copy_len_def split: bind_splits)
      then have "int (length ds) < fm_len f" using assms(3) d(1) True by (simp add: text_fits_def)
      then have "n = length ds + 1" using d(2) ds True by (simp add: copy_len_def split: if_splits)
      then have "c_string (at_off r off) = Some ds" using d(3) ds by (intro text_at_off) simp_all
      then show ?thesis
        using True False t d(1) ds by (simp add: cell_items_def getDataAsText_def shows_value_def value_item_def)
    next
      case nt: False
      then have "n = 4" using d(2) assms(1) by (simp add: copy_len_def column_ok_def)
      then have "load_u32 (at_off r off) 0 = load_u32 d 0" using d(3) by (rule load_u32_at_off[rotated])
      then show ?thesis
        using nt False t d(1) assms(1)
        by (auto simp: column_ok_def cell_items_def getDataAsInt_def getDataAsFloat_def shows_value_def value_item_def load_int_def load_f32_def)
    qed
  qed
qed

section \<open>Rows\<close>

lemma row_cells_all:
  assumes "\<forall>i\<in>set is. \<exists>c item. (\<forall>cell. cell_at m specs r (int i) cell = Some (SUCCESS, c)) \<and> cell_items c = Some [item] \<and> P i item"
  shows "\<exists>items. row_cells m specs r is cell row = Some (row @ items) \<and> list_all2 P is items"
  using assms
proof (induction "is" arbitrary: cell row)
  case (Cons i js)
  obtain c item where c: "cell_at m specs r (int i) cell = Some (SUCCESS, c)" "cell_items c = Some [item]" "P i item"
    using Cons.prems by (auto dest: bspec[of _ _ i])
  obtain items where "row_cells m specs r js c (row @ [item]) = Some ((row @ [item]) @ items)" "list_all2 P js items"
    using Cons.IH[of c "row @ [item]"] Cons.prems by auto
  then show ?case using c by auto
qed simp

lemma cell_at_column:
  assumes "has_columns m fs" "i < length fs" "null_bit r 4 (int i) = Some isnull"
  shows "cell_at m (tm_fields m) r (int (2 + i)) cell =
    Some (SUCCESS, \<lparr>cell_type = fm_type (fs ! i), cell_length = fm_len (fs ! i), cell_data = Some (at_off r (nat (fm_offset (fs ! i)))), cell_null = isnull\<rparr>)"
proof -
  have "tm_fields m ! nat (int (2 + i)) = fs ! i" "length (tm_fields m) = 2 + length fs"
    using assms(1) unfolding nat_int by (simp_all add: has_columns_def nth_append sys_fields_simps)
  moreover have "8 \<le> fm_offset (fs ! i)"
    using packed_bounds[of 8 fs "tm_record_size m" i] assms(1,2) by (simp add: has_columns_def)
  ultimately show ?thesis
    using assms columns_simps(2)[OF assms(1)] by (simp add: cell_at_def sys_fields_simps Let_def)
qed

lemma tuple_shows_values:
  assumes "has_columns m fs" "list_all column_ok fs" "list_all2 value_fits fs vs" "list_all2 text_fits fs vs"
    and "holds_values fs vs r" "r k = 0" "tm_record_size m \<le> int k"
  shows "\<exists>row. tupleToRow m (tm_fields m) r = Some row \<and> list_all2 shows_value vs row"
proof -
  have len: "length vs = length fs" using assms(3) by (simp add: list_all2_lengthD)
  have w: "length (tm_fields m) = 2 + length fs"
    using assms(1) by (simp add: has_columns_def sys_fields_simps)
  have "\<exists>c item. (\<forall>cell. cell_at m (tm_fields m) r (int j) cell = Some (SUCCESS, c)) \<and> cell_items c = Some [item] \<and> shows_value (vs ! (j - 2)) item"
    if "j \<in> set [2..<2 + length fs]" for j
  proof -
    define i where "i = j - 2"
    have j: "j = 2 + i" "i < length fs" using that by (auto simp: i_def)
    have "null_bit r 4 (int i) = Some (val_type (vs ! i) = NULLS)"
      using assms(5) j(2) len by (simp add: holds_values_def)
    note c = cell_at_column[OF assms(1) j(2) this]
    have "nat (fm_offset (fs ! i)) \<le> k"
      using packed_bounds[of 8 fs "tm_record_size m" i] assms(1,7) j(2) by (auto simp: has_columns_def)
    then have "\<exists>item. cell_items \<lparr>cell_type = fm_type (fs ! i), cell_length = fm_len (fs ! i), cell_data = Some (at_off r (nat (fm_offset (fs ! i)))),
        cell_null = (val_type (vs ! i) = NULLS)\<rparr> = Some [item] \<and> shows_value (vs ! i) item"
      using assms(2-6) j(2) len
      by (intro cell_shows_value[where k = k]) (auto simp: list_all_length list_all2_conv_all_nth holds_values_def)
    then show ?thesis using c by (auto simp: j(1))
  qed
  then obtain row where row: "tupleToRow m (tm_fields m) r = Some row" "list_all2 (\<lambda>j. shows_value (vs ! (j - 2))) [2..<2 + length fs] row"
    using row_cells_all[of "[2..<2 + length fs]" m "tm_fields m" r "\<lambda>j. shows_value (vs ! (j - 2))" cell_new "[]"]
    by (auto simp: tupleToRow_def w)
  then have "list_all2 shows_value vs row"
    using len by (auto simp: list_all2_conv_all_nth simp del: upt_Suc)
  then show ?thesis using row(1) by blast
qed


lemma copy_len_le:
  assumes "copy_len f d = Some n" "0 < fm_len f"
  shows "int n \<le> fm_len f"
  using assms by (auto simp: copy_len_def split: if_splits bind_splits)

text \<open>A copy of a record holds its values; the number of the transaction may differ.\<close>

lemma holds_values_copy:
  assumes "has_columns m fs" "fs \<noteq> []" "holds_values fs vs r" "\<forall>j. 4 \<le> j \<and> int j < tm_record_size m \<longrightarrow> r' j = r j"
  shows "holds_values fs vs r'"
proof -
  have p: "8 \<le> fm_offset (fs ! i)" "fm_offset (fs ! i) + fm_len (fs ! i) \<le> tm_record_size m" "0 < fm_len (fs ! i)" if "i < length fs" for i
    using packed_bounds[of 8 fs "tm_record_size m" i] assms(1) that by (simp_all add: has_columns_def)
  have size: "8 < tm_record_size m" using p[of 0] assms(2) by auto
  have "null_bit r' 4 i = null_bit r 4 i" for i
    by (rule null_bit_cong) (use assms(4) size in auto)
  moreover have "bytes_at r' (nat (fm_offset (fs ! i))) n = bytes_at r (nat (fm_offset (fs ! i))) n"
    if "i < length fs" "copy_len (fs ! i) d = Some n" for i d n
  proof (rule bytes_at_cong)
    fix j assume "nat (fm_offset (fs ! i)) \<le> j" "j < nat (fm_offset (fs ! i)) + n"
    then have "4 \<le> j" "int j < tm_record_size m"
      using p[OF that(1)] copy_len_le[OF that(2)] by linarith+
    then show "r' j = r j" using assms(4) by blast
  qed
  ultimately show ?thesis
    using assms(3) by (fastforce simp: holds_values_def)
qed

text \<open>
  C7. A row comes back as it was stored: a record made of values that fit the columns of a table, copied into a page
  with any transaction number, becomes a row whose items are null exactly for the null values and equal to the
  other values, provided that each text leaves room for its terminator and a zero byte lies somewhere behind the record (the
  constructor of a text item copies the bytes of a null field up to a terminator).
\<close>

theorem row_round_trip:
  assumes "has_columns m fs" "list_all column_ok fs" "list_all2 value_fits fs vs" "list_all2 text_fits fs vs" "vs \<noteq> []" "length vs \<le> 32"
    and "make_record sys_fields m raw vs = Some (SUCCESS, r)"
    and "\<forall>j. 4 \<le> j \<and> int j < tm_record_size m \<longrightarrow> r' j = r j" and "r' k = 0" "tm_record_size m \<le> int k"
  shows "\<exists>row. tupleToRow m (tm_fields m) r' = Some row \<and> list_all2 shows_value vs row"
proof -
  have "holds_values fs vs r"
    using make_record_ok[OF assms(1,3,5,6), of raw] assms(7) by auto
  moreover have "fs \<noteq> []" using assms(3,5) by auto
  ultimately have "holds_values fs vs r'"
    using holds_values_copy[OF assms(1)] assms(8) by blast
  then show ?thesis
    using tuple_shows_values[OF assms(1-4)] assms(9,10) by blast
qed

text \<open>The row with the number 7 and no name.\<close>

lemma row_round_trip_witness:
  "\<exists>r row. make_record sys_fields demo_table (\<lambda>_. 9) demo_values = Some (SUCCESS, r) \<and>
     tupleToRow demo_table (tm_fields demo_table) (\<lambda>j. if j < 24 then r j else 0) = Some row \<and>
     row ! 0 = IntItem 7 False \<and> item_isNull (row ! 1) \<and> length row = 2"
proof -
  have n: "demo_values \<noteq> []" "length demo_values \<le> 32" by (simp_all add: demo_values_def)
  obtain r where r: "make_record sys_fields demo_table (\<lambda>_. 9) demo_values = Some (SUCCESS, r)"
    using make_record_ok[OF demo_columns demo_values_fit(1) n, of "\<lambda>_. 9"] by blast
  have c: "list_all column_ok (layout 8 demo_attrs)" "list_all2 text_fits (layout 8 demo_attrs) demo_values"
    by (simp_all add: demo_attrs_def demo_values_def column_ok_def text_fits_def value_init_null_def)
  let ?r = "\<lambda>j. if j < 24 then r j else 0"
  obtain row where row: "tupleToRow demo_table (tm_fields demo_table) ?r = Some row" "list_all2 shows_value demo_values row"
    using row_round_trip[OF demo_columns c(1) demo_values_fit(1) c(2) n r, of ?r 24] by (auto simp: demo_record_size)
  then have "row ! 0 = IntItem 7 False" "item_isNull (row ! 1)" "length row = 2"
    by (auto simp: demo_values_def list_all2_Cons1 shows_value_def value_item_def value_init_integer_def value_init_null_def int_mem_def mem_simps)
  then show ?thesis using r row(1) by blast
qed

end
