(* ===== verification/Ob_ExecuteProps.thy ===== *)
theory Ob_ExecuteProps
  imports Ob_Execute Ob_TupleProps
begin

text \<open>
  What the statements that change data do: an update stores the assigned values and keeps the others, and what is left of a
  transaction after its commit.
\<close>

section \<open>The fields of assignments\<close>

lemma field_index_nth:
  assumes "distinct (map fm_name fs)" "i < length fs"
  shows "field_index_from (fm_name (fs ! i)) fs k = Some (fs ! i, k + int i)"
  using assms by (induction fs arbitrary: i k) (auto simp: nth_Cons less_Suc_eq_0_disj split: nat.splits)

lemma find_nth:
  assumes "distinct (map fm_name fs)" "i < length fs"
  shows "List.find (\<lambda>f. fm_name f = fm_name (fs ! i)) fs = Some (fs ! i)"
  using assms by (induction fs arbitrary: i) (auto simp: nth_Cons less_Suc_eq_0_disj split: nat.splits)

definition named_columns :: "TableMeta \<Rightarrow> FieldMeta list \<Rightarrow> bool" where
  "named_columns m fs \<longleftrightarrow> has_columns m fs \<and> list_all column_ok fs \<and> distinct (map fm_name (tm_fields m)) \<and> length fs \<le> 32"

lemma column_by_name:
  assumes "named_columns m fs" "i < length fs"
  shows "field_and_index sys_fields (Some (fm_name (fs ! i))) m = (Some (fs ! i), int i)"
    "field_by_name (Some (fm_name (fs ! i))) m = Some (fs ! i)"
proof -
  have m: "tm_fields m = sys_fields @ fs" "distinct (map fm_name (tm_fields m))"
    using assms(1) unfolding named_columns_def has_columns_def by blast+
  have f: "tm_fields m ! (2 + i) = fs ! i" "2 + i < length (tm_fields m)"
    using m(1) assms(2) by (simp_all add: nth_append sys_fields_simps)
  show "field_and_index sys_fields (Some (fm_name (fs ! i))) m = (Some (fs ! i), int i)"
    using field_index_nth[OF m(2) f(2), of "- 2"] by (simp only: f(1)) (simp add: field_and_index_def sys_fields_simps)
  show "field_by_name (Some (fm_name (fs ! i))) m = Some (fs ! i)"
    using find_nth[OF m(2) f(2)] by (simp only: f(1)) (simp add: field_by_name_def)
qed

text \<open>An assignment by the number of a column, and the values after it.\<close>

definition named :: "FieldMeta list \<Rightarrow> (nat \<times> Value) list \<Rightarrow> assignments" where
  "named fs us = map (\<lambda>(i, v). (Some (fm_name (fs ! i)), v)) us"

definition assigned :: "(nat \<times> Value) list \<Rightarrow> Value list \<Rightarrow> Value list" where
  "assigned us vs = foldl (\<lambda>vs (i, v). vs[i := v]) vs us"

definition assignable :: "FieldMeta list \<Rightarrow> nat \<times> Value \<Rightarrow> bool" where
  "assignable fs u \<longleftrightarrow> (case u of (i, v) \<Rightarrow> i < length fs \<and> value_fits (fs ! i) v \<and> text_fits (fs ! i) v)"

lemma assigned_simps [simp]: "assigned [] vs = vs" "assigned ((i, v) # us) vs = assigned us (vs[i := v])"
  by (simp_all add: assigned_def)

lemma named_simps [simp]: "named fs [] = []" "named fs ((i, v) # us) = (Some (fm_name (fs ! i)), v) # named fs us"
  by (simp_all add: named_def)

lemma length_assigned [simp]: "length (assigned us vs) = length vs"
  by (induction us arbitrary: vs) auto

section \<open>Bytes and bits\<close>

definition holds_bytes :: "FieldMeta list \<Rightarrow> Value list \<Rightarrow> mem \<Rightarrow> bool" where
  "holds_bytes fs vs r \<longleftrightarrow> (\<forall>i < length fs. val_type (vs ! i) \<noteq> NULLS \<longrightarrow>
     (\<exists>d n. val_data (vs ! i) = Some d \<and> copy_len (fs ! i) d = Some n \<and> bytes_at r (nat (fm_offset (fs ! i))) n = bytes_at d 0 n))"

definition holds_bits :: "Value list \<Rightarrow> 32 word \<Rightarrow> bool" where
  "holds_bits vs w \<longleftrightarrow> (\<forall>i < length vs. bit w (31 - i) = (val_type (vs ! i) = NULLS))"

lemma assign_value_copy:
  assumes "value_fits f v" "text_fits f v" "val_type v \<noteq> NULLS" "0 < fm_len f" "0 \<le> fm_offset f"
  obtains d n where "val_data v = Some d" "copy_len f d = Some n" "int n \<le> fm_len f" "assign_value f v r = Some (blit r (nat (fm_offset f)) d n)"
proof -
  obtain d n where d: "val_data v = Some d" "copy_len f d = Some n" "n \<le> nat (fm_len f)"
    using copy_len_fits[OF assms(1,3)] by blast
  have t: "fm_type f = val_type v" using assms(1,3) by (simp add: value_fits_def)
  have "assign_value f v r = Some (blit r (nat (fm_offset f)) d n)"
  proof (cases "fm_type f = CHARS")
    case True
    then obtain cs where cs: "c_string d = Some cs" using d(2) by (auto simp: copy_len_def split: bind_splits)
    then have "int (length cs) < fm_len f" using assms(2) d(1) True by (simp add: text_fits_def)
    then show ?thesis using d(1,2) cs True t assms(5) by (auto simp: assign_value_def copy_len_def)
  next
    case False
    then show ?thesis using d(1,2) t assms(4,5) by (auto simp: assign_value_def copy_len_def)
  qed
  then show thesis using that d assms(4) by simp
qed

lemma holds_bytes_assign:
  assumes "packed 8 fs e" "holds_bytes fs vs r" "i < length fs" "length vs = length fs"
    and "val_data v = Some d" "copy_len (fs ! i) d = Some n" "int n \<le> fm_len (fs ! i)"
  shows "holds_bytes fs (vs[i := v]) (blit r (nat (fm_offset (fs ! i))) d n)"
  unfolding holds_bytes_def
proof (intro allI impI)
  fix j
  assume j: "j < length fs" "val_type (vs[i := v] ! j) \<noteq> NULLS"
  let ?r = "blit r (nat (fm_offset (fs ! i))) d n"
  show "\<exists>c k. val_data (vs[i := v] ! j) = Some c \<and> copy_len (fs ! j) c = Some k \<and> bytes_at ?r (nat (fm_offset (fs ! j))) k = bytes_at c 0 k"
  proof (cases "j = i")
    case True
    then show ?thesis using assms(3-6) by (simp add: bytes_at_blit_same) (simp add: bytes_at_def)
  next
    case False
    then obtain c k where c: "val_data (vs ! j) = Some c" "copy_len (fs ! j) c = Some k" "bytes_at r (nat (fm_offset (fs ! j))) k = bytes_at c 0 k"
      using assms(2) j by (auto simp: holds_bytes_def)
    have p: "8 \<le> fm_offset (fs ! i)" "8 \<le> fm_offset (fs ! j)" "0 < fm_len (fs ! j)"
      using packed_bounds[OF assms(1)] assms(3) j(1) by blast+
    have "fm_offset (fs ! i) + fm_len (fs ! i) \<le> fm_offset (fs ! j) \<or> fm_offset (fs ! j) + fm_len (fs ! j) \<le> fm_offset (fs ! i)"
      using packed_apart[OF assms(1)] False assms(3) j(1) by (meson linorder_neqE_nat)
    then have "bytes_at ?r (nat (fm_offset (fs ! j))) k = bytes_at r (nat (fm_offset (fs ! j))) k"
      using p assms(7) copy_len_le[OF c(2) p(3)] by (intro bytes_at_cong blit_out) linarith
    then show ?thesis using c False by simp
  qed
qed

lemma holds_bytes_null:
  "holds_bytes fs vs r \<Longrightarrow> length vs = length fs \<Longrightarrow> val_type v = NULLS \<Longrightarrow> holds_bytes fs (vs[i := v]) r"
  unfolding holds_bytes_def by (metis nth_list_update_eq nth_list_update_neq)

lemma holds_bits_null:
  assumes "holds_bits vs w" "i < length vs" "length vs \<le> 32"
  shows "val_type v = NULLS \<Longrightarrow> holds_bits (vs[i := v]) (semiring_bit_operations_class.set_bit (31 - i) w)"
    and "val_type v \<noteq> NULLS \<Longrightarrow> holds_bits (vs[i := v]) (unset_bit (31 - i) w)"
  using assms by (auto simp: holds_bits_def nth_list_update bit_set_bit_iff bit_unset_bit_iff)

section \<open>The two loops\<close>

lemma set_values_ok:
  assumes "named_columns m fs" "list_all (assignable fs) us" "holds_bits vs w" "length vs = length fs"
  shows "\<exists>r' w'. set_values atof to_int sys_fields m (named fs us) r w = Some (SUCCESS, named fs us, r', w') \<and> holds_bits (assigned us vs) w'"
  using assms
proof (induction us arbitrary: vs r w)
  case (Cons u us)
  obtain i v where u: "u = (i, v)" by (cases u)
  have v: "i < length fs" "value_fits (fs ! i) v" "text_fits (fs ! i) v" "i \<le> 31" "nat (31 - int i) = 31 - i"
    using Cons.prems(1,2) by (auto simp: u assignable_def named_columns_def)
  have b: "0 < fm_len (fs ! i)" "0 \<le> fm_offset (fs ! i)"
    using packed_bounds[of 8 fs "tm_record_size m" i] Cons.prems(1) v(1) by (auto simp: named_columns_def has_columns_def)
  have bits: "i < length vs" "length vs \<le> 32" using v(1) Cons.prems(1,4) by (simp_all add: named_columns_def)
  note step = Cons.IH[OF Cons.prems(1) _ _] column_by_name(1)[OF Cons.prems(1) v(1)]
  show ?case
  proof (cases "val_type v = NULLS")
    case True
    obtain r' w' where "set_values atof to_int sys_fields m (named fs us) r (semiring_bit_operations_class.set_bit (31 - i) w) = Some (SUCCESS, named fs us, r', w')"
        "holds_bits (assigned us (vs[i := v])) w'"
      using Cons.IH[OF Cons.prems(1) _ holds_bits_null(1)[OF Cons.prems(3) bits True], of r] Cons.prems(2,4) by auto
    then show ?thesis using True v column_by_name(1)[OF Cons.prems(1) v(1)] by (simp add: u value_fits_def)
  next
    case False
    obtain d n where d: "val_data v = Some d" "copy_len (fs ! i) d = Some n" "int n \<le> fm_len (fs ! i)" "assign_value (fs ! i) v r = Some (blit r (nat (fm_offset (fs ! i))) d n)"
      using assign_value_copy[OF v(2,3) False b] by blast
    obtain r' w' where "set_values atof to_int sys_fields m (named fs us) (blit r (nat (fm_offset (fs ! i))) d n) (unset_bit (31 - i) w) = Some (SUCCESS, named fs us, r', w')"
        "holds_bits (assigned us (vs[i := v])) w'"
      using Cons.IH[OF Cons.prems(1) _ holds_bits_null(2)[OF Cons.prems(3) bits False], of "blit r (nat (fm_offset (fs ! i))) d n"] Cons.prems(2,4) by auto
    then show ?thesis using False v d(4) column_by_name(1)[OF Cons.prems(1) v(1)] by (simp add: u value_fits_def)
  qed
qed simp

lemma write_values_ok:
  assumes "named_columns m fs" "list_all (assignable fs) us" "holds_bytes fs vs r" "length vs = length fs"
  shows "\<exists>r'. write_values m (named fs us) r = Some r' \<and> holds_bytes fs (assigned us vs) r' \<and> (\<forall>j<8. r' j = r j)"
  using assms
proof (induction us arbitrary: vs r)
  case (Cons u us)
  obtain i v where u: "u = (i, v)" by (cases u)
  have v: "i < length fs" "value_fits (fs ! i) v" "text_fits (fs ! i) v"
    using Cons.prems(1,2) by (auto simp: u assignable_def)
  have p: "packed 8 fs (tm_record_size m)" using Cons.prems(1) by (simp add: named_columns_def has_columns_def)
  have b: "0 < fm_len (fs ! i)" "0 \<le> fm_offset (fs ! i)" "8 \<le> fm_offset (fs ! i)"
    using packed_bounds[OF p v(1)] by auto
  show ?case
  proof (cases "val_type v = NULLS")
    case True
    then show ?thesis
      using Cons.IH[OF Cons.prems(1) _ holds_bytes_null[OF Cons.prems(3,4) True]] Cons.prems(2,4) by (simp add: u)
  next
    case False
    obtain d n where d: "val_data v = Some d" "copy_len (fs ! i) d = Some n" "int n \<le> fm_len (fs ! i)" "assign_value (fs ! i) v r = Some (blit r (nat (fm_offset (fs ! i))) d n)"
      using assign_value_copy[OF v(2,3) False b(1,2)] by blast
    let ?r = "blit r (nat (fm_offset (fs ! i))) d n"
    have "holds_bytes fs (vs[i := v]) ?r"
      using holds_bytes_assign[OF p Cons.prems(3) v(1) Cons.prems(4) d(1-3)] .
    then obtain r' where "write_values m (named fs us) ?r = Some r'" "holds_bytes fs (assigned us (vs[i := v])) r'" "\<forall>j<8. r' j = ?r j"
      using Cons.IH[OF Cons.prems(1), of "vs[i := v]" ?r] Cons.prems(2,4) by auto
    moreover have "\<forall>j<8. ?r j = r j" using b(3) by (auto simp: blit_def)
    ultimately show ?thesis
      using False d(4) column_by_name(2)[OF Cons.prems(1) v(1)] by (simp add: u)
  qed
qed simp

section \<open>The bitmap\<close>

lemma put_null_map_ok: "put_null_map (sys_fields ! Suc 0) w r = Some (blit r 4 (store_int (\<lambda>_. 0) 0 (uint w)) 4)"
  by (simp add: put_null_map_def sys_fields_simps)

lemma null_bit_word:
  assumes "i \<le> 31" "load_u32 r 4 = uint (w :: 32 word)"
  shows "null_bit r 4 (int i) = Some (bit w (31 - i))"
proof -
  have "nat (31 - int i) = 31 - i" using assms(1) by simp
  moreover have "bit w (31 - i) = bit (uint w) (31 - i)" using bit_imp_le_length[of w "31 - i"] by (auto simp: bit_uint_iff)
  ultimately show ?thesis
    using assms by (simp add: null_bit_def bit_iff_odd[of "uint w"] odd_iff_mod_2_eq_one)
qed

lemma load_u32_word: "load_u32 r i = uint (word_of_int (load_u32 r i) :: 32 word)"
proof -
  have "uint (r k) < 256" for k using uint_lt2p[of "r k"] by simp
  from this[of i] this[of "i + 1"] this[of "i + 2"] this[of "i + 3"] have "0 \<le> load_u32 r i" "load_u32 r i < 2 ^ 32"
    by (simp_all add: load_u32_def)
  then show ?thesis by (simp add: uint_word_of_int)
qed

lemma bits_of_record:
  assumes "holds_values fs vs r" "length vs \<le> 32"
  shows "holds_bits vs (word_of_int (load_u32 r 4))"
  unfolding holds_bits_def
proof (intro allI impI)
  fix i
  assume i: "i < length vs"
  then have "null_bit r 4 (int i) = Some (bit (word_of_int (load_u32 r 4) :: 32 word) (31 - i))"
    using assms(2) by (intro null_bit_word load_u32_word) simp
  then show "bit (word_of_int (load_u32 r 4) :: 32 word) (31 - i) = (val_type (vs ! i) = NULLS)"
    using assms(1) i by (simp add: holds_values_def)
qed

lemma holds_values_stored:
  assumes "holds_bits vs w" "holds_bytes fs vs r" "load_u32 r 4 = uint w" "length vs \<le> 32"
  shows "holds_values fs vs r"
  using assms null_bit_word[OF _ assms(3)] by (simp add: holds_values_def holds_bits_def holds_bytes_def)

lemma null_map_stored:
  assumes "\<forall>j<8. r' j = blit r 4 (store_int (\<lambda>_. 0) 0 (uint (w :: 32 word))) 4 j"
  shows "load_u32 r' 4 = uint w"
proof -
  let ?s = "store_int (\<lambda>_. 0) 0 (uint w)"
  have "r' (4 + j) = ?s j" if "j < 4" for j using assms that by (simp add: blit_def)
  from this[of 0] this[of 1] this[of 2] this[of 3] have "load_u32 r' 4 = load_u32 ?s 0"
    by (simp add: load_u32_def eval_nat_numeral)
  also have "\<dots> = uint w" using uint_lt2p[of w] by (simp add: load_u32_store)
  finally show ?thesis .
qed

section \<open>Updating a row\<close>

lemma write_back_ok:
  assumes m: "named_columns m fs" "list_all (assignable fs) us" and v: "holds_values fs vs r" "length vs = length fs" and w: "holds_bits (assigned us vs) w"
  shows "\<exists>r'. do { r \<leftarrow> put_null_map (sys_fields ! Suc 0) w r; write_values m (named fs us) r } = Some r' \<and>
    holds_values fs (assigned us vs) r' \<and> (\<forall>j<4. r' j = r j)"
proof -
  let ?r = "blit r 4 (store_int (\<lambda>_. 0) 0 (uint w)) 4"
  have p: "packed 8 fs (tm_record_size m)" "length fs \<le> 32" using m(1) by (simp_all add: named_columns_def has_columns_def)
  have "bytes_at ?r (nat (fm_offset (fs ! i))) n = bytes_at r (nat (fm_offset (fs ! i))) n" if "i < length fs" for i n
    using packed_bounds[OF p(1) that] by (intro bytes_at_cong blit_out) linarith
  then have "holds_bytes fs vs ?r" using v(1) by (simp add: holds_bytes_def holds_values_def)
  then obtain r' where r': "write_values m (named fs us) ?r = Some r'" "holds_bytes fs (assigned us vs) r'" "\<forall>j<8. r' j = ?r j"
    using write_values_ok[OF m _ v(2)] by blast
  then have "holds_values fs (assigned us vs) r'"
    using holds_values_stored[OF w r'(2) null_map_stored[OF r'(3)]] v(2) p(2) by simp
  moreover have "\<forall>j<4. r' j = r j" using r'(3) by (simp add: blit_def)
  ultimately show ?thesis using r'(1) by (simp add: put_null_map_ok)
qed

text \<open>
  C8. An update stores what it was told to: on a table without indexes, for a record that holds the values \<open>vs\<close> and
  assignments of values that fit their columns (a text with its terminator), the two loops succeed, no index is asked, and the record that goes
  to \<^verbatim>\<open>Table::update_record\<close> holds the assigned values in their columns, the old ones in all others, the bits of the null values
  that belong to them, and the number of its transaction.
\<close>

theorem update_row_correct:
  assumes "ts_sys_fields s = sys_fields" "tab_indexes (ts_tables s tab) = []" "named_columns (meta_of tab s) fs" "list_all (assignable fs) us"
    and "holds_values fs vs (record_data r s)" "length vs = length fs"
  shows "\<exists>new rec. update_row atof to_int tab trx (named fs us) buf r s =
      (case write_data rec r s of (r', s') \<Rightarrow> map_option (\<lambda>(rc, _, s). (rc, named fs us, new, s)) (update_record tab trx r' s')) \<and>
    holds_values fs (assigned us vs) rec \<and> (\<forall>j<4. rec j = record_data r s j)"
proof -
  let ?m = "meta_of tab s" and ?r = "record_data r s"
  have m: "null_field ?m = Some (sys_fields ! Suc 0)" "length fs \<le> 32"
    using assms(3) columns_simps(2)[of ?m fs] by (simp_all add: named_columns_def)
  have bits: "holds_bits vs (word_of_int (load_u32 ?r 4))"
    using bits_of_record[OF assms(5)] assms(6) m(2) by simp
  obtain new w where set: "set_values atof to_int sys_fields ?m (named fs us) (blit buf 0 ?r (nat (tm_record_size ?m))) (word_of_int (load_u32 ?r 4)) =
      Some (SUCCESS, named fs us, new, w)" "holds_bits (assigned us vs) w"
    using set_values_ok[OF assms(3,4) bits assms(6)] by blast
  obtain rec where rec: "do { r \<leftarrow> put_null_map (sys_fields ! Suc 0) w ?r; write_values ?m (named fs us) r } = Some rec"
      "holds_values fs (assigned us vs) rec" "\<forall>j<4. rec j = ?r j"
    using write_back_ok[OF assms(3-6) set(2)] by blast
  have u: "is_unique_key atof tab x s = Some (True, s)" for x using assms(2) by (simp add: is_unique_key_def)
  obtain r' s' where wd: "write_data rec r s = (r', s')" by (cases "write_data rec r s")
  let ?new = "blit new 4 (store_int (\<lambda>_. 0) 0 (uint w)) 4"
  have "update_row atof to_int tab trx (named fs us) buf r s = map_option (\<lambda>(rc, _, s). (rc, named fs us, ?new, s)) (update_record tab trx r' s')"
    using set(1) rec(1) u wd by (cases "update_record tab trx r' s'") (auto simp: update_row_def m(1) sys_fields_simps assms(1) put_null_map_ok)
  then show ?thesis using rec(2,3) wd by (intro exI[of _ ?new] exI[of _ rec]) simp
qed

text \<open>The row with the number 7 and no name gets the number 9.\<close>

lemma update_row_correct_witness:
  "\<exists>old new rec. make_record sys_fields demo_table (\<lambda>_. 9) demo_values = Some (SUCCESS, old) \<and>
     (let s = demo_sys (bpm_new (demo_os (record_file row_page))); us = [(Some ''id'', value_init_integer 9)] in
      update_row (\<lambda>_. f32_of_bits 0) (\<lambda>_. None) 0 None us (\<lambda>_. 0) \<lparr>rec_rid = mk_rid 1 0, rec_ref = Buffer old\<rparr> s =
        map_option (\<lambda>(rc, _, s). (rc, us, new, s)) (update_record 0 None \<lparr>rec_rid = mk_rid 1 0, rec_ref = Buffer rec\<rparr> s)) \<and>
     holds_values (layout 8 demo_attrs) [value_init_integer 9, demo_values ! 1] rec"
proof -
  let ?s = "demo_sys (bpm_new (demo_os (record_file row_page)))" and ?fs = "layout 8 demo_attrs" and ?us = "[(0, value_init_integer 9)]"
  have n: "demo_values \<noteq> []" "length demo_values \<le> 32" by (simp_all add: demo_values_def)
  obtain old where old: "make_record sys_fields demo_table (\<lambda>_. 9) demo_values = Some (SUCCESS, old)" "holds_values ?fs demo_values old"
    using make_record_ok[OF demo_columns demo_values_fit(1) n, of "\<lambda>_. 9"] by blast
  let ?r = "\<lparr>rec_rid = mk_rid 1 0, rec_ref = Buffer old\<rparr>"
  have m: "meta_of 0 ?s = demo_table" "ts_sys_fields ?s = sys_fields" "tab_indexes (ts_tables ?s 0) = []" "record_data ?r ?s = old"
    by (simp_all add: demo_sys_def record_data_def read_data_def)
  have "tm_fields demo_table = sys_fields @ ?fs" using demo_columns by (simp add: has_columns_def)
  then have "named_columns demo_table ?fs"
    using demo_columns by (simp add: named_columns_def demo_attrs_def column_ok_def sys_fields_def)
  moreover have "list_all (assignable ?fs) ?us"
    by (simp add: assignable_def demo_attrs_def value_fits_def text_fits_def value_init_integer_def)
  moreover have "length demo_values = length ?fs" by (simp add: demo_attrs_def demo_values_def)
  ultimately obtain new rec where u: "update_row (\<lambda>_. f32_of_bits 0) (\<lambda>_. None) 0 None (named ?fs ?us) (\<lambda>_. 0) ?r ?s =
      (case write_data rec ?r ?s of (r', s') \<Rightarrow> map_option (\<lambda>(rc, _, s). (rc, named ?fs ?us, new, s)) (update_record 0 None r' s'))"
      "holds_values ?fs (assigned ?us demo_values) rec"
    using update_row_correct[of ?s 0 ?fs ?us demo_values ?r "\<lambda>_. f32_of_bits 0" "\<lambda>_. None" None "\<lambda>_. 0"] old(2) m by auto
  have "named ?fs ?us = [(Some ''id'', value_init_integer 9)]" "assigned ?us demo_values = [value_init_integer 9, demo_values ! 1]"
    by (simp_all add: demo_attrs_def demo_values_def)
  then show ?thesis using u old(1) by (intro exI[of _ old] exI[of _ new] exI[of _ rec]) (simp add: write_data_def Let_def)
qed

section \<open>Index scans\<close>

text \<open>The integers between the bounds of a scan.\<close>

definition in_bounds :: "IndexScanOperator \<Rightarrow> int \<Rightarrow> bool" where
  "in_bounds x i \<longleftrightarrow>
     (case getDataAsInt (io_left x) of None \<Rightarrow> True | Some a \<Rightarrow> if io_left_inclusive x then a \<le> i else a < i) \<and>
     (case getDataAsInt (io_right x) of None \<Rightarrow> True | Some b \<Rightarrow> if io_right_inclusive x then i \<le> b else i < b)"

lemma scan_bounds_exact:
  assumes "op \<in> {EQUAL_TO, LESS_EQUAL, LESS_THAN, GREAT_EQUAL, GREAT_THAN}" "getDataAsInt c = Some a"
  shows "in_bounds (index_scan_new tab ix (scan_bounds op c)) i = pred_result op (i - a)"
  using assms by (auto simp: in_bounds_def index_scan_new_def scan_bounds_def pred_result_def getDataAsInt_def cell_new_def)

text \<open>With the constant on the left an inequality is negated instead of mirrored: it gets the complement of the range.\<close>

lemma swapped_bounds_exact:
  assumes "op \<in> {LESS_EQUAL, LESS_THAN, GREAT_EQUAL, GREAT_THAN}" "getDataAsInt c = Some a"
  shows "in_bounds (index_scan_new tab ix (scan_bounds (swap_comp op) c)) i \<longleftrightarrow> \<not> pred_result op (i - a)"
proof -
  have "swap_comp op \<in> {EQUAL_TO, LESS_EQUAL, LESS_THAN, GREAT_EQUAL, GREAT_THAN}" using assms(1) by (auto simp: swap_comp_def)
  then show ?thesis using scan_bounds_exact[OF _ assms(2)] assms(1) by (auto simp: swap_comp_def pred_result_def)
qed

section \<open>Transactions\<close>

text \<open>
  A commit only writes its marker: the operations of the transaction stay pending and the pages as they are, so that a
  later rollback of the session undoes them.
\<close>

lemma marker_keeps:
  assumes "marker_record type x = Some (rc, lr, x')"
  shows "ts_trxs (xs_sys x') = ts_trxs (xs_sys x) \<and> ts_bp (xs_sys x') = ts_bp (xs_sys x) \<and> xs_multi x' = xs_multi x"
  using assms by (auto simp: marker_record_def new_mem_def split: bind_splits)

lemma append_keeps:
  assumes "append_marker lr x = Some (rc, x')"
  shows "ts_trxs (xs_sys x') = ts_trxs (xs_sys x) \<and> ts_bp (xs_sys x') = ts_bp (xs_sys x) \<and> xs_multi x' = xs_multi x"
  using assms by (auto simp: append_marker_def split: bind_splits)

lemma advance_trx_keeps:
  "trx_operations (ts_trxs (xs_sys (advance_trx x)) t) = trx_operations (ts_trxs (xs_sys x) t)"
  "ts_bp (xs_sys (advance_trx x)) = ts_bp (xs_sys x)" "xs_multi (advance_trx x) = xs_multi x"
  by (simp_all add: advance_trx_def next_current_id_def upd_trx_def Let_def split: prod.splits)

lemma commit_keeps_operations:
  assumes "do_commit x = Some (rc, x')"
  shows "trx_operations (ts_trxs (xs_sys x') (xs_trx x)) = trx_operations (ts_trxs (xs_sys x) (xs_trx x)) \<and>
    ts_bp (xs_sys x') = ts_bp (xs_sys x) \<and> \<not> xs_multi x'"
  using assms by (auto simp: do_commit_def advance_trx_keeps respond_def dest!: marker_keeps append_keeps split: bind_splits if_splits)

end
