(* ===== verification/Ob_Construct.thy ===== *)
theory Ob_Construct
  imports Ob_Execute
begin

text \<open>
  From the parse tree to the objects of a statement: expressions (\<open>constructExpression\<close> of \<open>src/src/observer/util/util.cpp\<close>,
  \<open>functionFactory\<close> of \<open>sql/expr/expresions/FunctionHelper.cpp\<close> and the constructors) and filters (\<open>sql/stmt/filter_stmt.cpp\<close>).
  A new object takes the next free address; members that its constructor leaves alone keep what the store has at the address.  No
  node of a parse tree has two parents, so the map from nodes to their expressions is never asked for a node twice.
\<close>

section \<open>The state of a planner\<close>

record Plan =
  pl_q :: "table_world QState"
  pl_expr :: nat
  pl_oper :: nat
  pl_scan :: nat
  pl_alias :: "(string \<times> string) list"

type_synonym 'a built = "((RC + 'a) \<times> Plan) option"

text \<open>The next call of a sequence that an error ends.\<close>

definition and_then :: "'a built \<Rightarrow> ('a \<Rightarrow> Plan \<Rightarrow> 'b built) \<Rightarrow> 'b built" where
  "and_then r f = do {
     (x, p) \<leftarrow> r;
     case x of Inl rc \<Rightarrow> Some (Inl rc, p) | Inr x \<Rightarrow> f x p
   }"

definition plan_meta :: "nat \<Rightarrow> Plan \<Rightarrow> TableMeta" where
  "plan_meta t p = meta_of t (fst (world (pl_q p)))"

definition plan_sys :: "Plan \<Rightarrow> nat" where
  "plan_sys p = length (ts_sys_fields (fst (world (pl_q p))))"

record PlanCtx =
  ctx_db :: Db
  ctx_default :: "nat option"
  ctx_tables :: "string \<rightharpoonup> nat"

section \<open>Constructors\<close>

definition base_init :: "EObj \<Rightarrow> EObj" where
  "base_init x = x\<lparr>eo_isNull := False, eo_alias := None, context_map := Map.empty, order_keys := [], sum_float := Map.empty,
     sum_int := Map.empty, count_map := Map.empty, eo_rowFromFather := [], schemasSet := False\<rparr>"

definition new_expr :: "(nat \<Rightarrow> BaseExpression) \<Rightarrow> (EObj \<Rightarrow> EObj) \<Rightarrow> Plan \<Rightarrow> BaseExpression \<times> Plan" where
  "new_expr mk f p =
     (let n = pl_expr p in
      (mk n, p\<lparr>pl_q := upd_expr n (\<lambda>x. f (base_init x)) (pl_q p), pl_expr := Suc n\<rparr>))"

definition mark_bracketed :: "bool \<Rightarrow> BaseExpression \<Rightarrow> Plan \<Rightarrow> Plan" where
  "mark_bracketed b e p = p\<lparr>pl_q := upd_expr (expr_id e) (\<lambda>x. x\<lparr>bracketed := b\<rparr>) (pl_q p)\<rparr>"

definition expr_setAlias :: "string option \<Rightarrow> BaseExpression \<Rightarrow> Plan \<Rightarrow> Plan" where
  "expr_setAlias a e p = p\<lparr>pl_q := upd_expr (expr_id e) (\<lambda>x. x\<lparr>eo_alias := a\<rparr>) (pl_q p)\<rparr>"

text \<open>A number that \<^verbatim>\<open>atoi\<close> does not define has no value.\<close>

definition const_parse :: "(byte list \<Rightarrow> f32) \<Rightarrow> string \<Rightarrow> AttrType \<Rightarrow> (EObj \<Rightarrow> EObj) option" where
  "const_parse atof lit t = (case t of
      INTS \<Rightarrow> map_option (\<lambda>v x. x\<lparr>intValue := v\<rparr>) (atoi lit)
    | DATES \<Rightarrow> map_option (\<lambda>v x. x\<lparr>intValue := v\<rparr>) (atoi lit)
    | FLOATS \<Rightarrow> Some (\<lambda>x. x\<lparr>floatValue := atof (name_bytes lit)\<rparr>)
    | NULLS \<Rightarrow> Some (\<lambda>x. x\<lparr>eo_isNull := True\<rparr>)
    | _ \<Rightarrow> Some id)"

definition new_const :: "(byte list \<Rightarrow> f32) \<Rightarrow> string \<Rightarrow> AttrType \<Rightarrow> Plan \<Rightarrow> (BaseExpression \<times> Plan) option" where
  "new_const atof lit t p = do {
     f \<leftarrow> const_parse atof lit t;
     Some (new_expr (\<lambda>n. ConstExpression n lit t) (\<lambda>x. f (x\<lparr>column := - 1\<rparr>)) p)
   }"

definition new_identifier :: "string \<Rightarrow> string \<Rightarrow> AttrType \<Rightarrow> Plan \<Rightarrow> BaseExpression \<times> Plan" where
  "new_identifier tab fld t = new_expr (\<lambda>n. IdentifierExpression n tab fld t) id"

definition new_negative :: "BaseExpression \<Rightarrow> Plan \<Rightarrow> BaseExpression \<times> Plan" where
  "new_negative e p = new_expr (\<lambda>n. NegativeExpression n e (negative_inferType (expr_type (pl_q p) e))) (\<lambda>x. x\<lparr>column := - 1\<rparr>) p"

definition new_binary :: "BaseExpression \<Rightarrow> BaseExpression \<Rightarrow> ExprOp \<Rightarrow> Plan \<Rightarrow> BaseExpression \<times> Plan" where
  "new_binary l r op p =
     new_expr (\<lambda>n. BinaryExpression n l r op (binary_inferType (expr_type (pl_q p) l) (expr_type (pl_q p) r) op)) (\<lambda>x. x\<lparr>column := - 1\<rparr>) p"

definition agg_type :: "AggKind \<Rightarrow> AttrType \<Rightarrow> AttrType" where
  "agg_type k t = (if k = AggAvg then FLOATS else if k = AggCount \<or> k = AggCountStar then INTS else t)"

definition new_aggregate :: "AggKind \<Rightarrow> BaseExpression \<Rightarrow> Plan \<Rightarrow> BaseExpression \<times> Plan" where
  "new_aggregate k e p =
     new_expr (\<lambda>n. AggregateFunction n k e) (\<lambda>x. x\<lparr>column := - 1, eo_type := agg_type k (expr_type (pl_q p) e)\<rparr>) p"

definition new_function :: "(nat \<Rightarrow> BaseExpression) \<Rightarrow> Plan \<Rightarrow> BaseExpression \<times> Plan" where
  "new_function mk = new_expr mk (\<lambda>x. x\<lparr>column := - 1\<rparr>)"

section \<open>Functions\<close>

definition upper_char :: "char \<Rightarrow> char" where
  "upper_char c = (if 97 \<le> (of_char c :: nat) \<and> (of_char c :: nat) \<le> 122 then char_of ((of_char c :: nat) - 32) else c)"

definition toUpperCase :: "string \<Rightarrow> string" where
  "toUpperCase = map upper_char"

definition aggregate_names :: "(string \<times> AggKind) list" where
  "aggregate_names = [(''MAX'', AggMax), (''MIN'', AggMin), (''SUM'', AggSum), (''AVG'', AggAvg), (''COUNT'', AggCount)]"

text \<open>\<^verbatim>\<open>setSubExpressions\<close>; the parameters come last one first.\<close>

definition set_length :: "BaseExpression list \<Rightarrow> Plan \<Rightarrow> BaseExpression built" where
  "set_length paras p = (case paras of
      [e] \<Rightarrow> Some (if expr_type (pl_q p) e \<noteq> CHARS then (Inl MISMATCH, p)
        else case new_function (\<lambda>n. LengthFunction n e) p of (x, p) \<Rightarrow> (Inr x, p))
    | _ \<Rightarrow> Some (Inl MISMATCH, p))"

definition set_round :: "BaseExpression list \<Rightarrow> Plan \<Rightarrow> BaseExpression built" where
  "set_round paras p = (case paras of
      [f] \<Rightarrow> Some (if \<not> isDigital (expr_type (pl_q p) f) then (Inl MISMATCH, p)
        else case new_function (\<lambda>n. RoundFunction n f None) p of (x, p) \<Rightarrow> (Inr x, p))
    | [i, f] \<Rightarrow> Some (if \<not> isDigital (expr_type (pl_q p) f) \<or> expr_type (pl_q p) i \<noteq> INTS then (Inl MISMATCH, p)
        else case new_function (\<lambda>n. RoundFunction n f (Some i)) p of (x, p) \<Rightarrow> (Inr x, p))
    | _ \<Rightarrow> Some (Inl MISMATCH, p))"

definition set_date_format :: "BaseExpression list \<Rightarrow> Plan \<Rightarrow> BaseExpression built" where
  "set_date_format paras p = (case paras of
      [f, d] \<Rightarrow> Some (if expr_type (pl_q p) d \<noteq> DATES \<or> expr_type (pl_q p) f \<noteq> CHARS then (Inl MISMATCH, p)
        else case new_function (\<lambda>n. DateFormat n d f) p of (x, p) \<Rightarrow> (Inr x, p))
    | _ \<Rightarrow> Some (Inl MISMATCH, p))"

definition functionFactory :: "(byte list \<Rightarrow> f32) \<Rightarrow> string \<Rightarrow> BaseExpression list \<Rightarrow> Plan \<Rightarrow> BaseExpression built" where
  "functionFactory atof funcName paras p = (let name = toUpperCase funcName in
     case map_of aggregate_names name of
       Some k \<Rightarrow> (case paras of
           [e] \<Rightarrow> (case new_aggregate k e p of (x, p) \<Rightarrow> Some (Inr x, p))
         | _ \<Rightarrow> Some (Inl PARA_DISMATCH, p))
     | None \<Rightarrow>
         if name = ''COUNT_STAR'' then do {
           (one, p) \<leftarrow> new_const atof ''1'' INTS p;
           let (x, p) = new_aggregate AggCountStar one p;
           Some (Inr x, p)
         }
         else if name = ''LENGTH'' then set_length paras p
         else if name = ''ROUND'' then set_round paras p
         else if name = ''DATE_FORMAT'' then set_date_format paras p
         else Some (Inl NO_SUCH_FUNC, p))"

section \<open>Fields, lists and subqueries\<close>

text \<open>The name and the table of a field; a field without a table has no meaning when there is no default table.\<close>

definition resolve_field :: "PlanCtx \<Rightarrow> string option \<Rightarrow> Plan \<Rightarrow> (string \<times> nat option) option" where
  "resolve_field c tab p = (case tab of
      None \<Rightarrow> map_option (\<lambda>t. (tm_name (plan_meta t p), Some t)) (ctx_default c)
    | Some n \<Rightarrow> Some (n, case ctx_tables c n of Some t \<Rightarrow> Some t | None \<Rightarrow> find_table n (ctx_db c)))"

definition construct_field :: "PlanCtx \<Rightarrow> string option \<Rightarrow> string \<Rightarrow> Plan \<Rightarrow> BaseExpression built" where
  "construct_field c tab attr p = do {
     (name, t) \<leftarrow> resolve_field c tab p;
     case t of
       None \<Rightarrow> Some (Inl SCHEMA_TABLE_NOT_EXIST, p)
     | Some t \<Rightarrow> (case field_by_name (Some attr) (plan_meta t p) of
           None \<Rightarrow> Some (Inl SCHEMA_FIELD_NOT_EXIST, p)
         | Some f \<Rightarrow> (case new_identifier name attr (fm_type f) p of (x, p) \<Rightarrow> Some (Inr x, p)))
   }"

definition list_item :: "Value \<Rightarrow> Item option" where
  "list_item v = (case val_type v of
      INTS \<Rightarrow> map_option (\<lambda>d. IntItem (load_int d 0) False) (val_data v)
    | DATES \<Rightarrow> map_option (\<lambda>d. DateItem (load_int d 0) False) (val_data v)
    | FLOATS \<Rightarrow> map_option (\<lambda>d. FloatItem (load_f32 d) False) (val_data v)
    | CHARS \<Rightarrow> do { d \<leftarrow> val_data v; cs \<leftarrow> c_string d; Some (TextItem (of_bytes cs) False) }
    | NULLS \<Rightarrow> Some NullItem
    | _ \<Rightarrow> None)"

fun list_row :: "Value list \<Rightarrow> Row option" where
  "list_row [] = Some []"
| "list_row (v # vs) = do { i \<leftarrow> list_item v; r \<leftarrow> list_row vs; Some (i # r) }"

definition new_list :: "Value list \<Rightarrow> Plan \<Rightarrow> (BaseExpression \<times> Plan) option" where
  "new_list vs p = do {
     row \<leftarrow> list_row vs;
     let r = snd (rel_insertRow row (new_relation (map (\<lambda>v. Schema None (val_type v) None) vs)));
     Some (new_expr (\<lambda>n. RelationExpression n None) (\<lambda>x. x\<lparr>column := - 1, eo_relation := Some r\<rparr>) p)
   }"

text \<open>The object of a subquery exists before its statement is made.\<close>

type_synonym subquery = "Selects \<Rightarrow> Plan \<Rightarrow> QueryOperator built"

definition new_subquery :: "subquery \<Rightarrow> Selects \<Rightarrow> Plan \<Rightarrow> BaseExpression built" where
  "new_subquery sub sel p = (let n = pl_expr p in
     and_then (sub sel (snd (new_expr (\<lambda>n. RelationExpression n None) (\<lambda>x. x\<lparr>column := - 1, eo_relation := None\<rparr>) p)))
       (\<lambda>q p. Some (Inr (RelationExpression n (Some q)), p)))"

section \<open>Expressions\<close>

definition is_star :: "Expr list \<Rightarrow> bool" where
  "is_star es = (case es of [e] \<Rightarrow> (case expr_node e of FieldExpression _ attr \<Rightarrow> attr = ''*'' | _ \<Rightarrow> False) | _ \<Rightarrow> False)"

definition finish :: "bool \<Rightarrow> BaseExpression \<Rightarrow> Plan \<Rightarrow> BaseExpression built" where
  "finish br e p = Some (Inr e, mark_bracketed br e p)"

fun construct :: "(byte list \<Rightarrow> f32) \<Rightarrow> subquery \<Rightarrow> PlanCtx \<Rightarrow> Expr \<Rightarrow> Plan \<Rightarrow> BaseExpression built"
and construct_rev :: "(byte list \<Rightarrow> f32) \<Rightarrow> subquery \<Rightarrow> PlanCtx \<Rightarrow> Expr list \<Rightarrow> Plan \<Rightarrow> BaseExpression list built" where
  "construct atof sub c (Expr _ br (BinaryExpr a b op)) p =
     and_then (construct atof sub c a p) (\<lambda>l p. and_then (construct atof sub c b p) (\<lambda>r p.
       case new_binary l r op p of (x, p) \<Rightarrow> finish br x p))"
| "construct atof sub c (Expr _ br (UnaryExpr op a)) p =
     and_then (construct atof sub c a p) (\<lambda>e p.
       if op = OP_ADD then Some (Inr e, p) else case new_negative e p of (x, p) \<Rightarrow> finish br x p)"
| "construct atof sub c (Expr _ br (ConstExpr t lit)) p = do { (x, p) \<leftarrow> new_const atof lit t p; finish br x p }"
| "construct atof sub c (Expr _ br (FieldExpression tab attr)) p = and_then (construct_field c tab attr p) (finish br)"
| "construct atof sub c (Expr _ br (FuncExpr name es)) p =
     (if is_star es then
        if toUpperCase name \<noteq> ''COUNT'' then Some (Inl GENERIC_ERROR, p)
        else and_then (functionFactory atof ''COUNT_STAR'' [] p) (finish br)
      else and_then (construct_rev atof sub c es p) (\<lambda>paras p. and_then (functionFactory atof name paras p) (finish br)))"
| "construct atof sub c (Expr _ br (ListExpr vs)) p = do { (x, p) \<leftarrow> new_list vs p; finish br x p }"
| "construct atof sub c (Expr _ br (SelectExpr sel)) p = new_subquery sub sel p"
| "construct_rev atof sub c [] p = Some (Inr [], p)"
| "construct_rev atof sub c (e # es) p =
     and_then (construct_rev atof sub c es p) (\<lambda>xs p. and_then (construct atof sub c e p) (\<lambda>x p. Some (Inr (xs @ [x]), p)))"

text \<open>\<^verbatim>\<open>constructExpression\<close> answers any error with a null pointer.\<close>

definition constructExpression :: "(byte list \<Rightarrow> f32) \<Rightarrow> subquery \<Rightarrow> PlanCtx \<Rightarrow> Expr \<Rightarrow> Plan \<Rightarrow> (BaseExpression option \<times> Plan) option" where
  "constructExpression atof sub c e p = do {
     (r, p) \<leftarrow> construct atof sub c e p;
     Some (case r of
         Inl _ \<Rightarrow> (None, p)
       | Inr x \<Rightarrow> (Some x, case expr_alias e of None \<Rightarrow> p | a \<Rightarrow> expr_setAlias a x p))
   }"

section \<open>Filters\<close>

definition unit_side :: "(byte list \<Rightarrow> f32) \<Rightarrow> subquery \<Rightarrow> PlanCtx \<Rightarrow> Expr option \<Rightarrow> Plan \<Rightarrow> BaseExpression built" where
  "unit_side atof sub c e p = do {
     e \<leftarrow> e;
     (x, p) \<leftarrow> constructExpression atof sub c e p;
     Some (case x of None \<Rightarrow> Inl EXPR_PARSE_ERROR | Some x \<Rightarrow> Inr x, p)
   }"

definition leaf_unit :: "(byte list \<Rightarrow> f32) \<Rightarrow> subquery \<Rightarrow> PlanCtx \<Rightarrow> Condition \<Rightarrow> Plan \<Rightarrow> FilterUnit built" where
  "leaf_unit atof sub c cond p =
     (if cond_comp cond = EXISTS \<or> cond_comp cond = NOT_EXISTS then
        and_then (unit_side atof sub c (cond_right cond) p) (\<lambda>r p. Some (Inr (FilterUnit (cond_comp cond) None (Some r) (- 1) (- 1)), p))
      else and_then (unit_side atof sub c (cond_left cond) p) (\<lambda>l p. and_then (unit_side atof sub c (cond_right cond) p)
        (\<lambda>r p. Some (Inr (FilterUnit (cond_comp cond) (Some l) (Some r) (- 1) (- 1)), p))))"

definition create_filter_unit :: "(byte list \<Rightarrow> f32) \<Rightarrow> subquery \<Rightarrow> PlanCtx \<Rightarrow> Condition \<Rightarrow> Plan \<Rightarrow> FilterUnit built" where
  "create_filter_unit atof sub c cond p =
     (if cond_comp cond = NO_OP then Some (Inl INVALID_ARGUMENT, p) else leaf_unit atof sub c cond p)"

fun create_units :: "(byte list \<Rightarrow> f32) \<Rightarrow> subquery \<Rightarrow> PlanCtx \<Rightarrow> Condition list \<Rightarrow> Plan \<Rightarrow> FilterUnit list built" where
  "create_units atof sub c [] p = Some (Inr [], p)"
| "create_units atof sub c (cond # conds) p =
     and_then (create_filter_unit atof sub c cond p) (\<lambda>u p. and_then (create_units atof sub c conds p) (\<lambda>us p. Some (Inr (u # us), p)))"

definition FilterStmt_create :: "(byte list \<Rightarrow> f32) \<Rightarrow> subquery \<Rightarrow> PlanCtx \<Rightarrow> Condition list \<Rightarrow> Plan \<Rightarrow> FilterStmt built" where
  "FilterStmt_create atof sub c conds p = and_then (create_units atof sub c conds p) (\<lambda>us p. Some (Inr (FilterStmt us False), p))"

text \<open>
  The tree below a condition: the units pushed so far grow, \<^verbatim>\<open>idx\<close> is the number of the next one.  The unit of
  the condition itself is left to the caller.
\<close>

partial_function (option) create_filter_unit_tree ::
    "(byte list \<Rightarrow> f32) \<Rightarrow> subquery \<Rightarrow> PlanCtx \<Rightarrow> Condition list \<Rightarrow> int \<Rightarrow> FilterUnit list \<Rightarrow> int \<Rightarrow> Plan \<Rightarrow>
     ((RC + FilterUnit) \<times> FilterUnit list \<times> int \<times> Plan) option" where
  "create_filter_unit_tree atof sub c conds cur us idx p =
     (if cur < 0 \<or> cur \<ge> int (length conds) then None
      else let cond = conds ! nat cur; comp = cond_comp cond in
        if comp = NO_OP then Some (Inl INVALID_ARGUMENT, us, idx, p)
        else if comp = AND_OP \<or> comp = OR_OP then do {
          (l, us, idx, p) \<leftarrow> create_filter_unit_tree atof sub c conds (leftChild cond) us idx p;
          case l of
            Inl rc \<Rightarrow> Some (Inl rc, us, idx, p)
          | Inr l \<Rightarrow> do {
              let left = idx;
              (r, us, idx, p) \<leftarrow> create_filter_unit_tree atof sub c conds (rightChild cond) (us @ [l]) (idx + 1) p;
              case r of
                Inl rc \<Rightarrow> Some (Inl rc, us, idx, p)
              | Inr r \<Rightarrow> Some (Inr (FilterUnit comp None None left idx), us @ [r], idx + 1, p)
            }
        }
        else do {
          (u, p) \<leftarrow> leaf_unit atof sub c cond p;
          Some (u, us, idx, p)
        })"

definition FilterStmt_create_tree :: "(byte list \<Rightarrow> f32) \<Rightarrow> subquery \<Rightarrow> PlanCtx \<Rightarrow> Condition list \<Rightarrow> Plan \<Rightarrow> FilterStmt built" where
  "FilterStmt_create_tree atof sub c conds p =
     (if conds = [] then Some (Inr (FilterStmt [] False), p)
      else do {
        (u, us, _, p) \<leftarrow> create_filter_unit_tree atof sub c conds (int (length conds) - 1) [] 0 p;
        Some (case u of Inl rc \<Rightarrow> Inl rc | Inr u \<Rightarrow> Inr (FilterStmt (us @ [u]) True), p)
      })"

end
