(* ===== verification/Ob_Plan.thy ===== *)
theory Ob_Plan
  imports Ob_Construct
begin

text \<open>
  The statement of a query and its operators (\<open>src/src/observer/sql/stmt/select_stmt.cpp\<close>), the statements that delete and update
  (\<open>delete_stmt.cpp\<close>, \<open>update_stmt.cpp\<close>) and \<^verbatim>\<open>ExecuteStage::do_select\<close>.  A subquery makes its own statement, so
  \<open>select_plan\<close> is recursive; its first argument bounds the depth of subqueries.  Hash maps
  are lists of pairs; the order in which C++ iterates over one is left open there, and here it is the order of insertion.
\<close>

section \<open>Tables and aliases\<close>

text \<open>The tables of a chain of joins from the first to the last; the aliases are met from the last to the first.\<close>

fun join_names :: "InnerJoinNode \<Rightarrow> string list" where
  "join_names (InnerJoinNode None a t cs) = [t]"
| "join_names (InnerJoinNode (Some l) a t cs) = join_names l @ [t]"

fun join_aliases :: "InnerJoinNode \<Rightarrow> (string \<times> string) list \<Rightarrow> (string \<times> string) list" where
  "join_aliases (InnerJoinNode l a t cs) m =
     (let m = (case a of None \<Rightarrow> m | Some x \<Rightarrow> AList.update t x m) in
      case l of None \<Rightarrow> m | Some l \<Rightarrow> join_aliases l m)"

fun add_tables :: "Db \<Rightarrow> string list \<Rightarrow> (string \<rightharpoonup> nat) \<Rightarrow> nat list \<Rightarrow> RC + (string \<rightharpoonup> nat) \<times> nat list" where
  "add_tables db [] tm ts = Inr (tm, ts)"
| "add_tables db (n # ns) tm ts =
     (if tm n \<noteq> None then add_tables db ns tm ts
      else case find_table n db of
        None \<Rightarrow> Inl SCHEMA_TABLE_NOT_EXIST
      | Some t \<Rightarrow> add_tables db ns (tm(n \<mapsto> t)) (ts @ [t]))"

definition constructTableMap :: "Db \<Rightarrow> InnerJoinNode list \<Rightarrow> RC + (string \<rightharpoonup> nat) \<times> nat list \<times> (string \<times> string) list" where
  "constructTableMap db joins = (case add_tables db (concat (map join_names joins)) Map.empty [] of
      Inl rc \<Rightarrow> Inl rc
    | Inr (tm, ts) \<Rightarrow> Inr (tm, ts, fold join_aliases joins []))"

text \<open>The multimap from aliases to tables.\<close>

type_synonym alias_map = "(string \<times> string) list"

definition alias_count :: "string \<Rightarrow> alias_map \<Rightarrow> nat" where
  "alias_count a m = length (filter (\<lambda>(k, _). k = a) m)"

definition checkAliasRepeat :: "alias_map \<Rightarrow> bool" where
  "checkAliasRepeat m = list_all (\<lambda>(k, _). k = [] \<or> alias_count k m \<le> 1) m"

fun revertTableName :: "alias_map \<Rightarrow> Expr \<Rightarrow> RC + Expr"
and revert_all :: "alias_map \<Rightarrow> Expr list \<Rightarrow> RC + Expr list" where
  "revertTableName m (Expr al br (BinaryExpr a b op)) = (case revertTableName m a of
      Inl rc \<Rightarrow> Inl rc
    | Inr a \<Rightarrow> (case revertTableName m b of Inl rc \<Rightarrow> Inl rc | Inr b \<Rightarrow> Inr (Expr al br (BinaryExpr a b op))))"
| "revertTableName m (Expr al br (UnaryExpr op a)) = (case revertTableName m a of
      Inl rc \<Rightarrow> Inl rc | Inr a \<Rightarrow> Inr (Expr al br (UnaryExpr op a)))"
| "revertTableName m (Expr al br (FuncExpr f es)) = (case revert_all m es of
      Inl rc \<Rightarrow> Inl rc | Inr es \<Rightarrow> Inr (Expr al br (FuncExpr f es)))"
| "revertTableName m (Expr al br (FieldExpression tab attr)) = (case tab of
      None \<Rightarrow> Inr (Expr al br (FieldExpression tab attr))
    | Some n \<Rightarrow>
        if alias_count n m > 1 then Inl GENERIC_ERROR
        else Inr (Expr al br (FieldExpression (case map_of m n of Some t \<Rightarrow> if t \<noteq> [] then Some t else tab | None \<Rightarrow> tab) attr)))"
| "revertTableName m (Expr al br (ConstExpr t lit)) = Inr (Expr al br (ConstExpr t lit))"
| "revertTableName m (Expr al br (ListExpr vs)) = Inr (Expr al br (ListExpr vs))"
| "revertTableName m (Expr al br (SelectExpr sel)) = Inr (Expr al br (SelectExpr sel))"
| "revert_all m [] = Inr []"
| "revert_all m (e # es) = (case revertTableName m e of
      Inl rc \<Rightarrow> Inl rc
    | Inr e \<Rightarrow> (case revert_all m es of Inl rc \<Rightarrow> Inl rc | Inr es \<Rightarrow> Inr (e # es)))"

definition revert_option :: "alias_map \<Rightarrow> Expr option \<Rightarrow> RC + Expr option" where
  "revert_option m eo = (case eo of
      None \<Rightarrow> Inr None
    | Some e \<Rightarrow> (case revertTableName m e of Inl rc \<Rightarrow> Inl rc | Inr e \<Rightarrow> Inr (Some e)))"

fun revert_conditions :: "alias_map \<Rightarrow> Condition list \<Rightarrow> RC + Condition list" where
  "revert_conditions m [] = Inr []"
| "revert_conditions m (Condition l op r a b # cs) = (case revert_option m l of
      Inl rc \<Rightarrow> Inl rc
    | Inr l \<Rightarrow> (case revert_option m r of
        Inl rc \<Rightarrow> Inl rc
      | Inr r \<Rightarrow> (case revert_conditions m cs of Inl rc \<Rightarrow> Inl rc | Inr cs \<Rightarrow> Inr (Condition l op r a b # cs))))"

fun revert_order :: "alias_map \<Rightarrow> OrderExpression list \<Rightarrow> RC + OrderExpression list" where
  "revert_order m [] = Inr []"
| "revert_order m (OrderExpression asc e # ords) = (case revert_option m e of
      Inl rc \<Rightarrow> Inl rc
    | Inr e \<Rightarrow> (case revert_order m ords of Inl rc \<Rightarrow> Inl rc | Inr ords \<Rightarrow> Inr (OrderExpression asc e # ords)))"

section \<open>The fields of a query\<close>

text \<open>The table and the column of a leaf; the members of another node are not the ones of a field.\<close>

definition leaf_field :: "Expr \<Rightarrow> (string option \<times> string) option" where
  "leaf_field e = (case expr_node e of FieldExpression t a \<Rightarrow> Some (t, a) | _ \<Rightarrow> None)"

definition or_default :: "string option \<Rightarrow> string option \<Rightarrow> string option" where
  "or_default t d = (case t of None \<Rightarrow> d | _ \<Rightarrow> t)"

text \<open>Whether the field is there already; the name of a table is compared with a null pointer when there is no default.\<close>

fun has_leaf :: "string option \<Rightarrow> string option \<Rightarrow> string \<Rightarrow> Expr list \<Rightarrow> bool option" where
  "has_leaf d t a [] = Some False"
| "has_leaf d t a (e # es) = do {
     (t', a') \<leftarrow> leaf_field e;
     case or_default t' d of
       None \<Rightarrow> has_leaf d t a es
     | Some n \<Rightarrow> do {
         n' \<leftarrow> or_default t d;
         if n = n' \<and> a' = a then Some True else has_leaf d t a es
       }
   }"

fun getExpressionLeafs :: "string option \<Rightarrow> Expr \<Rightarrow> Expr list \<Rightarrow> Expr list option"
and leafs_of :: "string option \<Rightarrow> Expr list \<Rightarrow> Expr list \<Rightarrow> Expr list option" where
  "getExpressionLeafs d (Expr al br (BinaryExpr a b op)) ls = do { ls \<leftarrow> getExpressionLeafs d a ls; getExpressionLeafs d b ls }"
| "getExpressionLeafs d (Expr al br (UnaryExpr op a)) ls = getExpressionLeafs d a ls"
| "getExpressionLeafs d (Expr al br (FieldExpression t a)) ls =
     (if a = ''*'' then Some ls
      else do {
        found \<leftarrow> has_leaf d t a ls;
        Some (if found then ls else ls @ [Expr al br (FieldExpression t a)])
      })"
| "getExpressionLeafs d (Expr al br (FuncExpr f es)) ls = leafs_of d es ls"
| "getExpressionLeafs d (Expr al br (ConstExpr t lit)) ls = Some ls"
| "getExpressionLeafs d (Expr al br (ListExpr vs)) ls = Some ls"
| "getExpressionLeafs d (Expr al br (SelectExpr sel)) ls = Some ls"
| "leafs_of d [] ls = Some ls"
| "leafs_of d (e # es) ls = do { ls \<leftarrow> getExpressionLeafs d e ls; leafs_of d es ls }"

definition leafs_option :: "string option \<Rightarrow> Expr option \<Rightarrow> Expr list \<Rightarrow> Expr list option" where
  "leafs_option d e ls = (case e of None \<Rightarrow> Some ls | Some e \<Rightarrow> getExpressionLeafs d e ls)"

text \<open>
  \<^verbatim>\<open>type == FIE || strcmp(attr_name, "*") == 0\<close>: for another node the second test reads the bytes of its own members.  In an operator or a function
  these are a pointer to memory that does not begin with a star, in a constant they are its literal, and in a list and in a
  subquery no pointer at all.
\<close>

definition looks_like_field :: "Expr \<Rightarrow> bool option" where
  "looks_like_field e = (case expr_node e of
      FieldExpression _ _ \<Rightarrow> Some True
    | ConstExpr _ lit \<Rightarrow> Some (lit = ''*'')
    | ListExpr _ \<Rightarrow> None
    | SelectExpr _ \<Rightarrow> None
    | _ \<Rightarrow> Some False)"

fun select_leafs :: "string option \<Rightarrow> Expr list \<Rightarrow> Expr list \<Rightarrow> Expr list option" where
  "select_leafs d [] ls = Some ls"
| "select_leafs d (e # es) ls = do {
     b \<leftarrow> looks_like_field e;
     ls \<leftarrow> (if b then Some (ls @ [e]) else getExpressionLeafs d e ls);
     select_leafs d es ls
   }"

fun condition_leafs :: "string option \<Rightarrow> Condition list \<Rightarrow> Expr list \<Rightarrow> Expr list option" where
  "condition_leafs d [] ls = Some ls"
| "condition_leafs d (c # cs) ls = do {
     ls \<leftarrow> leafs_option d (cond_left c) ls;
     ls \<leftarrow> leafs_option d (cond_right c) ls;
     condition_leafs d cs ls
   }"

type_synonym query_field = "nat \<times> FieldMeta"

definition wildcard_fields :: "Plan \<Rightarrow> nat \<Rightarrow> query_field list" where
  "wildcard_fields p t = map (\<lambda>f. (t, f)) (drop (plan_sys p) (tm_fields (plan_meta t p)))"

definition one_field :: "Plan \<Rightarrow> nat \<Rightarrow> string \<Rightarrow> RC + query_field list" where
  "one_field p t attr = (case field_by_name (Some attr) (plan_meta t p) of None \<Rightarrow> Inl SCHEMA_FIELD_MISSING | Some f \<Rightarrow> Inr [(t, f)])"

text \<open>The fields of one leaf; a table that is not known is a null pointer.\<close>

definition leaf_fields :: "Db \<Rightarrow> alias_map \<Rightarrow> (string \<rightharpoonup> nat) \<Rightarrow> nat list \<Rightarrow> Plan \<Rightarrow> Expr \<Rightarrow> (RC + query_field list) option" where
  "leaf_fields db m tm ts p e = (case leaf_field e of
      None \<Rightarrow> Some (Inr [])
    | Some (tab, attr) \<Rightarrow>
        if is_blank tab then
          if attr = ''*'' then Some (if checkAliasRepeat m then Inr (concat (map (wildcard_fields p) ts)) else Inl ALIAS_REPEAT)
          else (case ts of [t] \<Rightarrow> Some (one_field p t attr) | _ \<Rightarrow> Some (Inl SCHEMA_FIELD_MISSING))
        else do {
          n \<leftarrow> tab;
          if n = ''*'' then
            Some (if attr \<noteq> ''*'' then Inl SCHEMA_FIELD_MISSING
                  else if checkAliasRepeat m then Inr (concat (map (wildcard_fields p) ts)) else Inl ALIAS_REPEAT)
          else do {
            t \<leftarrow> (case tm n of None \<Rightarrow> find_table n db | t \<Rightarrow> t);
            Some (if attr = ''*'' then Inr (wildcard_fields p t) else one_field p t attr)
          }
        })"

fun query_fields_of :: "Db \<Rightarrow> alias_map \<Rightarrow> (string \<rightharpoonup> nat) \<Rightarrow> nat list \<Rightarrow> Plan \<Rightarrow> Expr list \<Rightarrow> (RC + query_field list) option" where
  "query_fields_of db m tm ts p [] = Some (Inr [])"
| "query_fields_of db m tm ts p (e # es) = do {
     fs \<leftarrow> leaf_fields db m tm ts p e;
     case fs of
       Inl rc \<Rightarrow> Some (Inl rc)
     | Inr fs \<Rightarrow> do {
         gs \<leftarrow> query_fields_of db m tm ts p es;
         Some (case gs of Inl rc \<Rightarrow> Inl rc | Inr gs \<Rightarrow> Inr (fs @ gs))
       }
   }"

section \<open>The expressions of a query\<close>

fun new_columns :: "string \<Rightarrow> FieldMeta list \<Rightarrow> Plan \<Rightarrow> BaseExpression list \<times> Plan" where
  "new_columns tab [] p = ([], p)"
| "new_columns tab (f # fs) p =
     (let (x, p) = new_identifier tab (fm_name f) (fm_type f) p; (xs, p) = new_columns tab fs p in (x # xs, p))"

definition expandStar :: "nat \<Rightarrow> Plan \<Rightarrow> BaseExpression list \<times> Plan" where
  "expandStar t p = new_columns (tm_name (plan_meta t p)) (drop (plan_sys p) (tm_fields (plan_meta t p))) p"

fun expand_all :: "nat list \<Rightarrow> Plan \<Rightarrow> BaseExpression list \<times> Plan" where
  "expand_all [] p = ([], p)"
| "expand_all (t # ts) p = (let (xs, p) = expandStar t p; (ys, p) = expand_all ts p in (xs @ ys, p))"

definition star_table :: "alias_map \<Rightarrow> string \<Rightarrow> RC + string" where
  "star_table m n = (if alias_count n m = 0 then Inr n
     else if alias_count n m \<noteq> 1 then Inr (case map_of m n of Some t \<Rightarrow> t | None \<Rightarrow> n)
     else Inl GENERIC_ERROR)"

definition select_expression ::
    "(byte list \<Rightarrow> f32) \<Rightarrow> subquery \<Rightarrow> PlanCtx \<Rightarrow> alias_map \<Rightarrow> nat list \<Rightarrow> Expr \<Rightarrow> Plan \<Rightarrow> BaseExpression list built" where
  "select_expression atof sub c m ts e p = (case leaf_field e of
      Some (tab, attr) \<Rightarrow>
        if attr = ''*'' then
          if expr_alias e \<noteq> None then Some (Inl ERROR_ALIAS, p)
          else if tab = None \<or> tab = Some ''*'' then (case expand_all ts p of (xs, p) \<Rightarrow> Some (Inr xs, p))
          else (case star_table m (the tab) of
              Inl rc \<Rightarrow> Some (Inl rc, p)
            | Inr n \<Rightarrow> do { t \<leftarrow> ctx_tables c n; let (xs, p) = expandStar t p; Some (Inr xs, p) })
        else do {
          (x, p) \<leftarrow> constructExpression atof sub c e p;
          Some (Inr (case x of None \<Rightarrow> [] | Some x \<Rightarrow> [x]), p)
        }
    | None \<Rightarrow> do {
        (x, p) \<leftarrow> constructExpression atof sub c e p;
        Some (case x of None \<Rightarrow> Inl MISMATCH | Some x \<Rightarrow> Inr [x], p)
      })"

fun select_expressions ::
    "(byte list \<Rightarrow> f32) \<Rightarrow> subquery \<Rightarrow> PlanCtx \<Rightarrow> alias_map \<Rightarrow> nat list \<Rightarrow> Expr list \<Rightarrow> Plan \<Rightarrow> BaseExpression list built" where
  "select_expressions atof sub c m ts [] p = Some (Inr [], p)"
| "select_expressions atof sub c m ts (e # es) p =
     and_then (select_expression atof sub c m ts e p) (\<lambda>xs p. and_then (select_expressions atof sub c m ts es p) (\<lambda>ys p. Some (Inr (xs @ ys), p)))"

section \<open>Joins, groups and order\<close>

datatype InnerJoin = InnerJoin (ij_left: "InnerJoin option") (ij_right: nat) (ij_filter: "FilterStmt option")

fun creatInnerJoin :: "(byte list \<Rightarrow> f32) \<Rightarrow> subquery \<Rightarrow> PlanCtx \<Rightarrow> InnerJoinNode \<Rightarrow> Plan \<Rightarrow> InnerJoin built" where
  "creatInnerJoin atof sub c (InnerJoinNode None a t cs) p = do { t \<leftarrow> ctx_tables c t; Some (Inr (InnerJoin None t None), p) }"
| "creatInnerJoin atof sub c (InnerJoinNode (Some l) a t cs) p =
     and_then (FilterStmt_create atof sub c cs p) (\<lambda>f p. and_then (creatInnerJoin atof sub c l p) (\<lambda>l p.
       do { t \<leftarrow> ctx_tables c t; Some (Inr (InnerJoin (Some l) t (Some f)), p) }))"

fun create_joins :: "(byte list \<Rightarrow> f32) \<Rightarrow> subquery \<Rightarrow> PlanCtx \<Rightarrow> InnerJoinNode list \<Rightarrow> Plan \<Rightarrow> InnerJoin list built" where
  "create_joins atof sub c [] p = Some (Inr [], p)"
| "create_joins atof sub c (j # js) p =
     and_then (creatInnerJoin atof sub c j p) (\<lambda>x p. and_then (create_joins atof sub c js p) (\<lambda>xs p. Some (Inr (x # xs), p)))"

definition clause_expression :: "(byte list \<Rightarrow> f32) \<Rightarrow> subquery \<Rightarrow> PlanCtx \<Rightarrow> Expr \<Rightarrow> Plan \<Rightarrow> BaseExpression built" where
  "clause_expression atof sub c e p = do {
     (x, p) \<leftarrow> constructExpression atof sub c e p;
     Some (case x of None \<Rightarrow> Inl SCHEMA_FIELD_MISSING | Some x \<Rightarrow> Inr x, p)
   }"

fun group_expressions :: "(byte list \<Rightarrow> f32) \<Rightarrow> subquery \<Rightarrow> PlanCtx \<Rightarrow> Expr list \<Rightarrow> Plan \<Rightarrow> BaseExpression list built" where
  "group_expressions atof sub c [] p = Some (Inr [], p)"
| "group_expressions atof sub c (e # es) p =
     and_then (clause_expression atof sub c e p) (\<lambda>x p. and_then (group_expressions atof sub c es p) (\<lambda>xs p. Some (Inr (x # xs), p)))"

fun order_expressions :: "(byte list \<Rightarrow> f32) \<Rightarrow> subquery \<Rightarrow> PlanCtx \<Rightarrow> OrderExpression list \<Rightarrow> Plan \<Rightarrow> (BaseExpression \<times> bool) list built" where
  "order_expressions atof sub c [] p = Some (Inr [], p)"
| "order_expressions atof sub c (OrderExpression asc e # ords) p = do {
     e \<leftarrow> e;
     and_then (clause_expression atof sub c e p) (\<lambda>x p. and_then (order_expressions atof sub c ords p) (\<lambda>xs p. Some (Inr ((x, asc) # xs), p)))
   }"

section \<open>The statement\<close>

record SelectStmt =
  ss_expressions :: "BaseExpression list"
  ss_groupBy :: "BaseExpression list"
  ss_orderBy :: "(BaseExpression \<times> bool) list"
  ss_query_fields :: "query_field list"
  ss_tables :: "nat list"
  ss_filter :: FilterStmt
  ss_having :: FilterStmt
  ss_scans :: "nat list"
  ss_joins :: "InnerJoin list"
  ss_alias :: "(string \<times> string) list"

text \<open>The names of tables behind their aliases; the conditions of \<^verbatim>\<open>HAVING\<close> and of joins keep theirs.\<close>

definition revert_selects :: "alias_map \<Rightarrow> Selects \<Rightarrow> RC + Selects" where
  "revert_selects m sel = (case revert_all m (sel_expressions sel) of
      Inl rc \<Rightarrow> Inl rc
    | Inr es \<Rightarrow> (case revert_conditions m (sel_conditions sel) of
        Inl rc \<Rightarrow> Inl rc
      | Inr cs \<Rightarrow> (case revert_all m (sel_group_by sel) of
          Inl rc \<Rightarrow> Inl rc
        | Inr gs \<Rightarrow> (case revert_order m (sel_order sel) of
            Inl rc \<Rightarrow> Inl rc
          | Inr ords \<Rightarrow> Inr (Selects es (sel_joins sel) cs gs (sel_having sel) ords)))))"

definition default_table :: "nat list \<Rightarrow> nat option" where
  "default_table ts = (case ts of [t] \<Rightarrow> Some t | _ \<Rightarrow> None)"

definition select_fields :: "Db \<Rightarrow> alias_map \<Rightarrow> (string \<rightharpoonup> nat) \<Rightarrow> nat list \<Rightarrow> Selects \<Rightarrow> Plan \<Rightarrow> (RC + query_field list) option" where
  "select_fields db m tm ts sel p = do {
     let d = map_option (\<lambda>t. tm_name (plan_meta t p)) (default_table ts);
     ls \<leftarrow> select_leafs d (rev (sel_expressions sel)) [];
     ls \<leftarrow> condition_leafs d (sel_conditions sel) ls;
     query_fields_of db m tm ts p ls
   }"

definition select_clauses ::
    "(byte list \<Rightarrow> f32) \<Rightarrow> subquery \<Rightarrow> PlanCtx \<Rightarrow> alias_map \<Rightarrow> nat list \<Rightarrow> (string \<times> string) list \<Rightarrow> query_field list \<Rightarrow> Selects \<Rightarrow> Plan \<Rightarrow> SelectStmt built" where
  "select_clauses atof sub c m ts aliases fs sel p =
     and_then (select_expressions atof sub c m ts (rev (sel_expressions sel)) p) (\<lambda>es p.
     and_then (create_joins atof sub c (rev (sel_joins sel)) p) (\<lambda>js p.
     and_then (group_expressions atof sub c (rev (sel_group_by sel)) p) (\<lambda>gs p.
     and_then (order_expressions atof sub c (sel_order sel) p) (\<lambda>ords p.
     and_then (FilterStmt_create_tree atof sub c (sel_conditions sel) p) (\<lambda>f p.
     and_then (FilterStmt_create atof sub c (sel_having sel) p) (\<lambda>h p.
       Some (Inr \<lparr>ss_expressions = es, ss_groupBy = gs, ss_orderBy = ords, ss_query_fields = fs, ss_tables = ts, ss_filter = f, ss_having = h,
          ss_scans = [], ss_joins = js, ss_alias = aliases\<rparr>, p\<lparr>pl_alias := []\<rparr>)))))))"

definition SelectStmt_create :: "(byte list \<Rightarrow> f32) \<Rightarrow> subquery \<Rightarrow> Db \<Rightarrow> Selects \<Rightarrow> Plan \<Rightarrow> SelectStmt built" where
  "SelectStmt_create atof sub db sel p = (case constructTableMap db (sel_joins sel) of
      Inl rc \<Rightarrow> Some (Inl rc, p)
    | Inr (tm, ts, aliases) \<Rightarrow>
        let p = p\<lparr>pl_alias := fold (\<lambda>(t, a). AList.update t a) aliases (pl_alias p)\<rparr>;
            m = map (\<lambda>(t, a). (a, t)) (pl_alias p) in
        if \<not> distinct (List.map_filter expr_alias (sel_expressions sel)) then Some (Inl ALIAS_REPEAT, p)
        else case revert_selects m sel of
          Inl rc \<Rightarrow> Some (Inl rc, p)
        | Inr sel \<Rightarrow> do {
            fs \<leftarrow> select_fields db m tm ts sel p;
            case fs of
              Inl rc \<Rightarrow> Some (Inl rc, p)
            | Inr fs \<Rightarrow> select_clauses atof sub \<lparr>ctx_db = db, ctx_default = default_table ts, ctx_tables = tm\<rparr> m ts aliases fs sel p
          })"

section \<open>Aggregates\<close>

fun collectAllAggregate :: "BaseExpression \<Rightarrow> Plan \<Rightarrow> BaseExpression list \<times> Plan" where
  "collectAllAggregate (IdentifierExpression n t f ty) p =
     (let (x, p) = new_aggregate AggIdentity (IdentifierExpression n t f ty) p in ([x], p))"
| "collectAllAggregate (NegativeExpression _ e _) p = collectAllAggregate e p"
| "collectAllAggregate (BinaryExpression _ l r _ _) p =
     (let (xs, p) = collectAllAggregate l p; (ys, p) = collectAllAggregate r p in (xs @ ys, p))"
| "collectAllAggregate (AggregateFunction n k e) p = ([AggregateFunction n k e], p)"
| "collectAllAggregate _ p = ([], p)"

definition containExpression :: "BaseExpression list \<Rightarrow> BaseExpression \<Rightarrow> bool" where
  "containExpression es e = list_ex (\<lambda>x. expr_toString x = expr_toString e) es"

definition containAggregateFunction :: "SelectStmt \<Rightarrow> bool" where
  "containAggregateFunction ss = (ss_groupBy ss \<noteq> [] \<or> list_ex containAggregate (ss_expressions ss))"

fun add_new :: "BaseExpression list \<Rightarrow> BaseExpression list \<Rightarrow> BaseExpression list" where
  "add_new collect [] = collect"
| "add_new collect (e # es) = add_new (if containExpression collect e then collect else collect @ [e]) es"

fun collect_expressions :: "BaseExpression list \<Rightarrow> BaseExpression list \<Rightarrow> BaseExpression list \<Rightarrow> Plan \<Rightarrow> (RC + BaseExpression list) \<times> Plan" where
  "collect_expressions groupBy [] collect p = (Inr collect, p)"
| "collect_expressions groupBy (e # es) collect p =
     (if isId e \<and> \<not> containExpression groupBy e then (Inl GENERIC_ERROR, p)
      else let (xs, p) = collectAllAggregate e p in collect_expressions groupBy es (add_new collect xs) p)"

fun collect_groups :: "BaseExpression list \<Rightarrow> BaseExpression list \<Rightarrow> Plan \<Rightarrow> BaseExpression list \<times> Plan" where
  "collect_groups [] collect p = (collect, p)"
| "collect_groups (e # es) collect p =
     (if containExpression collect e then collect_groups es collect p
      else let (x, p) = new_aggregate AggIdentity e p in collect_groups es (collect @ [x]) p)"

definition collect_side :: "BaseExpression list \<Rightarrow> BaseExpression \<Rightarrow> BaseExpression list \<Rightarrow> Plan \<Rightarrow> (RC + BaseExpression list) \<times> Plan" where
  "collect_side groupBy e collect p =
     (if containExpression collect e \<or> isConst e then (Inr collect, p)
      else if isAggregateFunc e then (Inr (collect @ [e]), p)
      else if \<not> containExpression groupBy e then (Inl ERROR_LOGIC_PLAN, p)
      else let (x, p) = new_aggregate AggIdentity e p in (Inr (collect @ [x]), p))"

fun collect_having :: "BaseExpression list \<Rightarrow> FilterUnit list \<Rightarrow> BaseExpression list \<Rightarrow> Plan \<Rightarrow> BaseExpression list built" where
  "collect_having groupBy [] collect p = Some (Inr collect, p)"
| "collect_having groupBy (u # us) collect p = do {
     l \<leftarrow> fu_left u;
     r \<leftarrow> fu_right u;
     and_then (Some (collect_side groupBy l collect p)) (\<lambda>collect p.
     and_then (Some (collect_side groupBy r collect p)) (\<lambda>collect p. collect_having groupBy us collect p))
   }"

fun add_order :: "BaseExpression list \<Rightarrow> BaseExpression list \<Rightarrow> Plan \<Rightarrow> BaseExpression list \<times> Plan" where
  "add_order collect [] p = (collect, p)"
| "add_order collect (e # es) p =
     (if containExpression collect e then add_order collect es p
      else if isAggregateFunc e then add_order (collect @ [e]) es p
      else let (x, p) = new_aggregate AggIdentity e p in add_order (collect @ [x]) es p)"

fun collect_order :: "(BaseExpression \<times> bool) list \<Rightarrow> BaseExpression list \<Rightarrow> Plan \<Rightarrow> BaseExpression list \<times> Plan" where
  "collect_order [] collect p = (collect, p)"
| "collect_order ((e, _) # ords) collect p =
     (let (xs, p) = collectAllAggregate e p; (collect, p) = add_order collect xs p in collect_order ords collect p)"

definition collectAggregate :: "SelectStmt \<Rightarrow> Plan \<Rightarrow> BaseExpression list built" where
  "collectAggregate ss p =
     and_then (Some (collect_expressions (ss_groupBy ss) (ss_expressions ss) [] p)) (\<lambda>collect p.
       let (collect, p) = collect_groups (ss_groupBy ss) collect p in
       and_then (collect_having (ss_groupBy ss) (filter_units (ss_having ss)) collect p) (\<lambda>collect p.
         let (collect, p) = collect_order (ss_orderBy ss) collect p in Some (Inr collect, p)))"

section \<open>The operators of a query\<close>

definition oper_init :: OpObj where
  "oper_init = \<lparr>op_rowFromFather = [], op_schemaOfFather = [], op_multiTable = False, scan_relation = None, join_indexes = []\<rparr>"

definition new_oper :: "(nat \<Rightarrow> QueryOperator) \<Rightarrow> bool \<Rightarrow> Plan \<Rightarrow> QueryOperator \<times> Plan" where
  "new_oper mk multi p =
     (let n = pl_oper p in
      (mk n, p\<lparr>pl_q := upd_oper n (\<lambda>_. oper_init\<lparr>op_multiTable := multi\<rparr>) (pl_q p), pl_oper := Suc n\<rparr>))"

fun scan_map :: "nat list \<Rightarrow> nat list \<Rightarrow> Plan \<Rightarrow> (nat \<rightharpoonup> QueryOperator) \<Rightarrow> ((nat \<rightharpoonup> QueryOperator) \<times> Plan) option" where
  "scan_map [] ks p m = Some (m, p)"
| "scan_map (t # ts) [] p m = None"
| "scan_map (t # ts) (k # ks) p m =
     (let (cols, p) = expandStar t p;
          (q, p) = new_oper (\<lambda>n. ScanOperator n k (map (schema_of (pl_q p)) cols)) False p in
      scan_map ts ks p (m(t \<mapsto> q)))"

text \<open>A chain of joins from its first table on.\<close>

fun join_flow :: "(nat \<rightharpoonup> QueryOperator) \<Rightarrow> InnerJoin \<Rightarrow> Plan \<Rightarrow> (QueryOperator \<times> Plan) option" where
  "join_flow m (InnerJoin None t f) p = do { q \<leftarrow> m t; Some (q, p) }"
| "join_flow m (InnerJoin (Some l) t f) p = do {
     (last, p) \<leftarrow> join_flow m l p;
     q \<leftarrow> m t;
     f \<leftarrow> f;
     Some (new_oper (\<lambda>n. JoinOperator n [q, last] f) False p)
   }"

fun join_flows :: "(nat \<rightharpoonup> QueryOperator) \<Rightarrow> InnerJoin list \<Rightarrow> Plan \<Rightarrow> (QueryOperator list \<times> Plan) option" where
  "join_flows m [] p = Some ([], p)"
| "join_flows m (j # js) p = do { (q, p) \<leftarrow> join_flow m j p; (qs, p) \<leftarrow> join_flows m js p; Some (q # qs, p) }"

definition getSubExpression :: "BaseExpression \<Rightarrow> BaseExpression option" where
  "getSubExpression e = (case e of AggregateFunction _ _ x \<Rightarrow> Some x | _ \<Rightarrow> None)"

fun identities :: "BaseExpression list \<Rightarrow> Plan \<Rightarrow> BaseExpression list \<times> Plan" where
  "identities [] p = ([], p)"
| "identities (e # es) p =
     (let (x, p) = (if isId e then case new_aggregate AggIdentity e p of (x, p) \<Rightarrow> (x, expr_setAlias (eo_alias (obj_of (pl_q p) e)) x p) else (e, p));
          (xs, p) = identities es p in
      (x # xs, p))"

definition ordered_flow :: "SelectStmt \<Rightarrow> QueryOperator \<Rightarrow> Plan \<Rightarrow> QueryOperator \<times> Plan" where
  "ordered_flow ss q p = (if ss_orderBy ss = [] then (q, p) else new_oper (\<lambda>n. OrderOperator n q (ss_orderBy ss)) False p)"

definition multi :: "SelectStmt \<Rightarrow> bool" where
  "multi ss = (length (ss_tables ss) > 1)"

definition aggregate_flow :: "SelectStmt \<Rightarrow> QueryOperator \<Rightarrow> Plan \<Rightarrow> QueryOperator built" where
  "aggregate_flow ss q p = and_then (collectAggregate ss p) (\<lambda>aggs p. do {
     subs \<leftarrow> those (map getSubExpression aggs);
     let (es, p) = identities (ss_expressions ss) p;
     let (q, p) = new_oper (\<lambda>n. TransformerAndProjectOperator n q (add_new [] subs)) False p;
     let (q, p) = new_oper (\<lambda>n. AggregateOperator n q aggs (ss_groupBy ss)) (multi ss) p;
     let (q, p) = (if filter_units (ss_having ss) = [] then (q, p) else new_oper (\<lambda>n. PredicateOperator1 n q (ss_having ss)) False p);
     let (q, p) = ordered_flow ss q p;
     let (q, p) = new_oper (\<lambda>n. TransformerAndProjectOperator n q es) (multi ss) p;
     Some (Inr q, p)
   })"

definition plain_flow :: "SelectStmt \<Rightarrow> QueryOperator \<Rightarrow> Plan \<Rightarrow> QueryOperator built" where
  "plain_flow ss q p =
     (if filter_units (ss_having ss) \<noteq> [] then Some (Inl GENERIC_ERROR, p)
      else let (q, p) = ordered_flow ss q p;
               (q, p) = new_oper (\<lambda>n. TransformerAndProjectOperator n q (ss_expressions ss)) (multi ss) p in
        Some (Inr q, p))"

definition generateOperatorFlow :: "SelectStmt \<Rightarrow> Plan \<Rightarrow> QueryOperator built" where
  "generateOperatorFlow ss p =
     (if ss_joins ss = [] then (case new_oper (\<lambda>n. SimpleSelect n (ss_expressions ss)) False p of (q, p) \<Rightarrow> Some (Inr q, p))
      else do {
        (m, p) \<leftarrow> scan_map (ss_tables ss) (ss_scans ss) p Map.empty;
        (qs, p) \<leftarrow> join_flows m (ss_joins ss) p;
        let (q, p) = (case qs of [q] \<Rightarrow> (q, p) | _ \<Rightarrow> new_oper (\<lambda>n. JoinOperator n qs (FilterStmt [] False)) (multi ss) p);
        let (q, p) = new_oper (\<lambda>n. PredicateOperator1 n q (ss_filter ss)) False p;
        if containAggregateFunction ss then aggregate_flow ss q p else plain_flow ss q p
      })"

section \<open>Subqueries and the select handler\<close>

text \<open>
  A scan of each table.  The handler asks \<^verbatim>\<open>try_to_create_index_scan_operator\<close> first, which compares the name of a column in
  the condition with the one in the meta data by their addresses, finds no field and returns a null pointer.
\<close>

fun add_scans :: "nat list \<Rightarrow> Plan \<Rightarrow> nat list \<times> Plan" where
  "add_scans [] p = ([], p)"
| "add_scans (t # ts) p =
     (let (s, ops) = world (pl_q p);
          (raw, s) = new_mem s;
          k = pl_scan p;
          p = p\<lparr>pl_q := (pl_q p)\<lparr>world := (s, ops(k := table_scan_new t raw))\<rparr>, pl_scan := Suc k\<rparr>;
          (ks, p) = add_scans ts p in
      (k # ks, p))"

definition with_scans :: "SelectStmt \<Rightarrow> Plan \<Rightarrow> SelectStmt \<times> Plan" where
  "with_scans ss p = (let (ks, p) = add_scans (ss_tables ss) p in (ss\<lparr>ss_scans := ss_scans ss @ ks\<rparr>, p))"

text \<open>The constructor of a subquery: an error of its statement is a generic error.\<close>

definition subquery_flow :: "SelectStmt built \<Rightarrow> QueryOperator built" where
  "subquery_flow r = do {
     (x, p) \<leftarrow> r;
     case x of
       Inl _ \<Rightarrow> Some (Inl GENERIC_ERROR, p)
     | Inr ss \<Rightarrow> let (ss, p) = with_scans ss p in generateOperatorFlow ss p
   }"

fun select_plan :: "nat \<Rightarrow> (byte list \<Rightarrow> f32) \<Rightarrow> Db \<Rightarrow> Selects \<Rightarrow> Plan \<Rightarrow> SelectStmt built" where
  "select_plan 0 atof db sel p = None"
| "select_plan (Suc n) atof db sel p = SelectStmt_create atof (\<lambda>sel p. subquery_flow (select_plan n atof db sel p)) db sel p"

definition subplan :: "nat \<Rightarrow> (byte list \<Rightarrow> f32) \<Rightarrow> Db \<Rightarrow> subquery" where
  "subplan n atof db sel p = subquery_flow (select_plan n atof db sel p)"

definition do_select :: "nat \<Rightarrow> (byte list \<Rightarrow> f32) \<Rightarrow> (f32 \<Rightarrow> int \<Rightarrow> f32) \<Rightarrow> Db \<Rightarrow> Selects \<Rightarrow> Plan \<Rightarrow> string built" where
  "do_select n atof rnd db sel p =
     and_then (select_plan n atof db sel p) (\<lambda>ss p.
       let (ss, p) = with_scans ss p in
       and_then (generateOperatorFlow ss p) (\<lambda>q p. do {
         ((rc, t), s) \<leftarrow> run_select (table_env atof rnd) (map_of (ss_alias ss)) q (pl_q p);
         let p = p\<lparr>pl_q := s\<rparr>;
         if rc \<noteq> SUCCESS then Some (Inl rc, p) else do { t \<leftarrow> t; Some (Inr t, p) }
       }))"

section \<open>Deletes and updates\<close>

definition single_table :: "Db \<Rightarrow> string \<Rightarrow> nat \<Rightarrow> PlanCtx" where
  "single_table db name t = \<lparr>ctx_db = db, ctx_default = Some t, ctx_tables = [name \<mapsto> t]\<rparr>"

definition DeleteStmt_create :: "nat \<Rightarrow> (byte list \<Rightarrow> f32) \<Rightarrow> Db \<Rightarrow> Deletes \<Rightarrow> Plan \<Rightarrow> (nat \<times> FilterStmt) built" where
  "DeleteStmt_create n atof db d p = (case find_table (del_relation d) db of
      None \<Rightarrow> Some (Inl SCHEMA_TABLE_NOT_EXIST, p)
    | Some t \<Rightarrow> and_then (FilterStmt_create atof (subplan n atof db) (single_table db (del_relation d) t) (del_conditions d) p)
        (\<lambda>f p. Some (Inr (t, f), p)))"

text \<open>The value of a subquery with one row and one column.\<close>

definition result_value :: "Relation \<Rightarrow> (RC + Value) option" where
  "result_value r = (case rel_rows r of
      [] \<Rightarrow> Some (Inr value_init_null)
    | [[item]] \<Rightarrow>
        if length (rel_schemas r) \<noteq> 1 then Some (Inl RECORD_INVALIDRECSIZE)
        else if item_isNull item then Some (Inr value_init_null)
        else (case sc_type (rel_schemas r ! 0) of
            INTS \<Rightarrow> map_option (\<lambda>v. Inr (value_init_integer v)) (getInt item)
          | DATES \<Rightarrow> map_option (\<lambda>v. Inr ((value_init_integer v)\<lparr>val_type := DATES\<rparr>)) (getInt item)
          | FLOATS \<Rightarrow> map_option (\<lambda>v. Inr (value_init_float (f32_bits v))) (getFloat item)
          | CHARS \<Rightarrow> map_option (\<lambda>v. Inr (value_init_string v)) (getText item)
          | _ \<Rightarrow> None)
    | _ \<Rightarrow> Some (Inl RECORD_INVALIDRECSIZE))"

definition select_value :: "nat \<Rightarrow> (byte list \<Rightarrow> f32) \<Rightarrow> (f32 \<Rightarrow> int \<Rightarrow> f32) \<Rightarrow> Db \<Rightarrow> Selects \<Rightarrow> Plan \<Rightarrow> Value built" where
  "select_value n atof rnd db sel p =
     and_then (select_plan n atof db sel p) (\<lambda>ss p.
       let (ss, p) = with_scans ss p in
       and_then (generateOperatorFlow ss p) (\<lambda>q p. do {
         ((rc, r), s) \<leftarrow> evaluate (table_env atof rnd) q (pl_q p);
         if rc \<noteq> SUCCESS then Some (Inl rc, p\<lparr>pl_q := s\<rparr>)
         else do {
           r \<leftarrow> r;
           v \<leftarrow> result_value r;
           case v of
             Inl rc \<Rightarrow> Some (Inl rc, p\<lparr>pl_q := s\<rparr>)
           | Inr v \<Rightarrow> do {
               (rc, s) \<leftarrow> op_close (table_env atof rnd) q s;
               Some (if rc \<noteq> SUCCESS then Inl rc else Inr v, p\<lparr>pl_q := s\<rparr>)
             }
         }
       }))"

fun update_values ::
    "nat \<Rightarrow> (byte list \<Rightarrow> f32) \<Rightarrow> (f32 \<Rightarrow> int \<Rightarrow> f32) \<Rightarrow> Db \<Rightarrow> (string \<times> (Value + Selects)) list \<Rightarrow> Plan \<Rightarrow> assignments built" where
  "update_values n atof rnd db [] p = Some (Inr [], p)"
| "update_values n atof rnd db ((a, Inl v) # us) p =
     and_then (update_values n atof rnd db us p) (\<lambda>xs p. Some (Inr ((Some a, v) # xs), p))"
| "update_values n atof rnd db ((a, Inr sel) # us) p =
     and_then (select_value n atof rnd db sel p) (\<lambda>v p.
       and_then (update_values n atof rnd db us p) (\<lambda>xs p. Some (Inr ((Some a, v) # xs), p)))"

definition UpdateStmt_create ::
    "nat \<Rightarrow> (byte list \<Rightarrow> f32) \<Rightarrow> (f32 \<Rightarrow> int \<Rightarrow> f32) \<Rightarrow> Db \<Rightarrow> Updates \<Rightarrow> Plan \<Rightarrow> (nat \<times> FilterStmt \<times> assignments) built" where
  "UpdateStmt_create n atof rnd db u p = (case find_table (upd_relation u) db of
      None \<Rightarrow> Some (Inl SCHEMA_TABLE_NOT_EXIST, p)
    | Some t \<Rightarrow>
        and_then (FilterStmt_create atof (subplan n atof db) (single_table db (upd_relation u) t) (upd_conditions u) p) (\<lambda>f p.
        and_then (update_values n atof rnd db (upd_values u) p) (\<lambda>us p. Some (Inr (t, f, us), p))))"

end
