(* ===== verification/Ob_ConstructProps.thy ===== *)
theory Ob_ConstructProps
  imports Ob_Construct Ob_WhereProps
begin

text \<open>
  What the planner makes of conditions over integer expressions: expressions that mean what the parse tree means, and a
  filter whose units form the tree of the conditions.  The locale \<open>unit_builder\<close> is the contract between the filters and the
  expressions below them.
\<close>

section \<open>Trees of conditions\<close>

text \<open>The conditions of a statement as the parser lays them out: a node names its children by their positions.\<close>

fun cond_encodes :: "Condition list \<Rightarrow> int \<Rightarrow> cond_tree \<Rightarrow> bool" where
  "cond_encodes cs i (Leaf j) \<longleftrightarrow> i = int j \<and> j < length cs \<and> cond_comp (cs ! j) \<notin> {AND_OP, OR_OP, NO_OP}"
| "cond_encodes cs i (And a b) \<longleftrightarrow> 0 \<le> i \<and> i < int (length cs) \<and> cond_comp (cs ! nat i) = AND_OP \<and>
     cond_encodes cs (leftChild (cs ! nat i)) a \<and> cond_encodes cs (rightChild (cs ! nat i)) b"
| "cond_encodes cs i (Or a b) \<longleftrightarrow> 0 \<le> i \<and> i < int (length cs) \<and> cond_comp (cs ! nat i) = OR_OP \<and>
     cond_encodes cs (leftChild (cs ! nat i)) a \<and> cond_encodes cs (rightChild (cs ! nat i)) b"

lemma encodes_append: "encodes us i t \<Longrightarrow> encodes (us @ vs) i t"
  by (induction t arbitrary: i) (auto simp: nth_append nat_less_iff)

lemma leaf_unit_comp:
  assumes "leaf_unit atof sub c cond p = Some (Inr u, p')"
  shows "fu_comp u = cond_comp cond"
  using assms by (auto simp: leaf_unit_def and_then_def split: if_splits bind_splits sum.splits)

locale unit_builder =
  fixes atof :: "byte list \<Rightarrow> f32"
    and sub :: subquery
    and c :: PlanCtx
    and ok :: "Condition \<Rightarrow> bool"
    and good :: "Plan \<Rightarrow> bool"
    and built :: "Condition \<Rightarrow> FilterUnit \<Rightarrow> Plan \<Rightarrow> Plan \<Rightarrow> bool"
  assumes leaf_builds: "ok cond \<Longrightarrow> good p \<Longrightarrow> \<exists>u p'. leaf_unit atof sub c cond p = Some (Inr u, p') \<and> good p' \<and> built cond u p p'"
begin

text \<open>The units in the order in which they were built.\<close>

fun steps :: "Plan \<Rightarrow> FilterUnit list \<Rightarrow> Plan \<Rightarrow> bool" where
  "steps p [] p' \<longleftrightarrow> p' = p"
| "steps p (u # us) p' \<longleftrightarrow> inner_unit u \<and> steps p us p' \<or> (\<exists>cond p1. ok cond \<and> fu_comp u = cond_comp cond \<and> built cond u p p1 \<and> steps p1 us p')"

lemma steps_append: "steps p (us @ vs) p' \<longleftrightarrow> (\<exists>p1. steps p us p1 \<and> steps p1 vs p')"
  by (induction us arbitrary: p) auto

fun matches :: "Condition list \<Rightarrow> FilterUnit list \<Rightarrow> cond_tree \<Rightarrow> cond_tree \<Rightarrow> bool" where
  "matches cs us (Leaf j) (Leaf k) \<longleftrightarrow> k < length us \<and> (\<exists>p p'. built (cs ! j) (us ! k) p p')"
| "matches cs us (And a b) (And a' b') \<longleftrightarrow> matches cs us a a' \<and> matches cs us b b'"
| "matches cs us (Or a b) (Or a' b') \<longleftrightarrow> matches cs us a a' \<and> matches cs us b b'"
| "matches cs us _ _ \<longleftrightarrow> False"

lemma matches_append: "matches cs us t t' \<Longrightarrow> matches cs (us @ vs) t t'"
  by (induction cs us t t' rule: matches.induct) (auto simp: nth_append)

lemma matches_holds:
  assumes "matches cs us t t'" "\<And>j u p p'. j \<in> leaves t \<Longrightarrow> built (cs ! j) u p p' \<Longrightarrow> Q u = P j"
  shows "tree_holds (\<lambda>k. Q (us ! k)) t' = tree_holds P t"
  using assms by (induction cs us t t' rule: matches.induct) auto

definition tree_built :: "Condition list \<Rightarrow> int \<Rightarrow> cond_tree \<Rightarrow> bool" where
  "tree_built cs cur t \<longleftrightarrow> (\<forall>us p. good p \<longrightarrow>
     (\<exists>u new p' t'. create_filter_unit_tree atof sub c cs cur us (int (length us)) p =
         Some (Inr u, us @ new, int (length us + length new), p') \<and> good p' \<and> steps p (new @ [u]) p' \<and>
       encodes (us @ new @ [u]) (int (length us + length new)) t' \<and> matches cs (us @ new @ [u]) t t'))"

lemma tree_builtD:
  assumes "tree_built cs cur t" "good p"
  obtains u new p' t' where "create_filter_unit_tree atof sub c cs cur us (int (length us)) p =
      Some (Inr u, us @ new, int (length us + length new), p')" "good p'" "steps p (new @ [u]) p'"
    "encodes (us @ new @ [u]) (int (length us + length new)) t'" "matches cs (us @ new @ [u]) t t'"
  using assms unfolding tree_built_def by blast

lemma leaf_built:
  assumes "cond_encodes cs i (Leaf j)" "ok (cs ! j)"
  shows "tree_built cs i (Leaf j)"
  unfolding tree_built_def
proof (intro allI impI)
  fix us p
  assume "good p"
  then obtain u p' where u: "leaf_unit atof sub c (cs ! j) p = Some (Inr u, p')" "good p'" "built (cs ! j) u p p'"
    using leaf_builds assms(2) by blast
  moreover have "create_filter_unit_tree atof sub c cs i us (int (length us)) p = Some (Inr u, us @ [], int (length us + length []), p')"
    using assms(1) u(1) by (subst create_filter_unit_tree.simps) (simp add: Let_def)
  moreover have "encodes (us @ [] @ [u]) (int (length us + length [])) (Leaf (length us))"
    using leaf_unit_comp[OF u(1)] assms(1) by simp
  moreover have "matches cs (us @ [] @ [u]) (Leaf j) (Leaf (length us))" "steps p ([] @ [u]) p'"
    using u(3) assms(2) leaf_unit_comp[OF u(1)] by auto
  ultimately show "\<exists>u new p' t'. create_filter_unit_tree atof sub c cs i us (int (length us)) p =
         Some (Inr u, us @ new, int (length us + length new), p') \<and> good p' \<and> steps p (new @ [u]) p' \<and>
       encodes (us @ new @ [u]) (int (length us + length new)) t' \<and> matches cs (us @ new @ [u]) (Leaf j) t'"
    by blast
qed

text \<open>The two kinds of inner nodes.\<close>

lemma node_built:
  assumes i: "0 \<le> i" "i < int (length cs)" "cond_comp (cs ! nat i) = op" "op = AND_OP \<and> node = And \<or> op = OR_OP \<and> node = Or"
    and l: "tree_built cs (leftChild (cs ! nat i)) a" and r: "tree_built cs (rightChild (cs ! nat i)) b"
  shows "tree_built cs i (node a b)"
  unfolding tree_built_def
proof (intro allI impI)
  fix us p
  assume p: "good p"
  obtain u1 new1 p1 t1 where 1: "create_filter_unit_tree atof sub c cs (leftChild (cs ! nat i)) us (int (length us)) p =
        Some (Inr u1, us @ new1, int (length us + length new1), p1)" "good p1" "steps p (new1 @ [u1]) p1"
      "encodes (us @ new1 @ [u1]) (int (length us + length new1)) t1" "matches cs (us @ new1 @ [u1]) a t1"
    using tree_builtD[OF l p] by blast
  let ?us = "us @ new1 @ [u1]"
  obtain u2 new2 p2 t2 where 2: "create_filter_unit_tree atof sub c cs (rightChild (cs ! nat i)) ?us (int (length ?us)) p1 =
        Some (Inr u2, ?us @ new2, int (length ?us + length new2), p2)" "good p2" "steps p1 (new2 @ [u2]) p2"
      "encodes (?us @ new2 @ [u2]) (int (length ?us + length new2)) t2" "matches cs (?us @ new2 @ [u2]) b t2"
    using tree_builtD[OF r 1(2)] by blast
  let ?u = "FilterUnit op None None (int (length us + length new1)) (int (length ?us + length new2))"
  let ?new = "new1 @ [u1] @ new2 @ [u2]"
  have all: "us @ ?new @ [?u] = ?us @ (new2 @ [u2, ?u])" "us @ ?new @ [?u] = (?us @ new2 @ [u2]) @ [?u]" by simp_all
  have len: "int (length ?us) = int (length us + length new1) + 1" by simp
  have "create_filter_unit_tree atof sub c cs i us (int (length us)) p = Some (Inr ?u, us @ ?new, int (length us + length ?new), p2)"
  proof (subst create_filter_unit_tree.simps)
    have op: "\<not> (i < 0 \<or> i \<ge> int (length cs))" "op \<noteq> NO_OP" "op = AND_OP \<or> op = OR_OP" using i by auto
    show "(if i < 0 \<or> i \<ge> int (length cs) then None
       else let cond = cs ! nat i; comp = cond_comp cond in
        if comp = NO_OP then Some (Inl INVALID_ARGUMENT, us, int (length us), p)
        else if comp = AND_OP \<or> comp = OR_OP then do {
          (l, us, idx, p) \<leftarrow> create_filter_unit_tree atof sub c cs (leftChild cond) us (int (length us)) p;
          case l of
            Inl rc \<Rightarrow> Some (Inl rc, us, idx, p)
          | Inr l \<Rightarrow> do {
              let left = idx;
              (r, us, idx, p) \<leftarrow> create_filter_unit_tree atof sub c cs (rightChild cond) (us @ [l]) (idx + 1) p;
              case r of
                Inl rc \<Rightarrow> Some (Inl rc, us, idx, p)
              | Inr r \<Rightarrow> Some (Inr (FilterUnit comp None None left idx), us @ [r], idx + 1, p)
            }
        }
        else do {
          (u, p) \<leftarrow> leaf_unit atof sub c cond p;
          Some (u, us, int (length us), p)
        }) = Some (Inr ?u, us @ ?new, int (length us + length ?new), p2)"
      using op i(3) 1(1) 2(1) by (simp only: Let_def if_False if_True) (simp add: ac_simps)
  qed
  moreover have "steps p (?new @ [?u]) p2"
  proof -
    have "steps p2 [?u] p2" using i(4) by (auto simp: inner_unit_def)
    then have "steps p1 ((new2 @ [u2]) @ [?u]) p2" using 2(3) steps_append[of p1 "new2 @ [u2]" "[?u]" p2] by blast
    then have "steps p ((new1 @ [u1]) @ ((new2 @ [u2]) @ [?u])) p2"
      using 1(3) steps_append[of p "new1 @ [u1]" "(new2 @ [u2]) @ [?u]" p2] by blast
    then show ?thesis by (simp only: append_assoc)
  qed
  moreover have "encodes (us @ ?new @ [?u]) (int (length us + length new1)) t1" "encodes (us @ ?new @ [?u]) (int (length ?us + length new2)) t2"
    using encodes_append[OF 1(4), of "new2 @ [u2, ?u]"] encodes_append[OF 2(4), of "[?u]"] by simp_all
  then have "encodes (us @ ?new @ [?u]) (int (length us + length ?new)) (node t1 t2)"
    using i(4) by (auto simp: nth_append)
  moreover have "matches cs (us @ ?new @ [?u]) a t1" "matches cs (us @ ?new @ [?u]) b t2"
    using matches_append[OF 1(5), of "new2 @ [u2, ?u]"] matches_append[OF 2(5), of "[?u]"] by simp_all
  then have "matches cs (us @ ?new @ [?u]) (node a b) (node t1 t2)" using i(4) by auto
  ultimately show "\<exists>u new p' t'. create_filter_unit_tree atof sub c cs i us (int (length us)) p =
         Some (Inr u, us @ new, int (length us + length new), p') \<and> good p' \<and> steps p (new @ [u]) p' \<and>
       encodes (us @ new @ [u]) (int (length us + length new)) t' \<and> matches cs (us @ new @ [u]) (node a b) t'"
    using 2(2) by blast
qed

lemma tree_built_all:
  assumes "cond_encodes cs i t" "\<forall>j\<in>leaves t. ok (cs ! j)"
  shows "tree_built cs i t"
  using assms
proof (induction t arbitrary: i)
  case (Leaf j)
  then show ?case by (intro leaf_built) simp_all
next
  case (And a b)
  then show ?case by (intro node_built[where op = AND_OP and node = And]) simp_all
next
  case (Or a b)
  then show ?case by (intro node_built[where op = OR_OP and node = Or]) simp_all
qed

text \<open>The tree of a \<^verbatim>\<open>WHERE\<close> clause: it is built, and it means what the conditions mean.\<close>

lemma create_tree_built:
  assumes "cs \<noteq> []" "cond_encodes cs (int (length cs) - 1) t" "\<forall>j\<in>leaves t. ok (cs ! j)" "good p"
  shows "\<exists>us p' t'. FilterStmt_create_tree atof sub c cs p = Some (Inr (FilterStmt us True), p') \<and> us \<noteq> [] \<and> good p' \<and> steps p us p' \<and>
    encodes us (int (length us) - 1) t' \<and> matches cs us t t'"
proof -
  obtain u new p' t' where b: "create_filter_unit_tree atof sub c cs (int (length cs) - 1) [] 0 p = Some (Inr u, new, int (length new), p')"
      "good p'" "steps p (new @ [u]) p'" "encodes (new @ [u]) (int (length new)) t'" "matches cs (new @ [u]) t t'"
    using tree_built_all[OF assms(2,3), unfolded tree_built_def, rule_format, OF assms(4), of "[]"] by auto
  have "FilterStmt_create_tree atof sub c cs p = Some (Inr (FilterStmt (new @ [u]) True), p')"
    using b(1) assms(1) by (simp add: FilterStmt_create_tree_def)
  moreover have "encodes (new @ [u]) (int (length (new @ [u])) - 1) t'" "matches cs (new @ [u]) t t'" using b(4,5) by simp_all
  ultimately show ?thesis using b(2,3) by blast
qed

end

section \<open>The meaning of integer expressions\<close>

fun sql_value :: "(string \<Rightarrow> int option) \<Rightarrow> Expr \<Rightarrow> int option" where
  "sql_value col (Expr _ _ (ConstExpr t lit)) = atoi lit"
| "sql_value col (Expr _ _ (FieldExpression tab attr)) = col attr"
| "sql_value col (Expr _ _ (UnaryExpr op a)) =
     (if op = OP_ADD then sql_value col a else map_option (\<lambda>v. wrap32 (- v)) (sql_value col a))"
| "sql_value col (Expr _ _ (BinaryExpr a b op)) =
     do { x \<leftarrow> sql_value col a; y \<leftarrow> sql_value col b; Some (int_op op x y) }"
| "sql_value col _ = None"

text \<open>Integer constants, the integer columns of a table, signs, sums, differences and products.\<close>

fun sql_int :: "string \<Rightarrow> FieldMeta list \<Rightarrow> Expr \<Rightarrow> bool" where
  "sql_int tn cols (Expr _ _ (ConstExpr t lit)) \<longleftrightarrow> t = INTS \<and> atoi lit \<noteq> None \<and> lit \<noteq> ''*''"
| "sql_int tn cols (Expr _ _ (FieldExpression tab attr)) \<longleftrightarrow>
     (tab = None \<or> tab = Some tn) \<and> (\<exists>f\<in>set cols. fm_name f = attr \<and> fm_type f = INTS)"
| "sql_int tn cols (Expr _ _ (UnaryExpr op a)) \<longleftrightarrow> sql_int tn cols a"
| "sql_int tn cols (Expr _ _ (BinaryExpr a b op)) \<longleftrightarrow> op \<in> {OP_ADD, OP_SUB, OP_MUL} \<and> sql_int tn cols a \<and> sql_int tn cols b"
| "sql_int tn cols _ \<longleftrightarrow> False"

text \<open>Names without the signs of operators; the text of an expression is compared with the text of a column.\<close>

definition plain :: "string \<Rightarrow> bool" where
  "plain s \<longleftrightarrow> set s \<inter> set ''+-*'' = {} \<and> \<not> is_blank (Some s)"

definition plain_columns :: "string \<Rightarrow> FieldMeta list \<Rightarrow> bool" where
  "plain_columns tn cols \<longleftrightarrow> plain tn \<and> distinct (map fm_name cols) \<and> (\<forall>f\<in>set cols. plain (fm_name f))"

text \<open>The schemas of a scan of the table.\<close>

definition table_schemas :: "string \<Rightarrow> FieldMeta list \<Rightarrow> Schema list \<Rightarrow> bool" where
  "table_schemas tn cols sc \<longleftrightarrow> list_all2 (\<lambda>f s. \<exists>n. sc_expr s = Some (IdentifierExpression n tn (fm_name f) (fm_type f))) cols sc"

definition row_fits :: "FieldMeta list \<Rightarrow> Row \<Rightarrow> bool" where
  "row_fits cols row \<longleftrightarrow> list_all2 (\<lambda>f item. fm_type f = INTS \<longrightarrow> (\<exists>v isnull. item = IntItem v isnull)) cols row"

lemma find_column_nth:
  assumes "table_schemas tn cols sc" "distinct (map fm_name cols)" "i < length cols"
  shows "find_column (tn @ ''.'' @ fm_name (cols ! i)) sc k = Some (k + int i)"
  using assms unfolding table_schemas_def
proof (induction arbitrary: i k)
  case (Cons f cols s sc)
  then show ?case by (cases i) (auto, metis image_eqI nth_mem)
qed simp

lemma find_column_sign:
  assumes "table_schemas tn cols sc" "plain_columns tn cols" "set s \<inter> set ''+-*'' \<noteq> {}"
  shows "find_column s sc k = Some (- 1)"
proof -
  have "s \<noteq> tn @ ''.'' @ fm_name f" if "f \<in> set cols" for f
    using assms(2,3) that by (fastforce simp: plain_columns_def plain_def)
  with assms(1) show ?thesis
    unfolding table_schemas_def by (induction arbitrary: k rule: list_all2_induct) fastforce+
qed

definition means :: "string \<Rightarrow> FieldMeta list \<Rightarrow> Expr \<Rightarrow> BaseExpression \<Rightarrow> bool" where
  "means tn cols e x \<longleftrightarrow> int_tree x \<and> (\<forall>sc row. table_schemas tn cols sc \<longrightarrow> resolvable sc x \<and>
     int_value sc row x = sql_value (\<lambda>f. column_value sc row (tn @ ''.'' @ f)) e \<and> (row_fits cols row \<longrightarrow> int_row sc row x))"

lemma means_const: "sql_int tn cols (Expr al br (ConstExpr t lit)) \<Longrightarrow> means tn cols (Expr al br (ConstExpr t lit)) (ConstExpression n lit t)"
  by (auto simp: means_def)

lemma means_field:
  assumes "plain_columns tn cols" "sql_int tn cols (Expr al br (FieldExpression tab attr))"
  shows "means tn cols (Expr al br (FieldExpression tab attr)) (IdentifierExpression n tn attr INTS)"
proof -
  obtain i where i: "i < length cols" "fm_name (cols ! i) = attr" "fm_type (cols ! i) = INTS"
    using assms(2) by (auto simp: in_set_conv_nth)
  have "find_column (tn @ ''.'' @ attr) sc 0 = Some (int i)" if "table_schemas tn cols sc" for sc
    using find_column_nth[OF that _ i(1), of 0] assms(1) i(2) by (simp add: plain_columns_def)
  moreover have "\<exists>v isnull. row_at row (int i) = Some (IntItem v isnull)" if "row_fits cols row" for row
    using that i by (auto simp: row_fits_def list_all2_conv_all_nth row_at_def)
  ultimately show ?thesis by (fastforce simp: means_def)
qed

lemma negative_sign: "CHR ''-'' \<in> set (expr_toString (NegativeExpression n x t))"
  by simp

lemma binary_sign: "op \<in> {OP_ADD, OP_SUB, OP_MUL} \<Longrightarrow> set (expr_toString (BinaryExpression n l r op t)) \<inter> set ''+-*'' \<noteq> {}"
  by (auto simp: opToString_def)

lemma means_negative:
  assumes "plain_columns tn cols" "means tn cols e x" "op \<noteq> OP_ADD"
  shows "means tn cols (Expr al br (UnaryExpr op e)) (NegativeExpression n x INTS)"
  using assms find_column_sign[OF _ assms(1), of _ "expr_toString (NegativeExpression n x INTS)"] negative_sign[of n x INTS]
  by (fastforce simp: means_def simp del: expr_toString.simps)

lemma means_binary:
  assumes "plain_columns tn cols" "means tn cols a l" "means tn cols b r" "op \<in> {OP_ADD, OP_SUB, OP_MUL}"
  shows "means tn cols (Expr al br (BinaryExpr a b op)) (BinaryExpression n l r op INTS)"
  using assms(2-4) find_column_sign[OF _ assms(1) binary_sign[OF assms(4), of n l r INTS], of _ 0]
  by (simp add: means_def del: expr_toString.simps)

section \<open>Building integer expressions\<close>

text \<open>Building only adds objects.\<close>

definition grows :: "Plan \<Rightarrow> Plan \<Rightarrow> bool" where
  "grows p p' \<longleftrightarrow> pl_expr p \<le> pl_expr p' \<and> (\<forall>n<pl_expr p. exprs (pl_q p') n = exprs (pl_q p) n) \<and> opers (pl_q p') = opers (pl_q p) \<and>
     world (pl_q p') = world (pl_q p) \<and> pl_oper p' = pl_oper p \<and> pl_scan p' = pl_scan p \<and> pl_alias p' = pl_alias p"

lemma grows_trans: "grows p p1 \<Longrightarrow> grows p1 p2 \<Longrightarrow> grows p p2"
  by (simp add: grows_def)

lemma grows_refl [simp]: "grows p p"
  by (simp add: grows_def)

definition made :: "BaseExpression \<Rightarrow> Plan \<Rightarrow> Plan \<Rightarrow> bool" where
  "made x p p' \<longleftrightarrow> distinct (expr_ids x) \<and> set (expr_ids x) \<subseteq> {pl_expr p..<pl_expr p'} \<and> parsed (pl_q p') x"

lemma parsed_cong: "(\<And>n. n \<in> set (expr_ids x) \<Longrightarrow> exprs s' n = exprs s n) \<Longrightarrow> parsed s' x = parsed s x"
  by (induction x rule: expr_ids.induct) auto

lemma parsed_grows: "grows p p' \<Longrightarrow> parsed (pl_q p) x \<Longrightarrow> set (expr_ids x) \<subseteq> {..<pl_expr p} \<Longrightarrow> parsed (pl_q p') x"
  using parsed_cong[of x "pl_q p'" "pl_q p"] by (auto simp: grows_def)

text \<open>A table with the columns as the only one of a statement.\<close>

definition int_ready :: "string \<Rightarrow> FieldMeta list \<Rightarrow> nat \<Rightarrow> table_world \<Rightarrow> PlanCtx \<Rightarrow> Plan \<Rightarrow> bool" where
  "int_ready tn cols t w c p \<longleftrightarrow> world (pl_q p) = w \<and> ctx_default c = Some t \<and> ctx_tables c = [tn \<mapsto> t] \<and> plain_columns tn cols \<and>
     tm_name (meta_of t (fst w)) = tn \<and> distinct (map fm_name (tm_fields (meta_of t (fst w)))) \<and> set cols \<subseteq> set (tm_fields (meta_of t (fst w)))"

lemma int_ready_grows: "int_ready tn cols t w c p \<Longrightarrow> grows p p' \<Longrightarrow> int_ready tn cols t w c p'"
  by (simp add: int_ready_def grows_def)

lemma field_by_distinct:
  assumes "distinct (map fm_name fs)" "f \<in> set fs"
  shows "List.find (\<lambda>g. fm_name g = fm_name f) fs = Some f"
  using assms by (induction fs) (auto simp: rev_image_eqI)

text \<open>A new object of each kind.\<close>

lemma new_const_int:
  assumes "atoi lit = Some v"
  shows "\<exists>p'. construct atof sub c (Expr al br (ConstExpr INTS lit)) p = Some (Inr (ConstExpression (pl_expr p) lit INTS), p') \<and>
    grows p p' \<and> made (ConstExpression (pl_expr p) lit INTS) p p'"
  using assms by (auto simp: new_const_def const_parse_def new_expr_def finish_def mark_bracketed_def base_init_def grows_def made_def Let_def)

lemma construct_field_int:
  assumes "int_ready tn cols t w c p" "sql_int tn cols (Expr al br (FieldExpression tab attr))"
  shows "\<exists>p'. construct atof sub c (Expr al br (FieldExpression tab attr)) p = Some (Inr (IdentifierExpression (pl_expr p) tn attr INTS), p') \<and>
    grows p p' \<and> made (IdentifierExpression (pl_expr p) tn attr INTS) p p'"
proof -
  obtain f where f: "f \<in> set cols" "fm_name f = attr" "fm_type f = INTS" using assms(2) by auto
  have "field_by_name (Some attr) (plan_meta t p) = Some f"
    using field_by_distinct[of _ f] assms(1) f(1,2) by (auto simp: int_ready_def field_by_name_def plan_meta_def)
  moreover have "resolve_field c tab p = Some (tn, Some t)"
    using assms by (auto simp: resolve_field_def int_ready_def plan_meta_def)
  ultimately show ?thesis
    using f(3) by (auto simp: construct_field_def and_then_def new_identifier_def new_expr_def finish_def mark_bracketed_def grows_def made_def Let_def)
qed

lemma new_negative_int:
  assumes "int_tree x" "made x p p1" "grows p p1"
  shows "\<exists>p'. (case new_negative x p1 of (y, p) \<Rightarrow> finish br y p) = Some (Inr (NegativeExpression (pl_expr p1) x INTS), p') \<and>
    grows p p' \<and> made (NegativeExpression (pl_expr p1) x INTS) p p'"
proof -
  obtain p' where p': "(case new_negative x p1 of (y, p) \<Rightarrow> finish br y p) = Some (Inr (NegativeExpression (pl_expr p1) x INTS), p')"
      "grows p1 p'" "pl_expr p' = Suc (pl_expr p1)"
    using assms(1) by (auto simp: new_negative_def new_expr_def finish_def mark_bracketed_def int_tree_type negative_inferType_def isDigital_def grows_def Let_def)
  have "set (expr_ids x) \<subseteq> {..<pl_expr p1}" using assms(2) by (auto simp: made_def)
  then have "parsed (pl_q p') x" using parsed_grows[OF p'(2)] assms(2) by (simp add: made_def)
  then show ?thesis
    using p' assms(2,3) grows_trans[OF assms(3) p'(2)] by (auto simp: made_def grows_def)
qed

lemma new_binary_int:
  assumes "int_tree l" "int_tree r" "op \<in> {OP_ADD, OP_SUB, OP_MUL}" "made l p p1" "grows p p1" "made r p1 p2" "grows p1 p2"
  shows "\<exists>p'. (case new_binary l r op p2 of (y, p) \<Rightarrow> finish br y p) = Some (Inr (BinaryExpression (pl_expr p2) l r op INTS), p') \<and>
    grows p p' \<and> made (BinaryExpression (pl_expr p2) l r op INTS) p p'"
proof -
  obtain p' where p': "(case new_binary l r op p2 of (y, p) \<Rightarrow> finish br y p) = Some (Inr (BinaryExpression (pl_expr p2) l r op INTS), p')"
      "grows p2 p'" "pl_expr p' = Suc (pl_expr p2)"
    using assms(1-3) by (auto simp: new_binary_def new_expr_def finish_def mark_bracketed_def int_tree_type binary_inferType_def grows_def Let_def)
  have l: "set (expr_ids l) \<subseteq> {..<pl_expr p1}" "parsed (pl_q p1) l" and r: "set (expr_ids r) \<subseteq> {..<pl_expr p2}" "parsed (pl_q p2) r"
    using assms(4,6) by (auto simp: made_def)
  have "parsed (pl_q p') l" "parsed (pl_q p') r"
    using parsed_grows[OF grows_trans[OF assms(7) p'(2)] l(2,1)] parsed_grows[OF p'(2) r(2,1)] .
  moreover have "pl_expr p \<le> pl_expr p1" "pl_expr p1 \<le> pl_expr p2" using assms(5,7) by (simp_all add: grows_def)
  moreover have "set (expr_ids l) \<inter> set (expr_ids r) = {}" using assms(4,6) by (fastforce simp: made_def)
  ultimately have "made (BinaryExpression (pl_expr p2) l r op INTS) p p'"
    using p'(3) assms(4,6) by (fastforce simp: made_def)
  then show ?thesis
    using p'(1) grows_trans[OF grows_trans[OF assms(5,7)] p'(2)] by blast
qed

lemma construct_int:
  assumes "sql_int tn cols e" "int_ready tn cols t w c p"
  shows "\<exists>x p'. construct atof sub c e p = Some (Inr x, p') \<and> grows p p' \<and> made x p p' \<and> means tn cols e x"
  using assms
proof (induction tn cols e arbitrary: p rule: sql_int.induct)
  case (1 tn cols al br ty lit)
  then obtain v where v: "atoi lit = Some v" "ty = INTS" by auto
  show ?case using new_const_int[OF v(1), of atof sub c al br p] means_const[OF 1(1)] v(2) by blast
next
  case (2 tn cols al br tab attr)
  show ?case using construct_field_int[OF 2(2,1), of atof sub] means_field[OF _ 2(1)] 2(2) unfolding int_ready_def by blast
next
  case (3 tn cols al br op a)
  obtain x p1 where x: "construct atof sub c a p = Some (Inr x, p1)" "grows p p1" "made x p p1" "means tn cols a x"
    using "3.IH"[OF _ "3.prems"(2)] "3.prems"(1) by fastforce
  show ?case
  proof (cases "op = OP_ADD")
    case True
    then show ?thesis using x by (auto simp: and_then_def means_def)
  next
    case False
    obtain p' where "(case new_negative x p1 of (y, p) \<Rightarrow> finish br y p) = Some (Inr (NegativeExpression (pl_expr p1) x INTS), p')"
        "grows p p'" "made (NegativeExpression (pl_expr p1) x INTS) p p'"
      using new_negative_int[OF _ x(3,2), of br] x(4) by (auto simp: means_def)
    then show ?thesis
      using x(1) False means_negative[OF _ x(4) False] 3(3) by (auto simp: and_then_def int_ready_def)
  qed
next
  case (4 tn cols al br a b op)
  obtain l p1 where l: "construct atof sub c a p = Some (Inr l, p1)" "grows p p1" "made l p p1" "means tn cols a l"
    using "4.IH"(1)[OF _ "4.prems"(2)] "4.prems"(1) by fastforce
  obtain r p2 where r: "construct atof sub c b p1 = Some (Inr r, p2)" "grows p1 p2" "made r p1 p2" "means tn cols b r"
    using "4.IH"(2)[of p1] 4(3) int_ready_grows[OF 4(4) l(2)] by auto
  have op: "op \<in> {OP_ADD, OP_SUB, OP_MUL}" using 4(3) by simp
  obtain p' where "(case new_binary l r op p2 of (y, p) \<Rightarrow> finish br y p) = Some (Inr (BinaryExpression (pl_expr p2) l r op INTS), p')"
      "grows p p'" "made (BinaryExpression (pl_expr p2) l r op INTS) p p'"
    using new_binary_int[OF _ _ op l(3,2) r(3,2), of br] l(4) r(4) by (auto simp: means_def)
  then show ?case
    using l(1) r(1) means_binary[OF _ l(4) r(4) op] 4(4) by (auto simp: and_then_def int_ready_def)
qed simp_all

lemma constructExpression_int:
  assumes "sql_int tn cols e" "int_ready tn cols t w c p"
  shows "\<exists>x p'. constructExpression atof sub c e p = Some (Some x, p') \<and> grows p p' \<and> made x p p' \<and> means tn cols e x"
proof -
  obtain x p1 where x: "construct atof sub c e p = Some (Inr x, p1)" "grows p p1" "made x p p1" "means tn cols e x"
    using construct_int[OF assms, of atof sub] by blast
  have i: "expr_id x \<in> {pl_expr p..<pl_expr p1}" using x(3) expr_id_in_ids[of x] unfolding made_def by blast
  have "grows p (expr_setAlias a x p1)" for a
    using x(2) i by (auto simp: grows_def expr_setAlias_def)
  moreover have "parsed (pl_q (expr_setAlias a x p1)) y = parsed (pl_q p1) y" for a y
    by (induction y rule: expr_ids.induct) (auto simp: expr_setAlias_def)
  then have "made x p (expr_setAlias a x p1)" for a
    using x(3) by (simp add: made_def expr_setAlias_def)
  ultimately show ?thesis using x by (cases "expr_alias e") (auto simp: constructExpression_def)
qed

section \<open>Conditions over integers\<close>

definition sql_condition :: "string \<Rightarrow> FieldMeta list \<Rightarrow> Condition \<Rightarrow> bool" where
  "sql_condition tn cols cond \<longleftrightarrow> cond_comp cond \<notin> {AND_OP, OR_OP, NO_OP, EXISTS, NOT_EXISTS} \<and>
     (case (cond_left cond, cond_right cond) of (Some a, Some b) \<Rightarrow> sql_int tn cols a \<and> sql_int tn cols b | _ \<Rightarrow> False)"

definition cond_holds :: "(string \<Rightarrow> int option) \<Rightarrow> Condition \<Rightarrow> bool" where
  "cond_holds col cond = (case (cond_left cond, cond_right cond) of
      (Some a, Some b) \<Rightarrow> compare_values (sql_value col a) (sql_value col b) (cond_comp cond)
    | _ \<Rightarrow> False)"

definition unit_made :: "string \<Rightarrow> FieldMeta list \<Rightarrow> Condition \<Rightarrow> FilterUnit \<Rightarrow> Plan \<Rightarrow> Plan \<Rightarrow> bool" where
  "unit_made tn cols cond u p p' \<longleftrightarrow> (\<exists>a b l r p1. cond_left cond = Some a \<and> cond_right cond = Some b \<and>
     u = FilterUnit (cond_comp cond) (Some l) (Some r) (- 1) (- 1) \<and> grows p p1 \<and> made l p p1 \<and> means tn cols a l \<and>
     grows p1 p' \<and> made r p1 p' \<and> means tn cols b r)"

lemma leaf_unit_int:
  assumes "sql_condition tn cols cond" "int_ready tn cols t w c p"
  shows "\<exists>u p'. leaf_unit atof sub c cond p = Some (Inr u, p') \<and> int_ready tn cols t w c p' \<and> unit_made tn cols cond u p p'"
proof -
  obtain a b where ab: "cond_left cond = Some a" "cond_right cond = Some b" "sql_int tn cols a" "sql_int tn cols b"
      "cond_comp cond \<noteq> EXISTS" "cond_comp cond \<noteq> NOT_EXISTS"
    using assms(1) by (auto simp: sql_condition_def split: option.splits)
  obtain l p1 where l: "constructExpression atof sub c a p = Some (Some l, p1)" "grows p p1" "made l p p1" "means tn cols a l"
    using constructExpression_int[OF ab(3) assms(2)] by blast
  have p1: "int_ready tn cols t w c p1" using int_ready_grows[OF assms(2) l(2)] .
  obtain r p2 where r: "constructExpression atof sub c b p1 = Some (Some r, p2)" "grows p1 p2" "made r p1 p2" "means tn cols b r"
    using constructExpression_int[OF ab(4) p1] by blast
  let ?u = "FilterUnit (cond_comp cond) (Some l) (Some r) (- 1) (- 1)"
  have "leaf_unit atof sub c cond p = Some (Inr ?u, p2)"
    using ab l(1) r(1) by (simp add: leaf_unit_def unit_side_def and_then_def)
  moreover have "unit_made tn cols cond ?u p p2" unfolding unit_made_def using ab(1,2) l(2-4) r(2-4) by blast
  ultimately show ?thesis using int_ready_grows[OF p1 r(2)] by blast
qed

interpretation int_builder: unit_builder atof sub c "sql_condition tn cols" "int_ready tn cols t w c" "unit_made tn cols"
  for atof sub c tn cols t w
  by unfold_locales (rule leaf_unit_int)

lemma unit_made_holds:
  assumes "unit_made tn cols cond u p p'" "table_schemas tn cols sc"
  shows "unit_holds sc row u = cond_holds (\<lambda>f. column_value sc row (tn @ ''.'' @ f)) cond"
  using assms by (auto simp: unit_made_def unit_holds_def cond_holds_def means_def)

lemma unit_made_int: "unit_made tn cols cond u p p' \<Longrightarrow> sql_condition tn cols cond \<Longrightarrow> int_unit u"
  by (auto simp: unit_made_def int_unit_def means_def sql_condition_def)

text \<open>The objects of units that were built one after the other.\<close>

definition units_ready :: "string \<Rightarrow> FieldMeta list \<Rightarrow> FilterUnit list \<Rightarrow> Plan \<Rightarrow> Plan \<Rightarrow> bool" where
  "units_ready tn cols us p p' \<longleftrightarrow> grows p p' \<and> (\<forall>u\<in>set us. int_unit u \<or> inner_unit u) \<and>
     (let es = concat (map unit_exprs us) in distinct (tree_ids es) \<and> set (tree_ids es) \<subseteq> {pl_expr p..<pl_expr p'} \<and>
       (\<forall>x\<in>set es. parsed (pl_q p') x \<and> (\<exists>e. means tn cols e x)))"

lemma tree_ids_append: "tree_ids (xs @ ys) = tree_ids xs @ tree_ids ys"
  by (simp add: tree_ids_def)

lemma parsed_all_grows:
  assumes "grows p p'" "set (tree_ids es) \<subseteq> {..<pl_expr p}" "\<forall>x\<in>set es. parsed (pl_q p) x"
  shows "\<forall>x\<in>set es. parsed (pl_q p') x"
proof
  fix x
  assume x: "x \<in> set es"
  then have "set (expr_ids x) \<subseteq> {..<pl_expr p}" using assms(2) by (auto simp: tree_ids_def)
  then show "parsed (pl_q p') x" using parsed_grows[OF assms(1)] assms(3) x by blast
qed

lemma unit_ready_made:
  assumes "unit_made tn cols cond u p p'"
  shows "grows p p' \<and> distinct (tree_ids (unit_exprs u)) \<and> set (tree_ids (unit_exprs u)) \<subseteq> {pl_expr p..<pl_expr p'} \<and>
    (\<forall>x\<in>set (unit_exprs u). parsed (pl_q p') x \<and> (\<exists>e. means tn cols e x))"
proof -
  obtain a b l r p1 where u: "u = FilterUnit (cond_comp cond) (Some l) (Some r) (- 1) (- 1)" "grows p p1" "made l p p1" "means tn cols a l"
      "grows p1 p'" "made r p1 p'" "means tn cols b r"
    using assms unfolding unit_made_def by blast
  have "parsed (pl_q p') l" using u(3) by (intro parsed_grows[OF u(5)]) (auto simp: made_def)
  moreover have "set (expr_ids l) \<inter> set (expr_ids r) = {}" using u(3,6) by (fastforce simp: made_def)
  moreover have "pl_expr p \<le> pl_expr p1" "pl_expr p1 \<le> pl_expr p'" using u(2,5) by (simp_all add: grows_def)
  then have "set (expr_ids l) \<union> set (expr_ids r) \<subseteq> {pl_expr p..<pl_expr p'}" using u(3,6) unfolding made_def by fastforce
  moreover have "unit_exprs u = [l, r]" using u(1) by (simp add: unit_exprs_def)
  ultimately show ?thesis
    using u(3,4,6,7) grows_trans[OF u(2,5)] by (auto simp: tree_ids_def made_def)
qed

lemma steps_ready:
  assumes "int_builder.steps tn cols p us p'"
  shows "units_ready tn cols us p p'"
  using assms
proof (induction us arbitrary: p)
  case Nil
  then show ?case by (simp add: units_ready_def tree_ids_def)
next
  case (Cons u us)
  consider "inner_unit u" "int_builder.steps tn cols p us p'"
    | cond p1 where "sql_condition tn cols cond" "unit_made tn cols cond u p p1" "int_builder.steps tn cols p1 us p'"
    using Cons.prems by auto
  then show ?case
  proof cases
    case 1
    then have "unit_exprs u = []" by (simp add: inner_unit_def unit_exprs_def)
    then show ?thesis using Cons.IH[OF 1(2)] 1(1) by (simp add: units_ready_def Let_def)
  next
    case 2
    note r = Cons.IH[OF 2(3)] unit_ready_made[OF 2(2)]
    have g: "grows p p1" "grows p1 p'" using r by (simp_all add: units_ready_def)
    then have le: "pl_expr p \<le> pl_expr p1" "pl_expr p1 \<le> pl_expr p'" by (simp_all add: grows_def)
    have ids: "set (tree_ids (unit_exprs u)) \<subseteq> {pl_expr p..<pl_expr p1}" "set (tree_ids (concat (map unit_exprs us))) \<subseteq> {pl_expr p1..<pl_expr p'}"
      using r by (simp_all add: units_ready_def Let_def)
    then have "set (tree_ids (unit_exprs u)) \<inter> set (tree_ids (concat (map unit_exprs us))) = {}" by fastforce
    moreover have "set (tree_ids (unit_exprs u)) \<subseteq> {pl_expr p..<pl_expr p'}" "set (tree_ids (concat (map unit_exprs us))) \<subseteq> {pl_expr p..<pl_expr p'}"
      using ids le by (meson atLeastLessThan_iff order_trans less_le_trans subset_iff)+
    moreover have "set (tree_ids (unit_exprs u)) \<subseteq> {..<pl_expr p1}" using ids(1) by auto
    then have "\<forall>x\<in>set (unit_exprs u). parsed (pl_q p') x" using r(2) by (intro parsed_all_grows[OF g(2)]) blast+
    moreover note grows_trans[OF g]
    ultimately show ?thesis
      using r unit_made_int[OF 2(2,1)] by (simp add: units_ready_def Let_def tree_ids_append ball_Un)
  qed
qed

text \<open>The filter of a \<^verbatim>\<open>WHERE\<close> clause.\<close>

lemma where_clause_int:
  assumes "int_ready tn cols t w c p" "cs = [] \<or> cond_encodes cs (int (length cs) - 1) ct \<and> (\<forall>j\<in>leaves ct. sql_condition tn cols (cs ! j))"
  shows "\<exists>us om p' ct'. FilterStmt_create_tree atof sub c cs p = Some (Inr (FilterStmt us om), p') \<and> units_ready tn cols us p p' \<and>
    where_shape us om ct' \<and>
    (\<forall>sc row. table_schemas tn cols sc \<longrightarrow> where_holds sc us om ct' row \<longleftrightarrow>
       cs = [] \<or> tree_holds (\<lambda>j. cond_holds (\<lambda>f. column_value sc row (tn @ ''.'' @ f)) (cs ! j)) ct)"
proof (cases "cs = []")
  case True
  then show ?thesis
    by (auto simp: FilterStmt_create_tree_def units_ready_def where_shape_def where_holds_def int_units_def tree_ids_def)
next
  case False
  then obtain us p' ct' where b: "FilterStmt_create_tree atof sub c cs p = Some (Inr (FilterStmt us True), p')" "us \<noteq> []"
      "int_builder.steps tn cols p us p'" "encodes us (int (length us) - 1) ct'" "int_builder.matches tn cols cs us ct ct'"
    using int_builder.create_tree_built[of cs ct tn cols t w c p atof sub] assms by blast
  have r: "units_ready tn cols us p p'" using steps_ready[OF b(3)] .
  then have "where_shape us True ct'" using b(4) by (auto simp: where_shape_def int_units_def units_ready_def Let_def)
  moreover have "where_holds sc us True ct' row \<longleftrightarrow> tree_holds (\<lambda>j. cond_holds (\<lambda>f. column_value sc row (tn @ ''.'' @ f)) (cs ! j)) ct"
    if "table_schemas tn cols sc" for sc row
    using int_builder.matches_holds[OF b(5), of "unit_holds sc row"] unit_made_holds[OF _ that] b(2) by (simp add: where_holds_def)
  ultimately show ?thesis using b(1) r False by blast
qed

end
