(* ===== verification/Ob_QueryProps.thy ===== *)
theory Ob_QueryProps
  imports Ob_Plan Ob_ConstructProps Ob_TableProps
begin

text \<open>
  From the parse tree to the rows: what a query over one table returns, through the statement, the operators and the scan.
\<close>

section \<open>Names without aliases\<close>

lemma revert_no_alias: "revertTableName [] e = Inr e" "revert_all [] es = Inr es"
  by (induction "[] :: alias_map" e and "[] :: alias_map" es rule: revertTableName_revert_all.induct)
    (auto simp: alias_count_def split: option.splits)

lemma revert_conditions_no_alias: "revert_conditions [] cs = Inr cs"
  by (induction "[] :: alias_map" cs rule: revert_conditions.induct) (auto simp: revert_option_def revert_no_alias split: option.splits)

lemma revert_selects_no_alias: "revert_selects [] (Selects es js cs [] [] []) = Inr (Selects es js cs [] [] [])"
  by (simp add: revert_selects_def revert_no_alias revert_conditions_no_alias)

section \<open>The fields of the query\<close>

text \<open>A leaf that names a column of the table.\<close>

definition column_leaf :: "string \<Rightarrow> FieldMeta list \<Rightarrow> Expr \<Rightarrow> bool" where
  "column_leaf tn cols e \<longleftrightarrow> (\<exists>tab attr. leaf_field e = Some (tab, attr) \<and> (tab = None \<or> tab = Some tn) \<and> (\<exists>f\<in>set cols. fm_name f = attr))"

lemma has_leaf_total:
  assumes "list_all (column_leaf tn cols) ls"
  shows "\<exists>b. has_leaf (Some tn) tab attr ls = Some b"
  using assms
proof (induction ls)
  case (Cons e ls)
  then obtain b where "has_leaf (Some tn) tab attr ls = Some b" by auto
  then show ?case using Cons.prems by (auto simp: column_leaf_def or_default_def split: option.splits)
qed auto

lemma leafs_int:
  assumes "sql_int tn cols e" "list_all (column_leaf tn cols) ls" "plain_columns tn cols"
  shows "\<exists>ls'. getExpressionLeafs (Some tn) e ls = Some ls' \<and> list_all (column_leaf tn cols) ls'"
  using assms
proof (induction tn cols e arbitrary: ls rule: sql_int.induct)
  case (2 tn cols al br tab attr)
  obtain b where b: "has_leaf (Some tn) tab attr ls = Some b" using has_leaf_total[OF 2(2)] by blast
  have "attr \<noteq> ''*''" using 2(1,3) by (auto simp: plain_columns_def plain_def)
  then show ?case using 2 b by (auto simp: column_leaf_def leaf_field_def)
next
  case (4 tn cols al br a b op)
  obtain ls1 where "getExpressionLeafs (Some tn) a ls = Some ls1" "list_all (column_leaf tn cols) ls1"
    using "4.IH"(1)[OF _ 4(4,5)] 4(3) by auto
  then show ?case using "4.IH"(2)[of ls1] 4(3,5) by auto
qed auto

lemma sql_int_looks:
  assumes "sql_int tn cols e"
  shows "looks_like_field e = Some (leaf_field e \<noteq> None)" "leaf_field e \<noteq> None \<Longrightarrow> column_leaf tn cols e"
  using assms by (induction tn cols e rule: sql_int.induct) (auto simp: looks_like_field_def leaf_field_def column_leaf_def)

lemma select_leafs_int:
  assumes "list_all (sql_int tn cols) es" "list_all (column_leaf tn cols) ls" "plain_columns tn cols"
  shows "\<exists>ls'. select_leafs (Some tn) es ls = Some ls' \<and> list_all (column_leaf tn cols) ls'"
  using assms
proof (induction es arbitrary: ls)
  case (Cons e es)
  have e: "sql_int tn cols e" using Cons.prems by simp
  obtain ls1 where "(if leaf_field e \<noteq> None then Some (ls @ [e]) else getExpressionLeafs (Some tn) e ls) = Some ls1" "list_all (column_leaf tn cols) ls1"
    using leafs_int[OF e Cons.prems(2,3)] sql_int_looks(2)[OF e] Cons.prems(2) by (cases "leaf_field e = None") auto
  then show ?case using Cons.IH[of ls1] Cons.prems sql_int_looks(1)[OF e] by auto
qed simp

lemma condition_leafs_int:
  assumes "\<forall>c\<in>set cs. \<forall>e. cond_left c = Some e \<or> cond_right c = Some e \<longrightarrow> sql_int tn cols e" "list_all (column_leaf tn cols) ls" "plain_columns tn cols"
  shows "\<exists>ls'. condition_leafs (Some tn) cs ls = Some ls' \<and> list_all (column_leaf tn cols) ls'"
  using assms
proof (induction cs arbitrary: ls)
  case (Cons c cs)
  have side: "\<exists>ls'. leafs_option (Some tn) eo ls = Some ls' \<and> list_all (column_leaf tn cols) ls'"
    if "\<forall>e. eo = Some e \<longrightarrow> sql_int tn cols e" "list_all (column_leaf tn cols) ls" for eo ls
    using that leafs_int[OF _ that(2) Cons.prems(3)] by (auto simp: leafs_option_def split: option.splits)
  obtain ls1 where 1: "leafs_option (Some tn) (cond_left c) ls = Some ls1" "list_all (column_leaf tn cols) ls1"
    using side[of "cond_left c" ls] Cons.prems by auto
  obtain ls2 where 2: "leafs_option (Some tn) (cond_right c) ls1 = Some ls2" "list_all (column_leaf tn cols) ls2"
    using side[of "cond_right c" ls1] Cons.prems 1(2) by auto
  obtain ls3 where "condition_leafs (Some tn) cs ls2 = Some ls3" "list_all (column_leaf tn cols) ls3"
    using Cons.IH[of ls2] Cons.prems 2(2) by auto
  then show ?case using 1(1) 2(1) by simp
qed simp

lemma leaf_fields_column:
  assumes "column_leaf tn cols e" "int_ready tn cols t w c p" "tm tn = Some t"
  shows "\<exists>fs. leaf_fields db m tm [t] p e = Some (Inr fs)"
proof -
  obtain tab attr f where l: "leaf_field e = Some (tab, attr)" "tab = None \<or> tab = Some tn" "f \<in> set cols" "fm_name f = attr"
    using assms(1) by (auto simp: column_leaf_def)
  have "field_by_name (Some attr) (plan_meta t p) = Some f"
    using field_by_distinct[of _ f] assms(2) l(3,4) by (auto simp: int_ready_def field_by_name_def plan_meta_def)
  moreover have "attr \<noteq> ''*''" "\<not> is_blank (Some tn)" "tn \<noteq> ''*''"
    using assms(2) l(3,4) by (auto simp: int_ready_def plain_columns_def plain_def)
  moreover have "is_blank None" by (simp add: is_blank_def)
  ultimately show ?thesis
    using l(1,2) assms(3) by (auto simp: leaf_fields_def one_field_def)
qed

lemma query_fields_columns:
  assumes "list_all (column_leaf tn cols) ls" "int_ready tn cols t w c p" "tm tn = Some t"
  shows "\<exists>fs. query_fields_of db m tm [t] p ls = Some (Inr fs)"
  using assms(1)
proof (induction ls)
  case (Cons e ls)
  then show ?case using leaf_fields_column[of tn cols e t w c p tm db m] assms(2,3) by auto
qed simp

section \<open>The statement\<close>

definition single_join :: "string \<Rightarrow> InnerJoinNode" where
  "single_join tn = InnerJoinNode None None tn []"

definition single_ctx :: "Db \<Rightarrow> string \<Rightarrow> nat \<Rightarrow> PlanCtx" where
  "single_ctx db tn t = \<lparr>ctx_db = db, ctx_default = Some t, ctx_tables = [tn \<mapsto> t]\<rparr>"

text \<open>The expressions of the query, built one after the other.\<close>

definition exprs_ready :: "string \<Rightarrow> FieldMeta list \<Rightarrow> Expr list \<Rightarrow> BaseExpression list \<Rightarrow> Plan \<Rightarrow> Plan \<Rightarrow> bool" where
  "exprs_ready tn cols es xs p p' \<longleftrightarrow> grows p p' \<and> list_all2 (means tn cols) es xs \<and> distinct (tree_ids xs) \<and>
     set (tree_ids xs) \<subseteq> {pl_expr p..<pl_expr p'} \<and> (\<forall>x\<in>set xs. parsed (pl_q p') x)"

lemma select_expression_int:
  assumes "sql_int tn cols e" "int_ready tn cols t w c p"
  shows "\<exists>x p'. select_expression atof sub c m ts e p = Some (Inr [x], p') \<and> grows p p' \<and> made x p p' \<and> means tn cols e x"
proof -
  obtain x p' where x: "constructExpression atof sub c e p = Some (Some x, p')" "grows p p'" "made x p p'" "means tn cols e x"
    using constructExpression_int[OF assms, of atof sub] by blast
  have "attr \<noteq> ''*''" if "leaf_field e = Some (tab, attr)" for tab attr
    using sql_int_looks(2)[OF assms(1)] that assms(2) by (auto simp: column_leaf_def int_ready_def plain_columns_def plain_def)
  then have "select_expression atof sub c m ts e p = Some (Inr [x], p')"
    using x(1) by (auto simp: select_expression_def split: option.splits)
  then show ?thesis using x(2-4) by blast
qed

lemma select_expressions_int:
  assumes "list_all (sql_int tn cols) es" "int_ready tn cols t w c p"
  shows "\<exists>xs p'. select_expressions atof sub c m ts es p = Some (Inr xs, p') \<and> exprs_ready tn cols es xs p p'"
  using assms
proof (induction es arbitrary: p)
  case Nil
  then show ?case by (simp add: exprs_ready_def tree_ids_def)
next
  case (Cons e es)
  obtain x p1 where x: "select_expression atof sub c m ts e p = Some (Inr [x], p1)" "grows p p1" "made x p p1" "means tn cols e x"
    using select_expression_int[of tn cols e t w c p atof sub m ts] Cons.prems by auto
  obtain xs p' where xs: "select_expressions atof sub c m ts es p1 = Some (Inr xs, p')" "exprs_ready tn cols es xs p1 p'"
    using Cons.IH[of p1] Cons.prems int_ready_grows[OF _ x(2)] by auto
  have g: "grows p1 p'" using xs(2) by (simp add: exprs_ready_def)
  have le: "pl_expr p \<le> pl_expr p1" "pl_expr p1 \<le> pl_expr p'" using x(2) g by (simp_all add: grows_def)
  have ids: "set (expr_ids x) \<subseteq> {pl_expr p..<pl_expr p1}" "set (tree_ids xs) \<subseteq> {pl_expr p1..<pl_expr p'}"
    using x(3) xs(2) by (simp_all add: made_def exprs_ready_def)
  have "set (expr_ids x) \<subseteq> {..<pl_expr p1}" using ids(1) by auto
  then have "parsed (pl_q p') x" using parsed_grows[OF g] x(3) by (simp add: made_def)
  moreover have "set (expr_ids x) \<inter> set (tree_ids xs) = {}" using ids by fastforce
  moreover have "set (expr_ids x) \<subseteq> {pl_expr p..<pl_expr p'}" "set (tree_ids xs) \<subseteq> {pl_expr p..<pl_expr p'}"
    using ids le by (meson atLeastLessThan_iff order_trans less_le_trans subset_iff)+
  ultimately have "exprs_ready tn cols (e # es) (x # xs) p p'"
    using x(3,4) xs(2) grows_trans[OF x(2) g] by (simp add: exprs_ready_def made_def)
  then show ?case using x(1) xs(1) by (simp add: and_then_def)
qed

definition conditions_ok :: "string \<Rightarrow> FieldMeta list \<Rightarrow> Condition list \<Rightarrow> cond_tree \<Rightarrow> bool" where
  "conditions_ok tn cols cs ct \<longleftrightarrow>
     (cs = [] \<or> cond_encodes cs (int (length cs) - 1) ct \<and> (\<forall>j\<in>leaves ct. sql_condition tn cols (cs ! j))) \<and>
     (\<forall>c\<in>set cs. \<forall>e. cond_left c = Some e \<or> cond_right c = Some e \<longrightarrow> sql_int tn cols e)"

definition single_stmt :: "BaseExpression list \<Rightarrow> query_field list \<Rightarrow> nat \<Rightarrow> FilterStmt \<Rightarrow> SelectStmt" where
  "single_stmt xs fs t f = \<lparr>ss_expressions = xs, ss_groupBy = [], ss_orderBy = [], ss_query_fields = fs, ss_tables = [t], ss_filter = f,
     ss_having = FilterStmt [] False, ss_scans = [], ss_joins = [InnerJoin None t None], ss_alias = []\<rparr>"

lemma select_fields_int:
  assumes "int_ready tn cols t w c p" "list_all (sql_int tn cols) es" "conditions_ok tn cols cs ct"
  shows "\<exists>fs. select_fields db [] [tn \<mapsto> t] [t] (Selects es js cs [] [] []) p = Some (Inr fs)"
proof -
  have pl: "plain_columns tn cols" and n: "tm_name (plan_meta t p) = tn" using assms(1) by (simp_all add: int_ready_def plan_meta_def)
  obtain ls where ls: "select_leafs (Some tn) (rev es) [] = Some ls" "list_all (column_leaf tn cols) ls"
    using select_leafs_int[of tn cols "rev es" "[]"] assms(2) pl by auto
  obtain ls' where "condition_leafs (Some tn) cs ls = Some ls'" "list_all (column_leaf tn cols) ls'"
    using condition_leafs_int[OF _ ls(2) pl, of cs] assms(3) by (auto simp: conditions_ok_def)
  then show ?thesis
    using ls(1) query_fields_columns[OF _ assms(1), of ls' "[tn \<mapsto> t]" db "[]"] by (simp add: select_fields_def default_table_def n)
qed

lemma select_plan_int:
  assumes "find_table tn db = Some t" "pl_alias p = []" "int_ready tn cols t w (single_ctx db tn t) p"
    and "list_all (sql_int tn cols) es" "distinct (List.map_filter expr_alias es)" "conditions_ok tn cols cs ct"
  shows "\<exists>xs fs us om p1 p2 ct'. select_plan (Suc n) atof db (Selects es [single_join tn] cs [] [] []) p =
      Some (Inr (single_stmt xs fs t (FilterStmt us om)), p2) \<and>
    exprs_ready tn cols (rev es) xs p p1 \<and> units_ready tn cols us p1 p2 \<and> where_shape us om ct' \<and>
    (\<forall>sc row. table_schemas tn cols sc \<longrightarrow> where_holds sc us om ct' row \<longleftrightarrow>
       cs = [] \<or> tree_holds (\<lambda>j. cond_holds (\<lambda>f. column_value sc row (tn @ ''.'' @ f)) (cs ! j)) ct)"
proof -
  let ?c = "single_ctx db tn t" and ?sel = "Selects es [single_join tn] cs [] [] []" and ?sub = "\<lambda>sel p. subquery_flow (select_plan n atof db sel p)"
  have p: "p\<lparr>pl_alias := []\<rparr> = p" using assms(2) by (cases p) simp
  have tm: "constructTableMap db [single_join tn] = Inr ([tn \<mapsto> t], [t], [])"
    using assms(1) by (simp add: constructTableMap_def single_join_def)
  obtain fs where fs: "select_fields db [] [tn \<mapsto> t] [t] ?sel p = Some (Inr fs)"
    using select_fields_int[OF assms(3,4,6)] by blast
  have c: "\<lparr>ctx_db = db, ctx_default = default_table [t], ctx_tables = [tn \<mapsto> t]\<rparr> = ?c" by (simp add: single_ctx_def default_table_def)
  obtain xs p1 where xs: "select_expressions atof ?sub ?c [] [t] (rev es) p = Some (Inr xs, p1)" "exprs_ready tn cols (rev es) xs p p1"
    using select_expressions_int[OF _ assms(3), of "rev es" atof ?sub "[]" "[t]"] assms(4) by auto
  have r1: "int_ready tn cols t w ?c p1" using int_ready_grows[OF assms(3)] xs(2) by (simp add: exprs_ready_def)
  obtain us om p2 ct' where f: "FilterStmt_create_tree atof ?sub ?c cs p1 = Some (Inr (FilterStmt us om), p2)" "units_ready tn cols us p1 p2" "where_shape us om ct'"
      "\<forall>sc row. table_schemas tn cols sc \<longrightarrow> where_holds sc us om ct' row \<longleftrightarrow>
       cs = [] \<or> tree_holds (\<lambda>j. cond_holds (\<lambda>f. column_value sc row (tn @ ''.'' @ f)) (cs ! j)) ct"
    using where_clause_int[OF r1, of cs ct atof ?sub] assms(6) unfolding conditions_ok_def by blast
  have "pl_alias p2 = []" using assms(2) xs(2) f(2) by (simp add: exprs_ready_def units_ready_def grows_def)
  then have p2: "p2\<lparr>pl_alias := []\<rparr> = p2" by (cases p2) simp
  have "select_clauses atof ?sub ?c [] [t] [] fs ?sel p = Some (Inr (single_stmt xs fs t (FilterStmt us om)), p2)"
    using xs(1) f(1) by (simp add: select_clauses_def and_then_def single_join_def single_ctx_def FilterStmt_create_def single_stmt_def p2)
  then have "select_plan (Suc n) atof db ?sel p = Some (Inr (single_stmt xs fs t (FilterStmt us om)), p2)"
    using fs assms(2,5) by (simp add: SelectStmt_create_def tm p c revert_selects_no_alias del: select_plan.simps(1))
  then show ?thesis using xs(2) f(2-4) by blast
qed

section \<open>The operators\<close>

lemma new_columns_grow:
  "\<exists>xs p'. new_columns tn cols p = (xs, p') \<and> grows p p' \<and> list_all2 (\<lambda>f x. \<exists>n. x = IdentifierExpression n tn (fm_name f) (fm_type f)) cols xs"
proof (induction cols arbitrary: p)
  case (Cons f cols)
  obtain p1 where p1: "new_identifier tn (fm_name f) (fm_type f) p = (IdentifierExpression (pl_expr p) tn (fm_name f) (fm_type f), p1)" "grows p p1"
    by (auto simp: new_identifier_def new_expr_def grows_def Let_def)
  obtain xs p' where "new_columns tn cols p1 = (xs, p')" "grows p1 p'"
      "list_all2 (\<lambda>f x. \<exists>n. x = IdentifierExpression n tn (fm_name f) (fm_type f)) cols xs"
    using Cons.IH[of p1] by blast
  then show ?case using p1 grows_trans[OF p1(2)] by auto
qed simp

lemma int_no_aggregate: "int_tree x \<Longrightarrow> \<not> containAggregate x"
  by (induction x rule: expr_ids.induct) auto

text \<open>A scan, a predicate and a projection with fresh objects.\<close>

definition fresh_operators :: "nat \<Rightarrow> 'w QState \<Rightarrow> bool" where
  "fresh_operators n s \<longleftrightarrow> opers s n = oper_init \<and> opers s (Suc n) = oper_init \<and> opers s (Suc (Suc n)) = oper_init"

lemma single_flow:
  assumes "world (pl_q p) = (s, ops)" "tm_name (meta_of t s) = tn" "drop (length (ts_sys_fields s)) (tm_fields (meta_of t s)) = cols"
    and "list_all int_tree xs"
  shows "\<exists>sc p'. (case with_scans (single_stmt xs fs t f) p of (ss, p) \<Rightarrow> generateOperatorFlow ss p) =
      Some (Inr (TransformerAndProjectOperator (Suc (Suc (pl_oper p))) (PredicateOperator1 (Suc (pl_oper p)) (ScanOperator (pl_oper p) (pl_scan p) sc) f) xs), p') \<and>
    table_schemas tn cols sc \<and> (\<forall>n<pl_expr p. exprs (pl_q p') n = exprs (pl_q p) n) \<and> fresh_operators (pl_oper p) (pl_q p') \<and>
    world (pl_q p') = (snd (new_mem s), ops(pl_scan p := table_scan_new t (fst (new_mem s))))"
proof -
  let ?w = "(snd (new_mem s), ops(pl_scan p := table_scan_new t (fst (new_mem s))))"
  let ?p = "p\<lparr>pl_q := (pl_q p)\<lparr>world := ?w\<rparr>, pl_scan := Suc (pl_scan p)\<rparr>"
  let ?ss = "single_stmt xs fs t f"
  have ws: "with_scans ?ss p = (?ss\<lparr>ss_scans := [pl_scan p]\<rparr>, ?p)"
    using assms(1) by (simp add: with_scans_def single_stmt_def Let_def split: prod.splits)
  have meta: "plan_meta t ?p = meta_of t s" "plan_sys ?p = length (ts_sys_fields s)"
    by (simp_all add: plan_meta_def plan_sys_def new_mem_def)
  obtain ys p1 where y: "expandStar t ?p = (ys, p1)" "grows ?p p1" "list_all2 (\<lambda>f x. \<exists>n. x = IdentifierExpression n tn (fm_name f) (fm_type f)) cols ys"
    using new_columns_grow[of tn cols ?p] assms(2,3) unfolding expandStar_def meta by auto
  let ?sc = "map (schema_of (pl_q p1)) ys"
  have "table_schemas tn cols ?sc"
    using y(3) by (auto simp: table_schemas_def list_all2_map2 schema_of_def elim: list_all2_mono)
  moreover have "\<not> list_ex containAggregate xs"
    using assms(4) int_no_aggregate by (auto simp: list_ex_iff list_all_iff)
  moreover have "pl_oper p1 = pl_oper p" "world (pl_q p1) = ?w" "\<forall>n<pl_expr p. exprs (pl_q p1) n = exprs (pl_q p) n" using y(2) by (simp_all add: grows_def)
  ultimately show ?thesis
    using y(1) unfolding ws
    by (auto simp: generateOperatorFlow_def single_stmt_def containAggregateFunction_def plain_flow_def ordered_flow_def multi_def new_oper_def
        fresh_operators_def upd_oper_def oper_init_def Let_def)
qed

section \<open>The rows\<close>

text \<open>The integer in a column of a row.\<close>

definition row_column :: "FieldMeta list \<Rightarrow> Row \<Rightarrow> string \<Rightarrow> int option" where
  "row_column cols row f = (case map_of (zip (map fm_name cols) row) f of
      Some (IntItem v isnull) \<Rightarrow> if isnull then None else Some v
    | _ \<Rightarrow> None)"

lemma column_value_row:
  assumes "table_schemas tn cols sc" "distinct (map fm_name cols)" "length row = length cols"
  shows "column_value sc row (tn @ ''.'' @ f) = row_column cols row f"
proof (cases "f \<in> fm_name ` set cols")
  case True
  then obtain i where i: "i < length cols" "fm_name (cols ! i) = f" by (auto simp: in_set_conv_nth)
  then have "find_column (tn @ ''.'' @ f) sc 0 = Some (int i)" using find_column_nth[OF assms(1,2) i(1), of 0] by simp
  moreover have "map_of (zip (map fm_name cols) row) f = Some (row ! i)"
    using map_of_zip_nth[of "map fm_name cols" row i] assms(2,3) i by simp
  ultimately show ?thesis using i(1) assms(3) by (simp add: column_value_def row_column_def row_at_def)
next
  case False
  have "find_column (tn @ ''.'' @ f) sc k = Some (- 1)" for k
    using assms(1) False unfolding table_schemas_def
    by (induction arbitrary: k rule: list_all2_induct) auto
  moreover have "map_of (zip (map fm_name cols) row) f = None"
    using False assms(3) by (simp add: map_of_zip_is_None)
  ultimately show ?thesis by (simp add: column_value_def row_column_def row_at_def)
qed

lemma scan_rows_all:
  assumes "\<forall>row\<in>set rows. length row = length sc"
  shows "scan_rows sc rows = \<lparr>rel_rows = rows, rel_schemas = sc, rel_multiTable = False\<rparr>"
proof -
  have "fold (\<lambda>row r. snd (rel_insertRow row r)) rows r = r\<lparr>rel_rows := rel_rows r @ rows\<rparr>" if "rel_schemas r = sc" for r
    using assms that by (induction rows arbitrary: r) (auto simp: rel_insertRow_def)
  from this[of "new_relation sc"] show ?thesis by (simp add: scan_rows_def new_relation_def)
qed

text \<open>The value of a query over the rows of a table.\<close>

definition query_rows :: "FieldMeta list \<Rightarrow> Expr list \<Rightarrow> Condition list \<Rightarrow> cond_tree \<Rightarrow> Row list \<Rightarrow> Row list" where
  "query_rows cols es cs ct rows =
     map (\<lambda>row. map (\<lambda>e. int_item (sql_value (row_column cols row) e)) (rev es))
       (filter (\<lambda>row. cs = [] \<or> tree_holds (\<lambda>j. cond_holds (row_column cols row) (cs ! j)) ct) rows)"

lemma query_rows_eq:
  assumes "table_schemas tn cols sc" "distinct (map fm_name cols)" "\<forall>row\<in>set rows. row_fits cols row" "list_all2 (means tn cols) (rev es) xs"
    and "\<forall>sc row. table_schemas tn cols sc \<longrightarrow> where_holds sc us om ct' row \<longleftrightarrow>
       cs = [] \<or> tree_holds (\<lambda>j. cond_holds (\<lambda>f. column_value sc row (tn @ ''.'' @ f)) (cs ! j)) ct"
  shows "map (value_row sc xs) (filter (where_holds sc us om ct') rows) = query_rows cols es cs ct rows"
proof -
  have col: "(\<lambda>f. column_value sc row (tn @ ''.'' @ f)) = row_column cols row" if "row \<in> set rows" for row
    using column_value_row[OF assms(1,2)] assms(3) that by (auto simp: row_fits_def list_all2_lengthD)
  have "where_holds sc us om ct' row \<longleftrightarrow> cs = [] \<or> tree_holds (\<lambda>j. cond_holds (row_column cols row) (cs ! j)) ct" if "row \<in> set rows" for row
    using assms(1,5) col[OF that] by simp
  moreover have "value_row sc xs row = map (\<lambda>e. int_item (sql_value (row_column cols row) e)) (rev es)" if "row \<in> set rows" for row
  proof -
    have "list_all2 (\<lambda>e x. int_item (int_value sc row x) = int_item (sql_value (row_column cols row) e)) (rev es) xs"
      using assms(4) by (rule list_all2_mono) (use assms(1) col[OF that] in \<open>auto simp: means_def\<close>)
    then show ?thesis by (auto simp: value_row_def list_all2_conv_all_nth intro!: nth_equalityI)
  qed
  ultimately show ?thesis unfolding query_rows_def by (auto cong: filter_cong)
qed

text \<open>The objects of the statement satisfy what the evaluation of integer queries asks for.\<close>

lemma stmt_ready:
  assumes "exprs_ready tn cols es xs p p1" "units_ready tn cols us p1 p2" "table_schemas tn cols sc"
    and "\<forall>n<pl_expr p2. exprs s n = exprs (pl_q p2) n"
  shows "Ob_WhereProps.ready sc (xs @ concat (map unit_exprs us)) s" "distinct (tree_ids (xs @ concat (map unit_exprs us)))"
    "row_fits cols row \<Longrightarrow> \<forall>x\<in>set (xs @ concat (map unit_exprs us)). int_row sc row x"
proof -
  let ?us = "concat (map unit_exprs us)"
  have e: "grows p p1" "set (tree_ids xs) \<subseteq> {pl_expr p..<pl_expr p1}" "distinct (tree_ids xs)" "\<forall>x\<in>set xs. parsed (pl_q p1) x"
    using assms(1) by (simp_all add: exprs_ready_def)
  have u: "grows p1 p2" "set (tree_ids ?us) \<subseteq> {pl_expr p1..<pl_expr p2}" "distinct (tree_ids ?us)" "\<forall>x\<in>set ?us. parsed (pl_q p2) x"
    using assms(2) by (simp_all add: units_ready_def Let_def)
  have means: "\<forall>x\<in>set (xs @ ?us). \<exists>e. means tn cols e x"
  proof -
    have "\<exists>e. means tn cols e x" if "x \<in> set xs" for x
      using assms(1) that unfolding exprs_ready_def list_all2_conv_all_nth in_set_conv_nth by metis
    then show ?thesis using assms(2) by (auto simp: units_ready_def Let_def)
  qed
  have lt: "set (tree_ids xs) \<subseteq> {..<pl_expr p1}" using e(2) by auto
  have "pl_expr p1 \<le> pl_expr p2" using u(1) by (simp add: grows_def)
  then have ids: "set (tree_ids (xs @ ?us)) \<subseteq> {..<pl_expr p2}" using lt u(2) by (force simp: tree_ids_append)
  have "\<forall>x\<in>set (xs @ ?us). parsed (pl_q p2) x" using parsed_all_grows[OF u(1) lt e(4)] u(4) by auto
  moreover have "parsed s x = parsed (pl_q p2) x" if "x \<in> set (xs @ ?us)" for x
  proof (rule parsed_cong)
    fix n
    assume "n \<in> set (expr_ids x)"
    then have "n < pl_expr p2" using that ids by (fastforce simp: tree_ids_def)
    then show "exprs s n = exprs (pl_q p2) n" using assms(4) by blast
  qed
  ultimately show "Ob_WhereProps.ready sc (xs @ ?us) s" using means assms(3) unfolding Ob_WhereProps.ready_def means_def by blast
  have "set (tree_ids xs) \<inter> set (tree_ids ?us) = {}" using e(2) u(2) by fastforce
  then show "distinct (tree_ids (xs @ ?us))" using e(3) u(3) by (simp add: tree_ids_append)
  show "\<forall>x\<in>set (xs @ ?us). int_row sc row x" if "row_fits cols row"
    using means assms(3) that unfolding means_def by blast
qed

text \<open>Evaluating the scan of a fresh operator.\<close>

lemma fresh_scan:
  assumes "fresh_operators n s" "env_scan env k (world s) = Some ((SUCCESS, rows), w)" "\<forall>row\<in>set rows. length row = length sc"
  shows "\<exists>s1. evaluate env (ScanOperator n k sc) s = Some ((SUCCESS, Some \<lparr>rel_rows = rows, rel_schemas = sc, rel_multiTable = False\<rparr>), s1) \<and>
    exprs s1 = exprs s \<and> opers s1 (Suc n) = oper_init \<and> opers s1 (Suc (Suc n)) = oper_init"
  using assms scan_rows_all[OF assms(3)] by (simp add: scan_evaluate_def fresh_operators_def oper_init_def upd_oper_def Let_def)

text \<open>
  C2.  A query means what its text says.  For a table with columns of plain names, whose scan returns the rows
  \<open>rows\<close>, the parse tree of \<^verbatim>\<open>SELECT es FROM tn WHERE cs\<close>, where the expressions and both sides of all comparisons are integer
  expressions over the table and the conditions form a tree of \<^verbatim>\<open>AND\<close> and \<^verbatim>\<open>OR\<close>, is made into a statement, a tree of operators and a
  relation whose rows are the values of the expressions, in the order of the text (the parser stores them in reverse), on those rows for which
  the conditions hold.  Columns may be written with or without the name of the table, and expressions may have aliases.
\<close>

theorem query_correct:
  assumes "find_table tn db = Some t" "pl_alias p = []" "world (pl_q p) = (s, ops)"
    and "tm_name (meta_of t s) = tn" "drop (length (ts_sys_fields s)) (tm_fields (meta_of t s)) = cols" "distinct (map fm_name (tm_fields (meta_of t s)))"
    and "plain_columns tn cols" "list_all (sql_int tn cols) es" "distinct (List.map_filter expr_alias es)" "conditions_ok tn cols cs ct"
    and "env_scan env (pl_scan p) (snd (new_mem s), ops(pl_scan p := table_scan_new t (fst (new_mem s)))) = Some ((SUCCESS, rows), w)"
    and "\<forall>row\<in>set rows. row_fits cols row"
  shows "\<exists>ss p1 q p2 r q'. select_plan (Suc n) atof db (Selects es [single_join tn] cs [] [] []) p = Some (Inr ss, p1) \<and>
    (case with_scans ss p1 of (ss, p) \<Rightarrow> generateOperatorFlow ss p) = Some (Inr q, p2) \<and>
    evaluate env q (pl_q p2) = Some ((SUCCESS, Some r), q') \<and> rel_rows r = query_rows cols es cs ct rows"
proof -
  have sub: "set cols \<subseteq> set (tm_fields (meta_of t s))" unfolding assms(5)[symmetric] by (rule set_drop_subset)
  have ir: "int_ready tn cols t (s, ops) (single_ctx db tn t) p"
    using assms(3,4,6,7) sub by (simp add: int_ready_def single_ctx_def)
  obtain xs fs us om p0 p1 ct' where pl: "select_plan (Suc n) atof db (Selects es [single_join tn] cs [] [] []) p =
        Some (Inr (single_stmt xs fs t (FilterStmt us om)), p1)"
      "exprs_ready tn cols (rev es) xs p p0" "units_ready tn cols us p0 p1" "where_shape us om ct'"
      "\<forall>sc row. table_schemas tn cols sc \<longrightarrow> where_holds sc us om ct' row \<longleftrightarrow>
       cs = [] \<or> tree_holds (\<lambda>j. cond_holds (\<lambda>f. column_value sc row (tn @ ''.'' @ f)) (cs ! j)) ct"
    using select_plan_int[OF assms(1,2) ir assms(8-10)] by blast
  have g: "grows p p1" using pl(2,3) grows_trans by (auto simp: exprs_ready_def units_ready_def)
  then have p1: "world (pl_q p1) = (s, ops)" "pl_oper p1 = pl_oper p" "pl_scan p1 = pl_scan p" using assms(3) by (simp_all add: grows_def)
  have "list_all int_tree xs" using pl(2) by (auto simp: exprs_ready_def means_def list_all_length list_all2_conv_all_nth)
  then obtain sc p2 where fl: "(case with_scans (single_stmt xs fs t (FilterStmt us om)) p1 of (ss, p) \<Rightarrow> generateOperatorFlow ss p) =
        Some (Inr (TransformerAndProjectOperator (Suc (Suc (pl_oper p))) (PredicateOperator1 (Suc (pl_oper p)) (ScanOperator (pl_oper p) (pl_scan p) sc) (FilterStmt us om)) xs), p2)"
      "table_schemas tn cols sc" "\<forall>n<pl_expr p1. exprs (pl_q p2) n = exprs (pl_q p1) n" "fresh_operators (pl_oper p) (pl_q p2)"
      "world (pl_q p2) = (snd (new_mem s), ops(pl_scan p := table_scan_new t (fst (new_mem s))))"
    using single_flow[OF p1(1) assms(4,5), of xs fs "FilterStmt us om"] unfolding p1 by blast
  have len: "\<forall>row\<in>set rows. length row = length sc"
    using assms(12) fl(2) by (auto simp: row_fits_def table_schemas_def dest!: list_all2_lengthD)
  let ?r = "\<lparr>rel_rows = rows, rel_schemas = sc, rel_multiTable = False\<rparr>"
  obtain s1 where s1: "evaluate env (ScanOperator (pl_oper p) (pl_scan p) sc) (pl_q p2) = Some ((SUCCESS, Some ?r), s1)" "exprs s1 = exprs (pl_q p2)"
      "opers s1 (Suc (pl_oper p)) = oper_init" "opers s1 (Suc (Suc (pl_oper p))) = oper_init"
    using fresh_scan[OF fl(4) _ len] assms(11) unfolding fl(5) by blast
  note ok = stmt_ready[OF pl(2,3) fl(2), of s1]
  obtain schemas s2 where ev: "evaluate env (TransformerAndProjectOperator (Suc (Suc (pl_oper p))) (PredicateOperator1 (Suc (pl_oper p)) (ScanOperator (pl_oper p) (pl_scan p) sc) (FilterStmt us om)) xs) (pl_q p2) =
      Some ((SUCCESS, Some \<lparr>rel_rows = map (value_row sc xs) (filter (where_holds sc us om ct') rows), rel_schemas = schemas,
        rel_multiTable = op_multiTable (opers s1 (Suc (Suc (pl_oper p))))\<rparr>), s2)"
    using select_int_rows[OF s1(1) pl(4), of xs "Suc (pl_oper p)" "Suc (Suc (pl_oper p))"] ok s1(2-4) fl(3) len assms(12)
    by (auto simp: oper_init_def)
  have "map (value_row sc xs) (filter (where_holds sc us om ct') rows) = query_rows cols es cs ct rows"
    using query_rows_eq[OF fl(2) _ assms(12) _ pl(5), of es xs] assms(7) pl(2) by (simp add: plain_columns_def exprs_ready_def)
  then show ?thesis using pl(1) fl(1) ev by force
qed

text \<open>\<^verbatim>\<open>SELECT id + 1 FROM t WHERE t.id > 2 OR id = 1\<close> on a table with the numbers 1, 2, null and 3.\<close>

definition id_field :: "string option \<Rightarrow> Expr" where
  "id_field tab = Expr None False (FieldExpression tab ''id'')"

definition int_const :: "string \<Rightarrow> Expr" where
  "int_const lit = Expr None False (ConstExpr INTS lit)"

definition demo_selects :: Selects where
  "demo_selects = Selects [Expr None False (BinaryExpr (id_field None) (int_const ''1'') OP_ADD)] [single_join ''t'']
     [Condition (Some (id_field (Some ''t''))) GREAT_THAN (Some (int_const ''2'')) (- 1) (- 1),
      Condition (Some (id_field None)) EQUAL_TO (Some (int_const ''1'')) (- 1) (- 1), Condition None OR_OP None 0 1] [] [] []"

definition query_db :: Db where
  "query_db = \<lparr>db_name = ''sys'', db_path = ''.'', opened_tables = [(''t'', 0)], db_next = 1\<rparr>"

definition demo_plan :: Plan where
  "demo_plan = \<lparr>pl_q = \<lparr>exprs = \<lambda>_. demo_obj, opers = \<lambda>_. demo_oper,
       world = (demo_sys (bpm_new (demo_os (record_file row_page))), \<lambda>_. table_scan_new 0 (\<lambda>_. 0))\<rparr>,
     pl_expr = 0, pl_oper = 0, pl_scan = 0, pl_alias = []\<rparr>"

definition demo_scan :: "table_world Env" where
  "demo_scan = \<lparr>env_atof = \<lambda>_. Fin 0, env_round = \<lambda>f _. f,
     env_scan = \<lambda>_ w. Some ((SUCCESS, map (\<lambda>(v, b). [IntItem v b, TextItem ''x'' False]) [(1, False), (2, False), (0, True), (3, False)]), w),
     env_close = \<lambda>_ w. Some (SUCCESS, w)\<rparr>"

abbreviation demo_cols :: "FieldMeta list" where
  "demo_cols \<equiv> layout 8 demo_attrs"

abbreviation query_state :: TableSys where
  "query_state \<equiv> demo_sys (bpm_new (demo_os (record_file row_page)))"

lemma demo_meta: "meta_of 0 query_state = demo_table" "ts_sys_fields query_state = sys_fields" "tm_fields demo_table = sys_fields @ demo_cols"
    "tm_name demo_table = ''t''"
  using demo_columns TableMeta_init_layout [of "''t''" demo_attrs "[]" False TableMeta_new] demo_attrs_ok valid_storable [of demo_attrs]
  by (simp_all add: demo_sys_def has_columns_def demo_table_def)

lemma demo_distinct: "distinct (map fm_name (tm_fields (meta_of 0 query_state)))"
  unfolding demo_meta by (simp add: demo_attrs_def sys_fields_def)

lemma demo_plain: "plain_columns ''t'' demo_cols"
  by (simp add: plain_columns_def plain_def demo_attrs_def is_blank_def isspace_def)

lemma demo_conditions: "conditions_ok ''t'' demo_cols (sel_conditions demo_selects) (Or (Leaf 0) (Leaf 1))"
  by (auto simp: conditions_ok_def demo_selects_def sql_condition_def id_field_def int_const_def demo_attrs_def literal_digits)

lemma demo_ready: "int_ready ''t'' demo_cols 0 (world (pl_q demo_plan)) (single_ctx query_db ''t'' 0) demo_plan"
  using demo_distinct demo_plain by (simp add: int_ready_def single_ctx_def demo_plan_def demo_meta)

lemma query_correct_witness:
  "\<exists>ss p1 q p2 r q'. select_plan 1 (\<lambda>_. Fin 0) query_db demo_selects demo_plan = Some (Inr ss, p1) \<and>
    (case with_scans ss p1 of (ss, p) \<Rightarrow> generateOperatorFlow ss p) = Some (Inr q, p2) \<and>
    evaluate demo_scan q (pl_q p2) = Some ((SUCCESS, Some r), q') \<and> rel_rows r = [[IntItem 2 False], [IntItem 4 False]]"
proof -
  let ?cols = demo_cols and ?s = query_state
  let ?es = "sel_expressions demo_selects" and ?cs = "sel_conditions demo_selects" and ?ct = "Or (Leaf 0) (Leaf 1)"
  let ?rows = "map (\<lambda>(v, b). [IntItem v b, TextItem ''x'' False]) [(1, False), (2, False), (0, True), (3, False)]"
  have es: "list_all (sql_int ''t'' ?cols) ?es" "distinct (List.map_filter expr_alias ?es)"
    by (simp_all add: demo_selects_def id_field_def int_const_def demo_attrs_def literal_digits List.map_filter_def)
  have rows: "\<forall>row\<in>set ?rows. row_fits ?cols row" by (auto simp: row_fits_def demo_attrs_def)
  have q: "query_rows ?cols ?es ?cs ?ct ?rows = [[IntItem 2 False], [IntItem 4 False]]"
    by (simp add: query_rows_def demo_selects_def id_field_def int_const_def demo_attrs_def literal_digits row_column_def cond_holds_def
        compare_values_def numberComp_def int_item_def int_op_def wrap32_def)
  have sel: "demo_selects = Selects ?es [single_join ''t''] ?cs [] [] []" by (simp add: demo_selects_def)
  have "\<exists>ss p1 q p2 r q'. select_plan (Suc 0) (\<lambda>_. Fin 0) query_db (Selects ?es [single_join ''t''] ?cs [] [] []) demo_plan = Some (Inr ss, p1) \<and>
    (case with_scans ss p1 of (ss, p) \<Rightarrow> generateOperatorFlow ss p) = Some (Inr q, p2) \<and>
    evaluate demo_scan q (pl_q p2) = Some ((SUCCESS, Some r), q') \<and> rel_rows r = query_rows ?cols ?es ?cs ?ct ?rows"
  proof (rule query_correct[where t = 0 and s = ?s and ops = "\<lambda>_. table_scan_new 0 (\<lambda>_. 0)"])
    show "find_table ''t'' query_db = Some 0" by (simp add: query_db_def find_table_def)
    show "pl_alias demo_plan = []" "world (pl_q demo_plan) = (?s, \<lambda>_. table_scan_new 0 (\<lambda>_. 0))" by (simp_all add: demo_plan_def)
    show "tm_name (meta_of 0 ?s) = ''t''" by (simp add: demo_meta)
    show "drop (length (ts_sys_fields ?s)) (tm_fields (meta_of 0 ?s)) = ?cols" by (simp add: demo_meta)
    show "distinct (map fm_name (tm_fields (meta_of 0 ?s)))" by (rule demo_distinct)
    show "env_scan demo_scan (pl_scan demo_plan) (snd (new_mem ?s), (\<lambda>_. table_scan_new 0 (\<lambda>_. 0))
        (pl_scan demo_plan := table_scan_new 0 (fst (new_mem ?s)))) = Some ((SUCCESS, ?rows), (snd (new_mem ?s), (\<lambda>_. table_scan_new 0 (\<lambda>_. 0))
        (pl_scan demo_plan := table_scan_new 0 (fst (new_mem ?s)))))" by (simp add: demo_scan_def)
  qed (use demo_plain es demo_conditions rows in auto)
  from this[folded sel, unfolded q] show ?thesis by (simp only: One_nat_def)
qed

text \<open>
  C5.  The filter of a \<^verbatim>\<open>WHERE\<close> clause is the clause: the conditions of the parser, in which each node names its children by their
  positions and the root is the last one, become units whose tree, read from the last unit on as the predicate operator does, holds on a
  row exactly when the conditions hold.  The objects of the units are new, distinct and hold the values of their constants.
\<close>

theorem where_clause_correct:
  assumes "int_ready tn cols t w c p" "cs \<noteq> []" "cond_encodes cs (int (length cs) - 1) ct" "\<forall>j\<in>leaves ct. sql_condition tn cols (cs ! j)"
  shows "\<exists>us om p' ct'. FilterStmt_create_tree atof sub c cs p = Some (Inr (FilterStmt us om), p') \<and> units_ready tn cols us p p' \<and>
    where_shape us om ct' \<and>
    (\<forall>sc row. table_schemas tn cols sc \<longrightarrow> where_holds sc us om ct' row =
       tree_holds (\<lambda>j. cond_holds (\<lambda>f. column_value sc row (tn @ ''.'' @ f)) (cs ! j)) ct)"
  using where_clause_int[OF assms(1), of cs ct atof sub] assms(2-4) by simp

lemma where_clause_correct_witness:
  "\<exists>us om p' ct'. FilterStmt_create_tree (\<lambda>_. Fin 0) (\<lambda>_ p. None) (single_ctx query_db ''t'' 0) (sel_conditions demo_selects) demo_plan =
      Some (Inr (FilterStmt us om), p') \<and> units_ready ''t'' (layout 8 demo_attrs) us demo_plan p' \<and> where_shape us om ct' \<and>
    (\<forall>sc row. table_schemas ''t'' (layout 8 demo_attrs) sc \<longrightarrow> where_holds sc us om ct' row =
       tree_holds (\<lambda>j. cond_holds (\<lambda>f. column_value sc row (''t.'' @ f)) (sel_conditions demo_selects ! j)) (Or (Leaf 0) (Leaf 1)))"
proof -
  have cs: "sel_conditions demo_selects \<noteq> []" by (simp add: demo_selects_def)
  have ct: "cond_encodes (sel_conditions demo_selects) (int (length (sel_conditions demo_selects)) - 1) (Or (Leaf 0) (Leaf 1))"
      "\<forall>j\<in>leaves (Or (Leaf 0) (Leaf 1)). sql_condition ''t'' (layout 8 demo_attrs) (sel_conditions demo_selects ! j)"
    using demo_conditions cs by (auto simp: conditions_ok_def)
  show ?thesis using where_clause_correct[OF demo_ready cs ct, of "\<lambda>_. Fin 0" "\<lambda>_ p. None"] by simp
qed

end
