(* ===== verification/Spec2Isabelle.thy ===== *)
theory Spec2Isabelle
  imports Ob_Rc Ob_Bitmap Ob_LowerBound Ob_LruCache Ob_MemPool Ob_RecordFileProps
    Ob_BplusScanner Ob_BplusUpdate Ob_ClogCrash Ob_ParseProps Ob_MetaProps Ob_FilterProps Ob_TrxProps
    Ob_TableProps Ob_DbProps Ob_JoinProps Ob_OrderProps Ob_AggProps Ob_ExecuteProps Ob_QueryProps
begin

text \<open>
  A verification library for the database server in \<open>src/src/observer\<close>, a derivative of MiniOB: a
  relational engine with paged files, a buffer pool, slotted record pages, B+ tree indexes, a redo log,
  transactions and a query evaluator.  Every theory below this one models one component as executable definitions
  translated from its source and proves what makes the component correct; this theory collects them.

  \<^bold>\<open>How the program is put together.\<close>  A statement is parsed into a tree, resolved against the catalog of tables and
  turned into operators.  Changes go through \<^verbatim>\<open>Table\<close>, which builds the bytes of a record, hands them to a record
  file, keeps the indexes in step, notes the change in the transaction and appends a record to the redo log.
  Record files and B+ trees see pages only through the buffer pool, which keeps a bounded number of frames and
  writes dirty ones back to the files.  A query runs a tree of operators over the scans of its tables.

  \<^bold>\<open>Conventions.\<close>  A function of the code is a HOL function of the same name where the name is free; its state is a
  record that is passed in and returned.  Return codes are values of the datatype \<open>RC\<close>, so that each early return is
  a branch.  The result \<open>None\<close> stands for what the language leaves undefined or what does not return: an access
  outside of an array, an uncaught exception, a loop without end (such loops are defined with
  \<^theory_text>\<open>partial_function (option)\<close>).  Theorems that say that an operation works state a result \<open>Some\<close>, so
  they include that it returns.  Integers keep their width where they can overflow; \<^verbatim>\<open>float\<close> is decoded to exact
  multiples of the least positive number.  No fuel is used: loops over data recurse on the data.

  \<^bold>\<open>Parameters.\<close>  What is not in \<open>src/src\<close> or is chosen by the system is an argument: which calls of the operating system
  fail and how many bytes they move (scripts in \<open>Ob_Io\<close> and \<open>Ob_Persist\<close>), the contents of memory that the
  code does not initialise (\<open>u\<close> in \<open>Ob_Clog\<close>, the stream \<open>ts_junk\<close> in \<open>Ob_Table\<close>), \<^verbatim>\<open>atof\<close>, the text form of JSON (writer
  and parser of jsoncpp), the entries of a directory, the iteration order of a hash table.  Theorems hold for all
  of them, or name as a hypothesis the documented law they use (the parser reads back what the writer wrote).

  \<^bold>\<open>Theories, sources and results.\<close>

  \<^item> \<open>Ob_Prelude\<close>, \<open>Ob_Bytes\<close>: machine types, bytes and integers in memory, shared list and word lemmas.
  \<^item> \<open>Ob_Rc\<close> (\<open>rc.h\<close>, \<open>rc.cpp\<close>): return codes; their numbers are distinct and printed by name.
  \<^item> \<open>Ob_BitScan\<close>, \<open>Ob_Bitmap\<close> (\<open>common/lang/bitmap.cpp\<close>): a locale of searches in bit sequences and its
    instance; the searches return the least position.
  \<^item> \<open>Ob_LowerBound\<close> (\<open>common/lang/lower_bound.h\<close>): binary search against its specification.
  \<^item> \<open>Ob_LruCache\<close> (\<open>common/lang/lru_cache.h\<close>): the doubly linked list on a heap refines a finite map with a
    recency order.
  \<^item> \<open>Ob_MemPool\<close> (\<open>common/mm/mem_pool.h\<close>): every trace of allocations and releases is safe.
  \<^item> \<open>Ob_Io\<close> (\<open>common/io/io.cpp\<close>): complete transfers whatever the system does.
  \<^item> \<open>Ob_FrameManager\<close>, \<open>Ob_BufferPool\<close>, \<open>Ob_BufferPoolProps\<close>, \<open>Ob_BufferPoolCorrect\<close>, \<open>Ob_BufferPoolHeader\<close>
    (\<open>storage/default/disk_buffer_pool.cpp\<close>): frames, eviction, the header page with its bitmap.  The pool refines a
    plain table of pages for every sequence of calls and every pattern of failures; allocation and disposal
    change exactly one bit.
  \<^item> \<open>Ob_RecordPage\<close>, \<open>Ob_RecordFile\<close>, \<open>Ob_RecordFileProps\<close> (\<open>storage/record/record_manager.cpp\<close>): a page refines a map from
    slots to records, files insert, read, update and delete exactly one record.
  \<^item> \<open>Ob_Comparator\<close> (\<open>util/comparator.cpp\<close>, \<open>util/util.cpp\<close>): comparison of values and \<^verbatim>\<open>LIKE\<close>.
  \<^item> \<open>Ob_IndexNode\<close>, \<open>Ob_ItemArray\<close>, \<open>Ob_IndexNodeProps\<close>, \<open>Ob_BplusTree\<close>, \<open>Ob_BplusFind\<close>, \<open>Ob_BplusUpdate\<close>,
    \<open>Ob_BplusScanner\<close> (\<open>storage/index/bplus_tree.cpp\<close>): nodes as bytes, the tree over the buffer pool, range scans.  Search,
    insertion and deletion refine the ordered list of entries where no node has to be split or merged; splits and
    merges are shown to keep the items of the nodes.
  \<^item> \<open>Ob_Persist\<close> (\<open>storage/persist/persist.cpp\<close>), \<open>Ob_Clog\<close>, \<open>Ob_ClogProps\<close>, \<open>Ob_ClogLayout\<close>, \<open>Ob_ClogRecover\<close>, \<open>Ob_ClogCrash\<close>
    (\<open>storage/clog/clog.cpp\<close>): the redo log as bytes; recovery after a crash yields the flushed records in order.
  \<^item> \<open>Ob_Parse\<close>, \<open>Ob_ParseProps\<close> (\<open>sql/parser/parse.cpp\<close>): the parse tree and the functions that build it.
  \<^item> \<open>Ob_Meta\<close>, \<open>Ob_MetaProps\<close> (\<open>storage/common/field_meta.cpp\<close>, \<open>index_meta.cpp\<close>, \<open>table_meta.cpp\<close>): layout of records and
    the round trip through JSON.
  \<^item> \<open>Ob_Filter\<close>, \<open>Ob_FilterProps\<close> (\<open>storage/common/condition_filter.cpp\<close>): filters of scans.
  \<^item> \<open>Ob_Trx\<close>, \<open>Ob_TrxProps\<close> (\<open>storage/trx/trx.cpp\<close>): visibility and pending operations; a locale of operation logs
    is interpreted on them.
  \<^item> \<open>Ob_Table\<close>, \<open>Ob_TableOps\<close>, \<open>Ob_TableScan\<close>, \<open>Ob_TableFile\<close>, \<open>Ob_TableProps\<close> (\<open>storage/common/table.cpp\<close>,
    \<open>storage/index/bplus_tree_index.cpp\<close>): records of rows, inserts with their log and rollback, scans, commit.
  \<^item> \<open>Ob_Db\<close>, \<open>Ob_DbProps\<close> (\<open>storage/common/db.cpp\<close>): the catalog and the redo of committed transactions.
  \<^item> \<open>Ob_Item\<close>, \<open>Ob_Expr\<close>, \<open>Ob_Calc\<close>, \<open>Ob_CalcProps\<close> (\<open>sql/expr/relation/\<close>, \<open>sql/expr/expresions/\<close>): items, rows, relations, and
    expressions as trees whose objects have addresses; a store holds the members that change.  Calculating an
    integer expression agrees with a pure evaluator and changes no object outside of it.
  \<^item> \<open>Ob_Compare\<close>, \<open>Ob_Aggregate\<close> (\<open>BaseExpression.cpp\<close>, \<open>AggregateFunction.cpp\<close>, \<open>sql/stmt/filter_stmt.cpp\<close>): comparisons, also with
    the relations of subqueries, trees of conditions, and the aggregate functions with their groups.
  \<^item> \<open>Ob_Operator\<close> (\<open>sql/operator/select/\<close>): scan, predicate, join, order, aggregation, projection and their composition.
  \<^item> \<open>Ob_RowTest\<close>: a locale for tests of rows, the contract between operators and filters; \<open>Ob_WhereProps\<close> interprets it on
    conditions over integers and shows that selection and projection return the right rows.
  \<^item> \<open>Ob_JoinProps\<close>, \<open>Ob_OrderProps\<close>, \<open>Ob_AggProps\<close>: a join visits the product of its sources, \<^verbatim>\<open>ORDER BY\<close> sorts unless two
    rows agree on all keys, aggregates of integers return their count, sum and extrema.
  \<^item> \<open>Ob_Tuple\<close>, \<open>Ob_TupleProps\<close> (\<open>sql/expr/tuple.h\<close>, \<open>tuple_cell.cpp\<close>, \<open>relation/Row.cpp\<close>, \<open>sql/operator/table_scan_operator.cpp\<close>, \<open>index_scan_operator.cpp\<close>):
    cells, tuples and the scans of tables and indexes; \<open>table_env\<close> gives the queries their rows.  A row shows the values its record was made of.
  \<^item> \<open>Ob_Execute\<close>, \<open>Ob_ExecuteProps\<close> (\<open>sql/executor/execute_stage.cpp\<close>, \<open>sql/stmt/insert_stmt.cpp\<close>, \<open>sql/operator/predicate_operator.cpp\<close>, \<open>delete_operator.cpp\<close>,
    \<open>update_operator.cpp\<close>, \<open>type_cast\<close> of \<open>util/util.cpp\<close>): the handlers of the statements that change data and of the transaction commands.  An
    update stores the assigned values and keeps the others; what a commit leaves behind and which range an index scan gets are lemmas.
    The loops over the rows of a scan are partial functions, as a scan may not end.
  \<^item> \<open>Ob_Construct\<close>, \<open>Ob_ConstructProps\<close> (\<^verbatim>\<open>constructExpression\<close> of \<open>util/util.cpp\<close>, \<open>FunctionHelper.cpp\<close>, \<open>sql/stmt/filter_stmt.cpp\<close>): expressions and filters are made from
    the parse tree.  A locale states what one condition gives; the tree of units is correct for whatever it gives, and integer conditions interpret it.
  \<^item> \<open>Ob_Plan\<close>, \<open>Ob_QueryProps\<close> (\<open>sql/stmt/select_stmt.cpp\<close>, \<open>delete_stmt.cpp\<close>, \<open>update_stmt.cpp\<close>, \<^verbatim>\<open>ExecuteStage::do_select\<close>): statements, the operators of a
    query and subqueries.  The first argument of \<open>select_plan\<close> is fuel: one more than the depth to which subqueries are nested is enough.  A query over one
    table, from its parse tree to the rows of its result, means what its text says; the theorem holds for each positive amount of fuel.
  \<^item> \<open>Ob_QueryDemo\<close>: the small queries that the examples evaluate.

  \<^bold>\<open>Not modelled.\<close>  The event framework and its threads (\<open>deps/common/seda\<close>), the network server and the sessions, the
  client: their behaviour is that of the operating system and of libevent.  The lexer and the parser are generated files; the
  model starts at the functions they call.  The stages of the pipeline pass events on.  The planner takes a database that exists and parse trees in
  which no node is shared.  Of \<^verbatim>\<open>try_to_create_index_scan_operator\<close> only the range is modelled: it compares names as pointers and never finds an index.  The help, desc and
  show index commands only print.  \<open>env_round\<close> is the double precision formula of \<^verbatim>\<open>ROUND\<close>.  Destructors and functions that only release memory have no counterpart, as values are not shared in
  the model except through the stores.  Logging, configuration, metrics and helpers of the operating system are left out, as are
  the vendored libraries.  Concurrent calls are not modelled: each operation runs to its end.
\<close>

end
